(* ===== verification/QT_Prelude.thy ===== *)
theory QT_Prelude
  imports Main "HOL-Library.List_Lexorder" "HOL-Library.Char_ord" "HOL-Library.Product_Lexorder"
begin

text \<open>
  Shared ground of the development: the error values of the Go stores, 64-bit arithmetic as Go
  computes it, and the fragment of SQL the stores use.

  A SQLite table is the list of its rows in rowid order. The statements of the stores are the
  functions below: \<open>sql_update\<close> is \<^verbatim>\<open>UPDATE .. SET .. WHERE ..\<close> and \<open>sql_count\<close> the value of
  \<^verbatim>\<open>RowsAffected\<close> (or of \<^verbatim>\<open>SELECT COUNT(*)\<close>), \<open>sql_first\<close> is \<^verbatim>\<open>QueryRow\<close> (the first row, or
  \<^verbatim>\<open>sql.ErrNoRows\<close>), \<open>sql_delete\<close> is \<^verbatim>\<open>DELETE .. WHERE ..\<close>, \<open>sql_sum\<close> is
  \<^verbatim>\<open>COALESCE(SUM(..),0)\<close> and \<open>sql_insert\<close> an \<^verbatim>\<open>INSERT\<close> into a table with a primary key, which
  fails on a duplicate key. \<^verbatim>\<open>ORDER BY\<close> is \<open>sort_key\<close>, a stable sort.
\<close>

section \<open>Errors and results\<close>

text \<open>The sentinel errors of store.go and redemption_store.go, the error of a violated SQLite
  constraint (primary key, unique index, foreign key, check), \<^verbatim>\<open>sql.ErrNoRows\<close> where the code
  returns it unmapped, and every other \<^verbatim>\<open>errors.New\<close> as \<open>ErrOther\<close>.\<close>

datatype error =
    ErrNotFound
  | ErrQuotaExceeded
  | ErrDownloadLimit
  | ErrConflict
  | ErrUnauthorized
  | ErrRateLimited
  | ErrTrafficExceeded
  | ErrInvalidRedemption
  | ErrRedemptionUnavailable
  | ErrConstraint
  | ErrNoRows
  | ErrOther

type_synonym 'a result = "error + 'a"

type_synonym ident = string
type_synonym unix_time = int

fun is_ok :: "'a result \<Rightarrow> bool" where
  "is_ok (Inl _) = False"
| "is_ok (Inr _) = True"

section \<open>Collections of facts\<close>

named_theorems sql_simps \<open>rewrite rules for the statements on tables\<close>
named_theorems key_intros \<open>statements that keep primary keys distinct\<close>

section \<open>Go integers\<close>

text \<open>The value of a Go \<^verbatim>\<open>int64\<close> expression whose exact value is the argument: two's complement
  wrap-around.\<close>

definition i64 :: "int \<Rightarrow> int" where
  "i64 x = (x + 2 ^ 63) mod 2 ^ 64 - 2 ^ 63"

definition max_int64 :: int where
  "max_int64 = 2 ^ 63 - 1"

text \<open>Go's integer division truncates towards zero.\<close>

definition go_div :: "int \<Rightarrow> int \<Rightarrow> int" where
  "go_div a b = sgn a * sgn b * (\<bar>a\<bar> div \<bar>b\<bar>)"

section \<open>Statements on tables\<close>

definition sql_update :: "('r \<Rightarrow> bool) \<Rightarrow> ('r \<Rightarrow> 'r) \<Rightarrow> 'r list \<Rightarrow> 'r list" where
  "sql_update p f t = map (\<lambda>r. if p r then f r else r) t"

definition sql_count :: "('r \<Rightarrow> bool) \<Rightarrow> 'r list \<Rightarrow> nat" where
  "sql_count p t = length (filter p t)"

definition sql_first :: "('r \<Rightarrow> bool) \<Rightarrow> 'r list \<Rightarrow> 'r option" where
  "sql_first p t = find p t"

definition sql_delete :: "('r \<Rightarrow> bool) \<Rightarrow> 'r list \<Rightarrow> 'r list" where
  "sql_delete p t = filter (\<lambda>r. \<not> p r) t"

definition sql_sum :: "('r \<Rightarrow> bool) \<Rightarrow> ('r \<Rightarrow> int) \<Rightarrow> 'r list \<Rightarrow> int" where
  "sql_sum p f t = sum_list (map f (filter p t))"

definition sql_insert :: "('r \<Rightarrow> 'k) \<Rightarrow> 'r \<Rightarrow> 'r list \<Rightarrow> 'r list result" where
  "sql_insert key r t = (if list_ex (\<lambda>x. key x = key r) t then Inl ErrConstraint else Inr (t @ [r]))"

definition sql_exists :: "('r \<Rightarrow> bool) \<Rightarrow> 'r list \<Rightarrow> bool" where
  "sql_exists p t = list_ex p t"

text \<open>A table whose primary key is the column \<open>key\<close> holds no key twice.\<close>

definition keyed :: "('r \<Rightarrow> 'k) \<Rightarrow> 'r list \<Rightarrow> bool" where
  "keyed key t = distinct (map key t)"

section \<open>Lemmas on Go integers\<close>

lemma i64_id: "- (2 ^ 63) \<le> x \<Longrightarrow> x \<le> max_int64 \<Longrightarrow> i64 x = x"
  by (simp add: i64_def max_int64_def)

lemma i64_range: "- (2 ^ 63) \<le> i64 x" "i64 x \<le> max_int64"
  by (simp_all add: i64_def max_int64_def)

lemma i64_wrap_up:
  assumes "max_int64 < x" "x \<le> 2 * max_int64"
  shows "i64 x = x - 2 ^ 64"
proof -
  have "(x + 2 ^ 63) mod 2 ^ 64 = (x + 2 ^ 63 - 2 ^ 64) mod 2 ^ 64"
    by (rule minus_mod_self2 [symmetric])
  also have "\<dots> = x + 2 ^ 63 - 2 ^ 64"
    using assms by (intro mod_pos_pos_trivial) (simp_all add: max_int64_def)
  finally show ?thesis by (simp add: i64_def)
qed

lemma go_div_nonneg: "0 \<le> a \<Longrightarrow> 0 < b \<Longrightarrow> go_div a b = a div b"
  by (cases "a = 0") (simp_all add: go_div_def sgn_if)

section \<open>Lemmas on tables\<close>

lemma key_in_image: "k \<in> key ` A \<longleftrightarrow> (\<exists>x \<in> A. key x = k)"
  by blast

lemma sql_exists_iff [sql_simps]: "sql_exists p t \<longleftrightarrow> (\<exists>r \<in> set t. p r)"
  by (simp add: sql_exists_def list_ex_iff)

lemma sql_update_Nil [simp]: "sql_update p f [] = []"
  and sql_update_Cons [simp]: "sql_update p f (r # t) = (if p r then f r else r) # sql_update p f t"
  and sql_update_append [simp]: "sql_update p f (t @ u) = sql_update p f t @ sql_update p f u"
  by (simp_all add: sql_update_def)

lemma set_sql_update: "set (sql_update p f t) = (\<lambda>r. if p r then f r else r) ` set t"
  by (simp add: sql_update_def)

lemma sql_update_memE:
  assumes "r \<in> set (sql_update p f t)"
  obtains (changed) x where "x \<in> set t" "p x" "r = f x"
  | (same) "r \<in> set t" "\<not> p r"
  using assms by (auto simp: sql_update_def split: if_splits)

lemma sql_update_mem: "r \<in> set t \<Longrightarrow> (if p r then f r else r) \<in> set (sql_update p f t)"
  by (simp add: sql_update_def)

lemma sql_update_keep: "r \<in> set t \<Longrightarrow> \<not> p r \<Longrightarrow> r \<in> set (sql_update p f t)"
  by (auto simp: sql_update_def)

lemma sql_update_none: "(\<And>r. r \<in> set t \<Longrightarrow> \<not> p r) \<Longrightarrow> sql_update p f t = t"
  by (induction t) auto

lemma sql_update_cong:
  "(\<And>r. r \<in> set t \<Longrightarrow> (if p r then f r else r) = (if q r then g r else r)) \<Longrightarrow>
   sql_update p f t = sql_update q g t"
  by (induction t) auto

lemma sql_update_compose:
  "sql_update p f (sql_update q g t) =
     sql_update (\<lambda>_. True) (\<lambda>r. let r' = (if q r then g r else r) in if p r' then f r' else r') t"
  by (induction t) (auto simp: Let_def)

lemma length_sql_update [simp]: "length (sql_update p f t) = length t"
  by (simp add: sql_update_def)

lemma sql_count_Nil [simp]: "sql_count p [] = 0"
  and sql_count_Cons [simp]: "sql_count p (r # t) = (if p r then Suc (sql_count p t) else sql_count p t)"
  and sql_count_append [simp]: "sql_count p (t @ u) = sql_count p t + sql_count p u"
  by (simp_all add: sql_count_def)

lemma sql_count_0_iff: "sql_count p t = 0 \<longleftrightarrow> (\<forall>r \<in> set t. \<not> p r)"
  by (induction t) auto

lemma sql_count_cong: "(\<And>r. r \<in> set t \<Longrightarrow> p r = q r) \<Longrightarrow> sql_count p t = sql_count q t"
  by (induction t) auto

lemma sql_sum_Nil [simp]: "sql_sum p f [] = 0"
  and sql_sum_Cons [simp]: "sql_sum p f (r # t) = (if p r then f r else 0) + sql_sum p f t"
  and sql_sum_append [simp]: "sql_sum p f (t @ u) = sql_sum p f t + sql_sum p f u"
  by (simp_all add: sql_sum_def)

lemma sql_sum_cong:
  "(\<And>r. r \<in> set t \<Longrightarrow> (if p r then f r else 0) = (if q r then g r else 0)) \<Longrightarrow>
   sql_sum p f t = sql_sum q g t"
  by (induction t) auto

lemma sql_sum_none: "(\<And>r. r \<in> set t \<Longrightarrow> \<not> p r) \<Longrightarrow> sql_sum p f t = 0"
  by (induction t) auto

lemma sql_sum_nonneg: "(\<And>r. r \<in> set t \<Longrightarrow> p r \<Longrightarrow> 0 \<le> f r) \<Longrightarrow> 0 \<le> sql_sum p f t"
  by (induction t) auto

lemma sql_sum_member_le:
  "\<lbrakk>r \<in> set t; p r; \<And>x. x \<in> set t \<Longrightarrow> p x \<Longrightarrow> 0 \<le> f x\<rbrakk> \<Longrightarrow> f r \<le> sql_sum p f t"
proof (induction t)
  case (Cons a t)
  have nn: "0 \<le> sql_sum p f t" using Cons.prems by (auto intro: sql_sum_nonneg)
  show ?case
  proof (cases "r = a")
    case True
    then show ?thesis using nn Cons.prems by simp
  next
    case False
    with Cons have "f r \<le> sql_sum p f t" by auto
    moreover have "p a \<Longrightarrow> 0 \<le> f a" using Cons.prems by simp
    ultimately show ?thesis unfolding sql_sum_Cons by (cases "p a") simp_all
  qed
qed simp

lemma sql_sum_mono:
  "(\<And>r. r \<in> set t \<Longrightarrow> (if p r then f r else 0) \<le> (if q r then g r else 0)) \<Longrightarrow>
   sql_sum p f t \<le> sql_sum q g t"
proof (induction t)
  case (Cons a t)
  have "sql_sum p f t \<le> sql_sum q g t" using Cons by simp
  moreover have "(if p a then f a else 0) \<le> (if q a then g a else 0)" using Cons.prems by simp
  ultimately show ?case unfolding sql_sum_Cons by linarith
qed simp

lemma sql_sum_split:
  "sql_sum p f t = sql_sum (\<lambda>r. p r \<and> q r) f t + sql_sum (\<lambda>r. p r \<and> \<not> q r) f t"
  by (induction t) auto

lemma sql_sum_update:
  "sql_sum p f (sql_update q g t) = sql_sum (\<lambda>r. p (if q r then g r else r)) (\<lambda>r. f (if q r then g r else r)) t"
  by (induction t) auto

lemma sql_count_update:
  "sql_count p (sql_update q g t) = sql_count (\<lambda>r. p (if q r then g r else r)) t"
  by (induction t) auto

subsection \<open>Row lookup\<close>

lemma sql_first_Some:
  assumes "sql_first p t = Some r"
  shows "r \<in> set t" and "p r"
  using assms by (auto simp: sql_first_def find_Some_iff)

lemma sql_firstD: "sql_first p t = Some r \<Longrightarrow> r \<in> set t \<and> p r"
  by (simp add: sql_first_Some)

lemma sql_first_None [sql_simps]: "sql_first p t = None \<longleftrightarrow> (\<forall>r \<in> set t. \<not> p r)"
  by (auto simp: sql_first_def find_None_iff)

lemma sql_first_Nil [simp]: "sql_first p [] = None"
  and sql_first_Cons [simp]: "sql_first p (r # t) = (if p r then Some r else sql_first p t)"
  by (simp_all add: sql_first_def)

lemma keyed_unique: "keyed key t \<Longrightarrow> r \<in> set t \<Longrightarrow> s \<in> set t \<Longrightarrow> key r = key s \<Longrightarrow> r = s"
  by (auto simp: keyed_def distinct_map inj_on_def)

lemma keyed_first:
  assumes "keyed key t" "r \<in> set t"
  shows "sql_first (\<lambda>x. key x = key r) t = Some r"
proof -
  obtain s where s: "sql_first (\<lambda>x. key x = key r) t = Some s"
    using assms(2) by (cases "sql_first (\<lambda>x. key x = key r) t") (auto simp: sql_first_None)
  with assms have "s = r" by (auto dest: sql_first_Some intro: keyed_unique)
  with s show ?thesis by simp
qed

lemma keyed_count_le_1: "keyed key t \<Longrightarrow> sql_count (\<lambda>r. key r = k \<and> p r) t \<le> 1"
proof (induction t)
  case (Cons a t)
  have k: "keyed key t" using Cons.prems by (simp add: keyed_def)
  show ?case
  proof (cases "key a = k \<and> p a")
    case True
    then have "sql_count (\<lambda>r. key r = k \<and> p r) t = 0"
      using Cons.prems by (auto simp: keyed_def sql_count_0_iff key_in_image)
    then show ?thesis using True by simp
  next
    case False
    then show ?thesis using Cons.IH [OF k] by auto
  qed
qed simp

lemma keyed_count_1:
  assumes "keyed key t"
  shows "sql_count (\<lambda>r. key r = k \<and> p r) t = 1 \<longleftrightarrow> (\<exists>r \<in> set t. key r = k \<and> p r)"
proof -
  have "sql_count (\<lambda>r. key r = k \<and> p r) t \<le> 1" using assms by (rule keyed_count_le_1)
  moreover have "sql_count (\<lambda>r. key r = k \<and> p r) t = 0 \<longleftrightarrow> \<not> (\<exists>r \<in> set t. key r = k \<and> p r)"
    by (auto simp: sql_count_0_iff)
  ultimately show ?thesis by linarith
qed

subsection \<open>Statements and keys\<close>

lemma keyed_update [key_intros]:
  "(\<And>r. key (f r) = key r) \<Longrightarrow> keyed key t \<Longrightarrow> keyed key (sql_update p f t)"
proof -
  assume f: "\<And>r. key (f r) = key r" and k: "keyed key t"
  have "map key (sql_update p f t) = map key t"
    by (induction t) (auto simp: f)
  then show ?thesis using k by (simp add: keyed_def)
qed

lemma keyed_delete [key_intros]: "keyed key t \<Longrightarrow> keyed key (sql_delete p t)"
  by (simp add: keyed_def sql_delete_def distinct_map_filter)

lemma keyed_append: "keyed key (t @ [r]) \<longleftrightarrow> keyed key t \<and> key r \<notin> key ` set t"
  by (auto simp: keyed_def)

lemma sql_insert_Inr [sql_simps]:
  "sql_insert key r t = Inr t' \<longleftrightarrow> key r \<notin> key ` set t \<and> t' = t @ [r]"
  by (auto simp: sql_insert_def list_ex_iff key_in_image)

lemma sql_insert_Inl [sql_simps]:
  "sql_insert key r t = Inl e \<longleftrightarrow> key r \<in> key ` set t \<and> e = ErrConstraint"
  by (auto simp: sql_insert_def list_ex_iff key_in_image)

lemma keyed_insert [key_intros]: "keyed key t \<Longrightarrow> sql_insert key r t = Inr t' \<Longrightarrow> keyed key t'"
  by (auto simp: sql_insert_Inr keyed_append)

text \<open>An update of the one row with key \<open>k\<close> moves one summand of a sum over the table.\<close>

lemma keyed_sum_update_row:
  assumes "keyed key t" "r \<in> set t" "p r"
  shows "sql_sum q f (sql_update (\<lambda>x. key x = key r \<and> p x) g t)
       = sql_sum q f t - (if q r then f r else 0) + (if q (g r) then f (g r) else 0)"
  using assms
proof (induction t)
  case (Cons a t)
  show ?case
  proof (cases "a = r")
    case True
    have "\<And>x. x \<in> set t \<Longrightarrow> key x \<noteq> key r"
      using Cons.prems True by (auto simp: keyed_def key_in_image)
    then have "sql_update (\<lambda>x. key x = key r \<and> p x) g t = t"
      by (auto intro: sql_update_none)
    then show ?thesis using True Cons.prems by simp
  next
    case False
    then have "key a \<noteq> key r" using Cons.prems by (auto dest: keyed_unique)
    moreover have "keyed key t" "r \<in> set t" using Cons.prems False by (auto simp: keyed_def)
    ultimately show ?thesis using Cons.IH Cons.prems by simp
  qed
qed simp

lemma int_sql_count: "int (sql_count p t) = sql_sum p (\<lambda>_. 1) t"
  by (induction t) auto

lemma keyed_count_update_row:
  assumes "keyed key t" "r \<in> set t" "p r"
  shows "int (sql_count q (sql_update (\<lambda>x. key x = key r \<and> p x) g t))
       = int (sql_count q t) - (if q r then 1 else 0) + (if q (g r) then 1 else 0)"
  unfolding int_sql_count using assms by (rule keyed_sum_update_row)

subsection \<open>ORDER BY does not change a sum\<close>

lemma sql_sum_insort: "sql_sum p f (insort_key k r t) = (if p r then f r else 0) + sql_sum p f t"
  by (induction t) auto

lemma sql_sum_sort_key [simp]: "sql_sum p f (sort_key k t) = sql_sum p f t"
  by (induction t) (auto simp: sql_sum_insort)

lemma sql_sum_filter: "sql_sum p f (filter q t) = sql_sum (\<lambda>r. q r \<and> p r) f t"
  by (induction t) auto

lemma sum_list_sql_sum: "sum_list (map f t) = sql_sum (\<lambda>_. True) f t"
  by (simp add: sql_sum_def)

subsection \<open>Counting under updates\<close>

lemma sql_count_update_le:
  "(\<And>r. r \<in> set t \<Longrightarrow> p r \<Longrightarrow> q (f r) \<Longrightarrow> q r) \<Longrightarrow> sql_count q (sql_update p f t) \<le> sql_count q t"
  by (induction t) (auto simp: le_Suc_eq)

lemma sql_count_update_same:
  "(\<And>r. r \<in> set t \<Longrightarrow> p r \<Longrightarrow> q (f r) = q r) \<Longrightarrow> sql_count q (sql_update p f t) = sql_count q t"
  by (induction t) auto

lemma keyed_hit:
  assumes "keyed key t" "sql_count (\<lambda>r. key r = k \<and> p r) t = 1"
  obtains r where "r \<in> set t" "key r = k" "p r"
  using assms keyed_count_1 by metis

lemma keyed_update_row:
  assumes "keyed key t" "r \<in> set t" "p r"
  shows "sql_update (\<lambda>x. key x = key r \<and> p x) f t = sql_update (\<lambda>x. key x = key r) f t"
  using assms by (intro sql_update_cong) (auto dest: keyed_unique)

lemma sql_update_mem_iff_key:
  assumes "\<And>r. key (f r) = key r"
  shows "k \<in> key ` set (sql_update p f t) \<longleftrightarrow> k \<in> key ` set t"
  using assms by (induction t) auto

end
