(* ===== verification/Control_Schema.thy ===== *)
theory Control_Schema
  imports QT_Prelude
begin

text \<open>
  The state of the control plane: one row type per table of its SQLite database (types.go,
  account_types.go and the \<^verbatim>\<open>CREATE TABLE\<close> statements of store.go and migrations.go) and the
  record \<open>cdb\<close> of all tables. Columns that carry a \<^verbatim>\<open>CHECK(.. IN ..)\<close> constraint or a set of
  constants of the source are datatypes; text the code normalises itself is \<open>string\<close>.
  Columns that no modelled statement reads are left out (hashes of addresses and user agents of a
  session, descriptions and sort order of products, the retired storage counters).
  Byte counts and times are \<open>int\<close>. Foreign keys are enforced (\<^verbatim>\<open>foreign_keys=ON\<close>), so an
  \<^verbatim>\<open>INSERT\<close> whose parent row is missing fails; the predicates at the end name those checks.
\<close>

section \<open>Transfers and uploads\<close>

datatype transfer_kind = Send | Collection
datatype transfer_status = TransferActive | TransferExhausted | TransferExpired | TransferRevoked
datatype download_limit_mode = LegacyFile | RetrievalSessionV1

record transfer =
  t_id :: ident
  t_kind :: transfer_kind
  t_title :: string
  t_share_token :: string
  t_manage_hash :: string
  t_pickup_code :: string
  t_access_hash :: string
  t_status :: transfer_status
  t_expires_at :: unix_time
  t_created_at :: unix_time
  t_max_downloads :: int
  t_downloads :: int
  t_total_bytes :: int
  t_file_count :: int
  t_owner_type :: string
  t_owner_id :: ident
  t_policy_max_file_bytes :: int
  t_policy_max_task_bytes :: int
  t_policy_max_files :: int
  t_download_limit_mode :: download_limit_mode
  t_delete_on_exhaustion :: bool

datatype upload_status = Uploading | Uploaded | Scanning | Ready | Blocked | Quarantined | Deleted

abbreviation StorageKindLocal :: string where "StorageKindLocal \<equiv> ''local''"
abbreviation StorageKindNode :: string where "StorageKindNode \<equiv> ''node''"
abbreviation (input) StoragePlacementVersionV1 :: int where "StoragePlacementVersionV1 \<equiv> 1"

record upload =
  u_id :: ident
  u_transfer_id :: ident
  u_upload_hash :: string
  u_original_name :: string
  u_content_type :: string
  u_length :: int
  u_offset :: int
  u_status :: upload_status
  u_temp_path :: string
  u_object_path :: string
  u_sha256 :: string
  u_scan_detail :: string
  u_submitter_name :: string
  u_created_at :: unix_time
  u_completed_at :: unix_time
  u_storage_released :: bool
  u_storage_kind :: string
  u_storage_node_id :: string
  u_storage_key :: string
  u_storage_version :: int

section \<open>Users and sessions\<close>

datatype user_status = UserPending | UserActive | UserBlocked
datatype user_role = RoleUser | RoleAdmin

record user =
  us_id :: ident
  us_email :: string
  us_username :: string
  us_password_hash :: string
  us_status :: user_status
  us_role :: user_role
  us_vip_plan :: string
  us_vip_expires_at :: unix_time
  us_must_change_password :: bool
  us_created_at :: unix_time
  us_verified_at :: unix_time
  us_last_login_at :: unix_time

record user_session =
  se_id :: ident
  se_user_id :: ident
  se_token_hash :: string
  se_csrf_token :: string
  se_created_at :: unix_time
  se_expires_at :: unix_time
  se_last_seen_at :: unix_time
  se_revoked_at :: unix_time

datatype code_purpose = PurposeVerify | PurposeReset

record verification_code =
  vc_id :: ident
  vc_user_id :: ident
  vc_purpose :: code_purpose
  vc_code_hash :: string
  vc_created_at :: unix_time
  vc_expires_at :: unix_time
  vc_attempts :: int
  vc_consumed_at :: unix_time

record guest_session =
  gs_id :: ident
  gs_token_hash :: string
  gs_created_at :: unix_time
  gs_last_seen_at :: unix_time

text \<open>Consent evidence of the document type \<^verbatim>\<open>combined-terms\<close>, the only one the code writes, and
  the archived documents it refers to.\<close>

record user_consent =
  uc_id :: ident
  uc_user_id :: ident
  uc_document_version :: string
  uc_document_hash :: string
  uc_accepted_at :: unix_time
  uc_ip_hash :: string
  uc_user_agent_hash :: string

record legal_document =
  ld_version :: string
  ld_document_hash :: string

section \<open>Resources: accounts, entitlements, upload charges\<close>

text \<open>The sentinel expiry of permanent traffic and the name of the permanent base source
  (account_types.go).\<close>

abbreviation permanentTrafficEntitlementExpiry :: unix_time where
  "permanentTrafficEntitlementExpiry \<equiv> 253402300799"
abbreviation permanentBaseTrafficSource :: string where
  "permanentBaseTrafficSource \<equiv> ''permanent''"

record resource_account =
  a_user_id :: ident
  a_free_traffic_remaining :: int
  a_free_traffic_period :: string
  a_traffic_reserved_bytes :: int
  a_points_balance :: int
  a_updated_at :: unix_time

datatype resource_type = StorageResource | TrafficResource

record entitlement =
  e_id :: ident
  e_user_id :: ident
  e_resource_type :: resource_type
  e_amount_bytes :: int
  e_remaining_bytes :: int
  e_expires_at :: unix_time
  e_source_type :: string
  e_source_id :: ident
  e_created_at :: unix_time

datatype charge_status = ChargeReserved | ChargeSettled | ChargeRefunded | ChargeGrandfathered

record upload_charge =
  c_upload_id :: ident
  c_user_id :: ident
  c_amount_bytes :: int
  c_status :: charge_status
  c_created_at :: unix_time
  c_settled_at :: unix_time

datatype source_kind = FreeSource | EntitlementSource

record upload_allocation =
  al_upload_id :: ident
  al_ordinal :: nat
  al_source_kind :: source_kind
  al_source_id :: ident
  al_amount_bytes :: int

section \<open>Downloads: reservations, runtime leases, retrieval sessions\<close>

datatype reservation_status = ResReserved | ResConsuming | ResSettled | ResReleased

record download_reservation =
  d_id :: ident
  d_upload_id :: ident
  d_transfer_id :: ident
  d_retrieval_session_id :: ident
  d_user_id :: ident
  d_reserved_bytes :: int
  d_actual_bytes :: int
  d_status :: reservation_status
  d_created_at :: unix_time
  d_expires_at :: unix_time
  d_settled_at :: unix_time
  d_recipient_key :: string

record reservation_runtime =
  rt_reservation_id :: ident
  rt_started_at :: unix_time
  rt_lease_expires_at :: unix_time
  rt_hard_expires_at :: unix_time
  rt_last_progress_at :: unix_time

datatype session_status = SessProvisional | SessActive | SessClosed | SessReleased

record retrieval_session =
  s_id :: ident
  s_transfer_id :: ident
  s_recipient_key :: string
  s_status :: session_status
  s_created_at :: unix_time
  s_expires_at :: unix_time
  s_hard_expires_at :: unix_time
  s_last_used_at :: unix_time
  s_completed_at :: unix_time

section \<open>Commerce: products, orders, points\<close>

record product =
  p_id :: ident
  p_name :: string
  p_traffic_bytes :: int
  p_valid_days :: int
  p_vip_plan :: string
  p_vip_days :: int
  p_price_cents :: int
  p_points_price :: int
  p_active :: bool

datatype order_status = OrderPending | OrderPaid | OrderClosed | OrderRefunded

record order =
  o_id :: ident
  o_idempotency_key :: string
  o_user_id :: ident
  o_product_id :: ident
  o_product_name :: string
  o_price_cents :: int
  o_points_price :: int
  o_payment_method :: string
  o_status :: order_status
  o_provider_transaction_id :: string
  o_created_at :: unix_time
  o_paid_at :: unix_time
  o_refunded_at :: unix_time

record payment_event =
  pe_event_id :: ident
  pe_order_id :: ident
  pe_payload_hash :: string
  pe_created_at :: unix_time

record points_entry =
  pl_id :: ident
  pl_user_id :: ident
  pl_delta :: int
  pl_balance_after :: int
  pl_reason :: string
  pl_event_key :: string
  pl_created_at :: unix_time

section \<open>Redemption, welfare, limits, audit\<close>

datatype batch_status = BatchActive | BatchDisabled
datatype code_status = CodeActive | CodeRedeemed | CodeDisabled

record redemption_batch =
  b_id :: ident
  b_kind :: string
  b_quantity :: int
  b_traffic_bytes :: int
  b_vip_plan :: string
  b_vip_days :: int
  b_status :: batch_status
  b_expires_at :: unix_time
  b_note :: string
  b_created_by :: ident
  b_created_at :: unix_time
  b_disabled_at :: unix_time

record redemption_code =
  k_id :: ident
  k_batch_id :: ident
  k_code_hash :: string
  k_masked_code :: string
  k_protected_code :: string
  k_status :: code_status
  k_redeemed_by :: ident
  k_redeemed_at :: unix_time
  k_created_at :: unix_time

record daily_checkin =
  ci_id :: ident
  ci_user_id :: ident
  ci_date :: string
  ci_reward_bytes :: int
  ci_created_at :: unix_time

record vip_grant =
  vg_id :: ident
  vg_user_id :: ident
  vg_date :: string
  vg_vip_plan :: string
  vg_reward_bytes :: int
  vg_created_at :: unix_time

record rate_limit =
  rl_bucket_key :: string
  rl_window_start :: unix_time
  rl_request_count :: int
  rl_amount :: int

record audit_log =
  au_id :: ident
  au_user_id :: ident
  au_action :: string
  au_target_type :: string
  au_target_id :: ident
  au_detail :: string
  au_ip :: string
  au_created_at :: unix_time

datatype report_status = ReportOpen | ReportResolved | ReportRejected

record abuse_report =
  ar_id :: ident
  ar_share_token :: string
  ar_reason :: string
  ar_detail :: string
  ar_ip :: string
  ar_status :: report_status
  ar_created_at :: unix_time
  ar_resolved_at :: unix_time

section \<open>The database\<close>

record cdb =
  transfers :: "transfer list"
  uploads :: "upload list"
  users :: "user list"
  user_sessions :: "user_session list"
  verification_codes :: "verification_code list"
  accounts :: "resource_account list"
  entitlements :: "entitlement list"
  charges :: "upload_charge list"
  allocations :: "upload_allocation list"
  reservations :: "download_reservation list"
  runtimes :: "reservation_runtime list"
  sessions :: "retrieval_session list"
  products :: "product list"
  orders :: "order list"
  payment_events :: "payment_event list"
  points_ledger :: "points_entry list"
  batches :: "redemption_batch list"
  codes :: "redemption_code list"
  checkins :: "daily_checkin list"
  vip_grants :: "vip_grant list"
  rate_limits :: "rate_limit list"
  audits :: "audit_log list"
  reports :: "abuse_report list"
  guest_sessions :: "guest_session list"
  consents :: "user_consent list"
  legal_documents :: "legal_document list"

definition empty_cdb :: cdb where
  "empty_cdb = \<lparr>transfers = [], uploads = [], users = [], user_sessions = [], verification_codes = [],
     accounts = [], entitlements = [], charges = [], allocations = [], reservations = [],
     runtimes = [], sessions = [], products = [], orders = [], payment_events = [],
     points_ledger = [], batches = [], codes = [], checkins = [], vip_grants = [],
     rate_limits = [], audits = [], reports = [], guest_sessions = [],
     consents = [], legal_documents = []\<rparr>"

text \<open>An operation on the database: its result, and the database after its last commit. A
  transaction that ends without \<^verbatim>\<open>Commit\<close> leaves the database it started from (the deferred
  \<^verbatim>\<open>tx.Rollback()\<close>).\<close>

type_synonym 'a operation = "cdb \<Rightarrow> 'a result \<times> cdb"

definition commit :: "cdb \<Rightarrow> ('a \<times> cdb) result \<Rightarrow> 'a result \<times> cdb" where
  "commit db r = (case r of Inl e \<Rightarrow> (Inl e, db) | Inr (x, db') \<Rightarrow> (Inr x, db'))"

section \<open>Foreign keys\<close>

definition user_exists :: "cdb \<Rightarrow> ident \<Rightarrow> bool" where
  "user_exists db uid = sql_exists (\<lambda>u. us_id u = uid) (users db)"

definition upload_exists :: "cdb \<Rightarrow> ident \<Rightarrow> bool" where
  "upload_exists db i = sql_exists (\<lambda>u. u_id u = i) (uploads db)"

definition transfer_exists :: "cdb \<Rightarrow> ident \<Rightarrow> bool" where
  "transfer_exists db i = sql_exists (\<lambda>t. t_id t = i) (transfers db)"

lemma commit_simps [simp]:
  "commit db (Inl e) = (Inl e, db)"
  "commit db (Inr (x, db')) = (Inr x, db')"
  by (simp_all add: commit_def)

lemma commit_fst_Inr: "commit db r = (Inr x, db') \<longleftrightarrow> r = Inr (x, db')"
  by (cases r) auto

lemma commit_fst_Inl: "commit db r = (Inl e, db') \<longleftrightarrow> r = Inl e \<and> db' = db"
  by (cases r) auto

end
