(* ===== verification/Upload_Traffic.thy ===== *)
theory Upload_Traffic
  imports Control_Schema
begin

text \<open>
  Upload traffic (commerce_store.go): the three-state ledger reserve / settle / refund over the
  permanent base balance of \<^verbatim>\<open>resource_accounts\<close>, the purchased or granted
  \<^verbatim>\<open>resource_entitlements\<close>, the charge of each upload and its allocation to sources.

  \<open>traffic_inv\<close> is the consistency of these tables: the reserved counter of an account is the sum
  of its reserved charges and of the legacy download holds, every reserved charge is covered
  exactly by its allocations, and no source is promised more bytes than it holds. Reserving keeps
  it; settling a reserved charge under it always succeeds and debits exactly the charged bytes;
  refunding gives the hold back and leaves every balance alone.
\<close>

section \<open>Operations\<close>

text \<open>The two statements of ensureTrafficAccountTx: \<^verbatim>\<open>INSERT OR IGNORE\<close> of the account, and the
  one-time conversion of a monthly balance into the permanent one.\<close>

definition insert_account_or_ignore :: "ident \<Rightarrow> int \<Rightarrow> unix_time \<Rightarrow> cdb \<Rightarrow> cdb result" where
  "insert_account_or_ignore userID initial now db =
     (if sql_exists (\<lambda>a. a_user_id a = userID) (accounts db) then Inr db
      else if \<not> user_exists db userID then Inl ErrConstraint
      else Inr (db\<lparr>accounts := accounts db @
        [\<lparr>a_user_id = userID, a_free_traffic_remaining = initial,
          a_free_traffic_period = permanentBaseTrafficSource,
          a_traffic_reserved_bytes = 0, a_points_balance = 0, a_updated_at = now\<rparr>]\<rparr>))"

definition make_base_permanent :: "ident \<Rightarrow> int \<Rightarrow> unix_time \<Rightarrow> cdb \<Rightarrow> cdb" where
  "make_base_permanent userID initial now db =
     db\<lparr>accounts := sql_update
       (\<lambda>a. a_user_id a = userID \<and> a_free_traffic_period a \<noteq> permanentBaseTrafficSource)
       (\<lambda>a. a\<lparr>a_free_traffic_remaining :=
                (if a_free_traffic_period a = '''' \<and> a_free_traffic_remaining a = 0
                 then initial else a_free_traffic_remaining a),
              a_free_traffic_period := permanentBaseTrafficSource,
              a_updated_at := now\<rparr>)
       (accounts db)\<rparr>"

definition ensureTrafficAccountTx :: "ident \<Rightarrow> int \<Rightarrow> unix_time \<Rightarrow> cdb \<Rightarrow> cdb result" where
  "ensureTrafficAccountTx userID initialTraffic now db =
     (let initial = max initialTraffic 0
      in case insert_account_or_ignore userID initial now db of
           Inl e \<Rightarrow> Inl e
         | Inr db1 \<Rightarrow> Inr (make_base_permanent userID initial now db1))"

text \<open>The query of the planner: allocations joined with the reserved charges of a user.\<close>

definition reserved_charge :: "cdb \<Rightarrow> ident \<Rightarrow> ident \<Rightarrow> bool" where
  "reserved_charge db userID uploadID =
     sql_exists (\<lambda>c. c_upload_id c = uploadID \<and> c_user_id c = userID \<and> c_status c = ChargeReserved)
       (charges db)"

definition allocated_from :: "cdb \<Rightarrow> ident \<Rightarrow> source_kind \<Rightarrow> ident \<Rightarrow> int" where
  "allocated_from db userID kind sid =
     sql_sum (\<lambda>a. reserved_charge db userID (al_upload_id a) \<and>
                  al_source_kind a = kind \<and> al_source_id a = sid)
       al_amount_bytes (allocations db)"

definition snapshotted_reserved :: "cdb \<Rightarrow> ident \<Rightarrow> int" where
  "snapshotted_reserved db userID =
     sql_sum (\<lambda>a. reserved_charge db userID (al_upload_id a)) al_amount_bytes (allocations db)"

record traffic_source =
  ts_kind :: source_kind
  ts_id :: ident
  ts_available :: int

record planned_allocation =
  pa_ordinal :: nat
  pa_source_kind :: source_kind
  pa_source_id :: ident
  pa_reserved :: int

text \<open>The sources in the order they are spent: the base balance, then the unexpired traffic
  entitlements by expiry and id.\<close>

definition traffic_sources :: "cdb \<Rightarrow> ident \<Rightarrow> resource_account \<Rightarrow> unix_time \<Rightarrow> traffic_source list" where
  "traffic_sources db userID acct now =
     \<lparr>ts_kind = FreeSource, ts_id = a_free_traffic_period acct,
      ts_available = max (a_free_traffic_remaining acct
                          - allocated_from db userID FreeSource (a_free_traffic_period acct)) 0\<rparr>
     # map (\<lambda>e. \<lparr>ts_kind = EntitlementSource, ts_id = e_id e,
                  ts_available = max (e_remaining_bytes e
                                      - allocated_from db userID EntitlementSource (e_id e)) 0\<rparr>)
         (sort_key (\<lambda>e. (e_expires_at e, e_id e))
           (filter (\<lambda>e. e_user_id e = userID \<and> e_resource_type e = TrafficResource \<and>
                        e_expires_at e > now \<and> e_remaining_bytes e > 0)
             (entitlements db)))"

text \<open>The first loop of the planner: legacy holds eat into the sources in order.\<close>

fun absorb_legacy :: "int \<Rightarrow> traffic_source list \<Rightarrow> traffic_source list" where
  "absorb_legacy legacyReserved [] = []"
| "absorb_legacy legacyReserved (s # ss) =
     (let used = min (ts_available s) legacyReserved
      in s\<lparr>ts_available := ts_available s - used\<rparr> # absorb_legacy (legacyReserved - used) ss)"

text \<open>The second loop: take from each source what is still needed, skip empty sources, stop when
  nothing is missing. Returns the allocations and what remains uncovered.\<close>

fun allocate_sources :: "nat \<Rightarrow> int \<Rightarrow> traffic_source list \<Rightarrow> planned_allocation list \<times> int" where
  "allocate_sources n remaining [] = ([], remaining)"
| "allocate_sources n remaining (s # ss) =
     (let amount = min (max (ts_available s) 0) remaining
      in if amount \<le> 0 then allocate_sources n remaining ss
         else (let pa = \<lparr>pa_ordinal = n, pa_source_kind = ts_kind s, pa_source_id = ts_id s,
                         pa_reserved = amount\<rparr>
               in if remaining - amount = 0 then ([pa], 0)
                  else (let (pas, rest) = allocate_sources (Suc n) (remaining - amount) ss
                        in (pa # pas, rest))))"

definition planUploadTrafficAllocationsTx ::
  "ident \<Rightarrow> int \<Rightarrow> unix_time \<Rightarrow> cdb \<Rightarrow> planned_allocation list result" where
  "planUploadTrafficAllocationsTx userID required now db =
     (case sql_first (\<lambda>a. a_user_id a = userID) (accounts db) of
        None \<Rightarrow> Inl ErrNoRows
      | Some acct \<Rightarrow>
          let legacyReserved =
                max (a_traffic_reserved_bytes acct - snapshotted_reserved db userID) 0;
              (pas, remaining) =
                allocate_sources 0 required
                  (absorb_legacy legacyReserved (traffic_sources db userID acct now))
          in if remaining > 0 then Inl ErrTrafficExceeded else Inr pas)"

text \<open>Inserting the planned allocations of one upload.\<close>

fun insert_allocations ::
  "ident \<Rightarrow> planned_allocation list \<Rightarrow> upload_allocation list \<Rightarrow> upload_allocation list result" where
  "insert_allocations uploadID [] t = Inr t"
| "insert_allocations uploadID (pa # pas) t =
     (let row = \<lparr>al_upload_id = uploadID, al_ordinal = pa_ordinal pa,
                 al_source_kind = pa_source_kind pa, al_source_id = pa_source_id pa,
                 al_amount_bytes = pa_reserved pa\<rparr>
      in if \<not> al_amount_bytes row > 0 then Inl ErrConstraint
         else case sql_insert (\<lambda>a. (al_upload_id a, al_ordinal a)) row t of
                Inl e \<Rightarrow> Inl e
              | Inr t' \<Rightarrow> insert_allocations uploadID pas t')"

definition reserveUploadTrafficTx ::
  "ident \<Rightarrow> ident \<Rightarrow> int \<Rightarrow> int \<Rightarrow> unix_time \<Rightarrow> cdb \<Rightarrow> cdb result" where
  "reserveUploadTrafficTx uploadID userID required monthlyTraffic now db =
     (if required < 0 \<or> uploadID = '''' \<or> userID = '''' then Inl ErrConflict
      else case ensureTrafficAccountTx userID monthlyTraffic now db of
        Inl e \<Rightarrow> Inl e
      | Inr db1 \<Rightarrow>
        (case planUploadTrafficAllocationsTx userID required now db1 of
           Inl e \<Rightarrow> Inl e
         | Inr pas \<Rightarrow>
           (if \<not> upload_exists db1 uploadID \<or> \<not> user_exists db1 userID then Inl ErrConstraint
            else case sql_insert c_upload_id
                   \<lparr>c_upload_id = uploadID, c_user_id = userID, c_amount_bytes = required,
                    c_status = ChargeReserved, c_created_at = now, c_settled_at = 0\<rparr>
                   (charges db1) of
              Inl e \<Rightarrow> Inl e
            | Inr cs \<Rightarrow>
              (case insert_allocations uploadID pas (allocations db1) of
                 Inl e \<Rightarrow> Inl e
               | Inr als \<Rightarrow>
                 (if sql_count (\<lambda>a. a_user_id a = userID) (accounts db1) \<noteq> 1 then Inl ErrConflict
                  else Inr (db1\<lparr>charges := cs, allocations := als,
                     accounts := sql_update (\<lambda>a. a_user_id a = userID)
                       (\<lambda>a. a\<lparr>a_traffic_reserved_bytes := a_traffic_reserved_bytes a + required,
                              a_updated_at := now\<rparr>) (accounts db1)\<rparr>))))))"

text \<open>The allocations of an upload in ordinal order, and their total.\<close>

definition upload_allocations :: "cdb \<Rightarrow> ident \<Rightarrow> upload_allocation list" where
  "upload_allocations db uploadID =
     sort_key al_ordinal (filter (\<lambda>a. al_upload_id a = uploadID) (allocations db))"

definition alloc_total :: "cdb \<Rightarrow> ident \<Rightarrow> int" where
  "alloc_total db uploadID =
     sql_sum (\<lambda>a. al_upload_id a = uploadID) al_amount_bytes (allocations db)"

text \<open>The debit loop of settleUploadTrafficTx.\<close>

fun debit_sources :: "ident \<Rightarrow> string \<Rightarrow> upload_allocation list \<Rightarrow> cdb \<Rightarrow> cdb result" where
  "debit_sources userID currentFreePeriod [] db = Inr db"
| "debit_sources userID currentFreePeriod (al # als) db =
     (case al_source_kind al of
        FreeSource \<Rightarrow>
          (if al_source_id al \<noteq> currentFreePeriod then Inl ErrConflict
           else let hit = (\<lambda>a. a_user_id a = userID \<and> a_free_traffic_period a = al_source_id al \<and>
                               a_free_traffic_remaining a \<ge> al_amount_bytes al)
                in if sql_count hit (accounts db) \<noteq> 1 then Inl ErrTrafficExceeded
                   else debit_sources userID currentFreePeriod als
                     (db\<lparr>accounts := sql_update hit
                       (\<lambda>a. a\<lparr>a_free_traffic_remaining :=
                                a_free_traffic_remaining a - al_amount_bytes al\<rparr>) (accounts db)\<rparr>))
      | EntitlementSource \<Rightarrow>
          (let hit = (\<lambda>e. e_id e = al_source_id al \<and> e_user_id e = userID \<and>
                          e_resource_type e = TrafficResource \<and>
                          e_remaining_bytes e \<ge> al_amount_bytes al)
           in if sql_count hit (entitlements db) \<noteq> 1 then Inl ErrTrafficExceeded
              else debit_sources userID currentFreePeriod als
                (db\<lparr>entitlements := sql_update hit
                  (\<lambda>e. e\<lparr>e_remaining_bytes := e_remaining_bytes e - al_amount_bytes al\<rparr>)
                  (entitlements db)\<rparr>)))"

text \<open>The common tail of settle and refund: give the hold back to the reserved counter.\<close>

definition release_hold :: "ident \<Rightarrow> int \<Rightarrow> unix_time \<Rightarrow> cdb \<Rightarrow> cdb result" where
  "release_hold userID reserved now db =
     (let hit = (\<lambda>a. a_user_id a = userID \<and> a_traffic_reserved_bytes a \<ge> reserved)
      in if sql_count hit (accounts db) \<noteq> 1 then Inl ErrConflict
         else Inr (db\<lparr>accounts := sql_update hit
           (\<lambda>a. a\<lparr>a_traffic_reserved_bytes := a_traffic_reserved_bytes a - reserved,
                  a_updated_at := now\<rparr>) (accounts db)\<rparr>))"

text \<open>Moving the reserved charge of an upload to a final status.\<close>

definition finish_charge :: "ident \<Rightarrow> charge_status \<Rightarrow> unix_time \<Rightarrow> cdb \<Rightarrow> cdb" where
  "finish_charge uploadID st now db =
     db\<lparr>charges := sql_update (\<lambda>c. c_upload_id c = uploadID \<and> c_status c = ChargeReserved)
       (\<lambda>c. c\<lparr>c_status := st, c_settled_at := now\<rparr>) (charges db)\<rparr>"

definition settleUploadTrafficTx :: "ident \<Rightarrow> unix_time \<Rightarrow> cdb \<Rightarrow> cdb result" where
  "settleUploadTrafficTx uploadID now db =
     (let affected = sql_count (\<lambda>c. c_upload_id c = uploadID \<and> c_status c = ChargeReserved)
                       (charges db);
          db1 = finish_charge uploadID ChargeSettled now db
      in if affected = 0
         then (case sql_first (\<lambda>c. c_upload_id c = uploadID) (charges db1) of
                 None \<Rightarrow> Inr db1
               | Some c \<Rightarrow> if c_status c = ChargeSettled \<or> c_status c = ChargeGrandfathered
                           then Inr db1 else Inl ErrConflict)
         else case sql_first (\<lambda>c. c_upload_id c = uploadID) (charges db1) of
                None \<Rightarrow> Inl ErrNoRows
              | Some c \<Rightarrow>
                (if sum_list (map al_amount_bytes (upload_allocations db1 uploadID)) \<noteq> c_amount_bytes c
                 then Inl ErrConflict
                 else case sql_first (\<lambda>a. a_user_id a = c_user_id c) (accounts db1) of
                        None \<Rightarrow> Inl ErrNoRows
                      | Some acct \<Rightarrow>
                        (case debit_sources (c_user_id c) (a_free_traffic_period acct)
                                (upload_allocations db1 uploadID) db1 of
                           Inl e \<Rightarrow> Inl e
                         | Inr db2 \<Rightarrow> release_hold (c_user_id c) (c_amount_bytes c) now db2)))"

definition refundUploadTrafficTx :: "ident \<Rightarrow> unix_time \<Rightarrow> cdb \<Rightarrow> cdb result" where
  "refundUploadTrafficTx uploadID now db =
     (let affected = sql_count (\<lambda>c. c_upload_id c = uploadID \<and> c_status c = ChargeReserved)
                       (charges db);
          db1 = finish_charge uploadID ChargeRefunded now db
      in if affected = 0
         then (case sql_first (\<lambda>c. c_upload_id c = uploadID) (charges db1) of
                 None \<Rightarrow> Inr db1
               | Some c \<Rightarrow> if c_status c = ChargeSettled \<or> c_status c = ChargeRefunded
                              \<or> c_status c = ChargeGrandfathered
                           then Inr db1 else Inl ErrConflict)
         else case sql_first (\<lambda>c. c_upload_id c = uploadID) (charges db1) of
                None \<Rightarrow> Inl ErrNoRows
              | Some c \<Rightarrow>
                (if sum_list (map al_amount_bytes (upload_allocations db1 uploadID)) \<noteq> c_amount_bytes c
                 then Inl ErrConflict
                 else release_hold (c_user_id c) (c_amount_bytes c) now db1))"

section \<open>Consistency of the ledger\<close>

definition charge_total :: "cdb \<Rightarrow> ident \<Rightarrow> int" where
  "charge_total db userID =
     sql_sum (\<lambda>c. c_user_id c = userID \<and> c_status c = ChargeReserved) c_amount_bytes (charges db)"

text \<open>Bytes still held by pre-v5 download reservations.\<close>

definition download_hold :: "cdb \<Rightarrow> ident \<Rightarrow> int" where
  "download_hold db userID =
     sql_sum (\<lambda>d. d_user_id d = userID \<and> (d_status d = ResReserved \<or> d_status d = ResConsuming))
       d_reserved_bytes (reservations db)"

definition ledger_keys :: "cdb \<Rightarrow> bool" where
  "ledger_keys db \<longleftrightarrow> keyed a_user_id (accounts db) \<and> keyed c_upload_id (charges db) \<and>
     keyed e_id (entitlements db) \<and>
     keyed (\<lambda>a. (al_upload_id a, al_ordinal a)) (allocations db)"

definition counters_agree :: "cdb \<Rightarrow> bool" where
  "counters_agree db \<longleftrightarrow>
     (\<forall>a \<in> set (accounts db).
        a_traffic_reserved_bytes a = charge_total db (a_user_id a) + download_hold db (a_user_id a)) \<and>
     (\<forall>d \<in> set (reservations db). 0 \<le> d_reserved_bytes d \<and>
        ((d_status d = ResReserved \<or> d_status d = ResConsuming) \<and> d_reserved_bytes d \<noteq> 0 \<longrightarrow>
           (\<exists>a \<in> set (accounts db). a_user_id a = d_user_id d)))"

definition charges_covered :: "cdb \<Rightarrow> bool" where
  "charges_covered db \<longleftrightarrow>
     (\<forall>c \<in> set (charges db). 0 \<le> c_amount_bytes c \<and>
        (c_status c = ChargeReserved \<longrightarrow>
           alloc_total db (c_upload_id c) = c_amount_bytes c \<and>
           (\<exists>a \<in> set (accounts db). a_user_id a = c_user_id c))) \<and>
     (\<forall>a \<in> set (allocations db). 0 < al_amount_bytes a \<and>
        (\<exists>c \<in> set (charges db). c_upload_id c = al_upload_id a))"

text \<open>Every promise is backed: the source of an allocation of a reserved charge exists, belongs to
  the charged user, and holds at least the sum of what is promised from it.\<close>

definition source_backed :: "cdb \<Rightarrow> ident \<Rightarrow> upload_allocation \<Rightarrow> bool" where
  "source_backed db userID al =
     (case al_source_kind al of
        FreeSource \<Rightarrow> al_source_id al = permanentBaseTrafficSource \<and>
          (\<exists>a \<in> set (accounts db). a_user_id a = userID \<and>
             a_free_traffic_period a = permanentBaseTrafficSource)
      | EntitlementSource \<Rightarrow> (\<exists>e \<in> set (entitlements db). e_id e = al_source_id al \<and>
             e_user_id e = userID \<and> e_resource_type e = TrafficResource))"

definition promises_backed :: "cdb \<Rightarrow> bool" where
  "promises_backed db \<longleftrightarrow>
     (\<forall>c \<in> set (charges db). c_status c = ChargeReserved \<longrightarrow>
        (\<forall>al \<in> set (allocations db). al_upload_id al = c_upload_id c \<longrightarrow>
           source_backed db (c_user_id c) al)) \<and>
     (\<forall>a \<in> set (accounts db).
        allocated_from db (a_user_id a) FreeSource permanentBaseTrafficSource
          \<le> a_free_traffic_remaining a) \<and>
     (\<forall>e \<in> set (entitlements db).
        allocated_from db (e_user_id e) EntitlementSource (e_id e) \<le> e_remaining_bytes e)"

definition traffic_inv :: "cdb \<Rightarrow> bool" where
  "traffic_inv db \<longleftrightarrow> ledger_keys db \<and> counters_agree db \<and> charges_covered db \<and> promises_backed db"

text \<open>What a user can still spend: base balance and entitlements, before holds.\<close>

definition user_balance :: "cdb \<Rightarrow> ident \<Rightarrow> int" where
  "user_balance db userID =
     sql_sum (\<lambda>a. a_user_id a = userID) a_free_traffic_remaining (accounts db) +
     sql_sum (\<lambda>e. e_user_id e = userID \<and> e_resource_type e = TrafficResource) e_remaining_bytes
       (entitlements db)"

lemmas traffic_inv_defs = traffic_inv_def ledger_keys_def counters_agree_def charges_covered_def
  promises_backed_def

section \<open>The planner\<close>

abbreviation source_key :: "traffic_source \<Rightarrow> source_kind \<times> ident" where
  "source_key s \<equiv> (ts_kind s, ts_id s)"
abbreviation planned_key :: "planned_allocation \<Rightarrow> source_kind \<times> ident" where
  "planned_key pa \<equiv> (pa_source_kind pa, pa_source_id pa)"

lemma absorb_legacy_keys: "map source_key (absorb_legacy l ss) = map source_key ss"
  by (induction l ss rule: absorb_legacy.induct) (simp_all add: Let_def)

lemma absorb_legacy_le:
  assumes "0 \<le> l" "\<And>s. s \<in> set ss \<Longrightarrow> 0 \<le> ts_available s" "s' \<in> set (absorb_legacy l ss)"
  shows "0 \<le> ts_available s' \<and>
    (\<exists>s \<in> set ss. source_key s = source_key s' \<and> ts_available s' \<le> ts_available s)"
  using assms
proof (induction l ss rule: absorb_legacy.induct)
  case (2 l s ss)
  let ?used = "min (ts_available s) l"
  have s: "0 \<le> ts_available s" using "2.prems"(2) by simp
  consider (head) "s' = s\<lparr>ts_available := ts_available s - ?used\<rparr>"
    | (tail) "s' \<in> set (absorb_legacy (l - ?used) ss)"
    using "2.prems"(3) by (auto simp: Let_def)
  then show ?case
  proof cases
    case head
    then show ?thesis using s "2.prems"(1) by auto
  next
    case tail
    have "0 \<le> l - ?used" by simp
    then show ?thesis using "2.IH" [OF refl] tail "2.prems"(2) by auto
  qed
qed simp

text \<open>One round of the second loop: the source is skipped, or \<open>m > 0\<close> bytes are taken from it.\<close>

lemma allocate_sources_ConsE:
  assumes "allocate_sources n rem (s # ss) = (pas, rest)"
  obtains (skip) "min (max (ts_available s) 0) rem \<le> 0" "allocate_sources n rem ss = (pas, rest)"
  | (take) m qs where "0 < m" "m \<le> ts_available s" "m \<le> rem"
      "pas = \<lparr>pa_ordinal = n, pa_source_kind = ts_kind s, pa_source_id = ts_id s, pa_reserved = m\<rparr> # qs"
      "rem - m = 0 \<and> qs = [] \<and> rest = 0 \<or>
       rem - m \<noteq> 0 \<and> allocate_sources (Suc n) (rem - m) ss = (qs, rest)"
proof -
  define m where "m = min (max (ts_available s) 0) rem"
  have eq: "(if m \<le> 0 then allocate_sources n rem ss
     else (let pa = \<lparr>pa_ordinal = n, pa_source_kind = ts_kind s, pa_source_id = ts_id s, pa_reserved = m\<rparr>
           in if rem - m = 0 then ([pa], 0)
              else (let (pas, rest) = allocate_sources (Suc n) (rem - m) ss in (pa # pas, rest))))
     = (pas, rest)"
    using assms unfolding allocate_sources.simps m_def [symmetric] Let_def .
  show thesis
  proof (cases "m \<le> 0")
    case True
    then show thesis using eq skip m_def by simp
  next
    case False
    then have "0 < m" "m \<le> ts_available s" "m \<le> rem" unfolding m_def by auto
    moreover obtain qs where
      "pas = \<lparr>pa_ordinal = n, pa_source_kind = ts_kind s, pa_source_id = ts_id s, pa_reserved = m\<rparr> # qs"
      "rem - m = 0 \<and> qs = [] \<and> rest = 0 \<or>
       rem - m \<noteq> 0 \<and> allocate_sources (Suc n) (rem - m) ss = (qs, rest)"
      using eq False
      by (cases "allocate_sources (Suc n) (rem - m) ss") (auto simp: Let_def split: if_splits)
    ultimately show thesis by (rule take)
  qed
qed

lemma allocate_sources_sum:
  assumes "0 \<le> rem" "allocate_sources n rem ss = (pas, rest)"
  shows "sum_list (map pa_reserved pas) + rest = rem \<and> 0 \<le> rest"
  using assms
proof (induction ss arbitrary: n rem pas)
  case (Cons s ss)
  from Cons.prems(2) show ?case
  proof (cases rule: allocate_sources_ConsE)
    case skip
    then show ?thesis using Cons.IH Cons.prems(1) by blast
  next
    case (take m qs)
    then show ?thesis using Cons.IH [of "rem - m" "Suc n" qs] by auto
  qed
qed simp

definition plan_ok :: "nat \<Rightarrow> traffic_source list \<Rightarrow> planned_allocation list \<Rightarrow> bool" where
  "plan_ok n ss pas \<longleftrightarrow> map pa_ordinal pas = [n ..< n + length pas] \<and>
    (\<forall>pa \<in> set pas. 0 < pa_reserved pa \<and>
       (\<exists>s \<in> set ss. source_key s = planned_key pa \<and> pa_reserved pa \<le> ts_available s)) \<and>
    (distinct (map source_key ss) \<longrightarrow> distinct (map planned_key pas))"

lemma plan_ok_source:
  assumes "plan_ok n ss pas" "pa \<in> set pas"
  obtains s where "s \<in> set ss" "source_key s = planned_key pa" "pa_reserved pa \<le> ts_available s"
proof -
  have "\<exists>s \<in> set ss. source_key s = planned_key pa \<and> pa_reserved pa \<le> ts_available s"
    using assms by (simp add: plan_ok_def)
  then show thesis using that by (elim bexE conjE)
qed

lemma plan_ok_Cons:
  assumes "plan_ok (Suc n) ss qs" "0 < m" "m \<le> ts_available s"
  shows "plan_ok n (s # ss)
    (\<lparr>pa_ordinal = n, pa_source_kind = ts_kind s, pa_source_id = ts_id s, pa_reserved = m\<rparr> # qs)"
proof -
  have "planned_key ` set qs \<subseteq> source_key ` set ss" using assms(1) by (force simp: plan_ok_def)
  then show ?thesis using assms by (auto simp: plan_ok_def upt_rec [of n])
qed

lemma allocate_sources_plan_ok:
  assumes "0 \<le> rem" "allocate_sources n rem ss = (pas, rest)"
  shows "plan_ok n ss pas"
  using assms
proof (induction ss arbitrary: n rem pas)
  case (Cons s ss)
  from Cons.prems(2) show ?case
  proof (cases rule: allocate_sources_ConsE)
    case skip
    then have "plan_ok n ss pas" using Cons.IH Cons.prems(1) by blast
    then show ?thesis by (auto simp: plan_ok_def)
  next
    case (take m qs)
    then have "plan_ok (Suc n) ss qs" using Cons.IH [of "rem - m" "Suc n" qs]
      by (auto simp: plan_ok_def)
    then show ?thesis using take by (auto intro: plan_ok_Cons)
  qed
qed (simp add: plan_ok_def)

lemma traffic_sources_distinct:
  "keyed e_id (entitlements db) \<Longrightarrow> distinct (map source_key (traffic_sources db u acct now))"
  by (auto simp: traffic_sources_def keyed_def distinct_map inj_on_def comp_def)

lemma traffic_sources_nonneg: "s \<in> set (traffic_sources db u acct now) \<Longrightarrow> 0 \<le> ts_available s"
  by (auto simp: traffic_sources_def)

lemma plan_props:
  assumes plan: "planUploadTrafficAllocationsTx u required now db = Inr pas"
    and req: "0 \<le> required" and keys: "keyed e_id (entitlements db)"
  obtains acct where "sql_first (\<lambda>a. a_user_id a = u) (accounts db) = Some acct"
    "sum_list (map pa_reserved pas) = required"
    "plan_ok 0 (traffic_sources db u acct now) pas" "distinct (map planned_key pas)"
proof -
  from plan obtain acct where acct: "sql_first (\<lambda>a. a_user_id a = u) (accounts db) = Some acct"
    by (auto simp: planUploadTrafficAllocationsTx_def split: option.splits)
  define l where "l = max (a_traffic_reserved_bytes acct - snapshotted_reserved db u) 0"
  define ss where "ss = absorb_legacy l (traffic_sources db u acct now)"
  obtain rest where alloc: "allocate_sources 0 required ss = (pas, rest)" and "\<not> rest > 0"
    using plan acct
    by (auto simp: planUploadTrafficAllocationsTx_def l_def ss_def Let_def split: prod.splits if_splits)
  then have sum: "sum_list (map pa_reserved pas) = required"
    using allocate_sources_sum [OF req alloc] by simp
  have ok: "plan_ok 0 ss pas" by (rule allocate_sources_plan_ok [OF req alloc])
  have keys_eq: "map source_key ss = map source_key (traffic_sources db u acct now)"
    by (simp add: ss_def absorb_legacy_keys)
  have le: "\<exists>s \<in> set (traffic_sources db u acct now).
      source_key s = source_key s' \<and> ts_available s' \<le> ts_available s" if "s' \<in> set ss" for s'
    using that absorb_legacy_le [of l "traffic_sources db u acct now" s']
    by (auto simp: ss_def l_def traffic_sources_nonneg)
  have "\<exists>s \<in> set (traffic_sources db u acct now).
      source_key s = planned_key pa \<and> pa_reserved pa \<le> ts_available s" if pa: "pa \<in> set pas" for pa
  proof -
    obtain s' where "s' \<in> set ss" "source_key s' = planned_key pa" "pa_reserved pa \<le> ts_available s'"
      by (rule plan_ok_source [OF ok pa])
    moreover obtain s where "s \<in> set (traffic_sources db u acct now)"
      "source_key s = source_key s'" "ts_available s' \<le> ts_available s"
      using le [OF calculation(1)] by blast
    ultimately show ?thesis by (intro bexI [of _ s]) simp_all
  qed
  then have "plan_ok 0 (traffic_sources db u acct now) pas"
    using ok unfolding plan_ok_def keys_eq by simp
  moreover have "distinct (map planned_key pas)"
    using ok keys_eq traffic_sources_distinct [OF keys] by (simp add: plan_ok_def)
  ultimately show thesis using that acct sum by blast
qed

text \<open>What a plan takes from one source.\<close>

definition planned_from :: "planned_allocation list \<Rightarrow> source_kind \<Rightarrow> ident \<Rightarrow> int" where
  "planned_from pas kind sid =
     sql_sum (\<lambda>pa. pa_source_kind pa = kind \<and> pa_source_id pa = sid) pa_reserved pas"

lemma planned_from_bound:
  assumes "distinct (map planned_key pas)"
    and "\<And>pa. pa \<in> set pas \<Longrightarrow> planned_key pa = (kind, sid) \<Longrightarrow> pa_reserved pa \<le> b"
    and "0 \<le> b"
  shows "planned_from pas kind sid \<le> b"
  using assms
proof (induction pas)
  case (Cons pa pas)
  show ?case
  proof (cases "planned_key pa = (kind, sid)")
    case True
    then have "planned_from pas kind sid = 0"
      unfolding planned_from_def using Cons.prems(1)
      by (intro sql_sum_none) (auto simp: image_iff)
    then show ?thesis using Cons.prems(2) [of pa] True by (simp add: planned_from_def)
  next
    case False
    then show ?thesis using Cons by (auto simp: planned_from_def)
  qed
qed (simp add: planned_from_def)

section \<open>Frames\<close>

lemma ledger_frame_accounts [simp]:
  "reserved_charge (db\<lparr>accounts := x\<rparr>) = reserved_charge db"
  "allocated_from (db\<lparr>accounts := x\<rparr>) = allocated_from db"
  "charge_total (db\<lparr>accounts := x\<rparr>) = charge_total db"
  "download_hold (db\<lparr>accounts := x\<rparr>) = download_hold db"
  "alloc_total (db\<lparr>accounts := x\<rparr>) = alloc_total db"
  "upload_allocations (db\<lparr>accounts := x\<rparr>) = upload_allocations db"
  by (intro ext, simp add: reserved_charge_def allocated_from_def charge_total_def download_hold_def
      alloc_total_def upload_allocations_def)+

lemma ledger_frame_entitlements [simp]:
  "reserved_charge (db\<lparr>entitlements := x\<rparr>) = reserved_charge db"
  "allocated_from (db\<lparr>entitlements := x\<rparr>) = allocated_from db"
  "charge_total (db\<lparr>entitlements := x\<rparr>) = charge_total db"
  "download_hold (db\<lparr>entitlements := x\<rparr>) = download_hold db"
  "alloc_total (db\<lparr>entitlements := x\<rparr>) = alloc_total db"
  "upload_allocations (db\<lparr>entitlements := x\<rparr>) = upload_allocations db"
  by (intro ext, simp add: reserved_charge_def allocated_from_def charge_total_def download_hold_def
      alloc_total_def upload_allocations_def)+

text \<open>The invariant reads five tables only.\<close>

lemma traffic_inv_cong:
  assumes "accounts db' = accounts db" "entitlements db' = entitlements db" "charges db' = charges db"
    "allocations db' = allocations db" "reservations db' = reservations db"
  shows "traffic_inv db' = traffic_inv db"
proof -
  have "reserved_charge db' = reserved_charge db" "charge_total db' = charge_total db"
    "download_hold db' = download_hold db" "alloc_total db' = alloc_total db"
    by (intro ext, simp add: reserved_charge_def charge_total_def download_hold_def alloc_total_def assms)+
  moreover from this have "allocated_from db' = allocated_from db"
    by (intro ext) (simp add: allocated_from_def assms)
  ultimately show ?thesis
    by (simp add: traffic_inv_defs source_backed_def assms cong: source_kind.case_cong)
qed

lemma reserved_charge_iff:
  "reserved_charge db u up \<longleftrightarrow>
     (\<exists>c \<in> set (charges db). c_upload_id c = up \<and> c_user_id c = u \<and> c_status c = ChargeReserved)"
  by (simp add: reserved_charge_def sql_exists_iff)

lemma allocated_from_nonneg: "charges_covered db \<Longrightarrow> 0 \<le> allocated_from db u k sid"
  unfolding allocated_from_def charges_covered_def
  by (intro sql_sum_nonneg) (auto intro: less_imp_le)

lemma no_account_no_hold:
  assumes "traffic_inv db" "\<And>a. a \<in> set (accounts db) \<Longrightarrow> a_user_id a \<noteq> u"
  shows "charge_total db u = 0" "download_hold db u = 0" "allocated_from db u k sid = 0"
proof -
  have none: "c_status c = ChargeReserved \<Longrightarrow> c \<in> set (charges db) \<Longrightarrow> c_user_id c \<noteq> u" for c
    using assms by (auto simp: traffic_inv_defs)
  then show "charge_total db u = 0"
    unfolding charge_total_def by (intro sql_sum_none) auto
  have "sql_sum (\<lambda>d. d_user_id d = u \<and> (d_status d = ResReserved \<or> d_status d = ResConsuming))
      d_reserved_bytes (reservations db) = sql_sum (\<lambda>_. False) (\<lambda>_. 0) (reservations db)"
    using assms by (intro sql_sum_cong) (auto simp: traffic_inv_defs)
  then show "download_hold db u = 0" by (simp add: download_hold_def sql_sum_none)
  show "allocated_from db u k sid = 0"
    unfolding allocated_from_def using none by (intro sql_sum_none) (auto simp: reserved_charge_iff)
qed

section \<open>Opening the account\<close>

lemma traffic_inv_new_account:
  assumes inv: "traffic_inv db" and new: "\<And>a. a \<in> set (accounts db) \<Longrightarrow> a_user_id a \<noteq> a_user_id n"
    and n: "a_traffic_reserved_bytes n = 0" "0 \<le> a_free_traffic_remaining n"
  shows "traffic_inv (db\<lparr>accounts := accounts db @ [n]\<rparr>)"
proof -
  note hold = no_account_no_hold [OF inv new]
  have "ledger_keys (db\<lparr>accounts := accounts db @ [n]\<rparr>)"
    using inv new by (auto simp: traffic_inv_def ledger_keys_def keyed_append) (metis new)
  moreover have "counters_agree (db\<lparr>accounts := accounts db @ [n]\<rparr>)"
    using inv n hold by (auto simp: traffic_inv_def counters_agree_def)
  moreover have "charges_covered (db\<lparr>accounts := accounts db @ [n]\<rparr>)"
    using inv by (auto simp: traffic_inv_def charges_covered_def)
  moreover have "source_backed (db\<lparr>accounts := accounts db @ [n]\<rparr>) u al"
    if "source_backed db u al" for u al
    using that by (auto simp: source_backed_def split: source_kind.splits)
  then have "promises_backed (db\<lparr>accounts := accounts db @ [n]\<rparr>)"
    using inv n hold by (auto simp: traffic_inv_def promises_backed_def)
  ultimately show ?thesis by (simp add: traffic_inv_def)
qed

text \<open>Changing accounts without touching owners or holds and without lowering a base balance.\<close>

lemma traffic_inv_map_accounts:
  assumes inv: "traffic_inv db"
    and f: "\<And>a. a \<in> set (accounts db) \<Longrightarrow> a_user_id (f a) = a_user_id a \<and>
      a_traffic_reserved_bytes (f a) = a_traffic_reserved_bytes a \<and>
      a_free_traffic_remaining a \<le> a_free_traffic_remaining (f a) \<and>
      (a_free_traffic_period a = permanentBaseTrafficSource \<longrightarrow>
         a_free_traffic_period (f a) = permanentBaseTrafficSource)"
  shows "traffic_inv (db\<lparr>accounts := map f (accounts db)\<rparr>)"
proof -
  let ?db = "db\<lparr>accounts := map f (accounts db)\<rparr>"
  have "map a_user_id (map f (accounts db)) = map a_user_id (accounts db)"
    using f by simp
  then have "ledger_keys ?db"
    using inv by (simp add: traffic_inv_def ledger_keys_def keyed_def del: map_map)
  moreover have "counters_agree ?db"
    using inv f unfolding traffic_inv_def counters_agree_def by fastforce
  moreover have "charges_covered ?db"
    using inv f unfolding traffic_inv_def charges_covered_def by fastforce
  moreover have "source_backed ?db u al" if "source_backed db u al" for u al
    using that f unfolding source_backed_def by (fastforce split: source_kind.splits)
  moreover have "allocated_from db (a_user_id (f a)) FreeSource permanentBaseTrafficSource
      \<le> a_free_traffic_remaining (f a)" if "a \<in> set (accounts db)" for a
    using f [OF that] inv that unfolding traffic_inv_def promises_backed_def by fastforce
  ultimately show ?thesis
    using inv by (auto simp: traffic_inv_def promises_backed_def)
qed

lemma insert_account_or_ignore_inv:
  assumes "traffic_inv db" "insert_account_or_ignore u initial now db = Inr db'" "0 \<le> initial"
  shows "traffic_inv db'"
proof (cases "sql_exists (\<lambda>a. a_user_id a = u) (accounts db)")
  case False
  then show ?thesis using assms
    by (auto simp: insert_account_or_ignore_def sql_exists_iff
        intro!: traffic_inv_new_account split: if_splits)
qed (use assms in \<open>simp add: insert_account_or_ignore_def\<close>)

lemma make_base_permanent_inv:
  "traffic_inv db \<Longrightarrow> 0 \<le> initial \<Longrightarrow> traffic_inv (make_base_permanent u initial now db)"
  unfolding make_base_permanent_def sql_update_def by (rule traffic_inv_map_accounts) auto

lemma ensureTrafficAccount_inv:
  assumes "traffic_inv db" "ensureTrafficAccountTx u initial now db = Inr db'"
  shows "traffic_inv db'"
proof -
  obtain db1 where "insert_account_or_ignore u (max initial 0) now db = Inr db1"
    and db': "db' = make_base_permanent u (max initial 0) now db1"
    using assms(2) by (auto simp: ensureTrafficAccountTx_def Let_def split: sum.splits)
  then have "traffic_inv db1" using assms(1) by (auto intro: insert_account_or_ignore_inv)
  then show ?thesis unfolding db' by (rule make_base_permanent_inv) simp
qed

text \<open>Only the accounts table changes.\<close>

lemma ensureTrafficAccount_frame:
  assumes "ensureTrafficAccountTx u initial now db = Inr db'"
  shows "charges db' = charges db" "allocations db' = allocations db"
    "entitlements db' = entitlements db" "reservations db' = reservations db"
    "uploads db' = uploads db" "users db' = users db" "transfers db' = transfers db"
    "sessions db' = sessions db"
proof -
  obtain db1 where i: "insert_account_or_ignore u (max initial 0) now db = Inr db1"
    and db': "db' = make_base_permanent u (max initial 0) now db1"
    using assms by (auto simp: ensureTrafficAccountTx_def Let_def split: sum.splits)
  then show "charges db' = charges db" "allocations db' = allocations db"
    "entitlements db' = entitlements db" "reservations db' = reservations db"
    "uploads db' = uploads db" "users db' = users db" "transfers db' = transfers db"
    "sessions db' = sessions db"
    by (auto simp: insert_account_or_ignore_def make_base_permanent_def split: if_splits)
qed

lemma make_base_permanent_period:
  "a \<in> set (accounts (make_base_permanent u initial now db)) \<Longrightarrow> a_user_id a = u \<Longrightarrow>
   a_free_traffic_period a = permanentBaseTrafficSource"
  unfolding make_base_permanent_def by (simp, erule sql_update_memE) simp_all

lemma ensureTrafficAccount_period:
  assumes "ensureTrafficAccountTx u initial now db = Inr db'" "a \<in> set (accounts db')" "a_user_id a = u"
  shows "a_free_traffic_period a = permanentBaseTrafficSource"
  using assms by (auto simp: ensureTrafficAccountTx_def Let_def split: sum.splits
      dest: make_base_permanent_period)

section \<open>Reserving\<close>

definition allocation_row :: "ident \<Rightarrow> planned_allocation \<Rightarrow> upload_allocation" where
  "allocation_row uploadID pa =
     \<lparr>al_upload_id = uploadID, al_ordinal = pa_ordinal pa, al_source_kind = pa_source_kind pa,
      al_source_id = pa_source_id pa, al_amount_bytes = pa_reserved pa\<rparr>"

lemma insert_allocations_Inr:
  "insert_allocations up pas t = Inr t' \<Longrightarrow>
     t' = t @ map (allocation_row up) pas \<and>
     (keyed (\<lambda>a. (al_upload_id a, al_ordinal a)) t \<longrightarrow> keyed (\<lambda>a. (al_upload_id a, al_ordinal a)) t')"
proof (induction pas arbitrary: t)
  case (Cons pa pas)
  then obtain t1 where t1: "sql_insert (\<lambda>a. (al_upload_id a, al_ordinal a)) (allocation_row up pa) t = Inr t1"
    and ins: "insert_allocations up pas t1 = Inr t'"
    by (auto simp: Let_def allocation_row_def split: if_splits sum.splits)
  from Cons.IH [OF ins] t1 show ?case
    by (auto simp: sql_insert_Inr keyed_append)
qed simp

lemma reserve_cases:
  assumes "reserveUploadTrafficTx up u required monthly now db = Inr db'"
  obtains db1 pas where
    "0 \<le> required" "up \<noteq> ''''" "u \<noteq> ''''"
    "ensureTrafficAccountTx u monthly now db = Inr db1"
    "planUploadTrafficAllocationsTx u required now db1 = Inr pas"
    "up \<notin> c_upload_id ` set (charges db1)"
    "insert_allocations up pas (allocations db1) = Inr (allocations db1 @ map (allocation_row up) pas)"
    "db' = db1\<lparr>charges := charges db1 @ [\<lparr>c_upload_id = up, c_user_id = u, c_amount_bytes = required,
              c_status = ChargeReserved, c_created_at = now, c_settled_at = 0\<rparr>],
            allocations := allocations db1 @ map (allocation_row up) pas,
            accounts := sql_update (\<lambda>a. a_user_id a = u)
               (\<lambda>a. a\<lparr>a_traffic_reserved_bytes := a_traffic_reserved_bytes a + required,
                      a_updated_at := now\<rparr>) (accounts db1)\<rparr>"
proof -
  from assms obtain db1 pas cs als where
    *: "\<not> required < 0" "up \<noteq> ''''" "u \<noteq> ''''" "ensureTrafficAccountTx u monthly now db = Inr db1"
    "planUploadTrafficAllocationsTx u required now db1 = Inr pas"
    "sql_insert c_upload_id \<lparr>c_upload_id = up, c_user_id = u, c_amount_bytes = required,
              c_status = ChargeReserved, c_created_at = now, c_settled_at = 0\<rparr> (charges db1) = Inr cs"
    "insert_allocations up pas (allocations db1) = Inr als"
    "db' = db1\<lparr>charges := cs, allocations := als, accounts := sql_update (\<lambda>a. a_user_id a = u)
               (\<lambda>a. a\<lparr>a_traffic_reserved_bytes := a_traffic_reserved_bytes a + required,
                      a_updated_at := now\<rparr>) (accounts db1)\<rparr>"
    by (auto simp: reserveUploadTrafficTx_def split: if_splits sum.splits)
  then show thesis
    using that [of db1 pas] insert_allocations_Inr [OF *(7)] by (auto simp: sql_insert_Inr)
qed

text \<open>The effect of a new reserved charge on the sums the invariant speaks about.\<close>

lemma sum_allocation_rows:
  "sql_sum (\<lambda>a. P (al_upload_id a) \<and> al_source_kind a = k \<and> al_source_id a = sid) al_amount_bytes
     (map (allocation_row up) pas) = (if P up then planned_from pas k sid else 0)"
  by (induction pas) (auto simp: allocation_row_def planned_from_def)

lemma total_allocation_rows:
  "sql_sum (\<lambda>a. al_upload_id a = x) al_amount_bytes (map (allocation_row up) pas)
     = (if x = up then sum_list (map pa_reserved pas) else 0)"
  by (induction pas) (auto simp: allocation_row_def)

lemma new_charge_sums:
  assumes cov: "charges_covered db" and fresh: "up \<notin> c_upload_id ` set (charges db)"
    and c: "c_upload_id c = up" "c_user_id c = u" "c_status c = ChargeReserved"
    and db': "charges db' = charges db @ [c]"
      "allocations db' = allocations db @ map (allocation_row up) pas"
      "reservations db' = reservations db"
  shows "allocated_from db' v k sid = allocated_from db v k sid + (if v = u then planned_from pas k sid else 0)"
    and "alloc_total db' x = alloc_total db x + (if x = up then sum_list (map pa_reserved pas) else 0)"
    and "charge_total db' v = charge_total db v + (if v = u then c_amount_bytes c else 0)"
    and "download_hold db' v = download_hold db v"
    and "alloc_total db up = 0"
proof -
  have old: "a \<in> set (allocations db) \<Longrightarrow> al_upload_id a \<noteq> up" for a
    using cov fresh unfolding charges_covered_def by (metis image_eqI)
  have rc: "reserved_charge db' v x \<longleftrightarrow> reserved_charge db v x \<or> (v = u \<and> x = up)" for x
    using c by (auto simp: reserved_charge_iff db')
  have no: "\<not> reserved_charge db v up" using fresh by (auto simp: reserved_charge_iff)
  have "sql_sum (\<lambda>a. reserved_charge db' v (al_upload_id a) \<and> al_source_kind a = k \<and> al_source_id a = sid)
      al_amount_bytes (allocations db) = allocated_from db v k sid"
    unfolding allocated_from_def by (intro sql_sum_cong) (auto simp: rc dest: old)
  then show "allocated_from db' v k sid = allocated_from db v k sid + (if v = u then planned_from pas k sid else 0)"
    unfolding allocated_from_def db' sql_sum_append sum_allocation_rows using rc no by auto
  show "alloc_total db' x = alloc_total db x + (if x = up then sum_list (map pa_reserved pas) else 0)"
    by (simp add: alloc_total_def db' total_allocation_rows)
  show "charge_total db' v = charge_total db v + (if v = u then c_amount_bytes c else 0)"
    using c by (auto simp: charge_total_def db')
  show "download_hold db' v = download_hold db v" by (simp add: download_hold_def db')
  show "alloc_total db up = 0" unfolding alloc_total_def using old by (intro sql_sum_none) auto
qed

text \<open>A plan never takes more from a source than the source has left.\<close>

lemma plan_within_sources:
  assumes inv: "traffic_inv db" and req: "0 \<le> required"
    and plan: "planUploadTrafficAllocationsTx u required now db = Inr pas"
    and perm: "\<And>a. a \<in> set (accounts db) \<Longrightarrow> a_user_id a = u \<Longrightarrow>
      a_free_traffic_period a = permanentBaseTrafficSource"
  shows "a \<in> set (accounts db) \<Longrightarrow> a_user_id a = u \<Longrightarrow>
      allocated_from db u FreeSource permanentBaseTrafficSource
        + planned_from pas FreeSource permanentBaseTrafficSource \<le> a_free_traffic_remaining a"
    and "e \<in> set (entitlements db) \<Longrightarrow> e_user_id e = u \<Longrightarrow>
      allocated_from db u EntitlementSource (e_id e)
        + planned_from pas EntitlementSource (e_id e) \<le> e_remaining_bytes e"
    and "pa \<in> set pas \<Longrightarrow> source_backed db u (allocation_row up pa)"
proof -
  have keys: "keyed e_id (entitlements db)" "keyed a_user_id (accounts db)"
    using inv by (auto simp: traffic_inv_def ledger_keys_def)
  obtain acct where acct: "sql_first (\<lambda>a. a_user_id a = u) (accounts db) = Some acct"
    and ok: "plan_ok 0 (traffic_sources db u acct now) pas" and dist: "distinct (map planned_key pas)"
    by (rule plan_props [OF plan req keys(1)])
  have mem: "acct \<in> set (accounts db)" "a_user_id acct = u" using sql_first_Some [OF acct] by auto
  note period = perm [OF mem]
  show "allocated_from db u FreeSource permanentBaseTrafficSource
        + planned_from pas FreeSource permanentBaseTrafficSource \<le> a_free_traffic_remaining a"
    if "a \<in> set (accounts db)" "a_user_id a = u"
  proof -
    have a: "a = acct" using keyed_unique [OF keys(2)] that mem by auto
    have le: "allocated_from db u FreeSource permanentBaseTrafficSource \<le> a_free_traffic_remaining acct"
      using inv mem by (auto simp: traffic_inv_defs)
    have "planned_from pas FreeSource permanentBaseTrafficSource
      \<le> a_free_traffic_remaining acct - allocated_from db u FreeSource permanentBaseTrafficSource"
    proof (rule planned_from_bound [OF dist])
      fix pa assume "pa \<in> set pas" and key: "planned_key pa = (FreeSource, permanentBaseTrafficSource)"
      then obtain s where "s \<in> set (traffic_sources db u acct now)" "source_key s = planned_key pa"
        "pa_reserved pa \<le> ts_available s" by (blast intro: plan_ok_source [OF ok])
      then show "pa_reserved pa
          \<le> a_free_traffic_remaining acct - allocated_from db u FreeSource permanentBaseTrafficSource"
        using key period le by (auto simp: traffic_sources_def)
    qed (use le in simp)
    then show ?thesis using a by simp
  qed
  show "allocated_from db u EntitlementSource (e_id e)
        + planned_from pas EntitlementSource (e_id e) \<le> e_remaining_bytes e"
    if e: "e \<in> set (entitlements db)" "e_user_id e = u"
  proof -
    have le: "allocated_from db u EntitlementSource (e_id e) \<le> e_remaining_bytes e"
      using inv e by (auto simp: traffic_inv_defs)
    have "planned_from pas EntitlementSource (e_id e)
      \<le> e_remaining_bytes e - allocated_from db u EntitlementSource (e_id e)"
    proof (rule planned_from_bound [OF dist])
      fix pa assume "pa \<in> set pas" and key: "planned_key pa = (EntitlementSource, e_id e)"
      then obtain s where s: "s \<in> set (traffic_sources db u acct now)" "source_key s = planned_key pa"
        "pa_reserved pa \<le> ts_available s" by (blast intro: plan_ok_source [OF ok])
      then obtain e' where "e' \<in> set (entitlements db)" "e_id e' = e_id e"
        "ts_available s = max (e_remaining_bytes e' - allocated_from db u EntitlementSource (e_id e')) 0"
        using key by (auto simp: traffic_sources_def)
      moreover from this have "e' = e" using keyed_unique [OF keys(1)] e by auto
      ultimately show "pa_reserved pa \<le> e_remaining_bytes e - allocated_from db u EntitlementSource (e_id e)"
        using s(3) le by simp
    qed (use le in simp)
    then show ?thesis by simp
  qed
  show "source_backed db u (allocation_row up pa)" if pa: "pa \<in> set pas"
  proof -
    obtain s where "s \<in> set (traffic_sources db u acct now)" "source_key s = planned_key pa"
      using pa by (blast intro: plan_ok_source [OF ok])
    then show ?thesis using mem period
      by (auto simp: traffic_sources_def source_backed_def allocation_row_def)
  qed
qed

lemma reserve_inv:
  assumes inv: "traffic_inv db" and res: "reserveUploadTrafficTx up u required monthly now db = Inr db'"
  shows "traffic_inv db'"
proof -
  from res obtain db1 pas where req: "0 \<le> required"
    and ens: "ensureTrafficAccountTx u monthly now db = Inr db1"
    and plan: "planUploadTrafficAllocationsTx u required now db1 = Inr pas"
    and fresh: "up \<notin> c_upload_id ` set (charges db1)"
    and ins: "insert_allocations up pas (allocations db1) = Inr (allocations db1 @ map (allocation_row up) pas)"
    and db': "db' = db1\<lparr>charges := charges db1 @ [\<lparr>c_upload_id = up, c_user_id = u, c_amount_bytes = required,
              c_status = ChargeReserved, c_created_at = now, c_settled_at = 0\<rparr>],
            allocations := allocations db1 @ map (allocation_row up) pas,
            accounts := sql_update (\<lambda>a. a_user_id a = u)
               (\<lambda>a. a\<lparr>a_traffic_reserved_bytes := a_traffic_reserved_bytes a + required,
                      a_updated_at := now\<rparr>) (accounts db1)\<rparr>"
    by (rule reserve_cases)
  have inv1: "traffic_inv db1" using inv ens by (rule ensureTrafficAccount_inv)
  have cov: "charges_covered db1" using inv1 by (simp add: traffic_inv_def)
  have keys: "ledger_keys db1" using inv1 by (simp add: traffic_inv_def)
  have ek: "keyed e_id (entitlements db1)" using keys by (simp add: ledger_keys_def)
  obtain acct where first: "sql_first (\<lambda>a. a_user_id a = u) (accounts db1) = Some acct"
    and sum: "sum_list (map pa_reserved pas) = required"
    and ok: "plan_ok 0 (traffic_sources db1 u acct now) pas"
    by (rule plan_props [OF plan req ek])
  note acct = sql_first_Some [OF first]
  let ?c = "\<lparr>c_upload_id = up, c_user_id = u, c_amount_bytes = required,
              c_status = ChargeReserved, c_created_at = now, c_settled_at = 0\<rparr>"
  let ?f = "\<lambda>a. a\<lparr>a_traffic_reserved_bytes := a_traffic_reserved_bytes a + required, a_updated_at := now\<rparr>"
  have frame: "charges db' = charges db1 @ [?c]" "entitlements db' = entitlements db1"
    "allocations db' = allocations db1 @ map (allocation_row up) pas"
    "accounts db' = sql_update (\<lambda>a. a_user_id a = u) ?f (accounts db1)"
    "reservations db' = reservations db1"
    unfolding db' by simp_all
  note sums = new_charge_sums [OF cov fresh, of ?c u db' pas, simplified, OF frame(1,3,5)]
  note within = plan_within_sources [OF inv1 req plan ensureTrafficAccount_period [OF ens]]
  have acc_mem: "\<exists>b \<in> set (accounts db1). a_user_id a = a_user_id b \<and>
      a_free_traffic_remaining a = a_free_traffic_remaining b \<and>
      a_traffic_reserved_bytes a = a_traffic_reserved_bytes b + (if a_user_id b = u then required else 0)"
    if "a \<in> set (accounts db')" for a
    using that unfolding frame by (rule sql_update_memE) auto
  have acc_ex: "\<exists>b \<in> set (accounts db'). a_user_id b = a_user_id a \<and>
      a_free_traffic_period b = a_free_traffic_period a" if "a \<in> set (accounts db1)" for a
    unfolding frame
    using sql_update_mem [OF that, of "\<lambda>a. a_user_id a = u" ?f] by (rule bexI [rotated]) simp
  have sb: "source_backed db' v al" if "source_backed db1 v al" for v al
    using that acc_ex unfolding source_backed_def frame(2)
    by (cases "al_source_kind al") (simp, metis, simp)
  have "ledger_keys db'"
    using keys fresh insert_allocations_Inr [OF ins] unfolding ledger_keys_def frame
    by (auto simp: keyed_append intro!: keyed_update)
  moreover have "counters_agree db'"
  proof -
    have "a_traffic_reserved_bytes a = charge_total db' (a_user_id a) + download_hold db' (a_user_id a)"
      if "a \<in> set (accounts db')" for a
      using acc_mem [OF that] inv1 unfolding traffic_inv_def counters_agree_def sums by auto
    then show ?thesis using inv1 acc_ex unfolding traffic_inv_def counters_agree_def frame(5) by metis
  qed
  moreover have "charges_covered db'"
  proof -
    have "alloc_total db' (c_upload_id c) = c_amount_bytes c"
      if "c \<in> set (charges db')" "c_status c = ChargeReserved" for c
      using that cov fresh sum sums(5) unfolding charges_covered_def frame sums(2) by (auto simp: key_in_image)
    moreover have "\<exists>a \<in> set (accounts db'). a_user_id a = c_user_id c"
      if c: "c \<in> set (charges db')" "c_status c = ChargeReserved" for c
    proof -
      have "c \<in> set (charges db1) \<or> c_user_id c = u" using c unfolding frame by auto
      then obtain a where "a \<in> set (accounts db1)" "a_user_id a = c_user_id c"
        using c(2) cov acct unfolding charges_covered_def by auto
      then show ?thesis using acc_ex [of a] by auto
    qed
    moreover have "0 \<le> c_amount_bytes c" if "c \<in> set (charges db')" for c
      using that cov req unfolding charges_covered_def frame(1) by auto
    moreover have "0 < al_amount_bytes al \<and> (\<exists>c \<in> set (charges db'). c_upload_id c = al_upload_id al)"
      if al: "al \<in> set (allocations db')" for al
    proof (cases "al \<in> set (allocations db1)")
      case True
      then show ?thesis using cov unfolding charges_covered_def frame(1) by simp
    next
      case False
      then obtain pa where "pa \<in> set pas" "al = allocation_row up pa" using al frame(3) by auto
      then show ?thesis using ok unfolding plan_ok_def frame(1) by (simp add: allocation_row_def)
    qed
    ultimately show ?thesis unfolding charges_covered_def by blast
  qed
  moreover have "promises_backed db'"
  proof -
    have "source_backed db' (c_user_id c) al"
      if "c \<in> set (charges db')" "c_status c = ChargeReserved" "al \<in> set (allocations db')"
        "al_upload_id al = c_upload_id c" for c al
    proof (cases "c_upload_id c = up")
      case True
      have "c \<in> set (charges db1) \<or> c = ?c" using that(1) unfolding frame by auto
      then have "c_user_id c = u"
      proof
        assume "c = ?c"
        then show ?thesis by (simp only: upload_charge.simps)
      qed (use True fresh in \<open>auto simp: key_in_image\<close>)
      moreover have "al \<in> set (map (allocation_row up) pas)"
        using that(3,4) True cov fresh unfolding frame charges_covered_def by (auto simp: key_in_image)
      ultimately show ?thesis using sb within(3) by auto
    next
      case False
      then have "c \<in> set (charges db1)" "al \<in> set (allocations db1)"
        using that unfolding frame by (auto simp: allocation_row_def)
      then show ?thesis using that inv1 sb unfolding traffic_inv_def promises_backed_def by blast
    qed
    moreover have "allocated_from db' (a_user_id a) FreeSource permanentBaseTrafficSource
        \<le> a_free_traffic_remaining a" if "a \<in> set (accounts db')" for a
      using acc_mem [OF that] inv1 within(1) unfolding traffic_inv_def promises_backed_def sums by auto
    moreover have "allocated_from db' (e_user_id e) EntitlementSource (e_id e) \<le> e_remaining_bytes e"
      if "e \<in> set (entitlements db')" for e
      using that inv1 within(2) unfolding traffic_inv_def promises_backed_def sums frame(2) by auto
    ultimately show ?thesis unfolding promises_backed_def by blast
  qed
  ultimately show ?thesis by (simp add: traffic_inv_def)
qed

end
