(* ===== verification/Traffic_Settle.thy ===== *)
theory Traffic_Settle
  imports Upload_Traffic
begin

text \<open>
  Settling and refunding reserved upload charges. The debit loop of settleUploadTrafficTx is
  compared with a one-shot debit of every source (\<open>debit_all\<close>): under the ledger invariant both
  agree, so no charge is ever stuck half-way, and exactly the charged bytes leave the balances.
\<close>

section \<open>The debit loop against a one-shot debit\<close>

definition taken_from :: "upload_allocation list \<Rightarrow> source_kind \<Rightarrow> ident \<Rightarrow> int" where
  "taken_from als kind sid =
     sql_sum (\<lambda>al. al_source_kind al = kind \<and> al_source_id al = sid) al_amount_bytes als"

definition debit_account :: "ident \<Rightarrow> upload_allocation list \<Rightarrow> resource_account \<Rightarrow> resource_account" where
  "debit_account u als a =
     (if a_user_id a = u
      then a\<lparr>a_free_traffic_remaining := a_free_traffic_remaining a
               - taken_from als FreeSource permanentBaseTrafficSource\<rparr>
      else a)"

definition debit_entitlement :: "ident \<Rightarrow> upload_allocation list \<Rightarrow> entitlement \<Rightarrow> entitlement" where
  "debit_entitlement u als e =
     (if e_user_id e = u \<and> e_resource_type e = TrafficResource
      then e\<lparr>e_remaining_bytes := e_remaining_bytes e - taken_from als EntitlementSource (e_id e)\<rparr>
      else e)"

definition debit_all :: "ident \<Rightarrow> upload_allocation list \<Rightarrow> cdb \<Rightarrow> cdb" where
  "debit_all u als db =
     db\<lparr>accounts := map (debit_account u als) (accounts db),
        entitlements := map (debit_entitlement u als) (entitlements db)\<rparr>"

definition debit_ready :: "ident \<Rightarrow> upload_allocation list \<Rightarrow> cdb \<Rightarrow> bool" where
  "debit_ready u als db \<longleftrightarrow>
     keyed a_user_id (accounts db) \<and> keyed e_id (entitlements db) \<and>
     (\<forall>al \<in> set als. 0 < al_amount_bytes al \<and> source_backed db u al) \<and>
     (\<forall>a \<in> set (accounts db). a_user_id a = u \<longrightarrow>
        taken_from als FreeSource permanentBaseTrafficSource \<le> a_free_traffic_remaining a) \<and>
     (\<forall>e \<in> set (entitlements db). e_user_id e = u \<longrightarrow>
        taken_from als EntitlementSource (e_id e) \<le> e_remaining_bytes e)"

lemma taken_from_Nil [simp]: "taken_from [] k sid = 0"
  by (simp add: taken_from_def)

lemma taken_from_Cons [simp]:
  "taken_from (al # als) k sid =
     (if al_source_kind al = k \<and> al_source_id al = sid then al_amount_bytes al else 0) + taken_from als k sid"
  by (simp add: taken_from_def)

lemma taken_from_nonneg: "(\<And>al. al \<in> set als \<Longrightarrow> 0 < al_amount_bytes al) \<Longrightarrow> 0 \<le> taken_from als k sid"
  unfolding taken_from_def by (rule sql_sum_nonneg) (simp add: less_imp_le)

lemma debit_all_Nil: "debit_all u [] db = db"
proof -
  have "map (debit_account u []) t = t" "map (debit_entitlement u []) s = s" for t s
    by (simp_all add: map_idI debit_account_def debit_entitlement_def)
  then show ?thesis by (simp add: debit_all_def)
qed

lemma source_backed_map:
  assumes "accounts db' = map f (accounts db)" "entitlements db' = map g (entitlements db)"
    and "\<And>a. a_user_id (f a) = a_user_id a" "\<And>a. a_free_traffic_period (f a) = a_free_traffic_period a"
    and "\<And>e. e_id (g e) = e_id e" "\<And>e. e_user_id (g e) = e_user_id e"
      "\<And>e. e_resource_type (g e) = e_resource_type e"
  shows "source_backed db' u al = source_backed db u al"
  using assms by (simp add: source_backed_def split: source_kind.splits)

lemma keyed_map: "(\<And>r. key (f r) = key r) \<Longrightarrow> keyed key (map f t) = keyed key t"
  by (simp add: keyed_def comp_def)

text \<open>One round of the loop, free source: the row of the user is hit and nothing else.\<close>

lemma free_round:
  assumes ready: "debit_ready u (al # als) db" and free: "al_source_kind al = FreeSource"
  defines "hit \<equiv> \<lambda>a. a_user_id a = u \<and> a_free_traffic_period a = al_source_id al \<and>
                      a_free_traffic_remaining a \<ge> al_amount_bytes al"
  shows "sql_count hit (accounts db) = 1"
    and "sql_update hit (\<lambda>a. a\<lparr>a_free_traffic_remaining := a_free_traffic_remaining a - al_amount_bytes al\<rparr>)
      (accounts db) = map (debit_account u [al]) (accounts db)"
    and "al_source_id al = permanentBaseTrafficSource"
proof -
  have nn: "0 \<le> taken_from als FreeSource permanentBaseTrafficSource"
    using ready by (intro taken_from_nonneg) (auto simp: debit_ready_def)
  have sid: "al_source_id al = permanentBaseTrafficSource"
    and keys: "keyed a_user_id (accounts db)"
    using ready free by (auto simp: debit_ready_def source_backed_def)
  obtain b where b: "b \<in> set (accounts db)" "a_user_id b = u"
    "a_free_traffic_period b = permanentBaseTrafficSource"
    using ready free by (auto simp: debit_ready_def source_backed_def)
  have hit: "hit a \<longleftrightarrow> a_user_id a = u" if "a \<in> set (accounts db)" for a
  proof
    assume "a_user_id a = u"
    moreover from this have "a = b" using keyed_unique [OF keys] that b by auto
    ultimately show "hit a" using ready b nn sid free that by (force simp: hit_def debit_ready_def)
  qed (simp add: hit_def)
  have "sql_count hit (accounts db) = sql_count (\<lambda>a. a_user_id a = u \<and> True) (accounts db)"
    using hit by (auto intro: sql_count_cong)
  then show "sql_count hit (accounts db) = 1" using keyed_count_1 [OF keys, of u "\<lambda>_. True"] b by auto
  show "sql_update hit (\<lambda>a. a\<lparr>a_free_traffic_remaining := a_free_traffic_remaining a - al_amount_bytes al\<rparr>)
      (accounts db) = map (debit_account u [al]) (accounts db)"
    unfolding sql_update_def by (rule map_cong [OF refl]) (simp add: hit debit_account_def free sid)
  show "al_source_id al = permanentBaseTrafficSource" by (rule sid)
qed

lemma entitlement_round:
  assumes ready: "debit_ready u (al # als) db" and ent: "al_source_kind al = EntitlementSource"
  defines "hit \<equiv> \<lambda>e. e_id e = al_source_id al \<and> e_user_id e = u \<and> e_resource_type e = TrafficResource \<and>
                      e_remaining_bytes e \<ge> al_amount_bytes al"
  shows "sql_count hit (entitlements db) = 1"
    and "sql_update hit (\<lambda>e. e\<lparr>e_remaining_bytes := e_remaining_bytes e - al_amount_bytes al\<rparr>)
      (entitlements db) = map (debit_entitlement u [al]) (entitlements db)"
proof -
  have nn: "0 \<le> taken_from als EntitlementSource (al_source_id al)"
    using ready by (intro taken_from_nonneg) (auto simp: debit_ready_def)
  have keys: "keyed e_id (entitlements db)" using ready by (simp add: debit_ready_def)
  obtain b where b: "b \<in> set (entitlements db)" "e_id b = al_source_id al" "e_user_id b = u"
    "e_resource_type b = TrafficResource"
    using ready ent by (auto simp: debit_ready_def source_backed_def)
  have hit: "hit e \<longleftrightarrow> e_id e = al_source_id al" if "e \<in> set (entitlements db)" for e
  proof
    assume "e_id e = al_source_id al"
    moreover from this have "e = b" using keyed_unique [OF keys] that b by auto
    ultimately show "hit e" using ready b nn ent that by (force simp: hit_def debit_ready_def)
  qed (simp add: hit_def)
  have "sql_count hit (entitlements db) = sql_count (\<lambda>e. e_id e = al_source_id al \<and> True) (entitlements db)"
    using hit by (auto intro: sql_count_cong)
  then show "sql_count hit (entitlements db) = 1"
    using keyed_count_1 [OF keys, of "al_source_id al" "\<lambda>_. True"] b by auto
  have same: "e = b" if "e \<in> set (entitlements db)" "e_id e = al_source_id al" for e
    using keyed_unique [OF keys] that b by auto
  show "sql_update hit (\<lambda>e. e\<lparr>e_remaining_bytes := e_remaining_bytes e - al_amount_bytes al\<rparr>)
      (entitlements db) = map (debit_entitlement u [al]) (entitlements db)"
    unfolding sql_update_def
  proof (rule map_cong [OF refl])
    fix e assume e: "e \<in> set (entitlements db)"
    show "(if hit e then e\<lparr>e_remaining_bytes := e_remaining_bytes e - al_amount_bytes al\<rparr> else e)
        = debit_entitlement u [al] e"
    proof (cases "e_id e = al_source_id al")
      case True
      then show ?thesis unfolding same [OF e True] using b hit [OF b(1)]
        by (simp add: debit_entitlement_def ent)
    next
      case False
      then show ?thesis by (simp add: hit [OF e] debit_entitlement_def)
    qed
  qed
qed

lemma debit_account_compose: "debit_account u als (debit_account u [al] a) = debit_account u (al # als) a"
  by (simp add: debit_account_def)

lemma debit_entitlement_compose:
  "debit_entitlement u als (debit_entitlement u [al] e) = debit_entitlement u (al # als) e"
  by (simp add: debit_entitlement_def)

lemma debit_all_compose: "debit_all u als (debit_all u [al] db) = debit_all u (al # als) db"
  by (simp add: debit_all_def debit_account_compose debit_entitlement_compose)

lemma debit_all_keys [simp]:
  "a_user_id (debit_account u als a) = a_user_id a"
  "a_free_traffic_period (debit_account u als a) = a_free_traffic_period a"
  "a_traffic_reserved_bytes (debit_account u als a) = a_traffic_reserved_bytes a"
  "e_id (debit_entitlement u als e) = e_id e"
  "e_user_id (debit_entitlement u als e) = e_user_id e"
  "e_resource_type (debit_entitlement u als e) = e_resource_type e"
  by (simp_all add: debit_account_def debit_entitlement_def)

lemma source_backed_debit_all [simp]: "source_backed (debit_all u als db) v al = source_backed db v al"
  by (rule source_backed_map [of _ "debit_account u als" _ "debit_entitlement u als"])
    (simp_all add: debit_all_def)

lemma debit_ready_step:
  assumes "debit_ready u (al # als) db"
  shows "debit_ready u als (debit_all u [al] db)"
proof -
  have "taken_from als FreeSource permanentBaseTrafficSource \<le> a_free_traffic_remaining (debit_account u [al] a)"
    if "a \<in> set (accounts db)" "a_user_id a = u" for a
    using assms that unfolding debit_ready_def by (auto simp: debit_account_def)
  moreover have "taken_from als EntitlementSource (e_id e) \<le> e_remaining_bytes (debit_entitlement u [al] e)"
    if "e \<in> set (entitlements db)" "e_user_id e = u" for e
  proof -
    have "taken_from (al # als) EntitlementSource (e_id e) \<le> e_remaining_bytes e" "0 < al_amount_bytes al"
      using assms that unfolding debit_ready_def by auto
    then show ?thesis by (auto simp: debit_entitlement_def split: if_splits)
  qed
  ultimately show ?thesis using assms
    by (simp add: debit_ready_def) (simp add: debit_all_def keyed_map)
qed

lemma debit_sources_refines:
  assumes "debit_ready u als db"
    and "\<exists>al \<in> set als. al_source_kind al = FreeSource \<Longrightarrow> fp = permanentBaseTrafficSource"
  shows "debit_sources u fp als db = Inr (debit_all u als db)"
  using assms
proof (induction als arbitrary: db)
  case (Cons al als)
  have rest: "debit_sources u fp als (debit_all u [al] db) = Inr (debit_all u (al # als) db)"
    using Cons.IH [OF debit_ready_step [OF Cons.prems(1)]] Cons.prems(2) debit_all_compose by simp
  show ?case
  proof (cases "al_source_kind al")
    case FreeSource
    have "map (debit_entitlement u [al]) (entitlements db) = entitlements db"
      by (simp add: map_idI debit_entitlement_def FreeSource)
    then have "debit_all u [al] db = db\<lparr>accounts := map (debit_account u [al]) (accounts db)\<rparr>"
      by (simp add: debit_all_def)
    then show ?thesis
      using rest free_round [OF Cons.prems(1) FreeSource] Cons.prems(2) FreeSource by simp
  next
    case EntitlementSource
    have "map (debit_account u [al]) (accounts db) = accounts db"
      by (simp add: map_idI debit_account_def EntitlementSource)
    then have "debit_all u [al] db = db\<lparr>entitlements := map (debit_entitlement u [al]) (entitlements db)\<rparr>"
      by (simp add: debit_all_def)
    then show ?thesis
      using rest entitlement_round [OF Cons.prems(1) EntitlementSource] EntitlementSource by simp
  qed
qed (simp add: debit_all_Nil)

section \<open>Closing a reserved charge\<close>

definition give_back :: "ident \<Rightarrow> int \<Rightarrow> unix_time \<Rightarrow> cdb \<Rightarrow> cdb" where
  "give_back u n now db =
     db\<lparr>accounts := map (\<lambda>a. if a_user_id a = u
          then a\<lparr>a_traffic_reserved_bytes := a_traffic_reserved_bytes a - n, a_updated_at := now\<rparr> else a)
        (accounts db)\<rparr>"

lemma release_hold_eq:
  assumes keys: "keyed a_user_id (accounts db)"
    and a: "a \<in> set (accounts db)" "a_user_id a = u" "n \<le> a_traffic_reserved_bytes a"
  shows "release_hold u n now db = Inr (give_back u n now db)"
proof -
  let ?hit = "\<lambda>a. a_user_id a = u \<and> n \<le> a_traffic_reserved_bytes a"
  have hit: "?hit b \<longleftrightarrow> a_user_id b = u" if "b \<in> set (accounts db)" for b
    using keyed_unique [OF keys that a(1)] a by auto
  have "sql_count ?hit (accounts db) = 1" using keyed_count_1 [OF keys] a by auto
  moreover have "sql_update ?hit f (accounts db) = map (\<lambda>a. if a_user_id a = u then f a else a) (accounts db)" for f
    unfolding sql_update_def by (rule map_cong [OF refl]) (simp add: hit)
  ultimately show ?thesis by (simp add: release_hold_def give_back_def)
qed

lemma upload_allocations_sum: "sum_list (map al_amount_bytes (upload_allocations db up)) = alloc_total db up"
  by (simp add: upload_allocations_def alloc_total_def sum_list_sql_sum sql_sum_filter)

lemma taken_from_upload:
  "taken_from (upload_allocations db up) k sid =
     sql_sum (\<lambda>a. al_upload_id a = up \<and> al_source_kind a = k \<and> al_source_id a = sid) al_amount_bytes (allocations db)"
  by (simp add: taken_from_def upload_allocations_def sql_sum_filter)

lemma finish_charge_frame [simp]:
  "accounts (finish_charge up st now db) = accounts db"
  "entitlements (finish_charge up st now db) = entitlements db"
  "allocations (finish_charge up st now db) = allocations db"
  "reservations (finish_charge up st now db) = reservations db"
  "upload_allocations (finish_charge up st now db) = upload_allocations db"
  "alloc_total (finish_charge up st now db) = alloc_total db"
  "download_hold (finish_charge up st now db) = download_hold db"
  "source_backed (finish_charge up st now db) = source_backed db"
  by (auto simp: finish_charge_def upload_allocations_def alloc_total_def download_hold_def
      source_backed_def fun_eq_iff split: source_kind.splits)

lemma finish_charge_sums:
  assumes keys: "keyed c_upload_id (charges db)"
    and c: "c \<in> set (charges db)" "c_upload_id c = up" "c_status c = ChargeReserved"
    and st: "st \<noteq> ChargeReserved"
  shows "allocated_from (finish_charge up st now db) v k sid = allocated_from db v k sid
      - (if v = c_user_id c then taken_from (upload_allocations db up) k sid else 0)"
    and "charge_total (finish_charge up st now db) v = charge_total db v
      - (if v = c_user_id c then c_amount_bytes c else 0)"
proof -
  let ?db = "finish_charge up st now db"
  have only: "x = c" if "x \<in> set (charges db)" "c_upload_id x = up" for x
    using keyed_unique [OF keys that(1) c(1)] that(2) c(2) by simp
  have rc: "reserved_charge ?db v x \<longleftrightarrow> reserved_charge db v x \<and> x \<noteq> up" for x
    using st unfolding reserved_charge_iff finish_charge_def
    by (auto elim!: sql_update_memE intro: sql_update_keep)
  let ?src = "\<lambda>a. al_source_kind a = k \<and> al_source_id a = sid"
  have rest: "allocated_from ?db v k sid =
      sql_sum (\<lambda>a. (reserved_charge db v (al_upload_id a) \<and> ?src a) \<and> al_upload_id a \<noteq> up)
        al_amount_bytes (allocations db)"
    unfolding allocated_from_def finish_charge_frame(3) by (rule sql_sum_cong) (auto simp: rc)
  have "allocated_from db v k sid = allocated_from ?db v k sid
      + sql_sum (\<lambda>a. (reserved_charge db v (al_upload_id a) \<and> ?src a) \<and> al_upload_id a = up)
          al_amount_bytes (allocations db)"
    using sql_sum_split [of "\<lambda>a. reserved_charge db v (al_upload_id a) \<and> ?src a" al_amount_bytes
        "allocations db" "\<lambda>a. al_upload_id a = up"]
    unfolding rest unfolding allocated_from_def by linarith
  moreover have "reserved_charge db v up \<longleftrightarrow> v = c_user_id c"
  proof
    assume "reserved_charge db v up"
    then obtain x where "x \<in> set (charges db)" "c_upload_id x = up" "c_user_id x = v"
      unfolding reserved_charge_iff by (elim bexE conjE)
    with only show "v = c_user_id c" by blast
  qed (unfold reserved_charge_iff, intro bexI [of _ c], simp_all add: c)
  then have "sql_sum (\<lambda>a. (reserved_charge db v (al_upload_id a) \<and> ?src a) \<and> al_upload_id a = up)
      al_amount_bytes (allocations db)
    = (if v = c_user_id c then taken_from (upload_allocations db up) k sid else 0)"
    unfolding taken_from_upload by (auto intro: sql_sum_cong sql_sum_none)
  ultimately show "allocated_from ?db v k sid = allocated_from db v k sid
      - (if v = c_user_id c then taken_from (upload_allocations db up) k sid else 0)" by simp
  show "charge_total ?db v = charge_total db v - (if v = c_user_id c then c_amount_bytes c else 0)"
    using keyed_sum_update_row [OF keys c(1), of "\<lambda>x. c_status x = ChargeReserved"
        "\<lambda>x. c_user_id x = v \<and> c_status x = ChargeReserved" c_amount_bytes
        "\<lambda>x. x\<lparr>c_status := st, c_settled_at := now\<rparr>"] c st
    by (auto simp: charge_total_def finish_charge_def)
qed

text \<open>The state after a reserved charge \<open>c\<close> is closed with status \<open>st\<close>, the allocations \<open>als\<close> debited
  and the hold given back. Settling debits the allocations of the upload, refunding none.\<close>

definition close_charge :: "charge_status \<Rightarrow> upload_allocation list \<Rightarrow> unix_time \<Rightarrow> upload_charge \<Rightarrow> cdb \<Rightarrow> cdb" where
  "close_charge st als now c db =
     give_back (c_user_id c) (c_amount_bytes c) now
       (debit_all (c_user_id c) als (finish_charge (c_upload_id c) st now db))"

definition closed_account :: "upload_allocation list \<Rightarrow> unix_time \<Rightarrow> upload_charge \<Rightarrow> resource_account \<Rightarrow> resource_account" where
  "closed_account als now c a =
     (if a_user_id a = c_user_id c
      then a\<lparr>a_free_traffic_remaining := a_free_traffic_remaining a
               - taken_from als FreeSource permanentBaseTrafficSource,
             a_traffic_reserved_bytes := a_traffic_reserved_bytes a - c_amount_bytes c,
             a_updated_at := now\<rparr>
      else a)"

lemma closed_account_simps [simp]:
  "a_user_id (closed_account als now c a) = a_user_id a"
  "a_free_traffic_period (closed_account als now c a) = a_free_traffic_period a"
  "a_traffic_reserved_bytes (closed_account als now c a) = a_traffic_reserved_bytes a
     - (if a_user_id a = c_user_id c then c_amount_bytes c else 0)"
  "a_free_traffic_remaining (closed_account als now c a) = a_free_traffic_remaining a
     - (if a_user_id a = c_user_id c then taken_from als FreeSource permanentBaseTrafficSource else 0)"
  by (simp_all add: closed_account_def)

lemma close_charge_frame:
  "accounts (close_charge st als now c db) = map (closed_account als now c) (accounts db)"
  "entitlements (close_charge st als now c db) = map (debit_entitlement (c_user_id c) als) (entitlements db)"
  "charges (close_charge st als now c db) = charges (finish_charge (c_upload_id c) st now db)"
  "allocations (close_charge st als now c db) = allocations db"
  "reservations (close_charge st als now c db) = reservations db"
  by (simp_all add: close_charge_def give_back_def debit_all_def debit_account_def closed_account_def)

lemma close_charge_sums:
  "allocated_from (close_charge st als now c db) = allocated_from (finish_charge (c_upload_id c) st now db)"
  "charge_total (close_charge st als now c db) = charge_total (finish_charge (c_upload_id c) st now db)"
  "alloc_total (close_charge st als now c db) = alloc_total db"
  "download_hold (close_charge st als now c db) = download_hold db"
  "source_backed (close_charge st als now c db) = source_backed db"
proof -
  let ?db = "close_charge st als now c db"
  show "alloc_total ?db = alloc_total db" "download_hold ?db = download_hold db"
    by (simp_all add: fun_eq_iff alloc_total_def download_hold_def close_charge_frame)
  show "charge_total ?db = charge_total (finish_charge (c_upload_id c) st now db)"
    "allocated_from ?db = allocated_from (finish_charge (c_upload_id c) st now db)"
    by (simp_all add: fun_eq_iff charge_total_def allocated_from_def reserved_charge_def close_charge_frame)
  show "source_backed ?db = source_backed db"
    by (intro ext, rule source_backed_map [of _ "closed_account als now c" _ "debit_entitlement (c_user_id c) als"])
      (simp_all add: close_charge_frame)
qed

lemma close_charge_inv:
  assumes inv: "traffic_inv db" and c: "c \<in> set (charges db)" "c_status c = ChargeReserved"
    and st: "st \<noteq> ChargeReserved"
    and als: "\<And>k sid. 0 \<le> taken_from als k sid"
      "\<And>k sid. taken_from als k sid \<le> taken_from (upload_allocations db (c_upload_id c)) k sid"
  shows "traffic_inv (close_charge st als now c db)"
proof -
  let ?db = "close_charge st als now c db" and ?fin = "finish_charge (c_upload_id c) st now db"
  have keys: "ledger_keys db" and ck: "keyed c_upload_id (charges db)"
    using inv by (auto simp: traffic_inv_def ledger_keys_def)
  note sums = finish_charge_sums [OF ck c(1) refl c(2) st]
  have old: "\<exists>y \<in> set (charges db). c_upload_id y = c_upload_id x \<and> c_user_id y = c_user_id x \<and>
      c_amount_bytes y = c_amount_bytes x \<and> (c_status x = ChargeReserved \<longrightarrow> c_status y = ChargeReserved)"
    if "x \<in> set (charges ?fin)" for x
    using that unfolding finish_charge_def by simp (erule sql_update_memE, auto)
  have new: "\<exists>y \<in> set (charges ?fin). c_upload_id y = c_upload_id x" if "x \<in> set (charges db)" for x
    unfolding finish_charge_def
    using sql_update_mem [OF that, of "\<lambda>y. c_upload_id y = c_upload_id c \<and> c_status y = ChargeReserved"
        "\<lambda>y. y\<lparr>c_status := st, c_settled_at := now\<rparr>"]
    by (simp, intro bexI) auto
  have "ledger_keys ?db"
    using keys unfolding ledger_keys_def close_charge_frame
    by (auto simp: keyed_map finish_charge_def intro: keyed_update)
  moreover have "counters_agree ?db"
    using inv unfolding traffic_inv_def counters_agree_def close_charge_frame close_charge_sums sums by auto
  moreover have "charges_covered ?db"
  proof -
    have "0 \<le> c_amount_bytes x \<and> (c_status x = ChargeReserved \<longrightarrow>
        alloc_total db (c_upload_id x) = c_amount_bytes x \<and> (\<exists>a \<in> set (accounts db). a_user_id a = c_user_id x))"
      if "x \<in> set (charges ?fin)" for x
      using old [OF that] inv unfolding traffic_inv_def charges_covered_def by metis
    moreover have "0 < al_amount_bytes a \<and> (\<exists>x \<in> set (charges ?fin). c_upload_id x = al_upload_id a)"
      if "a \<in> set (allocations db)" for a
      using that inv new unfolding traffic_inv_def charges_covered_def by metis
    ultimately show ?thesis unfolding charges_covered_def close_charge_frame close_charge_sums by auto
  qed
  moreover have "promises_backed ?db"
  proof -
    have "source_backed db (c_user_id x) al"
      if "x \<in> set (charges ?fin)" "c_status x = ChargeReserved" "al \<in> set (allocations db)"
        "al_upload_id al = c_upload_id x" for x al
      using old [OF that(1)] that inv unfolding traffic_inv_def promises_backed_def by metis
    moreover have "allocated_from ?fin (a_user_id a) FreeSource permanentBaseTrafficSource
        \<le> a_free_traffic_remaining (closed_account als now c a)" if "a \<in> set (accounts db)" for a
      using that inv als(2) [of FreeSource permanentBaseTrafficSource]
      unfolding traffic_inv_def promises_backed_def sums by fastforce
    moreover have "allocated_from ?fin (e_user_id e) EntitlementSource (e_id e)
        \<le> e_remaining_bytes (debit_entitlement (c_user_id c) als e)" if "e \<in> set (entitlements db)" for e
    proof -
      have "allocated_from db (e_user_id e) EntitlementSource (e_id e) \<le> e_remaining_bytes e"
        using that inv unfolding traffic_inv_def promises_backed_def by blast
      then show ?thesis
        using als(1) [of EntitlementSource "e_id e"] als(2) [of EntitlementSource "e_id e"]
        unfolding sums debit_entitlement_def by auto
    qed
    ultimately show ?thesis unfolding promises_backed_def close_charge_frame close_charge_sums by auto
  qed
  ultimately show ?thesis by (simp add: traffic_inv_def)
qed

lemma reserved_charge_facts:
  assumes inv: "traffic_inv db" and c: "c \<in> set (charges db)" "c_status c = ChargeReserved"
  shows "sum_list (map al_amount_bytes (upload_allocations db (c_upload_id c))) = c_amount_bytes c"
    and "taken_from (upload_allocations db (c_upload_id c)) k sid \<le> allocated_from db (c_user_id c) k sid"
    and "0 \<le> taken_from (upload_allocations db (c_upload_id c)) k sid"
    and "\<exists>a \<in> set (accounts db). a_user_id a = c_user_id c \<and> c_amount_bytes c \<le> a_traffic_reserved_bytes a"
proof -
  show "sum_list (map al_amount_bytes (upload_allocations db (c_upload_id c))) = c_amount_bytes c"
    using inv c by (simp add: upload_allocations_sum traffic_inv_def charges_covered_def)
  have pos: "a \<in> set (allocations db) \<Longrightarrow> 0 \<le> al_amount_bytes a" for a
    using inv by (auto simp: traffic_inv_def charges_covered_def intro: less_imp_le)
  have "reserved_charge db (c_user_id c) (c_upload_id c)"
    unfolding reserved_charge_iff using c by (intro bexI [of _ c]) simp_all
  then show "taken_from (upload_allocations db (c_upload_id c)) k sid \<le> allocated_from db (c_user_id c) k sid"
    unfolding taken_from_upload allocated_from_def by (intro sql_sum_mono) (auto intro: pos)
  show "0 \<le> taken_from (upload_allocations db (c_upload_id c)) k sid"
    unfolding taken_from_upload using pos by (auto intro: sql_sum_nonneg)
  obtain a where a: "a \<in> set (accounts db)" "a_user_id a = c_user_id c"
    using inv c by (auto simp: traffic_inv_def charges_covered_def)
  have "c_amount_bytes c \<le> charge_total db (c_user_id c)"
    unfolding charge_total_def using inv c
    by (intro sql_sum_member_le) (auto simp: traffic_inv_def charges_covered_def)
  moreover have "0 \<le> download_hold db (c_user_id c)"
    unfolding download_hold_def using inv by (intro sql_sum_nonneg) (auto simp: traffic_inv_def counters_agree_def)
  ultimately show "\<exists>a \<in> set (accounts db). a_user_id a = c_user_id c \<and> c_amount_bytes c \<le> a_traffic_reserved_bytes a"
    using a inv by (intro bexI [OF _ a(1)]) (simp add: traffic_inv_def counters_agree_def)
qed

lemma finish_charge_first:
  assumes "keyed c_upload_id (charges db)" "c \<in> set (charges db)" "c_status c = ChargeReserved"
  shows "sql_count (\<lambda>x. c_upload_id x = c_upload_id c \<and> c_status x = ChargeReserved) (charges db) = 1"
    and "sql_first (\<lambda>x. c_upload_id x = c_upload_id c) (charges (finish_charge (c_upload_id c) st now db))
       = Some (c\<lparr>c_status := st, c_settled_at := now\<rparr>)"
proof -
  show "sql_count (\<lambda>x. c_upload_id x = c_upload_id c \<and> c_status x = ChargeReserved) (charges db) = 1"
    using keyed_count_1 [OF assms(1)] assms(2,3) by auto
  let ?c = "c\<lparr>c_status := st, c_settled_at := now\<rparr>"
  have "keyed c_upload_id (charges (finish_charge (c_upload_id c) st now db))"
    using assms(1) by (simp add: finish_charge_def keyed_update)
  moreover have "?c \<in> set (charges (finish_charge (c_upload_id c) st now db))"
    using sql_update_mem [OF assms(2), of "\<lambda>y. c_upload_id y = c_upload_id c \<and> c_status y = ChargeReserved"]
      assms(3) by (simp add: finish_charge_def)
  ultimately show "sql_first (\<lambda>x. c_upload_id x = c_upload_id c) (charges (finish_charge (c_upload_id c) st now db))
       = Some ?c"
    using keyed_first [of c_upload_id _ ?c] by simp
qed

lemma settle_debit_ready:
  assumes inv: "traffic_inv db" and c: "c \<in> set (charges db)" "c_status c = ChargeReserved"
  shows "debit_ready (c_user_id c) (upload_allocations db (c_upload_id c)) (finish_charge (c_upload_id c) st now db)"
proof -
  have al: "0 < al_amount_bytes al \<and> source_backed db (c_user_id c) al"
    if "al \<in> set (upload_allocations db (c_upload_id c))" for al
    using that inv c by (auto simp: upload_allocations_def traffic_inv_def charges_covered_def promises_backed_def)
  note le = reserved_charge_facts(2) [OF inv c]
  have "taken_from (upload_allocations db (c_upload_id c)) FreeSource permanentBaseTrafficSource
      \<le> a_free_traffic_remaining a" if "a \<in> set (accounts db)" "a_user_id a = c_user_id c" for a
    using le [of FreeSource permanentBaseTrafficSource] that inv
    by (force simp: traffic_inv_def promises_backed_def)
  moreover have "taken_from (upload_allocations db (c_upload_id c)) EntitlementSource (e_id e)
      \<le> e_remaining_bytes e" if "e \<in> set (entitlements db)" "e_user_id e = c_user_id c" for e
    using le [of EntitlementSource "e_id e"] that inv by (force simp: traffic_inv_def promises_backed_def)
  ultimately show ?thesis
    using inv al unfolding debit_ready_def by (auto simp: traffic_inv_def ledger_keys_def)
qed

lemma settle_reserved:
  assumes inv: "traffic_inv db" and c: "c \<in> set (charges db)" "c_status c = ChargeReserved"
  shows "settleUploadTrafficTx (c_upload_id c) now db =
    Inr (close_charge ChargeSettled (upload_allocations db (c_upload_id c)) now c db)"
proof -
  let ?als = "upload_allocations db (c_upload_id c)" and ?u = "c_user_id c"
  let ?fin = "finish_charge (c_upload_id c) ChargeSettled now db"
  have keys: "keyed c_upload_id (charges db)" "keyed a_user_id (accounts db)"
    using inv by (auto simp: traffic_inv_def ledger_keys_def)
  obtain acct where acct: "acct \<in> set (accounts db)" "a_user_id acct = ?u"
    and hold: "c_amount_bytes c \<le> a_traffic_reserved_bytes acct"
    using reserved_charge_facts(4) [OF inv c] by blast
  have first: "sql_first (\<lambda>a. a_user_id a = ?u) (accounts db) = Some acct"
    using keyed_first [OF keys(2) acct(1)] acct(2) by simp
  have "a_free_traffic_period acct = permanentBaseTrafficSource"
    if free: "\<exists>al \<in> set ?als. al_source_kind al = FreeSource"
  proof -
    obtain b where "b \<in> set (accounts db)" "a_user_id b = ?u" "a_free_traffic_period b = permanentBaseTrafficSource"
      using free settle_debit_ready [OF inv c, of ChargeSettled now]
      by (fastforce simp: debit_ready_def source_backed_def)
    moreover from this have "b = acct" using keyed_unique [OF keys(2)] acct by auto
    ultimately show ?thesis by simp
  qed
  then have deb: "debit_sources ?u (a_free_traffic_period acct) ?als ?fin = Inr (debit_all ?u ?als ?fin)"
    by (intro debit_sources_refines settle_debit_ready [OF inv c])
  have "debit_account ?u ?als acct \<in> set (accounts (debit_all ?u ?als ?fin))"
    using acct by (simp add: debit_all_def)
  then have "release_hold ?u (c_amount_bytes c) now (debit_all ?u ?als ?fin)
      = Inr (give_back ?u (c_amount_bytes c) now (debit_all ?u ?als ?fin))"
    using keys(2) hold acct(2)
    by (intro release_hold_eq [of _ "debit_account ?u ?als acct"]) (simp_all add: debit_all_def keyed_map)
  then show ?thesis
    using finish_charge_first [OF keys(1) c] reserved_charge_facts(1) [OF inv c] first deb
    by (simp add: settleUploadTrafficTx_def close_charge_def Let_def)
qed

lemma refund_reserved:
  assumes inv: "traffic_inv db" and c: "c \<in> set (charges db)" "c_status c = ChargeReserved"
  shows "refundUploadTrafficTx (c_upload_id c) now db = Inr (close_charge ChargeRefunded [] now c db)"
proof -
  let ?fin = "finish_charge (c_upload_id c) ChargeRefunded now db"
  have keys: "keyed c_upload_id (charges db)" "keyed a_user_id (accounts db)"
    using inv by (auto simp: traffic_inv_def ledger_keys_def)
  obtain acct where acct: "acct \<in> set (accounts db)" "a_user_id acct = c_user_id c"
    and hold: "c_amount_bytes c \<le> a_traffic_reserved_bytes acct"
    using reserved_charge_facts(4) [OF inv c] by blast
  have "release_hold (c_user_id c) (c_amount_bytes c) now ?fin = Inr (give_back (c_user_id c) (c_amount_bytes c) now ?fin)"
    using keys(2) acct hold by (intro release_hold_eq [of _ acct]) simp_all
  then show ?thesis
    using finish_charge_first [OF keys(1) c] reserved_charge_facts(1) [OF inv c]
    by (simp add: refundUploadTrafficTx_def close_charge_def Let_def debit_all_Nil)
qed

section \<open>Balances\<close>

lemma sql_sum_shift:
  assumes "\<And>r. r \<in> set t \<Longrightarrow> hit r \<Longrightarrow> p r \<and> p (g r) \<and> f (g r) = f r - m"
  shows "sql_sum p f (sql_update hit g t) = sql_sum p f t - m * int (sql_count hit t)"
  using assms
proof (induction t)
  case (Cons r t)
  then have "sql_sum p f (sql_update hit g t) = sql_sum p f t - m * int (sql_count hit t)" by simp
  then show ?case using Cons.prems [of r] by (auto simp: algebra_simps)
qed simp

lemma user_balance_round:
  assumes ready: "debit_ready u (al # als) db"
  shows "user_balance (debit_all u [al] db) u = user_balance db u - al_amount_bytes al"
proof (cases "al_source_kind al")
  case FreeSource
  have "sql_sum (\<lambda>a. a_user_id a = u) a_free_traffic_remaining (map (debit_account u [al]) (accounts db))
      = sql_sum (\<lambda>a. a_user_id a = u) a_free_traffic_remaining (accounts db) - al_amount_bytes al"
    unfolding free_round(2) [OF ready FreeSource, symmetric]
    by (subst sql_sum_shift [where m = "al_amount_bytes al"]) (auto simp: free_round(1) [OF ready FreeSource, simplified])
  moreover have "map (debit_entitlement u [al]) (entitlements db) = entitlements db"
    by (simp add: map_idI debit_entitlement_def FreeSource)
  ultimately show ?thesis by (simp add: user_balance_def debit_all_def)
next
  case EntitlementSource
  have "sql_sum (\<lambda>e. e_user_id e = u \<and> e_resource_type e = TrafficResource) e_remaining_bytes
        (map (debit_entitlement u [al]) (entitlements db))
      = sql_sum (\<lambda>e. e_user_id e = u \<and> e_resource_type e = TrafficResource) e_remaining_bytes (entitlements db)
        - al_amount_bytes al"
    unfolding entitlement_round(2) [OF ready EntitlementSource, symmetric]
    by (subst sql_sum_shift [where m = "al_amount_bytes al"])
      (auto simp: entitlement_round(1) [OF ready EntitlementSource, simplified])
  moreover have "map (debit_account u [al]) (accounts db) = accounts db"
    by (simp add: map_idI debit_account_def EntitlementSource)
  ultimately show ?thesis by (simp add: user_balance_def debit_all_def)
qed

lemma user_balance_debit_all:
  "debit_ready u als db \<Longrightarrow>
   user_balance (debit_all u als db) u = user_balance db u - sum_list (map al_amount_bytes als)"
proof (induction als arbitrary: db)
  case (Cons al als)
  then show ?case
    using Cons.IH [OF debit_ready_step [OF Cons.prems]] user_balance_round [OF Cons.prems]
    by (simp add: debit_all_compose)
qed (simp add: debit_all_Nil)

lemma user_balance_cong:
  assumes "accounts db' = map f (accounts db)" "\<And>a. a_user_id (f a) = a_user_id a"
    "\<And>a. a_free_traffic_remaining (f a) = a_free_traffic_remaining a" "entitlements db' = entitlements db"
  shows "user_balance db' u = user_balance db u"
proof -
  have "sql_sum (\<lambda>a. a_user_id a = u) a_free_traffic_remaining (map f t)
      = sql_sum (\<lambda>a. a_user_id a = u) a_free_traffic_remaining t" for t
    by (induction t) (simp_all add: assms(2,3))
  then show ?thesis by (simp add: user_balance_def assms(1,4))
qed

lemma user_balance_give_back [simp]: "user_balance (give_back u n now db) v = user_balance db v"
  by (rule user_balance_cong [where f = "\<lambda>a. if a_user_id a = u
      then a\<lparr>a_traffic_reserved_bytes := a_traffic_reserved_bytes a - n, a_updated_at := now\<rparr> else a"])
    (simp_all add: give_back_def)

lemma user_balance_finish [simp]: "user_balance (finish_charge up st now db) v = user_balance db v"
  by (simp add: user_balance_def)

lemma user_balance_settle:
  assumes "traffic_inv db" "c \<in> set (charges db)" "c_status c = ChargeReserved"
  shows "user_balance (close_charge ChargeSettled (upload_allocations db (c_upload_id c)) now c db) (c_user_id c)
    = user_balance db (c_user_id c) - c_amount_bytes c"
  using user_balance_debit_all [OF settle_debit_ready [OF assms, of ChargeSettled now]]
    reserved_charge_facts(1) [OF assms] by (simp add: close_charge_def)

section \<open>Charges that are already final\<close>

lemma no_reserved_charge:
  assumes "keyed c_upload_id (charges db)" "c \<in> set (charges db)" "c_status c \<noteq> ChargeReserved"
  shows "sql_count (\<lambda>x. c_upload_id x = c_upload_id c \<and> c_status x = ChargeReserved) (charges db) = 0"
    and "finish_charge (c_upload_id c) st now db = db"
    and "sql_first (\<lambda>x. c_upload_id x = c_upload_id c) (charges db) = Some c"
proof -
  have no: "\<not> (c_upload_id x = c_upload_id c \<and> c_status x = ChargeReserved)" if "x \<in> set (charges db)" for x
    using keyed_unique [OF assms(1) that assms(2)] assms(3) by auto
  then show "sql_count (\<lambda>x. c_upload_id x = c_upload_id c \<and> c_status x = ChargeReserved) (charges db) = 0"
    by (simp add: sql_count_0_iff)
  show "finish_charge (c_upload_id c) st now db = db"
    unfolding finish_charge_def by (subst sql_update_none) (use no in auto)
  show "sql_first (\<lambda>x. c_upload_id x = c_upload_id c) (charges db) = Some c"
    using keyed_first [OF assms(1,2)] .
qed

lemma settle_final:
  assumes "keyed c_upload_id (charges db)" "c \<in> set (charges db)" "c_status c \<noteq> ChargeReserved"
  shows "settleUploadTrafficTx (c_upload_id c) now db =
      (if c_status c = ChargeRefunded then Inl ErrConflict else Inr db)"
    and "refundUploadTrafficTx (c_upload_id c) now db = Inr db"
  using assms(3) no_reserved_charge [OF assms]
  by (cases "c_status c"; simp add: settleUploadTrafficTx_def refundUploadTrafficTx_def Let_def)+

lemma settle_unknown:
  assumes "\<And>c. c \<in> set (charges db) \<Longrightarrow> c_upload_id c \<noteq> up"
  shows "settleUploadTrafficTx up now db = Inr db" and "refundUploadTrafficTx up now db = Inr db"
proof -
  have "sql_count (\<lambda>x. c_upload_id x = up \<and> c_status x = ChargeReserved) (charges db) = 0"
    using assms by (auto simp: sql_count_0_iff)
  moreover have "finish_charge up st now db = db" for st
    unfolding finish_charge_def using assms by (subst sql_update_none) auto
  moreover have "sql_first (\<lambda>x. c_upload_id x = up) (charges db) = None"
    using assms by (auto simp: sql_first_None)
  ultimately show "settleUploadTrafficTx up now db = Inr db" "refundUploadTrafficTx up now db = Inr db"
    by (simp_all add: settleUploadTrafficTx_def refundUploadTrafficTx_def Let_def)
qed

section \<open>Admission\<close>

definition available_total :: "traffic_source list \<Rightarrow> int" where
  "available_total ss = sum_list (map ts_available ss)"

lemma available_total_nonneg: "(\<And>s. s \<in> set ss \<Longrightarrow> 0 \<le> ts_available s) \<Longrightarrow> 0 \<le> available_total ss"
  unfolding available_total_def by (rule sum_list_nonneg) auto

lemma absorb_legacy_total:
  assumes "0 \<le> l" "\<And>s. s \<in> set ss \<Longrightarrow> 0 \<le> ts_available s"
  shows "available_total (absorb_legacy l ss) = max (available_total ss - l) 0"
  using assms
proof (induction l ss rule: absorb_legacy.induct)
  case (2 l s ss)
  have "available_total (absorb_legacy (l - min (ts_available s) l) ss)
      = max (available_total ss - (l - min (ts_available s) l)) 0"
    using "2.IH" [OF refl] "2.prems" by simp
  then show ?case using "2.prems" available_total_nonneg [of ss]
    by (auto simp: available_total_def Let_def)
qed (simp add: available_total_def)

lemma allocate_sources_rest:
  assumes "0 \<le> rem" "\<And>s. s \<in> set ss \<Longrightarrow> 0 \<le> ts_available s" "allocate_sources n rem ss = (pas, rest)"
  shows "rest = max (rem - available_total ss) 0"
  using assms
proof (induction ss arbitrary: n rem pas)
  case (Cons s ss)
  have nn: "0 \<le> ts_available s" "0 \<le> available_total ss"
    using Cons.prems(2) available_total_nonneg [of ss] by auto
  have tot: "available_total (s # ss) = ts_available s + available_total ss" by (simp add: available_total_def)
  define m where "m = min (max (ts_available s) 0) rem"
  show ?case
  proof (cases "m \<le> 0")
    case True
    then have "allocate_sources n rem ss = (pas, rest)"
      using Cons.prems(3) by (simp add: m_def [symmetric] Let_def)
    then have "rest = max (rem - available_total ss) 0" using Cons.IH Cons.prems(1,2) by auto
    moreover have "ts_available s = 0 \<or> rem = 0" using True nn Cons.prems(1) by (auto simp: m_def min_def split: if_splits)
    ultimately show ?thesis using tot nn by auto
  next
    case False
    then consider "rem - m = 0" "rest = 0"
      | qs where "rem - m \<noteq> 0" "allocate_sources (Suc n) (rem - m) ss = (qs, rest)"
      using Cons.prems(3) by (auto simp: m_def [symmetric] Let_def split: prod.splits if_splits)
    then show ?thesis
    proof cases
      case 1
      then show ?thesis using tot nn by (auto simp: m_def min_def split: if_splits)
    next
      case 2
      then have "rest = max (rem - m - available_total ss) 0"
        using Cons.IH [of "rem - m" "Suc n" qs] Cons.prems(2) by (simp add: m_def)
      moreover have "m = ts_available s" using 2 nn by (simp add: m_def min_def split: if_splits)
      ultimately show ?thesis using tot by (simp add: algebra_simps)
    qed
  qed
qed (simp add: available_total_def)

lemma plan_admission:
  assumes "sql_first (\<lambda>a. a_user_id a = u) (accounts db) = Some acct" "0 \<le> required"
  shows "planUploadTrafficAllocationsTx u required now db = Inl ErrTrafficExceeded \<longleftrightarrow>
    0 < required \<and>
    available_total (traffic_sources db u acct now)
      < required + max (a_traffic_reserved_bytes acct - snapshotted_reserved db u) 0"
proof -
  define l where "l = max (a_traffic_reserved_bytes acct - snapshotted_reserved db u) 0"
  define ss where "ss = traffic_sources db u acct now"
  have nn: "0 \<le> l" "\<And>s. s \<in> set ss \<Longrightarrow> 0 \<le> ts_available s"
    by (simp_all add: l_def ss_def traffic_sources_nonneg)
  obtain pas rest where alloc: "allocate_sources 0 required (absorb_legacy l ss) = (pas, rest)"
    by (cases "allocate_sources 0 required (absorb_legacy l ss)")
  have "0 \<le> ts_available s" if "s \<in> set (absorb_legacy l ss)" for s
    using absorb_legacy_le [OF nn that] by simp
  then have "rest = max (required - max (available_total ss - l) 0) 0"
    using allocate_sources_rest [OF assms(2) _ alloc] absorb_legacy_total [OF nn] by simp
  moreover have "planUploadTrafficAllocationsTx u required now db
      = (if rest > 0 then Inl ErrTrafficExceeded else Inr pas)"
    using alloc by (simp add: planUploadTrafficAllocationsTx_def assms(1) l_def [symmetric] ss_def [symmetric] Let_def)
  ultimately show ?thesis unfolding l_def [symmetric] ss_def [symmetric] by auto
qed

section \<open>The contract of the ledger\<close>

text \<open>What the operations on uploads rely on when they settle or refund: both keep the invariant,
  a refund never fails under it, neither touches anything but the ledger tables, and the invariant
  is a property of the ledger tables alone.\<close>

locale upload_ledger =
  fixes settle refund :: "ident \<Rightarrow> unix_time \<Rightarrow> cdb \<Rightarrow> cdb result"
    and inv :: "cdb \<Rightarrow> bool"
  assumes settle_keeps: "inv db \<Longrightarrow> settle up now db = Inr db' \<Longrightarrow> inv db'"
    and refund_total: "inv db \<Longrightarrow> \<exists>db'. refund up now db = Inr db' \<and> inv db'"
    and settle_uploads: "settle up now db = Inr db' \<Longrightarrow> uploads db' = uploads db"
    and settle_transfers: "settle up now db = Inr db' \<Longrightarrow> transfers db' = transfers db"
    and refund_uploads: "refund up now db = Inr db' \<Longrightarrow> uploads db' = uploads db"
    and refund_transfers: "refund up now db = Inr db' \<Longrightarrow> transfers db' = transfers db"
    and inv_uploads: "inv (db\<lparr>uploads := x\<rparr>) = inv db"
    and inv_transfers: "inv (db\<lparr>transfers := y\<rparr>) = inv db"
begin

lemma refund_keeps: "inv db \<Longrightarrow> refund up now db = Inr db' \<Longrightarrow> inv db'"
  using refund_total [of db up now] by auto

lemma refund_after_status_change:
  assumes "inv db"
  obtains db' where "refund up now (db\<lparr>uploads := x\<rparr>) = Inr db'" "inv db'" "uploads db' = x"
    "transfers db' = transfers db"
proof -
  have "inv (db\<lparr>uploads := x\<rparr>)" using assms by (simp add: inv_uploads)
  then obtain db' where "refund up now (db\<lparr>uploads := x\<rparr>) = Inr db'" "inv db'"
    using refund_total by blast
  then show thesis using that refund_uploads refund_transfers by fastforce
qed

lemma settle_after_status_change:
  assumes "inv db" "settle up now (db\<lparr>uploads := x\<rparr>) = Inr db'"
  shows "inv db'" "uploads db' = x" "transfers db' = transfers db"
proof -
  have "inv (db\<lparr>uploads := x\<rparr>)" using assms(1) by (simp add: inv_uploads)
  then show "inv db'" using assms(2) by (rule settle_keeps)
  show "uploads db' = x" using settle_uploads [OF assms(2)] by simp
  show "transfers db' = transfers db" using settle_transfers [OF assms(2)] by simp
qed

end

lemma debit_sources_frame:
  "debit_sources u fp als db = Inr db' \<Longrightarrow>
   uploads db' = uploads db \<and> transfers db' = transfers db \<and> charges db' = charges db \<and>
   allocations db' = allocations db \<and> reservations db' = reservations db \<and> sessions db' = sessions db"
  by (induction u fp als db rule: debit_sources.induct)
    (auto simp: Let_def split: source_kind.splits if_splits)

lemma release_hold_frame:
  "release_hold u n now db = Inr db' \<Longrightarrow>
   uploads db' = uploads db \<and> transfers db' = transfers db \<and> charges db' = charges db \<and>
   allocations db' = allocations db \<and> reservations db' = reservations db \<and> sessions db' = sessions db"
  by (auto simp: release_hold_def Let_def split: if_splits)

lemma finish_charge_other [simp]:
  "uploads (finish_charge up st now db) = uploads db" "transfers (finish_charge up st now db) = transfers db"
  "sessions (finish_charge up st now db) = sessions db"
  by (simp_all add: finish_charge_def)

lemma settle_frame:
  assumes "settleUploadTrafficTx up now db = Inr db'"
  shows "uploads db' = uploads db \<and> transfers db' = transfers db \<and> sessions db' = sessions db \<and>
    reservations db' = reservations db"
proof (cases "sql_count (\<lambda>c. c_upload_id c = up \<and> c_status c = ChargeReserved) (charges db) = 0")
  case True
  then show ?thesis using assms
    by (auto simp: settleUploadTrafficTx_def Let_def split: option.splits if_splits)
next
  case False
  then show ?thesis using assms
    by (auto simp: settleUploadTrafficTx_def Let_def split: option.splits if_splits sum.splits
        dest!: debit_sources_frame release_hold_frame)
qed

lemma refund_frame:
  assumes "refundUploadTrafficTx up now db = Inr db'"
  shows "uploads db' = uploads db \<and> transfers db' = transfers db \<and> sessions db' = sessions db \<and>
    reservations db' = reservations db"
  using assms by (auto simp: refundUploadTrafficTx_def Let_def split: option.splits if_splits
      dest!: release_hold_frame)

lemma charge_cases:
  obtains (none) "\<And>c. c \<in> set (charges db) \<Longrightarrow> c_upload_id c \<noteq> up"
  | (reserved) c where "c \<in> set (charges db)" "c_upload_id c = up" "c_status c = ChargeReserved"
  | (final) c where "c \<in> set (charges db)" "c_upload_id c = up" "c_status c \<noteq> ChargeReserved"
  by metis

lemma settle_inv:
  assumes inv: "traffic_inv db" and s: "settleUploadTrafficTx up now db = Inr db'"
  shows "traffic_inv db'"
proof (cases rule: charge_cases [of db up])
  case none
  then show ?thesis using settle_unknown(1) [OF none] s inv by simp
next
  case (reserved c)
  then have "db' = close_charge ChargeSettled (upload_allocations db (c_upload_id c)) now c db"
    using settle_reserved [OF inv, of c now] s by simp
  then show ?thesis
    using close_charge_inv [OF inv reserved(1,3), of ChargeSettled] reserved_charge_facts(3) [OF inv reserved(1,3)]
    by simp
next
  case (final c)
  then show ?thesis
    using settle_final(1) [of db c now] s inv by (auto simp: traffic_inv_def ledger_keys_def split: if_splits)
qed

lemma refund_ok:
  assumes inv: "traffic_inv db"
  shows "\<exists>db'. refundUploadTrafficTx up now db = Inr db' \<and> traffic_inv db'"
proof (cases rule: charge_cases [of db up])
  case none
  then show ?thesis using settle_unknown(2) [OF none] inv by simp
next
  case (reserved c)
  then show ?thesis
    using refund_reserved [OF inv, of c now] close_charge_inv [OF inv reserved(1,3), of ChargeRefunded "[]"]
      reserved_charge_facts(3) [OF inv reserved(1,3)] by simp
next
  case (final c)
  then show ?thesis
    using settle_final(2) [of db c now] inv by (auto simp: traffic_inv_def ledger_keys_def)
qed

interpretation ledger: upload_ledger settleUploadTrafficTx refundUploadTrafficTx traffic_inv
proof unfold_locales
  fix db db' :: cdb and up now x y
  show "traffic_inv db \<Longrightarrow> settleUploadTrafficTx up now db = Inr db' \<Longrightarrow> traffic_inv db'" by (rule settle_inv)
  show "traffic_inv db \<Longrightarrow> \<exists>db'. refundUploadTrafficTx up now db = Inr db' \<and> traffic_inv db'" by (rule refund_ok)
  show "settleUploadTrafficTx up now db = Inr db' \<Longrightarrow> uploads db' = uploads db"
    "settleUploadTrafficTx up now db = Inr db' \<Longrightarrow> transfers db' = transfers db"
    by (simp_all add: settle_frame)
  show "refundUploadTrafficTx up now db = Inr db' \<Longrightarrow> uploads db' = uploads db"
    "refundUploadTrafficTx up now db = Inr db' \<Longrightarrow> transfers db' = transfers db"
    by (simp_all add: refund_frame)
  show "traffic_inv (db\<lparr>uploads := x\<rparr>) = traffic_inv db" "traffic_inv (db\<lparr>transfers := y\<rparr>) = traffic_inv db"
    by (rule traffic_inv_cong; simp)+
qed

end
