(* ===== verification/Traffic_Properties.thy ===== *)
theory Traffic_Properties
  imports Traffic_Settle
begin

text \<open>
  The properties of the upload traffic ledger and the concrete ledgers they are checked on: a user
  with 100 permanent bytes and an entitlement of 50, before and after reserving 120 bytes.
\<close>

definition ledger_demo :: cdb where
  "ledger_demo = empty_cdb\<lparr>
     users := [\<lparr>us_id = ''u'', us_email = ''e'', us_username = ''n'', us_password_hash = '''',
       us_status = UserActive, us_role = RoleUser, us_vip_plan = '''', us_vip_expires_at = 0,
       us_must_change_password = False, us_created_at = 0, us_verified_at = 0, us_last_login_at = 0\<rparr>],
     uploads := [\<lparr>u_id = ''f'', u_transfer_id = ''t'', u_upload_hash = '''', u_original_name = ''a'',
       u_content_type = '''', u_length = 120, u_offset = 0, u_status = Uploading, u_temp_path = '''',
       u_object_path = '''', u_sha256 = '''', u_scan_detail = '''', u_submitter_name = '''',
       u_created_at = 0, u_completed_at = 0, u_storage_released = False,
       u_storage_kind = StorageKindLocal, u_storage_node_id = '''', u_storage_key = '''',
       u_storage_version = 1\<rparr>],
     accounts := [\<lparr>a_user_id = ''u'', a_free_traffic_remaining = 100,
       a_free_traffic_period = permanentBaseTrafficSource, a_traffic_reserved_bytes = 0,
       a_points_balance = 0, a_updated_at = 0\<rparr>],
     entitlements := [\<lparr>e_id = ''g'', e_user_id = ''u'', e_resource_type = TrafficResource,
       e_amount_bytes = 50, e_remaining_bytes = 50, e_expires_at = permanentTrafficEntitlementExpiry,
       e_source_type = ''order'', e_source_id = ''o'', e_created_at = 0\<rparr>]\<rparr>"

definition demo_charge :: upload_charge where
  "demo_charge = \<lparr>c_upload_id = ''f'', c_user_id = ''u'', c_amount_bytes = 120,
     c_status = ChargeReserved, c_created_at = 7, c_settled_at = 0\<rparr>"

definition reserved_demo :: cdb where
  "reserved_demo = ledger_demo\<lparr>
     accounts := [\<lparr>a_user_id = ''u'', a_free_traffic_remaining = 100,
       a_free_traffic_period = permanentBaseTrafficSource, a_traffic_reserved_bytes = 120,
       a_points_balance = 0, a_updated_at = 7\<rparr>],
     charges := [demo_charge],
     allocations := [\<lparr>al_upload_id = ''f'', al_ordinal = 0, al_source_kind = FreeSource,
         al_source_id = permanentBaseTrafficSource, al_amount_bytes = 100\<rparr>,
       \<lparr>al_upload_id = ''f'', al_ordinal = 1, al_source_kind = EntitlementSource,
         al_source_id = ''g'', al_amount_bytes = 20\<rparr>]\<rparr>"

lemma ledger_demo_inv: "traffic_inv ledger_demo"
  by code_simp

lemma reserved_demo_inv: "traffic_inv reserved_demo" "demo_charge \<in> set (charges reserved_demo)"
  "c_status demo_charge = ChargeReserved"
  by code_simp+

lemma ledger_demo_reserve: "reserveUploadTrafficTx ''f'' ''u'' 120 0 7 ledger_demo = Inr reserved_demo"
  by code_simp

lemma reserve_counts:
  assumes inv: "traffic_inv db" and res: "reserveUploadTrafficTx up u required monthly now db = Inr db'"
  shows "charge_total db' u = charge_total db u + required" "reserved_charge db' u up"
    "alloc_total db' up = required"
proof -
  from res obtain db1 pas where req: "0 \<le> required"
    and ens: "ensureTrafficAccountTx u monthly now db = Inr db1"
    and plan: "planUploadTrafficAllocationsTx u required now db1 = Inr pas"
    and fresh: "up \<notin> c_upload_id ` set (charges db1)"
    and db': "db' = db1\<lparr>charges := charges db1 @ [\<lparr>c_upload_id = up, c_user_id = u, c_amount_bytes = required,
              c_status = ChargeReserved, c_created_at = now, c_settled_at = 0\<rparr>],
            allocations := allocations db1 @ map (allocation_row up) pas,
            accounts := sql_update (\<lambda>a. a_user_id a = u)
               (\<lambda>a. a\<lparr>a_traffic_reserved_bytes := a_traffic_reserved_bytes a + required,
                      a_updated_at := now\<rparr>) (accounts db1)\<rparr>"
    by (rule reserve_cases)
  have inv1: "traffic_inv db1" using inv ens by (rule ensureTrafficAccount_inv)
  have cov: "charges_covered db1" and ek: "keyed e_id (entitlements db1)"
    using inv1 by (simp_all add: traffic_inv_def ledger_keys_def)
  have sum: "sum_list (map pa_reserved pas) = required" by (rule plan_props [OF plan req ek])
  have ch: "charges db' = charges db1 @ [\<lparr>c_upload_id = up, c_user_id = u, c_amount_bytes = required,
              c_status = ChargeReserved, c_created_at = now, c_settled_at = 0\<rparr>]"
    "allocations db' = allocations db1 @ map (allocation_row up) pas" "reservations db' = reservations db1"
    by (simp_all add: db')
  note sums = new_charge_sums [OF cov fresh, of "\<lparr>c_upload_id = up, c_user_id = u, c_amount_bytes = required,
              c_status = ChargeReserved, c_created_at = now, c_settled_at = 0\<rparr>" u db' pas, simplified, OF ch]
  have "charge_total db1 u = charge_total db u"
    by (simp add: charge_total_def ensureTrafficAccount_frame [OF ens])
  then show "charge_total db' u = charge_total db u + required" using sums(3) [of u] by simp
  show "reserved_charge db' u up" by (simp add: reserved_charge_iff ch)
  show "alloc_total db' up = required" using sums(2) [of up] sums(5) sum by simp
qed

section \<open>Properties\<close>

text \<open>C1. Reserving traffic for an upload keeps the ledger consistent: the new charge is recorded as
  reserved, its allocations add up to exactly the reserved bytes, the user's reserved total grows by
  them, and no source (base balance or entitlement) is promised more than it holds.\<close>

theorem reserve_keeps_ledger:
  assumes "traffic_inv db" "reserveUploadTrafficTx up u required monthly now db = Inr db'"
  shows "traffic_inv db' \<and> reserved_charge db' u up \<and> alloc_total db' up = required \<and>
    charge_total db' u = charge_total db u + required"
  using reserve_inv [OF assms] reserve_counts [OF assms] by simp

theorem reserve_keeps_ledger_witness:
  "traffic_inv reserved_demo \<and> reserved_charge reserved_demo ''u'' ''f'' \<and>
   alloc_total reserved_demo ''f'' = 120 \<and>
   charge_total reserved_demo ''u'' = charge_total ledger_demo ''u'' + 120"
  using reserve_keeps_ledger [OF ledger_demo_inv ledger_demo_reserve] .

text \<open>C2. A reserved charge can always be settled, whatever else the user holds: settling succeeds,
  keeps the ledger consistent, takes exactly the charged bytes from the user's balances, moves the
  charge out of the reserved total, and settling the upload a second time changes nothing.\<close>

theorem settle_debits_exactly:
  assumes "traffic_inv db" "c \<in> set (charges db)" "c_status c = ChargeReserved"
  shows "\<exists>db'. settleUploadTrafficTx (c_upload_id c) now db = Inr db' \<and> traffic_inv db' \<and>
    user_balance db' (c_user_id c) = user_balance db (c_user_id c) - c_amount_bytes c \<and>
    charge_total db' (c_user_id c) = charge_total db (c_user_id c) - c_amount_bytes c \<and>
    settleUploadTrafficTx (c_upload_id c) later db' = Inr db'"
proof -
  let ?db = "close_charge ChargeSettled (upload_allocations db (c_upload_id c)) now c db"
  note s = settle_reserved [OF assms, of now]
  have inv: "traffic_inv ?db" using settle_inv [OF assms(1) s] .
  have keys: "keyed c_upload_id (charges db)" using assms(1) by (simp add: traffic_inv_def ledger_keys_def)
  have mem: "c\<lparr>c_status := ChargeSettled, c_settled_at := now\<rparr> \<in> set (charges ?db)"
    unfolding close_charge_frame using finish_charge_first(2) [OF keys assms(2,3)] by (rule sql_first_Some)
  have "settleUploadTrafficTx (c_upload_id c) later ?db = Inr ?db"
    using settle_final(1) [OF _ mem, of later] inv by (simp add: traffic_inv_def ledger_keys_def)
  then show ?thesis
    using s inv user_balance_settle [OF assms, of now]
      finish_charge_sums(2) [OF keys assms(2) refl assms(3), of ChargeSettled now "c_user_id c"]
    by (simp add: close_charge_sums)
qed

theorem settle_debits_exactly_witness:
  "\<exists>db'. settleUploadTrafficTx ''f'' 9 reserved_demo = Inr db' \<and> traffic_inv db' \<and>
    user_balance db' ''u'' = 30 \<and> charge_total db' ''u'' = 0 \<and>
    settleUploadTrafficTx ''f'' 11 db' = Inr db'"
proof -
  have "c_upload_id demo_charge = ''f''" "c_user_id demo_charge = ''u''" "c_amount_bytes demo_charge = 120"
    "user_balance reserved_demo ''u'' = 150" "charge_total reserved_demo ''u'' = 120"
    by code_simp+
  then show ?thesis using settle_debits_exactly [OF reserved_demo_inv, of 9 11] by simp
qed

text \<open>C3. Refunding a reserved charge always succeeds, gives the hold back and leaves every balance of
  every user as it was; afterwards the upload can neither be settled (a conflict) nor refunded twice.\<close>

theorem refund_restores:
  assumes "traffic_inv db" "c \<in> set (charges db)" "c_status c = ChargeReserved"
  shows "\<exists>db'. refundUploadTrafficTx (c_upload_id c) now db = Inr db' \<and> traffic_inv db' \<and>
    (\<forall>v. user_balance db' v = user_balance db v) \<and>
    charge_total db' (c_user_id c) = charge_total db (c_user_id c) - c_amount_bytes c \<and>
    refundUploadTrafficTx (c_upload_id c) later db' = Inr db' \<and>
    settleUploadTrafficTx (c_upload_id c) later db' = Inl ErrConflict"
proof -
  let ?db = "close_charge ChargeRefunded [] now c db"
  note s = refund_reserved [OF assms, of now]
  have inv: "traffic_inv ?db" using ledger.refund_keeps [OF assms(1) s] .
  have keys: "keyed c_upload_id (charges db)" using assms(1) by (simp add: traffic_inv_def ledger_keys_def)
  have mem: "c\<lparr>c_status := ChargeRefunded, c_settled_at := now\<rparr> \<in> set (charges ?db)"
    unfolding close_charge_frame using finish_charge_first(2) [OF keys assms(2,3)] by (rule sql_first_Some)
  have "settleUploadTrafficTx (c_upload_id c) later ?db = Inl ErrConflict"
    "refundUploadTrafficTx (c_upload_id c) later ?db = Inr ?db"
    using settle_final [OF _ mem, of later] inv by (simp_all add: traffic_inv_def ledger_keys_def)
  moreover have "user_balance ?db v = user_balance db v" for v
    by (simp add: close_charge_def debit_all_Nil)
  ultimately show ?thesis
    using s inv finish_charge_sums(2) [OF keys assms(2) refl assms(3), of ChargeRefunded now "c_user_id c"]
    by (simp add: close_charge_sums)
qed

theorem refund_restores_witness:
  "\<exists>db'. refundUploadTrafficTx ''f'' 9 reserved_demo = Inr db' \<and> traffic_inv db' \<and>
    (\<forall>v. user_balance db' v = user_balance reserved_demo v) \<and> charge_total db' ''u'' = 0 \<and>
    refundUploadTrafficTx ''f'' 11 db' = Inr db' \<and>
    settleUploadTrafficTx ''f'' 11 db' = Inl ErrConflict"
proof -
  have "c_upload_id demo_charge = ''f''" "c_user_id demo_charge = ''u''" "c_amount_bytes demo_charge = 120"
    "charge_total reserved_demo ''u'' = 120"
    by code_simp+
  then show ?thesis using refund_restores [OF reserved_demo_inv, of 9 11] by simp
qed

text \<open>C4. Admission is exact: planning an upload of \<open>required\<close> bytes is refused for lack of traffic
  precisely when the bytes still unpromised over all usable sources, less the holds that predate
  allocations, do not cover it.\<close>

theorem plan_admission_exact:
  assumes "sql_first (\<lambda>a. a_user_id a = u) (accounts db) = Some acct" "0 \<le> required"
  shows "planUploadTrafficAllocationsTx u required now db = Inl ErrTrafficExceeded \<longleftrightarrow>
    0 < required \<and>
    available_total (traffic_sources db u acct now)
      < required + max (a_traffic_reserved_bytes acct - snapshotted_reserved db u) 0"
  using assms by (rule plan_admission)

theorem plan_admission_exact_witness:
  "planUploadTrafficAllocationsTx ''u'' 31 8 reserved_demo = Inl ErrTrafficExceeded \<and>
   is_ok (planUploadTrafficAllocationsTx ''u'' 30 8 reserved_demo)"
proof -
  have acct: "sql_first (\<lambda>a. a_user_id a = ''u'') (accounts reserved_demo) = Some (hd (accounts reserved_demo))"
    by code_simp
  have "available_total (traffic_sources reserved_demo ''u'' (hd (accounts reserved_demo)) 8)
      < 31 + max (a_traffic_reserved_bytes (hd (accounts reserved_demo)) - snapshotted_reserved reserved_demo ''u'') 0"
    by code_simp
  moreover have "is_ok (planUploadTrafficAllocationsTx ''u'' 30 8 reserved_demo)" by code_simp
  ultimately show ?thesis using plan_admission_exact [OF acct, of 31 8] by simp
qed

end
