(* ===== verification/Retrieval.thy ===== *)
theory Retrieval
  imports Control_Schema
begin

text \<open>
  Retrieval sessions (retrieval_store.go): one session is one use of a share. Opening a session
  claims a slot of the transfer (\<^verbatim>\<open>downloads\<close>), a session that never started a download gives the
  slot back, and a download reservation is the right to stream one file within a session.
\<close>

section \<open>Statements shared by the operations\<close>

abbreviation retrievalSessionProvisionalLifetime :: int where
  "retrievalSessionProvisionalLifetime \<equiv> 5 * 60"
abbreviation retrievalSessionLifetime :: int where
  "retrievalSessionLifetime \<equiv> 30 * 60"

definition live_reservation :: "download_reservation \<Rightarrow> bool" where
  "live_reservation d \<longleftrightarrow> d_status d = ResReserved \<or> d_status d = ResConsuming"

text \<open>\<^verbatim>\<open>INSERT INTO download_reservations\<close> with its foreign keys, its primary key, and the two
  partial unique indexes: one live reservation per session and file
  (idx_download_reservation_retrieval_live) and one provisional reservation per recipient and file
  (idx_download_reservation_provisional_recipient).\<close>

definition insert_reservation :: "download_reservation \<Rightarrow> cdb \<Rightarrow> cdb result" where
  "insert_reservation d db =
     (if \<not> upload_exists db (d_upload_id d) \<or> \<not> transfer_exists db (d_transfer_id d)
      then Inl ErrConstraint
      else if d_retrieval_session_id d \<noteq> '''' \<and> live_reservation d \<and>
        sql_exists (\<lambda>x. d_retrieval_session_id x = d_retrieval_session_id d \<and>
                        d_upload_id x = d_upload_id d \<and> live_reservation x) (reservations db)
      then Inl ErrConstraint
      else if d_recipient_key d \<noteq> '''' \<and> d_status d = ResReserved \<and>
        sql_exists (\<lambda>x. d_transfer_id x = d_transfer_id d \<and> d_upload_id x = d_upload_id d \<and>
                        d_recipient_key x = d_recipient_key d \<and> d_status x = ResReserved)
          (reservations db)
      then Inl ErrConstraint
      else case sql_insert d_id d (reservations db) of
             Inl e \<Rightarrow> Inl e
           | Inr t \<Rightarrow> Inr (db\<lparr>reservations := t\<rparr>))"

text \<open>Claiming a slot: \<^verbatim>\<open>downloads=downloads+1\<close> guarded by the limit, and exhaustion of the last one.\<close>

definition claimable :: "ident \<Rightarrow> unix_time \<Rightarrow> transfer \<Rightarrow> bool" where
  "claimable tid now t \<longleftrightarrow> t_id t = tid \<and> t_status t = TransferActive \<and> t_expires_at t > now \<and>
     t_downloads t < t_max_downloads t"

definition claim_slot :: "ident \<Rightarrow> unix_time \<Rightarrow> cdb \<Rightarrow> cdb result" where
  "claim_slot tid now db =
     (if sql_count (claimable tid now) (transfers db) \<noteq> 1 then Inl ErrDownloadLimit
      else Inr (db\<lparr>transfers := sql_update (claimable tid now)
        (\<lambda>t. t\<lparr>t_downloads := t_downloads t + 1,
               t_status := (if t_downloads t + 1 \<ge> t_max_downloads t then TransferExhausted
                            else t_status t)\<rparr>) (transfers db)\<rparr>))"

text \<open>Giving a slot back.\<close>

definition reopen_transfer :: "ident \<Rightarrow> unix_time \<Rightarrow> cdb \<Rightarrow> cdb" where
  "reopen_transfer tid now db =
     db\<lparr>transfers := sql_update (\<lambda>t. t_id t = tid)
       (\<lambda>t. t\<lparr>t_downloads := max (t_downloads t - 1) 0,
              t_status := (if t_status t = TransferExhausted \<and> t_expires_at t > now
                           then TransferActive else t_status t)\<rparr>) (transfers db)\<rparr>"

definition session_usable :: "unix_time \<Rightarrow> retrieval_session \<Rightarrow> bool" where
  "session_usable now s \<longleftrightarrow> (s_status s = SessProvisional \<or> s_status s = SessActive) \<and>
     s_expires_at s > now \<and> s_hard_expires_at s > now"

definition ValidRetrievalSession :: "ident \<Rightarrow> ident \<Rightarrow> unix_time \<Rightarrow> cdb \<Rightarrow> retrieval_session result" where
  "ValidRetrievalSession sid transferID now db =
     (case sql_first (\<lambda>s. s_id s = sid \<and> s_transfer_id s = transferID \<and> session_usable now s)
             (sessions db) of
        None \<Rightarrow> Inl ErrNotFound
      | Some s \<Rightarrow> Inr s)"

definition RetrievalSessionByID :: "ident \<Rightarrow> cdb \<Rightarrow> retrieval_session result" where
  "RetrievalSessionByID sid db =
     (case sql_first (\<lambda>s. s_id s = sid) (sessions db) of None \<Rightarrow> Inl ErrNotFound | Some s \<Rightarrow> Inr s)"

definition activeOrExhaustedTransfer :: "transfer \<Rightarrow> bool \<Rightarrow> unix_time \<Rightarrow> unit result" where
  "activeOrExhaustedTransfer t sessionValid now =
     (if t_expires_at t \<le> now \<or> (t_status t \<noteq> TransferActive \<and> t_status t \<noteq> TransferExhausted)
      then Inl ErrNotFound
      else if t_status t = TransferExhausted \<and> \<not> sessionValid then Inl ErrDownloadLimit
      else Inr ())"

section \<open>Opening a session and reserving a file\<close>

text \<open>The provisional session a recipient already has for the transfer, newest first.\<close>

definition provisional_session ::
  "ident \<Rightarrow> string \<Rightarrow> unix_time \<Rightarrow> cdb \<Rightarrow> retrieval_session option" where
  "provisional_session tid rkey now db =
     (case sort_key (\<lambda>s. - s_created_at s)
             (filter (\<lambda>s. s_transfer_id s = tid \<and> s_recipient_key s = rkey \<and>
                          s_status s = SessProvisional \<and> s_expires_at s > now \<and>
                          s_hard_expires_at s > now) (sessions db)) of
        [] \<Rightarrow> None
      | s # _ \<Rightarrow> Some s)"

definition use_session :: "retrieval_session \<Rightarrow> unix_time \<Rightarrow> cdb \<Rightarrow> retrieval_session \<times> cdb" where
  "use_session s now db =
     (s\<lparr>s_last_used_at := now\<rparr>,
      db\<lparr>sessions := sql_update (\<lambda>x. s_id x = s_id s) (\<lambda>x. x\<lparr>s_last_used_at := now\<rparr>) (sessions db)\<rparr>)"

definition new_session :: "ident \<Rightarrow> ident \<Rightarrow> string \<Rightarrow> unix_time \<Rightarrow> retrieval_session" where
  "new_session sid tid rkey now =
     \<lparr>s_id = sid, s_transfer_id = tid, s_recipient_key = rkey, s_status = SessProvisional,
      s_created_at = now, s_expires_at = now + retrievalSessionProvisionalLifetime,
      s_hard_expires_at = now + retrievalSessionLifetime, s_last_used_at = now, s_completed_at = 0\<rparr>"

text \<open>The session part of CreateRetrievalDownloadReservation: reuse the recipient's provisional
  session, continue the named one, or claim a slot and open a new one. The boolean is
  \<^verbatim>\<open>createdSession\<close>.\<close>

definition open_session ::
  "ident \<Rightarrow> ident \<Rightarrow> string \<Rightarrow> ident \<Rightarrow> unix_time \<Rightarrow> cdb \<Rightarrow> (retrieval_session \<times> bool \<times> cdb) result" where
  "open_session token tid rkey requested now db =
     (let reused = (if requested = '''' \<and> rkey \<noteq> '''' then provisional_session tid rkey now db else None)
      in case reused of
        Some s \<Rightarrow> (let (s', db') = use_session s now db in Inr (s', False, db'))
      | None \<Rightarrow>
          (if requested = ''''
           then (case claim_slot tid now db of
                   Inl e \<Rightarrow> Inl e
                 | Inr db1 \<Rightarrow>
                   (case sql_insert s_id (new_session token tid rkey now) (sessions db1) of
                      Inl e \<Rightarrow> Inl e
                    | Inr t \<Rightarrow> Inr (new_session token tid rkey now, True, db1\<lparr>sessions := t\<rparr>)))
           else (case ValidRetrievalSession requested tid now db of
                   Inl e \<Rightarrow> Inl e
                 | Inr s \<Rightarrow> (let (s', db') = use_session s now db in Inr (s', False, db')))))"

definition live_for ::
  "ident \<Rightarrow> ident \<Rightarrow> unix_time \<Rightarrow> cdb \<Rightarrow> download_reservation option" where
  "live_for sid uploadID now db =
     (case sort_key (\<lambda>d. if d_status d = ResConsuming then 0 else (1::nat))
             (filter (\<lambda>d. d_retrieval_session_id d = sid \<and> d_upload_id d = uploadID \<and>
                          (d_status d = ResReserved \<and> d_expires_at d > now \<or> d_status d = ResConsuming))
               (reservations db)) of
        [] \<Rightarrow> None
      | d # _ \<Rightarrow> Some d)"

text \<open>The reservation part: the file must be ready; a live reservation is renewed (or is a conflict
  while it streams), otherwise a new one is inserted.\<close>

definition reserve_in_session ::
  "ident \<Rightarrow> retrieval_session \<Rightarrow> ident \<Rightarrow> ident \<Rightarrow> int \<Rightarrow> unix_time \<Rightarrow> cdb \<Rightarrow>
   (download_reservation \<times> cdb) result" where
  "reserve_in_session reservationID s tid uploadID lifetime now db =
     (if sql_count (\<lambda>u. u_id u = uploadID \<and> u_transfer_id u = tid \<and> u_status u = Ready)
           (uploads db) \<noteq> 1 then Inl ErrNotFound
      else let expiresAt = min (now + lifetime) (s_expires_at s)
           in case live_for (s_id s) uploadID now db of
                Some d \<Rightarrow>
                  (if d_status d = ResConsuming then Inl ErrConflict
                   else Inr (d\<lparr>d_expires_at := expiresAt\<rparr>,
                     db\<lparr>reservations := sql_update (\<lambda>x. d_id x = d_id d)
                         (\<lambda>x. x\<lparr>d_expires_at := expiresAt\<rparr>) (reservations db)\<rparr>))
              | None \<Rightarrow>
                  (let d = \<lparr>d_id = reservationID, d_upload_id = uploadID, d_transfer_id = tid,
                            d_retrieval_session_id = s_id s, d_user_id = '''', d_reserved_bytes = 0,
                            d_actual_bytes = 0, d_status = ResReserved, d_created_at = now,
                            d_expires_at = expiresAt, d_settled_at = 0, d_recipient_key = ''''\<rparr>
                   in case insert_reservation d db of
                        Inl e \<Rightarrow> Inl e
                      | Inr db' \<Rightarrow> Inr (d, db')))"

definition CreateRetrievalDownloadReservation ::
  "ident \<Rightarrow> ident \<Rightarrow> ident \<Rightarrow> ident \<Rightarrow> string \<Rightarrow> ident \<Rightarrow> int \<Rightarrow> unix_time \<Rightarrow>
   (download_reservation \<times> retrieval_session \<times> bool) operation" where
  "CreateRetrievalDownloadReservation reservationID token transferID uploadID recipientKey
      retrievalSessionID reservationLifetime now db =
     (if length recipientKey > 256 \<or> reservationLifetime \<le> 0 then (Inl ErrConflict, db)
      else case sql_first (\<lambda>t. t_id t = transferID) (transfers db) of
        None \<Rightarrow> (Inl ErrNotFound, db)
      | Some t \<Rightarrow>
        (if t_expires_at t \<le> now \<or> (t_status t \<noteq> TransferActive \<and> t_status t \<noteq> TransferExhausted)
         then (Inl ErrNotFound, db)
         else if t_download_limit_mode t \<noteq> RetrievalSessionV1 \<or> \<not> t_delete_on_exhaustion t
         then (Inl ErrConflict, db)
         else case open_session token transferID recipientKey retrievalSessionID now db of
           Inl e \<Rightarrow> (Inl e, db)
         | Inr (s, created, db1) \<Rightarrow>
           (case reserve_in_session reservationID s transferID uploadID reservationLifetime now db1 of
              Inl e \<Rightarrow> (Inl e, db)
            | Inr (d, db2) \<Rightarrow> (Inr (d, s, created), db2))))"

section \<open>The life of a session\<close>

definition activateRetrievalSessionTx :: "ident \<Rightarrow> unix_time \<Rightarrow> cdb \<Rightarrow> cdb result" where
  "activateRetrievalSessionTx sessionID now db =
     (if sessionID = '''' then Inr db
      else let hit = (\<lambda>s. s_id s = sessionID \<and>
                          (s_status s = SessProvisional \<or> s_status s = SessActive) \<and>
                          s_hard_expires_at s > now)
           in if sql_count hit (sessions db) \<noteq> 1 then Inl ErrConflict
              else Inr (db\<lparr>sessions := sql_update hit
                (\<lambda>s. s\<lparr>s_status := SessActive, s_expires_at := s_hard_expires_at s,
                       s_last_used_at := now\<rparr>) (sessions db)\<rparr>))"

definition touchRetrievalSessionTx :: "ident \<Rightarrow> unix_time \<Rightarrow> cdb \<Rightarrow> cdb result" where
  "touchRetrievalSessionTx sessionID now db =
     (if sessionID = '''' then Inr db
      else let hit = (\<lambda>s. s_id s = sessionID \<and> s_status s = SessActive)
           in if sql_count hit (sessions db) \<noteq> 1 then Inl ErrConflict
              else Inr (db\<lparr>sessions := sql_update hit (\<lambda>s. s\<lparr>s_last_used_at := now\<rparr>) (sessions db)\<rparr>))"

definition streaming_in :: "cdb \<Rightarrow> ident \<Rightarrow> bool" where
  "streaming_in db sid =
     sql_exists (\<lambda>d. d_retrieval_session_id d = sid \<and> d_status d = ResConsuming) (reservations db)"

definition release_session :: "unix_time \<Rightarrow> retrieval_session \<Rightarrow> retrieval_session" where
  "release_session now s =
     s\<lparr>s_status := SessReleased, s_expires_at := now, s_last_used_at := now, s_completed_at := now\<rparr>"

definition AbortRetrievalDownloadReservation :: "ident \<Rightarrow> bool \<Rightarrow> unix_time \<Rightarrow> unit operation" where
  "AbortRetrievalDownloadReservation reservationID releaseSession now db =
     (case sql_first (\<lambda>d. d_id d = reservationID) (reservations db) of
        None \<Rightarrow> (Inl ErrNotFound, db)
      | Some d \<Rightarrow>
        (let sid = d_retrieval_session_id d;
             db1 = (if d_status d = ResReserved
                    then db\<lparr>reservations := sql_update
                           (\<lambda>x. d_id x = reservationID \<and> d_status x = ResReserved)
                           (\<lambda>x. x\<lparr>d_status := ResReleased, d_settled_at := now\<rparr>) (reservations db)\<rparr>
                    else db)
         in if releaseSession \<and> sid \<noteq> ''''
            then let hit = (\<lambda>s. s_id s = sid \<and> s_status s = SessProvisional \<and> \<not> streaming_in db1 (s_id s));
                     db2 = db1\<lparr>sessions := sql_update hit (release_session now) (sessions db1)\<rparr>
                 in if sql_count hit (sessions db1) = 1
                    then (Inr (), reopen_transfer (d_transfer_id d) now db2)
                    else (Inr (), db2)
            else (Inr (), db1)))"

definition closeCompletedRetrievalSessionTx :: "ident \<Rightarrow> ident \<Rightarrow> unix_time \<Rightarrow> cdb \<Rightarrow> cdb result" where
  "closeCompletedRetrievalSessionTx sessionID transferID now db =
     (if sessionID = '''' then Inr db
      else let readyFiles = sql_count (\<lambda>u. u_transfer_id u = transferID \<and> u_status u = Ready) (uploads db);
               completedFiles = length (remdups (map d_upload_id (filter
                 (\<lambda>d. d_retrieval_session_id d = sessionID \<and> d_status d = ResSettled \<and>
                      sql_exists (\<lambda>u. u_id u = d_upload_id d \<and> d_actual_bytes d \<ge> u_length u) (uploads db))
                 (reservations db))))
           in if readyFiles = 0 \<or> completedFiles < readyFiles then Inr db
              else Inr (db\<lparr>sessions := sql_update
                (\<lambda>s. s_id s = sessionID \<and> s_status s = SessActive \<and> \<not> streaming_in db (s_id s))
                (\<lambda>s. s\<lparr>s_status := SessClosed, s_expires_at := now, s_last_used_at := now,
                       s_completed_at := now\<rparr>) (sessions db)\<rparr>))"

text \<open>The loop over the expired provisional sessions.\<close>

fun release_expired :: "unix_time \<Rightarrow> (ident \<times> ident) list \<Rightarrow> cdb \<Rightarrow> cdb" where
  "release_expired now [] db = db"
| "release_expired now ((sid, tid) # items) db =
     (let hit = (\<lambda>s. s_id s = sid \<and> s_status s = SessProvisional);
          db1 = db\<lparr>sessions := sql_update hit (release_session now) (sessions db)\<rparr>
      in if sql_count hit (sessions db) \<noteq> 1 then release_expired now items db1
         else release_expired now items (reopen_transfer tid now db1))"

definition release_provisional_reservations :: "unix_time \<Rightarrow> cdb \<Rightarrow> cdb" where
  "release_provisional_reservations now db =
     db\<lparr>reservations := sql_update
       (\<lambda>d. d_status d = ResReserved \<and>
            sql_exists (\<lambda>s. s_id s = d_retrieval_session_id d \<and> s_status s = SessProvisional \<and>
                            s_expires_at s \<le> now) (sessions db))
       (\<lambda>d. d\<lparr>d_status := ResReleased, d_settled_at := now\<rparr>) (reservations db)\<rparr>"

definition close_expired_active :: "unix_time \<Rightarrow> cdb \<Rightarrow> cdb" where
  "close_expired_active now db =
     db\<lparr>sessions := sql_update
       (\<lambda>s. s_status s = SessActive \<and> s_expires_at s \<le> now \<and> \<not> streaming_in db (s_id s))
       (\<lambda>s. s\<lparr>s_status := SessClosed, s_completed_at := now, s_last_used_at := now\<rparr>) (sessions db)\<rparr>"

definition ReleaseExpiredRetrievalSessions :: "unix_time \<Rightarrow> unit operation" where
  "ReleaseExpiredRetrievalSessions now db =
     (let db1 = release_provisional_reservations now db;
          expired = map (\<lambda>s. (s_id s, s_transfer_id s))
            (filter (\<lambda>s. s_status s = SessProvisional \<and> s_expires_at s \<le> now \<and>
                         \<not> streaming_in db1 (s_id s)) (sessions db1));
          db2 = release_expired now expired db1
      in (Inr (), close_expired_active now db2))"

end
