(* ===== verification/Downloads.thy ===== *)
theory Downloads
  imports Retrieval
begin

text \<open>
  Download reservations (commerce_store.go): reserving a file for a recipient, beginning to stream,
  progress reports and final settlement, expiry. Downloads cost no traffic any more; reservations
  made before that change may still hold bytes of an account, and the first statement of each
  operation gives them back. The table \<^verbatim>\<open>download_reservation_allocations\<close> and the column
  \<^verbatim>\<open>monthly_traffic_bytes\<close> of those old reservations are only ever deleted or zeroed and are left out.
\<close>

abbreviation downloadReservationLeaseDuration :: int where
  "downloadReservationLeaseDuration \<equiv> 2 * 60"
abbreviation downloadReservationMaxDuration :: int where
  "downloadReservationMaxDuration \<equiv> 48 * 3600"

section \<open>Legacy holds\<close>

definition releaseLegacyDownloadTrafficForReservationTx :: "ident \<Rightarrow> unix_time \<Rightarrow> cdb \<Rightarrow> cdb result" where
  "releaseLegacyDownloadTrafficForReservationTx rid now db =
     (case sql_first (\<lambda>d. d_id d = rid) (reservations db) of
        None \<Rightarrow> Inl ErrNotFound
      | Some d \<Rightarrow>
        (if (d_user_id d = '''' \<and> d_reserved_bytes d = 0) \<or> d_status d = ResSettled then Inr db
         else let db1 = (if d_user_id d \<noteq> '''' \<and> d_reserved_bytes d > 0
                         then db\<lparr>accounts := sql_update (\<lambda>a. a_user_id a = d_user_id d)
                                (\<lambda>a. a\<lparr>a_traffic_reserved_bytes :=
                                         max (a_traffic_reserved_bytes a - d_reserved_bytes d) 0,
                                       a_updated_at := now\<rparr>) (accounts db)\<rparr>
                         else db)
              in Inr (db1\<lparr>reservations := sql_update (\<lambda>x. d_id x = rid)
                   (\<lambda>x. x\<lparr>d_user_id := '''', d_reserved_bytes := 0\<rparr>) (reservations db1)\<rparr>)))"

text \<open>The one-time upgrade: all open legacy holds at once (\<open>version\<close> is the row of
  \<^verbatim>\<open>download_reservation_state_meta\<close>, returned updated).\<close>

definition legacy_held :: "cdb \<Rightarrow> ident \<Rightarrow> int" where
  "legacy_held db uid = sql_sum (\<lambda>d. live_reservation d \<and> d_user_id d = uid) d_reserved_bytes (reservations db)"

definition upgradeLegacyDownloadReservations :: "int \<Rightarrow> unix_time \<Rightarrow> cdb \<Rightarrow> int \<times> cdb" where
  "upgradeLegacyDownloadReservations version now db =
     (if version \<ge> 3 then (version, db)
      else (3, db\<lparr>
        accounts := sql_update
          (\<lambda>a. sql_exists (\<lambda>d. live_reservation d \<and> d_user_id d = a_user_id a \<and> d_reserved_bytes d > 0)
                 (reservations db))
          (\<lambda>a. a\<lparr>a_traffic_reserved_bytes :=
                   max (a_traffic_reserved_bytes a - legacy_held db (a_user_id a)) 0,
                 a_updated_at := now\<rparr>) (accounts db),
        reservations := sql_update live_reservation
          (\<lambda>d. d\<lparr>d_user_id := '''', d_reserved_bytes := 0\<rparr>) (reservations db)\<rparr>))"

section \<open>Reserving for a recipient\<close>

definition CreateDownloadReservationForRecipient ::
  "ident \<Rightarrow> ident \<Rightarrow> ident \<Rightarrow> string \<Rightarrow> int \<Rightarrow> unix_time \<Rightarrow> download_reservation operation" where
  "CreateDownloadReservationForRecipient reservationID transferID uploadID recipientKey lifetime now db =
     (if length recipientKey > 256 \<or> lifetime \<le> 0 then (Inl ErrConflict, db)
      else let expiresAt = now + lifetime;
               mine = (\<lambda>d. d_transfer_id d = transferID \<and> d_upload_id d = uploadID \<and>
                           d_recipient_key d = recipientKey \<and> d_status d = ResReserved);
               fresh = \<lparr>d_id = reservationID, d_upload_id = uploadID, d_transfer_id = transferID,
                        d_retrieval_session_id = '''', d_user_id = '''', d_reserved_bytes = 0,
                        d_actual_bytes = 0, d_status = ResReserved, d_created_at = now,
                        d_expires_at = expiresAt, d_settled_at = 0, d_recipient_key = recipientKey\<rparr>;
               insert_new = (\<lambda>db1. case insert_reservation fresh db1 of
                                     Inl e \<Rightarrow> (Inl e, db)
                                   | Inr db2 \<Rightarrow> (Inr fresh, db2))
           in if recipientKey = '''' then insert_new db
              else let expired = sql_first (\<lambda>d. mine d \<and> d_expires_at d \<le> now) (reservations db);
                       released = (case expired of
                           None \<Rightarrow> Inr db
                         | Some d \<Rightarrow>
                           (case releaseLegacyDownloadTrafficForReservationTx (d_id d) now db of
                              Inl e \<Rightarrow> Inl e
                            | Inr db1 \<Rightarrow> Inr (db1\<lparr>reservations := sql_update
                                (\<lambda>x. d_id x = d_id d \<and> d_status x = ResReserved)
                                (\<lambda>x. x\<lparr>d_status := ResReleased, d_settled_at := now\<rparr>)
                                (reservations db1)\<rparr>)))
                   in case released of
                        Inl e \<Rightarrow> (Inl e, db)
                      | Inr db1 \<Rightarrow>
                        (case sql_first mine (reservations db1) of
                           None \<Rightarrow> insert_new db1
                         | Some d \<Rightarrow>
                           (case releaseLegacyDownloadTrafficForReservationTx (d_id d) now db1 of
                              Inl e \<Rightarrow> (Inl e, db)
                            | Inr db2 \<Rightarrow>
                              (Inr (d\<lparr>d_user_id := '''', d_reserved_bytes := 0, d_expires_at := expiresAt\<rparr>),
                               db2\<lparr>reservations := sql_update
                                 (\<lambda>x. d_id x = d_id d \<and> d_status x = ResReserved)
                                 (\<lambda>x. x\<lparr>d_expires_at := expiresAt, d_user_id := '''', d_reserved_bytes := 0\<rparr>)
                                 (reservations db2)\<rparr>))))"

section \<open>Beginning to stream\<close>

definition put_runtime :: "reservation_runtime \<Rightarrow> reservation_runtime list \<Rightarrow> reservation_runtime list" where
  "put_runtime r t =
     (if sql_exists (\<lambda>x. rt_reservation_id x = rt_reservation_id r) t
      then sql_update (\<lambda>x. rt_reservation_id x = rt_reservation_id r) (\<lambda>_. r) t else t @ [r])"

definition release_consuming :: "ident \<Rightarrow> unix_time \<Rightarrow> cdb \<Rightarrow> cdb" where
  "release_consuming rid now db =
     db\<lparr>reservations := sql_update (\<lambda>d. d_id d = rid \<and> d_status d = ResConsuming)
       (\<lambda>d. d\<lparr>d_status := ResReleased, d_settled_at := now\<rparr>) (reservations db)\<rparr>"

definition count_download :: "ident \<Rightarrow> unix_time \<Rightarrow> cdb \<Rightarrow> cdb option" where
  "count_download tid now db =
     (if sql_count (claimable tid now) (transfers db) \<noteq> 1 then None
      else Some (db\<lparr>transfers := sql_update (claimable tid now)
             (\<lambda>t. t\<lparr>t_downloads := t_downloads t + 1\<rparr>) (transfers db)\<rparr>))"

definition session_allows :: "ident \<Rightarrow> ident \<Rightarrow> unix_time \<Rightarrow> cdb \<Rightarrow> bool" where
  "session_allows sid tid now db =
     (length (filter (\<lambda>(s, t). s_id s = sid \<and> s_transfer_id s = tid \<and> t_id t = s_transfer_id s \<and>
          session_usable now s \<and> (t_status t = TransferActive \<or> t_status t = TransferExhausted) \<and>
          t_expires_at t > now) (List.product (sessions db) (transfers db))) = 1)"

text \<open>The tail of beginDownloadReservation: the hard expiry and the runtime lease.\<close>

definition start_stream :: "download_reservation \<Rightarrow> unix_time \<Rightarrow> cdb \<Rightarrow> (download_reservation \<times> cdb) result" where
  "start_stream d now db =
     (let expiresAt = now + downloadReservationMaxDuration;
          hit = (\<lambda>x. d_id x = d_id d \<and> d_status x = ResConsuming);
          lease = min (now + downloadReservationLeaseDuration) expiresAt
      in if sql_count hit (reservations db) \<noteq> 1 then Inl ErrConflict
         else Inr (d\<lparr>d_user_id := '''', d_reserved_bytes := 0, d_expires_at := expiresAt,
                     d_status := ResConsuming\<rparr>,
           db\<lparr>reservations := sql_update hit
                (\<lambda>x. x\<lparr>d_user_id := '''', d_reserved_bytes := 0, d_expires_at := expiresAt\<rparr>)
                (reservations db),
              runtimes := put_runtime \<lparr>rt_reservation_id = d_id d, rt_started_at = now,
                rt_lease_expires_at = lease, rt_hard_expires_at = expiresAt,
                rt_last_progress_at = now\<rparr> (runtimes db)\<rparr>))"

text \<open>The admission of a stream: a legacy one counts a download now, one in a session needs the
  session and activates it. A refusal releases the reservation and commits; any other error rolls
  back to \<open>db0\<close>.\<close>

definition admit_stream ::
  "cdb \<Rightarrow> download_reservation \<Rightarrow> unix_time \<Rightarrow> cdb \<Rightarrow> download_reservation result \<times> cdb" where
  "admit_stream db0 d now db =
     (let sid = d_retrieval_session_id d; tid = d_transfer_id d
      in if sid = ''''
         then (case count_download tid now db of
                 None \<Rightarrow> (Inl ErrQuotaExceeded, release_consuming (d_id d) now db)
               | Some db1 \<Rightarrow> commit db0 (start_stream d now db1))
         else if \<not> session_allows sid tid now db
         then (Inl ErrQuotaExceeded, release_consuming (d_id d) now db)
         else case activateRetrievalSessionTx sid now
                     (db\<lparr>sessions := sql_update (\<lambda>s. s_id s = sid)
                        (\<lambda>s. s\<lparr>s_last_used_at := now\<rparr>) (sessions db)\<rparr>) of
                Inl e \<Rightarrow> (Inl e, db0)
              | Inr db1 \<Rightarrow> commit db0 (start_stream d now db1))"

definition beginnable :: "ident \<Rightarrow> unix_time \<Rightarrow> download_reservation \<Rightarrow> bool" where
  "beginnable expectedUploadID now d \<longleftrightarrow> d_status d = ResReserved \<and> d_expires_at d > now \<and>
     (expectedUploadID = '''' \<or> d_upload_id d = expectedUploadID)"

definition mark_consuming :: "ident \<Rightarrow> ident \<Rightarrow> unix_time \<Rightarrow> cdb \<Rightarrow> cdb" where
  "mark_consuming rid expectedUploadID now db =
     db\<lparr>reservations := sql_update (\<lambda>d. d_id d = rid \<and> beginnable expectedUploadID now d)
       (\<lambda>d. d\<lparr>d_status := ResConsuming\<rparr>) (reservations db)\<rparr>"

definition beginDownloadReservation :: "ident \<Rightarrow> ident \<Rightarrow> unix_time \<Rightarrow> download_reservation operation" where
  "beginDownloadReservation rid expectedUploadID now db =
     (if sql_count (\<lambda>d. d_id d = rid \<and> beginnable expectedUploadID now d) (reservations db) \<noteq> 1
      then (Inl (if sql_count (\<lambda>d. d_id d = rid) (reservations db) = 0 then ErrNotFound
                 else ErrConflict), db)
      else case releaseLegacyDownloadTrafficForReservationTx rid now
                  (mark_consuming rid expectedUploadID now db) of
        Inl e \<Rightarrow> (Inl e, db)
      | Inr db1 \<Rightarrow>
        (case sql_first (\<lambda>d. d_id d = rid) (reservations db1) of
           None \<Rightarrow> (Inl ErrNotFound, db)
         | Some d \<Rightarrow> admit_stream db d now db1))"

definition BeginDownloadReservation :: "ident \<Rightarrow> unix_time \<Rightarrow> download_reservation operation" where
  "BeginDownloadReservation rid now db = beginDownloadReservation rid '''' now db"

definition BeginDownloadReservationForUpload ::
  "ident \<Rightarrow> ident \<Rightarrow> unix_time \<Rightarrow> download_reservation operation" where
  "BeginDownloadReservationForUpload rid uploadID now db =
     (if uploadID = '''' then (Inl ErrConflict, db) else beginDownloadReservation rid uploadID now db)"

section \<open>Progress and settlement\<close>

text \<open>A storage node reports progress as the byte count itself and a final partial count shifted
  beyond the file length.\<close>

definition encodeFinalNodeDownloadBytes :: "int \<Rightarrow> int \<Rightarrow> int result" where
  "encodeFinalNodeDownloadBytes expected actual =
     (if expected \<le> 0 \<or> actual \<le> 0 \<or> actual \<ge> expected \<or> expected > go_div (max_int64 - 1) 2 \<or>
         actual > i64 (i64 (max_int64 - expected) - 1)
      then Inl ErrConflict else Inr (i64 (i64 (expected + 1) + actual)))"

definition decodeNodeDownloadBytes :: "int \<Rightarrow> int \<Rightarrow> (int \<times> bool) result" where
  "decodeNodeDownloadBytes expected reported =
     (if expected \<le> 0 \<or> reported < 0 then Inl ErrConflict
      else if reported = 0 \<or> reported = expected then Inr (reported, True)
      else if reported < expected then Inr (reported, False)
      else if expected > go_div (max_int64 - 1) 2 \<or> reported \<le> expected \<or> reported > i64 (expected * 2)
      then Inl ErrConflict
      else let actual = i64 (i64 (reported - expected) - 1)
           in if actual \<le> 0 \<or> actual \<ge> expected then Inl ErrConflict else Inr (actual, True))"

text \<open>The branch of a progress report: the runtime row (created if missing), then either the lease
  is renewed (\<open>Inl\<close>) or the hard limit has passed and the stream is settled (\<open>Inr\<close>).\<close>

definition ensure_runtime :: "ident \<Rightarrow> unix_time \<Rightarrow> cdb \<Rightarrow> int \<times> cdb" where
  "ensure_runtime rid now db =
     (case sql_first (\<lambda>r. rt_reservation_id r = rid) (runtimes db) of
        Some r \<Rightarrow> (rt_hard_expires_at r, db)
      | None \<Rightarrow>
        (let hard = now + downloadReservationMaxDuration
         in (hard, db\<lparr>runtimes := runtimes db @
               [\<lparr>rt_reservation_id = rid, rt_started_at = now,
                 rt_lease_expires_at = min (now + downloadReservationLeaseDuration) hard,
                 rt_hard_expires_at = hard, rt_last_progress_at = now\<rparr>],
             reservations := sql_update (\<lambda>d. d_id d = rid) (\<lambda>d. d\<lparr>d_expires_at := hard\<rparr>)
               (reservations db)\<rparr>)))"

definition record_progress :: "ident \<Rightarrow> ident \<Rightarrow> int \<Rightarrow> int \<Rightarrow> unix_time \<Rightarrow> cdb \<Rightarrow> cdb result" where
  "record_progress rid sid actual hard now db =
     (case (if actual > 0 \<and> sid \<noteq> '''' then touchRetrievalSessionTx sid now db else Inr db) of
        Inl e \<Rightarrow> Inl e
      | Inr db1 \<Rightarrow> Inr (db1\<lparr>
          reservations := sql_update (\<lambda>d. d_id d = rid \<and> d_status d = ResConsuming)
            (\<lambda>d. d\<lparr>d_actual_bytes := max (d_actual_bytes d) actual\<rparr>) (reservations db1),
          runtimes := sql_update (\<lambda>r. rt_reservation_id r = rid)
            (\<lambda>r. r\<lparr>rt_lease_expires_at := min (now + downloadReservationLeaseDuration) hard,
                   rt_last_progress_at := now\<rparr>) (runtimes db1)\<rparr>))"

text \<open>The final settlement of a reservation whose status was \<open>st\<close>.\<close>

definition settle_final_bytes ::
  "ident \<Rightarrow> reservation_status \<Rightarrow> ident \<Rightarrow> ident \<Rightarrow> int \<Rightarrow> unix_time \<Rightarrow> cdb \<Rightarrow> cdb result" where
  "settle_final_bytes rid st sid tid actual now db =
     (let db1 = (if st = ResConsuming \<and> actual = 0 \<and> sid = ''''
                 then db\<lparr>transfers := sql_update (\<lambda>t. t_id t = tid)
                        (\<lambda>t. t\<lparr>t_downloads := max (t_downloads t - 1) 0\<rparr>) (transfers db)\<rparr>
                 else db)
      in case (if st = ResConsuming \<and> actual > 0 \<and> sid \<noteq> '''' then touchRetrievalSessionTx sid now db1
               else Inr db1) of
           Inl e \<Rightarrow> Inl e
         | Inr db2 \<Rightarrow>
           (let db3 = db2\<lparr>reservations := sql_update (\<lambda>d. d_id d = rid)
                  (\<lambda>d. d\<lparr>d_status := ResSettled, d_actual_bytes := actual, d_settled_at := now\<rparr>)
                  (reservations db2)\<rparr>
            in if st = ResConsuming \<and> actual > 0
               then closeCompletedRetrievalSessionTx sid tid now db3 else Inr db3))"

definition settle_reported ::
  "download_reservation \<Rightarrow> int \<Rightarrow> bool \<Rightarrow> unix_time \<Rightarrow> cdb \<Rightarrow> cdb result" where
  "settle_reported d actual final now db =
     (let rid = d_id d; sid = d_retrieval_session_id d; tid = d_transfer_id d; st = d_status d
      in if st = ResReleased then Inr db
         else if st = ResSettled then (if d_actual_bytes d \<noteq> actual then Inl ErrConflict else Inr db)
         else if st = ResConsuming \<and> \<not> final
         then (if actual < d_actual_bytes d then Inl ErrConflict
               else let (hard, db1) = ensure_runtime rid now db
                    in if now < hard then record_progress rid sid actual hard now db1
                       else settle_final_bytes rid st sid tid (max actual (d_actual_bytes d)) now db1)
         else settle_final_bytes rid st sid tid actual now db)"

definition settleDownloadReservation :: "ident \<Rightarrow> int \<Rightarrow> unix_time \<Rightarrow> bool \<Rightarrow> unit operation" where
  "settleDownloadReservation rid reported now forceFinal db =
     (if sql_count (\<lambda>d. d_id d = rid) (reservations db) \<noteq> 1 then (Inl ErrNotFound, db)
      else case sql_first (\<lambda>d. d_id d = rid) (reservations db) of
        None \<Rightarrow> (Inl ErrNotFound, db)
      | Some d \<Rightarrow>
        (case sql_first (\<lambda>u. u_id u = d_upload_id d) (uploads db) of
           None \<Rightarrow> (Inl ErrNotFound, db)
         | Some u \<Rightarrow>
           (case releaseLegacyDownloadTrafficForReservationTx rid now db of
              Inl e \<Rightarrow> (Inl e, db)
            | Inr db1 \<Rightarrow>
              (case (if \<not> forceFinal \<and> u_storage_kind u = StorageKindNode
                     then decodeNodeDownloadBytes (u_length u) reported else Inr (reported, True)) of
                 Inl e \<Rightarrow> (Inl e, db)
               | Inr (actual, final) \<Rightarrow>
                 (if actual < 0 \<or> actual > u_length u then (Inl ErrConflict, db)
                  else case settle_reported d actual final now db1 of
                         Inl e \<Rightarrow> (Inl e, db)
                       | Inr db2 \<Rightarrow> (Inr (), db2))))))"

definition SettleDownloadReservation :: "ident \<Rightarrow> int \<Rightarrow> unix_time \<Rightarrow> unit operation" where
  "SettleDownloadReservation rid actual now db = settleDownloadReservation rid actual now False db"

section \<open>Expiry\<close>

definition release_expired_reserved :: "unix_time \<Rightarrow> cdb \<Rightarrow> cdb" where
  "release_expired_reserved now db =
     (let due = (\<lambda>d. d_status d = ResReserved \<and> d_expires_at d \<le> now)
      in db\<lparr>
        accounts := sql_update
          (\<lambda>a. sql_exists (\<lambda>d. due d \<and> d_user_id d = a_user_id a \<and> d_reserved_bytes d > 0) (reservations db))
          (\<lambda>a. a\<lparr>a_traffic_reserved_bytes := max (a_traffic_reserved_bytes a
                   - sql_sum (\<lambda>d. due d \<and> d_user_id d = a_user_id a) d_reserved_bytes (reservations db)) 0,
                 a_updated_at := now\<rparr>) (accounts db),
        reservations := sql_update due
          (\<lambda>d. d\<lparr>d_status := ResReleased, d_user_id := '''', d_reserved_bytes := 0, d_settled_at := now\<rparr>)
          (reservations db)\<rparr>)"

definition adopt_legacy_streams :: "unix_time \<Rightarrow> cdb \<Rightarrow> cdb" where
  "adopt_legacy_streams now db =
     (let missing = filter (\<lambda>d. d_status d = ResConsuming \<and>
                        \<not> sql_exists (\<lambda>r. rt_reservation_id r = d_id d) (runtimes db)) (reservations db);
          rts = runtimes db @ map (\<lambda>d. \<lparr>rt_reservation_id = d_id d, rt_started_at = now,
                   rt_lease_expires_at = now + downloadReservationLeaseDuration,
                   rt_hard_expires_at = now + downloadReservationMaxDuration,
                   rt_last_progress_at = now\<rparr>) missing
      in db\<lparr>runtimes := rts,
           reservations := map (\<lambda>d. if d_status d = ResConsuming
               then (case sql_first (\<lambda>r. rt_reservation_id r = d_id d) rts of
                       None \<Rightarrow> d | Some r \<Rightarrow> d\<lparr>d_expires_at := rt_hard_expires_at r\<rparr>)
               else d) (reservations db)\<rparr>)"

definition overdue_streams :: "unix_time \<Rightarrow> cdb \<Rightarrow> (ident \<times> int) list" where
  "overdue_streams now db =
     take 100 (map (\<lambda>d. (d_id d, d_actual_bytes d))
       (filter (\<lambda>d. d_status d = ResConsuming \<and>
            sql_exists (\<lambda>r. rt_reservation_id r = d_id d \<and> rt_hard_expires_at r \<le> now) (runtimes db))
          (reservations db)))"

fun settle_streams :: "(ident \<times> int) list \<Rightarrow> unix_time \<Rightarrow> unit operation" where
  "settle_streams [] now db = (Inr (), db)"
| "settle_streams ((rid, actual) # xs) now db =
     (case settleDownloadReservation rid actual now True db of
        (Inl e, db1) \<Rightarrow> (if e = ErrConflict then settle_streams xs now db1 else (Inl e, db1))
      | (Inr _, db1) \<Rightarrow> settle_streams xs now db1)"

definition ReleaseExpiredDownloadReservations :: "unix_time \<Rightarrow> unit operation" where
  "ReleaseExpiredDownloadReservations now db =
     (let db1 = adopt_legacy_streams now (release_expired_reserved now db)
      in case settle_streams (overdue_streams now db1) now db1 of
           (Inl e, db2) \<Rightarrow> (Inl e, db2)
         | (Inr _, db2) \<Rightarrow>
           (Inr (), db2\<lparr>rate_limits := sql_delete (\<lambda>r. rl_window_start r < now - 7 * 24 * 3600)
                         (rate_limits db2)\<rparr>))"

end
