(* ===== verification/Slots.thy ===== *)
theory Slots
  imports Downloads
begin

text \<open>
  The download limit. A transfer with \<^verbatim>\<open>max_downloads\<close> slots counts in \<^verbatim>\<open>downloads\<close> every session
  that was not given back and every legacy stream in flight. \<open>retrieval_inv\<close> says that the counter
  never undercounts and never passes the limit, and that a file is only ever streamed inside an
  active session of its own transfer. Every operation on sessions and reservations keeps it.
\<close>

definition slots_used :: "cdb \<Rightarrow> ident \<Rightarrow> nat" where
  "slots_used db tid =
     sql_count (\<lambda>s. s_transfer_id s = tid \<and> s_status s \<noteq> SessReleased) (sessions db) +
     sql_count (\<lambda>d. d_transfer_id d = tid \<and> d_retrieval_session_id d = '''' \<and> d_status d = ResConsuming)
       (reservations db)"

definition reservation_in_session :: "cdb \<Rightarrow> download_reservation \<Rightarrow> bool" where
  "reservation_in_session db d \<longleftrightarrow>
     (d_retrieval_session_id d \<noteq> '''' \<longrightarrow>
       (\<exists>s \<in> set (sessions db). s_id s = d_retrieval_session_id d \<and> s_transfer_id s = d_transfer_id d \<and>
          (d_status d = ResConsuming \<longrightarrow> s_status s = SessActive)))"

definition within_limit :: "cdb \<Rightarrow> transfer \<Rightarrow> bool" where
  "within_limit db t \<longleftrightarrow> int (slots_used db (t_id t)) \<le> t_downloads t \<and> t_downloads t \<le> t_max_downloads t"

definition retrieval_inv :: "cdb \<Rightarrow> bool" where
  "retrieval_inv db \<longleftrightarrow>
     keyed t_id (transfers db) \<and> keyed s_id (sessions db) \<and> keyed d_id (reservations db) \<and>
     (\<forall>t \<in> set (transfers db). within_limit db t) \<and>
     (\<forall>d \<in> set (reservations db). reservation_in_session db d)"

lemma retrieval_inv_cong:
  assumes "transfers db' = transfers db" "sessions db' = sessions db" "reservations db' = reservations db"
  shows "retrieval_inv db' = retrieval_inv db"
  using assms by (simp add: retrieval_inv_def within_limit_def slots_used_def reservation_in_session_def)

lemma sql_update_field:
  "(\<And>r. k (f r) = k r) \<Longrightarrow> r \<in> set (sql_update p f t) \<Longrightarrow> \<exists>x \<in> set t. k x = k r"
  by (metis sql_update_memE)

lemma within_limit_mono:
  "within_limit db t \<Longrightarrow> slots_used db' (t_id t) \<le> slots_used db (t_id t) \<Longrightarrow> within_limit db' t"
  by (simp add: within_limit_def)

text \<open>Rewriting reservations without starting a stream.\<close>

lemma retrieval_inv_reservations:
  assumes inv: "retrieval_inv db"
    and f: "\<And>d. d_id (f d) = d_id d" "\<And>d. d_transfer_id (f d) = d_transfer_id d"
      "\<And>d. d_retrieval_session_id (f d) = d_retrieval_session_id d"
    and st: "\<And>d. d \<in> set (reservations db) \<Longrightarrow> p d \<Longrightarrow> d_status (f d) = ResConsuming \<Longrightarrow> d_status d = ResConsuming"
  shows "retrieval_inv (db\<lparr>reservations := sql_update p f (reservations db)\<rparr>)"
proof -
  let ?db = "db\<lparr>reservations := sql_update p f (reservations db)\<rparr>"
  have "sql_count (\<lambda>d. d_transfer_id d = tid \<and> d_retrieval_session_id d = '''' \<and> d_status d = ResConsuming)
        (sql_update p f (reservations db))
      \<le> sql_count (\<lambda>d. d_transfer_id d = tid \<and> d_retrieval_session_id d = '''' \<and> d_status d = ResConsuming)
        (reservations db)" for tid
    by (rule sql_count_update_le) (use f st in auto)
  then have "slots_used ?db tid \<le> slots_used db tid" for tid
    unfolding slots_used_def by simp
  then have "within_limit ?db t" if "t \<in> set (transfers db)" for t
    using inv that within_limit_mono unfolding retrieval_inv_def by blast
  moreover have "reservation_in_session ?db d" if "d \<in> set (reservations ?db)" for d
  proof -
    from that have "d \<in> set (sql_update p f (reservations db))" by simp
    then obtain x where "x \<in> set (reservations db)" "d_transfer_id d = d_transfer_id x"
      "d_retrieval_session_id d = d_retrieval_session_id x"
      "d_status d = ResConsuming \<longrightarrow> d_status x = ResConsuming"
      by (rule sql_update_memE) (use f st in auto)
    then show ?thesis using inv unfolding retrieval_inv_def reservation_in_session_def by auto
  qed
  moreover have "keyed d_id (reservations ?db)"
    using inv f(1) by (simp add: retrieval_inv_def keyed_update)
  ultimately show ?thesis using inv unfolding retrieval_inv_def by simp
qed

text \<open>Rewriting sessions without leaving a stream behind or reviving a released one.\<close>

lemma retrieval_inv_sessions:
  assumes inv: "retrieval_inv db"
    and f: "\<And>s. s_id (f s) = s_id s" "\<And>s. s_transfer_id (f s) = s_transfer_id s"
    and st: "\<And>s. s \<in> set (sessions db) \<Longrightarrow> p s \<Longrightarrow> s_status s = SessReleased \<Longrightarrow> s_status (f s) = SessReleased"
    and act: "\<And>s. s \<in> set (sessions db) \<Longrightarrow> p s \<Longrightarrow> s_status s = SessActive \<Longrightarrow>
      streaming_in db (s_id s) \<Longrightarrow> s_status (f s) = SessActive"
  shows "retrieval_inv (db\<lparr>sessions := sql_update p f (sessions db)\<rparr>)"
proof -
  let ?db = "db\<lparr>sessions := sql_update p f (sessions db)\<rparr>"
  have "sql_count (\<lambda>s. s_transfer_id s = tid \<and> s_status s \<noteq> SessReleased) (sql_update p f (sessions db))
      \<le> sql_count (\<lambda>s. s_transfer_id s = tid \<and> s_status s \<noteq> SessReleased) (sessions db)" for tid
    by (rule sql_count_update_le) (use f st in auto)
  then have "slots_used ?db tid \<le> slots_used db tid" for tid
    unfolding slots_used_def by simp
  then have "within_limit ?db t" if "t \<in> set (transfers db)" for t
    using inv that within_limit_mono unfolding retrieval_inv_def by blast
  moreover have "reservation_in_session ?db d" if d: "d \<in> set (reservations db)" for d
    unfolding reservation_in_session_def
  proof
    assume sid: "d_retrieval_session_id d \<noteq> ''''"
    then obtain s where s: "s \<in> set (sessions db)" "s_id s = d_retrieval_session_id d"
      "s_transfer_id s = d_transfer_id d" "d_status d = ResConsuming \<longrightarrow> s_status s = SessActive"
      using inv d unfolding retrieval_inv_def reservation_in_session_def by auto
    have "streaming_in db (s_id s)" if "d_status d = ResConsuming"
      using d s(2) that by (auto simp: streaming_in_def sql_exists_iff)
    then have "d_status d = ResConsuming \<longrightarrow> s_status (if p s then f s else s) = SessActive"
      using act [OF s(1)] s(4) by auto
    then show "\<exists>s \<in> set (sessions ?db). s_id s = d_retrieval_session_id d \<and>
        s_transfer_id s = d_transfer_id d \<and> (d_status d = ResConsuming \<longrightarrow> s_status s = SessActive)"
      using sql_update_mem [OF s(1), of p f] f s(2,3)
      by (intro bexI [of _ "if p s then f s else s"]) simp_all
  qed
  moreover have "keyed s_id (sessions ?db)"
    using inv f(1) by (simp add: retrieval_inv_def keyed_update)
  ultimately show ?thesis using inv unfolding retrieval_inv_def by simp
qed

text \<open>Rewriting transfers within their limits.\<close>

lemma retrieval_inv_transfers:
  assumes inv: "retrieval_inv db" and f: "\<And>t. t_id (f t) = t_id t"
    and lim: "\<And>t. t \<in> set (transfers db) \<Longrightarrow> p t \<Longrightarrow> within_limit db (f t)"
  shows "retrieval_inv (db\<lparr>transfers := sql_update p f (transfers db)\<rparr>)"
proof -
  let ?db = "db\<lparr>transfers := sql_update p f (transfers db)\<rparr>"
  have eq: "within_limit ?db t = within_limit db t" "reservation_in_session ?db d = reservation_in_session db d" for t d
    by (simp_all add: within_limit_def slots_used_def reservation_in_session_def)
  have "within_limit db t" if "t \<in> set (sql_update p f (transfers db))" for t
    using that by (rule sql_update_memE) (use lim inv in \<open>auto simp: retrieval_inv_def\<close>)
  then show ?thesis using inv f unfolding retrieval_inv_def eq by (simp add: keyed_update)
qed

definition slack :: "cdb \<Rightarrow> ident \<Rightarrow> bool" where
  "slack db tid \<longleftrightarrow> (\<forall>t \<in> set (transfers db). t_id t = tid \<longrightarrow> int (slots_used db tid) + 1 \<le> t_downloads t)"

lemma count_keeps:
  assumes inv: "retrieval_inv db" and f: "\<And>t. t_id (f t) = t_id t" "\<And>t. t_max_downloads (f t) = t_max_downloads t"
    "\<And>t. t_downloads (f t) = t_downloads t + 1"
    and one: "sql_count (claimable tid now) (transfers db) = 1"
  shows "retrieval_inv (db\<lparr>transfers := sql_update (claimable tid now) f (transfers db)\<rparr>)"
    and "slack (db\<lparr>transfers := sql_update (claimable tid now) f (transfers db)\<rparr>) tid"
proof -
  have "within_limit db (f t)" if "t \<in> set (transfers db)" "claimable tid now t" for t
    using inv that unfolding retrieval_inv_def within_limit_def claimable_def f by auto
  then show "retrieval_inv (db\<lparr>transfers := sql_update (claimable tid now) f (transfers db)\<rparr>)"
    using inv f(1) by (intro retrieval_inv_transfers) auto
  have keys: "keyed t_id (transfers db)" using inv by (simp add: retrieval_inv_def)
  obtain c where c: "c \<in> set (transfers db)" "claimable tid now c"
    using one sql_count_0_iff [of "claimable tid now" "transfers db"] by fastforce
  have "int (slots_used db tid) + 1 \<le> t_downloads t"
    if "t \<in> set (sql_update (claimable tid now) f (transfers db))" "t_id t = tid" for t
    using that(1)
  proof (rule sql_update_memE)
    fix x assume "x \<in> set (transfers db)" "claimable tid now x" "t = f x"
    then show ?thesis using inv unfolding retrieval_inv_def within_limit_def claimable_def by (auto simp: f)
  next
    assume "t \<in> set (transfers db)" "\<not> claimable tid now t"
    then show ?thesis using keyed_unique [OF keys _ c(1)] c(2) that(2) by (auto simp: claimable_def)
  qed
  then show "slack (db\<lparr>transfers := sql_update (claimable tid now) f (transfers db)\<rparr>) tid"
    by (simp add: slack_def slots_used_def)
qed

lemma retrieval_inv_new_session:
  assumes inv: "retrieval_inv db" and slack: "slack db (s_transfer_id s)"
    and fresh: "s_id s \<notin> s_id ` set (sessions db)"
  shows "retrieval_inv (db\<lparr>sessions := sessions db @ [s]\<rparr>)"
proof -
  let ?db = "db\<lparr>sessions := sessions db @ [s]\<rparr>"
  have used: "slots_used ?db tid \<le> slots_used db tid + (if tid = s_transfer_id s then 1 else 0)" for tid
    by (simp add: slots_used_def)
  have "within_limit ?db t" if "t \<in> set (transfers db)" for t
  proof -
    have "within_limit db t" using inv that by (simp add: retrieval_inv_def)
    moreover have "t_id t = s_transfer_id s \<Longrightarrow> int (slots_used db (t_id t)) + 1 \<le> t_downloads t"
      using slack that by (simp add: slack_def)
    ultimately show ?thesis using used [of "t_id t"] unfolding within_limit_def by (auto split: if_splits)
  qed
  moreover have "reservation_in_session ?db d" if "d \<in> set (reservations db)" for d
    using inv that unfolding retrieval_inv_def reservation_in_session_def by auto
  ultimately show ?thesis using inv fresh unfolding retrieval_inv_def by (simp add: keyed_append)
qed

text \<open>Starting a stream: a legacy one needs a counted slot, one in a session needs it active.\<close>

lemma retrieval_inv_start:
  assumes inv: "retrieval_inv db" and d: "d \<in> set (reservations db)" "p d" "d_status d \<noteq> ResConsuming"
    and legacy: "d_retrieval_session_id d = '''' \<Longrightarrow> slack db (d_transfer_id d)"
    and sess: "d_retrieval_session_id d \<noteq> '''' \<Longrightarrow> \<exists>s \<in> set (sessions db). s_id s = d_retrieval_session_id d \<and>
      s_transfer_id s = d_transfer_id d \<and> s_status s = SessActive"
  shows "retrieval_inv (db\<lparr>reservations := sql_update (\<lambda>x. d_id x = d_id d \<and> p x)
    (\<lambda>x. x\<lparr>d_status := ResConsuming\<rparr>) (reservations db)\<rparr>)"
proof -
  let ?f = "\<lambda>x. x\<lparr>d_status := ResConsuming\<rparr>"
  let ?db = "db\<lparr>reservations := sql_update (\<lambda>x. d_id x = d_id d \<and> p x) ?f (reservations db)\<rparr>"
  have keys: "keyed d_id (reservations db)" using inv by (simp add: retrieval_inv_def)
  have used: "int (slots_used ?db tid) = int (slots_used db tid)
      + (if d_transfer_id d = tid \<and> d_retrieval_session_id d = '''' then 1 else 0)" for tid
    using keyed_count_update_row [where p = p, OF keys d(1,2), of "\<lambda>d. d_transfer_id d = tid \<and> d_retrieval_session_id d = '''' \<and> d_status d = ResConsuming" ?f] d(3)
    by (auto simp: slots_used_def)
  have "within_limit ?db t" if "t \<in> set (transfers db)" for t
  proof -
    have "within_limit db t" using inv that by (simp add: retrieval_inv_def)
    moreover have "d_transfer_id d = t_id t \<Longrightarrow> d_retrieval_session_id d = '''' \<Longrightarrow>
        int (slots_used db (t_id t)) + 1 \<le> t_downloads t"
      using legacy that by (simp add: slack_def)
    ultimately show ?thesis using used [of "t_id t"] unfolding within_limit_def by (auto split: if_splits)
  qed
  moreover have "reservation_in_session ?db x" if "x \<in> set (reservations ?db)" for x
  proof -
    from that have "x \<in> set (sql_update (\<lambda>x. d_id x = d_id d \<and> p x) ?f (reservations db))" by simp
    then show ?thesis
    proof (rule sql_update_memE)
      fix y assume "y \<in> set (reservations db)" "d_id y = d_id d \<and> p y" "x = ?f y"
      moreover from this have "y = d" using keyed_unique [OF keys _ d(1)] by simp
      ultimately show ?thesis using sess by (auto simp: reservation_in_session_def)
    next
      assume "x \<in> set (reservations db)"
      then show ?thesis using inv by (auto simp: retrieval_inv_def reservation_in_session_def)
    qed
  qed
  moreover have "keyed d_id (reservations ?db)" using keys by (simp add: keyed_update)
  ultimately show ?thesis using inv unfolding retrieval_inv_def by simp
qed

text \<open>Giving the slot of a provisional session back.\<close>

lemma retrieval_inv_give_back:
  assumes inv: "retrieval_inv db" and s: "s \<in> set (sessions db)" "p s" "s_status s = SessProvisional"
    and prov: "\<And>x. p x \<Longrightarrow> s_status x = SessProvisional"
  shows "retrieval_inv (reopen_transfer (s_transfer_id s) now
    (db\<lparr>sessions := sql_update (\<lambda>x. s_id x = s_id s \<and> p x) (release_session now) (sessions db)\<rparr>))"
proof -
  let ?db = "db\<lparr>sessions := sql_update (\<lambda>x. s_id x = s_id s \<and> p x) (release_session now) (sessions db)\<rparr>"
  have keys: "keyed s_id (sessions db)" using inv by (simp add: retrieval_inv_def)
  have inv1: "retrieval_inv ?db"
    using inv by (rule retrieval_inv_sessions) (use prov in \<open>auto simp: release_session_def\<close>)
  have used: "int (slots_used ?db (s_transfer_id s)) = int (slots_used db (s_transfer_id s)) - 1"
    using keyed_count_update_row [where p = p, OF keys s(1,2), of "\<lambda>x. s_transfer_id x = s_transfer_id s \<and> s_status x \<noteq> SessReleased"
        "release_session now"] s(3)
    by (simp add: slots_used_def release_session_def)
  have "within_limit ?db (t\<lparr>t_downloads := max (t_downloads t - 1) 0, t_status := st\<rparr>)"
    if "t \<in> set (transfers db)" "t_id t = s_transfer_id s" for t st
    using inv that used unfolding retrieval_inv_def within_limit_def by auto
  then show ?thesis
    unfolding reopen_transfer_def using inv1 by (intro retrieval_inv_transfers) auto
qed

section \<open>Every operation keeps the invariant\<close>

lemma insert_reservation_inv:
  assumes inv: "retrieval_inv db" and ins: "insert_reservation d db = Inr db'"
    and d: "d_status d \<noteq> ResConsuming" "reservation_in_session db d"
  shows "retrieval_inv db'"
proof -
  have db': "db' = db\<lparr>reservations := reservations db @ [d]\<rparr>" and fresh: "d_id d \<notin> d_id ` set (reservations db)"
    using ins by (auto simp: insert_reservation_def sql_insert_Inr split: if_splits sum.splits)
  have "slots_used db' tid = slots_used db tid" for tid using d(1) by (simp add: slots_used_def db')
  then have "within_limit db' t = within_limit db t" for t by (simp add: within_limit_def)
  moreover have "reservation_in_session db' x = reservation_in_session db x" for x
    by (simp add: reservation_in_session_def db')
  ultimately show ?thesis
    using inv d(2) fresh unfolding retrieval_inv_def by (auto simp: db' keyed_append)
qed

lemma use_session_inv:
  assumes "retrieval_inv db" "use_session s now db = (s', db')"
  shows "retrieval_inv db'"
  using assms retrieval_inv_sessions [OF assms(1), of "\<lambda>x. x\<lparr>s_last_used_at := now\<rparr>" "\<lambda>x. s_id x = s_id s"]
  by (auto simp: use_session_def)

lemma use_session_mem:
  assumes "use_session s now db = (s', db')" "s \<in> set (sessions db)"
  shows "s' \<in> set (sessions db')" "s_transfer_id s' = s_transfer_id s"
  using assms sql_update_mem [OF assms(2), of "\<lambda>x. s_id x = s_id s" "\<lambda>x. x\<lparr>s_last_used_at := now\<rparr>"]
  by (auto simp: use_session_def)

lemma provisional_session_mem:
  assumes "provisional_session tid rkey now db = Some s"
  shows "s \<in> set (sessions db)" "s_transfer_id s = tid"
proof -
  let ?L = "filter (\<lambda>s. s_transfer_id s = tid \<and> s_recipient_key s = rkey \<and> s_status s = SessProvisional \<and>
      s_expires_at s > now \<and> s_hard_expires_at s > now) (sessions db)"
  obtain rest where "sort_key (\<lambda>s. - s_created_at s) ?L = s # rest"
    using assms by (auto simp: provisional_session_def split: list.splits)
  then have "s \<in> set (sort_key (\<lambda>s. - s_created_at s) ?L)" by simp
  then show "s \<in> set (sessions db)" "s_transfer_id s = tid" by auto
qed

lemma open_session_inv:
  assumes inv: "retrieval_inv db" and op: "open_session token tid rkey requested now db = Inr (s, created, db')"
  shows "retrieval_inv db' \<and> s \<in> set (sessions db') \<and> s_transfer_id s = tid"
proof (cases "\<exists>x. x \<in> set (sessions db) \<and> s_transfer_id x = tid \<and> use_session x now db = (s, db')")
  case True
  then show ?thesis using use_session_inv [OF inv] use_session_mem by metis
next
  case False
  have "(if requested = '''' \<and> rkey \<noteq> '''' then provisional_session tid rkey now db else None) = None"
  proof (rule ccontr)
    assume "\<not> ?thesis"
    then obtain x where "provisional_session tid rkey now db = Some x" "requested = ''''" "rkey \<noteq> ''''"
      by (auto split: if_splits)
    then show False using op False provisional_session_mem [of tid rkey now db x]
      by (auto simp: open_session_def split: prod.splits)
  qed
  moreover have "requested = ''''"
  proof (rule ccontr)
    assume "requested \<noteq> ''''"
    then obtain x where "sql_first (\<lambda>s. s_id s = requested \<and> s_transfer_id s = tid \<and> session_usable now s) (sessions db) = Some x"
      "use_session x now db = (s, db')"
      using op by (auto simp: open_session_def ValidRetrievalSession_def split: option.splits prod.splits)
    then show False using False by (auto dest!: sql_firstD)
  qed
  ultimately obtain db1 where cl: "claim_slot tid now db = Inr db1" and s: "s = new_session token tid rkey now"
    and fresh: "s_id s \<notin> s_id ` set (sessions db1)" and db': "db' = db1\<lparr>sessions := sessions db1 @ [s]\<rparr>"
    using op by (auto simp: open_session_def sql_insert_Inr split: sum.splits)
  have "retrieval_inv db1 \<and> slack db1 tid"
    using cl count_keeps [OF inv, of "\<lambda>t. t\<lparr>t_downloads := t_downloads t + 1,
        t_status := (if t_downloads t + 1 \<ge> t_max_downloads t then TransferExhausted else t_status t)\<rparr>" tid now]
    by (auto simp: claim_slot_def split: if_splits)
  moreover have "s_transfer_id s = tid" by (simp add: s new_session_def)
  ultimately show ?thesis using fresh retrieval_inv_new_session [of db1 s] unfolding db' by simp
qed

lemma reserve_in_session_inv:
  assumes inv: "retrieval_inv db" and s: "s \<in> set (sessions db)" "s_transfer_id s = tid"
    and res: "reserve_in_session rid s tid up lifetime now db = Inr (d, db')"
  shows "retrieval_inv db'"
proof (cases "live_for (s_id s) up now db")
  case None
  then obtain d where ins: "insert_reservation d db = Inr db'"
    and d: "d_status d = ResReserved" "d_retrieval_session_id d = s_id s" "d_transfer_id d = tid"
    using res by (auto simp: reserve_in_session_def Let_def split: if_splits sum.splits)
  have "reservation_in_session db d" using s d by (auto simp: reservation_in_session_def)
  then show ?thesis using insert_reservation_inv [OF inv ins] d by simp
next
  case (Some x)
  let ?e = "min (now + lifetime) (s_expires_at s)"
  have "db' = db\<lparr>reservations := sql_update (\<lambda>y. d_id y = d_id x) (\<lambda>y. y\<lparr>d_expires_at := ?e\<rparr>) (reservations db)\<rparr>"
    using res Some by (auto simp: reserve_in_session_def Let_def split: if_splits)
  then show ?thesis
    using retrieval_inv_reservations [OF inv, of "\<lambda>y. y\<lparr>d_expires_at := ?e\<rparr>" "\<lambda>y. d_id y = d_id x"] by simp
qed

lemma create_retrieval_inv:
  assumes inv: "retrieval_inv db"
  shows "retrieval_inv (snd (CreateRetrievalDownloadReservation rid token tid up rkey sid lifetime now db))"
proof (cases "CreateRetrievalDownloadReservation rid token tid up rkey sid lifetime now db")
  case (Pair r db')
  show ?thesis
  proof (cases "db' = db")
    case False
    then obtain s created db1 d where "open_session token tid rkey sid now db = Inr (s, created, db1)"
      and "reserve_in_session rid s tid up lifetime now db1 = Inr (d, db')"
      using Pair by (auto simp: CreateRetrievalDownloadReservation_def split: if_splits option.splits sum.splits prod.splits)
    then show ?thesis using open_session_inv [OF inv] reserve_in_session_inv Pair by (metis snd_conv)
  qed (use inv Pair in simp)
qed

lemma abort_inv:
  assumes inv: "retrieval_inv db"
  shows "retrieval_inv (snd (AbortRetrievalDownloadReservation rid rel now db))"
proof (cases "sql_first (\<lambda>d. d_id d = rid) (reservations db)")
  case (Some d)
  define db1 where "db1 = (if d_status d = ResReserved
    then db\<lparr>reservations := sql_update (\<lambda>x. d_id x = rid \<and> d_status x = ResReserved)
           (\<lambda>x. x\<lparr>d_status := ResReleased, d_settled_at := now\<rparr>) (reservations db)\<rparr> else db)"
  have inv1: "retrieval_inv db1"
    using retrieval_inv_reservations [OF inv, of "\<lambda>x. x\<lparr>d_status := ResReleased, d_settled_at := now\<rparr>"
        "\<lambda>x. d_id x = rid \<and> d_status x = ResReserved"] inv by (simp add: db1_def)
  define p :: "retrieval_session \<Rightarrow> bool"
    where "p = (\<lambda>s. s_status s = SessProvisional \<and> \<not> streaming_in db1 (s_id s))"
  let ?sid = "d_retrieval_session_id d"
  let ?hit = "\<lambda>s. s_id s = ?sid \<and> p s"
  let ?db2 = "db1\<lparr>sessions := sql_update ?hit (release_session now) (sessions db1)\<rparr>"
  have eq: "AbortRetrievalDownloadReservation rid rel now db =
    (if rel \<and> ?sid \<noteq> '''' then if sql_count ?hit (sessions db1) = 1
       then (Inr (), reopen_transfer (d_transfer_id d) now ?db2) else (Inr (), ?db2) else (Inr (), db1))"
    using Some by (simp add: AbortRetrievalDownloadReservation_def db1_def [symmetric] p_def Let_def)
  have inv2: "retrieval_inv ?db2"
    using inv1 by (rule retrieval_inv_sessions) (auto simp: p_def release_session_def)
  have "retrieval_inv (reopen_transfer (d_transfer_id d) now ?db2)"
    if sid: "?sid \<noteq> ''''" and one: "sql_count ?hit (sessions db1) = 1"
  proof -
    have keys: "keyed s_id (sessions db1)" using inv1 by (simp add: retrieval_inv_def)
    obtain s where s: "s \<in> set (sessions db1)" "s_id s = ?sid" "p s" using keys one by (rule keyed_hit)
    have ses: "sessions db1 = sessions db" by (simp add: db1_def)
    obtain s' where s': "s' \<in> set (sessions db)" "s_id s' = ?sid" "s_transfer_id s' = d_transfer_id d"
      using inv sql_first_Some [OF Some] sid by (auto simp: retrieval_inv_def reservation_in_session_def)
    then have "s' = s" using keyed_unique [OF keys _ s(1)] s(2) ses by simp
    then have "s_transfer_id s = d_transfer_id d" using s' by simp
    moreover have "retrieval_inv (reopen_transfer (s_transfer_id s) now
        (db1\<lparr>sessions := sql_update (\<lambda>x. s_id x = s_id s \<and> p x) (release_session now) (sessions db1)\<rparr>))"
      using inv1 s(1,3) by (rule retrieval_inv_give_back) (use s in \<open>simp_all add: p_def\<close>)
    ultimately show ?thesis using s(2) by simp
  qed
  then show ?thesis unfolding eq using inv1 inv2 by simp
qed (use inv in \<open>simp add: AbortRetrievalDownloadReservation_def\<close>)

text \<open>Expiry of provisional sessions.\<close>

lemma release_expired_inv:
  assumes "retrieval_inv db"
    and "\<forall>(sid, tid) \<in> set items. \<forall>s \<in> set (sessions db). s_id s = sid \<longrightarrow> s_transfer_id s = tid"
  shows "retrieval_inv (release_expired now items db)"
  using assms
proof (induction items arbitrary: db)
  case (Cons item items)
  obtain sid tid where item: "item = (sid, tid)" by (cases item)
  let ?hit = "\<lambda>s. s_id s = sid \<and> s_status s = SessProvisional"
  let ?db1 = "db\<lparr>sessions := sql_update ?hit (release_session now) (sessions db)\<rparr>"
  have inv1: "retrieval_inv ?db1"
    using Cons.prems(1) by (rule retrieval_inv_sessions) (auto simp: release_session_def)
  have inv2: "retrieval_inv (reopen_transfer tid now ?db1)" if one: "sql_count ?hit (sessions db) = 1"
  proof -
    have keys: "keyed s_id (sessions db)" using Cons.prems(1) by (simp add: retrieval_inv_def)
    obtain s where s: "s \<in> set (sessions db)" "s_id s = sid" "s_status s = SessProvisional"
      using keys one by (rule keyed_hit)
    moreover have "s_transfer_id s = tid" using Cons.prems(2) s item by auto
    moreover have "retrieval_inv (reopen_transfer (s_transfer_id s) now (db\<lparr>sessions :=
        sql_update (\<lambda>x. s_id x = s_id s \<and> s_status x = SessProvisional) (release_session now) (sessions db)\<rparr>))"
      using Cons.prems(1) s(1,3,3) by (rule retrieval_inv_give_back) simp
    ultimately show ?thesis by simp
  qed
  have items: "\<forall>(sid, tid) \<in> set items. \<forall>s \<in> set (sessions ?db1). s_id s = sid \<longrightarrow> s_transfer_id s = tid"
    using Cons.prems(2) by (auto elim!: sql_update_memE simp: release_session_def)
  have "sessions (reopen_transfer tid now ?db1) = sessions ?db1" by (simp add: reopen_transfer_def)
  then show ?case
    using Cons.IH [OF inv1 items] Cons.IH [OF inv2] items by (simp add: item Let_def)
qed simp

lemma release_sessions_inv:
  assumes inv: "retrieval_inv db"
  shows "retrieval_inv (snd (ReleaseExpiredRetrievalSessions now db))"
proof -
  define db1 where "db1 = release_provisional_reservations now db"
  have inv1: "retrieval_inv db1"
    unfolding db1_def release_provisional_reservations_def using inv by (rule retrieval_inv_reservations) simp_all
  define items where "items = map (\<lambda>s. (s_id s, s_transfer_id s))
    (filter (\<lambda>s. s_status s = SessProvisional \<and> s_expires_at s \<le> now \<and> \<not> streaming_in db1 (s_id s)) (sessions db1))"
  have "keyed s_id (sessions db1)" using inv1 by (simp add: retrieval_inv_def)
  then have "\<forall>(sid, tid) \<in> set items. \<forall>s \<in> set (sessions db1). s_id s = sid \<longrightarrow> s_transfer_id s = tid"
    by (auto simp: items_def dest: keyed_unique)
  then have inv2: "retrieval_inv (release_expired now items db1)" by (rule release_expired_inv [OF inv1])
  have "retrieval_inv (close_expired_active now (release_expired now items db1))"
    unfolding close_expired_active_def using inv2 by (rule retrieval_inv_sessions) auto
  then show ?thesis by (simp add: ReleaseExpiredRetrievalSessions_def Let_def db1_def items_def)
qed

text \<open>Legacy holds.\<close>

lemma release_legacy_tables:
  assumes "releaseLegacyDownloadTrafficForReservationTx rid now db = Inr db'"
  obtains p where "reservations db' = sql_update p (\<lambda>d. d\<lparr>d_user_id := '''', d_reserved_bytes := 0\<rparr>) (reservations db)"
    "transfers db' = transfers db" "sessions db' = sessions db" "uploads db' = uploads db"
    "runtimes db' = runtimes db"
proof -
  have "sql_update (\<lambda>_. False) f (reservations db) = reservations db" for f by (rule sql_update_none) simp
  then show thesis using assms that [of "\<lambda>_. False"] that [of "\<lambda>d. d_id d = rid"]
    by (auto simp: releaseLegacyDownloadTrafficForReservationTx_def Let_def split: option.splits if_splits)
qed

lemma release_legacy_inv:
  assumes inv: "retrieval_inv db" and rel: "releaseLegacyDownloadTrafficForReservationTx rid now db = Inr db'"
  shows "retrieval_inv db'"
proof -
  obtain p where t: "reservations db' = sql_update p (\<lambda>d. d\<lparr>d_user_id := '''', d_reserved_bytes := 0\<rparr>) (reservations db)"
    "transfers db' = transfers db" "sessions db' = sessions db"
    using rel by (rule release_legacy_tables)
  have "retrieval_inv (db\<lparr>reservations := sql_update p (\<lambda>d. d\<lparr>d_user_id := '''', d_reserved_bytes := 0\<rparr>) (reservations db)\<rparr>)"
    using inv by (rule retrieval_inv_reservations) simp_all
  then show ?thesis using t by (subst retrieval_inv_cong) auto
qed

text \<open>Beginning a stream. The statements of one transaction commute on the three tables the invariant
  reads, so the slot (or the session) can be taken first.\<close>

lemma begin_consuming_inv:
  assumes inv: "retrieval_inv dbA" and d: "d \<in> set (reservations dbA)" "q d" "d_status d \<noteq> ResConsuming"
    and legacy: "d_retrieval_session_id d = '''' \<Longrightarrow> slack dbA (d_transfer_id d)"
    and sess: "d_retrieval_session_id d \<noteq> '''' \<Longrightarrow> \<exists>s \<in> set (sessions dbA). s_id s = d_retrieval_session_id d \<and>
      s_transfer_id s = d_transfer_id d \<and> s_status s = SessActive"
    and t: "transfers db' = transfers dbA" "sessions db' = sessions dbA"
      "reservations db' = sql_update r h (sql_update p g
         (sql_update (\<lambda>x. d_id x = d_id d \<and> q x) (\<lambda>x. x\<lparr>d_status := ResConsuming\<rparr>) (reservations dbA)))"
    and g: "\<And>d. d_id (g d) = d_id d" "\<And>d. d_transfer_id (g d) = d_transfer_id d"
      "\<And>d. d_retrieval_session_id (g d) = d_retrieval_session_id d" "\<And>d. d_status (g d) = d_status d"
    and h: "\<And>d. d_id (h d) = d_id d" "\<And>d. d_transfer_id (h d) = d_transfer_id d"
      "\<And>d. d_retrieval_session_id (h d) = d_retrieval_session_id d" "\<And>d. d_status (h d) = d_status d"
  shows "retrieval_inv db'"
proof -
  let ?B = "dbA\<lparr>reservations := sql_update (\<lambda>x. d_id x = d_id d \<and> q x) (\<lambda>x. x\<lparr>d_status := ResConsuming\<rparr>) (reservations dbA)\<rparr>"
  let ?C = "?B\<lparr>reservations := sql_update p g (reservations ?B)\<rparr>"
  let ?D = "?C\<lparr>reservations := sql_update r h (reservations ?C)\<rparr>"
  have "retrieval_inv ?B" using inv d legacy sess by (rule retrieval_inv_start)
  then have "retrieval_inv ?C" by (rule retrieval_inv_reservations) (simp_all add: g)
  then have "retrieval_inv ?D" by (rule retrieval_inv_reservations) (simp_all add: h)
  moreover have "retrieval_inv db' = retrieval_inv ?D" by (rule retrieval_inv_cong) (simp_all add: t)
  ultimately show ?thesis by simp
qed

lemma start_stream_tables:
  assumes "start_stream d now db = Inr (d', db')"
  shows "transfers db' = transfers db" "sessions db' = sessions db"
    "reservations db' = sql_update (\<lambda>x. d_id x = d_id d \<and> d_status x = ResConsuming)
       (\<lambda>x. x\<lparr>d_user_id := '''', d_reserved_bytes := 0, d_expires_at := now + downloadReservationMaxDuration\<rparr>)
       (reservations db)"
  using assms by (auto simp: start_stream_def Let_def split: if_splits)

lemma activate_inv:
  assumes inv: "retrieval_inv db" and act: "activateRetrievalSessionTx sid now db = Inr db'"
  shows "retrieval_inv db'" "transfers db' = transfers db" "reservations db' = reservations db"
    "sid \<noteq> '''' \<Longrightarrow> s \<in> set (sessions db') \<Longrightarrow> s_id s = sid \<Longrightarrow> s_status s = SessActive"
proof -
  let ?p = "\<lambda>s. (s_status s = SessProvisional \<or> s_status s = SessActive) \<and> s_hard_expires_at s > now"
  let ?f = "\<lambda>s. s\<lparr>s_status := SessActive, s_expires_at := s_hard_expires_at s, s_last_used_at := now\<rparr>"
  have keys: "keyed s_id (sessions db)" using inv by (simp add: retrieval_inv_def)
  have *: "sid = '''' \<and> db' = db \<or> (sql_count (\<lambda>s. s_id s = sid \<and> ?p s) (sessions db) = 1 \<and>
      db' = db\<lparr>sessions := sql_update (\<lambda>s. s_id s = sid \<and> ?p s) ?f (sessions db)\<rparr>)"
    using act by (auto simp: activateRetrievalSessionTx_def Let_def split: if_splits)
  moreover have "retrieval_inv (db\<lparr>sessions := sql_update (\<lambda>s. s_id s = sid \<and> ?p s) ?f (sessions db)\<rparr>)"
    using inv by (rule retrieval_inv_sessions) auto
  ultimately show "retrieval_inv db'" "transfers db' = transfers db" "reservations db' = reservations db"
    using inv by auto
  show "s_status s = SessActive" if "sid \<noteq> ''''" "s \<in> set (sessions db')" "s_id s = sid"
  proof -
    have one: "sql_count (\<lambda>s. s_id s = sid \<and> ?p s) (sessions db) = 1"
      and mem: "s \<in> set (sql_update (\<lambda>s. s_id s = sid \<and> ?p s) ?f (sessions db))" using * that by auto
    obtain x where x: "x \<in> set (sessions db)" "s_id x = sid" "?p x" using keys one by (rule keyed_hit)
    from mem show ?thesis
    proof (rule sql_update_memE)
      assume "s \<in> set (sessions db)" "\<not> (s_id s = sid \<and> ?p s)"
      then show ?thesis using keyed_unique [OF keys _ x(1)] x that(3) by auto
    qed simp
  qed
qed

lemma activate_frame:
  assumes "activateRetrievalSessionTx sid now db = Inr db1"
  shows "sessions db2 = sessions db \<Longrightarrow> activateRetrievalSessionTx sid now db2 = Inr (db2\<lparr>sessions := sessions db1\<rparr>)"
    and "transfers db1 = transfers db" and "reservations db1 = reservations db"
  using assms by (auto simp: activateRetrievalSessionTx_def Let_def split: if_splits)

lemma refused_inv:
  assumes inv: "retrieval_inv db"
    and t: "transfers db' = transfers db" "sessions db' = sessions db"
      "reservations db' = sql_update p (\<lambda>d. d\<lparr>d_user_id := '''', d_reserved_bytes := 0\<rparr>)
         (sql_update (\<lambda>d. d_id d = rid \<and> q d) (\<lambda>d. d\<lparr>d_status := ResConsuming\<rparr>) (reservations db))"
  shows "retrieval_inv (release_consuming rid now db')"
proof -
  let ?h = "\<lambda>d. let d1 = (if d_id d = rid \<and> q d then d\<lparr>d_status := ResConsuming\<rparr> else d);
      d2 = (if p d1 then d1\<lparr>d_user_id := '''', d_reserved_bytes := 0\<rparr> else d1)
    in if d_id d2 = rid \<and> d_status d2 = ResConsuming
       then d2\<lparr>d_status := ResReleased, d_settled_at := now\<rparr> else d2"
  have eq: "reservations (release_consuming rid now db') = sql_update (\<lambda>_. True) ?h (reservations db)"
    by (simp add: release_consuming_def t) (simp add: sql_update_compose Let_def)
  have "retrieval_inv (db\<lparr>reservations := sql_update (\<lambda>_. True) ?h (reservations db)\<rparr>)"
    using inv by (rule retrieval_inv_reservations) (auto simp: Let_def split: if_splits)
  moreover have "retrieval_inv (release_consuming rid now db')
      = retrieval_inv (db\<lparr>reservations := sql_update (\<lambda>_. True) ?h (reservations db)\<rparr>)"
    by (rule retrieval_inv_cong) (simp_all add: eq, simp_all add: release_consuming_def t)
  ultimately show ?thesis by simp
qed

lemma admit_inv:
  assumes inv: "retrieval_inv db0" and d0: "d0 \<in> set (reservations db0)" "q d0" "d_status d0 \<noteq> ResConsuming"
    and t: "transfers db = transfers db0" "sessions db = sessions db0"
      "reservations db = sql_update p (\<lambda>d. d\<lparr>d_user_id := '''', d_reserved_bytes := 0\<rparr>)
         (sql_update (\<lambda>d. d_id d = d_id d0 \<and> q d) (\<lambda>d. d\<lparr>d_status := ResConsuming\<rparr>) (reservations db0))"
    and d: "d_id d = d_id d0" "d_retrieval_session_id d = d_retrieval_session_id d0" "d_transfer_id d = d_transfer_id d0"
  shows "retrieval_inv (snd (admit_stream db0 d now db))"
proof -
  have refused: "retrieval_inv (release_consuming (d_id d) now db)"
    using inv t unfolding d(1) by (rule refused_inv)
  note rest = begin_consuming_inv [where q = q and p = p and g = "\<lambda>d. d\<lparr>d_user_id := '''', d_reserved_bytes := 0\<rparr>"
    and h = "\<lambda>x. x\<lparr>d_user_id := '''', d_reserved_bytes := 0, d_expires_at := now + downloadReservationMaxDuration\<rparr>"
    and r = "\<lambda>x. d_id x = d_id d \<and> d_status x = ResConsuming" and d = d0]
  have legacy: "retrieval_inv db'" if sid: "d_retrieval_session_id d0 = ''''"
    and c: "count_download (d_transfer_id d0) now db = Some db1" and st: "start_stream d now db1 = Inr (x, db')" for db1 x db'
  proof -
    let ?A = "db0\<lparr>transfers := sql_update (claimable (d_transfer_id d0) now) (\<lambda>t. t\<lparr>t_downloads := t_downloads t + 1\<rparr>) (transfers db0)\<rparr>"
    have one: "sql_count (claimable (d_transfer_id d0) now) (transfers db0) = 1"
      and db1: "db1 = db\<lparr>transfers := transfers ?A\<rparr>"
      using c by (auto simp: count_download_def t split: if_splits)
    have "retrieval_inv ?A" "slack ?A (d_transfer_id d0)" by (rule count_keeps [OF inv _ _ _ one]; simp)+
    then show ?thesis using d0 sid start_stream_tables [OF st]
      by (intro rest [of ?A db']) (simp_all add: db1 t)
  qed
  have in_session: "retrieval_inv db'" if sid: "d_retrieval_session_id d0 \<noteq> ''''"
    and c: "activateRetrievalSessionTx (d_retrieval_session_id d0) now (db\<lparr>sessions := sql_update
       (\<lambda>s. s_id s = d_retrieval_session_id d0) (\<lambda>s. s\<lparr>s_last_used_at := now\<rparr>) (sessions db)\<rparr>) = Inr db1"
    and st: "start_stream d now db1 = Inr (x, db')" for db1 x db'
  proof -
    let ?pre = "db0\<lparr>sessions := sql_update (\<lambda>s. s_id s = d_retrieval_session_id d0) (\<lambda>s. s\<lparr>s_last_used_at := now\<rparr>) (sessions db0)\<rparr>"
    let ?A = "?pre\<lparr>sessions := sessions db1\<rparr>"
    have inv0: "retrieval_inv ?pre" using inv by (rule retrieval_inv_sessions) simp_all
    have act: "activateRetrievalSessionTx (d_retrieval_session_id d0) now ?pre = Inr ?A"
      using activate_frame(1) [OF c, of ?pre] t by simp
    note A = activate_inv [OF inv0 act]
    have "\<exists>s \<in> set (sessions ?A). s_id s = d_retrieval_session_id d0 \<and> s_transfer_id s = d_transfer_id d0"
      using A(1) d0(1) sid unfolding retrieval_inv_def reservation_in_session_def by auto
    then have "\<exists>s \<in> set (sessions ?A). s_id s = d_retrieval_session_id d0 \<and> s_transfer_id s = d_transfer_id d0 \<and> s_status s = SessActive"
      using A(4) [OF sid] by blast
    then show ?thesis
      using A(1) d0 sid start_stream_tables [OF st] activate_frame(2,3) [OF c] t
      by (intro rest [of ?A db']) simp_all
  qed
  show ?thesis
  proof (cases "d_retrieval_session_id d0 = ''''")
    case True
    have "snd (commit db0 (start_stream d now db1)) = db0 \<or>
        (\<exists>x db'. start_stream d now db1 = Inr (x, db') \<and> snd (commit db0 (start_stream d now db1)) = db')" for db1
      by (cases "start_stream d now db1") auto
    then show ?thesis using True d refused legacy [OF True] inv
      by (cases "count_download (d_transfer_id d0) now db") (simp_all add: admit_stream_def Let_def, metis)
  next
    case False
    let ?db = "db\<lparr>sessions := sql_update (\<lambda>s. s_id s = d_retrieval_session_id d0) (\<lambda>s. s\<lparr>s_last_used_at := now\<rparr>) (sessions db)\<rparr>"
    show ?thesis
    proof (cases "session_allows (d_retrieval_session_id d0) (d_transfer_id d0) now db")
      case True
      show ?thesis
      proof (cases "activateRetrievalSessionTx (d_retrieval_session_id d0) now ?db")
        case (Inl e)
        then show ?thesis using True False d inv by (simp add: admit_stream_def Let_def)
      next
        case (Inr db1)
        show ?thesis
        proof (cases "start_stream d now db1")
          case (Inr y)
          then show ?thesis using in_session [OF False \<open>_ = Inr db1\<close>] True False d \<open>_ = Inr db1\<close>
            by (cases y) (simp add: admit_stream_def Let_def)
        qed (use Inr True False d inv in \<open>simp add: admit_stream_def Let_def\<close>)
      qed
    qed (use False d refused in \<open>simp add: admit_stream_def Let_def\<close>)
  qed
qed

lemma begin_inv:
  assumes inv: "retrieval_inv db"
  shows "retrieval_inv (snd (beginDownloadReservation rid ex now db))"
proof (cases "sql_count (\<lambda>d. d_id d = rid \<and> beginnable ex now d) (reservations db) = 1")
  case True
  have keys: "keyed d_id (reservations db)" using inv by (simp add: retrieval_inv_def)
  obtain d0 where d0: "d0 \<in> set (reservations db)" "d_id d0 = rid" "beginnable ex now d0"
    using keys True by (rule keyed_hit)
  show ?thesis
  proof (cases "releaseLegacyDownloadTrafficForReservationTx rid now (mark_consuming rid ex now db)")
    case (Inr db1)
    then obtain p where t: "reservations db1 = sql_update p (\<lambda>d. d\<lparr>d_user_id := '''', d_reserved_bytes := 0\<rparr>)
        (reservations (mark_consuming rid ex now db))"
      "transfers db1 = transfers db" "sessions db1 = sessions db"
      by (rule release_legacy_tables) (simp add: mark_consuming_def)
    have same: "d_retrieval_session_id d = d_retrieval_session_id d0 \<and> d_transfer_id d = d_transfer_id d0"
      if d: "d_id d = rid" "d \<in> set (reservations db1)" for d
    proof -
      let ?k = "\<lambda>d. (d_id d, d_retrieval_session_id d, d_transfer_id d)"
      obtain x where x: "x \<in> set (reservations (mark_consuming rid ex now db))" "?k x = ?k d"
        using sql_update_field [of ?k, OF _ d(2) [unfolded t(1)]] by auto
      then have "x \<in> set (sql_update (\<lambda>d. d_id d = rid \<and> beginnable ex now d) (\<lambda>d. d\<lparr>d_status := ResConsuming\<rparr>) (reservations db))"
        by (simp add: mark_consuming_def)
      then have "\<exists>y \<in> set (reservations db). ?k y = ?k x"
        by (rule sql_update_field [rotated, where k = ?k]) simp
      then obtain y where y: "y \<in> set (reservations db)" "?k y = ?k x" ..
      then have "y = d0" using keyed_unique [OF keys _ d0(1)] d0(2) x(2) d(1) by simp
      then show ?thesis using x(2) y(2) by simp
    qed
    show ?thesis
    proof (cases "sql_first (\<lambda>d. d_id d = rid) (reservations db1)")
      case (Some d)
      note d = sql_first_Some [OF Some]
      have "retrieval_inv (snd (admit_stream db d now db1))"
        using inv d0(1,3) _ t(2,3)
        by (rule admit_inv [where p = p]) (use d0 d same [of d] t(1) in \<open>auto simp: beginnable_def mark_consuming_def\<close>)
      then show ?thesis using True Inr Some by (simp add: beginDownloadReservation_def)
    qed (use True Inr inv in \<open>simp add: beginDownloadReservation_def\<close>)
  qed (use True inv in \<open>simp add: beginDownloadReservation_def\<close>)
qed (use inv in \<open>simp add: beginDownloadReservation_def\<close>)

text \<open>Settlement.\<close>

lemma touch_inv:
  assumes inv: "retrieval_inv db" and t: "touchRetrievalSessionTx sid now db = Inr db'"
  shows "retrieval_inv db'" "reservations db' = reservations db" "transfers db' = transfers db" "uploads db' = uploads db"
proof -
  have "db' = db \<or> db' = db\<lparr>sessions := sql_update (\<lambda>s. s_id s = sid \<and> s_status s = SessActive)
      (\<lambda>s. s\<lparr>s_last_used_at := now\<rparr>) (sessions db)\<rparr>"
    using t by (auto simp: touchRetrievalSessionTx_def Let_def split: if_splits)
  moreover have "retrieval_inv (db\<lparr>sessions := sql_update (\<lambda>s. s_id s = sid \<and> s_status s = SessActive)
      (\<lambda>s. s\<lparr>s_last_used_at := now\<rparr>) (sessions db)\<rparr>)"
    using inv by (rule retrieval_inv_sessions) simp_all
  ultimately show "retrieval_inv db'" "reservations db' = reservations db" "transfers db' = transfers db" "uploads db' = uploads db"
    using inv by auto
qed

lemma close_completed_inv:
  assumes inv: "retrieval_inv db" and c: "closeCompletedRetrievalSessionTx sid tid now db = Inr db'"
  shows "retrieval_inv db'"
proof -
  let ?f = "\<lambda>s. s\<lparr>s_status := SessClosed, s_expires_at := now, s_last_used_at := now, s_completed_at := now\<rparr>"
  have "retrieval_inv (db\<lparr>sessions := sql_update
      (\<lambda>s. s_id s = sid \<and> s_status s = SessActive \<and> \<not> streaming_in db (s_id s)) ?f (sessions db)\<rparr>)"
    using inv by (rule retrieval_inv_sessions) auto
  then show ?thesis using c inv by (auto simp: closeCompletedRetrievalSessionTx_def Let_def split: if_splits)
qed

text \<open>Settling a legacy stream that delivered nothing gives its slot back.\<close>

lemma retrieval_inv_uncount:
  assumes inv: "retrieval_inv db" and d: "d \<in> set (reservations db)" "d_status d = ResConsuming" "d_retrieval_session_id d = ''''"
  shows "retrieval_inv (db\<lparr>
      transfers := sql_update (\<lambda>t. t_id t = d_transfer_id d) (\<lambda>t. t\<lparr>t_downloads := max (t_downloads t - 1) 0\<rparr>) (transfers db),
      reservations := sql_update (\<lambda>x. d_id x = d_id d)
        (\<lambda>x. x\<lparr>d_status := ResSettled, d_actual_bytes := n, d_settled_at := now\<rparr>) (reservations db)\<rparr>)"
proof -
  let ?g = "\<lambda>x::download_reservation. x\<lparr>d_status := ResSettled, d_actual_bytes := n, d_settled_at := now\<rparr>"
  let ?db = "db\<lparr>reservations := sql_update (\<lambda>x. d_id x = d_id d) ?g (reservations db)\<rparr>"
  have keys: "keyed d_id (reservations db)" using inv by (simp add: retrieval_inv_def)
  have inv1: "retrieval_inv ?db" using inv by (rule retrieval_inv_reservations) simp_all
  have "int (slots_used ?db (d_transfer_id d)) = int (slots_used db (d_transfer_id d)) - 1"
    using keyed_count_update_row [where p = "\<lambda>_. True", OF keys d(1) TrueI, of "\<lambda>x. d_transfer_id x = d_transfer_id d \<and>
        d_retrieval_session_id x = '''' \<and> d_status x = ResConsuming" ?g] d by (simp add: slots_used_def)
  then have "within_limit ?db (t\<lparr>t_downloads := max (t_downloads t - 1) 0\<rparr>)"
    if "t \<in> set (transfers db)" "t_id t = d_transfer_id d" for t
    using inv that unfolding retrieval_inv_def within_limit_def by auto
  then have "retrieval_inv (?db\<lparr>transfers := sql_update (\<lambda>t. t_id t = d_transfer_id d)
      (\<lambda>t. t\<lparr>t_downloads := max (t_downloads t - 1) 0\<rparr>) (transfers ?db)\<rparr>)"
    using inv1 by (intro retrieval_inv_transfers) auto
  then show ?thesis by (subst retrieval_inv_cong) auto
qed

lemma settle_final_bytes_inv:
  assumes inv: "retrieval_inv db" and d: "d \<in> set (reservations db)"
    and s: "settle_final_bytes (d_id d) (d_status d) (d_retrieval_session_id d) (d_transfer_id d) actual now db = Inr db'"
  shows "retrieval_inv db'"
proof -
  let ?g = "\<lambda>x::download_reservation. x\<lparr>d_status := ResSettled, d_actual_bytes := actual, d_settled_at := now\<rparr>"
  let ?sid = "d_retrieval_session_id d" and ?tid = "d_transfer_id d"
  have mark: "retrieval_inv (x\<lparr>reservations := sql_update (\<lambda>x. d_id x = d_id d) ?g (reservations x)\<rparr>)" if "retrieval_inv x" for x
    using that by (rule retrieval_inv_reservations) simp_all
  show ?thesis
  proof (cases "d_status d = ResConsuming \<and> actual = 0 \<and> ?sid = ''''")
    case True
    then have "db' = db\<lparr>transfers := sql_update (\<lambda>t. t_id t = ?tid) (\<lambda>t. t\<lparr>t_downloads := max (t_downloads t - 1) 0\<rparr>) (transfers db),
        reservations := sql_update (\<lambda>x. d_id x = d_id d) ?g (reservations db)\<rparr>"
      using s by (simp add: settle_final_bytes_def Let_def)
    then show ?thesis using retrieval_inv_uncount [OF inv d] True by simp
  next
    case False
    then obtain db2 where inv2: "retrieval_inv db2"
      and close: "(if d_status d = ResConsuming \<and> actual > 0 then closeCompletedRetrievalSessionTx ?sid ?tid now
            (db2\<lparr>reservations := sql_update (\<lambda>x. d_id x = d_id d) ?g (reservations db2)\<rparr>)
          else Inr (db2\<lparr>reservations := sql_update (\<lambda>x. d_id x = d_id d) ?g (reservations db2)\<rparr>)) = Inr db'"
      using s inv touch_inv(1) [OF inv]
      by (auto simp: settle_final_bytes_def Let_def split: if_splits sum.splits)
    show ?thesis
      using close close_completed_inv [OF mark [OF inv2]] mark [OF inv2] by (auto split: if_splits)
  qed
qed

lemma settle_reported_inv:
  assumes inv: "retrieval_inv db" and d: "d' \<in> set (reservations db)" "d_id d' = d_id d" "d_status d' = d_status d"
      "d_retrieval_session_id d' = d_retrieval_session_id d" "d_transfer_id d' = d_transfer_id d"
    and s: "settle_reported d actual final now db = Inr db'"
  shows "retrieval_inv db'"
proof -
  have fin: "retrieval_inv y" if "retrieval_inv x" "e \<in> set (reservations x)" "d_id e = d_id d" "d_status e = d_status d"
      "d_retrieval_session_id e = d_retrieval_session_id d" "d_transfer_id e = d_transfer_id d"
      "settle_final_bytes (d_id d) (d_status d) (d_retrieval_session_id d) (d_transfer_id d) n now x = Inr y" for x e n y
    using settle_final_bytes_inv [OF that(1,2)] that(3-7) by simp
  obtain hard db1 where run: "ensure_runtime (d_id d) now db = (hard, db1)" by (cases "ensure_runtime (d_id d) now db")
  then have res: "reservations db1 = reservations db \<or> reservations db1 = sql_update (\<lambda>x. d_id x = d_id d) (\<lambda>x. x\<lparr>d_expires_at := hard\<rparr>) (reservations db)"
    and oth: "transfers db1 = transfers db" "sessions db1 = sessions db"
    by (auto simp: ensure_runtime_def Let_def split: option.splits)
  have "retrieval_inv (db\<lparr>reservations := sql_update (\<lambda>x. d_id x = d_id d) (\<lambda>x. x\<lparr>d_expires_at := hard\<rparr>) (reservations db)\<rparr>)"
    using inv by (rule retrieval_inv_reservations) simp_all
  then have inv1: "retrieval_inv db1"
    using res oth inv retrieval_inv_cong [of db1 db] retrieval_inv_cong [of db1 "db\<lparr>reservations := reservations db1\<rparr>"] by auto
  obtain e where e: "e \<in> set (reservations db1)" "d_id e = d_id d" "d_status e = d_status d"
      "d_retrieval_session_id e = d_retrieval_session_id d" "d_transfer_id e = d_transfer_id d"
    using res d sql_update_mem [OF d(1), of "\<lambda>x. d_id x = d_id d" "\<lambda>x. x\<lparr>d_expires_at := hard\<rparr>"] by auto
  have prog: "retrieval_inv y" if rp: "record_progress (d_id d) (d_retrieval_session_id d) actual hard now db1 = Inr y" for y
  proof -
    let ?t = "if actual > 0 \<and> d_retrieval_session_id d \<noteq> '''' then touchRetrievalSessionTx (d_retrieval_session_id d) now db1 else Inr db1"
    obtain db2 where t: "?t = Inr db2" using rp by (cases ?t) (simp_all add: record_progress_def)
    then have inv2: "retrieval_inv db2" using inv1 touch_inv(1) [OF inv1] by (auto split: if_splits)
    have y: "reservations y = sql_update (\<lambda>x. d_id x = d_id d \<and> d_status x = ResConsuming)
          (\<lambda>x. x\<lparr>d_actual_bytes := max (d_actual_bytes x) actual\<rparr>) (reservations db2)"
        "transfers y = transfers db2" "sessions y = sessions db2"
      using rp unfolding record_progress_def t by auto
    have "retrieval_inv (db2\<lparr>reservations := reservations y\<rparr>)"
      unfolding y using inv2 by (rule retrieval_inv_reservations) simp_all
    then show ?thesis using retrieval_inv_cong [of y "db2\<lparr>reservations := reservations y\<rparr>"] y by simp
  qed
  show ?thesis
    using s inv prog fin [OF inv d] fin [OF inv1 e] run
    by (auto simp: settle_reported_def Let_def split: if_splits)
qed

lemma clear_row:
  assumes "reservations db' = sql_update p (\<lambda>d. d\<lparr>d_user_id := '''', d_reserved_bytes := 0\<rparr>) (reservations db)"
    and "d \<in> set (reservations db)"
  obtains d' where "d' \<in> set (reservations db')" "d_id d' = d_id d" "d_status d' = d_status d"
    "d_retrieval_session_id d' = d_retrieval_session_id d" "d_transfer_id d' = d_transfer_id d"
    "d_upload_id d' = d_upload_id d"
proof -
  let ?d = "if p d then d\<lparr>d_user_id := '''', d_reserved_bytes := 0\<rparr> else d"
  have "?d \<in> set (reservations db')" unfolding assms(1) using assms(2) by (rule sql_update_mem)
  then show thesis by (rule that) simp_all
qed

lemma settle_download_cases:
  assumes "settleDownloadReservation rid reported now force db = (res, db')" "db' \<noteq> db"
  obtains d u db1 actual final where "sql_first (\<lambda>d. d_id d = rid) (reservations db) = Some d"
    "sql_first (\<lambda>u. u_id u = d_upload_id d) (uploads db) = Some u"
    "releaseLegacyDownloadTrafficForReservationTx rid now db = Inr db1"
    "settle_reported d actual final now db1 = Inr db'"
  using assms unfolding settleDownloadReservation_def
  by (auto split: if_splits option.splits sum.splits prod.splits)

lemma settle_download_inv:
  assumes inv: "retrieval_inv db"
  shows "retrieval_inv (snd (settleDownloadReservation rid reported now force db))"
proof (cases "settleDownloadReservation rid reported now force db")
  case (Pair res db')
  show ?thesis
  proof (cases "db' = db")
    case False
    with Pair obtain d u db1 actual final where first: "sql_first (\<lambda>d. d_id d = rid) (reservations db) = Some d"
      and leg: "releaseLegacyDownloadTrafficForReservationTx rid now db = Inr db1"
      and s: "settle_reported d actual final now db1 = Inr db'"
      by (rule settle_download_cases)
    obtain p where "reservations db1 = sql_update p (\<lambda>d. d\<lparr>d_user_id := '''', d_reserved_bytes := 0\<rparr>) (reservations db)"
      using leg by (rule release_legacy_tables)
    then obtain d' where "d' \<in> set (reservations db1)" "d_id d' = d_id d" "d_status d' = d_status d"
      "d_retrieval_session_id d' = d_retrieval_session_id d" "d_transfer_id d' = d_transfer_id d"
      using sql_first_Some(1) [OF first] by (rule clear_row)
    with release_legacy_inv [OF inv leg] have "retrieval_inv db'"
      by (rule settle_reported_inv) (rule s)
    then show ?thesis using Pair by simp
  qed (use inv Pair in simp)
qed

text \<open>Expiry of reservations and streams.\<close>

lemma release_expired_reserved_inv:
  assumes "retrieval_inv db"
  shows "retrieval_inv (release_expired_reserved now db)"
proof -
  let ?due = "\<lambda>d::download_reservation. d_status d = ResReserved \<and> d_expires_at d \<le> now"
  let ?f = "\<lambda>d::download_reservation. d\<lparr>d_status := ResReleased, d_user_id := '''', d_reserved_bytes := 0, d_settled_at := now\<rparr>"
  have "retrieval_inv (db\<lparr>reservations := sql_update ?due ?f (reservations db)\<rparr>)"
    using assms by (rule retrieval_inv_reservations) simp_all
  then show ?thesis
    by (subst retrieval_inv_cong [of _ "db\<lparr>reservations := sql_update ?due ?f (reservations db)\<rparr>"])
      (simp_all add: release_expired_reserved_def Let_def)
qed

lemma adopt_inv:
  assumes "retrieval_inv db"
  shows "retrieval_inv (adopt_legacy_streams now db)"
proof -
  define f where "f rts d = (if d_status d = ResConsuming
      then (case sql_first (\<lambda>r. rt_reservation_id r = d_id d) rts of
              None \<Rightarrow> d | Some r \<Rightarrow> d\<lparr>d_expires_at := rt_hard_expires_at r\<rparr>) else d)"
    for rts :: "reservation_runtime list" and d :: download_reservation
  have f: "d_id (f r d) = d_id d" "d_transfer_id (f r d) = d_transfer_id d"
    "d_retrieval_session_id (f r d) = d_retrieval_session_id d" "d_status (f r d) = d_status d" for r d
    by (simp_all add: f_def split: option.splits)
  have "retrieval_inv (db\<lparr>reservations := sql_update (\<lambda>_. True) (f rts) (reservations db)\<rparr>)" for rts
    using assms by (rule retrieval_inv_reservations) (simp_all add: f)
  moreover have "\<exists>rts. reservations (adopt_legacy_streams now db) = sql_update (\<lambda>_. True) (f rts) (reservations db)"
    unfolding adopt_legacy_streams_def Let_def sql_update_def f_def by auto
  ultimately show ?thesis
    using retrieval_inv_cong [of "adopt_legacy_streams now db" "db\<lparr>reservations := reservations (adopt_legacy_streams now db)\<rparr>"]
    by (fastforce simp: adopt_legacy_streams_def Let_def)
qed

lemma settle_streams_inv:
  assumes "retrieval_inv db" shows "retrieval_inv (snd (settle_streams xs now db))"
  using assms
proof (induction xs now db rule: settle_streams.induct)
  case (2 rid actual xs now db)
  obtain r db1 where s: "settleDownloadReservation rid actual now True db = (r, db1)"
    by (cases "settleDownloadReservation rid actual now True db")
  have "retrieval_inv db1" using settle_download_inv [OF "2.prems", of rid actual now True] s by simp
  then show ?case using 2 s by (cases r) auto
qed simp

lemma release_reservations_inv:
  assumes "retrieval_inv db"
  shows "retrieval_inv (snd (ReleaseExpiredDownloadReservations now db))"
proof -
  let ?db = "adopt_legacy_streams now (release_expired_reserved now db)"
  obtain r db2 where s: "settle_streams (overdue_streams now ?db) now ?db = (r, db2)"
    by (cases "settle_streams (overdue_streams now ?db) now ?db")
  have inv2: "retrieval_inv db2"
    using settle_streams_inv [OF adopt_inv [OF release_expired_reserved_inv [OF assms]]] s by (metis snd_conv)
  have "retrieval_inv (db2\<lparr>rate_limits := x\<rparr>) = retrieval_inv db2" for x by (rule retrieval_inv_cong) simp_all
  then show ?thesis using s inv2 by (cases r) (simp_all add: ReleaseExpiredDownloadReservations_def Let_def)
qed

lemma upgrade_inv:
  assumes "retrieval_inv db"
  shows "retrieval_inv (snd (upgradeLegacyDownloadReservations version now db))"
proof -
  let ?f = "\<lambda>d::download_reservation. d\<lparr>d_user_id := '''', d_reserved_bytes := 0\<rparr>"
  have "retrieval_inv (db\<lparr>reservations := sql_update live_reservation ?f (reservations db)\<rparr>)"
    using assms by (rule retrieval_inv_reservations) simp_all
  then show ?thesis using assms
    retrieval_inv_cong [of "snd (upgradeLegacyDownloadReservations version now db)" "db\<lparr>reservations := sql_update live_reservation ?f (reservations db)\<rparr>"]
    by (auto simp: upgradeLegacyDownloadReservations_def)
qed

lemma create_recipient_cases:
  assumes "CreateDownloadReservationForRecipient rid tid up rkey lifetime now db = (res, db')" "db' \<noteq> db"
  obtains (new) db1 d where "db1 = db \<or> (\<exists>i db0. releaseLegacyDownloadTrafficForReservationTx i now db = Inr db0 \<and>
      db1 = db0\<lparr>reservations := sql_update (\<lambda>x. d_id x = i \<and> d_status x = ResReserved)
              (\<lambda>x. x\<lparr>d_status := ResReleased, d_settled_at := now\<rparr>) (reservations db0)\<rparr>)"
      "insert_reservation d db1 = Inr db'" "d_status d = ResReserved" "d_retrieval_session_id d = ''''"
  | (renew) db1 i e db2 where "db1 = db \<or> (\<exists>i db0. releaseLegacyDownloadTrafficForReservationTx i now db = Inr db0 \<and>
      db1 = db0\<lparr>reservations := sql_update (\<lambda>x. d_id x = i \<and> d_status x = ResReserved)
              (\<lambda>x. x\<lparr>d_status := ResReleased, d_settled_at := now\<rparr>) (reservations db0)\<rparr>)"
      "releaseLegacyDownloadTrafficForReservationTx i now db1 = Inr db2"
      "db' = db2\<lparr>reservations := sql_update (\<lambda>x. d_id x = i \<and> d_status x = ResReserved)
              (\<lambda>x. x\<lparr>d_expires_at := e, d_user_id := '''', d_reserved_bytes := 0\<rparr>) (reservations db2)\<rparr>"
proof -
  define fresh where "fresh = \<lparr>d_id = rid, d_upload_id = up, d_transfer_id = tid,
                        d_retrieval_session_id = '''', d_user_id = '''', d_reserved_bytes = 0,
                        d_actual_bytes = 0, d_status = ResReserved, d_created_at = now,
                        d_expires_at = now + lifetime, d_settled_at = 0, d_recipient_key = rkey\<rparr>"
  have f: "d_status fresh = ResReserved" "d_retrieval_session_id fresh = ''''" by (simp_all add: fresh_def)
  show thesis
  proof (cases "rkey = ''''")
    case True
    then have "insert_reservation fresh db = Inr db'"
      using assms by (auto simp: CreateDownloadReservationForRecipient_def fresh_def Let_def split: if_splits sum.splits)
    then show thesis using new [of db fresh] f by simp
  next
    case False
    let ?mine = "\<lambda>d::download_reservation. d_transfer_id d = tid \<and> d_upload_id d = up \<and> d_recipient_key d = rkey \<and> d_status d = ResReserved"
    define rel where "rel = (case sql_first (\<lambda>d. ?mine d \<and> d_expires_at d \<le> now) (reservations db) of
        None \<Rightarrow> Inr db
      | Some d \<Rightarrow> (case releaseLegacyDownloadTrafficForReservationTx (d_id d) now db of
           Inl e \<Rightarrow> Inl e
         | Inr db1 \<Rightarrow> Inr (db1\<lparr>reservations := sql_update (\<lambda>x. d_id x = d_id d \<and> d_status x = ResReserved)
             (\<lambda>x. x\<lparr>d_status := ResReleased, d_settled_at := now\<rparr>) (reservations db1)\<rparr>)))"
    have eq: "(res, db') = (case rel of Inl e \<Rightarrow> (Inl e, db)
      | Inr db1 \<Rightarrow> (case sql_first ?mine (reservations db1) of
           None \<Rightarrow> (case insert_reservation fresh db1 of Inl e \<Rightarrow> (Inl e, db) | Inr db2 \<Rightarrow> (Inr fresh, db2))
         | Some d \<Rightarrow> (case releaseLegacyDownloadTrafficForReservationTx (d_id d) now db1 of
              Inl e \<Rightarrow> (Inl e, db)
            | Inr db2 \<Rightarrow> (Inr (d\<lparr>d_user_id := '''', d_reserved_bytes := 0, d_expires_at := now + lifetime\<rparr>),
                 db2\<lparr>reservations := sql_update (\<lambda>x. d_id x = d_id d \<and> d_status x = ResReserved)
                   (\<lambda>x. x\<lparr>d_expires_at := now + lifetime, d_user_id := '''', d_reserved_bytes := 0\<rparr>) (reservations db2)\<rparr>))))"
      using assms False unfolding CreateDownloadReservationForRecipient_def Let_def fresh_def [symmetric] rel_def [symmetric]
      by (simp split: if_splits)
    then obtain db1 where db1: "rel = Inr db1" using assms(2) by (cases rel) auto
    have r: "db1 = db \<or> (\<exists>i db0. releaseLegacyDownloadTrafficForReservationTx i now db = Inr db0 \<and>
      db1 = db0\<lparr>reservations := sql_update (\<lambda>x. d_id x = i \<and> d_status x = ResReserved)
              (\<lambda>x. x\<lparr>d_status := ResReleased, d_settled_at := now\<rparr>) (reservations db0)\<rparr>)"
      using db1 unfolding rel_def by (auto split: option.splits sum.splits)
    show thesis
    proof (cases "sql_first ?mine (reservations db1)")
      case None
      then have "insert_reservation fresh db1 = Inr db'" using eq db1 assms(2) by (auto split: sum.splits)
      then show thesis using new [OF r] f by simp
    next
      case (Some d)
      then show thesis using eq db1 assms(2) renew [OF r, of "d_id d"]
        by (cases "releaseLegacyDownloadTrafficForReservationTx (d_id d) now db1") simp_all
    qed
  qed
qed

lemma create_recipient_inv:
  assumes inv: "retrieval_inv db"
  shows "retrieval_inv (snd (CreateDownloadReservationForRecipient rid tid up rkey lifetime now db))"
proof (cases "CreateDownloadReservationForRecipient rid tid up rkey lifetime now db")
  case (Pair res db')
  have rel: "retrieval_inv db1" if "db1 = db \<or> (\<exists>i db0. releaseLegacyDownloadTrafficForReservationTx i now db = Inr db0 \<and>
      db1 = db0\<lparr>reservations := sql_update (\<lambda>x. d_id x = i \<and> d_status x = ResReserved)
              (\<lambda>x. x\<lparr>d_status := ResReleased, d_settled_at := now\<rparr>) (reservations db0)\<rparr>)" for db1
    using that
  proof
    assume "\<exists>i db0. releaseLegacyDownloadTrafficForReservationTx i now db = Inr db0 \<and>
      db1 = db0\<lparr>reservations := sql_update (\<lambda>x. d_id x = i \<and> d_status x = ResReserved)
              (\<lambda>x. x\<lparr>d_status := ResReleased, d_settled_at := now\<rparr>) (reservations db0)\<rparr>"
    then obtain i db0 where l: "releaseLegacyDownloadTrafficForReservationTx i now db = Inr db0"
      and db1: "db1 = db0\<lparr>reservations := sql_update (\<lambda>x. d_id x = i \<and> d_status x = ResReserved)
              (\<lambda>x. x\<lparr>d_status := ResReleased, d_settled_at := now\<rparr>) (reservations db0)\<rparr>" by (elim exE conjE)
    show ?thesis unfolding db1 using release_legacy_inv [OF inv l] by (rule retrieval_inv_reservations) simp_all
  qed (use inv in simp)
  show ?thesis
  proof (cases "db' = db")
    case False
    with Pair show ?thesis
    proof (cases rule: create_recipient_cases)
      case (new db1 d)
      have "reservation_in_session db1 d" using new(4) by (simp add: reservation_in_session_def)
      then have "retrieval_inv db'" using insert_reservation_inv [OF rel [OF new(1)] new(2)] new(3) by simp
      then show ?thesis using Pair by simp
    next
      case (renew db1 i e db2)
      have "retrieval_inv db'"
        unfolding renew(3) using release_legacy_inv [OF rel [OF renew(1)] renew(2)]
        by (rule retrieval_inv_reservations) simp_all
      then show ?thesis using Pair by simp
    qed
  qed (use inv Pair in simp)
qed

end
