(* ===== verification/Download_Properties.thy ===== *)
theory Download_Properties
  imports Slots
begin

text \<open>
  The download side as a state machine: every committed operation on sessions and reservations is a
  step, and the download limit holds in every reachable state whatever the interleaving. With the
  properties of single operations: settlement of a stream, the codec of node reports, the slot of
  an aborted session, and the renewal that an expired reservation blocks.
\<close>

section \<open>The state machine\<close>

inductive download_step :: "cdb \<Rightarrow> cdb \<Rightarrow> bool" where
  create_in_session: "download_step db
    (snd (CreateRetrievalDownloadReservation rid token tid up rkey sid lifetime now db))"
| create_for_recipient: "download_step db
    (snd (CreateDownloadReservationForRecipient rid tid up rkey lifetime now db))"
| begin_stream: "download_step db (snd (beginDownloadReservation rid ex now db))"
| settle_stream: "download_step db (snd (settleDownloadReservation rid reported now force db))"
| abort_reservation: "download_step db (snd (AbortRetrievalDownloadReservation rid rel now db))"
| expire_sessions: "download_step db (snd (ReleaseExpiredRetrievalSessions now db))"
| expire_reservations: "download_step db (snd (ReleaseExpiredDownloadReservations now db))"
| upgrade_legacy: "download_step db (snd (upgradeLegacyDownloadReservations version now db))"


inductive_cases download_stepE: "download_step db db'"




section \<open>A stream can always be settled\<close>

lemma keyed_first_id: "keyed d_id t \<Longrightarrow> d \<in> set t \<Longrightarrow> sql_first (\<lambda>x. d_id x = d_id d) t = Some d"
  by (rule keyed_first)

lemma keyed_count_id:
  assumes "keyed d_id t" "d \<in> set t"
  shows "sql_count (\<lambda>x. d_id x = d_id d) t = 1"
  using keyed_count_1 [OF assms(1), of "d_id d" "\<lambda>_. True"] assms(2) by auto

lemma touch_ok:
  assumes inv: "retrieval_inv db" and d: "d \<in> set (reservations db)" "d_status d = ResConsuming"
  shows "\<exists>db'. touchRetrievalSessionTx (d_retrieval_session_id d) now db = Inr db' \<and>
    reservations db' = reservations db \<and> transfers db' = transfers db \<and> uploads db' = uploads db"
proof (cases "d_retrieval_session_id d = ''''")
  case False
  then obtain s where "s \<in> set (sessions db)" "s_id s = d_retrieval_session_id d" "s_status s = SessActive"
    using inv d unfolding retrieval_inv_def reservation_in_session_def by auto
  moreover have "keyed s_id (sessions db)" using inv by (simp add: retrieval_inv_def)
  ultimately have "sql_count (\<lambda>s. s_id s = d_retrieval_session_id d \<and> s_status s = SessActive) (sessions db) = 1"
    using keyed_count_1 [of s_id "sessions db"] by auto
  then show ?thesis using False by (simp add: touchRetrievalSessionTx_def Let_def)
qed (simp add: touchRetrievalSessionTx_def)

lemma close_completed_ok:
  "\<exists>db'. closeCompletedRetrievalSessionTx sid tid now db = Inr db' \<and> reservations db' = reservations db \<and>
    uploads db' = uploads db"
  by (simp add: closeCompletedRetrievalSessionTx_def Let_def)

lemma settle_final_bytes_ok:
  assumes inv: "retrieval_inv db" and d: "d \<in> set (reservations db)" "d_status d = ResConsuming"
  shows "\<exists>db'. settle_final_bytes (d_id d) ResConsuming (d_retrieval_session_id d) (d_transfer_id d) n now db = Inr db' \<and>
    uploads db' = uploads db \<and> reservations db' = sql_update (\<lambda>x. d_id x = d_id d)
      (\<lambda>x. x\<lparr>d_status := ResSettled, d_actual_bytes := n, d_settled_at := now\<rparr>) (reservations db)"
proof -
  obtain dt where dt: "touchRetrievalSessionTx (d_retrieval_session_id d) now db = Inr dt" "reservations dt = reservations db"
    "uploads dt = uploads db"
    using touch_ok [OF assms, of now] by auto
  let ?f = "\<lambda>x. x\<lparr>d_status := ResSettled, d_actual_bytes := n, d_settled_at := now\<rparr>"
  let ?m = "\<lambda>y. y\<lparr>reservations := sql_update (\<lambda>x. d_id x = d_id d) ?f (reservations y)\<rparr>"
  define db2 where "db2 = (if n > 0 \<and> d_retrieval_session_id d \<noteq> '''' then dt
    else if n = 0 \<and> d_retrieval_session_id d = '''' then db\<lparr>transfers := sql_update (\<lambda>t. t_id t = d_transfer_id d)
                        (\<lambda>t. t\<lparr>t_downloads := max (t_downloads t - 1) 0\<rparr>) (transfers db)\<rparr> else db)"
  have db2: "reservations db2 = reservations db" "uploads db2 = uploads db" by (simp_all add: db2_def dt)
  have eq: "settle_final_bytes (d_id d) ResConsuming (d_retrieval_session_id d) (d_transfer_id d) n now db =
      (if n > 0 then closeCompletedRetrievalSessionTx (d_retrieval_session_id d) (d_transfer_id d) now (?m db2) else Inr (?m db2))"
    using dt(1) unfolding settle_final_bytes_def Let_def db2_def
    by (cases "d_retrieval_session_id d = ''''"; cases "n = 0") simp_all
  obtain db3 where "closeCompletedRetrievalSessionTx (d_retrieval_session_id d) (d_transfer_id d) now (?m db2) = Inr db3"
    "reservations db3 = reservations (?m db2)" "uploads db3 = uploads (?m db2)" using close_completed_ok by blast
  then show ?thesis using eq db2 by (cases "n > 0") simp_all
qed

lemma release_legacy_ok:
  assumes "sql_first (\<lambda>d. d_id d = rid) (reservations db) = Some d"
  shows "\<exists>db'. releaseLegacyDownloadTrafficForReservationTx rid now db = Inr db'"
  using assms by (simp add: releaseLegacyDownloadTrafficForReservationTx_def Let_def)

lemma settle_force_ok:
  assumes inv: "retrieval_inv db" and d: "d \<in> set (reservations db)" "d_status d = ResConsuming"
    and u: "sql_first (\<lambda>u. u_id u = d_upload_id d) (uploads db) = Some u" "0 \<le> n" "n \<le> u_length u"
  shows "\<exists>db'. settleDownloadReservation (d_id d) n now True db = (Inr (), db') \<and> retrieval_inv db' \<and> uploads db' = uploads db \<and>
    (\<exists>d' \<in> set (reservations db'). d_id d' = d_id d \<and> d_upload_id d' = d_upload_id d \<and>
       d_status d' = ResSettled \<and> d_actual_bytes d' = n)"
proof -
  have keys: "keyed d_id (reservations db)" using inv by (simp add: retrieval_inv_def)
  note first = keyed_first_id [OF keys d(1)] and count = keyed_count_id [OF keys d(1)]
  obtain db1 where leg: "releaseLegacyDownloadTrafficForReservationTx (d_id d) now db = Inr db1"
    using release_legacy_ok [OF first] by blast
  obtain p where t: "reservations db1 = sql_update p (\<lambda>d. d\<lparr>d_user_id := '''', d_reserved_bytes := 0\<rparr>) (reservations db)"
    and ups1: "uploads db1 = uploads db"
    using leg by (rule release_legacy_tables)
  obtain d1 where d1: "d1 \<in> set (reservations db1)" "d_id d1 = d_id d" "d_status d1 = d_status d"
    "d_retrieval_session_id d1 = d_retrieval_session_id d" "d_transfer_id d1 = d_transfer_id d"
    "d_upload_id d1 = d_upload_id d"
    using t d(1) by (rule clear_row)
  let ?f = "\<lambda>x. x\<lparr>d_status := ResSettled, d_actual_bytes := n, d_settled_at := now\<rparr>"
  obtain db2 where fin: "settle_final_bytes (d_id d) ResConsuming (d_retrieval_session_id d) (d_transfer_id d) n now db1 = Inr db2"
    and ups2: "uploads db2 = uploads db1" and r2: "reservations db2 = sql_update (\<lambda>x. d_id x = d_id d) ?f (reservations db1)"
    using settle_final_bytes_ok [OF release_legacy_inv [OF inv leg] d1(1), of n now] d1 d(2) by auto
  have "settle_reported d n True now db1 = Inr db2"
    using fin d(2) by (simp add: settle_reported_def Let_def)
  then have eq: "settleDownloadReservation (d_id d) n now True db = (Inr (), db2)"
    using first count u leg by (simp add: settleDownloadReservation_def)
  moreover have "retrieval_inv db2" using settle_download_inv [OF inv, of "d_id d" n now True] eq by simp
  moreover have "?f d1 \<in> set (reservations db2)"
    using sql_update_mem [OF d1(1), of "\<lambda>x. d_id x = d_id d" ?f] d1(2) r2 by simp
  then have "\<exists>d' \<in> set (reservations db2). d_id d' = d_id d \<and> d_upload_id d' = d_upload_id d \<and>
      d_status d' = ResSettled \<and> d_actual_bytes d' = n"
    using d1 by (intro bexI [of _ "?f d1"]) simp_all
  ultimately show ?thesis using ups1 ups2 by auto
qed

lemma settle_settled:
  assumes inv: "retrieval_inv db" and d: "d \<in> set (reservations db)" "d_status d = ResSettled"
    and u: "sql_first (\<lambda>u. u_id u = d_upload_id d) (uploads db) = Some u" "0 \<le> n" "n \<le> u_length u"
  shows "settleDownloadReservation (d_id d) n now True db =
    (if n = d_actual_bytes d then Inr () else Inl ErrConflict, db)"
proof -
  have keys: "keyed d_id (reservations db)" using inv by (simp add: retrieval_inv_def)
  note first = keyed_first_id [OF keys d(1)] and count = keyed_count_id [OF keys d(1)]
  have leg: "releaseLegacyDownloadTrafficForReservationTx (d_id d) now db = Inr db"
    using first d(2) by (simp add: releaseLegacyDownloadTrafficForReservationTx_def)
  show ?thesis using first count u leg d(2)
    by (simp add: settleDownloadReservation_def settle_reported_def Let_def)
qed

section \<open>An aborted session leaves no trace in the limit\<close>

lemma open_session_created:
  assumes "open_session token tid rkey sid now db = Inr (s, True, db')"
  shows "s = new_session token tid rkey now" "token \<notin> s_id ` set (sessions db)"
    "sql_count (claimable tid now) (transfers db) = 1"
    "db' = db\<lparr>transfers := sql_update (claimable tid now)
        (\<lambda>t. t\<lparr>t_downloads := t_downloads t + 1,
               t_status := (if t_downloads t + 1 \<ge> t_max_downloads t then TransferExhausted
                            else t_status t)\<rparr>) (transfers db), sessions := sessions db @ [s]\<rparr>"
proof -
  have "\<exists>db1. claim_slot tid now db = Inr db1 \<and> s = new_session token tid rkey now \<and>
      s_id s \<notin> s_id ` set (sessions db1) \<and> db' = db1\<lparr>sessions := sessions db1 @ [s]\<rparr>"
    using assms unfolding open_session_def Let_def
    by (auto simp: sql_insert_Inr split: option.splits sum.splits if_splits prod.splits)
  then obtain db1 where *: "claim_slot tid now db = Inr db1" "s = new_session token tid rkey now"
      "s_id s \<notin> s_id ` set (sessions db1)" "db' = db1\<lparr>sessions := sessions db1 @ [s]\<rparr>" by (elim exE conjE)
  moreover from this(1) have "sql_count (claimable tid now) (transfers db) = 1 \<and>
    db1 = db\<lparr>transfers := sql_update (claimable tid now)
        (\<lambda>t. t\<lparr>t_downloads := t_downloads t + 1,
               t_status := (if t_downloads t + 1 \<ge> t_max_downloads t then TransferExhausted
                            else t_status t)\<rparr>) (transfers db)\<rparr>"
    by (simp add: claim_slot_def split: if_splits)
  ultimately show "s = new_session token tid rkey now" "token \<notin> s_id ` set (sessions db)"
    "sql_count (claimable tid now) (transfers db) = 1"
    "db' = db\<lparr>transfers := sql_update (claimable tid now)
        (\<lambda>t. t\<lparr>t_downloads := t_downloads t + 1,
               t_status := (if t_downloads t + 1 \<ge> t_max_downloads t then TransferExhausted
                            else t_status t)\<rparr>) (transfers db), sessions := sessions db @ [s]\<rparr>"
    by (simp_all add: new_session_def)
qed

lemma no_reservation_in_fresh_session:
  assumes "retrieval_inv db" "token \<noteq> ''''" "token \<notin> s_id ` set (sessions db)" "d \<in> set (reservations db)"
  shows "d_retrieval_session_id d \<noteq> token"
  using assms unfolding retrieval_inv_def reservation_in_session_def by force

lemma reopen_claimed:
  assumes inv: "retrieval_inv db" and one: "sql_count (claimable tid now) (transfers db) = 1"
    and later: "\<And>t. t \<in> set (transfers db) \<Longrightarrow> t_id t = tid \<Longrightarrow> later < t_expires_at t"
  shows "sql_update (\<lambda>t. t_id t = tid)
       (\<lambda>t. t\<lparr>t_downloads := max (t_downloads t - 1) 0,
              t_status := (if t_status t = TransferExhausted \<and> t_expires_at t > later
                           then TransferActive else t_status t)\<rparr>)
     (sql_update (claimable tid now)
        (\<lambda>t. t\<lparr>t_downloads := t_downloads t + 1,
               t_status := (if t_downloads t + 1 \<ge> t_max_downloads t then TransferExhausted
                            else t_status t)\<rparr>) (transfers db)) = transfers db"
proof -
  have keys: "keyed t_id (transfers db)" using inv by (simp add: retrieval_inv_def)
  obtain c where c: "c \<in> set (transfers db)" "claimable tid now c"
    using one sql_count_0_iff [of "claimable tid now" "transfers db"] by fastforce
  have cl: "claimable tid now t \<longleftrightarrow> t_id t = tid" if "t \<in> set (transfers db)" for t
    using keyed_unique [OF keys that c(1)] c(2) by (auto simp: claimable_def)
  have nn: "0 \<le> t_downloads t" if "t \<in> set (transfers db)" for t
    using inv that unfolding retrieval_inv_def within_limit_def by fastforce
  show ?thesis
    unfolding sql_update_def map_map
  proof (rule map_idI)
    fix t assume t: "t \<in> set (transfers db)"
    show "((\<lambda>r. if t_id r = tid then r\<lparr>t_downloads := max (t_downloads r - 1) 0,
              t_status := (if t_status r = TransferExhausted \<and> t_expires_at r > later
                           then TransferActive else t_status r)\<rparr> else r) \<circ>
        (\<lambda>r. if claimable tid now r then r\<lparr>t_downloads := t_downloads r + 1,
               t_status := (if t_downloads r + 1 \<ge> t_max_downloads r then TransferExhausted
                            else t_status r)\<rparr> else r)) t = t"
      using cl [OF t] nn [OF t] later [OF t] by (auto simp: claimable_def)
  qed
qed

lemma create_then_abort:
  assumes inv: "retrieval_inv db" and token: "token \<noteq> ''''"
    and create: "CreateRetrievalDownloadReservation rid token tid up rkey sid lifetime now db = (Inr (d, s, True), db')"
    and later: "\<And>t. t \<in> set (transfers db) \<Longrightarrow> t_id t = tid \<Longrightarrow> later < t_expires_at t"
  shows "transfers (snd (AbortRetrievalDownloadReservation (d_id d) True later db')) = transfers db"
proof -
  obtain db1 where op: "open_session token tid rkey sid now db = Inr (s, True, db1)"
    and res: "reserve_in_session rid s tid up lifetime now db1 = Inr (d, db')"
    using create by (auto simp: CreateRetrievalDownloadReservation_def split: if_splits option.splits sum.splits prod.splits)
  note o = open_session_created [OF op]
  note none = no_reservation_in_fresh_session [OF inv token o(2)]
  have sid: "s_id s = token" "s_status s = SessProvisional" using o(1) by (simp_all add: new_session_def)
  have db1: "reservations db1 = reservations db" by (simp add: o(4))
  have "filter (\<lambda>d. d_retrieval_session_id d = token \<and> P d) (reservations db) = []" for P
    using none by (auto simp: filter_empty_conv)
  then have "live_for (s_id s) up now db1 = None"
    by (simp add: live_for_def db1 sid)
  then have ins: "insert_reservation d db1 = Inr db'"
    and d: "d_id d = rid" "d_status d = ResReserved" "d_retrieval_session_id d = token" "d_transfer_id d = tid"
    using res sid by (auto simp: reserve_in_session_def Let_def split: if_splits sum.splits)
  then have db': "db' = db1\<lparr>reservations := reservations db @ [d]\<rparr>" and fresh: "rid \<notin> d_id ` set (reservations db)"
    by (auto simp: insert_reservation_def sql_insert_Inr db1 split: if_splits sum.splits)
  have first: "sql_first (\<lambda>x. d_id x = rid) (reservations db') = Some d"
  proof -
    have "keyed d_id (reservations db')"
      using inv fresh d(1) by (simp add: retrieval_inv_def db' keyed_append)
    then show ?thesis using keyed_first_id [of "reservations db'" d] d(1) by (simp add: db')
  qed
  let ?rel = "\<lambda>x. x\<lparr>d_status := ResReleased, d_settled_at := later\<rparr>"
  define dbr where "dbr = db'\<lparr>reservations := sql_update (\<lambda>x. d_id x = rid \<and> d_status x = ResReserved) ?rel (reservations db')\<rparr>"
  have quiet: "\<not> streaming_in dbr token"
    using none d fresh unfolding streaming_in_def sql_exists_iff dbr_def db'
    by (auto elim!: sql_update_memE)
  let ?hit = "\<lambda>x. s_id x = token \<and> s_status x = SessProvisional \<and> \<not> streaming_in dbr (s_id x)"
  have ses: "sessions dbr = sessions db @ [s]" by (simp add: dbr_def db' o(4))
  have "sql_count ?hit (sessions db) = 0" using o(2) by (auto simp: sql_count_0_iff)
  then have hit: "sql_count ?hit (sessions dbr) = 1" using sid quiet by (simp add: ses)
  have abort: "snd (AbortRetrievalDownloadReservation rid True later db') =
    reopen_transfer tid later (dbr\<lparr>sessions := sql_update ?hit (release_session later) (sessions dbr)\<rparr>)"
    using first d token hit by (simp add: AbortRetrievalDownloadReservation_def dbr_def [symmetric] Let_def)
  have "transfers dbr = transfers db1" by (simp add: dbr_def db')
  then have "transfers (snd (AbortRetrievalDownloadReservation rid True later db')) =
    sql_update (\<lambda>t. t_id t = tid) (\<lambda>t. t\<lparr>t_downloads := max (t_downloads t - 1) 0,
              t_status := (if t_status t = TransferExhausted \<and> t_expires_at t > later
                           then TransferActive else t_status t)\<rparr>) (transfers db1)"
    unfolding abort reopen_transfer_def by simp
  then show ?thesis using reopen_claimed [OF inv o(3) later] d(1) by (simp add: o(4))
qed

section \<open>Concrete shares\<close>

text \<open>A share with a single download and one ready file of ten bytes; the same share with a legacy
  stream in flight; and a session whose reservation of the file has expired unused.\<close>

definition demo_transfer :: transfer where
  "demo_transfer = \<lparr>t_id = ''t'', t_kind = Send, t_title = '''', t_share_token = ''x'', t_manage_hash = '''',
     t_pickup_code = ''p'', t_access_hash = '''', t_status = TransferActive, t_expires_at = 100000,
     t_created_at = 0, t_max_downloads = 1, t_downloads = 0, t_total_bytes = 10, t_file_count = 1,
     t_owner_type = '''', t_owner_id = '''', t_policy_max_file_bytes = 0, t_policy_max_task_bytes = 0,
     t_policy_max_files = 0, t_download_limit_mode = RetrievalSessionV1, t_delete_on_exhaustion = True\<rparr>"

definition demo_upload :: upload where
  "demo_upload = \<lparr>u_id = ''f'', u_transfer_id = ''t'', u_upload_hash = '''', u_original_name = ''a'',
     u_content_type = '''', u_length = 10, u_offset = 10, u_status = Ready, u_temp_path = '''',
     u_object_path = ''o'', u_sha256 = '''', u_scan_detail = '''', u_submitter_name = '''',
     u_created_at = 0, u_completed_at = 0, u_storage_released = False,
     u_storage_kind = StorageKindLocal, u_storage_node_id = '''', u_storage_key = '''',
     u_storage_version = 1\<rparr>"

definition share_demo :: cdb where
  "share_demo = empty_cdb\<lparr>transfers := [demo_transfer], uploads := [demo_upload]\<rparr>"

definition demo_session :: retrieval_session where
  "demo_session = (new_session ''s'' ''t'' ''k'' 0)\<lparr>s_status := SessActive, s_expires_at := 1800\<rparr>"

definition demo_reservation :: "reservation_status \<Rightarrow> download_reservation" where
  "demo_reservation st = \<lparr>d_id = ''r'', d_upload_id = ''f'', d_transfer_id = ''t'',
     d_retrieval_session_id = ''s'', d_user_id = '''', d_reserved_bytes = 0, d_actual_bytes = 0,
     d_status = st, d_created_at = 0, d_expires_at = 300, d_settled_at = 0, d_recipient_key = ''''\<rparr>"

definition session_demo :: "reservation_status \<Rightarrow> cdb" where
  "session_demo st = share_demo\<lparr>
     transfers := [demo_transfer\<lparr>t_downloads := 1, t_status := TransferExhausted\<rparr>],
     sessions := [demo_session], reservations := [demo_reservation st]\<rparr>"

lemma share_demo_inv: "retrieval_inv share_demo" "retrieval_inv (session_demo ResConsuming)"
  by code_simp+

section \<open>Properties\<close>



text \<open>C6. A stream can always be settled: for a consuming reservation of an existing file and a byte
  count within its length, forced settlement succeeds and keeps the state consistent; repeating it
  with the same count changes nothing and any other count is a conflict.\<close>

theorem settle_stream_total:
  assumes "retrieval_inv db" "d \<in> set (reservations db)" "d_status d = ResConsuming"
    "sql_first (\<lambda>u. u_id u = d_upload_id d) (uploads db) = Some u" "0 \<le> n" "n \<le> u_length u"
  shows "\<exists>db'. settleDownloadReservation (d_id d) n now True db = (Inr (), db') \<and> retrieval_inv db' \<and>
    (\<forall>m later. 0 \<le> m \<and> m \<le> u_length u \<longrightarrow>
       settleDownloadReservation (d_id d) m later True db' = (if m = n then Inr () else Inl ErrConflict, db'))"
proof -
  obtain db' d' where s: "settleDownloadReservation (d_id d) n now True db = (Inr (), db')" "retrieval_inv db'"
    and u: "uploads db' = uploads db" and d': "d' \<in> set (reservations db')" "d_id d' = d_id d"
      "d_upload_id d' = d_upload_id d" "d_status d' = ResSettled" "d_actual_bytes d' = n"
    using settle_force_ok [OF assms, of now] by blast
  have "settleDownloadReservation (d_id d) m later True db' = (if m = n then Inr () else Inl ErrConflict, db')"
    if "0 \<le> m" "m \<le> u_length u" for m later
    using settle_settled [OF s(2) d'(1,4), of u m later] that u d' assms(4) by simp
  then show ?thesis using s by blast
qed

theorem settle_stream_total_witness:
  "\<exists>db'. settleDownloadReservation ''r'' 10 400 True (session_demo ResConsuming) = (Inr (), db') \<and>
     retrieval_inv db' \<and>
     (\<forall>m later. 0 \<le> m \<and> m \<le> 10 \<longrightarrow>
        settleDownloadReservation ''r'' m later True db' = (if m = 10 then Inr () else Inl ErrConflict, db'))"
proof -
  have "demo_reservation ResConsuming \<in> set (reservations (session_demo ResConsuming))"
    "d_status (demo_reservation ResConsuming) = ResConsuming"
    "sql_first (\<lambda>u. u_id u = d_upload_id (demo_reservation ResConsuming)) (uploads (session_demo ResConsuming)) = Some demo_upload"
    "d_id (demo_reservation ResConsuming) = ''r''" "u_length demo_upload = 10"
    by code_simp+
  then show ?thesis
    using settle_stream_total [OF share_demo_inv(2), of "demo_reservation ResConsuming" demo_upload 10 400] by simp
qed

text \<open>The final partial count a storage node reports survives the encoding: it is distinguishable
  from progress, stays a 64-bit number, and the control plane decodes the same count as final.\<close>

theorem node_bytes_roundtrip:
  assumes "0 < actual" "actual < expected" "expected \<le> (max_int64 - 1) div 2"
  shows "\<exists>r. encodeFinalNodeDownloadBytes expected actual = Inr r \<and> expected < r \<and> r \<le> max_int64 \<and>
    decodeNodeDownloadBytes expected r = Inr (actual, True)"
proof -
  have e: "expected + 1 + actual \<le> max_int64" "expected * 2 \<le> max_int64" "- (2 ^ 63) \<le> expected"
    using assms by (simp_all add: max_int64_def)
  have i: "i64 x = x" if "0 \<le> x" "x \<le> max_int64" for x using that by (intro i64_id) simp_all
  have g: "go_div (max_int64 - 1) 2 = (max_int64 - 1) div 2" by (rule go_div_nonneg) (simp_all add: max_int64_def)
  have "encodeFinalNodeDownloadBytes expected actual = Inr (expected + 1 + actual)"
    using assms e by (simp add: encodeFinalNodeDownloadBytes_def g i)
  moreover have "decodeNodeDownloadBytes expected (expected + 1 + actual) = Inr (actual, True)"
    using assms e by (simp add: decodeNodeDownloadBytes_def g i Let_def)
  ultimately show ?thesis using assms e by (intro exI [of _ "expected + 1 + actual"]) simp
qed

theorem node_bytes_roundtrip_witness:
  "\<exists>r. encodeFinalNodeDownloadBytes 10 4 = Inr r \<and> 10 < r \<and> r \<le> max_int64 \<and>
    decodeNodeDownloadBytes 10 r = Inr (4, True)"
  using node_bytes_roundtrip [of 4 10] by (simp add: max_int64_def)

text \<open>C7. Aborting the reservation that opened a session, before the share expires, gives the slot
  back completely: the transfers are as they were before the session was opened, an exhausted share is
  active again.\<close>

theorem abort_returns_slot:
  assumes "retrieval_inv db" "token \<noteq> ''''"
    "CreateRetrievalDownloadReservation rid token tid up rkey sid lifetime now db = (Inr (d, s, True), db')"
    "\<forall>t \<in> set (transfers db). t_id t = tid \<longrightarrow> later < t_expires_at t"
  shows "transfers (snd (AbortRetrievalDownloadReservation (d_id d) True later db')) = transfers db"
  using create_then_abort [OF assms(1-3), of later] assms(4) by blast

theorem abort_returns_slot_witness:
  "\<exists>d s db'. CreateRetrievalDownloadReservation ''r'' ''s'' ''t'' ''f'' ''k'' '''' 300 0 share_demo
       = (Inr (d, s, True), db') \<and> map t_status (transfers db') = [TransferExhausted] \<and>
     transfers (snd (AbortRetrievalDownloadReservation (d_id d) True 20 db')) = [demo_transfer]"
proof -
  let ?r = "CreateRetrievalDownloadReservation ''r'' ''s'' ''t'' ''f'' ''k'' '''' 300 0 share_demo"
  define d where "d = demo_reservation ResReserved"
  define s where "s = new_session ''s'' ''t'' ''k'' 0"
  have eq: "?r = (Inr (d, s, True), snd ?r)" unfolding d_def s_def by code_simp
  have "map t_status (transfers (snd ?r)) = [TransferExhausted]" "''s'' \<noteq> ''''"
    "\<forall>t \<in> set (transfers share_demo). t_id t = ''t'' \<longrightarrow> 20 < t_expires_at t" "transfers share_demo = [demo_transfer]"
    by code_simp+
  moreover from this abort_returns_slot [OF share_demo_inv(1) _ eq, of 20]
  have "transfers (snd (AbortRetrievalDownloadReservation (d_id d) True 20 (snd ?r))) = [demo_transfer]" by simp
  ultimately show ?thesis using eq by (intro exI conjI) assumption+
qed

text \<open>Inside a usable session, a file whose reservation expired unused cannot be reserved again
  until the expiry sweep has run: the lookup skips the expired row, but the unique index on live
  reservations still counts it, so the insertion fails and the request ends in an internal error.\<close>

theorem expired_reservation_blocks_renewal:
  assumes "sql_first (\<lambda>t. t_id t = tid) (transfers db) = Some t" "now < t_expires_at t"
    "t_status t = TransferActive \<or> t_status t = TransferExhausted"
    "t_download_limit_mode t = RetrievalSessionV1" "t_delete_on_exhaustion t"
    "length rkey \<le> 256" "0 < lifetime" "sid \<noteq> ''''" "ValidRetrievalSession sid tid now db = Inr s"
    "sql_count (\<lambda>u. u_id u = up \<and> u_transfer_id u = tid \<and> u_status u = Ready) (uploads db) = 1"
    "d \<in> set (reservations db)" "d_retrieval_session_id d = sid" "d_upload_id d = up"
    "d_status d = ResReserved"
    "\<forall>x \<in> set (reservations db). d_retrieval_session_id x = sid \<and> d_upload_id x = up \<longrightarrow>
       d_status x = ResReserved \<and> d_expires_at x \<le> now"
  shows "CreateRetrievalDownloadReservation rid token tid up rkey sid lifetime now db = (Inl ErrConstraint, db)"
proof -
  have s: "s_id s = sid" using assms(9) sql_first_Some(2)
    by (fastforce simp: ValidRetrievalSession_def split: option.splits)
  obtain s' db1 where use: "use_session s now db = (s', db1)" by (cases "use_session s now db")
  then have s': "s_id s' = sid" and db1: "reservations db1 = reservations db" "uploads db1 = uploads db" "transfers db1 = transfers db"
    using s by (auto simp: use_session_def)
  have "open_session token tid rkey sid now db = Inr (s', False, db1)"
    using assms(8,9) use by (simp add: open_session_def)
  moreover have "live_for sid up now db1 = None"
  proof -
    have "filter (\<lambda>d. d_retrieval_session_id d = sid \<and> d_upload_id d = up \<and>
        (d_status d = ResReserved \<and> d_expires_at d > now \<or> d_status d = ResConsuming)) (reservations db) = []"
      using assms(15) by (auto simp: filter_empty_conv)
    then show ?thesis by (simp add: live_for_def db1)
  qed
  moreover have "insert_reservation x db1 = Inl ErrConstraint"
    if "d_retrieval_session_id x = sid" "d_upload_id x = up" "d_status x = ResReserved" for x
  proof -
    have "\<exists>y \<in> set (reservations db1). d_retrieval_session_id y = sid \<and> d_upload_id y = up \<and> live_reservation y"
      using assms(11-14) db1 by (intro bexI [of _ d]) (simp_all add: live_reservation_def)
    then show ?thesis using that assms(8) by (simp add: insert_reservation_def sql_exists_iff live_reservation_def)
  qed
  ultimately have "reserve_in_session rid s' tid up lifetime now db1 = Inl ErrConstraint"
    using assms(10) s' db1 by (simp add: reserve_in_session_def Let_def)
  then show ?thesis
    using assms \<open>open_session _ _ _ _ _ _ = _\<close> by (auto simp: CreateRetrievalDownloadReservation_def)
qed

theorem expired_reservation_blocks_renewal_witness:
  "CreateRetrievalDownloadReservation ''q'' ''w'' ''t'' ''f'' ''k'' ''s'' 300 310 (session_demo ResReserved)
     = (Inl ErrConstraint, session_demo ResReserved)"
proof -
  let ?db = "session_demo ResReserved"
  have "sql_first (\<lambda>t. t_id t = ''t'') (transfers ?db) = Some (hd (transfers ?db))"
    "310 < t_expires_at (hd (transfers ?db))"
    "t_status (hd (transfers ?db)) = TransferActive \<or> t_status (hd (transfers ?db)) = TransferExhausted"
    "t_download_limit_mode (hd (transfers ?db)) = RetrievalSessionV1" "t_delete_on_exhaustion (hd (transfers ?db))"
    "length ''k'' \<le> 256" "(0::int) < 300" "''s'' \<noteq> ''''"
    "ValidRetrievalSession ''s'' ''t'' 310 ?db = Inr demo_session"
    "sql_count (\<lambda>u. u_id u = ''f'' \<and> u_transfer_id u = ''t'' \<and> u_status u = Ready) (uploads ?db) = 1"
    "demo_reservation ResReserved \<in> set (reservations ?db)"
    "d_retrieval_session_id (demo_reservation ResReserved) = ''s''" "d_upload_id (demo_reservation ResReserved) = ''f''"
    "d_status (demo_reservation ResReserved) = ResReserved"
    "\<forall>x \<in> set (reservations ?db). d_retrieval_session_id x = ''s'' \<and> d_upload_id x = ''f'' \<longrightarrow>
       d_status x = ResReserved \<and> d_expires_at x \<le> 310"
    by code_simp+
  then show ?thesis by (rule expired_reservation_blocks_renewal)
qed

end
