(* ===== verification/Rate_Limits.thy ===== *)
theory Rate_Limits
  imports Control_Schema "HOL-Library.AList"
begin

text \<open>
  Rate limiting: the persistent buckets of commerce_store.go (allowBucketTx, AllowPersistent), the
  in-memory limiter of security.go, and the delivery limits of verification mails in email_store.go.
  The first two meet the same contract, the locale \<open>window_limiter\<close>: inside one window no more than
  \<open>limit\<close> requests are granted, in whatever order they arrive.
\<close>

section \<open>Persistent buckets\<close>

definition bucket_start :: "int \<Rightarrow> unix_time \<Rightarrow> unix_time" where
  "bucket_start seconds now = go_div now seconds * seconds"

definition bucket_row :: "string \<Rightarrow> unix_time \<Rightarrow> rate_limit \<Rightarrow> bool" where
  "bucket_row key start r \<longleftrightarrow> rl_bucket_key r = key \<and> rl_window_start r = start"

definition allowBucketTx ::
  "string \<Rightarrow> int \<Rightarrow> int \<Rightarrow> int \<Rightarrow> int \<Rightarrow> int \<Rightarrow> unix_time \<Rightarrow> cdb \<Rightarrow> (bool \<times> cdb) result" where
  "allowBucketTx key limit seconds countIncrement amountIncrement maxAmount now db =
     (if seconds \<le> 0 then Inl ErrOther
      else let start = bucket_start seconds now;
               (count, amount) = (case sql_first (bucket_row key start) (rate_limits db) of
                   None \<Rightarrow> (0, 0) | Some r \<Rightarrow> (rl_request_count r, rl_amount r))
           in if (limit > 0 \<and> count + countIncrement > limit) \<or>
                 (maxAmount > 0 \<and> amount + amountIncrement > maxAmount)
              then Inr (False, db)
              else Inr (True, db\<lparr>rate_limits :=
                (if sql_exists (bucket_row key start) (rate_limits db)
                 then sql_update (bucket_row key start)
                   (\<lambda>r. r\<lparr>rl_request_count := rl_request_count r + countIncrement,
                          rl_amount := rl_amount r + amountIncrement\<rparr>) (rate_limits db)
                 else rate_limits db @ [\<lparr>rl_bucket_key = key, rl_window_start = start,
                        rl_request_count = countIncrement, rl_amount = amountIncrement\<rparr>])\<rparr>))"

definition AllowPersistent ::
  "string \<Rightarrow> int \<Rightarrow> int \<Rightarrow> int \<Rightarrow> int \<Rightarrow> unix_time \<Rightarrow> bool operation" where
  "AllowPersistent key limit seconds amount maxAmount now db =
     commit db (allowBucketTx key limit seconds 1 amount maxAmount now db)"

section \<open>The in-memory limiter\<close>

text \<open>Times and windows in nanoseconds, as \<^verbatim>\<open>time.Time\<close> and \<^verbatim>\<open>time.Duration\<close> carry them.\<close>

record rate_entry =
  re_started :: int
  re_count :: int

type_synonym rate_limiter = "(string \<times> rate_entry) list"

abbreviation hour_ns :: int where "hour_ns \<equiv> 3600 * 1000000000"

definition RateLimiter_Allow :: "string \<Rightarrow> int \<Rightarrow> int \<Rightarrow> int \<Rightarrow> rate_limiter \<Rightarrow> bool \<times> rate_limiter" where
  "RateLimiter_Allow key limit window now entries =
     (case map_of entries key of
        None \<Rightarrow> (True, AList.update key \<lparr>re_started = now, re_count = 1\<rparr> entries)
      | Some entry \<Rightarrow>
        (if now - re_started entry \<ge> window
         then (True, AList.update key \<lparr>re_started = now, re_count = 1\<rparr> entries)
         else if re_count entry \<ge> limit then (False, entries)
         else let entries' = AList.update key (entry\<lparr>re_count := re_count entry + 1\<rparr>) entries
              in (True, if length entries' > 10000
                        then filter (\<lambda>(k, e). \<not> now - re_started e > hour_ns) entries'
                        else entries')))"

section \<open>Delivery limits of verification mails\<close>

record delivery_limit =
  dl_subject_key :: string
  dl_last_sent_at :: unix_time
  dl_hour_window_start :: unix_time
  dl_hour_count :: int
  dl_day_window_start :: unix_time
  dl_day_count :: int

record verificationDeliveryLimit =
  lim_SubjectKey :: string
  lim_Cooldown :: int
  lim_Hourly :: int
  lim_Daily :: int

definition hour_start :: "unix_time \<Rightarrow> unix_time" where "hour_start now = now div 3600 * 3600"
definition day_start :: "unix_time \<Rightarrow> unix_time" where "day_start now = now div 86400 * 86400"

definition delivery_free :: "verificationDeliveryLimit \<Rightarrow> unix_time \<Rightarrow> delivery_limit \<Rightarrow> bool" where
  "delivery_free l now r \<longleftrightarrow> dl_subject_key r = lim_SubjectKey l \<and> dl_last_sent_at r \<le> now - lim_Cooldown l \<and>
     (dl_hour_window_start r \<noteq> hour_start now \<or> dl_hour_count r < lim_Hourly l) \<and>
     (dl_day_window_start r \<noteq> day_start now \<or> dl_day_count r < lim_Daily l)"

definition count_delivery :: "unix_time \<Rightarrow> delivery_limit \<Rightarrow> delivery_limit" where
  "count_delivery now r = r\<lparr>dl_last_sent_at := now,
     dl_hour_count := (if dl_hour_window_start r = hour_start now then dl_hour_count r + 1 else 1),
     dl_hour_window_start := hour_start now,
     dl_day_count := (if dl_day_window_start r = day_start now then dl_day_count r + 1 else 1),
     dl_day_window_start := day_start now\<rparr>"

fun reserve_deliveries ::
  "verificationDeliveryLimit list \<Rightarrow> unix_time \<Rightarrow> delivery_limit list \<Rightarrow> delivery_limit list result" where
  "reserve_deliveries [] now t = Inr t"
| "reserve_deliveries (l # ls) now t =
     (if sql_count (delivery_free l now) t = 1
      then reserve_deliveries ls now (sql_update (delivery_free l now) (count_delivery now) t)
      else if sql_exists (\<lambda>r. dl_subject_key r = lim_SubjectKey l) t then Inl ErrRateLimited
      else reserve_deliveries ls now (t @
        [\<lparr>dl_subject_key = lim_SubjectKey l, dl_last_sent_at = now,
          dl_hour_window_start = hour_start now, dl_hour_count = 1,
          dl_day_window_start = day_start now, dl_day_count = 1\<rparr>]))"

text \<open>The transaction: a refusal of any limit rolls every counter back.\<close>

definition ReserveVerificationDelivery ::
  "verificationDeliveryLimit list \<Rightarrow> unix_time \<Rightarrow> delivery_limit list \<Rightarrow> unit result \<times> delivery_limit list" where
  "ReserveVerificationDelivery limits now t =
     (case reserve_deliveries limits now t of Inl e \<Rightarrow> (Inl e, t) | Inr t' \<Rightarrow> (Inr (), t'))"

text \<open>The number of requests granted when a limiter is asked at the given times in turn.\<close>

fun grants :: "(int \<Rightarrow> 's \<Rightarrow> bool \<times> 's) \<Rightarrow> int list \<Rightarrow> 's \<Rightarrow> nat \<times> 's" where
  "grants allow [] s = (0, s)"
| "grants allow (now # nows) s =
     (let (ok, s') = allow now s; (n, s'') = grants allow nows s' in (if ok then Suc n else n, s''))"

section \<open>The contract of a window limiter\<close>

locale window_limiter =
  fixes allow :: "int \<Rightarrow> 's \<Rightarrow> bool \<times> 's"
    and used :: "'s \<Rightarrow> int"
    and opened :: "'s \<Rightarrow> bool"
    and within :: "int \<Rightarrow> bool"
    and limit :: int
  assumes granted: "opened s \<Longrightarrow> within now \<Longrightarrow> allow now s = (True, s') \<Longrightarrow>
      opened s' \<and> used s' = used s + 1 \<and> used s' \<le> limit"
    and refused: "opened s \<Longrightarrow> within now \<Longrightarrow> allow now s = (False, s') \<Longrightarrow>
      s' = s \<and> limit \<le> used s"
begin

lemma grants_used:
  assumes "opened s" "\<And>now. now \<in> set nows \<Longrightarrow> within now" "grants allow nows s = (n, s')"
  shows "opened s' \<and> used s' = used s + int n \<and> (0 < n \<longrightarrow> used s' \<le> limit)"
  using assms
proof (induction nows arbitrary: s n)
  case (Cons now nows)
  obtain ok t where a: "allow now s = (ok, t)" by (cases "allow now s")
  obtain k where g: "grants allow nows t = (k, s')" "n = (if ok then Suc k else k)"
    using Cons.prems(3) a by (auto split: prod.splits)
  show ?case
  proof (cases ok)
    case True
    then have t: "opened t \<and> used t = used s + 1 \<and> used t \<le> limit"
      using granted [of s now t] Cons.prems a by simp
    then show ?thesis using Cons.IH [of t k] Cons.prems(2) g True by auto
  next
    case False
    then have "t = s" using refused [of s now t] Cons.prems a by simp
    then show ?thesis using Cons.IH [of t k] Cons.prems(1,2) g False by auto
  qed
qed simp

lemma at_most_limit:
  assumes "opened s" "\<And>now. now \<in> set nows \<Longrightarrow> within now" "0 \<le> used s"
  shows "int (fst (grants allow nows s)) \<le> limit \<or> fst (grants allow nows s) = 0"
  using grants_used [OF assms(1,2), of nows "fst (grants allow nows s)" "snd (grants allow nows s)"] assms(3) by auto

lemma refused_only_when_full:
  "opened s \<Longrightarrow> within now \<Longrightarrow> fst (allow now s) \<longleftrightarrow> used s < limit"
  using granted [of s now "snd (allow now s)"] refused [of s now "snd (allow now s)"]
  by (cases "allow now s"; cases "fst (allow now s)") auto

end

section \<open>Both limiters meet it\<close>

definition bucket_count :: "string \<Rightarrow> unix_time \<Rightarrow> cdb \<Rightarrow> int" where
  "bucket_count key start db =
     (case sql_first (bucket_row key start) (rate_limits db) of None \<Rightarrow> 0 | Some r \<Rightarrow> rl_request_count r)"

definition ask_persistent :: "string \<Rightarrow> int \<Rightarrow> int \<Rightarrow> unix_time \<Rightarrow> cdb \<Rightarrow> bool \<times> cdb" where
  "ask_persistent key limit seconds now db =
     (case AllowPersistent key limit seconds 0 0 now db of (r, db') \<Rightarrow> (r = Inr True, db'))"

lemma sql_first_append: "sql_first p (t @ u) = (case sql_first p t of None \<Rightarrow> sql_first p u | Some r \<Rightarrow> Some r)"
  by (induction t) auto

lemma sql_first_update_same:
  "(\<And>r. p (f r) = p r) \<Longrightarrow> sql_first p (sql_update p f t) = map_option f (sql_first p t)"
  by (induction t) auto

definition counted_bucket :: "string \<Rightarrow> unix_time \<Rightarrow> rate_limit list \<Rightarrow> rate_limit list" where
  "counted_bucket key start t =
     (if sql_exists (bucket_row key start) t
      then sql_update (bucket_row key start)
        (\<lambda>r. r\<lparr>rl_request_count := rl_request_count r + 1, rl_amount := rl_amount r + 0\<rparr>) t
      else t @ [\<lparr>rl_bucket_key = key, rl_window_start = start, rl_request_count = 1, rl_amount = 0\<rparr>])"

lemma ask_persistent_eq:
  assumes "0 < limit" "0 < seconds" "start = bucket_start seconds now"
  shows "ask_persistent key limit seconds now db =
    (if bucket_count key start db + 1 > limit then (False, db)
     else (True, db\<lparr>rate_limits := counted_bucket key start (rate_limits db)\<rparr>))"
  unfolding ask_persistent_def AllowPersistent_def allowBucketTx_def counted_bucket_def bucket_count_def
  using assms by (cases "sql_first (bucket_row key start) (rate_limits db)") simp_all

lemma counted_bucket_count:
  "bucket_count key start (db\<lparr>rate_limits := counted_bucket key start (rate_limits db)\<rparr>) = bucket_count key start db + 1"
proof (cases "sql_first (bucket_row key start) (rate_limits db)")
  case None
  then have "\<not> sql_exists (bucket_row key start) (rate_limits db)" by (simp add: sql_first_None sql_exists_iff)
  then show ?thesis using None
    by (simp add: counted_bucket_def bucket_count_def sql_first_append bucket_row_def)
next
  case (Some r)
  let ?row = "bucket_row key start"
  let ?f = "\<lambda>r::rate_limit. r\<lparr>rl_request_count := rl_request_count r + 1, rl_amount := rl_amount r + 0\<rparr>"
  have ex: "sql_exists ?row (rate_limits db)" using sql_firstD [OF Some] by (auto simp: sql_exists_iff)
  have "?row (?f x) = ?row x" for x by (simp add: bucket_row_def)
  then have "sql_first ?row (sql_update ?row ?f (rate_limits db)) = Some (?f r)"
    using Some by (simp only: sql_first_update_same option.map)
  then show ?thesis using Some ex by (simp add: counted_bucket_def bucket_count_def)
qed

interpretation persistent: window_limiter "ask_persistent key (int (Suc n)) (int (Suc k))"
  "bucket_count key start" "\<lambda>_. True" "\<lambda>now. bucket_start (int (Suc k)) now = start" "int (Suc n)"
proof unfold_locales
  fix s s' :: cdb and now
  assume w: "bucket_start (int (Suc k)) now = start"
  have eq: "ask_persistent key (int (Suc n)) (int (Suc k)) now s =
    (if bucket_count key start s + 1 > int (Suc n) then (False, s)
     else (True, s\<lparr>rate_limits := counted_bucket key start (rate_limits s)\<rparr>))"
    using w by (intro ask_persistent_eq) simp_all
  show "True \<and> bucket_count key start s' = bucket_count key start s + 1 \<and> bucket_count key start s' \<le> int (Suc n)"
    if "ask_persistent key (int (Suc n)) (int (Suc k)) now s = (True, s')"
    using that counted_bucket_count [of key start s] unfolding eq by (auto split: if_splits)
  show "s' = s \<and> int (Suc n) \<le> bucket_count key start s"
    if "ask_persistent key (int (Suc n)) (int (Suc k)) now s = (False, s')"
    using that unfolding eq by (auto split: if_splits)
qed

definition entry_open :: "string \<Rightarrow> int \<Rightarrow> rate_limiter \<Rightarrow> bool" where
  "entry_open key t0 entries \<longleftrightarrow> distinct (map fst entries) \<and>
     (\<exists>e. map_of entries key = Some e \<and> re_started e = t0)"

definition entry_count :: "string \<Rightarrow> rate_limiter \<Rightarrow> int" where
  "entry_count key entries = (case map_of entries key of None \<Rightarrow> 0 | Some e \<Rightarrow> re_count e)"

lemma map_of_filter_keep:
  assumes "distinct (map fst xs)" "map_of xs k = Some v" "P (k, v)"
  shows "map_of (filter P xs) k = Some v"
proof -
  have "(k, v) \<in> set (filter P xs)" using map_of_SomeD [OF assms(2)] assms(3) by simp
  moreover have "distinct (map fst (filter P xs))" using assms(1) by (rule distinct_map_filter)
  ultimately show ?thesis by simp
qed

lemma memory_allow:
  assumes op: "entry_open key t0 entries" and w: "now - t0 < window" "window \<le> hour_ns"
  shows "RateLimiter_Allow key limit window now entries = (True, entries') \<Longrightarrow>
      entry_open key t0 entries' \<and> entry_count key entries' = entry_count key entries + 1 \<and> entry_count key entries' \<le> limit"
    and "RateLimiter_Allow key limit window now entries = (False, entries') \<Longrightarrow>
      entries' = entries \<and> limit \<le> entry_count key entries"
proof -
  obtain e where e: "map_of entries key = Some e" "re_started e = t0" and dist: "distinct (map fst entries)"
    using op by (auto simp: entry_open_def)
  let ?e = "e\<lparr>re_count := re_count e + 1\<rparr>"
  let ?up = "AList.update key ?e entries"
  have up: "distinct (map fst ?up)" "map_of ?up key = Some ?e"
    using dist by (simp_all add: distinct_update update_conv')
  have keep: "map_of (filter (\<lambda>(k, e). \<not> now - re_started e > hour_ns) ?up) key = Some ?e"
    using up w e(2) by (intro map_of_filter_keep) auto
  have dk: "distinct (map fst (filter (\<lambda>(k, e). \<not> now - re_started e > hour_ns) ?up))"
    using up(1) by (rule distinct_map_filter)
  show "entry_open key t0 entries' \<and> entry_count key entries' = entry_count key entries + 1 \<and> entry_count key entries' \<le> limit"
    if "RateLimiter_Allow key limit window now entries = (True, entries')"
  proof -
    have "entries' = ?up \<or> entries' = filter (\<lambda>(k, e). \<not> now - re_started e > hour_ns) ?up" "re_count e + 1 \<le> limit"
      using that e w by (auto simp: RateLimiter_Allow_def Let_def split: if_splits)
    then have "map_of entries' key = Some ?e" "distinct (map fst entries')" "re_count e + 1 \<le> limit"
      using up keep dk by blast+
    then show ?thesis unfolding entry_open_def entry_count_def e(1) using e(2) by (auto simp del: map_of_eq_Some_iff)
  qed
  show "entries' = entries \<and> limit \<le> entry_count key entries"
    if "RateLimiter_Allow key limit window now entries = (False, entries')"
    using that e w by (auto simp: RateLimiter_Allow_def Let_def entry_count_def split: if_splits)
qed

interpretation memory: window_limiter "RateLimiter_Allow key limit (min window hour_ns)"
  "entry_count key" "entry_open key t0" "\<lambda>now. now - t0 < min window hour_ns" limit
proof unfold_locales
  fix s s' :: rate_limiter and now
  assume "entry_open key t0 s" "now - t0 < min window hour_ns"
  note m = memory_allow [OF this, of limit s']
  show "RateLimiter_Allow key limit (min window hour_ns) now s = (True, s') \<Longrightarrow>
      entry_open key t0 s' \<and> entry_count key s' = entry_count key s + 1 \<and> entry_count key s' \<le> limit"
    using m(1) by simp
  show "RateLimiter_Allow key limit (min window hour_ns) now s = (False, s') \<Longrightarrow>
      s' = s \<and> limit \<le> entry_count key s"
    using m(2) by simp
qed

section \<open>Delivery limits\<close>

lemma delivery_free_count:
  assumes "keyed dl_subject_key t"
  shows "sql_count (delivery_free l now) t = 1 \<longleftrightarrow> (\<exists>r \<in> set t. delivery_free l now r)"
  using keyed_count_1 [OF assms, of "lim_SubjectKey l" "delivery_free l now"]
    sql_count_cong [of t "\<lambda>r. dl_subject_key r = lim_SubjectKey l \<and> delivery_free l now r" "delivery_free l now"]
  by (auto simp: delivery_free_def)

lemma count_delivery_key [simp]: "dl_subject_key (count_delivery now r) = dl_subject_key r"
  by (simp add: count_delivery_def)

lemma reserve_deliveries_other:
  assumes "reserve_deliveries ls now t = Inr t'" "r \<in> set t" "dl_subject_key r \<notin> lim_SubjectKey ` set ls"
  shows "r \<in> set t'"
  using assms
proof (induction ls now t rule: reserve_deliveries.induct)
  case (2 l ls now t)
  have "r \<in> set (sql_update (delivery_free l now) (count_delivery now) t)"
    using "2.prems" by (intro sql_update_keep) (auto simp: delivery_free_def)
  then show ?case using 2 by (auto split: if_splits)
qed simp

lemma reserve_deliveries_free:
  assumes "reserve_deliveries ls now t = Inr t'" "keyed dl_subject_key t" "distinct (map lim_SubjectKey ls)"
    "l \<in> set ls" "r \<in> set t" "dl_subject_key r = lim_SubjectKey l"
  shows "delivery_free l now r \<and> count_delivery now r \<in> set t'"
  using assms
proof (induction ls now t rule: reserve_deliveries.induct)
  case (2 x ls now t)
  let ?t = "sql_update (delivery_free x now) (count_delivery now) t"
  have ex: "sql_exists (\<lambda>r. dl_subject_key r = lim_SubjectKey l) t" using "2.prems" by (auto simp: sql_exists_iff)
  show ?case
  proof (cases "x = l")
    case True
    then have one: "sql_count (delivery_free x now) t = 1" and rest: "reserve_deliveries ls now ?t = Inr t'"
      using "2.prems"(1) ex by (auto split: if_splits)
    obtain y where "y \<in> set t" "delivery_free l now y" using one delivery_free_count [OF "2.prems"(2)] True by auto
    moreover from this have "y = r"
      using keyed_unique [OF "2.prems"(2)] "2.prems"(5,6) by (auto simp: delivery_free_def)
    ultimately have free: "delivery_free l now r" by simp
    then have "count_delivery now r \<in> set ?t"
      using sql_update_mem [OF "2.prems"(5), of "delivery_free x now" "count_delivery now"] True by simp
    then have "count_delivery now r \<in> set t'"
      using reserve_deliveries_other [OF rest] "2.prems"(3,6) True by simp
    then show ?thesis using free by simp
  next
    case False
    have ne: "lim_SubjectKey x \<noteq> lim_SubjectKey l" and l: "l \<in> set ls"
      using False "2.prems"(3,4) by (auto simp: image_iff)
    have k: "keyed dl_subject_key ?t" using "2.prems"(2) by (simp add: keyed_update)
    have r: "r \<in> set ?t" using "2.prems"(5,6) ne by (intro sql_update_keep) (auto simp: delivery_free_def)
    show ?thesis
    proof (cases "sql_count (delivery_free x now) t = 1")
      case True
      then show ?thesis using "2.IH"(1) [OF True _ k _ l r "2.prems"(6)] "2.prems"(1,3) by simp
    next
      case f: False
      then have no: "\<not> sql_exists (\<lambda>r. dl_subject_key r = lim_SubjectKey x) t" using "2.prems"(1) by (auto split: if_splits)
      let ?n = "\<lparr>dl_subject_key = lim_SubjectKey x, dl_last_sent_at = now, dl_hour_window_start = hour_start now,
        dl_hour_count = 1, dl_day_window_start = day_start now, dl_day_count = 1\<rparr>"
      have "keyed dl_subject_key (t @ [?n])" using no "2.prems"(2) by (auto simp: keyed_append sql_exists_iff)
      then show ?thesis using "2.IH"(2) [OF f no] "2.prems" l f no by simp
    qed
  qed
qed simp

section \<open>Properties\<close>

text \<open>C8. A persistent bucket grants at most its limit of requests in one window, however many arrive,
  and refuses only when the limit is used up.\<close>

theorem persistent_window_bound:
  assumes "\<forall>now \<in> set nows. bucket_start (int (Suc k)) now = start" "0 \<le> bucket_count key start db"
  shows "int (fst (grants (ask_persistent key (int (Suc n)) (int (Suc k))) nows db)) \<le> int (Suc n) \<and>
    (\<forall>now. bucket_start (int (Suc k)) now = start \<longrightarrow>
       (fst (ask_persistent key (int (Suc n)) (int (Suc k)) now db) \<longleftrightarrow> bucket_count key start db < int (Suc n)))"
proof -
  have "int (fst (grants (ask_persistent key (int (Suc n)) (int (Suc k))) nows db)) \<le> int (Suc n)"
    using persistent.at_most_limit [where s = db and nows = nows and k = k and start = start and key = key and n = n]
      assms by fastforce
  then show ?thesis
    using persistent.refused_only_when_full [where s = db and k = k and start = start and key = key and n = n] by blast
qed

theorem persistent_window_bound_witness:
  "int (fst (grants (ask_persistent ''login'' 2 60) [0, 10, 20, 59] empty_cdb)) \<le> 2 \<and>
   fst (ask_persistent ''login'' 2 60 59 empty_cdb)"
proof -
  have "\<forall>now \<in> set [0, 10, 20, 59]. bucket_start (int (Suc 59)) now = 0" "0 \<le> bucket_count ''login'' 0 empty_cdb"
    "bucket_start (int (Suc 59)) 59 = 0" "bucket_count ''login'' 0 empty_cdb < int (Suc 1)"
    by code_simp+
  then show ?thesis using persistent_window_bound [of "[0, 10, 20, 59]" 59 0 "''login''" empty_cdb 1] by simp
qed

text \<open>The in-memory limiter grants at most its limit inside a window that is open, for windows up to
  an hour: the sweep that bounds its memory never drops an entry that still counts.\<close>

theorem memory_window_bound:
  assumes "entry_open key t0 entries" "0 \<le> entry_count key entries" "0 \<le> limit"
    "\<forall>now \<in> set nows. now - t0 < min window hour_ns"
  shows "int (fst (grants (RateLimiter_Allow key limit (min window hour_ns)) nows entries)) \<le> limit"
  using memory.at_most_limit [where s = entries and nows = nows and key = key and ?t0.0 = t0 and window = window and limit = limit]
    assms by fastforce

theorem memory_window_bound_witness:
  "int (fst (grants (RateLimiter_Allow ''ip'' 3 (min 60 hour_ns)) [1, 2, 3, 4, 59]
      [(''ip'', \<lparr>re_started = 0, re_count = 1\<rparr>)])) \<le> 3"
proof -
  have "entry_open ''ip'' 0 [(''ip'', \<lparr>re_started = 0, re_count = 1\<rparr>)]" by (simp add: entry_open_def)
  moreover have "0 \<le> entry_count ''ip'' [(''ip'', \<lparr>re_started = 0, re_count = 1\<rparr>)]"
    "\<forall>now \<in> set [1, 2, 3, 4, 59]. now - 0 < min 60 hour_ns" by code_simp+
  ultimately show ?thesis
    using memory_window_bound [of "''ip''" 0 "[(''ip'', \<lparr>re_started = 0, re_count = 1\<rparr>)]" 3 "[1, 2, 3, 4, 59]" 60] by simp
qed

text \<open>A verification mail goes out only when every subject it counts against is free: the cooldown
  since the last mail has passed and its hourly and daily counts are below their limits; each is then
  counted. A refusal by any one of them leaves every counter as it was.\<close>

theorem delivery_limits_hold:
  assumes "keyed dl_subject_key t" "distinct (map lim_SubjectKey limits)" "l \<in> set limits"
    "r \<in> set t" "dl_subject_key r = lim_SubjectKey l"
  shows "(fst (ReserveVerificationDelivery limits now t) = Inr () \<longrightarrow>
      dl_last_sent_at r + lim_Cooldown l \<le> now \<and>
      (dl_hour_window_start r = hour_start now \<longrightarrow> dl_hour_count r < lim_Hourly l) \<and>
      (dl_day_window_start r = day_start now \<longrightarrow> dl_day_count r < lim_Daily l) \<and>
      count_delivery now r \<in> set (snd (ReserveVerificationDelivery limits now t))) \<and>
    (fst (ReserveVerificationDelivery limits now t) \<noteq> Inr () \<longrightarrow>
      snd (ReserveVerificationDelivery limits now t) = t)"
proof (cases "reserve_deliveries limits now t")
  case (Inr t')
  then show ?thesis using reserve_deliveries_free [OF Inr assms]
    by (auto simp: ReserveVerificationDelivery_def delivery_free_def)
qed (simp add: ReserveVerificationDelivery_def)

theorem delivery_limits_hold_witness:
  "let t = [\<lparr>dl_subject_key = ''m'', dl_last_sent_at = 100, dl_hour_window_start = 0, dl_hour_count = 1,
             dl_day_window_start = 0, dl_day_count = 1\<rparr>];
       ls = [\<lparr>lim_SubjectKey = ''m'', lim_Cooldown = 60, lim_Hourly = 5, lim_Daily = 10\<rparr>]
   in fst (ReserveVerificationDelivery ls 160 t) = Inr () \<and>
      count_delivery 160 (hd t) \<in> set (snd (ReserveVerificationDelivery ls 160 t)) \<and>
      snd (ReserveVerificationDelivery ls 159 t) = t"
proof -
  define t where "t = [\<lparr>dl_subject_key = ''m'', dl_last_sent_at = 100, dl_hour_window_start = 0, dl_hour_count = 1,
             dl_day_window_start = 0, dl_day_count = 1\<rparr>]"
  define ls where "ls = [\<lparr>lim_SubjectKey = ''m'', lim_Cooldown = 60, lim_Hourly = 5, lim_Daily = 10\<rparr>]"
  have h: "keyed dl_subject_key t" "distinct (map lim_SubjectKey ls)" "hd ls \<in> set ls" "hd t \<in> set t"
    "dl_subject_key (hd t) = lim_SubjectKey (hd ls)" unfolding t_def ls_def by code_simp+
  have "fst (ReserveVerificationDelivery ls 160 t) = Inr ()" "fst (ReserveVerificationDelivery ls 159 t) \<noteq> Inr ()"
    unfolding t_def ls_def by code_simp+
  then show ?thesis
    using delivery_limits_hold [OF h, of 160] delivery_limits_hold [OF h, of 159]
    unfolding t_def [symmetric] ls_def [symmetric] Let_def by simp
qed

end
