(* ===== verification/Transfers.thy ===== *)
theory Transfers
  imports Traffic_Settle Downloads Rate_Limits
begin

text \<open>
  Transfers and uploads (store.go, the upload part of commerce_store.go, remote_store.go) and the
  background worker (worker.go). The hash of a management token, the malware scanner and the file
  operations of the worker are parameters.
\<close>

section \<open>Transfers\<close>

definition CreateTransfer :: "transfer \<Rightarrow> download_limit_mode option \<Rightarrow> unit operation" where
  "CreateTransfer tr mode db =
     (let row = tr\<lparr>t_downloads := 0, t_total_bytes := 0, t_file_count := 0,
                   t_download_limit_mode := (case mode of None \<Rightarrow> LegacyFile | Some md \<Rightarrow> md)\<rparr>
      in if sql_exists (\<lambda>t. t_share_token t = t_share_token tr \<or> t_pickup_code t = t_pickup_code tr) (transfers db)
         then (Inl ErrConstraint, db)
         else case sql_insert t_id row (transfers db) of
                Inl e \<Rightarrow> (Inl e, db) | Inr ts \<Rightarrow> (Inr (), db\<lparr>transfers := ts\<rparr>))"

definition transferBy :: "(transfer \<Rightarrow> string) \<Rightarrow> string \<Rightarrow> cdb \<Rightarrow> transfer result" where
  "transferBy field v db =
     (case sql_first (\<lambda>t. field t = v) (transfers db) of None \<Rightarrow> Inl ErrNotFound | Some t \<Rightarrow> Inr t)"

definition TransferByID :: "ident \<Rightarrow> cdb \<Rightarrow> transfer result" where
  "TransferByID = transferBy t_id"
definition TransferByShare :: "string \<Rightarrow> cdb \<Rightarrow> transfer result" where
  "TransferByShare = transferBy t_share_token"
definition TransferByPickup :: "string \<Rightarrow> cdb \<Rightarrow> transfer result" where
  "TransferByPickup = transferBy t_pickup_code"

definition PublishTransfer :: "ident \<Rightarrow> string \<Rightarrow> string \<Rightarrow> unit operation" where
  "PublishTransfer tid pendingCode pickupCode db =
     (let hit = (\<lambda>t. t_id t = tid \<and> t_pickup_code t = pendingCode \<and> t_status t = TransferActive)
      in if sql_exists hit (transfers db) \<and>
            sql_exists (\<lambda>t. \<not> hit t \<and> t_pickup_code t = pickupCode) (transfers db)
         then (Inl ErrConstraint, db)
         else if sql_count hit (transfers db) \<noteq> 1 then (Inl ErrConflict, db)
         else (Inr (), db\<lparr>transfers := sql_update hit (\<lambda>t. t\<lparr>t_pickup_code := pickupCode\<rparr>) (transfers db)\<rparr>))"

definition IncrementDownload :: "ident \<Rightarrow> unit operation" where
  "IncrementDownload tid db =
     (let hit = (\<lambda>t. t_id t = tid \<and> t_status t = TransferActive \<and> t_downloads t < t_max_downloads t)
      in if sql_count hit (transfers db) \<noteq> 1 then (Inl ErrQuotaExceeded, db)
         else (Inr (), db\<lparr>transfers := sql_update hit (\<lambda>t. t\<lparr>t_downloads := t_downloads t + 1\<rparr>) (transfers db)\<rparr>))"

definition RevokeTransfer :: "ident \<Rightarrow> unit operation" where
  "RevokeTransfer tid db =
     (Inr (), db\<lparr>transfers := sql_update (\<lambda>t. t_id t = tid \<and> t_status t = TransferActive)
        (\<lambda>t. t\<lparr>t_status := TransferRevoked\<rparr>) (transfers db)\<rparr>)"

definition ClaimTransfer :: "(string \<Rightarrow> string) \<Rightarrow> string \<Rightarrow> string \<Rightarrow> ident \<Rightarrow> unit operation" where
  "ClaimTransfer tokenHash shareToken manageToken userID db =
     (case sql_first (\<lambda>t. t_share_token t = shareToken) (transfers db) of
        None \<Rightarrow> (Inl ErrUnauthorized, db)
      | Some t \<Rightarrow>
        (if tokenHash manageToken \<noteq> t_manage_hash t then (Inl ErrUnauthorized, db)
         else if t_owner_type t = ''user''
         then (if t_owner_id t = userID then (Inr (), db) else (Inl ErrConflict, db))
         else let hit = (\<lambda>x. t_id x = t_id t \<and> t_owner_type x \<noteq> ''user'')
              in if sql_count hit (transfers db) \<noteq> 1 then (Inl ErrConflict, db)
                 else (Inr (), db\<lparr>transfers := sql_update hit
                   (\<lambda>x. x\<lparr>t_owner_type := ''user'', t_owner_id := userID\<rparr>) (transfers db)\<rparr>)))"

section \<open>Uploads\<close>

definition IsLocalStorage :: "upload \<Rightarrow> bool" where
  "IsLocalStorage u \<longleftrightarrow> u_storage_kind u = '''' \<or> u_storage_kind u = StorageKindLocal"

definition IsNodeStorage :: "upload \<Rightarrow> bool" where
  "IsNodeStorage u \<longleftrightarrow> u_storage_kind u = StorageKindNode"

definition normalizeUploadPlacement :: "upload \<Rightarrow> upload result" where
  "normalizeUploadPlacement u0 =
     (let u1 = (if u_storage_kind u0 = '''' then u0\<lparr>u_storage_kind := StorageKindLocal\<rparr> else u0);
          u = (if u_storage_version u1 = 0 then u1\<lparr>u_storage_version := StoragePlacementVersionV1\<rparr> else u1)
      in if u_storage_version u < StoragePlacementVersionV1 then Inl ErrConflict
         else if u_storage_kind u = StorageKindLocal
         then (if u_storage_node_id u \<noteq> '''' \<or> u_storage_key u \<noteq> '''' then Inl ErrConflict else Inr u)
         else if u_storage_kind u = StorageKindNode
         then (if u_storage_node_id u = '''' \<or> u_storage_key u = '''' \<or> u_temp_path u \<noteq> '''' \<or>
                  u_object_path u \<noteq> '''' then Inl ErrConflict else Inr u)
         else Inl ErrConflict)"

text \<open>The row both creating functions insert: a fresh upload with no byte received.\<close>

definition fresh_upload :: "upload \<Rightarrow> upload" where
  "fresh_upload u = u\<lparr>u_offset := 0, u_status := Uploading, u_object_path := '''', u_sha256 := '''',
     u_scan_detail := '''', u_completed_at := 0, u_storage_released := False\<rparr>"

definition count_upload :: "upload \<Rightarrow> cdb \<Rightarrow> cdb" where
  "count_upload u db = db\<lparr>transfers := sql_update (\<lambda>t. t_id t = u_transfer_id u)
     (\<lambda>t. t\<lparr>t_file_count := t_file_count t + 1, t_total_bytes := t_total_bytes t + u_length u\<rparr>) (transfers db)\<rparr>"

definition CreateUpload :: "upload \<Rightarrow> int \<Rightarrow> int \<Rightarrow> unix_time \<Rightarrow> unit operation" where
  "CreateUpload u0 maxFiles maxBytes now db =
     (case normalizeUploadPlacement u0 of
        Inl e \<Rightarrow> (Inl e, db)
      | Inr u \<Rightarrow>
        (case sql_first (\<lambda>t. t_id t = u_transfer_id u) (transfers db) of
           None \<Rightarrow> (Inl ErrNotFound, db)
         | Some t \<Rightarrow>
           (if t_status t \<noteq> TransferActive \<or> t_expires_at t \<le> now then (Inl ErrConflict, db)
            else if t_file_count t + 1 > maxFiles \<or> t_total_bytes t + u_length u > maxBytes
            then (Inl ErrQuotaExceeded, db)
            else case sql_insert u_id (fresh_upload u) (uploads db) of
                   Inl e \<Rightarrow> (Inl e, db)
                 | Inr us \<Rightarrow> (Inr (), count_upload u (db\<lparr>uploads := us\<rparr>)))))"

text \<open>The exact-retry test of CreateUploadWithQuota.\<close>

definition same_upload :: "upload \<Rightarrow> upload \<Rightarrow> bool" where
  "same_upload x u \<longleftrightarrow> u_status x \<noteq> Deleted \<and> u_transfer_id x = u_transfer_id u \<and>
     u_upload_hash x = u_upload_hash u \<and> u_original_name x = u_original_name u \<and>
     u_content_type x = u_content_type u \<and> u_length x = u_length u \<and>
     u_storage_kind x = u_storage_kind u \<and> u_storage_node_id x = u_storage_node_id u \<and>
     u_storage_key x = u_storage_key u \<and> u_storage_version x = u_storage_version u"

text \<open>The guest's daily bytes.\<close>

definition guest_allowance :: "transfer \<Rightarrow> upload \<Rightarrow> int \<Rightarrow> unix_time \<Rightarrow> cdb \<Rightarrow> cdb result" where
  "guest_allowance t u guestDailyBytes now db =
     (if t_owner_type t = ''guest'' \<and> t_owner_id t \<noteq> '''' \<and> guestDailyBytes > 0
      then (case allowBucketTx (''guest-bytes:'' @ t_owner_id t) 0 (24 * 3600) 0 (u_length u)
                   guestDailyBytes now db of
              Inl e \<Rightarrow> Inl e
            | Inr (allowed, db') \<Rightarrow> if allowed then Inr db' else Inl ErrRateLimited)
      else Inr db)"

definition user_charge :: "transfer \<Rightarrow> upload \<Rightarrow> int \<Rightarrow> unix_time \<Rightarrow> cdb \<Rightarrow> cdb result" where
  "user_charge t u monthlyTraffic now db =
     (if t_owner_type t = ''user'' \<and> t_owner_id t \<noteq> ''''
      then reserveUploadTrafficTx (u_id u) (t_owner_id t) (u_length u) monthlyTraffic now db
      else Inr db)"

definition insert_charged_upload ::
  "transfer \<Rightarrow> upload \<Rightarrow> int \<Rightarrow> int \<Rightarrow> int \<Rightarrow> int \<Rightarrow> unix_time \<Rightarrow> cdb \<Rightarrow> cdb result" where
  "insert_charged_upload t u maxFiles maxBytes monthlyTraffic guestDailyBytes now db =
     (if t_status t \<noteq> TransferActive \<or> t_expires_at t \<le> now then Inl ErrConflict
      else if t_file_count t + 1 > maxFiles \<or> t_total_bytes t + u_length u > maxBytes
      then Inl ErrQuotaExceeded
      else case guest_allowance t u guestDailyBytes now db of
        Inl e \<Rightarrow> Inl e
      | Inr db1 \<Rightarrow>
        (case sql_insert u_id (fresh_upload u) (uploads db1) of
           Inl e \<Rightarrow> Inl e
         | Inr us \<Rightarrow>
           (case user_charge t u monthlyTraffic now (db1\<lparr>uploads := us\<rparr>) of
              Inl e \<Rightarrow> Inl e
            | Inr db2 \<Rightarrow> Inr (count_upload u db2))))"

text \<open>The upgrade of old download reservations, which the first call runs, is
  \<^const>\<open>upgradeLegacyDownloadReservations\<close>.\<close>

definition CreateUploadWithQuota ::
  "upload \<Rightarrow> int \<Rightarrow> int \<Rightarrow> int \<Rightarrow> int \<Rightarrow> unix_time \<Rightarrow> unit operation" where
  "CreateUploadWithQuota u0 maxFiles maxBytes monthlyTraffic guestDailyBytes now db =
     (case normalizeUploadPlacement u0 of
        Inl e \<Rightarrow> (Inl e, db)
      | Inr u \<Rightarrow>
        (if u_length u \<le> 0 then (Inl ErrConflict, db)
         else if sql_count (\<lambda>t. t_id t = u_transfer_id u) (transfers db) \<noteq> 1 then (Inl ErrNotFound, db)
         else case sql_first (\<lambda>x. u_id x = u_id u) (uploads db) of
           Some x \<Rightarrow> if same_upload x u then (Inr (), db) else (Inl ErrConflict, db)
         | None \<Rightarrow>
           (case sql_first (\<lambda>t. t_id t = u_transfer_id u) (transfers db) of
              None \<Rightarrow> (Inl ErrNotFound, db)
            | Some t \<Rightarrow>
              (case insert_charged_upload t u maxFiles maxBytes monthlyTraffic guestDailyBytes now db of
                 Inl e \<Rightarrow> (Inl e, db)
               | Inr db' \<Rightarrow> (Inr (), db')))))"

definition UploadByID :: "ident \<Rightarrow> cdb \<Rightarrow> upload result" where
  "UploadByID i db = (case sql_first (\<lambda>u. u_id u = i) (uploads db) of None \<Rightarrow> Inl ErrNotFound | Some u \<Rightarrow> Inr u)"

definition UpdateUploadOffset :: "ident \<Rightarrow> int \<Rightarrow> int \<Rightarrow> unit operation" where
  "UpdateUploadOffset i expected nxt db =
     (let hit = (\<lambda>u. u_id u = i \<and> u_offset u = expected \<and> u_status u = Uploading \<and>
                     u_storage_kind u = StorageKindLocal)
      in if sql_count hit (uploads db) \<noteq> 1 then (Inl ErrConflict, db)
         else (Inr (), db\<lparr>uploads := sql_update hit (\<lambda>u. u\<lparr>u_offset := nxt\<rparr>) (uploads db)\<rparr>))"

definition MarkUploaded :: "ident \<Rightarrow> string \<Rightarrow> unix_time \<Rightarrow> unit operation" where
  "MarkUploaded i quarantinePath now db =
     (let hit = (\<lambda>u. u_id u = i \<and> u_status u = Uploading \<and> u_offset u = u_length u \<and>
                     u_storage_kind u = StorageKindLocal)
      in if sql_count hit (uploads db) \<noteq> 1 then (Inl ErrConflict, db)
         else case settleUploadTrafficTx i now
                     (db\<lparr>uploads := sql_update hit
                        (\<lambda>u. u\<lparr>u_status := Uploaded, u_temp_path := quarantinePath\<rparr>) (uploads db)\<rparr>) of
                Inl e \<Rightarrow> (Inl e, db)
              | Inr db' \<Rightarrow> (Inr (), db'))"

text \<open>ClaimUploads: the oldest uploaded files, each claimed on its own.\<close>

fun claim_uploads :: "upload list \<Rightarrow> cdb \<Rightarrow> upload list \<times> cdb" where
  "claim_uploads [] db = ([], db)"
| "claim_uploads (u # us) db =
     (let hit = (\<lambda>x. u_id x = u_id u \<and> u_status x = Uploaded \<and> u_storage_kind x = StorageKindLocal);
          db1 = db\<lparr>uploads := sql_update hit (\<lambda>x. x\<lparr>u_status := Scanning\<rparr>) (uploads db)\<rparr>;
          (rest, db2) = claim_uploads us db1
      in (if sql_count hit (uploads db) = 1 then u\<lparr>u_status := Scanning\<rparr> # rest else rest, db2))"

definition ClaimUploads :: "nat \<Rightarrow> cdb \<Rightarrow> upload list \<times> cdb" where
  "ClaimUploads limit db =
     claim_uploads (take limit (sort_key u_created_at
       (filter (\<lambda>u. u_status u = Uploaded \<and> u_storage_kind u = StorageKindLocal) (uploads db)))) db"

definition MarkReady :: "ident \<Rightarrow> string \<Rightarrow> string \<Rightarrow> string \<Rightarrow> unix_time \<Rightarrow> unit operation" where
  "MarkReady i objectPath sha detail now db =
     (Inr (), db\<lparr>uploads := sql_update
        (\<lambda>u. u_id u = i \<and> u_status u = Scanning \<and> u_storage_kind u = StorageKindLocal)
        (\<lambda>u. u\<lparr>u_status := Ready, u_object_path := objectPath, u_sha256 := sha, u_scan_detail := detail,
               u_completed_at := now\<rparr>) (uploads db)\<rparr>)"

definition releaseUploadStorageTx :: "ident \<Rightarrow> unix_time \<Rightarrow> cdb \<Rightarrow> cdb result" where
  "releaseUploadStorageTx i now db =
     (case sql_first (\<lambda>u. u_id u = i) (uploads db) of
        None \<Rightarrow> Inl ErrNotFound
      | Some u \<Rightarrow>
        (case refundUploadTrafficTx i now db of
           Inl e \<Rightarrow> Inl e
         | Inr db1 \<Rightarrow>
           (if u_storage_released u then Inr db1
            else Inr (db1\<lparr>uploads := sql_update (\<lambda>u. u_id u = i)
                   (\<lambda>u. u\<lparr>u_storage_released := True\<rparr>) (uploads db1)\<rparr>))))"

definition ReleaseUploadStorage :: "ident \<Rightarrow> unix_time \<Rightarrow> unit operation" where
  "ReleaseUploadStorage i now db =
     (case releaseUploadStorageTx i now db of Inl e \<Rightarrow> (Inl e, db) | Inr db' \<Rightarrow> (Inr (), db'))"

definition MarkBlocked :: "ident \<Rightarrow> string \<Rightarrow> string \<Rightarrow> unix_time \<Rightarrow> unit operation" where
  "MarkBlocked i sha detail now db =
     (case releaseUploadStorageTx i now (db\<lparr>uploads := sql_update
             (\<lambda>u. u_id u = i \<and> u_storage_kind u = StorageKindLocal)
             (\<lambda>u. u\<lparr>u_status := Blocked, u_sha256 := sha, u_scan_detail := detail, u_temp_path := '''',
                    u_completed_at := now\<rparr>) (uploads db)\<rparr>) of
        Inl e \<Rightarrow> (Inl e, db) | Inr db' \<Rightarrow> (Inr (), db'))"

definition MarkQuarantined :: "ident \<Rightarrow> string \<Rightarrow> string \<Rightarrow> unix_time \<Rightarrow> unit operation" where
  "MarkQuarantined i sha detail now db =
     (Inr (), db\<lparr>uploads := sql_update (\<lambda>u. u_id u = i \<and> u_storage_kind u = StorageKindLocal)
        (\<lambda>u. u\<lparr>u_status := Quarantined, u_sha256 := sha, u_scan_detail := detail, u_completed_at := now\<rparr>)
        (uploads db)\<rparr>)"

definition UploadsForTransfer :: "ident \<Rightarrow> bool \<Rightarrow> cdb \<Rightarrow> upload list" where
  "UploadsForTransfer tid readyOnly db =
     sort_key (\<lambda>u. (u_created_at u, u_id u))
       (filter (\<lambda>u. u_transfer_id u = tid \<and> (readyOnly \<longrightarrow> u_status u = Ready)) (uploads db))"

definition ReadyUploadForTransfer :: "ident \<Rightarrow> ident \<Rightarrow> cdb \<Rightarrow> upload result" where
  "ReadyUploadForTransfer tid i db =
     (case sql_first (\<lambda>u. u_id u = i \<and> u_transfer_id u = tid \<and> u_status u = Ready) (uploads db) of
        None \<Rightarrow> Inl ErrNotFound | Some u \<Rightarrow> Inr u)"

definition ReadyUploadForDownload :: "ident \<Rightarrow> unix_time \<Rightarrow> cdb \<Rightarrow> (upload \<times> transfer) result" where
  "ReadyUploadForDownload i now db =
     (case UploadByID i db of
        Inl e \<Rightarrow> Inl ErrNotFound
      | Inr u \<Rightarrow>
        (if u_status u \<noteq> Ready then Inl ErrNotFound
         else case TransferByID (u_transfer_id u) db of
                Inl e \<Rightarrow> Inl ErrNotFound
              | Inr t \<Rightarrow> (if (t_status t \<noteq> TransferActive \<and> t_status t \<noteq> TransferExhausted) \<or> t_expires_at t \<le> now
                         then Inl ErrNotFound else Inr (u, t))))"

definition CompletableUploads :: "cdb \<Rightarrow> upload list" where
  "CompletableUploads db =
     take 20 (filter (\<lambda>u. u_status u = Uploading \<and> u_offset u = u_length u \<and>
                          u_storage_kind u = StorageKindLocal) (uploads db))"

section \<open>Maintenance\<close>

definition expire_transfers :: "unix_time \<Rightarrow> cdb \<Rightarrow> cdb" where
  "expire_transfers now db = db\<lparr>transfers := sql_update (\<lambda>t. t_status t = TransferActive \<and> t_expires_at t \<le> now)
     (\<lambda>t. t\<lparr>t_status := TransferExpired\<rparr>) (transfers db)\<rparr>"

definition removable :: "unix_time \<Rightarrow> cdb \<Rightarrow> upload \<Rightarrow> transfer \<Rightarrow> bool" where
  "removable incompleteBefore db u t \<longleftrightarrow> t_id t = u_transfer_id u \<and>
     (((t_status t = TransferExpired \<or> t_status t = TransferRevoked) \<and> u_status u \<noteq> Deleted) \<or>
      (t_status t = TransferExhausted \<and> t_delete_on_exhaustion t \<and> u_status u \<noteq> Deleted \<and>
       \<not> sql_exists (\<lambda>s. s_transfer_id s = t_id t \<and> (s_status s = SessProvisional \<or> s_status s = SessActive)) (sessions db) \<and>
       \<not> sql_exists (\<lambda>d. d_transfer_id d = t_id t \<and> d_status d = ResConsuming) (reservations db)) \<or>
      (u_status u = Uploading \<and> u_created_at u < incompleteBefore))"

definition MaintenanceCandidates :: "unix_time \<Rightarrow> unix_time \<Rightarrow> cdb \<Rightarrow> upload list \<times> cdb" where
  "MaintenanceCandidates incompleteBefore now db =
     (let db1 = expire_transfers now db
      in (map fst (filter (\<lambda>(u, t). removable incompleteBefore db1 u t)
            (List.product (uploads db1) (transfers db1))), db1))"

definition MarkDeleted :: "upload \<Rightarrow> unix_time \<Rightarrow> unit operation" where
  "MarkDeleted u now db =
     (case (case releaseUploadStorageTx (u_id u) now db of
              Inl e \<Rightarrow> if e = ErrNotFound then Inr db else Inl e
            | Inr db1 \<Rightarrow> Inr db1) of
        Inl e \<Rightarrow> (Inl e, db)
      | Inr db1 \<Rightarrow>
        (let db2 = db1\<lparr>uploads := sql_update (\<lambda>x. u_id x = u_id u)
               (\<lambda>x. x\<lparr>u_status := Deleted, u_temp_path := '''', u_object_path := ''''\<rparr>) (uploads db1)\<rparr>
         in (Inr (), if u_status u = Uploading
                     then db2\<lparr>transfers := sql_update (\<lambda>t. t_id t = u_transfer_id u)
                            (\<lambda>t. t\<lparr>t_file_count := max (t_file_count t - 1) 0,
                                   t_total_bytes := max (t_total_bytes t - u_length u) 0\<rparr>) (transfers db2)\<rparr>
                     else db2)))"

section \<open>Remote placement\<close>

text \<open>\<open>status\<close> is one of the terminal reports Ready, Blocked, Quarantined; anything else is refused.\<close>

definition commit_terminal :: "ident \<Rightarrow> upload_status \<Rightarrow> unix_time \<Rightarrow> cdb \<Rightarrow> cdb result" where
  "commit_terminal i status now db =
     (case settleUploadTrafficTx i now db of
        Inl e \<Rightarrow> Inl e
      | Inr db1 \<Rightarrow>
        (if status = Blocked
         then (case releaseUploadStorageTx i now db1 of
                 Inl e \<Rightarrow> if e = ErrNotFound then Inr db1 else Inl e
               | Inr db2 \<Rightarrow> Inr db2)
         else Inr db1))"

definition at_placement :: "ident \<Rightarrow> string \<Rightarrow> string \<Rightarrow> int \<Rightarrow> upload \<Rightarrow> bool" where
  "at_placement i nodeID storageKey version u \<longleftrightarrow> u_id u = i \<and> u_storage_kind u = StorageKindNode \<and>
     u_storage_node_id u = nodeID \<and> u_storage_key u = storageKey \<and> u_storage_version u = version"

definition pending_upload :: "upload \<Rightarrow> bool" where
  "pending_upload u \<longleftrightarrow> u_status u = Uploading \<or> u_status u = Uploaded \<or> u_status u = Scanning"

definition complete_placement ::
  "ident \<Rightarrow> string \<Rightarrow> string \<Rightarrow> int \<Rightarrow> upload_status \<Rightarrow> string \<Rightarrow> string \<Rightarrow> unix_time \<Rightarrow> cdb \<Rightarrow> cdb result" where
  "complete_placement i nodeID storageKey version status sha detail now db =
     (case sql_first (\<lambda>u. u_id u = i) (uploads db) of
        None \<Rightarrow> Inl ErrNotFound
      | Some u \<Rightarrow>
        (if u_storage_kind u \<noteq> StorageKindNode \<or> u_storage_node_id u \<noteq> nodeID \<or> u_storage_key u \<noteq> storageKey
         then Inl ErrConflict
         else if u_status u = status
         then (if u_sha256 u \<noteq> sha then Inl ErrConflict
               else if u_storage_version u = version
               then (let hit = (\<lambda>x. at_placement i nodeID storageKey version x \<and> u_status x = status \<and> u_sha256 x = sha)
                     in if sql_count hit (uploads db) \<noteq> 1 then Inl ErrConflict
                        else commit_terminal i status now (db\<lparr>uploads := sql_update hit
                          (\<lambda>x. x\<lparr>u_temp_path := '''', u_object_path := '''',
                                 u_storage_version := u_storage_version x + 1\<rparr>) (uploads db)\<rparr>))
               else if u_storage_version u \<noteq> version + 1 then Inl ErrConflict
               else commit_terminal i status now db)
         else if \<not> pending_upload u then Inl ErrConflict
         else if u_storage_version u \<noteq> version then Inl ErrConflict
         else let hit = (\<lambda>x. at_placement i nodeID storageKey version x \<and> pending_upload x)
              in if sql_count hit (uploads db) \<noteq> 1 then Inl ErrConflict
                 else commit_terminal i status now (db\<lparr>uploads := sql_update hit
                   (\<lambda>x. x\<lparr>u_status := status, u_offset := u_length x, u_temp_path := '''', u_object_path := '''',
                          u_sha256 := sha, u_scan_detail := detail, u_completed_at := now,
                          u_storage_version := u_storage_version x + 1\<rparr>) (uploads db)\<rparr>)))"

definition CompleteRemoteUploadPlacement ::
  "ident \<Rightarrow> string \<Rightarrow> string \<Rightarrow> int \<Rightarrow> upload_status \<Rightarrow> string \<Rightarrow> string \<Rightarrow> unix_time \<Rightarrow> unit operation" where
  "CompleteRemoteUploadPlacement i nodeID storageKey version status sha detail now db =
     (if i = '''' \<or> nodeID = '''' \<or> storageKey = '''' \<or> version < StoragePlacementVersionV1 \<or>
         (status \<noteq> Ready \<and> status \<noteq> Blocked \<and> status \<noteq> Quarantined) then (Inl ErrConflict, db)
      else case complete_placement i nodeID storageKey version status sha detail now db of
             Inl e \<Rightarrow> (Inl e, db)
           | Inr db' \<Rightarrow> (Inr (), db'))"

definition CompleteRemoteUpload ::
  "ident \<Rightarrow> string \<Rightarrow> upload_status \<Rightarrow> string \<Rightarrow> string \<Rightarrow> unix_time \<Rightarrow> unit operation" where
  "CompleteRemoteUpload i nodeID status sha detail now db =
     CompleteRemoteUploadPlacement i nodeID i StoragePlacementVersionV1 status sha detail now db"

definition ReservationUsesRemoteNode :: "ident \<Rightarrow> string \<Rightarrow> cdb \<Rightarrow> bool result" where
  "ReservationUsesRemoteNode rid nodeID db =
     (case sql_first (\<lambda>d. d_id d = rid) (reservations db) of
        None \<Rightarrow> Inl ErrNotFound
      | Some d \<Rightarrow>
        (case sql_first (\<lambda>u. u_id u = d_upload_id d) (uploads db) of
           None \<Rightarrow> Inl ErrNotFound
         | Some u \<Rightarrow> Inr (u_storage_kind u = StorageKindNode \<and> u_storage_node_id u = nodeID \<and>
                        u_storage_key u = u_id u)))"

section \<open>The worker\<close>

text \<open>What a scan of one file ends in.\<close>

datatype scan_outcome =
    ScanUnavailable (so_sha: string) (so_detail: string)
  | ScanInfected (so_sha: string) (so_detail: string)
  | ScanClean (so_sha: string) (so_detail: string)

text \<open>scanPending: \<open>scan\<close> is the scanner on a path, \<open>promote\<close> whether the rename to the object path
  succeeds. Errors of the marking calls are only logged.\<close>

fun scan_claimed ::
  "(string \<Rightarrow> scan_outcome) \<Rightarrow> (ident \<Rightarrow> bool) \<Rightarrow> (ident \<Rightarrow> string) \<Rightarrow> unix_time \<Rightarrow> upload list \<Rightarrow> cdb \<Rightarrow> cdb" where
  "scan_claimed scan promote objectPath now [] db = db"
| "scan_claimed scan promote objectPath now (u # us) db =
     scan_claimed scan promote objectPath now us
       (case scan (u_temp_path u) of
          ScanUnavailable sha detail \<Rightarrow> snd (MarkQuarantined (u_id u) sha detail now db)
        | ScanInfected sha detail \<Rightarrow> snd (MarkBlocked (u_id u) sha detail now db)
        | ScanClean sha detail \<Rightarrow>
            if promote (u_id u) then snd (MarkReady (u_id u) (objectPath (u_id u)) sha detail now db)
            else snd (MarkQuarantined (u_id u) sha ''storage promotion failed'' now db))"

definition scanPending ::
  "(string \<Rightarrow> scan_outcome) \<Rightarrow> (ident \<Rightarrow> bool) \<Rightarrow> (ident \<Rightarrow> string) \<Rightarrow> unix_time \<Rightarrow> cdb \<Rightarrow> cdb" where
  "scanPending scan promote objectPath now db =
     (let (claimed, db1) = ClaimUploads 4 db in scan_claimed scan promote objectPath now claimed db1)"

text \<open>recoverCompleted: \<open>moved\<close> is whether the file could be moved to (or was found in) quarantine.\<close>

fun recover_uploads :: "(ident \<Rightarrow> bool) \<Rightarrow> (ident \<Rightarrow> string) \<Rightarrow> unix_time \<Rightarrow> upload list \<Rightarrow> cdb \<Rightarrow> cdb" where
  "recover_uploads moved quarantinePath now [] db = db"
| "recover_uploads moved quarantinePath now (u # us) db =
     recover_uploads moved quarantinePath now us
       (if moved (u_id u) then snd (MarkUploaded (u_id u) (quarantinePath (u_id u)) now db) else db)"

definition recoverCompleted :: "(ident \<Rightarrow> bool) \<Rightarrow> (ident \<Rightarrow> string) \<Rightarrow> unix_time \<Rightarrow> cdb \<Rightarrow> cdb" where
  "recoverCompleted moved quarantinePath now db =
     recover_uploads moved quarantinePath now (CompletableUploads db) db"

text \<open>The store part of cleanup: \<open>removed\<close> is whether the bytes of an upload could be removed, locally
  or on its storage node. Uploads of another node are never touched.\<close>

fun delete_candidates :: "(upload \<Rightarrow> bool) \<Rightarrow> string \<Rightarrow> unix_time \<Rightarrow> upload list \<Rightarrow> cdb \<Rightarrow> cdb" where
  "delete_candidates removed nodeID now [] db = db"
| "delete_candidates removed nodeID now (u # us) db =
     delete_candidates removed nodeID now us
       (if IsNodeStorage u \<and> (u_storage_node_id u \<noteq> nodeID \<or> u_storage_key u \<noteq> u_id u) then db
        else if removed u then snd (MarkDeleted u now db) else db)"

definition cleanup_uploads :: "(upload \<Rightarrow> bool) \<Rightarrow> string \<Rightarrow> int \<Rightarrow> unix_time \<Rightarrow> cdb \<Rightarrow> cdb" where
  "cleanup_uploads removed nodeID incompleteLifetime now db =
     (let db1 = snd (ReleaseExpiredDownloadReservations now db);
          db2 = snd (ReleaseExpiredRetrievalSessions now db1);
          (candidates, db3) = MaintenanceCandidates (now - incompleteLifetime) now db2
      in delete_candidates removed nodeID now candidates db3)"

end
