(* ===== verification/Upload_Lifecycle.thy ===== *)
theory Upload_Lifecycle
  imports Transfers
begin

text \<open>
  The life of an upload as a state machine over the operations of the store and the worker. The
  invariant \<open>lifecycle_inv\<close> ties it to the traffic ledger: a file that has left the uploading state
  on the way to being downloadable has its traffic charge settled, never merely reserved or refunded.
\<close>

definition accepted :: "upload \<Rightarrow> bool" where
  "accepted u \<longleftrightarrow> u_status u = Uploaded \<or> u_status u = Scanning \<or> u_status u = Ready"

definition charge_paid :: "upload_charge \<Rightarrow> bool" where
  "charge_paid c \<longleftrightarrow> c_status c = ChargeSettled \<or> c_status c = ChargeGrandfathered"

definition accepted_paid :: "cdb \<Rightarrow> bool" where
  "accepted_paid db \<longleftrightarrow> (\<forall>u \<in> set (uploads db). accepted u \<longrightarrow>
     (\<forall>c \<in> set (charges db). c_upload_id c = u_id u \<longrightarrow> charge_paid c))"

definition charges_owned :: "cdb \<Rightarrow> bool" where
  "charges_owned db \<longleftrightarrow> c_upload_id ` set (charges db) \<subseteq> u_id ` set (uploads db)"

definition lifecycle_inv :: "cdb \<Rightarrow> bool" where
  "lifecycle_inv db \<longleftrightarrow> traffic_inv db \<and> keyed u_id (uploads db) \<and> accepted_paid db \<and> charges_owned db"

section \<open>What settling and refunding do to the charges\<close>

lemma settle_charges:
  assumes inv: "traffic_inv db" and s: "settleUploadTrafficTx i now db = Inr db'" and c: "c \<in> set (charges db')"
  shows "c_upload_id c = i \<Longrightarrow> charge_paid c" "c_upload_id c \<noteq> i \<Longrightarrow> c \<in> set (charges db)"
    "c_upload_id c \<in> c_upload_id ` set (charges db)"
proof -
  have keys: "keyed c_upload_id (charges db)" using inv by (simp add: traffic_inv_def ledger_keys_def)
  have "(c_upload_id c = i \<longrightarrow> charge_paid c) \<and> (c_upload_id c \<noteq> i \<longrightarrow> c \<in> set (charges db)) \<and>
      c_upload_id c \<in> c_upload_id ` set (charges db)"
  proof (cases rule: charge_cases [of db i])
    case none
    then show ?thesis using settle_unknown(1) [OF none] s c by auto
  next
    case (reserved x)
    have "c \<in> set (charges (finish_charge i ChargeSettled now db))"
      using settle_reserved [OF inv reserved(1,3), of now] reserved(2) s c by (auto simp: close_charge_frame)
    then have "c \<in> set (sql_update (\<lambda>c. c_upload_id c = i \<and> c_status c = ChargeReserved)
        (\<lambda>c. c\<lparr>c_status := ChargeSettled, c_settled_at := now\<rparr>) (charges db))"
      by (simp add: finish_charge_def)
    then show ?thesis
    proof (rule sql_update_memE)
      fix y assume "y \<in> set (charges db)" "c_upload_id y = i \<and> c_status y = ChargeReserved"
        "c = y\<lparr>c_status := ChargeSettled, c_settled_at := now\<rparr>"
      then show ?thesis using reserved(1,2) by (auto simp: charge_paid_def)
    next
      assume cm: "c \<in> set (charges db)" "\<not> (c_upload_id c = i \<and> c_status c = ChargeReserved)"
      have "c_upload_id c \<noteq> i"
      proof
        assume "c_upload_id c = i"
        then have "c = x" using keyed_unique [OF keys cm(1) reserved(1)] reserved(2) by simp
        then show False using cm(2) reserved(2,3) by simp
      qed
      then show ?thesis using cm(1) by simp
    qed
  next
    case (final x)
    have "db' = db" "c_status x \<noteq> ChargeRefunded"
      using settle_final(1) [OF keys final(1,3), of now] final(2) s by (auto split: if_splits)
    moreover have "charge_paid x" using final(3) \<open>c_status x \<noteq> ChargeRefunded\<close>
      by (cases "c_status x") (simp_all add: charge_paid_def)
    moreover have "c_upload_id c = i \<Longrightarrow> c = x" using c keyed_unique [OF keys _ final(1), of c] final(2) \<open>db' = db\<close> by simp
    ultimately show ?thesis using c by auto
  qed
  then show "c_upload_id c = i \<Longrightarrow> charge_paid c" "c_upload_id c \<noteq> i \<Longrightarrow> c \<in> set (charges db)"
    "c_upload_id c \<in> c_upload_id ` set (charges db)" by blast+
qed

lemma refund_charges:
  assumes inv: "traffic_inv db" and s: "refundUploadTrafficTx i now db = Inr db'" and c: "c \<in> set (charges db')"
  shows "c \<in> set (charges db) \<or> (\<exists>x \<in> set (charges db). c_upload_id x = i \<and> c_upload_id c = i \<and> c_status x = ChargeReserved)"
proof -
  have keys: "keyed c_upload_id (charges db)" using inv by (simp add: traffic_inv_def ledger_keys_def)
  show ?thesis
  proof (cases rule: charge_cases [of db i])
    case none
    then show ?thesis using settle_unknown(2) [OF none] s c by auto
  next
    case (reserved x)
    have "c \<in> set (charges (finish_charge i ChargeRefunded now db))"
      using refund_reserved [OF inv reserved(1,3), of now] reserved(2) s c by (auto simp: close_charge_frame)
    then have "c \<in> set (sql_update (\<lambda>c. c_upload_id c = i \<and> c_status c = ChargeReserved)
        (\<lambda>c. c\<lparr>c_status := ChargeRefunded, c_settled_at := now\<rparr>) (charges db))"
      by (simp add: finish_charge_def)
    then show ?thesis by (rule sql_update_memE) auto
  next
    case (final x)
    then show ?thesis using settle_final(2) [OF keys final(1,3), of now] s c by auto
  qed
qed

section \<open>Building blocks\<close>

lemma lifecycle_inv_cong:
  assumes "accounts db' = accounts db" "entitlements db' = entitlements db" "charges db' = charges db"
    "allocations db' = allocations db" "reservations db' = reservations db" "uploads db' = uploads db"
  shows "lifecycle_inv db' = lifecycle_inv db"
  using traffic_inv_cong [OF assms(1-5)] assms by (simp add: lifecycle_inv_def accepted_paid_def charges_owned_def)

lemma lifecycle_inv_uploads:
  assumes inv: "lifecycle_inv db" and f: "\<And>u. u_id (f u) = u_id u"
    and acc: "\<And>u. u \<in> set (uploads db) \<Longrightarrow> p u \<Longrightarrow> accepted (f u) \<Longrightarrow> accepted u"
  shows "lifecycle_inv (db\<lparr>uploads := sql_update p f (uploads db)\<rparr>)"
proof -
  let ?db = "db\<lparr>uploads := sql_update p f (uploads db)\<rparr>"
  have "traffic_inv ?db" using inv ledger.inv_uploads by (simp add: lifecycle_inv_def)
  moreover have "keyed u_id (uploads ?db)" using inv f by (simp add: lifecycle_inv_def keyed_update)
  moreover have "charges_owned ?db"
    using inv sql_update_mem_iff_key [of u_id f] f unfolding lifecycle_inv_def charges_owned_def by auto
  moreover have "accepted_paid ?db"
    unfolding accepted_paid_def
  proof (intro ballI impI)
    fix u c assume u: "u \<in> set (uploads ?db)" "accepted u" and c: "c \<in> set (charges ?db)" "c_upload_id c = u_id u"
    from u(1) have "u \<in> set (sql_update p f (uploads db))" by simp
    then obtain x where "x \<in> set (uploads db)" "u_id x = u_id u" "accepted x"
      by (rule sql_update_memE) (use u(2) acc f in auto)
    then show "charge_paid c" using inv c unfolding lifecycle_inv_def accepted_paid_def by simp
  qed
  ultimately show ?thesis by (simp add: lifecycle_inv_def)
qed

text \<open>Accepting files of upload \<open>i\<close> and settling it in the same transaction.\<close>

lemma lifecycle_inv_settle:
  assumes inv: "lifecycle_inv db" and f: "\<And>u. u_id (f u) = u_id u" and p: "\<And>u. p u \<Longrightarrow> u_id u = i"
    and s: "settleUploadTrafficTx i now (db\<lparr>uploads := sql_update p f (uploads db)\<rparr>) = Inr db'"
  shows "lifecycle_inv db'"
proof -
  let ?db = "db\<lparr>uploads := sql_update p f (uploads db)\<rparr>"
  have t: "traffic_inv db" using inv by (simp add: lifecycle_inv_def)
  note after = ledger.settle_after_status_change [OF t s]
  have t1: "traffic_inv ?db" using t ledger.inv_uploads by simp
  note ch = settle_charges [OF t1 s]
  have "keyed u_id (uploads db')" using inv f after(2) by (simp add: lifecycle_inv_def keyed_update)
  moreover have "charges_owned db'"
  proof -
    have "u_id ` set (uploads db') = u_id ` set (uploads db)"
      using sql_update_mem_iff_key [of u_id f _ p "uploads db"] f unfolding after(2) by blast
    then show ?thesis using ch(3) inv unfolding lifecycle_inv_def charges_owned_def by auto
  qed
  moreover have "accepted_paid db'"
    unfolding accepted_paid_def
  proof (intro ballI impI)
    fix u c assume u: "u \<in> set (uploads db')" "accepted u" and c: "c \<in> set (charges db')" "c_upload_id c = u_id u"
    show "charge_paid c"
    proof (cases "u_id u = i")
      case True
      then show ?thesis using ch(1) [OF c(1)] c(2) by simp
    next
      case False
      have cm: "c \<in> set (charges db)" using ch(2) [OF c(1)] c(2) False by simp
      from u(1) have "u \<in> set (sql_update p f (uploads db))" using after(2) by simp
      then have "u \<in> set (uploads db)" by (rule sql_update_memE) (use False p f in auto)
      then show ?thesis using inv u(2) c(2) cm unfolding lifecycle_inv_def accepted_paid_def by simp
    qed
  qed
  ultimately show ?thesis using after(1) by (simp add: lifecycle_inv_def)
qed

lemma lifecycle_inv_settle_plain:
  assumes inv: "lifecycle_inv db" and s: "settleUploadTrafficTx i now db = Inr db'"
  shows "lifecycle_inv db'"
proof -
  have "sql_update (\<lambda>_. False) (\<lambda>u. u) (uploads db) = uploads db" by (rule sql_update_none) simp
  then show ?thesis using lifecycle_inv_settle [OF inv, of "\<lambda>u. u" "\<lambda>_. False" i now db'] s by simp
qed

lemma lifecycle_inv_refund:
  assumes inv: "lifecycle_inv db" and s: "refundUploadTrafficTx i now db = Inr db'"
  shows "lifecycle_inv db'"
proof -
  have t: "traffic_inv db" using inv by (simp add: lifecycle_inv_def)
  have up: "uploads db' = uploads db" using s by (rule ledger.refund_uploads)
  note ch = refund_charges [OF t s]
  have "charges_owned db'" using ch inv unfolding lifecycle_inv_def charges_owned_def up by fastforce
  moreover have "accepted_paid db'"
    unfolding accepted_paid_def
  proof (intro ballI impI)
    fix u c assume u: "u \<in> set (uploads db')" "accepted u" and c: "c \<in> set (charges db')" "c_upload_id c = u_id u"
    from ch [OF c(1)] show "charge_paid c"
    proof
      assume "\<exists>x \<in> set (charges db). c_upload_id x = i \<and> c_upload_id c = i \<and> c_status x = ChargeReserved"
      then obtain x where x: "x \<in> set (charges db)" "c_upload_id x = u_id u" "c_status x = ChargeReserved" using c(2) by auto
      then have "charge_paid x" using inv u unfolding lifecycle_inv_def accepted_paid_def up by simp
      then show ?thesis using x(3) by (simp add: charge_paid_def)
    qed (use inv u c in \<open>simp add: lifecycle_inv_def accepted_paid_def up\<close>)
  qed
  ultimately show ?thesis using ledger.refund_keeps [OF t s] inv up by (simp add: lifecycle_inv_def)
qed

lemma release_storage_inv:
  assumes inv: "lifecycle_inv db" and r: "releaseUploadStorageTx i now db = Inr db'"
  shows "lifecycle_inv db'"
proof -
  obtain db1 where ref: "refundUploadTrafficTx i now db = Inr db1"
    and db': "db' = db1 \<or> db' = db1\<lparr>uploads := sql_update (\<lambda>u. u_id u = i) (\<lambda>u. u\<lparr>u_storage_released := True\<rparr>) (uploads db1)\<rparr>"
    using r by (auto simp: releaseUploadStorageTx_def split: option.splits sum.splits if_splits)
  have inv1: "lifecycle_inv db1" using inv ref by (rule lifecycle_inv_refund)
  then have "lifecycle_inv (db1\<lparr>uploads := sql_update (\<lambda>u. u_id u = i) (\<lambda>u. u\<lparr>u_storage_released := True\<rparr>) (uploads db1)\<rparr>)"
    by (rule lifecycle_inv_uploads) (simp_all add: accepted_def)
  then show ?thesis using inv1 db' by auto
qed

section \<open>Every operation keeps the invariant\<close>

lemma update_offset_inv:
  assumes "lifecycle_inv db" shows "lifecycle_inv (snd (UpdateUploadOffset i ex nx db))"
proof -
  have "lifecycle_inv (db\<lparr>uploads := sql_update p (\<lambda>u. u\<lparr>u_offset := nx\<rparr>) (uploads db)\<rparr>)" for p
    using assms by (rule lifecycle_inv_uploads) (simp_all add: accepted_def)
  then show ?thesis using assms by (simp add: UpdateUploadOffset_def Let_def)
qed

lemma mark_uploaded_inv:
  assumes "lifecycle_inv db" shows "lifecycle_inv (snd (MarkUploaded i path now db))"
proof -
  let ?hit = "\<lambda>u. u_id u = i \<and> u_status u = Uploading \<and> u_offset u = u_length u \<and> u_storage_kind u = StorageKindLocal"
  let ?f = "\<lambda>u. u\<lparr>u_status := Uploaded, u_temp_path := path\<rparr>"
  have "lifecycle_inv db'" if "settleUploadTrafficTx i now (db\<lparr>uploads := sql_update ?hit ?f (uploads db)\<rparr>) = Inr db'" for db'
    using assms _ _ that by (rule lifecycle_inv_settle) simp_all
  then show ?thesis using assms by (auto simp: MarkUploaded_def Let_def split: sum.splits)
qed

lemma claim_uploads_inv:
  "lifecycle_inv db \<Longrightarrow> lifecycle_inv (snd (claim_uploads us db))"
proof (induction us arbitrary: db)
  case (Cons u us)
  let ?hit = "\<lambda>x. u_id x = u_id u \<and> u_status x = Uploaded \<and> u_storage_kind x = StorageKindLocal"
  let ?db = "db\<lparr>uploads := sql_update ?hit (\<lambda>x. x\<lparr>u_status := Scanning\<rparr>) (uploads db)\<rparr>"
  have "lifecycle_inv ?db" using Cons.prems by (rule lifecycle_inv_uploads) (simp_all add: accepted_def)
  then have "lifecycle_inv (snd (claim_uploads us ?db))" by (rule Cons.IH)
  then show ?case by (cases "claim_uploads us ?db") (simp add: Let_def)
qed simp

lemma mark_ready_inv:
  assumes "lifecycle_inv db" shows "lifecycle_inv (snd (MarkReady i path sha det now db))"
  unfolding MarkReady_def snd_conv using assms by (rule lifecycle_inv_uploads) (simp_all add: accepted_def)

lemma mark_quarantined_inv:
  assumes "lifecycle_inv db" shows "lifecycle_inv (snd (MarkQuarantined i sha det now db))"
  unfolding MarkQuarantined_def snd_conv using assms by (rule lifecycle_inv_uploads) (simp_all add: accepted_def)

lemma mark_blocked_inv:
  assumes "lifecycle_inv db" shows "lifecycle_inv (snd (MarkBlocked i sha det now db))"
proof -
  let ?p = "\<lambda>u. u_id u = i \<and> u_storage_kind u = StorageKindLocal"
  let ?f = "\<lambda>u. u\<lparr>u_status := Blocked, u_sha256 := sha, u_scan_detail := det, u_temp_path := '''', u_completed_at := now\<rparr>"
  have "lifecycle_inv (db\<lparr>uploads := sql_update ?p ?f (uploads db)\<rparr>)"
    using assms by (rule lifecycle_inv_uploads) (simp_all add: accepted_def)
  note r = release_storage_inv [OF this, of i now]
  show ?thesis
    by (cases "releaseUploadStorageTx i now (db\<lparr>uploads := sql_update ?p ?f (uploads db)\<rparr>)")
      (use assms r in \<open>simp_all add: MarkBlocked_def\<close>)
qed

lemma release_upload_inv:
  assumes "lifecycle_inv db" shows "lifecycle_inv (snd (ReleaseUploadStorage i now db))"
  by (cases "releaseUploadStorageTx i now db")
    (use assms release_storage_inv [OF assms] in \<open>simp_all add: ReleaseUploadStorage_def\<close>)

lemma lifecycle_inv_transfers [simp]: "lifecycle_inv (db\<lparr>transfers := x\<rparr>) = lifecycle_inv db"
  by (rule lifecycle_inv_cong) simp_all

lemma mark_deleted_inv:
  assumes "lifecycle_inv db" shows "lifecycle_inv (snd (MarkDeleted u now db))"
proof -
  let ?f = "\<lambda>x. x\<lparr>u_status := Deleted, u_temp_path := '''', u_object_path := ''''\<rparr>"
  have del: "lifecycle_inv (x\<lparr>uploads := sql_update (\<lambda>x. u_id x = u_id u) ?f (uploads x)\<rparr>)" if "lifecycle_inv x" for x
    using that by (rule lifecycle_inv_uploads) (simp_all add: accepted_def)
  show ?thesis
  proof (cases "releaseUploadStorageTx (u_id u) now db")
    case (Inl e)
    then show ?thesis using assms del [OF assms] by (simp add: MarkDeleted_def Let_def)
  next
    case (Inr db1)
    then show ?thesis using del [OF release_storage_inv [OF assms Inr]] by (simp add: MarkDeleted_def Let_def)
  qed
qed

lemma commit_terminal_inv:
  assumes inv: "lifecycle_inv db" and f: "\<And>u. u_id (f u) = u_id u" and p: "\<And>u. p u \<Longrightarrow> u_id u = i"
    and c: "commit_terminal i status now (db\<lparr>uploads := sql_update p f (uploads db)\<rparr>) = Inr db'"
  shows "lifecycle_inv db'"
proof -
  let ?db = "db\<lparr>uploads := sql_update p f (uploads db)\<rparr>"
  obtain db1 where s: "settleUploadTrafficTx i now ?db = Inr db1"
    using c by (cases "settleUploadTrafficTx i now ?db") (simp_all add: commit_terminal_def)
  have inv1: "lifecycle_inv db1" using inv f p s by (rule lifecycle_inv_settle)
  have "db' = db1 \<or> releaseUploadStorageTx i now db1 = Inr db'"
    using c by (auto simp: commit_terminal_def s split: if_splits sum.splits)
  then show ?thesis using inv1 release_storage_inv by blast
qed

lemma complete_placement_inv:
  assumes inv: "lifecycle_inv db" and c: "complete_placement i node key ver status sha det now db = Inr db'"
  shows "lifecycle_inv db'"
proof -
  have "sql_update (\<lambda>_. False) (\<lambda>u. u) (uploads db) = uploads db" by (rule sql_update_none) simp
  then have plain: "db' = db' \<and> lifecycle_inv db'" if "commit_terminal i status now db = Inr db'"
    using commit_terminal_inv [OF inv, of "\<lambda>u. u" "\<lambda>_. False" i status now db'] that by simp
  let ?p = "\<lambda>x. at_placement i node key ver x \<and> u_status x = status \<and> u_sha256 x = sha"
  let ?q = "\<lambda>x. at_placement i node key ver x \<and> pending_upload x"
  have norm: "lifecycle_inv db'" if "commit_terminal i status now (db\<lparr>uploads := sql_update ?p (\<lambda>x. x\<lparr>u_temp_path := '''',
      u_object_path := '''', u_storage_version := u_storage_version x + 1\<rparr>) (uploads db)\<rparr>) = Inr db'"
    using inv _ _ that by (rule commit_terminal_inv) (simp_all add: at_placement_def)
  have final: "lifecycle_inv db'" if "commit_terminal i status now (db\<lparr>uploads := sql_update ?q
      (\<lambda>x. x\<lparr>u_status := status, u_offset := u_length x, u_temp_path := '''', u_object_path := '''',
             u_sha256 := sha, u_scan_detail := det, u_completed_at := now,
             u_storage_version := u_storage_version x + 1\<rparr>) (uploads db)\<rparr>) = Inr db'"
    using inv _ _ that by (rule commit_terminal_inv) (simp_all add: at_placement_def)
  show ?thesis using c plain norm final
    by (auto simp: complete_placement_def Let_def split: option.splits if_splits)
qed

lemma complete_remote_inv:
  assumes "lifecycle_inv db" shows "lifecycle_inv (snd (CompleteRemoteUploadPlacement i node key ver status sha det now db))"
  by (cases "complete_placement i node key ver status sha det now db")
    (use assms complete_placement_inv [OF assms] in \<open>simp_all add: CompleteRemoteUploadPlacement_def\<close>)

text \<open>A fresh upload, with or without a traffic charge.\<close>

lemma lifecycle_inv_new_upload:
  assumes inv: "lifecycle_inv db" and fresh: "u_id u \<notin> u_id ` set (uploads db)" and st: "\<not> accepted u"
  shows "lifecycle_inv (db\<lparr>uploads := uploads db @ [u]\<rparr>)"
  using inv fresh st ledger.inv_uploads unfolding lifecycle_inv_def
  by (auto simp: keyed_append accepted_paid_def charges_owned_def)

lemma reserve_frame:
  assumes "reserveUploadTrafficTx up v req monthly now db = Inr db'"
  shows "uploads db' = uploads db" "transfers db' = transfers db"
    "\<exists>c. c_upload_id c = up \<and> charges db' = charges db @ [c]"
proof -
  from assms obtain db1 pas where e: "ensureTrafficAccountTx v monthly now db = Inr db1"
    and d: "db' = db1\<lparr>charges := charges db1 @ [\<lparr>c_upload_id = up, c_user_id = v, c_amount_bytes = req,
              c_status = ChargeReserved, c_created_at = now, c_settled_at = 0\<rparr>],
            allocations := allocations db1 @ map (allocation_row up) pas,
            accounts := sql_update (\<lambda>a. a_user_id a = v)
               (\<lambda>a. a\<lparr>a_traffic_reserved_bytes := a_traffic_reserved_bytes a + req,
                      a_updated_at := now\<rparr>) (accounts db1)\<rparr>"
    by (rule reserve_cases)
  show "uploads db' = uploads db" "transfers db' = transfers db" "\<exists>c. c_upload_id c = up \<and> charges db' = charges db @ [c]"
    using ensureTrafficAccount_frame [OF e] d by auto
qed

lemma lifecycle_inv_reserve:
  assumes inv: "lifecycle_inv db" and r: "reserveUploadTrafficTx up v req monthly now db = Inr db'"
    and u: "\<And>u. u \<in> set (uploads db) \<Longrightarrow> u_id u = up \<Longrightarrow> \<not> accepted u" "up \<in> u_id ` set (uploads db)"
  shows "lifecycle_inv db'"
proof -
  have t: "traffic_inv db'" using inv reserve_inv [OF _ r] by (simp add: lifecycle_inv_def)
  obtain c where c: "c_upload_id c = up" "charges db' = charges db @ [c]" using reserve_frame(3) [OF r] by blast
  have "accepted_paid db'"
    using inv u(1) c unfolding lifecycle_inv_def accepted_paid_def reserve_frame(1) [OF r] by auto
  moreover have "charges_owned db'"
    using inv u(2) c unfolding lifecycle_inv_def charges_owned_def reserve_frame(1) [OF r] by auto
  ultimately show ?thesis using inv t reserve_frame(1) [OF r] by (simp add: lifecycle_inv_def)
qed

lemma guest_allowance_frame:
  assumes "guest_allowance t u g now db = Inr db'"
  shows "\<exists>x. db' = db\<lparr>rate_limits := x\<rparr>"
proof -
  have id: "\<exists>x. db = db\<lparr>rate_limits := x\<rparr>" by (rule exI [of _ "rate_limits db"]) simp
  show ?thesis using assms id
    by (auto simp: guest_allowance_def allowBucketTx_def Let_def split: if_splits sum.splits option.splits)
qed

lemma insert_charged_cases:
  assumes "insert_charged_upload t u maxFiles maxBytes monthly guest now db = Inr db'"
  obtains x db2 where "t_status t = TransferActive" "now < t_expires_at t" "t_file_count t + 1 \<le> maxFiles"
    "t_total_bytes t + u_length u \<le> maxBytes" "u_id u \<notin> u_id ` set (uploads db)"
    "user_charge t u monthly now (db\<lparr>rate_limits := x, uploads := uploads db @ [fresh_upload u]\<rparr>) = Inr db2"
    "db' = count_upload u db2"
proof -
  from assms obtain db1 us db2 where g: "guest_allowance t u guest now db = Inr db1"
    and c: "t_status t = TransferActive" "now < t_expires_at t" "t_file_count t + 1 \<le> maxFiles"
      "t_total_bytes t + u_length u \<le> maxBytes"
    and i: "sql_insert u_id (fresh_upload u) (uploads db1) = Inr us"
    and uc: "user_charge t u monthly now (db1\<lparr>uploads := us\<rparr>) = Inr db2" "db' = count_upload u db2"
    by (auto simp: insert_charged_upload_def split: if_splits sum.splits)
  obtain x where x: "db1 = db\<lparr>rate_limits := x\<rparr>" using guest_allowance_frame [OF g] by blast
  have "u_id (fresh_upload u) = u_id u" by (simp add: fresh_upload_def)
  then show thesis using that [of x db2] c i uc by (simp add: x sql_insert_Inr)
qed

lemma create_upload_inv:
  assumes inv: "lifecycle_inv db"
  shows "lifecycle_inv (snd (CreateUploadWithQuota u0 maxFiles maxBytes monthly guest now db))"
proof (cases "snd (CreateUploadWithQuota u0 maxFiles maxBytes monthly guest now db) = db")
  case False
  then obtain u t db' where i: "insert_charged_upload t u maxFiles maxBytes monthly guest now db = Inr db'"
    and db': "snd (CreateUploadWithQuota u0 maxFiles maxBytes monthly guest now db) = db'"
    by (auto simp: CreateUploadWithQuota_def split: if_splits option.splits sum.splits)
  from i obtain x db2 where fresh: "u_id u \<notin> u_id ` set (uploads db)"
    and uc: "user_charge t u monthly now (db\<lparr>rate_limits := x, uploads := uploads db @ [fresh_upload u]\<rparr>) = Inr db2"
    and d: "db' = count_upload u db2" by (rule insert_charged_cases)
  have id: "u_id (fresh_upload u) = u_id u" and na: "\<not> accepted (fresh_upload u)"
    by (simp_all add: fresh_upload_def accepted_def)
  let ?db = "db\<lparr>rate_limits := x, uploads := uploads db @ [fresh_upload u]\<rparr>"
  have "lifecycle_inv (db\<lparr>uploads := uploads db @ [fresh_upload u]\<rparr>)"
    using inv fresh na by (intro lifecycle_inv_new_upload) (simp_all add: id)
  then have inv1: "lifecycle_inv ?db" by (subst lifecycle_inv_cong) auto
  have "lifecycle_inv db2"
  proof (cases "t_owner_type t = ''user'' \<and> t_owner_id t \<noteq> ''''")
    case True
    then have r: "reserveUploadTrafficTx (u_id u) (t_owner_id t) (u_length u) monthly now ?db = Inr db2"
      using uc by (simp add: user_charge_def)
    have own: "v \<in> set (uploads ?db) \<Longrightarrow> u_id v = u_id u \<Longrightarrow> \<not> accepted v" for v
      using fresh na by (auto simp: key_in_image)
    have ex: "u_id u \<in> u_id ` set (uploads ?db)" by (simp add: id)
    show ?thesis using inv1 r own ex by (rule lifecycle_inv_reserve)
  next
    case False
    then have "db2 = ?db" using uc by (auto simp: user_charge_def)
    then show ?thesis using inv1 by simp
  qed
  then show ?thesis using db' d by (simp add: count_upload_def)
qed (use inv in simp)

end
