(* ===== verification/Upload_Properties.thy ===== *)
theory Upload_Properties
  imports Upload_Lifecycle Download_Properties
begin

text \<open>
  The state machine of uploads and the properties of single operations on transfers and uploads:
  quota and exact retry of upload creation, delivery of the storage node's verdict, and what
  maintenance and revocation do.
\<close>

section \<open>The state machine\<close>

inductive upload_step :: "cdb \<Rightarrow> cdb \<Rightarrow> bool" where
  create: "upload_step db (snd (CreateUploadWithQuota u maxFiles maxBytes monthly guest now db))"
| receive: "upload_step db (snd (UpdateUploadOffset i ex nx db))"
| finish: "upload_step db (snd (MarkUploaded i path now db))"
| claim: "upload_step db (snd (ClaimUploads n db))"
| ready: "upload_step db (snd (MarkReady i path sha det now db))"
| block: "upload_step db (snd (MarkBlocked i sha det now db))"
| quarantine: "upload_step db (snd (MarkQuarantined i sha det now db))"
| release: "upload_step db (snd (ReleaseUploadStorage i now db))"
| delete: "upload_step db (snd (MarkDeleted u now db))"
| remote: "upload_step db (snd (CompleteRemoteUploadPlacement i node key ver st sha det now db))"
| revoke: "upload_step db (snd (RevokeTransfer tid db))"
| expire: "upload_step db (snd (MaintenanceCandidates before now db))"

inductive upload_reachable :: "cdb \<Rightarrow> cdb \<Rightarrow> bool" for db0 where
  start: "upload_reachable db0 db0"
| more: "upload_reachable db0 db \<Longrightarrow> upload_step db db' \<Longrightarrow> upload_reachable db0 db'"

inductive_cases upload_stepE: "upload_step db db'"

lemmas upload_invs = create_upload_inv update_offset_inv mark_uploaded_inv mark_ready_inv mark_blocked_inv
  mark_quarantined_inv release_upload_inv mark_deleted_inv complete_remote_inv

lemma upload_step_inv: "upload_step db db' \<Longrightarrow> lifecycle_inv db \<Longrightarrow> lifecycle_inv db'"
proof (induction rule: upload_step.induct)
  case (claim db n)
  then show ?case by (simp add: ClaimUploads_def claim_uploads_inv)
qed (simp_all add: upload_invs RevokeTransfer_def MaintenanceCandidates_def expire_transfers_def Let_def)

lemma upload_reachable_inv: "upload_reachable db0 db \<Longrightarrow> lifecycle_inv db0 \<Longrightarrow> lifecycle_inv db"
  by (induction rule: upload_reachable.induct) (auto intro: upload_step_inv)

text \<open>The worker's loops are sequences of steps.\<close>

lemma scan_claimed_reachable:
  "upload_reachable db0 db \<Longrightarrow> upload_reachable db0 (scan_claimed scan promote path now us db)"
proof (induction us arbitrary: db)
  case (Cons u us)
  show ?case
    using Cons.IH Cons.prems
    by (auto split: scan_outcome.splits intro: upload_reachable.more [OF Cons.prems] upload_step.intros)
qed simp

lemma scanPending_reachable: "upload_reachable db (scanPending scan promote path now db)"
proof -
  have "upload_reachable db (snd (ClaimUploads 4 db))"
    by (rule upload_reachable.more [OF upload_reachable.start upload_step.claim])
  then show ?thesis unfolding scanPending_def
    by (cases "ClaimUploads 4 db") (auto intro: scan_claimed_reachable)
qed

lemma recover_uploads_reachable:
  "upload_reachable db0 db \<Longrightarrow> upload_reachable db0 (recover_uploads moved path now us db)"
  by (induction us arbitrary: db) (auto intro: upload_reachable.more upload_step.finish)

lemma delete_candidates_reachable:
  "upload_reachable db0 db \<Longrightarrow> upload_reachable db0 (delete_candidates removed node now us db)"
  by (induction us arbitrary: db) (auto intro: upload_reachable.more upload_step.delete)

section \<open>Remote delivery\<close>

lemma settle_paid:
  assumes "traffic_inv db" "\<And>c. c \<in> set (charges db) \<Longrightarrow> c_upload_id c = i \<Longrightarrow> charge_paid c"
  shows "settleUploadTrafficTx i now db = Inr db" "refundUploadTrafficTx i now db = Inr db"
proof -
  have keys: "keyed c_upload_id (charges db)" using assms(1) by (simp add: traffic_inv_def ledger_keys_def)
  have "settleUploadTrafficTx i now db = Inr db \<and> refundUploadTrafficTx i now db = Inr db"
  proof (cases rule: charge_cases [of db i])
    case none
    then show ?thesis using settle_unknown [OF none] by simp
  next
    case (reserved c)
    then show ?thesis using assms(2) by (force simp: charge_paid_def)
  next
    case (final c)
    then have "charge_paid c" using assms(2) by simp
    then show ?thesis using settle_final [OF keys final(1,3), of now] final(2) by (auto simp: charge_paid_def)
  qed
  then show "settleUploadTrafficTx i now db = Inr db" "refundUploadTrafficTx i now db = Inr db" by simp_all
qed

definition delivered :: "ident \<Rightarrow> string \<Rightarrow> string \<Rightarrow> int \<Rightarrow> upload_status \<Rightarrow> string \<Rightarrow> cdb \<Rightarrow> bool" where
  "delivered i node key ver st sha db \<longleftrightarrow>
     (\<exists>u \<in> set (uploads db). at_placement i node key (ver + 1) u \<and> u_status u = st \<and> u_sha256 u = sha \<and>
        (st = Blocked \<longrightarrow> u_storage_released u)) \<and>
     (\<forall>c \<in> set (charges db). c_upload_id c = i \<longrightarrow> charge_paid c)"

lemma release_storage_row:
  assumes t: "traffic_inv db" and paid: "\<And>c. c \<in> set (charges db) \<Longrightarrow> c_upload_id c = i \<Longrightarrow> charge_paid c"
    and keys: "keyed u_id (uploads db)" and u: "u \<in> set (uploads db)" "u_id u = i"
    and r: "releaseUploadStorageTx i now db = Inr db'"
  shows "u\<lparr>u_storage_released := True\<rparr> \<in> set (uploads db')" "charges db' = charges db"
proof -
  have first: "sql_first (\<lambda>x. u_id x = i) (uploads db) = Some u" using keyed_first [OF keys u(1)] u(2) by simp
  have db': "db' = (if u_storage_released u then db
      else db\<lparr>uploads := sql_update (\<lambda>x. u_id x = i) (\<lambda>x. x\<lparr>u_storage_released := True\<rparr>) (uploads db)\<rparr>)"
    using r by (auto simp: releaseUploadStorageTx_def first settle_paid(2) [OF t paid] split: if_splits)
  then show "charges db' = charges db" by simp
  show "u\<lparr>u_storage_released := True\<rparr> \<in> set (uploads db')"
  proof (cases "u_storage_released u")
    case True
    then have "u\<lparr>u_storage_released := True\<rparr> = u" by (cases u) simp
    then show ?thesis using u(1) db' True by (simp only: if_True)
  next
    case False
    then show ?thesis unfolding db'
      using u sql_update_mem [OF u(1), of "\<lambda>x. u_id x = i" "\<lambda>x. x\<lparr>u_storage_released := True\<rparr>"] by simp
  qed
qed

lemma commit_terminal_delivered:
  assumes t: "traffic_inv db" and keys: "keyed u_id (uploads db)"
    and u: "u \<in> set (uploads db)" "at_placement i node key (ver + 1) u" "u_status u = st" "u_sha256 u = sha"
    and c: "commit_terminal i st now db = Inr db'"
  shows "delivered i node key ver st sha db'"
proof -
  have ui: "u_id u = i" using u(2) by (simp add: at_placement_def)
  obtain db1 where s: "settleUploadTrafficTx i now db = Inr db1"
    using c by (cases "settleUploadTrafficTx i now db") (simp_all add: commit_terminal_def)
  have t1: "traffic_inv db1" and up: "uploads db1 = uploads db"
    using ledger.settle_keeps [OF t s] ledger.settle_uploads [OF s] by simp_all
  note paid = settle_charges(1) [OF t s]
  show ?thesis
  proof (cases "st = Blocked")
    case True
    have "sql_first (\<lambda>x. u_id x = i) (uploads db1) = Some u" using keyed_first [OF keys u(1)] ui up by simp
    then have r: "releaseUploadStorageTx i now db1 = Inr db'"
      using c settle_paid(2) [OF t1 paid] by (auto simp: commit_terminal_def s True releaseUploadStorageTx_def)
    have k1: "keyed u_id (uploads db1)" and u1: "u \<in> set (uploads db1)" using keys u(1) up by simp_all
    note row = release_storage_row [OF t1 paid k1 u1 ui r]
    have "at_placement i node key (ver + 1) (u\<lparr>u_storage_released := True\<rparr>)" using u(2) by (simp add: at_placement_def)
    then have "\<exists>u \<in> set (uploads db'). at_placement i node key (ver + 1) u \<and> u_status u = st \<and> u_sha256 u = sha \<and>
        (st = Blocked \<longrightarrow> u_storage_released u)"
      using u(3,4) by (intro bexI [OF _ row(1)]) simp
    moreover have "\<forall>c \<in> set (charges db'). c_upload_id c = i \<longrightarrow> charge_paid c" using row(2) paid by simp
    ultimately show ?thesis unfolding delivered_def by simp
  next
    case False
    then have "db' = db1" using c by (simp add: commit_terminal_def s)
    then show ?thesis unfolding delivered_def using u paid up False by auto
  qed
qed

lemma delivered_retry:
  assumes t: "traffic_inv db" and keys: "keyed u_id (uploads db)" and d: "delivered i node key ver st sha db"
    and ok: "i \<noteq> ''''" "node \<noteq> ''''" "key \<noteq> ''''" "1 \<le> ver" "st = Ready \<or> st = Blocked \<or> st = Quarantined"
  shows "CompleteRemoteUploadPlacement i node key ver st sha' det now db =
    (if sha' = sha then Inr () else Inl ErrConflict, db)"
proof -
  obtain u where u: "u \<in> set (uploads db)" "at_placement i node key (ver + 1) u" "u_status u = st" "u_sha256 u = sha"
      "st = Blocked \<longrightarrow> u_storage_released u"
    and paid: "\<And>c. c \<in> set (charges db) \<Longrightarrow> c_upload_id c = i \<Longrightarrow> charge_paid c"
    using d by (auto simp: delivered_def)
  have first: "sql_first (\<lambda>x. u_id x = i) (uploads db) = Some u"
    using keyed_first [OF keys u(1)] u(2) by (simp add: at_placement_def)
  have "commit_terminal i st now db = Inr db"
    using u(5) by (simp add: commit_terminal_def settle_paid [OF t paid] releaseUploadStorageTx_def first)
  then show ?thesis using u ok
    by (auto simp: CompleteRemoteUploadPlacement_def complete_placement_def first at_placement_def)
qed

lemma complete_placement_delivered:
  assumes t: "traffic_inv db" and keys: "keyed u_id (uploads db)"
    and c: "complete_placement i node key ver st sha det now db = Inr db'"
  shows "delivered i node key ver st sha db'"
proof -
  obtain u where first: "sql_first (\<lambda>x. u_id x = i) (uploads db) = Some u"
    using c by (cases "sql_first (\<lambda>x. u_id x = i) (uploads db)") (simp_all add: complete_placement_def)
  have u: "u \<in> set (uploads db)" "u_id u = i" using sql_firstD [OF first] by simp_all
  have k: "keyed u_id (sql_update p f (uploads db))" if "\<And>x. u_id (f x) = u_id x" for p f
    using that keys by (rule keyed_update)
  have deliver: "delivered i node key ver st sha db'"
    if "u \<in> set (uploads db)" "p u" "\<And>x. u_id (f x) = u_id x" "at_placement i node key (ver + 1) (f u)"
      "u_status (f u) = st" "u_sha256 (f u) = sha"
      "commit_terminal i st now (db\<lparr>uploads := sql_update p f (uploads db)\<rparr>) = Inr db'" for p f
  proof -
    have "f u \<in> set (sql_update p f (uploads db))" using sql_update_mem [OF that(1), of p f] that(2) by simp
    then show ?thesis using t k [OF that(3)] that(4-7) ledger.inv_uploads
      by (intro commit_terminal_delivered [of "db\<lparr>uploads := sql_update p f (uploads db)\<rparr>" "f u"]) simp_all
  qed
  let ?p = "\<lambda>x. at_placement i node key ver x \<and> u_status x = st \<and> u_sha256 x = sha"
  let ?q = "\<lambda>x. at_placement i node key ver x \<and> pending_upload x"
  let ?g = "\<lambda>x. x\<lparr>u_temp_path := '''', u_object_path := '''', u_storage_version := u_storage_version x + 1\<rparr>"
  let ?h = "\<lambda>x. x\<lparr>u_status := st, u_offset := u_length x, u_temp_path := '''', u_object_path := '''',
             u_sha256 := sha, u_scan_detail := det, u_completed_at := now,
             u_storage_version := u_storage_version x + 1\<rparr>"
  have place: "u_storage_kind u = StorageKindNode" "u_storage_node_id u = node" "u_storage_key u = key"
    using c by (auto simp: complete_placement_def first split: if_splits)
  consider (norm) "?p u" "commit_terminal i st now (db\<lparr>uploads := sql_update ?p ?g (uploads db)\<rparr>) = Inr db'"
    | (retry) "u_status u = st" "u_sha256 u = sha" "u_storage_version u = ver + 1" "commit_terminal i st now db = Inr db'"
    | (new) "?q u" "commit_terminal i st now (db\<lparr>uploads := sql_update ?q ?h (uploads db)\<rparr>) = Inr db'"
    using c u place by (auto simp: complete_placement_def first at_placement_def Let_def split: if_splits)
  then show ?thesis
  proof cases
    case norm
    then show ?thesis using u by (intro deliver [of ?p ?g]) (simp_all add: at_placement_def)
  next
    case retry
    then show ?thesis using u place by (intro commit_terminal_delivered [OF t keys u(1)]) (simp_all add: at_placement_def)
  next
    case new
    then show ?thesis using u by (intro deliver [of ?q ?h]) (simp_all add: at_placement_def)
  qed
qed

section \<open>Quota and retry of upload creation\<close>

lemma create_upload_success:
  assumes inv: "lifecycle_inv db" and keys: "keyed t_id (transfers db)"
    and norm: "normalizeUploadPlacement u0 = Inr u" and new: "u_id u \<notin> u_id ` set (uploads db)"
    and c: "CreateUploadWithQuota u0 maxFiles maxBytes monthly guest now db = (Inr (), db')"
  shows "\<exists>t \<in> set (transfers db'). t_id t = u_transfer_id u \<and> t_file_count t \<le> maxFiles \<and> t_total_bytes t \<le> maxBytes"
    and "CreateUploadWithQuota u0 maxFiles' maxBytes' monthly' guest' later db' = (Inr (), db')"
proof -
  have "sql_first (\<lambda>x. u_id x = u_id u) (uploads db) = None" using new by (auto simp: sql_first_None key_in_image)
  then obtain t where len: "0 < u_length u" and first: "sql_first (\<lambda>t. t_id t = u_transfer_id u) (transfers db) = Some t"
    and i: "insert_charged_upload t u maxFiles maxBytes monthly guest now db = Inr db'"
    using c norm by (auto simp: CreateUploadWithQuota_def split: if_splits option.splits sum.splits)
  note t = sql_firstD [OF first]
  from i obtain x db2 where q: "t_file_count t + 1 \<le> maxFiles" "t_total_bytes t + u_length u \<le> maxBytes"
    and uc: "user_charge t u monthly now (db\<lparr>rate_limits := x, uploads := uploads db @ [fresh_upload u]\<rparr>) = Inr db2"
    and d: "db' = count_upload u db2" by (rule insert_charged_cases)
  have fr: "uploads db2 = uploads db @ [fresh_upload u]" "transfers db2 = transfers db"
    using uc reserve_frame(1,2) by (auto simp: user_charge_def split: if_splits)
  let ?f = "\<lambda>t. t\<lparr>t_file_count := t_file_count t + 1, t_total_bytes := t_total_bytes t + u_length u\<rparr>"
  have tr: "transfers db' = sql_update (\<lambda>t. t_id t = u_transfer_id u) ?f (transfers db)" by (simp add: d count_upload_def fr)
  have tm: "?f t \<in> set (transfers db')"
    using sql_update_mem [of t "transfers db" "\<lambda>t. t_id t = u_transfer_id u" ?f] t unfolding tr by simp
  then show "\<exists>t \<in> set (transfers db'). t_id t = u_transfer_id u \<and> t_file_count t \<le> maxFiles \<and> t_total_bytes t \<le> maxBytes"
    using q t by (intro bexI [of _ "?f t"]) simp_all
  have "keyed t_id (transfers db')" unfolding tr using keys by (simp add: keyed_update)
  then have "sql_count (\<lambda>t. t_id t = u_transfer_id u \<and> True) (transfers db') = 1"
    using keyed_count_1 [of t_id "transfers db'" "u_transfer_id u" "\<lambda>_. True"] tm t by force
  moreover have "sql_first (\<lambda>x. u_id x = u_id u) (uploads db') = Some (fresh_upload u)"
  proof -
    have "uploads db' = uploads db @ [fresh_upload u]" by (simp add: d count_upload_def fr)
    then show ?thesis using new \<open>sql_first (\<lambda>x. u_id x = u_id u) (uploads db) = None\<close>
      by (simp add: sql_first_append fresh_upload_def)
  qed
  moreover have "same_upload (fresh_upload u) u" by (simp add: same_upload_def fresh_upload_def)
  ultimately show "CreateUploadWithQuota u0 maxFiles' maxBytes' monthly' guest' later db' = (Inr (), db')"
    using norm len by (simp add: CreateUploadWithQuota_def)
qed

section \<open>Concrete uploads\<close>

definition owned_transfer :: transfer where
  "owned_transfer = demo_transfer\<lparr>t_owner_type := ''user'', t_owner_id := ''u'', t_total_bytes := 0, t_file_count := 0\<rparr>"

definition owner_demo :: cdb where
  "owner_demo = empty_cdb\<lparr>transfers := [owned_transfer],
     users := [\<lparr>us_id = ''u'', us_email = ''e'', us_username = ''n'', us_password_hash = '''',
       us_status = UserActive, us_role = RoleUser, us_vip_plan = '''', us_vip_expires_at = 0,
       us_must_change_password = False, us_created_at = 0, us_verified_at = 0, us_last_login_at = 0\<rparr>]\<rparr>"

definition node_upload :: upload where
  "node_upload = demo_upload\<lparr>u_status := Uploading, u_offset := 0, u_object_path := '''', u_storage_kind := StorageKindNode,
     u_storage_node_id := ''n1'', u_storage_key := ''f''\<rparr>"

definition uploading_demo :: cdb where
  "uploading_demo = snd (CreateUploadWithQuota node_upload 5 100 50 0 7 owner_demo)"

lemma owner_demo_inv: "lifecycle_inv owner_demo" "lifecycle_inv uploading_demo" "keyed t_id (transfers owner_demo)"
  by code_simp+

section \<open>Properties\<close>

text \<open>C9. No file becomes downloadable without its traffic paid. From any consistent state, after any
  sequence of creating, writing, finishing, scanning, blocking, deleting and remote completion in any
  order, every upload that is uploaded, being scanned or ready has no charge that is merely reserved or
  refunded, and the traffic ledger is consistent.\<close>

theorem accepted_files_paid:
  assumes "lifecycle_inv db0" "upload_reachable db0 db"
  shows "traffic_inv db \<and> (\<forall>u \<in> set (uploads db). u_status u = Uploaded \<or> u_status u = Scanning \<or> u_status u = Ready \<longrightarrow>
    (\<forall>c \<in> set (charges db). c_upload_id c = u_id u \<longrightarrow> c_status c = ChargeSettled \<or> c_status c = ChargeGrandfathered))"
  using upload_reachable_inv [OF assms(2,1)]
  unfolding lifecycle_inv_def accepted_paid_def accepted_def charge_paid_def by blast

theorem accepted_files_paid_witness:
  "\<exists>db. upload_reachable owner_demo db \<and> map u_status (uploads db) = [Ready] \<and> length (charges db) = 1 \<and>
     (\<forall>u \<in> set (uploads db). \<forall>c \<in> set (charges db). c_upload_id c = u_id u \<longrightarrow>
        c_status c = ChargeSettled \<or> c_status c = ChargeGrandfathered)"
proof -
  let ?db = "snd (CompleteRemoteUploadPlacement ''f'' ''n1'' ''f'' 1 Ready ''h'' '''' 9 uploading_demo)"
  have r: "upload_reachable owner_demo ?db"
    unfolding uploading_demo_def
    by (rule upload_reachable.more [OF upload_reachable.more [OF upload_reachable.start upload_step.create] upload_step.remote])
  have "map u_status (uploads ?db) = [Ready]" "length (charges ?db) = 1"
    "\<forall>u \<in> set (uploads ?db). u_status u = Ready" by code_simp+
  moreover from this have "\<forall>u \<in> set (uploads ?db). \<forall>c \<in> set (charges ?db). c_upload_id c = u_id u \<longrightarrow>
        c_status c = ChargeSettled \<or> c_status c = ChargeGrandfathered"
    using accepted_files_paid [OF owner_demo_inv(1) r] by simp
  ultimately show ?thesis using r by (intro exI [of _ ?db] conjI) assumption+
qed

text \<open>C10. Creating an upload respects the transfer's quota and is safe to repeat: when a new upload is
  accepted the transfer's file count and bytes stay within the limits it was created under, and
  the same request sent again succeeds without charging or counting anything twice.\<close>

theorem create_upload_quota_retry:
  assumes "lifecycle_inv db" "keyed t_id (transfers db)" "normalizeUploadPlacement u0 = Inr u"
    "u_id u \<notin> u_id ` set (uploads db)"
    "CreateUploadWithQuota u0 maxFiles maxBytes monthly guest now db = (Inr (), db')"
  shows "(\<exists>t \<in> set (transfers db'). t_id t = u_transfer_id u \<and> t_file_count t \<le> maxFiles \<and> t_total_bytes t \<le> maxBytes) \<and>
    CreateUploadWithQuota u0 maxFiles' maxBytes' monthly' guest' later db' = (Inr (), db')"
  using create_upload_success [OF assms] by blast

theorem create_upload_quota_retry_witness:
  "(\<exists>t \<in> set (transfers uploading_demo). t_id t = ''t'' \<and> t_file_count t \<le> 5 \<and> t_total_bytes t \<le> 100) \<and>
   CreateUploadWithQuota node_upload 5 100 50 0 8 uploading_demo = (Inr (), uploading_demo)"
proof -
  have h: "normalizeUploadPlacement node_upload = Inr node_upload" "u_id node_upload \<notin> u_id ` set (uploads owner_demo)"
    "fst (CreateUploadWithQuota node_upload 5 100 50 0 7 owner_demo) = Inr ()" "u_transfer_id node_upload = ''t''"
    by code_simp+
  then have "CreateUploadWithQuota node_upload 5 100 50 0 7 owner_demo = (Inr (), uploading_demo)"
    unfolding uploading_demo_def by (metis prod.collapse)
  then show ?thesis
    using create_upload_quota_retry [OF owner_demo_inv(1,3) h(1,2), of 5 100 50 0 7 uploading_demo 5 100 50 0 8] h(4) by simp
qed

text \<open>C11. The verdict of a storage node is applied at most once: after a delivery succeeds, delivering the
  same verdict again succeeds and changes nothing (no second debit, no second version step), and a
  verdict with another digest for the same placement version is a conflict.\<close>

theorem remote_delivery_idempotent:
  assumes "lifecycle_inv db" "CompleteRemoteUploadPlacement i node key ver st sha det now db = (Inr (), db')"
  shows "CompleteRemoteUploadPlacement i node key ver st sha' det' later db' =
    (if sha' = sha then Inr () else Inl ErrConflict, db')"
proof -
  have c: "complete_placement i node key ver st sha det now db = Inr db'"
    and ok: "i \<noteq> ''''" "node \<noteq> ''''" "key \<noteq> ''''" "1 \<le> ver" "st = Ready \<or> st = Blocked \<or> st = Quarantined"
    using assms(2) by (auto simp: CompleteRemoteUploadPlacement_def split: if_splits sum.splits)
  have inv': "lifecycle_inv db'" using complete_placement_inv [OF assms(1) c] .
  have "delivered i node key ver st sha db'"
    using complete_placement_delivered [OF _ _ c] assms(1) by (simp add: lifecycle_inv_def)
  then show ?thesis using delivered_retry [OF _ _ _ ok] inv' by (simp add: lifecycle_inv_def)
qed

theorem remote_delivery_idempotent_witness:
  "\<exists>db'. CompleteRemoteUploadPlacement ''f'' ''n1'' ''f'' 1 Blocked ''h'' ''virus'' 9 uploading_demo = (Inr (), db') \<and>
     CompleteRemoteUploadPlacement ''f'' ''n1'' ''f'' 1 Blocked ''h'' ''again'' 10 db' = (Inr (), db') \<and>
     CompleteRemoteUploadPlacement ''f'' ''n1'' ''f'' 1 Blocked ''other'' ''again'' 10 db' = (Inl ErrConflict, db')"
proof -
  let ?r = "CompleteRemoteUploadPlacement ''f'' ''n1'' ''f'' 1 Blocked ''h'' ''virus'' 9 uploading_demo"
  have "fst ?r = Inr ()" by code_simp
  then have eq: "?r = (Inr (), snd ?r)" by (metis prod.collapse)
  have ne: "''other'' \<noteq> ''h''" by simp
  show ?thesis
    using remote_delivery_idempotent [OF owner_demo_inv(2) eq, of "''h''" "''again''" 10]
      remote_delivery_idempotent [OF owner_demo_inv(2) eq, of "''other''" "''again''" 10] eq ne by auto
qed

text \<open>C12. Maintenance never removes a file someone may still be downloading: an upload of an exhausted
  transfer that has a provisional or active session, or a stream in flight, is not a candidate
  unless it was an abandoned incomplete upload.\<close>

theorem maintenance_spares_live_files:
  assumes "keyed t_id (transfers db)" "t \<in> set (transfers db)" "t_status t = TransferExhausted"
    "(\<exists>s \<in> set (sessions db). s_transfer_id s = t_id t \<and> (s_status s = SessProvisional \<or> s_status s = SessActive)) \<or>
     (\<exists>d \<in> set (reservations db). d_transfer_id d = t_id t \<and> d_status d = ResConsuming)"
    "u \<in> set (fst (MaintenanceCandidates before now db))" "u_transfer_id u = t_id t"
  shows "u_status u = Uploading \<and> u_created_at u < before"
proof -
  let ?db = "expire_transfers now db"
  obtain x where x: "x \<in> set (transfers ?db)" "removable before ?db u x"
    using assms(5) by (auto simp: MaintenanceCandidates_def Let_def)
  have "keyed t_id (transfers ?db)" using assms(1) by (simp add: expire_transfers_def keyed_update)
  moreover have "t \<in> set (transfers ?db)"
    unfolding expire_transfers_def using assms(2,3) by (simp add: sql_update_keep)
  ultimately have "x = t" using keyed_unique [of t_id "transfers ?db" x t] x assms(6) by (simp add: removable_def)
  moreover have "sessions ?db = sessions db" "reservations ?db = reservations db" by (simp_all add: expire_transfers_def)
  ultimately show ?thesis using x(2) assms(3,4) by (auto simp: removable_def sql_exists_iff)
qed

theorem maintenance_spares_live_files_witness:
  "fst (MaintenanceCandidates 0 50 (session_demo ResConsuming)) = []"
proof (rule ccontr)
  assume "\<not> ?thesis"
  then obtain u where u: "u \<in> set (fst (MaintenanceCandidates 0 50 (session_demo ResConsuming)))" by (meson list.set_sel(1))
  then have "u \<in> set (uploads (session_demo ResConsuming))"
    by (auto simp: MaintenanceCandidates_def Let_def expire_transfers_def)
  then have du: "u_transfer_id u = ''t''" "u_status u = Ready" by (auto simp: session_demo_def share_demo_def demo_upload_def)
  let ?t = "hd (transfers (session_demo ResConsuming))"
  have "keyed t_id (transfers (session_demo ResConsuming))" "?t \<in> set (transfers (session_demo ResConsuming))"
    "t_status ?t = TransferExhausted" "t_id ?t = ''t''"
    "(\<exists>s \<in> set (sessions (session_demo ResConsuming)). s_transfer_id s = t_id ?t \<and> (s_status s = SessProvisional \<or> s_status s = SessActive)) \<or>
     (\<exists>d \<in> set (reservations (session_demo ResConsuming)). d_transfer_id d = t_id ?t \<and> d_status d = ResConsuming)"
    by code_simp+
  then show False using maintenance_spares_live_files [of "session_demo ResConsuming" ?t u 0 50] u du by simp
qed

text \<open>Revoking an exhausted transfer does nothing: the operation reports success, but the transfer
  stays exhausted and the sessions already opened on it stay usable, so recipients can go on
  downloading until their sessions end.\<close>

theorem revoke_exhausted_is_noop:
  assumes "keyed t_id (transfers db)" "t \<in> set (transfers db)" "t_status t = TransferExhausted"
  shows "RevokeTransfer (t_id t) db = (Inr (), db)"
proof -
  have "sql_update (\<lambda>x. t_id x = t_id t \<and> t_status x = TransferActive) f (transfers db) = transfers db" for f
  proof (intro sql_update_none notI)
    fix x assume "x \<in> set (transfers db)" "t_id x = t_id t \<and> t_status x = TransferActive"
    moreover from this have "x = t" using keyed_unique [OF assms(1) _ assms(2)] by simp
    ultimately show False using assms(3) by simp
  qed
  then show ?thesis by (simp add: RevokeTransfer_def)
qed

theorem revoke_exhausted_is_noop_witness:
  "RevokeTransfer ''t'' (session_demo ResConsuming) = (Inr (), session_demo ResConsuming)"
proof -
  let ?t = "hd (transfers (session_demo ResConsuming))"
  have "keyed t_id (transfers (session_demo ResConsuming))" "?t \<in> set (transfers (session_demo ResConsuming))"
    "t_status ?t = TransferExhausted" "t_id ?t = ''t''" by code_simp+
  then show ?thesis using revoke_exhausted_is_noop [of "session_demo ResConsuming" ?t] by simp
qed

end
