(* ===== verification/Go_Library.thy ===== *)
theory Go_Library
  imports QT_Prelude "HOL-Library.Sublist"
begin

text \<open>
  The functions of Go's standard library that the account and commerce stores use: text
  (\<^verbatim>\<open>strings.TrimSpace\<close>, \<^verbatim>\<open>ToLower\<close>, \<^verbatim>\<open>Fields\<close>, \<^verbatim>\<open>Join\<close>, truncation by runes, \<^verbatim>\<open>%d\<close>) and the
  calendar (\<^verbatim>\<open>time.Time.In(FixedZone)\<close>, \<^verbatim>\<open>Format\<close>, \<^verbatim>\<open>AddDate\<close>).

  A \<open>string\<close> is the byte sequence of a Go string. Texts that come from a request are valid UTF-8,
  as \<^verbatim>\<open>encoding/json\<close> delivers them. White space is what \<^verbatim>\<open>unicode.IsSpace\<close> accepts, listed by its
  UTF-8 encoding.
\<close>

section \<open>Text\<close>

definition bytes_of :: "nat list \<Rightarrow> string" where
  "bytes_of ns = map char_of ns"

definition go_spaces :: "string list" where
  "go_spaces =
    [[CHR 0x09], [CHR 0x0A], [CHR 0x0B], [CHR 0x0C], [CHR 0x0D], [CHR 0x20], [CHR 0xC2, CHR 0x85],
     [CHR 0xC2, CHR 0xA0], [CHR 0xE1, CHR 0x9A, CHR 0x80], [CHR 0xE2, CHR 0x80, CHR 0x80],
     [CHR 0xE2, CHR 0x80, CHR 0x81], [CHR 0xE2, CHR 0x80, CHR 0x82],
     [CHR 0xE2, CHR 0x80, CHR 0x83], [CHR 0xE2, CHR 0x80, CHR 0x84],
     [CHR 0xE2, CHR 0x80, CHR 0x85], [CHR 0xE2, CHR 0x80, CHR 0x86],
     [CHR 0xE2, CHR 0x80, CHR 0x87], [CHR 0xE2, CHR 0x80, CHR 0x88],
     [CHR 0xE2, CHR 0x80, CHR 0x89], [CHR 0xE2, CHR 0x80, CHR 0x8A],
     [CHR 0xE2, CHR 0x80, CHR 0xA8], [CHR 0xE2, CHR 0x80, CHR 0xA9],
     [CHR 0xE2, CHR 0x80, CHR 0xAF], [CHR 0xE2, CHR 0x81, CHR 0x9F], [CHR 0xE3, CHR 0x80, CHR 0x80]]"

text \<open>The number of bytes of the pattern the text starts with, 0 if it starts with none.\<close>

definition leading :: "string list \<Rightarrow> string \<Rightarrow> nat" where
  "leading ws s = (case find (\<lambda>w. w = take (length w) s) ws of None \<Rightarrow> 0 | Some w \<Rightarrow> length w)"

lemma leading_le: "leading ws s \<le> length s"
proof (cases "find (\<lambda>w. w = take (length w) s) ws")
  case (Some w)
  then have "w = take (length w) s" by (auto simp: find_Some_iff)
  then have "length w \<le> length s" by (metis length_take min.cobounded1)
  with Some show ?thesis by (simp add: leading_def)
qed (simp add: leading_def)

function trim_leading :: "string list \<Rightarrow> string \<Rightarrow> string" where
  "trim_leading ws s = (if leading ws s = 0 then s else trim_leading ws (drop (leading ws s) s))"
  by pat_completeness auto
termination
proof (relation "measure (length \<circ> snd)")
  fix ws s assume "leading ws s \<noteq> 0"
  then show "((ws, drop (leading ws s) s), (ws, s)) \<in> measure (length \<circ> snd)"
    using leading_le [of ws s] by simp
qed simp

declare trim_leading.simps [simp del]

definition TrimSpace :: "string \<Rightarrow> string" where
  "TrimSpace s = rev (trim_leading (map rev go_spaces) (rev (trim_leading go_spaces s)))"

text \<open>Lower case of ASCII letters and of the two other runes whose lower case is ASCII (U+0130 and
  U+212A). The remaining runes stay what they are: the stores compare lowered text with ASCII
  constants only.\<close>

definition lower_char :: "char \<Rightarrow> char" where
  "lower_char c = (if CHR ''A'' \<le> c \<and> c \<le> CHR ''Z'' then char_of (of_char c + 32 :: nat) else c)"

fun ToLower :: "string \<Rightarrow> string" where
  "ToLower (a # b # s) =
     (if a = CHR 0xC4 \<and> b = CHR 0xB0 then CHR ''i'' # ToLower s
      else if a = CHR 0xE2 \<and> b = CHR 0x84 \<and> take 1 s = [CHR 0xAA] then CHR ''k'' # ToLower (drop 1 s)
      else lower_char a # ToLower (b # s))"
| "ToLower [a] = [lower_char a]"
| "ToLower [] = []"

text \<open>Truncation to a number of runes: bytes \<open>10xxxxxx\<close> continue a rune.\<close>

definition continuation :: "char \<Rightarrow> bool" where
  "continuation c \<longleftrightarrow> CHR 0x80 \<le> c \<and> c \<le> CHR 0xBF"

fun take_runes :: "nat \<Rightarrow> string \<Rightarrow> string" where
  "take_runes n [] = []"
| "take_runes n (c # s) =
     (if continuation c then c # take_runes n s
      else case n of 0 \<Rightarrow> [] | Suc m \<Rightarrow> c # take_runes m s)"

text \<open>cleanText of server.go, which several stores and handlers share.\<close>

definition cleanText :: "string \<Rightarrow> nat \<Rightarrow> string" where
  "cleanText value maxRunes = take_runes maxRunes (TrimSpace (filter (\<lambda>c. c \<noteq> CHR 0x00) value))"

text \<open>\<^verbatim>\<open>strings.Fields\<close> with the field read so far, and \<^verbatim>\<open>strings.Join\<close>.\<close>

function fields_from :: "string \<Rightarrow> string \<Rightarrow> string list" where
  "fields_from cur s =
     (if s = [] then (if cur = [] then [] else [cur])
      else if leading go_spaces s = 0 then fields_from (cur @ [hd s]) (tl s)
      else (if cur = [] then [] else [cur]) @ fields_from [] (drop (leading go_spaces s) s))"
  by pat_completeness auto
termination
proof (relation "measure (length \<circ> snd)")
  fix cur s :: string assume "s \<noteq> []" "leading go_spaces s \<noteq> 0"
  then show "(([], drop (leading go_spaces s) s), (cur, s)) \<in> measure (length \<circ> snd)"
    using leading_le [of go_spaces s] by simp
qed auto

declare fields_from.simps [simp del]

definition Fields :: "string \<Rightarrow> string list" where
  "Fields s = fields_from [] s"

fun Join :: "string list \<Rightarrow> string \<Rightarrow> string" where
  "Join [] sep = []"
| "Join [x] sep = x"
| "Join (x # y # xs) sep = x @ sep @ Join (y # xs) sep"

text \<open>Decimal numerals, and \<^verbatim>\<open>%04d\<close>, \<^verbatim>\<open>%02d\<close> of the calendar.\<close>

definition digit :: "nat \<Rightarrow> char" where
  "digit n = char_of (48 + n mod 10)"

fun decimal :: "nat \<Rightarrow> string" where
  "decimal n = (if n < 10 then [digit n] else decimal (n div 10) @ [digit n])"

declare decimal.simps [simp del]

definition show_int :: "int \<Rightarrow> string" where
  "show_int i = (if i < 0 then CHR ''-'' # decimal (nat (- i)) else decimal (nat i))"

definition pad2 :: "nat \<Rightarrow> string" where
  "pad2 n = [digit (n div 10), digit n]"

definition pad4 :: "nat \<Rightarrow> string" where
  "pad4 n = [digit (n div 1000), digit (n div 100), digit (n div 10), digit n]"

section \<open>Calendar\<close>

text \<open>The proleptic Gregorian date of a day counted from 1970-01-01, and back. Years are counted
  from March, in eras of 400 years.\<close>

definition civil_from_days :: "int \<Rightarrow> int \<times> int \<times> int" where
  "civil_from_days day =
     (let z = day + 719468; era = z div 146097; doe = z mod 146097;
          yoe = (doe - doe div 1460 + doe div 36524 - doe div 146096) div 365;
          doy = doe - (365 * yoe + yoe div 4 - yoe div 100);
          mp = (5 * doy + 2) div 153;
          d = doy - (153 * mp + 2) div 5 + 1;
          m = (if mp < 10 then mp + 3 else mp - 9)
      in (yoe + era * 400 + (if m \<le> 2 then 1 else 0), m, d))"

definition days_from_civil :: "int \<times> int \<times> int \<Rightarrow> int" where
  "days_from_civil ymd =
     (case ymd of (y, m, d) \<Rightarrow>
        let y' = (if m \<le> 2 then y - 1 else y); era = y' div 400; yoe = y' mod 400;
            doy = (153 * (if m > 2 then m - 3 else m + 9) + 2) div 5 + d - 1;
            doe = yoe * 365 + yoe div 4 - yoe div 100 + doy
        in era * 146097 + doe - 719468)"

text \<open>The date in a zone at a fixed number of seconds east of UTC, formatted \<^verbatim>\<open>2006-01-02\<close> and
  \<^verbatim>\<open>2006-01\<close> (years 0 to 9999).\<close>

definition local_day :: "int \<Rightarrow> unix_time \<Rightarrow> int" where
  "local_day offset t = (t + offset) div 86400"

definition format_date :: "int \<Rightarrow> string" where
  "format_date day = (case civil_from_days day of (y, m, d) \<Rightarrow>
     pad4 (nat y) @ ''-'' @ pad2 (nat m) @ ''-'' @ pad2 (nat d))"

definition format_month :: "int \<Rightarrow> string" where
  "format_month day = (case civil_from_days day of (y, m, d) \<Rightarrow> pad4 (nat y) @ ''-'' @ pad2 (nat m))"

text \<open>\<^verbatim>\<open>time.Unix(now,0).AddDate(years,0,0).Unix()\<close> in such a zone. The 29th of February of a year
  that has none is the 1st of March.\<close>

definition add_years :: "int \<Rightarrow> int \<Rightarrow> unix_time \<Rightarrow> unix_time" where
  "add_years offset years t =
     (case civil_from_days (local_day offset t) of (y, m, d) \<Rightarrow>
        days_from_civil (y + years, m, d) * 86400 + (t + offset) mod 86400 - offset)"

section \<open>Lemmas\<close>

lemma trim_leading_none:
  "leading ws s = 0 \<Longrightarrow> trim_leading ws s = s"
  by (simp add: trim_leading.simps)

lemma trim_leading_suffix: "suffix (trim_leading ws s) s"
proof (induction ws s rule: trim_leading.induct)
  case (1 ws s)
  show ?case
  proof (cases "leading ws s = 0")
    case True
    then show ?thesis by (simp add: trim_leading_none)
  next
    case False
    then have "suffix (trim_leading ws s) (drop (leading ws s) s)"
      using "1.IH" by (simp add: trim_leading.simps [of ws s])
    then show ?thesis using suffix_drop suffix_order.trans by blast
  qed
qed

lemma leading_0:
  assumes "\<And>w. w \<in> set ws \<Longrightarrow> w \<noteq> [] \<and> hd w \<noteq> c"
  shows "leading ws (c # s) = 0"
proof -
  have "w \<noteq> take (length w) (c # s)" if "w \<in> set ws" for w
    using assms [OF that] by (cases w) auto
  then have "find (\<lambda>w. w = take (length w) (c # s)) ws = None" by (auto simp: find_None_iff)
  then show ?thesis by (simp add: leading_def)
qed

lemma leading_Nil: "(\<And>w. w \<in> set ws \<Longrightarrow> w \<noteq> []) \<Longrightarrow> leading ws [] = 0"
  using leading_le [of ws "[]"] by simp

text \<open>Text that starts and ends with a printable ASCII character has nothing to trim.\<close>

definition printable :: "char \<Rightarrow> bool" where
  "printable c \<longleftrightarrow> CHR ''!'' \<le> c \<and> c \<le> CHR ''~''"

lemma space_no_printable_hd:
  assumes "w \<in> set go_spaces" "printable c"
  shows "w \<noteq> [] \<and> hd w \<noteq> c \<and> last w \<noteq> c"
proof -
  have "list_all (\<lambda>w. w \<noteq> [] \<and> \<not> printable (hd w) \<and> \<not> printable (last w)) go_spaces"
    by code_simp
  with assms show ?thesis by (auto simp: list_all_iff)
qed

lemma TrimSpace_id:
  assumes "s \<noteq> []" "printable (hd s)" "printable (last s)"
  shows "TrimSpace s = s"
proof -
  have 1: "leading go_spaces s = 0"
    using assms(1,2) space_no_printable_hd by (cases s) (auto intro!: leading_0)
  obtain c t where t: "rev s = c # t" using assms(1) by (cases "rev s") auto
  then have "last s = c" by (metis hd_rev list.sel(1))
  then have "leading (map rev go_spaces) (rev s) = 0"
    unfolding t using space_no_printable_hd [OF _ assms(3)] by (intro leading_0) (auto simp: hd_rev)
  then show ?thesis using 1 by (simp add: TrimSpace_def trim_leading_none)
qed

lemma TrimSpace_Nil [simp]: "TrimSpace [] = []"
  by code_simp

text \<open>Trimming removes nothing but characters that are dropped anyway, when every blank pattern
  that the text can start with consists of them.\<close>

lemma trim_leading_filter:
  assumes "\<And>w. w \<in> set ws \<Longrightarrow> (\<forall>c \<in> set w. sep c) \<or> (\<exists>c \<in> set w. \<not> ok c)" "\<And>c. c \<in> set s \<Longrightarrow> ok c"
  shows "filter (\<lambda>c. \<not> sep c) (trim_leading ws s) = filter (\<lambda>c. \<not> sep c) s"
  using assms
proof (induction ws s rule: trim_leading.induct)
  case (1 ws s)
  show ?case
  proof (cases "leading ws s = 0")
    case False
    then obtain w where "find (\<lambda>w. w = take (length w) s) ws = Some w" and len: "leading ws s = length w"
      by (cases "find (\<lambda>w. w = take (length w) s) ws") (auto simp: leading_def)
    then have w: "w \<in> set ws" "w = take (length w) s" by (auto simp: find_Some_iff)
    have "\<forall>c \<in> set w. ok c" using w(2) 1(3) by (metis in_set_takeD)
    then have "filter (\<lambda>c. \<not> sep c) w = []" using 1(2) [OF w(1)] by (auto simp: filter_empty_conv)
    then have "filter (\<lambda>c. \<not> sep c) s = filter (\<lambda>c. \<not> sep c) (drop (leading ws s) s)"
      using w(2) len by (metis append_take_drop_id filter_append self_append_conv2)
    moreover have "filter (\<lambda>c. \<not> sep c) (trim_leading ws (drop (leading ws s) s)) = filter (\<lambda>c. \<not> sep c) (drop (leading ws s) s)"
      using 1(2,3) by (intro "1.IH" [OF False]) (auto dest: in_set_dropD)
    ultimately show ?thesis using False by (simp add: trim_leading.simps [of ws s])
  qed (simp add: trim_leading_none)
qed

lemma TrimSpace_filter:
  assumes "\<And>w. w \<in> set go_spaces \<Longrightarrow> (\<forall>c \<in> set w. sep c) \<or> (\<exists>c \<in> set w. \<not> ok c)" "\<And>c. c \<in> set s \<Longrightarrow> ok c"
  shows "filter (\<lambda>c. \<not> sep c) (TrimSpace s) = filter (\<lambda>c. \<not> sep c) s"
proof -
  let ?t = "trim_leading go_spaces s"
  have ok: "ok c" if "c \<in> set ?t" for c
    using that assms(2) set_mono_suffix [OF trim_leading_suffix [of go_spaces s]] by blast
  have "filter (\<lambda>c. \<not> sep c) (trim_leading (map rev go_spaces) (rev ?t)) = filter (\<lambda>c. \<not> sep c) (rev ?t)"
  proof (rule trim_leading_filter [where ok = ok])
    fix w assume "w \<in> set (map rev go_spaces)"
    then obtain v where "v \<in> set go_spaces" "w = rev v" by auto
    then show "(\<forall>c \<in> set w. sep c) \<or> (\<exists>c \<in> set w. \<not> ok c)" using assms(1) [of v] by simp
  qed (use ok in simp)
  then have "filter (\<lambda>c. \<not> sep c) (TrimSpace s) = filter (\<lambda>c. \<not> sep c) ?t"
    by (simp add: TrimSpace_def rev_filter [symmetric])
  then show ?thesis using trim_leading_filter [OF assms, where s = s] by simp
qed

end
