(* ===== verification/Membership.thy ===== *)
theory Membership
  imports Upload_Traffic Go_Library
begin

text \<open>
  What the commerce stores do to an account, shared by redemption, orders, welfare and identity: VIP
  plans (redemption_store.go, identity_store.go), the points ledger (addPointsTx), traffic
  entitlements (\<^verbatim>\<open>INSERT INTO resource_entitlements\<close>) and audit rows (insertAuditTx). Random
  identifiers are arguments.
\<close>

section \<open>VIP plans\<close>

definition normalizeVIPBenefit :: "string \<Rightarrow> int \<Rightarrow> (string \<times> int) result" where
  "normalizeVIPBenefit plan0 days0 =
     (let plan = ToLower (TrimSpace plan0)
      in if plan \<noteq> ''monthly'' \<and> plan \<noteq> ''yearly'' \<and> plan \<noteq> ''lifetime'' then Inl ErrInvalidRedemption
         else let wantDays = (if plan = ''monthly'' then 30 else if plan = ''yearly'' then 365 else 0);
                  days = (if days0 = 0 \<and> plan \<noteq> ''lifetime'' then wantDays else days0)
              in if days \<noteq> wantDays then Inl ErrInvalidRedemption else Inr (plan, days))"

definition vipPlanRank :: "string \<Rightarrow> int" where
  "vipPlanRank plan =
     (let p = ToLower (TrimSpace plan)
      in if p = ''monthly'' then 1 else if p = ''yearly'' then 2 else if p = ''lifetime'' then 3 else 0)"

definition canonicalVIPPlan :: "string \<Rightarrow> string" where
  "canonicalVIPPlan value =
     (let p = ToLower (TrimSpace value)
      in if p \<in> {''month'', ''monthly''} then ''monthly''
         else if p \<in> {''year'', ''yearly'', ''annual''} then ''yearly''
         else if p \<in> {''life'', ''lifetime'', ''permanent''} then ''lifetime''
         else ''none'')"

definition activeVIPPlan :: "string \<Rightarrow> unix_time \<Rightarrow> unix_time \<Rightarrow> string" where
  "activeVIPPlan value expiresAt now =
     (let plan = canonicalVIPPlan value
      in if plan = ''lifetime'' then plan
         else if (plan = ''monthly'' \<or> plan = ''yearly'') \<and> expiresAt > now then plan
         else '''')"

definition set_vip :: "ident \<Rightarrow> string \<Rightarrow> unix_time \<Rightarrow> cdb \<Rightarrow> cdb result" where
  "set_vip userID plan expiresAt db =
     (if sql_count (\<lambda>u. us_id u = userID) (users db) \<noteq> 1 then Inl ErrNotFound
      else Inr (db\<lparr>users := sql_update (\<lambda>u. us_id u = userID)
        (\<lambda>u. u\<lparr>us_vip_plan := plan, us_vip_expires_at := expiresAt\<rparr>) (users db)\<rparr>))"

definition applyVIPBenefitTx :: "ident \<Rightarrow> string \<Rightarrow> int \<Rightarrow> unix_time \<Rightarrow> cdb \<Rightarrow> cdb result" where
  "applyVIPBenefitTx userID plan0 days0 now db =
     (case normalizeVIPBenefit plan0 days0 of
        Inl e \<Rightarrow> Inl e
      | Inr (plan, days) \<Rightarrow>
        (case sql_first (\<lambda>u. us_id u = userID) (users db) of
           None \<Rightarrow> Inl ErrNotFound
         | Some u \<Rightarrow>
           (let currentPlan = ToLower (TrimSpace (us_vip_plan u))
            in if currentPlan = ''lifetime'' then Inr db
               else if plan = ''lifetime'' then set_vip userID ''lifetime'' 0 db
               else let activeCurrent = (us_vip_expires_at u > now);
                        base = (if activeCurrent then us_vip_expires_at u else now);
                        durationSeconds = i64 (days * 86400)
                    in if durationSeconds \<le> 0 \<or> base > max_int64 - durationSeconds
                       then Inl ErrInvalidRedemption
                       else set_vip userID
                         (if activeCurrent \<and> vipPlanRank currentPlan > vipPlanRank plan
                          then currentPlan else plan)
                         (base + durationSeconds) db)))"

section \<open>Points\<close>

definition addPointsTx ::
  "ident \<Rightarrow> ident \<Rightarrow> int \<Rightarrow> string \<Rightarrow> string \<Rightarrow> unix_time \<Rightarrow> cdb \<Rightarrow> cdb result" where
  "addPointsTx entryID userID delta reason eventKey now db =
     (case sql_first (\<lambda>a. a_user_id a = userID) (accounts db) of
        None \<Rightarrow> Inl ErrNoRows
      | Some a \<Rightarrow>
        (let nxt = i64 (a_points_balance a + delta)
         in if nxt < 0 then Inl ErrQuotaExceeded
            else if sql_exists (\<lambda>p. pl_id p = entryID \<or> pl_event_key p = eventKey) (points_ledger db) then Inr db
            else if \<not> user_exists db userID then Inl ErrConstraint
            else Inr (db\<lparr>points_ledger := points_ledger db @
                    [\<lparr>pl_id = entryID, pl_user_id = userID, pl_delta = delta, pl_balance_after = nxt,
                      pl_reason = reason, pl_event_key = eventKey, pl_created_at = now\<rparr>],
                  accounts := sql_update (\<lambda>a. a_user_id a = userID)
                    (\<lambda>a. a\<lparr>a_points_balance := nxt, a_updated_at := now\<rparr>) (accounts db)\<rparr>)))"

section \<open>Entitlements and audit rows\<close>

definition grant_entitlement ::
  "ident \<Rightarrow> ident \<Rightarrow> int \<Rightarrow> unix_time \<Rightarrow> string \<Rightarrow> ident \<Rightarrow> unix_time \<Rightarrow> cdb \<Rightarrow> cdb result" where
  "grant_entitlement entitlementID userID amount expiresAt sourceType sourceID now db =
     (case sql_insert e_id \<lparr>e_id = entitlementID, e_user_id = userID, e_resource_type = TrafficResource,
              e_amount_bytes = amount, e_remaining_bytes = amount, e_expires_at = expiresAt,
              e_source_type = sourceType, e_source_id = sourceID, e_created_at = now\<rparr> (entitlements db) of
        Inl e \<Rightarrow> Inl e
      | Inr es \<Rightarrow> if user_exists db userID then Inr (db\<lparr>entitlements := es\<rparr>) else Inl ErrConstraint)"

definition insertAuditTx ::
  "ident \<Rightarrow> ident \<Rightarrow> string \<Rightarrow> string \<Rightarrow> ident \<Rightarrow> string \<Rightarrow> string \<Rightarrow> unix_time \<Rightarrow> cdb \<Rightarrow> cdb result" where
  "insertAuditTx auditID userID action targetType targetID detail ip createdAt db =
     (if auditID = '''' \<or> action = '''' then Inl ErrConflict
      else case sql_insert au_id \<lparr>au_id = auditID, au_user_id = userID, au_action = action,
              au_target_type = targetType, au_target_id = targetID, au_detail = detail, au_ip = ip,
              au_created_at = createdAt\<rparr> (audits db) of
             Inl e \<Rightarrow> Inl e
           | Inr t \<Rightarrow> Inr (db\<lparr>audits := t\<rparr>))"

definition defaultUsernameFromEmail :: "string \<Rightarrow> string" where
  "defaultUsernameFromEmail email =
     (case TrimSpace email of [] \<Rightarrow> bytes_of [0xE7, 0x94, 0xA8, 0xE6, 0x88, 0xB7] | c # s \<Rightarrow> take_runes 1 (c # s))"

section \<open>Facts about plans\<close>

lemma plan_text [simp]:
  "ToLower (TrimSpace ''monthly'') = ''monthly''" "ToLower (TrimSpace ''yearly'') = ''yearly''"
  "ToLower (TrimSpace ''lifetime'') = ''lifetime''" "ToLower (TrimSpace ''none'') = ''none''"
  "ToLower (TrimSpace '''') = ''''"
  by (subst TrimSpace_id, simp, code_simp, code_simp, code_simp)+ code_simp

text \<open>The plans the code itself stores in \<^verbatim>\<open>users.vip_plan\<close>.\<close>

definition stored_plans :: "string set" where
  "stored_plans = {'''', ''none'', ''monthly'', ''yearly'', ''lifetime''}"

lemma normalizeVIPBenefit_Inr:
  assumes "normalizeVIPBenefit p0 d0 = Inr (p, d)"
  shows "(p = ''monthly'' \<and> d = 30 \<or> p = ''yearly'' \<and> d = 365 \<or> p = ''lifetime'' \<and> d = 0) \<and>
    p = ToLower (TrimSpace p0)"
  using assms by (auto simp: normalizeVIPBenefit_def Let_def split: if_splits)

lemma vipPlanRank_text [simp]:
  "vipPlanRank ''monthly'' = 1" "vipPlanRank ''yearly'' = 2" "vipPlanRank ''lifetime'' = 3"
  "vipPlanRank ''none'' = 0" "vipPlanRank '''' = 0"
  by (simp_all add: vipPlanRank_def)

lemma vipPlanRank_normal: "normalizeVIPBenefit p0 d0 = Inr (p, d) \<Longrightarrow> vipPlanRank p0 = vipPlanRank p"
  by (auto dest: normalizeVIPBenefit_Inr simp: vipPlanRank_def)

lemma canonicalVIPPlan_text [simp]:
  "canonicalVIPPlan ''monthly'' = ''monthly''" "canonicalVIPPlan ''yearly'' = ''yearly''"
  "canonicalVIPPlan ''lifetime'' = ''lifetime''" "canonicalVIPPlan ''none'' = ''none''"
  "canonicalVIPPlan '''' = ''none''"
  by (simp_all add: canonicalVIPPlan_def)

text \<open>The rank a user enjoys at a time.\<close>

definition vip_rank_at :: "user \<Rightarrow> unix_time \<Rightarrow> int" where
  "vip_rank_at u t = vipPlanRank (activeVIPPlan (us_vip_plan u) (us_vip_expires_at u) t)"

lemma vip_rank_at_stored:
  assumes "us_vip_plan u \<in> stored_plans"
  shows "vip_rank_at u t = (if us_vip_plan u = ''lifetime'' then 3
     else if us_vip_expires_at u > t then vipPlanRank (us_vip_plan u) else 0)"
  using assms by (auto simp: vip_rank_at_def activeVIPPlan_def stored_plans_def Let_def)

section \<open>Facts about the VIP statement\<close>

lemma set_vip_Inr:
  assumes "set_vip i plan x db = Inr db'"
  shows "db' = db\<lparr>users := sql_update (\<lambda>u. us_id u = i)
    (\<lambda>u. u\<lparr>us_vip_plan := plan, us_vip_expires_at := x\<rparr>) (users db)\<rparr>"
  using assms by (simp add: set_vip_def split: if_splits)

text \<open>What a benefit turns the row of its user into.\<close>

definition vip_extended :: "string \<Rightarrow> int \<Rightarrow> unix_time \<Rightarrow> user \<Rightarrow> user" where
  "vip_extended plan days now u =
     (if us_vip_plan u = ''lifetime'' then u
      else if plan = ''lifetime'' then u\<lparr>us_vip_plan := ''lifetime'', us_vip_expires_at := 0\<rparr>
      else u\<lparr>us_vip_plan := (if us_vip_expires_at u > now \<and> vipPlanRank (us_vip_plan u) > vipPlanRank plan
               then us_vip_plan u else plan),
             us_vip_expires_at := (max now (us_vip_expires_at u)) + days * 86400\<rparr>)"

lemma stored_plan_lower: "p \<in> stored_plans \<Longrightarrow> ToLower (TrimSpace p) = p"
  by (auto simp: stored_plans_def)

lemma keyed_sql_first_row:
  assumes "keyed key t" "r \<in> set t" "key r = k"
  shows "sql_first (\<lambda>x. key x = k) t = Some r"
  using keyed_first [OF assms(1,2)] assms(3) by simp

lemma applyVIP_Inr:
  assumes key: "keyed us_id (users db)" and u: "u \<in> set (users db)" "us_vip_plan u \<in> stored_plans"
    and norm: "normalizeVIPBenefit p0 d0 = Inr (plan, days)"
    and ok: "applyVIPBenefitTx (us_id u) p0 d0 now db = Inr db'"
  shows "db' = db\<lparr>users := sql_update (\<lambda>x. us_id x = us_id u) (vip_extended plan days now) (users db)\<rparr>"
proof -
  have first: "sql_first (\<lambda>x. us_id x = us_id u) (users db) = Some u"
    using key u(1) by (rule keyed_first)
  have same: "sql_update (\<lambda>x. us_id x = us_id u) f (users db) = sql_update (\<lambda>x. us_id x = us_id u) g (users db)"
    if "f u = g u" for f g
    using that by (intro sql_update_cong) (auto dest: keyed_unique [OF key _ u(1)])
  have days: "plan \<noteq> ''lifetime'' \<Longrightarrow> i64 (days * 86400) = days * 86400"
    using normalizeVIPBenefit_Inr [OF norm] by (auto intro!: i64_id simp: max_int64_def)
  consider (kept) "us_vip_plan u = ''lifetime''"
    | (life) "us_vip_plan u \<noteq> ''lifetime''" "plan = ''lifetime''"
    | (timed) "us_vip_plan u \<noteq> ''lifetime''" "plan \<noteq> ''lifetime''" by blast
  then show ?thesis
  proof cases
    case kept
    then have "db' = db" using ok norm first by (simp add: applyVIPBenefitTx_def)
    moreover have "sql_update (\<lambda>x. us_id x = us_id u) (vip_extended plan days now) (users db) = users db"
      using same [of "vip_extended plan days now" "\<lambda>x. x"] kept
      by (simp add: vip_extended_def sql_update_def)
    ultimately show ?thesis by simp
  next
    case life
    then have "set_vip (us_id u) ''lifetime'' 0 db = Inr db'"
      using ok norm first by (simp add: applyVIPBenefitTx_def stored_plan_lower [OF u(2)])
    note row = set_vip_Inr [OF this]
    have "sql_update (\<lambda>x. us_id x = us_id u) (\<lambda>x. x\<lparr>us_vip_plan := ''lifetime'', us_vip_expires_at := 0\<rparr>) (users db) =
        sql_update (\<lambda>x. us_id x = us_id u) (vip_extended plan days now) (users db)"
      using life by (intro same) (simp add: vip_extended_def)
    then show ?thesis using row by simp
  next
    case timed
    let ?plan = "if us_vip_expires_at u > now \<and> vipPlanRank (us_vip_plan u) > vipPlanRank plan
      then us_vip_plan u else plan"
    let ?base = "if us_vip_expires_at u > now then us_vip_expires_at u else now"
    have "set_vip (us_id u) ?plan (?base + days * 86400) db = Inr db'"
      using ok norm first timed
      by (simp add: applyVIPBenefitTx_def stored_plan_lower [OF u(2)] Let_def days split: if_splits)
    note row = set_vip_Inr [OF this]
    have "sql_update (\<lambda>x. us_id x = us_id u)
          (\<lambda>x. x\<lparr>us_vip_plan := ?plan, us_vip_expires_at := ?base + days * 86400\<rparr>) (users db) =
        sql_update (\<lambda>x. us_id x = us_id u) (vip_extended plan days now) (users db)"
      using timed by (intro same) (simp add: vip_extended_def max_def)
    then show ?thesis using row by simp
  qed
qed

text \<open>At no time does a user hold a lower rank than without the benefit, and for the days of the
  benefit at least the rank it grants.\<close>

lemma vip_extended_rank:
  assumes "us_vip_plan u \<in> stored_plans" "normalizeVIPBenefit p0 d0 = Inr (plan, days)"
  shows "us_vip_plan (vip_extended plan days now u) \<in> stored_plans"
    and "now \<le> t \<Longrightarrow> vip_rank_at u t \<le> vip_rank_at (vip_extended plan days now u) t"
    and "t < now + days * 86400 \<Longrightarrow> vipPlanRank plan \<le> vip_rank_at (vip_extended plan days now u) t"
    and "plan = ''lifetime'' \<Longrightarrow> vip_rank_at (vip_extended plan days now u) t = 3"
proof -
  note plan = normalizeVIPBenefit_Inr [OF assms(2)]
  show stored: "us_vip_plan (vip_extended plan days now u) \<in> stored_plans"
    using assms(1) plan by (auto simp: vip_extended_def stored_plans_def)
  note at = vip_rank_at_stored [OF assms(1)] vip_rank_at_stored [OF stored]
  show "vip_rank_at u t \<le> vip_rank_at (vip_extended plan days now u) t" if "now \<le> t"
    using that assms(1) plan unfolding at by (auto simp: vip_extended_def stored_plans_def)
  show "vipPlanRank plan \<le> vip_rank_at (vip_extended plan days now u) t" if "t < now + days * 86400"
    using that assms(1) plan unfolding at by (auto simp: vip_extended_def stored_plans_def)
  show "vip_rank_at (vip_extended plan days now u) t = 3" if "plan = ''lifetime''"
    using that assms(1) unfolding at by (auto simp: vip_extended_def stored_plans_def)
qed

end
