(* ===== verification/Redemption.thy ===== *)
theory Redemption
  imports Membership
begin

text \<open>
  Redemption codes (redemption_store.go): batches of codes that an administrator creates and users
  redeem for upload traffic or VIP membership. The hash of a normalised code (\<^verbatim>\<open>tokenHash\<close>) and the
  encryption of the stored copy (\<^verbatim>\<open>sealRedemptionCode\<close>, redemption_code_protection.go: AES-GCM) are
  parameters; random bytes and identifiers are arguments.
\<close>

section \<open>Text of codes and batches\<close>

definition redemptionCodeAlphabet :: string where
  "redemptionCodeAlphabet = ''23456789ABCDEFGHJKLMNPQRSTUVWXYZ''"

abbreviation redemptionCodeCharacters :: nat where "redemptionCodeCharacters \<equiv> 16"
abbreviation maximumRedemptionBatchSize :: int where "maximumRedemptionBatchSize \<equiv> 500"
abbreviation maximumRedemptionTraffic :: int where
  "maximumRedemptionTraffic \<equiv> 100 * 1024 * 1024 * 1024 * 1024"

record RedemptionBatchSpec =
  sp_Kind :: string
  sp_Count :: int
  sp_TrafficBytes :: int
  sp_VIPPlan :: string
  sp_VIPDays :: int
  sp_ExpiresAt :: unix_time
  sp_Note :: string

definition normalizeRedemptionBatchSpec ::
  "int \<Rightarrow> RedemptionBatchSpec \<Rightarrow> unix_time \<Rightarrow> RedemptionBatchSpec result" where
  "normalizeRedemptionBatchSpec zone spec0 now =
     (let spec = spec0\<lparr>sp_Kind := ToLower (TrimSpace (sp_Kind spec0)),
                       sp_VIPPlan := ToLower (TrimSpace (sp_VIPPlan spec0)),
                       sp_Note := Join (Fields (cleanText (sp_Note spec0) 200)) '' ''\<rparr>
      in if sp_Count spec < 1 \<or> sp_Count spec > maximumRedemptionBatchSize then Inl ErrInvalidRedemption
         else if sp_ExpiresAt spec \<noteq> 0 \<and>
                 (sp_ExpiresAt spec \<le> now \<or> sp_ExpiresAt spec > add_years zone 10 now)
         then Inl ErrInvalidRedemption
         else if sp_Kind spec = ''traffic''
         then (if sp_TrafficBytes spec \<le> 0 \<or> sp_TrafficBytes spec > maximumRedemptionTraffic \<or>
                  sp_VIPPlan spec \<noteq> '''' \<or> sp_VIPDays spec \<noteq> 0
               then Inl ErrInvalidRedemption else Inr spec)
         else if sp_Kind spec = ''vip''
         then (if sp_TrafficBytes spec \<noteq> 0 then Inl ErrInvalidRedemption
               else case normalizeVIPBenefit (sp_VIPPlan spec) (sp_VIPDays spec) of
                      Inl e \<Rightarrow> Inl e
                    | Inr (plan, days) \<Rightarrow> Inr (spec\<lparr>sp_VIPPlan := plan, sp_VIPDays := days\<rparr>))
         else Inl ErrInvalidRedemption)"

definition generateRedemptionCode :: "nat list \<Rightarrow> string" where
  "generateRedemptionCode randomBytes =
     (let cs = map (\<lambda>v. redemptionCodeAlphabet ! (v mod 32)) randomBytes
      in ''QT-'' @ take 4 cs @ ''-'' @ take 4 (drop 4 cs) @ ''-'' @ take 4 (drop 8 cs) @ ''-'' @
         take 4 (drop 12 cs))"

definition code_separator :: "char \<Rightarrow> bool" where
  "code_separator c \<longleftrightarrow> c = CHR ''-'' \<or> c = CHR '' '' \<or> c = CHR 0x09 \<or> c = CHR 0x0D \<or> c = CHR 0x0A"

definition upper_char :: "char \<Rightarrow> char" where
  "upper_char c = (if CHR ''a'' \<le> c \<and> c \<le> CHR ''z'' then char_of (of_char c - 32 :: nat) else c)"

definition normalizeRedemptionCode :: "string \<Rightarrow> string result" where
  "normalizeRedemptionCode raw =
     (let compact = map upper_char (filter (\<lambda>c. \<not> code_separator c) (TrimSpace raw))
      in if length compact \<noteq> 2 + redemptionCodeCharacters \<or> take 2 compact \<noteq> ''QT''
         then Inl ErrInvalidRedemption
         else if list_ex (\<lambda>c. c \<notin> set redemptionCodeAlphabet) (drop 2 compact)
         then Inl ErrInvalidRedemption
         else Inr compact)"

definition maskRedemptionCode :: "string \<Rightarrow> string" where
  "maskRedemptionCode normalized =
     (if length normalized \<noteq> 2 + redemptionCodeCharacters then ''QT-****-****-****-****''
      else ''QT-****-****-****-'' @ drop (length normalized - 4) normalized)"

section \<open>Batches\<close>

record generated_code =
  g_id :: ident
  g_raw :: string
  g_hash :: string
  g_masked :: string
  g_protected :: string

text \<open>One round of the generating loop reads sixteen random bytes and, unless the code repeats, an
  identifier and the nonce of the encryption. The loop runs on the rounds the random source
  delivers; \<open>None\<close> when they are used up before the batch is complete.\<close>

type_synonym code_draw = "nat list \<times> ident \<times> string"

fun generate_codes ::
  "(string \<Rightarrow> string) \<Rightarrow> (string \<Rightarrow> string \<Rightarrow> string result) \<Rightarrow> nat \<Rightarrow> code_draw list \<Rightarrow> generated_code list \<Rightarrow>
   generated_code list result option" where
  "generate_codes tokenHash seal count draws generated =
     (if length generated \<ge> count then Some (Inr generated)
      else case draws of
             [] \<Rightarrow> None
           | (randomBytes, id', nonce) # rest \<Rightarrow>
             (let raw = generateRedemptionCode randomBytes
              in case normalizeRedemptionCode raw of
                   Inl e \<Rightarrow> Some (Inl e)
                 | Inr normalized \<Rightarrow>
                   (let hash = tokenHash normalized
                    in if hash \<in> g_hash ` set generated
                       then generate_codes tokenHash seal count rest generated
                       else case seal nonce raw of
                              Inl e \<Rightarrow> Some (Inl e)
                            | Inr protect \<Rightarrow>
                              generate_codes tokenHash seal count rest (generated @
                                [\<lparr>g_id = id', g_raw = raw, g_hash = hash,
                                  g_masked = maskRedemptionCode normalized, g_protected = protect\<rparr>]))))"

declare generate_codes.simps [simp del]

text \<open>\<^verbatim>\<open>INSERT INTO redemption_codes\<close>: primary key \<^verbatim>\<open>id\<close>, unique \<^verbatim>\<open>code_hash\<close>.\<close>

fun insert_codes :: "ident \<Rightarrow> unix_time \<Rightarrow> generated_code list \<Rightarrow> redemption_code list \<Rightarrow> redemption_code list result" where
  "insert_codes batchID now [] t = Inr t"
| "insert_codes batchID now (g # gs) t =
     (if sql_exists (\<lambda>k. k_code_hash k = g_hash g) t then Inl ErrConstraint
      else case sql_insert k_id \<lparr>k_id = g_id g, k_batch_id = batchID, k_code_hash = g_hash g,
              k_masked_code = g_masked g, k_protected_code = g_protected g, k_status = CodeActive,
              k_redeemed_by = '''', k_redeemed_at = 0, k_created_at = now\<rparr> t of
             Inl e \<Rightarrow> Inl e
           | Inr t' \<Rightarrow> insert_codes batchID now gs t')"

definition batch_row :: "ident \<Rightarrow> RedemptionBatchSpec \<Rightarrow> ident \<Rightarrow> unix_time \<Rightarrow> redemption_batch" where
  "batch_row batchID spec actorUserID now =
     \<lparr>b_id = batchID, b_kind = sp_Kind spec, b_quantity = sp_Count spec, b_traffic_bytes = sp_TrafficBytes spec,
      b_vip_plan = sp_VIPPlan spec, b_vip_days = sp_VIPDays spec, b_status = BatchActive,
      b_expires_at = sp_ExpiresAt spec, b_note = sp_Note spec, b_created_by = actorUserID,
      b_created_at = now, b_disabled_at = 0\<rparr>"

definition store_batch ::
  "ident \<Rightarrow> ident \<Rightarrow> ident \<Rightarrow> RedemptionBatchSpec \<Rightarrow> generated_code list \<Rightarrow> string \<Rightarrow> unix_time \<Rightarrow> cdb \<Rightarrow>
   ((redemption_batch \<times> string list) \<times> cdb) result" where
  "store_batch batchID auditID actorUserID spec generated ip now db =
     (case sql_insert b_id (batch_row batchID spec actorUserID now) (batches db) of
        Inl e \<Rightarrow> Inl e
      | Inr bs \<Rightarrow>
        (if \<not> user_exists db actorUserID then Inl ErrConstraint
         else case insert_codes batchID now generated (codes db) of
                Inl e \<Rightarrow> Inl e
              | Inr ks \<Rightarrow>
                (let detail = ''kind='' @ sp_Kind spec @ '';count='' @ show_int (sp_Count spec) @
                       (if sp_Kind spec = ''vip'' then '';plan='' @ sp_VIPPlan spec else '''')
                 in case insertAuditTx auditID actorUserID ''admin.redemption-batch.create'' ''redemption_batch''
                           batchID detail ip now (db\<lparr>batches := bs, codes := ks\<rparr>) of
                      Inl e \<Rightarrow> Inl e
                    | Inr db' \<Rightarrow> Inr ((batch_row batchID spec actorUserID now, map g_raw generated), db'))))"

definition CreateRedemptionBatch ::
  "(string \<Rightarrow> string) \<Rightarrow> (string \<Rightarrow> string \<Rightarrow> string result) \<Rightarrow> int \<Rightarrow> ident \<Rightarrow> ident \<Rightarrow> code_draw list \<Rightarrow>
   ident \<Rightarrow> RedemptionBatchSpec \<Rightarrow> string \<Rightarrow> unix_time \<Rightarrow> cdb \<Rightarrow>
   ((redemption_batch \<times> string list) result \<times> cdb) option" where
  "CreateRedemptionBatch tokenHash seal zone batchID auditID draws actorUserID spec0 ip now db =
     (case normalizeRedemptionBatchSpec zone spec0 now of
        Inl e \<Rightarrow> Some (Inl ErrInvalidRedemption, db)
      | Inr spec \<Rightarrow>
        (if TrimSpace actorUserID = '''' then Some (Inl ErrInvalidRedemption, db)
         else case generate_codes tokenHash seal (nat (sp_Count spec)) draws [] of
                None \<Rightarrow> None
              | Some (Inl e) \<Rightarrow> Some (Inl e, db)
              | Some (Inr generated) \<Rightarrow>
                Some (commit db (store_batch batchID auditID actorUserID spec generated ip now db))))"

definition redemptionBatchByIDTx :: "ident \<Rightarrow> cdb \<Rightarrow> redemption_batch result" where
  "redemptionBatchByIDTx batchID db =
     (case sql_first (\<lambda>b. b_id b = batchID) (batches db) of None \<Rightarrow> Inl ErrNoRows | Some b \<Rightarrow> Inr b)"

definition disable_batch :: "ident \<Rightarrow> ident \<Rightarrow> ident \<Rightarrow> string \<Rightarrow> unix_time \<Rightarrow> cdb \<Rightarrow> cdb result" where
  "disable_batch auditID batchID actorUserID ip now db =
     insertAuditTx auditID actorUserID ''admin.redemption-batch.disable'' ''redemption_batch'' batchID
       ''disabled'' ip now
       (db\<lparr>batches := sql_update (\<lambda>b. b_id b = batchID \<and> b_status b = BatchActive)
             (\<lambda>b. b\<lparr>b_status := BatchDisabled, b_disabled_at := now\<rparr>) (batches db),
           codes := sql_update (\<lambda>k. k_batch_id k = batchID \<and> k_status k = CodeActive)
             (\<lambda>k. k\<lparr>k_status := CodeDisabled\<rparr>) (codes db)\<rparr>)"

definition DisableRedemptionBatch ::
  "ident \<Rightarrow> ident \<Rightarrow> ident \<Rightarrow> string \<Rightarrow> unix_time \<Rightarrow> redemption_batch operation" where
  "DisableRedemptionBatch auditID batchID0 actorUserID ip now db =
     (let batchID = TrimSpace batchID0
      in if batchID = '''' \<or> TrimSpace actorUserID = '''' then (Inl ErrInvalidRedemption, db)
         else let changed = sql_count (\<lambda>b. b_id b = batchID \<and> b_status b = BatchActive) (batches db)
              in commit db
                (case (if changed = 1 then disable_batch auditID batchID actorUserID ip now db else Inr db) of
                   Inl e \<Rightarrow> Inl e
                 | Inr db' \<Rightarrow>
                   (case redemptionBatchByIDTx batchID db' of
                      Inl e \<Rightarrow> Inl (if e = ErrNoRows then ErrNotFound else e)
                    | Inr batch \<Rightarrow> if changed = 0 \<and> b_status batch \<noteq> BatchDisabled then Inl ErrConflict
                                   else Inr (batch, db'))))"

section \<open>Redeeming\<close>

text \<open>\<^verbatim>\<open>redemptionCodeSelect\<close>: a code joined with its batch.\<close>

definition redemption_record :: "string \<Rightarrow> cdb \<Rightarrow> (redemption_code \<times> redemption_batch) option" where
  "redemption_record hash db =
     (case sql_first (\<lambda>k. k_code_hash k = hash) (codes db) of
        None \<Rightarrow> None
      | Some k \<Rightarrow> (case sql_first (\<lambda>b. b_id b = k_batch_id k) (batches db) of
                     None \<Rightarrow> None | Some b \<Rightarrow> Some (k, b)))"

record Redemption =
  r_ID :: ident
  r_BatchID :: ident
  r_Kind :: string
  r_MaskedCode :: string
  r_Username :: string
  r_TrafficBytes :: int
  r_VIPPlan :: string
  r_VIPDays :: int
  r_VIPExpiresAt :: unix_time
  r_TrafficRemainingBytes :: int
  r_RedeemedAt :: unix_time

definition redemptionResultForRecord ::
  "ident \<Rightarrow> redemption_code \<Rightarrow> redemption_batch \<Rightarrow> unix_time \<Rightarrow> cdb \<Rightarrow> Redemption result" where
  "redemptionResultForRecord userID k b now db =
     (case sql_first (\<lambda>u. us_id u = userID) (users db) of
        None \<Rightarrow> Inl ErrNoRows
      | Some u \<Rightarrow>
        (case sql_first (\<lambda>a. a_user_id a = userID) (accounts db) of
           None \<Rightarrow> Inl ErrNoRows
         | Some a \<Rightarrow>
           (let paidTraffic = sql_sum (\<lambda>e. e_user_id e = userID \<and> e_resource_type e = TrafficResource \<and>
                                e_expires_at e > now) e_remaining_bytes (entitlements db)
            in Inr \<lparr>r_ID = k_id k, r_BatchID = b_id b, r_Kind = b_kind b, r_MaskedCode = k_masked_code k,
                    r_Username = (if TrimSpace (us_username u) = '''' then defaultUsernameFromEmail (us_email u)
                                  else us_username u),
                    r_TrafficBytes = b_traffic_bytes b, r_VIPPlan = us_vip_plan u, r_VIPDays = b_vip_days b,
                    r_VIPExpiresAt = us_vip_expires_at u,
                    r_TrafficRemainingBytes =
                      max 0 (a_free_traffic_remaining a + paidTraffic - a_traffic_reserved_bytes a),
                    r_RedeemedAt = k_redeemed_at k\<rparr>)))"

definition RedeemedRedemptionForUser ::
  "(string \<Rightarrow> string) \<Rightarrow> ident \<Rightarrow> string \<Rightarrow> unix_time \<Rightarrow> cdb \<Rightarrow> Redemption option result" where
  "RedeemedRedemptionForUser tokenHash userID rawCode now db =
     (case normalizeRedemptionCode rawCode of
        Inl e \<Rightarrow> Inl e
      | Inr normalized \<Rightarrow>
        (case redemption_record (tokenHash normalized) db of
           None \<Rightarrow> Inr None
         | Some (k, b) \<Rightarrow>
           (if k_status k \<noteq> CodeRedeemed \<or> k_redeemed_by k \<noteq> userID then Inr None
            else case redemptionResultForRecord userID k b now db of Inl e \<Rightarrow> Inl e | Inr r \<Rightarrow> Inr (Some r))))"

definition claim_code :: "ident \<Rightarrow> ident \<Rightarrow> unix_time \<Rightarrow> cdb \<Rightarrow> cdb result" where
  "claim_code codeID userID now db =
     (let hit = (\<lambda>k. k_id k = codeID \<and> k_status k = CodeActive)
      in if sql_exists hit (codes db) \<and> \<not> user_exists db userID then Inl ErrConstraint
         else if sql_count hit (codes db) \<noteq> 1 then Inl ErrRedemptionUnavailable
         else Inr (db\<lparr>codes := sql_update hit
           (\<lambda>k. k\<lparr>k_status := CodeRedeemed, k_redeemed_by := userID, k_redeemed_at := now\<rparr>) (codes db)\<rparr>))"

definition redemption_benefit ::
  "ident \<Rightarrow> ident \<Rightarrow> redemption_code \<Rightarrow> redemption_batch \<Rightarrow> unix_time \<Rightarrow> cdb \<Rightarrow> cdb result" where
  "redemption_benefit entitlementID userID k b now db =
     (if b_kind b = ''traffic''
      then (if b_traffic_bytes b \<le> 0 \<or> b_traffic_bytes b > maximumRedemptionTraffic then Inl ErrInvalidRedemption
            else grant_entitlement entitlementID userID (b_traffic_bytes b) permanentTrafficEntitlementExpiry
                   ''redemption'' (k_id k) now db)
      else if b_kind b = ''vip'' then applyVIPBenefitTx userID (b_vip_plan b) (b_vip_days b) now db
      else Inl ErrInvalidRedemption)"

definition redeem_active ::
  "ident \<Rightarrow> ident \<Rightarrow> ident \<Rightarrow> redemption_code \<Rightarrow> redemption_batch \<Rightarrow> string \<Rightarrow> unix_time \<Rightarrow> cdb \<Rightarrow>
   (Redemption \<times> cdb) result" where
  "redeem_active entitlementID auditID userID k b ip now db =
     (case claim_code (k_id k) userID now db of
        Inl e \<Rightarrow> Inl e
      | Inr db1 \<Rightarrow>
        (case redemption_benefit entitlementID userID k b now db1 of
           Inl e \<Rightarrow> Inl e
         | Inr db2 \<Rightarrow>
           (case insertAuditTx auditID userID ''redemption.redeem'' ''redemption_batch'' (b_id b)
                   (b_kind b @ (if b_kind b = ''vip'' then '';plan='' @ b_vip_plan b else '''')) ip now db2 of
              Inl e \<Rightarrow> Inl e
            | Inr db3 \<Rightarrow>
              (case redemptionResultForRecord userID
                      (k\<lparr>k_status := CodeRedeemed, k_redeemed_by := userID, k_redeemed_at := now\<rparr>) b now db3 of
                 Inl e \<Rightarrow> Inl e
               | Inr r \<Rightarrow> Inr (r, db3)))))"

definition redeem_hash ::
  "ident \<Rightarrow> ident \<Rightarrow> ident \<Rightarrow> string \<Rightarrow> string \<Rightarrow> unix_time \<Rightarrow> cdb \<Rightarrow> (Redemption \<times> cdb) result" where
  "redeem_hash entitlementID auditID userID hash ip now db =
     (if sql_count (\<lambda>k. k_code_hash k = hash) (codes db) \<noteq> 1 then Inl ErrRedemptionUnavailable
      else case redemption_record hash db of
             None \<Rightarrow> Inl ErrRedemptionUnavailable
           | Some (k, b) \<Rightarrow>
             (if k_status k = CodeRedeemed
              then (if k_redeemed_by k \<noteq> userID then Inl ErrRedemptionUnavailable
                    else case redemptionResultForRecord userID k b now db of
                           Inl e \<Rightarrow> Inl e | Inr r \<Rightarrow> Inr (r, db))
              else if k_status k \<noteq> CodeActive \<or> b_status b \<noteq> BatchActive \<or>
                      (b_expires_at b \<noteq> 0 \<and> b_expires_at b \<le> now)
              then Inl ErrRedemptionUnavailable
              else redeem_active entitlementID auditID userID k b ip now db))"

definition RedeemRedemptionCode ::
  "(string \<Rightarrow> string) \<Rightarrow> ident \<Rightarrow> ident \<Rightarrow> ident \<Rightarrow> string \<Rightarrow> string \<Rightarrow> unix_time \<Rightarrow> Redemption operation" where
  "RedeemRedemptionCode tokenHash entitlementID auditID userID rawCode ip now db =
     (case normalizeRedemptionCode rawCode of
        Inl e \<Rightarrow> (Inl e, db)
      | Inr normalized \<Rightarrow> commit db (redeem_hash entitlementID auditID userID (tokenHash normalized) ip now db))"

end
