(* ===== verification/Orders.thy ===== *)
theory Orders
  imports Membership
begin

text \<open>
  Products, orders and their payment (commerce_store.go), refunds and abuse reports (admin_store.go).
  Random identifiers are arguments; \<^verbatim>\<open>tokenHash\<close> is a parameter. The Chinese texts of the points
  ledger are their UTF-8 bytes.
\<close>

section \<open>Products and orders\<close>

definition ProductByID :: "ident \<Rightarrow> cdb \<Rightarrow> product result" where
  "ProductByID i db =
     (case sql_first (\<lambda>p. p_id p = i \<and> p_active p) (products db) of
        None \<Rightarrow> Inl ErrNotFound | Some p \<Rightarrow> Inr p)"

definition orderByIdempotencyKey :: "ident \<Rightarrow> string \<Rightarrow> cdb \<Rightarrow> order result" where
  "orderByIdempotencyKey userID key db =
     (case sql_first (\<lambda>x. o_user_id x = userID \<and> o_idempotency_key x = key) (orders db) of
        None \<Rightarrow> Inl ErrNotFound | Some x \<Rightarrow> Inr x)"

definition OrderByIDForUser :: "ident \<Rightarrow> ident \<Rightarrow> cdb \<Rightarrow> order result" where
  "OrderByIDForUser i userID db =
     (case sql_first (\<lambda>x. o_id x = i \<and> o_user_id x = userID) (orders db) of
        None \<Rightarrow> Inl ErrNotFound | Some x \<Rightarrow> Inr x)"

definition OrdersForUser :: "ident \<Rightarrow> cdb \<Rightarrow> order list" where
  "OrdersForUser userID db =
     take 100 (sort_key (\<lambda>x. - o_created_at x) (filter (\<lambda>x. o_user_id x = userID) (orders db)))"

definition payment_method_known :: "string \<Rightarrow> bool" where
  "payment_method_known method \<longleftrightarrow> method = ''sandbox'' \<or> method = ''points'' \<or> method = ''wechat'' \<or> method = ''alipay''"

definition pending_order :: "ident \<Rightarrow> string \<Rightarrow> ident \<Rightarrow> product \<Rightarrow> string \<Rightarrow> unix_time \<Rightarrow> order" where
  "pending_order i key userID p method now =
     \<lparr>o_id = i, o_idempotency_key = key, o_user_id = userID, o_product_id = p_id p, o_product_name = p_name p,
      o_price_cents = p_price_cents p, o_points_price = p_points_price p, o_payment_method = method,
      o_status = OrderPending, o_provider_transaction_id = '''', o_created_at = now, o_paid_at = 0,
      o_refunded_at = 0\<rparr>"

text \<open>The \<^verbatim>\<open>INSERT\<close> of CreateOrder runs outside a transaction, after the two lookups, so it is an
  operation of its own: another request may have stored the same idempotency key in between. The
  unique index on owner and key then sends the caller to the stored order.\<close>

definition insert_order :: "order \<Rightarrow> order operation" where
  "insert_order ord db =
     (if sql_exists (\<lambda>x. o_id x = o_id ord \<or> (o_idempotency_key ord \<noteq> '''' \<and>
           o_user_id x = o_user_id ord \<and> o_idempotency_key x = o_idempotency_key ord)) (orders db)
      then (orderByIdempotencyKey (o_user_id ord) (o_idempotency_key ord) db, db)
      else if \<not> user_exists db (o_user_id ord) \<or> \<not> sql_exists (\<lambda>p. p_id p = o_product_id ord) (products db)
      then (Inl ErrConstraint, db)
      else (Inr ord, db\<lparr>orders := orders db @ [ord]\<rparr>))"

definition CreateOrder ::
  "ident \<Rightarrow> ident \<Rightarrow> ident \<Rightarrow> string \<Rightarrow> string \<Rightarrow> unix_time \<Rightarrow> order operation" where
  "CreateOrder i userID productID method key now db =
     (if \<not> payment_method_known method \<or> key = '''' then (Inl ErrConflict, db)
      else case orderByIdempotencyKey userID key db of
             Inr existing \<Rightarrow> (Inr existing, db)
           | Inl _ \<Rightarrow>
             (case ProductByID productID db of
                Inl e \<Rightarrow> (Inl e, db)
              | Inr p \<Rightarrow> insert_order (pending_order i key userID p method now) db))"

section \<open>Payment\<close>

definition loadOrderProductTx :: "ident \<Rightarrow> ident \<Rightarrow> cdb \<Rightarrow> (order \<times> product) result" where
  "loadOrderProductTx orderID userID db =
     (case OrderByIDForUser orderID userID db of
        Inl e \<Rightarrow> Inl e
      | Inr ord \<Rightarrow>
        (case sql_first (\<lambda>p. p_id p = o_product_id ord) (products db) of
           None \<Rightarrow> Inl ErrNoRows | Some p \<Rightarrow> Inr (ord, p)))"

definition pay_row :: "ident \<Rightarrow> string \<Rightarrow> unix_time \<Rightarrow> cdb \<Rightarrow> cdb result" where
  "pay_row orderID transactionID now db =
     (let hit = (\<lambda>x. o_id x = orderID \<and> o_status x = OrderPending)
      in if sql_exists hit (orders db) \<and> transactionID \<noteq> '''' \<and>
            sql_exists (\<lambda>x. \<not> hit x \<and> o_provider_transaction_id x = transactionID) (orders db)
         then Inl ErrConstraint
         else if sql_count hit (orders db) \<noteq> 1 then Inl ErrConflict
         else Inr (db\<lparr>orders := sql_update hit (\<lambda>x. x\<lparr>o_status := OrderPaid,
                o_provider_transaction_id := transactionID, o_paid_at := now\<rparr>) (orders db)\<rparr>))"

text \<open>\<^verbatim>\<open>time.Duration(ValidDays) * 24 * time.Hour\<close> is a 64-bit number of nanoseconds.\<close>

definition product_expiry :: "product \<Rightarrow> unix_time \<Rightarrow> unix_time" where
  "product_expiry p now =
     (if p_valid_days p > 0 then now + i64 (p_valid_days p * (24 * 3600 * 1000000000)) div 1000000000
      else permanentTrafficEntitlementExpiry)"

definition order_traffic :: "ident \<Rightarrow> order \<Rightarrow> product \<Rightarrow> unix_time \<Rightarrow> cdb \<Rightarrow> cdb result" where
  "order_traffic entitlementID ord p now db =
     (if p_traffic_bytes p > 0
      then grant_entitlement entitlementID (o_user_id ord) (p_traffic_bytes p) (product_expiry p now)
             ''order'' (o_id ord) now db
      else Inr db)"

definition order_vip :: "order \<Rightarrow> product \<Rightarrow> unix_time \<Rightarrow> cdb \<Rightarrow> cdb result" where
  "order_vip ord p now db =
     (if p_vip_plan p \<noteq> '''' then applyVIPBenefitTx (o_user_id ord) (p_vip_plan p) (p_vip_days p) now db
      else Inr db)"

definition purchase_reward :: "order \<Rightarrow> int" where
  "purchase_reward ord = max 1 (go_div (o_price_cents ord) 10)"

definition text_purchase_reward :: string where
  "text_purchase_reward = bytes_of [0xE8, 0xB4, 0xAD, 0xE4, 0xB9, 0xB0, 0xE5, 0xA5, 0x96, 0xE5, 0x8A, 0xB1, 0x20]"
definition text_points_exchange :: string where
  "text_points_exchange = bytes_of [0xE7, 0xA7, 0xAF, 0xE5, 0x88, 0x86, 0xE5, 0x85, 0x91, 0xE6, 0x8D, 0xA2, 0x20]"
definition text_points_refund :: string where
  "text_points_refund = bytes_of [0xE7, 0xA7, 0xAF, 0xE5, 0x88, 0x86, 0xE8, 0xAE, 0xA2, 0xE5, 0x8D, 0x95, 0xE9, 0x80, 0x80, 0xE6, 0xAC, 0xBE, 0x20]"
definition text_reward_withdrawn :: string where
  "text_reward_withdrawn = bytes_of [0xE8, 0xB4, 0xAD, 0xE4, 0xB9, 0xB0, 0xE5, 0xA5, 0x96, 0xE5, 0x8A, 0xB1, 0xE6, 0x92, 0xA4, 0xE5, 0x9B, 0x9E, 0x20]"

definition order_reward :: "ident \<Rightarrow> bool \<Rightarrow> order \<Rightarrow> unix_time \<Rightarrow> cdb \<Rightarrow> cdb result" where
  "order_reward pointsID rewardPoints ord now db =
     (if rewardPoints \<and> o_price_cents ord > 0
      then addPointsTx pointsID (o_user_id ord) (purchase_reward ord) (text_purchase_reward @ o_product_name ord)
             (''order-reward:'' @ o_id ord) now db
      else Inr db)"

definition completeOrderTx ::
  "ident \<Rightarrow> ident \<Rightarrow> order \<Rightarrow> product \<Rightarrow> string \<Rightarrow> unix_time \<Rightarrow> bool \<Rightarrow> cdb \<Rightarrow> (order \<times> cdb) result" where
  "completeOrderTx entitlementID pointsID ord p transactionID now rewardPoints db =
     (if o_status ord \<noteq> OrderPending then Inl ErrConflict
      else case pay_row (o_id ord) transactionID now db of
             Inl e \<Rightarrow> Inl e
           | Inr db1 \<Rightarrow>
             (case order_traffic entitlementID ord p now db1 of
                Inl e \<Rightarrow> Inl e
              | Inr db2 \<Rightarrow>
                (case order_vip ord p now db2 of
                   Inl e \<Rightarrow> Inl e
                 | Inr db3 \<Rightarrow>
                   (case order_reward pointsID rewardPoints ord now db3 of
                      Inl e \<Rightarrow> Inl e
                    | Inr db4 \<Rightarrow> Inr (ord\<lparr>o_status := OrderPaid, o_paid_at := now,
                                   o_provider_transaction_id := transactionID\<rparr>, db4)))))"

text \<open>A payment event that was stored before is not an error: the order is answered as it is.\<close>

definition complete_sandbox ::
  "(string \<Rightarrow> string) \<Rightarrow> ident \<Rightarrow> ident \<Rightarrow> order \<Rightarrow> product \<Rightarrow> string \<Rightarrow> string \<Rightarrow> unix_time \<Rightarrow> cdb \<Rightarrow>
   (order \<times> cdb) result" where
  "complete_sandbox tokenHash entitlementID pointsID ord p eventID transactionID now db =
     (if o_payment_method ord \<noteq> ''sandbox'' then Inl ErrUnauthorized
      else if o_status ord = OrderPaid then Inr (ord, db)
      else case sql_insert pe_event_id \<lparr>pe_event_id = eventID, pe_order_id = o_id ord,
              pe_payload_hash = tokenHash (eventID @ '':'' @ transactionID @ '':'' @ o_id ord),
              pe_created_at = now\<rparr> (payment_events db) of
             Inl _ \<Rightarrow> Inr (ord, db)
           | Inr pes \<Rightarrow> completeOrderTx entitlementID pointsID ord p transactionID now True
                          (db\<lparr>payment_events := pes\<rparr>))"

definition CompleteSandboxOrder ::
  "(string \<Rightarrow> string) \<Rightarrow> ident \<Rightarrow> ident \<Rightarrow> ident \<Rightarrow> ident \<Rightarrow> string \<Rightarrow> string \<Rightarrow> unix_time \<Rightarrow> order operation" where
  "CompleteSandboxOrder tokenHash entitlementID pointsID orderID userID eventID transactionID now db =
     (case loadOrderProductTx orderID userID db of
        Inl e \<Rightarrow> (Inl e, db)
      | Inr (ord, p) \<Rightarrow>
        commit db (complete_sandbox tokenHash entitlementID pointsID ord p eventID transactionID now db))"

definition pay_with_points ::
  "ident \<Rightarrow> ident \<Rightarrow> order \<Rightarrow> product \<Rightarrow> unix_time \<Rightarrow> cdb \<Rightarrow> (order \<times> cdb) result" where
  "pay_with_points entitlementID pointsID ord p now db =
     (if o_payment_method ord \<noteq> ''points'' then Inl ErrUnauthorized
      else if o_status ord = OrderPaid then Inr (ord, db)
      else case addPointsTx pointsID (o_user_id ord) (i64 (- o_points_price ord))
                  (text_points_exchange @ o_product_name ord) (''order-spend:'' @ o_id ord) now db of
             Inl e \<Rightarrow> Inl e
           | Inr db' \<Rightarrow> completeOrderTx entitlementID pointsID ord p (''points-'' @ o_id ord) now False db')"

definition PayOrderWithPoints :: "ident \<Rightarrow> ident \<Rightarrow> ident \<Rightarrow> ident \<Rightarrow> unix_time \<Rightarrow> order operation" where
  "PayOrderWithPoints entitlementID pointsID orderID userID now db =
     (case loadOrderProductTx orderID userID db of
        Inl e \<Rightarrow> (Inl e, db)
      | Inr (ord, p) \<Rightarrow> commit db (pay_with_points entitlementID pointsID ord p now db))"

section \<open>Refunds\<close>

definition order_entitlement :: "ident \<Rightarrow> entitlement \<Rightarrow> bool" where
  "order_entitlement orderID e \<longleftrightarrow> e_source_type e = ''order'' \<and> e_source_id e = orderID"

definition order_consumed :: "ident \<Rightarrow> cdb \<Rightarrow> bool" where
  "order_consumed orderID db = sql_exists (\<lambda>e. order_entitlement orderID e \<and> e_resource_type e = TrafficResource \<and>
     e_remaining_bytes e \<noteq> e_amount_bytes e) (entitlements db)"

definition order_reserved :: "ident \<Rightarrow> cdb \<Rightarrow> bool" where
  "order_reserved orderID db = sql_exists (\<lambda>e. order_entitlement orderID e \<and> e_resource_type e = TrafficResource \<and>
     sql_exists (\<lambda>al. al_source_kind al = EntitlementSource \<and> al_source_id al = e_id e \<and>
        sql_exists (\<lambda>c. c_upload_id c = al_upload_id al \<and> c_status c = ChargeReserved) (charges db))
       (allocations db)) (entitlements db)"

text \<open>The points side of a refund; a failure to withdraw the reward is reported as ErrQuotaExceeded
  whatever its cause.\<close>

definition refund_points :: "ident \<Rightarrow> order \<Rightarrow> unix_time \<Rightarrow> cdb \<Rightarrow> cdb result" where
  "refund_points pointsID ord now db =
     (if o_payment_method ord = ''points''
      then addPointsTx pointsID (o_user_id ord) (o_points_price ord) (text_points_refund @ o_product_name ord)
             (''order-refund:'' @ o_id ord) now db
      else if o_price_cents ord > 0
      then (case addPointsTx pointsID (o_user_id ord) (i64 (- purchase_reward ord))
                   (text_reward_withdrawn @ o_product_name ord) (''order-reward-refund:'' @ o_id ord) now db of
              Inl _ \<Rightarrow> Inl ErrQuotaExceeded | Inr db' \<Rightarrow> Inr db')
      else Inr db)"

definition refund_rows :: "ident \<Rightarrow> unix_time \<Rightarrow> cdb \<Rightarrow> cdb" where
  "refund_rows orderID now db =
     db\<lparr>entitlements := sql_delete (order_entitlement orderID) (entitlements db),
        orders := sql_update (\<lambda>x. o_id x = orderID \<and> o_status x = OrderPaid)
          (\<lambda>x. x\<lparr>o_status := OrderRefunded, o_refunded_at := now\<rparr>) (orders db)\<rparr>"

definition RefundOrder :: "ident \<Rightarrow> ident \<Rightarrow> unix_time \<Rightarrow> order operation" where
  "RefundOrder pointsID orderID now db =
     (case sql_first (\<lambda>x. o_id x = orderID) (orders db) of
        None \<Rightarrow> (Inl ErrNotFound, db)
      | Some ord \<Rightarrow>
        (if o_status ord \<noteq> OrderPaid \<or> (o_payment_method ord \<noteq> ''sandbox'' \<and> o_payment_method ord \<noteq> ''points'')
         then (Inl ErrConflict, db)
         else case sql_first (\<lambda>p. p_id p = o_product_id ord) (products db) of
                None \<Rightarrow> (Inl ErrNoRows, db)
              | Some p \<Rightarrow>
                (if p_vip_plan p \<noteq> '''' then (Inl ErrConflict, db)
                 else if order_consumed orderID db then (Inl ErrQuotaExceeded, db)
                 else if order_reserved orderID db then (Inl ErrQuotaExceeded, db)
                 else case refund_points pointsID ord now db of
                        Inl e \<Rightarrow> (Inl e, db)
                      | Inr db1 \<Rightarrow>
                        (if sql_count (\<lambda>x. o_id x = orderID \<and> o_status x = OrderPaid) (orders db1) \<noteq> 1
                         then (Inl ErrConflict, db)
                         else (Inr (ord\<lparr>o_status := OrderRefunded, o_refunded_at := now\<rparr>),
                               refund_rows orderID now db1)))))"

section \<open>Abuse reports\<close>

definition CreateAbuseReport ::
  "ident \<Rightarrow> string \<Rightarrow> string \<Rightarrow> string \<Rightarrow> string \<Rightarrow> unix_time \<Rightarrow> unit operation" where
  "CreateAbuseReport i shareToken reason detail ip now db =
     (case sql_insert ar_id \<lparr>ar_id = i, ar_share_token = shareToken, ar_reason = reason, ar_detail = detail,
              ar_ip = ip, ar_status = ReportOpen, ar_created_at = now, ar_resolved_at = 0\<rparr> (reports db) of
        Inl e \<Rightarrow> (Inl e, db) | Inr t \<Rightarrow> (Inr (), db\<lparr>reports := t\<rparr>))"

text \<open>Resolving a report revokes the reported share.\<close>

definition SetReportStatus :: "ident \<Rightarrow> report_status \<Rightarrow> unix_time \<Rightarrow> string operation" where
  "SetReportStatus i status now db =
     (if status = ReportOpen then (Inl ErrConflict, db)
      else let hit = (\<lambda>r. ar_id r = i \<and> ar_status r = ReportOpen)
           in case sql_first hit (reports db) of
                None \<Rightarrow> (Inl ErrNotFound, db)
              | Some r \<Rightarrow>
                (if sql_count hit (reports db) \<noteq> 1 then (Inl ErrNotFound, db)
                 else let db1 = db\<lparr>reports := sql_update hit
                        (\<lambda>r. r\<lparr>ar_status := status, ar_resolved_at := now\<rparr>) (reports db)\<rparr>
                      in (Inr (ar_share_token r),
                          if status = ReportResolved
                          then db1\<lparr>transfers := sql_update
                                 (\<lambda>t. t_share_token t = ar_share_token r \<and> t_status t = TransferActive)
                                 (\<lambda>t. t\<lparr>t_status := TransferRevoked\<rparr>) (transfers db1)\<rparr>
                          else db1)))"

end
