(* ===== verification/Welfare.thy ===== *)
theory Welfare
  imports Membership
begin

text \<open>
  Daily benefits (welfare_store.go, vip_daily_login_store.go): the check-in reward and the traffic a
  VIP member receives with the first login of a day. Days are those of the fixed zone UTC+8. The
  random reward and the identifiers are arguments.
\<close>

section \<open>Days\<close>

abbreviation welfare_offset :: int where "welfare_offset \<equiv> 8 * 60 * 60"
abbreviation welfareMinimumMiB :: int where "welfareMinimumMiB \<equiv> 10"
abbreviation welfareMaximumMiB :: int where "welfareMaximumMiB \<equiv> 200"
abbreviation welfareBytesPerMiB :: int where "welfareBytesPerMiB \<equiv> 1024 * 1024"

definition secureWelfareRewardMiB :: "int \<Rightarrow> int" where
  "secureWelfareRewardMiB v = welfareMinimumMiB + v mod (welfareMaximumMiB - welfareMinimumMiB + 1)"

definition welfareDate :: "unix_time \<Rightarrow> string" where
  "welfareDate now = format_date (local_day welfare_offset now)"

definition welfareMonth :: "unix_time \<Rightarrow> string" where
  "welfareMonth now = format_month (local_day welfare_offset now)"

definition sameWelfareDate :: "unix_time \<Rightarrow> unix_time \<Rightarrow> bool" where
  "sameWelfareDate timestamp now \<longleftrightarrow> timestamp > 0 \<and> welfareDate timestamp = welfareDate now"

section \<open>Check-in\<close>

record DailyCheckIn =
  dc_Date :: string
  dc_RewardBytes :: int
  dc_CreatedAt :: unix_time

definition checkin_of :: "daily_checkin \<Rightarrow> DailyCheckIn" where
  "checkin_of c = \<lparr>dc_Date = ci_date c, dc_RewardBytes = ci_reward_bytes c, dc_CreatedAt = ci_created_at c\<rparr>"

definition dailyCheckInByDate :: "ident \<Rightarrow> string \<Rightarrow> cdb \<Rightarrow> DailyCheckIn result" where
  "dailyCheckInByDate userID date db =
     (case sql_first (\<lambda>c. ci_user_id c = userID \<and> ci_date c = date) (checkins db) of
        None \<Rightarrow> Inl ErrNotFound | Some c \<Rightarrow> Inr (checkin_of c))"

definition HasDailyCheckIn :: "ident \<Rightarrow> unix_time \<Rightarrow> cdb \<Rightarrow> bool result" where
  "HasDailyCheckIn userID now db =
     (if userID = '''' then Inl ErrConflict
      else Inr (sql_exists (\<lambda>c. ci_user_id c = userID \<and> ci_date c = welfareDate now) (checkins db)))"

record WelfareStatus =
  ws_Month :: string
  ws_Today :: string
  ws_ClaimedToday :: bool
  ws_TodayRewardBytes :: int
  ws_CheckInDays :: int
  ws_MonthRewardBytes :: int
  ws_CheckIns :: "DailyCheckIn list"

fun count_checkins :: "daily_checkin list \<Rightarrow> WelfareStatus \<Rightarrow> WelfareStatus" where
  "count_checkins [] status = status"
| "count_checkins (c # cs) status =
     count_checkins cs
       (let st = status\<lparr>ws_CheckIns := ws_CheckIns status @ [checkin_of c],
                        ws_CheckInDays := ws_CheckInDays status + 1,
                        ws_MonthRewardBytes := ws_MonthRewardBytes status + ci_reward_bytes c\<rparr>
        in if ci_date c = ws_Today status
           then st\<lparr>ws_ClaimedToday := True, ws_TodayRewardBytes := ci_reward_bytes c\<rparr> else st)"

definition next_month_key :: "unix_time \<Rightarrow> string" where
  "next_month_key now =
     (case civil_from_days (local_day welfare_offset now) of (y, m, d) \<Rightarrow>
        let (y', m') = (if m = 12 then (y + 1, 1) else (y, m + 1))
        in pad4 (nat y') @ ''-'' @ pad2 (nat m') @ ''-01'')"

definition WelfareStatus_of :: "ident \<Rightarrow> unix_time \<Rightarrow> cdb \<Rightarrow> WelfareStatus result" where
  "WelfareStatus_of userID now db =
     (if userID = '''' then Inl ErrConflict
      else Inr (count_checkins
        (sort_key ci_date (filter (\<lambda>c. ci_user_id c = userID \<and> welfareMonth now @ ''-01'' \<le> ci_date c \<and>
           ci_date c < next_month_key now) (checkins db)))
        \<lparr>ws_Month = welfareMonth now, ws_Today = welfareDate now, ws_ClaimedToday = False,
         ws_TodayRewardBytes = 0, ws_CheckInDays = 0, ws_MonthRewardBytes = 0, ws_CheckIns = []\<rparr>))"

text \<open>The transaction of ClaimDailyCheckIn. \<^verbatim>\<open>INSERT OR IGNORE\<close> skips the row when the identifier or
  the pair of user and date is taken; the stored check-in is then the answer.\<close>

definition text_checkin :: string where
  "text_checkin = bytes_of [0xE7, 0xAD, 0xBE, 0xE5, 0x88, 0xB0, 0xE5, 0xA5, 0x96, 0xE5, 0x8A, 0xB1, 0x20]"

definition claim_checkin ::
  "ident \<Rightarrow> ident \<Rightarrow> ident \<Rightarrow> int \<Rightarrow> ident \<Rightarrow> string \<Rightarrow> unix_time \<Rightarrow> (DailyCheckIn \<times> bool) operation" where
  "claim_checkin checkInID entitlementID auditID rewardMiB userID ip now db =
     (let date = welfareDate now; rewardBytes = rewardMiB * welfareBytesPerMiB;
          row = \<lparr>ci_id = checkInID, ci_user_id = userID, ci_date = date, ci_reward_bytes = rewardBytes,
                 ci_created_at = now\<rparr>
      in if sql_exists (\<lambda>c. ci_id c = checkInID \<or> (ci_user_id c = userID \<and> ci_date c = date)) (checkins db)
         then (case dailyCheckInByDate userID date db of
                 Inl e \<Rightarrow> (Inl e, db) | Inr existing \<Rightarrow> (Inr (existing, True), db))
         else if \<not> user_exists db userID then (Inl ErrConstraint, db)
         else commit db
           (case grant_entitlement entitlementID userID rewardBytes permanentTrafficEntitlementExpiry
                   ''checkin'' checkInID now (db\<lparr>checkins := checkins db @ [row]\<rparr>) of
              Inl e \<Rightarrow> Inl e
            | Inr db1 \<Rightarrow>
              (case insertAuditTx auditID userID ''welfare.daily_checkin'' ''daily_checkin'' checkInID
                      (text_checkin @ show_int rewardMiB @ '' MiB'') ip now db1 of
                 Inl e \<Rightarrow> Inl e
               | Inr db2 \<Rightarrow> Inr ((checkin_of row, False), db2))))"

definition ClaimDailyCheckIn ::
  "ident \<Rightarrow> ident \<Rightarrow> ident \<Rightarrow> int \<Rightarrow> ident \<Rightarrow> string \<Rightarrow> unix_time \<Rightarrow> (DailyCheckIn \<times> bool) operation" where
  "ClaimDailyCheckIn checkInID entitlementID auditID rewardMiB userID ip now db =
     (if userID = '''' then (Inl ErrConflict, db)
      else case dailyCheckInByDate userID (welfareDate now) db of
             Inr existing \<Rightarrow> (Inr (existing, True), db)
           | Inl _ \<Rightarrow>
             (if rewardMiB < welfareMinimumMiB \<or> rewardMiB > welfareMaximumMiB then (Inl ErrConflict, db)
              else claim_checkin checkInID entitlementID auditID rewardMiB userID ip now db))"

section \<open>First login of a day\<close>

definition text_vip_monthly :: string where
  "text_vip_monthly = bytes_of [0xE6, 0x9C, 0x88, 0xE5, 0xBA, 0xA6, 0xE4, 0xBC, 0x9A, 0xE5, 0x91, 0x98, 0xE6, 0xAF, 0x8F, 0xE6, 0x97, 0xA5, 0xE7, 0x99, 0xBB, 0xE5, 0xBD, 0x95, 0xE6, 0x9D, 0x83, 0xE7, 0x9B, 0x8A, 0x20, 0x32, 0x30, 0x30, 0x20, 0x4D, 0x69, 0x42]"
definition text_vip_yearly :: string where
  "text_vip_yearly = bytes_of [0xE5, 0xB9, 0xB4, 0xE5, 0xBA, 0xA6, 0xE4, 0xBC, 0x9A, 0xE5, 0x91, 0x98, 0xE6, 0xAF, 0x8F, 0xE6, 0x97, 0xA5, 0xE7, 0x99, 0xBB, 0xE5, 0xBD, 0x95, 0xE6, 0x9D, 0x83, 0xE7, 0x9B, 0x8A, 0x20, 0x35, 0x30, 0x30, 0x20, 0x4D, 0x69, 0x42]"
definition text_vip_lifetime :: string where
  "text_vip_lifetime = bytes_of [0xE7, 0xBB, 0x88, 0xE8, 0xBA, 0xAB, 0xE4, 0xBC, 0x9A, 0xE5, 0x91, 0x98, 0xE6, 0xAF, 0x8F, 0xE6, 0x97, 0xA5, 0xE7, 0x99, 0xBB, 0xE5, 0xBD, 0x95, 0xE6, 0x9D, 0x83, 0xE7, 0x9B, 0x8A, 0x20, 0x31, 0x20, 0x47, 0x69, 0x42]"
definition text_vip_added :: string where
  "text_vip_added = bytes_of [0xEF, 0xBC, 0x8C, 0xE5, 0xB7, 0xB2, 0xE5, 0x8A, 0xA0, 0xE5, 0x85, 0xA5, 0xE6, 0xB0, 0xB8, 0xE4, 0xB9, 0x85, 0xE4, 0xB8, 0x8A, 0xE4, 0xBC, 0xA0, 0xE6, 0xB5, 0x81, 0xE9, 0x87, 0x8F]"

definition vipDailyLoginReward :: "string \<Rightarrow> int \<times> string" where
  "vipDailyLoginReward plan =
     (let p = canonicalVIPPlan plan
      in if p = ''monthly'' then (200 * 1024 * 1024, text_vip_monthly)
         else if p = ''yearly'' then (500 * 1024 * 1024, text_vip_yearly)
         else if p = ''lifetime'' then (1024 * 1024 * 1024, text_vip_lifetime)
         else (0, ''''))"

definition insert_vip_grant ::
  "ident \<Rightarrow> ident \<Rightarrow> ident \<Rightarrow> ident \<Rightarrow> string \<Rightarrow> int \<Rightarrow> string \<Rightarrow> string \<Rightarrow> unix_time \<Rightarrow> cdb \<Rightarrow>
   (vip_grant option \<times> cdb) result" where
  "insert_vip_grant grantID entitlementID auditID userID plan rewardBytes detail ip now db =
     (let date = welfareDate now;
          row = \<lparr>vg_id = grantID, vg_user_id = userID, vg_date = date, vg_vip_plan = plan,
                 vg_reward_bytes = rewardBytes, vg_created_at = now\<rparr>
      in if sql_exists (\<lambda>g. vg_id g = grantID \<or> (vg_user_id g = userID \<and> vg_date g = date)) (vip_grants db)
         then Inr (None, db)
         else case grant_entitlement entitlementID userID rewardBytes permanentTrafficEntitlementExpiry
                     ''vip_daily_login'' grantID now (db\<lparr>vip_grants := vip_grants db @ [row]\<rparr>) of
                Inl e \<Rightarrow> Inl e
              | Inr db1 \<Rightarrow>
                (case insertAuditTx auditID userID ''membership.daily_login_traffic'' ''vip_daily_login_grant''
                        grantID (detail @ text_vip_added) ip now db1 of
                   Inl e \<Rightarrow> Inl e
                 | Inr db2 \<Rightarrow> Inr (Some row, db2)))"

definition grantVIPDailyLoginTrafficTx ::
  "ident \<Rightarrow> ident \<Rightarrow> ident \<Rightarrow> ident \<Rightarrow> string \<Rightarrow> unix_time \<Rightarrow> cdb \<Rightarrow> (vip_grant option \<times> cdb) result" where
  "grantVIPDailyLoginTrafficTx grantID entitlementID auditID userID ip now db =
     (case sql_first (\<lambda>u. us_id u = userID) (users db) of
        None \<Rightarrow> Inl ErrNoRows
      | Some u \<Rightarrow>
        (let plan = activeVIPPlan (us_vip_plan u) (us_vip_expires_at u) now;
             (rewardBytes, detail) = vipDailyLoginReward plan
         in if rewardBytes = 0 then Inr (None, db)
            else if sql_exists (\<lambda>g. vg_user_id g = userID \<and> vg_date g = welfareDate now) (vip_grants db)
            then Inr (None, db)
            else insert_vip_grant grantID entitlementID auditID userID plan rewardBytes detail ip now db))"

end
