(* ===== verification/Identity.thy ===== *)
theory Identity
  imports Welfare Rate_Limits
begin

text \<open>
  Users, sessions and verification codes (identity_store.go, password_change.go, the user status of
  commerce_store.go). The password and code check (\<^verbatim>\<open>verifyAccessCode\<close>, Argon2id) is the parameter
  \<open>verify\<close>; random identifiers are arguments. E-mail addresses compare without case
  (\<^verbatim>\<open>COLLATE NOCASE\<close>); where the order of codes is by creation time, rows of the same second stay in
  the order they were stored.
\<close>

section \<open>Registration\<close>

definition nocase :: "string \<Rightarrow> string \<Rightarrow> bool" where
  "nocase a b \<longleftrightarrow> map lower_char a = map lower_char b"

record ConsentEvidence =
  ce_Version :: string
  ce_DocumentHash :: string
  ce_AcceptedAt :: unix_time
  ce_IPHash :: string
  ce_UserAgentHash :: string

text \<open>The trigger \<^verbatim>\<open>user_consents_require_document\<close> refuses evidence for a document that is not
  archived.\<close>

definition insertConsentTx :: "ident \<Rightarrow> ident \<Rightarrow> ConsentEvidence \<Rightarrow> cdb \<Rightarrow> cdb result" where
  "insertConsentTx consentID userID c db =
     (case sql_first (\<lambda>x. uc_user_id x = userID \<and> uc_document_version x = ce_Version c) (consents db) of
        Some x \<Rightarrow> if uc_document_hash x \<noteq> ce_DocumentHash c then Inl ErrConflict else Inr db
      | None \<Rightarrow>
        (if \<not> sql_exists (\<lambda>d. ld_version d = ce_Version c \<and> ld_document_hash d = ce_DocumentHash c)
                (legal_documents db) then Inl ErrOther
         else case sql_insert uc_id \<lparr>uc_id = consentID, uc_user_id = userID,
                 uc_document_version = ce_Version c, uc_document_hash = ce_DocumentHash c,
                 uc_accepted_at = ce_AcceptedAt c, uc_ip_hash = ce_IPHash c,
                 uc_user_agent_hash = ce_UserAgentHash c\<rparr> (consents db) of
                Inl e \<Rightarrow> Inl e
              | Inr t \<Rightarrow> if user_exists db userID then Inr (db\<lparr>consents := t\<rparr>) else Inl ErrConstraint))"

definition add_consent :: "ident \<Rightarrow> ident \<Rightarrow> ConsentEvidence option \<Rightarrow> cdb \<Rightarrow> cdb result" where
  "add_consent consentID userID consent db =
     (case consent of None \<Rightarrow> Inr db | Some c \<Rightarrow> insertConsentTx consentID userID c db)"

definition insert_code :: "ident \<Rightarrow> ident \<Rightarrow> code_purpose \<Rightarrow> string \<Rightarrow> unix_time \<Rightarrow> unix_time \<Rightarrow> cdb \<Rightarrow> cdb result" where
  "insert_code codeID userID purpose hash now expiresAt db =
     (case sql_insert vc_id \<lparr>vc_id = codeID, vc_user_id = userID, vc_purpose = purpose, vc_code_hash = hash,
              vc_created_at = now, vc_expires_at = expiresAt, vc_attempts = 0, vc_consumed_at = 0\<rparr>
              (verification_codes db) of
        Inl e \<Rightarrow> Inl e
      | Inr t \<Rightarrow> if user_exists db userID then Inr (db\<lparr>verification_codes := t\<rparr>) else Inl ErrConstraint)"

definition insert_account :: "ident \<Rightarrow> unix_time \<Rightarrow> cdb \<Rightarrow> cdb result" where
  "insert_account userID now db =
     (case sql_insert a_user_id \<lparr>a_user_id = userID, a_free_traffic_remaining = 0, a_free_traffic_period = '''',
              a_traffic_reserved_bytes = 0, a_points_balance = 0, a_updated_at = now\<rparr> (accounts db) of
        Inl e \<Rightarrow> Inl e | Inr t \<Rightarrow> Inr (db\<lparr>accounts := t\<rparr>))"

definition pending_user :: "user \<Rightarrow> user" where
  "pending_user u = u\<lparr>
     us_username := (if TrimSpace (us_username u) = '''' then defaultUsernameFromEmail (us_email u) else us_username u),
     us_status := UserPending, us_vip_plan := ''none'', us_vip_expires_at := 0,
     us_must_change_password := False, us_verified_at := 0, us_last_login_at := 0\<rparr>"

definition CreatePendingUser ::
  "ident \<Rightarrow> ident \<Rightarrow> user \<Rightarrow> string \<Rightarrow> unix_time \<Rightarrow> ConsentEvidence option \<Rightarrow> unit operation" where
  "CreatePendingUser codeID consentID u hash expiresAt consent db =
     (if sql_exists (\<lambda>x. us_id x = us_id u \<or> nocase (us_email x) (us_email u)) (users db) then (Inl ErrConflict, db)
      else let db1 = db\<lparr>users := users db @ [pending_user u]\<rparr>
           in case insert_code codeID (us_id u) PurposeVerify hash (us_created_at u) expiresAt db1 of
                Inl e \<Rightarrow> (Inl e, db)
              | Inr db2 \<Rightarrow>
                (case insert_account (us_id u) (us_created_at u) db2 of
                   Inl e \<Rightarrow> (Inl e, db)
                 | Inr db3 \<Rightarrow>
                   (case add_consent consentID (us_id u) consent db3 of
                      Inl e \<Rightarrow> (Inl e, db) | Inr db4 \<Rightarrow> (Inr (), db4))))"

definition RefreshPendingUser ::
  "ident \<Rightarrow> ident \<Rightarrow> ident \<Rightarrow> string \<Rightarrow> unix_time \<Rightarrow> unix_time \<Rightarrow> ConsentEvidence option \<Rightarrow> unit operation" where
  "RefreshPendingUser codeID consentID userID hash now expiresAt consent db =
     (case sql_first (\<lambda>u. us_id u = userID) (users db) of
        None \<Rightarrow> (Inl ErrNotFound, db)
      | Some u \<Rightarrow>
        (if us_status u \<noteq> UserPending then (Inl ErrConflict, db)
         else case insert_code codeID userID PurposeVerify hash now expiresAt
                     (db\<lparr>verification_codes := sql_update
                        (\<lambda>v. vc_user_id v = userID \<and> vc_purpose v = PurposeVerify \<and> vc_consumed_at v = 0)
                        (\<lambda>v. v\<lparr>vc_consumed_at := now\<rparr>) (verification_codes db)\<rparr>) of
                Inl e \<Rightarrow> (Inl e, db)
              | Inr db1 \<Rightarrow>
                (case add_consent consentID userID consent db1 of
                   Inl e \<Rightarrow> (Inl e, db) | Inr db2 \<Rightarrow> (Inr (), db2))))"

definition UserByEmail :: "string \<Rightarrow> cdb \<Rightarrow> user result" where
  "UserByEmail email db =
     (case sql_first (\<lambda>u. nocase (us_email u) email) (users db) of None \<Rightarrow> Inl ErrNotFound | Some u \<Rightarrow> Inr u)"

definition UserByID :: "ident \<Rightarrow> cdb \<Rightarrow> user result" where
  "UserByID i db =
     (case sql_first (\<lambda>u. us_id u = i) (users db) of None \<Rightarrow> Inl ErrNotFound | Some u \<Rightarrow> Inr u)"

section \<open>Verification\<close>

definition latest_code :: "(verification_code \<Rightarrow> bool) \<Rightarrow> cdb \<Rightarrow> verification_code option" where
  "latest_code p db = sql_first p (sort_key (\<lambda>v. - vc_created_at v) (verification_codes db))"

definition set_code :: "ident \<Rightarrow> (verification_code \<Rightarrow> verification_code) \<Rightarrow> cdb \<Rightarrow> cdb" where
  "set_code codeID f db = db\<lparr>verification_codes := sql_update (\<lambda>v. vc_id v = codeID) f (verification_codes db)\<rparr>"

definition miss_code :: "ident \<Rightarrow> cdb \<Rightarrow> cdb" where
  "miss_code codeID = set_code codeID (\<lambda>v. v\<lparr>vc_attempts := vc_attempts v + 1\<rparr>)"

definition consume_code :: "ident \<Rightarrow> unix_time \<Rightarrow> cdb \<Rightarrow> cdb" where
  "consume_code codeID now = set_code codeID (\<lambda>v. v\<lparr>vc_consumed_at := now\<rparr>)"

record RegistrationSuccessRisk =
  rs_IPHash :: string
  rs_SubnetHash :: string
  rs_IPDaily :: int
  rs_SubnetDaily :: int

fun registration_buckets :: "(string \<times> int) list \<Rightarrow> unix_time \<Rightarrow> cdb \<Rightarrow> cdb result" where
  "registration_buckets [] now db = Inr db"
| "registration_buckets ((key, limit) # bs) now db =
     (case allowBucketTx key limit (24 * 3600) 1 0 0 now db of
        Inl e \<Rightarrow> Inl e
      | Inr (allowed, db') \<Rightarrow> if allowed then registration_buckets bs now db' else Inl ErrRateLimited)"

definition registration_risk :: "RegistrationSuccessRisk option \<Rightarrow> unix_time \<Rightarrow> cdb \<Rightarrow> cdb result" where
  "registration_risk risk now db =
     (case risk of
        None \<Rightarrow> Inr db
      | Some r \<Rightarrow> registration_buckets
          [(''registration-success-ip:'' @ rs_IPHash r, rs_IPDaily r),
           (''registration-success-subnet:'' @ rs_SubnetHash r, rs_SubnetDaily r)] now db)"

definition text_verified :: string where
  "text_verified = bytes_of [0xE5, 0xAE, 0x8C, 0xE6, 0x88, 0x90, 0xE8, 0xB4, 0xA6, 0xE6, 0x88, 0xB7, 0xE9, 0xAA, 0x8C, 0xE8, 0xAF, 0x81]"

definition activate_user :: "ident \<Rightarrow> user \<Rightarrow> ident \<Rightarrow> string \<Rightarrow> unix_time \<Rightarrow> cdb \<Rightarrow> cdb result" where
  "activate_user pointsID u codeID passwordHash now db =
     (let hit = (\<lambda>x. us_id x = us_id u \<and> us_status x = UserPending); db1 = consume_code codeID now db
      in if sql_count hit (users db1) \<noteq> 1 then Inl ErrConflict
         else addPointsTx pointsID (us_id u) 100 text_verified (''welcome:'' @ us_id u) now
                (db1\<lparr>users := sql_update hit (\<lambda>x. x\<lparr>us_status := UserActive, us_verified_at := now,
                   us_password_hash := passwordHash\<rparr>) (users db1)\<rparr>))"

text \<open>A wrong code is counted and the count committed although the call fails.\<close>

definition VerifyUser ::
  "(string \<Rightarrow> string \<Rightarrow> bool) \<Rightarrow> ident \<Rightarrow> string \<Rightarrow> string \<Rightarrow> string \<Rightarrow> unix_time \<Rightarrow>
   RegistrationSuccessRisk option \<Rightarrow> user operation" where
  "VerifyUser verify pointsID email code passwordHash now risk db =
     (case sql_first (\<lambda>u. nocase (us_email u) email) (users db) of
        None \<Rightarrow> (Inl ErrNotFound, db)
      | Some u \<Rightarrow>
        (if us_status u \<noteq> UserPending then (Inl ErrConflict, db)
         else case latest_code (\<lambda>v. vc_user_id v = us_id u \<and> vc_purpose v = PurposeVerify \<and> vc_consumed_at v = 0) db of
                None \<Rightarrow> (Inl ErrConflict, db)
              | Some v \<Rightarrow>
                (if vc_expires_at v \<le> now \<or> vc_attempts v \<ge> 5 then (Inl ErrConflict, db)
                 else if \<not> verify (vc_code_hash v) code then (Inl ErrUnauthorized, miss_code (vc_id v) db)
                 else commit db
                   (case registration_risk risk now db of
                      Inl e \<Rightarrow> Inl e
                    | Inr db1 \<Rightarrow>
                      (case activate_user pointsID u (vc_id v) passwordHash now db1 of
                         Inl e \<Rightarrow> Inl e
                       | Inr db2 \<Rightarrow> Inr (u\<lparr>us_status := UserActive, us_verified_at := now\<rparr>, db2))))))"

section \<open>Passwords\<close>

definition revoke_sessions :: "ident \<Rightarrow> unix_time \<Rightarrow> cdb \<Rightarrow> cdb" where
  "revoke_sessions userID now db =
     db\<lparr>user_sessions := sql_update (\<lambda>s. se_user_id s = userID \<and> se_revoked_at s = 0)
          (\<lambda>s. s\<lparr>se_revoked_at := now\<rparr>) (user_sessions db)\<rparr>"

definition consume_codes :: "ident \<Rightarrow> unix_time \<Rightarrow> cdb \<Rightarrow> cdb" where
  "consume_codes userID now db =
     db\<lparr>verification_codes := sql_update (\<lambda>v. vc_user_id v = userID \<and> vc_consumed_at v = 0)
          (\<lambda>v. v\<lparr>vc_consumed_at := now\<rparr>) (verification_codes db)\<rparr>"

definition CreatePasswordReset :: "ident \<Rightarrow> ident \<Rightarrow> string \<Rightarrow> unix_time \<Rightarrow> unix_time \<Rightarrow> unit operation" where
  "CreatePasswordReset codeID userID hash now expiresAt db =
     (case insert_code codeID userID PurposeReset hash now expiresAt db of
        Inl e \<Rightarrow> (Inl e, db) | Inr db' \<Rightarrow> (Inr (), db'))"

text \<open>The join of ResetPassword: the newest open reset code of the user with the address.\<close>

definition reset_code :: "string \<Rightarrow> cdb \<Rightarrow> verification_code option" where
  "reset_code email db =
     latest_code (\<lambda>v. vc_purpose v = PurposeReset \<and> vc_consumed_at v = 0 \<and>
       sql_exists (\<lambda>u. us_id u = vc_user_id v \<and> nocase (us_email u) email) (users db)) db"

definition ResetPassword ::
  "(string \<Rightarrow> string \<Rightarrow> bool) \<Rightarrow> string \<Rightarrow> string \<Rightarrow> string \<Rightarrow> unix_time \<Rightarrow> unit operation" where
  "ResetPassword verify email code passwordHash now db =
     (case reset_code email db of
        None \<Rightarrow> (Inl ErrNotFound, db)
      | Some v \<Rightarrow>
        (if vc_expires_at v \<le> now \<or> vc_attempts v \<ge> 5 then (Inl ErrConflict, db)
         else if \<not> verify (vc_code_hash v) code then (Inl ErrUnauthorized, miss_code (vc_id v) db)
         else (Inr (), revoke_sessions (vc_user_id v) now
                ((consume_code (vc_id v) now db)\<lparr>users := sql_update (\<lambda>u. us_id u = vc_user_id v)
                   (\<lambda>u. u\<lparr>us_password_hash := passwordHash\<rparr>) (users db)\<rparr>))))"

section \<open>Sessions\<close>

definition insert_session ::
  "ident \<Rightarrow> ident \<Rightarrow> string \<Rightarrow> string \<Rightarrow> unix_time \<Rightarrow> unix_time \<Rightarrow> cdb \<Rightarrow> cdb result" where
  "insert_session sessionID userID tokenHashValue csrfToken now expiresAt db =
     (if sql_exists (\<lambda>s. se_id s = sessionID \<or> se_token_hash s = tokenHashValue) (user_sessions db)
      then Inl ErrConstraint
      else if \<not> user_exists db userID then Inl ErrConstraint
      else Inr (db\<lparr>user_sessions := user_sessions db @
             [\<lparr>se_id = sessionID, se_user_id = userID, se_token_hash = tokenHashValue, se_csrf_token = csrfToken,
               se_created_at = now, se_expires_at = expiresAt, se_last_seen_at = now, se_revoked_at = 0\<rparr>]\<rparr>))"

definition ChangeUserPassword ::
  "ident \<Rightarrow> ident \<Rightarrow> ident \<Rightarrow> string \<Rightarrow> string \<Rightarrow> string \<Rightarrow> string \<Rightarrow> unix_time \<Rightarrow> unix_time \<Rightarrow> unit operation" where
  "ChangeUserPassword sessionID auditID userID passwordHash sessionTokenHash csrfToken auditIP now expiresAt db =
     (let hit = (\<lambda>u. us_id u = userID \<and> us_status u = UserActive)
      in if sql_count hit (users db) \<noteq> 1 then (Inl ErrNotFound, db)
         else case insert_session sessionID userID sessionTokenHash csrfToken now expiresAt
                     (revoke_sessions userID now (db\<lparr>users := sql_update hit
                        (\<lambda>u. u\<lparr>us_password_hash := passwordHash, us_must_change_password := False\<rparr>) (users db)\<rparr>)) of
                Inl e \<Rightarrow> (Inl e, db)
              | Inr db1 \<Rightarrow>
                (case insertAuditTx auditID userID ''user.password_change'' ''user'' userID '''' auditIP now
                        (consume_codes userID now db1) of
                   Inl e \<Rightarrow> (Inl e, db) | Inr db2 \<Rightarrow> (Inr (), db2)))"

record login_ids =
  li_session :: ident
  li_audit :: ident
  li_grant :: ident
  li_entitlement :: ident
  li_grant_audit :: ident

record audit_spec =
  as_action :: string
  as_target_type :: string
  as_target_id :: ident
  as_detail :: string
  as_ip :: string

definition login_grant :: "login_ids \<Rightarrow> ident \<Rightarrow> string \<Rightarrow> unix_time \<Rightarrow> bool \<Rightarrow> cdb \<Rightarrow> (vip_grant option \<times> cdb) result" where
  "login_grant ids userID ip now grantVIPDailyTraffic db =
     (if grantVIPDailyTraffic
      then grantVIPDailyLoginTrafficTx (li_grant ids) (li_entitlement ids) (li_grant_audit ids) userID ip now db
      else Inr (None, db))"

definition login_audit :: "login_ids \<Rightarrow> ident \<Rightarrow> audit_spec \<Rightarrow> unix_time \<Rightarrow> cdb \<Rightarrow> cdb result" where
  "login_audit ids userID a now db =
     (if as_action a \<noteq> '''' then insertAuditTx (li_audit ids) userID (as_action a) (as_target_type a)
            (as_target_id a) (as_detail a) (as_ip a) now db
      else Inr db)"

definition createUserSession ::
  "login_ids \<Rightarrow> ident \<Rightarrow> string \<Rightarrow> string \<Rightarrow> unix_time \<Rightarrow> unix_time \<Rightarrow> audit_spec \<Rightarrow> bool \<Rightarrow> vip_grant option operation" where
  "createUserSession ids userID tokenHashValue csrfToken now expiresAt a grantVIPDailyTraffic db =
     commit db
       (case insert_session (li_session ids) userID tokenHashValue csrfToken now expiresAt db of
          Inl e \<Rightarrow> Inl e
        | Inr db1 \<Rightarrow>
          (case login_grant ids userID (as_ip a) now grantVIPDailyTraffic
                  (db1\<lparr>users := sql_update (\<lambda>u. us_id u = userID) (\<lambda>u. u\<lparr>us_last_login_at := now\<rparr>) (users db1)\<rparr>) of
             Inl e \<Rightarrow> Inl e
           | Inr (grant, db2) \<Rightarrow>
             (case login_audit ids userID a now db2 of Inl e \<Rightarrow> Inl e | Inr db3 \<Rightarrow> Inr (grant, db3))))"

definition no_audit :: audit_spec where
  "no_audit = \<lparr>as_action = '''', as_target_type = '''', as_target_id = '''', as_detail = '''', as_ip = ''''\<rparr>"

definition CreateUserSession ::
  "login_ids \<Rightarrow> ident \<Rightarrow> string \<Rightarrow> string \<Rightarrow> unix_time \<Rightarrow> unix_time \<Rightarrow> vip_grant option operation" where
  "CreateUserSession ids userID tokenHashValue csrfToken now expiresAt =
     createUserSession ids userID tokenHashValue csrfToken now expiresAt no_audit False"

definition CreateUserSessionWithAudit ::
  "login_ids \<Rightarrow> ident \<Rightarrow> string \<Rightarrow> string \<Rightarrow> unix_time \<Rightarrow> unix_time \<Rightarrow> audit_spec \<Rightarrow> vip_grant option operation" where
  "CreateUserSessionWithAudit ids userID tokenHashValue csrfToken now expiresAt a db =
     (if as_action a = '''' then (Inl ErrConflict, db)
      else createUserSession ids userID tokenHashValue csrfToken now expiresAt a False db)"

definition CreateLoginSessionWithAuditAndVIPDailyGrant ::
  "login_ids \<Rightarrow> ident \<Rightarrow> string \<Rightarrow> string \<Rightarrow> unix_time \<Rightarrow> unix_time \<Rightarrow> audit_spec \<Rightarrow> vip_grant option operation" where
  "CreateLoginSessionWithAuditAndVIPDailyGrant ids userID tokenHashValue csrfToken now expiresAt a db =
     (if as_action a = '''' then (Inl ErrConflict, db)
      else createUserSession ids userID tokenHashValue csrfToken now expiresAt a True db)"

definition live_session :: "string \<Rightarrow> unix_time \<Rightarrow> user_session \<Rightarrow> bool" where
  "live_session tokenHashValue now s \<longleftrightarrow>
     se_token_hash s = tokenHashValue \<and> se_revoked_at s = 0 \<and> se_expires_at s > now"

definition UserBySession :: "string \<Rightarrow> unix_time \<Rightarrow> (user \<times> string) operation" where
  "UserBySession tokenHashValue now db =
     (case sql_first (live_session tokenHashValue now) (user_sessions db) of
        None \<Rightarrow> (Inl ErrNotFound, db)
      | Some s \<Rightarrow>
        (case sql_first (\<lambda>u. us_id u = se_user_id s) (users db) of
           None \<Rightarrow> (Inl ErrNotFound, db)
         | Some u \<Rightarrow> (Inr (u, se_csrf_token s),
             db\<lparr>user_sessions := sql_update (\<lambda>x. se_token_hash x = tokenHashValue)
                  (\<lambda>x. x\<lparr>se_last_seen_at := now\<rparr>) (user_sessions db)\<rparr>)))"

definition RevokeUserSession :: "string \<Rightarrow> unix_time \<Rightarrow> unit operation" where
  "RevokeUserSession tokenHashValue now db =
     (Inr (), db\<lparr>user_sessions := sql_update (\<lambda>s. se_token_hash s = tokenHashValue \<and> se_revoked_at s = 0)
        (\<lambda>s. s\<lparr>se_revoked_at := now\<rparr>) (user_sessions db)\<rparr>)"

definition UpdateUsername :: "ident \<Rightarrow> string \<Rightarrow> unit operation" where
  "UpdateUsername userID username db =
     (if sql_count (\<lambda>u. us_id u = userID) (users db) \<noteq> 1 then (Inl ErrNotFound, db)
      else (Inr (), db\<lparr>users := sql_update (\<lambda>u. us_id u = userID) (\<lambda>u. u\<lparr>us_username := username\<rparr>) (users db)\<rparr>))"

text \<open>The handler of a reset request withdraws the codes sent before it stores a new one.\<close>

definition InvalidateVerificationCodes :: "ident \<Rightarrow> code_purpose \<Rightarrow> unix_time \<Rightarrow> unit operation" where
  "InvalidateVerificationCodes userID purpose now db =
     (Inr (), db\<lparr>verification_codes := sql_update
        (\<lambda>v. vc_user_id v = userID \<and> vc_purpose v = purpose \<and> vc_consumed_at v = 0)
        (\<lambda>v. v\<lparr>vc_consumed_at := now\<rparr>) (verification_codes db)\<rparr>)"

definition AddAudit ::
  "ident \<Rightarrow> ident \<Rightarrow> string \<Rightarrow> string \<Rightarrow> ident \<Rightarrow> string \<Rightarrow> string \<Rightarrow> unix_time \<Rightarrow> unit operation" where
  "AddAudit auditID userID action targetType targetID detail ip now db =
     (case sql_insert au_id \<lparr>au_id = auditID, au_user_id = userID, au_action = action,
              au_target_type = targetType, au_target_id = targetID, au_detail = detail, au_ip = ip,
              au_created_at = now\<rparr> (audits db) of
        Inl e \<Rightarrow> (Inl e, db) | Inr t \<Rightarrow> (Inr (), db\<lparr>audits := t\<rparr>))"

section \<open>What a user sees\<close>

definition EntitlementsForUser :: "ident \<Rightarrow> unix_time \<Rightarrow> cdb \<Rightarrow> entitlement list" where
  "EntitlementsForUser userID now db =
     sort_key e_expires_at (sort_key e_created_at
       (filter (\<lambda>e. e_user_id e = userID \<and> e_expires_at e > now) (entitlements db)))"

definition PointsForUser :: "ident \<Rightarrow> cdb \<Rightarrow> points_entry list" where
  "PointsForUser userID db =
     take 100 (rev (sort_key pl_created_at (sort_key pl_id (filter (\<lambda>p. pl_user_id p = userID) (points_ledger db)))))"

definition TransfersForOwner :: "ident \<Rightarrow> cdb \<Rightarrow> transfer list" where
  "TransfersForOwner ownerID db =
     take 100 (sort_key (\<lambda>t. - t_created_at t)
       (filter (\<lambda>t. t_owner_type t = ''user'' \<and> t_owner_id t = ownerID) (transfers db)))"

definition ClaimTransferWithoutStorageQuota :: "(string \<Rightarrow> string) \<Rightarrow> string \<Rightarrow> string \<Rightarrow> ident \<Rightarrow> unit operation" where
  "ClaimTransferWithoutStorageQuota tokenHash shareToken manageToken userID db =
     (case sql_first (\<lambda>t. t_share_token t = shareToken) (transfers db) of
        None \<Rightarrow> (Inl ErrUnauthorized, db)
      | Some t \<Rightarrow>
        (if tokenHash manageToken \<noteq> t_manage_hash t then (Inl ErrUnauthorized, db)
         else if t_owner_type t = ''user''
         then (if t_owner_id t = userID then (Inr (), db) else (Inl ErrConflict, db))
         else let hit = (\<lambda>x. t_id x = t_id t \<and> t_owner_type x \<noteq> ''user'')
              in if sql_count hit (transfers db) \<noteq> 1 then (Inl ErrConflict, db)
                 else (Inr (), db\<lparr>transfers := sql_update hit
                   (\<lambda>x. x\<lparr>t_owner_type := ''user'', t_owner_id := userID\<rparr>) (transfers db)\<rparr>)))"

section \<open>Guests\<close>

definition CreateGuestSession :: "ident \<Rightarrow> string \<Rightarrow> unix_time \<Rightarrow> unit operation" where
  "CreateGuestSession i tokenHashValue now db =
     (if sql_exists (\<lambda>g. gs_id g = i \<or> gs_token_hash g = tokenHashValue) (guest_sessions db)
      then (Inl ErrConstraint, db)
      else (Inr (), db\<lparr>guest_sessions := guest_sessions db @
             [\<lparr>gs_id = i, gs_token_hash = tokenHashValue, gs_created_at = now, gs_last_seen_at = now\<rparr>]\<rparr>))"

definition GuestByToken :: "string \<Rightarrow> unix_time \<Rightarrow> ident operation" where
  "GuestByToken tokenHashValue now db =
     (case sql_first (\<lambda>g. gs_token_hash g = tokenHashValue) (guest_sessions db) of
        None \<Rightarrow> (Inl ErrNotFound, db)
      | Some g \<Rightarrow> (Inr (gs_id g), db\<lparr>guest_sessions := sql_update (\<lambda>x. gs_id x = gs_id g)
             (\<lambda>x. x\<lparr>gs_last_seen_at := now\<rparr>) (guest_sessions db)\<rparr>))"

section \<open>Account status\<close>

definition active_admin :: "user \<Rightarrow> bool" where
  "active_admin u \<longleftrightarrow> us_role u = RoleAdmin \<and> us_status u = UserActive"

definition validateUserStatusChange :: "ident \<Rightarrow> ident \<Rightarrow> user_status \<Rightarrow> cdb \<Rightarrow> unit result" where
  "validateUserStatusChange actorUserID userID status db =
     (if status = UserPending then Inl ErrConflict
      else if status = UserBlocked \<and> actorUserID = userID then Inl ErrConflict
      else case sql_first (\<lambda>u. us_id u = userID) (users db) of
             None \<Rightarrow> Inl ErrNotFound
           | Some u \<Rightarrow>
             (if status = UserBlocked \<and> active_admin u \<and> sql_count active_admin (users db) \<le> 1
              then Inl ErrConflict else Inr ()))"

definition status_name :: "user_status \<Rightarrow> string" where
  "status_name s = (case s of UserPending \<Rightarrow> ''pending'' | UserActive \<Rightarrow> ''active'' | UserBlocked \<Rightarrow> ''blocked'')"

text \<open>The transaction of SetUserStatus. The check before it runs outside, on a state that may be
  older.\<close>

definition set_user_status ::
  "ident \<Rightarrow> ident \<Rightarrow> ident \<Rightarrow> user_status \<Rightarrow> string \<Rightarrow> unix_time \<Rightarrow> cdb \<Rightarrow> (unit \<times> cdb) result" where
  "set_user_status auditID actorUserID userID status ip now db =
     (if sql_count (\<lambda>u. us_id u = userID) (users db) \<noteq> 1 then Inl ErrNotFound
      else case validateUserStatusChange actorUserID userID status db of
             Inl e \<Rightarrow> Inl e
           | Inr _ \<Rightarrow>
             (let db1 = db\<lparr>users := sql_update (\<lambda>u. us_id u = userID) (\<lambda>u. u\<lparr>us_status := status\<rparr>) (users db)\<rparr>;
                  db2 = (if status = UserBlocked then consume_codes userID now (revoke_sessions userID now db1) else db1)
              in case insertAuditTx auditID actorUserID ''admin.user-status'' ''user'' userID (status_name status)
                        ip now db2 of
                   Inl e \<Rightarrow> Inl e | Inr db3 \<Rightarrow> Inr ((), db3)))"

definition SetUserStatus ::
  "ident \<Rightarrow> ident \<Rightarrow> ident \<Rightarrow> user_status \<Rightarrow> string \<Rightarrow> unix_time \<Rightarrow> unit operation" where
  "SetUserStatus auditID actorUserID userID status ip now db =
     (case validateUserStatusChange actorUserID userID status db of
        Inl e \<Rightarrow> (Inl e, db)
      | Inr _ \<Rightarrow> commit db (set_user_status auditID actorUserID userID status ip now db))"

section \<open>Account summary\<close>

record AccountSummary =
  sum_Username :: string
  sum_Level :: string
  sum_VIPPlan :: string
  sum_VIPExpiresAt :: unix_time
  sum_TrafficRemainingBytes :: int
  sum_FreeTrafficBytes :: int
  sum_PaidTrafficBytes :: int
  sum_TrafficReservedBytes :: int
  sum_Points :: int

definition AccountSummary_of :: "ident \<Rightarrow> int \<Rightarrow> unix_time \<Rightarrow> AccountSummary operation" where
  "AccountSummary_of userID monthlyTraffic now db =
     commit db
       (case ensureTrafficAccountTx userID monthlyTraffic now db of
          Inl e \<Rightarrow> Inl e
        | Inr db1 \<Rightarrow>
          (case (sql_first (\<lambda>a. a_user_id a = userID) (accounts db1), sql_first (\<lambda>u. us_id u = userID) (users db1)) of
             (Some a, Some u) \<Rightarrow>
               (let paidTraffic = sql_sum (\<lambda>e. e_user_id e = userID \<and> e_resource_type e = TrafficResource \<and>
                                    e_expires_at e > now) e_remaining_bytes (entitlements db1)
                in Inr (\<lparr>sum_Username = (if TrimSpace (us_username u) = '''' then defaultUsernameFromEmail (us_email u)
                                          else us_username u),
                         sum_Level = (if activeVIPPlan (us_vip_plan u) (us_vip_expires_at u) now \<noteq> ''''
                                      then ''vip'' else ''normal''),
                         sum_VIPPlan = canonicalVIPPlan (us_vip_plan u),
                         sum_VIPExpiresAt = us_vip_expires_at u,
                         sum_TrafficRemainingBytes =
                           max 0 (a_free_traffic_remaining a + paidTraffic - a_traffic_reserved_bytes a),
                         sum_FreeTrafficBytes = a_free_traffic_remaining a,
                         sum_PaidTrafficBytes = paidTraffic,
                         sum_TrafficReservedBytes = a_traffic_reserved_bytes a,
                         sum_Points = a_points_balance a\<rparr>, db1))
           | _ \<Rightarrow> Inl ErrNoRows))"

section \<open>Clean-up\<close>

text \<open>Deleting users: the rows that refer to them with \<^verbatim>\<open>ON DELETE CASCADE\<close> go too, a row that refers
  to them with \<^verbatim>\<open>ON DELETE RESTRICT\<close> makes the statement fail.\<close>

definition stale_pending :: "unix_time \<Rightarrow> user \<Rightarrow> bool" where
  "stale_pending now u \<longleftrightarrow> us_status u = UserPending \<and> us_created_at u < now - 48 * 3600"

definition restricted :: "cdb \<Rightarrow> ident \<Rightarrow> bool" where
  "restricted db i \<longleftrightarrow> sql_exists (\<lambda>x. o_user_id x = i) (orders db) \<or> sql_exists (\<lambda>c. c_user_id c = i) (charges db) \<or>
     sql_exists (\<lambda>b. b_created_by b = i) (batches db) \<or> sql_exists (\<lambda>k. k_redeemed_by k = i) (codes db)"

definition delete_users :: "ident list \<Rightarrow> cdb \<Rightarrow> cdb" where
  "delete_users ids db = db\<lparr>
     users := sql_delete (\<lambda>u. us_id u \<in> set ids) (users db),
     user_sessions := sql_delete (\<lambda>s. se_user_id s \<in> set ids) (user_sessions db),
     verification_codes := sql_delete (\<lambda>v. vc_user_id v \<in> set ids) (verification_codes db),
     accounts := sql_delete (\<lambda>a. a_user_id a \<in> set ids) (accounts db),
     entitlements := sql_delete (\<lambda>e. e_user_id e \<in> set ids) (entitlements db),
     checkins := sql_delete (\<lambda>c. ci_user_id c \<in> set ids) (checkins db),
     vip_grants := sql_delete (\<lambda>g. vg_user_id g \<in> set ids) (vip_grants db),
     points_ledger := sql_delete (\<lambda>p. pl_user_id p \<in> set ids) (points_ledger db),
     consents := sql_delete (\<lambda>c. uc_user_id c \<in> set ids) (consents db)\<rparr>"

definition CleanupIdentity :: "unix_time \<Rightarrow> cdb \<times> delivery_limit list \<Rightarrow> unit result \<times> cdb \<times> delivery_limit list" where
  "CleanupIdentity now state =
     (case state of (db, limits) \<Rightarrow>
        let week = now - 7 * 24 * 3600;
            db1 = db\<lparr>guest_sessions := sql_delete (\<lambda>g. gs_last_seen_at g < now - 45 * 24 * 3600) (guest_sessions db),
                     user_sessions := sql_delete (\<lambda>s. se_expires_at s < week \<or>
                       (se_revoked_at s > 0 \<and> se_revoked_at s < week)) (user_sessions db)\<rparr>;
            gone = map us_id (filter (stale_pending now) (users db1))
        in if list_ex (restricted db1) gone then (Inl ErrConstraint, db, limits)
           else let db2 = delete_users gone db1
                in (Inr (), db2\<lparr>verification_codes := sql_delete (\<lambda>v. vc_expires_at v < week) (verification_codes db2),
                      orders := sql_update (\<lambda>x. o_status x = OrderPending \<and> o_created_at x < now - 24 * 3600)
                        (\<lambda>x. x\<lparr>o_status := OrderClosed\<rparr>) (orders db2)\<rparr>,
                    sql_delete (\<lambda>l. dl_day_window_start l < now - 30 * 24 * 3600) limits))"

end
