(* ===== verification/Commerce_Ledger.thy ===== *)
theory Commerce_Ledger
  imports Redemption Orders Identity
begin

text \<open>
  Two invariants of the account tables under every operation of redemption, orders, welfare and
  identity: the points ledger explains every balance (\<open>points_inv\<close>), and the upload traffic ledger
  stays consistent (\<open>traffic_inv\<close> of Upload_Traffic) when entitlements are granted and withdrawn.
\<close>

section \<open>Points\<close>

definition points_inv :: "cdb \<Rightarrow> bool" where
  "points_inv db \<longleftrightarrow> keyed a_user_id (accounts db) \<and> keyed pl_event_key (points_ledger db) \<and>
     (\<forall>a \<in> set (accounts db). 0 \<le> a_points_balance a \<and> a_points_balance a \<le> max_int64 \<and>
        a_points_balance a = sql_sum (\<lambda>p. pl_user_id p = a_user_id a) pl_delta (points_ledger db)) \<and>
     (\<forall>p \<in> set (points_ledger db). pl_user_id p \<in> a_user_id ` set (accounts db))"

lemma points_inv_cong:
  "accounts db' = accounts db \<Longrightarrow> points_ledger db' = points_ledger db \<Longrightarrow> points_inv db' = points_inv db"
  by (simp add: points_inv_def)

lemma points_inv_balance:
  assumes "points_inv db" "a \<in> set (accounts db)"
  shows "0 \<le> a_points_balance a" "a_points_balance a \<le> max_int64"
    "sql_sum (\<lambda>p. pl_user_id p = a_user_id a) pl_delta (points_ledger db) = a_points_balance a"
  using assms by (auto simp: points_inv_def)

text \<open>The two ways addPointsTx succeeds: the event is known, or the balance moves by exactly
  \<open>delta\<close> without wrapping around.\<close>

lemma addPoints_cases:
  assumes "points_inv db" "- (2 ^ 63) \<le> delta" "delta \<le> max_int64"
    and "addPointsTx pid u delta reason key now db = Inr db'"
  obtains (known) "db' = db" "\<exists>p \<in> set (points_ledger db). pl_id p = pid \<or> pl_event_key p = key"
  | (new) a n where "a \<in> set (accounts db)" "a_user_id a = u" "n = a_points_balance a + delta" "0 \<le> n"
      "n \<le> max_int64" "\<And>p. p \<in> set (points_ledger db) \<Longrightarrow> pl_id p \<noteq> pid \<and> pl_event_key p \<noteq> key"
      "accounts db' = sql_update (\<lambda>x. a_user_id x = u)
         (\<lambda>x. x\<lparr>a_points_balance := n, a_updated_at := now\<rparr>) (accounts db)"
      "points_ledger db' = points_ledger db @ [\<lparr>pl_id = pid, pl_user_id = u, pl_delta = delta,
         pl_balance_after = n, pl_reason = reason, pl_event_key = key, pl_created_at = now\<rparr>]"
proof -
  obtain a where a: "sql_first (\<lambda>a. a_user_id a = u) (accounts db) = Some a"
    using assms(4) by (auto simp: addPointsTx_def split: option.splits)
  have mem: "a \<in> set (accounts db)" "a_user_id a = u" using sql_firstD [OF a] by auto
  have bal: "0 \<le> a_points_balance a" "a_points_balance a \<le> max_int64"
    using assms(1) mem(1) by (auto simp: points_inv_def)
  define n where "n = i64 (a_points_balance a + delta)"
  have n: "0 \<le> n" using assms(4) a by (auto simp: addPointsTx_def n_def Let_def split: if_splits)
  have exact: "n = a_points_balance a + delta"
  proof (cases "a_points_balance a + delta \<le> max_int64")
    case True
    then show ?thesis unfolding n_def using bal assms(2) by (intro i64_id) auto
  next
    case False
    then have "n = a_points_balance a + delta - 2 ^ 64"
      unfolding n_def using bal assms(3) by (intro i64_wrap_up) simp_all
    then show ?thesis using n bal assms(3) by (simp add: max_int64_def)
  qed
  have le: "n \<le> max_int64" unfolding n_def by (rule i64_range)
  show ?thesis
  proof (cases "sql_exists (\<lambda>p. pl_id p = pid \<or> pl_event_key p = key) (points_ledger db)")
    case True
    then show ?thesis using assms(4) a n known by (auto simp: addPointsTx_def n_def Let_def sql_exists_iff)
  next
    case False
    then have db': "db' = db\<lparr>points_ledger := points_ledger db @
          [\<lparr>pl_id = pid, pl_user_id = u, pl_delta = delta, pl_balance_after = n,
            pl_reason = reason, pl_event_key = key, pl_created_at = now\<rparr>],
        accounts := sql_update (\<lambda>x. a_user_id x = u)
          (\<lambda>x. x\<lparr>a_points_balance := n, a_updated_at := now\<rparr>) (accounts db)\<rparr>"
      using assms(4) a n by (auto simp: addPointsTx_def n_def Let_def split: if_splits)
    show ?thesis
      using False db' by (intro new [OF mem exact n le]) (auto simp: sql_exists_iff)
  qed
qed

lemma addPoints_frame:
  assumes "addPointsTx pid u delta reason key now db = Inr db'"
  shows "entitlements db' = entitlements db" "charges db' = charges db" "allocations db' = allocations db"
    "reservations db' = reservations db" "users db' = users db" "orders db' = orders db"
    "products db' = products db" "payment_events db' = payment_events db"
  using assms by (auto simp: addPointsTx_def Let_def split: option.splits if_splits)

lemma addPoints_inv:
  assumes inv: "points_inv db" and d: "- (2 ^ 63) \<le> delta" "delta \<le> max_int64"
    and ok: "addPointsTx pid u delta reason key now db = Inr db'"
  shows "points_inv db'"
  using inv d ok
proof (cases rule: addPoints_cases)
  case (new a n)
  have keys: "keyed a_user_id (accounts db')"
    unfolding new(7) using inv by (intro keyed_update) (simp_all add: points_inv_def)
  have events: "keyed pl_event_key (points_ledger db')"
    unfolding new(8) using inv new(6) by (auto simp: points_inv_def keyed_append)
  have users: "a_user_id ` set (accounts db') = a_user_id ` set (accounts db)"
    unfolding new(7) by (intro set_eqI sql_update_mem_iff_key) simp
  have "0 \<le> a_points_balance x \<and> a_points_balance x \<le> max_int64 \<and>
      a_points_balance x = sql_sum (\<lambda>p. pl_user_id p = a_user_id x) pl_delta (points_ledger db')"
    if "x \<in> set (accounts db')" for x
    using that unfolding new(7)
  proof (cases rule: sql_update_memE)
    case (changed y)
    then have "y = a" using inv new(1,2) by (auto simp: points_inv_def dest: keyed_unique)
    then show ?thesis using changed new(2-5) points_inv_balance [OF inv new(1)] by (simp add: new(8))
  next
    case same
    then show ?thesis using points_inv_balance [OF inv same(1)] by (auto simp: new(8))
  qed
  moreover have "pl_user_id p \<in> a_user_id ` set (accounts db')" if "p \<in> set (points_ledger db')" for p
    using that inv new(1,2) unfolding users by (auto simp: new(8) points_inv_def)
  ultimately show ?thesis using keys events unfolding points_inv_def by blast
qed (use inv in simp)

lemma addPoints_traffic:
  assumes "traffic_inv db" "addPointsTx pid u delta reason key now db = Inr db'"
  shows "traffic_inv db'"
proof -
  have "accounts db' = accounts db \<or> (\<exists>n. accounts db' = sql_update (\<lambda>x. a_user_id x = u)
      (\<lambda>x. x\<lparr>a_points_balance := n, a_updated_at := now\<rparr>) (accounts db))"
    using assms(2) by (auto simp: addPointsTx_def Let_def split: option.splits if_splits)
  then obtain f where f: "accounts db' = map f (accounts db)"
      "\<And>a. a_user_id (f a) = a_user_id a \<and> a_traffic_reserved_bytes (f a) = a_traffic_reserved_bytes a \<and>
        a_free_traffic_remaining (f a) = a_free_traffic_remaining a \<and>
        a_free_traffic_period (f a) = a_free_traffic_period a"
  proof
    assume "accounts db' = accounts db"
    then show thesis by (intro that [of "\<lambda>a. a"]) auto
  next
    assume "\<exists>n. accounts db' = sql_update (\<lambda>x. a_user_id x = u)
      (\<lambda>x. x\<lparr>a_points_balance := n, a_updated_at := now\<rparr>) (accounts db)"
    then show thesis by (auto simp: sql_update_def intro!: that)
  qed
  have "traffic_inv (db\<lparr>accounts := map f (accounts db)\<rparr>)"
    using assms(1) by (rule traffic_inv_map_accounts) (simp add: f(2))
  moreover have "traffic_inv db' = traffic_inv (db\<lparr>accounts := map f (accounts db)\<rparr>)"
    using addPoints_frame [OF assms(2)] f(1) by (intro traffic_inv_cong) simp_all
  ultimately show ?thesis by simp
qed

section \<open>Granting and withdrawing traffic\<close>

lemma grant_entitlement_Inr:
  assumes "grant_entitlement eid u amount x st sid now db = Inr db'"
  shows "eid \<notin> e_id ` set (entitlements db)" "user_exists db u"
    "db' = db\<lparr>entitlements := entitlements db @ [\<lparr>e_id = eid, e_user_id = u, e_resource_type = TrafficResource,
       e_amount_bytes = amount, e_remaining_bytes = amount, e_expires_at = x, e_source_type = st,
       e_source_id = sid, e_created_at = now\<rparr>]\<rparr>"
  using assms by (auto simp: grant_entitlement_def sql_insert_Inr split: sum.splits if_splits)

text \<open>Nothing is promised from an entitlement that does not exist.\<close>

lemma no_source_no_promise:
  assumes "traffic_inv db" "\<And>e. e \<in> set (entitlements db) \<Longrightarrow> e_id e = sid \<Longrightarrow> e_user_id e \<noteq> u"
  shows "allocated_from db u EntitlementSource sid = 0"
  unfolding allocated_from_def
proof (rule sql_sum_none)
  fix al assume al: "al \<in> set (allocations db)"
  show "\<not> (reserved_charge db u (al_upload_id al) \<and> al_source_kind al = EntitlementSource \<and> al_source_id al = sid)"
  proof (rule notI)
    assume a: "reserved_charge db u (al_upload_id al) \<and> al_source_kind al = EntitlementSource \<and> al_source_id al = sid"
    then obtain c where "c \<in> set (charges db)" "c_upload_id c = al_upload_id al" "c_user_id c = u"
      "c_status c = ChargeReserved" by (auto simp: reserved_charge_iff)
    then have "source_backed db u al"
      using assms(1) al unfolding traffic_inv_def promises_backed_def by metis
    then show False using a assms(2) by (auto simp: source_backed_def)
  qed
qed

lemma allocated_from_entitlements [simp]:
  "allocated_from (db\<lparr>entitlements := es\<rparr>) u k sid = allocated_from db u k sid"
  by (simp add: allocated_from_def reserved_charge_def)

lemma traffic_inv_new_entitlement:
  assumes inv: "traffic_inv db" and fresh: "e_id n \<notin> e_id ` set (entitlements db)" and n: "0 \<le> e_remaining_bytes n"
  shows "traffic_inv (db\<lparr>entitlements := entitlements db @ [n]\<rparr>)" (is "traffic_inv ?db")
proof -
  have zero: "allocated_from db (e_user_id n) EntitlementSource (e_id n) = 0"
    using fresh by (intro no_source_no_promise [OF inv]) (metis imageI)
  have "source_backed ?db u al" if "source_backed db u al" for u al
    using that by (auto simp: source_backed_def split: source_kind.splits)
  then have "promises_backed ?db"
    using inv zero n by (auto simp: traffic_inv_def promises_backed_def)
  moreover have "ledger_keys ?db" using inv fresh by (auto simp: traffic_inv_def ledger_keys_def keyed_append)
  moreover have "counters_agree ?db" using inv
    by (simp add: traffic_inv_def counters_agree_def charge_total_def download_hold_def)
  moreover have "charges_covered ?db" using inv
    by (simp add: traffic_inv_def charges_covered_def alloc_total_def)
  ultimately show ?thesis by (simp add: traffic_inv_def)
qed

lemma grant_traffic:
  assumes "traffic_inv db" "0 \<le> amount" "grant_entitlement eid u amount x st sid now db = Inr db'"
  shows "traffic_inv db'"
  using grant_entitlement_Inr [OF assms(3)] assms(1,2) by (auto intro: traffic_inv_new_entitlement)

text \<open>Entitlements nobody was promised anything from can go.\<close>

lemma traffic_inv_drop_entitlements:
  assumes inv: "traffic_inv db"
    and free: "\<And>e al c. \<lbrakk>e \<in> set (entitlements db); p e; al \<in> set (allocations db); c \<in> set (charges db);
      al_source_kind al = EntitlementSource; al_source_id al = e_id e; c_upload_id c = al_upload_id al;
      c_status c = ChargeReserved; e_resource_type e = TrafficResource\<rbrakk> \<Longrightarrow> False"
  shows "traffic_inv (db\<lparr>entitlements := sql_delete p (entitlements db)\<rparr>)" (is "traffic_inv ?db")
proof -
  have "source_backed ?db (c_user_id c) al"
    if "c \<in> set (charges db)" "c_status c = ChargeReserved" "al \<in> set (allocations db)"
      "al_upload_id al = c_upload_id c" for c al
  proof -
    have "source_backed db (c_user_id c) al" using inv that by (auto simp: traffic_inv_def promises_backed_def)
    moreover have "\<not> p e" if "e \<in> set (entitlements db)" "al_source_kind al = EntitlementSource"
      "e_id e = al_source_id al" "e_resource_type e = TrafficResource" for e
      using free [of e al c] that \<open>c \<in> set (charges db)\<close> \<open>c_status c = ChargeReserved\<close>
        \<open>al \<in> set (allocations db)\<close> \<open>al_upload_id al = c_upload_id c\<close> by auto
    ultimately show ?thesis
      by (cases "al_source_kind al") (auto simp: source_backed_def sql_delete_def)
  qed
  moreover have "\<forall>e \<in> set (sql_delete p (entitlements db)).
      allocated_from db (e_user_id e) EntitlementSource (e_id e) \<le> e_remaining_bytes e"
    using inv by (auto simp: traffic_inv_def promises_backed_def sql_delete_def)
  ultimately have "promises_backed ?db" using inv by (simp add: traffic_inv_def promises_backed_def)
  moreover have "ledger_keys ?db" using inv by (simp add: traffic_inv_def ledger_keys_def keyed_delete)
  moreover have "counters_agree ?db" using inv
    by (simp add: traffic_inv_def counters_agree_def charge_total_def download_hold_def)
  moreover have "charges_covered ?db" using inv
    by (simp add: traffic_inv_def charges_covered_def alloc_total_def)
  ultimately show ?thesis by (simp add: traffic_inv_def)
qed

section \<open>Where entitlements come from\<close>

abbreviation source_of :: "entitlement \<Rightarrow> string \<times> ident" where
  "source_of e \<equiv> (e_source_type e, e_source_id e)"

text \<open>The row that justifies an entitlement: a code its owner redeemed, an order its owner paid and
  that was not refunded, a check-in, a VIP login grant.\<close>

definition source_row :: "cdb \<Rightarrow> entitlement \<Rightarrow> bool" where
  "source_row db e \<longleftrightarrow>
     e_source_type e = ''redemption'' \<and> (\<exists>k \<in> set (codes db). k_id k = e_source_id e \<and>
        k_status k = CodeRedeemed \<and> k_redeemed_by k = e_user_id e) \<or>
     e_source_type e = ''order'' \<and> (\<exists>x \<in> set (orders db). o_id x = e_source_id e \<and>
        o_status x = OrderPaid \<and> o_user_id x = e_user_id e) \<or>
     e_source_type e = ''checkin'' \<and> (\<exists>c \<in> set (checkins db). ci_id c = e_source_id e \<and>
        ci_user_id c = e_user_id e) \<or>
     e_source_type e = ''vip_daily_login'' \<and> (\<exists>g \<in> set (vip_grants db). vg_id g = e_source_id e \<and>
        vg_user_id g = e_user_id e)"

lemma source_row_mono:
  assumes row: "source_row db e"
    and k: "\<And>k. k \<in> set (codes db) \<Longrightarrow> k_id k = e_source_id e \<Longrightarrow> k_status k = CodeRedeemed \<Longrightarrow>
      k_redeemed_by k = e_user_id e \<Longrightarrow> k \<in> set (codes db')"
    and x: "\<And>x. x \<in> set (orders db) \<Longrightarrow> e_source_type e = ''order'' \<Longrightarrow> o_id x = e_source_id e \<Longrightarrow>
      o_status x = OrderPaid \<Longrightarrow> x \<in> set (orders db')"
    and c: "\<And>c. c \<in> set (checkins db) \<Longrightarrow> ci_user_id c = e_user_id e \<Longrightarrow> c \<in> set (checkins db')"
    and g: "\<And>g. g \<in> set (vip_grants db) \<Longrightarrow> vg_user_id g = e_user_id e \<Longrightarrow> g \<in> set (vip_grants db')"
  shows "source_row db' e"
  using row [unfolded source_row_def]
proof (elim disjE)
  assume "e_source_type e = ''redemption'' \<and> (\<exists>k \<in> set (codes db). k_id k = e_source_id e \<and>
        k_status k = CodeRedeemed \<and> k_redeemed_by k = e_user_id e)"
  then show ?thesis unfolding source_row_def using k by (intro disjI1) blast
next
  assume "e_source_type e = ''order'' \<and> (\<exists>x \<in> set (orders db). o_id x = e_source_id e \<and>
        o_status x = OrderPaid \<and> o_user_id x = e_user_id e)"
  then show ?thesis unfolding source_row_def using x by (intro disjI2 [OF disjI1]) blast
next
  assume "e_source_type e = ''checkin'' \<and> (\<exists>c \<in> set (checkins db). ci_id c = e_source_id e \<and> ci_user_id c = e_user_id e)"
  then show ?thesis unfolding source_row_def using c by (intro disjI2 [OF disjI2 [OF disjI1]]) blast
next
  assume "e_source_type e = ''vip_daily_login'' \<and> (\<exists>g \<in> set (vip_grants db). vg_id g = e_source_id e \<and> vg_user_id g = e_user_id e)"
  then show ?thesis unfolding source_row_def using g by (intro disjI2 [OF disjI2 [OF disjI2]]) blast
qed

definition sources_inv :: "cdb \<Rightarrow> bool" where
  "sources_inv db \<longleftrightarrow> keyed o_id (orders db) \<and> keyed k_id (codes db) \<and> keyed source_of (entitlements db) \<and>
     (\<forall>e \<in> set (entitlements db). source_row db e)"

lemma source_row_cong:
  assumes "codes db' = codes db" "orders db' = orders db" "checkins db' = checkins db" "vip_grants db' = vip_grants db"
  shows "source_row db' e = source_row db e"
  using assms by (simp add: source_row_def)

lemma sources_inv_cong:
  assumes "entitlements db' = entitlements db" "codes db' = codes db" "orders db' = orders db"
    "checkins db' = checkins db" "vip_grants db' = vip_grants db"
  shows "sources_inv db' = sources_inv db"
  using assms source_row_cong [of db' db] by (simp add: sources_inv_def)

text \<open>A grant whose source has no entitlement yet.\<close>

lemma grant_sources:
  assumes inv: "sources_inv db" and g: "grant_entitlement eid u amount x st sid now db = Inr db'"
    and fresh: "\<And>e. e \<in> set (entitlements db) \<Longrightarrow> source_of e \<noteq> (st, sid)"
    and row: "\<And>e. e_source_type e = st \<Longrightarrow> e_source_id e = sid \<Longrightarrow> e_user_id e = u \<Longrightarrow> source_row db e"
  shows "sources_inv db'"
proof -
  define n where "n = \<lparr>e_id = eid, e_user_id = u, e_resource_type = TrafficResource, e_amount_bytes = amount,
    e_remaining_bytes = amount, e_expires_at = x, e_source_type = st, e_source_id = sid, e_created_at = now\<rparr>"
  have db': "db' = db\<lparr>entitlements := entitlements db @ [n]\<rparr>"
    using grant_entitlement_Inr(3) [OF g] by (simp add: n_def)
  have "source_row db n" by (rule row) (simp_all add: n_def)
  moreover have "keyed source_of (entitlements db @ [n])"
    using inv fresh unfolding keyed_append by (auto simp: sources_inv_def n_def)
  moreover have "source_row db' e = source_row db e" for e
    by (rule source_row_cong) (simp_all add: db')
  ultimately show ?thesis using inv by (auto simp: sources_inv_def db')
qed

section \<open>Transactions that touch neither points nor traffic\<close>

lemma insertAudit_Inr:
  assumes "insertAuditTx i u a tt ti d ip now db = Inr db'"
  shows "\<exists>t. db' = db\<lparr>audits := t\<rparr>"
  using assms by (auto simp: insertAuditTx_def split: if_splits sum.splits)

lemma applyVIP_set_vip:
  assumes ok: "applyVIPBenefitTx u p d now db = Inr db'"
  shows "db' = db \<or> (\<exists>plan y. set_vip u plan y db = Inr db')"
proof -
  obtain plan days where norm: "normalizeVIPBenefit p d = Inr (plan, days)"
    using ok by (cases "normalizeVIPBenefit p d") (auto simp: applyVIPBenefitTx_def)
  obtain x where x: "sql_first (\<lambda>u'. us_id u' = u) (users db) = Some x"
    using ok norm by (cases "sql_first (\<lambda>u'. us_id u' = u) (users db)") (auto simp: applyVIPBenefitTx_def)
  show ?thesis
    using ok unfolding applyVIPBenefitTx_def norm x by (auto simp: Let_def split: if_splits)
qed

lemma set_vip_only_users:
  assumes ok: "applyVIPBenefitTx u p d now db = Inr db'"
  shows "\<exists>t. db' = db\<lparr>users := t\<rparr>"
proof -
  have "db = db\<lparr>users := users db\<rparr>" by simp
  then show ?thesis using applyVIP_set_vip [OF ok] set_vip_Inr by metis
qed

definition commerce_inv :: "cdb \<Rightarrow> bool" where
  "commerce_inv db \<longleftrightarrow> points_inv db \<and> traffic_inv db \<and> sources_inv db"

lemma commerce_inv_cong:
  assumes "accounts db' = accounts db" "points_ledger db' = points_ledger db" "entitlements db' = entitlements db"
    "charges db' = charges db" "allocations db' = allocations db" "reservations db' = reservations db"
    "codes db' = codes db" "orders db' = orders db" "checkins db' = checkins db" "vip_grants db' = vip_grants db"
  shows "commerce_inv db' = commerce_inv db"
  unfolding commerce_inv_def
  using points_inv_cong [of db' db] traffic_inv_cong [of db' db] sources_inv_cong [of db' db] assms by simp

lemma insertAudit_commerce:
  "commerce_inv db \<Longrightarrow> insertAuditTx i u a tt ti d ip now db = Inr db' \<Longrightarrow> commerce_inv db'"
proof (drule insertAudit_Inr, elim exE)
  fix t assume "commerce_inv db" "db' = db\<lparr>audits := t\<rparr>"
  then show ?thesis using commerce_inv_cong [of db' db] by simp
qed

lemma applyVIP_commerce:
  "commerce_inv db \<Longrightarrow> applyVIPBenefitTx u p d now db = Inr db' \<Longrightarrow> commerce_inv db'"
proof (drule set_vip_only_users, elim exE)
  fix t assume "commerce_inv db" "db' = db\<lparr>users := t\<rparr>"
  then show ?thesis using commerce_inv_cong [of db' db] by simp
qed

lemma addPoints_commerce:
  assumes "commerce_inv db" "- (2 ^ 63) \<le> delta" "delta \<le> max_int64"
    "addPointsTx pid u delta reason key now db = Inr db'"
  shows "commerce_inv db'"
proof -
  have "sources_inv db' = sources_inv db"
    using assms(4) by (intro sources_inv_cong) (auto simp: addPointsTx_def Let_def split: option.splits if_splits)
  then show ?thesis using assms addPoints_inv addPoints_traffic by (simp add: commerce_inv_def) blast
qed

lemma grant_commerce:
  assumes "commerce_inv db" "0 \<le> amount" "grant_entitlement eid u amount x st sid now db = Inr db'"
    "\<And>e. e \<in> set (entitlements db) \<Longrightarrow> source_of e \<noteq> (st, sid)"
    "\<And>e. e_source_type e = st \<Longrightarrow> e_source_id e = sid \<Longrightarrow> e_user_id e = u \<Longrightarrow> source_row db e"
  shows "commerce_inv db'"
proof -
  have "points_inv db' = points_inv db"
    by (rule points_inv_cong) (simp_all add: grant_entitlement_Inr(3) [OF assms(3)])
  then show ?thesis
    using assms grant_traffic [OF _ assms(2,3)] grant_sources [OF _ assms(3)] by (simp add: commerce_inv_def)
qed

section \<open>Redemption\<close>

lemma insert_codes_Inr:
  assumes "insert_codes b now gs t = Inr t'" "keyed k_id t"
  shows "keyed k_id t' \<and> set t \<subseteq> set t'"
  using assms
proof (induction gs arbitrary: t)
  case (Cons g gs)
  obtain r where "insert_codes b now gs (t @ [r]) = Inr t'" "k_id r \<notin> k_id ` set t"
    using Cons.prems(1) by (auto simp: sql_insert_Inr split: if_splits sum.splits)
  then show ?case using Cons.IH [of "t @ [r]"] Cons.prems(2) by (simp add: keyed_append)
qed simp

lemma store_batch_commerce:
  assumes inv: "commerce_inv db" and ok: "store_batch bid aid actor spec gs ip now db = Inr (r, db')"
  shows "commerce_inv db'"
proof -
  obtain bs ks detail where ks: "insert_codes bid now gs (codes db) = Inr ks"
    and au: "insertAuditTx aid actor ''admin.redemption-batch.create'' ''redemption_batch'' bid detail ip now
       (db\<lparr>batches := bs, codes := ks\<rparr>) = Inr db'"
    using ok by (auto simp: store_batch_def Let_def split: sum.splits if_splits)
  let ?db = "db\<lparr>batches := bs, codes := ks\<rparr>"
  have k: "keyed k_id ks \<and> set (codes db) \<subseteq> set ks"
    using insert_codes_Inr [OF ks] inv by (simp add: commerce_inv_def sources_inv_def)
  have "source_row db e \<Longrightarrow> source_row ?db e" for e
    using k by (elim source_row_mono) auto
  then have "sources_inv ?db"
    using inv k unfolding commerce_inv_def sources_inv_def by simp
  then have "commerce_inv ?db"
    using inv points_inv_cong [of ?db db] traffic_inv_cong [of ?db db] by (simp add: commerce_inv_def)
  then show ?thesis using au by (rule insertAudit_commerce)
qed

lemma update_codes_commerce:
  assumes inv: "commerce_inv db" and id: "\<And>k. k_id (f k) = k_id k"
    and red: "\<And>k. k \<in> set (codes db) \<Longrightarrow> p k \<Longrightarrow> k_status k \<noteq> CodeRedeemed"
  shows "commerce_inv (db\<lparr>codes := sql_update p f (codes db)\<rparr>)" (is "commerce_inv ?db")
proof -
  have "source_row db e \<Longrightarrow> source_row ?db e" for e
    using red sql_update_keep [where p = p and f = f] by (elim source_row_mono) auto
  moreover have "keyed k_id (sql_update p f (codes db))"
    using inv id by (intro keyed_update) (simp_all add: commerce_inv_def sources_inv_def)
  ultimately have "sources_inv ?db"
    using inv unfolding commerce_inv_def sources_inv_def by simp
  then show ?thesis
    using inv points_inv_cong [of ?db db] traffic_inv_cong [of ?db db] by (simp add: commerce_inv_def)
qed

lemma disable_commerce:
  assumes inv: "commerce_inv db" and op: "DisableRedemptionBatch aid b actor ip now db = (r, db')"
  shows "commerce_inv db'"
proof -
  have "commerce_inv d" if "disable_batch aid (TrimSpace b) actor ip now db = Inr d" for d
  proof -
    let ?b = "sql_update (\<lambda>x. b_id x = TrimSpace b \<and> b_status x = BatchActive)
             (\<lambda>x. x\<lparr>b_status := BatchDisabled, b_disabled_at := now\<rparr>) (batches db)"
    let ?db = "db\<lparr>codes := sql_update (\<lambda>k. k_batch_id k = TrimSpace b \<and> k_status k = CodeActive)
             (\<lambda>k. k\<lparr>k_status := CodeDisabled\<rparr>) (codes db)\<rparr>"
    have "commerce_inv ?db" using inv by (rule update_codes_commerce) simp_all
    then have "commerce_inv (?db\<lparr>batches := ?b\<rparr>)" by (simp add: commerce_inv_cong [of "?db\<lparr>batches := ?b\<rparr>" ?db])
    moreover have "?db\<lparr>batches := ?b\<rparr> = db\<lparr>batches := ?b, codes := codes ?db\<rparr>" by simp
    ultimately show ?thesis using that unfolding disable_batch_def by (auto intro: insertAudit_commerce)
  qed
  then show ?thesis using op inv
    by (auto simp: DisableRedemptionBatch_def Let_def commit_def split: if_splits sum.splits prod.splits)
qed

lemma redemption_record_Some:
  "redemption_record h db = Some (k, b) \<Longrightarrow> k \<in> set (codes db) \<and> k_code_hash k = h \<and> b \<in> set (batches db) \<and>
     b_id b = k_batch_id k"
  unfolding redemption_record_def by (auto split: option.splits dest!: sql_firstD)

definition redeemed :: "ident \<Rightarrow> unix_time \<Rightarrow> redemption_code \<Rightarrow> redemption_code" where
  "redeemed u now k = k\<lparr>k_status := CodeRedeemed, k_redeemed_by := u, k_redeemed_at := now\<rparr>"

lemma claim_code_Inr:
  assumes "claim_code i u now db = Inr db'"
  shows "db' = db\<lparr>codes := sql_update (\<lambda>k. k_id k = i \<and> k_status k = CodeActive) (redeemed u now) (codes db)\<rparr>"
  using assms unfolding claim_code_def redeemed_def Let_def by (simp split: if_splits)

text \<open>Redeeming an active code: the code, then at most one entitlement or one user row, then the
  audit row.\<close>

lemma redeem_active_Inr:
  assumes "redeem_active eid aid u k b ip now db = Inr (r, db')"
  obtains db1 db2 where "claim_code (k_id k) u now db = Inr db1"
    "redemption_benefit eid u k b now db1 = Inr db2" "\<exists>t. db' = db2\<lparr>audits := t\<rparr>"
  using assms unfolding redeem_active_def
  by (auto split: sum.splits dest!: insertAudit_Inr)

lemma active_code_unspent:
  assumes "commerce_inv db" "k \<in> set (codes db)" "k_status k \<noteq> CodeRedeemed" "e \<in> set (entitlements db)"
  shows "source_of e \<noteq> (''redemption'', k_id k)"
proof
  assume "source_of e = (''redemption'', k_id k)"
  then obtain k' where "k' \<in> set (codes db)" "k_id k' = k_id k" "k_status k' = CodeRedeemed"
    using assms(1,4) by (auto simp: commerce_inv_def sources_inv_def source_row_def)
  moreover have "keyed k_id (codes db)" using assms(1) by (simp add: commerce_inv_def sources_inv_def)
  ultimately have "k' = k" using assms(2) by (blast intro: keyed_unique)
  then show False using assms(3) \<open>k_status k' = CodeRedeemed\<close> by simp
qed

lemma redeem_active_commerce:
  assumes inv: "commerce_inv db" and k: "k \<in> set (codes db)" "k_status k = CodeActive"
    and ok: "redeem_active eid aid u k b ip now db = Inr (r, db')"
  shows "commerce_inv db'"
proof -
  obtain db1 db2 t where c: "claim_code (k_id k) u now db = Inr db1"
    and ben: "redemption_benefit eid u k b now db1 = Inr db2" and db': "db' = db2\<lparr>audits := t\<rparr>"
    using ok by (blast elim: redeem_active_Inr)
  note db1 = claim_code_Inr [OF c]
  have inv1: "commerce_inv db1"
    unfolding db1 using inv by (rule update_codes_commerce) (simp_all add: redeemed_def)
  have "commerce_inv db2"
  proof (cases "b_kind b = ''traffic''")
    case True
    then have g: "grant_entitlement eid u (b_traffic_bytes b) permanentTrafficEntitlementExpiry ''redemption''
        (k_id k) now db1 = Inr db2" and pos: "0 \<le> b_traffic_bytes b"
      using ben by (auto simp: redemption_benefit_def split: if_splits)
    have mem: "redeemed u now k \<in> set (codes db1)"
      using sql_update_mem [OF k(1), of "\<lambda>x. k_id x = k_id k \<and> k_status x = CodeActive" "redeemed u now"] k(2)
      by (simp add: db1)
    show ?thesis using inv1 pos g
    proof (rule grant_commerce)
      show "source_of e \<noteq> (''redemption'', k_id k)" if "e \<in> set (entitlements db1)" for e
        using active_code_unspent [OF inv k(1), of e] k(2) that by (simp add: db1)
      show "source_row db1 e" if "e_source_type e = ''redemption''" "e_source_id e = k_id k" "e_user_id e = u" for e
        using that unfolding source_row_def by (intro disjI1 conjI bexI [OF _ mem]) (simp_all add: redeemed_def)
    qed
  next
    case False
    then show ?thesis using ben inv1
      by (auto simp: redemption_benefit_def split: if_splits intro: applyVIP_commerce)
  qed
  then show ?thesis using commerce_inv_cong [of db' db2] by (simp add: db')
qed

lemma redeem_commerce:
  assumes inv: "commerce_inv db" and op: "RedeemRedemptionCode h eid aid u raw ip now db = (r, db')"
  shows "commerce_inv db'"
proof (cases r)
  case (Inl e)
  then show ?thesis using op inv by (auto simp: RedeemRedemptionCode_def commit_fst_Inl split: sum.splits)
next
  case (Inr x)
  then obtain code where ok: "redeem_hash eid aid u code ip now db = Inr (x, db')"
    using op by (auto simp: RedeemRedemptionCode_def commit_fst_Inr split: sum.splits)
  then obtain k b where rec: "redemption_record code db = Some (k, b)"
    by (auto simp: redeem_hash_def split: if_splits option.splits)
  show ?thesis
  proof (cases "k_status k = CodeRedeemed")
    case True
    then have "db' = db" using ok rec by (auto simp: redeem_hash_def split: if_splits sum.splits)
    then show ?thesis using inv by simp
  next
    case False
    then have "k_status k = CodeActive" "redeem_active eid aid u k b ip now db = Inr (x, db')"
      using ok rec by (auto simp: redeem_hash_def split: if_splits)
    then show ?thesis using inv redemption_record_Some [OF rec] by (blast intro: redeem_active_commerce)
  qed
qed

lemma create_batch_commerce:
  assumes inv: "commerce_inv db"
    and op: "CreateRedemptionBatch h seal zone bid aid draws actor spec ip now db = Some (r, db')"
  shows "commerce_inv db'"
proof -
  have "commerce_inv (snd (commit db (store_batch bid aid actor s gs ip now db)))" for s gs
    using store_batch_commerce [OF inv, of bid aid actor s gs ip now] inv
    by (cases "store_batch bid aid actor s gs ip now db") auto
  then show ?thesis
    using op inv by (auto simp: CreateRedemptionBatch_def split: sum.splits if_splits option.splits)
      (metis snd_conv)+
qed

section \<open>Orders\<close>

text \<open>Prices are 64-bit columns.\<close>

definition prices_fit :: "cdb \<Rightarrow> bool" where
  "prices_fit db \<longleftrightarrow>
     (\<forall>p \<in> set (products db). p_points_price p \<le> max_int64 \<and> - (2 ^ 63) \<le> p_points_price p \<and> p_price_cents p \<le> max_int64) \<and>
     (\<forall>x \<in> set (orders db). o_points_price x \<le> max_int64 \<and> - (2 ^ 63) \<le> o_points_price x \<and> o_price_cents x \<le> max_int64)"

lemma purchase_reward_fits:
  assumes "o_price_cents x \<le> max_int64"
  shows "- (2 ^ 63) \<le> purchase_reward x" "purchase_reward x \<le> max_int64"
proof -
  have "go_div (o_price_cents x) 10 \<le> max_int64"
  proof (cases "0 \<le> o_price_cents x")
    case True
    then show ?thesis using assms by (simp add: go_div_nonneg max_int64_def)
  next
    case False
    moreover have "0 \<le> \<bar>o_price_cents x\<bar> div 10" by (intro div_int_pos_iff [THEN iffD2]) simp
    ultimately show ?thesis by (simp add: go_div_def max_int64_def sgn_if)
  qed
  then show "- (2 ^ 63) \<le> purchase_reward x" "purchase_reward x \<le> max_int64"
    by (simp_all add: purchase_reward_def max_int64_def)
qed

lemma update_orders_commerce:
  assumes inv: "commerce_inv db" and id: "\<And>x. o_id (f x) = o_id x"
    and paid: "\<And>x. x \<in> set (orders db) \<Longrightarrow> p x \<Longrightarrow> o_status x \<noteq> OrderPaid"
  shows "commerce_inv (db\<lparr>orders := sql_update p f (orders db)\<rparr>)" (is "commerce_inv ?db")
proof -
  have "source_row db e \<Longrightarrow> source_row ?db e" for e
    using paid sql_update_keep [where p = p and f = f] by (elim source_row_mono) auto
  moreover have "keyed o_id (sql_update p f (orders db))"
    using inv id by (intro keyed_update) (simp_all add: commerce_inv_def sources_inv_def)
  ultimately have "sources_inv ?db"
    using inv unfolding commerce_inv_def sources_inv_def by simp
  then show ?thesis
    using inv points_inv_cong [of ?db db] traffic_inv_cong [of ?db db] by (simp add: commerce_inv_def)
qed

definition paid_order :: "string \<Rightarrow> unix_time \<Rightarrow> order \<Rightarrow> order" where
  "paid_order tx now x = x\<lparr>o_status := OrderPaid, o_provider_transaction_id := tx, o_paid_at := now\<rparr>"

lemma pay_row_Inr:
  assumes "pay_row i tx now db = Inr db'"
  shows "db' = db\<lparr>orders := sql_update (\<lambda>x. o_id x = i \<and> o_status x = OrderPending) (paid_order tx now) (orders db)\<rparr>"
  using assms unfolding pay_row_def paid_order_def Let_def by (simp split: if_splits)

lemma unpaid_order_unspent:
  assumes "commerce_inv db" "x \<in> set (orders db)" "o_status x \<noteq> OrderPaid" "e \<in> set (entitlements db)"
  shows "source_of e \<noteq> (''order'', o_id x)"
proof
  assume "source_of e = (''order'', o_id x)"
  then obtain y where "y \<in> set (orders db)" "o_id y = o_id x" "o_status y = OrderPaid"
    using assms(1,4) by (auto simp: commerce_inv_def sources_inv_def source_row_def)
  moreover have "keyed o_id (orders db)" using assms(1) by (simp add: commerce_inv_def sources_inv_def)
  ultimately have "y = x" using assms(2) by (blast intro: keyed_unique)
  then show False using assms(3) \<open>o_status y = OrderPaid\<close> by simp
qed

lemma order_traffic_commerce:
  assumes inv: "commerce_inv db" and x: "x \<in> set (orders db)" "o_status x \<noteq> OrderPaid"
    and db1: "db1 = db\<lparr>orders := sql_update (\<lambda>y. o_id y = o_id x \<and> o_status y = OrderPending) (paid_order tx now) (orders db)\<rparr>"
    and inv1: "commerce_inv db1" and pend: "o_status x = OrderPending"
    and ok: "order_traffic eid x p now db1 = Inr db2"
  shows "commerce_inv db2"
proof (cases "p_traffic_bytes p > 0")
  case True
  then have g: "grant_entitlement eid (o_user_id x) (p_traffic_bytes p) (product_expiry p now) ''order'' (o_id x) now db1 = Inr db2"
    using ok by (simp add: order_traffic_def)
  have mem: "paid_order tx now x \<in> set (orders db1)"
    using sql_update_mem [OF x(1), of "\<lambda>y. o_id y = o_id x \<and> o_status y = OrderPending" "paid_order tx now"] pend
    by (simp add: db1)
  have "0 \<le> p_traffic_bytes p" using True by simp
  with inv1 show ?thesis using g
  proof (rule grant_commerce)
    show "source_of e \<noteq> (''order'', o_id x)" if "e \<in> set (entitlements db1)" for e
      using unpaid_order_unspent [OF inv x, of e] that by (simp add: db1)
    show "source_row db1 e" if "e_source_type e = ''order''" "e_source_id e = o_id x" "e_user_id e = o_user_id x" for e
      using that unfolding source_row_def
      by (intro disjI2 [OF disjI1] conjI bexI [OF _ mem]) (simp_all add: paid_order_def)
  qed
next
  case False
  then show ?thesis using ok inv1 by (simp add: order_traffic_def)
qed

lemma complete_order_commerce:
  assumes inv: "commerce_inv db" and fit: "prices_fit db" and x: "x \<in> set (orders db)"
    and ok: "completeOrderTx eid pid x p tx now reward db = Inr (y, db')"
  shows "commerce_inv db'"
proof -
  obtain db1 db2 db3 where pend: "o_status x = OrderPending" and pay: "pay_row (o_id x) tx now db = Inr db1"
    and tr: "order_traffic eid x p now db1 = Inr db2" and vip: "order_vip x p now db2 = Inr db3"
    and rew: "order_reward pid reward x now db3 = Inr db'"
    using ok by (auto simp: completeOrderTx_def split: if_splits sum.splits)
  note db1 = pay_row_Inr [OF pay]
  have inv1: "commerce_inv db1" unfolding db1
    using inv by (rule update_orders_commerce) (simp_all add: paid_order_def)
  have "commerce_inv db2"
    using order_traffic_commerce [OF inv x _ db1 inv1 pend tr] pend by simp
  then have inv3: "commerce_inv db3"
    using vip by (auto simp: order_vip_def split: if_splits intro: applyVIP_commerce)
  have "o_price_cents x \<le> max_int64" using fit x by (simp add: prices_fit_def)
  note fits = purchase_reward_fits [OF this]
  show ?thesis using rew inv3 addPoints_commerce [OF inv3 fits] unfolding order_reward_def
    by (cases "reward \<and> o_price_cents x > 0") simp_all
qed

lemma loadOrder_Inr:
  "loadOrderProductTx i u db = Inr (x, p) \<Longrightarrow> x \<in> set (orders db) \<and> o_id x = i \<and> o_user_id x = u \<and> p \<in> set (products db)"
  by (auto simp: loadOrderProductTx_def OrderByIDForUser_def split: sum.splits option.splits dest!: sql_firstD)

lemma sandbox_commerce:
  assumes inv: "commerce_inv db" and fit: "prices_fit db"
    and op: "CompleteSandboxOrder h eid pid i u ev tx now db = (r, db')"
  shows "commerce_inv db'"
proof -
  have "commerce_inv d" if load: "loadOrderProductTx i u db = Inr (x, p)"
    and ok: "complete_sandbox h eid pid x p ev tx now db = Inr (y, d)" for x p y d
  proof -
    consider "d = db" | pes where "completeOrderTx eid pid x p tx now True (db\<lparr>payment_events := pes\<rparr>) = Inr (y, d)"
      using ok by (auto simp: complete_sandbox_def split: if_splits sum.splits)
    then show ?thesis
    proof cases
      case 2
      have "commerce_inv (db\<lparr>payment_events := pes\<rparr>)"
        using inv commerce_inv_cong [of "db\<lparr>payment_events := pes\<rparr>" db] by simp
      then show ?thesis using fit loadOrder_Inr [OF load]
        by (intro complete_order_commerce [OF _ _ _ 2]) (simp_all add: prices_fit_def)
    qed (use inv in simp)
  qed
  then show ?thesis using op inv
    by (auto simp: CompleteSandboxOrder_def commit_def split: sum.splits prod.splits)
qed

lemma addPoints_prices:
  "addPointsTx pid u delta reason key now db = Inr db' \<Longrightarrow> prices_fit db \<Longrightarrow> prices_fit db'"
  using addPoints_frame [of pid u delta reason key now db db'] by (simp add: prices_fit_def)

lemma points_payment_commerce:
  assumes inv: "commerce_inv db" and fit: "prices_fit db" and op: "PayOrderWithPoints eid pid i u now db = (r, db')"
  shows "commerce_inv db'"
proof -
  have "commerce_inv d" if load: "loadOrderProductTx i u db = Inr (x, p)"
    and ok: "pay_with_points eid pid x p now db = Inr (y, d)" for x p y d
  proof -
    consider "d = db" | db1 reason key where "addPointsTx pid (o_user_id x) (i64 (- o_points_price x)) reason key now db = Inr db1"
      "completeOrderTx eid pid x p (''points-'' @ o_id x) now False db1 = Inr (y, d)"
      using ok by (auto simp: pay_with_points_def split: if_splits sum.splits)
    then show ?thesis
    proof cases
      case 2
      have "commerce_inv db1" using addPoints_commerce [OF inv _ _ 2(1)] i64_range by simp
      then show ?thesis using addPoints_prices [OF 2(1) fit] loadOrder_Inr [OF load] addPoints_frame(6) [OF 2(1)]
        by (intro complete_order_commerce [OF _ _ _ 2(2)]) simp_all
    qed (use inv in simp)
  qed
  then show ?thesis using op inv
    by (auto simp: PayOrderWithPoints_def commit_def split: sum.splits prod.splits)
qed

end
