(* ===== verification/Traffic_Moves.thy ===== *)
theory Traffic_Moves
  imports Commerce_Ledger Upload_Properties
begin

text \<open>
  What the upload lifecycle does to the account tables, seen from commerce: every upload operation is
  a sequence of reservations, settlements and refunds of upload traffic and of statements on other
  tables (\<open>traffic_move\<close>), and these keep the points balances, the origin of every entitlement and the
  consistency of the traffic ledger.
\<close>

section \<open>Columns the upload lifecycle never writes\<close>

abbreviation account_points :: "resource_account \<Rightarrow> ident \<times> int" where
  "account_points a \<equiv> (a_user_id a, a_points_balance a)"

abbreviation entitlement_origin :: "entitlement \<Rightarrow> ident \<times> ident \<times> string \<times> ident" where
  "entitlement_origin e \<equiv> (e_id e, e_user_id e, source_of e)"

definition same_books :: "cdb \<Rightarrow> cdb \<Rightarrow> bool" where
  "same_books db db' \<longleftrightarrow> points_ledger db' = points_ledger db \<and> codes db' = codes db \<and> orders db' = orders db \<and>
     checkins db' = checkins db \<and> vip_grants db' = vip_grants db \<and> products db' = products db"

text \<open>New accounts start without points.\<close>

definition books_frame :: "cdb \<Rightarrow> cdb \<Rightarrow> bool" where
  "books_frame db db' \<longleftrightarrow> same_books db db' \<and>
     map entitlement_origin (entitlements db') = map entitlement_origin (entitlements db) \<and>
     (\<exists>us. map account_points (accounts db') = map account_points (accounts db) @ map (\<lambda>u. (u, 0)) us \<and>
        distinct us \<and> set us \<inter> a_user_id ` set (accounts db) = {})"

lemma map_sql_update: "(\<And>r. f (g r) = f r) \<Longrightarrow> map f (sql_update p g t) = map f t"
  by (induction t) (simp_all add: sql_update_def)

lemma books_frame_same:
  assumes "same_books db db'" "map entitlement_origin (entitlements db') = map entitlement_origin (entitlements db)"
    "map account_points (accounts db') = map account_points (accounts db)"
  shows "books_frame db db'"
  unfolding books_frame_def using assms by (intro conjI exI [of _ "[]"]) simp_all

lemma account_points_ids: "map account_points xs = map account_points ys @ map (\<lambda>u. (u, 0)) us \<Longrightarrow>
    map a_user_id xs = map a_user_id ys @ us"
proof -
  assume "map account_points xs = map account_points ys @ map (\<lambda>u. (u, 0)) us"
  then have "map fst (map account_points xs) = map fst (map account_points ys @ map (\<lambda>u. (u, 0)) us)" by simp
  then show ?thesis by (simp add: comp_def)
qed

lemma books_frame_points:
  assumes inv: "points_inv db" and f: "books_frame db db'"
  shows "points_inv db'"
proof -
  obtain us where us: "map account_points (accounts db') = map account_points (accounts db) @ map (\<lambda>u. (u, 0)) us"
    "distinct us" "set us \<inter> a_user_id ` set (accounts db) = {}" using f by (auto simp: books_frame_def)
  note ids = account_points_ids [OF us(1)]
  have pl: "points_ledger db' = points_ledger db" using f by (simp add: books_frame_def same_books_def)
  have key: "keyed a_user_id (accounts db')"
    using inv us(2,3) unfolding keyed_def ids by (auto simp: points_inv_def keyed_def)
  have row: "0 \<le> n \<and> n \<le> max_int64 \<and> n = sql_sum (\<lambda>p. pl_user_id p = u) pl_delta (points_ledger db)"
    if un: "(u, n) \<in> set (map account_points (accounts db'))" for u n
  proof -
    consider a where "a \<in> set (accounts db)" "u = a_user_id a" "n = a_points_balance a" | "u \<in> set us" "n = 0"
      using un unfolding us(1) by auto
    then show ?thesis
    proof cases
      case 2
      then have "sql_sum (\<lambda>p. pl_user_id p = u) pl_delta (points_ledger db) = 0"
        using inv us(3) by (intro sql_sum_none) (auto simp: points_inv_def)
      then show ?thesis using 2 by (simp add: max_int64_def)
    qed (use inv in \<open>auto simp: points_inv_def\<close>)
  qed
  have "0 \<le> a_points_balance a \<and> a_points_balance a \<le> max_int64 \<and>
      a_points_balance a = sql_sum (\<lambda>p. pl_user_id p = a_user_id a) pl_delta (points_ledger db)"
    if "a \<in> set (accounts db')" for a
    using row [of "a_user_id a" "a_points_balance a"] that by auto
  moreover have "a_user_id ` set (accounts db) \<subseteq> a_user_id ` set (accounts db')"
    using arg_cong [OF ids, of set] by auto
  ultimately show ?thesis using inv key unfolding points_inv_def pl by blast
qed

lemma books_frame_sources:
  assumes inv: "sources_inv db" and f: "books_frame db db'"
  shows "sources_inv db'"
proof -
  have b: "same_books db db'" and m: "map entitlement_origin (entitlements db') = map entitlement_origin (entitlements db)"
    using f by (simp_all add: books_frame_def)
  have "map source_of (entitlements db') = map (snd \<circ> snd) (map entitlement_origin (entitlements db'))" by (simp add: comp_def)
  also have "\<dots> = map source_of (entitlements db)" unfolding m by (simp add: comp_def)
  finally have k: "keyed source_of (entitlements db')" using inv by (simp add: sources_inv_def keyed_def)
  have "source_row db' e'" if e': "e' \<in> set (entitlements db')" for e'
  proof -
    have "entitlement_origin e' \<in> entitlement_origin ` set (entitlements db)"
      using arg_cong [OF m, of set] e' by auto
    then obtain e where e: "e \<in> set (entitlements db)" "entitlement_origin e' = entitlement_origin e" by blast
    then have "source_row db e" using inv by (simp add: sources_inv_def)
    then show ?thesis using e(2) b by (simp add: source_row_def same_books_def)
  qed
  then show ?thesis using k b inv by (simp add: sources_inv_def same_books_def)
qed

section \<open>Reserve, settle and refund\<close>

lemma ensure_account_books:
  assumes "ensureTrafficAccountTx u initial now db = Inr db'"
  shows "books_frame db db'"
proof -
  obtain db1 where i: "insert_account_or_ignore u (max initial 0) now db = Inr db1"
    and db': "db' = make_base_permanent u (max initial 0) now db1"
    using assms by (auto simp: ensureTrafficAccountTx_def Let_def split: sum.splits)
  have pts: "map account_points (accounts db') = map account_points (accounts db1)"
    unfolding db' make_base_permanent_def by (simp add: map_sql_update)
  have same: "same_books db db'" "entitlements db' = entitlements db"
    using i by (auto simp: db' same_books_def insert_account_or_ignore_def make_base_permanent_def split: if_splits)
  show ?thesis
  proof (cases "u \<in> a_user_id ` set (accounts db)")
    case True
    then have "db1 = db" using i by (auto simp: insert_account_or_ignore_def sql_exists_iff split: if_splits)
    then show ?thesis using same pts by (intro books_frame_same) simp_all
  next
    case False
    then have "map account_points (accounts db1) = map account_points (accounts db) @ [(u, 0)]"
      using i by (auto simp: insert_account_or_ignore_def sql_exists_iff split: if_splits)
    then show ?thesis unfolding books_frame_def using same pts False
      by (intro conjI exI [of _ "[u]"]) simp_all
  qed
qed

lemma debit_sources_books:
  "debit_sources u fp als db = Inr db' \<Longrightarrow> same_books db db' \<and>
   map entitlement_origin (entitlements db') = map entitlement_origin (entitlements db) \<and>
   map account_points (accounts db') = map account_points (accounts db)"
  by (induction u fp als db rule: debit_sources.induct)
    (auto simp: Let_def same_books_def map_sql_update split: source_kind.splits if_splits)

lemma release_hold_books:
  assumes "release_hold u n now db = Inr db'"
  shows "same_books db db' \<and> entitlements db' = entitlements db \<and>
    map account_points (accounts db') = map account_points (accounts db)"
  using assms by (auto simp: release_hold_def Let_def same_books_def map_sql_update split: if_splits)

lemma finish_charge_books [simp]:
  "same_books (finish_charge up st now db) db' = same_books db db'" "same_books db (finish_charge up st now db) = same_books db db"
  by (simp_all add: finish_charge_def same_books_def)

lemma same_books_refl [simp]: "same_books db db"
  by (simp add: same_books_def)

lemma same_books_trans [trans]: "same_books a b \<Longrightarrow> same_books b c \<Longrightarrow> same_books a c"
  by (simp add: same_books_def)

lemma settle_books:
  assumes "settleUploadTrafficTx up now db = Inr db'"
  shows "books_frame db db'"
proof -
  let ?db1 = "finish_charge up ChargeSettled now db"
  have "db' = ?db1 \<or> (\<exists>u fp als n db2. debit_sources u fp als ?db1 = Inr db2 \<and> release_hold u n now db2 = Inr db')"
    using assms by (auto simp: settleUploadTrafficTx_def Let_def split: if_splits option.splits sum.splits)
  then show ?thesis
  proof (elim disjE exE conjE)
    fix u fp als n db2 assume "debit_sources u fp als ?db1 = Inr db2" "release_hold u n now db2 = Inr db'"
    then show ?thesis using debit_sources_books [of u fp als ?db1 db2] release_hold_books [of u n now db2 db']
      by (intro books_frame_same) (auto intro: same_books_trans)
  qed (simp add: books_frame_same)
qed

lemma refund_books:
  assumes "refundUploadTrafficTx up now db = Inr db'"
  shows "books_frame db db'"
proof -
  let ?db1 = "finish_charge up ChargeRefunded now db"
  have "db' = ?db1 \<or> (\<exists>u n. release_hold u n now ?db1 = Inr db')"
    using assms by (auto simp: refundUploadTrafficTx_def Let_def split: if_splits option.splits sum.splits)
  then show ?thesis
  proof (elim disjE exE)
    fix u n assume "release_hold u n now ?db1 = Inr db'"
    then show ?thesis using release_hold_books [of u n now ?db1 db'] by (intro books_frame_same) simp_all
  qed (simp add: books_frame_same)
qed

lemma reserve_books:
  assumes "reserveUploadTrafficTx up u required monthly now db = Inr db'"
  shows "books_frame db db'"
  using assms
proof (cases rule: reserve_cases)
  case (1 db1 pas)
  have "map account_points (accounts db') = map account_points (accounts db1)" "same_books db1 db'"
    "entitlements db' = entitlements db1"
    by (simp_all add: 1(8) map_sql_update same_books_def)
  then show ?thesis using ensure_account_books [OF 1(4)] by (auto simp: books_frame_def same_books_def)
qed

section \<open>Sequences of traffic movements\<close>

definition same_accounts :: "cdb \<Rightarrow> cdb \<Rightarrow> bool" where
  "same_accounts db db' \<longleftrightarrow> same_books db db' \<and> accounts db' = accounts db \<and> entitlements db' = entitlements db \<and>
     charges db' = charges db \<and> allocations db' = allocations db \<and> reservations db' = reservations db"

inductive traffic_move :: "cdb \<Rightarrow> cdb \<Rightarrow> bool" where
  elsewhere: "same_accounts db db' \<Longrightarrow> traffic_move db db'"
| reserve: "reserveUploadTrafficTx up u required monthly now db = Inr db' \<Longrightarrow> traffic_move db db'"
| settle: "settleUploadTrafficTx up now db = Inr db' \<Longrightarrow> traffic_move db db'"
| refund: "refundUploadTrafficTx up now db = Inr db' \<Longrightarrow> traffic_move db db'"
| sequence: "traffic_move db db1 \<Longrightarrow> traffic_move db1 db2 \<Longrightarrow> traffic_move db db2"

lemma traffic_move_commerce: "traffic_move db db' \<Longrightarrow> commerce_inv db \<Longrightarrow> commerce_inv db'"
proof (induction rule: traffic_move.induct)
  case (elsewhere db db')
  then show ?case using commerce_inv_cong [of db' db] by (simp add: same_accounts_def same_books_def)
next
  case (reserve up u required monthly now db db')
  then show ?case unfolding commerce_inv_def
    using reserve_inv reserve_books books_frame_points books_frame_sources by blast
next
  case (settle up now db db')
  then show ?case unfolding commerce_inv_def
    using settle_inv settle_books books_frame_points books_frame_sources by blast
next
  case (refund up now db db')
  then show ?case unfolding commerce_inv_def
    using ledger.refund_keeps refund_books books_frame_points books_frame_sources by blast
qed simp

lemma traffic_move_books: "traffic_move db db' \<Longrightarrow> same_books db db'"
proof (induction rule: traffic_move.induct)
  case (sequence db db1 db2)
  then show ?case by (blast intro: same_books_trans)
qed (use reserve_books settle_books refund_books in \<open>auto simp: same_accounts_def books_frame_def\<close>)

lemma traffic_move_refl [simp]: "traffic_move db db"
  by (rule elsewhere) (simp add: same_accounts_def)

lemma traffic_move_uploads [simp]: "traffic_move db (db\<lparr>uploads := x\<rparr>)"
  by (rule elsewhere) (simp add: same_accounts_def same_books_def)

lemma traffic_move_transfers [simp]: "traffic_move db (db\<lparr>transfers := x\<rparr>)"
  by (rule elsewhere) (simp add: same_accounts_def same_books_def)

lemmas then_uploads = sequence [OF _ traffic_move_uploads]
lemmas uploads_then = sequence [OF traffic_move_uploads]
lemmas then_transfers = sequence [OF _ traffic_move_transfers]

section \<open>Upload operations\<close>

lemma release_storage_move:
  assumes "releaseUploadStorageTx i now db = Inr db'"
  shows "traffic_move db db'"
proof -
  obtain db1 where "refundUploadTrafficTx i now db = Inr db1"
    and db': "db' = db1 \<or> db' = db1\<lparr>uploads := sql_update (\<lambda>u. u_id u = i) (\<lambda>u. u\<lparr>u_storage_released := True\<rparr>) (uploads db1)\<rparr>"
    using assms by (auto simp: releaseUploadStorageTx_def split: option.splits sum.splits if_splits)
  then have "traffic_move db db1" by (blast intro: refund)
  then show ?thesis using db' then_uploads by blast
qed

lemma commit_terminal_move:
  assumes "commit_terminal i status now db = Inr db'"
  shows "traffic_move db db'"
proof -
  obtain db1 where s: "settleUploadTrafficTx i now db = Inr db1"
    using assms by (cases "settleUploadTrafficTx i now db") (simp_all add: commit_terminal_def)
  have "db' = db1 \<or> releaseUploadStorageTx i now db1 = Inr db'"
    using assms by (auto simp: commit_terminal_def s split: if_splits sum.splits)
  then show ?thesis using settle [OF s] release_storage_move sequence by blast
qed

lemma after_uploads:
  "settleUploadTrafficTx i now (db\<lparr>uploads := us\<rparr>) = Inr db' \<Longrightarrow> traffic_move db db'"
  "releaseUploadStorageTx i now (db\<lparr>uploads := us\<rparr>) = Inr db' \<Longrightarrow> traffic_move db db'"
  "commit_terminal i status now (db\<lparr>uploads := us\<rparr>) = Inr db' \<Longrightarrow> traffic_move db db'"
  by (rule uploads_then, rule settle release_storage_move commit_terminal_move, assumption)+

lemma complete_placement_move:
  assumes "complete_placement i node key ver status sha det now db = Inr db'"
  shows "traffic_move db db'"
  using assms unfolding complete_placement_def Let_def
  by (auto split: option.splits if_splits dest: after_uploads commit_terminal_move)

lemma create_upload_move: "traffic_move db (snd (CreateUploadWithQuota u0 maxFiles maxBytes monthly guest now db))"
proof (cases "snd (CreateUploadWithQuota u0 maxFiles maxBytes monthly guest now db) = db")
  case False
  then obtain u t db' where i: "insert_charged_upload t u maxFiles maxBytes monthly guest now db = Inr db'"
    and db': "snd (CreateUploadWithQuota u0 maxFiles maxBytes monthly guest now db) = db'"
    by (auto simp: CreateUploadWithQuota_def split: if_splits option.splits sum.splits)
  from i obtain x db2 where
    uc: "user_charge t u monthly now (db\<lparr>rate_limits := x, uploads := uploads db @ [fresh_upload u]\<rparr>) = Inr db2"
    and d: "db' = count_upload u db2" by (rule insert_charged_cases)
  let ?db = "db\<lparr>rate_limits := x, uploads := uploads db @ [fresh_upload u]\<rparr>"
  have "traffic_move db ?db" by (rule elsewhere) (simp add: same_accounts_def same_books_def)
  moreover have "traffic_move ?db db2"
    using uc by (auto simp: user_charge_def split: if_splits intro: reserve)
  moreover have "traffic_move db2 db'" by (simp add: d count_upload_def)
  ultimately show ?thesis unfolding db' by (blast intro: sequence)
qed simp

lemma claim_uploads_move: "traffic_move db (snd (claim_uploads us db))"
proof (induction us arbitrary: db)
  case (Cons u us)
  let ?hit = "\<lambda>x. u_id x = u_id u \<and> u_status x = Uploaded \<and> u_storage_kind x = StorageKindLocal"
  let ?db = "db\<lparr>uploads := sql_update ?hit (\<lambda>x. x\<lparr>u_status := Scanning\<rparr>) (uploads db)\<rparr>"
  have "traffic_move db (snd (claim_uploads us ?db))" using Cons.IH by (rule uploads_then)
  then show ?case by (cases "claim_uploads us ?db") (simp add: Let_def)
qed simp

lemma mark_uploaded_move: "traffic_move db (snd (MarkUploaded i path now db))"
  by (auto simp: MarkUploaded_def Let_def split: sum.splits dest: after_uploads)

lemma mark_blocked_move: "traffic_move db (snd (MarkBlocked i sha det now db))"
  by (auto simp: MarkBlocked_def Let_def split: sum.splits dest: after_uploads)

lemma mark_deleted_move: "traffic_move db (snd (MarkDeleted u now db))"
proof (cases "releaseUploadStorageTx (u_id u) now db")
  case (Inl e)
  then show ?thesis by (simp add: MarkDeleted_def Let_def then_transfers)
next
  case (Inr db1)
  note then_uploads [OF release_storage_move [OF Inr]]
  then show ?thesis using Inr by (simp add: MarkDeleted_def Let_def then_transfers)
qed

lemma upload_step_move: "upload_step db db' \<Longrightarrow> traffic_move db db'"
proof (induction rule: upload_step.induct)
  case (remote db i node key ver st sha det now)
  then show ?case by (auto simp: CompleteRemoteUploadPlacement_def split: sum.splits intro: complete_placement_move)
next
  case (release db i now)
  then show ?case by (auto simp: ReleaseUploadStorage_def split: sum.splits intro: release_storage_move)
qed (simp_all add: create_upload_move mark_uploaded_move mark_blocked_move mark_deleted_move claim_uploads_move
    UpdateUploadOffset_def ClaimUploads_def MarkReady_def MarkQuarantined_def RevokeTransfer_def
    MaintenanceCandidates_def expire_transfers_def Let_def)

lemmas upload_step_commerce = traffic_move_commerce [OF upload_step_move]

end
