(* ===== verification/Commerce_Steps.thy ===== *)
theory Commerce_Steps
  imports Traffic_Moves
begin

text \<open>
  The remaining operations keep the account ledgers consistent: order creation and refunds, daily
  benefits, registration, sessions, clean-up, and the reservations and settlements of uploads. The
  step relation \<open>commerce_step\<close> collects every operation, in any order.
\<close>

section \<open>Creating and refunding orders\<close>

lemma new_order_commerce:
  assumes inv: "commerce_inv db" and new: "o_id x \<notin> o_id ` set (orders db)"
  shows "commerce_inv (db\<lparr>orders := orders db @ [x]\<rparr>)" (is "commerce_inv ?db")
proof -
  have "source_row db e \<Longrightarrow> source_row ?db e" for e by (elim source_row_mono) auto
  then have "sources_inv ?db"
    using inv new unfolding commerce_inv_def sources_inv_def by (simp add: keyed_append)
  then show ?thesis
    using inv points_inv_cong [of ?db db] traffic_inv_cong [of ?db db] by (simp add: commerce_inv_def)
qed

lemma insert_order_cases:
  assumes "insert_order x db = (r, db')"
  obtains "db' = db" | "db' = db\<lparr>orders := orders db @ [x]\<rparr>" "o_id x \<notin> o_id ` set (orders db)"
proof (cases "sql_exists (\<lambda>y. o_id y = o_id x \<or> (o_idempotency_key x \<noteq> '''' \<and> o_user_id y = o_user_id x \<and>
    o_idempotency_key y = o_idempotency_key x)) (orders db)")
  case True
  then show ?thesis using assms that(1) by (simp add: insert_order_def)
next
  case False
  then have new: "o_id x \<notin> o_id ` set (orders db)" by (auto simp: sql_exists_iff)
  have "db' = db \<or> db' = db\<lparr>orders := orders db @ [x]\<rparr>"
    using assms False by (simp add: insert_order_def split: if_splits)
  then show ?thesis using that new by blast
qed

lemma insert_order_commerce:
  assumes "commerce_inv db" "insert_order x db = (r, db')"
  shows "commerce_inv db'"
  using assms(2) by (rule insert_order_cases) (use assms(1) new_order_commerce in auto)

lemma insert_order_prices:
  assumes fit: "prices_fit db" and "p \<in> set (products db)"
    and "insert_order (pending_order i key u p m now) db = (r, db')"
  shows "prices_fit db'"
  using assms(3) by (rule insert_order_cases) (use assms(1,2) in \<open>auto simp: prices_fit_def pending_order_def\<close>)

lemma create_order_cases:
  assumes "CreateOrder i u pr m key now db = (r, db')"
  obtains "db' = db" | p where "p \<in> set (products db)" "insert_order (pending_order i key u p m now) db = (r, db')"
  using assms by (auto simp: CreateOrder_def ProductByID_def split: if_splits sum.splits option.splits dest!: sql_firstD)

text \<open>A refund withdraws the entitlement of the order. The check for reserved allocations is what
  keeps the promises to uploads in progress.\<close>

lemma refund_rows_commerce:
  assumes inv: "commerce_inv db" and free: "\<not> order_reserved i db"
  shows "commerce_inv (refund_rows i now db)"
proof -
  let ?es = "sql_delete (order_entitlement i) (entitlements db)"
  let ?db = "refund_rows i now db"
  have "\<not> (al_source_kind al = EntitlementSource \<and> al_source_id al = e_id e)"
    if "e \<in> set (entitlements db)" "order_entitlement i e" "al \<in> set (allocations db)" "c \<in> set (charges db)"
      "c_upload_id c = al_upload_id al" "c_status c = ChargeReserved" "e_resource_type e = TrafficResource" for e al c
    using free that unfolding order_reserved_def sql_exists_iff by blast
  then have "traffic_inv (db\<lparr>entitlements := ?es\<rparr>)"
    using inv by (intro traffic_inv_drop_entitlements) (auto simp: commerce_inv_def)
  then have "traffic_inv ?db" using traffic_inv_cong [of ?db "db\<lparr>entitlements := ?es\<rparr>"] by (simp add: refund_rows_def)
  moreover have "points_inv ?db" using inv points_inv_cong [of ?db db] by (simp add: commerce_inv_def refund_rows_def)
  moreover have "sources_inv ?db"
  proof -
    have "source_row ?db e" if e: "e \<in> set ?es" for e
    proof -
      have row: "source_row db e" and other: "e_source_type e = ''order'' \<Longrightarrow> e_source_id e \<noteq> i"
        using e inv by (auto simp: commerce_inv_def sources_inv_def sql_delete_def order_entitlement_def)
      have "x \<in> set (orders ?db)" if "x \<in> set (orders db)" "o_id x \<noteq> i" for x
        using sql_update_keep [OF that(1)] that(2) by (simp add: refund_rows_def)
      with row other show ?thesis by (elim source_row_mono) (auto simp: refund_rows_def)
    qed
    moreover have "keyed source_of ?es" using inv by (simp add: commerce_inv_def sources_inv_def keyed_delete)
    moreover have "keyed o_id (orders ?db)" using inv
      by (simp add: commerce_inv_def sources_inv_def refund_rows_def keyed_update)
    ultimately show ?thesis using inv by (simp add: commerce_inv_def sources_inv_def refund_rows_def)
  qed
  ultimately show ?thesis by (simp add: commerce_inv_def)
qed

lemma refund_points_Inr:
  assumes "refund_points pid x now db = Inr db1"
  obtains "db1 = db" | delta reason key where "addPointsTx pid (o_user_id x) delta reason key now db = Inr db1"
    "delta = o_points_price x \<or> delta = i64 (- purchase_reward x)"
proof (cases "o_payment_method x = ''points''")
  case True
  then show ?thesis using assms that(2) by (simp add: refund_points_def)
next
  case False
  then show ?thesis
    using assms that unfolding refund_points_def
    by (cases "o_price_cents x > 0") (simp_all split: sum.splits)
qed

lemma refund_points_commerce:
  assumes inv: "commerce_inv db" and fit: "prices_fit db" and x: "x \<in> set (orders db)"
    and ok: "refund_points pid x now db = Inr db1"
  shows "commerce_inv db1 \<and> entitlements db1 = entitlements db \<and> charges db1 = charges db \<and>
    allocations db1 = allocations db \<and> orders db1 = orders db \<and> products db1 = products db"
  using ok
proof (cases rule: refund_points_Inr)
  case (2 delta reason key)
  have "- (2 ^ 63) \<le> delta" "delta \<le> max_int64"
    using 2(2) fit x i64_range by (auto simp: prices_fit_def)
  from addPoints_commerce [OF inv this 2(1)] show ?thesis using addPoints_frame [OF 2(1)] by simp
qed (use inv in simp)

lemma RefundOrder_cases:
  assumes "RefundOrder pid i now db = (r, db')"
  obtains (refused) "db' = db" | (paid) x db1 where "x \<in> set (orders db)" "o_id x = i" "o_status x = OrderPaid"
    "\<not> order_consumed i db" "\<not> order_reserved i db" "refund_points pid x now db = Inr db1"
    "db' = refund_rows i now db1" "r = Inr (x\<lparr>o_status := OrderRefunded, o_refunded_at := now\<rparr>)"
proof (cases r)
  case (Inl e)
  then show ?thesis using assms refused
    unfolding RefundOrder_def by (auto split: option.splits if_splits sum.splits)
next
  case (Inr y)
  then obtain x where x: "sql_first (\<lambda>x. o_id x = i) (orders db) = Some x"
    using assms by (auto simp: RefundOrder_def split: option.splits)
  obtain db1 where "refund_points pid x now db = Inr db1" "db' = refund_rows i now db1" "o_status x = OrderPaid"
    "\<not> order_consumed i db" "\<not> order_reserved i db" "y = x\<lparr>o_status := OrderRefunded, o_refunded_at := now\<rparr>"
    using assms Inr x unfolding RefundOrder_def by (auto split: option.splits if_splits sum.splits)
  then show ?thesis using sql_firstD [OF x] Inr by (intro paid) auto
qed

lemma refund_commerce:
  assumes inv: "commerce_inv db" and fit: "prices_fit db" and op: "RefundOrder pid i now db = (r, db')"
  shows "commerce_inv db'"
  using op
proof (cases rule: RefundOrder_cases)
  case (paid x db1)
  note p = refund_points_commerce [OF inv fit paid(1,6)]
  have "\<not> order_reserved i db1" using paid(5) p by (simp add: order_reserved_def)
  then show ?thesis using p paid(7) by (simp add: refund_rows_commerce)
qed (use inv in simp)

section \<open>Daily benefits\<close>

lemma new_checkin_commerce:
  assumes inv: "commerce_inv db"
  shows "commerce_inv (db\<lparr>checkins := checkins db @ [c]\<rparr>)" (is "commerce_inv ?db")
proof -
  have "source_row db e \<Longrightarrow> source_row ?db e" for e by (elim source_row_mono) auto
  then have "sources_inv ?db" using inv unfolding commerce_inv_def sources_inv_def by simp
  then show ?thesis
    using inv points_inv_cong [of ?db db] traffic_inv_cong [of ?db db] by (simp add: commerce_inv_def)
qed

lemma new_vip_grant_commerce:
  assumes inv: "commerce_inv db"
  shows "commerce_inv (db\<lparr>vip_grants := vip_grants db @ [g]\<rparr>)" (is "commerce_inv ?db")
proof -
  have "source_row db e \<Longrightarrow> source_row ?db e" for e by (elim source_row_mono) auto
  then have "sources_inv ?db" using inv unfolding commerce_inv_def sources_inv_def by simp
  then show ?thesis
    using inv points_inv_cong [of ?db db] traffic_inv_cong [of ?db db] by (simp add: commerce_inv_def)
qed

text \<open>The identifiers of check-ins and grants are never reused, so a new one has no entitlement.\<close>

lemma new_checkin_unspent:
  assumes "commerce_inv db" "\<And>c. c \<in> set (checkins db) \<Longrightarrow> ci_id c \<noteq> i" "e \<in> set (entitlements db)"
  shows "source_of e \<noteq> (''checkin'', i)"
  using assms unfolding commerce_inv_def sources_inv_def source_row_def by fastforce

lemma new_vip_grant_unspent:
  assumes "commerce_inv db" "\<And>g. g \<in> set (vip_grants db) \<Longrightarrow> vg_id g \<noteq> i" "e \<in> set (entitlements db)"
  shows "source_of e \<noteq> (''vip_daily_login'', i)"
  using assms unfolding commerce_inv_def sources_inv_def source_row_def by fastforce

lemma claim_checkin_commerce:
  assumes inv: "commerce_inv db" and reward: "0 \<le> mib"
    and op: "claim_checkin cid eid aid mib u ip now db = (r, db')"
  shows "commerce_inv db'"
proof -
  define row where "row = \<lparr>ci_id = cid, ci_user_id = u, ci_date = welfareDate now,
      ci_reward_bytes = mib * welfareBytesPerMiB, ci_created_at = now\<rparr>"
  let ?db = "db\<lparr>checkins := checkins db @ [row]\<rparr>"
  show ?thesis
  proof (cases "db' = db")
    case False
    then obtain db1 where fresh: "\<And>c. c \<in> set (checkins db) \<Longrightarrow> ci_id c \<noteq> cid"
      and g: "grant_entitlement eid u (mib * welfareBytesPerMiB) permanentTrafficEntitlementExpiry ''checkin'' cid now ?db = Inr db1"
      and au: "insertAuditTx aid u ''welfare.daily_checkin'' ''daily_checkin'' cid
                      (text_checkin @ show_int mib @ '' MiB'') ip now db1 = Inr db'"
      using op by (auto simp: claim_checkin_def Let_def commit_def row_def sql_exists_iff split: if_splits sum.splits prod.splits)
    have "commerce_inv db1"
    proof (rule grant_commerce [OF new_checkin_commerce [OF inv] _ g])
      show "0 \<le> mib * welfareBytesPerMiB" using reward by simp
      show "source_of e \<noteq> (''checkin'', cid)" if "e \<in> set (entitlements ?db)" for e
        using new_checkin_unspent [OF inv fresh, of e] that by simp
      show "source_row ?db e" if "e_source_type e = ''checkin''" "e_source_id e = cid" "e_user_id e = u" for e
        using that unfolding source_row_def by (intro disjI2 [OF disjI2 [OF disjI1]]) (simp add: row_def)
    qed
    then show ?thesis using au by (rule insertAudit_commerce)
  qed (use inv in simp)
qed

lemma checkin_commerce:
  assumes "commerce_inv db" "ClaimDailyCheckIn cid eid aid mib u ip now db = (r, db')"
  shows "commerce_inv db'"
  using assms claim_checkin_commerce [OF assms(1), of mib cid eid aid u ip now r db']
  by (auto simp: ClaimDailyCheckIn_def split: if_splits sum.splits)

lemma insert_vip_grant_commerce:
  assumes inv: "commerce_inv db" and reward: "0 \<le> n"
    and op: "insert_vip_grant gid eid aid u plan n detail ip now db = Inr (g, db')"
  shows "commerce_inv db'"
proof -
  define row where "row = \<lparr>vg_id = gid, vg_user_id = u, vg_date = welfareDate now, vg_vip_plan = plan,
                 vg_reward_bytes = n, vg_created_at = now\<rparr>"
  let ?db = "db\<lparr>vip_grants := vip_grants db @ [row]\<rparr>"
  show ?thesis
  proof (cases "db' = db")
    case False
    then obtain db1 where fresh: "\<And>x. x \<in> set (vip_grants db) \<Longrightarrow> vg_id x \<noteq> gid"
      and gr: "grant_entitlement eid u n permanentTrafficEntitlementExpiry ''vip_daily_login'' gid now ?db = Inr db1"
      and au: "insertAuditTx aid u ''membership.daily_login_traffic'' ''vip_daily_login_grant''
                        gid (detail @ text_vip_added) ip now db1 = Inr db'"
      using op by (auto simp: insert_vip_grant_def Let_def row_def sql_exists_iff split: if_splits sum.splits)
    have "commerce_inv db1"
    proof (rule grant_commerce [OF new_vip_grant_commerce [OF inv] reward gr])
      show "source_of e \<noteq> (''vip_daily_login'', gid)" if "e \<in> set (entitlements ?db)" for e
        using new_vip_grant_unspent [OF inv fresh, of e] that by simp
      show "source_row ?db e" if "e_source_type e = ''vip_daily_login''" "e_source_id e = gid" "e_user_id e = u" for e
        using that unfolding source_row_def by (intro disjI2 [OF disjI2 [OF disjI2]]) (simp add: row_def)
    qed
    then show ?thesis using au by (rule insertAudit_commerce)
  qed (use inv in simp)
qed

lemma vipDailyLoginReward_nonneg: "0 \<le> fst (vipDailyLoginReward plan)"
  by (simp add: vipDailyLoginReward_def Let_def)

lemma vip_grant_commerce:
  assumes "commerce_inv db" "grantVIPDailyLoginTrafficTx gid eid aid u ip now db = Inr (g, db')"
  shows "commerce_inv db'"
proof -
  obtain x where x: "sql_first (\<lambda>x. us_id x = u) (users db) = Some x"
    using assms(2) by (auto simp: grantVIPDailyLoginTrafficTx_def split: option.splits)
  obtain n d where r: "vipDailyLoginReward (activeVIPPlan (us_vip_plan x) (us_vip_expires_at x) now) = (n, d)" by fastforce
  have "0 \<le> n" using vipDailyLoginReward_nonneg [of "activeVIPPlan (us_vip_plan x) (us_vip_expires_at x) now"] r by simp
  then show ?thesis using assms x r insert_vip_grant_commerce [OF assms(1)]
    by (auto simp: grantVIPDailyLoginTrafficTx_def Let_def split: if_splits)
qed

section \<open>Users and sessions\<close>

lemma same_accounts_commerce: "same_accounts db db' \<Longrightarrow> commerce_inv db \<Longrightarrow> commerce_inv db'"
  by (rule traffic_move_commerce [OF traffic_move.elsewhere])

lemma same_accounts_refl [simp]: "same_accounts db db"
  by (simp add: same_accounts_def)

lemma same_accounts_trans: "same_accounts a b \<Longrightarrow> same_accounts b c \<Longrightarrow> same_accounts a c"
  by (simp add: same_accounts_def same_books_def)

lemma same_accounts_tables [simp]:
  "same_accounts db (db'\<lparr>users := us\<rparr>) = same_accounts db db'"
  "same_accounts db (db'\<lparr>user_sessions := ss\<rparr>) = same_accounts db db'"
  "same_accounts db (db'\<lparr>verification_codes := vs\<rparr>) = same_accounts db db'"
  "same_accounts db (db'\<lparr>consents := cs\<rparr>) = same_accounts db db'"
  "same_accounts db (db'\<lparr>audits := as\<rparr>) = same_accounts db db'"
  "same_accounts db (db'\<lparr>guest_sessions := gs\<rparr>) = same_accounts db db'"
  "same_accounts db (db'\<lparr>rate_limits := rs\<rparr>) = same_accounts db db'"
  "same_accounts db (db'\<lparr>reports := xs\<rparr>) = same_accounts db db'"
  "same_accounts db (db'\<lparr>transfers := ts\<rparr>) = same_accounts db db'"
  by (simp_all add: same_accounts_def same_books_def)

lemma insertAudit_same: "insertAuditTx i u a tt ti d ip now db1 = Inr db2 \<Longrightarrow> same_accounts db db1 \<Longrightarrow> same_accounts db db2"
  by (auto dest!: insertAudit_Inr)

lemma insert_code_same: "insert_code i u p h now x db1 = Inr db2 \<Longrightarrow> same_accounts db db1 \<Longrightarrow> same_accounts db db2"
  by (auto simp: insert_code_def split: sum.splits if_splits)

lemma add_consent_same: "add_consent i u c db1 = Inr db2 \<Longrightarrow> same_accounts db db1 \<Longrightarrow> same_accounts db db2"
  by (auto simp: add_consent_def insertConsentTx_def split: option.splits sum.splits if_splits)

lemma insert_session_same: "insert_session i u t c now x db1 = Inr db2 \<Longrightarrow> same_accounts db db1 \<Longrightarrow> same_accounts db db2"
  by (auto simp: insert_session_def split: sum.splits if_splits)

lemma registration_buckets_same:
  "registration_buckets bs now db1 = Inr db2 \<Longrightarrow> same_accounts db db1 \<Longrightarrow> same_accounts db db2"
  by (induction bs now db1 rule: registration_buckets.induct)
    (auto simp: allowBucketTx_def Let_def split: sum.splits if_splits option.splits)

lemma set_code_same [simp]:
  "same_accounts db (set_code i f db1) = same_accounts db db1" "same_accounts db (miss_code i db1) = same_accounts db db1"
  "same_accounts db (consume_code i now db1) = same_accounts db db1"
  "same_accounts db (consume_codes u now db1) = same_accounts db db1"
  "same_accounts db (revoke_sessions u now db1) = same_accounts db db1"
  by (simp_all add: set_code_def miss_code_def consume_code_def consume_codes_def revoke_sessions_def)



lemma refresh_same: "same_accounts db (snd (RefreshPendingUser cid sid u h now x c db))"
proof -
  have "same_accounts db db2" if "insert_code cid u PurposeVerify h now x (db\<lparr>verification_codes := vs\<rparr>) = Inr db1"
    "add_consent sid u c db1 = Inr db2" for vs db1 db2
    using insert_code_same [OF that(1), of db] add_consent_same [OF that(2), of db] by simp
  then show ?thesis by (auto simp: RefreshPendingUser_def split: option.splits sum.splits)
qed

lemma change_password_same: "same_accounts db (snd (ChangeUserPassword sid aid u ph th csrf ip now x db))"
proof -
  have "same_accounts db db2" if "insert_session sid u th csrf now x (revoke_sessions u now (db\<lparr>users := us\<rparr>)) = Inr db1"
    "insertAuditTx aid u a tt ti d ip now (consume_codes u now db1) = Inr db2" for us db1 db2 a tt ti d
    using insert_session_same [OF that(1), of db] insertAudit_same [OF that(2), of db] by simp
  then show ?thesis by (auto simp: ChangeUserPassword_def Let_def split: sum.splits)
qed



lemma password_same:
  "same_accounts db (snd (CreatePasswordReset cid u h now x db))"
  "same_accounts db (snd (ResetPassword verify email code ph now db))"
  by (auto simp: CreatePasswordReset_def ResetPassword_def split: option.splits sum.splits intro: insert_code_same)

lemma session_same:
  "same_accounts db (snd (UserBySession t now db))" "same_accounts db (snd (RevokeUserSession t now db))"
  "same_accounts db (snd (UpdateUsername u n db))" "same_accounts db (snd (CreateGuestSession i t now db))"
  "same_accounts db (snd (GuestByToken t now db))"
  by (auto simp: UserBySession_def RevokeUserSession_def UpdateUsername_def CreateGuestSession_def GuestByToken_def
      split: option.splits)

lemma set_status_same: "same_accounts db (snd (SetUserStatus aid act u st ip now db))"
proof -
  have "same_accounts db db'" if "set_user_status aid act u st ip now db = Inr (x, db')" for x db'
    using that by (auto simp: set_user_status_def Let_def split: if_splits sum.splits intro: insertAudit_same)
  then show ?thesis by (auto simp: SetUserStatus_def commit_def split: sum.splits)
qed

lemma report_same:
  "same_accounts db (snd (SetReportStatus rid st now db))" "same_accounts db (snd (CreateAbuseReport rid share why d ip now db))"
  by (auto simp: SetReportStatus_def CreateAbuseReport_def Let_def split: option.splits sum.splits)

lemma new_account_commerce:
  assumes inv: "commerce_inv db" and new: "a_user_id a \<notin> a_user_id ` set (accounts db)"
    and a: "a_traffic_reserved_bytes a = 0" "0 \<le> a_free_traffic_remaining a" "a_points_balance a = 0"
  shows "commerce_inv (db\<lparr>accounts := accounts db @ [a]\<rparr>)" (is "commerce_inv ?db")
proof -
  have "books_frame db ?db" unfolding books_frame_def
    using new a(3) by (intro conjI exI [of _ "[a_user_id a]"]) (simp_all add: same_books_def)
  then have "points_inv ?db" "sources_inv ?db"
    using inv books_frame_points books_frame_sources unfolding commerce_inv_def by blast+
  moreover have "traffic_inv ?db"
    using inv new a by (intro traffic_inv_new_account) (auto simp: commerce_inv_def key_in_image)
  ultimately show ?thesis by (simp add: commerce_inv_def)
qed

lemma register_commerce:
  assumes inv: "commerce_inv db" and op: "CreatePendingUser cid sid u h x c db = (r, db')"
  shows "commerce_inv db'"
proof (cases "db' = db")
  case False
  then obtain db2 db3 where
    code: "insert_code cid (us_id u) PurposeVerify h (us_created_at u) x (db\<lparr>users := users db @ [pending_user u]\<rparr>) = Inr db2"
    and acc: "insert_account (us_id u) (us_created_at u) db2 = Inr db3" and con: "add_consent sid (us_id u) c db3 = Inr db'"
    using op by (auto simp: CreatePendingUser_def Let_def split: if_splits sum.splits)
  have "same_accounts db db2" using insert_code_same [OF code] by simp
  then have inv2: "commerce_inv db2" using inv by (rule same_accounts_commerce)
  have "commerce_inv db3" using acc inv2 new_account_commerce [OF inv2]
    by (auto simp: insert_account_def sql_insert_Inr split: sum.splits)
  then show ?thesis using same_accounts_commerce [OF add_consent_same [OF con same_accounts_refl]] by blast
qed (use inv in simp)

lemma verify_commerce:
  assumes inv: "commerce_inv db" and op: "VerifyUser verify pid email code ph now risk db = (r, db')"
  shows "commerce_inv db'"
proof -
  have act: "commerce_inv d2" if risk: "registration_risk risk now db = Inr d1"
    and a: "activate_user pid u v ph now d1 = Inr d2" for d1 d2 u v
  proof -
    have "same_accounts db d1" using risk
      by (auto simp: registration_risk_def split: option.splits simp del: registration_buckets.simps
          intro: registration_buckets_same)
    then have "same_accounts db ((consume_code v now d1)\<lparr>users := us\<rparr>)" for us by simp
    then obtain d where d: "same_accounts db d" "addPointsTx pid (us_id u) 100 text_verified (''welcome:'' @ us_id u) now d = Inr d2"
      by (rule that) (use a in \<open>simp add: activate_user_def Let_def split: if_splits\<close>)
    show ?thesis using addPoints_commerce [OF same_accounts_commerce [OF d(1) inv] _ _ d(2)] by (simp add: max_int64_def)
  qed
  have miss: "commerce_inv (miss_code v db)" for v
    by (rule same_accounts_commerce [OF _ inv]) simp
  show ?thesis
    using op inv act miss by (auto simp: VerifyUser_def commit_def split: option.splits if_splits sum.splits)
qed

lemma login_commerce:
  assumes inv: "commerce_inv db" and op: "createUserSession ids u th csrf now x a vip db = (r, db')"
  shows "commerce_inv db'"
proof (cases "db' = db")
  case False
  then obtain db1 db2 g where s: "insert_session (li_session ids) u th csrf now x db = Inr db1"
    and lg: "login_grant ids u (as_ip a) now vip
       (db1\<lparr>users := sql_update (\<lambda>y. us_id y = u) (\<lambda>y. y\<lparr>us_last_login_at := now\<rparr>) (users db1)\<rparr>) = Inr (g, db2)"
    and la: "login_audit ids u a now db2 = Inr db'"
    using op by (auto simp: createUserSession_def commit_def split: sum.splits prod.splits)
  let ?db = "db1\<lparr>users := sql_update (\<lambda>y. us_id y = u) (\<lambda>y. y\<lparr>us_last_login_at := now\<rparr>) (users db1)\<rparr>"
  have "same_accounts db ?db" using insert_session_same [OF s] by simp
  note inv1 = same_accounts_commerce [OF this inv]
  have "commerce_inv db2" using lg inv1 vip_grant_commerce [OF inv1]
    by (auto simp: login_grant_def split: if_splits)
  then show ?thesis using la by (auto simp: login_audit_def split: if_splits intro: insertAudit_commerce)
qed (use inv in simp)

lemma summary_commerce:
  assumes inv: "commerce_inv db" and op: "AccountSummary_of u monthly now db = (r, db')"
  shows "commerce_inv db'"
proof (cases "db' = db")
  case False
  then have e: "ensureTrafficAccountTx u monthly now db = Inr db'"
    using op by (auto simp: AccountSummary_of_def commit_def Let_def split: sum.splits option.splits)
  show ?thesis
    using inv ensureTrafficAccount_inv [OF _ e] ensure_account_books [OF e] books_frame_points books_frame_sources
    unfolding commerce_inv_def by blast
qed (use inv in simp)

section \<open>Clean-up\<close>

lemma sql_sum_delete: "(\<And>r. r \<in> set t \<Longrightarrow> p r \<Longrightarrow> \<not> q r) \<Longrightarrow> sql_sum p f (sql_delete q t) = sql_sum p f t"
  by (induction t) (auto simp: sql_delete_def)

lemma points_inv_drop_users:
  assumes inv: "points_inv db"
    and acc: "accounts db' = sql_delete (\<lambda>a. a_user_id a \<in> G) (accounts db)"
    and led: "points_ledger db' = sql_delete (\<lambda>p. pl_user_id p \<in> G) (points_ledger db)"
  shows "points_inv db'"
proof -
  have "sql_sum (\<lambda>p. pl_user_id p = u) pl_delta (points_ledger db') = sql_sum (\<lambda>p. pl_user_id p = u) pl_delta (points_ledger db)"
    if "u \<notin> G" for u unfolding led using that by (intro sql_sum_delete) auto
  moreover have "keyed a_user_id (accounts db')" "keyed pl_event_key (points_ledger db')"
    using inv by (simp_all add: acc led points_inv_def keyed_delete)
  moreover have "pl_user_id p \<in> a_user_id ` set (accounts db')" if "p \<in> set (points_ledger db')" for p
    using inv that by (auto simp: points_inv_def acc led sql_delete_def)
  ultimately show ?thesis
    using inv unfolding points_inv_def by (auto simp: acc sql_delete_def)
qed

text \<open>Accounts whose owner has no charge and no held bytes can go, together with the entitlements.\<close>

lemma traffic_inv_drop_users:
  assumes inv: "traffic_inv db"
    and ch: "\<And>c. c \<in> set (charges db) \<Longrightarrow> c_user_id c \<notin> G"
    and res: "\<And>d. d \<in> set (reservations db) \<Longrightarrow> d_user_id d \<in> G \<Longrightarrow> d_reserved_bytes d = 0"
  shows "traffic_inv (db\<lparr>accounts := sql_delete (\<lambda>a. a_user_id a \<in> G) (accounts db),
      entitlements := sql_delete (\<lambda>e. e_user_id e \<in> G) (entitlements db)\<rparr>)"
proof -
  let ?as = "sql_delete (\<lambda>a. a_user_id a \<in> G) (accounts db)"
  let ?db = "db\<lparr>accounts := ?as\<rparr>"
  have keep: "(\<exists>a \<in> set ?as. a_user_id a = u \<and> P a) \<longleftrightarrow> (\<exists>a \<in> set (accounts db). a_user_id a = u \<and> P a)" if "u \<notin> G" for u P
    using that by (auto simp: sql_delete_def)
  have "source_backed ?db (c_user_id c) al = source_backed db (c_user_id c) al" if "c \<in> set (charges db)" for c al
    using keep [OF ch [OF that]] by (simp add: source_backed_def split: source_kind.splits)
  moreover have "set ?as \<subseteq> set (accounts db)" by (auto simp: sql_delete_def)
  ultimately have "promises_backed ?db" using inv by (auto simp: traffic_inv_def promises_backed_def)
  moreover have "ledger_keys ?db" using inv by (simp add: traffic_inv_def ledger_keys_def keyed_delete)
  moreover have "counters_agree ?db"
  proof -
    have "\<exists>a \<in> set ?as. a_user_id a = d_user_id d" if "d \<in> set (reservations db)"
      "d_status d = ResReserved \<or> d_status d = ResConsuming" "d_reserved_bytes d \<noteq> 0" for d
      using inv that res [OF that(1)] keep [of "d_user_id d" "\<lambda>_. True"]
      by (auto simp: traffic_inv_def counters_agree_def)
    then show ?thesis using inv unfolding traffic_inv_def counters_agree_def by (auto simp: sql_delete_def)
  qed
  moreover have "charges_covered ?db"
  proof -
    have "(\<exists>a \<in> set ?as. a_user_id a = c_user_id c) \<longleftrightarrow> (\<exists>a \<in> set (accounts db). a_user_id a = c_user_id c)"
      if "c \<in> set (charges db)" for c using keep [OF ch [OF that], of "\<lambda>_. True"] by simp
    then show ?thesis using inv unfolding traffic_inv_def charges_covered_def by simp
  qed
  ultimately have "traffic_inv ?db" by (simp add: traffic_inv_def)
  then have "traffic_inv (?db\<lparr>entitlements := sql_delete (\<lambda>e. e_user_id e \<in> G) (entitlements ?db)\<rparr>)"
  proof (rule traffic_inv_drop_entitlements)
    fix e al c assume a: "e \<in> set (entitlements ?db)" "e_user_id e \<in> G" "al \<in> set (allocations ?db)"
      "c \<in> set (charges ?db)" "al_source_kind al = EntitlementSource" "al_source_id al = e_id e"
      "c_upload_id c = al_upload_id al" "c_status c = ChargeReserved"
    then have "source_backed db (c_user_id c) al" using inv by (simp add: traffic_inv_def promises_backed_def)
    then obtain e' where "e' \<in> set (entitlements db)" "e_id e' = e_id e" "e_user_id e' = c_user_id c"
      using a(5,6) by (auto simp: source_backed_def)
    moreover have "keyed e_id (entitlements db)" using inv by (simp add: traffic_inv_def ledger_keys_def)
    ultimately have "c_user_id c \<in> G" using a(1,2) keyed_unique by fastforce
    then show False using ch a(4) by simp
  qed
  then show ?thesis by simp
qed

lemma delete_users_commerce:
  assumes inv: "commerce_inv db" and free: "\<And>i. i \<in> set ids \<Longrightarrow> \<not> restricted db i"
    and res: "\<And>d. d \<in> set (reservations db) \<Longrightarrow> d_user_id d \<in> set ids \<Longrightarrow> d_reserved_bytes d = 0"
  shows "commerce_inv (delete_users ids db)" (is "commerce_inv ?db")
proof -
  have ch: "c_user_id c \<notin> set ids" if "c \<in> set (charges db)" for c
    using free [of "c_user_id c"] that by (auto simp: restricted_def sql_exists_iff)
  have "traffic_inv db" using inv by (simp add: commerce_inv_def)
  note tr = traffic_inv_drop_users [OF this ch res]
  have "traffic_inv ?db = traffic_inv (db\<lparr>accounts := sql_delete (\<lambda>a. a_user_id a \<in> set ids) (accounts db),
      entitlements := sql_delete (\<lambda>e. e_user_id e \<in> set ids) (entitlements db)\<rparr>)"
    by (rule traffic_inv_cong) (simp_all add: delete_users_def)
  with tr have "traffic_inv ?db" by blast
  moreover have "points_inv ?db"
    by (rule points_inv_drop_users [of db _ "set ids"]) (use inv in \<open>simp_all add: commerce_inv_def delete_users_def\<close>)
  moreover have "sources_inv ?db"
  proof -
    have "source_row ?db e" if "e \<in> set (entitlements ?db)" for e
    proof -
      have "e_user_id e \<notin> set ids" "source_row db e"
        using that inv by (auto simp: delete_users_def sql_delete_def commerce_inv_def sources_inv_def)
      then show ?thesis by (elim source_row_mono) (auto simp: delete_users_def sql_delete_def)
    qed
    then show ?thesis using inv by (simp add: commerce_inv_def sources_inv_def delete_users_def keyed_delete)
  qed
  ultimately show ?thesis by (simp add: commerce_inv_def)
qed

text \<open>No unverified user holds bytes of a retired download reservation.\<close>

definition no_stale_holds :: "unix_time \<Rightarrow> cdb \<Rightarrow> bool" where
  "no_stale_holds now db \<longleftrightarrow> (\<forall>u \<in> set (users db). stale_pending now u \<longrightarrow>
     (\<forall>d \<in> set (reservations db). d_user_id d = us_id u \<longrightarrow> d_reserved_bytes d = 0))"

lemma cleanup_commerce:
  assumes inv: "commerce_inv db" and res: "no_stale_holds now db"
    and op: "CleanupIdentity now (db, limits) = (r, db', limits')"
  shows "commerce_inv db'"
proof -
  let ?gs = "sql_delete (\<lambda>g. gs_last_seen_at g < now - 45 * 24 * 3600) (guest_sessions db)"
  let ?ss = "sql_delete (\<lambda>s. se_expires_at s < now - 7 * 24 * 3600 \<or>
                       (se_revoked_at s > 0 \<and> se_revoked_at s < now - 7 * 24 * 3600)) (user_sessions db)"
  let ?db1 = "db\<lparr>guest_sessions := ?gs, user_sessions := ?ss\<rparr>"
  let ?gone = "map us_id (filter (stale_pending now) (users db))"
  let ?db2 = "delete_users ?gone ?db1"
  have inv1: "commerce_inv ?db1" by (rule same_accounts_commerce [OF _ inv]) simp
  have "commerce_inv ?db2" if "\<not> list_ex (restricted ?db1) ?gone"
    using that res by (intro delete_users_commerce [OF inv1]) (auto simp: list_ex_iff no_stale_holds_def)
  note inv2 = update_orders_commerce [OF this, of "\<lambda>x. x\<lparr>o_status := OrderClosed\<rparr>"
      "\<lambda>x. o_status x = OrderPending \<and> o_created_at x < now - 24 * 3600"]
  have "commerce_inv (?db2\<lparr>verification_codes := vs, orders := sql_update (\<lambda>x. o_status x = OrderPending \<and> o_created_at x < now - 24 * 3600)
      (\<lambda>x. x\<lparr>o_status := OrderClosed\<rparr>) (orders ?db2)\<rparr>)" if "\<not> list_ex (restricted ?db1) ?gone" for vs
    by (rule same_accounts_commerce [OF _ inv2 [OF that]]) (simp_all add: same_accounts_def same_books_def)
  then show ?thesis using op inv by (auto simp: CleanupIdentity_def Let_def split: if_splits)
qed

section \<open>Prices never change\<close>

definition price_frame :: "cdb \<Rightarrow> cdb \<Rightarrow> bool" where
  "price_frame db db' \<longleftrightarrow> products db' = products db \<and>
     map (\<lambda>x. (o_points_price x, o_price_cents x)) (orders db') = map (\<lambda>x. (o_points_price x, o_price_cents x)) (orders db)"

lemma price_frame_refl [simp]: "price_frame db db"
  by (simp add: price_frame_def)

lemma price_frame_trans: "price_frame a b \<Longrightarrow> price_frame b c \<Longrightarrow> price_frame a c"
  by (simp add: price_frame_def)

lemma price_frame_same: "orders db' = orders db \<Longrightarrow> products db' = products db \<Longrightarrow> price_frame db db'"
  by (simp add: price_frame_def)

lemma price_frame_fits:
  assumes "price_frame db db'" "prices_fit db"
  shows "prices_fit db'"
proof -
  let ?price = "\<lambda>x. (o_points_price x, o_price_cents x)"
  have m: "?price ` set (orders db') = ?price ` set (orders db)"
    using assms(1) unfolding price_frame_def set_map [symmetric] by (elim conjE arg_cong)
  have "o_points_price x \<le> max_int64 \<and> - (2 ^ 63) \<le> o_points_price x \<and> o_price_cents x \<le> max_int64"
    if "x \<in> set (orders db')" for x
  proof -
    have "?price x \<in> ?price ` set (orders db)" using m that by blast
    then obtain y where "y \<in> set (orders db)" "?price x = ?price y" by blast
    then show ?thesis using assms(2) by (simp add: prices_fit_def)
  qed
  then show ?thesis using assms by (simp add: prices_fit_def price_frame_def)
qed

lemma complete_order_price:
  assumes "completeOrderTx eid pid x p tx now reward db = Inr (y, db')"
  shows "price_frame db db'"
proof -
  obtain db1 db2 db3 where pay: "pay_row (o_id x) tx now db = Inr db1"
    and tr: "order_traffic eid x p now db1 = Inr db2" and vip: "order_vip x p now db2 = Inr db3"
    and rew: "order_reward pid reward x now db3 = Inr db'"
    using assms by (auto simp: completeOrderTx_def split: if_splits sum.splits)
  have "price_frame db db1" unfolding pay_row_Inr [OF pay] price_frame_def
    by (simp add: map_sql_update paid_order_def)
  moreover have "price_frame db1 db2" using tr
    by (auto simp: order_traffic_def split: if_splits intro!: price_frame_same dest!: grant_entitlement_Inr(3))
  moreover have "price_frame db2 db3" using vip
    by (auto simp: order_vip_def split: if_splits intro!: price_frame_same dest!: set_vip_only_users)
  moreover have "price_frame db3 db'" using rew addPoints_frame [of pid "o_user_id x" _ _ _ now db3 db']
    unfolding order_reward_def by (cases "reward \<and> o_price_cents x > 0") (simp_all add: price_frame_same)
  ultimately show ?thesis by (blast intro: price_frame_trans)
qed

lemma sandbox_price:
  assumes "CompleteSandboxOrder h eid pid i u ev tx now db = (r, db')"
  shows "price_frame db db'"
proof -
  have "price_frame db d" if ok: "complete_sandbox h eid pid x p ev tx now db = Inr (y, d)" for x p y d
  proof -
    consider "d = db" | pes where "completeOrderTx eid pid x p tx now True (db\<lparr>payment_events := pes\<rparr>) = Inr (y, d)"
      using ok by (auto simp: complete_sandbox_def split: if_splits sum.splits)
    then show ?thesis
    proof cases
      case 2
      show ?thesis using complete_order_price [OF 2] by (simp add: price_frame_def)
    qed simp
  qed
  then show ?thesis using assms by (auto simp: CompleteSandboxOrder_def commit_def split: sum.splits prod.splits)
qed

lemma points_payment_price:
  assumes "PayOrderWithPoints eid pid i u now db = (r, db')"
  shows "price_frame db db'"
proof -
  have "price_frame db d" if ok: "pay_with_points eid pid x p now db = Inr (y, d)" for x p y d
  proof -
    consider "d = db" | db1 delta reason key where "addPointsTx pid (o_user_id x) delta reason key now db = Inr db1"
      "completeOrderTx eid pid x p (''points-'' @ o_id x) now False db1 = Inr (y, d)"
      using ok by (auto simp: pay_with_points_def split: if_splits sum.splits)
    then show ?thesis
    proof cases
      case 2
      show ?thesis using complete_order_price [OF 2(2)] addPoints_frame [OF 2(1)] by (simp add: price_frame_def)
    qed simp
  qed
  then show ?thesis using assms by (auto simp: PayOrderWithPoints_def commit_def split: sum.splits prod.splits)
qed

lemma refund_price:
  assumes "RefundOrder pid i now db = (r, db')"
  shows "price_frame db db'"
  using assms
proof (cases rule: RefundOrder_cases)
  case (paid x db1)
  from paid(6) have "orders db1 = orders db" "products db1 = products db"
    by (cases rule: refund_points_Inr; simp add: addPoints_frame)+
  then show ?thesis by (simp add: paid(7) refund_rows_def price_frame_def map_sql_update)
qed simp

lemma redeem_price: "price_frame db (snd (RedeemRedemptionCode h eid aid u raw ip now db))"
proof -
  have "price_frame db d" if ok: "redeem_active eid aid u k b ip now db = Inr (x, d)" for k b x d
  proof -
    obtain db1 db2 t where c: "claim_code (k_id k) u now db = Inr db1"
      and ben: "redemption_benefit eid u k b now db1 = Inr db2" and d: "d = db2\<lparr>audits := t\<rparr>"
      using ok by (blast elim: redeem_active_Inr)
    have "price_frame db1 db2" using ben
      by (auto simp: redemption_benefit_def split: if_splits intro!: price_frame_same
          dest!: set_vip_only_users grant_entitlement_Inr(3))
    then show ?thesis using claim_code_Inr [OF c] d by (simp add: price_frame_def)
  qed
  then show ?thesis
    by (auto simp: RedeemRedemptionCode_def redeem_hash_def commit_def split: sum.splits prod.splits if_splits option.splits)
qed

lemma batch_price:
  "CreateRedemptionBatch h seal zone bid aid draws actor spec ip now db = Some (r, db') \<Longrightarrow> price_frame db db'"
  "DisableRedemptionBatch aid b actor ip now db = (r2, db') \<Longrightarrow> price_frame db db'"
proof -
  have "price_frame db d" if "store_batch bid aid actor s gs ip now db = Inr (x, d)" for s gs x d
    using that by (auto simp: store_batch_def Let_def split: sum.splits if_splits
        intro!: price_frame_same dest!: insertAudit_Inr)
  then show "CreateRedemptionBatch h seal zone bid aid draws actor spec ip now db = Some (r, db') \<Longrightarrow> price_frame db db'"
    by (auto simp: CreateRedemptionBatch_def commit_def split: sum.splits if_splits option.splits)
  have "price_frame db d" if "disable_batch aid b actor ip now db = Inr d" for b d
    using that by (auto simp: disable_batch_def intro!: price_frame_same dest!: insertAudit_Inr)
  then show "DisableRedemptionBatch aid b actor ip now db = (r2, db') \<Longrightarrow> price_frame db db'"
    by (auto simp: DisableRedemptionBatch_def Let_def commit_def split: if_splits sum.splits prod.splits)
qed

lemma checkin_price: "ClaimDailyCheckIn cid eid aid mib u ip now db = (r, db') \<Longrightarrow> price_frame db db'"
  by (auto simp: ClaimDailyCheckIn_def claim_checkin_def commit_def Let_def split: if_splits sum.splits prod.splits
      intro!: price_frame_same dest!: insertAudit_Inr grant_entitlement_Inr(3))

lemma vip_grant_price: "grantVIPDailyLoginTrafficTx gid eid aid u ip now db = Inr (g, db') \<Longrightarrow> price_frame db db'"
  by (auto simp: grantVIPDailyLoginTrafficTx_def insert_vip_grant_def Let_def split: if_splits sum.splits prod.splits option.splits
      intro!: price_frame_same dest!: insertAudit_Inr grant_entitlement_Inr(3))

lemma login_price:
  assumes "createUserSession ids u th csrf now x a vip db = (r, db')"
  shows "price_frame db db'"
proof (cases "db' = db")
  case False
  then obtain db1 db2 us g where s: "insert_session (li_session ids) u th csrf now x db = Inr db1"
    and lg: "login_grant ids u (as_ip a) now vip (db1\<lparr>users := us\<rparr>) = Inr (g, db2)"
    and la: "login_audit ids u a now db2 = Inr db'"
    using assms by (auto simp: createUserSession_def commit_def split: sum.splits prod.splits)
  have "price_frame db (db1\<lparr>users := us\<rparr>)" using s
    by (auto simp: insert_session_def split: if_splits intro!: price_frame_same)
  moreover have "price_frame (db1\<lparr>users := us\<rparr>) db2" using lg vip_grant_price [of _ _ _ u _ now "db1\<lparr>users := us\<rparr>" g db2]
    by (auto simp: login_grant_def split: if_splits)
  moreover have "price_frame db2 db'" using la
    by (auto simp: login_audit_def split: if_splits intro!: price_frame_same dest!: insertAudit_Inr)
  ultimately show ?thesis by (blast intro: price_frame_trans)
qed simp

lemma same_books_price: "same_books db db' \<Longrightarrow> price_frame db db'"
  by (simp add: same_books_def price_frame_same)

lemma same_accounts_price: "same_accounts db db' \<Longrightarrow> price_frame db db'"
  by (simp add: same_accounts_def same_books_price)

lemma register_price:
  assumes "CreatePendingUser cid sid u h x c db = (r, db')"
  shows "price_frame db db'"
proof (cases "db' = db")
  case False
  then obtain db2 db3 where
    code: "insert_code cid (us_id u) PurposeVerify h (us_created_at u) x (db\<lparr>users := users db @ [pending_user u]\<rparr>) = Inr db2"
    and acc: "insert_account (us_id u) (us_created_at u) db2 = Inr db3" and con: "add_consent sid (us_id u) c db3 = Inr db'"
    using assms by (auto simp: CreatePendingUser_def Let_def split: if_splits sum.splits)
  have "same_accounts db db2" "same_accounts db3 db'" using insert_code_same [OF code] add_consent_same [OF con] by simp_all
  moreover have "price_frame db2 db3" using acc by (auto simp: insert_account_def split: sum.splits intro!: price_frame_same)
  ultimately show ?thesis by (blast intro: price_frame_trans same_accounts_price)
qed simp

lemma verify_price: "VerifyUser verify pid email code ph now risk db = (r, db') \<Longrightarrow> price_frame db db'"
proof -
  have "price_frame db d2" if risk: "registration_risk risk now db = Inr d1" and a: "activate_user pid u v ph now d1 = Inr d2" for d1 d2 u v
  proof -
    have "same_accounts db d1" using risk
      by (auto simp: registration_risk_def split: option.splits simp del: registration_buckets.simps
          intro: registration_buckets_same)
    then have "same_accounts db ((consume_code v now d1)\<lparr>users := us\<rparr>)" for us by simp
    then obtain d where d: "same_accounts db d" "addPointsTx pid (us_id u) 100 text_verified (''welcome:'' @ us_id u) now d = Inr d2"
      by (rule that) (use a in \<open>simp add: activate_user_def Let_def split: if_splits\<close>)
    show ?thesis using same_accounts_price [OF d(1)] addPoints_frame [OF d(2)] by (simp add: price_frame_def)
  qed
  moreover have "price_frame db (miss_code v db)" for v by (rule same_accounts_price) simp
  ultimately show "VerifyUser verify pid email code ph now risk db = (r, db') \<Longrightarrow> ?thesis"
    by (auto simp: VerifyUser_def commit_def split: option.splits if_splits sum.splits)
qed

lemma summary_price:
  assumes "AccountSummary_of u monthly now db = (r, db')"
  shows "price_frame db db'"
proof (cases "db' = db")
  case False
  then have "ensureTrafficAccountTx u monthly now db = Inr db'"
    using assms by (auto simp: AccountSummary_of_def commit_def Let_def split: sum.splits option.splits)
  then show ?thesis using ensure_account_books by (blast intro: same_books_price books_frame_def [THEN iffD1, THEN conjunct1])
qed simp

lemma cleanup_price: "CleanupIdentity now (db, limits) = (r, db', limits') \<Longrightarrow> price_frame db db'"
  by (auto simp: CleanupIdentity_def Let_def delete_users_def price_frame_def map_sql_update split: if_splits)

end
