(* ===== verification/Commerce_Properties.thy ===== *)
theory Commerce_Properties
  imports Commerce_Steps
begin

text \<open>
  The state machine of the account tables: every operation of orders, redemption, daily benefits,
  identity and uploads, in any order. Its properties: the points ledger explains every balance,
  every benefit is granted once and has a reason, and no purchase, refund, clean-up or redemption
  takes away traffic that is promised to an upload in progress.
\<close>

section \<open>The state machine\<close>

inductive commerce_step :: "cdb \<Rightarrow> cdb \<Rightarrow> bool" where
  upload: "upload_step db db' \<Longrightarrow> commerce_step db db'"
| order: "CreateOrder i u pr m key now db = (r, db') \<Longrightarrow> commerce_step db db'"
| sandbox: "CompleteSandboxOrder h eid pid i u ev tx now db = (r, db') \<Longrightarrow> commerce_step db db'"
| points: "PayOrderWithPoints eid pid i u now db = (r, db') \<Longrightarrow> commerce_step db db'"
| refund_order: "RefundOrder pid i now db = (r, db') \<Longrightarrow> commerce_step db db'"
| batch: "CreateRedemptionBatch h seal zone bid aid draws actor spec ip now db = Some (r', db') \<Longrightarrow> commerce_step db db'"
| disable: "DisableRedemptionBatch aid b actor ip now db = (r'', db') \<Longrightarrow> commerce_step db db'"
| redeem: "RedeemRedemptionCode h eid aid u raw ip now db = (x, db') \<Longrightarrow> commerce_step db db'"
| checkin: "ClaimDailyCheckIn cid eid aid mib u ip now db = (y, db') \<Longrightarrow> commerce_step db db'"
| login: "createUserSession ids u th csrf now ex a vip db = (g, db') \<Longrightarrow> commerce_step db db'"
| register: "CreatePendingUser cid sid usr h' ex c db = (r1, db') \<Longrightarrow> commerce_step db db'"
| refresh: "RefreshPendingUser cid sid u h' now ex c db = (r1, db') \<Longrightarrow> commerce_step db db'"
| verify: "VerifyUser check pid email code ph now risk db = (r2, db') \<Longrightarrow> commerce_step db db'"
| reset_request: "CreatePasswordReset cid u h' now ex db = (r1, db') \<Longrightarrow> commerce_step db db'"
| reset: "ResetPassword check email code ph now db = (r1, db') \<Longrightarrow> commerce_step db db'"
| change: "ChangeUserPassword sid aid u ph th csrf ip now ex db = (r1, db') \<Longrightarrow> commerce_step db db'"
| status: "SetUserStatus aid actor u st ip now db = (r1, db') \<Longrightarrow> commerce_step db db'"
| summary: "AccountSummary_of u monthly now db = (s, db') \<Longrightarrow> commerce_step db db'"
| logout: "RevokeUserSession th now db = (r1, db') \<Longrightarrow> commerce_step db db'"
| touch: "UserBySession th now db = (r3, db') \<Longrightarrow> commerce_step db db'"
| report: "SetReportStatus i rst now db = (r4, db') \<Longrightarrow> commerce_step db db'"
| cleanup: "CleanupIdentity now (db, limits) = (r1, db', limits') \<Longrightarrow> no_stale_holds now db \<Longrightarrow> commerce_step db db'"

inductive commerce_reachable :: "cdb \<Rightarrow> cdb \<Rightarrow> bool" for db0 where
  start: "commerce_reachable db0 db0"
| more: "commerce_reachable db0 db \<Longrightarrow> commerce_step db db' \<Longrightarrow> commerce_reachable db0 db'"

lemma create_order_commerce: "commerce_inv db \<Longrightarrow> CreateOrder i u pr m key now db = (r, db') \<Longrightarrow> commerce_inv db'"
  by (erule create_order_cases) (auto intro: insert_order_commerce)

lemma commerce_step_frame:
  assumes "same_accounts db (snd p)" "p = (r, db')"
  shows "commerce_inv db \<Longrightarrow> commerce_inv db'" "price_frame db db'"
  using assms same_accounts_commerce same_accounts_price by auto

lemmas framed_inv = commerce_step_frame(1) [OF refresh_same] commerce_step_frame(1) [OF password_same(1)]
  commerce_step_frame(1) [OF password_same(2)] commerce_step_frame(1) [OF change_password_same]
  commerce_step_frame(1) [OF set_status_same] commerce_step_frame(1) [OF session_same(1)]
  commerce_step_frame(1) [OF session_same(2)] commerce_step_frame(1) [OF report_same(1)]

lemmas framed_price = commerce_step_frame(2) [OF refresh_same] commerce_step_frame(2) [OF password_same(1)]
  commerce_step_frame(2) [OF password_same(2)] commerce_step_frame(2) [OF change_password_same]
  commerce_step_frame(2) [OF set_status_same] commerce_step_frame(2) [OF session_same(1)]
  commerce_step_frame(2) [OF session_same(2)] commerce_step_frame(2) [OF report_same(1)]

lemma commerce_step_inv: "commerce_step db db' \<Longrightarrow> commerce_inv db \<Longrightarrow> prices_fit db \<Longrightarrow> commerce_inv db'"
  by (induction rule: commerce_step.induct)
    (blast intro: upload_step_commerce create_order_commerce sandbox_commerce points_payment_commerce refund_commerce
      create_batch_commerce disable_commerce redeem_commerce checkin_commerce login_commerce register_commerce
      verify_commerce summary_commerce cleanup_commerce framed_inv)+

lemma commerce_step_prices: "commerce_step db db' \<Longrightarrow> prices_fit db \<Longrightarrow> prices_fit db'"
proof (induction rule: commerce_step.induct)
  case (upload db db')
  then show ?case using price_frame_fits same_books_price traffic_move_books upload_step_move by blast
next
  case (order i u pr m key now db r db')
  then show ?case by (elim create_order_cases) (auto intro: insert_order_prices)
next
  case (redeem h eid aid u raw ip now db x db')
  then show ?case using price_frame_fits [OF redeem_price] by (metis snd_conv)
qed (blast intro: price_frame_fits sandbox_price points_payment_price refund_price batch_price checkin_price login_price
    register_price verify_price summary_price cleanup_price framed_price)+

lemma commerce_reachable_inv:
  "commerce_reachable db0 db \<Longrightarrow> commerce_inv db0 \<Longrightarrow> prices_fit db0 \<Longrightarrow> commerce_inv db \<and> prices_fit db"
  by (induction rule: commerce_reachable.induct) (auto intro: commerce_step_inv commerce_step_prices)

section \<open>A concrete shop\<close>

definition demo_product :: product where
  "demo_product = \<lparr>p_id = ''p'', p_name = ''n'', p_traffic_bytes = 500, p_valid_days = 0, p_vip_plan = '''', p_vip_days = 0,
     p_price_cents = 100, p_points_price = 60, p_active = True\<rparr>"

definition shop_user :: user where
  "shop_user = \<lparr>us_id = ''u'', us_email = ''e'', us_username = ''n'', us_password_hash = '''',
     us_status = UserPending, us_role = RoleUser, us_vip_plan = '''', us_vip_expires_at = 0,
     us_must_change_password = False, us_created_at = 1, us_verified_at = 0, us_last_login_at = 0\<rparr>"

definition shop :: cdb where "shop = empty_cdb\<lparr>products := [demo_product]\<rparr>"
definition shop_registered :: cdb where
  "shop_registered = snd (CreatePendingUser ''c'' ''s'' shop_user ''k'' 100 None shop)"
definition shop_member :: cdb where
  "shop_member = snd (VerifyUser (\<lambda>h c. h = c) ''w'' ''e'' ''k'' ''hash'' 2 None shop_registered)"
definition shop_ordered :: cdb where
  "shop_ordered = snd (CreateOrder ''o'' ''u'' ''p'' ''points'' ''i'' 3 shop_member)"
definition shop_paid :: cdb where
  "shop_paid = snd (PayOrderWithPoints ''e'' ''x'' ''o'' ''u'' 4 shop_ordered)"

lemma shop_inv: "commerce_inv shop" "prices_fit shop"
  by code_simp+

lemma shop_reachable: "commerce_reachable shop shop_paid"
  unfolding shop_registered_def shop_member_def shop_ordered_def shop_paid_def
  by (rule commerce_reachable.more [OF commerce_reachable.more [OF commerce_reachable.more [OF commerce_reachable.more
      [OF commerce_reachable.start commerce_step.register [OF surjective_pairing]] commerce_step.verify [OF surjective_pairing]]
      commerce_step.order [OF surjective_pairing]] commerce_step.points [OF surjective_pairing]])

lemma shop_paid_rows:
  "map (\<lambda>a. (a_user_id a, a_points_balance a)) (accounts shop_paid) = [(''u'', 40)]"
  "map (\<lambda>e. (e_id e, e_remaining_bytes e, source_of e)) (entitlements shop_paid) = [(''e'', 500, ''order'', ''o'')]"
  by code_simp+

section \<open>Properties\<close>

text \<open>C13. The points ledger explains every balance. From any consistent state with 64-bit prices, after
  any sequence of orders, payments, refunds, redemptions, check-ins, registrations, uploads and
  clean-ups, the points of an account are the sum of the entries of its owner, they are neither
  negative nor beyond 64 bits, and no event was counted twice.\<close>

theorem points_balance_explained:
  assumes "commerce_inv db0" "prices_fit db0" "commerce_reachable db0 db" "a \<in> set (accounts db)"
  shows "a_points_balance a = sql_sum (\<lambda>p. pl_user_id p = a_user_id a) pl_delta (points_ledger db) \<and>
    0 \<le> a_points_balance a \<and> a_points_balance a \<le> max_int64 \<and> keyed pl_event_key (points_ledger db)"
proof -
  have "points_inv db" using commerce_reachable_inv [OF assms(3,1,2)] by (simp add: commerce_inv_def)
  then show ?thesis using assms(4) by (auto simp: points_inv_def)
qed

theorem points_balance_explained_witness:
  "\<exists>a \<in> set (accounts shop_paid). a_points_balance a = 40 \<and>
     sql_sum (\<lambda>p. pl_user_id p = a_user_id a) pl_delta (points_ledger shop_paid) = 40"
proof -
  obtain a where a: "a \<in> set (accounts shop_paid)" "a_points_balance a = 40"
    using shop_paid_rows(1) by (auto simp: map_eq_Cons_conv)
  then show ?thesis using points_balance_explained [OF shop_inv shop_reachable a(1)] by auto
qed

text \<open>C14. Every benefit has one reason. In the same runs every traffic entitlement belongs to a code its
  owner redeemed, an order its owner paid and that is not refunded, a check-in or a VIP login of its
  owner, and no two entitlements have the same reason.\<close>

theorem benefit_granted_once:
  assumes "commerce_inv db0" "prices_fit db0" "commerce_reachable db0 db" "e \<in> set (entitlements db)"
  shows "source_row db e \<and> (\<forall>e' \<in> set (entitlements db). source_of e' = source_of e \<longrightarrow> e' = e)"
proof -
  have inv: "sources_inv db" using commerce_reachable_inv [OF assms(3,1,2)] by (simp add: commerce_inv_def)
  then have "e' = e" if "e' \<in> set (entitlements db)" "source_of e' = source_of e" for e'
    using keyed_unique [of source_of "entitlements db" e' e] that assms(4) by (simp add: sources_inv_def)
  then show ?thesis using inv assms(4) unfolding sources_inv_def by blast
qed

theorem benefit_granted_once_witness:
  "\<exists>e \<in> set (entitlements shop_paid). e_remaining_bytes e = 500 \<and> source_row shop_paid e"
proof -
  obtain e where e: "e \<in> set (entitlements shop_paid)" "e_remaining_bytes e = 500"
    using shop_paid_rows(2) by (auto simp: map_eq_Cons_conv)
  then show ?thesis using benefit_granted_once [OF shop_inv shop_reachable e(1)] by blast
qed

text \<open>C15. What is promised to an upload in progress stays payable: whatever is bought, refunded,
  redeemed, granted or cleaned up in the meantime, a reserved charge can be settled, and settling
  takes exactly its bytes from the owner's balances.\<close>

theorem reserved_uploads_stay_payable:
  assumes "commerce_inv db0" "prices_fit db0" "commerce_reachable db0 db"
    and "c \<in> set (charges db)" "c_status c = ChargeReserved"
  shows "\<exists>db'. settleUploadTrafficTx (c_upload_id c) now db = Inr db' \<and>
    user_balance db' (c_user_id c) = user_balance db (c_user_id c) - c_amount_bytes c"
proof -
  have "traffic_inv db" using commerce_reachable_inv [OF assms(3,1,2)] by (simp add: commerce_inv_def)
  then show ?thesis using settle_reserved [OF _ assms(4,5)] user_balance_settle [OF _ assms(4,5)] by blast
qed

definition shop_upload :: cdb where
  "shop_upload = snd (CreateUploadWithQuota node_upload 5 100 50 0 7 (owner_demo\<lparr>products := [demo_product]\<rparr>))"

lemma shop_upload_facts:
  "commerce_inv (owner_demo\<lparr>products := [demo_product]\<rparr>)" "prices_fit (owner_demo\<lparr>products := [demo_product]\<rparr>)"
  "map (\<lambda>c. (c_upload_id c, c_user_id c, c_amount_bytes c, c_status c)) (charges shop_upload) = [(''f'', ''u'', 10, ChargeReserved)]"
  "user_balance shop_upload ''u'' = 50"
  by code_simp+

theorem reserved_uploads_stay_payable_witness:
  "\<exists>db'. settleUploadTrafficTx ''f'' 9 shop_upload = Inr db' \<and> user_balance db' ''u'' = 40"
proof -
  have r: "commerce_reachable (owner_demo\<lparr>products := [demo_product]\<rparr>) shop_upload" unfolding shop_upload_def
    by (rule commerce_reachable.more [OF commerce_reachable.start commerce_step.upload [OF upload_step.create]])
  obtain c where c: "c \<in> set (charges shop_upload)" "c_status c = ChargeReserved" "c_upload_id c = ''f''" "c_user_id c = ''u''"
    "c_amount_bytes c = 10"
    using shop_upload_facts(3) by (auto simp: map_eq_Cons_conv)
  show ?thesis
    using reserved_uploads_stay_payable [OF shop_upload_facts(1,2) r c(1,2), of 9] shop_upload_facts(4) by (simp add: c(3-5))
qed

end
