(* ===== verification/Redemption_Properties.thy ===== *)
theory Redemption_Properties
  imports Commerce_Ledger
begin

text \<open>
  Properties of redemption codes: a printed code survives the way it is typed, a batch is complete
  after finitely many draws, a code is worth its benefit once, and VIP benefits never weaken a
  membership.
\<close>

section \<open>The text of a code\<close>

definition code_letters :: "nat list \<Rightarrow> string" where
  "code_letters bs = ''QT'' @ map (\<lambda>v. redemptionCodeAlphabet ! (v mod 32)) bs"

definition typed_letters :: "string \<Rightarrow> string" where
  "typed_letters s = map upper_char (filter (\<lambda>c. \<not> code_separator c) s)"

lemma alphabet_letter: "redemptionCodeAlphabet ! (v mod 32) \<in> set redemptionCodeAlphabet"
  by (rule nth_mem) (simp add: redemptionCodeAlphabet_def)

lemma code_letters_known: "set (code_letters bs) \<subseteq> set redemptionCodeAlphabet"
proof -
  have "set ''QT'' \<subseteq> set redemptionCodeAlphabet" by code_simp
  then show ?thesis using alphabet_letter by (auto simp: code_letters_def)
qed

lemma alphabet_chars:
  assumes "c \<in> set redemptionCodeAlphabet"
  shows "printable c" "\<not> code_separator c" "upper_char c = c"
proof -
  have "list_all (\<lambda>c. printable c \<and> \<not> code_separator c \<and> upper_char c = c) redemptionCodeAlphabet" by code_simp
  then show "printable c" "\<not> code_separator c" "upper_char c = c" using assms by (auto simp: list_all_iff)
qed

lemma upper_printable:
  assumes "printable (upper_char c)" shows "printable c"
proof (cases "CHR ''a'' \<le> c \<and> c \<le> CHR ''z''")
  case True
  have "CHR ''!'' \<le> CHR ''a''" "CHR ''z'' \<le> CHR ''~''" by code_simp+
  with True show ?thesis unfolding printable_def by (meson order.trans)
next
  case False
  then have "upper_char c = c" by (auto simp: upper_char_def)
  then show ?thesis using assms by simp
qed

lemma blank_patterns: "w \<in> set go_spaces \<Longrightarrow> (\<forall>c \<in> set w. code_separator c) \<or> (\<exists>c \<in> set w. \<not> (code_separator c \<or> printable c))"
proof -
  have "list_all (\<lambda>w. list_all code_separator w \<or> list_ex (\<lambda>c. \<not> (code_separator c \<or> printable c)) w) go_spaces" by code_simp
  then show "w \<in> set go_spaces \<Longrightarrow> ?thesis" by (auto simp: list_all_iff list_ex_iff)
qed

lemma normalize_typed:
  assumes len: "length bs = 16" and typed: "typed_letters raw = code_letters bs"
  shows "normalizeRedemptionCode raw = Inr (code_letters bs)"
proof -
  have "code_separator c \<or> printable c" if "c \<in> set raw" for c
  proof (cases "code_separator c")
    case False
    then have "upper_char c \<in> set (code_letters bs)" using that typed [symmetric] by (simp add: typed_letters_def)
    then show ?thesis using code_letters_known alphabet_chars(1) upper_printable by blast
  qed simp
  then have "filter (\<lambda>c. \<not> code_separator c) (TrimSpace raw) = filter (\<lambda>c. \<not> code_separator c) raw"
    using blank_patterns by (intro TrimSpace_filter [where ok = "\<lambda>c. code_separator c \<or> printable c"]) auto
  then have c: "map upper_char (filter (\<lambda>c. \<not> code_separator c) (TrimSpace raw)) = code_letters bs"
    using typed by (simp add: typed_letters_def)
  have "drop 2 (code_letters bs) = map (\<lambda>v. redemptionCodeAlphabet ! (v mod 32)) bs" by (simp add: code_letters_def)
  then have "\<not> list_ex (\<lambda>c. c \<notin> set redemptionCodeAlphabet) (drop 2 (code_letters bs))"
    by (auto simp: list_ex_iff alphabet_letter)
  moreover have "length (code_letters bs) = 18" "take 2 (code_letters bs) = ''QT''" using len by (simp_all add: code_letters_def)
  ultimately show ?thesis unfolding normalizeRedemptionCode_def Let_def c by simp
qed

lemma typed_generated:
  assumes "length bs = 16"
  shows "typed_letters (generateRedemptionCode bs) = code_letters bs"
proof -
  let ?cs = "map (\<lambda>v. redemptionCodeAlphabet ! (v mod 32)) bs"
  have keep: "filter (\<lambda>c. \<not> code_separator c) xs = xs \<and> map upper_char xs = xs" if "set xs \<subseteq> set redemptionCodeAlphabet" for xs
    using that alphabet_chars(2,3) by (auto simp: filter_id_conv intro!: map_idI)
  have sub: "set (take n (drop m ?cs)) \<subseteq> set redemptionCodeAlphabet" for n m
    using set_take_subset [of n "drop m ?cs"] set_drop_subset [of m ?cs] alphabet_letter by auto
  have dash: "code_separator (CHR ''-'')" by (simp add: code_separator_def)
  have qt: "typed_letters ''QT-'' = ''QT''" by code_simp
  have parts: "typed_letters (xs @ ys) = typed_letters xs @ typed_letters ys" for xs ys by (simp add: typed_letters_def)
  have "typed_letters (take n (drop m ?cs)) = take n (drop m ?cs)" for n m using keep [OF sub] by (simp add: typed_letters_def)
  note part = this this [of _ 0, simplified]
  have "typed_letters ''-'' = ''''" using dash by (simp add: typed_letters_def)
  then have "typed_letters (generateRedemptionCode bs) =
      ''QT'' @ take 4 ?cs @ take 4 (drop 4 ?cs) @ take 4 (drop 8 ?cs) @ take 4 (drop 12 ?cs)"
    by (simp only: generateRedemptionCode_def Let_def parts part qt append_Nil)
  also have "take 4 (drop 12 ?cs) = drop 12 ?cs" using assms by simp
  also have "take 4 ?cs @ take 4 (drop 4 ?cs) @ take 4 (drop 8 ?cs) @ drop 12 ?cs = ?cs"
    using append_take_drop_id [of 4 ?cs] append_take_drop_id [of 4 "drop 4 ?cs"] append_take_drop_id [of 4 "drop 8 ?cs"]
    by (simp add: drop_drop)
  finally show ?thesis by (simp add: code_letters_def)
qed

section \<open>Generating a batch\<close>

abbreviation draw_hash :: "(string \<Rightarrow> string) \<Rightarrow> code_draw \<Rightarrow> string" where
  "draw_hash h d \<equiv> h (code_letters (fst d))"

definition printed :: "(string \<Rightarrow> string) \<Rightarrow> generated_code \<Rightarrow> bool" where
  "printed h g \<longleftrightarrow> (\<exists>bs. length bs = 16 \<and> g_raw g = generateRedemptionCode bs \<and> g_hash g = h (code_letters bs))"

text \<open>A draw either repeats a code or adds one; the loop is done after enough different draws.\<close>

lemma generate_codes_complete:
  assumes "\<And>d. d \<in> set draws \<Longrightarrow> length (fst d) = 16" "\<And>n r. \<exists>p. seal n r = Inr p"
    "distinct (map g_hash gs)" "\<forall>g \<in> set gs. printed h g" "length gs \<le> n"
    "n \<le> card (g_hash ` set gs \<union> draw_hash h ` set draws)"
  shows "\<exists>gs'. generate_codes h seal n draws gs = Some (Inr gs') \<and> length gs' = n \<and>
    distinct (map g_hash gs') \<and> (\<forall>g \<in> set gs'. printed h g)"
  using assms
proof (induction draws arbitrary: gs)
  case Nil
  then have "card (g_hash ` set gs) = length gs" by (metis distinct_card length_map list.set_map)
  then show ?case using Nil by (simp add: generate_codes.simps)
next
  case (Cons d draws)
  obtain bs i nonce where d: "d = (bs, i, nonce)" by (cases d)
  have bs: "length bs = 16" using Cons.prems(1) [of d] d by simp
  have norm: "normalizeRedemptionCode (generateRedemptionCode bs) = Inr (code_letters bs)"
    using normalize_typed [OF bs typed_generated [OF bs]] .
  show ?case
  proof (cases "n \<le> length gs")
    case True
    then show ?thesis using Cons.prems(3-5) by (simp add: generate_codes.simps)
  next
    case more: False
    show ?thesis
    proof (cases "h (code_letters bs) \<in> g_hash ` set gs")
      case True
      then have "generate_codes h seal n (d # draws) gs = generate_codes h seal n draws gs"
        unfolding d using more by (subst generate_codes.simps) (simp add: norm Let_def)
      moreover have "g_hash ` set gs \<union> draw_hash h ` set (d # draws) = g_hash ` set gs \<union> draw_hash h ` set draws"
        using True d by auto
      ultimately show ?thesis using Cons.IH [of gs] Cons.prems by simp
    next
      case False
      obtain p where p: "seal nonce (generateRedemptionCode bs) = Inr p" using Cons.prems(2) by blast
      define g where "g = \<lparr>g_id = i, g_raw = generateRedemptionCode bs, g_hash = h (code_letters bs),
        g_masked = maskRedemptionCode (code_letters bs), g_protected = p\<rparr>"
      have "generate_codes h seal n (d # draws) gs = generate_codes h seal n draws (gs @ [g])"
        unfolding d using more False p by (subst generate_codes.simps) (simp add: norm g_def Let_def)
      moreover have "printed h g" using bs by (auto simp: printed_def g_def)
      moreover have "g_hash ` set gs \<union> draw_hash h ` set (d # draws) = g_hash ` set (gs @ [g]) \<union> draw_hash h ` set draws"
        by (auto simp: d g_def)
      moreover have "distinct (map g_hash (gs @ [g]))" using Cons.prems(3) False by (simp add: g_def)
      ultimately show ?thesis using Cons.IH [of "gs @ [g]"] Cons.prems more by simp
    qed
  qed
qed

section \<open>Redeeming twice\<close>

lemma count_redeemed:
  "sql_count (\<lambda>k. k_code_hash k = h) (sql_update p (redeemed u now) t) = sql_count (\<lambda>k. k_code_hash k = h) t"
  by (induction t) (simp_all add: redeemed_def)

lemma first_redeemed:
  assumes "sql_first (\<lambda>k. k_code_hash k = h) t = Some k"
  shows "sql_first (\<lambda>k. k_code_hash k = h) (sql_update p (redeemed u now) t) = Some (if p k then redeemed u now k else k)"
  using assms by (induction t) (auto simp: redeemed_def sql_first_def sql_update_def)

lemma redemption_benefit_tables:
  assumes "redemption_benefit eid u k b now db = Inr db'"
  shows "codes db' = codes db" "batches db' = batches db"
  using assms by (auto simp: redemption_benefit_def split: if_splits dest!: set_vip_only_users grant_entitlement_Inr(3))

text \<open>What an answered redemption leaves behind: the code is redeemed by the user, whose rows exist.\<close>

lemma redeem_success:
  assumes ok: "RedeemRedemptionCode h eid aid u raw ip now db = (Inr r, db')"
  obtains code k b where "normalizeRedemptionCode raw = Inr code" "redemption_record (h code) db' = Some (k, b)"
    "sql_count (\<lambda>k. k_code_hash k = h code) (codes db') = 1" "k_status k = CodeRedeemed" "k_redeemed_by k = u"
    "\<And>t. \<exists>r'. redemptionResultForRecord u k b t db' = Inr r'"
proof -
  obtain code where code: "normalizeRedemptionCode raw = Inr code" and hash: "redeem_hash eid aid u (h code) ip now db = Inr (r, db')"
    using ok by (auto simp: RedeemRedemptionCode_def commit_fst_Inr split: sum.splits)
  obtain k b where rec: "redemption_record (h code) db = Some (k, b)" and one: "sql_count (\<lambda>k. k_code_hash k = h code) (codes db) = 1"
    using hash by (auto simp: redeem_hash_def split: if_splits option.splits)
  have any_time: "\<exists>r'. redemptionResultForRecord u k2 b t d = Inr r'" if "redemptionResultForRecord u k1 b now d = Inr x" for k1 k2 t d x
    using that by (auto simp: redemptionResultForRecord_def Let_def split: option.splits)
  show thesis
  proof (cases "k_status k = CodeRedeemed")
    case True
    then have "db' = db" "k_redeemed_by k = u" "redemptionResultForRecord u k b now db = Inr r"
      using hash rec by (auto simp: redeem_hash_def split: if_splits sum.splits)
    then show thesis using that [OF code _ _ True] rec one any_time by blast
  next
    case False
    then have act: "k_status k = CodeActive" and ra: "redeem_active eid aid u k b ip now db = Inr (r, db')"
      using hash rec by (auto simp: redeem_hash_def split: if_splits)
    obtain db1 db2 t where c: "claim_code (k_id k) u now db = Inr db1"
      and ben: "redemption_benefit eid u k b now db1 = Inr db2" and db': "db' = db2\<lparr>audits := t\<rparr>"
      using ra by (blast elim: redeem_active_Inr)
    have ks: "codes db' = sql_update (\<lambda>x. k_id x = k_id k \<and> k_status x = CodeActive) (redeemed u now) (codes db)"
      "batches db' = batches db"
      using redemption_benefit_tables [OF ben] claim_code_Inr [OF c] db' by simp_all
    have "sql_first (\<lambda>k. k_code_hash k = h code) (codes db) = Some k" "sql_first (\<lambda>b. b_id b = k_batch_id k) (batches db) = Some b"
      using rec by (auto simp: redemption_record_def split: option.splits)
    then have rec': "redemption_record (h code) db' = Some (redeemed u now k, b)"
      using act by (simp add: redemption_record_def ks first_redeemed) (simp add: redeemed_def)
    obtain k' where res: "redemptionResultForRecord u k' b now db' = Inr r"
      using ra by (auto simp: redeem_active_def split: sum.splits)
    show thesis
      by (rule that [OF code rec']) (use one any_time [OF res] in \<open>simp_all add: ks count_redeemed redeemed_def\<close>)
  qed
qed

section \<open>Properties\<close>

text \<open>C16. A code survives the way people type it: whatever separators are left out, added or doubled
  and whatever letters are in lower case, a text with the letters of a printed code is read as that
  code, the printed form itself is such a text, and the mask stored with it shows its last four letters
  only.\<close>

theorem code_text_roundtrip:
  assumes "length bs = 16"
  shows "normalizeRedemptionCode (generateRedemptionCode bs) = Inr (code_letters bs) \<and>
    (\<forall>raw. typed_letters raw = typed_letters (generateRedemptionCode bs) \<longrightarrow>
       normalizeRedemptionCode raw = Inr (code_letters bs)) \<and>
    maskRedemptionCode (code_letters bs) = ''QT-****-****-****-'' @ drop 14 (code_letters bs)"
  using normalize_typed [OF assms] typed_generated [OF assms] assms
  by (simp add: maskRedemptionCode_def code_letters_def)

theorem code_text_roundtrip_witness:
  "generateRedemptionCode [0 ..< 16] = ''QT-2345-6789-ABCD-EFGH'' \<and>
   normalizeRedemptionCode '' qt 23456789-abcd--efgh'' = Inr ''QT23456789ABCDEFGH''"
proof -
  have g: "generateRedemptionCode [0 ..< 16] = ''QT-2345-6789-ABCD-EFGH''" by code_simp
  have t: "typed_letters '' qt 23456789-abcd--efgh'' = typed_letters (generateRedemptionCode [0 ..< 16])"
    "code_letters [0 ..< 16] = ''QT23456789ABCDEFGH''" by code_simp+
  show ?thesis using code_text_roundtrip [of "[0 ..< 16]"] g t by simp
qed

text \<open>C17. Generating a batch ends: once the random source has delivered as many different codes as the
  batch has, and as long as the encryption works, the loop returns that many codes with different
  hashes, and each reads back as the code whose hash is stored.\<close>

theorem batch_generation_completes:
  assumes "\<And>d. d \<in> set draws \<Longrightarrow> length (fst d) = 16" "\<And>n r. \<exists>p. seal n r = Inr p"
    "count \<le> card (draw_hash h ` set draws)"
  shows "\<exists>gs. generate_codes h seal count draws [] = Some (Inr gs) \<and> length gs = count \<and> distinct (map g_hash gs) \<and>
    (\<forall>g \<in> set gs. \<exists>code. normalizeRedemptionCode (g_raw g) = Inr code \<and> g_hash g = h code)"
proof -
  obtain gs where gs: "generate_codes h seal count draws [] = Some (Inr gs)" "length gs = count" "distinct (map g_hash gs)"
    "\<forall>g \<in> set gs. printed h g"
    using generate_codes_complete [where draws = draws and seal = seal and gs = "[]" and h = h and n = count] assms by auto
  have "\<exists>code. normalizeRedemptionCode (g_raw g) = Inr code \<and> g_hash g = h code" if "printed h g" for g
    using that normalize_typed typed_generated unfolding printed_def by metis
  then show ?thesis using gs by blast
qed

theorem batch_generation_completes_witness:
  "\<exists>gs. generate_codes (\<lambda>c. c) (\<lambda>n r. Inr (n @ r)) 2
      [(replicate 16 0, ''a'', ''x''), (replicate 16 32, ''b'', ''y''), (replicate 16 1, ''c'', ''z'')] [] = Some (Inr gs) \<and> length gs = 2"
proof -
  let ?draws = "[(replicate 16 0, ''a'', ''x''), (replicate 16 32, ''b'', ''y''), (replicate 16 1, ''c'', ''z'')] :: code_draw list"
  have "code_letters (replicate 16 0) \<noteq> code_letters (replicate 16 1)" by code_simp
  moreover have "code_letters (replicate 16 32) = code_letters (replicate 16 0)" by code_simp
  ultimately have "2 \<le> card (draw_hash (\<lambda>c. c) ` set ?draws)" by (simp add: card_insert_if)
  then show ?thesis using batch_generation_completes [of ?draws "\<lambda>n r. Inr (n @ r)" 2 "\<lambda>c. c"] by fastforce
qed

text \<open>C18. A code is worth its benefit once: after a redemption was answered, any other user who enters the
  code is refused without any change, at any time, and the redeemer who repeats the request gets an
  answer again, also without any change.\<close>

theorem code_redeemed_once:
  assumes "RedeemRedemptionCode h eid aid u raw ip now db = (Inr r, db')"
  shows "(u' \<noteq> u \<longrightarrow> RedeemRedemptionCode h eid' aid' u' raw ip' later db' = (Inl ErrRedemptionUnavailable, db')) \<and>
    (\<exists>r'. RedeemRedemptionCode h eid' aid' u raw ip' later db' = (Inr r', db'))"
  using assms
proof (cases rule: redeem_success)
  case (1 code k b)
  obtain r' where r': "redemptionResultForRecord u k b later db' = Inr r'" using 1(6) by blast
  have "redeem_hash eid' aid' u (h code) ip' later db' = Inr (r', db')"
    using 1(2-5) r' by (simp add: redeem_hash_def)
  moreover have "redeem_hash eid' aid' u' (h code) ip' later db' = Inl ErrRedemptionUnavailable" if "u' \<noteq> u"
    using 1(2-5) that by (simp add: redeem_hash_def)
  ultimately show ?thesis using 1(1) by (auto simp: RedeemRedemptionCode_def commit_def)
qed

definition code_demo :: cdb where
  "code_demo = empty_cdb\<lparr>
     users := [\<lparr>us_id = ''u'', us_email = ''e'', us_username = ''n'', us_password_hash = '''', us_status = UserActive,
       us_role = RoleUser, us_vip_plan = ''monthly'', us_vip_expires_at = 100, us_must_change_password = False,
       us_created_at = 0, us_verified_at = 1, us_last_login_at = 1\<rparr>],
     accounts := [\<lparr>a_user_id = ''u'', a_free_traffic_remaining = 0, a_free_traffic_period = '''', a_traffic_reserved_bytes = 0,
       a_points_balance = 0, a_updated_at = 0\<rparr>],
     batches := [\<lparr>b_id = ''b'', b_kind = ''traffic'', b_quantity = 1, b_traffic_bytes = 70, b_vip_plan = '''', b_vip_days = 0,
       b_status = BatchActive, b_expires_at = 0, b_note = '''', b_created_by = ''a'', b_created_at = 0, b_disabled_at = 0\<rparr>],
     codes := [\<lparr>k_id = ''k'', k_batch_id = ''b'', k_code_hash = ''QT2345678923456789'', k_masked_code = ''m'',
       k_protected_code = ''c'', k_status = CodeActive, k_redeemed_by = '''', k_redeemed_at = 0, k_created_at = 0\<rparr>]\<rparr>"

theorem code_redeemed_once_witness:
  "\<exists>r db'. RedeemRedemptionCode (\<lambda>c. c) ''x'' ''y'' ''u'' ''QT-2345-6789-2345-6789'' '''' 5 code_demo = (Inr r, db') \<and>
     r_TrafficBytes r = 70 \<and>
     RedeemRedemptionCode (\<lambda>c. c) ''x2'' ''y2'' ''v'' ''QT-2345-6789-2345-6789'' '''' 6 db' = (Inl ErrRedemptionUnavailable, db')"
proof -
  let ?op = "RedeemRedemptionCode (\<lambda>c. c) ''x'' ''y'' ''u'' ''QT-2345-6789-2345-6789'' '''' 5 code_demo"
  have "case fst ?op of Inl e \<Rightarrow> False | Inr r \<Rightarrow> r_TrafficBytes r = 70" by code_simp
  then obtain r where "fst ?op = Inr r" and b: "r_TrafficBytes r = 70" by (auto split: sum.splits)
  then have op: "?op = (Inr r, snd ?op)" by (metis prod.collapse)
  have "RedeemRedemptionCode (\<lambda>c. c) ''x2'' ''y2'' ''v'' ''QT-2345-6789-2345-6789'' '''' 6 (snd ?op) = (Inl ErrRedemptionUnavailable, snd ?op)"
    using code_redeemed_once [OF op, of "''v''" "''x2''" "''y2''" "''''" 6] by simp
  then show ?thesis using op b by blast
qed

text \<open>C19. A membership is never weakened: after a VIP benefit (bought or redeemed) the user's rank is at no
  later time lower than without it, for the days of the benefit it is at least the rank of the benefit,
  a lifetime membership is for all times, and no other user is touched.\<close>

theorem vip_benefit_only_extends:
  assumes "keyed us_id (users db)" "u \<in> set (users db)" "us_vip_plan u \<in> stored_plans"
    and "normalizeVIPBenefit p0 d0 = Inr (plan, days)" "applyVIPBenefitTx (us_id u) p0 d0 now db = Inr db'"
  shows "\<exists>u' \<in> set (users db'). us_id u' = us_id u \<and> us_vip_plan u' \<in> stored_plans \<and>
    (\<forall>t. now \<le> t \<longrightarrow> vip_rank_at u t \<le> vip_rank_at u' t) \<and>
    (\<forall>t. t < now + days * 86400 \<longrightarrow> vipPlanRank plan \<le> vip_rank_at u' t) \<and>
    (plan = ''lifetime'' \<longrightarrow> (\<forall>t. vip_rank_at u' t = 3)) \<and>
    (\<forall>x \<in> set (users db). us_id x \<noteq> us_id u \<longrightarrow> x \<in> set (users db'))"
proof -
  note rows = applyVIP_Inr [OF assms]
  let ?u = "vip_extended plan days now u"
  have "?u \<in> set (users db')"
    using sql_update_mem [OF assms(2), of "\<lambda>x. us_id x = us_id u" "vip_extended plan days now"] by (simp add: rows)
  moreover have "us_id ?u = us_id u" by (simp add: vip_extended_def)
  moreover have "x \<in> set (users db')" if "x \<in> set (users db)" "us_id x \<noteq> us_id u" for x
    using sql_update_keep [OF that(1), of "\<lambda>x. us_id x = us_id u"] that(2) by (simp add: rows)
  ultimately show ?thesis
    using vip_extended_rank [OF assms(3,4), where now = now] by (intro bexI [of _ ?u]) auto
qed

theorem vip_benefit_only_extends_witness:
  "\<exists>u' \<in> set (users (code_demo\<lparr>users := sql_update (\<lambda>x. us_id x = ''u'') (vip_extended ''yearly'' 365 50) (users code_demo)\<rparr>)).
     us_id u' = ''u'' \<and> 2 \<le> vip_rank_at u' (50 + 364 * 86400)"
proof -
  let ?db = "code_demo\<lparr>users := sql_update (\<lambda>x. us_id x = ''u'') (vip_extended ''yearly'' 365 50) (users code_demo)\<rparr>"
  let ?u = "hd (users code_demo)"
  have a: "keyed us_id (users code_demo)" "?u \<in> set (users code_demo)" "us_id ?u = ''u''"
    "normalizeVIPBenefit ''yearly'' 365 = Inr (''yearly'', 365)"
    by code_simp+
  have s: "us_vip_plan ?u \<in> stored_plans" by (simp add: code_demo_def stored_plans_def)
  have ok: "is_ok (applyVIPBenefitTx (us_id ?u) ''yearly'' 365 50 code_demo)" by code_simp
  then obtain db' where ok: "applyVIPBenefitTx (us_id ?u) ''yearly'' 365 50 code_demo = Inr db'"
    by (cases "applyVIPBenefitTx (us_id ?u) ''yearly'' 365 50 code_demo") auto
  have "db' = ?db" using applyVIP_Inr [OF a(1,2) s a(4) ok] a(3) by simp
  then show ?thesis using vip_benefit_only_extends [OF a(1,2) s a(4) ok] a(3) by auto
qed

end
