(* ===== verification/Identity_Properties.thy ===== *)
theory Identity_Properties
  imports Commerce_Ledger
begin

text \<open>
  Properties of accounts: the last administrator cannot be locked out, a verification code resists
  guessing, and changing credentials or blocking a user ends the sessions that used them.
\<close>

section \<open>The state machine of users\<close>

inductive identity_step :: "cdb \<Rightarrow> cdb \<Rightarrow> bool" where
  register: "CreatePendingUser cid sid usr h ex c db = (r, db') \<Longrightarrow> identity_step db db'"
| refresh: "RefreshPendingUser cid sid u h now ex c db = (r, db') \<Longrightarrow> identity_step db db'"
| verify: "VerifyUser check pid email code ph now risk db = (r2, db') \<Longrightarrow> identity_step db db'"
| reset_request: "CreatePasswordReset cid u h now ex db = (r, db') \<Longrightarrow> identity_step db db'"
| withdraw: "InvalidateVerificationCodes u purpose now db = (r, db') \<Longrightarrow> identity_step db db'"
| reset: "ResetPassword check email code ph now db = (r, db') \<Longrightarrow> identity_step db db'"
| change: "ChangeUserPassword sid aid u ph th csrf ip now ex db = (r, db') \<Longrightarrow> identity_step db db'"
| login: "createUserSession ids u th csrf now ex a vip db = (g, db') \<Longrightarrow> identity_step db db'"
| rename: "UpdateUsername u n db = (r, db') \<Longrightarrow> identity_step db db'"
| status: "SetUserStatus aid actor u st ip now db = (r, db') \<Longrightarrow> identity_step db db'"
| membership: "applyVIPBenefitTx u plan days now db = Inr db' \<Longrightarrow> identity_step db db'"
| cleanup: "CleanupIdentity now (db, limits) = (r, db', limits') \<Longrightarrow> identity_step db db'"

inductive identity_reachable :: "cdb \<Rightarrow> cdb \<Rightarrow> bool" for db0 where
  start: "identity_reachable db0 db0"
| more: "identity_reachable db0 db \<Longrightarrow> identity_step db db' \<Longrightarrow> identity_reachable db0 db'"

definition admin_inv :: "cdb \<Rightarrow> bool" where
  "admin_inv db \<longleftrightarrow> keyed us_id (users db) \<and> (\<exists>u \<in> set (users db). active_admin u)"

lemma admin_inv_cong: "users db' = users db \<Longrightarrow> admin_inv db' = admin_inv db"
  by (simp add: admin_inv_def)

lemma admin_inv_update:
  assumes "admin_inv db" "users db' = sql_update p f (users db)" "\<And>u. us_id (f u) = us_id u"
    "\<And>u. u \<in> set (users db) \<Longrightarrow> p u \<Longrightarrow> active_admin u \<Longrightarrow> active_admin (f u)"
  shows "admin_inv db'"
proof -
  obtain a where a: "a \<in> set (users db)" "active_admin a" using assms(1) by (auto simp: admin_inv_def)
  have "(if p a then f a else a) \<in> set (users db')" unfolding assms(2) using a(1) by (rule sql_update_mem)
  moreover have "active_admin (if p a then f a else a)" using assms(4) a by simp
  moreover have "keyed us_id (users db')" unfolding assms(2)
    using assms(1,3) by (intro keyed_update) (simp_all add: admin_inv_def)
  ultimately show ?thesis unfolding admin_inv_def by blast
qed

text \<open>An administrator is only blocked while another one is active.\<close>

lemma another_admin:
  assumes "keyed us_id (users db)" "u \<in> set (users db)" "active_admin u" "sql_count active_admin (users db) > 1"
  shows "\<exists>a \<in> set (users db). active_admin a \<and> us_id a \<noteq> us_id u"
proof (rule ccontr)
  assume "\<not> (\<exists>a \<in> set (users db). active_admin a \<and> us_id a \<noteq> us_id u)"
  then have "sql_count active_admin (users db) = sql_count (\<lambda>a. us_id a = us_id u \<and> active_admin a) (users db)"
    by (intro sql_count_cong) auto
  also have "\<dots> \<le> 1" using assms(1) by (rule keyed_count_le_1)
  finally show False using assms(4) by simp
qed

section \<open>What each operation does to the users\<close>

lemma audit_users: "insertAuditTx i u a tt ti d ip now db1 = Inr db2 \<Longrightarrow> users db2 = users db1"
  by (auto dest!: insertAudit_Inr)

lemma code_users: "insert_code i u p h now x db1 = Inr db2 \<Longrightarrow> users db2 = users db1"
  by (auto simp: insert_code_def split: sum.splits if_splits)

lemma account_users: "insert_account u now db1 = Inr db2 \<Longrightarrow> users db2 = users db1"
  by (auto simp: insert_account_def split: sum.splits)

lemma consent_users: "add_consent i u c db1 = Inr db2 \<Longrightarrow> users db2 = users db1"
  by (auto simp: add_consent_def insertConsentTx_def split: option.splits sum.splits if_splits)

lemma session_users: "insert_session i u t c now x db1 = Inr db2 \<Longrightarrow> users db2 = users db1"
  by (auto simp: insert_session_def split: if_splits)

lemma bucket_users: "registration_buckets bs now db1 = Inr db2 \<Longrightarrow> users db2 = users db1"
  by (induction bs now db1 rule: registration_buckets.induct)
    (auto simp: allowBucketTx_def Let_def split: sum.splits if_splits option.splits)

lemma risk_users: "registration_risk risk now db1 = Inr db2 \<Longrightarrow> users db2 = users db1"
  by (auto simp: registration_risk_def simp del: registration_buckets.simps split: option.splits dest: bucket_users)

lemma vip_grant_users: "grantVIPDailyLoginTrafficTx gid eid aid u ip now db = Inr (g, db') \<Longrightarrow> users db' = users db"
  by (auto simp: grantVIPDailyLoginTrafficTx_def insert_vip_grant_def Let_def split: if_splits sum.splits prod.splits option.splits
      dest!: insertAudit_Inr grant_entitlement_Inr(3))

lemma code_tables_users [simp]:
  "users (set_code i f db) = users db" "users (miss_code i db) = users db" "users (consume_code i now db) = users db"
  "users (consume_codes u now db) = users db" "users (revoke_sessions u now db) = users db"
  by (simp_all add: set_code_def miss_code_def consume_code_def consume_codes_def revoke_sessions_def)

lemmas users_kept = audit_users code_users account_users consent_users session_users risk_users vip_grant_users

lemma register_admin:
  assumes "admin_inv db" "CreatePendingUser cid sid u h ex c db = (r, db')"
  shows "admin_inv db'"
proof -
  have "users db' = users db \<or> us_id u \<notin> us_id ` set (users db) \<and> users db' = users db @ [pending_user u]"
    using assms(2) by (auto simp: CreatePendingUser_def Let_def sql_exists_iff split: if_splits sum.splits dest!: users_kept)
  moreover have "us_id (pending_user u) = us_id u" by (simp add: pending_user_def)
  ultimately show ?thesis using assms(1) by (auto simp: admin_inv_def keyed_append)
qed

lemma verify_admin:
  assumes inv: "admin_inv db" and op: "VerifyUser check pid email code ph now risk db = (r, db')"
  shows "admin_inv db'"
proof (cases "users db' = users db")
  case False
  then obtain u v db1 where risk: "registration_risk risk now db = Inr db1" and a: "activate_user pid u v ph now db1 = Inr db'"
    using op by (auto simp: VerifyUser_def commit_def split: option.splits if_splits sum.splits)
  let ?p = "\<lambda>x. us_id x = us_id u \<and> us_status x = UserPending"
  let ?f = "\<lambda>x. x\<lparr>us_status := UserActive, us_verified_at := now, us_password_hash := ph\<rparr>"
  have "users db' = sql_update ?p ?f (users db)"
    using a risk_users [OF risk] by (auto simp: activate_user_def Let_def split: if_splits dest!: addPoints_frame(5))
  with inv show ?thesis by (rule admin_inv_update) (auto simp: active_admin_def)
qed (use inv in \<open>simp add: admin_inv_def\<close>)

lemma reset_admin:
  assumes inv: "admin_inv db" and op: "ResetPassword check email code ph now db = (r, db')"
  shows "admin_inv db'"
proof (cases "users db' = users db")
  case False
  then obtain i where "users db' = sql_update (\<lambda>u. us_id u = i) (\<lambda>u. u\<lparr>us_password_hash := ph\<rparr>) (users db)"
    using op by (auto simp: ResetPassword_def split: option.splits if_splits)
  with inv show ?thesis by (rule admin_inv_update) (auto simp: active_admin_def)
qed (use inv in \<open>simp add: admin_inv_def\<close>)

lemma change_admin:
  assumes inv: "admin_inv db" and op: "ChangeUserPassword sid aid u ph th csrf ip now ex db = (r, db')"
  shows "admin_inv db'"
proof (cases "users db' = users db")
  case False
  then have "users db' = sql_update (\<lambda>x. us_id x = u \<and> us_status x = UserActive)
      (\<lambda>x. x\<lparr>us_password_hash := ph, us_must_change_password := False\<rparr>) (users db)"
    using op by (auto simp: ChangeUserPassword_def Let_def split: if_splits sum.splits dest!: users_kept)
  with inv show ?thesis by (rule admin_inv_update) (auto simp: active_admin_def)
qed (use inv in \<open>simp add: admin_inv_def\<close>)

lemma login_admin:
  assumes inv: "admin_inv db" and op: "createUserSession ids u th csrf now ex a vip db = (r, db')"
  shows "admin_inv db'"
proof (cases "users db' = users db")
  case False
  then have "users db' = sql_update (\<lambda>x. us_id x = u) (\<lambda>x. x\<lparr>us_last_login_at := now\<rparr>) (users db)"
    using op by (auto simp: createUserSession_def commit_def login_grant_def login_audit_def
        split: if_splits sum.splits prod.splits dest!: users_kept)
  with inv show ?thesis by (rule admin_inv_update) (auto simp: active_admin_def)
qed (use inv in \<open>simp add: admin_inv_def\<close>)

lemma rename_admin:
  assumes inv: "admin_inv db" and op: "UpdateUsername u n db = (r, db')"
  shows "admin_inv db'"
proof (cases "users db' = users db")
  case False
  then have "users db' = sql_update (\<lambda>x. us_id x = u) (\<lambda>x. x\<lparr>us_username := n\<rparr>) (users db)"
    using op by (auto simp: UpdateUsername_def split: if_splits)
  with inv show ?thesis by (rule admin_inv_update) (auto simp: active_admin_def)
qed (use inv in \<open>simp add: admin_inv_def\<close>)

lemma membership_admin:
  assumes inv: "admin_inv db" and op: "applyVIPBenefitTx u p d now db = Inr db'"
  shows "admin_inv db'"
  using applyVIP_set_vip [OF op]
proof (elim disjE exE)
  fix plan y assume "set_vip u plan y db = Inr db'"
  then have "users db' = sql_update (\<lambda>x. us_id x = u) (\<lambda>x. x\<lparr>us_vip_plan := plan, us_vip_expires_at := y\<rparr>) (users db)"
    by (auto dest: set_vip_Inr)
  with inv show ?thesis by (rule admin_inv_update) (auto simp: active_admin_def)
qed (use inv in simp)

lemma SetUserStatus_Inr:
  assumes "SetUserStatus aid actor i st ip now db = (Inr x, db')"
  obtains u t where "u \<in> set (users db)" "us_id u = i" "validateUserStatusChange actor i st db = Inr ()"
    "db' = (let db1 = db\<lparr>users := sql_update (\<lambda>u. us_id u = i) (\<lambda>u. u\<lparr>us_status := st\<rparr>) (users db)\<rparr>
            in if st = UserBlocked then consume_codes i now (revoke_sessions i now db1) else db1)\<lparr>audits := t\<rparr>"
proof -
  have v: "validateUserStatusChange actor i st db = Inr ()"
    using assms by (auto simp: SetUserStatus_def split: sum.splits)
  then obtain u where u: "sql_first (\<lambda>u. us_id u = i) (users db) = Some u"
    by (auto simp: validateUserStatusChange_def split: option.splits if_splits)
  have "set_user_status aid actor i st ip now db = Inr (x, db')"
    using assms v by (simp add: SetUserStatus_def commit_fst_Inr)
  then obtain db3 where "insertAuditTx aid actor ''admin.user-status'' ''user'' i (status_name st) ip now
     (let db1 = db\<lparr>users := sql_update (\<lambda>u. us_id u = i) (\<lambda>u. u\<lparr>us_status := st\<rparr>) (users db)\<rparr>
      in if st = UserBlocked then consume_codes i now (revoke_sessions i now db1) else db1) = Inr db3" "db' = db3"
    by (auto simp: set_user_status_def Let_def v split: if_splits sum.splits)
  then show ?thesis using insertAudit_Inr sql_firstD [OF u] that [OF _ _ v] by blast
qed

lemma status_admin:
  assumes inv: "admin_inv db" and op: "SetUserStatus aid actor i st ip now db = (r, db')"
  shows "admin_inv db'"
proof (cases r)
  case (Inl e)
  then show ?thesis using op inv by (auto simp: SetUserStatus_def commit_fst_Inl split: sum.splits)
next
  case (Inr x)
  from op [unfolded Inr] show ?thesis
  proof (cases rule: SetUserStatus_Inr)
    case (1 u t)
    have us: "users db' = sql_update (\<lambda>u. us_id u = i) (\<lambda>u. u\<lparr>us_status := st\<rparr>) (users db)" by (simp add: 1(4) Let_def)
    have keys: "keyed us_id (users db)" using inv by (simp add: admin_inv_def)
    have first: "sql_first (\<lambda>u. us_id u = i) (users db) = Some u" using keyed_first [OF keys 1(1)] 1(2) by simp
    show ?thesis
    proof (cases "st = UserBlocked \<and> active_admin u")
      case True
      then have "sql_count active_admin (users db) > 1"
        using 1(3) first by (auto simp: validateUserStatusChange_def split: if_splits)
      then obtain a where a: "a \<in> set (users db)" "active_admin a" "us_id a \<noteq> i"
        using another_admin [OF keys 1(1)] True 1(2) by auto
      have "a \<in> set (users db')" unfolding us using a by (intro sql_update_keep) auto
      moreover have "keyed us_id (users db')" unfolding us using keys by (intro keyed_update) simp_all
      ultimately show ?thesis using a(2) unfolding admin_inv_def by blast
    next
      case False
      then have "st \<noteq> UserPending" using 1(3) by (auto simp: validateUserStatusChange_def split: if_splits)
      have act: "active_admin (x\<lparr>us_status := st\<rparr>)" if "x \<in> set (users db)" "us_id x = i" "active_admin x" for x
      proof -
        have "x = u" using keyed_unique [OF keys that(1) 1(1)] that(2) 1(2) by simp
        then have "st = UserActive" using False that(3) \<open>st \<noteq> UserPending\<close> by (cases st) simp_all
        then show ?thesis using that(3) by (simp add: active_admin_def)
      qed
      show ?thesis by (rule admin_inv_update [OF inv us]) (use act in simp_all)
    qed
  qed
qed

lemma cleanup_admin:
  assumes inv: "admin_inv db" and op: "CleanupIdentity now (db, limits) = (r, db', limits')"
  shows "admin_inv db'"
proof (cases "users db' = users db")
  case False
  then have us: "users db' = sql_delete (\<lambda>u. us_id u \<in> us_id ` set (filter (stale_pending now) (users db))) (users db)"
    using op by (auto simp: CleanupIdentity_def Let_def delete_users_def split: if_splits)
  obtain a where a: "a \<in> set (users db)" "active_admin a" using inv by (auto simp: admin_inv_def)
  have keys: "keyed us_id (users db)" using inv by (simp add: admin_inv_def)
  have "us_id a \<notin> us_id ` set (filter (stale_pending now) (users db))"
  proof
    assume "us_id a \<in> us_id ` set (filter (stale_pending now) (users db))"
    then obtain x where "x \<in> set (users db)" "stale_pending now x" "us_id x = us_id a" by auto
    then have "stale_pending now a" using keyed_unique [OF keys _ a(1)] by metis
    then show False using a(2) by (simp add: stale_pending_def active_admin_def)
  qed
  then have "a \<in> set (users db')" using a(1) by (simp add: us sql_delete_def)
  moreover have "keyed us_id (users db')" using keys by (simp add: us keyed_delete)
  ultimately show ?thesis using a(2) unfolding admin_inv_def by blast
qed (use inv in \<open>simp add: admin_inv_def\<close>)

lemma plain_admin:
  "RefreshPendingUser cid sid u h now ex c db = (r, db') \<Longrightarrow> admin_inv db \<Longrightarrow> admin_inv db'"
  "CreatePasswordReset cid u h now ex db = (r, db') \<Longrightarrow> admin_inv db \<Longrightarrow> admin_inv db'"
  "InvalidateVerificationCodes u purpose now db = (r, db') \<Longrightarrow> admin_inv db \<Longrightarrow> admin_inv db'"
  by (auto simp: RefreshPendingUser_def CreatePasswordReset_def InvalidateVerificationCodes_def admin_inv_def
      split: option.splits if_splits sum.splits dest!: users_kept)

lemma identity_step_admin: "identity_step db db' \<Longrightarrow> admin_inv db \<Longrightarrow> admin_inv db'"
  by (induction rule: identity_step.induct)
    (blast intro: plain_admin register_admin verify_admin reset_admin change_admin login_admin rename_admin status_admin
      membership_admin cleanup_admin)+

lemma identity_reachable_admin: "identity_reachable db0 db \<Longrightarrow> admin_inv db0 \<Longrightarrow> admin_inv db"
  by (induction rule: identity_reachable.induct) (auto intro: identity_step_admin)

section \<open>Guessing a verification code\<close>

abbreviation open_code_of :: "ident \<Rightarrow> verification_code \<Rightarrow> bool" where
  "open_code_of i v \<equiv> vc_user_id v = i \<and> vc_purpose v = PurposeVerify \<and> vc_consumed_at v = 0"

lemma risk_error: "registration_risk risk now db \<noteq> Inl ErrUnauthorized"
proof -
  have "registration_buckets bs now db \<noteq> Inl ErrUnauthorized" for bs
  proof (induction bs arbitrary: db)
    case (Cons b bs)
    obtain key limit where b: "b = (key, limit)" by (cases b)
    have "allowBucketTx key limit (24 * 3600) 1 0 0 now db \<noteq> Inl ErrUnauthorized"
      by (simp add: allowBucketTx_def Let_def split: option.splits)
    then show ?case using Cons by (auto simp: b split: sum.splits)
  qed simp
  then show ?thesis by (simp add: registration_risk_def del: registration_buckets.simps split: option.splits)
qed

lemma activate_error: "activate_user pid u i ph now db \<noteq> Inl ErrUnauthorized"
  by (simp add: activate_user_def addPointsTx_def Let_def split: option.splits)

lemma VerifyUser_cases:
  assumes op: "VerifyUser check pid email code ph now risk db = (r, db')"
  obtains (refused) "db' = db" "r \<noteq> Inl ErrUnauthorized"
  | (wrong) u v where "sql_first (\<lambda>u. nocase (us_email u) email) (users db) = Some u" "us_status u = UserPending"
      "latest_code (open_code_of (us_id u)) db = Some v" "vc_attempts v < 5" "r = Inl ErrUnauthorized" "db' = miss_code (vc_id v) db"
  | (right) u i db1 where "sql_first (\<lambda>u. nocase (us_email u) email) (users db) = Some u" "us_status u = UserPending"
      "registration_risk risk now db = Inr db1" "activate_user pid u i ph now db1 = Inr db'" "r \<noteq> Inl ErrUnauthorized"
proof (cases "\<exists>u v. sql_first (\<lambda>u. nocase (us_email u) email) (users db) = Some u \<and> us_status u = UserPending \<and>
    latest_code (open_code_of (us_id u)) db = Some v \<and> \<not> (vc_expires_at v \<le> now \<or> vc_attempts v \<ge> 5)")
  case False
  then have "(r, db') = (Inl ErrNotFound, db) \<or> (r, db') = (Inl ErrConflict, db)"
    using op by (simp add: VerifyUser_def split: option.splits if_splits)
  then show thesis using refused by auto
next
  case True
  then obtain u v where u: "sql_first (\<lambda>u. nocase (us_email u) email) (users db) = Some u" "us_status u = UserPending"
    and v: "latest_code (open_code_of (us_id u)) db = Some v" "\<not> (vc_expires_at v \<le> now \<or> vc_attempts v \<ge> 5)" by blast
  show thesis
  proof (cases "check (vc_code_hash v) code")
    case False
    then show thesis using op u v by (intro wrong [OF u v(1)]) (simp_all add: VerifyUser_def)
  next
    case ok: True
    show thesis
    proof (cases "registration_risk risk now db")
      case (Inl e)
      then have "r = Inl e" "db' = db" using op u v ok by (simp_all add: VerifyUser_def)
      then show thesis using refused Inl risk_error [of risk now db] by auto
    next
      case risk: (Inr db1)
      show thesis
      proof (cases "activate_user pid u (vc_id v) ph now db1")
        case (Inl e)
        then have "r = Inl e" "db' = db" using op u v ok risk by (simp_all add: VerifyUser_def)
        then show thesis using refused Inl activate_error [of pid u "vc_id v" ph now db1] by auto
      next
        case (Inr db2)
        then have "db' = db2" "r = Inr (u\<lparr>us_status := UserActive, us_verified_at := now\<rparr>)"
          using op u v ok risk by (simp_all add: VerifyUser_def)
        then show thesis using right [OF u risk] Inr by simp
      qed
    qed
  qed
qed

text \<open>All operations on accounts, as values.\<close>

datatype identity_op =
  OpRegister ident ident user string unix_time "ConsentEvidence option"
| OpResend ident ident ident string unix_time unix_time "ConsentEvidence option"
| OpVerify ident string string string unix_time "RegistrationSuccessRisk option"
| OpForgot ident ident string unix_time unix_time
| OpWithdraw ident code_purpose unix_time
| OpReset string string string unix_time
| OpChange ident ident ident string string string string unix_time unix_time
| OpLogin login_ids ident string string unix_time unix_time audit_spec bool
| OpRename ident string
| OpStatus ident ident ident user_status string unix_time
| OpBenefit ident string int unix_time
| OpCleanup unix_time

fun identity_exec :: "(string \<Rightarrow> string \<Rightarrow> bool) \<Rightarrow> identity_op \<Rightarrow> cdb \<Rightarrow> cdb" where
  "identity_exec check (OpRegister cid sid u h ex c) db = snd (CreatePendingUser cid sid u h ex c db)"
| "identity_exec check (OpResend cid sid u h now ex c) db = snd (RefreshPendingUser cid sid u h now ex c db)"
| "identity_exec check (OpVerify pid email code ph now risk) db = snd (VerifyUser check pid email code ph now risk db)"
| "identity_exec check (OpForgot cid u h now ex) db = snd (CreatePasswordReset cid u h now ex db)"
| "identity_exec check (OpWithdraw u purpose now) db = snd (InvalidateVerificationCodes u purpose now db)"
| "identity_exec check (OpReset email code ph now) db = snd (ResetPassword check email code ph now db)"
| "identity_exec check (OpChange sid aid u ph th csrf ip now ex) db = snd (ChangeUserPassword sid aid u ph th csrf ip now ex db)"
| "identity_exec check (OpLogin ids u th csrf now ex a vip) db = snd (createUserSession ids u th csrf now ex a vip db)"
| "identity_exec check (OpRename u n) db = snd (UpdateUsername u n db)"
| "identity_exec check (OpStatus aid actor u st ip now) db = snd (SetUserStatus aid actor u st ip now db)"
| "identity_exec check (OpBenefit u plan days now) db = (case applyVIPBenefitTx u plan days now db of Inl _ \<Rightarrow> db | Inr db' \<Rightarrow> db')"
| "identity_exec check (OpCleanup now) db = fst (snd (CleanupIdentity now (db, [])))"

text \<open>A wrong code was compared with a code of this user; a new code was stored for this user.\<close>

fun wrong_code :: "(string \<Rightarrow> string \<Rightarrow> bool) \<Rightarrow> ident \<Rightarrow> identity_op \<Rightarrow> cdb \<Rightarrow> nat" where
  "wrong_code check i (OpVerify pid email code ph now risk) db =
     (if fst (VerifyUser check pid email code ph now risk db) = Inl ErrUnauthorized \<and>
         map_option us_id (sql_first (\<lambda>u. nocase (us_email u) email) (users db)) = Some i then 1 else 0)"
| "wrong_code check i (OpReset email code ph now) db =
     (if fst (ResetPassword check email code ph now db) = Inl ErrUnauthorized \<and>
         map_option vc_user_id (reset_code email db) = Some i then 1 else 0)"
| "wrong_code check i _ db = 0"

fun new_code :: "ident \<Rightarrow> identity_op \<Rightarrow> cdb \<Rightarrow> nat" where
  "new_code i (OpRegister cid sid u h ex c) db = (if is_ok (fst (CreatePendingUser cid sid u h ex c db)) \<and> us_id u = i then 1 else 0)"
| "new_code i (OpResend cid sid u h now ex c) db = (if is_ok (fst (RefreshPendingUser cid sid u h now ex c db)) \<and> u = i then 1 else 0)"
| "new_code i (OpForgot cid u h now ex) db = (if is_ok (fst (CreatePasswordReset cid u h now ex db)) \<and> u = i then 1 else 0)"
| "new_code i _ db = 0"

fun wrong_codes :: "(string \<Rightarrow> string \<Rightarrow> bool) \<Rightarrow> ident \<Rightarrow> identity_op list \<Rightarrow> cdb \<Rightarrow> nat" where
  "wrong_codes check i [] db = 0"
| "wrong_codes check i (op # ops) db = wrong_code check i op db + wrong_codes check i ops (identity_exec check op db)"

fun new_codes :: "(string \<Rightarrow> string \<Rightarrow> bool) \<Rightarrow> ident \<Rightarrow> identity_op list \<Rightarrow> cdb \<Rightarrow> nat" where
  "new_codes check i [] db = 0"
| "new_codes check i (op # ops) db = new_code i op db + new_codes check i ops (identity_exec check op db)"

text \<open>The wrong answers that the stored codes of a user still take.\<close>

definition guesses_in :: "ident \<Rightarrow> verification_code list \<Rightarrow> nat" where
  "guesses_in i t = sum_list (map (\<lambda>v. if vc_user_id v = i then nat (5 - vc_attempts v) else 0) t)"

definition guesses_left :: "ident \<Rightarrow> cdb \<Rightarrow> nat" where
  "guesses_left i db = guesses_in i (verification_codes db)"

lemma guesses_update:
  assumes "\<And>v. vc_user_id (f v) = vc_user_id v" "\<And>v. vc_attempts v \<le> vc_attempts (f v)"
  shows "guesses_in i (sql_update p f t) \<le> guesses_in i t"
proof (induction t)
  case (Cons v t)
  have "nat (5 - vc_attempts (f v)) \<le> nat (5 - vc_attempts v)" using assms(2) [of v] by simp
  then show ?case using Cons assms(1) [of v] by (simp add: guesses_in_def sql_update_def)
qed (simp add: guesses_in_def sql_update_def)

lemma guesses_delete: "guesses_in i (sql_delete p t) \<le> guesses_in i t"
  by (induction t) (simp_all add: guesses_in_def sql_delete_def)

lemma guesses_append: "guesses_in i (t @ [v]) = guesses_in i t + (if vc_user_id v = i then nat (5 - vc_attempts v) else 0)"
  by (simp add: guesses_in_def)

lemma guesses_miss:
  assumes "v \<in> set t" "vc_user_id v = i" "vc_attempts v < 5"
  shows "guesses_in i (sql_update (\<lambda>x. vc_id x = vc_id v) (\<lambda>x. x\<lparr>vc_attempts := vc_attempts x + 1\<rparr>) t) < guesses_in i t"
  using assms(1)
proof (induction t)
  case (Cons x t)
  let ?f = "\<lambda>x. x\<lparr>vc_attempts := vc_attempts x + 1\<rparr>" and ?p = "\<lambda>x. vc_id x = vc_id v"
  have le: "guesses_in i (sql_update ?p ?f t) \<le> guesses_in i t" by (rule guesses_update) simp_all
  have split: "guesses_in i (sql_update ?p ?f (x # t)) = guesses_in i (sql_update ?p ?f [x]) + guesses_in i (sql_update ?p ?f t)"
    "guesses_in i (x # t) = guesses_in i [x] + guesses_in i t" by (simp_all add: guesses_in_def sql_update_def)
  show ?case
  proof (cases "x = v")
    case True
    have "guesses_in i (sql_update ?p ?f [x]) < guesses_in i [x]" using True assms(2,3) by (simp add: guesses_in_def sql_update_def)
    then show ?thesis unfolding split using le by linarith
  next
    case False
    then have "guesses_in i (sql_update ?p ?f t) < guesses_in i t" using Cons by simp
    moreover have "guesses_in i (sql_update ?p ?f [x]) \<le> guesses_in i [x]" by (rule guesses_update) simp_all
    ultimately show ?thesis unfolding split by linarith
  qed
qed simp

lemma miss_guesses:
  assumes "latest_code p db = Some v" "vc_attempts v < 5"
  shows "guesses_left i (miss_code (vc_id v) db) + (if vc_user_id v = i then 1 else 0) \<le> guesses_left i db"
proof (cases "vc_user_id v = i")
  case True
  have "v \<in> set (verification_codes db)" using assms(1) by (auto simp: latest_code_def dest!: sql_firstD)
  from guesses_miss [OF this True assms(2)] True show ?thesis by (simp add: guesses_left_def miss_code_def set_code_def)
next
  case False
  have "guesses_left i (miss_code (vc_id v) db) \<le> guesses_left i db"
    unfolding guesses_left_def miss_code_def set_code_def using guesses_update by simp
  then show ?thesis using False by simp
qed

text \<open>The other statements keep the codes, or only close and delete them.\<close>

lemma insert_code_guesses:
  assumes "insert_code cid u purpose h now ex db = Inr db'"
  shows "guesses_left i db' = guesses_left i db + (if u = i then 5 else 0)"
  using assms by (auto simp: insert_code_def sql_insert_Inr guesses_left_def guesses_append split: sum.splits if_splits)

lemma codes_kept:
  "insertAuditTx aid u a tt ti d ip now db1 = Inr db2 \<Longrightarrow> verification_codes db2 = verification_codes db1"
  "insert_account u now db1 = Inr db2 \<Longrightarrow> verification_codes db2 = verification_codes db1"
  "add_consent sid u c db1 = Inr db2 \<Longrightarrow> verification_codes db2 = verification_codes db1"
  "insert_session sid u t csrf now x db1 = Inr db2 \<Longrightarrow> verification_codes db2 = verification_codes db1"
  "addPointsTx pid u delta reason k now db1 = Inr db2 \<Longrightarrow> verification_codes db2 = verification_codes db1"
  by (auto simp: insertAuditTx_def insert_account_def add_consent_def insertConsentTx_def insert_session_def addPointsTx_def Let_def
      split: option.splits sum.splits if_splits)

lemma bucket_codes: "registration_buckets bs now db1 = Inr db2 \<Longrightarrow> verification_codes db2 = verification_codes db1"
  by (induction bs now db1 rule: registration_buckets.induct)
    (auto simp: allowBucketTx_def Let_def split: sum.splits if_splits option.splits)

lemma risk_codes: "registration_risk risk now db1 = Inr db2 \<Longrightarrow> verification_codes db2 = verification_codes db1"
  by (auto simp: registration_risk_def simp del: registration_buckets.simps split: option.splits dest: bucket_codes)

lemma vip_grant_codes: "grantVIPDailyLoginTrafficTx gid eid aid u ip now db = Inr (g, db') \<Longrightarrow> verification_codes db' = verification_codes db"
  by (auto simp: grantVIPDailyLoginTrafficTx_def insert_vip_grant_def Let_def split: if_splits sum.splits prod.splits option.splits
      dest!: insertAudit_Inr grant_entitlement_Inr(3))

lemma revoke_codes [simp]: "verification_codes (revoke_sessions u now db) = verification_codes db"
  by (simp add: revoke_sessions_def)

lemma close_guesses:
  "guesses_left i (consume_codes u now db) \<le> guesses_left i db" "guesses_left i (consume_code c now db) \<le> guesses_left i db"
  by (simp_all add: guesses_left_def consume_codes_def consume_code_def set_code_def guesses_update)

lemma guesses_left_cong: "verification_codes db' = verification_codes db \<Longrightarrow> guesses_left i db' = guesses_left i db"
  by (simp add: guesses_left_def)

lemma register_guesses:
  "guesses_left i (snd (CreatePendingUser cid sid u h ex c db)) =
   guesses_left i db + (if is_ok (fst (CreatePendingUser cid sid u h ex c db)) \<and> us_id u = i then 5 else 0)"
proof -
  have "guesses_left i db' = guesses_left i db + (if us_id u = i then 5 else 0)"
    if "insert_code cid (us_id u) PurposeVerify h (us_created_at u) ex (db\<lparr>users := us\<rparr>) = Inr db1"
      "insert_account (us_id u) (us_created_at u) db1 = Inr db2" "add_consent sid (us_id u) c db2 = Inr db'" for us db1 db2 db'
    using insert_code_guesses [OF that(1), of i] codes_kept(2) [OF that(2)] codes_kept(3) [OF that(3)] by (simp add: guesses_left_def)
  then show ?thesis by (auto simp: CreatePendingUser_def Let_def split: sum.splits)
qed

lemma resend_guesses:
  "guesses_left i (snd (RefreshPendingUser cid sid u h now ex c db)) \<le>
   guesses_left i db + (if is_ok (fst (RefreshPendingUser cid sid u h now ex c db)) \<and> u = i then 5 else 0)"
proof -
  let ?t = "sql_update (\<lambda>v. vc_user_id v = u \<and> vc_purpose v = PurposeVerify \<and> vc_consumed_at v = 0)
    (\<lambda>v. v\<lparr>vc_consumed_at := now\<rparr>) (verification_codes db)"
  have "guesses_left i db' \<le> guesses_left i db + (if u = i then 5 else 0)"
    if "insert_code cid u PurposeVerify h now ex (db\<lparr>verification_codes := ?t\<rparr>) = Inr db1" "add_consent sid u c db1 = Inr db'" for db1 db'
    using insert_code_guesses [OF that(1), of i] codes_kept(3) [OF that(2)]
      guesses_update [of "\<lambda>v. v\<lparr>vc_consumed_at := now\<rparr>" i _ "verification_codes db"] by (simp add: guesses_left_def)
  then show ?thesis by (auto simp: RefreshPendingUser_def split: option.splits sum.splits)
qed

lemma forgot_guesses:
  "guesses_left i (snd (CreatePasswordReset cid u h now ex db)) =
   guesses_left i db + (if is_ok (fst (CreatePasswordReset cid u h now ex db)) \<and> u = i then 5 else 0)"
  by (cases "insert_code cid u PurposeReset h now ex db") (simp_all add: CreatePasswordReset_def insert_code_guesses)

lemma verify_guesses:
  "guesses_left i (identity_exec check (OpVerify pid email code ph now risk) db) + wrong_code check i (OpVerify pid email code ph now risk) db
   \<le> guesses_left i db"
proof -
  obtain r db' where op: "VerifyUser check pid email code ph now risk db = (r, db')" by fastforce
  from op show ?thesis
  proof (cases rule: VerifyUser_cases)
    case refused
    then show ?thesis by (simp add: op)
  next
    case (wrong u v)
    have "vc_user_id v = us_id u" using wrong(3) by (auto simp: latest_code_def dest!: sql_firstD)
    then show ?thesis using miss_guesses [OF wrong(3,4), of i] wrong(1,5,6) by (simp add: op)
  next
    case (right u c db1)
    have "guesses_left i db' = guesses_left i (consume_code c now db1)"
      using right(4) by (intro guesses_left_cong) (auto simp: activate_user_def Let_def split: if_splits dest!: codes_kept(5))
    also have "\<dots> \<le> guesses_left i db1" by (rule close_guesses)
    also have "\<dots> = guesses_left i db" by (rule guesses_left_cong [OF risk_codes [OF right(3)]])
    finally show ?thesis using right(5) by (simp add: op)
  qed
qed

lemma reset_guesses:
  "guesses_left i (identity_exec check (OpReset email code ph now) db) + wrong_code check i (OpReset email code ph now) db \<le> guesses_left i db"
proof (cases "reset_code email db")
  case None
  then show ?thesis by (simp add: ResetPassword_def)
next
  case (Some v)
  have "guesses_left i (revoke_sessions u now ((consume_code c now db)\<lparr>users := us\<rparr>)) \<le> guesses_left i db" for u c us
    using close_guesses(2) [of i c now db] by (simp add: guesses_left_def)
  then show ?thesis using miss_guesses [of _ db v i] Some by (auto simp: ResetPassword_def reset_code_def)
qed

lemma change_guesses: "guesses_left i (snd (ChangeUserPassword sid aid u ph th csrf ip now ex db)) \<le> guesses_left i db"
proof -
  have "guesses_left i db' \<le> guesses_left i db"
    if "insert_session sid u th csrf now ex (revoke_sessions u now (db\<lparr>users := us\<rparr>)) = Inr db1"
      "insertAuditTx aid u a tt ti d ip now (consume_codes u now db1) = Inr db'" for us db1 db' a tt ti d
    using close_guesses(1) [of i u now db1] codes_kept(4) [OF that(1)] codes_kept(1) [OF that(2)] by (simp add: guesses_left_def)
  then show ?thesis by (auto simp: ChangeUserPassword_def Let_def split: sum.splits)
qed

lemma login_guesses: "guesses_left i (snd (createUserSession ids u th csrf now ex a vip db)) = guesses_left i db"
  by (rule guesses_left_cong) (auto simp: createUserSession_def commit_def login_grant_def login_audit_def
      split: if_splits sum.splits prod.splits dest!: codes_kept(1,4) vip_grant_codes)

lemma status_guesses: "guesses_left i (snd (SetUserStatus aid actor u st ip now db)) \<le> guesses_left i db"
proof -
  have "guesses_left i db' \<le> guesses_left i db"
    if "insertAuditTx aid actor a tt ti d ip now (if st = UserBlocked then consume_codes u now (revoke_sessions u now (db\<lparr>users := us\<rparr>))
        else db\<lparr>users := us\<rparr>) = Inr db'" for us db' a tt ti d
    using close_guesses(1) [of i u now "revoke_sessions u now (db\<lparr>users := us\<rparr>)"] codes_kept(1) [OF that]
    by (simp add: guesses_left_def split: if_splits)
  then show ?thesis by (auto simp: SetUserStatus_def set_user_status_def commit_def Let_def split: sum.splits if_splits)
qed

lemma plain_guesses:
  "guesses_left i (snd (UpdateUsername u n db)) = guesses_left i db"
  "guesses_left i (snd (InvalidateVerificationCodes u purpose now db)) \<le> guesses_left i db"
  "guesses_left i (fst (snd (CleanupIdentity now (db, limits)))) \<le> guesses_left i db"
  by (simp_all add: UpdateUsername_def InvalidateVerificationCodes_def CleanupIdentity_def Let_def guesses_left_def delete_users_def guesses_update
      order_trans [OF guesses_delete guesses_delete])

lemma benefit_guesses: "applyVIPBenefitTx u plan days now db = Inr db' \<Longrightarrow> guesses_left i db' = guesses_left i db"
  by (rule guesses_left_cong) (auto dest!: applyVIP_set_vip set_vip_Inr)

lemma identity_guesses:
  "guesses_left i (identity_exec check op db) + wrong_code check i op db \<le> guesses_left i db + 5 * new_code i op db"
proof (cases op)
  case (OpVerify pid email code ph now risk)
  then show ?thesis using verify_guesses [of i check pid email code ph now risk db] by (simp del: identity_exec.simps wrong_code.simps)
next
  case (OpReset email code ph now)
  then show ?thesis using reset_guesses [of i check email code ph now db] by (simp del: identity_exec.simps wrong_code.simps)
next
  case (OpResend cid sid u h now ex c)
  then show ?thesis using resend_guesses [of i cid sid u h now ex c db]
    by (cases "is_ok (fst (RefreshPendingUser cid sid u h now ex c db)) \<and> u = i") auto
next
  case (OpForgot cid u h now ex)
  then show ?thesis using forgot_guesses [of i cid u h now ex db]
    by (cases "is_ok (fst (CreatePasswordReset cid u h now ex db)) \<and> u = i") auto
next
  case (OpBenefit u plan days now)
  then show ?thesis using benefit_guesses [of u plan days now db _ i] by (simp split: sum.splits)
qed (simp_all add: register_guesses forgot_guesses change_guesses login_guesses status_guesses plain_guesses)

section \<open>Ending sessions\<close>

definition no_session_left :: "ident \<Rightarrow> string set \<Rightarrow> cdb \<Rightarrow> bool" where
  "no_session_left i except db \<longleftrightarrow> (\<forall>t later. t \<notin> except \<longrightarrow>
     (case fst (UserBySession t later db) of Inl e \<Rightarrow> True | Inr (u, csrf) \<Rightarrow> us_id u \<noteq> i))"

lemma no_session_leftI:
  assumes "\<And>s. s \<in> set (user_sessions db) \<Longrightarrow> se_user_id s = i \<Longrightarrow> se_revoked_at s = 0 \<Longrightarrow> se_token_hash s \<in> except"
  shows "no_session_left i except db"
proof -
  have "us_id u \<noteq> i" if t: "t \<notin> except" and f: "fst (UserBySession t later db) = Inr (u, csrf)" for t later u csrf
  proof -
    obtain s where s: "sql_first (live_session t later) (user_sessions db) = Some s"
      and u: "sql_first (\<lambda>u. us_id u = se_user_id s) (users db) = Some u"
      using f by (auto simp: UserBySession_def split: option.splits)
    then have "s \<in> set (user_sessions db)" "se_token_hash s = t" "se_revoked_at s = 0" "us_id u = se_user_id s"
      using sql_firstD [OF s] sql_firstD [OF u] by (auto simp: live_session_def)
    then show ?thesis using assms [of s] t by auto
  qed
  then show ?thesis by (auto simp: no_session_left_def split: sum.splits)
qed

lemma revoke_sessions_open:
  assumes "s \<in> set (user_sessions (revoke_sessions i now db))" "se_user_id s = i" "now \<noteq> 0"
  shows "se_revoked_at s \<noteq> 0"
proof -
  have "s \<in> set (sql_update (\<lambda>s. se_user_id s = i \<and> se_revoked_at s = 0) (\<lambda>s. s\<lparr>se_revoked_at := now\<rparr>) (user_sessions db))"
    using assms(1) by (simp add: revoke_sessions_def)
  then show ?thesis using assms(2,3) by (cases rule: sql_update_memE) auto
qed

lemma consume_codes_open:
  assumes "v \<in> set (verification_codes (consume_codes i now db))" "vc_user_id v = i" "now \<noteq> 0"
  shows "vc_consumed_at v \<noteq> 0"
proof -
  have "v \<in> set (sql_update (\<lambda>v. vc_user_id v = i \<and> vc_consumed_at v = 0) (\<lambda>v. v\<lparr>vc_consumed_at := now\<rparr>) (verification_codes db))"
    using assms(1) by (simp add: consume_codes_def)
  then show ?thesis using assms(2,3) by (cases rule: sql_update_memE) auto
qed

section \<open>Properties\<close>

text \<open>C20. The administration cannot be locked out: from any state with an active administrator, after any
  sequence of registrations, verifications, password changes, logins, renamings, status changes,
  membership benefits and clean-ups, there is still one.\<close>

theorem active_admin_remains:
  assumes "keyed us_id (users db0)" "a \<in> set (users db0)" "active_admin a" "identity_reachable db0 db"
  shows "\<exists>u \<in> set (users db). us_role u = RoleAdmin \<and> us_status u = UserActive"
proof -
  have "admin_inv db0" using assms(1-3) by (auto simp: admin_inv_def)
  then show ?thesis using identity_reachable_admin [OF assms(4)] by (auto simp: admin_inv_def active_admin_def)
qed

definition admin_demo :: "ident \<Rightarrow> user" where
  "admin_demo i = \<lparr>us_id = i, us_email = i @ ''@x'', us_username = ''n'', us_password_hash = '''', us_status = UserActive,
     us_role = RoleAdmin, us_vip_plan = '''', us_vip_expires_at = 0, us_must_change_password = False,
     us_created_at = 0, us_verified_at = 1, us_last_login_at = 1\<rparr>"

definition two_admins :: cdb where
  "two_admins = empty_cdb\<lparr>users := [admin_demo ''a'', admin_demo ''b'']\<rparr>"

theorem active_admin_remains_witness:
  "let db = snd (SetUserStatus ''x'' ''a'' ''b'' UserBlocked '''' 5 two_admins)
   in \<not> active_admin (users db ! 1) \<and> (\<exists>u \<in> set (users db). us_role u = RoleAdmin \<and> us_status u = UserActive)"
proof -
  let ?db = "snd (SetUserStatus ''x'' ''a'' ''b'' UserBlocked '''' 5 two_admins)"
  have r: "identity_reachable two_admins ?db"
    by (rule identity_reachable.more [OF identity_reachable.start identity_step.status [OF surjective_pairing]])
  have "keyed us_id (users two_admins)" "admin_demo ''a'' \<in> set (users two_admins)" "active_admin (admin_demo ''a'')"
    "\<not> active_admin (users ?db ! 1)" by code_simp+
  then show ?thesis using active_admin_remains [OF _ _ _ r, of "admin_demo ''a''"] by simp
qed

text \<open>C21. An e-mailed code cannot be guessed by trying: in every sequence of operations on accounts -
  registrations, codes sent again, verifications, password reset requests and resets, password
  changes, logins, renamings, status changes, membership benefits and clean-ups, by anybody and at any
  time - the wrong codes that were compared with a code of a user are at most five for each code
  issued to this user in the sequence, and what the codes stored before still took. So a further
  guess always costs a new code, with a new secret.\<close>

theorem verification_guesses_bounded:
  "wrong_codes check i ops db \<le> guesses_left i db + 5 * new_codes check i ops db"
proof (induction ops arbitrary: db)
  case (Cons op ops)
  show ?case using Cons [of "identity_exec check op db"] identity_guesses [of i check op db] by simp
qed simp

definition pending_demo :: cdb where
  "pending_demo = snd (CreatePendingUser ''c'' ''s'' ((admin_demo ''u'')\<lparr>us_role := RoleUser\<rparr>) ''k'' 100 None empty_cdb)"

text \<open>The bound is reached: nine wrong codes count five, a code sent again takes five more.\<close>

theorem verification_guesses_reached:
  "let guess = OpVerify ''p'' ''u@x'' ''wrong'' ''h'' 2 None;
       ops = replicate 9 guess @ [OpResend ''c2'' ''s'' ''u'' ''k2'' 50 200 None] @ replicate 9 guess
   in wrong_codes (\<lambda>h c. h = c) ''u'' ops pending_demo = 10 \<and>
      guesses_left ''u'' pending_demo + 5 * new_codes (\<lambda>h c. h = c) ''u'' ops pending_demo = 10"
  by code_simp


text \<open>C22. New credentials end old sessions: after a password change no session token but the new one
  opens the account and no e-mailed code is left; after a block no token does and no code is left;
  after a reset no token does.\<close>

theorem credentials_end_sessions:
  assumes "now \<noteq> 0"
  shows "(ChangeUserPassword sid aid i ph th csrf ip now ex db = (Inr (), db') \<longrightarrow>
      no_session_left i {th} db' \<and> (\<forall>v \<in> set (verification_codes db'). vc_user_id v = i \<longrightarrow> vc_consumed_at v \<noteq> 0)) \<and>
    (SetUserStatus aid actor i UserBlocked ip now db = (Inr (), db') \<longrightarrow>
      no_session_left i {} db' \<and> (\<forall>v \<in> set (verification_codes db'). vc_user_id v = i \<longrightarrow> vc_consumed_at v \<noteq> 0)) \<and>
    (ResetPassword check email code ph now db = (Inr (), db') \<longrightarrow>
      (\<exists>v u. reset_code email db = Some v \<and> u \<in> set (users db) \<and> us_id u = vc_user_id v \<and>
         nocase (us_email u) email \<and> no_session_left (us_id u) {} db'))"
proof (intro conjI impI)
  assume "ChangeUserPassword sid aid i ph th csrf ip now ex db = (Inr (), db')"
  then obtain us db1 t where s: "insert_session sid i th csrf now ex (revoke_sessions i now (db\<lparr>users := us\<rparr>)) = Inr db1"
    and db': "db' = (consume_codes i now db1)\<lparr>audits := t\<rparr>"
    by (auto simp: ChangeUserPassword_def Let_def split: if_splits sum.splits dest!: insertAudit_Inr)
  show "no_session_left i {th} db'"
  proof (rule no_session_leftI)
    fix x assume x: "x \<in> set (user_sessions db')" "se_user_id x = i" "se_revoked_at x = 0"
    then have "x \<in> set (user_sessions db1)" by (simp add: db' consume_codes_def)
    then have "x \<in> set (user_sessions (revoke_sessions i now (db\<lparr>users := us\<rparr>))) \<or> se_token_hash x = th"
      using s by (auto simp: insert_session_def split: if_splits)
    then show "se_token_hash x \<in> {th}" using revoke_sessions_open [OF _ x(2) assms] x(3) by blast
  qed
  show "\<forall>v \<in> set (verification_codes db'). vc_user_id v = i \<longrightarrow> vc_consumed_at v \<noteq> 0"
    using consume_codes_open [OF _ _ assms] by (simp add: db')
next
  assume "SetUserStatus aid actor i UserBlocked ip now db = (Inr (), db')"
  then obtain us t where db': "db' = (consume_codes i now (revoke_sessions i now (db\<lparr>users := us\<rparr>)))\<lparr>audits := t\<rparr>"
    by (cases rule: SetUserStatus_Inr) (simp add: Let_def)
  then have "user_sessions db' = user_sessions (revoke_sessions i now (db\<lparr>users := us\<rparr>))" by (simp add: consume_codes_def)
  then show "no_session_left i {} db'" using revoke_sessions_open [OF _ _ assms] by (intro no_session_leftI) simp
  show "\<forall>v \<in> set (verification_codes db'). vc_user_id v = i \<longrightarrow> vc_consumed_at v \<noteq> 0"
    using consume_codes_open [OF _ _ assms] by (simp add: db')
next
  assume op: "ResetPassword check email code ph now db = (Inr (), db')"
  then obtain v where v: "reset_code email db = Some v" by (auto simp: ResetPassword_def split: option.splits)
  then obtain us d where db': "db' = revoke_sessions (vc_user_id v) now (d\<lparr>users := us\<rparr>)"
    using op by (auto simp: ResetPassword_def split: if_splits)
  obtain u where u: "u \<in> set (users db)" "us_id u = vc_user_id v" "nocase (us_email u) email"
    using v by (auto simp: reset_code_def latest_code_def sql_exists_iff dest!: sql_firstD)
  have "no_session_left (us_id u) {} db'"
    using revoke_sessions_open [OF _ _ assms] u(2) by (intro no_session_leftI) (simp add: db')
  then show "\<exists>v u. reset_code email db = Some v \<and> u \<in> set (users db) \<and> us_id u = vc_user_id v \<and>
         nocase (us_email u) email \<and> no_session_left (us_id u) {} db'" using v u by blast
qed

theorem credentials_end_sessions_witness:
  "let db = two_admins\<lparr>user_sessions := [\<lparr>se_id = ''s'', se_user_id = ''b'', se_token_hash = ''t'', se_csrf_token = '''',
       se_created_at = 1, se_expires_at = 100, se_last_seen_at = 1, se_revoked_at = 0\<rparr>]\<rparr>
   in is_ok (fst (UserBySession ''t'' 6 db)) \<and> no_session_left ''b'' {} (snd (SetUserStatus ''x'' ''a'' ''b'' UserBlocked '''' 5 db))"
proof -
  let ?db = "two_admins\<lparr>user_sessions := [\<lparr>se_id = ''s'', se_user_id = ''b'', se_token_hash = ''t'', se_csrf_token = '''',
       se_created_at = 1, se_expires_at = 100, se_last_seen_at = 1, se_revoked_at = 0\<rparr>]\<rparr>"
  let ?op = "SetUserStatus ''x'' ''a'' ''b'' UserBlocked '''' 5 ?db"
  have ok: "is_ok (fst (UserBySession ''t'' 6 ?db))" "fst ?op = Inr ()" by code_simp+
  then have "?op = (Inr (), snd ?op)" by (metis prod.collapse)
  then show ?thesis using credentials_end_sessions [of 5 _ "''x''" "''b''" _ _ _ "''''" _ ?db "snd ?op" "''a''"] ok(1) by simp
qed

end
