(* ===== verification/Storage_Paths.thy ===== *)
theory Storage_Paths
  imports Go_Library
begin

text \<open>
  Where a storage node keeps the file of an upload (storage_paths.go) and which identifiers it accepts
  (storage_protocol.go). A file is addressed by a key relative to the data directory. Paths are those
  of the POSIX build, where \<^verbatim>\<open>filepath\<close> and \<^verbatim>\<open>path\<close> agree. The inspection of the file system (\<^verbatim>\<open>Lstat\<close>
  and \<^verbatim>\<open>EvalSymlinks\<close> of the parent directory and of the file) is the parameter \<open>env_safe\<close>, the data
  directory after \<^verbatim>\<open>filepath.Abs\<close> the parameter \<open>env_root\<close>.
\<close>

section \<open>Identifiers\<close>

definition id_character :: "char \<Rightarrow> bool" where
  "id_character c \<longleftrightarrow> (CHR ''a'' \<le> c \<and> c \<le> CHR ''z'') \<or> (CHR ''A'' \<le> c \<and> c \<le> CHR ''Z'') \<or>
     (CHR ''0'' \<le> c \<and> c \<le> CHR ''9'') \<or> c = CHR ''-'' \<or> c = CHR ''_''"

definition validInternalNonce :: "string \<Rightarrow> bool" where
  "validInternalNonce value \<longleftrightarrow> \<not> (length value < 8 \<or> length value > 128) \<and> list_all id_character value"

definition validStorageNodeID :: "string \<Rightarrow> bool" where
  "validStorageNodeID value \<longleftrightarrow> \<not> (length value < 1 \<or> length value > 64) \<and>
     list_all (\<lambda>c. id_character c \<or> c = CHR ''.'') value"

definition validStorageObjectID :: "string \<Rightarrow> bool" where
  "validStorageObjectID value \<longleftrightarrow> \<not> (length value < 8 \<or> length value > 128) \<and> list_all id_character value"

section \<open>Slash-separated paths\<close>

text \<open>\<^verbatim>\<open>strings.Split\<close> at a separator.\<close>

fun split_at :: "char \<Rightarrow> string \<Rightarrow> string list" where
  "split_at sep [] = [[]]"
| "split_at sep (c # s) =
     (if c = sep then [] # split_at sep s
      else case split_at sep s of [] \<Rightarrow> [[c]] | p # ps \<Rightarrow> (c # p) # ps)"

text \<open>\<^verbatim>\<open>path.Clean\<close>: the elements kept so far, in reverse.\<close>

fun clean_elements :: "bool \<Rightarrow> string list \<Rightarrow> string list \<Rightarrow> string list" where
  "clean_elements rooted kept [] = rev kept"
| "clean_elements rooted kept (p # ps) =
     (if p = '''' \<or> p = ''.'' then clean_elements rooted kept ps
      else if p = ''..''
      then (case kept of
              [] \<Rightarrow> clean_elements rooted (if rooted then [] else [p]) ps
            | q # qs \<Rightarrow> clean_elements rooted (if q = ''..'' then p # kept else qs) ps)
      else clean_elements rooted (p # kept) ps)"

definition path_IsAbs :: "string \<Rightarrow> bool" where
  "path_IsAbs p \<longleftrightarrow> (case p of [] \<Rightarrow> False | c # _ \<Rightarrow> c = CHR ''/'')"

definition path_Clean :: "string \<Rightarrow> string" where
  "path_Clean p =
     (if p = '''' then ''.''
      else let es = clean_elements (path_IsAbs p) [] (split_at (CHR ''/'') p)
           in if path_IsAbs p then ''/'' @ Join es ''/'' else if es = [] then ''.'' else Join es ''/'')"

definition path_Join :: "string \<Rightarrow> string \<Rightarrow> string" where
  "path_Join a b = path_Clean (a @ ''/'' @ b)"

definition path_elements :: "string \<Rightarrow> string list" where
  "path_elements p = filter (\<lambda>e. e \<noteq> '''') (split_at (CHR ''/'') p)"

fun strip_common :: "string list \<Rightarrow> string list \<Rightarrow> string list \<times> string list" where
  "strip_common (a # as) (b # bs) = (if a = b then strip_common as bs else (a # as, b # bs))"
| "strip_common as bs = (as, bs)"

text \<open>\<^verbatim>\<open>filepath.Rel\<close> of two absolute paths.\<close>

definition path_Rel :: "string \<Rightarrow> string \<Rightarrow> string" where
  "path_Rel base targ =
     (case strip_common (path_elements (path_Clean base)) (path_elements (path_Clean targ)) of
        (bs, ts) \<Rightarrow> let es = map (\<lambda>_. ''..'') bs @ ts in if es = [] then ''.'' else Join es ''/'')"

section \<open>Keys of uploads\<close>

definition storageUploadPathKey :: "string \<Rightarrow> string \<Rightarrow> string \<Rightarrow> string" where
  "storageUploadPathKey directory i extension = directory @ ''/'' @ i @ extension"

definition validateStorageUploadPathKey :: "string \<Rightarrow> string \<Rightarrow> unit result" where
  "validateStorageUploadPathKey i key =
     (if key = '''' \<or> list_ex (\<lambda>c. c = CHR 0x5C \<or> c = CHR 0x00) key \<or> path_IsAbs key \<or> path_Clean key \<noteq> key
      then Inl ErrOther
      else case split_at (CHR ''/'') key of
             [directory, file] \<Rightarrow>
               (if \<not> validStorageObjectID i then Inl ErrOther
                else if directory = ''tmp'' then (if file \<noteq> i @ ''.part'' then Inl ErrOther else Inr ())
                else if directory = ''quarantine'' \<or> directory = ''objects''
                then (if file \<noteq> i @ ''.blob'' then Inl ErrOther else Inr ())
                else Inl ErrOther)
           | _ \<Rightarrow> Inl ErrOther)"

fun fields_at :: "(char \<Rightarrow> bool) \<Rightarrow> string \<Rightarrow> string list" where
  "fields_at sep [] = [[]]"
| "fields_at sep (c # s) =
     (if sep c then [] # fields_at sep s
      else case fields_at sep s of [] \<Rightarrow> [[c]] | p # ps \<Rightarrow> (c # p) # ps)"

definition storagePathHasParentTraversal :: "string \<Rightarrow> bool" where
  "storagePathHasParentTraversal value =
     list_ex (\<lambda>p. p = ''..'') (fields_at (\<lambda>c. c = CHR ''/'' \<or> c = CHR 0x5C) value)"

record storage_env =
  env_root :: string
  env_safe :: "string \<Rightarrow> bool"

definition escapes :: "string \<Rightarrow> bool" where
  "escapes relative \<longleftrightarrow> relative = ''.'' \<or> relative = ''..'' \<or> take 3 relative = ''../''"

definition resolveUploadKey :: "storage_env \<Rightarrow> string \<Rightarrow> string \<Rightarrow> string result" where
  "resolveUploadKey env i key =
     (case validateStorageUploadPathKey i key of
        Inl e \<Rightarrow> Inl e
      | Inr _ \<Rightarrow>
        (let absolute = path_Join (env_root env) key
         in if escapes (path_Rel (env_root env) absolute) then Inl ErrOther
            else if \<not> env_safe env key then Inl ErrOther
            else Inr absolute))"

text \<open>The second half of normalizeUploadPath: absolute paths that earlier versions stored.\<close>

definition normalize_legacy :: "storage_env \<Rightarrow> string \<Rightarrow> string \<Rightarrow> (string \<times> string) result" where
  "normalize_legacy env i storedPath =
     (let absolute = path_Clean storedPath; key = path_Rel (env_root env) absolute
      in if escapes key then Inl ErrOther
         else case validateStorageUploadPathKey i key of
                Inl e \<Rightarrow> Inl e
              | Inr _ \<Rightarrow>
                (case resolveUploadKey env i key of
                   Inl e \<Rightarrow> Inl e
                 | Inr resolved \<Rightarrow> if path_Rel resolved absolute \<noteq> ''.'' then Inl ErrOther else Inr (key, resolved)))"

definition normalizeUploadPath :: "storage_env \<Rightarrow> string \<Rightarrow> string \<Rightarrow> (string \<times> string) result" where
  "normalizeUploadPath env i storedPath =
     (if storedPath = '''' then Inr ('''', '''')
      else if \<not> storagePathHasParentTraversal storedPath \<and> validateStorageUploadPathKey i storedPath = Inr ()
      then (case resolveUploadKey env i storedPath of Inl e \<Rightarrow> Inl e | Inr absolute \<Rightarrow> Inr (storedPath, absolute))
      else if storagePathHasParentTraversal storedPath \<or> \<not> path_IsAbs storedPath then Inl ErrOther
      else normalize_legacy env i storedPath)"

section \<open>Splitting and cleaning\<close>

lemma split_at_ne [simp]: "split_at sep s \<noteq> []"
  by (induction s) (auto split: list.splits)

lemma Join_Cons: "ps \<noteq> [] \<Longrightarrow> Join (p # ps) sep = p @ sep @ Join ps sep"
  by (cases ps) simp_all

lemma Join_append: "as \<noteq> [] \<Longrightarrow> bs \<noteq> [] \<Longrightarrow> Join (as @ bs) sep = Join as sep @ sep @ Join bs sep"
proof (induction as)
  case (Cons a as)
  then show ?case by (cases "as = []") (simp_all add: Join_Cons)
qed simp

lemma Join_split: "Join (split_at sep s) [sep] = s"
proof (induction s)
  case (Cons c s)
  obtain p ps where s: "split_at sep s = p # ps" by (cases "split_at sep s") auto
  then show ?case using Cons by (cases ps) (simp_all add: Join_Cons)
qed simp

lemma split_at_none: "sep \<notin> set s \<Longrightarrow> split_at sep s = [s]"
  by (induction s) auto

lemma split_at_append: "split_at sep (s @ sep # t) = split_at sep s @ split_at sep t"
  by (induction s) (auto split: list.splits)

lemma split_at_no_sep: "p \<in> set (split_at sep s) \<Longrightarrow> sep \<notin> set p"
  by (induction s arbitrary: p) (auto split: list.splits if_splits)

lemma clean_elements_append:
  "clean_elements r kept (ps @ qs) = clean_elements r (rev (clean_elements r kept ps)) qs"
  by (induction r kept ps rule: clean_elements.induct) (auto split: list.splits)

definition plain :: "string \<Rightarrow> bool" where
  "plain p \<longleftrightarrow> p \<noteq> '''' \<and> p \<noteq> ''.'' \<and> p \<noteq> ''..'' \<and> CHR ''/'' \<notin> set p"

lemma clean_elements_plain: "list_all plain qs \<Longrightarrow> clean_elements r kept qs = rev kept @ qs"
  by (induction qs arbitrary: kept) (auto simp: plain_def)

lemma clean_elements_rooted:
  "list_all plain kept \<Longrightarrow> (\<And>p. p \<in> set ps \<Longrightarrow> CHR ''/'' \<notin> set p) \<Longrightarrow> list_all plain (clean_elements True kept ps)"
proof (induction ps arbitrary: kept)
  case (Cons p ps)
  have rest: "list_all plain kept' \<Longrightarrow> list_all plain (clean_elements True kept' ps)" for kept'
    using Cons.IH [of kept'] Cons.prems(2) by simp
  consider "p = '''' \<or> p = ''.''" | "p = ''..''" | "plain p" using Cons.prems(2) [of p] by (auto simp: plain_def)
  then show ?case
  proof cases
    case 2
    have "plain q \<Longrightarrow> q \<noteq> ''..''" for q by (simp add: plain_def)
    then show ?thesis using 2 rest Cons.prems(1) by (cases kept) auto
  next
    case 3
    moreover from 3 have "p \<noteq> ''''" "p \<noteq> ''.''" "p \<noteq> ''..''" by (simp_all add: plain_def)
    ultimately show ?thesis using rest [of "p # kept"] Cons.prems(1) by simp
  qed (use rest Cons.prems(1) in auto)
qed (simp add: list_all_iff)

lemma split_Join:
  "es \<noteq> [] \<Longrightarrow> (\<And>e. e \<in> set es \<Longrightarrow> sep \<notin> set e) \<Longrightarrow> split_at sep (Join es [sep]) = es"
proof (induction es)
  case (Cons e es)
  then show ?case by (cases "es = []") (simp_all add: split_at_none Join_Cons split_at_append)
qed simp

text \<open>A clean absolute directory below the root.\<close>

definition clean_root :: "string \<Rightarrow> bool" where
  "clean_root r \<longleftrightarrow> path_IsAbs r \<and> path_Clean r = r \<and> r \<noteq> ''/''"

lemma clean_root_elements:
  assumes "clean_root r"
  obtains es where "es \<noteq> []" "list_all plain es" "r = ''/'' @ Join es ''/''"
    "clean_elements True [] (split_at (CHR ''/'') r) = es" "path_elements r = es"
proof -
  define es where "es = clean_elements True [] (split_at (CHR ''/'') r)"
  have r: "r \<noteq> ''''" "path_IsAbs r" using assms by (auto simp: clean_root_def path_IsAbs_def)
  have eq: "r = ''/'' @ Join es ''/''"
    using assms r by (simp add: clean_root_def path_Clean_def Let_def es_def)
  then have ne: "es \<noteq> []" using assms by (auto simp: clean_root_def)
  have plain: "list_all plain es"
    unfolding es_def using clean_elements_rooted [of "[]" "split_at (CHR ''/'') r"] split_at_no_sep by auto
  have "path_elements r = filter (\<lambda>e. e \<noteq> '''') (split_at (CHR ''/'') (Join es ''/''))"
    by (subst eq) (simp add: path_elements_def)
  also have "\<dots> = es" using plain by (subst split_Join [OF ne]) (auto simp: list_all_iff plain_def filter_id_conv)
  finally show ?thesis using that [OF ne plain eq] es_def by simp
qed

lemma path_below_root:
  assumes "clean_root r" "plain d" "plain f"
  shows "path_Clean (r @ ''/'' @ d @ ''/'' @ f) = r @ ''/'' @ d @ ''/'' @ f"
    "path_Rel r (r @ ''/'' @ d @ ''/'' @ f) = d @ ''/'' @ f"
    "path_Rel (r @ ''/'' @ d @ ''/'' @ f) (r @ ''/'' @ d @ ''/'' @ f) = ''.''"
proof -
  obtain es where es: "es \<noteq> []" "list_all plain es" "r = ''/'' @ Join es ''/''"
    "clean_elements True [] (split_at (CHR ''/'') r) = es" "path_elements r = es"
    using clean_root_elements [OF assms(1)] .
  let ?p = "r @ ''/'' @ d @ ''/'' @ f"
  have df: "split_at (CHR ''/'') d = [d]" "split_at (CHR ''/'') f = [f]"
    using assms(2,3) by (simp_all add: plain_def split_at_none)
  have sp: "split_at (CHR ''/'') ?p = split_at (CHR ''/'') r @ [d, f]"
    using split_at_append [of "CHR ''/''" r "d @ ''/'' @ f"] split_at_append [of "CHR ''/''" d f] df by simp
  have "clean_elements True [] (split_at (CHR ''/'') ?p) = es @ [d, f]"
    unfolding sp clean_elements_append es(4) using assms(2,3) by (subst clean_elements_plain) simp_all
  moreover have "path_IsAbs ?p" by (simp add: es(3) path_IsAbs_def)
  moreover have "''/'' @ Join (es @ [d, f]) ''/'' = ?p" using es(1) by (simp add: Join_append es(3))
  ultimately show c: "path_Clean ?p = ?p" by (simp add: path_Clean_def)
  have el: "path_elements ?p = es @ [d, f]"
    using sp es(5) assms(2,3) by (simp add: path_elements_def plain_def)
  have strip: "strip_common as (as @ bs) = ([], bs)" for as bs by (induction as) (cases bs, simp_all)
  have strip2: "strip_common as as = ([], [])" for as by (induction as) simp_all
  have "path_Clean r = r" using assms(1) by (simp add: clean_root_def)
  then show "path_Rel r ?p = d @ ''/'' @ f" unfolding path_Rel_def c el es(5) by (simp add: strip es(5))
  show "path_Rel ?p ?p = ''.''" unfolding path_Rel_def c by (simp add: strip2)
qed

section \<open>The three keys of an upload\<close>

definition upload_keys :: "string \<Rightarrow> (string \<times> string) set" where
  "upload_keys i = {(''tmp'', i @ ''.part''), (''quarantine'', i @ ''.blob''), (''objects'', i @ ''.blob'')}"

lemma id_character_plain: "id_character c \<Longrightarrow> c \<noteq> CHR ''/'' \<and> c \<noteq> CHR 0x5C \<and> c \<noteq> CHR 0x00"
proof -
  have "\<not> id_character (CHR ''/'')" "\<not> id_character (CHR 0x5C)" "\<not> id_character (CHR 0x00)" by code_simp+
  then show "id_character c \<Longrightarrow> ?thesis" by blast
qed

lemma upload_key_plain:
  assumes "validStorageObjectID i" "(d, f) \<in> upload_keys i"
  shows "plain d" "plain f" "CHR 0x5C \<notin> set (d @ f)" "CHR 0x00 \<notin> set (d @ f)" "d @ ''/'' @ f \<noteq> ''''"
    "hd d \<noteq> CHR ''/''"
proof -
  have i: "length i \<ge> 8" "\<forall>c \<in> set i. c \<noteq> CHR ''/'' \<and> c \<noteq> CHR 0x5C \<and> c \<noteq> CHR 0x00"
    using assms(1) id_character_plain by (auto simp: validStorageObjectID_def list_all_iff)
  have d: "d = ''tmp'' \<or> d = ''quarantine'' \<or> d = ''objects''" and f: "f = i @ ''.part'' \<or> f = i @ ''.blob''"
    using assms(2) by (auto simp: upload_keys_def)
  have "length f > 2" using f i(1) by auto
  then have "f \<noteq> ''''" "f \<noteq> ''.''" "f \<noteq> ''..''" by auto
  moreover have fc: "c \<noteq> CHR ''/'' \<and> c \<noteq> CHR 0x5C \<and> c \<noteq> CHR 0x00" if "c \<in> set f" for c
  proof -
    have "c \<in> set i \<or> c \<in> set ''.partblob''" using f that by (elim disjE) auto
    then show ?thesis using i(2) by (elim disjE) auto
  qed
  ultimately show "plain f" unfolding plain_def by blast
  show "plain d" "hd d \<noteq> CHR ''/''" using d by (elim disjE; simp add: plain_def)+
  have dc: "c \<noteq> CHR 0x5C \<and> c \<noteq> CHR 0x00" if "c \<in> set d" for c using d that by auto
  show "CHR 0x5C \<notin> set (d @ f)" "CHR 0x00 \<notin> set (d @ f)" using fc dc by (metis UnE set_append)+
  show "d @ ''/'' @ f \<noteq> ''''" by simp
qed

lemma upload_key_valid:
  assumes "validStorageObjectID i" "(d, f) \<in> upload_keys i"
  shows "validateStorageUploadPathKey i (d @ ''/'' @ f) = Inr ()"
proof -
  note k = upload_key_plain [OF assms]
  have sp: "split_at (CHR ''/'') (d @ ''/'' @ f) = [d, f]"
    using k(1,2) split_at_append [of "CHR ''/''" d f] by (simp add: plain_def split_at_none)
  have abs: "\<not> path_IsAbs (d @ ''/'' @ f)" using k(1,6) by (cases d) (simp_all add: path_IsAbs_def plain_def)
  have "clean_elements False [] [d, f] = [d, f]" using k(1,2) clean_elements_plain [of "[d, f]" False "[]"] by simp
  then have "path_Clean (d @ ''/'' @ f) = d @ ''/'' @ f"
    using abs sp by (simp add: path_Clean_def Let_def)
  moreover have "\<not> list_ex (\<lambda>c. c = CHR 0x5C \<or> c = CHR 0x00) (d @ ''/'' @ f)" using k(3,4) by (auto simp: list_ex_iff)
  ultimately show ?thesis using abs sp assms by (auto simp: validateStorageUploadPathKey_def upload_keys_def)
qed

lemma validate_Inr:
  assumes "validateStorageUploadPathKey i key = Inr ()"
  shows "validStorageObjectID i \<and> (\<exists>d f. (d, f) \<in> upload_keys i \<and> key = d @ ''/'' @ f)"
proof -
  obtain d f where sp: "split_at (CHR ''/'') key = [d, f]"
    using assms unfolding validateStorageUploadPathKey_def by (auto split: if_splits list.splits)
  then have "validStorageObjectID i" "d = ''tmp'' \<and> f = i @ ''.part'' \<or> (d = ''quarantine'' \<or> d = ''objects'') \<and> f = i @ ''.blob''"
    using assms unfolding validateStorageUploadPathKey_def by (simp_all split: if_splits)
  then have "validStorageObjectID i" "(d, f) \<in> upload_keys i" by (auto simp: upload_keys_def)
  moreover have "key = d @ ''/'' @ f" using Join_split [of "CHR ''/''" key] sp by simp
  ultimately show ?thesis by blast
qed

lemma fields_no_parent:
  assumes "plain d" "plain f" "CHR 0x5C \<notin> set (d @ f)"
  shows "\<not> storagePathHasParentTraversal (d @ ''/'' @ f)"
proof -
  let ?sep = "\<lambda>c. c = CHR ''/'' \<or> c = CHR 0x5C"
  have none: "(\<And>c. c \<in> set s \<Longrightarrow> \<not> ?sep c) \<Longrightarrow> fields_at ?sep s = [s]" for s by (induction s) auto
  have app: "(\<And>c. c \<in> set s \<Longrightarrow> \<not> ?sep c) \<Longrightarrow> fields_at ?sep (s @ CHR ''/'' # t) = s # fields_at ?sep t" for s t
    by (induction s) auto
  have no: "c \<in> set d \<union> set f \<Longrightarrow> \<not> ?sep c" for c using assms by (auto simp: plain_def)
  then have "fields_at ?sep (d @ ''/'' @ f) = [d, f]" using none [of f] app [of d f] by simp
  then show ?thesis using assms(1,2) by (simp add: storagePathHasParentTraversal_def plain_def)
qed

lemma resolve_key:
  assumes "clean_root (env_root env)" "validStorageObjectID i" "(d, f) \<in> upload_keys i"
  shows "resolveUploadKey env i (d @ ''/'' @ f) =
    (if env_safe env (d @ ''/'' @ f) then Inr (env_root env @ ''/'' @ d @ ''/'' @ f) else Inl ErrOther)"
proof -
  note k = upload_key_plain [OF assms(2,3)]
  note below = path_below_root [OF assms(1) k(1,2)]
  have "\<not> escapes (d @ ''/'' @ f)" using assms(3) by (auto simp: escapes_def upload_keys_def)
  then show ?thesis using upload_key_valid [OF assms(2,3)] below by (simp add: resolveUploadKey_def path_Join_def)
qed

lemma normalize_key:
  assumes "clean_root (env_root env)" "validStorageObjectID i" "(d, f) \<in> upload_keys i" "env_safe env (d @ ''/'' @ f)"
  shows "normalizeUploadPath env i (d @ ''/'' @ f) = Inr (d @ ''/'' @ f, env_root env @ ''/'' @ d @ ''/'' @ f)"
  using resolve_key [OF assms(1-3)] upload_key_valid [OF assms(2,3)] upload_key_plain [OF assms(2,3)] fields_no_parent assms(4)
  by (simp add: normalizeUploadPath_def)

text \<open>Whatever text is stored, what comes out is nothing or one of the keys below the data directory.\<close>

lemma normalize_Inr:
  assumes root: "clean_root (env_root env)" and ok: "normalizeUploadPath env i p = Inr (key, absolute)"
  shows "p = '''' \<and> key = '''' \<and> absolute = '''' \<or>
    validStorageObjectID i \<and> (\<exists>d f. (d, f) \<in> upload_keys i \<and> key = d @ ''/'' @ f \<and> env_safe env key \<and>
       absolute = env_root env @ ''/'' @ key)"
proof (cases "p = ''''")
  case False
  have res: "resolveUploadKey env i key = Inr absolute"
    using ok False by (auto simp: normalizeUploadPath_def normalize_legacy_def Let_def split: if_splits sum.splits)
  then have "validateStorageUploadPathKey i key = Inr ()" by (auto simp: resolveUploadKey_def split: sum.splits)
  then obtain d f where v: "validStorageObjectID i" and df: "(d, f) \<in> upload_keys i" and key: "key = d @ ''/'' @ f"
    using validate_Inr by blast
  have "env_safe env key \<and> absolute = env_root env @ ''/'' @ key"
    using res resolve_key [OF root v df] by (auto simp: key split: if_splits)
  then show ?thesis using v df key by blast
qed (use ok in \<open>simp add: normalizeUploadPath_def\<close>)

lemma fields_split: "CHR 0x5C \<notin> set s \<Longrightarrow> fields_at (\<lambda>c. c = CHR ''/'' \<or> c = CHR 0x5C) s = split_at (CHR ''/'') s"
  by (induction s) (auto split: list.splits)

lemma normalize_absolute:
  assumes root: "clean_root (env_root env)" "CHR 0x5C \<notin> set (env_root env)"
    and i: "validStorageObjectID i" and df: "(d, f) \<in> upload_keys i" and safe: "env_safe env (d @ ''/'' @ f)"
  shows "normalizeUploadPath env i (env_root env @ ''/'' @ d @ ''/'' @ f) =
    Inr (d @ ''/'' @ f, env_root env @ ''/'' @ d @ ''/'' @ f)"
proof -
  let ?p = "env_root env @ ''/'' @ d @ ''/'' @ f"
  note k = upload_key_plain [OF i df]
  note below = path_below_root [OF root(1) k(1,2)]
  obtain es where es: "list_all plain es" "env_root env = ''/'' @ Join es ''/''" "es \<noteq> []"
    using clean_root_elements [OF root(1)] .
  have "split_at (CHR ''/'') (Join es ''/'') = es" using es by (intro split_Join) (auto simp: list_all_iff plain_def)
  then have "split_at (CHR ''/'') (env_root env) = [] # es" using es(2) by simp
  moreover have "split_at (CHR ''/'') ?p = split_at (CHR ''/'') (env_root env) @ [d, f]"
    using split_at_append [of "CHR ''/''" "env_root env" "d @ ''/'' @ f"] split_at_append [of "CHR ''/''" d f] k(1,2)
    by (simp add: plain_def split_at_none)
  ultimately have "''..'' \<notin> set (split_at (CHR ''/'') ?p)"
    using es(1) k(1,2) by (auto simp: list_all_iff plain_def)
  moreover have "CHR 0x5C \<notin> set ?p" using root(2) k(3) by auto
  ultimately have up: "\<not> storagePathHasParentTraversal ?p"
    by (auto simp: storagePathHasParentTraversal_def fields_split list_ex_iff)
  have abs: "path_IsAbs ?p" by (simp add: es(2) path_IsAbs_def)
  then have key: "validateStorageUploadPathKey i ?p \<noteq> Inr ()" by (simp add: validateStorageUploadPathKey_def)
  have "\<not> escapes (d @ ''/'' @ f)" using df by (auto simp: escapes_def upload_keys_def)
  then have "normalize_legacy env i ?p = Inr (d @ ''/'' @ f, ?p)"
    using below upload_key_valid [OF i df] resolve_key [OF root(1) i df] safe by (simp add: normalize_legacy_def Let_def)
  moreover have "?p \<noteq> ''''" by simp
  ultimately show ?thesis using up abs key unfolding normalizeUploadPath_def by simp
qed

section \<open>Properties\<close>

text \<open>C23. Stored paths never leave the data directory: whatever text a row holds, the node either refuses
  it or reads it as nothing or as the temporary, quarantine or object file of that very upload, which the
  file system check accepted; the key it stores and the absolute path it hands out both read back as the
  same file.\<close>

theorem stored_paths_stay_inside:
  assumes "clean_root (env_root env)" "CHR 0x5C \<notin> set (env_root env)" "normalizeUploadPath env i p = Inr (key, absolute)"
    "p \<noteq> ''''"
  shows "key \<in> {''tmp/'' @ i @ ''.part'', ''quarantine/'' @ i @ ''.blob'', ''objects/'' @ i @ ''.blob''} \<and>
    absolute = env_root env @ ''/'' @ key \<and> env_safe env key \<and> validStorageObjectID i \<and>
    normalizeUploadPath env i key = Inr (key, absolute) \<and> normalizeUploadPath env i absolute = Inr (key, absolute)"
proof -
  obtain d f where v: "validStorageObjectID i" and df: "(d, f) \<in> upload_keys i" and key: "key = d @ ''/'' @ f"
    and safe: "env_safe env (d @ ''/'' @ f)" and abs: "absolute = env_root env @ ''/'' @ key"
    using normalize_Inr [OF assms(1,3)] assms(4) by auto
  have "key \<in> {''tmp/'' @ i @ ''.part'', ''quarantine/'' @ i @ ''.blob'', ''objects/'' @ i @ ''.blob''}"
    using df by (auto simp: key upload_keys_def)
  then show ?thesis
    using normalize_key [OF assms(1) v df safe] normalize_absolute [OF assms(1,2) v df safe] v safe by (simp add: key abs)
qed

theorem stored_paths_stay_inside_witness:
  "let env = \<lparr>env_root = ''/data'', env_safe = (\<lambda>k. True)\<rparr>
   in normalizeUploadPath env ''abcdefgh'' ''/data/tmp/../tmp/abcdefgh.part'' = Inl ErrOther \<and>
      normalizeUploadPath env ''abcdefgh'' ''/data//objects/abcdefgh.blob'' =
        Inr (''objects/abcdefgh.blob'', ''/data/objects/abcdefgh.blob'') \<and>
      normalizeUploadPath env ''abcdefgh'' ''objects/abcdefgh.blob'' =
        Inr (''objects/abcdefgh.blob'', ''/data/objects/abcdefgh.blob'')"
proof -
  let ?env = "\<lparr>env_root = ''/data'', env_safe = (\<lambda>k. True)\<rparr>"
  have r: "clean_root (env_root ?env)" "CHR 0x5C \<notin> set (env_root ?env)" by code_simp+
  have ok: "normalizeUploadPath ?env ''abcdefgh'' ''/data//objects/abcdefgh.blob'' =
        Inr (''objects/abcdefgh.blob'', ''/data/objects/abcdefgh.blob'')"
    "normalizeUploadPath ?env ''abcdefgh'' ''/data/tmp/../tmp/abcdefgh.part'' = Inl ErrOther"
    by code_simp+
  have ne: "''/data//objects/abcdefgh.blob'' \<noteq> ''''" by simp
  have "normalizeUploadPath ?env ''abcdefgh'' ''objects/abcdefgh.blob'' =
        Inr (''objects/abcdefgh.blob'', ''/data/objects/abcdefgh.blob'')"
    using stored_paths_stay_inside [OF r ok(1) ne] by blast
  then show ?thesis unfolding Let_def using ok by (intro conjI)
qed

end
