(* ===== verification/Go_Encoding.thy ===== *)
theory Go_Encoding
  imports Storage_Paths
begin

text \<open>
  Encodings of Go's standard library: \<^verbatim>\<open>base64.RawURLEncoding\<close> (decoding skips line breaks and does
  not check trailing bits), \<^verbatim>\<open>hex\<close>, \<^verbatim>\<open>strconv.ParseInt(s, 10, 64)\<close> and \<^verbatim>\<open>strings.ToUpper\<close> on ASCII.
\<close>

section \<open>Base64\<close>

definition base64url :: string where
  "base64url = ''ABCDEFGHIJKLMNOPQRSTUVWXYZabcdefghijklmnopqrstuvwxyz0123456789-_''"

fun to_sextets :: "nat list \<Rightarrow> nat list" where
  "to_sextets [] = []"
| "to_sextets [a] = [a div 4, a mod 4 * 16]"
| "to_sextets [a, b] = [a div 4, a mod 4 * 16 + b div 16, b mod 16 * 4]"
| "to_sextets (a # b # c # r) = (a div 4) # (a mod 4 * 16 + b div 16) # (b mod 16 * 4 + c div 64) # (c mod 64) # to_sextets r"

fun of_sextets :: "nat list \<Rightarrow> nat list option" where
  "of_sextets [] = Some []"
| "of_sextets [w] = None"
| "of_sextets [w, x] = Some [w * 4 + x div 16]"
| "of_sextets [w, x, y] = Some [w * 4 + x div 16, x mod 16 * 16 + y div 4]"
| "of_sextets (w # x # y # z # r) =
     map_option (\<lambda>t. (w * 4 + x div 16) # (x mod 16 * 16 + y div 4) # (y mod 4 * 64 + z) # t) (of_sextets r)"

definition base64_encode :: "string \<Rightarrow> string" where
  "base64_encode s = map (\<lambda>n. base64url ! n) (to_sextets (map of_char s))"

fun base64_values :: "string \<Rightarrow> nat list option" where
  "base64_values [] = Some []"
| "base64_values (c # s) =
     (if c = CHR 0x0A \<or> c = CHR 0x0D then base64_values s
      else case find (\<lambda>n. base64url ! n = c) [0..<64] of
             None \<Rightarrow> None
           | Some n \<Rightarrow> map_option ((#) n) (base64_values s))"

definition base64_decode :: "string \<Rightarrow> string option" where
  "base64_decode s = Option.bind (base64_values s) (\<lambda>ns. map_option (map char_of) (of_sextets ns))"

lemma glue_parts:
  fixes q r m :: nat
  shows "r < m \<Longrightarrow> (q * m + r) div m = q" "r < m \<Longrightarrow> (q * m + r) mod m = r"
  by simp_all

lemma byte_parts:
  fixes b :: nat
  assumes "b < 256" shows "b div 16 < 16" "b div 64 < 4" "b div 4 < 64"
  using less_mult_imp_div_less [of b 16 16] less_mult_imp_div_less [of b 4 64] less_mult_imp_div_less [of b 64 4] assms by simp_all

lemma of_to_sextets: "list_all (\<lambda>n. n < 256) bs \<Longrightarrow> of_sextets (to_sextets bs) = Some bs"
proof (induction bs rule: to_sextets.induct)
  case (3 a b)
  then show ?case using byte_parts [of b] by (simp add: glue_parts)
next
  case (4 a b c r)
  then show ?case using byte_parts [of b] byte_parts [of c] by (simp add: glue_parts)
qed simp_all

lemma glue_less: "(q :: nat) < k \<Longrightarrow> r < m \<Longrightarrow> q * m + r < k * m"
proof -
  assume "q < k" "r < m"
  then have "q * m + r < Suc q * m" by simp
  also have "\<dots> \<le> k * m" using \<open>q < k\<close> by (intro mult_le_mono1) simp
  finally show ?thesis .
qed

lemma to_sextets_less: "list_all (\<lambda>n. n < 256) bs \<Longrightarrow> list_all (\<lambda>n. n < 64) (to_sextets bs)"
proof (induction bs rule: to_sextets.induct)
  case (2 a)
  then show ?case using byte_parts [of a] glue_less [of "a mod 4" 4 0 16] by simp
next
  case (3 a b)
  then show ?case using byte_parts [of a] byte_parts [of b] glue_less [of "a mod 4" 4 "b div 16" 16] glue_less [of "b mod 16" 16 0 4] by simp
next
  case (4 a b c r)
  then show ?case using byte_parts [of a] byte_parts [of b] byte_parts [of c] glue_less [of "a mod 4" 4 "b div 16" 16]
      glue_less [of "b mod 16" 16 "c div 64" 4] by simp
qed simp

lemma base64url_value:
  assumes "n < 64" shows "find (\<lambda>m. base64url ! m = base64url ! n) [0..<64] = Some n \<and> base64url ! n \<notin> {CHR 0x0A, CHR 0x0D, CHR ''.''}"
proof -
  have "list_all (\<lambda>n. find (\<lambda>m. base64url ! m = base64url ! n) [0..<64] = Some n \<and> base64url ! n \<notin> {CHR 0x0A, CHR 0x0D, CHR ''.''}) [0..<64]"
    by code_simp
  then show ?thesis using assms by (simp add: list_all_iff)
qed

lemma base64_values_map: "list_all (\<lambda>n. n < 64) ns \<Longrightarrow> base64_values (map (\<lambda>n. base64url ! n) ns) = Some ns"
  using base64url_value by (induction ns) auto

lemma bytes_less: "list_all (\<lambda>n. n < (256 :: nat)) (map of_char s)"
proof (induction s)
  case (Cons c s)
  have "of_char c < (256 :: nat)" using nat_of_char_less_256 [of c] by simp
  then show ?case using Cons by simp
qed simp

lemma base64_roundtrip: "base64_decode (base64_encode s) = Some s"
proof -
  have "base64_values (base64_encode s) = Some (to_sextets (map of_char s))"
    unfolding base64_encode_def using base64_values_map [OF to_sextets_less [OF bytes_less]] .
  moreover have "map char_of (map of_char s) = s" by (induction s) simp_all
  ultimately show ?thesis by (simp add: base64_decode_def of_to_sextets [OF bytes_less])
qed

lemma base64_no_dot: "CHR ''.'' \<notin> set (base64_encode s)"
  using to_sextets_less [OF bytes_less, of s] base64url_value by (fastforce simp: base64_encode_def list_all_iff)

lemma base64_empty: "base64_encode s = '''' \<longleftrightarrow> s = ''''"
proof -
  have "to_sextets bs = [] \<longleftrightarrow> bs = []" for bs by (cases bs rule: to_sextets.cases) simp_all
  then show ?thesis by (simp add: base64_encode_def)
qed

section \<open>Numbers and text\<close>

definition digit_value :: "char \<Rightarrow> nat option" where
  "digit_value c = (if 48 \<le> (of_char c :: nat) \<and> (of_char c :: nat) \<le> 57 then Some (of_char c - 48) else None)"

fun parse_digits :: "nat \<Rightarrow> string \<Rightarrow> nat option" where
  "parse_digits acc [] = Some acc"
| "parse_digits acc (c # s) = (case digit_value c of None \<Rightarrow> None | Some d \<Rightarrow> parse_digits (acc * 10 + d) s)"

text \<open>\<^verbatim>\<open>strconv.ParseInt(s, 10, 64)\<close>: an optional sign, at least one digit, and a value of 64 bits.\<close>

definition ParseInt :: "string \<Rightarrow> int option" where
  "ParseInt s =
     (let negative = (s \<noteq> [] \<and> hd s = CHR ''-'');
          digits = (if s \<noteq> [] \<and> (hd s = CHR ''-'' \<or> hd s = CHR ''+'') then tl s else s)
      in if digits = [] then None
         else case parse_digits 0 digits of
                None \<Rightarrow> None
              | Some n \<Rightarrow> let v = (if negative then - int n else int n)
                          in if - (2 ^ 63) \<le> v \<and> v \<le> max_int64 then Some v else None)"

lemma digit_value_digit: "digit_value (digit n) = Some (n mod 10)"
proof -
  have "(of_char (digit n) :: nat) = 48 + n mod 10" by (simp add: digit_def)
  then show ?thesis by (simp add: digit_value_def)
qed

lemma parse_digits_append: "parse_digits acc (s @ t) = Option.bind (parse_digits acc s) (\<lambda>n. parse_digits n t)"
  by (induction s arbitrary: acc) (simp_all split: option.splits)

lemma parse_decimal: "parse_digits 0 (decimal n) = Some n"
proof (induction n rule: decimal.induct)
  case (1 n)
  show ?case
  proof (cases "n < 10")
    case True
    then show ?thesis by (subst decimal.simps) (simp add: digit_value_digit)
  next
    case False
    then have "parse_digits 0 (decimal n) = Some (n div 10 * 10 + n mod 10)"
      using 1 by (subst decimal.simps) (simp add: parse_digits_append digit_value_digit)
    then show ?thesis by simp
  qed
qed

lemma decimal_digits: "c \<in> set (decimal n) \<Longrightarrow> digit_value c \<noteq> None"
proof (induction n rule: decimal.induct)
  case (1 n)
  then show ?case by (cases "n < 10") (auto simp: decimal.simps [of n] digit_value_digit)
qed

lemma decimal_nonempty: "decimal n \<noteq> []"
  by (subst decimal.simps) simp

lemma decimal_hd: "hd (decimal n) \<noteq> CHR ''-'' \<and> hd (decimal n) \<noteq> CHR ''+''"
proof -
  have "digit_value (hd (decimal n)) \<noteq> None" using decimal_digits [OF hd_in_set [OF decimal_nonempty]] .
  moreover have "digit_value (CHR ''-'') = None" "digit_value (CHR ''+'') = None" by code_simp+
  ultimately show ?thesis by metis
qed

lemma ParseInt_show_int: "- (2 ^ 63) \<le> n \<Longrightarrow> n \<le> max_int64 \<Longrightarrow> ParseInt (show_int n) = Some n"
  using decimal_hd [of "nat n"] decimal_nonempty [of "nat n"] decimal_nonempty [of "nat (- n)"]
  by (simp add: ParseInt_def show_int_def parse_decimal Let_def)

lemma show_int_characters: "c \<in> set (show_int n) \<Longrightarrow> c = CHR ''-'' \<or> digit_value c \<noteq> None"
  using decimal_digits by (auto simp: show_int_def split: if_splits)

lemma show_int_nonempty: "show_int n \<noteq> []"
  by (simp add: show_int_def decimal_nonempty)

definition hex_digit :: "nat \<Rightarrow> char" where
  "hex_digit n = ''0123456789abcdef'' ! n"

definition hex_encode :: "string \<Rightarrow> string" where
  "hex_encode s = concat (map (\<lambda>c. [hex_digit (of_char c div 16), hex_digit (of_char c mod 16)]) s)"

definition ascii_upper :: "char \<Rightarrow> char" where
  "ascii_upper c = (if 97 \<le> (of_char c :: nat) \<and> (of_char c :: nat) \<le> 122 then char_of (of_char c - 32 :: nat) else c)"

text \<open>\<^verbatim>\<open>url.PathEscape\<close>: everything but unreserved characters and \<^verbatim>\<open>$&+:=@\<close> becomes \<^verbatim>\<open>%XX\<close>.\<close>

definition path_unescaped :: "char \<Rightarrow> bool" where
  "path_unescaped c \<longleftrightarrow> (CHR ''a'' \<le> c \<and> c \<le> CHR ''z'') \<or> (CHR ''A'' \<le> c \<and> c \<le> CHR ''Z'') \<or> (CHR ''0'' \<le> c \<and> c \<le> CHR ''9'') \<or>
     c \<in> set ''-_.~$&+:=@''"

definition PathEscape :: "string \<Rightarrow> string" where
  "PathEscape s = concat (map (\<lambda>c. if path_unescaped c then [c]
     else [CHR ''%'', ascii_upper (hex_digit (of_char c div 16)), ascii_upper (hex_digit (of_char c mod 16))]) s)"

lemma PathEscape_id: "list_all id_character s \<Longrightarrow> PathEscape s = s"
  by (induction s) (auto simp: PathEscape_def path_unescaped_def id_character_def)

end
