(* ===== verification/Storage_Protocol.thy ===== *)
theory Storage_Protocol
  imports Go_Encoding
begin

text \<open>
  The signed requests between control plane and storage node, and the download tickets the control
  plane gives out (storage_protocol.go). SHA-256 and HMAC are the parameter \<open>crypto\<close>, of which only the
  length of a digest is used; the JSON of a ticket is a pair of parameters. Times are nanoseconds
  since the epoch, as \<^verbatim>\<open>time.Time\<close> compares them.
\<close>

section \<open>Requests\<close>

record crypto =
  cr_sha256 :: "string \<Rightarrow> string"
  cr_hmac :: "string \<Rightarrow> string \<Rightarrow> string"

definition second :: int where "second = 10 ^ 9"

definition Unix :: "int \<Rightarrow> int" where
  "Unix t = t div second"

definition storageInternalMaxSkew :: int where "storageInternalMaxSkew = 60 * second"

record request =
  rq_method :: string
  rq_escapedPath :: string
  rq_rawQuery :: string
  rq_header :: "string \<Rightarrow> string list"

definition StorageHeaderNode :: string where "StorageHeaderNode = ''X-QT-Node''"

definition StorageHeaderTimestamp :: string where "StorageHeaderTimestamp = ''X-QT-Timestamp''"

definition StorageHeaderNonce :: string where "StorageHeaderNonce = ''X-QT-Nonce''"

definition StorageHeaderSignature :: string where "StorageHeaderSignature = ''X-QT-Signature''"

definition StorageHeaderAudience :: string where "StorageHeaderAudience = ''X-QT-Audience''"

definition StorageHeaderDirection :: string where "StorageHeaderDirection = ''X-QT-Direction''"

definition has_prefix :: "string \<Rightarrow> string \<Rightarrow> bool" where
  "has_prefix s p \<longleftrightarrow> take (length p) s = p"

definition storageInternalRequestDomain :: "string \<Rightarrow> (string \<times> string) option" where
  "storageInternalRequestDomain escapedPath =
     (if escapedPath = ''/internal/v1/uploads'' \<or> has_prefix escapedPath ''/internal/v1/uploads/''
      then Some (''quicktransfer-storage'', ''control-to-storage'')
      else if has_prefix escapedPath ''/internal/v1/storage/''
      then Some (''quicktransfer-control'', ''storage-to-control'')
      else None)"

definition singleHeader :: "(string \<Rightarrow> string list) \<Rightarrow> string \<Rightarrow> string option" where
  "singleHeader header name = (case header name of [v] \<Rightarrow> if v = '''' then None else Some v | _ \<Rightarrow> None)"

text \<open>A byte slice of the code, and a part of a request line as it was sent.\<close>

type_synonym bytes = string
type_synonym http_text = string

definition canonical_request ::
  "crypto \<Rightarrow> ident \<Rightarrow> string \<Rightarrow> string \<Rightarrow> string \<Rightarrow> http_text \<Rightarrow> http_text \<Rightarrow> string \<Rightarrow> ident \<Rightarrow> bytes \<Rightarrow> bytes" where
  "canonical_request cr nodeID audience direction method escapedPath rawQuery timestamp nonce body =
     Join [''v2'', nodeID, audience, direction, map ascii_upper method,
           (if escapedPath = '''' then ''/'' else escapedPath), rawQuery, timestamp, nonce,
           hex_encode (cr_sha256 cr body)] [CHR 0x0A]"

definition storageInternalSignature ::
  "crypto \<Rightarrow> bytes \<Rightarrow> ident \<Rightarrow> string \<Rightarrow> string \<Rightarrow> string \<Rightarrow> http_text \<Rightarrow> http_text \<Rightarrow> string \<Rightarrow> ident \<Rightarrow> bytes \<Rightarrow> string" where
  "storageInternalSignature cr secret nodeID audience direction method escapedPath rawQuery timestamp nonce body =
     base64_encode (cr_hmac cr secret
       (canonical_request cr nodeID audience direction method escapedPath rawQuery timestamp nonce body))"

datatype protocol_error = InternalAuth | InternalReplay

definition SignInternalRequestAt ::
  "crypto \<Rightarrow> request \<Rightarrow> string \<Rightarrow> string \<Rightarrow> string \<Rightarrow> int \<Rightarrow> string \<Rightarrow> protocol_error + request" where
  "SignInternalRequestAt cr request nodeID secret body at nonce =
     (if length secret < 32 \<or> \<not> validStorageNodeID nodeID \<or> \<not> validInternalNonce nonce then Inl InternalAuth
      else case storageInternalRequestDomain (rq_escapedPath request) of
        None \<Rightarrow> Inl InternalAuth
      | Some (audience, direction) \<Rightarrow>
        (let timestamp = show_int (Unix at);
             signature = storageInternalSignature cr secret nodeID audience direction (rq_method request)
               (rq_escapedPath request) (rq_rawQuery request) timestamp nonce body
         in Inr (request\<lparr>rq_header := (rq_header request)(StorageHeaderNode := [nodeID], StorageHeaderTimestamp := [timestamp],
              StorageHeaderNonce := [nonce], StorageHeaderAudience := [audience], StorageHeaderDirection := [direction],
              StorageHeaderSignature := [signature])\<rparr>)))"

section \<open>Replays\<close>

type_synonym replay_guard = "string \<rightharpoonup> int"

definition prune_seen :: "int \<Rightarrow> replay_guard \<Rightarrow> replay_guard" where
  "prune_seen nowUnix seen = (\<lambda>k. case seen k of None \<Rightarrow> None | Some expiry \<Rightarrow> if expiry < nowUnix then None else Some expiry)"

definition guard_accept :: "string \<Rightarrow> string \<Rightarrow> int \<Rightarrow> int \<Rightarrow> replay_guard \<Rightarrow> bool \<times> replay_guard" where
  "guard_accept nodeID nonce signedAt now seen0 =
     (let key = nodeID @ [CHR 0x00] @ nonce; nowUnix = Unix now;
          expiresAt = Unix (signedAt + storageInternalMaxSkew);
          seen = prune_seen nowUnix seen0
      in case seen key of
           Some expiry \<Rightarrow> if expiry \<ge> nowUnix then (False, seen) else (True, seen(key \<mapsto> expiresAt))
         | None \<Rightarrow> (True, seen(key \<mapsto> expiresAt)))"

text \<open>The checks before the guard; what passes is the node, the nonce and the time of the signature.\<close>

definition authentic ::
  "crypto \<Rightarrow> request \<Rightarrow> string \<Rightarrow> string \<Rightarrow> string \<Rightarrow> int \<Rightarrow> (string \<times> string \<times> int) option" where
  "authentic cr request body secret expectedNodeID now =
     (if length secret < 32 then None
      else case singleHeader (rq_header request) StorageHeaderNode of None \<Rightarrow> None | Some nodeID \<Rightarrow>
       (if nodeID \<noteq> expectedNodeID \<or> \<not> validStorageNodeID nodeID then None
        else case singleHeader (rq_header request) StorageHeaderTimestamp of None \<Rightarrow> None | Some timestamp \<Rightarrow>
         (if TrimSpace timestamp \<noteq> timestamp then None
          else case ParseInt timestamp of None \<Rightarrow> None | Some timestampUnix \<Rightarrow>
           (let signedAt = timestampUnix * second
            in if signedAt < now - storageInternalMaxSkew \<or> signedAt > now + storageInternalMaxSkew then None
               else case singleHeader (rq_header request) StorageHeaderNonce of None \<Rightarrow> None | Some nonce \<Rightarrow>
                (if \<not> validInternalNonce nonce then None
                 else case storageInternalRequestDomain (rq_escapedPath request) of None \<Rightarrow> None | Some (audience, direction) \<Rightarrow>
                  (if singleHeader (rq_header request) StorageHeaderAudience \<noteq> Some audience \<or>
                      singleHeader (rq_header request) StorageHeaderDirection \<noteq> Some direction then None
                   else case singleHeader (rq_header request) StorageHeaderSignature of None \<Rightarrow> None | Some encoded \<Rightarrow>
                    (case base64_decode encoded of None \<Rightarrow> None | Some actual \<Rightarrow>
                      (if length actual \<noteq> 32 \<or> base64_encode actual \<noteq> encoded then None
                       else if base64_decode (storageInternalSignature cr secret nodeID audience direction (rq_method request)
                              (rq_escapedPath request) (rq_rawQuery request) timestamp nonce body) \<noteq> Some actual then None
                       else Some (nodeID, nonce, signedAt)))))))))"

definition VerifyInternalRequest ::
  "crypto \<Rightarrow> request \<Rightarrow> string \<Rightarrow> string \<Rightarrow> string \<Rightarrow> int \<Rightarrow> replay_guard \<Rightarrow> (protocol_error + unit) \<times> replay_guard" where
  "VerifyInternalRequest cr request body secret expectedNodeID now guard =
     (case authentic cr request body secret expectedNodeID now of
        None \<Rightarrow> (Inl InternalAuth, guard)
      | Some (nodeID, nonce, signedAt) \<Rightarrow>
        (case guard_accept nodeID nonce signedAt now guard of
           (False, guard') \<Rightarrow> (Inl InternalReplay, guard')
         | (True, guard') \<Rightarrow> (Inr (), guard')))"

section \<open>Signing and verifying\<close>

lemmas header_names = StorageHeaderNode_def StorageHeaderTimestamp_def StorageHeaderNonce_def StorageHeaderSignature_def
  StorageHeaderAudience_def StorageHeaderDirection_def

lemma singleHeader_one [simp]: "header name = [v] \<Longrightarrow> v \<noteq> '''' \<Longrightarrow> singleHeader header name = Some v"
  by (simp add: singleHeader_def)

lemma digit_printable: "c = CHR ''-'' \<or> digit_value c \<noteq> None \<Longrightarrow> printable c"
proof -
  have "printable (CHR ''-'')" by code_simp
  moreover have "printable c" if "digit_value c \<noteq> None"
  proof -
    have "48 \<le> (of_char c :: nat)" "(of_char c :: nat) \<le> 57" using that by (auto simp: digit_value_def split: if_splits)
    then show ?thesis by (simp add: printable_def less_eq_char_def)
  qed
  ultimately show "c = CHR ''-'' \<or> digit_value c \<noteq> None \<Longrightarrow> printable c" by blast
qed

lemma TrimSpace_show_int: "TrimSpace (show_int n) = show_int n"
  using show_int_nonempty [of n] show_int_characters [of _ n]
  by (intro TrimSpace_id digit_printable) (simp_all add: hd_in_set last_in_set)

lemma domain_nonempty: "storageInternalRequestDomain p = Some (audience, direction) \<Longrightarrow> audience \<noteq> '''' \<and> direction \<noteq> ''''"
  by (auto simp: storageInternalRequestDomain_def split: if_splits)

lemma signed_authentic:
  assumes size: "\<And>k m. length (cr_hmac cr k m) = 32"
    and signed: "SignInternalRequestAt cr rq node secret body at nonce = Inr rq'"
    and range: "- (2 ^ 63) \<le> Unix at" "Unix at \<le> max_int64"
    and skew: "now - storageInternalMaxSkew \<le> Unix at * second" "Unix at * second \<le> now + storageInternalMaxSkew"
  shows "authentic cr rq' body secret node now = Some (node, nonce, Unix at * second)"
proof -
  obtain audience direction where ok: "\<not> length secret < 32" "validStorageNodeID node" "validInternalNonce nonce"
      and dom: "storageInternalRequestDomain (rq_escapedPath rq) = Some (audience, direction)"
    using signed by (auto simp: SignInternalRequestAt_def split: if_splits option.splits)
  define sig where "sig = storageInternalSignature cr secret node audience direction (rq_method rq)
               (rq_escapedPath rq) (rq_rawQuery rq) (show_int (Unix at)) nonce body"
  have h: "rq_header rq' = (rq_header rq)(StorageHeaderNode := [node], StorageHeaderTimestamp := [show_int (Unix at)],
              StorageHeaderNonce := [nonce], StorageHeaderAudience := [audience], StorageHeaderDirection := [direction],
              StorageHeaderSignature := [sig])" "rq_method rq' = rq_method rq" "rq_escapedPath rq' = rq_escapedPath rq" "rq_rawQuery rq' = rq_rawQuery rq"
    using signed ok dom by (auto simp: SignInternalRequestAt_def Let_def sig_def)
  obtain mac where mac: "sig = base64_encode mac" "length mac = 32" using size by (auto simp: sig_def storageInternalSignature_def)
  have ne: "node \<noteq> ''''" "nonce \<noteq> ''''" "sig \<noteq> ''''" "audience \<noteq> ''''" "direction \<noteq> ''''"
    using ok(2,3) mac domain_nonempty [OF dom] by (auto simp: validStorageNodeID_def validInternalNonce_def base64_empty)
  have hs: "singleHeader (rq_header rq') StorageHeaderNode = Some node" "singleHeader (rq_header rq') StorageHeaderTimestamp = Some (show_int (Unix at))"
    "singleHeader (rq_header rq') StorageHeaderNonce = Some nonce" "singleHeader (rq_header rq') StorageHeaderAudience = Some audience"
    "singleHeader (rq_header rq') StorageHeaderDirection = Some direction" "singleHeader (rq_header rq') StorageHeaderSignature = Some sig"
    using ne show_int_nonempty by (auto simp: h header_names)
  show ?thesis
    using ok dom skew range mac(2) ParseInt_show_int [OF range]
    by (simp add: authentic_def hs h(2-4) Let_def TrimSpace_show_int sig_def [symmetric] mac(1) base64_roundtrip)
qed

section \<open>A request is accepted once\<close>

type_synonym verify_call = "request \<times> string \<times> string \<times> string \<times> int"

fun verify_all :: "crypto \<Rightarrow> verify_call list \<Rightarrow> replay_guard \<Rightarrow> replay_guard" where
  "verify_all cr [] g = g"
| "verify_all cr ((rq, body, secret, node, now) # calls) g = verify_all cr calls (snd (VerifyInternalRequest cr rq body secret node now g))"

definition call_time :: "verify_call \<Rightarrow> int" where
  "call_time c = snd (snd (snd (snd c)))"

text \<open>Once accepted, a nonce is remembered as long as its signature could pass the clock check.\<close>

definition remembered :: "string \<Rightarrow> int \<Rightarrow> int \<Rightarrow> replay_guard \<Rightarrow> bool" where
  "remembered key signedAt now g \<longleftrightarrow> g key = Some (Unix (signedAt + storageInternalMaxSkew)) \<or> signedAt + storageInternalMaxSkew < now"

lemma Unix_mono: "s \<le> t \<Longrightarrow> Unix s \<le> Unix t"
  by (simp add: Unix_def second_def zdiv_mono1)

lemma accept_remembers:
  assumes "guard_accept node nonce signedAt now g = (True, g')"
  shows "remembered (node @ [CHR 0x00] @ nonce) signedAt now g'"
  using assms by (auto simp: guard_accept_def remembered_def Let_def split: option.splits if_splits)

lemma accept_keeps:
  assumes "remembered key t now0 g" "now0 \<le> now" "guard_accept node nonce signedAt now g = (b, g')"
  shows "remembered key t now g'"
proof (cases "t + storageInternalMaxSkew < now")
  case False
  then have "g key = Some (Unix (t + storageInternalMaxSkew))" using assms(1,2) by (auto simp: remembered_def)
  moreover have "\<not> Unix (t + storageInternalMaxSkew) < Unix now" using Unix_mono [of now "t + storageInternalMaxSkew"] False by simp
  ultimately have "prune_seen (Unix now) g key = Some (Unix (t + storageInternalMaxSkew))" "Unix now \<le> Unix (t + storageInternalMaxSkew)"
    by (simp_all add: prune_seen_def)
  then have "g' key = Some (Unix (t + storageInternalMaxSkew))"
    using assms(3) by (auto simp: guard_accept_def Let_def split: option.splits if_splits)
  then show ?thesis by (simp add: remembered_def)
qed (simp add: remembered_def)

lemma verify_keeps:
  assumes "remembered key t now0 g" "now0 \<le> now"
  shows "remembered key t now (snd (VerifyInternalRequest cr rq body secret node now g))"
proof (cases "authentic cr rq body secret node now")
  case None
  then show ?thesis using assms by (auto simp: VerifyInternalRequest_def remembered_def)
next
  case (Some x)
  obtain n c s where x: "x = (n, c, s)" by (cases x) auto
  obtain b g' where a: "guard_accept n c s now g = (b, g')" by fastforce
  then show ?thesis using accept_keeps [OF assms a] Some x by (cases b) (simp_all add: VerifyInternalRequest_def)
qed

lemma verify_all_keeps:
  "remembered key t now g \<Longrightarrow> sorted (now # map call_time calls @ [now']) \<Longrightarrow> remembered key t now' (verify_all cr calls g)"
proof (induction cr calls g arbitrary: now rule: verify_all.induct)
  case (1 cr g)
  then show ?case by (auto simp: remembered_def)
next
  case (2 cr rq body secret node n calls g)
  have "remembered key t n (snd (VerifyInternalRequest cr rq body secret node n g))"
    by (rule verify_keeps [OF 2(2)]) (use 2(3) in \<open>simp add: call_time_def\<close>)
  then show ?case using 2(1) 2(3) by (simp add: call_time_def)
qed

lemma remembered_rejected:
  assumes "authentic cr rq body secret node now = Some (n, c, s)" "remembered (n @ [CHR 0x00] @ c) s now g"
  shows "fst (VerifyInternalRequest cr rq body secret node now g) = Inl InternalReplay"
proof -
  have late: "now \<le> s + storageInternalMaxSkew" using assms(1) by (auto simp: authentic_def Let_def split: if_splits option.splits prod.splits)
  then have "g (n @ [CHR 0x00] @ c) = Some (Unix (s + storageInternalMaxSkew))" "Unix now \<le> Unix (s + storageInternalMaxSkew)"
    using assms(2) Unix_mono by (auto simp: remembered_def)
  then have "fst (guard_accept n c s now g) = False" by (simp add: guard_accept_def prune_seen_def Let_def)
  then show ?thesis using assms(1) by (auto simp: VerifyInternalRequest_def split: prod.splits)
qed

lemma authentic_time:
  assumes "authentic cr rq body secret node now = Some x" "authentic cr rq body secret node now' = Some y"
  shows "x = y"
  using assms by (auto simp: authentic_def Let_def split: if_splits option.splits prod.splits)

lemma accepted_once:
  assumes ok: "VerifyInternalRequest cr rq body secret node now g = (Inr (), g1)" and time: "sorted (now # map call_time calls @ [now'])"
  shows "fst (VerifyInternalRequest cr rq body secret node now' (verify_all cr calls g1)) \<noteq> Inr ()"
proof (cases "authentic cr rq body secret node now'")
  case None
  then show ?thesis by (simp add: VerifyInternalRequest_def)
next
  case (Some y)
  obtain n c s where a: "authentic cr rq body secret node now = Some (n, c, s)" and acc: "guard_accept n c s now g = (True, g1)"
    using ok by (auto simp: VerifyInternalRequest_def split: option.splits prod.splits bool.splits)
  have "y = (n, c, s)" using authentic_time [OF Some a] .
  then show ?thesis using remembered_rejected [of cr rq body secret node now' n c s] Some
      verify_all_keeps [OF accept_remembers [OF acc] time] by simp
qed

text \<open>C30. A signed request is accepted, and only once. What SignInternalRequestAt produces is accepted by
  a verifier with the same secret whose clock is within a minute of the signature and who has not
  seen the nonce; after that, whatever other requests the verifier processes while its clock does not
  run back, the same request is never accepted again.\<close>

theorem signed_request_accepted_once:
  assumes "\<And>k m. length (cr_hmac cr k m) = 32"
    and "SignInternalRequestAt cr rq node secret body at nonce = Inr rq'"
    and "- (2 ^ 63) \<le> Unix at" "Unix at \<le> max_int64"
    and "now - storageInternalMaxSkew \<le> Unix at * second" "Unix at * second \<le> now + storageInternalMaxSkew"
    and "g (node @ [CHR 0x00] @ nonce) = None"
    and "sorted (now # map call_time calls @ [now'])"
  shows "fst (VerifyInternalRequest cr rq' body secret node now g) = Inr () \<and>
    fst (VerifyInternalRequest cr rq' body secret node now' (verify_all cr calls (snd (VerifyInternalRequest cr rq' body secret node now g)))) \<noteq> Inr ()"
proof -
  have "authentic cr rq' body secret node now = Some (node, nonce, Unix at * second)" using signed_authentic [OF assms(1-6)] .
  moreover obtain g1 where "guard_accept node nonce (Unix at * second) now g = (True, g1)"
    using assms(7) by (simp add: guard_accept_def prune_seen_def Let_def)
  ultimately have g1: "VerifyInternalRequest cr rq' body secret node now g = (Inr (), g1)" by (simp add: VerifyInternalRequest_def)
  then show ?thesis using accepted_once [OF g1 assms(8)] by simp
qed

definition demo_crypto :: crypto where
  "demo_crypto = \<lparr>cr_sha256 = (\<lambda>s. take 32 (s @ replicate 32 (CHR 0x00))), cr_hmac = (\<lambda>k m. take 32 (m @ k @ replicate 32 (CHR 0x00)))\<rparr>"

definition demo_request :: request where
  "demo_request = \<lparr>rq_method = ''POST'', rq_escapedPath = ''/internal/v1/uploads'', rq_rawQuery = '''', rq_header = (\<lambda>_. [])\<rparr>"

definition demo_secret :: string where
  "demo_secret = replicate 32 (CHR ''k'')"

theorem signed_request_accepted_once_witness:
  "\<exists>rq'. SignInternalRequestAt demo_crypto demo_request ''node-1'' demo_secret ''{}'' (1000 * second) ''nonce-123'' = Inr rq' \<and>
     fst (VerifyInternalRequest demo_crypto rq' ''{}'' demo_secret ''node-1'' (1030 * second) Map.empty) = Inr () \<and>
     fst (VerifyInternalRequest demo_crypto rq' ''{}'' demo_secret ''node-1'' (1031 * second)
       (snd (VerifyInternalRequest demo_crypto rq' ''{}'' demo_secret ''node-1'' (1030 * second) Map.empty))) \<noteq> Inr ()"
proof -
  have size: "\<And>k m. length (cr_hmac demo_crypto k m) = 32" by (simp add: demo_crypto_def)
  have dom: "length demo_secret = 32" "validStorageNodeID ''node-1''" "validInternalNonce ''nonce-123''"
    "storageInternalRequestDomain (rq_escapedPath demo_request) = Some (''quicktransfer-storage'', ''control-to-storage'')" by code_simp+
  then obtain rq' where rq': "SignInternalRequestAt demo_crypto demo_request ''node-1'' demo_secret ''{}'' (1000 * second) ''nonce-123'' = Inr rq'"
    by (auto simp: SignInternalRequestAt_def Let_def)
  have t: "- (2 ^ 63) \<le> Unix (1000 * second)" "Unix (1000 * second) \<le> max_int64"
    "1030 * second - storageInternalMaxSkew \<le> Unix (1000 * second) * second" "Unix (1000 * second) * second \<le> 1030 * second + storageInternalMaxSkew"
    "sorted (1030 * second # map call_time [] @ [1031 * second])" by code_simp+
  have "Map.empty (''node-1'' @ [CHR 0x00] @ ''nonce-123'') = (None :: int option)" by simp
  from signed_request_accepted_once [OF size rq' t(1-4) this t(5)] rq' show ?thesis by auto
qed

end
