(* ===== verification/Settings.thy ===== *)
theory Settings
  imports Storage_Protocol
begin

text \<open>
  The service settings an administrator edits (settings.go) with the rules every stored version obeys
  (\<^verbatim>\<open>normalizeServiceSettings\<close>), the update of their secrets, and the addresses and host names of
  human_verification.go they contain. Durations of the configuration are nanoseconds.
\<close>

section \<open>The settings\<close>

record RegistrationSettings =
  rg_Open :: bool
  rg_RequireTerms :: bool
  rg_AllowedDomains :: "string list"
  rg_EmailCooldownSeconds :: int
  rg_EmailHourly :: int
  rg_EmailDaily :: int
  rg_IPHourly :: int
  rg_IPDaily :: int
  rg_DomainHourly :: int
  rg_DomainDaily :: int
  rg_SuccessfulPerIPDaily :: int
  rg_SuccessfulPerSubnetDaily :: int

record DefaultQuotaSettings =
  df_GuestMaxFileBytes :: int
  df_GuestMaxTransferBytes :: int
  df_GuestMaxFiles :: int
  df_GuestMaxDownloads :: int
  df_GuestDailyBytes :: int
  df_GuestDailyTasks :: int
  df_UserStorageBytes :: int
  df_UserMonthlyTraffic :: int
  df_DefaultExpiryHours :: int
  df_MaximumExpiryHours :: int

record SMTPSettings =
  sm_Enabled :: bool
  sm_Provider :: string
  sm_Host :: string
  sm_Port :: int
  sm_Username :: string
  sm_From :: string
  sm_FromName :: string
  sm_TLSMode :: string
  sm_AuthMode :: string
  sm_PasswordConfigured :: bool
  sm_LastTestedAt :: int
  sm_LastTestSucceeded :: bool

record CaptchaSettings =
  cp_Enabled :: bool
  cp_Provider :: string
  cp_SiteKey :: string
  cp_AllowedHostnames :: "string list"
  cp_TencentCaptchaAppID :: int
  cp_Actions :: "string \<rightharpoonup> bool"
  cp_SecretConfigured :: bool
  cp_TencentCredentialsConfigured :: bool

record PaymentSettings =
  pm_PointsEnabled :: bool
  pm_WechatEnabled :: bool
  pm_WechatMerchantID :: string
  pm_WechatAppID :: string
  pm_WechatSecretConfigured :: bool
  pm_AlipayEnabled :: bool
  pm_AlipayAppID :: string
  pm_AlipaySecretConfigured :: bool

record TermsSettings =
  tm_Version :: string
  tm_Title :: string
  tm_Content :: string
  tm_EffectiveAt :: int

record ServiceSettings =
  ss_Revision :: int
  ss_Registration :: RegistrationSettings
  ss_Defaults :: DefaultQuotaSettings
  ss_SMTP :: SMTPSettings
  ss_Captcha :: CaptchaSettings
  ss_Payment :: PaymentSettings
  ss_Terms :: TermsSettings
  ss_UpdatedAt :: int
  ss_UpdatedBy :: string

record ServiceSecrets =
  sc_SMTPPassword :: string
  sc_TurnstileSecret :: string
  sc_TencentAppSecretKey :: string
  sc_TencentSecretID :: string
  sc_TencentSecretKey :: string
  sc_WechatAPIv3Key :: string
  sc_AlipayPrivateKey :: string

record SecretSettingsUpdate =
  up_SMTPPassword :: string
  up_ClearSMTPPassword :: bool
  up_TurnstileSecret :: string
  up_ClearTurnstileSecret :: bool
  up_TencentAppSecretKey :: string
  up_TencentSecretID :: string
  up_TencentSecretKey :: string
  up_ClearTencentSecrets :: bool

text \<open>A missing key of a Go map reads as \<^verbatim>\<open>false\<close>.\<close>

definition enabled_action :: "(string \<rightharpoonup> bool) \<Rightarrow> string \<Rightarrow> bool" where
  "enabled_action actions action = (case actions action of None \<Rightarrow> False | Some enabled \<Rightarrow> enabled)"

definition termsDocumentHash :: "crypto \<Rightarrow> TermsSettings \<Rightarrow> string" where
  "termsDocumentHash cr terms = hex_encode (cr_sha256 cr (tm_Version terms @ [CHR 0x0A] @ tm_Title terms @ [CHR 0x0A] @
     show_int (tm_EffectiveAt terms) @ [CHR 0x0A] @ tm_Content terms))"

section \<open>Addresses and host names\<close>

text \<open>\<^verbatim>\<open>net.ParseIP\<close> of Go's library: whether the text is an address. A decimal field has no leading zero.\<close>

definition ipv4_field :: "string \<Rightarrow> bool" where
  "ipv4_field s \<longleftrightarrow> (case parse_digits 0 s of None \<Rightarrow> False | Some n \<Rightarrow> s \<noteq> [] \<and> n \<le> 255 \<and> (length s = 1 \<or> hd s \<noteq> CHR ''0''))"

definition ipv4 :: "string \<Rightarrow> bool" where
  "ipv4 s \<longleftrightarrow> length (split_at (CHR ''.'') s) = 4 \<and> list_all ipv4_field (split_at (CHR ''.'') s)"

definition ip_hex :: "char \<Rightarrow> bool" where
  "ip_hex c \<longleftrightarrow> (CHR ''0'' \<le> c \<and> c \<le> CHR ''9'') \<or> (CHR ''a'' \<le> c \<and> c \<le> CHR ''f'') \<or> (CHR ''A'' \<le> c \<and> c \<le> CHR ''F'')"

text \<open>The loop of \<^verbatim>\<open>netip.parseIPv6\<close>: \<open>i\<close> bytes are filled, \<open>ellipsis\<close> says whether \<open>::\<close> was read. A group has
  one to four digits, and a dotted address may fill the last four bytes.\<close>

fun ipv6_groups :: "nat \<Rightarrow> nat \<Rightarrow> bool \<Rightarrow> string \<Rightarrow> bool" where
  "ipv6_groups 0 i ellipsis s \<longleftrightarrow> s = [] \<and> \<not> ellipsis"
| "ipv6_groups (Suc left) i ellipsis s \<longleftrightarrow>
     (let group = takeWhile ip_hex s; rest = dropWhile ip_hex s
      in if group = [] \<or> length group > 4 then False
         else case rest of
           [] \<Rightarrow> (if left = 0 then \<not> ellipsis else ellipsis)
         | c # t \<Rightarrow>
           (if c = CHR ''.'' then (ellipsis \<or> i = 12) \<and> i + 4 \<le> 16 \<and> ipv4 s \<and> (if i + 4 = 16 then \<not> ellipsis else ellipsis)
            else if c \<noteq> CHR '':'' \<or> t = [] then False
            else if hd t = CHR '':''
                 then \<not> ellipsis \<and> left \<noteq> 0 \<and> (tl t = [] \<or> ipv6_groups left (i + 2) True (tl t))
                 else ipv6_groups left (i + 2) ellipsis t))"

definition ipv6 :: "string \<Rightarrow> bool" where
  "ipv6 s \<longleftrightarrow> (if take 2 s = ''::'' then drop 2 s = [] \<or> ipv6_groups 8 0 True (drop 2 s) else ipv6_groups 8 0 False s)"

definition ParseIP :: "string \<Rightarrow> bool" where
  "ParseIP s \<longleftrightarrow> (case find (\<lambda>c. c = CHR ''.'' \<or> c = CHR '':'' \<or> c = CHR 0x25) s of
     None \<Rightarrow> False | Some c \<Rightarrow> if c = CHR ''.'' then ipv4 s else c = CHR '':'' \<and> CHR 0x25 \<notin> set s \<and> ipv6 s)"

definition normalizeHumanVerificationIP :: "string \<Rightarrow> string result" where
  "normalizeHumanVerificationIP value = (let v = TrimSpace value in if ParseIP v then Inr v else Inl ErrOther)"

definition label_character :: "char \<Rightarrow> bool" where
  "label_character c \<longleftrightarrow> (CHR ''a'' \<le> c \<and> c \<le> CHR ''z'') \<or> (CHR ''0'' \<le> c \<and> c \<le> CHR ''9'') \<or> c = CHR ''-''"

definition dns_label :: "string \<Rightarrow> bool" where
  "dns_label label \<longleftrightarrow> label \<noteq> [] \<and> length label \<le> 63 \<and> hd label \<noteq> CHR ''-'' \<and> last label \<noteq> CHR ''-'' \<and> list_all label_character label"

definition TrimSuffix :: "string \<Rightarrow> char \<Rightarrow> string" where
  "TrimSuffix s c = (if s \<noteq> [] \<and> last s = c then butlast s else s)"

definition normalizeHumanVerificationHostname :: "string \<Rightarrow> string result" where
  "normalizeHumanVerificationHostname value =
     (let hostname = TrimSuffix (ToLower (TrimSpace value)) (CHR ''.'')
      in if hostname = '''' \<or> length hostname > 253 \<or> CHR ''*'' \<in> set hostname \<or>
            list_ex (\<lambda>c. c \<in> {CHR ''/'', CHR 0x5C, CHR '' '', CHR '':'', CHR 0x09, CHR 0x0D, CHR 0x0A}) hostname then Inl ErrOther
         else if ParseIP hostname then (if CHR '':'' \<in> set hostname then Inl ErrOther else Inr hostname)
         else if list_all dns_label (split_at (CHR ''.'') hostname) then Inr hostname
         else Inl ErrOther)"

text \<open>The loop of normalizeAllowedHostnames, with the result so far; \<open>seen\<close> of the code is its set.\<close>

fun allowed_hostnames :: "string list \<Rightarrow> string list \<Rightarrow> string list result" where
  "allowed_hostnames [] result = Inr result"
| "allowed_hostnames (value # values) result =
     (case normalizeHumanVerificationHostname value of
        Inl e \<Rightarrow> Inl ErrOther
      | Inr hostname \<Rightarrow> allowed_hostnames values (if hostname \<in> set result then result else result @ [hostname]))"

definition normalizeAllowedHostnames :: "string list \<Rightarrow> string list result" where
  "normalizeAllowedHostnames values = allowed_hostnames values []"

fun normalizeHumanVerificationHostnames_from :: "string list \<Rightarrow> string set \<Rightarrow> string set result" where
  "normalizeHumanVerificationHostnames_from [] result = (if result = {} then Inl ErrOther else Inr result)"
| "normalizeHumanVerificationHostnames_from (value # values) result =
     (case normalizeHumanVerificationHostname value of
        Inl e \<Rightarrow> Inl ErrOther
      | Inr hostname \<Rightarrow> normalizeHumanVerificationHostnames_from values (insert hostname result))"

definition normalizeHumanVerificationHostnames :: "string list \<Rightarrow> string set result" where
  "normalizeHumanVerificationHostnames values = normalizeHumanVerificationHostnames_from values {}"

text \<open>normalizeEmailDomains of email.go. Each trusted provider matches the pattern the code checks first, so
  membership decides alone whether an entry passes.\<close>

definition trustedProviders :: "string list" where
  "trustedProviders = [''qq.com'', ''163.com'', ''gmail.com'']"

definition email_domain :: "string \<Rightarrow> string" where
  "email_domain value = ToLower (TrimSpace (if take 1 value = ''@'' then tl value else value))"

fun email_domains :: "string list \<Rightarrow> string list \<Rightarrow> string list result" where
  "email_domains [] result = (if result = [] then Inl ErrOther else Inr result)"
| "email_domains (value # values) result =
     (let domain = email_domain value
      in if domain \<notin> set trustedProviders then Inl ErrOther
         else email_domains values (if domain \<in> set result then result else result @ [domain]))"

definition normalizeEmailDomains :: "string list \<Rightarrow> string list result" where
  "normalizeEmailDomains values = email_domains values []"

section \<open>Secrets\<close>

definition set_secret :: "string \<Rightarrow> string \<Rightarrow> bool \<Rightarrow> string" where
  "set_secret current incoming clearValue =
     (if clearValue then '''' else if TrimSpace incoming \<noteq> '''' then TrimSpace incoming else current)"

definition applySecretUpdate :: "ServiceSecrets \<Rightarrow> SecretSettingsUpdate \<Rightarrow> ServiceSecrets" where
  "applySecretUpdate current update =
     current\<lparr>sc_SMTPPassword := set_secret (sc_SMTPPassword current) (up_SMTPPassword update) (up_ClearSMTPPassword update),
       sc_TurnstileSecret := set_secret (sc_TurnstileSecret current) (up_TurnstileSecret update) (up_ClearTurnstileSecret update),
       sc_TencentAppSecretKey := (if up_ClearTencentSecrets update then ''''
         else set_secret (sc_TencentAppSecretKey current) (up_TencentAppSecretKey update) False),
       sc_TencentSecretID := (if up_ClearTencentSecrets update then ''''
         else set_secret (sc_TencentSecretID current) (up_TencentSecretID update) False),
       sc_TencentSecretKey := (if up_ClearTencentSecrets update then ''''
         else set_secret (sc_TencentSecretKey current) (up_TencentSecretKey update) False),
       sc_WechatAPIv3Key := '''', sc_AlipayPrivateKey := ''''\<rparr>"

section \<open>The rules of stored settings\<close>

definition smtpProviderDefaults :: "string \<Rightarrow> (string \<times> int \<times> string) result" where
  "smtpProviderDefaults provider =
     (if provider = ''qq'' then Inr (''smtp.qq.com'', 465, ''implicit'')
      else if provider = ''163'' then Inr (''smtp.163.com'', 465, ''implicit'')
      else if provider = ''gmail'' then Inr (''smtp.gmail.com'', 465, ''implicit'')
      else Inl ErrOther)"

definition smtpProviderFromHost :: "string \<Rightarrow> string" where
  "smtpProviderFromHost host =
     (let h = ToLower (TrimSpace host)
      in if h = ''smtp.qq.com'' then ''qq'' else if h = ''smtp.163.com'' then ''163''
         else if h = ''smtp.gmail.com'' then ''gmail'' else '''')"

definition captchaActions :: "string list" where
  "captchaActions = [''login'', ''register'', ''password_reset'', ''guest_transfer'', ''redeem'']"

definition guestCap :: int where "guestCap = 100 * 1024 * 1024"

definition valid_quota :: "DefaultQuotaSettings \<Rightarrow> bool" where
  "valid_quota d \<longleftrightarrow> \<not> (df_GuestMaxFileBytes d \<le> 0 \<or> df_GuestMaxFileBytes d > guestCap \<or>
     df_GuestMaxTransferBytes d < df_GuestMaxFileBytes d \<or> df_GuestMaxTransferBytes d > guestCap \<or>
     df_GuestMaxFiles d < 1 \<or> df_GuestMaxFiles d > 100 \<or> df_GuestMaxDownloads d < 1 \<or>
     df_GuestDailyBytes d < df_GuestMaxTransferBytes d \<or> df_GuestDailyTasks d < 1 \<or>
     df_UserStorageBytes d < 0 \<or> df_UserMonthlyTraffic d < guestCap \<or>
     df_DefaultExpiryHours d < 1 \<or> df_MaximumExpiryHours d < df_DefaultExpiryHours d \<or>
     df_MaximumExpiryHours d > 720)"

definition valid_limits :: "RegistrationSettings \<Rightarrow> bool" where
  "valid_limits r \<longleftrightarrow> \<not> (rg_EmailCooldownSeconds r < 60 \<or> rg_EmailCooldownSeconds r > 3600 \<or>
     rg_EmailHourly r < 1 \<or> rg_EmailDaily r < rg_EmailHourly r \<or>
     rg_IPHourly r < 1 \<or> rg_IPDaily r < rg_IPHourly r \<or>
     rg_DomainHourly r < rg_IPHourly r \<or> rg_DomainDaily r < rg_DomainHourly r \<or>
     rg_SuccessfulPerIPDaily r < 1 \<or> rg_SuccessfulPerSubnetDaily r < rg_SuccessfulPerIPDaily r)"

definition normalize_terms :: "unix_time \<Rightarrow> TermsSettings \<Rightarrow> TermsSettings result" where
  "normalize_terms now t0 =
     (let t = t0\<lparr>tm_Version := cleanText (tm_Version t0) 40, tm_Title := cleanText (tm_Title t0) 160, tm_Content := TrimSpace (tm_Content t0)\<rparr>
      in if tm_Version t = '''' \<or> tm_Title t = '''' \<or> length (tm_Content t) < 200 \<or> length (tm_Content t) > 60000 then Inl ErrOther
         else Inr (if tm_EffectiveAt t \<le> 0 then t\<lparr>tm_EffectiveAt := now\<rparr> else t))"

definition normalize_smtp :: "ServiceSecrets \<Rightarrow> SMTPSettings \<Rightarrow> SMTPSettings result" where
  "normalize_smtp secrets m0 =
     (let m = m0\<lparr>sm_Provider := ToLower (TrimSpace (sm_Provider m0)), sm_Username := TrimSpace (sm_Username m0),
          sm_From := TrimSpace (sm_From m0), sm_FromName := cleanText (sm_FromName m0) 80\<rparr>
      in if \<not> sm_Enabled m then Inr m
         else case smtpProviderDefaults (sm_Provider m) of
           Inl e \<Rightarrow> Inl e
         | Inr (host, port, tlsMode) \<Rightarrow>
           (if sm_Username m = '''' \<or> sm_From m = '''' \<or> sc_SMTPPassword secrets = '''' then Inl ErrOther
            else Inr (m\<lparr>sm_Host := host, sm_Port := port, sm_TLSMode := tlsMode, sm_AuthMode := ''login''\<rparr>)))"

definition normalize_captcha :: "ServiceSecrets \<Rightarrow> CaptchaSettings \<Rightarrow> CaptchaSettings result" where
  "normalize_captcha secrets c0 =
     (case normalizeAllowedHostnames (cp_AllowedHostnames c0) of
        Inl e \<Rightarrow> Inl e
      | Inr hostnames \<Rightarrow>
        (let c = c0\<lparr>cp_Provider := ToLower (TrimSpace (cp_Provider c0)), cp_AllowedHostnames := hostnames,
             cp_Actions := cp_Actions c0 |` set captchaActions\<rparr>
         in if \<not> cp_Enabled c then Inr (c\<lparr>cp_Provider := ''disabled''\<rparr>)
            else if cp_Provider c = ''turnstile'' then
              (if TrimSpace (cp_SiteKey c) = '''' \<or> sc_TurnstileSecret secrets = '''' \<or> cp_AllowedHostnames c = [] then Inl ErrOther else Inr c)
            else if cp_Provider c = ''tencent'' then
              (if cp_TencentCaptchaAppID c \<le> 0 \<or> sc_TencentAppSecretKey secrets = '''' \<or> sc_TencentSecretID secrets = '''' \<or>
                  sc_TencentSecretKey secrets = '''' then Inl ErrOther else Inr c)
            else Inl ErrOther))"

text \<open>What the settings say of the secrets is recomputed, and cash payments stay off.\<close>

definition mark_configured :: "ServiceSecrets \<Rightarrow> ServiceSettings \<Rightarrow> ServiceSettings" where
  "mark_configured secrets s =
     s\<lparr>ss_SMTP := (ss_SMTP s)\<lparr>sm_PasswordConfigured := sc_SMTPPassword secrets \<noteq> ''''\<rparr>,
       ss_Captcha := (ss_Captcha s)\<lparr>cp_SecretConfigured := sc_TurnstileSecret secrets \<noteq> '''',
         cp_TencentCredentialsConfigured := sc_TencentAppSecretKey secrets \<noteq> '''' \<and> sc_TencentSecretID secrets \<noteq> '''' \<and>
           sc_TencentSecretKey secrets \<noteq> ''''\<rparr>,
       ss_Payment := (ss_Payment s)\<lparr>pm_WechatEnabled := False, pm_AlipayEnabled := False,
         pm_WechatSecretConfigured := False, pm_AlipaySecretConfigured := False\<rparr>\<rparr>"

definition normalizeServiceSettings :: "unix_time \<Rightarrow> ServiceSettings \<Rightarrow> ServiceSecrets \<Rightarrow> ServiceSettings result" where
  "normalizeServiceSettings now settings secrets =
     (case normalizeEmailDomains (rg_AllowedDomains (ss_Registration settings)) of
        Inl e \<Rightarrow> Inl ErrOther
      | Inr domains \<Rightarrow>
        (if domains = [] then Inl ErrOther
         else case normalize_terms now (ss_Terms settings) of
           Inl e \<Rightarrow> Inl e
         | Inr terms \<Rightarrow>
           (let registration = (ss_Registration settings)\<lparr>rg_AllowedDomains := domains, rg_RequireTerms := True\<rparr>
            in if \<not> valid_quota (ss_Defaults settings) \<or> \<not> valid_limits registration then Inl ErrOther
               else case normalize_smtp secrets (ss_SMTP settings) of
                 Inl e \<Rightarrow> Inl e
               | Inr smtp \<Rightarrow>
                 (case normalize_captcha secrets (ss_Captcha settings) of
                    Inl e \<Rightarrow> Inl e
                  | Inr captcha \<Rightarrow>
                    Inr (mark_configured secrets (settings\<lparr>ss_Registration := registration, ss_Terms := terms,
                      ss_SMTP := smtp, ss_Captcha := captcha\<rparr>))))))"

section \<open>Defaults\<close>

record Config =
  cf_SMTPHost :: string
  cf_SMTPPort :: int
  cf_SMTPUsername :: string
  cf_SMTPPassword :: string
  cf_SMTPFrom :: string
  cf_SMTPFromName :: string
  cf_SMTPTLSMode :: string
  cf_SMTPAuthMode :: string
  cf_LocalVerification :: bool
  cf_RegistrationOpen :: bool
  cf_EmailAllowedDomains :: "string list"
  cf_VerificationCooldown :: int
  cf_VerificationEmailHourly :: int
  cf_VerificationEmailDaily :: int
  cf_VerificationIPHourly :: int
  cf_VerificationIPDaily :: int
  cf_VerificationDomainHourly :: int
  cf_VerificationDomainDaily :: int
  cf_GuestMaxFileBytes :: int
  cf_GuestMaxTaskBytes :: int
  cf_GuestMaxFiles :: int
  cf_GuestMaxDownloads :: int
  cf_GuestDailyBytes :: int
  cf_GuestDailyTasks :: int
  cf_UserMonthlyTraffic :: int
  cf_DefaultExpiry :: int
  cf_MaxExpiry :: int

text \<open>The title and the content of the bundled document are the arguments. The lifetimes of a loaded
  configuration are whole seconds and hours.\<close>

definition defaultServiceSettings :: "string \<Rightarrow> string \<Rightarrow> Config \<Rightarrow> ServiceSettings" where
  "defaultServiceSettings title content cfg =
     (let smtpProvider = smtpProviderFromHost (cf_SMTPHost cfg);
          smtpEnabled = (\<not> cf_LocalVerification cfg \<and> smtpProvider \<noteq> '''' \<and> cf_SMTPUsername cfg \<noteq> '''' \<and> cf_SMTPPassword cfg \<noteq> '''')
      in \<lparr>ss_Revision = 0,
        ss_Registration = \<lparr>rg_Open = cf_RegistrationOpen cfg, rg_RequireTerms = True, rg_AllowedDomains = cf_EmailAllowedDomains cfg,
          rg_EmailCooldownSeconds = go_div (cf_VerificationCooldown cfg) second, rg_EmailHourly = cf_VerificationEmailHourly cfg,
          rg_EmailDaily = cf_VerificationEmailDaily cfg, rg_IPHourly = cf_VerificationIPHourly cfg, rg_IPDaily = cf_VerificationIPDaily cfg,
          rg_DomainHourly = cf_VerificationDomainHourly cfg, rg_DomainDaily = cf_VerificationDomainDaily cfg,
          rg_SuccessfulPerIPDaily = 3, rg_SuccessfulPerSubnetDaily = 20\<rparr>,
        ss_Defaults = \<lparr>df_GuestMaxFileBytes = cf_GuestMaxFileBytes cfg, df_GuestMaxTransferBytes = cf_GuestMaxTaskBytes cfg,
          df_GuestMaxFiles = cf_GuestMaxFiles cfg, df_GuestMaxDownloads = cf_GuestMaxDownloads cfg,
          df_GuestDailyBytes = cf_GuestDailyBytes cfg, df_GuestDailyTasks = cf_GuestDailyTasks cfg,
          df_UserStorageBytes = 0, df_UserMonthlyTraffic = cf_UserMonthlyTraffic cfg,
          df_DefaultExpiryHours = go_div (cf_DefaultExpiry cfg) (3600 * second), df_MaximumExpiryHours = go_div (cf_MaxExpiry cfg) (3600 * second)\<rparr>,
        ss_SMTP = \<lparr>sm_Enabled = smtpEnabled, sm_Provider = smtpProvider, sm_Host = cf_SMTPHost cfg, sm_Port = cf_SMTPPort cfg,
          sm_Username = cf_SMTPUsername cfg, sm_From = cf_SMTPFrom cfg, sm_FromName = cf_SMTPFromName cfg,
          sm_TLSMode = cf_SMTPTLSMode cfg, sm_AuthMode = cf_SMTPAuthMode cfg, sm_PasswordConfigured = cf_SMTPPassword cfg \<noteq> '''',
          sm_LastTestedAt = 0, sm_LastTestSucceeded = False\<rparr>,
        ss_Captcha = \<lparr>cp_Enabled = False, cp_Provider = ''disabled'', cp_SiteKey = '''', cp_AllowedHostnames = [],
          cp_TencentCaptchaAppID = 0, cp_Actions = (\<lambda>a. if a \<in> set captchaActions then Some True else None),
          cp_SecretConfigured = False, cp_TencentCredentialsConfigured = False\<rparr>,
        ss_Payment = \<lparr>pm_PointsEnabled = True, pm_WechatEnabled = False, pm_WechatMerchantID = '''', pm_WechatAppID = '''',
          pm_WechatSecretConfigured = False, pm_AlipayEnabled = False, pm_AlipayAppID = '''', pm_AlipaySecretConfigured = False\<rparr>,
        ss_Terms = \<lparr>tm_Version = ''2026-08-30'', tm_Title = title, tm_Content = content, tm_EffectiveAt = 1788048000\<rparr>,
        ss_UpdatedAt = 0, ss_UpdatedBy = ''''\<rparr>)"

end
