(* ===== verification/Secret_Envelope.thy ===== *)
theory Secret_Envelope
  imports Storage_Protocol
begin

text \<open>
  The protected form of the secrets the control plane must be able to read back: settings of external
  services (setting_secret_other.go, the build for systems other than Windows) and redemption codes
  (redemption_code_protection.go). AES-GCM is a parameter; the law used of it is that opening undoes
  sealing with the same key, nonce and additional data.
\<close>

record aead =
  ae_seal :: "bytes \<Rightarrow> bytes \<Rightarrow> bytes \<Rightarrow> bytes \<Rightarrow> bytes"
  ae_open :: "bytes \<Rightarrow> bytes \<Rightarrow> bytes \<Rightarrow> bytes \<Rightarrow> bytes option"

definition opens_sealed :: "aead \<Rightarrow> bool" where
  "opens_sealed ae \<longleftrightarrow> (\<forall>key nonce plain aad. length key = 32 \<and> length nonce = 12 \<longrightarrow>
     ae_open ae key nonce (ae_seal ae key nonce plain aad) aad = Some plain)"

section \<open>The standard alphabet\<close>

text \<open>\<^verbatim>\<open>base64.RawStdEncoding\<close> differs from the encoding of \<open>Go_Encoding\<close> in two letters.\<close>

definition std_letter :: "char \<Rightarrow> char" where
  "std_letter c = (if c = CHR ''-'' then CHR ''+'' else if c = CHR ''_'' then CHR ''/'' else c)"

definition url_letter :: "char \<Rightarrow> char" where
  "url_letter c = (if c = CHR ''+'' then CHR ''-'' else if c = CHR ''/'' then CHR ''_'' else c)"

definition base64_std_encode :: "string \<Rightarrow> string" where
  "base64_std_encode s = map std_letter (base64_encode s)"

definition base64_std_decode :: "string \<Rightarrow> string option" where
  "base64_std_decode s = (if CHR ''-'' \<in> set s \<or> CHR ''_'' \<in> set s then None else base64_decode (map url_letter s))"

lemma base64_letter:
  assumes "c \<in> set (base64_encode s)"
  shows "url_letter (std_letter c) = c \<and> std_letter c \<notin> {CHR ''-'', CHR ''_''} \<and> printable (std_letter c)"
proof -
  have "list_all (\<lambda>c. url_letter (std_letter c) = c \<and> std_letter c \<notin> {CHR ''-'', CHR ''_''} \<and> printable (std_letter c)) base64url"
    by code_simp
  moreover have "c \<in> set base64url"
  proof -
    obtain n where n: "n \<in> set (to_sextets (map of_char s))" "c = base64url ! n" using assms by (auto simp: base64_encode_def)
    have "length base64url = 64" by code_simp
    moreover have "n < 64" using to_sextets_less [OF bytes_less, of s] n(1) by (auto simp: list_all_iff)
    ultimately show ?thesis using n(2) by simp
  qed
  ultimately show ?thesis by (simp add: list_all_iff)
qed

lemma base64_std_roundtrip: "base64_std_decode (base64_std_encode s) = Some s"
proof -
  have "map url_letter (map std_letter (base64_encode s)) = base64_encode s"
    by (simp add: map_idI base64_letter)
  moreover have "std_letter ` set (base64_encode s) \<inter> {CHR ''-'', CHR ''_''} = {}" using base64_letter [of _ s] by blast
  then have "CHR ''-'' \<notin> set (map std_letter (base64_encode s))" "CHR ''_'' \<notin> set (map std_letter (base64_encode s))"
    unfolding set_map by blast+
  ultimately show ?thesis using base64_roundtrip by (simp add: base64_std_decode_def base64_std_encode_def)
qed

section \<open>Trimming twice\<close>

lemma leading_0_iff: "\<forall>w \<in> set ws. w \<noteq> [] \<Longrightarrow> leading ws s = 0 \<longleftrightarrow> (\<forall>w \<in> set ws. \<not> prefix w s)"
proof -
  assume ne: "\<forall>w \<in> set ws. w \<noteq> []"
  have p: "w = take (length w) s \<longleftrightarrow> prefix w s" for w by (metis append_eq_conv_conj prefixE prefixI take_is_prefix)
  show ?thesis
  proof (cases "find (\<lambda>w. w = take (length w) s) ws")
    case None
    then have "leading ws s = 0" by (simp add: leading_def)
    moreover have "\<forall>w \<in> set ws. \<not> prefix w s" using None unfolding find_None_iff p by blast
    ultimately show ?thesis by simp
  next
    case (Some w)
    then have "w \<in> set ws" "prefix w s" using p by (auto simp: find_Some_iff)
    then show ?thesis using Some ne by (auto simp: leading_def)
  qed
qed

lemma spaces_nonempty: "\<forall>w \<in> set go_spaces. w \<noteq> []" "\<forall>w \<in> set (map rev go_spaces). w \<noteq> []"
proof -
  have "list_all (\<lambda>w. w \<noteq> []) go_spaces" by code_simp
  then show "\<forall>w \<in> set go_spaces. w \<noteq> []" "\<forall>w \<in> set (map rev go_spaces). w \<noteq> []" by (auto simp: list_all_iff)
qed

lemma trim_leading_done: "leading ws (trim_leading ws s) = 0"
  by (induction ws s rule: trim_leading.induct) (metis trim_leading.simps)

lemma TrimSpace_idem [simp]: "TrimSpace (TrimSpace s) = TrimSpace s"
proof -
  let ?l = "trim_leading go_spaces s" and ?revs = "map rev go_spaces"
  have t: "TrimSpace s = rev (trim_leading ?revs (rev ?l))" by (simp add: TrimSpace_def)
  have "prefix (TrimSpace s) ?l"
    using trim_leading_suffix [of ?revs "rev ?l"] unfolding t by (simp add: suffix_to_prefix)
  then have "leading go_spaces (TrimSpace s) = 0"
    using trim_leading_done [of go_spaces s] prefix_order.trans unfolding leading_0_iff [OF spaces_nonempty(1)] by blast
  then have "trim_leading go_spaces (TrimSpace s) = TrimSpace s" by (rule trim_leading_none)
  moreover have "trim_leading ?revs (rev (TrimSpace s)) = rev (TrimSpace s)"
    unfolding t rev_rev_ident by (rule trim_leading_none [OF trim_leading_done])
  ultimately show ?thesis by (simp add: TrimSpace_def [of "TrimSpace s"])
qed

section \<open>Sealing and opening\<close>

text \<open>The random nonce, or \<open>None\<close> when reading it fails, is an argument.\<close>

definition sealSettingSecret :: "crypto \<Rightarrow> aead \<Rightarrow> string \<Rightarrow> bytes \<Rightarrow> bytes option \<Rightarrow> string result" where
  "sealSettingSecret cr ae value key random =
     (let v = TrimSpace value
      in if v = '''' \<or> length key < 32 then Inl ErrOther
         else case random of None \<Rightarrow> Inl ErrOther
         | Some nonce \<Rightarrow> Inr (''aesgcm:'' @ base64_std_encode (nonce @ ae_seal ae (cr_sha256 cr key) nonce v ''quicktransfer-setting-v1'')))"

definition open_envelope :: "crypto \<Rightarrow> aead \<Rightarrow> bytes \<Rightarrow> string \<Rightarrow> bytes \<Rightarrow> string result" where
  "open_envelope cr ae aad value key =
     (let v = TrimSpace value
      in if take 7 v \<noteq> ''aesgcm:'' \<or> length key < 32 then Inl ErrOther
         else case base64_std_decode (drop 7 v) of
           None \<Rightarrow> Inl ErrOther
         | Some sealed \<Rightarrow>
           (if length sealed < 12 then Inl ErrOther
            else case ae_open ae (cr_sha256 cr key) (take 12 sealed) (drop 12 sealed) aad of
              None \<Rightarrow> Inl ErrOther
            | Some plaintext \<Rightarrow> Inr (TrimSpace plaintext)))"

definition openSettingSecret :: "crypto \<Rightarrow> aead \<Rightarrow> string \<Rightarrow> bytes \<Rightarrow> string result" where
  "openSettingSecret cr ae value key = open_envelope cr ae ''quicktransfer-setting-v1'' value key"

definition sealRedemptionCode :: "crypto \<Rightarrow> aead \<Rightarrow> string \<Rightarrow> bytes \<Rightarrow> bytes option \<Rightarrow> string result" where
  "sealRedemptionCode cr ae value key random =
     (let v = TrimSpace value
      in if v = '''' \<or> length key < 32 then Inl ErrOther
         else case random of None \<Rightarrow> Inl ErrOther
         | Some nonce \<Rightarrow> Inr (''aesgcm:'' @ base64_std_encode (nonce @ ae_seal ae (cr_sha256 cr key) nonce v ''quicktransfer-redemption-code-v1'')))"

definition openRedemptionCode :: "crypto \<Rightarrow> aead \<Rightarrow> string \<Rightarrow> bytes \<Rightarrow> string result" where
  "openRedemptionCode cr ae value key =
     (case open_envelope cr ae ''quicktransfer-redemption-code-v1'' value key of
        Inl e \<Rightarrow> Inl e
      | Inr code \<Rightarrow> if code = '''' then Inl ErrOther else Inr code)"

lemma open_sealed:
  assumes law: "opens_sealed ae" and digest: "\<And>s. length (cr_sha256 cr s) = 32" and "length nonce = 12" "32 \<le> length key"
  shows "open_envelope cr ae aad (''aesgcm:'' @ base64_std_encode (nonce @ ae_seal ae (cr_sha256 cr key) nonce v aad)) key = Inr (TrimSpace v)"
proof -
  let ?sealed = "nonce @ ae_seal ae (cr_sha256 cr key) nonce v aad"
  let ?text = "''aesgcm:'' @ base64_std_encode ?sealed"
  have p: "printable (CHR ''a'')" "printable (CHR '':'')" by code_simp+
  have "printable (last ?text)"
  proof (cases "base64_std_encode ?sealed = []")
    case False
    then have "last (base64_std_encode ?sealed) \<in> set (base64_std_encode ?sealed)" by simp
    then have "printable (last (base64_std_encode ?sealed))" using base64_letter by (auto simp: base64_std_encode_def)
    then show ?thesis using last_appendR [OF False, of "''aesgcm:''"] by argo
  next
    case True
    have "last ''aesgcm:'' = CHR '':''" by code_simp
    then show ?thesis using p unfolding True by (simp only: append_Nil2)
  qed
  then have "TrimSpace ?text = ?text" using p by (intro TrimSpace_id) simp_all
  moreover have "take 7 ?text = ''aesgcm:''" "drop 7 ?text = base64_std_encode ?sealed" by simp_all
  ultimately show ?thesis
    using law digest assms(3,4) by (simp add: open_envelope_def Let_def base64_std_roundtrip opens_sealed_def)
qed

lemma seal_open_setting:
  assumes "opens_sealed ae" "\<And>s. length (cr_sha256 cr s) = 32" "length nonce = 12"
    and "sealSettingSecret cr ae value key (Some nonce) = Inr text"
  shows "openSettingSecret cr ae text key = Inr (TrimSpace value)"
proof -
  have k: "32 \<le> length key" and t: "text = ''aesgcm:'' @ base64_std_encode (nonce @ ae_seal ae (cr_sha256 cr key) nonce (TrimSpace value) ''quicktransfer-setting-v1'')"
    using assms(4) by (auto simp: sealSettingSecret_def Let_def split: if_splits)
  show ?thesis unfolding t openSettingSecret_def open_sealed [OF assms(1-3) k] by simp
qed

lemma seal_open_code:
  assumes "opens_sealed ae" "\<And>s. length (cr_sha256 cr s) = 32" "length nonce = 12"
    and "sealRedemptionCode cr ae value key (Some nonce) = Inr text"
  shows "openRedemptionCode cr ae text key = Inr (TrimSpace value)"
proof -
  have k: "32 \<le> length key" "TrimSpace value \<noteq> ''''"
    and t: "text = ''aesgcm:'' @ base64_std_encode (nonce @ ae_seal ae (cr_sha256 cr key) nonce (TrimSpace value) ''quicktransfer-redemption-code-v1'')"
    using assms(4) by (auto simp: sealRedemptionCode_def Let_def split: if_splits)
  show ?thesis unfolding t openRedemptionCode_def open_sealed [OF assms(1-3) k(1)] using k(2) by simp
qed

end
