(* ===== verification/Settings_Store.thy ===== *)
theory Settings_Store
  imports Settings Secret_Envelope Rate_Limits
begin

text \<open>
  The stored settings of the control plane (settings_store.go): the current version with its revision
  number, the protected secrets, the history of revisions, the archive of legal documents and the log of
  risk events. The JSON form of the settings is a parameter: \<open>pe_decode raw base\<close> is \<^verbatim>\<open>json.Unmarshal\<close> into a
  value that already holds \<open>base\<close>.
\<close>

section \<open>Tables\<close>

record settings_row =
  sr_value :: string
  sr_revision :: int
  sr_updated_by :: ident
  sr_updated_at :: unix_time

record service_secret =
  sv_name :: string
  sv_ciphertext :: string
  sv_protector :: string
  sv_updated_at :: unix_time

record settings_revision =
  rv_id :: ident
  rv_revision :: int
  rv_value_hash :: string
  rv_updated_by :: ident
  rv_updated_at :: unix_time

record archived_document =
  ad_version :: string
  ad_title :: string
  ad_content :: string
  ad_document_hash :: string
  ad_effective_at :: unix_time
  ad_published_at :: unix_time
  ad_created_by :: ident

record risk_event =
  re_id :: ident
  re_action :: string
  re_decision :: string
  re_rule_code :: string
  re_subject_hash :: string
  re_ip_hash :: string
  re_detail :: string
  re_created_at :: unix_time

record verification_receipt =
  vr_id :: ident
  vr_provider :: string
  vr_action :: string
  vr_proof_hash :: string
  vr_ip_hash :: string
  vr_created_at :: unix_time
  vr_expires_at :: unix_time

record policy_db =
  pd_settings :: "settings_row option"
  pd_secrets :: "service_secret list"
  pd_revisions :: "settings_revision list"
  pd_documents :: "archived_document list"
  pd_risk_events :: "risk_event list"
  pd_receipts :: "verification_receipt list"

definition empty_policy :: policy_db where
  "empty_policy = \<lparr>pd_settings = None, pd_secrets = [], pd_revisions = [], pd_documents = [], pd_risk_events = [], pd_receipts = []\<rparr>"

record policy_env =
  pe_crypto :: crypto
  pe_aead :: aead
  pe_encode :: "ServiceSettings \<Rightarrow> string"
  pe_decode :: "string \<Rightarrow> ServiceSettings \<Rightarrow> ServiceSettings option"

type_synonym 'a policy_op = "policy_db \<Rightarrow> 'a result \<times> policy_db"

section \<open>Secrets by name\<close>

text \<open>The code ranges over a map; the order of the rows is not observable, so the names have one here.\<close>

definition settingSecretNames :: "(string \<times> (ServiceSecrets \<Rightarrow> string)) list" where
  "settingSecretNames = [(''smtp_password'', sc_SMTPPassword), (''turnstile_secret'', sc_TurnstileSecret),
     (''tencent_app_secret_key'', sc_TencentAppSecretKey), (''tencent_secret_id'', sc_TencentSecretID),
     (''tencent_secret_key'', sc_TencentSecretKey)]"

definition set_named :: "string \<Rightarrow> string \<Rightarrow> ServiceSecrets \<Rightarrow> ServiceSecrets" where
  "set_named name value s =
     (if name = ''smtp_password'' then s\<lparr>sc_SMTPPassword := value\<rparr>
      else if name = ''turnstile_secret'' then s\<lparr>sc_TurnstileSecret := value\<rparr>
      else if name = ''tencent_app_secret_key'' then s\<lparr>sc_TencentAppSecretKey := value\<rparr>
      else if name = ''tencent_secret_id'' then s\<lparr>sc_TencentSecretID := value\<rparr>
      else if name = ''tencent_secret_key'' then s\<lparr>sc_TencentSecretKey := value\<rparr> else s)"

definition no_secrets :: ServiceSecrets where
  "no_secrets = \<lparr>sc_SMTPPassword = '''', sc_TurnstileSecret = '''', sc_TencentAppSecretKey = '''', sc_TencentSecretID = '''',
     sc_TencentSecretKey = '''', sc_WechatAPIv3Key = '''', sc_AlipayPrivateKey = ''''\<rparr>"

fun load_secrets :: "policy_env \<Rightarrow> bytes \<Rightarrow> service_secret list \<Rightarrow> ServiceSecrets \<Rightarrow> ServiceSecrets result" where
  "load_secrets env key [] secrets = Inr secrets"
| "load_secrets env key (row # rows) secrets =
     (if sv_name row \<notin> set (map fst settingSecretNames) then load_secrets env key rows secrets
      else case openSettingSecret (pe_crypto env) (pe_aead env) (sv_ciphertext row) key of
        Inl e \<Rightarrow> Inl ErrOther
      | Inr value \<Rightarrow> load_secrets env key rows (set_named (sv_name row) value secrets))"

definition secretProtectorName :: "string \<Rightarrow> string" where
  "secretProtectorName value = (if take 6 value = ''dpapi:'' then ''windows-dpapi-localmachine'' else ''application-aesgcm'')"

text \<open>One round of the loop over the secrets: a cleared secret is deleted, any other is sealed and stored.\<close>

definition upsert_secret :: "service_secret \<Rightarrow> service_secret list \<Rightarrow> service_secret list" where
  "upsert_secret r rows =
     (if sql_exists (\<lambda>x. sv_name x = sv_name r) rows then sql_update (\<lambda>x. sv_name x = sv_name r) (\<lambda>_. r) rows else rows @ [r])"

fun save_secrets ::
  "policy_env \<Rightarrow> bytes \<Rightarrow> (string \<Rightarrow> bytes option) \<Rightarrow> unix_time \<Rightarrow> (string \<times> (ServiceSecrets \<Rightarrow> string)) list \<Rightarrow> ServiceSecrets \<Rightarrow>
     service_secret list \<Rightarrow> service_secret list result" where
  "save_secrets env key nonces now [] secrets rows = Inr rows"
| "save_secrets env key nonces now ((name, accessor) # names) secrets rows =
     (if accessor secrets = '''' then save_secrets env key nonces now names secrets (sql_delete (\<lambda>x. sv_name x = name) rows)
      else case sealSettingSecret (pe_crypto env) (pe_aead env) (accessor secrets) key (nonces name) of
        Inl e \<Rightarrow> Inl ErrOther
      | Inr protected \<Rightarrow> save_secrets env key nonces now names secrets
          (upsert_secret \<lparr>sv_name = name, sv_ciphertext = protected, sv_protector = secretProtectorName protected, sv_updated_at = now\<rparr> rows))"

section \<open>Loading and saving\<close>

definition promote_legacy :: "ServiceSettings \<Rightarrow> ServiceSettings \<Rightarrow> ServiceSettings" where
  "promote_legacy defaults s =
     (let s1 = (if tm_Version (ss_Terms s) = ''2026-08-29'' then s\<lparr>ss_Terms := ss_Terms defaults\<rparr> else s);
          files = (if df_GuestMaxFiles (ss_Defaults s1) = 5 \<or> df_GuestMaxFiles (ss_Defaults s1) = 99
                   then df_GuestMaxFiles (ss_Defaults defaults) else df_GuestMaxFiles (ss_Defaults s1))
      in s1\<lparr>ss_Defaults := (ss_Defaults s1)\<lparr>df_GuestMaxFiles := files, df_UserStorageBytes := 0\<rparr>\<rparr>)"

definition stored_settings :: "policy_env \<Rightarrow> ServiceSettings \<Rightarrow> policy_db \<Rightarrow> ServiceSettings result" where
  "stored_settings env defaults db =
     (case pd_settings db of
        None \<Rightarrow> Inr defaults
      | Some row \<Rightarrow>
        (case pe_decode env (sr_value row) (defaults\<lparr>ss_Revision := sr_revision row, ss_UpdatedBy := sr_updated_by row,
               ss_UpdatedAt := sr_updated_at row\<rparr>) of
           None \<Rightarrow> Inl ErrOther
         | Some s \<Rightarrow> Inr (promote_legacy defaults s)))"

definition LoadServiceSettings ::
  "policy_env \<Rightarrow> ServiceSettings \<Rightarrow> bytes \<Rightarrow> unix_time \<Rightarrow> policy_db \<Rightarrow> (ServiceSettings \<times> ServiceSecrets) result" where
  "LoadServiceSettings env defaults key now db =
     (case stored_settings env defaults db of
        Inl e \<Rightarrow> Inl e
      | Inr settings \<Rightarrow>
        (case load_secrets env key (pd_secrets db) no_secrets of
           Inl e \<Rightarrow> Inl e
         | Inr secrets \<Rightarrow>
           (case normalizeServiceSettings now settings secrets of Inl e \<Rightarrow> Inl e | Inr s \<Rightarrow> Inr (s, secrets))))"

definition archive_document :: "policy_env \<Rightarrow> TermsSettings \<Rightarrow> ident \<Rightarrow> unix_time \<Rightarrow> policy_db \<Rightarrow> policy_db result" where
  "archive_document env terms updatedBy now db =
     (let documentHash = termsDocumentHash (pe_crypto env) terms
      in case sql_first (\<lambda>d. ad_version d = tm_Version terms) (pd_documents db) of
           Some d \<Rightarrow> if ad_document_hash d \<noteq> documentHash then Inl ErrConflict else Inr db
         | None \<Rightarrow>
           (case sql_insert ad_document_hash \<lparr>ad_version = tm_Version terms, ad_title = tm_Title terms, ad_content = tm_Content terms,
                   ad_document_hash = documentHash, ad_effective_at = tm_EffectiveAt terms, ad_published_at = now, ad_created_by = updatedBy\<rparr>
                   (pd_documents db) of
              Inl e \<Rightarrow> Inl e | Inr t \<Rightarrow> Inr (db\<lparr>pd_documents := t\<rparr>)))"

definition store_row :: "int \<Rightarrow> settings_row \<Rightarrow> policy_db \<Rightarrow> policy_db result" where
  "store_row expectedRevision row db =
     (case pd_settings db of
        None \<Rightarrow> if expectedRevision = 0 then Inr (db\<lparr>pd_settings := Some row\<rparr>) else Inl ErrConflict
      | Some old \<Rightarrow>
          if expectedRevision \<noteq> 0 \<and> sr_revision old = expectedRevision then Inr (db\<lparr>pd_settings := Some row\<rparr>) else Inl ErrConflict)"

definition record_revision :: "policy_env \<Rightarrow> ident \<Rightarrow> settings_row \<Rightarrow> policy_db \<Rightarrow> policy_db result" where
  "record_revision env revisionID row db =
     (let r = \<lparr>rv_id = revisionID, rv_revision = sr_revision row, rv_value_hash = hex_encode (cr_sha256 (pe_crypto env) (sr_value row)),
          rv_updated_by = sr_updated_by row, rv_updated_at = sr_updated_at row\<rparr>
      in if sql_exists (\<lambda>x. rv_id x = revisionID \<or> rv_revision x = sr_revision row) (pd_revisions db) then Inl ErrConstraint
         else Inr (db\<lparr>pd_revisions := pd_revisions db @ [r]\<rparr>))"

text \<open>\<open>revisionID\<close> is the result of \<^verbatim>\<open>randomToken(16)\<close>, \<open>nonces\<close> the random bytes each secret is sealed with.\<close>

definition SaveServiceSettings ::
  "policy_env \<Rightarrow> ServiceSettings \<Rightarrow> ServiceSecrets \<Rightarrow> int \<Rightarrow> ident \<Rightarrow> bytes \<Rightarrow> ident option \<Rightarrow> (string \<Rightarrow> bytes option) \<Rightarrow> unix_time \<Rightarrow>
     ServiceSettings policy_op" where
  "SaveServiceSettings env settings0 secrets expectedRevision updatedBy key revisionID nonces now db =
     (case normalizeServiceSettings now settings0 secrets of
        Inl e \<Rightarrow> (Inl e, db)
      | Inr normal \<Rightarrow>
        (let settings = normal\<lparr>ss_Revision := i64 (expectedRevision + 1), ss_UpdatedAt := now, ss_UpdatedBy := updatedBy\<rparr>;
             row = \<lparr>sr_value = pe_encode env settings, sr_revision = ss_Revision settings, sr_updated_by = updatedBy, sr_updated_at = now\<rparr>
         in case revisionID of
              None \<Rightarrow> (Inl ErrOther, db)
            | Some rid \<Rightarrow>
              (case archive_document env (ss_Terms settings) updatedBy now db of
                 Inl e \<Rightarrow> (Inl e, db)
               | Inr db1 \<Rightarrow>
                 (case store_row expectedRevision row db1 of
                    Inl e \<Rightarrow> (Inl e, db)
                  | Inr db2 \<Rightarrow>
                    (case save_secrets env key nonces now settingSecretNames secrets (pd_secrets db2) of
                       Inl e \<Rightarrow> (Inl e, db)
                     | Inr rows \<Rightarrow>
                       (case record_revision env rid row (db2\<lparr>pd_secrets := rows\<rparr>) of
                          Inl e \<Rightarrow> (Inl e, db)
                        | Inr db3 \<Rightarrow> (Inr settings, db3)))))))"

text \<open>The empty value of the settings, which DisableCaptchaRecovery decodes into.\<close>

definition zero_settings :: ServiceSettings where
  "zero_settings = \<lparr>ss_Revision = 0,
     ss_Registration = \<lparr>rg_Open = False, rg_RequireTerms = False, rg_AllowedDomains = [], rg_EmailCooldownSeconds = 0,
       rg_EmailHourly = 0, rg_EmailDaily = 0, rg_IPHourly = 0, rg_IPDaily = 0, rg_DomainHourly = 0, rg_DomainDaily = 0,
       rg_SuccessfulPerIPDaily = 0, rg_SuccessfulPerSubnetDaily = 0\<rparr>,
     ss_Defaults = \<lparr>df_GuestMaxFileBytes = 0, df_GuestMaxTransferBytes = 0, df_GuestMaxFiles = 0, df_GuestMaxDownloads = 0,
       df_GuestDailyBytes = 0, df_GuestDailyTasks = 0, df_UserStorageBytes = 0, df_UserMonthlyTraffic = 0,
       df_DefaultExpiryHours = 0, df_MaximumExpiryHours = 0\<rparr>,
     ss_SMTP = \<lparr>sm_Enabled = False, sm_Provider = '''', sm_Host = '''', sm_Port = 0, sm_Username = '''', sm_From = '''', sm_FromName = '''',
       sm_TLSMode = '''', sm_AuthMode = '''', sm_PasswordConfigured = False, sm_LastTestedAt = 0, sm_LastTestSucceeded = False\<rparr>,
     ss_Captcha = \<lparr>cp_Enabled = False, cp_Provider = '''', cp_SiteKey = '''', cp_AllowedHostnames = [], cp_TencentCaptchaAppID = 0,
       cp_Actions = Map.empty, cp_SecretConfigured = False, cp_TencentCredentialsConfigured = False\<rparr>,
     ss_Payment = \<lparr>pm_PointsEnabled = False, pm_WechatEnabled = False, pm_WechatMerchantID = '''', pm_WechatAppID = '''',
       pm_WechatSecretConfigured = False, pm_AlipayEnabled = False, pm_AlipayAppID = '''', pm_AlipaySecretConfigured = False\<rparr>,
     ss_Terms = \<lparr>tm_Version = '''', tm_Title = '''', tm_Content = '''', tm_EffectiveAt = 0\<rparr>, ss_UpdatedAt = 0, ss_UpdatedBy = ''''\<rparr>"

definition DisableCaptchaRecovery :: "policy_env \<Rightarrow> ident option \<Rightarrow> unix_time \<Rightarrow> int policy_op" where
  "DisableCaptchaRecovery env revisionID now db =
     (case revisionID of
        None \<Rightarrow> (Inl ErrOther, db)
      | Some rid \<Rightarrow>
        (case pd_settings db of
           None \<Rightarrow> (Inl ErrNoRows, db)
         | Some old \<Rightarrow>
           (case pe_decode env (sr_value old) zero_settings of
              None \<Rightarrow> (Inl ErrOther, db)
            | Some s \<Rightarrow>
              (let settings = s\<lparr>ss_Captcha := (ss_Captcha s)\<lparr>cp_Enabled := False, cp_Provider := ''disabled'', cp_Actions := Map.empty\<rparr>,
                     ss_Revision := i64 (sr_revision old + 1), ss_UpdatedAt := now, ss_UpdatedBy := ''local-captcha-recovery''\<rparr>;
                   row = \<lparr>sr_value = pe_encode env settings, sr_revision = ss_Revision settings,
                     sr_updated_by = ss_UpdatedBy settings, sr_updated_at = now\<rparr>
               in case record_revision env rid row (db\<lparr>pd_settings := Some row\<rparr>) of
                    Inl e \<Rightarrow> (Inl e, db)
                  | Inr db' \<Rightarrow> (Inr (ss_Revision settings), db')))))"

definition EnsureLegalDocument :: "policy_env \<Rightarrow> TermsSettings \<Rightarrow> ident \<Rightarrow> unix_time \<Rightarrow> unit policy_op" where
  "EnsureLegalDocument env terms createdBy now db =
     (let documentHash = termsDocumentHash (pe_crypto env) terms;
          db' = (if sql_exists (\<lambda>d. ad_version d = tm_Version terms \<or> ad_document_hash d = documentHash) (pd_documents db) then db
                 else db\<lparr>pd_documents := pd_documents db @ [\<lparr>ad_version = tm_Version terms, ad_title = tm_Title terms,
                   ad_content = tm_Content terms, ad_document_hash = documentHash, ad_effective_at = tm_EffectiveAt terms,
                   ad_published_at = now, ad_created_by = createdBy\<rparr>]\<rparr>)
      in case sql_first (\<lambda>d. ad_version d = tm_Version terms) (pd_documents db') of
           None \<Rightarrow> (Inl ErrNoRows, db')
         | Some d \<Rightarrow> (if ad_document_hash d \<noteq> documentHash then Inl ErrConflict else Inr (), db'))"

definition AddRiskEvent ::
  "string \<Rightarrow> string \<Rightarrow> string \<Rightarrow> string \<Rightarrow> string \<Rightarrow> string \<Rightarrow> ident option \<Rightarrow> unix_time \<Rightarrow> unit policy_op" where
  "AddRiskEvent action decision ruleCode subjectHash ipHash detail eventID now db =
     (case eventID of
        None \<Rightarrow> (Inl ErrOther, db)
      | Some i \<Rightarrow>
        (case sql_insert re_id \<lparr>re_id = i, re_action = action, re_decision = decision, re_rule_code = ruleCode,
                re_subject_hash = subjectHash, re_ip_hash = ipHash, re_detail = cleanText detail 240, re_created_at = now\<rparr> (pd_risk_events db) of
           Inl e \<Rightarrow> (Inl e, db)
         | Inr t \<Rightarrow> (Inr (), db\<lparr>pd_risk_events := t\<rparr>)))"

text \<open>The limits on successful registrations live in the rate limits of the control plane.\<close>

fun allow_each :: "(string \<times> int) list \<Rightarrow> unix_time \<Rightarrow> unit operation" where
  "allow_each [] now db = (Inr (), db)"
| "allow_each ((key, limit) # items) now db =
     (case AllowPersistent key limit 86400 0 0 now db of
        (Inl e, db') \<Rightarrow> (Inl e, db')
      | (Inr allowed, db') \<Rightarrow> if allowed then allow_each items now db' else (Inl ErrRateLimited, db'))"

definition ReserveSuccessfulRegistration :: "string \<Rightarrow> string \<Rightarrow> int \<Rightarrow> int \<Rightarrow> unix_time \<Rightarrow> unit operation" where
  "ReserveSuccessfulRegistration ipHash subnetHash ipDaily subnetDaily now db =
     allow_each [(''registration-success-ip:'' @ ipHash, ipDaily), (''registration-success-subnet:'' @ subnetHash, subnetDaily)] now db"

end
