(* ===== verification/Settings_Normal.thy ===== *)
theory Settings_Normal
  imports Settings Secret_Envelope
begin

text \<open>
  The normal form of the settings is one: the rules of settings.go, applied to settings they have produced,
  change nothing more - but for a text that was cut at a blank, which loses the blank.
\<close>

section \<open>Trimming twice\<close>

definition trimmed :: "string \<Rightarrow> bool" where
  "trimmed s \<longleftrightarrow> leading go_spaces s = 0 \<and> leading (map rev go_spaces) (rev s) = 0"

lemma trimmed_id: "trimmed s \<Longrightarrow> TrimSpace s = s"
  by (simp add: trimmed_def TrimSpace_def trim_leading_none)

lemma leading_prefix: "leading go_spaces s = 0 \<Longrightarrow> prefix p s \<Longrightarrow> leading go_spaces p = 0"
  using leading_0_iff [OF spaces_nonempty(1)] by (meson prefix_order.trans)

lemma TrimSpace_prefix: "prefix (TrimSpace s) (trim_leading go_spaces s)"
  unfolding TrimSpace_def using trim_leading_suffix [of "map rev go_spaces" "rev (trim_leading go_spaces s)"] by (simp add: suffix_to_prefix)

lemma TrimSpace_trimmed: "trimmed (TrimSpace s)"
  using leading_prefix [OF trim_leading_done TrimSpace_prefix] trim_leading_done [of "map rev go_spaces"] by (simp add: trimmed_def TrimSpace_def)

lemma TrimSpace_set: "set (TrimSpace s) \<subseteq> set s"
  using set_mono_prefix [OF TrimSpace_prefix [of s]] set_mono_suffix [OF trim_leading_suffix [of go_spaces s]] by blast

lemma find_found: "find P xs = Some x \<Longrightarrow> x \<in> set xs \<and> P x"
  by (induction xs) (auto split: if_splits)

lemma trim_back_all: "trim_leading (map rev ws) r = [] \<Longrightarrow> r \<noteq> [] \<Longrightarrow> \<exists>w \<in> set ws. prefix w (rev r) \<and> w \<noteq> []"
proof (induction "map rev ws" r rule: trim_leading.induct)
  case (1 s)
  let ?n = "leading (map rev ws) s"
  have n: "?n \<noteq> 0" using 1(2,3) trim_leading_none by metis
  then obtain v where v: "find (\<lambda>w. w = take (length w) s) (map rev ws) = Some v" "?n = length v"
    by (auto simp: leading_def split: option.splits)
  then have "v \<in> set (map rev ws)" "v = take (length v) s" using find_found by fastforce+
  then obtain w where w: "w \<in> set ws" "rev w = take (length w) s" "?n = length w" using v(2) by auto
  have s: "rev s = rev (drop (length w) s) @ w"
    using w(2) by (metis append_take_drop_id rev_append rev_rev_ident)
  show ?case
  proof (cases "drop ?n s = []")
    case True
    then have "rev s = w" using s w(3) by simp
    then show ?thesis using w(1) 1(3) by auto
  next
    case False
    have "trim_leading (map rev ws) (drop ?n s) = []" using 1(2) n by (simp add: trim_leading.simps [of "map rev ws" s])
    then obtain v where "v \<in> set ws" "prefix v (rev (drop ?n s))" "v \<noteq> []" using 1(1) [OF n _ False] by blast
    then show ?thesis using s w(3) by (metis prefix_prefix)
  qed
qed

lemma TrimSpace_ne: "leading go_spaces s = 0 \<Longrightarrow> s \<noteq> [] \<Longrightarrow> TrimSpace s \<noteq> []"
  using trim_back_all [of go_spaces "rev s"] leading_0_iff [OF spaces_nonempty(1), where s = s] by (auto simp: TrimSpace_def trim_leading_none)

section \<open>Cutting twice\<close>

lemma take_runes_prefix: "prefix (take_runes n s) s"
  by (induction n s rule: take_runes.induct) (auto split: nat.split)

lemma take_runes_ne: "s \<noteq> [] \<Longrightarrow> 0 < n \<Longrightarrow> take_runes n s \<noteq> []"
  by (cases s) (auto split: nat.split)

lemma take_runes_within: "prefix x (take_runes n s) \<Longrightarrow> take_runes n x = x"
proof (induction n s arbitrary: x rule: take_runes.induct)
  case (2 n c s)
  show ?case
  proof (cases x)
    case (Cons d y)
    show ?thesis
    proof (cases "continuation c")
      case True
      then show ?thesis using 2(1) [OF True] 2(3) Cons by simp
    next
      case False
      then show ?thesis using 2(2) [OF False] 2(3) Cons by (cases n) simp_all
    qed
  qed simp
qed simp

lemma clean_leading: "leading go_spaces (cleanText v n) = 0"
  unfolding cleanText_def by (rule leading_prefix [OF _ take_runes_prefix]) (use TrimSpace_trimmed in \<open>simp add: trimmed_def\<close>)

lemma cleanText_twice: "cleanText (cleanText v n) n = TrimSpace (cleanText v n)"
proof -
  let ?c = "cleanText v n"
  have "set ?c \<subseteq> set (filter (\<lambda>c. c \<noteq> CHR 0x00) v)"
    using set_mono_prefix [OF take_runes_prefix] TrimSpace_set unfolding cleanText_def by blast
  then have f: "filter (\<lambda>c. c \<noteq> CHR 0x00) ?c = ?c" by (auto intro: filter_True)
  have "prefix (TrimSpace ?c) ?c" using TrimSpace_prefix [of ?c] by (simp add: trim_leading_none [OF clean_leading])
  then have "take_runes n (TrimSpace ?c) = TrimSpace ?c" unfolding cleanText_def [of v n] by (rule take_runes_within)
  then show ?thesis unfolding cleanText_def [of ?c n] f .
qed

lemma clean_TrimSpace: "cleanText v n \<noteq> [] \<Longrightarrow> TrimSpace (cleanText v n) \<noteq> []"
  by (rule TrimSpace_ne [OF clean_leading])

section \<open>Lower case twice\<close>

definition small :: "char \<Rightarrow> bool" where
  "small c \<longleftrightarrow> CHR ''a'' \<le> c \<and> c \<le> CHR ''z''"

lemma lower_char_cases: "lower_char c = c \<and> \<not> (CHR ''A'' \<le> c \<and> c \<le> CHR ''Z'') \<or> small (lower_char c)"
proof (cases "CHR ''A'' \<le> c \<and> c \<le> CHR ''Z''")
  case True
  then have "65 \<le> (of_char c :: nat)" "(of_char c :: nat) \<le> 90" by (simp_all add: less_eq_char_def)
  then have "small (char_of (of_char c + 32 :: nat))" by (simp add: small_def less_eq_char_def)
  then show ?thesis using True by (simp add: lower_char_def)
next
  case False
  then show ?thesis by (auto simp: lower_char_def)
qed

lemma lower_char_small: "\<not> small (lower_char c) \<Longrightarrow> lower_char c = c"
  using lower_char_cases [of c] by blast

lemma lower_char_twice: "lower_char (lower_char c) = lower_char c"
proof (cases "small (lower_char c)")
  case True
  then have "97 \<le> (of_char (lower_char c) :: nat)" by (simp add: small_def less_eq_char_def)
  then have "\<not> lower_char c \<le> CHR ''Z''" by (simp add: less_eq_char_def)
  then show ?thesis by (simp add: lower_char_def [of "lower_char c"])
next
  case False
  then show ?thesis using lower_char_small [OF False] by simp
qed

lemma small_ik: "small (CHR ''i'')" "small (CHR ''k'')"
  by code_simp+

lemma lowered_prefix: "prefix w (ToLower t) \<Longrightarrow> list_all (\<lambda>c. \<not> small c) w \<Longrightarrow> prefix w t"
proof (induction w arbitrary: t)
  case (Cons c w)
  show ?case
  proof (cases t rule: ToLower.cases)
    case (1 a b s)
    then have l: "c = lower_char a" "prefix w (ToLower (b # s))" using Cons.prems small_ik by (auto split: if_splits)
    then have "prefix w (b # s)" using Cons by simp
    moreover have "a = c" using l(1) lower_char_small [of a] Cons.prems(2) by simp
    ultimately show ?thesis using 1 by simp
  next
    case (2 a)
    then show ?thesis using Cons.prems lower_char_small [of a] by auto
  qed (use Cons.prems in simp)
qed simp

lemma unlettered: "list_all (\<lambda>c. \<not> small c) (ToLower t) \<Longrightarrow> ToLower t = t"
  by (induction t rule: ToLower.induct) (auto simp: small_ik dest: lower_char_small split: if_splits)

lemma lowered_suffix: "suffix w (ToLower t) \<Longrightarrow> list_all (\<lambda>c. \<not> small c) w \<Longrightarrow> suffix w t"
proof (induction t rule: ToLower.induct)
  case (1 a b s)
  have here: "w \<noteq> ToLower (a # b # s)" if "ToLower (a # b # s) \<noteq> a # b # s" using unlettered [of "a # b # s"] 1(5) that by auto
  show ?case
  proof (cases "ToLower (a # b # s) = a # b # s")
    case True
    then show ?thesis using 1(4) by simp
  next
    case False
    consider "a = CHR 0xC4 \<and> b = CHR 0xB0" | "\<not> (a = CHR 0xC4 \<and> b = CHR 0xB0)" "a = CHR 0xE2 \<and> b = CHR 0x84 \<and> take 1 s = [CHR 0xAA]"
      | "\<not> (a = CHR 0xC4 \<and> b = CHR 0xB0)" "\<not> (a = CHR 0xE2 \<and> b = CHR 0x84 \<and> take 1 s = [CHR 0xAA])" by blast
    then show ?thesis
    proof cases
      case 1
      then have eq: "ToLower (a # b # s) = CHR ''i'' # ToLower s" by simp
      have "suffix w (ToLower s)" using here [OF False] "1.prems"(1) unfolding eq suffix_Cons by blast
      then show ?thesis using "1.IH"(1) 1 "1.prems"(2) by (simp add: suffix_Cons)
    next
      case 2
      then have eq: "ToLower (a # b # s) = CHR ''k'' # ToLower (drop 1 s)" by (simp only: ToLower.simps if_False if_True simp_thms)
      have "suffix w (ToLower (drop 1 s))" using here [OF False] "1.prems"(1) unfolding eq suffix_Cons by blast
      then have "suffix w (drop 1 s)" using "1.IH"(2) 2 "1.prems"(2) by blast
      then show ?thesis using suffix_drop suffix_order.trans by (metis suffix_ConsI)
    next
      case 3
      then have eq: "ToLower (a # b # s) = lower_char a # ToLower (b # s)" by (simp only: ToLower.simps if_False)
      have "suffix w (ToLower (b # s))" using here [OF False] "1.prems"(1) unfolding eq suffix_Cons by blast
      then show ?thesis using "1.IH"(3) 3 "1.prems"(2) by (simp add: suffix_Cons)
    qed
  qed
qed (auto simp: suffix_Cons dest: lower_char_small split: if_splits)

lemma ToLower_plain: "a \<noteq> CHR 0xC4 \<Longrightarrow> a \<noteq> CHR 0xE2 \<Longrightarrow> ToLower (a # s) = lower_char a # ToLower s"
  by (cases s) simp_all

lemma ToLower_twice: "ToLower (ToLower t) = ToLower t"
proof (induction t rule: ToLower.induct)
  case (1 a b s)
  consider (i) "a = CHR 0xC4 \<and> b = CHR 0xB0" | (k) "\<not> (a = CHR 0xC4 \<and> b = CHR 0xB0)" "a = CHR 0xE2 \<and> b = CHR 0x84 \<and> take 1 s = [CHR 0xAA]"
    | (other) "\<not> (a = CHR 0xC4 \<and> b = CHR 0xB0)" "\<not> (a = CHR 0xE2 \<and> b = CHR 0x84 \<and> take 1 s = [CHR 0xAA])" by blast
  then show ?case
  proof cases
    case i
    then have eq: "ToLower (a # b # s) = CHR ''i'' # ToLower s" by simp
    have "lower_char (CHR ''i'') = CHR ''i''" by code_simp
    then show ?thesis unfolding eq using 1(1) [OF i] by (simp add: ToLower_plain)
  next
    case k
    then have eq: "ToLower (a # b # s) = CHR ''k'' # ToLower (drop 1 s)" by (simp only: ToLower.simps if_False if_True simp_thms)
    have "lower_char (CHR ''k'') = CHR ''k''" by code_simp
    then show ?thesis unfolding eq using 1(2) [OF k] by (simp add: ToLower_plain)
  next
    case other
    let ?x = "ToLower (b # s)"
    have eq: "ToLower (a # b # s) = lower_char a # ?x" using other by (simp only: ToLower.simps if_False)
    have ih: "ToLower ?x = ?x" using 1(3) [OF other] .
    have b: "prefix [CHR 0xB0] ?x \<Longrightarrow> b = CHR 0xB0" "prefix [CHR 0x84, CHR 0xAA] ?x \<Longrightarrow> b = CHR 0x84 \<and> take 1 s = [CHR 0xAA]"
    proof -
      have "\<not> small (CHR 0xB0)" "\<not> small (CHR 0x84)" "\<not> small (CHR 0xAA)" by code_simp+
      then show "prefix [CHR 0xB0] ?x \<Longrightarrow> b = CHR 0xB0" "prefix [CHR 0x84, CHR 0xAA] ?x \<Longrightarrow> b = CHR 0x84 \<and> take 1 s = [CHR 0xAA]"
        using lowered_prefix [of "[CHR 0xB0]" "b # s"] lowered_prefix [of "[CHR 0x84, CHR 0xAA]" "b # s"] by (cases s; auto simp: prefix_Cons)+
    qed
    have high: "lower_char a = CHR 0xC4 \<Longrightarrow> a = CHR 0xC4" "lower_char a = CHR 0xE2 \<Longrightarrow> a = CHR 0xE2"
    proof -
      have "\<not> small (CHR 0xC4)" "\<not> small (CHR 0xE2)" by code_simp+
      then show "lower_char a = CHR 0xC4 \<Longrightarrow> a = CHR 0xC4" "lower_char a = CHR 0xE2 \<Longrightarrow> a = CHR 0xE2" using lower_char_small [of a] by metis+
    qed
    have "ToLower (lower_char a # ?x) = lower_char a # ToLower ?x"
    proof (cases ?x)
      case Nil
      then show ?thesis by (simp add: lower_char_twice)
    next
      case (Cons c y)
      have "\<not> (lower_char a = CHR 0xC4 \<and> c = CHR 0xB0)" using high(1) b(1) other(1) Cons by auto
      moreover have "\<not> (lower_char a = CHR 0xE2 \<and> c = CHR 0x84 \<and> take 1 y = [CHR 0xAA])"
        using high(2) b(2) other(2) Cons by (cases y) auto
      ultimately show ?thesis unfolding Cons by (simp only: ToLower.simps if_False lower_char_twice)
    qed
    then show ?thesis unfolding eq ih .
  qed
qed (simp_all add: lower_char_twice)

lemma spaces_not_small: "w \<in> set go_spaces \<Longrightarrow> list_all (\<lambda>c. \<not> small c) w"
proof -
  have "list_all (list_all (\<lambda>c. \<not> small c)) go_spaces" by code_simp
  then show "w \<in> set go_spaces \<Longrightarrow> list_all (\<lambda>c. \<not> small c) w" by (simp add: list_all_iff)
qed

lemma trimmed_iff: "trimmed s \<longleftrightarrow> (\<forall>w \<in> set go_spaces. \<not> prefix w s \<and> \<not> suffix w s)"
proof -
  have "leading go_spaces s = 0 \<longleftrightarrow> (\<forall>w \<in> set go_spaces. \<not> prefix w s)" by (rule leading_0_iff [OF spaces_nonempty(1)])
  moreover have "leading (map rev go_spaces) (rev s) = 0 \<longleftrightarrow> (\<forall>w \<in> set (map rev go_spaces). \<not> prefix w (rev s))"
    by (rule leading_0_iff [OF spaces_nonempty(2)])
  ultimately show ?thesis by (auto simp: trimmed_def suffix_to_prefix)
qed

lemma ToLower_trimmed: "trimmed t \<Longrightarrow> trimmed (ToLower t)"
  unfolding trimmed_iff using lowered_prefix lowered_suffix spaces_not_small by blast

lemma provider_twice [simp]: "ToLower (TrimSpace (ToLower (TrimSpace p))) = ToLower (TrimSpace p)"
  using trimmed_id [OF ToLower_trimmed [OF TrimSpace_trimmed [of p]]] by (simp add: ToLower_twice)

section \<open>Host names twice\<close>

text \<open>The characters of a host name that passed.\<close>

definition host_character :: "char \<Rightarrow> bool" where
  "host_character c \<longleftrightarrow> label_character c \<or> c = CHR ''.''"

lemma host_character: "host_character c \<Longrightarrow> printable c \<and> lower_char c = c \<and> c \<noteq> CHR 0xC4 \<and> c \<noteq> CHR 0xE2"
  by (auto simp: host_character_def label_character_def printable_def lower_char_def less_eq_char_def)

lemma host_lower: "list_all host_character s \<Longrightarrow> ToLower s = s"
  by (induction s) (simp_all add: ToLower_plain host_character)

lemma label_digits: "parse_digits n s = Some m \<Longrightarrow> list_all label_character s"
  by (induction s arbitrary: n) (auto simp: digit_value_def label_character_def less_eq_char_def split: option.splits if_splits)

text \<open>Fields of such characters, the last of them not empty.\<close>

lemma split_characters: "c \<in> set s \<Longrightarrow> c = sep \<or> (\<exists>p \<in> set (split_at sep s). c \<in> set p)"
  by (induction s) (auto split: list.splits)

lemma split_last: "p \<in> set (split_at sep s) \<Longrightarrow> last (split_at sep s) \<noteq> [] \<Longrightarrow> s \<noteq> [] \<and> last s \<in> set (last (split_at sep s))"
proof (induction s arbitrary: p)
  case (Cons c s)
  show ?case
  proof (cases "s = []")
    case True
    then show ?thesis using Cons.prems by (auto split: if_splits)
  next
    case False
    obtain q qs where q: "split_at sep s = q # qs" by (cases "split_at sep s") auto
    have ih: "last (split_at sep s) \<noteq> [] \<Longrightarrow> last s \<in> set (last (split_at sep s))" using Cons.IH q by (metis list.set_intros(1))
    show ?thesis
    proof (cases "qs = [] \<and> c \<noteq> sep")
      case True
      then have "q = s" using Join_split [of sep s] q by simp
      then show ?thesis using False q True by simp
    next
      case other: False
      then have "last (split_at sep (c # s)) = last (split_at sep s)" using q by auto
      then show ?thesis using ih Cons.prems(2) False by simp
    qed
  qed
qed simp

lemma host_fields:
  assumes "list_all (\<lambda>p. p \<noteq> [] \<and> list_all label_character p) (split_at (CHR ''.'') h)"
  shows "list_all host_character h \<and> h \<noteq> [] \<and> host_character (last h) \<and> last h \<noteq> CHR ''.''"
proof -
  have l: "last (split_at (CHR ''.'') h) \<in> set (split_at (CHR ''.'') h)" by (rule last_in_set) simp
  then have "last (split_at (CHR ''.'') h) \<noteq> []" "list_all label_character (last (split_at (CHR ''.'') h))" using assms by (auto simp: list_all_iff)
  then have "h \<noteq> []" "label_character (last h)" using split_last [OF l] by (auto simp: list_all_iff)
  moreover have "\<not> label_character (CHR ''.'')" by code_simp
  moreover have "list_all host_character h" using assms split_characters [of _ h "CHR ''.''"] by (fastforce simp: list_all_iff host_character_def)
  ultimately show ?thesis by (auto simp: host_character_def)
qed

lemma hostname_twice:
  assumes "normalizeHumanVerificationHostname v = Inr h"
  shows "normalizeHumanVerificationHostname h = Inr h"
proof -
  define x where "x = TrimSuffix (ToLower (TrimSpace v)) (CHR ''.'')"
  have h: "h = x" "x \<noteq> ''''" "length x \<le> 253" "CHR ''*'' \<notin> set x"
      "\<not> list_ex (\<lambda>c. c \<in> {CHR ''/'', CHR 0x5C, CHR '' '', CHR '':'', CHR 0x09, CHR 0x0D, CHR 0x0A}) x"
    and ok: "ParseIP x \<or> list_all dns_label (split_at (CHR ''.'') x)" "ParseIP x \<Longrightarrow> CHR '':'' \<notin> set x"
    using assms unfolding normalizeHumanVerificationHostname_def x_def [symmetric] by (auto simp: Let_def split: if_splits)
  have "list_all (\<lambda>p. p \<noteq> [] \<and> list_all label_character p) (split_at (CHR ''.'') x)"
  proof (cases "ParseIP x")
    case True
    then have "CHR '':'' \<notin> set x" by (rule ok(2))
    then have "ipv4 x" using True by (auto simp: ParseIP_def split: option.splits if_splits dest: find_found)
    then show ?thesis using label_digits by (fastforce simp: ipv4_def ipv4_field_def list_all_iff split: option.splits)
  next
    case False
    then show ?thesis using ok(1) by (auto simp: list_all_iff dns_label_def)
  qed
  note f = host_fields [OF this]
  have "hd x \<in> set x" using h(2) by simp
  then have "printable (hd x)" "printable (last x)" using f host_character by (auto simp: list_all_iff)
  then have "TrimSuffix (ToLower (TrimSpace x)) (CHR ''.'') = x" using TrimSpace_id [OF h(2)] host_lower f by (simp add: TrimSuffix_def)
  then show ?thesis using h ok unfolding normalizeHumanVerificationHostname_def by (auto simp: Let_def)
qed

lemma allowed_twice:
  assumes "\<And>h. h \<in> set (as @ hs) \<Longrightarrow> normalizeHumanVerificationHostname h = Inr h" "distinct (as @ hs)"
  shows "allowed_hostnames hs as = Inr (as @ hs)"
  using assms
proof (induction hs arbitrary: as)
  case (Cons h hs)
  then show ?case using Cons.IH [of "as @ [h]"] by simp
qed simp

lemma allowed_result:
  "allowed_hostnames values as = Inr hs \<Longrightarrow> distinct as \<Longrightarrow> (\<And>h. h \<in> set as \<Longrightarrow> normalizeHumanVerificationHostname h = Inr h) \<Longrightarrow>
   distinct hs \<and> (\<forall>h \<in> set hs. normalizeHumanVerificationHostname h = Inr h)"
proof (induction "values" arbitrary: as)
  case (Cons v vs)
  obtain h where h: "normalizeHumanVerificationHostname v = Inr h" using Cons.prems(1) by (auto split: sum.splits)
  show ?case
    by (rule Cons.IH [of "if h \<in> set as then as else as @ [h]"]) (use Cons.prems h hostname_twice [OF h] in \<open>auto split: if_splits\<close>)
qed simp

lemma hostnames_twice: "normalizeAllowedHostnames vs = Inr hs \<Longrightarrow> normalizeAllowedHostnames hs = Inr hs"
  using allowed_result [of vs "[]" hs] allowed_twice [of "[]" hs] by (simp add: normalizeAllowedHostnames_def)

section \<open>E-mail domains twice\<close>

lemma trusted_domain: "d \<in> set trustedProviders \<Longrightarrow> email_domain d = d"
proof -
  have "list_all (\<lambda>d. email_domain d = d) trustedProviders" by code_simp
  then show "d \<in> set trustedProviders \<Longrightarrow> email_domain d = d" by (simp add: list_all_iff)
qed

lemma domains_result:
  "email_domains values as = Inr ds \<Longrightarrow> distinct as \<Longrightarrow> set as \<subseteq> set trustedProviders \<Longrightarrow> distinct ds \<and> set ds \<subseteq> set trustedProviders \<and> ds \<noteq> []"
  by (induction "values" as rule: email_domains.induct) (auto simp: Let_def split: if_splits)

lemma domains_same: "distinct (as @ ds) \<Longrightarrow> set ds \<subseteq> set trustedProviders \<Longrightarrow> as @ ds \<noteq> [] \<Longrightarrow> email_domains ds as = Inr (as @ ds)"
  by (induction ds arbitrary: as) (auto simp: Let_def trusted_domain)

lemma domains_twice: "normalizeEmailDomains vs = Inr ds \<Longrightarrow> normalizeEmailDomains ds = Inr ds"
  using domains_result [of vs "[]" ds] domains_same [of "[]" ds] by (simp add: normalizeEmailDomains_def)

section \<open>The rules twice\<close>

definition tidy_terms :: "TermsSettings \<Rightarrow> TermsSettings" where
  "tidy_terms t = t\<lparr>tm_Version := TrimSpace (tm_Version t), tm_Title := TrimSpace (tm_Title t)\<rparr>"

lemma terms_twice:
  assumes "normalize_terms now t0 = Inr t" "0 < now"
  shows "normalize_terms later t = Inr (tidy_terms t)"
proof -
  have t: "tm_Version t = cleanText (tm_Version t0) 40" "tm_Title t = cleanText (tm_Title t0) 160" "tm_Content t = TrimSpace (tm_Content t0)"
    "0 < tm_EffectiveAt t" "tm_Version t \<noteq> ''''" "tm_Title t \<noteq> ''''" "200 \<le> length (tm_Content t)" "length (tm_Content t) \<le> 60000"
    using assms by (auto simp: normalize_terms_def Let_def split: if_splits)
  have c: "cleanText (tm_Version t) 40 = TrimSpace (tm_Version t)" "cleanText (tm_Title t) 160 = TrimSpace (tm_Title t)"
    "TrimSpace (tm_Content t) = tm_Content t"
    by (simp_all add: t(1,2,3) cleanText_twice)
  have "TrimSpace (tm_Version t) \<noteq> ''''" "TrimSpace (tm_Title t) \<noteq> ''''" using t(5,6) clean_TrimSpace unfolding t(1,2) by blast+
  then show ?thesis using t(4,7,8) by (simp add: normalize_terms_def tidy_terms_def c)
qed

lemma smtp_twice:
  assumes "normalize_smtp secrets m0 = Inr m"
  shows "normalize_smtp secrets (m\<lparr>sm_PasswordConfigured := b\<rparr>) = Inr (m\<lparr>sm_PasswordConfigured := b, sm_FromName := TrimSpace (sm_FromName m)\<rparr>)"
proof -
  have m: "sm_Provider m = ToLower (TrimSpace (sm_Provider m0))" "sm_Username m = TrimSpace (sm_Username m0)" "sm_From m = TrimSpace (sm_From m0)"
    "sm_FromName m = cleanText (sm_FromName m0) 80"
    using assms by (auto simp: normalize_smtp_def Let_def split: if_splits sum.splits)
  have c: "ToLower (TrimSpace (sm_Provider m)) = sm_Provider m" "TrimSpace (sm_Username m) = sm_Username m" "TrimSpace (sm_From m) = sm_From m"
    "cleanText (sm_FromName m) 80 = TrimSpace (sm_FromName m)"
    by (simp_all add: m cleanText_twice)
  show ?thesis
  proof (cases "sm_Enabled m")
    case False
    then show ?thesis by (simp add: normalize_smtp_def Let_def c)
  next
    case True
    then obtain host port tls where "smtpProviderDefaults (sm_Provider m) = Inr (host, port, tls)" "sm_Username m \<noteq> ''''" "sm_From m \<noteq> ''''"
        "sc_SMTPPassword secrets \<noteq> ''''" "sm_Host m = host" "sm_Port m = port" "sm_TLSMode m = tls" "sm_AuthMode m = ''login''"
      using assms by (auto simp: normalize_smtp_def Let_def split: if_splits sum.splits)
    then show ?thesis using True by (simp add: normalize_smtp_def Let_def c)
  qed
qed

lemma captcha_twice:
  assumes "normalize_captcha secrets c0 = Inr c"
  shows "normalize_captcha secrets (c\<lparr>cp_Actions := actions, cp_SecretConfigured := a, cp_TencentCredentialsConfigured := b\<rparr>) =
    Inr (c\<lparr>cp_Actions := actions |` set captchaActions, cp_SecretConfigured := a, cp_TencentCredentialsConfigured := b\<rparr>)"
proof -
  have "normalizeAllowedHostnames (cp_AllowedHostnames c0) = Inr (cp_AllowedHostnames c)"
    using assms by (auto simp: normalize_captcha_def Let_def split: if_splits sum.splits)
  then have h: "normalizeAllowedHostnames (cp_AllowedHostnames c) = Inr (cp_AllowedHostnames c)" by (rule hostnames_twice)
  have k: "ToLower (TrimSpace ''turnstile'') = ''turnstile''" "ToLower (TrimSpace ''tencent'') = ''tencent''" by code_simp+
  consider (off) "\<not> cp_Enabled c" "cp_Provider c = ''disabled''"
    | (turnstile) "cp_Enabled c" "cp_Provider c = ''turnstile''" "TrimSpace (cp_SiteKey c) \<noteq> ''''" "sc_TurnstileSecret secrets \<noteq> ''''" "cp_AllowedHostnames c \<noteq> []"
    | (tencent) "cp_Enabled c" "cp_Provider c = ''tencent''" "0 < cp_TencentCaptchaAppID c" "sc_TencentAppSecretKey secrets \<noteq> ''''"
        "sc_TencentSecretID secrets \<noteq> ''''" "sc_TencentSecretKey secrets \<noteq> ''''"
    using assms by (auto simp: normalize_captcha_def Let_def split: if_splits sum.splits)
  then show ?thesis
  proof cases
    case off
    then show ?thesis by (simp add: normalize_captcha_def h Let_def)
  next
    case turnstile
    then show ?thesis by (simp add: normalize_captcha_def h k Let_def)
  next
    case tencent
    then show ?thesis by (simp add: normalize_captcha_def h k Let_def)
  qed
qed

text \<open>What is left of normal settings when they pass the rules again, with another limit of files, other
  terms or other actions.\<close>

lemma normal_parts:
  assumes "normalizeServiceSettings now s0 secrets = Inr s"
  obtains t0 m0 c0 where "normalizeEmailDomains (rg_AllowedDomains (ss_Registration s)) = Inr (rg_AllowedDomains (ss_Registration s))"
    "rg_AllowedDomains (ss_Registration s) \<noteq> []" "rg_RequireTerms (ss_Registration s)" "valid_quota (ss_Defaults s)" "valid_limits (ss_Registration s)"
    "normalize_terms now t0 = Inr (ss_Terms s)" "normalize_smtp secrets m0 = Inr (ss_SMTP s\<lparr>sm_PasswordConfigured := sm_PasswordConfigured m0\<rparr>)"
    "normalize_captcha secrets c0 = Inr ((ss_Captcha s)\<lparr>cp_SecretConfigured := cp_SecretConfigured c0,
       cp_TencentCredentialsConfigured := cp_TencentCredentialsConfigured c0\<rparr>)"
    "mark_configured secrets s = s"
proof -
  obtain ds terms smtp captcha where p: "normalizeEmailDomains (rg_AllowedDomains (ss_Registration s0)) = Inr ds" "ds \<noteq> []"
    "normalize_terms now (ss_Terms s0) = Inr terms" "valid_quota (ss_Defaults s0)"
    "valid_limits ((ss_Registration s0)\<lparr>rg_AllowedDomains := ds, rg_RequireTerms := True\<rparr>)"
    "normalize_smtp secrets (ss_SMTP s0) = Inr smtp" "normalize_captcha secrets (ss_Captcha s0) = Inr captcha"
    and s: "s = mark_configured secrets (s0\<lparr>ss_Registration := (ss_Registration s0)\<lparr>rg_AllowedDomains := ds, rg_RequireTerms := True\<rparr>,
      ss_Terms := terms, ss_SMTP := smtp, ss_Captcha := captcha\<rparr>)"
    using assms by (auto simp: normalizeServiceSettings_def Let_def split: sum.splits if_splits)
  have sp: "ss_Registration s = (ss_Registration s0)\<lparr>rg_AllowedDomains := ds, rg_RequireTerms := True\<rparr>" "ss_Terms s = terms"
    "ss_Defaults s = ss_Defaults s0" "ss_SMTP s = smtp\<lparr>sm_PasswordConfigured := sc_SMTPPassword secrets \<noteq> ''''\<rparr>"
    "ss_Captcha s = captcha\<lparr>cp_SecretConfigured := sc_TurnstileSecret secrets \<noteq> '''',
       cp_TencentCredentialsConfigured := sc_TencentAppSecretKey secrets \<noteq> '''' \<and> sc_TencentSecretID secrets \<noteq> '''' \<and> sc_TencentSecretKey secrets \<noteq> ''''\<rparr>"
    by (simp_all add: s mark_configured_def)
  have keep: "sm_PasswordConfigured smtp = sm_PasswordConfigured (ss_SMTP s0)"
    "cp_SecretConfigured captcha = cp_SecretConfigured (ss_Captcha s0)"
    "cp_TencentCredentialsConfigured captcha = cp_TencentCredentialsConfigured (ss_Captcha s0)"
    using p(6,7) by (auto simp: normalize_smtp_def normalize_captcha_def Let_def split: if_splits sum.splits)
  have m: "(ss_SMTP s)\<lparr>sm_PasswordConfigured := sm_PasswordConfigured (ss_SMTP s0)\<rparr> = smtp" by (simp add: sp(4) keep(1) [symmetric])
  have c: "(ss_Captcha s)\<lparr>cp_SecretConfigured := cp_SecretConfigured (ss_Captcha s0),
       cp_TencentCredentialsConfigured := cp_TencentCredentialsConfigured (ss_Captcha s0)\<rparr> = captcha"
    by (simp add: sp(5) keep(2,3) [symmetric])
  show thesis
  proof (rule that)
    show "normalize_terms now (ss_Terms s0) = Inr (ss_Terms s)" by (simp add: sp p(3))
    show "normalize_smtp secrets (ss_SMTP s0) = Inr ((ss_SMTP s)\<lparr>sm_PasswordConfigured := sm_PasswordConfigured (ss_SMTP s0)\<rparr>)" unfolding m by (rule p(6))
    show "normalize_captcha secrets (ss_Captcha s0) = Inr ((ss_Captcha s)\<lparr>cp_SecretConfigured := cp_SecretConfigured (ss_Captcha s0),
       cp_TencentCredentialsConfigured := cp_TencentCredentialsConfigured (ss_Captcha s0)\<rparr>)" unfolding c by (rule p(7))
    show "mark_configured secrets s = s" by (simp add: s mark_configured_def)
  qed (use p domains_twice [OF p(1)] in \<open>simp_all add: sp\<close>)
qed

lemma normal_twice:
  assumes n: "normalizeServiceSettings now s0 secrets = Inr s" and terms: "normalize_terms later t = Inr t'" and quota: "valid_quota d"
  shows "normalizeServiceSettings later (s\<lparr>ss_Terms := t, ss_Defaults := d, ss_Captcha := (ss_Captcha s)\<lparr>cp_Actions := actions\<rparr>,
      ss_Revision := v, ss_UpdatedAt := at, ss_UpdatedBy := who\<rparr>) secrets =
    Inr (s\<lparr>ss_Terms := t', ss_Defaults := d, ss_Captcha := (ss_Captcha s)\<lparr>cp_Actions := actions |` set captchaActions\<rparr>,
      ss_SMTP := (ss_SMTP s)\<lparr>sm_FromName := TrimSpace (sm_FromName (ss_SMTP s))\<rparr>, ss_Revision := v, ss_UpdatedAt := at, ss_UpdatedBy := who\<rparr>)"
  using n
proof (cases rule: normal_parts)
  case (1 t0 m0 c0)
  have smtp: "normalize_smtp secrets (ss_SMTP s) = Inr ((ss_SMTP s)\<lparr>sm_FromName := TrimSpace (sm_FromName (ss_SMTP s))\<rparr>)"
    using smtp_twice [OF 1(7), of "sm_PasswordConfigured (ss_SMTP s)"] by simp
  have captcha: "normalize_captcha secrets ((ss_Captcha s)\<lparr>cp_Actions := actions\<rparr>) = Inr ((ss_Captcha s)\<lparr>cp_Actions := actions |` set captchaActions\<rparr>)"
    using captcha_twice [OF 1(8), where actions = actions and a = "cp_SecretConfigured (ss_Captcha s)" and b = "cp_TencentCredentialsConfigured (ss_Captcha s)"] by simp
  have reg: "(ss_Registration s)\<lparr>rg_RequireTerms := True\<rparr> = ss_Registration s" using 1(3) by simp
  have marks: "sm_PasswordConfigured (ss_SMTP s) = (sc_SMTPPassword secrets \<noteq> '''')"
    "cp_SecretConfigured (ss_Captcha s) = (sc_TurnstileSecret secrets \<noteq> '''')"
    "cp_TencentCredentialsConfigured (ss_Captcha s) =
       (sc_TencentAppSecretKey secrets \<noteq> '''' \<and> sc_TencentSecretID secrets \<noteq> '''' \<and> sc_TencentSecretKey secrets \<noteq> '''')"
    "(ss_Payment s)\<lparr>pm_WechatEnabled := False, pm_AlipayEnabled := False, pm_WechatSecretConfigured := False, pm_AlipaySecretConfigured := False\<rparr> = ss_Payment s"
    using arg_cong [OF 1(9), of "\<lambda>s. sm_PasswordConfigured (ss_SMTP s)"] arg_cong [OF 1(9), of "\<lambda>s. cp_SecretConfigured (ss_Captcha s)"]
      arg_cong [OF 1(9), of "\<lambda>s. cp_TencentCredentialsConfigured (ss_Captcha s)"] arg_cong [OF 1(9), of ss_Payment]
    by (simp_all add: mark_configured_def)
  let ?smtp = "(ss_SMTP s)\<lparr>sm_FromName := TrimSpace (sm_FromName (ss_SMTP s))\<rparr>"
  let ?captcha = "(ss_Captcha s)\<lparr>cp_Actions := actions |` set captchaActions\<rparr>"
  have m: "?smtp\<lparr>sm_PasswordConfigured := sc_SMTPPassword secrets \<noteq> ''''\<rparr> = ?smtp" by (rule SMTPSettings.equality) (simp_all add: marks)
  have c: "?captcha\<lparr>cp_SecretConfigured := sc_TurnstileSecret secrets \<noteq> '''',
       cp_TencentCredentialsConfigured := sc_TencentAppSecretKey secrets \<noteq> '''' \<and> sc_TencentSecretID secrets \<noteq> '''' \<and> sc_TencentSecretKey secrets \<noteq> ''''\<rparr> = ?captcha"
    by (rule CaptchaSettings.equality) (simp_all add: marks)
  let ?new = "s\<lparr>ss_Terms := t, ss_Defaults := d, ss_Captcha := (ss_Captcha s)\<lparr>cp_Actions := actions\<rparr>, ss_Revision := v, ss_UpdatedAt := at, ss_UpdatedBy := who\<rparr>"
  let ?done = "?new\<lparr>ss_Registration := ss_Registration s, ss_Terms := t', ss_SMTP := ?smtp, ss_Captcha := ?captcha\<rparr>"
  have "normalizeServiceSettings later ?new secrets = Inr (mark_configured secrets ?done)"
    using 1(1,2,5) terms quota smtp captcha reg by (simp add: normalizeServiceSettings_def Let_def)
  also have "mark_configured secrets ?done = ?done\<lparr>ss_SMTP := ?smtp, ss_Captcha := ?captcha, ss_Payment := ss_Payment s\<rparr>"
    by (simp add: mark_configured_def m [simplified] c [simplified] marks(4))
  also have "\<dots> = s\<lparr>ss_Terms := t', ss_Defaults := d, ss_Captcha := ?captcha, ss_SMTP := ?smtp, ss_Revision := v, ss_UpdatedAt := at, ss_UpdatedBy := who\<rparr>"
    by simp
  finally show ?thesis .
qed

end
