(* ===== verification/Settings_Properties.thy ===== *)
theory Settings_Properties
  imports Settings_Store Settings_Normal "HOL-Library.Sublist"
begin

text \<open>
  What holds of the stored settings whatever administrators save, concurrently or not: the history is
  numbered without gaps, a save based on an old version is refused, archived documents never change. And
  saved settings are the ones the next start of the service loads.
\<close>

section \<open>Operations on the tables\<close>

text \<open>The receipts of human verification are in the same database and change on their own.\<close>

inductive policy_step :: "policy_env \<Rightarrow> policy_db \<Rightarrow> policy_db \<Rightarrow> bool" for env where
  save: "policy_step env db (snd (SaveServiceSettings env s secrets expected who key rid nonces now db))"
| recover: "policy_step env db (snd (DisableCaptchaRecovery env rid now db))"
| archive: "policy_step env db (snd (EnsureLegalDocument env terms who now db))"
| risk: "policy_step env db (snd (AddRiskEvent action decision rule subject ip detail eid now db))"
| receipt: "policy_step env db (db\<lparr>pd_receipts := rs\<rparr>)"

abbreviation policy_steps :: "policy_env \<Rightarrow> policy_db \<Rightarrow> policy_db \<Rightarrow> bool" where
  "policy_steps env \<equiv> (policy_step env)\<^sup>*\<^sup>*"

definition document_terms :: "archived_document \<Rightarrow> TermsSettings" where
  "document_terms d = \<lparr>tm_Version = ad_version d, tm_Title = ad_title d, tm_Content = ad_content d, tm_EffectiveAt = ad_effective_at d\<rparr>"

definition documents_ok :: "policy_env \<Rightarrow> archived_document list \<Rightarrow> bool" where
  "documents_ok env ds \<longleftrightarrow> keyed ad_version ds \<and> (\<forall>d \<in> set ds. ad_document_hash d = termsDocumentHash (pe_crypto env) (document_terms d))"

definition history_ok :: "policy_env \<Rightarrow> policy_db \<Rightarrow> bool" where
  "history_ok env db \<longleftrightarrow>
     (case pd_settings db of
        None \<Rightarrow> pd_revisions db = []
      | Some row \<Rightarrow> pd_revisions db \<noteq> [] \<and> sr_revision row = int (length (pd_revisions db)) \<and>
          rv_value_hash (last (pd_revisions db)) = hex_encode (cr_sha256 (pe_crypto env) (sr_value row))) \<and>
     map rv_revision (pd_revisions db) = map int [1..<Suc (length (pd_revisions db))]"

definition policy_inv :: "policy_env \<Rightarrow> policy_db \<Rightarrow> bool" where
  "policy_inv env db \<longleftrightarrow> documents_ok env (pd_documents db) \<and> keyed sv_name (pd_secrets db) \<and>
     (int (length (pd_revisions db)) \<le> max_int64 \<longrightarrow> history_ok env db)"

section \<open>A save that succeeds\<close>

lemma archive_cases:
  assumes "archive_document env terms who now db = Inr db'"
  obtains "db' = db" | "tm_Version terms \<notin> ad_version ` set (pd_documents db)"
    "db' = db\<lparr>pd_documents := pd_documents db @ [\<lparr>ad_version = tm_Version terms, ad_title = tm_Title terms, ad_content = tm_Content terms,
       ad_document_hash = termsDocumentHash (pe_crypto env) terms, ad_effective_at = tm_EffectiveAt terms, ad_published_at = now, ad_created_by = who\<rparr>]\<rparr>"
proof (cases "sql_first (\<lambda>d. ad_version d = tm_Version terms) (pd_documents db)")
  case None
  then have "tm_Version terms \<notin> ad_version ` set (pd_documents db)" by (auto simp: sql_first_def find_None_iff)
  moreover have "db' = db\<lparr>pd_documents := pd_documents db @ [\<lparr>ad_version = tm_Version terms, ad_title = tm_Title terms, ad_content = tm_Content terms,
       ad_document_hash = termsDocumentHash (pe_crypto env) terms, ad_effective_at = tm_EffectiveAt terms, ad_published_at = now, ad_created_by = who\<rparr>]\<rparr>"
    using assms None by (simp add: archive_document_def Let_def sql_insert_def split: if_splits)
  ultimately show ?thesis by (rule that(2))
next
  case (Some d)
  then show ?thesis using assms by (intro that(1)) (simp add: archive_document_def Let_def split: if_splits)
qed

lemma record_cases:
  assumes "record_revision env rid row db = Inr db'"
  obtains r where "db' = db\<lparr>pd_revisions := pd_revisions db @ [r]\<rparr>" "rv_revision r = sr_revision row"
    "rv_value_hash r = hex_encode (cr_sha256 (pe_crypto env) (sr_value row))"
  using assms by (simp add: record_revision_def Let_def split: if_splits) (metis settings_revision.select_convs(2,3))

lemma store_cases:
  assumes "store_row expected row db = Inr db'"
  shows "db' = db\<lparr>pd_settings := Some row\<rparr>"
    "expected = (case pd_settings db of None \<Rightarrow> 0 | Some old \<Rightarrow> sr_revision old)"
  using assms by (auto simp: store_row_def split: option.splits if_splits)

lemma save_cases:
  assumes "SaveServiceSettings env s0 secrets expected who key rid nonces now db = (Inr s, db')"
  obtains db1 row rows r where "archive_document env (ss_Terms s) who now db = Inr db1" "sr_value row = pe_encode env s"
    "sr_revision row = i64 (expected + 1)" "sr_updated_by row = who" "ss_Revision s = i64 (expected + 1)"
    "expected = (case pd_settings db of None \<Rightarrow> 0 | Some old \<Rightarrow> sr_revision old)"
    "save_secrets env key nonces now settingSecretNames secrets (pd_secrets db) = Inr rows"
    "db' = db1\<lparr>pd_settings := Some row, pd_secrets := rows, pd_revisions := pd_revisions db @ [r]\<rparr>"
    "rv_revision r = i64 (expected + 1)" "rv_value_hash r = hex_encode (cr_sha256 (pe_crypto env) (pe_encode env s))"
proof -
  obtain normal where n: "normalizeServiceSettings now s0 secrets = Inr normal"
    using assms by (cases "normalizeServiceSettings now s0 secrets") (simp_all add: SaveServiceSettings_def)
  define row where "row = \<lparr>sr_value = pe_encode env s, sr_revision = i64 (expected + 1), sr_updated_by = who, sr_updated_at = now\<rparr>"
  from assms obtain i db1 db2 rows where s: "s = normal\<lparr>ss_Revision := i64 (expected + 1), ss_UpdatedAt := now, ss_UpdatedBy := who\<rparr>"
    and a: "archive_document env (ss_Terms s) who now db = Inr db1" and st: "store_row expected row db1 = Inr db2"
    and sec: "save_secrets env key nonces now settingSecretNames secrets (pd_secrets db2) = Inr rows"
    and rec: "record_revision env i row (db2\<lparr>pd_secrets := rows\<rparr>) = Inr db'"
    by (auto simp: SaveServiceSettings_def n Let_def row_def split: option.splits sum.splits)
  have same: "pd_settings db1 = pd_settings db" "pd_secrets db1 = pd_secrets db" "pd_revisions db1 = pd_revisions db"
    using a by (cases rule: archive_cases; simp)+
  from rec obtain r where r: "db' = db2\<lparr>pd_secrets := rows, pd_revisions := pd_revisions db2 @ [r]\<rparr>" "rv_revision r = i64 (expected + 1)"
    "rv_value_hash r = hex_encode (cr_sha256 (pe_crypto env) (pe_encode env s))"
    by (cases rule: record_cases) (auto simp: row_def)
  have e: "expected = (case pd_settings db of None \<Rightarrow> 0 | Some old \<Rightarrow> sr_revision old)"
    using store_cases(2) [OF st] by (simp add: same)
  show ?thesis
    by (rule that [OF a _ _ _ _ e _ _ r(2,3), of row rows])
      (use sec r(1) in \<open>simp_all add: row_def s store_cases(1) [OF st] same\<close>)
qed

section \<open>The history\<close>

lemma documents_ok_append:
  assumes "documents_ok env ds" "ad_version d \<notin> ad_version ` set ds" "ad_document_hash d = termsDocumentHash (pe_crypto env) (document_terms d)"
  shows "documents_ok env (ds @ [d])"
  using assms by (simp add: documents_ok_def keyed_def)

lemma documents_grow:
  assumes "documents_ok env (pd_documents db)" "archive_document env terms who now db = Inr db'"
  shows "documents_ok env (pd_documents db') \<and> prefix (pd_documents db) (pd_documents db')"
  using assms(2)
proof (cases rule: archive_cases)
  case 2
  then show ?thesis using documents_ok_append [OF assms(1)] by (simp add: document_terms_def termsDocumentHash_def)
qed (use assms(1) in simp)

lemma history_append:
  assumes inv: "int (length (pd_revisions db)) \<le> max_int64 \<longrightarrow> history_ok env db" and size: "int (length (pd_revisions db')) \<le> max_int64"
    and r: "pd_revisions db' = pd_revisions db @ [r]" "rv_revision r = i64 (n + 1)" "pd_settings db' = Some row" "sr_revision row = i64 (n + 1)"
      "rv_value_hash r = hex_encode (cr_sha256 (pe_crypto env) (sr_value row))"
    and n: "n = (case pd_settings db of None \<Rightarrow> 0 | Some old \<Rightarrow> sr_revision old)"
  shows "history_ok env db'"
proof -
  have h: "history_ok env db" using inv size r(1) by simp
  then have "n = int (length (pd_revisions db))" using n by (simp add: history_ok_def split: option.splits)
  moreover have "i64 (int (length (pd_revisions db)) + 1) = int (length (pd_revisions db)) + 1" using size r(1) by (intro i64_id) simp_all
  ultimately have rev: "rv_revision r = int (length (pd_revisions db')) \<and> sr_revision row = int (length (pd_revisions db'))" using r(1,2,4) by simp
  have "map rv_revision (pd_revisions db) = map int [1..<Suc (length (pd_revisions db))]" using h by (simp only: history_ok_def)
  then have "map rv_revision (pd_revisions db') = map int [1..<Suc (length (pd_revisions db'))]" using rev by (simp add: r(1))
  then show ?thesis using rev unfolding history_ok_def r(3) by (simp add: r(1,5))
qed

lemma policy_inv_same:
  assumes "pd_documents db' = pd_documents db" "pd_revisions db' = pd_revisions db" "pd_secrets db' = pd_secrets db" "pd_settings db' = pd_settings db"
  shows "policy_inv env db' = policy_inv env db"
  unfolding policy_inv_def history_ok_def assms ..

lemma keyed_upsert_secret: "keyed sv_name rows \<Longrightarrow> keyed sv_name (upsert_secret r rows)"
proof -
  assume k: "keyed sv_name rows"
  have "map sv_name (sql_update (\<lambda>x. sv_name x = sv_name r) (\<lambda>_. r) rows) = map sv_name rows" by (simp add: sql_update_def)
  then show ?thesis using k by (auto simp: upsert_secret_def keyed_def sql_exists_def list_ex_iff)
qed

lemma keyed_save_secrets: "save_secrets env key nonces now names secrets rows = Inr rows' \<Longrightarrow> keyed sv_name rows \<Longrightarrow> keyed sv_name rows'"
proof (induction env key nonces now names secrets rows rule: save_secrets.induct)
  case (2 env key nonces now name accessor names secrets rows)
  have "keyed sv_name (sql_delete (\<lambda>x. sv_name x = name) rows)" using 2(4) by (simp add: keyed_def sql_delete_def distinct_map_filter)
  then show ?case using 2 keyed_upsert_secret by (auto split: if_splits sum.splits)
qed simp

lemma save_inv:
  assumes inv: "policy_inv env db"
  shows "policy_inv env (snd (SaveServiceSettings env s0 secrets expected who key rid nonces now db))"
    "prefix (pd_documents db) (pd_documents (snd (SaveServiceSettings env s0 secrets expected who key rid nonces now db)))"
    "prefix (pd_revisions db) (pd_revisions (snd (SaveServiceSettings env s0 secrets expected who key rid nonces now db)))"
proof -
  obtain r db' where sv: "SaveServiceSettings env s0 secrets expected who key rid nonces now db = (r, db')" by fastforce
  have "policy_inv env db' \<and> prefix (pd_documents db) (pd_documents db') \<and> prefix (pd_revisions db) (pd_revisions db')"
  proof (cases r)
    case (Inl e)
    then have "db' = db" using sv by (auto simp: SaveServiceSettings_def Let_def split: sum.splits option.splits)
    then show ?thesis using inv by simp
  next
    case (Inr s)
    from sv [unfolded Inr] show ?thesis
    proof (cases rule: save_cases)
      case (1 db1 row rows rv)
      have d: "documents_ok env (pd_documents db1)" "prefix (pd_documents db) (pd_documents db1)"
        using documents_grow [OF _ 1(1)] inv by (simp_all add: policy_inv_def)
      have "keyed sv_name rows" using keyed_save_secrets [OF 1(7)] inv by (simp add: policy_inv_def)
      moreover have "history_ok env db'" if "int (length (pd_revisions db')) \<le> max_int64"
        by (rule history_append [OF _ that _ 1(9) _ 1(3) _ 1(6)]) (use inv 1(8,10,2) in \<open>simp_all add: policy_inv_def\<close>)
      ultimately show ?thesis using d 1(8) by (simp add: policy_inv_def)
    qed
  qed
  then show "policy_inv env (snd (SaveServiceSettings env s0 secrets expected who key rid nonces now db))"
    "prefix (pd_documents db) (pd_documents (snd (SaveServiceSettings env s0 secrets expected who key rid nonces now db)))"
    "prefix (pd_revisions db) (pd_revisions (snd (SaveServiceSettings env s0 secrets expected who key rid nonces now db)))"
    unfolding sv by simp_all
qed

lemma recovery_inv:
  assumes inv: "policy_inv env db"
  shows "policy_inv env (snd (DisableCaptchaRecovery env rid now db)) \<and>
    pd_documents (snd (DisableCaptchaRecovery env rid now db)) = pd_documents db \<and>
    prefix (pd_revisions db) (pd_revisions (snd (DisableCaptchaRecovery env rid now db)))"
proof (cases "snd (DisableCaptchaRecovery env rid now db) = db")
  case False
  then obtain i old s where ios: "rid = Some i" "pd_settings db = Some old" "pe_decode env (sr_value old) zero_settings = Some s"
    by (cases rid; cases "pd_settings db"; cases "pe_decode env (sr_value (the (pd_settings db))) zero_settings") (simp_all add: DisableCaptchaRecovery_def)
  define settings where "settings = s\<lparr>ss_Captcha := (ss_Captcha s)\<lparr>cp_Enabled := False, cp_Provider := ''disabled'', cp_Actions := Map.empty\<rparr>,
    ss_Revision := i64 (sr_revision old + 1), ss_UpdatedAt := now, ss_UpdatedBy := ''local-captcha-recovery''\<rparr>"
  define row where "row = \<lparr>sr_value = pe_encode env settings, sr_revision = ss_Revision settings, sr_updated_by = ss_UpdatedBy settings, sr_updated_at = now\<rparr>"
  have rev: "sr_revision row = i64 (sr_revision old + 1)" by (simp add: row_def settings_def)
  have op: "snd (DisableCaptchaRecovery env rid now db) = (case record_revision env i row (db\<lparr>pd_settings := Some row\<rparr>) of Inl e \<Rightarrow> db | Inr db' \<Rightarrow> db')"
    by (simp add: DisableCaptchaRecovery_def ios row_def settings_def Let_def split: sum.split)
  then obtain db' where rec: "record_revision env i row (db\<lparr>pd_settings := Some row\<rparr>) = Inr db'" and db': "snd (DisableCaptchaRecovery env rid now db) = db'"
    using False by (cases "record_revision env i row (db\<lparr>pd_settings := Some row\<rparr>)") simp_all
  from rec show ?thesis
  proof (cases rule: record_cases)
    case (1 r)
    have "history_ok env db'" if "int (length (pd_revisions db')) \<le> max_int64"
      by (rule history_append [where n = "sr_revision old" and row = row and r = r and db = db, OF _ that])
        (use inv 1 ios(2) rev in \<open>simp_all add: policy_inv_def\<close>)
    then show ?thesis using inv 1(1) unfolding db' by (simp add: policy_inv_def)
  qed
qed (use inv in simp)

lemma legal_document_inv:
  assumes inv: "policy_inv env db"
  shows "policy_inv env (snd (EnsureLegalDocument env terms who now db)) \<and>
    prefix (pd_documents db) (pd_documents (snd (EnsureLegalDocument env terms who now db))) \<and>
    pd_revisions (snd (EnsureLegalDocument env terms who now db)) = pd_revisions db"
proof -
  let ?db = "snd (EnsureLegalDocument env terms who now db)"
  let ?d = "\<lparr>ad_version = tm_Version terms, ad_title = tm_Title terms, ad_content = tm_Content terms,
       ad_document_hash = termsDocumentHash (pe_crypto env) terms, ad_effective_at = tm_EffectiveAt terms, ad_published_at = now, ad_created_by = who\<rparr>"
  have "?db = db \<or> ?db = db\<lparr>pd_documents := pd_documents db @ [?d]\<rparr> \<and> tm_Version terms \<notin> ad_version ` set (pd_documents db)"
    by (auto simp: EnsureLegalDocument_def Let_def sql_exists_def list_ex_iff split: option.splits)
  moreover have "policy_inv env (db\<lparr>pd_documents := pd_documents db @ [?d]\<rparr>)" if "tm_Version terms \<notin> ad_version ` set (pd_documents db)"
  proof -
    let ?new = "db\<lparr>pd_documents := pd_documents db @ [?d]\<rparr>"
    have "documents_ok env (pd_documents db @ [?d])"
      by (rule documents_ok_append) (use inv that in \<open>simp_all add: policy_inv_def document_terms_def termsDocumentHash_def\<close>)
    moreover have "pd_settings ?new = pd_settings db" "pd_revisions ?new = pd_revisions db" by simp_all
    then have "history_ok env ?new = history_ok env db" by (simp only: history_ok_def)
    ultimately show ?thesis using inv unfolding policy_inv_def by simp
  qed
  ultimately show ?thesis using inv by (elim disjE conjE) simp_all
qed

lemma step_inv:
  assumes "policy_inv env db" "policy_step env db db'"
  shows "policy_inv env db' \<and> prefix (pd_documents db) (pd_documents db') \<and> prefix (pd_revisions db) (pd_revisions db')"
  using assms(2)
proof (cases rule: policy_step.cases)
  case (risk action decision rule subject ip detail eid now)
  have "pd_documents db' = pd_documents db \<and> pd_revisions db' = pd_revisions db \<and> pd_secrets db' = pd_secrets db \<and> pd_settings db' = pd_settings db"
    unfolding risk by (simp add: AddRiskEvent_def sql_insert_def split: option.split)
  then show ?thesis using assms(1) policy_inv_same [of db' db env] by simp
next
  case (receipt rs)
  then show ?thesis using assms(1) policy_inv_same [of db' db env] by simp
next
  case (save s secrets expected who key rid nonces now)
  show ?thesis unfolding save by (intro conjI save_inv assms(1))
next
  case (recover rid now)
  show ?thesis unfolding recover using recovery_inv [OF assms(1), of rid now] by (metis prefix_order.order_refl)
next
  case (archive terms who now)
  show ?thesis unfolding archive using legal_document_inv [OF assms(1), of terms who now] by (metis prefix_order.order_refl)
qed

lemma steps_inv: "policy_steps env db db' \<Longrightarrow> policy_inv env db \<Longrightarrow>
  policy_inv env db' \<and> prefix (pd_documents db) (pd_documents db') \<and> prefix (pd_revisions db) (pd_revisions db')"
proof (induction rule: rtranclp_induct)
  case (step db' db'')
  have "policy_inv env db'' \<and> prefix (pd_documents db') (pd_documents db'') \<and> prefix (pd_revisions db') (pd_revisions db'')"
    using step step_inv by blast
  moreover have "prefix (pd_documents db) (pd_documents db')" "prefix (pd_revisions db) (pd_revisions db')" using step by blast+
  ultimately show ?case by (auto intro: prefix_order.trans)
qed simp

lemma empty_policy_inv: "policy_inv env empty_policy"
  by (simp add: policy_inv_def empty_policy_def documents_ok_def history_ok_def keyed_def)

text \<open>A save that is based on another version than the current one changes nothing.\<close>

lemma stale_save:
  assumes "expected \<noteq> (case pd_settings db of None \<Rightarrow> 0 | Some old \<Rightarrow> sr_revision old)"
  shows "(\<exists>e. fst (SaveServiceSettings env s0 secrets expected who key rid nonces now db) = Inl e) \<and>
    snd (SaveServiceSettings env s0 secrets expected who key rid nonces now db) = db"
proof (cases "SaveServiceSettings env s0 secrets expected who key rid nonces now db")
  case (Pair r db')
  show ?thesis
  proof (cases r)
    case (Inl e)
    then have "db' = db" using Pair by (auto simp: SaveServiceSettings_def Let_def split: sum.splits option.splits)
    then show ?thesis using Pair Inl by simp
  next
    case (Inr s)
    from Pair [unfolded Inr] show ?thesis by (cases rule: save_cases) (use assms in simp)
  qed
qed

text \<open>C37. The history of the settings is complete. Whatever saves, recoveries and archived documents came
  before, and however often administrators worked on old versions: revisions are numbered from 1 without
  gaps, the current settings are the last of them with its digest on record, and a save that is based on
  any other revision is refused and changes nothing. No recorded revision and no archived legal document
  is ever changed or removed later, and every document has its own version and carries the digest of its text.\<close>

theorem settings_history_kept:
  assumes "policy_steps env empty_policy db" "policy_steps env db db'" "int (length (pd_revisions db')) \<le> max_int64"
  shows "map rv_revision (pd_revisions db') = map int [1..<Suc (length (pd_revisions db'))] \<and>
    (pd_settings db' = Some row \<longrightarrow> sr_revision row = int (length (pd_revisions db')) \<and>
      rv_value_hash (last (pd_revisions db')) = hex_encode (cr_sha256 (pe_crypto env) (sr_value row))) \<and>
    (expected \<noteq> int (length (pd_revisions db')) \<longrightarrow>
      (\<exists>e. fst (SaveServiceSettings env s0 secrets expected who key rid nonces now db') = Inl e) \<and>
      snd (SaveServiceSettings env s0 secrets expected who key rid nonces now db') = db') \<and>
    prefix (pd_revisions db) (pd_revisions db') \<and> prefix (pd_documents db) (pd_documents db') \<and> keyed ad_version (pd_documents db') \<and>
    (\<forall>d \<in> set (pd_documents db'). ad_document_hash d = termsDocumentHash (pe_crypto env) (document_terms d))"
proof (intro conjI)
  have inv: "policy_inv env db" using steps_inv [OF assms(1) empty_policy_inv] by blast
  note later = steps_inv [OF assms(2) inv]
  then have h: "history_ok env db'" using assms(3) by (simp add: policy_inv_def)
  then show "map rv_revision (pd_revisions db') = map int [1..<Suc (length (pd_revisions db'))]" by (simp only: history_ok_def)
  show "pd_settings db' = Some row \<longrightarrow> sr_revision row = int (length (pd_revisions db')) \<and>
      rv_value_hash (last (pd_revisions db')) = hex_encode (cr_sha256 (pe_crypto env) (sr_value row))"
    using h by (auto simp: history_ok_def)
  have "(case pd_settings db' of None \<Rightarrow> 0 | Some old \<Rightarrow> sr_revision old) = int (length (pd_revisions db'))"
    using h by (simp add: history_ok_def split: option.splits)
  then show "expected \<noteq> int (length (pd_revisions db')) \<longrightarrow>
      (\<exists>e. fst (SaveServiceSettings env s0 secrets expected who key rid nonces now db') = Inl e) \<and>
      snd (SaveServiceSettings env s0 secrets expected who key rid nonces now db') = db'"
    using stale_save [of expected db'] by simp
  show "prefix (pd_revisions db) (pd_revisions db')" "prefix (pd_documents db) (pd_documents db')"
    "keyed ad_version (pd_documents db')"
    "\<forall>d \<in> set (pd_documents db'). ad_document_hash d = termsDocumentHash (pe_crypto env) (document_terms d)"
    using later by (simp_all add: policy_inv_def documents_ok_def)
qed

section \<open>Secrets that come back\<close>

text \<open>What applySecretUpdate leaves: trimmed secrets, and none for cash payments.\<close>

definition tidy_secrets :: "ServiceSecrets \<Rightarrow> bool" where
  "tidy_secrets s \<longleftrightarrow> (\<forall>(name, accessor) \<in> set settingSecretNames. TrimSpace (accessor s) = accessor s) \<and>
     sc_WechatAPIv3Key s = '''' \<and> sc_AlipayPrivateKey s = ''''"

lemma secret_update_tidy: "tidy_secrets current \<Longrightarrow> tidy_secrets (applySecretUpdate current update)"
  by (simp add: tidy_secrets_def settingSecretNames_def applySecretUpdate_def set_secret_def)

definition opens_to :: "policy_env \<Rightarrow> bytes \<Rightarrow> service_secret \<Rightarrow> string \<Rightarrow> bool" where
  "opens_to env key r value \<longleftrightarrow> openSettingSecret (pe_crypto env) (pe_aead env) (sv_ciphertext r) key = Inr value"

lemma save_secrets_rows:
  assumes law: "opens_sealed (pe_aead env)" "\<And>s. length (cr_sha256 (pe_crypto env) s) = 32" "\<And>name n. nonces name = Some n \<Longrightarrow> length n = 12"
  shows "save_secrets env key nonces now names secrets rows = Inr rows' \<Longrightarrow> distinct (map fst names) \<Longrightarrow>
    (\<forall>r. sv_name r \<notin> fst ` set names \<longrightarrow> r \<in> set rows' \<longleftrightarrow> r \<in> set rows) \<and>
    (\<forall>(name, accessor) \<in> set names. \<forall>r \<in> set rows'. sv_name r = name \<longrightarrow> opens_to env key r (TrimSpace (accessor secrets))) \<and>
    (\<forall>(name, accessor) \<in> set names. name \<in> sv_name ` set rows' \<longleftrightarrow> accessor secrets \<noteq> '''')"
proof (induction names arbitrary: rows)
  case (Cons na names)
  obtain name accessor where na: "na = (name, accessor)" by (cases na)
  obtain rows1 where rows1: "save_secrets env key nonces now names secrets rows1 = Inr rows'"
      "\<And>r. sv_name r \<noteq> name \<Longrightarrow> r \<in> set rows1 \<longleftrightarrow> r \<in> set rows" "name \<in> sv_name ` set rows1 \<longleftrightarrow> accessor secrets \<noteq> ''''"
      "\<And>r. r \<in> set rows1 \<Longrightarrow> sv_name r = name \<Longrightarrow> opens_to env key r (TrimSpace (accessor secrets))"
  proof (cases "accessor secrets = ''''")
    case True
    show ?thesis by (rule that [of "sql_delete (\<lambda>x. sv_name x = name) rows"]) (use Cons.prems True in \<open>auto simp: na sql_delete_def\<close>)
  next
    case False
    then obtain cipher where seal: "sealSettingSecret (pe_crypto env) (pe_aead env) (accessor secrets) key (nonces name) = Inr cipher"
      using Cons.prems by (auto simp: na split: sum.splits)
    let ?r = "\<lparr>sv_name = name, sv_ciphertext = cipher, sv_protector = secretProtectorName cipher, sv_updated_at = now\<rparr>"
    obtain n where n: "nonces name = Some n" using seal by (auto simp: sealSettingSecret_def Let_def split: if_splits option.splits)
    have "opens_to env key ?r (TrimSpace (accessor secrets))"
      using seal_open_setting [OF law(1,2) law(3) [OF n] seal [unfolded n]] by (simp add: opens_to_def)
    moreover have "r \<in> set (upsert_secret ?r rows) \<longleftrightarrow> r = ?r \<or> r \<in> set rows \<and> sv_name r \<noteq> name" for r
      by (auto simp: upsert_secret_def sql_exists_def list_ex_iff sql_update_def)
    moreover from this have "name \<in> sv_name ` set (upsert_secret ?r rows)" by (intro image_eqI [of _ _ ?r]) simp_all
    ultimately show ?thesis by (intro that [of "upsert_secret ?r rows"]) (use Cons.prems False seal in \<open>auto simp: na\<close>)
  qed
  have new: "name \<notin> fst ` set names" using Cons.prems(2) by (simp add: na)
  note IH = Cons.IH [OF rows1(1)]
  have d: "distinct (map fst names)" using Cons.prems(2) by simp
  have same: "r \<in> set rows' \<longleftrightarrow> r \<in> set rows1" if "sv_name r = name" for r using IH [OF d] new that by blast
  then have "name \<in> sv_name ` set rows' \<longleftrightarrow> name \<in> sv_name ` set rows1" by blast
  moreover have "\<forall>r \<in> set rows'. sv_name r = name \<longrightarrow> opens_to env key r (TrimSpace (accessor secrets))" using same rows1(4) by blast
  moreover have "\<forall>r. sv_name r \<notin> fst ` set (na # names) \<longrightarrow> r \<in> set rows' \<longleftrightarrow> r \<in> set rows"
    using IH [OF d] rows1(2) by (simp add: na)
  ultimately show ?case using IH [OF d] rows1(3) unfolding na by (simp only: list.set ball_simps prod.case) blast
qed simp

lemma set_named_accessor:
  "(name, accessor) \<in> set settingSecretNames \<Longrightarrow> accessor (set_named n v s) = (if n = name then v else accessor s)"
  "(name, accessor) \<in> set settingSecretNames \<Longrightarrow> accessor no_secrets = ''''"
proof -
  have c: "(name, accessor) \<in> set settingSecretNames \<Longrightarrow> (name = ''smtp_password'' \<and> accessor = sc_SMTPPassword) \<or>
    (name = ''turnstile_secret'' \<and> accessor = sc_TurnstileSecret) \<or> (name = ''tencent_app_secret_key'' \<and> accessor = sc_TencentAppSecretKey) \<or>
    (name = ''tencent_secret_id'' \<and> accessor = sc_TencentSecretID) \<or> (name = ''tencent_secret_key'' \<and> accessor = sc_TencentSecretKey)"
    by (simp add: settingSecretNames_def)
  show "(name, accessor) \<in> set settingSecretNames \<Longrightarrow> accessor (set_named n v s) = (if n = name then v else accessor s)"
    by (drule c; elim disjE conjE; simp add: set_named_def)
  show "(name, accessor) \<in> set settingSecretNames \<Longrightarrow> accessor no_secrets = ''''"
    by (drule c; elim disjE conjE; simp add: no_secrets_def)
qed

lemma set_named_rest: "sc_WechatAPIv3Key (set_named n v s) = sc_WechatAPIv3Key s" "sc_AlipayPrivateKey (set_named n v s) = sc_AlipayPrivateKey s"
  by (simp_all add: set_named_def)

lemma load_secrets_value:
  assumes "\<And>name accessor r. (name, accessor) \<in> set settingSecretNames \<Longrightarrow> r \<in> set rows \<Longrightarrow> sv_name r = name \<Longrightarrow> opens_to env key r (accessor want)"
    and "sc_WechatAPIv3Key s = sc_WechatAPIv3Key want" "sc_AlipayPrivateKey s = sc_AlipayPrivateKey want"
    and "\<And>name accessor. (name, accessor) \<in> set settingSecretNames \<Longrightarrow> name \<notin> sv_name ` set rows \<Longrightarrow> accessor s = accessor want"
  shows "load_secrets env key rows s = Inr want"
  using assms
proof (induction rows arbitrary: s)
  case Nil
  have "accessor s = accessor want" if "(name, accessor) \<in> set settingSecretNames" for name accessor using Nil(4) that by simp
  then have "sc_SMTPPassword s = sc_SMTPPassword want" "sc_TurnstileSecret s = sc_TurnstileSecret want"
    "sc_TencentAppSecretKey s = sc_TencentAppSecretKey want" "sc_TencentSecretID s = sc_TencentSecretID want"
    "sc_TencentSecretKey s = sc_TencentSecretKey want" by (auto simp: settingSecretNames_def)
  then show ?case using Nil(2,3) by simp
next
  case (Cons r rows)
  show ?case
  proof (cases "sv_name r \<in> fst ` set settingSecretNames")
    case False
    have "load_secrets env key rows s = Inr want"
    proof (rule Cons.IH)
      fix n acc assume n: "(n, acc) \<in> set settingSecretNames" "n \<notin> sv_name ` set rows"
      then have "n \<noteq> sv_name r" using False by (metis fst_conv image_eqI)
      then show "acc s = acc want" using Cons.prems(4) [OF n(1)] n(2) by auto
    qed (use Cons.prems in simp_all)
    then show ?thesis using False by simp
  next
    case True
    then obtain accessor where a: "(sv_name r, accessor) \<in> set settingSecretNames" by force
    have "load_secrets env key rows (set_named (sv_name r) (accessor want) s) = Inr want"
    proof (rule Cons.IH)
      fix n acc assume n: "(n, acc) \<in> set settingSecretNames" "n \<notin> sv_name ` set rows"
      have "acc = accessor" if "n = sv_name r" using n(1) a that by (auto simp: settingSecretNames_def)
      then show "acc (set_named (sv_name r) (accessor want) s) = acc want"
        using set_named_accessor(1) [OF n(1)] Cons.prems(4) [OF n(1)] n(2) by auto
    qed (use Cons.prems in \<open>simp_all add: set_named_rest\<close>)
    moreover have "opens_to env key r (accessor want)" using Cons.prems(1) [OF a] by simp
    ultimately show ?thesis using True by (simp add: opens_to_def)
  qed
qed

lemma saved_secrets_load:
  assumes law: "opens_sealed (pe_aead env)" "\<And>s. length (cr_sha256 (pe_crypto env) s) = 32" "\<And>name n. nonces name = Some n \<Longrightarrow> length n = 12"
    and saved: "save_secrets env key nonces now settingSecretNames secrets rows = Inr rows'" and tidy: "tidy_secrets secrets"
  shows "load_secrets env key rows' no_secrets = Inr secrets"
proof -
  have d: "distinct (map fst settingSecretNames)" by (simp add: settingSecretNames_def)
  from save_secrets_rows [OF law(1,2) _ saved d] law(3)
  have rows: "(\<forall>(name, accessor) \<in> set settingSecretNames. \<forall>r \<in> set rows'. sv_name r = name \<longrightarrow> opens_to env key r (TrimSpace (accessor secrets))) \<and>
    (\<forall>(name, accessor) \<in> set settingSecretNames. name \<in> sv_name ` set rows' \<longleftrightarrow> accessor secrets \<noteq> '''')" by blast
  show ?thesis
  proof (rule load_secrets_value)
    fix name accessor r assume "(name, accessor) \<in> set settingSecretNames" "r \<in> set rows'" "sv_name r = name"
    then have "opens_to env key r (TrimSpace (accessor secrets))" "TrimSpace (accessor secrets) = accessor secrets"
      using rows tidy by (auto simp: tidy_secrets_def)
    then show "opens_to env key r (accessor secrets)" by simp
  next
    fix name accessor assume n: "(name, accessor) \<in> set settingSecretNames" "name \<notin> sv_name ` set rows'"
    then have "accessor secrets = ''''" using rows by auto
    then show "accessor no_secrets = accessor secrets" using set_named_accessor(2) [OF n(1)] by simp
  qed (use tidy in \<open>simp_all add: tidy_secrets_def no_secrets_def\<close>)
qed

section \<open>Settings that come back\<close>

text \<open>\<^verbatim>\<open>json.Unmarshal\<close> of written settings into a value: every field is replaced, except that the entries of
  a map are added to those already there, and an omitted field (\<^verbatim>\<open>omitempty\<close> of a zero value) stays.\<close>

definition unmarshalled :: "ServiceSettings \<Rightarrow> ServiceSettings \<Rightarrow> ServiceSettings" where
  "unmarshalled s base =
     s\<lparr>ss_Captcha := (ss_Captcha s)\<lparr>cp_Actions := cp_Actions (ss_Captcha base) ++ cp_Actions (ss_Captcha s)\<rparr>,
       ss_Defaults := (ss_Defaults s)\<lparr>df_UserStorageBytes :=
         if df_UserStorageBytes (ss_Defaults s) = 0 then df_UserStorageBytes (ss_Defaults base) else df_UserStorageBytes (ss_Defaults s)\<rparr>,
       ss_UpdatedBy := (if ss_UpdatedBy s = '''' then ss_UpdatedBy base else ss_UpdatedBy s)\<rparr>"

definition kept_files :: "ServiceSettings \<Rightarrow> ServiceSettings \<Rightarrow> int" where
  "kept_files defaults s =
     (if df_GuestMaxFiles (ss_Defaults s) \<in> {5, 99} then df_GuestMaxFiles (ss_Defaults defaults) else df_GuestMaxFiles (ss_Defaults s))"

text \<open>The settings after a restart. The loader replaces the bundled terms of an earlier release and two limits of
  files it takes for old defaults, clears a quota that is no longer used, completes the actions from the
  defaults, and trims the three texts that a save cuts to their length.\<close>

definition restarted :: "ServiceSettings \<Rightarrow> ServiceSettings \<Rightarrow> ServiceSettings" where
  "restarted defaults s =
     s\<lparr>ss_Terms := (if tm_Version (ss_Terms s) = ''2026-08-29'' then ss_Terms defaults else tidy_terms (ss_Terms s)),
       ss_Defaults := (ss_Defaults s)\<lparr>df_GuestMaxFiles := kept_files defaults s, df_UserStorageBytes := 0\<rparr>,
       ss_SMTP := (ss_SMTP s)\<lparr>sm_FromName := TrimSpace (sm_FromName (ss_SMTP s))\<rparr>,
       ss_Captcha := (ss_Captcha s)\<lparr>cp_Actions := (cp_Actions (ss_Captcha defaults) ++ cp_Actions (ss_Captcha s)) |` set captchaActions\<rparr>\<rparr>"

lemma saved_normal:
  assumes "SaveServiceSettings env s0 secrets expected who key rid nonces now db = (Inr s, db')"
  obtains n where "normalizeServiceSettings now s0 secrets = Inr n"
    "s = n\<lparr>ss_Revision := i64 (expected + 1), ss_UpdatedAt := now, ss_UpdatedBy := who\<rparr>"
  using assms by (cases "normalizeServiceSettings now s0 secrets") (auto simp: SaveServiceSettings_def Let_def split: option.splits sum.splits)

lemma promoted_normal:
  assumes "normalizeServiceSettings now s0 secrets = Inr n" "0 < now"
    and "normalize_terms later (ss_Terms defaults) = Inr (ss_Terms defaults)"
    and "1 \<le> df_GuestMaxFiles (ss_Defaults defaults)" "df_GuestMaxFiles (ss_Defaults defaults) \<le> 100"
    and s: "s = n\<lparr>ss_Revision := v, ss_UpdatedAt := at, ss_UpdatedBy := who\<rparr>" and base: "cp_Actions (ss_Captcha base) = cp_Actions (ss_Captcha defaults)"
      "ss_UpdatedBy base = who"
  shows "normalizeServiceSettings later (promote_legacy defaults (unmarshalled s base)) secrets = Inr (restarted defaults s)"
proof -
  let ?legacy = "tm_Version (ss_Terms n) = ''2026-08-29''"
  let ?d = "(ss_Defaults n)\<lparr>df_GuestMaxFiles := kept_files defaults n, df_UserStorageBytes := 0\<rparr>"
  let ?t = "if ?legacy then ss_Terms defaults else ss_Terms n" and ?t' = "if ?legacy then ss_Terms defaults else tidy_terms (ss_Terms n)"
  let ?a = "cp_Actions (ss_Captcha defaults) ++ cp_Actions (ss_Captcha n)"
  obtain t0 where t0: "normalize_terms now t0 = Inr (ss_Terms n)" and quota: "valid_quota (ss_Defaults n)" using assms(1) by (rule normal_parts)
  have t: "normalize_terms later ?t = Inr ?t'" using assms(3) terms_twice [OF t0 assms(2)] by simp
  have "1 \<le> kept_files defaults n" "kept_files defaults n \<le> 100" using quota assms(4,5) by (auto simp: kept_files_def valid_quota_def)
  then have d: "valid_quota ?d" using quota by (simp add: valid_quota_def)
  have "promote_legacy defaults (unmarshalled s base) = n\<lparr>ss_Terms := ?t, ss_Defaults := ?d, ss_Captcha := (ss_Captcha n)\<lparr>cp_Actions := ?a\<rparr>,
      ss_Revision := v, ss_UpdatedAt := at, ss_UpdatedBy := who\<rparr>"
    by (simp add: s promote_legacy_def unmarshalled_def kept_files_def base Let_def)
  then show ?thesis using normal_twice [OF assms(1) t d, where actions = ?a and v = v and at = at and who = who] by (simp add: s restarted_def kept_files_def)
qed

text \<open>C38. After a save the next start loads the settings, with nothing in them that could make it fail. Whatever
  the administrator saved, loading from the database the save has left succeeds and gives back the saved
  secrets and the saved settings, but for these adjustments: the bundled terms of the release 2026-08-29 are
  replaced by those of the configured defaults; a limit of 5 or 99 files for guests becomes the configured one,
  also when the administrator chose it, which the comment at this place of the loader excludes; the storage
  quota of users, no longer in use, becomes 0; an action of the human verification that the save leaves out
  has the default; and the version and the title of the terms and the sender's name lose a blank they end
  with when they were cut there. Everything else is as saved: the rules of the settings, applied a second time,
  change nothing. The statement is for trimmed secrets, as an update of the settings leaves them, for configured
  defaults with valid terms and a valid limit of files, and under the laws of the cipher, the nonces and JSON.\<close>

theorem saved_settings_load:
  assumes "SaveServiceSettings env s0 secrets expected who key rid nonces now db = (Inr s, db')" "0 < now"
    and "opens_sealed (pe_aead env)" "\<And>s. length (cr_sha256 (pe_crypto env) s) = 32" "\<And>name n. nonces name = Some n \<Longrightarrow> length n = 12"
    and "\<And>base. pe_decode env (pe_encode env s) base = Some (unmarshalled s base)" "tidy_secrets secrets"
    and "normalize_terms later (ss_Terms defaults) = Inr (ss_Terms defaults)"
    and "1 \<le> df_GuestMaxFiles (ss_Defaults defaults)" "df_GuestMaxFiles (ss_Defaults defaults) \<le> 100"
  shows "LoadServiceSettings env defaults key later db' = Inr (restarted defaults s, secrets)"
  using assms(1)
proof (cases rule: save_cases)
  case (1 db1 row rows r)
  let ?base = "defaults\<lparr>ss_Revision := sr_revision row, ss_UpdatedBy := sr_updated_by row, ss_UpdatedAt := sr_updated_at row\<rparr>"
  obtain n where n: "normalizeServiceSettings now s0 secrets = Inr n" "s = n\<lparr>ss_Revision := i64 (expected + 1), ss_UpdatedAt := now, ss_UpdatedBy := who\<rparr>"
    using assms(1) by (rule saved_normal)
  have "normalizeServiceSettings later (promote_legacy defaults (unmarshalled s ?base)) secrets = Inr (restarted defaults s)"
    by (intro promoted_normal [OF n(1) assms(2,8-10) n(2)]) (simp_all add: 1(4))
  moreover have "stored_settings env defaults db' = Inr (promote_legacy defaults (unmarshalled s ?base))"
    using 1(2,8) assms(6) by (simp add: stored_settings_def)
  moreover have "load_secrets env key (pd_secrets db') no_secrets = Inr secrets"
    using saved_secrets_load [OF assms(3-5) 1(7) assms(7)] 1(8) by simp
  ultimately show ?thesis by (simp add: LoadServiceSettings_def)
qed

section \<open>A first save\<close>

definition demo_settings :: ServiceSettings where
  "demo_settings = \<lparr>ss_Revision = 1,
     ss_Registration = \<lparr>rg_Open = True, rg_RequireTerms = True, rg_AllowedDomains = [''qq.com''], rg_EmailCooldownSeconds = 60,
       rg_EmailHourly = 5, rg_EmailDaily = 10, rg_IPHourly = 5, rg_IPDaily = 10, rg_DomainHourly = 50, rg_DomainDaily = 100,
       rg_SuccessfulPerIPDaily = 3, rg_SuccessfulPerSubnetDaily = 20\<rparr>,
     ss_Defaults = \<lparr>df_GuestMaxFileBytes = 1000, df_GuestMaxTransferBytes = 2000, df_GuestMaxFiles = 5, df_GuestMaxDownloads = 3,
       df_GuestDailyBytes = 5000, df_GuestDailyTasks = 5, df_UserStorageBytes = 0, df_UserMonthlyTraffic = 104857600,
       df_DefaultExpiryHours = 24, df_MaximumExpiryHours = 72\<rparr>,
     ss_SMTP = \<lparr>sm_Enabled = False, sm_Provider = '''', sm_Host = '''', sm_Port = 0, sm_Username = '''', sm_From = '''', sm_FromName = '''',
       sm_TLSMode = '''', sm_AuthMode = '''', sm_PasswordConfigured = True, sm_LastTestedAt = 0, sm_LastTestSucceeded = False\<rparr>,
     ss_Captcha = \<lparr>cp_Enabled = False, cp_Provider = ''disabled'', cp_SiteKey = '''', cp_AllowedHostnames = [], cp_TencentCaptchaAppID = 0,
       cp_Actions = (\<lambda>a. if a \<in> set captchaActions then Some False else None), cp_SecretConfigured = False, cp_TencentCredentialsConfigured = False\<rparr>,
     ss_Payment = \<lparr>pm_PointsEnabled = True, pm_WechatEnabled = False, pm_WechatMerchantID = '''', pm_WechatAppID = '''',
       pm_WechatSecretConfigured = False, pm_AlipayEnabled = False, pm_AlipayAppID = '''', pm_AlipaySecretConfigured = False\<rparr>,
     ss_Terms = \<lparr>tm_Version = ''2027'', tm_Title = ''Terms'', tm_Content = replicate 200 (CHR ''x''), tm_EffectiveAt = 5\<rparr>,
     ss_UpdatedAt = 100, ss_UpdatedBy = ''admin''\<rparr>"

definition demo_secrets :: ServiceSecrets where
  "demo_secrets = no_secrets\<lparr>sc_SMTPPassword := ''password''\<rparr>"

definition demo_policy :: policy_env where
  "demo_policy = \<lparr>pe_crypto = demo_crypto, pe_aead = \<lparr>ae_seal = (\<lambda>k n p a. p), ae_open = (\<lambda>k n s a. Some s)\<rparr>,
     pe_encode = (\<lambda>s. ''settings''), pe_decode = (\<lambda>raw base. Some (unmarshalled demo_settings base))\<rparr>"

definition demo_defaults :: ServiceSettings where
  "demo_defaults = zero_settings\<lparr>ss_Terms := ss_Terms demo_settings, ss_Defaults := (ss_Defaults zero_settings)\<lparr>df_GuestMaxFiles := 20\<rparr>\<rparr>"

definition demo_save :: "settings_row option \<Rightarrow> ServiceSettings result \<times> policy_db" where
  "demo_save row = SaveServiceSettings demo_policy demo_settings demo_secrets 0 ''admin'' demo_secret (Some ''revision-1'')
     (\<lambda>name. Some (replicate 12 (CHR ''n''))) 100 (empty_policy\<lparr>pd_settings := row\<rparr>)"

lemma demo_terms: "normalize_terms now (ss_Terms demo_settings) = Inr (ss_Terms demo_settings)"
proof -
  have p: "cleanText ''2027'' 40 = ''2027''" "cleanText ''Terms'' 160 = ''Terms''" "printable (CHR ''x'')" by code_simp+
  have "TrimSpace (replicate 200 (CHR ''x'')) = replicate 200 (CHR ''x'')" using p(3) by (intro TrimSpace_id) simp_all
  then show ?thesis using p(1,2) by (simp add: normalize_terms_def Let_def demo_settings_def)
qed

lemma demo_normal: "normalizeServiceSettings now demo_settings demo_secrets = Inr demo_settings"
proof -
  have p: "normalizeEmailDomains [''qq.com''] = Inr [''qq.com'']" "valid_quota (ss_Defaults demo_settings)" "valid_limits (ss_Registration demo_settings)"
    "normalize_smtp demo_secrets (ss_SMTP demo_settings) = Inr (ss_SMTP demo_settings)" by code_simp+
  have "normalize_captcha demo_secrets (ss_Captcha demo_settings) = Inr (ss_Captcha demo_settings)"
    by (simp add: normalize_captcha_def normalizeAllowedHostnames_def Let_def demo_settings_def restrict_map_def fun_eq_iff)
  moreover have "rg_AllowedDomains (ss_Registration demo_settings) = [''qq.com'']"
    "(ss_Registration demo_settings)\<lparr>rg_AllowedDomains := [''qq.com''], rg_RequireTerms := True\<rparr> = ss_Registration demo_settings"
    by (simp_all add: demo_settings_def)
  moreover have "mark_configured demo_secrets demo_settings = demo_settings"
    by (simp add: mark_configured_def demo_settings_def demo_secrets_def no_secrets_def)
  ultimately show ?thesis using p by (simp add: normalizeServiceSettings_def demo_terms Let_def)
qed

lemma demo_saved: "\<exists>db. demo_save None = (Inr demo_settings, db)"
proof -
  have "case save_secrets demo_policy demo_secret (\<lambda>name. Some (replicate 12 (CHR ''n''))) 100 settingSecretNames demo_secrets [] of
      Inl e \<Rightarrow> False | Inr rows \<Rightarrow> True" by code_simp
  then obtain rows where "save_secrets demo_policy demo_secret (\<lambda>name. Some (replicate 12 (CHR ''n''))) 100 settingSecretNames demo_secrets [] = Inr rows"
    by (auto split: sum.splits)
  moreover have "demo_settings\<lparr>ss_Revision := 1, ss_UpdatedAt := 100, ss_UpdatedBy := ''admin''\<rparr> = demo_settings" by (simp add: demo_settings_def)
  moreover have "i64 (0 + 1) = 1" by code_simp
  ultimately show ?thesis
    by (simp add: demo_save_def SaveServiceSettings_def demo_normal empty_policy_def archive_document_def store_row_def record_revision_def
        sql_first_def sql_insert_def sql_exists_def Let_def)
qed

lemma demo_laws: "opens_sealed (pe_aead demo_policy)" "length (cr_sha256 (pe_crypto demo_policy) s) = 32"
  "pe_decode demo_policy (pe_encode demo_policy demo_settings) base = Some (unmarshalled demo_settings base)"
  by (simp_all add: demo_policy_def opens_sealed_def demo_crypto_def)

lemma demo_restarted: "restarted demo_defaults demo_settings = demo_settings\<lparr>ss_Defaults := (ss_Defaults demo_settings)\<lparr>df_GuestMaxFiles := 20\<rparr>\<rparr>"
proof -
  have "kept_files demo_defaults demo_settings = 20" "TrimSpace ''2027'' = ''2027''" "TrimSpace ''Terms'' = ''Terms''" by code_simp+
  moreover have "cp_Actions (ss_Captcha demo_settings) |` set captchaActions = cp_Actions (ss_Captcha demo_settings)"
    by (simp add: demo_settings_def restrict_map_def fun_eq_iff)
  moreover have "cp_Actions (ss_Captcha demo_defaults) = Map.empty" by (simp add: demo_defaults_def zero_settings_def)
  moreover have "(ss_Captcha demo_settings)\<lparr>cp_Actions := cp_Actions (ss_Captcha demo_settings)\<rparr> = ss_Captcha demo_settings" by simp
  ultimately show ?thesis by (simp add: restarted_def) (simp add: tidy_terms_def demo_settings_def)
qed

theorem saved_settings_load_witness:
  "\<exists>db. demo_save None = (Inr demo_settings, db) \<and> LoadServiceSettings demo_policy demo_defaults demo_secret 200 db =
     Inr (demo_settings\<lparr>ss_Defaults := (ss_Defaults demo_settings)\<lparr>df_GuestMaxFiles := 20\<rparr>\<rparr>, demo_secrets)"
proof -
  obtain db where db: "demo_save None = (Inr demo_settings, db)" using demo_saved by blast
  have n: "\<And>name n. (\<lambda>name. Some (replicate 12 (CHR ''n''))) name = Some n \<Longrightarrow> length n = 12" by auto
  have t: "tidy_secrets demo_secrets" "(0 :: int) < 100" by code_simp+
  have d: "normalize_terms 200 (ss_Terms demo_defaults) = Inr (ss_Terms demo_defaults)"
    "1 \<le> df_GuestMaxFiles (ss_Defaults demo_defaults)" "df_GuestMaxFiles (ss_Defaults demo_defaults) \<le> 100"
    using demo_terms by (simp_all add: demo_defaults_def zero_settings_def)
  from saved_settings_load [OF db [unfolded demo_save_def] t(2) demo_laws(1,2) n demo_laws(3) t(1) d]
  show ?thesis using db unfolding demo_restarted by blast
qed

theorem settings_history_kept_witness:
  "\<exists>db. snd (demo_save None) = db \<and> map rv_revision (pd_revisions db) = [1] \<and>
     (\<exists>e. fst (SaveServiceSettings demo_policy demo_settings demo_secrets 0 ''other'' demo_secret (Some ''revision-2'') (\<lambda>name. None) 300 db) = Inl e)"
proof -
  obtain db where db: "demo_save None = (Inr demo_settings, db)" using demo_saved by blast
  have "policy_step demo_policy empty_policy (snd (demo_save None))"
    unfolding demo_save_def using policy_step.save [of demo_policy empty_policy] by (simp add: empty_policy_def)
  then have steps: "policy_steps demo_policy empty_policy db" using db by simp
  have one: "length (pd_revisions db) = 1"
    using db unfolding demo_save_def by (cases rule: save_cases) (simp add: empty_policy_def)
  have "int (length (pd_revisions db)) \<le> max_int64" unfolding one by code_simp
  note kept = settings_history_kept [OF steps rtranclp.rtrancl_refl this, where expected = 0 and ?s0.0 = demo_settings and secrets = demo_secrets
      and who = "''other''" and key = demo_secret and rid = "Some ''revision-2''" and nonces = "\<lambda>name. None" and now = 300]
  have "map int [1..<Suc 1] = [1]" "(0 :: int) \<noteq> int 1" by simp_all
  then have "map rv_revision (pd_revisions db) = [1]"
    "\<exists>e. fst (SaveServiceSettings demo_policy demo_settings demo_secrets 0 ''other'' demo_secret (Some ''revision-2'') (\<lambda>name. None) 300 db) = Inl e"
    using kept [unfolded one, THEN conjunct1] kept [unfolded one, THEN conjunct2, THEN conjunct2, THEN conjunct1] by auto
  then show ?thesis using db by (intro exI [of _ db]) simp
qed

end
