(* ===== verification/Tickets.thy ===== *)
theory Tickets
  imports Storage_Protocol
begin

text \<open>
  Signed tickets: the ones the control plane checks itself (security.go: signTicket, verifyTicket) and
  the download tickets it issues for a storage node (storage_protocol.go). The JSON decoder is a
  parameter; the encoder is written out for claims that pass validation, whose texts need no escapes.
\<close>

section \<open>Tickets of the control plane\<close>

text \<open>\<^verbatim>\<open>randomToken(8)\<close> is the argument \<open>nonce\<close>, \<^verbatim>\<open>time.Now().Add(lifetime).Unix()\<close> the argument \<open>expiresAt\<close>.\<close>

definition signTicket :: "crypto \<Rightarrow> string \<Rightarrow> string \<Rightarrow> string \<Rightarrow> int \<Rightarrow> string \<Rightarrow> string" where
  "signTicket cr secret purpose subject expiresAt nonce =
     (let payload = Join [purpose, subject, show_int expiresAt, nonce] ''|'';
          encoded = base64_encode payload
      in encoded @ ''.'' @ base64_encode (cr_hmac cr secret encoded))"

datatype ticket_error = TicketInvalid | TicketExpired

definition verifyTicket :: "crypto \<Rightarrow> string \<Rightarrow> string \<Rightarrow> string \<Rightarrow> int \<Rightarrow> ticket_error + string" where
  "verifyTicket cr secret ticket purpose now =
     (case split_at (CHR ''.'') ticket of
        [payload, signature] \<Rightarrow>
          (if base64_decode signature \<noteq> Some (cr_hmac cr secret payload) then Inl TicketInvalid
           else case base64_decode payload of
             None \<Rightarrow> Inl TicketInvalid
           | Some decoded \<Rightarrow>
             (case split_at (CHR ''|'') decoded of
                [f0, f1, f2, f3] \<Rightarrow>
                  (if f0 \<noteq> purpose then Inl TicketInvalid
                   else case ParseInt f2 of
                     None \<Rightarrow> Inl TicketExpired
                   | Some expiresAt \<Rightarrow> if now \<ge> expiresAt then Inl TicketExpired else Inr f1)
              | _ \<Rightarrow> Inl TicketInvalid))
      | _ \<Rightarrow> Inl TicketInvalid)"

lemma split_two: "CHR ''.'' \<notin> set a \<Longrightarrow> CHR ''.'' \<notin> set b \<Longrightarrow> split_at (CHR ''.'') (a @ ''.'' @ b) = [a, b]"
  using split_at_append [of "CHR ''.''" a b] by (simp add: split_at_none)

lemma show_int_no_bar: "CHR ''|'' \<notin> set (show_int n)"
proof
  assume "CHR ''|'' \<in> set (show_int n)"
  then have "digit_value (CHR ''|'') \<noteq> None" using show_int_characters [of "CHR ''|''" n] by auto
  moreover have "digit_value (CHR ''|'') = None" by code_simp
  ultimately show False by simp
qed

text \<open>C31. A ticket of the control plane gives back exactly the subject it was signed for, until it
  expires, and only to the purpose it was signed for: presented for another purpose it is invalid.\<close>

theorem ticket_returns_subject:
  assumes "CHR ''|'' \<notin> set purpose" "CHR ''|'' \<notin> set subject" "CHR ''|'' \<notin> set nonce"
    and "- (2 ^ 63) \<le> expiresAt" "expiresAt \<le> max_int64"
  shows "verifyTicket cr secret (signTicket cr secret purpose subject expiresAt nonce) p now =
    (if p \<noteq> purpose then Inl TicketInvalid else if now \<ge> expiresAt then Inl TicketExpired else Inr subject)"
proof -
  let ?payload = "Join [purpose, subject, show_int expiresAt, nonce] ''|''"
  have "split_at (CHR ''|'') ?payload = [purpose, subject, show_int expiresAt, nonce]"
    using split_Join [of "[purpose, subject, show_int expiresAt, nonce]" "CHR ''|''"] assms(1-3) show_int_no_bar by auto
  then show ?thesis using ParseInt_show_int [OF assms(4,5)]
    by (simp add: verifyTicket_def signTicket_def Let_def split_two [OF base64_no_dot base64_no_dot, simplified] base64_roundtrip del: Join.simps)
qed

theorem ticket_returns_subject_witness:
  "verifyTicket demo_crypto demo_secret (signTicket demo_crypto demo_secret ''retrieve'' ''transfer-1'' 2000 ''n'') ''retrieve'' 1999 = Inr ''transfer-1'' \<and>
   verifyTicket demo_crypto demo_secret (signTicket demo_crypto demo_secret ''retrieve'' ''transfer-1'' 2000 ''n'') ''upload'' 1999 = Inl TicketInvalid"
proof -
  have "CHR ''|'' \<notin> set ''retrieve''" "CHR ''|'' \<notin> set ''transfer-1''" "CHR ''|'' \<notin> set ''n''"
    "- (2 ^ 63) \<le> (2000 :: int)" "2000 \<le> max_int64" by code_simp+
  note t = ticket_returns_subject [OF this]
  have "''upload'' \<noteq> ''retrieve''" by simp
  then show ?thesis by (simp only: t if_True if_False not_False_eq_True simp_thms) simp
qed

section \<open>Download tickets for a storage node\<close>

record StorageDownloadClaims =
  cl_version :: int
  cl_purpose :: string
  cl_keyID :: string
  cl_nodeID :: string
  cl_reservationID :: string
  cl_uploadID :: string
  cl_expiresAt :: int
  cl_nonce :: string

definition validStorageDownloadClaims :: "StorageDownloadClaims \<Rightarrow> bool" where
  "validStorageDownloadClaims claims \<longleftrightarrow> cl_version claims = 1 \<and> cl_purpose claims = ''download'' \<and> cl_keyID claims = ''v1'' \<and>
     validStorageNodeID (cl_nodeID claims) \<and> validStorageObjectID (cl_uploadID claims) \<and>
     validStorageObjectID (cl_reservationID claims) \<and> cl_expiresAt claims > 0 \<and> validInternalNonce (cl_nonce claims)"

definition claims_json :: "StorageDownloadClaims \<Rightarrow> string" where
  "claims_json c = ''{\"version\":'' @ show_int (cl_version c) @ '',\"purpose\":\"'' @ cl_purpose c @ ''\",\"keyId\":\"'' @ cl_keyID c @
     ''\",\"nodeId\":\"'' @ cl_nodeID c @ ''\",\"reservationId\":\"'' @ cl_reservationID c @ ''\",\"uploadId\":\"'' @ cl_uploadID c @
     ''\",\"expiresAt\":'' @ show_int (cl_expiresAt c) @ '',\"nonce\":\"'' @ cl_nonce c @ ''\"}''"

definition SignStorageDownloadTicket :: "crypto \<Rightarrow> string \<Rightarrow> StorageDownloadClaims \<Rightarrow> ticket_error + string" where
  "SignStorageDownloadTicket cr secret claims =
     (if length secret < 32 \<or> \<not> validStorageDownloadClaims claims then Inl TicketInvalid
      else let encoded = base64_encode (claims_json claims)
           in Inr (encoded @ ''.'' @ base64_encode (cr_hmac cr secret encoded)))"

text \<open>\<open>decode\<close> is \<^verbatim>\<open>json.Decoder\<close> on a single value without unknown fields.\<close>

definition VerifyStorageDownloadTicketAt ::
  "crypto \<Rightarrow> (string \<Rightarrow> StorageDownloadClaims option) \<Rightarrow> string \<Rightarrow> string \<Rightarrow> int \<Rightarrow> ticket_error + StorageDownloadClaims" where
  "VerifyStorageDownloadTicketAt cr decode secret ticket now =
     (if length secret < 32 \<or> length ticket > 4096 then Inl TicketInvalid
      else case split_at (CHR ''.'') ticket of
        [p0, p1] \<Rightarrow>
          (if p0 = '''' \<or> p1 = '''' then Inl TicketInvalid
           else case base64_decode p1 of None \<Rightarrow> Inl TicketInvalid | Some actual \<Rightarrow>
             (if length actual \<noteq> 32 \<or> base64_encode actual \<noteq> p1 then Inl TicketInvalid
              else if cr_hmac cr secret p0 \<noteq> actual then Inl TicketInvalid
              else case base64_decode p0 of None \<Rightarrow> Inl TicketInvalid | Some payload \<Rightarrow>
                (if length payload > 1048576 \<or> base64_encode payload \<noteq> p0 then Inl TicketInvalid
                 else case decode payload of None \<Rightarrow> Inl TicketInvalid | Some claims \<Rightarrow>
                   (if \<not> validStorageDownloadClaims claims then Inl TicketInvalid
                    else if cl_expiresAt claims \<le> now then Inl TicketExpired else Inr claims))))
      | _ \<Rightarrow> Inl TicketInvalid)"

lemma length_base64: "length (base64_encode s) \<le> 2 * length s"
proof -
  have "length (to_sextets bs) \<le> 2 * length bs" for bs by (induction bs rule: to_sextets.induct) simp_all
  from this [of "map of_char s"] show ?thesis by (simp add: base64_encode_def)
qed

lemma length_decimal: "n < 10 ^ Suc k \<Longrightarrow> length (decimal n) \<le> Suc k"
proof (induction k arbitrary: n)
  case 0
  then show ?case by (simp add: decimal.simps [of n])
next
  case (Suc k)
  then have "n div 10 < 10 ^ Suc k" using less_mult_imp_div_less [of n "10 ^ Suc k" 10] by simp
  then show ?case using Suc.IH [of "n div 10"] by (simp add: decimal.simps [of n])
qed

lemma claims_json_length:
  assumes "validStorageDownloadClaims c" "cl_expiresAt c \<le> max_int64"
  shows "length (claims_json c) \<le> 700"
proof -
  have "nat (cl_expiresAt c) < 10 ^ Suc 18" using assms by (simp add: max_int64_def nat_less_iff)
  from length_decimal [OF this] have "length (show_int (cl_expiresAt c)) \<le> 19" using assms(1) by (simp add: show_int_def validStorageDownloadClaims_def)
  moreover have "length (show_int 1) = 1" by code_simp
  ultimately show ?thesis using assms(1)
    by (simp add: claims_json_def validStorageDownloadClaims_def validStorageNodeID_def validStorageObjectID_def validInternalNonce_def)
qed

lemma hmac_nonempty: "(\<And>k m. length (cr_hmac cr k m) = 32) \<Longrightarrow> base64_encode (cr_hmac cr k m) \<noteq> ''''"
  by (metis base64_empty list.size(3) zero_neq_numeral)

lemma verified_ticket_shape:
  assumes "VerifyStorageDownloadTicketAt cr decode secret ticket now = Inr c"
  shows "\<exists>payload. decode payload = Some c \<and>
    ticket = base64_encode payload @ ''.'' @ base64_encode (cr_hmac cr secret (base64_encode payload))"
proof -
  obtain p0 p1 actual payload where p: "split_at (CHR ''.'') ticket = [p0, p1]" "base64_encode actual = p1" "cr_hmac cr secret p0 = actual"
      "base64_encode payload = p0" "decode payload = Some c"
    using assms by (auto simp: VerifyStorageDownloadTicketAt_def split: if_splits list.splits option.splits)
  have "ticket = p0 @ ''.'' @ p1" using Join_split [of "CHR ''.''" ticket] p(1) by simp
  then show ?thesis using p by auto
qed

lemma signed_ticket_verifies:
  assumes "\<And>k m. length (cr_hmac cr k m) = 32" "\<And>c. validStorageDownloadClaims c \<Longrightarrow> cl_expiresAt c \<le> max_int64 \<Longrightarrow> decode (claims_json c) = Some c"
    and "SignStorageDownloadTicket cr secret claims = Inr ticket" "cl_expiresAt claims \<le> max_int64"
  shows "VerifyStorageDownloadTicketAt cr decode secret ticket now = (if cl_expiresAt claims \<le> now then Inl TicketExpired else Inr claims)"
proof -
  let ?e = "base64_encode (claims_json claims)"
  have v: "\<not> length secret < 32" "validStorageDownloadClaims claims" "ticket = ?e @ ''.'' @ base64_encode (cr_hmac cr secret ?e)"
    using assms(3) by (auto simp: SignStorageDownloadTicket_def Let_def split: if_splits)
  have len: "length (claims_json claims) \<le> 700" using claims_json_length [OF v(2) assms(4)] .
  then have "length ticket \<le> 4096" using length_base64 [of "claims_json claims"] length_base64 [of "cr_hmac cr secret ?e"] assms(1) by (simp add: v(3))
  moreover have "?e \<noteq> ''''" by (simp add: base64_empty claims_json_def)
  moreover have "split_at (CHR ''.'') ticket = [?e, base64_encode (cr_hmac cr secret ?e)]"
    unfolding v(3) by (rule split_two [OF base64_no_dot base64_no_dot])
  ultimately show ?thesis
    using v(1,2) len assms(1) assms(2) [OF v(2) assms(4)] hmac_nonempty [OF assms(1)]
    by (simp add: VerifyStorageDownloadTicketAt_def base64_roundtrip)
qed

text \<open>C32. A download ticket says exactly what the control plane signed: until it expires the node reads
  back the claims that were signed, after that it refuses them; and a ticket is accepted only in one
  spelling, the encoding of its payload with the keyed digest of that encoding.\<close>

theorem download_ticket_exact:
  assumes "\<And>k m. length (cr_hmac cr k m) = 32" "\<And>c. validStorageDownloadClaims c \<Longrightarrow> cl_expiresAt c \<le> max_int64 \<Longrightarrow> decode (claims_json c) = Some c"
    and "SignStorageDownloadTicket cr secret claims = Inr ticket" "cl_expiresAt claims \<le> max_int64"
  shows "VerifyStorageDownloadTicketAt cr decode secret ticket now = (if cl_expiresAt claims \<le> now then Inl TicketExpired else Inr claims) \<and>
    (\<forall>other c. VerifyStorageDownloadTicketAt cr decode secret other now = Inr c \<longrightarrow>
      (\<exists>payload. decode payload = Some c \<and> other = base64_encode payload @ ''.'' @ base64_encode (cr_hmac cr secret (base64_encode payload))))"
  using signed_ticket_verifies [OF assms] verified_ticket_shape by blast


definition demo_claims :: StorageDownloadClaims where
  "demo_claims = \<lparr>cl_version = 1, cl_purpose = ''download'', cl_keyID = ''v1'', cl_nodeID = ''node-1'', cl_reservationID = ''reserved-1'',
     cl_uploadID = ''upload-01'', cl_expiresAt = 2000, cl_nonce = ''nonce-123''\<rparr>"

text \<open>A decoder that satisfies the law: it reads the fields between the quotes.\<close>

definition demo_decode :: "string \<Rightarrow> StorageDownloadClaims option" where
  "demo_decode s = (let f = split_at (CHR 0x22) s in
     if length f \<noteq> 29 then None
     else case (ParseInt (butlast (tl (f ! 2))), ParseInt (butlast (tl (f ! 24)))) of
       (Some v, Some t) \<Rightarrow> Some \<lparr>cl_version = v, cl_purpose = f ! 5, cl_keyID = f ! 9, cl_nodeID = f ! 13, cl_reservationID = f ! 17,
          cl_uploadID = f ! 21, cl_expiresAt = t, cl_nonce = f ! 27\<rparr>
     | _ \<Rightarrow> None)"

lemma quote_free: "\<not> id_character (CHR 0x22)" "digit_value (CHR 0x22) = None"
  by code_simp+

lemma demo_decode_json:
  assumes v: "validStorageDownloadClaims c" and t: "cl_expiresAt c \<le> max_int64"
  shows "demo_decode (claims_json c) = Some c"
proof -
  let ?f = "[''{'', ''version'', '':'' @ show_int (cl_version c) @ '','', ''purpose'', '':'', cl_purpose c, '','', ''keyId'', '':'', cl_keyID c, '','',
     ''nodeId'', '':'', cl_nodeID c, '','', ''reservationId'', '':'', cl_reservationID c, '','', ''uploadId'', '':'', cl_uploadID c, '','',
     ''expiresAt'', '':'' @ show_int (cl_expiresAt c) @ '','', ''nonce'', '':'', cl_nonce c, ''}'']"
  have n: "CHR 0x22 \<notin> set (show_int k)" for k using show_int_characters [of "CHR 0x22" k] quote_free(2) by auto
  have "\<And>x. x \<in> set ?f \<Longrightarrow> CHR 0x22 \<notin> set x"
    using v n quote_free(1) by (auto simp: validStorageDownloadClaims_def validStorageNodeID_def validStorageObjectID_def validInternalNonce_def list_all_iff)
  then have "split_at (CHR 0x22) (Join ?f [CHR 0x22]) = ?f" by (rule split_Join [rotated]) simp_all
  moreover have "claims_json c = Join ?f [CHR 0x22]" by (simp add: claims_json_def)
  moreover have "ParseInt (show_int (cl_version c)) = Some (cl_version c)" "ParseInt (show_int (cl_expiresAt c)) = Some (cl_expiresAt c)"
    using v t by (intro ParseInt_show_int; simp add: validStorageDownloadClaims_def max_int64_def)+
  ultimately show ?thesis by (simp add: demo_decode_def Let_def butlast_append numeral_eq_Suc del: Join.simps)
qed

theorem download_ticket_exact_witness:
  "\<exists>ticket. SignStorageDownloadTicket demo_crypto demo_secret demo_claims = Inr ticket \<and>
     VerifyStorageDownloadTicketAt demo_crypto demo_decode demo_secret ticket 1999 = Inr demo_claims \<and>
     VerifyStorageDownloadTicketAt demo_crypto demo_decode demo_secret ticket 2000 = Inl TicketExpired"
proof -
  have size: "\<And>k m. length (cr_hmac demo_crypto k m) = 32" by (simp add: demo_crypto_def)
  have v: "\<not> length demo_secret < 32" "validStorageDownloadClaims demo_claims" "cl_expiresAt demo_claims = 2000" by code_simp+
  then obtain ticket where t: "SignStorageDownloadTicket demo_crypto demo_secret demo_claims = Inr ticket"
    by (auto simp: SignStorageDownloadTicket_def Let_def)
  have "cl_expiresAt demo_claims \<le> max_int64" by code_simp
  note x = download_ticket_exact [OF size demo_decode_json t this]
  show ?thesis using x [of 1999] x [of 2000] t v(3) by auto
qed

end
