(* ===== verification/Storage_Store.thy ===== *)
theory Storage_Store
  imports Storage_Paths Downloads
begin

text \<open>
  The database of a storage node (storage_store.go): uploads with their scan leases, the outbox of
  events for the control plane with its dead letters, and download sessions. The connection, the
  schema migration and the readiness canary are left out. \<^verbatim>\<open>AUTOINCREMENT\<close> keeps the largest
  identifier ever used (\<open>outbox_seq\<close>, \<open>dead_seq\<close>); \<^verbatim>\<open>time.Now()\<close> inside
  normalizeStorageOutboxRecord is the argument \<open>clock\<close>, random tokens are arguments.
\<close>

section \<open>Tables\<close>

datatype storage_status = StorageUploading | PendingScan | StorageScanning | Clean | StorageBlocked | ScannerError

record storage_upload =
  su_id :: ident
  su_token_hash :: string
  su_original_name :: string
  su_content_type :: string
  su_length :: int
  su_offset :: int
  su_status :: storage_status
  su_path :: string
  su_sha256 :: string
  su_scan_detail :: string
  su_expires_at :: unix_time
  su_lease_until :: unix_time
  su_lease_id :: string

record outbox_event =
  ob_id :: int
  ob_event_key :: string
  ob_method :: string
  ob_path :: string
  ob_body :: string
  ob_attempts :: int
  ob_next_attempt_at :: unix_time
  ob_created_at :: unix_time
  ob_last_error :: string
  ob_version :: int
  ob_claim_token :: string
  ob_claim_until :: unix_time
  ob_replay_blocking :: bool

record dead_letter =
  dead_id :: int
  dead_original_id :: int
  dead_event_key :: string
  dead_method :: string
  dead_path :: string
  dead_body :: string
  dead_attempts :: int
  dead_created_at :: unix_time
  dead_failed_at :: unix_time
  dead_last_status :: int
  dead_last_error :: string
  dead_version :: int

datatype download_status = BeginPending | Streaming | SettlePending

record download_session =
  ds_reservation_id :: ident
  ds_upload_id :: ident
  ds_expected_bytes :: int
  ds_stream_bytes :: int
  ds_actual_bytes :: int
  ds_status :: download_status
  ds_settle_path :: string
  ds_started_at :: unix_time
  ds_heartbeat_at :: unix_time

record sdb =
  suploads :: "storage_upload list"
  outbox :: "outbox_event list"
  dead_letters :: "dead_letter list"
  downloads :: "download_session list"
  outbox_seq :: int
  dead_seq :: int

type_synonym 'a sop = "sdb \<Rightarrow> 'a result \<times> sdb"

definition sql_only :: "('r \<Rightarrow> bool) \<Rightarrow> 'r list \<Rightarrow> bool" where
  "sql_only p t \<longleftrightarrow> sql_count p t = 1"

section \<open>Health\<close>

definition sql_min :: "('r \<Rightarrow> int) \<Rightarrow> 'r list \<Rightarrow> int" where
  "sql_min f t = (case map f t of [] \<Rightarrow> 0 | x # xs \<Rightarrow> fold min xs x)"

definition OutboxHealth :: "sdb \<Rightarrow> int \<times> unix_time" where
  "OutboxHealth db = (int (length (outbox db)), sql_min ob_next_attempt_at (outbox db))"

definition OutboxReadiness :: "sdb \<Rightarrow> unix_time \<times> string" where
  "OutboxReadiness db = (sql_min ob_created_at (outbox db),
     (case sort_key ob_created_at (sort_key ob_id (outbox db)) of [] \<Rightarrow> '''' | e # _ \<Rightarrow> ob_last_error e))"

definition DeadLetterHealth :: "sdb \<Rightarrow> int \<times> unix_time \<times> string" where
  "DeadLetterHealth db = (int (length (dead_letters db)), sql_min dead_failed_at (dead_letters db),
     (case sort_key dead_failed_at (sort_key dead_id (dead_letters db)) of [] \<Rightarrow> '''' | e # _ \<Rightarrow> dead_last_error e))"

definition BlockingReplayCount :: "sdb \<Rightarrow> int" where
  "BlockingReplayCount db = int (sql_count ob_replay_blocking (outbox db))"

section \<open>Outbox\<close>

definition normalizeStorageOutboxRecord :: "unix_time \<Rightarrow> outbox_event \<Rightarrow> outbox_event result" where
  "normalizeStorageOutboxRecord clock event =
     (if ob_event_key event = '''' \<or> ob_method event = '''' \<or> ob_path event = '''' \<or> ob_next_attempt_at event \<le> 0
      then Inl ErrOther
      else Inr (event\<lparr>ob_created_at := (if ob_created_at event \<le> 0 then clock else ob_created_at event),
                      ob_last_error := take 512 (ob_last_error event)\<rparr>))"

text \<open>\<^verbatim>\<open>INSERT ... ON CONFLICT(event_key) DO UPDATE\<close>.\<close>

definition upsert_event :: "outbox_event \<Rightarrow> sdb \<Rightarrow> sdb" where
  "upsert_event event db =
     (if sql_exists (\<lambda>x. ob_event_key x = ob_event_key event) (outbox db)
      then db\<lparr>outbox := sql_update (\<lambda>x. ob_event_key x = ob_event_key event)
             (\<lambda>x. x\<lparr>ob_method := ob_method event, ob_path := ob_path event, ob_body := ob_body event,
                    ob_next_attempt_at := min (ob_next_attempt_at x) (ob_next_attempt_at event),
                    ob_version := ob_version x + 1\<rparr>) (outbox db)\<rparr>
      else db\<lparr>outbox := outbox db @ [event\<lparr>ob_id := outbox_seq db + 1, ob_attempts := 0, ob_version := 1,
                ob_claim_token := '''', ob_claim_until := 0, ob_replay_blocking := False\<rparr>],
              outbox_seq := outbox_seq db + 1\<rparr>)"

definition enqueueStorageOutboxTx :: "unix_time \<Rightarrow> outbox_event \<Rightarrow> sdb \<Rightarrow> sdb result" where
  "enqueueStorageOutboxTx clock event db =
     (case normalizeStorageOutboxRecord clock event of Inl e \<Rightarrow> Inl e | Inr ev \<Rightarrow> Inr (upsert_event ev db))"

definition EnqueueOutbox :: "unix_time \<Rightarrow> outbox_event \<Rightarrow> unit sop" where
  "EnqueueOutbox clock event db =
     (case normalizeStorageOutboxRecord clock event of Inl e \<Rightarrow> (Inl e, db) | Inr ev \<Rightarrow> (Inr (), upsert_event ev db))"

definition by_due :: "outbox_event list \<Rightarrow> outbox_event list" where
  "by_due es = sort_key ob_next_attempt_at (sort_key ob_id es)"

definition DueOutbox :: "unix_time \<Rightarrow> nat \<Rightarrow> sdb \<Rightarrow> outbox_event list" where
  "DueOutbox now limit db = take limit (by_due (filter (\<lambda>e. ob_next_attempt_at e \<le> now) (outbox db)))"

definition claimable_events :: "unix_time \<Rightarrow> nat \<Rightarrow> sdb \<Rightarrow> int list" where
  "claimable_events now limit db = map ob_id (take limit (by_due
     (filter (\<lambda>e. ob_next_attempt_at e \<le> now \<and> (ob_claim_token e = '''' \<or> ob_claim_until e \<le> now)) (outbox db))))"

definition ClaimOutbox :: "string \<Rightarrow> unix_time \<Rightarrow> unix_time \<Rightarrow> int \<Rightarrow> outbox_event list sop" where
  "ClaimOutbox claimToken now leaseUntil limit db =
     (if leaseUntil \<le> now \<or> limit \<le> 0 then (Inl ErrOther, db)
      else let ids = claimable_events now (nat limit) db;
               db1 = db\<lparr>outbox := sql_update (\<lambda>e. ob_id e \<in> set ids)
                 (\<lambda>e. e\<lparr>ob_claim_token := claimToken, ob_claim_until := leaseUntil\<rparr>) (outbox db)\<rparr>
           in (Inr (by_due (filter (\<lambda>e. ob_claim_token e = claimToken) (outbox db1))), db1))"

text \<open>The version moved while the event was being delivered: the claim is given up, the event stays.\<close>

definition release_claim :: "outbox_event \<Rightarrow> unix_time \<Rightarrow> sdb \<Rightarrow> sdb" where
  "release_claim event now db =
     db\<lparr>outbox := sql_update (\<lambda>e. ob_id e = ob_id event \<and> ob_claim_token e = ob_claim_token event)
          (\<lambda>e. e\<lparr>ob_claim_token := '''', ob_claim_until := 0, ob_next_attempt_at := min (ob_next_attempt_at e) now\<rparr>)
          (outbox db)\<rparr>"

definition claimed_as :: "outbox_event \<Rightarrow> outbox_event \<Rightarrow> bool" where
  "claimed_as event e \<longleftrightarrow> ob_id e = ob_id event \<and> ob_claim_token e = ob_claim_token event \<and>
     ob_version e = ob_version event"

definition settle_prefix :: string where "settle_prefix = ''download-settle:''"

definition AckClaimedOutbox :: "outbox_event \<Rightarrow> unix_time \<Rightarrow> unit sop" where
  "AckClaimedOutbox event now db =
     (case sql_first (\<lambda>e. ob_id e = ob_id event) (outbox db) of
        None \<Rightarrow> (Inr (), db)
      | Some e \<Rightarrow>
        (if ob_claim_token e = '''' \<or> ob_claim_token e \<noteq> ob_claim_token event then (Inl ErrConflict, db)
         else if ob_version e \<noteq> ob_version event then (Inr (), release_claim event now db)
         else if \<not> sql_only (claimed_as event) (outbox db) then (Inl ErrConflict, db)
         else let db1 = db\<lparr>outbox := sql_delete (claimed_as event) (outbox db)\<rparr>
              in (Inr (),
                  if take (length settle_prefix) (ob_event_key e) = settle_prefix
                  then db1\<lparr>downloads := sql_delete (\<lambda>d. ds_reservation_id d = drop (length settle_prefix) (ob_event_key e) \<and>
                         ds_status d = SettlePending) (downloads db1)\<rparr>
                  else db1)))"

definition RetryClaimedOutbox :: "outbox_event \<Rightarrow> unix_time \<Rightarrow> unix_time \<Rightarrow> string \<Rightarrow> unit sop" where
  "RetryClaimedOutbox event now nextAttemptAt lastError db =
     (if sql_only (claimed_as event) (outbox db)
      then (Inr (), db\<lparr>outbox := sql_update (claimed_as event)
             (\<lambda>e. e\<lparr>ob_attempts := ob_attempts e + 1, ob_next_attempt_at := nextAttemptAt,
                    ob_last_error := take 512 lastError, ob_claim_token := '''', ob_claim_until := 0\<rparr>) (outbox db)\<rparr>)
      else (Inr (), release_claim event now db))"

definition put_dead_letter :: "unix_time \<Rightarrow> int \<Rightarrow> string \<Rightarrow> outbox_event \<Rightarrow> sdb \<Rightarrow> sdb" where
  "put_dead_letter failedAt status lastError e db =
     (let row = \<lparr>dead_id = dead_seq db + 1, dead_original_id = ob_id e, dead_event_key = ob_event_key e,
            dead_method = ob_method e, dead_path = ob_path e, dead_body = ob_body e, dead_attempts = ob_attempts e + 1,
            dead_created_at = ob_created_at e, dead_failed_at = failedAt, dead_last_status = status,
            dead_last_error = lastError, dead_version = ob_version e\<rparr>
      in if sql_exists (\<lambda>x. dead_event_key x = ob_event_key e) (dead_letters db)
         then db\<lparr>dead_letters := sql_update (\<lambda>x. dead_event_key x = ob_event_key e)
                (\<lambda>x. row\<lparr>dead_id := dead_id x\<rparr>) (dead_letters db)\<rparr>
         else db\<lparr>dead_letters := dead_letters db @ [row], dead_seq := dead_seq db + 1\<rparr>)"

definition DeadLetterClaimedOutbox :: "outbox_event \<Rightarrow> unix_time \<Rightarrow> int \<Rightarrow> string \<Rightarrow> unit sop" where
  "DeadLetterClaimedOutbox event failedAt status lastError db =
     (case sql_first (\<lambda>e. ob_id e = ob_id event) (outbox db) of
        None \<Rightarrow> (Inr (), db)
      | Some e \<Rightarrow>
        (if ob_claim_token e \<noteq> ob_claim_token event \<or> ob_claim_token e = '''' then (Inl ErrConflict, db)
         else if ob_version e \<noteq> ob_version event then (Inr (), release_claim event failedAt db)
         else if \<not> sql_only (claimed_as event) (outbox db) then (Inl ErrConflict, db)
         else let db1 = put_dead_letter failedAt status (take 512 lastError) e db
              in (Inr (), db1\<lparr>outbox := sql_delete (claimed_as event) (outbox db1)\<rparr>)))"

definition ResetOutboxClaims :: "unix_time \<Rightarrow> unit sop" where
  "ResetOutboxClaims now db =
     (Inr (), db\<lparr>outbox := sql_update (\<lambda>e. ob_claim_token e \<noteq> '''' \<or> ob_claim_until e \<noteq> 0)
        (\<lambda>e. e\<lparr>ob_claim_token := '''', ob_claim_until := 0, ob_next_attempt_at := min (ob_next_attempt_at e) now\<rparr>)
        (outbox db)\<rparr>)"

definition text_replayed :: string where "text_replayed = ''replayed from dead letter''"

definition replay_one :: "unix_time \<Rightarrow> dead_letter \<Rightarrow> sdb \<Rightarrow> sdb" where
  "replay_one now r db =
     (let db1 =
        (if sql_exists (\<lambda>x. ob_event_key x = dead_event_key r) (outbox db)
         then db\<lparr>outbox := sql_update (\<lambda>x. ob_event_key x = dead_event_key r)
                (\<lambda>x. x\<lparr>ob_method := dead_method r, ob_path := dead_path r, ob_body := dead_body r, ob_attempts := 0,
                       ob_next_attempt_at := now, ob_created_at := now, ob_last_error := text_replayed,
                       ob_version := max (ob_version x) (dead_version r + 1) + 1,
                       ob_claim_token := '''', ob_claim_until := 0, ob_replay_blocking := True\<rparr>) (outbox db)\<rparr>
         else db\<lparr>outbox := outbox db @ [\<lparr>ob_id = outbox_seq db + 1, ob_event_key = dead_event_key r,
                   ob_method = dead_method r, ob_path = dead_path r, ob_body = dead_body r, ob_attempts = 0,
                   ob_next_attempt_at = now, ob_created_at = now, ob_last_error = text_replayed,
                   ob_version = dead_version r + 1, ob_claim_token = '''', ob_claim_until = 0,
                   ob_replay_blocking = True\<rparr>],
                 outbox_seq := outbox_seq db + 1\<rparr>)
      in db1\<lparr>dead_letters := sql_delete (\<lambda>x. dead_id x = dead_id r) (dead_letters db1)\<rparr>)"

definition ReplayDeadLetters :: "unix_time \<Rightarrow> int \<Rightarrow> int sop" where
  "ReplayDeadLetters now limit0 db =
     (let limit = (if limit0 \<le> 0 then 1000 else limit0);
          records = take (nat limit) (sort_key dead_failed_at (sort_key dead_id (dead_letters db)))
      in (Inr (int (length records)), fold (replay_one now) records db))"

section \<open>Download sessions\<close>

definition DownloadSessionByID :: "ident \<Rightarrow> sdb \<Rightarrow> download_session result" where
  "DownloadSessionByID i db =
     (case sql_first (\<lambda>d. ds_reservation_id d = i) (downloads db) of None \<Rightarrow> Inl ErrNotFound | Some d \<Rightarrow> Inr d)"

definition HasActiveDownloadSessions :: "ident \<Rightarrow> sdb \<Rightarrow> bool" where
  "HasActiveDownloadSessions uploadID db = (sql_count (\<lambda>d. ds_upload_id d = uploadID \<and>
     (ds_status d = BeginPending \<or> ds_status d = Streaming \<or> ds_status d = SettlePending)) (downloads db) > 0)"

definition PrepareDownloadSession :: "download_session \<Rightarrow> unit sop" where
  "PrepareDownloadSession session0 db =
     (let session = session0\<lparr>ds_stream_bytes := (if ds_stream_bytes session0 \<le> 0 then ds_expected_bytes session0
                                                  else ds_stream_bytes session0),
                             ds_heartbeat_at := (if ds_heartbeat_at session0 \<le> 0 then ds_started_at session0
                                                  else ds_heartbeat_at session0)\<rparr>
      in if ds_reservation_id session = '''' \<or> ds_upload_id session = '''' \<or> ds_expected_bytes session \<le> 0 \<or>
            ds_stream_bytes session \<le> 0 \<or> ds_stream_bytes session > ds_expected_bytes session \<or>
            ds_settle_path session = '''' \<or> ds_started_at session \<le> 0 \<or> ds_heartbeat_at session \<le> 0
         then (Inl ErrOther, db)
         else if sql_exists (\<lambda>d. ds_reservation_id d = ds_reservation_id session) (downloads db)
         then (Inl ErrConflict, db)
         else (Inr (), db\<lparr>downloads := downloads db @ [session\<lparr>ds_actual_bytes := 0, ds_status := BeginPending\<rparr>]\<rparr>))"

definition ActivateDownloadSession :: "ident \<Rightarrow> unit sop" where
  "ActivateDownloadSession i db =
     (let hit = (\<lambda>d. ds_reservation_id d = i \<and> ds_status d = BeginPending)
      in if \<not> sql_only hit (downloads db) then (Inl ErrConflict, db)
         else (Inr (), db\<lparr>downloads := sql_update hit (\<lambda>d. d\<lparr>ds_status := Streaming\<rparr>) (downloads db)\<rparr>))"

definition UpdateDownloadProgress :: "ident \<Rightarrow> int \<Rightarrow> unit sop" where
  "UpdateDownloadProgress i actualBytes db =
     (if actualBytes \<le> 0 then (Inl ErrOther, db)
      else let hit = (\<lambda>d. ds_reservation_id d = i \<and> ds_status d = Streaming \<and> ds_actual_bytes d < actualBytes \<and>
                       actualBytes \<le> ds_stream_bytes d)
           in if \<not> sql_only hit (downloads db) then (Inl ErrConflict, db)
              else (Inr (), db\<lparr>downloads := sql_update hit (\<lambda>d. d\<lparr>ds_actual_bytes := actualBytes\<rparr>) (downloads db)\<rparr>))"

definition HeartbeatDownloadSession :: "ident \<Rightarrow> int \<Rightarrow> unix_time \<Rightarrow> int sop" where
  "HeartbeatDownloadSession i actualBytes now db =
     (if actualBytes < 0 \<or> now \<le> 0 then (Inl ErrOther, db)
      else let hit = (\<lambda>d. ds_reservation_id d = i \<and> ds_status d = Streaming \<and> actualBytes \<le> ds_stream_bytes d)
           in case sql_first hit (downloads db) of
                None \<Rightarrow> (Inl ErrConflict, db)
              | Some d \<Rightarrow> (Inr (max (ds_actual_bytes d) actualBytes),
                  db\<lparr>downloads := sql_update hit (\<lambda>d. d\<lparr>ds_actual_bytes := max (ds_actual_bytes d) actualBytes,
                       ds_heartbeat_at := max (ds_heartbeat_at d) now\<rparr>) (downloads db)\<rparr>))"

definition CancelDownloadSession :: "ident \<Rightarrow> unit sop" where
  "CancelDownloadSession i db =
     (let hit = (\<lambda>d. ds_reservation_id d = i \<and> ds_status d = BeginPending)
      in if \<not> sql_only hit (downloads db) then (Inl ErrConflict, db)
         else (Inr (), db\<lparr>downloads := sql_delete hit (downloads db)\<rparr>))"

datatype settlement_mode = SettleStreamingExact | SettlePendingZero | SettleStreamingCheckpoint

definition settled_bytes :: "settlement_mode \<Rightarrow> download_session \<Rightarrow> int \<Rightarrow> int" where
  "settled_bytes mode session actualBytes =
     (case mode of SettlePendingZero \<Rightarrow> 0 | SettleStreamingCheckpoint \<Rightarrow> ds_actual_bytes session
      | SettleStreamingExact \<Rightarrow> actualBytes)"

definition settleable :: "settlement_mode \<Rightarrow> download_session \<Rightarrow> int \<Rightarrow> unit result" where
  "settleable mode session actualBytes =
     (if actualBytes < 0 \<or> actualBytes > ds_stream_bytes session then Inl ErrOther
      else if mode = SettleStreamingExact \<and> actualBytes < ds_actual_bytes session then Inl ErrConflict
      else if ds_status session = SettlePending
      then (if ds_actual_bytes session \<noteq> actualBytes then Inl ErrConflict else Inr ())
      else if ds_status session \<noteq> (if mode = SettlePendingZero then BeginPending else Streaming) then Inl ErrConflict
      else Inr ())"

definition reported_bytes :: "download_session \<Rightarrow> int \<Rightarrow> int result" where
  "reported_bytes session actualBytes =
     (if actualBytes > 0 \<and> actualBytes < ds_expected_bytes session
      then encodeFinalNodeDownloadBytes (ds_expected_bytes session) actualBytes else Inr actualBytes)"

definition settle_body :: "int \<Rightarrow> string" where
  "settle_body reportedBytes = ''{\"actualBytes\":'' @ show_int reportedBytes @ ''}''"

definition settle_event :: "download_session \<Rightarrow> int \<Rightarrow> unix_time \<Rightarrow> outbox_event" where
  "settle_event session reportedBytes now =
     \<lparr>ob_id = 0, ob_event_key = settle_prefix @ ds_reservation_id session, ob_method = ''POST'',
      ob_path = ds_settle_path session, ob_body = settle_body reportedBytes, ob_attempts = 0,
      ob_next_attempt_at = now, ob_created_at = 0, ob_last_error = '''', ob_version = 0, ob_claim_token = '''',
      ob_claim_until = 0, ob_replay_blocking = False\<rparr>"

definition mark_settle_pending :: "download_session \<Rightarrow> int \<Rightarrow> sdb \<Rightarrow> sdb result" where
  "mark_settle_pending session actualBytes db =
     (if ds_status session = SettlePending then Inr db
      else let hit = (\<lambda>d. ds_reservation_id d = ds_reservation_id session \<and> ds_status d = ds_status session)
           in if \<not> sql_only hit (downloads db) then Inl ErrConflict
              else Inr (db\<lparr>downloads := sql_update hit
                (\<lambda>d. d\<lparr>ds_status := SettlePending, ds_actual_bytes := actualBytes\<rparr>) (downloads db)\<rparr>))"

definition queueDownloadSettlement :: "unix_time \<Rightarrow> ident \<Rightarrow> int \<Rightarrow> unix_time \<Rightarrow> settlement_mode \<Rightarrow> unit sop" where
  "queueDownloadSettlement clock i actualBytes0 now mode db =
     (case sql_first (\<lambda>d. ds_reservation_id d = i) (downloads db) of
        None \<Rightarrow> (Inl ErrNotFound, db)
      | Some session \<Rightarrow>
        (let actualBytes = settled_bytes mode session actualBytes0
         in case settleable mode session actualBytes of
              Inl e \<Rightarrow> (Inl e, db)
            | Inr _ \<Rightarrow>
              (case reported_bytes session actualBytes of
                 Inl e \<Rightarrow> (Inl e, db)
               | Inr reportedBytes \<Rightarrow>
                 (case mark_settle_pending session actualBytes db of
                    Inl e \<Rightarrow> (Inl e, db)
                  | Inr db1 \<Rightarrow>
                    (case enqueueStorageOutboxTx clock (settle_event session reportedBytes now) db1 of
                       Inl e \<Rightarrow> (Inl e, db) | Inr db2 \<Rightarrow> (Inr (), db2))))))"

definition FinishDownloadSession :: "unix_time \<Rightarrow> ident \<Rightarrow> int \<Rightarrow> unix_time \<Rightarrow> unit sop" where
  "FinishDownloadSession clock i actualBytes now = queueDownloadSettlement clock i actualBytes now SettleStreamingExact"

definition FinishPendingDownloadSession :: "unix_time \<Rightarrow> ident \<Rightarrow> unix_time \<Rightarrow> unit sop" where
  "FinishPendingDownloadSession clock i now = queueDownloadSettlement clock i 0 now SettlePendingZero"

definition ConservativelyFinishDownloadSession :: "unix_time \<Rightarrow> ident \<Rightarrow> unix_time \<Rightarrow> unit sop" where
  "ConservativelyFinishDownloadSession clock i now = queueDownloadSettlement clock i 0 now SettleStreamingCheckpoint"

text \<open>The loop of recoverDownloadSessions stops at the first error; what it settled before stays.\<close>

fun recover_sessions :: "unix_time \<Rightarrow> unix_time \<Rightarrow> download_session list \<Rightarrow> nat \<Rightarrow> sdb \<Rightarrow> (error option \<times> nat) \<times> sdb" where
  "recover_sessions clock now [] recovered db = ((None, recovered), db)"
| "recover_sessions clock now (s # ss) recovered db =
     (case (if ds_status s = BeginPending then FinishPendingDownloadSession clock (ds_reservation_id s) now db
            else ConservativelyFinishDownloadSession clock (ds_reservation_id s) now db) of
        (Inl e, db') \<Rightarrow> ((Some e, recovered), db')
      | (Inr _, db') \<Rightarrow> recover_sessions clock now ss (recovered + 1) db')"

definition recoverDownloadSessions ::
  "unix_time \<Rightarrow> unix_time \<Rightarrow> int \<Rightarrow> (download_session \<Rightarrow> bool) \<Rightarrow> sdb \<Rightarrow> (error option \<times> nat) \<times> sdb" where
  "recoverDownloadSessions clock now limit p db =
     (if limit \<le> 0 then ((Some ErrOther, 0), db)
      else recover_sessions clock now
        (take (nat limit) (sort_key ds_started_at (sort_key ds_reservation_id (filter p (downloads db))))) 0 db)"

definition RecoverDownloadSessions :: "unix_time \<Rightarrow> unix_time \<Rightarrow> int \<Rightarrow> sdb \<Rightarrow> (error option \<times> nat) \<times> sdb" where
  "RecoverDownloadSessions clock now limit =
     recoverDownloadSessions clock now limit (\<lambda>d. ds_status d = BeginPending \<or> ds_status d = Streaming)"

definition RecoverStaleDownloadSessions ::
  "unix_time \<Rightarrow> unix_time \<Rightarrow> unix_time \<Rightarrow> unix_time \<Rightarrow> int \<Rightarrow> sdb \<Rightarrow> (error option \<times> nat) \<times> sdb" where
  "RecoverStaleDownloadSessions clock now staleBefore hardBefore limit =
     recoverDownloadSessions clock now limit
       (\<lambda>d. (ds_status d = BeginPending \<and> ds_started_at d \<le> staleBefore) \<or>
            (ds_status d = Streaming \<and> (ds_heartbeat_at d \<le> staleBefore \<or> ds_started_at d \<le> hardBefore)))"

section \<open>Uploads\<close>

text \<open>A row leaves the store with the absolute path of its file.\<close>

definition scanUpload :: "storage_env \<Rightarrow> storage_upload \<Rightarrow> storage_upload result" where
  "scanUpload env u =
     (case normalizeUploadPath env (su_id u) (su_path u) of
        Inl e \<Rightarrow> Inl e | Inr (key, absolute) \<Rightarrow> Inr (u\<lparr>su_path := absolute\<rparr>))"

fun collectUploads :: "storage_env \<Rightarrow> storage_upload list \<Rightarrow> storage_upload list result" where
  "collectUploads env [] = Inr []"
| "collectUploads env (u # us) =
     (case scanUpload env u of
        Inl e \<Rightarrow> Inl e
      | Inr x \<Rightarrow> (case collectUploads env us of Inl e \<Rightarrow> Inl e | Inr xs \<Rightarrow> Inr (x # xs)))"

definition storage_UploadByID :: "storage_env \<Rightarrow> ident \<Rightarrow> sdb \<Rightarrow> storage_upload result" where
  "storage_UploadByID env i db =
     (case sql_first (\<lambda>u. su_id u = i) (suploads db) of None \<Rightarrow> Inl ErrNotFound | Some u \<Rightarrow> scanUpload env u)"

definition ReserveUpload :: "storage_env \<Rightarrow> storage_upload \<Rightarrow> (storage_upload \<times> bool) sop" where
  "ReserveUpload env requested db =
     (case normalizeUploadPath env (su_id requested) (su_path requested) of
        Inl e \<Rightarrow> (Inl e, db)
      | Inr (persistentPath, absolutePath) \<Rightarrow>
        (if persistentPath = '''' \<or> persistentPath \<noteq> storageUploadPathKey ''tmp'' (su_id requested) ''.part''
         then (Inl ErrOther, db)
         else let known = sql_exists (\<lambda>u. su_id u = su_id requested) (suploads db);
                  db1 = (if known then db
                         else db\<lparr>suploads := suploads db @
                           [requested\<lparr>su_offset := 0, su_status := StorageUploading, su_path := persistentPath,
                              su_sha256 := '''', su_scan_detail := '''', su_lease_until := 0, su_lease_id := ''''\<rparr>]\<rparr>)
              in case storage_UploadByID env (su_id requested) db1 of
                   Inl e \<Rightarrow> (Inl e, db1)
                 | Inr stored \<Rightarrow>
                   (if su_token_hash stored \<noteq> su_token_hash requested \<or> su_original_name stored \<noteq> su_original_name requested \<or>
                       su_content_type stored \<noteq> su_content_type requested \<or> su_length stored \<noteq> su_length requested \<or>
                       su_expires_at stored \<noteq> su_expires_at requested
                    then (Inl ErrConflict, db1) else (Inr (stored, \<not> known), db1))))"

definition ReservedUploadBytes :: "unix_time \<Rightarrow> sdb \<Rightarrow> int" where
  "ReservedUploadBytes now db = sql_sum (\<lambda>u. su_status u = StorageUploading \<and> su_expires_at u > now)
     (\<lambda>u. su_length u - su_offset u) (suploads db)"

definition storage_UpdateUploadOffset :: "ident \<Rightarrow> int \<Rightarrow> int \<Rightarrow> unit sop" where
  "storage_UpdateUploadOffset i expected nxt db =
     (let hit = (\<lambda>u. su_id u = i \<and> su_offset u = expected \<and> su_status u = StorageUploading \<and> nxt \<le> su_length u)
      in if \<not> sql_only hit (suploads db) then (Inl ErrConflict, db)
         else (Inr (), db\<lparr>suploads := sql_update hit (\<lambda>u. u\<lparr>su_offset := nxt\<rparr>) (suploads db)\<rparr>))"

definition MarkPendingScan :: "storage_env \<Rightarrow> ident \<Rightarrow> string \<Rightarrow> unit sop" where
  "MarkPendingScan env i quarantinePath db =
     (case normalizeUploadPath env i quarantinePath of
        Inl e \<Rightarrow> (Inl e, db)
      | Inr (persistentPath, absolutePath) \<Rightarrow>
        (if persistentPath \<noteq> storageUploadPathKey ''quarantine'' i ''.blob'' then (Inl ErrOther, db)
         else let hit = (\<lambda>u. su_id u = i \<and> su_offset u = su_length u \<and> su_status u = StorageUploading)
              in if sql_only hit (suploads db)
                 then (Inr (), db\<lparr>suploads := sql_update hit (\<lambda>u. u\<lparr>su_status := PendingScan, su_path := persistentPath,
                        su_lease_until := 0, su_lease_id := ''''\<rparr>) (suploads db)\<rparr>)
                 else case storage_UploadByID env i db of
                        Inl _ \<Rightarrow> (Inl ErrConflict, db)
                      | Inr u \<Rightarrow> if su_status u = PendingScan \<and> su_path u = absolutePath then (Inr (), db)
                                 else (Inl ErrConflict, db)))"

definition by_expiry :: "storage_upload list \<Rightarrow> storage_upload list" where
  "by_expiry us = sort_key su_expires_at (sort_key su_id us)"

definition RecoverableCompletedUploads :: "storage_env \<Rightarrow> nat \<Rightarrow> sdb \<Rightarrow> storage_upload list result" where
  "RecoverableCompletedUploads env limit db =
     collectUploads env (take limit (by_expiry
       (filter (\<lambda>u. su_status u = StorageUploading \<and> su_offset u = su_length u) (suploads db))))"

definition scan_claimable :: "unix_time \<Rightarrow> storage_upload \<Rightarrow> bool" where
  "scan_claimable now u \<longleftrightarrow> (su_status u = PendingScan \<or> (su_status u = StorageScanning \<and> su_lease_until u \<le> now)) \<and>
     su_expires_at u > now"

fun claim_scans ::
  "unix_time \<Rightarrow> unix_time \<Rightarrow> (storage_upload \<times> string) list \<Rightarrow> storage_upload list \<Rightarrow> sdb \<Rightarrow> storage_upload list \<times> sdb" where
  "claim_scans now leaseUntil [] claimed db = (claimed, db)"
| "claim_scans now leaseUntil ((candidate, leaseID) # cs) claimed db =
     (let hit = (\<lambda>u. su_id u = su_id candidate \<and> scan_claimable now u)
      in claim_scans now leaseUntil cs
           (if sql_only hit (suploads db)
            then claimed @ [candidate\<lparr>su_status := StorageScanning, su_lease_until := leaseUntil, su_lease_id := leaseID\<rparr>]
            else claimed)
           (db\<lparr>suploads := sql_update hit (\<lambda>u. u\<lparr>su_status := StorageScanning, su_lease_until := leaseUntil,
              su_lease_id := leaseID\<rparr>) (suploads db)\<rparr>))"

text \<open>One lease identifier per candidate is drawn; the transaction fails when the random source does.\<close>

definition ClaimPendingScans ::
  "storage_env \<Rightarrow> string list \<Rightarrow> unix_time \<Rightarrow> unix_time \<Rightarrow> int \<Rightarrow> storage_upload list sop" where
  "ClaimPendingScans env leaseIDs now leaseUntil limit db =
     (if limit \<le> 0 \<or> leaseUntil \<le> now then (Inl ErrOther, db)
      else case collectUploads env (take (nat limit) (by_expiry (filter (scan_claimable now) (suploads db)))) of
             Inl e \<Rightarrow> (Inl e, db)
           | Inr candidates \<Rightarrow>
             (if length leaseIDs < length candidates then (Inl ErrOther, db)
              else case claim_scans now leaseUntil (zip candidates leaseIDs) [] db of
                (claimed, db') \<Rightarrow> (Inr claimed, db')))"

definition ReleaseScanClaim :: "ident \<Rightarrow> string \<Rightarrow> unit sop" where
  "ReleaseScanClaim i leaseID db =
     (Inr (), db\<lparr>suploads := sql_update (\<lambda>u. su_id u = i \<and> su_status u = StorageScanning \<and> su_lease_id u = leaseID)
        (\<lambda>u. u\<lparr>su_status := PendingScan, su_lease_until := 0, su_lease_id := ''''\<rparr>) (suploads db)\<rparr>)"

definition leased :: "ident \<Rightarrow> string \<Rightarrow> unix_time \<Rightarrow> storage_upload \<Rightarrow> bool" where
  "leased i leaseID now u \<longleftrightarrow> su_id u = i \<and> su_status u = StorageScanning \<and> su_lease_id u = leaseID \<and> su_lease_until u > now"

definition RenewScanLease :: "ident \<Rightarrow> string \<Rightarrow> unix_time \<Rightarrow> unix_time \<Rightarrow> unit sop" where
  "RenewScanLease i leaseID now leaseUntil db =
     (if i = '''' \<or> leaseID = '''' \<or> leaseUntil \<le> now then (Inl ErrOther, db)
      else if \<not> sql_only (leased i leaseID now) (suploads db) then (Inl ErrConflict, db)
      else (Inr (), db\<lparr>suploads := sql_update (leased i leaseID now) (\<lambda>u. u\<lparr>su_lease_until := leaseUntil\<rparr>) (suploads db)\<rparr>))"

definition final_path_ok :: "ident \<Rightarrow> storage_status \<Rightarrow> string \<Rightarrow> bool" where
  "final_path_ok i status persistentPath =
     (case status of Clean \<Rightarrow> persistentPath = storageUploadPathKey ''objects'' i ''.blob''
      | StorageBlocked \<Rightarrow> persistentPath = '''' | ScannerError \<Rightarrow> persistentPath \<noteq> '''' | _ \<Rightarrow> False)"

definition finish_scan ::
  "storage_env \<Rightarrow> ident \<Rightarrow> string \<Rightarrow> unix_time \<Rightarrow> storage_status \<Rightarrow> string \<Rightarrow> string \<Rightarrow> string \<Rightarrow> string \<Rightarrow> sdb \<Rightarrow> sdb result" where
  "finish_scan env i leaseID now status persistentPath absolutePath sha detail db =
     (if sql_only (leased i leaseID now) (suploads db)
      then Inr (db\<lparr>suploads := sql_update (leased i leaseID now)
             (\<lambda>u. u\<lparr>su_status := status, su_path := persistentPath, su_sha256 := sha, su_scan_detail := detail,
                    su_lease_until := 0, su_lease_id := ''''\<rparr>) (suploads db)\<rparr>)
      else case storage_UploadByID env i db of
             Inl e \<Rightarrow> Inl e
           | Inr stored \<Rightarrow> if su_status stored = status \<and> su_path stored = absolutePath \<and> su_sha256 stored = sha \<and>
                              su_scan_detail stored = detail then Inr db else Inl ErrConflict)"

definition CompleteScan ::
  "storage_env \<Rightarrow> unix_time \<Rightarrow> ident \<Rightarrow> string \<Rightarrow> unix_time \<Rightarrow> storage_status \<Rightarrow> string \<Rightarrow> string \<Rightarrow> string \<Rightarrow>
   outbox_event \<Rightarrow> unit sop" where
  "CompleteScan env clock i leaseID now status finalPath sha detail event db =
     (if i = '''' \<or> leaseID = '''' then (Inl ErrOther, db)
      else if status \<noteq> Clean \<and> status \<noteq> StorageBlocked \<and> status \<noteq> ScannerError then (Inl ErrOther, db)
      else case normalizeUploadPath env i finalPath of
             Inl e \<Rightarrow> (Inl e, db)
           | Inr (persistentPath, absolutePath) \<Rightarrow>
             (if \<not> final_path_ok i status persistentPath then (Inl ErrOther, db)
              else case finish_scan env i leaseID now status persistentPath absolutePath sha detail db of
                     Inl e \<Rightarrow> (Inl e, db)
                   | Inr db1 \<Rightarrow>
                     (case enqueueStorageOutboxTx clock event db1 of
                        Inl e \<Rightarrow> (Inl e, db) | Inr db2 \<Rightarrow> (Inr (), db2))))"

section \<open>Expiry and deletion\<close>

definition ExpiredUploads :: "storage_env \<Rightarrow> unix_time \<Rightarrow> nat \<Rightarrow> sdb \<Rightarrow> storage_upload list result" where
  "ExpiredUploads env now limit db =
     collectUploads env (take limit (by_expiry
       (filter (\<lambda>u. su_expires_at u \<le> now \<and> \<not> HasActiveDownloadSessions (su_id u) db) (suploads db))))"

definition storage_DeleteUpload :: "ident \<Rightarrow> unit sop" where
  "storage_DeleteUpload i db =
     (if HasActiveDownloadSessions i db then (Inl ErrConflict, db)
      else (Inr (), db\<lparr>suploads := sql_delete (\<lambda>u. su_id u = i) (suploads db),
             outbox := sql_delete (\<lambda>e. ob_event_key e = ''upload-complete:'' @ i) (outbox db),
             dead_letters := sql_delete (\<lambda>e. dead_event_key e = ''upload-complete:'' @ i) (dead_letters db)\<rparr>))"

definition CleanUpload :: "storage_env \<Rightarrow> ident \<Rightarrow> unix_time \<Rightarrow> sdb \<Rightarrow> storage_upload result" where
  "CleanUpload env i now db =
     (case sql_first (\<lambda>u. su_id u = i \<and> su_status u = Clean \<and> su_expires_at u > now) (suploads db) of
        None \<Rightarrow> Inl ErrNotFound | Some u \<Rightarrow> scanUpload env u)"

section \<open>Path migration\<close>

text \<open>migrateStorageUploadPaths: every stored path becomes its key, or the node does not start. The
  guard on the previous value always matches inside the transaction.\<close>

fun migrate_paths :: "storage_env \<Rightarrow> storage_upload list \<Rightarrow> storage_upload list result" where
  "migrate_paths env [] = Inr []"
| "migrate_paths env (u # us) =
     (case normalizeUploadPath env (su_id u) (su_path u) of
        Inl e \<Rightarrow> Inl e
      | Inr (key, _) \<Rightarrow> (case migrate_paths env us of Inl e \<Rightarrow> Inl e | Inr xs \<Rightarrow> Inr (u\<lparr>su_path := key\<rparr> # xs)))"

definition migrateStorageUploadPaths :: "storage_env \<Rightarrow> unit sop" where
  "migrateStorageUploadPaths env db =
     (case migrate_paths env (suploads db) of Inl e \<Rightarrow> (Inl e, db) | Inr us \<Rightarrow> (Inr (), db\<lparr>suploads := us\<rparr>))"

end
