(* ===== verification/Storage_Outbox.thy ===== *)
theory Storage_Outbox
  imports Storage_Store
begin

text \<open>
  The outbox of a storage node implements a mailbox: one pending content per event key. Claims,
  retries and leases are invisible in it, an acknowledgement takes out exactly the content that was
  read, and a dead letter keeps the content that could not be delivered.
\<close>

section \<open>The mailbox\<close>

definition content :: "outbox_event \<Rightarrow> string \<times> string \<times> string" where
  "content e = (ob_method e, ob_path e, ob_body e)"

definition dead_content :: "dead_letter \<Rightarrow> string \<times> string \<times> string" where
  "dead_content e = (dead_method e, dead_path e, dead_body e)"

definition mail :: "sdb \<Rightarrow> string \<Rightarrow> (string \<times> string \<times> string) option" where
  "mail db k = map_option content (sql_first (\<lambda>e. ob_event_key e = k) (outbox db))"

definition buried :: "sdb \<Rightarrow> string \<Rightarrow> (string \<times> string \<times> string) option" where
  "buried db k = map_option dead_content (sql_first (\<lambda>e. dead_event_key e = k) (dead_letters db))"

definition outbox_inv :: "sdb \<Rightarrow> bool" where
  "outbox_inv db \<longleftrightarrow> keyed ob_event_key (outbox db) \<and> keyed ob_id (outbox db) \<and>
     (\<forall>e \<in> set (outbox db). ob_id e \<le> outbox_seq db) \<and>
     keyed dead_event_key (dead_letters db) \<and> keyed dead_id (dead_letters db) \<and>
     (\<forall>e \<in> set (dead_letters db). dead_id e \<le> dead_seq db)"

text \<open>An event read earlier: as long as its row has the version that was read, it has the content that
  was read.\<close>

definition event_copy :: "outbox_event \<Rightarrow> sdb \<Rightarrow> bool" where
  "event_copy e db \<longleftrightarrow> ob_id e \<le> outbox_seq db \<and> (\<forall>x \<in> set (outbox db). ob_id x = ob_id e \<longrightarrow>
     ob_event_key x = ob_event_key e \<and> ob_version e \<le> ob_version x \<and> (ob_version x = ob_version e \<longrightarrow> content x = content e))"

text \<open>An event whose row has changed since, or is gone.\<close>

definition outdated :: "outbox_event \<Rightarrow> sdb \<Rightarrow> bool" where
  "outdated e db \<longleftrightarrow> ob_id e \<le> outbox_seq db \<and> (\<forall>x \<in> set (outbox db). ob_id x = ob_id e \<longrightarrow> ob_version e < ob_version x)"

section \<open>Changing rows\<close>

lemma mail_Some:
  assumes "outbox_inv db" "e \<in> set (outbox db)"
  shows "mail db (ob_event_key e) = Some (content e)"
  using keyed_first [of ob_event_key "outbox db" e] assms by (simp add: mail_def outbox_inv_def)

lemma mail_iff:
  assumes "outbox_inv db"
  shows "mail db k = Some c \<longleftrightarrow> (\<exists>e \<in> set (outbox db). ob_event_key e = k \<and> content e = c)"
  using mail_Some [OF assms] by (auto simp: mail_def dest!: sql_firstD)

lemma mail_None: "mail db k = None \<longleftrightarrow> (\<forall>e \<in> set (outbox db). ob_event_key e \<noteq> k)"
  by (auto simp: mail_def sql_first_None)

lemma mail_cong: "outbox db' = outbox db \<Longrightarrow> mail db' = mail db"
  by (simp add: mail_def fun_eq_iff)

lemma buried_cong: "dead_letters db' = dead_letters db \<Longrightarrow> buried db' = buried db"
  by (simp add: buried_def fun_eq_iff)

lemma sql_first_map_keep:
  assumes "\<And>e. p (f e) = p e" "\<And>e. g (f e) = g e"
  shows "map_option g (sql_first p (sql_update q f t)) = map_option g (sql_first p t)"
  using assms by (induction t) (simp_all add: sql_first_def sql_update_def)

text \<open>Bookkeeping columns do not matter.\<close>

lemma mail_bookkeeping:
  assumes "outbox db' = sql_update q f (outbox db)" "\<And>e. ob_event_key (f e) = ob_event_key e" "\<And>e. content (f e) = content e"
  shows "mail db' = mail db"
  unfolding mail_def assms(1) using assms(2,3) by (intro ext sql_first_map_keep) simp_all

lemma outbox_inv_update:
  assumes "outbox_inv db" "outbox db' = sql_update q f (outbox db)" "\<And>e. ob_event_key (f e) = ob_event_key e" "\<And>e. ob_id (f e) = ob_id e"
    "dead_letters db' = dead_letters db" "outbox_seq db' = outbox_seq db" "dead_seq db' = dead_seq db"
  shows "outbox_inv db'"
proof -
  have "keyed ob_event_key (outbox db')" "keyed ob_id (outbox db')"
    unfolding assms(2) using assms(1,3,4) by (simp_all add: outbox_inv_def keyed_update)
  moreover have "ob_id e \<le> outbox_seq db'" if "e \<in> set (outbox db')" for e
    using that unfolding assms(2) by (cases rule: sql_update_memE) (use assms(1,4,6) in \<open>auto simp: outbox_inv_def\<close>)
  ultimately show ?thesis using assms(1,5-7) by (simp add: outbox_inv_def)
qed

lemma event_copy_update:
  assumes "event_copy e db" "outbox db' = sql_update q f (outbox db)" "outbox_seq db' = outbox_seq db"
    "\<And>x. ob_event_key (f x) = ob_event_key x" "\<And>x. ob_id (f x) = ob_id x"
    "\<And>x. ob_version (f x) = ob_version x \<and> content (f x) = content x \<or> ob_version x < ob_version (f x)"
  shows "event_copy e db'"
proof -
  have "ob_event_key x = ob_event_key e \<and> ob_version e \<le> ob_version x \<and> (ob_version x = ob_version e \<longrightarrow> content x = content e)"
    if "x \<in> set (outbox db')" "ob_id x = ob_id e" for x
    using that(1) unfolding assms(2)
  proof (cases rule: sql_update_memE)
    case (changed y)
    then have "ob_event_key y = ob_event_key e \<and> ob_version e \<le> ob_version y \<and> (ob_version y = ob_version e \<longrightarrow> content y = content e)"
      using assms(1) that(2) assms(5) by (simp add: event_copy_def)
    then show ?thesis using changed assms(4,6) [of y] by auto
  next
    case same
    then show ?thesis using assms(1) that(2) by (simp add: event_copy_def)
  qed
  then show ?thesis using assms(1,3) by (simp add: event_copy_def)
qed

lemma outdated_update:
  assumes "outdated e db" "outbox db' = sql_update q f (outbox db)" "outbox_seq db' = outbox_seq db"
    "\<And>x. ob_id (f x) = ob_id x" "\<And>x. ob_version x \<le> ob_version (f x)"
  shows "outdated e db'"
proof -
  have "ob_version e < ob_version x" if "x \<in> set (outbox db')" "ob_id x = ob_id e" for x
    using that(1) unfolding assms(2)
  proof (cases rule: sql_update_memE)
    case (changed y)
    then have "ob_version e < ob_version y" using assms(1,4) that(2) by (simp add: outdated_def)
    then show ?thesis using changed assms(5) [of y] by simp
  qed (use assms(1) that(2) in \<open>simp add: outdated_def\<close>)
  then show ?thesis using assms(1,3) by (simp add: outdated_def)
qed

lemma mail_delete_row:
  assumes inv: "outbox_inv db" and e: "e \<in> set (outbox db)" and out: "outbox db' = sql_delete (\<lambda>x. ob_id x = ob_id e \<and> q x) (outbox db)" and q: "q e"
  shows "mail db' = (mail db)(ob_event_key e := None)"
proof
  fix k
  have uniq: "x = e" if "x \<in> set (outbox db)" "ob_id x = ob_id e \<or> ob_event_key x = ob_event_key e" for x
    using inv e that keyed_unique [of ob_id "outbox db" x e] keyed_unique [of ob_event_key "outbox db" x e] by (auto simp: outbox_inv_def)
  have "sql_delete (\<lambda>x. ob_id x = ob_id e \<and> q x) (outbox db) = sql_delete (\<lambda>x. x = e) (outbox db)"
    unfolding sql_delete_def by (rule filter_cong) (use uniq q in auto)
  moreover have "sql_first (\<lambda>x. ob_event_key x = k) (sql_delete (\<lambda>x. x = e) t) = (if k = ob_event_key e then None else sql_first (\<lambda>x. ob_event_key x = k) t)"
    if "\<And>x. x \<in> set t \<Longrightarrow> ob_event_key x = ob_event_key e \<Longrightarrow> x = e" for t
    using that by (induction t) (auto simp: sql_first_def sql_delete_def)
  ultimately show "mail db' k = ((mail db)(ob_event_key e := None)) k" using uniq by (simp add: mail_def out)
qed

section \<open>Posting\<close>

definition rewritten :: "outbox_event \<Rightarrow> outbox_event \<Rightarrow> outbox_event" where
  "rewritten ev x = x\<lparr>ob_method := ob_method ev, ob_path := ob_path ev, ob_body := ob_body ev,
     ob_next_attempt_at := min (ob_next_attempt_at x) (ob_next_attempt_at ev), ob_version := ob_version x + 1\<rparr>"

lemma rewritten_simps [simp]:
  "ob_event_key (rewritten ev x) = ob_event_key x" "ob_id (rewritten ev x) = ob_id x"
  "ob_version (rewritten ev x) = ob_version x + 1" "content (rewritten ev x) = content ev"
  by (simp_all add: rewritten_def content_def)

lemma upsert_known:
  assumes "sql_exists (\<lambda>x. ob_event_key x = ob_event_key ev) (outbox db)"
  shows "outbox (upsert_event ev db) = sql_update (\<lambda>x. ob_event_key x = ob_event_key ev) (rewritten ev) (outbox db)"
    "dead_letters (upsert_event ev db) = dead_letters db" "outbox_seq (upsert_event ev db) = outbox_seq db"
    "dead_seq (upsert_event ev db) = dead_seq db"
  using assms by (simp_all add: upsert_event_def rewritten_def [abs_def])

lemma mail_upsert:
  assumes inv: "outbox_inv db"
  shows "mail (upsert_event ev db) = (mail db)(ob_event_key ev \<mapsto> content ev)"
proof
  fix k
  show "mail (upsert_event ev db) k = ((mail db)(ob_event_key ev \<mapsto> content ev)) k"
  proof (cases "sql_exists (\<lambda>x. ob_event_key x = ob_event_key ev) (outbox db)")
    case True
    have "map_option content (sql_first (\<lambda>x. ob_event_key x = k) (sql_update (\<lambda>x. ob_event_key x = ob_event_key ev) (rewritten ev) t)) =
        (if k = ob_event_key ev \<and> sql_exists (\<lambda>x. ob_event_key x = k) t then Some (content ev)
         else map_option content (sql_first (\<lambda>x. ob_event_key x = k) t))" for t
      by (induction t) (auto simp: sql_first_def sql_update_def sql_exists_def)
    then show ?thesis using True by (simp add: upsert_known [OF True] mail_def)
  next
    case False
    then have "sql_first (\<lambda>x. ob_event_key x = ob_event_key ev) (outbox db) = None" by (simp add: sql_first_None sql_exists_iff)
    moreover have "sql_first p (t @ [r]) = (case sql_first p t of None \<Rightarrow> if p r then Some r else None | Some x \<Rightarrow> Some x)" for p t and r :: outbox_event
      by (induction t) (simp_all add: sql_first_def)
    ultimately show ?thesis using False by (auto simp: upsert_event_def mail_def content_def split: option.splits)
  qed
qed

lemma upsert_inv: "outbox_inv db \<Longrightarrow> outbox_inv (upsert_event ev db)"
proof (cases "sql_exists (\<lambda>x. ob_event_key x = ob_event_key ev) (outbox db)")
  case True
  assume "outbox_inv db"
  then show ?thesis by (rule outbox_inv_update [OF _ upsert_known(1) [OF True]]) (simp_all add: upsert_known [OF True])
next
  case False
  assume inv: "outbox_inv db"
  have "\<And>x. x \<in> set (outbox db) \<Longrightarrow> ob_id x \<le> outbox_seq db" using inv by (simp add: outbox_inv_def)
  then have "outbox_seq db + 1 \<notin> ob_id ` set (outbox db)" by force
  moreover have "ob_event_key ev \<notin> ob_event_key ` set (outbox db)" using False by (auto simp: sql_exists_iff)
  ultimately show ?thesis using inv False by (auto simp: upsert_event_def outbox_inv_def keyed_append)
qed

lemma upsert_copy:
  assumes "event_copy e db" shows "event_copy e (upsert_event ev db)"
proof (cases "sql_exists (\<lambda>x. ob_event_key x = ob_event_key ev) (outbox db)")
  case True
  from assms show ?thesis by (rule event_copy_update [OF _ upsert_known(1,3) [OF True]]) simp_all
qed (use assms in \<open>auto simp: upsert_event_def event_copy_def\<close>)

lemma upsert_outdated:
  assumes "outdated e db" shows "outdated e (upsert_event ev db)"
proof (cases "sql_exists (\<lambda>x. ob_event_key x = ob_event_key ev) (outbox db)")
  case True
  from assms show ?thesis by (rule outdated_update [OF _ upsert_known(1,3) [OF True]]) simp_all
qed (use assms in \<open>auto simp: upsert_event_def outdated_def\<close>)

text \<open>Posting again makes every earlier copy of the key outdated.\<close>

lemma upsert_outdates:
  assumes copy: "event_copy e db" and key: "ob_event_key ev = ob_event_key e"
  shows "outdated e (upsert_event ev db)"
proof (cases "sql_exists (\<lambda>x. ob_event_key x = ob_event_key ev) (outbox db)")
  case True
  note out = upsert_known(1) [OF True]
  have "ob_version e < ob_version x" if "x \<in> set (outbox (upsert_event ev db))" "ob_id x = ob_id e" for x
    using that(1) unfolding out
  proof (cases rule: sql_update_memE)
    case (changed y)
    then show ?thesis using copy that(2) by (auto simp: event_copy_def)
  next
    case same
    then show ?thesis using copy key that(2) by (auto simp: event_copy_def)
  qed
  then show ?thesis using copy True by (simp add: outdated_def event_copy_def upsert_event_def)
next
  case False
  then have "ob_id x \<noteq> ob_id e" if "x \<in> set (outbox db)" for x
    using that copy key by (auto simp: event_copy_def sql_exists_iff)
  then show ?thesis using copy False by (auto simp: upsert_event_def outdated_def event_copy_def)
qed

section \<open>Bookkeeping\<close>

lemma claim_outbox:
  assumes "ClaimOutbox tok now until n db = (r, db')"
  obtains "db' = db" | ids where "db' = db\<lparr>outbox := sql_update (\<lambda>e. ob_id e \<in> set ids)
      (\<lambda>e. e\<lparr>ob_claim_token := tok, ob_claim_until := until\<rparr>) (outbox db)\<rparr>"
    "r = Inr (by_due (filter (\<lambda>e. ob_claim_token e = tok) (outbox db')))"
  using assms by (auto simp: ClaimOutbox_def Let_def split: if_splits)

lemma release_claim_bookkeeping:
  "outbox (release_claim ev now db) = sql_update (\<lambda>e. ob_id e = ob_id ev \<and> ob_claim_token e = ob_claim_token ev)
     (\<lambda>e. e\<lparr>ob_claim_token := '''', ob_claim_until := 0, ob_next_attempt_at := min (ob_next_attempt_at e) now\<rparr>) (outbox db)"
  by (simp add: release_claim_def)

text \<open>Operations that only touch columns outside the mailbox.\<close>

inductive bookkeeping :: "sdb \<Rightarrow> sdb \<Rightarrow> bool" where
  bookkeepingI: "\<lbrakk>outbox db' = sql_update q f (outbox db); dead_letters db' = dead_letters db; outbox_seq db' = outbox_seq db;
    dead_seq db' = dead_seq db; \<And>e. ob_event_key (f e) = ob_event_key e; \<And>e. ob_id (f e) = ob_id e;
    \<And>e. ob_version (f e) = ob_version e; \<And>e. content (f e) = content e\<rbrakk> \<Longrightarrow> bookkeeping db db'"

inductive_cases bookkeepingE: "bookkeeping db db'"

lemma bookkeeping_refl: "outbox db' = outbox db \<Longrightarrow> dead_letters db' = dead_letters db \<Longrightarrow> outbox_seq db' = outbox_seq db \<Longrightarrow>
    dead_seq db' = dead_seq db \<Longrightarrow> bookkeeping db db'"
  by (rule bookkeepingI [where q = "\<lambda>_. False" and f = "\<lambda>e. e"]) (simp_all add: sql_update_none)

lemma bookkeeping_mail:
  assumes "bookkeeping db db'"
  shows "mail db' = mail db" "buried db' = buried db" "outbox_inv db \<Longrightarrow> outbox_inv db'"
    "event_copy e db \<Longrightarrow> event_copy e db'" "outdated e db \<Longrightarrow> outdated e db'"
proof -
  obtain q f where u: "outbox db' = sql_update q f (outbox db)" "dead_letters db' = dead_letters db" "outbox_seq db' = outbox_seq db"
    "dead_seq db' = dead_seq db" "\<And>e. ob_event_key (f e) = ob_event_key e" "\<And>e. ob_id (f e) = ob_id e"
    "\<And>e. ob_version (f e) = ob_version e" "\<And>e. content (f e) = content e"
    using assms by (rule bookkeepingE) blast
  show "mail db' = mail db" using u(1,5,8) by (rule mail_bookkeeping)
  show "buried db' = buried db" using u(2) by (rule buried_cong)
  show "outbox_inv db \<Longrightarrow> outbox_inv db'" by (rule outbox_inv_update [OF _ u(1,5,6,2,3,4)])
  show "event_copy e db \<Longrightarrow> event_copy e db'" by (rule event_copy_update [OF _ u(1,3,5,6)]) (simp_all add: u(7,8))
  show "outdated e db \<Longrightarrow> outdated e db'" by (rule outdated_update [OF _ u(1,3,6)]) (simp_all add: u(7))
qed

lemma claim_bookkeeping: "bookkeeping db (snd (ClaimOutbox tok now until n db))"
proof (cases "until \<le> now \<or> n \<le> 0")
  case True
  then show ?thesis by (auto simp: ClaimOutbox_def intro: bookkeeping_refl)
next
  case False
  then have "outbox (snd (ClaimOutbox tok now until n db)) = sql_update (\<lambda>e. ob_id e \<in> set (claimable_events now (nat n) db))
      (\<lambda>e. e\<lparr>ob_claim_token := tok, ob_claim_until := until\<rparr>) (outbox db)"
    by (simp add: ClaimOutbox_def Let_def)
  then show ?thesis by (rule bookkeepingI) (use False in \<open>simp_all add: ClaimOutbox_def Let_def content_def\<close>)
qed

lemma release_bookkeeping: "bookkeeping db (release_claim ev now db)"
  by (rule bookkeepingI [OF release_claim_bookkeeping]) (simp_all add: release_claim_def content_def)

lemma retry_bookkeeping: "bookkeeping db (snd (RetryClaimedOutbox ev now nxt err db))"
proof (cases "sql_only (claimed_as ev) (outbox db)")
  case True
  then have "outbox (snd (RetryClaimedOutbox ev now nxt err db)) = sql_update (claimed_as ev)
      (\<lambda>e. e\<lparr>ob_attempts := ob_attempts e + 1, ob_next_attempt_at := nxt, ob_last_error := take 512 err,
             ob_claim_token := '''', ob_claim_until := 0\<rparr>) (outbox db)"
    by (simp add: RetryClaimedOutbox_def)
  then show ?thesis by (rule bookkeepingI) (use True in \<open>simp_all add: RetryClaimedOutbox_def content_def\<close>)
qed (simp add: RetryClaimedOutbox_def release_bookkeeping)

lemma reset_bookkeeping: "bookkeeping db (snd (ResetOutboxClaims now db))"
proof -
  have "outbox (snd (ResetOutboxClaims now db)) = sql_update (\<lambda>e. ob_claim_token e \<noteq> '''' \<or> ob_claim_until e \<noteq> 0)
        (\<lambda>e. e\<lparr>ob_claim_token := '''', ob_claim_until := 0, ob_next_attempt_at := min (ob_next_attempt_at e) now\<rparr>)
        (outbox db)" by (simp add: ResetOutboxClaims_def)
  then show ?thesis by (rule bookkeepingI) (simp_all add: ResetOutboxClaims_def content_def)
qed

section \<open>Taking events out\<close>

lemma sql_only_mem: "sql_only p t \<Longrightarrow> \<exists>r \<in> set t. p r"
  using sql_count_0_iff [of p t] by (auto simp: sql_only_def)

lemma delete_keeps:
  assumes "outbox db' = sql_delete p (outbox db)" "outbox_seq db' = outbox_seq db"
  shows "event_copy e db \<Longrightarrow> event_copy e db'" "outdated e db \<Longrightarrow> outdated e db'"
    "outbox_inv db \<Longrightarrow> dead_letters db' = sql_delete q (dead_letters db) \<Longrightarrow> dead_seq db' = dead_seq db \<Longrightarrow> outbox_inv db'"
  using assms by (auto simp: event_copy_def outdated_def outbox_inv_def sql_delete_def keyed_delete [unfolded sql_delete_def])

lemma sql_delete_none: "sql_delete (\<lambda>_. False) t = t"
  by (simp add: sql_delete_def)

definition takes_out :: "outbox_event \<Rightarrow> sdb \<Rightarrow> outbox_event \<Rightarrow> sdb \<Rightarrow> bool" where
  "takes_out ev db e db' \<longleftrightarrow> e \<in> set (outbox db) \<and> claimed_as ev e \<and> outbox db' = sql_delete (claimed_as ev) (outbox db) \<and>
     outbox_seq db' = outbox_seq db"

lemma takes_out_mail:
  assumes "outbox_inv db" "event_copy ev db" "takes_out ev db e db'"
  shows "mail db (ob_event_key ev) = Some (content ev)" "mail db' = (mail db)(ob_event_key ev := None)"
    "ob_event_key e = ob_event_key ev" "content e = content ev"
proof -
  have e: "e \<in> set (outbox db)" "ob_id e = ob_id ev" "ob_version e = ob_version ev" "claimed_as ev e"
    "outbox db' = sql_delete (claimed_as ev) (outbox db)"
    using assms(3) by (auto simp: takes_out_def claimed_as_def)
  show key: "ob_event_key e = ob_event_key ev" and c: "content e = content ev"
    using assms(2) e(1-3) by (auto simp: event_copy_def)
  show "mail db (ob_event_key ev) = Some (content ev)" using mail_Some [OF assms(1) e(1)] key c by simp
  have "claimed_as ev = (\<lambda>x. ob_id x = ob_id e \<and> claimed_as ev x)" by (auto simp: claimed_as_def e(2))
  then have "outbox db' = sql_delete (\<lambda>x. ob_id x = ob_id e \<and> claimed_as ev x) (outbox db)" using e(5) by simp
  from mail_delete_row [OF assms(1) e(1) this e(4)] show "mail db' = (mail db)(ob_event_key ev := None)" by (simp add: key)
qed

lemma outdated_not_taken: "outdated ev db \<Longrightarrow> \<not> takes_out ev db e db'"
  by (auto simp: outdated_def takes_out_def claimed_as_def)

lemma ack_cases:
  assumes "AckClaimedOutbox ev now db = (r, db')"
  obtains (kept) "bookkeeping db db'" "downloads db' = downloads db" "suploads db' = suploads db"
  | (taken) e where "takes_out ev db e db'" "sql_first (\<lambda>x. ob_id x = ob_id ev) (outbox db) = Some e" "r = Inr ()"
      "dead_letters db' = dead_letters db" "dead_seq db' = dead_seq db" "suploads db' = suploads db"
      "downloads db' = (if take (length settle_prefix) (ob_event_key e) = settle_prefix
         then sql_delete (\<lambda>d. ds_reservation_id d = drop (length settle_prefix) (ob_event_key e) \<and> ds_status d = SettlePending) (downloads db)
         else downloads db)"
proof (cases "sql_first (\<lambda>x. ob_id x = ob_id ev) (outbox db)")
  case None
  then show ?thesis using assms by (intro kept) (auto simp: AckClaimedOutbox_def intro: bookkeeping_refl)
next
  case (Some e)
  note e = sql_firstD [OF Some]
  show ?thesis
  proof (cases "ob_claim_token e = '''' \<or> ob_claim_token e \<noteq> ob_claim_token ev \<or> ob_version e \<noteq> ob_version ev \<or>
      \<not> sql_only (claimed_as ev) (outbox db)")
    case True
    then have "db' = db \<or> db' = release_claim ev now db"
      using assms Some by (auto simp: AckClaimedOutbox_def split: if_splits)
    then show ?thesis using kept release_bookkeeping bookkeeping_refl by (auto simp: release_claim_def)
  next
    case False
    then have "claimed_as ev e" using e by (simp add: claimed_as_def)
    then show ?thesis using assms Some False e
      by (intro taken [of e]) (auto simp: AckClaimedOutbox_def takes_out_def Let_def)
  qed
qed

section \<open>Dead letters\<close>

lemma buried_put:
  "buried (put_dead_letter at st err e db) = (buried db)(ob_event_key e \<mapsto> content e)"
proof
  fix k
  define row where "row = \<lparr>dead_id = dead_seq db + 1, dead_original_id = ob_id e, dead_event_key = ob_event_key e,
            dead_method = ob_method e, dead_path = ob_path e, dead_body = ob_body e, dead_attempts = ob_attempts e + 1,
            dead_created_at = ob_created_at e, dead_failed_at = at, dead_last_status = st,
            dead_last_error = err, dead_version = ob_version e\<rparr>"
  show "buried (put_dead_letter at st err e db) k = ((buried db)(ob_event_key e \<mapsto> content e)) k"
  proof (cases "sql_exists (\<lambda>x. dead_event_key x = ob_event_key e) (dead_letters db)")
    case True
    have f: "dead_event_key (row\<lparr>dead_id := dead_id x\<rparr>) = ob_event_key e" "dead_content (row\<lparr>dead_id := dead_id x\<rparr>) = content e" for x
      by (simp_all add: row_def dead_content_def content_def)
    have gen: "map_option dead_content (sql_first (\<lambda>x. dead_event_key x = k) (sql_update (\<lambda>x. dead_event_key x = ob_event_key e) f t)) =
        (if k = ob_event_key e \<and> sql_exists (\<lambda>x. dead_event_key x = k) t then Some (content e)
         else map_option dead_content (sql_first (\<lambda>x. dead_event_key x = k) t))"
      if "\<And>x. dead_event_key (f x) = ob_event_key e" "\<And>x. dead_content (f x) = content e" for f t
      by (induction t) (auto simp: sql_first_def sql_update_def sql_exists_def that)
    have "dead_letters (put_dead_letter at st err e db) =
        sql_update (\<lambda>x. dead_event_key x = ob_event_key e) (\<lambda>x. row\<lparr>dead_id := dead_id x\<rparr>) (dead_letters db)"
      using True by (simp add: put_dead_letter_def Let_def row_def)
    then have "buried (put_dead_letter at st err e db) k = (if k = ob_event_key e \<and> sql_exists (\<lambda>x. dead_event_key x = k) (dead_letters db)
        then Some (content e) else buried db k)"
      unfolding buried_def using gen [of "\<lambda>x. row\<lparr>dead_id := dead_id x\<rparr>" "dead_letters db", OF f] by (rule ssubst)
    then show ?thesis using True by simp
  next
    case False
    then have "sql_first (\<lambda>x. dead_event_key x = ob_event_key e) (dead_letters db) = None" by (simp add: sql_first_None sql_exists_iff)
    moreover have "sql_first p (t @ [r]) = (case sql_first p t of None \<Rightarrow> if p r then Some r else None | Some x \<Rightarrow> Some x)" for p t and r :: dead_letter
      by (induction t) (simp_all add: sql_first_def)
    moreover have "dead_event_key row = ob_event_key e" "dead_content row = content e" by (simp_all add: row_def dead_content_def content_def)
    ultimately show ?thesis using False
      by (auto simp: put_dead_letter_def Let_def buried_def row_def [symmetric] split: option.splits)
  qed
qed

lemma put_dead_letter_inv:
  assumes inv: "outbox_inv db"
  shows "outbox_inv (put_dead_letter at st err e db)"
proof (cases "sql_exists (\<lambda>x. dead_event_key x = ob_event_key e) (dead_letters db)")
  case True
  let ?t = "dead_letters (put_dead_letter at st err e db)"
  obtain f where f: "?t = sql_update (\<lambda>x. dead_event_key x = ob_event_key e) f (dead_letters db)"
    "\<And>x. dead_id (f x) = dead_id x" "\<And>x. dead_event_key (f x) = ob_event_key e"
    using True by (auto simp: put_dead_letter_def Let_def intro!: that)
  have "keyed dead_id ?t" unfolding f(1) using inv f(2) by (intro keyed_update) (simp_all add: outbox_inv_def)
  moreover have "map dead_event_key ?t = map dead_event_key (dead_letters db)"
    unfolding f(1) sql_update_def using f(3) by simp
  moreover have "dead_id x \<le> dead_seq db" if "x \<in> set ?t" for x
    using that unfolding f(1) by (cases rule: sql_update_memE) (use inv f(2) in \<open>auto simp: outbox_inv_def\<close>)
  ultimately show ?thesis using inv True by (auto simp: outbox_inv_def keyed_def put_dead_letter_def Let_def)
next
  case False
  have "\<And>x. x \<in> set (dead_letters db) \<Longrightarrow> dead_id x \<le> dead_seq db" using inv by (simp add: outbox_inv_def)
  then have "dead_seq db + 1 \<notin> dead_id ` set (dead_letters db)" by force
  moreover have "ob_event_key e \<notin> dead_event_key ` set (dead_letters db)" using False by (auto simp: sql_exists_iff)
  ultimately show ?thesis using inv False by (auto simp: put_dead_letter_def outbox_inv_def keyed_append Let_def)
qed

lemma put_dead_letter_frame [simp]:
  "outbox (put_dead_letter at st err e db) = outbox db" "outbox_seq (put_dead_letter at st err e db) = outbox_seq db"
  "downloads (put_dead_letter at st err e db) = downloads db" "suploads (put_dead_letter at st err e db) = suploads db"
  by (simp_all add: put_dead_letter_def Let_def)

lemma dead_letter_cases:
  assumes "DeadLetterClaimedOutbox ev at st err db = (r, db')"
  obtains (kept) "bookkeeping db db'" "downloads db' = downloads db" "suploads db' = suploads db"
  | (taken) e where "takes_out ev db e db'" "r = Inr ()" "downloads db' = downloads db" "suploads db' = suploads db"
      "db' = (put_dead_letter at st (take 512 err) e db)\<lparr>outbox := sql_delete (claimed_as ev) (outbox db)\<rparr>"
proof (cases "sql_first (\<lambda>x. ob_id x = ob_id ev) (outbox db)")
  case None
  then show ?thesis using assms by (intro kept) (auto simp: DeadLetterClaimedOutbox_def intro: bookkeeping_refl)
next
  case (Some e)
  note e = sql_firstD [OF Some]
  show ?thesis
  proof (cases "ob_claim_token e \<noteq> ob_claim_token ev \<or> ob_claim_token e = '''' \<or> ob_version e \<noteq> ob_version ev \<or>
      \<not> sql_only (claimed_as ev) (outbox db)")
    case True
    then have "db' = db \<or> db' = release_claim ev at db"
      using assms Some by (auto simp: DeadLetterClaimedOutbox_def split: if_splits)
    then show ?thesis using kept release_bookkeeping bookkeeping_refl by (auto simp: release_claim_def)
  next
    case False
    then have "claimed_as ev e" using e by (simp add: claimed_as_def)
    moreover have "db' = (put_dead_letter at st (take 512 err) e db)\<lparr>outbox := sql_delete (claimed_as ev) (outbox db)\<rparr>" "r = Inr ()"
      using assms Some False by (simp_all add: DeadLetterClaimedOutbox_def Let_def)
    ultimately show ?thesis using e by (intro taken [of e]) (simp_all add: takes_out_def)
  qed
qed

section \<open>Replay\<close>

definition revived :: "unix_time \<Rightarrow> dead_letter \<Rightarrow> outbox_event \<Rightarrow> outbox_event" where
  "revived now r x = x\<lparr>ob_method := dead_method r, ob_path := dead_path r, ob_body := dead_body r, ob_attempts := 0,
     ob_next_attempt_at := now, ob_created_at := now, ob_last_error := text_replayed,
     ob_version := max (ob_version x) (dead_version r + 1) + 1,
     ob_claim_token := '''', ob_claim_until := 0, ob_replay_blocking := True\<rparr>"

lemma revived_simps [simp]:
  "ob_event_key (revived now r x) = ob_event_key x" "ob_id (revived now r x) = ob_id x"
  "ob_version x < ob_version (revived now r x)" "content (revived now r x) = dead_content r"
  by (simp_all add: revived_def content_def dead_content_def)

lemma replay_known:
  assumes "sql_exists (\<lambda>x. ob_event_key x = dead_event_key r) (outbox db)"
  shows "outbox (replay_one now r db) = sql_update (\<lambda>x. ob_event_key x = dead_event_key r) (revived now r) (outbox db)"
    "outbox_seq (replay_one now r db) = outbox_seq db"
  using assms by (simp_all add: replay_one_def revived_def [abs_def])

lemma replay_new:
  assumes "\<not> sql_exists (\<lambda>x. ob_event_key x = dead_event_key r) (outbox db)"
  obtains x where "outbox (replay_one now r db) = outbox db @ [x]" "outbox_seq (replay_one now r db) = outbox_seq db + 1"
    "ob_id x = outbox_seq db + 1" "ob_event_key x = dead_event_key r" "content x = dead_content r"
proof -
  define x where "x = \<lparr>ob_id = outbox_seq db + 1, ob_event_key = dead_event_key r,
                   ob_method = dead_method r, ob_path = dead_path r, ob_body = dead_body r, ob_attempts = 0,
                   ob_next_attempt_at = now, ob_created_at = now, ob_last_error = text_replayed,
                   ob_version = dead_version r + 1, ob_claim_token = '''', ob_claim_until = 0,
                   ob_replay_blocking = True\<rparr>"
  have "outbox (replay_one now r db) = outbox db @ [x]" "outbox_seq (replay_one now r db) = outbox_seq db + 1"
    using assms by (simp_all add: replay_one_def x_def)
  moreover have "ob_id x = outbox_seq db + 1" "ob_event_key x = dead_event_key r" "content x = dead_content r"
    by (simp_all add: x_def content_def dead_content_def)
  ultimately show thesis by (rule that)
qed

lemma replay_frame [simp]:
  "dead_letters (replay_one now r db) = sql_delete (\<lambda>x. dead_id x = dead_id r) (dead_letters db)"
  "dead_seq (replay_one now r db) = dead_seq db" "downloads (replay_one now r db) = downloads db"
  "suploads (replay_one now r db) = suploads db"
  by (simp_all add: replay_one_def)

lemma first_append: "sql_first p (t @ [r]) = (case sql_first p t of None \<Rightarrow> if p r then Some r else None | Some x \<Rightarrow> Some x)"
  by (induction t) (simp_all add: sql_first_def)

lemma mail_replay: "mail (replay_one now r db) = (mail db)(dead_event_key r \<mapsto> dead_content r)"
proof
  fix k
  show "mail (replay_one now r db) k = ((mail db)(dead_event_key r \<mapsto> dead_content r)) k"
  proof (cases "sql_exists (\<lambda>x. ob_event_key x = dead_event_key r) (outbox db)")
    case True
    have "map_option content (sql_first (\<lambda>x. ob_event_key x = k) (sql_update (\<lambda>x. ob_event_key x = dead_event_key r) (revived now r) t)) =
        (if k = dead_event_key r \<and> sql_exists (\<lambda>x. ob_event_key x = k) t then Some (dead_content r)
         else map_option content (sql_first (\<lambda>x. ob_event_key x = k) t))" for t
      by (induction t) (auto simp: sql_first_def sql_update_def sql_exists_def)
    then show ?thesis using True by (simp add: replay_known [OF True] mail_def)
  next
    case False
    then obtain x where "outbox (replay_one now r db) = outbox db @ [x]" "ob_event_key x = dead_event_key r" "content x = dead_content r"
      by (rule replay_new)
    moreover have "sql_first (\<lambda>x. ob_event_key x = dead_event_key r) (outbox db) = None" using False by (simp add: sql_first_None sql_exists_iff)
    ultimately show ?thesis by (auto simp: mail_def first_append split: option.splits)
  qed
qed

lemma buried_replay:
  assumes inv: "outbox_inv db" and r: "r \<in> set (dead_letters db)"
  shows "buried db (dead_event_key r) = Some (dead_content r)" "buried (replay_one now r db) = (buried db)(dead_event_key r := None)"
proof -
  have uniq: "x = r" if "x \<in> set (dead_letters db)" "dead_id x = dead_id r \<or> dead_event_key x = dead_event_key r" for x
    using inv r that keyed_unique [of dead_id "dead_letters db" x r] keyed_unique [of dead_event_key "dead_letters db" x r]
    by (auto simp: outbox_inv_def)
  show "buried db (dead_event_key r) = Some (dead_content r)"
    using keyed_first [of dead_event_key "dead_letters db" r] inv r by (simp add: buried_def outbox_inv_def)
  show "buried (replay_one now r db) = (buried db)(dead_event_key r := None)"
  proof
    fix k
    have "sql_delete (\<lambda>x. dead_id x = dead_id r) (dead_letters db) = sql_delete (\<lambda>x. x = r) (dead_letters db)"
      unfolding sql_delete_def by (rule filter_cong) (use uniq in auto)
    moreover have "sql_first (\<lambda>x. dead_event_key x = k) (sql_delete (\<lambda>x. x = r) t) =
        (if k = dead_event_key r then None else sql_first (\<lambda>x. dead_event_key x = k) t)"
      if "\<And>x. x \<in> set t \<Longrightarrow> dead_event_key x = dead_event_key r \<Longrightarrow> x = r" for t
      using that by (induction t) (auto simp: sql_first_def sql_delete_def)
    ultimately show "buried (replay_one now r db) k = ((buried db)(dead_event_key r := None)) k" using uniq by (simp add: buried_def)
  qed
qed

lemma replay_inv:
  assumes inv: "outbox_inv db"
  shows "outbox_inv (replay_one now r db)"
proof (cases "sql_exists (\<lambda>x. ob_event_key x = dead_event_key r) (outbox db)")
  case True
  let ?d = "db\<lparr>dead_letters := sql_delete (\<lambda>x. dead_id x = dead_id r) (dead_letters db)\<rparr>"
  have "outbox_inv ?d" by (rule delete_keeps(3) [OF _ _ inv, where p = "\<lambda>_. False"]) (simp_all add: sql_delete_none)
  moreover have "outbox (replay_one now r db) = sql_update (\<lambda>x. ob_event_key x = dead_event_key r) (revived now r) (outbox ?d)"
    by (simp add: replay_known [OF True])
  ultimately show ?thesis by (rule outbox_inv_update) (simp_all add: replay_known [OF True])
next
  case False
  then obtain x where x: "outbox (replay_one now r db) = outbox db @ [x]" "outbox_seq (replay_one now r db) = outbox_seq db + 1"
    "ob_id x = outbox_seq db + 1" "ob_event_key x = dead_event_key r"
    by (rule replay_new)
  have "\<And>y. y \<in> set (outbox db) \<Longrightarrow> ob_id y \<le> outbox_seq db" using inv by (simp add: outbox_inv_def)
  then have "ob_id x \<notin> ob_id ` set (outbox db)" unfolding x(3) by force
  moreover have "ob_event_key x \<notin> ob_event_key ` set (outbox db)" using False by (auto simp: sql_exists_iff x(4))
  ultimately show ?thesis using inv by (auto simp: outbox_inv_def keyed_append x keyed_delete sql_delete_def keyed_delete [unfolded sql_delete_def])
qed

lemma replay_copy:
  assumes "event_copy e db" shows "event_copy e (replay_one now r db)"
proof (cases "sql_exists (\<lambda>x. ob_event_key x = dead_event_key r) (outbox db)")
  case True
  from assms show ?thesis by (rule event_copy_update [OF _ replay_known [OF True]]) simp_all
next
  case False
  then obtain x where "outbox (replay_one now r db) = outbox db @ [x]" "outbox_seq (replay_one now r db) = outbox_seq db + 1"
    "ob_id x = outbox_seq db + 1" by (rule replay_new)
  then show ?thesis using assms by (auto simp: event_copy_def)
qed

lemma replay_outdated:
  assumes "outdated e db" shows "outdated e (replay_one now r db)"
proof (cases "sql_exists (\<lambda>x. ob_event_key x = dead_event_key r) (outbox db)")
  case True
  from assms show ?thesis by (rule outdated_update [OF _ replay_known [OF True]]) (simp_all add: less_imp_le)
next
  case False
  then obtain x where "outbox (replay_one now r db) = outbox db @ [x]" "outbox_seq (replay_one now r db) = outbox_seq db + 1"
    "ob_id x = outbox_seq db + 1" by (rule replay_new)
  then show ?thesis using assms by (auto simp: outdated_def)
qed

end
