(* ===== verification/Storage_Steps.thy ===== *)
theory Storage_Steps
  imports Storage_Outbox
begin

text \<open>
  The operations of the node's store as one labelled step relation, and what each of them may do to
  the rows of the outbox. Workers may act on any event they have claimed before, however old their
  copy is.
\<close>

section \<open>Operations\<close>

datatype store_op =
  DoReserve storage_upload
| DoOffset ident int int
| DoMarkPendingScan ident string
| DoClaimScans "string list" unix_time unix_time int
| DoReleaseScan ident string
| DoRenewScan ident string unix_time unix_time
| DoCompleteScan unix_time ident string unix_time storage_status string string string outbox_event
| DoDeleteUpload ident
| DoPrepare download_session
| DoActivate ident
| DoProgress ident int
| DoHeartbeat ident int unix_time
| DoCancel ident
| DoSettle unix_time ident int unix_time settlement_mode
| DoRecover unix_time unix_time int
| DoRecoverStale unix_time unix_time unix_time unix_time int
| DoClaimOutbox string unix_time unix_time int
| DoAck outbox_event unix_time
| DoRetry outbox_event unix_time unix_time string
| DoDeadLetter outbox_event unix_time int string
| DoResetClaims unix_time
| DoReplay unix_time int
| DoMigratePaths

fun exec_op :: "storage_env \<Rightarrow> store_op \<Rightarrow> sdb \<Rightarrow> sdb" where
  "exec_op env (DoReserve u) db = snd (ReserveUpload env u db)"
| "exec_op env (DoOffset i expected nxt) db = snd (storage_UpdateUploadOffset i expected nxt db)"
| "exec_op env (DoMarkPendingScan i p) db = snd (MarkPendingScan env i p db)"
| "exec_op env (DoClaimScans ids now until n) db = snd (ClaimPendingScans env ids now until n db)"
| "exec_op env (DoReleaseScan i l) db = snd (ReleaseScanClaim i l db)"
| "exec_op env (DoRenewScan i l now until) db = snd (RenewScanLease i l now until db)"
| "exec_op env (DoCompleteScan clock i l now st p sha detail ev) db = snd (CompleteScan env clock i l now st p sha detail ev db)"
| "exec_op env (DoDeleteUpload i) db = snd (storage_DeleteUpload i db)"
| "exec_op env (DoPrepare s) db = snd (PrepareDownloadSession s db)"
| "exec_op env (DoActivate i) db = snd (ActivateDownloadSession i db)"
| "exec_op env (DoProgress i n) db = snd (UpdateDownloadProgress i n db)"
| "exec_op env (DoHeartbeat i n now) db = snd (HeartbeatDownloadSession i n now db)"
| "exec_op env (DoCancel i) db = snd (CancelDownloadSession i db)"
| "exec_op env (DoSettle clock i n now mode) db = snd (queueDownloadSettlement clock i n now mode db)"
| "exec_op env (DoRecover clock now n) db = snd (RecoverDownloadSessions clock now n db)"
| "exec_op env (DoRecoverStale clock now stale hard n) db = snd (RecoverStaleDownloadSessions clock now stale hard n db)"
| "exec_op env (DoClaimOutbox tok now until n) db = snd (ClaimOutbox tok now until n db)"
| "exec_op env (DoAck ev now) db = snd (AckClaimedOutbox ev now db)"
| "exec_op env (DoRetry ev now nxt err) db = snd (RetryClaimedOutbox ev now nxt err db)"
| "exec_op env (DoDeadLetter ev at st err) db = snd (DeadLetterClaimedOutbox ev at st err db)"
| "exec_op env (DoResetClaims now) db = snd (ResetOutboxClaims now db)"
| "exec_op env (DoReplay now n) db = snd (ReplayDeadLetters now n db)"
| "exec_op env DoMigratePaths db = snd (migrateStorageUploadPaths env db)"

text \<open>The events a claim hands out.\<close>

definition handed_out :: "store_op \<Rightarrow> sdb \<Rightarrow> outbox_event set" where
  "handed_out op db = (case op of
     DoClaimOutbox tok now until n \<Rightarrow> (case fst (ClaimOutbox tok now until n db) of Inl _ \<Rightarrow> {} | Inr es \<Rightarrow> set es)
   | _ \<Rightarrow> {})"

text \<open>What the callers keep: workers settle only events they have claimed, the completion event carries
  the key of its upload, and the control plane gives out each reservation once. A ticket may be presented
  again while its session exists: preparing it then conflicts without effect.\<close>

definition allowed :: "store_op \<Rightarrow> sdb \<Rightarrow> outbox_event set \<Rightarrow> bool" where
  "allowed op db held = (case op of
     DoAck ev now \<Rightarrow> ev \<in> held
   | DoRetry ev now nxt err \<Rightarrow> ev \<in> held
   | DoDeadLetter ev at st err \<Rightarrow> ev \<in> held
   | DoCompleteScan clock i l now st p sha detail ev \<Rightarrow> ob_event_key ev = ''upload-complete:'' @ i
   | DoPrepare s \<Rightarrow> sql_exists (\<lambda>d. ds_reservation_id d = ds_reservation_id s) (downloads db) \<or>
       mail db (settle_prefix @ ds_reservation_id s) = None \<and> buried db (settle_prefix @ ds_reservation_id s) = None
   | _ \<Rightarrow> True)"

inductive store_step :: "storage_env \<Rightarrow> sdb \<times> outbox_event set \<Rightarrow> store_op \<Rightarrow> sdb \<times> outbox_event set \<Rightarrow> bool" for env where
  step: "allowed op db held \<Longrightarrow> store_step env (db, held) op (exec_op env op db, held \<union> handed_out op db)"

inductive_cases store_stepE: "store_step env s op s'"

inductive store_run :: "storage_env \<Rightarrow> sdb \<times> outbox_event set \<Rightarrow> store_op list \<Rightarrow> sdb \<times> outbox_event set \<Rightarrow> bool" for env where
  idle: "store_run env s [] s"
| more: "store_run env s ops t \<Longrightarrow> store_step env t op u \<Longrightarrow> store_run env s (ops @ [op]) u"

definition empty_store :: sdb where
  "empty_store = \<lparr>suploads = [], outbox = [], dead_letters = [], downloads = [], outbox_seq = 0, dead_seq = 0\<rparr>"

definition reachable_store :: "storage_env \<Rightarrow> sdb \<times> outbox_event set \<Rightarrow> bool" where
  "reachable_store env s \<longleftrightarrow> (\<exists>ops. store_run env (empty_store, {}) ops s)"

section \<open>What the outbox stands for\<close>

type_synonym mailbox = "(string \<Rightarrow> (string \<times> string \<times> string) option) \<times> (string \<Rightarrow> (string \<times> string \<times> string) option)"

definition mailbox_of :: "sdb \<Rightarrow> mailbox" where
  "mailbox_of db = (mail db, buried db)"

section \<open>What an operation does to the outbox\<close>

text \<open>Invariant and copies, kept together.\<close>

definition keeps_copies :: "sdb \<Rightarrow> sdb \<Rightarrow> bool" where
  "keeps_copies db db' \<longleftrightarrow> (outbox_inv db \<longrightarrow> outbox_inv db') \<and> (\<forall>e. event_copy e db \<longrightarrow> event_copy e db') \<and>
     (\<forall>e. outdated e db \<longrightarrow> outdated e db')"

lemma keeps_copies_refl: "keeps_copies db db"
  by (simp add: keeps_copies_def)

lemma keeps_copies_trans: "keeps_copies a b \<Longrightarrow> keeps_copies b c \<Longrightarrow> keeps_copies a c"
  by (simp add: keeps_copies_def)

lemma bookkeeping_keeps: "bookkeeping db db' \<Longrightarrow> keeps_copies db db'"
  using bookkeeping_mail(3-5) by (simp add: keeps_copies_def)

lemma upsert_keeps: "keeps_copies db (upsert_event ev db)"
  by (simp add: keeps_copies_def upsert_inv upsert_copy upsert_outdated)

lemma replay_keeps: "keeps_copies db (replay_one now r db)"
  by (simp add: keeps_copies_def replay_inv replay_copy replay_outdated)

lemma takes_out_keeps: "takes_out ev db e db' \<Longrightarrow> dead_letters db' = dead_letters db \<Longrightarrow> dead_seq db' = dead_seq db \<Longrightarrow> keeps_copies db db'"
  unfolding keeps_copies_def takes_out_def
  using delete_keeps(1,2) [of db' "claimed_as ev" db] delete_keeps(3) [of db' "claimed_as ev" db "\<lambda>_. False"] by (simp add: sql_delete_none)

lemma same_outbox_keeps:
  "outbox db' = outbox db \<Longrightarrow> dead_letters db' = dead_letters db \<Longrightarrow> outbox_seq db' = outbox_seq db \<Longrightarrow> dead_seq db' = dead_seq db \<Longrightarrow>
   keeps_copies db db' \<and> mailbox_of db' = mailbox_of db"
  using bookkeeping_keeps [OF bookkeeping_refl] mail_cong [of db' db] buried_cong [of db' db] by (simp add: mailbox_of_def)

definition events :: "sdb \<Rightarrow> outbox_event list \<times> dead_letter list \<times> int \<times> int" where
  "events db = (outbox db, dead_letters db, outbox_seq db, dead_seq db)"

lemma events_same:
  assumes "events db' = events db"
  shows "keeps_copies db db'" "mailbox_of db' = mailbox_of db"
  using assms same_outbox_keeps [of db' db] by (simp_all add: events_def)

inductive outbox_move :: "outbox_event set \<Rightarrow> sdb \<Rightarrow> sdb \<Rightarrow> bool" for held where
  kept: "bookkeeping db db' \<Longrightarrow> outbox_move held db db'"
| posted: "events db' = events (upsert_event ev db) \<Longrightarrow> outbox_move held db db'"
| delivered: "ev \<in> held \<Longrightarrow> takes_out ev db e db' \<Longrightarrow> dead_letters db' = dead_letters db \<Longrightarrow> dead_seq db' = dead_seq db \<Longrightarrow> outbox_move held db db'"
| interred: "ev \<in> held \<Longrightarrow> takes_out ev db e db' \<Longrightarrow>
    events db' = events ((put_dead_letter at st err e db)\<lparr>outbox := sql_delete (claimed_as ev) (outbox db)\<rparr>) \<Longrightarrow> outbox_move held db db'"
| brought_back: "r \<in> set (dead_letters db) \<Longrightarrow> outbox_move held db (replay_one now r db)"
| withdrawn: "outbox db' = sql_delete (\<lambda>e. ob_event_key e = k) (outbox db) \<Longrightarrow>
    dead_letters db' = sql_delete (\<lambda>e. dead_event_key e = k) (dead_letters db) \<Longrightarrow>
    outbox_seq db' = outbox_seq db \<Longrightarrow> dead_seq db' = dead_seq db \<Longrightarrow> outbox_move held db db'"

lemma first_delete_key: "sql_first (\<lambda>e. f e = k) (sql_delete (\<lambda>e. f e = k') t) = (if k = k' then None else sql_first (\<lambda>e. f e = k) t)"
  by (induction t) (auto simp: sql_first_def sql_delete_def)

lemma withdraw_mailbox:
  assumes "outbox db' = sql_delete (\<lambda>e. ob_event_key e = k) (outbox db)" "dead_letters db' = sql_delete (\<lambda>e. dead_event_key e = k) (dead_letters db)"
  shows "mail db' = (mail db)(k := None)" "buried db' = (buried db)(k := None)"
  by (simp_all add: fun_eq_iff mail_def buried_def assms first_delete_key)

text \<open>Every move keeps copies.\<close>

lemma move_keeps: "outbox_move held db db' \<Longrightarrow> keeps_copies db db'"
proof (induction rule: outbox_move.induct)
  case (kept db db')
  then show ?case by (rule bookkeeping_keeps)
next
  case (posted db' ev db)
  then show ?case using keeps_copies_trans [OF upsert_keeps events_same(1)] by blast
next
  case (delivered ev db e db')
  then show ?case by (blast intro: takes_out_keeps)
next
  case (interred ev db e db' at st err)
  let ?d = "put_dead_letter at st err e db"
  let ?d' = "?d\<lparr>outbox := sql_delete (claimed_as ev) (outbox db)\<rparr>"
  have "keeps_copies db ?d" using put_dead_letter_inv [of db at st err e]
    by (auto simp: keeps_copies_def event_copy_def outdated_def)
  moreover have "takes_out ev ?d e ?d'" using interred(2) by (simp add: takes_out_def)
  then have "keeps_copies ?d ?d'" by (rule takes_out_keeps) simp_all
  ultimately show ?case using events_same(1) [OF interred(3)] keeps_copies_trans by blast
next
  case (brought_back r db now)
  then show ?case by (simp add: replay_keeps)
next
  case (withdrawn db' k db)
  then show ?case using delete_keeps [of db' "\<lambda>e. ob_event_key e = k" db] by (auto simp: keeps_copies_def)
qed

lemma moves_keep: "(outbox_move held)\<^sup>*\<^sup>* db db' \<Longrightarrow> keeps_copies db db'"
  by (induction rule: rtranclp_induct) (auto intro: keeps_copies_refl keeps_copies_trans move_keeps)

section \<open>Every operation is a sequence of changes\<close>

lemma quiet_move: "events db' = events db \<Longrightarrow> outbox_move held db db'"
  by (rule kept, rule bookkeeping_refl) (simp_all add: events_def)

lemma events_update [simp]: "events (db\<lparr>suploads := us\<rparr>) = events db" "events (db\<lparr>downloads := ds\<rparr>) = events db"
  by (simp_all add: events_def)

lemma claim_scans_events: "claim_scans now until cs got db = (r, db') \<Longrightarrow> events db' = events db \<and> downloads db' = downloads db"
  by (induction now until cs got db rule: claim_scans.induct) (auto simp: Let_def)

lemma upload_ops_events:
  "events (snd (ReserveUpload env u db)) = events db" "events (snd (storage_UpdateUploadOffset i expected nxt db)) = events db"
  "events (snd (MarkPendingScan env i p db)) = events db" "events (snd (ClaimPendingScans env ids now until n db)) = events db"
  "events (snd (ReleaseScanClaim i l db)) = events db" "events (snd (RenewScanLease i l now until db)) = events db"
  "events (snd (migrateStorageUploadPaths env db)) = events db"
  by (auto simp: ReserveUpload_def storage_UpdateUploadOffset_def MarkPendingScan_def ClaimPendingScans_def ReleaseScanClaim_def
      RenewScanLease_def migrateStorageUploadPaths_def Let_def dest: claim_scans_events split: sum.splits prod.splits)

lemma session_ops_events:
  "events (snd (PrepareDownloadSession s db)) = events db" "events (snd (ActivateDownloadSession i db)) = events db"
  "events (snd (UpdateDownloadProgress i n db)) = events db" "events (snd (HeartbeatDownloadSession i n now db)) = events db"
  "events (snd (CancelDownloadSession i db)) = events db"
  by (auto simp: PrepareDownloadSession_def ActivateDownloadSession_def UpdateDownloadProgress_def HeartbeatDownloadSession_def
      CancelDownloadSession_def Let_def split: option.splits)

lemmas quiet_events = upload_ops_events session_ops_events

lemma upsert_uploads: "events (upsert_event ev (db\<lparr>suploads := us\<rparr>)) = events (upsert_event ev db)"
  "events (upsert_event ev (db\<lparr>downloads := ds\<rparr>)) = events (upsert_event ev db)"
  by (simp_all add: upsert_event_def events_def)

lemma enqueue_event:
  assumes "enqueueStorageOutboxTx clock ev db = Inr db'"
  obtains ev' where "db' = upsert_event ev' db" "ob_event_key ev' = ob_event_key ev" "content ev' = content ev"
proof -
  obtain ev' where ev': "normalizeStorageOutboxRecord clock ev = Inr ev'" "db' = upsert_event ev' db"
    using assms by (auto simp: enqueueStorageOutboxTx_def split: sum.splits)
  then have "ob_event_key ev' = ob_event_key ev" "content ev' = content ev"
    by (auto simp: normalizeStorageOutboxRecord_def content_def split: if_splits)
  then show thesis by (rule that [OF ev'(2)])
qed

lemma finish_scan_uploads:
  assumes "finish_scan env i l now st p a sha detail db = Inr db'"
  obtains us where "db' = db\<lparr>suploads := us\<rparr>"
proof -
  have "db' = db\<lparr>suploads := suploads db'\<rparr>"
    using assms by (auto simp: finish_scan_def split: if_splits sum.splits)
  then show thesis by (rule that)
qed

lemma complete_cases:
  assumes "CompleteScan env clock i l now st p sha detail ev db = (r, db')"
  obtains (refused) e where "r = Inl e" "db' = db"
  | (recorded) us ev' where "r = Inr ()" "db' = upsert_event ev' (db\<lparr>suploads := us\<rparr>)" "ob_event_key ev' = ob_event_key ev" "content ev' = content ev"
proof (cases r)
  case (Inl e)
  then have "db' = db" using assms by (auto simp: CompleteScan_def split: if_splits sum.splits prod.splits)
  then show ?thesis using Inl refused by blast
next
  case (Inr u)
  then obtain pp aa db1 where "finish_scan env i l now st pp aa sha detail db = Inr db1" "enqueueStorageOutboxTx clock ev db1 = Inr db'"
    using assms by (auto simp: CompleteScan_def split: if_splits sum.splits prod.splits)
  then show ?thesis using Inr recorded finish_scan_uploads enqueue_event by (metis old.unit.exhaust)
qed

lemma complete_move: "outbox_move held db (snd (CompleteScan env clock i l now st p sha detail ev db))"
proof -
  obtain r db' where r: "CompleteScan env clock i l now st p sha detail ev db = (r, db')" by fastforce
  then show ?thesis
  proof (cases rule: complete_cases)
    case (refused e)
    then show ?thesis using r by (simp add: quiet_move)
  next
    case (recorded us ev')
    then have "events db' = events (upsert_event ev' db)" by (simp add: upsert_uploads)
    then show ?thesis using r posted by simp
  qed
qed

lemma settle_cases:
  assumes "queueDownloadSettlement clock i n now mode db = (r, db')"
  obtains (refused) e where "r = Inl e" "db' = db"
  | (queued) s reported db1 ev where "r = Inr ()" "sql_first (\<lambda>d. ds_reservation_id d = i) (downloads db) = Some s"
      "settleable mode s (settled_bytes mode s n) = Inr ()" "reported_bytes s (settled_bytes mode s n) = Inr reported"
      "mark_settle_pending s (settled_bytes mode s n) db = Inr db1" "db' = upsert_event ev db1"
      "ob_event_key ev = settle_prefix @ i" "content ev = (''POST'', ds_settle_path s, settle_body reported)"
proof (cases r)
  case (Inl e)
  then have "db' = db" using assms by (auto simp: queueDownloadSettlement_def Let_def split: option.splits sum.splits)
  then show ?thesis using Inl refused by blast
next
  case (Inr u)
  then obtain s reported db1 where s: "sql_first (\<lambda>d. ds_reservation_id d = i) (downloads db) = Some s"
      "settleable mode s (settled_bytes mode s n) = Inr ()" "reported_bytes s (settled_bytes mode s n) = Inr reported"
      "mark_settle_pending s (settled_bytes mode s n) db = Inr db1"
      "enqueueStorageOutboxTx clock (settle_event s reported now) db1 = Inr db'"
    using assms by (auto simp: queueDownloadSettlement_def Let_def split: option.splits sum.splits)
  obtain ev where ev: "db' = upsert_event ev db1" "ob_event_key ev = ob_event_key (settle_event s reported now)"
    "content ev = content (settle_event s reported now)" using s(5) by (rule enqueue_event)
  have "ds_reservation_id s = i" using sql_firstD [OF s(1)] by simp
  then show ?thesis using queued [OF _ s(1-4) ev(1)] ev(2,3) Inr by (simp add: settle_event_def content_def)
qed

lemma mark_settle_events: "mark_settle_pending s n db = Inr db1 \<Longrightarrow> events db1 = events db \<and> suploads db1 = suploads db"
  by (auto simp: mark_settle_pending_def Let_def split: if_splits)

lemma settle_move: "outbox_move held db (snd (queueDownloadSettlement clock i n now mode db))"
proof -
  obtain r db' where r: "queueDownloadSettlement clock i n now mode db = (r, db')" by fastforce
  then show ?thesis
  proof (cases rule: settle_cases)
    case (refused e)
    then show ?thesis using r by (simp add: quiet_move)
  next
    case (queued s reported db1 ev)
    have "events db' = events (upsert_event ev db)"
      using mark_settle_events [OF queued(5)] queued(6) by (auto simp: upsert_event_def events_def)
    then show ?thesis using r posted by simp
  qed
qed

text \<open>Recovery settles one session after the other.\<close>

lemma recover_sessions_run:
  assumes "\<And>a. P a a" "\<And>a b c. P a b \<Longrightarrow> P b c \<Longrightarrow> P a c" "\<And>a i mode. P a (snd (queueDownloadSettlement clock i 0 now mode a))"
  shows "P db (snd (recover_sessions clock now ss n db))"
proof (induction ss arbitrary: n db)
  case Nil
  then show ?case by (simp add: assms(1))
next
  case (Cons s ss)
  define q where "q = (if ds_status s = BeginPending then FinishPendingDownloadSession clock (ds_reservation_id s) now db
            else ConservativelyFinishDownloadSession clock (ds_reservation_id s) now db)"
  have "P db (snd q)" using assms(3) by (simp add: q_def FinishPendingDownloadSession_def ConservativelyFinishDownloadSession_def)
  moreover have "snd (recover_sessions clock now (s # ss) n db) = (case fst q of Inl _ \<Rightarrow> snd q | Inr _ \<Rightarrow> snd (recover_sessions clock now ss (n + 1) (snd q)))"
    by (simp add: q_def [symmetric] split: prod.splits sum.splits)
  moreover have "P (snd q) (snd (recover_sessions clock now ss (n + 1) (snd q)))" by (rule Cons)
  ultimately show ?case using assms(2) [of db "snd q"] by (cases "fst q") simp_all
qed

lemma recover_run:
  assumes "\<And>a. P a a" "\<And>a b c. P a b \<Longrightarrow> P b c \<Longrightarrow> P a c" "\<And>a i mode. P a (snd (queueDownloadSettlement clock i 0 now mode a))"
  shows "P db (snd (RecoverDownloadSessions clock now n db))" "P db (snd (RecoverStaleDownloadSessions clock now stale hard n db))"
  using recover_sessions_run [of P clock now, OF assms] assms(1)
  by (simp_all add: RecoverDownloadSessions_def RecoverStaleDownloadSessions_def recoverDownloadSessions_def)

lemma recover_moves:
  "(outbox_move held)\<^sup>*\<^sup>* db (snd (RecoverDownloadSessions clock now n db))"
  "(outbox_move held)\<^sup>*\<^sup>* db (snd (RecoverStaleDownloadSessions clock now stale hard n db))"
  using recover_run [of "(outbox_move held)\<^sup>*\<^sup>*", OF _ rtranclp_trans] settle_move by (simp_all add: r_into_rtranclp)

lemma ack_move:
  assumes "ev \<in> held" shows "outbox_move held db (snd (AckClaimedOutbox ev now db))"
proof -
  obtain r db' where r: "AckClaimedOutbox ev now db = (r, db')" by fastforce
  then show ?thesis
  proof (cases rule: ack_cases)
    case kept
    then show ?thesis using r outbox_move.kept by simp
  next
    case (taken e)
    then show ?thesis using r outbox_move.delivered [OF assms] by simp
  qed
qed

lemma dead_letter_move:
  assumes "ev \<in> held" shows "outbox_move held db (snd (DeadLetterClaimedOutbox ev at st err db))"
proof -
  obtain r db' where r: "DeadLetterClaimedOutbox ev at st err db = (r, db')" by fastforce
  then show ?thesis
  proof (cases rule: dead_letter_cases)
    case kept
    then show ?thesis using r outbox_move.kept by simp
  next
    case (taken e)
    then show ?thesis using r outbox_move.interred [OF assms taken(1)] by simp
  qed
qed

lemma delete_move: "outbox_move held db (snd (storage_DeleteUpload i db))"
proof (cases "HasActiveDownloadSessions i db")
  case True
  then show ?thesis by (simp add: storage_DeleteUpload_def quiet_move)
next
  case False
  then show ?thesis by (intro withdrawn [where k = "''upload-complete:'' @ i"]) (simp_all add: storage_DeleteUpload_def)
qed

lemma fold_replay_moves:
  assumes "distinct (map dead_id rs)" "set rs \<subseteq> set (dead_letters db)"
  shows "(outbox_move held)\<^sup>*\<^sup>* db (fold (replay_one now) rs db)"
  using assms
proof (induction rs arbitrary: db)
  case (Cons r rs)
  have "dead_id x \<noteq> dead_id r" if "x \<in> set rs" for x using Cons(2) that by (auto simp: image_iff)
  then have "set rs \<subseteq> set (dead_letters (replay_one now r db))" using Cons(3) by (auto simp: sql_delete_def)
  then have "(outbox_move held)\<^sup>*\<^sup>* (replay_one now r db) (fold (replay_one now) (r # rs) db)" using Cons(1,2) by simp
  moreover have "outbox_move held db (replay_one now r db)" using Cons(3) by (intro brought_back) simp
  ultimately show ?case by (rule converse_rtranclp_into_rtranclp [rotated])
qed simp

lemma replay_records:
  assumes "outbox_inv db"
  obtains rs where "snd (ReplayDeadLetters now n db) = fold (replay_one now) rs db" "distinct (map dead_id rs)" "set rs \<subseteq> set (dead_letters db)"
proof -
  define rs where "rs = take (nat (if n \<le> 0 then 1000 else n)) (sort_key dead_failed_at (sort_key dead_id (dead_letters db)))"
  have "distinct (map dead_id (sort_key dead_failed_at (sort_key dead_id (dead_letters db))))"
    using assms by (simp add: outbox_inv_def keyed_def distinct_map)
  then have "distinct (map dead_id rs)" unfolding rs_def take_map [symmetric] by (rule distinct_take)
  moreover have "set rs \<subseteq> set (dead_letters db)" using set_take_subset [of _ "sort_key dead_failed_at (sort_key dead_id (dead_letters db))"] by (auto simp: rs_def)
  ultimately show thesis by (intro that [of rs]) (simp_all add: ReplayDeadLetters_def rs_def Let_def)
qed

lemma replay_moves:
  assumes "outbox_inv db" shows "(outbox_move held)\<^sup>*\<^sup>* db (snd (ReplayDeadLetters now n db))"
  using replay_records [OF assms] fold_replay_moves by metis

lemma exec_moves:
  assumes "outbox_inv db" "allowed op db held"
  shows "(outbox_move held)\<^sup>*\<^sup>* db (exec_op env op db)"
proof (cases op)
  case (DoRecover clock now n)
  then show ?thesis by (simp add: recover_moves)
next
  case (DoRecoverStale clock now stale hard n)
  then show ?thesis by (simp add: recover_moves)
next
  case (DoReplay now n)
  then show ?thesis using replay_moves [OF assms(1)] by simp
qed (use assms(2) in \<open>simp_all add: allowed_def quiet_move [OF quiet_events(1)] quiet_move [OF quiet_events(2)] quiet_move [OF quiet_events(3)]
    quiet_move [OF quiet_events(4)] quiet_move [OF quiet_events(5)] quiet_move [OF quiet_events(6)] quiet_move [OF quiet_events(7)]
    quiet_move [OF quiet_events(8)] quiet_move [OF quiet_events(9)] quiet_move [OF quiet_events(10)] quiet_move [OF quiet_events(11)]
    quiet_move [OF quiet_events(12)] r_into_rtranclp complete_move delete_move settle_move ack_move dead_letter_move
    kept [OF claim_bookkeeping] kept [OF retry_bookkeeping] kept [OF reset_bookkeeping]\<close>)

end
