(* ===== verification/Storage_Mailbox.thy ===== *)
theory Storage_Mailbox
  imports Storage_Steps
begin

text \<open>
  The mailbox that the outbox of a storage node implements: one pending content per event key and one
  dead content per event key. \<open>mail_moves\<close> says for every operation of the store which moves of the
  mailbox it makes, in order and with their keys and contents; a move that does not apply has no
  result. Claims, leases, attempts, versions and row identifiers do not exist at this level.
\<close>

section \<open>The mailbox as a specification\<close>

datatype mail_move =
  Post string "string \<times> string \<times> string"
| Deliver string "string \<times> string \<times> string"
| Bury string "string \<times> string \<times> string"
| Revive string "string \<times> string \<times> string"
| Withdraw string

fun perform :: "mail_move \<Rightarrow> mailbox \<Rightarrow> mailbox option" where
  "perform (Post k c) (m, d) = Some (m(k \<mapsto> c), d)"
| "perform (Deliver k c) (m, d) = (if m k = Some c then Some (m(k := None), d) else None)"
| "perform (Bury k c) (m, d) = (if m k = Some c then Some (m(k := None), d(k \<mapsto> c)) else None)"
| "perform (Revive k c) (m, d) = (if d k = Some c then Some (m(k \<mapsto> c), d(k := None)) else None)"
| "perform (Withdraw k) (m, d) = Some (m(k := None), d(k := None))"

fun run_moves :: "mail_move list \<Rightarrow> mailbox \<Rightarrow> mailbox option" where
  "run_moves [] b = Some b"
| "run_moves (x # xs) b = (case perform x b of None \<Rightarrow> None | Some b' \<Rightarrow> run_moves xs b')"

lemma run_moves_append: "run_moves (xs @ ys) b = (case run_moves xs b of None \<Rightarrow> None | Some b' \<Rightarrow> run_moves ys b')"
  by (induction xs arbitrary: b) (auto split: option.split)

section \<open>The moves of each operation\<close>

text \<open>A settlement posts the bytes the session is charged, under the key of its reservation.\<close>

definition settle_moves :: "unix_time \<Rightarrow> ident \<Rightarrow> int \<Rightarrow> unix_time \<Rightarrow> settlement_mode \<Rightarrow> sdb \<Rightarrow> mail_move list" where
  "settle_moves clock i n now mode db =
     (case sql_first (\<lambda>d. ds_reservation_id d = i) (downloads db) of
        None \<Rightarrow> []
      | Some s \<Rightarrow> (case reported_bytes s (settled_bytes mode s n) of
          Inl _ \<Rightarrow> []
        | Inr bytes \<Rightarrow> if is_ok (fst (queueDownloadSettlement clock i n now mode db))
                       then [Post (settle_prefix @ i) (''POST'', ds_settle_path s, settle_body bytes)] else []))"

text \<open>Recovery settles the sessions in the given order, until the first that fails.\<close>

fun recovery_moves :: "unix_time \<Rightarrow> unix_time \<Rightarrow> download_session list \<Rightarrow> sdb \<Rightarrow> mail_move list" where
  "recovery_moves clock now [] db = []"
| "recovery_moves clock now (s # ss) db =
     (let mode = (if ds_status s = BeginPending then SettlePendingZero else SettleStreamingCheckpoint);
          (r, db') = queueDownloadSettlement clock (ds_reservation_id s) 0 now mode db
      in settle_moves clock (ds_reservation_id s) 0 now mode db @
         (if is_ok r then recovery_moves clock now ss db' else []))"

definition sessions_to_recover :: "int \<Rightarrow> (download_session \<Rightarrow> bool) \<Rightarrow> sdb \<Rightarrow> download_session list" where
  "sessions_to_recover limit p db = take (nat limit) (sort_key ds_started_at (sort_key ds_reservation_id (filter p (downloads db))))"

text \<open>A worker still owns the event it holds: the row has the token and the version that were read.\<close>

definition still_claimed :: "outbox_event \<Rightarrow> sdb \<Rightarrow> bool" where
  "still_claimed ev db \<longleftrightarrow> ob_claim_token ev \<noteq> '''' \<and> list_ex (claimed_as ev) (outbox db)"

definition oldest_dead :: "int \<Rightarrow> sdb \<Rightarrow> dead_letter list" where
  "oldest_dead limit db = take (nat (if limit \<le> 0 then 1000 else limit)) (sort_key dead_failed_at (sort_key dead_id (dead_letters db)))"

definition mail_moves :: "storage_env \<Rightarrow> store_op \<Rightarrow> sdb \<Rightarrow> mail_move list" where
  "mail_moves env op db = (case op of
     DoSettle clock i n now mode \<Rightarrow> settle_moves clock i n now mode db
   | DoRecover clock now n \<Rightarrow>
       recovery_moves clock now (sessions_to_recover n (\<lambda>d. ds_status d = BeginPending \<or> ds_status d = Streaming) db) db
   | DoRecoverStale clock now stale hard n \<Rightarrow>
       recovery_moves clock now (sessions_to_recover n
         (\<lambda>d. (ds_status d = BeginPending \<and> ds_started_at d \<le> stale) \<or>
              (ds_status d = Streaming \<and> (ds_heartbeat_at d \<le> stale \<or> ds_started_at d \<le> hard))) db) db
   | DoCompleteScan clock i l now st p sha detail ev \<Rightarrow>
       (if is_ok (fst (CompleteScan env clock i l now st p sha detail ev db)) then [Post (''upload-complete:'' @ i) (content ev)] else [])
   | DoDeleteUpload i \<Rightarrow> (if HasActiveDownloadSessions i db then [] else [Withdraw (''upload-complete:'' @ i)])
   | DoAck ev now \<Rightarrow> (if still_claimed ev db then [Deliver (ob_event_key ev) (content ev)] else [])
   | DoDeadLetter ev at st err \<Rightarrow> (if still_claimed ev db then [Bury (ob_event_key ev) (content ev)] else [])
   | DoReplay now n \<Rightarrow> map (\<lambda>r. Revive (dead_event_key r) (dead_content r)) (oldest_dead n db)
   | _ \<Rightarrow> [])"

section \<open>Each operation makes its moves\<close>

definition makes :: "mail_move list \<Rightarrow> sdb \<Rightarrow> sdb \<Rightarrow> bool" where
  "makes moves db db' \<longleftrightarrow> run_moves moves (mailbox_of db) = Some (mailbox_of db')"

lemma makes_none: "mailbox_of db' = mailbox_of db \<Longrightarrow> makes [] db db'"
  by (simp add: makes_def)

lemma makes_append: "makes xs a b \<Longrightarrow> makes ys b c \<Longrightarrow> makes (xs @ ys) a c"
  by (simp add: makes_def run_moves_append)

lemma makes_events: "events db' = events db \<Longrightarrow> makes [] db db'"
  by (rule makes_none) (rule events_same(2))

lemma makes_bookkeeping: "bookkeeping db db' \<Longrightarrow> makes [] db db'"
  by (rule makes_none) (simp add: mailbox_of_def bookkeeping_mail(1,2))

lemma makes_post:
  assumes "outbox_inv db" "events db' = events (upsert_event ev db)" "ob_event_key ev = k" "content ev = c"
  shows "makes [Post k c] db db'"
proof -
  have "dead_letters (upsert_event ev db) = dead_letters db" by (simp add: upsert_event_def)
  then have "mailbox_of db' = ((mail db)(k \<mapsto> c), buried db)"
    using events_same(2) [OF assms(2)] mail_upsert [OF assms(1)] buried_cong [of "upsert_event ev db" db] assms(3,4) by (simp add: mailbox_of_def)
  then show ?thesis by (simp add: makes_def mailbox_of_def)
qed

lemma makes_settle:
  assumes "outbox_inv db"
  shows "makes (settle_moves clock i n now mode db) db (snd (queueDownloadSettlement clock i n now mode db))"
proof -
  obtain r db' where r: "queueDownloadSettlement clock i n now mode db = (r, db')" by fastforce
  then show ?thesis
  proof (cases rule: settle_cases)
    case (refused e)
    then show ?thesis using r by (simp add: settle_moves_def makes_events split: option.splits sum.splits)
  next
    case (queued s reported db1 ev)
    have "events db' = events (upsert_event ev db)"
      using mark_settle_events [OF queued(5)] queued(6) by (auto simp: upsert_event_def events_def)
    from makes_post [OF assms this queued(7,8)] show ?thesis using r queued(1,2,4) by (simp add: settle_moves_def)
  qed
qed

lemma makes_recovery:
  assumes "outbox_inv db"
  shows "makes (recovery_moves clock now ss db) db (snd (recover_sessions clock now ss n db))"
  using assms
proof (induction ss arbitrary: n db)
  case Nil
  then show ?case by (simp add: makes_none)
next
  case (Cons s ss)
  define mode where "mode = (if ds_status s = BeginPending then SettlePendingZero else SettleStreamingCheckpoint)"
  define q where "q = queueDownloadSettlement clock (ds_reservation_id s) 0 now mode db"
  have run: "snd (recover_sessions clock now (s # ss) n db) = (case fst q of Inl _ \<Rightarrow> snd q | Inr _ \<Rightarrow> snd (recover_sessions clock now ss (n + 1) (snd q)))"
    by (simp add: q_def mode_def FinishPendingDownloadSession_def ConservativelyFinishDownloadSession_def split: prod.splits sum.splits)
  have moves: "recovery_moves clock now (s # ss) db = settle_moves clock (ds_reservation_id s) 0 now mode db @
      (if is_ok (fst q) then recovery_moves clock now ss (snd q) else [])"
    by (simp add: q_def mode_def Let_def case_prod_unfold)
  have "outbox_inv (snd q)" using move_keeps [OF settle_move] Cons(2) by (auto simp: q_def keeps_copies_def)
  then have "makes (recovery_moves clock now ss (snd q)) (snd q) (snd (recover_sessions clock now ss (n + 1) (snd q)))" by (rule Cons(1))
  then have "makes (if is_ok (fst q) then recovery_moves clock now ss (snd q) else []) (snd q) (snd (recover_sessions clock now (s # ss) n db))"
    unfolding run by (cases "fst q") (simp_all add: makes_none)
  then show ?case unfolding moves using makes_append makes_settle [OF Cons(2)] q_def by metis
qed

lemma makes_complete:
  assumes "outbox_inv db" "ob_event_key ev = ''upload-complete:'' @ i"
  shows "makes (if is_ok (fst (CompleteScan env clock i l now st p sha detail ev db)) then [Post (''upload-complete:'' @ i) (content ev)] else [])
    db (snd (CompleteScan env clock i l now st p sha detail ev db))"
proof -
  obtain r db' where r: "CompleteScan env clock i l now st p sha detail ev db = (r, db')" by fastforce
  then show ?thesis
  proof (cases rule: complete_cases)
    case (refused e)
    then show ?thesis using r by (simp add: makes_events)
  next
    case (recorded us ev')
    have "events db' = events (upsert_event ev' db)" using recorded(2) by (simp add: upsert_uploads)
    from makes_post [OF assms(1) this _ recorded(4)] show ?thesis using r recorded(1,3) assms(2) by simp
  qed
qed

lemma makes_delete:
  "makes (if HasActiveDownloadSessions i db then [] else [Withdraw (''upload-complete:'' @ i)]) db (snd (storage_DeleteUpload i db))"
proof (cases "HasActiveDownloadSessions i db")
  case True
  then show ?thesis by (simp add: storage_DeleteUpload_def makes_events)
next
  case False
  let ?db' = "snd (storage_DeleteUpload i db)"
  have "outbox ?db' = sql_delete (\<lambda>e. ob_event_key e = ''upload-complete:'' @ i) (outbox db)"
    "dead_letters ?db' = sql_delete (\<lambda>e. dead_event_key e = ''upload-complete:'' @ i) (dead_letters db)"
    using False by (simp_all add: storage_DeleteUpload_def)
  from withdraw_mailbox [OF this] False show ?thesis by (simp add: makes_def mailbox_of_def)
qed

text \<open>The event is still claimed when its row passes the guards of the acknowledgement.\<close>

lemma still_claimed_first:
  assumes "outbox_inv db"
  shows "still_claimed ev db \<longleftrightarrow> (case sql_first (\<lambda>e. ob_id e = ob_id ev) (outbox db) of None \<Rightarrow> False
    | Some e \<Rightarrow> ob_claim_token e \<noteq> '''' \<and> ob_claim_token e = ob_claim_token ev \<and> ob_version e = ob_version ev \<and> sql_only (claimed_as ev) (outbox db))"
proof (cases "sql_first (\<lambda>e. ob_id e = ob_id ev) (outbox db)")
  case None
  then have "\<forall>r \<in> set (outbox db). ob_id r \<noteq> ob_id ev" by (simp add: sql_first_None)
  then show ?thesis unfolding None by (auto simp: still_claimed_def list_ex_iff claimed_as_def)
next
  case (Some e)
  note e = sql_firstD [OF Some]
  have inv: "keyed ob_id (outbox db)" using assms by (simp add: outbox_inv_def)
  have uniq: "x = e" if "x \<in> set (outbox db)" "claimed_as ev x" for x
    using keyed_unique [OF inv that(1)] e that(2) by (simp add: claimed_as_def)
  have only: "sql_only (claimed_as ev) (outbox db)" if "claimed_as ev e"
  proof -
    have "claimed_as ev = (\<lambda>r. ob_id r = ob_id ev \<and> claimed_as ev r)" by (auto simp: claimed_as_def)
    then show ?thesis using keyed_count_1 [OF inv, of "ob_id ev" "claimed_as ev"] e that unfolding sql_only_def by metis
  qed
  have "list_ex (claimed_as ev) (outbox db) \<longleftrightarrow> claimed_as ev e" unfolding list_ex_iff using e uniq by blast
  then show ?thesis using only e unfolding still_claimed_def Some option.case by (auto simp: claimed_as_def)
qed

lemma still_claimedE:
  assumes "outbox_inv db" "still_claimed ev db"
  obtains e where "sql_first (\<lambda>e. ob_id e = ob_id ev) (outbox db) = Some e" "ob_claim_token e \<noteq> ''''" "claimed_as ev e"
    "sql_only (claimed_as ev) (outbox db)"
proof (cases "sql_first (\<lambda>e. ob_id e = ob_id ev) (outbox db)")
  case None
  then show thesis using assms(2) unfolding still_claimed_first [OF assms(1)] by simp
next
  case (Some e)
  then have "ob_claim_token e \<noteq> ''''" "claimed_as ev e" "sql_only (claimed_as ev) (outbox db)"
    using assms(2) sql_firstD [OF Some] unfolding still_claimed_first [OF assms(1)] by (auto simp: claimed_as_def)
  then show thesis by (rule that [OF Some])
qed

lemma not_claimed:
  assumes "outbox_inv db" "\<not> still_claimed ev db"
  shows "snd (AckClaimedOutbox ev now db) = db \<or> snd (AckClaimedOutbox ev now db) = release_claim ev now db"
    "snd (DeadLetterClaimedOutbox ev at st err db) = db \<or> snd (DeadLetterClaimedOutbox ev at st err db) = release_claim ev at db"
proof -
  consider "sql_first (\<lambda>e. ob_id e = ob_id ev) (outbox db) = None"
    | e where "sql_first (\<lambda>e. ob_id e = ob_id ev) (outbox db) = Some e"
        "\<not> (ob_claim_token e \<noteq> '''' \<and> ob_claim_token e = ob_claim_token ev \<and> ob_version e = ob_version ev \<and> sql_only (claimed_as ev) (outbox db))"
    using assms(2) unfolding still_claimed_first [OF assms(1)] by (cases "sql_first (\<lambda>e. ob_id e = ob_id ev) (outbox db)") auto
  then have "(snd (AckClaimedOutbox ev now db) = db \<or> snd (AckClaimedOutbox ev now db) = release_claim ev now db) \<and>
    (snd (DeadLetterClaimedOutbox ev at st err db) = db \<or> snd (DeadLetterClaimedOutbox ev at st err db) = release_claim ev at db)"
  proof cases
    case 1
    then show ?thesis by (simp add: AckClaimedOutbox_def DeadLetterClaimedOutbox_def)
  next
    case (2 e)
    then consider "ob_claim_token e \<noteq> ob_claim_token ev \<or> ob_claim_token e = ''''" | "ob_version e \<noteq> ob_version ev" | "\<not> sql_only (claimed_as ev) (outbox db)"
      by blast
    then show ?thesis by cases (auto simp: AckClaimedOutbox_def DeadLetterClaimedOutbox_def 2(1))
  qed
  then show "snd (AckClaimedOutbox ev now db) = db \<or> snd (AckClaimedOutbox ev now db) = release_claim ev now db"
    "snd (DeadLetterClaimedOutbox ev at st err db) = db \<or> snd (DeadLetterClaimedOutbox ev at st err db) = release_claim ev at db"
    by blast+
qed

lemma makes_ack:
  assumes inv: "outbox_inv db" and copy: "event_copy ev db"
  shows "makes (if still_claimed ev db then [Deliver (ob_event_key ev) (content ev)] else []) db (snd (AckClaimedOutbox ev now db))"
proof (cases "still_claimed ev db")
  case True
  obtain e where e: "sql_first (\<lambda>e. ob_id e = ob_id ev) (outbox db) = Some e" "ob_claim_token e \<noteq> ''''" "claimed_as ev e" "sql_only (claimed_as ev) (outbox db)"
    using still_claimedE [OF inv True] .
  let ?db' = "snd (AckClaimedOutbox ev now db)"
  have out: "outbox ?db' = sql_delete (claimed_as ev) (outbox db)" "outbox_seq ?db' = outbox_seq db" "dead_letters ?db' = dead_letters db"
    using e by (simp_all add: AckClaimedOutbox_def claimed_as_def Let_def)
  then have "takes_out ev db e ?db'" using e sql_firstD [OF e(1)] by (simp add: takes_out_def)
  note t = takes_out_mail [OF inv copy this]
  have "buried ?db' = buried db" by (rule buried_cong) (rule out(3))
  then show ?thesis using t(1,2) True by (simp add: makes_def mailbox_of_def)
next
  case False
  consider "snd (AckClaimedOutbox ev now db) = db" | "snd (AckClaimedOutbox ev now db) = release_claim ev now db"
    using not_claimed(1) [OF inv False] by blast
  then show ?thesis by cases (simp_all add: False makes_none makes_bookkeeping [OF release_bookkeeping])
qed

lemma makes_dead_letter:
  assumes inv: "outbox_inv db" and copy: "event_copy ev db"
  shows "makes (if still_claimed ev db then [Bury (ob_event_key ev) (content ev)] else []) db (snd (DeadLetterClaimedOutbox ev at st err db))"
proof (cases "still_claimed ev db")
  case True
  obtain e where e: "sql_first (\<lambda>e. ob_id e = ob_id ev) (outbox db) = Some e" "ob_claim_token e \<noteq> ''''" "claimed_as ev e" "sql_only (claimed_as ev) (outbox db)"
    using still_claimedE [OF inv True] .
  let ?db' = "snd (DeadLetterClaimedOutbox ev at st err db)"
  have d: "?db' = (put_dead_letter at st (take 512 err) e db)\<lparr>outbox := sql_delete (claimed_as ev) (outbox db)\<rparr>"
    using e by (simp add: DeadLetterClaimedOutbox_def claimed_as_def Let_def)
  then have "takes_out ev db e ?db'" using e sql_firstD [OF e(1)] by (simp add: takes_out_def)
  note t = takes_out_mail [OF inv copy this]
  have "buried ?db' = (buried db)(ob_event_key ev \<mapsto> content ev)"
    using buried_put [of at st "take 512 err" e db] buried_cong [of ?db' "put_dead_letter at st (take 512 err) e db"] t(3,4) d by simp
  then show ?thesis using t(1,2) True by (simp add: makes_def mailbox_of_def)
next
  case False
  consider "snd (DeadLetterClaimedOutbox ev at st err db) = db" | "snd (DeadLetterClaimedOutbox ev at st err db) = release_claim ev at db"
    using not_claimed(2) [OF inv False] by blast
  then show ?thesis by cases (simp_all add: False makes_none makes_bookkeeping [OF release_bookkeeping])
qed

lemma makes_fold_replay:
  assumes "outbox_inv db" "distinct (map dead_id rs)" "set rs \<subseteq> set (dead_letters db)"
  shows "makes (map (\<lambda>r. Revive (dead_event_key r) (dead_content r)) rs) db (fold (replay_one now) rs db)"
  using assms
proof (induction rs arbitrary: db)
  case Nil
  then show ?case by (simp add: makes_none)
next
  case (Cons r rs)
  have r: "r \<in> set (dead_letters db)" using Cons(4) by simp
  have one: "makes [Revive (dead_event_key r) (dead_content r)] db (replay_one now r db)"
    using buried_replay [OF Cons(2) r] mail_replay [of now r db] by (simp add: makes_def mailbox_of_def)
  have "set rs \<subseteq> set (dead_letters (replay_one now r db))" using Cons(3,4) by (auto simp: sql_delete_def image_iff)
  then have "makes (map (\<lambda>r. Revive (dead_event_key r) (dead_content r)) rs) (replay_one now r db) (fold (replay_one now) rs (replay_one now r db))"
    using Cons(1) [OF replay_inv [OF Cons(2)]] Cons(3) by simp
  from makes_append [OF one this] show ?case by simp
qed

lemma makes_replay:
  assumes "outbox_inv db"
  shows "makes (map (\<lambda>r. Revive (dead_event_key r) (dead_content r)) (oldest_dead n db)) db (snd (ReplayDeadLetters now n db))"
proof -
  have "distinct (map dead_id (sort_key dead_failed_at (sort_key dead_id (dead_letters db))))"
    using assms by (simp add: outbox_inv_def keyed_def distinct_map)
  then have "distinct (map dead_id (oldest_dead n db))" unfolding oldest_dead_def take_map [symmetric] by (rule distinct_take)
  moreover have "set (oldest_dead n db) \<subseteq> set (dead_letters db)"
    using set_take_subset [of _ "sort_key dead_failed_at (sort_key dead_id (dead_letters db))"] by (auto simp: oldest_dead_def)
  ultimately show ?thesis using makes_fold_replay [OF assms] by (simp add: ReplayDeadLetters_def oldest_dead_def Let_def)
qed

lemma makes_recover:
  assumes "outbox_inv db"
  shows "makes (recovery_moves clock now (sessions_to_recover n p db) db) db (snd (recoverDownloadSessions clock now n p db))"
  using makes_recovery [OF assms] by (simp add: recoverDownloadSessions_def sessions_to_recover_def makes_none)

lemma exec_makes:
  assumes inv: "outbox_inv db" and copies: "\<And>e. e \<in> held \<Longrightarrow> event_copy e db" and ok: "allowed op db held"
  shows "makes (mail_moves env op db) db (exec_op env op db)"
  by (cases op) (use ok copies in \<open>simp_all add: mail_moves_def allowed_def makes_events [OF quiet_events(1)] makes_events [OF quiet_events(2)]
    makes_events [OF quiet_events(3)] makes_events [OF quiet_events(4)] makes_events [OF quiet_events(5)] makes_events [OF quiet_events(6)]
    makes_events [OF quiet_events(7)] makes_events [OF quiet_events(8)] makes_events [OF quiet_events(9)] makes_events [OF quiet_events(10)]
    makes_events [OF quiet_events(11)] makes_events [OF quiet_events(12)] makes_bookkeeping [OF claim_bookkeeping]
    makes_bookkeeping [OF retry_bookkeeping] makes_bookkeeping [OF reset_bookkeeping] makes_settle [OF inv] makes_complete [OF inv]
    makes_delete makes_ack [OF inv] makes_dead_letter [OF inv] makes_replay [OF inv] makes_recover [OF inv]
    RecoverDownloadSessions_def RecoverStaleDownloadSessions_def\<close>)

end
