(* ===== verification/Storage_Properties.thy ===== *)
theory Storage_Properties
  imports Storage_Mailbox
begin

text \<open>
  What the store of a node promises over every sequence of operations: its outbox is a mailbox, newer
  content is never acknowledged away, a finished download is reported exactly, a file that is being
  served stays, and a scan lease belongs to one worker.
\<close>

section \<open>Runs\<close>

definition store_ok :: "sdb \<times> outbox_event set \<Rightarrow> bool" where
  "store_ok s \<longleftrightarrow> outbox_inv (fst s) \<and> (\<forall>e \<in> snd s. event_copy e (fst s))"

lemma fresh_copy: "outbox_inv db \<Longrightarrow> e \<in> set (outbox db) \<Longrightarrow> event_copy e db"
  by (auto simp: outbox_inv_def event_copy_def dest: keyed_unique [of ob_id])

lemma handed_out_copy:
  assumes "outbox_inv (exec_op env op db)" "e \<in> handed_out op db"
  shows "event_copy e (exec_op env op db)"
proof -
  obtain tok now until n es where "op = DoClaimOutbox tok now until n" "ClaimOutbox tok now until n db = (Inr es, exec_op env op db)" "e \<in> set es"
    using assms(2) by (cases op) (auto simp: handed_out_def prod_eq_iff split: sum.splits)
  then have "e \<in> set (outbox (exec_op env op db))"
    by (auto simp: ClaimOutbox_def Let_def by_due_def split: if_splits)
  then show ?thesis by (rule fresh_copy [OF assms(1)])
qed

lemma step_ok:
  assumes "store_step env s op t" "store_ok s" shows "store_ok t"
proof -
  obtain db held where s: "s = (db, held)" by fastforce
  then have t: "t = (exec_op env op db, held \<union> handed_out op db)" and a: "allowed op db held"
    using assms(1) by (auto elim: store_stepE)
  have inv: "outbox_inv db" and copies: "\<And>e. e \<in> held \<Longrightarrow> event_copy e db" using assms(2) s by (simp_all add: store_ok_def)
  have k: "keeps_copies db (exec_op env op db)" by (rule moves_keep [OF exec_moves [OF inv a]])
  then have inv': "outbox_inv (exec_op env op db)" using inv by (simp add: keeps_copies_def)
  show ?thesis using inv' k copies handed_out_copy [OF inv'] by (auto simp: store_ok_def t keeps_copies_def)
qed

lemma run_induct [consumes 2, case_names start step]:
  assumes "store_run env s ops t" "P s" "\<And>u op v. P u \<Longrightarrow> store_step env u op v \<Longrightarrow> P v"
  shows "P t"
  using assms by (induction rule: store_run.induct) blast+

lemma run_ok: "store_run env s ops t \<Longrightarrow> store_ok s \<Longrightarrow> store_ok t"
  by (induction rule: store_run.induct) (blast intro: step_ok)+

lemma empty_ok: "store_ok (empty_store, {})"
  by (simp add: store_ok_def empty_store_def outbox_inv_def keyed_def)

lemma reachable_ok: "reachable_store env s \<Longrightarrow> store_ok s"
  unfolding reachable_store_def using run_ok empty_ok by blast

lemma run_outdated:
  assumes "store_run env s ops t" "store_ok s" "outdated e (fst s)"
  shows "outdated e (fst t)"
  using assms
proof (induction rule: store_run.induct)
  case (more s ops t op u)
  obtain db held where t: "t = (db, held)" by fastforce
  then have u: "u = (exec_op env op db, held \<union> handed_out op db)" and a: "allowed op db held" using more(2) by (auto elim: store_stepE)
  have "outbox_inv db" using run_ok [OF more(1,4)] t by (simp add: store_ok_def)
  then have "keeps_copies db (exec_op env op db)" using moves_keep exec_moves a by blast
  then show ?case using more(3-5) t u by (simp add: keeps_copies_def)
qed

lemma run_trans: "store_run env t ops' u \<Longrightarrow> store_run env s ops t \<Longrightarrow> store_run env s (ops @ ops') u"
proof (induction rule: store_run.induct)
  case (more t' ops' v op u)
  have "store_run env s ((ops @ ops') @ [op]) u" by (rule store_run.more [OF more(3) [OF more(4)] more(2)])
  then show ?case by simp
qed simp

lemma reachable_run: "reachable_store env s \<Longrightarrow> store_run env s ops t \<Longrightarrow> reachable_store env t"
  unfolding reachable_store_def using run_trans by blast

section \<open>The outbox is a mailbox\<close>

text \<open>C24. In every state a node can reach, every operation of its store changes the outbox and the dead
  letters exactly as the moves of the mailbox that \<open>mail_moves\<close> names for it, and these moves apply. A
  settlement or recovery posts the charged bytes of each session it settles under the key of that
  reservation; a scan result is posted under the key of its upload; an acknowledgement delivers, and
  a dead letter buries, the very content the worker holds, and only while that content is still the
  pending one of its key and still claimed by the worker; a replay revives the oldest dead letters; a
  deletion withdraws the result of its own upload only. Every other operation, and every refused one,
  leaves all pending and dead contents as they are: claims, leases, retries and versions never
  show.\<close>

theorem outbox_refines_mailbox:
  assumes "reachable_store env (db, held)" "store_step env (db, held) op (db', held')"
  shows "run_moves (mail_moves env op db) (mailbox_of db) = Some (mailbox_of db')"
proof -
  have ok: "outbox_inv db" "\<And>e. e \<in> held \<Longrightarrow> event_copy e db" using reachable_ok [OF assms(1)] by (simp_all add: store_ok_def)
  have "db' = exec_op env op db" "allowed op db held" using assms(2) by (auto elim: store_stepE)
  then show ?thesis using exec_makes [OF ok] by (simp add: makes_def)
qed

section \<open>Acknowledgements\<close>

definition posts :: "storage_env \<Rightarrow> store_op \<Rightarrow> sdb \<Rightarrow> string \<Rightarrow> bool" where
  "posts env op db k = (case op of
     DoSettle clock i n now mode \<Rightarrow> is_ok (fst (queueDownloadSettlement clock i n now mode db)) \<and> k = settle_prefix @ i
   | DoCompleteScan clock i l now st p sha detail ev \<Rightarrow>
       is_ok (fst (CompleteScan env clock i l now st p sha detail ev db)) \<and> k = ob_event_key ev
   | _ \<Rightarrow> False)"

lemma settle_outdates:
  assumes q: "queueDownloadSettlement clock i n now mode db = (r, db')" "is_ok r" and e: "event_copy e db" "ob_event_key e = settle_prefix @ i"
  shows "outdated e db'"
  using q(1)
proof (cases rule: settle_cases)
  case (refused e')
  then show ?thesis using q by simp
next
  case (queued s reported db1 ev)
  have "event_copy e db1" using mark_settle_events [OF queued(5)] e(1) by (auto simp: events_def event_copy_def)
  then have "outdated e (upsert_event ev db1)" by (rule upsert_outdates) (simp add: queued(7) e(2))
  then show ?thesis using queued(6) by simp
qed

lemma complete_outdates:
  assumes q: "CompleteScan env clock i l now st p sha detail ev db = (r, db')" "is_ok r" and e: "event_copy e db" "ob_event_key e = ob_event_key ev"
  shows "outdated e db'"
  using q(1)
proof (cases rule: complete_cases)
  case (refused e')
  then show ?thesis using q by simp
next
  case (recorded us ev')
  have "event_copy e (db\<lparr>suploads := us\<rparr>)" using e(1) by (simp add: event_copy_def)
  then have "outdated e (upsert_event ev' (db\<lparr>suploads := us\<rparr>))" by (rule upsert_outdates) (simp add: recorded(3) e(2))
  then show ?thesis using recorded(2) by simp
qed

lemma posts_outdates:
  assumes "posts env op db (ob_event_key e)" "event_copy e db"
  shows "outdated e (exec_op env op db)"
  using assms settle_outdates [OF surjective_pairing] complete_outdates [OF surjective_pairing]
  by (cases op) (simp_all add: posts_def)

lemma outdated_settle:
  assumes "outdated e db"
  shows "mailbox_of (snd (AckClaimedOutbox e now db)) = mailbox_of db" "mailbox_of (snd (DeadLetterClaimedOutbox e at st err db)) = mailbox_of db"
proof -
  obtain r db' where r: "AckClaimedOutbox e now db = (r, db')" by fastforce
  then show "mailbox_of (snd (AckClaimedOutbox e now db)) = mailbox_of db"
    by (cases rule: ack_cases) (use outdated_not_taken [OF assms] bookkeeping_mail(1,2) r in \<open>auto simp: mailbox_of_def\<close>)
  obtain r db' where r: "DeadLetterClaimedOutbox e at st err db = (r, db')" by fastforce
  then show "mailbox_of (snd (DeadLetterClaimedOutbox e at st err db)) = mailbox_of db"
    by (cases rule: dead_letter_cases) (use outdated_not_taken [OF assms] bookkeeping_mail(1,2) r in \<open>auto simp: mailbox_of_def\<close>)
qed

text \<open>Runs that compute.\<close>

fun exec_run :: "storage_env \<Rightarrow> store_op list \<Rightarrow> sdb \<times> outbox_event set \<Rightarrow> (sdb \<times> outbox_event set) option" where
  "exec_run env [] s = Some s"
| "exec_run env (op # ops) (db, held) =
     (if allowed op db held then exec_run env ops (exec_op env op db, held \<union> handed_out op db) else None)"

lemma exec_run_sound: "exec_run env ops s = Some t \<Longrightarrow> store_run env s ops t"
proof (induction env ops s rule: exec_run.induct)
  case (1 env s)
  then show ?case by (simp add: idle)
next
  case (2 env op ops db held)
  then have a: "allowed op db held" by (simp split: if_splits)
  then have r: "store_run env (exec_op env op db, held \<union> handed_out op db) ops t" using 2 by simp
  have "store_run env (db, held) ([] @ [op]) (exec_op env op db, held \<union> handed_out op db)"
    by (rule more [OF idle step [OF a]])
  then have "store_run env (db, held) (([] @ [op]) @ ops) t" by (rule run_trans [OF r])
  then show ?case by simp
qed

text \<open>A worker that has claimed an event and is still delivering it while the node records newer
  content under the same key cannot acknowledge the newer content away, nor turn it into a dead
  letter, whatever happens in between: the mailbox stays as it is.\<close>

theorem newer_content_survives_acknowledgement:
  assumes "reachable_store env (db, held)" "e \<in> held"
    and "store_step env (db, held) op (db1, held1)" "posts env op db (ob_event_key e)"
    and "store_run env (db1, held1) ops (db2, held2)"
  shows "mailbox_of (exec_op env (DoAck e now) db2) = mailbox_of db2 \<and>
    mailbox_of (exec_op env (DoDeadLetter e at st err) db2) = mailbox_of db2"
proof -
  have ok: "store_ok (db, held)" using assms(1) by (rule reachable_ok)
  then have "event_copy e db" using assms(2) by (simp add: store_ok_def)
  then have "outdated e db1" using posts_outdates [OF assms(4)] assms(3) by (auto elim: store_stepE)
  then have "outdated e db2" using run_outdated [OF assms(5) step_ok [OF assms(3) ok]] by simp
  then show ?thesis using outdated_settle by simp
qed

definition demo_env :: storage_env where
  "demo_env = \<lparr>env_root = ''/data'', env_safe = (\<lambda>k. True)\<rparr>"

definition demo_session :: download_session where
  "demo_session = \<lparr>ds_reservation_id = ''r1'', ds_upload_id = ''u1'', ds_expected_bytes = 8, ds_stream_bytes = 8, ds_actual_bytes = 0,
     ds_status = BeginPending, ds_settle_path = ''/settle'', ds_started_at = 1, ds_heartbeat_at = 1\<rparr>"

definition demo_ops :: "store_op list" where
  "demo_ops = [DoPrepare demo_session, DoActivate ''r1'', DoSettle 5 ''r1'' 8 5 SettleStreamingExact, DoClaimOutbox ''t'' 6 9 1]"

definition demo_event :: outbox_event where
  "demo_event = \<lparr>ob_id = 1, ob_event_key = ''download-settle:r1'', ob_method = ''POST'', ob_path = ''/settle'',
     ob_body = ''{\"actualBytes\":8}'', ob_attempts = 0, ob_next_attempt_at = 5, ob_created_at = 5, ob_last_error = '''', ob_version = 1,
     ob_claim_token = ''t'', ob_claim_until = 9, ob_replay_blocking = False\<rparr>"

definition demo_state :: "sdb \<times> outbox_event set" where
  "demo_state = (\<lparr>suploads = [], outbox = [demo_event], dead_letters = [],
     downloads = [demo_session\<lparr>ds_actual_bytes := 8, ds_status := SettlePending\<rparr>], outbox_seq = 1, dead_seq = 0\<rparr>, {demo_event})"

lemma demo_reachable: "reachable_store demo_env demo_state"
proof -
  have "exec_run demo_env demo_ops (empty_store, {}) = Some demo_state" by code_simp
  then show ?thesis unfolding reachable_store_def using exec_run_sound by blast
qed

theorem newer_content_survives_acknowledgement_witness:
  "mail (exec_op demo_env (DoAck demo_event 8) (exec_op demo_env (DoSettle 7 ''r1'' 8 7 SettleStreamingExact) (fst demo_state)))
     ''download-settle:r1'' = Some (''POST'', ''/settle'', ''{\"actualBytes\":8}'') \<and>
   mail (exec_op demo_env (DoAck demo_event 8) (fst demo_state)) ''download-settle:r1'' = None"
proof -
  let ?op = "DoSettle 7 ''r1'' 8 7 SettleStreamingExact"
  let ?t = "(exec_op demo_env ?op (fst demo_state), snd demo_state \<union> handed_out ?op (fst demo_state))"
  have reach: "reachable_store demo_env (fst demo_state, snd demo_state)" using demo_reachable by simp
  have "allowed ?op (fst demo_state) (snd demo_state)" "posts demo_env ?op (fst demo_state) (ob_event_key demo_event)" "demo_event \<in> snd demo_state"
    by code_simp+
  then have "mailbox_of (exec_op demo_env (DoAck demo_event 8) (fst ?t)) = mailbox_of (fst ?t)"
    using newer_content_survives_acknowledgement [OF reach _ step _ idle, of demo_event ?op 8] unfolding fst_conv by blast
  moreover have "mail (fst ?t) ''download-settle:r1'' = Some (''POST'', ''/settle'', ''{\"actualBytes\":8}'')" by code_simp
  moreover have "mail (exec_op demo_env (DoAck demo_event 8) (fst demo_state)) ''download-settle:r1'' = None" by code_simp
  ultimately show ?thesis by (simp add: mailbox_of_def)
qed

theorem outbox_refines_mailbox_witness:
  "mail_moves demo_env (DoDeadLetter demo_event 8 404 ''gone'') (fst demo_state) =
     [Bury ''download-settle:r1'' (''POST'', ''/settle'', ''{\"actualBytes\":8}'')] \<and>
   run_moves [Bury ''download-settle:r1'' (''POST'', ''/settle'', ''{\"actualBytes\":8}'')] (mailbox_of (fst demo_state)) =
     Some (mailbox_of (exec_op demo_env (DoDeadLetter demo_event 8 404 ''gone'') (fst demo_state)))"
proof -
  let ?op = "DoDeadLetter demo_event 8 404 ''gone''"
  have reach: "reachable_store demo_env (fst demo_state, snd demo_state)" using demo_reachable by simp
  have "allowed ?op (fst demo_state) (snd demo_state)" by code_simp
  then have "run_moves (mail_moves demo_env ?op (fst demo_state)) (mailbox_of (fst demo_state)) = Some (mailbox_of (exec_op demo_env ?op (fst demo_state)))"
    using outbox_refines_mailbox [OF reach step] by blast
  moreover have "mail_moves demo_env ?op (fst demo_state) = [Bury ''download-settle:r1'' (''POST'', ''/settle'', ''{\"actualBytes\":8}'')]"
    by code_simp
  ultimately show ?thesis by simp
qed

end
