(* ===== verification/Storage_Settlement.thy ===== *)
theory Storage_Settlement
  imports Storage_Properties
begin

text \<open>
  Download sessions and the events that report them: the session table and the outbox agree in every
  state the store can reach.
\<close>

section \<open>The agreement\<close>

definition settle_key :: "download_session \<Rightarrow> string" where
  "settle_key d = settle_prefix @ ds_reservation_id d"

definition report :: "download_session \<Rightarrow> int \<Rightarrow> string \<times> string \<times> string" where
  "report d reported = (''POST'', ds_settle_path d, settle_body reported)"

definition reported_in :: "mailbox \<Rightarrow> download_session \<Rightarrow> bool" where
  "reported_in mb d \<longleftrightarrow> (if ds_status d = SettlePending
     then \<exists>n. reported_bytes d (ds_actual_bytes d) = Inr n \<and>
       (fst mb (settle_key d) = Some (report d n) \<or> fst mb (settle_key d) = None \<and> snd mb (settle_key d) = Some (report d n)) \<and>
       (snd mb (settle_key d) = Some (report d n) \<or> snd mb (settle_key d) = None)
     else fst mb (settle_key d) = None \<and> snd mb (settle_key d) = None)"

definition settle_inv :: "sdb \<Rightarrow> bool" where
  "settle_inv db \<longleftrightarrow> keyed ds_reservation_id (downloads db) \<and> (\<forall>d \<in> set (downloads db). reported_in (mailbox_of db) d)"

lemma reported_cong:
  "fst mb' (settle_key d) = fst mb (settle_key d) \<Longrightarrow> snd mb' (settle_key d) = snd mb (settle_key d) \<Longrightarrow> reported_in mb' d = reported_in mb d"
  by (simp add: reported_in_def)

lemma settle_inv_same: "settle_inv db \<Longrightarrow> downloads db' = downloads db \<Longrightarrow> mailbox_of db' = mailbox_of db \<Longrightarrow> settle_inv db'"
  by (simp add: settle_inv_def)

text \<open>Moves of the mailbox that never break the agreement.\<close>

lemma reported_bury:
  assumes "reported_in (m, b) d" "m k = Some c" shows "reported_in (m(k := None), b(k \<mapsto> c)) d"
  using assms by (cases "k = settle_key d") (auto simp: reported_in_def split: if_splits)

lemma reported_revive:
  assumes "reported_in (m, b) d" "b k = Some c" shows "reported_in (m(k \<mapsto> c), b(k := None)) d"
  using assms by (cases "k = settle_key d") (auto simp: reported_in_def split: if_splits)

lemma upload_key_other: "''upload-complete:'' @ i \<noteq> settle_key d"
  by (simp add: settle_key_def settle_prefix_def)

lemma settle_key_eq: "settle_key d = settle_key d' \<longleftrightarrow> ds_reservation_id d = ds_reservation_id d'"
  by (simp add: settle_key_def)

section \<open>Every operation keeps it\<close>

lemma quiet_settle: "settle_inv db \<Longrightarrow> events db' = events db \<Longrightarrow> downloads db' = downloads db \<Longrightarrow> settle_inv db'"
  using events_same(2) by (auto intro: settle_inv_same)

lemma upload_ops_downloads:
  "downloads (snd (ReserveUpload env u db)) = downloads db" "downloads (snd (storage_UpdateUploadOffset i expected nxt db)) = downloads db"
  "downloads (snd (MarkPendingScan env i p db)) = downloads db" "downloads (snd (ClaimPendingScans env ids now until n db)) = downloads db"
  "downloads (snd (ReleaseScanClaim i l db)) = downloads db" "downloads (snd (RenewScanLease i l now until db)) = downloads db"
  "downloads (snd (migrateStorageUploadPaths env db)) = downloads db"
  by (auto simp: ReserveUpload_def storage_UpdateUploadOffset_def MarkPendingScan_def ClaimPendingScans_def ReleaseScanClaim_def
      RenewScanLease_def migrateStorageUploadPaths_def Let_def dest: claim_scans_events split: sum.splits prod.splits)

lemma bookkeeping_settle: "settle_inv db \<Longrightarrow> bookkeeping db db' \<Longrightarrow> downloads db' = downloads db \<Longrightarrow> settle_inv db'"
  using bookkeeping_mail(1,2) [of db db'] by (simp add: settle_inv_def mailbox_of_def)

lemma claim_downloads: "downloads (snd (ClaimOutbox tok now until n db)) = downloads db"
  "downloads (snd (RetryClaimedOutbox ev now nxt err db)) = downloads db" "downloads (snd (ResetOutboxClaims now db)) = downloads db"
  by (auto simp: ClaimOutbox_def RetryClaimedOutbox_def ResetOutboxClaims_def release_claim_def Let_def)

lemma upsert_downloads [simp]: "downloads (upsert_event ev db) = downloads db" "suploads (upsert_event ev db) = suploads db"
  by (simp_all add: upsert_event_def)

lemma upsert_mailbox: "outbox_inv db \<Longrightarrow> mailbox_of (upsert_event ev db) = ((mail db)(ob_event_key ev \<mapsto> content ev), buried db)"
  using buried_cong [of "upsert_event ev db" db] by (simp add: mailbox_of_def mail_upsert) (simp add: upsert_event_def)

lemma complete_settle:
  assumes "settle_inv db" "outbox_inv db" "ob_event_key ev = ''upload-complete:'' @ i"
  shows "settle_inv (snd (CompleteScan env clock i l now st p sha detail ev db))"
proof -
  obtain r db' where r: "CompleteScan env clock i l now st p sha detail ev db = (r, db')" by fastforce
  then show ?thesis
  proof (cases rule: complete_cases)
    case (refused e)
    then show ?thesis using r assms(1) by simp
  next
    case (recorded us ev')
    have "mailbox_of db' = mailbox_of (upsert_event ev' db)" by (rule events_same(2)) (simp add: recorded(2) upsert_uploads)
    then have "reported_in (mailbox_of db') d = reported_in (mailbox_of db) d" for d
      using upload_key_other [of i d] recorded(3) assms(3)
      by (intro reported_cong) (simp_all add: upsert_mailbox [OF assms(2)], simp_all add: mailbox_of_def)
    then show ?thesis using assms(1) r recorded(2) by (simp add: settle_inv_def)
  qed
qed

lemma delete_settle:
  assumes "settle_inv db" shows "settle_inv (snd (storage_DeleteUpload i db))"
proof (cases "HasActiveDownloadSessions i db")
  case True
  then show ?thesis using assms by (simp add: storage_DeleteUpload_def)
next
  case False
  let ?db = "snd (storage_DeleteUpload i db)"
  have "mail ?db = (mail db)(''upload-complete:'' @ i := None)" "buried ?db = (buried db)(''upload-complete:'' @ i := None)"
    by (rule withdraw_mailbox; simp add: storage_DeleteUpload_def False)+
  then have "reported_in (mailbox_of ?db) d = reported_in (mailbox_of db) d" for d
    using upload_key_other [of i d] by (intro reported_cong) (simp_all add: mailbox_of_def)
  then show ?thesis using assms False by (simp add: settle_inv_def storage_DeleteUpload_def)
qed

text \<open>A row may change while it is not settled.\<close>

lemma session_update_settle:
  assumes "settle_inv db" "events db' = events db" "downloads db' = sql_update q f (downloads db)"
    "\<And>d. ds_reservation_id (f d) = ds_reservation_id d"
    "\<And>d. q d \<Longrightarrow> ds_status d \<noteq> SettlePending \<and> ds_status (f d) \<noteq> SettlePending"
  shows "settle_inv db'"
proof -
  have "reported_in (mailbox_of db') d" if "d \<in> set (downloads db')" for d
    using that unfolding assms(3) events_same(2) [OF assms(2)]
  proof (cases rule: sql_update_memE)
    case (changed x)
    then have "reported_in (mailbox_of db) x" using assms(1) by (simp add: settle_inv_def)
    then show "reported_in (mailbox_of db) d" using changed assms(4,5) by (simp add: reported_in_def settle_key_def)
  next
    case same
    then show "reported_in (mailbox_of db) d" using assms(1) by (simp add: settle_inv_def)
  qed
  moreover have "keyed ds_reservation_id (downloads db')" unfolding assms(3) using assms(1,4) by (intro keyed_update) (simp_all add: settle_inv_def)
  ultimately show ?thesis by (simp add: settle_inv_def)
qed

lemma session_row_settle:
  assumes "settle_inv db" "\<And>d. ds_reservation_id (f d) = ds_reservation_id d"
    "\<And>d. q d \<Longrightarrow> ds_status d \<noteq> SettlePending \<and> ds_status (f d) \<noteq> SettlePending"
  shows "settle_inv (db\<lparr>downloads := sql_update q f (downloads db)\<rparr>)"
  by (rule session_update_settle [where q = q and f = f, OF assms(1) _ _ assms(2,3)]) simp_all

lemma session_ops_settle:
  assumes "settle_inv db"
  shows "settle_inv (snd (ActivateDownloadSession i db))" "settle_inv (snd (UpdateDownloadProgress i n db))"
    "settle_inv (snd (HeartbeatDownloadSession i n now db))"
proof -
  show "settle_inv (snd (ActivateDownloadSession i db))" unfolding ActivateDownloadSession_def Let_def
    using assms by (auto intro!: session_row_settle)
  show "settle_inv (snd (UpdateDownloadProgress i n db))" unfolding UpdateDownloadProgress_def Let_def
    using assms by (auto intro!: session_row_settle)
  show "settle_inv (snd (HeartbeatDownloadSession i n now db))" unfolding HeartbeatDownloadSession_def Let_def
    using assms by (auto intro!: session_row_settle split: option.splits)
qed

lemma session_delete_settle:
  assumes "settle_inv db" shows "settle_inv (db\<lparr>downloads := sql_delete q (downloads db)\<rparr>)"
  using assms events_same(2) [OF events_update(2)] by (auto simp: settle_inv_def keyed_delete sql_delete_def keyed_delete [unfolded sql_delete_def])

lemma cancel_settle: "settle_inv db \<Longrightarrow> settle_inv (snd (CancelDownloadSession i db))"
  by (simp add: CancelDownloadSession_def Let_def session_delete_settle)

lemma prepare_settle:
  assumes inv: "settle_inv db" and once: "sql_exists (\<lambda>d. ds_reservation_id d = ds_reservation_id s) (downloads db) \<or>
    mail db (settle_prefix @ ds_reservation_id s) = None \<and> buried db (settle_prefix @ ds_reservation_id s) = None"
  shows "settle_inv (snd (PrepareDownloadSession s db))"
proof (cases "sql_exists (\<lambda>d. ds_reservation_id d = ds_reservation_id s) (downloads db)")
  case True
  then show ?thesis using inv by (simp add: PrepareDownloadSession_def Let_def)
next
  case False
  then have fresh: "mail db (settle_prefix @ ds_reservation_id s) = None" "buried db (settle_prefix @ ds_reservation_id s) = None"
    using once by blast+
  have *: "settle_inv (db\<lparr>downloads := downloads db @ [d]\<rparr>)"
    if "ds_reservation_id d = ds_reservation_id s" "ds_status d = BeginPending" "ds_reservation_id s \<notin> ds_reservation_id ` set (downloads db)" for d
    using that inv fresh events_same(2) [OF events_update(2) [of _ db]]
    by (auto simp: settle_inv_def keyed_append reported_in_def settle_key_def mailbox_of_def)
  show ?thesis using inv by (auto simp: PrepareDownloadSession_def Let_def sql_exists_iff intro!: *)
qed

section \<open>Settling\<close>

text \<open>A settled session keeps the bytes it was settled with.\<close>

lemma settleable_pending: "settleable mode s n = Inr () \<Longrightarrow> ds_status s = SettlePending \<Longrightarrow> n = ds_actual_bytes s"
  by (simp add: settleable_def split: if_splits)

lemma queue_settle:
  assumes inv: "settle_inv db" and out: "outbox_inv db"
  shows "settle_inv (snd (queueDownloadSettlement clock i n now mode db))"
proof -
  obtain r db' where r: "queueDownloadSettlement clock i n now mode db = (r, db')" by fastforce
  then show ?thesis
  proof (cases rule: settle_cases)
    case (refused e)
    then show ?thesis using r inv by simp
  next
    case (queued s reported db1 ev)
    let ?n = "settled_bytes mode s n"
    let ?s = "s\<lparr>ds_status := SettlePending, ds_actual_bytes := ?n\<rparr>"
    have s: "s \<in> set (downloads db)" "ds_reservation_id s = i" using sql_firstD [OF queued(2)] by auto
    have k: "keyed ds_reservation_id (downloads db)" using inv by (simp add: settle_inv_def)
    have uniq: "d = s" if "d \<in> set (downloads db)" "ds_reservation_id d = i" for d using keyed_unique [OF k that(1) s(1)] that(2) s(2) by simp
    have ev1: "events db1 = events db" using mark_settle_events [OF queued(5)] by simp
    then have out1: "outbox_inv db1" using events_same(1) out by (simp add: keeps_copies_def)
    have mb: "mailbox_of db' = ((mail db)(settle_prefix @ i \<mapsto> report s reported), buried db)"
      using upsert_mailbox [OF out1, of ev] events_same(2) [OF ev1] queued(6-8) by (simp add: mailbox_of_def report_def)
    have rows: "keyed ds_reservation_id (downloads db') \<and> (\<forall>d \<in> set (downloads db'). d = ?s \<or> (d \<in> set (downloads db) \<and> ds_reservation_id d \<noteq> i))"
    proof (cases "ds_status s = SettlePending")
      case True
      have "?s = s" using True settleable_pending [OF queued(3) True] by simp
      moreover have "db1 = db" using queued(5) True by (simp add: mark_settle_pending_def)
      ultimately show ?thesis using k uniq queued(6) by auto
    next
      case False
      then have d1: "downloads db1 = sql_update (\<lambda>d. ds_reservation_id d = ds_reservation_id s \<and> ds_status d = ds_status s)
          (\<lambda>d. d\<lparr>ds_status := SettlePending, ds_actual_bytes := ?n\<rparr>) (downloads db)"
        using queued(5) by (auto simp: mark_settle_pending_def Let_def split: if_splits)
      have "d = ?s \<or> (d \<in> set (downloads db) \<and> ds_reservation_id d \<noteq> i)" if "d \<in> set (downloads db1)" for d
        using that unfolding d1 by (cases rule: sql_update_memE) (use uniq s(2) in auto)
      moreover have "keyed ds_reservation_id (downloads db1)" unfolding d1 using k by (intro keyed_update) simp_all
      ultimately show ?thesis using queued(6) by simp
    qed
    have old: "reported_in (mailbox_of db) s" using inv s(1) by (simp add: settle_inv_def)
    have rb: "reported_bytes ?s ?n = Inr reported" using queued(4) by (auto simp: reported_bytes_def split: if_splits)
    have "buried db (settle_prefix @ i) = None \<or> buried db (settle_prefix @ i) = Some (report s reported)"
      using old s(2) settleable_pending [OF queued(3)] queued(4) by (auto simp: reported_in_def mailbox_of_def settle_key_def split: if_splits)
    then have "reported_in (mailbox_of db') ?s" using rb s(2)
      by (auto simp: mb reported_in_def settle_key_def report_def)
    moreover have "reported_in (mailbox_of db') d" if "d \<in> set (downloads db)" "ds_reservation_id d \<noteq> i" for d
    proof -
      have "reported_in (mailbox_of db) d" using inv that(1) by (simp add: settle_inv_def)
      then show ?thesis using reported_cong [of "mailbox_of db'" d "mailbox_of db"] that(2) by (simp add: mb) (simp add: mailbox_of_def settle_key_def)
    qed
    ultimately show ?thesis using rows r by (auto simp: settle_inv_def)
  qed
qed

section \<open>Delivery\<close>

lemma settle_key_prefix: "take (length settle_prefix) (settle_key d) = settle_prefix" "drop (length settle_prefix) (settle_key d) = ds_reservation_id d"
  by (simp_all add: settle_key_def)

lemma ack_settle:
  assumes inv: "settle_inv db" and out: "outbox_inv db" and copy: "event_copy ev db"
  shows "settle_inv (snd (AckClaimedOutbox ev now db))"
proof -
  obtain r db' where r: "AckClaimedOutbox ev now db = (r, db')" by fastforce
  then show ?thesis
  proof (cases rule: ack_cases)
    case kept
    then show ?thesis using bookkeeping_settle [OF inv] r by simp
  next
    case (taken e)
    note t = takes_out_mail [OF out copy taken(1)]
    have mb: "mailbox_of db' = ((mail db)(ob_event_key ev := None), buried db)" using t(2) buried_cong [OF taken(4)] by (simp add: mailbox_of_def)
    have sub: "set (downloads db') \<subseteq> set (downloads db)" "keyed ds_reservation_id (downloads db')"
      using inv keyed_delete by (auto simp: taken(7) settle_inv_def) (simp add: sql_delete_def)
    have "reported_in (mailbox_of db') d" if d: "d \<in> set (downloads db')" for d
    proof -
      have old: "reported_in (mailbox_of db) d" using inv d sub by (auto simp: settle_inv_def)
      have "settle_key d \<noteq> ob_event_key ev"
      proof
        assume key: "settle_key d = ob_event_key ev"
        then have "ds_status d = SettlePending" using old t(1) by (auto simp: reported_in_def mailbox_of_def split: if_splits)
        then show False using d taken(7) t(3) settle_key_prefix [of d] by (simp add: key [symmetric] sql_delete_def)
      qed
      then have "reported_in (mailbox_of db') d = reported_in (mailbox_of db) d"
        by (intro reported_cong) (simp_all add: mb, simp_all add: mailbox_of_def)
      then show ?thesis using old by simp
    qed
    then show ?thesis using sub r by (simp add: settle_inv_def)
  qed
qed

lemma dead_letter_settle:
  assumes inv: "settle_inv db" and out: "outbox_inv db" and copy: "event_copy ev db"
  shows "settle_inv (snd (DeadLetterClaimedOutbox ev at st err db))"
proof -
  obtain r db' where r: "DeadLetterClaimedOutbox ev at st err db = (r, db')" by fastforce
  then show ?thesis
  proof (cases rule: dead_letter_cases)
    case kept
    then show ?thesis using bookkeeping_settle [OF inv] r by simp
  next
    case (taken e)
    note t = takes_out_mail [OF out copy taken(1)]
    have "buried db' = buried (put_dead_letter at st (take 512 err) e db)" by (rule buried_cong) (simp add: taken(5))
    then have "mailbox_of db' = ((mail db)(ob_event_key ev := None), (buried db)(ob_event_key ev \<mapsto> content ev))"
      using t(2-4) by (simp add: mailbox_of_def buried_put)
    then show ?thesis using inv reported_bury [where m = "mail db", OF _ t(1)] r taken(3) by (auto simp: settle_inv_def mailbox_of_def)
  qed
qed

lemma fold_replay_settle:
  assumes "settle_inv db" "outbox_inv db" "distinct (map dead_id rs)" "set rs \<subseteq> set (dead_letters db)"
  shows "settle_inv (fold (replay_one now) rs db)"
  using assms
proof (induction rs arbitrary: db)
  case (Cons r rs)
  have mem: "r \<in> set (dead_letters db)" using Cons(5) by simp
  note b = buried_replay [OF Cons(3) mem]
  have mb: "mailbox_of (replay_one now r db) = ((mail db)(dead_event_key r \<mapsto> dead_content r), (buried db)(dead_event_key r := None))"
    by (simp add: mailbox_of_def mail_replay b(2))
  have "settle_inv (replay_one now r db)" using Cons(2) reported_revive [where b = "buried db", OF _ b(1)]
    by (auto simp: settle_inv_def mb) (simp add: mailbox_of_def)
  moreover have "dead_id x \<noteq> dead_id r" if "x \<in> set rs" for x using Cons(4) that by (auto simp: image_iff)
  then have "set rs \<subseteq> set (dead_letters (replay_one now r db))" using Cons(5) by (auto simp: sql_delete_def)
  ultimately show ?case using Cons(1) [OF _ replay_inv [OF Cons(3)]] Cons(4) by simp
qed simp

lemma recover_settle:
  assumes "settle_inv db" "outbox_inv db"
  shows "settle_inv (snd (RecoverDownloadSessions clock now n db))" "settle_inv (snd (RecoverStaleDownloadSessions clock now stale hard n db))"
proof -
  let ?P = "\<lambda>a b. settle_inv a \<and> outbox_inv a \<longrightarrow> settle_inv b \<and> outbox_inv b"
  have "?P a (snd (queueDownloadSettlement clock i 0 now mode a))" for a i mode
    using queue_settle move_keeps [OF settle_move] by (auto simp: keeps_copies_def)
  then have "?P db (snd (RecoverDownloadSessions clock now n db))" "?P db (snd (RecoverStaleDownloadSessions clock now stale hard n db))"
    using recover_run [of ?P clock now] by auto
  then show "settle_inv (snd (RecoverDownloadSessions clock now n db))" "settle_inv (snd (RecoverStaleDownloadSessions clock now stale hard n db))"
    using assms by simp_all
qed

lemma exec_settle:
  assumes inv: "settle_inv db" and out: "outbox_inv db" and copies: "\<And>e. e \<in> held \<Longrightarrow> event_copy e db" and ok: "allowed op db held"
  shows "settle_inv (exec_op env op db)"
proof (cases op)
  case (DoCompleteScan clock i l now st p sha detail ev)
  then show ?thesis using complete_settle [OF inv out] ok by (simp add: allowed_def)
next
  case (DoPrepare s)
  then show ?thesis using prepare_settle [OF inv] ok by (simp add: allowed_def)
next
  case (DoAck ev now)
  then show ?thesis using ack_settle [OF inv out copies] ok by (simp add: allowed_def)
next
  case (DoDeadLetter ev at st err)
  then show ?thesis using dead_letter_settle [OF inv out copies] ok by (simp add: allowed_def)
next
  case (DoReplay now n)
  then show ?thesis using fold_replay_settle [OF inv out] replay_records [OF out] by (metis exec_op.simps(22))
qed (simp_all add: upload_ops_events upload_ops_downloads quiet_settle [OF inv] delete_settle [OF inv] session_ops_settle [OF inv] cancel_settle [OF inv]
    queue_settle [OF inv out] recover_settle [OF inv out] bookkeeping_settle [OF inv claim_bookkeeping] bookkeeping_settle [OF inv retry_bookkeeping]
    bookkeeping_settle [OF inv reset_bookkeeping] claim_downloads)

lemma step_settle:
  assumes "store_step env s op t" "store_ok s" "settle_inv (fst s)" shows "settle_inv (fst t)"
  using assms(1)
proof (cases rule: store_step.cases)
  case (step db held)
  then show ?thesis using exec_settle [of db held op] assms(2,3) by (simp add: store_ok_def)
qed

lemma run_settle: "store_run env s ops t \<Longrightarrow> store_ok s \<Longrightarrow> settle_inv (fst s) \<Longrightarrow> settle_inv (fst t)"
  by (induction rule: store_run.induct) (blast intro: step_settle run_ok)+

lemma reachable_settle: "reachable_store env s \<Longrightarrow> settle_inv (fst s)"
proof -
  assume "reachable_store env s"
  then obtain ops where "store_run env (empty_store, {}) ops s" by (auto simp: reachable_store_def)
  moreover have "settle_inv (fst (empty_store, {}))" by (simp add: settle_inv_def empty_store_def keyed_def)
  ultimately show ?thesis using run_settle empty_ok by blast
qed

section \<open>Settled sessions end with their report\<close>

definition keeps_pending :: "sdb \<Rightarrow> sdb \<Rightarrow> bool" where
  "keeps_pending db db' \<longleftrightarrow> (\<forall>d \<in> set (downloads db). ds_status d = SettlePending \<longrightarrow> d \<in> set (downloads db'))"

lemma keeps_pending_same: "downloads db' = downloads db \<Longrightarrow> keeps_pending db db'"
  by (simp add: keeps_pending_def)

lemma keeps_pending_update: "(\<And>d. q d \<Longrightarrow> ds_status d \<noteq> SettlePending) \<Longrightarrow> downloads db' = sql_update q f (downloads db) \<Longrightarrow> keeps_pending db db'"
  by (auto simp: keeps_pending_def intro!: sql_update_keep)

lemma session_ops_pending:
  "keeps_pending db (snd (PrepareDownloadSession s db))" "keeps_pending db (snd (ActivateDownloadSession i db))"
  "keeps_pending db (snd (UpdateDownloadProgress i n db))" "keeps_pending db (snd (HeartbeatDownloadSession i n now db))"
  "keeps_pending db (snd (CancelDownloadSession i db))"
  by (auto simp: keeps_pending_def PrepareDownloadSession_def ActivateDownloadSession_def UpdateDownloadProgress_def HeartbeatDownloadSession_def
      CancelDownloadSession_def Let_def sql_delete_def split: option.splits intro!: sql_update_keep)

lemma queue_pending: "keeps_pending db (snd (queueDownloadSettlement clock i n now mode db))"
proof -
  obtain r db' where r: "queueDownloadSettlement clock i n now mode db = (r, db')" by fastforce
  then show ?thesis
  proof (cases rule: settle_cases)
    case (refused e)
    then show ?thesis using r by (simp add: keeps_pending_def)
  next
    case (queued s reported db1 ev)
    have "keeps_pending db db1" using queued(5)
      by (auto simp: mark_settle_pending_def Let_def keeps_pending_def split: if_splits intro!: sql_update_keep)
    then show ?thesis using r queued(6) by (simp add: keeps_pending_def)
  qed
qed

lemma recover_pending:
  "keeps_pending db (snd (RecoverDownloadSessions clock now n db))" "keeps_pending db (snd (RecoverStaleDownloadSessions clock now stale hard n db))"
  using recover_run [of keeps_pending clock now] queue_pending by (auto simp: keeps_pending_def)

lemma other_downloads:
  "downloads (snd (storage_DeleteUpload i db)) = downloads db" "downloads (snd (CompleteScan env clock i l now st p sha detail ev db)) = downloads db"
  "downloads (snd (DeadLetterClaimedOutbox ev at st' err db)) = downloads db" "downloads (snd (ReplayDeadLetters now n db)) = downloads db"
proof -
  show "downloads (snd (storage_DeleteUpload i db)) = downloads db" by (simp add: storage_DeleteUpload_def)
  obtain r db' where r: "CompleteScan env clock i l now st p sha detail ev db = (r, db')" by fastforce
  then show "downloads (snd (CompleteScan env clock i l now st p sha detail ev db)) = downloads db"
    by (cases rule: complete_cases) (use r in simp_all)
  obtain r db' where r: "DeadLetterClaimedOutbox ev at st' err db = (r, db')" by fastforce
  then show "downloads (snd (DeadLetterClaimedOutbox ev at st' err db)) = downloads db"
    by (cases rule: dead_letter_cases) (use r in simp_all)
  have "downloads (fold (replay_one now) rs db) = downloads db" for rs by (induction rs arbitrary: db) simp_all
  then show "downloads (snd (ReplayDeadLetters now n db)) = downloads db" by (simp add: ReplayDeadLetters_def Let_def)
qed

lemma exec_pending:
  assumes "\<And>ev now. op \<noteq> DoAck ev now" shows "keeps_pending db (exec_op env op db)"
proof (cases op)
  case (DoAck ev now)
  then show ?thesis using assms by blast
qed (simp_all add: session_ops_pending queue_pending recover_pending keeps_pending_same upload_ops_downloads claim_downloads other_downloads)

lemma ack_pending:
  assumes d: "d \<in> set (downloads db)" "d \<notin> set (downloads (snd (AckClaimedOutbox ev now db)))" and out: "outbox_inv db" and copy: "event_copy ev db"
  shows "ob_event_key ev = settle_key d \<and> mail db (settle_key d) = Some (content ev)"
proof -
  obtain r db' where r: "AckClaimedOutbox ev now db = (r, db')" by fastforce
  then show ?thesis
  proof (cases rule: ack_cases)
    case kept
    then show ?thesis using d r by simp
  next
    case (taken e)
    note t = takes_out_mail [OF out copy taken(1)]
    have p: "take (length settle_prefix) (ob_event_key e) = settle_prefix" "ds_reservation_id d = drop (length settle_prefix) (ob_event_key e)"
      using d r taken(7) by (auto simp: sql_delete_def split: if_splits)
    have "ob_event_key e = settle_prefix @ ds_reservation_id d"
      using append_take_drop_id [of "length settle_prefix" "ob_event_key e"] p by simp
    then show ?thesis using t by (simp add: settle_key_def)
  qed
qed

text \<open>C25. A finished download is reported exactly. In every state the store can reach, a session that
  waits for its settlement has an event in the outbox or a dead letter, addressed to its settlement
  path, with the encoded number of bytes that were sent and no other; and no operation removes the
  session except the acknowledgement of an event with exactly that content.\<close>

theorem settlement_never_lost:
  assumes "reachable_store env (db, held)" "d \<in> set (downloads db)" "ds_status d = SettlePending"
    and "store_step env (db, held) op (db', held')"
  shows "\<exists>n. reported_bytes d (ds_actual_bytes d) = Inr n \<and>
     (mail db (settle_key d) = Some (report d n) \<or> buried db (settle_key d) = Some (report d n)) \<and>
     (d \<in> set (downloads db') \<or> (\<exists>ev now. op = DoAck ev now \<and> ob_event_key ev = settle_key d \<and> content ev = report d n))"
proof -
  have ok: "outbox_inv db" "\<And>e. e \<in> held \<Longrightarrow> event_copy e db" using reachable_ok [OF assms(1)] by (simp_all add: store_ok_def)
  have "reported_in (mailbox_of db) d" using reachable_settle [OF assms(1)] assms(2) by (simp add: settle_inv_def)
  then obtain n where n: "reported_bytes d (ds_actual_bytes d) = Inr n"
      "mail db (settle_key d) = Some (report d n) \<or> mail db (settle_key d) = None \<and> buried db (settle_key d) = Some (report d n)"
    using assms(3) by (auto simp: reported_in_def mailbox_of_def)
  have db': "db' = exec_op env op db" and a: "allowed op db held" using assms(4) by (auto elim: store_stepE)
  have "\<exists>ev now. op = DoAck ev now \<and> ob_event_key ev = settle_key d \<and> content ev = report d n" if gone: "d \<notin> set (downloads db')"
  proof -
    obtain ev now where op: "op = DoAck ev now" using exec_pending [of op db env] assms(2,3) gone db' by (auto simp: keeps_pending_def)
    have "event_copy ev db" using ok(2) a op by (simp add: allowed_def)
    then have "ob_event_key ev = settle_key d \<and> mail db (settle_key d) = Some (content ev)"
      using ack_pending [OF assms(2) _ ok(1), of ev now] gone db' op by simp
    then show ?thesis using n(2) op by auto
  qed
  then show ?thesis using n by blast
qed

theorem settlement_never_lost_witness:
  "\<exists>n. mail (fst demo_state) ''download-settle:r1'' = Some (''POST'', ''/settle'', settle_body n) \<and> n = 8 \<and>
     downloads (exec_op demo_env (DoAck demo_event 8) (fst demo_state)) = []"
proof -
  let ?d = "demo_session\<lparr>ds_actual_bytes := 8, ds_status := SettlePending\<rparr>"
  have reach: "reachable_store demo_env (fst demo_state, snd demo_state)" using demo_reachable by simp
  have a: "allowed (DoAck demo_event 8) (fst demo_state) (snd demo_state)" by code_simp
  have d: "?d \<in> set (downloads (fst demo_state))" "ds_status ?d = SettlePending" by code_simp+
  obtain n where n: "reported_bytes ?d (ds_actual_bytes ?d) = Inr n"
     "mail (fst demo_state) (settle_key ?d) = Some (report ?d n) \<or> buried (fst demo_state) (settle_key ?d) = Some (report ?d n)"
    using settlement_never_lost [OF reach d step [OF a]] by blast
  have "reported_bytes ?d (ds_actual_bytes ?d) = Inr 8" "buried (fst demo_state) (settle_key ?d) = None" "settle_key ?d = ''download-settle:r1''"
    "report ?d 8 = (''POST'', ''/settle'', settle_body 8)" "downloads (exec_op demo_env (DoAck demo_event 8) (fst demo_state)) = []" by code_simp+
  then show ?thesis using n by simp
qed

end
