(* ===== verification/Storage_Files.thy ===== *)
theory Storage_Files
  imports Storage_Settlement
begin

text \<open>
  The upload table of a node: the state of a row fixes where its file is, verdicts are final, files
  that are being served stay, and a running scan belongs to the worker that holds its lease.
\<close>

section \<open>Well-formed rows\<close>

definition row_path_ok :: "storage_upload \<Rightarrow> bool" where
  "row_path_ok u = (case su_status u of
     StorageUploading \<Rightarrow> su_path u = storageUploadPathKey ''tmp'' (su_id u) ''.part''
   | PendingScan \<Rightarrow> su_path u = storageUploadPathKey ''quarantine'' (su_id u) ''.blob''
   | StorageScanning \<Rightarrow> su_path u = storageUploadPathKey ''quarantine'' (su_id u) ''.blob''
   | Clean \<Rightarrow> su_path u = storageUploadPathKey ''objects'' (su_id u) ''.blob''
   | StorageBlocked \<Rightarrow> su_path u = ''''
   | ScannerError \<Rightarrow> validateStorageUploadPathKey (su_id u) (su_path u) = Inr ())"

definition row_wf :: "storage_upload \<Rightarrow> bool" where
  "row_wf u \<longleftrightarrow> validStorageObjectID (su_id u) \<and> row_path_ok u \<and>
     (su_status u \<noteq> StorageUploading \<longrightarrow> su_offset u = su_length u) \<and>
     (su_offset u = 0 \<or> su_offset u \<le> su_length u) \<and>
     (su_status u \<noteq> StorageScanning \<longrightarrow> su_lease_until u = 0 \<and> su_lease_id u = '''') \<and>
     (su_status u = StorageUploading \<longrightarrow> su_sha256 u = '''' \<and> su_scan_detail u = '''')"

definition uploads_wf :: "sdb \<Rightarrow> bool" where
  "uploads_wf db \<longleftrightarrow> keyed su_id (suploads db) \<and> (\<forall>u \<in> set (suploads db). row_wf u)"

lemma uploads_wf_same: "uploads_wf db \<Longrightarrow> suploads db' = suploads db \<Longrightarrow> uploads_wf db'"
  by (simp add: uploads_wf_def)

lemma uploads_wf_update:
  assumes "uploads_wf db" "suploads db' = sql_update q f (suploads db)" "\<And>u. su_id (f u) = su_id u"
    "\<And>u. row_wf u \<Longrightarrow> q u \<Longrightarrow> row_wf (f u)"
  shows "uploads_wf db'"
proof -
  have "row_wf u" if "u \<in> set (suploads db')" for u
    using that unfolding assms(2) by (cases rule: sql_update_memE) (use assms(1,4) in \<open>auto simp: uploads_wf_def\<close>)
  moreover have "keyed su_id (suploads db')" unfolding assms(2) using assms(1,3) by (intro keyed_update) (simp_all add: uploads_wf_def)
  ultimately show ?thesis by (simp add: uploads_wf_def)
qed

lemma uploads_wf_row:
  "uploads_wf db \<Longrightarrow> (\<And>u. su_id (f u) = su_id u) \<Longrightarrow> (\<And>u. row_wf u \<Longrightarrow> q u \<Longrightarrow> row_wf (f u)) \<Longrightarrow>
   uploads_wf (db\<lparr>suploads := sql_update q f (suploads db)\<rparr>)"
  by (rule uploads_wf_update [where q = q and f = f]) simp_all

text \<open>Paths that come out of normalizeUploadPath are keys, and keys come out unchanged.\<close>

lemma normalize_key_valid:
  assumes "normalizeUploadPath env i p = Inr (k, a)"
  shows "k = '''' \<or> validateStorageUploadPathKey i k = Inr ()"
  using assms by (auto simp: normalizeUploadPath_def normalize_legacy_def Let_def split: if_splits sum.splits)

lemma valid_key_unchanged:
  assumes "validateStorageUploadPathKey i p = Inr ()" "normalizeUploadPath env i p = Inr (k, a)"
  shows "k = p"
proof -
  obtain d f where df: "validStorageObjectID i" "(d, f) \<in> upload_keys i" "p = d @ ''/'' @ f" using validate_Inr [OF assms(1)] by blast
  note k = upload_key_plain [OF df(1,2)]
  have "\<not> storagePathHasParentTraversal p" using fields_no_parent [OF k(1-3)] df(3) by simp
  moreover have "p \<noteq> ''''" using k(5) df(3) by simp
  ultimately show ?thesis using assms by (auto simp: normalizeUploadPath_def split: sum.splits)
qed

lemma key_of_upload:
  "validStorageObjectID i \<Longrightarrow> validateStorageUploadPathKey i (storageUploadPathKey ''tmp'' i ''.part'') = Inr ()"
  "validStorageObjectID i \<Longrightarrow> validateStorageUploadPathKey i (storageUploadPathKey ''quarantine'' i ''.blob'') = Inr ()"
  "validStorageObjectID i \<Longrightarrow> validateStorageUploadPathKey i (storageUploadPathKey ''objects'' i ''.blob'') = Inr ()"
  using upload_key_valid [of i "''tmp''" "i @ ''.part''"] upload_key_valid [of i "''quarantine''" "i @ ''.blob''"]
    upload_key_valid [of i "''objects''" "i @ ''.blob''"] by (simp_all add: storageUploadPathKey_def upload_keys_def)

lemma valid_key_id: "validateStorageUploadPathKey i k = Inr () \<Longrightarrow> validStorageObjectID i"
  using validate_Inr by blast

lemma wf_path:
  assumes "row_wf u" shows "su_path u = '''' \<or> validateStorageUploadPathKey (su_id u) (su_path u) = Inr ()"
  using assms key_of_upload [of "su_id u"] by (cases "su_status u") (auto simp: row_wf_def row_path_ok_def)

section \<open>Every operation keeps the table well-formed\<close>

lemma reserve_upload_cases:
  assumes "ReserveUpload env req db = (r, db')"
  obtains "db' = db"
  | u where "suploads db' = suploads db @ [u]" "su_id u \<notin> su_id ` set (suploads db)" "row_wf u"
proof (cases "normalizeUploadPath env (su_id req) (su_path req)")
  case (Inl e)
  then show ?thesis using assms that(1) by (simp add: ReserveUpload_def)
next
  case (Inr ka)
  obtain k a where n: "normalizeUploadPath env (su_id req) (su_path req) = Inr (k, a)" using Inr by (cases ka) auto
  let ?row = "req\<lparr>su_offset := 0, su_status := StorageUploading, su_path := k,
                 su_sha256 := '''', su_scan_detail := '''', su_lease_until := 0, su_lease_id := ''''\<rparr>"
  show ?thesis
  proof (cases "k = '''' \<or> k \<noteq> storageUploadPathKey ''tmp'' (su_id req) ''.part'' \<or> sql_exists (\<lambda>u. su_id u = su_id req) (suploads db)")
    case True
    then have "db' = db" using assms n by (auto simp: ReserveUpload_def Let_def split: sum.splits if_splits)
    then show ?thesis by (rule that(1))
  next
    case False
    then have "db' = db\<lparr>suploads := suploads db @ [?row]\<rparr>"
      using assms n by (simp add: ReserveUpload_def Let_def split: sum.splits if_splits)
    moreover have "validStorageObjectID (su_id req)" using normalize_key_valid [OF n] False valid_key_id by blast
    then have "row_wf ?row" using False by (simp add: row_wf_def row_path_ok_def)
    moreover have "su_id ?row \<notin> su_id ` set (suploads db)" using False by (auto simp: sql_exists_iff)
    ultimately show ?thesis by (intro that(2) [of ?row]) simp_all
  qed
qed

lemma reserve_wf:
  assumes wf: "uploads_wf db" shows "uploads_wf (snd (ReserveUpload env req db))"
proof -
  obtain r db' where r: "ReserveUpload env req db = (r, db')" by fastforce
  then show ?thesis by (cases rule: reserve_upload_cases) (use wf r in \<open>auto simp: uploads_wf_def keyed_append\<close>)
qed

lemma row_wf_offset: "row_wf u \<Longrightarrow> su_status u = StorageUploading \<Longrightarrow> n \<le> su_length u \<Longrightarrow> row_wf (u\<lparr>su_offset := n\<rparr>)"
  by (simp add: row_wf_def row_path_ok_def)

lemma row_wf_pending:
  "row_wf u \<Longrightarrow> su_offset u = su_length u \<Longrightarrow> p = storageUploadPathKey ''quarantine'' (su_id u) ''.blob'' \<Longrightarrow>
   row_wf (u\<lparr>su_status := PendingScan, su_path := p, su_lease_until := 0, su_lease_id := ''''\<rparr>)"
  by (simp add: row_wf_def row_path_ok_def)

lemma row_wf_scanning:
  "row_wf u \<Longrightarrow> su_status u = PendingScan \<or> su_status u = StorageScanning \<Longrightarrow>
   row_wf (u\<lparr>su_status := StorageScanning, su_lease_until := t, su_lease_id := l\<rparr>)"
  by (auto simp: row_wf_def row_path_ok_def)

lemma row_wf_released:
  "row_wf u \<Longrightarrow> su_status u = StorageScanning \<Longrightarrow> row_wf (u\<lparr>su_status := PendingScan, su_lease_until := 0, su_lease_id := ''''\<rparr>)"
  by (auto simp: row_wf_def row_path_ok_def)

lemma row_wf_finished:
  "row_wf u \<Longrightarrow> su_status u = StorageScanning \<Longrightarrow> final_path_ok (su_id u) st p \<Longrightarrow> p = '''' \<or> validateStorageUploadPathKey (su_id u) p = Inr () \<Longrightarrow>
   row_wf (u\<lparr>su_status := st, su_path := p, su_sha256 := sha, su_scan_detail := detail, su_lease_until := 0, su_lease_id := ''''\<rparr>)"
  by (cases st) (auto simp: row_wf_def row_path_ok_def final_path_ok_def)

lemma mark_pending_cases:
  assumes "MarkPendingScan env i p db = (r, db')"
  obtains "db' = db"
  | "suploads db' = sql_update (\<lambda>u. su_id u = i \<and> su_offset u = su_length u \<and> su_status u = StorageUploading)
       (\<lambda>u. u\<lparr>su_status := PendingScan, su_path := storageUploadPathKey ''quarantine'' i ''.blob'', su_lease_until := 0, su_lease_id := ''''\<rparr>) (suploads db)"
proof (cases "normalizeUploadPath env i p")
  case (Inl e)
  then show ?thesis using assms that(1) by (simp add: MarkPendingScan_def)
next
  case (Inr ka)
  obtain k a where n: "normalizeUploadPath env i p = Inr (k, a)" using Inr by (cases ka) auto
  show ?thesis
  proof (cases "k = storageUploadPathKey ''quarantine'' i ''.blob'' \<and>
      sql_only (\<lambda>u. su_id u = i \<and> su_offset u = su_length u \<and> su_status u = StorageUploading) (suploads db)")
    case True
    then show ?thesis using assms n by (intro that(2)) (auto simp: MarkPendingScan_def Let_def)
  next
    case False
    then have "db' = db" using assms n by (auto simp: MarkPendingScan_def Let_def split: sum.splits if_splits)
    then show ?thesis by (rule that(1))
  qed
qed

lemma mark_pending_wf:
  assumes wf: "uploads_wf db" shows "uploads_wf (snd (MarkPendingScan env i p db))"
proof -
  obtain r db' where r: "MarkPendingScan env i p db = (r, db')" by fastforce
  then show ?thesis
  proof (cases rule: mark_pending_cases)
    case 2
    have "uploads_wf db'" by (rule uploads_wf_update [OF wf 2]) (simp_all add: row_wf_pending)
    then show ?thesis using r by simp
  qed (use wf r in simp)
qed

lemma claim_scans_wf: "uploads_wf db \<Longrightarrow> claim_scans now until cs got db = (r, db') \<Longrightarrow> uploads_wf db'"
proof (induction now until cs got db rule: claim_scans.induct)
  case (2 now until candidate leaseID cs claimed db)
  have "uploads_wf (db\<lparr>suploads := sql_update (\<lambda>u. su_id u = su_id candidate \<and> scan_claimable now u)
      (\<lambda>u. u\<lparr>su_status := StorageScanning, su_lease_until := until, su_lease_id := leaseID\<rparr>) (suploads db)\<rparr>)"
    by (rule uploads_wf_row [OF 2(2)]) (auto simp: scan_claimable_def intro: row_wf_scanning)
  then show ?case using 2(1,3) by (simp add: Let_def)
qed simp

lemma claim_pending_cases:
  assumes "ClaimPendingScans env ids now until n db = (r, db')"
  obtains e where "r = Inl e" "db' = db"
  | cs claimed where "collectUploads env (take (nat n) (by_expiry (filter (scan_claimable now) (suploads db)))) = Inr cs"
      "claim_scans now until (zip cs ids) [] db = (claimed, db')" "r = Inr claimed"
proof (cases r)
  case (Inl e)
  then have "db' = db" using assms by (auto simp: ClaimPendingScans_def split: if_splits sum.splits prod.splits)
  then show ?thesis using Inl that(1) by blast
next
  case (Inr claimed)
  then show ?thesis using assms that(2) by (auto simp: ClaimPendingScans_def split: if_splits sum.splits prod.splits)
qed

lemma claim_pending_wf:
  assumes wf: "uploads_wf db" shows "uploads_wf (snd (ClaimPendingScans env ids now until n db))"
proof -
  obtain r db' where r: "ClaimPendingScans env ids now until n db = (r, db')" by fastforce
  then show ?thesis by (cases rule: claim_pending_cases) (use wf claim_scans_wf r in auto)
qed

lemma small_upload_ops_wf:
  assumes "uploads_wf db"
  shows "uploads_wf (snd (storage_UpdateUploadOffset i expected nxt db))" "uploads_wf (snd (ReleaseScanClaim i l db))"
    "uploads_wf (snd (RenewScanLease i l now until db))"
proof -
  show "uploads_wf (snd (storage_UpdateUploadOffset i expected nxt db))" unfolding storage_UpdateUploadOffset_def Let_def
    using assms by (auto intro!: uploads_wf_row row_wf_offset)
  show "uploads_wf (snd (ReleaseScanClaim i l db))" unfolding ReleaseScanClaim_def
    using assms by (auto intro!: uploads_wf_row row_wf_released)
  have "row_wf (u\<lparr>su_lease_until := until\<rparr>)" if "row_wf u" "leased i l now u" for u using that by (auto simp: row_wf_def row_path_ok_def leased_def)
  then show "uploads_wf (snd (RenewScanLease i l now until db))" unfolding RenewScanLease_def
    using assms by (auto intro!: uploads_wf_row)
qed

lemma finish_scan_cases:
  assumes "finish_scan env i l now st p a sha detail db = Inr db'"
  obtains "db' = db"
  | "db' = db\<lparr>suploads := sql_update (leased i l now) (\<lambda>u. u\<lparr>su_status := st, su_path := p, su_sha256 := sha, su_scan_detail := detail,
                    su_lease_until := 0, su_lease_id := ''''\<rparr>) (suploads db)\<rparr>"
  using assms by (auto simp: finish_scan_def split: if_splits sum.splits)

lemma complete_rows:
  assumes "CompleteScan env clock i l now st p sha detail ev db = (r, db')"
  obtains "suploads db' = suploads db"
  | k where "suploads db' = sql_update (leased i l now) (\<lambda>u. u\<lparr>su_status := st, su_path := k, su_sha256 := sha, su_scan_detail := detail,
                    su_lease_until := 0, su_lease_id := ''''\<rparr>) (suploads db)" "final_path_ok i st k" "k = '''' \<or> validateStorageUploadPathKey i k = Inr ()"
proof (cases r)
  case (Inl e)
  then have "db' = db" using assms by (auto simp: CompleteScan_def split: if_splits sum.splits prod.splits)
  then show ?thesis using that(1) by simp
next
  case (Inr u)
  then obtain k a db1 where n: "normalizeUploadPath env i p = Inr (k, a)" "final_path_ok i st k"
      "finish_scan env i l now st k a sha detail db = Inr db1" "enqueueStorageOutboxTx clock ev db1 = Inr db'"
    using assms by (auto simp: CompleteScan_def split: if_splits sum.splits prod.splits)
  have same: "suploads db' = suploads db1" using n(4) by (rule enqueue_event) simp
  from n(3) show ?thesis
    by (cases rule: finish_scan_cases) (use that same n(2) normalize_key_valid [OF n(1)] in auto)
qed

lemma complete_wf:
  assumes wf: "uploads_wf db" shows "uploads_wf (snd (CompleteScan env clock i l now st p sha detail ev db))"
proof -
  obtain r db' where r: "CompleteScan env clock i l now st p sha detail ev db = (r, db')" by fastforce
  then show ?thesis
  proof (cases rule: complete_rows)
    case 1
    then show ?thesis using uploads_wf_same [OF wf] r by simp
  next
    case (2 k)
    have "uploads_wf db'" by (rule uploads_wf_update [OF wf 2(1)]) (use 2(2,3) in \<open>auto simp: leased_def intro!: row_wf_finished\<close>)
    then show ?thesis using r by simp
  qed
qed

text \<open>On a well-formed table the path migration has nothing left to do.\<close>

lemma migrate_paths_wf: "(\<And>u. u \<in> set us \<Longrightarrow> row_wf u) \<Longrightarrow> migrate_paths env us = Inr us' \<Longrightarrow> us' = us"
proof (induction us arbitrary: us')
  case (Cons u us)
  obtain k a xs where k: "normalizeUploadPath env (su_id u) (su_path u) = Inr (k, a)" "migrate_paths env us = Inr xs" "us' = u\<lparr>su_path := k\<rparr> # xs"
    using Cons.prems(2) by (auto split: sum.splits prod.splits)
  have "k = su_path u" using wf_path [of u] Cons.prems(1) valid_key_unchanged k(1) by (auto simp: normalizeUploadPath_def)
  then show ?case using Cons k by simp
qed simp

lemma migrate_same: "uploads_wf db \<Longrightarrow> snd (migrateStorageUploadPaths env db) = db"
  using migrate_paths_wf [of "suploads db" env] by (auto simp: uploads_wf_def migrateStorageUploadPaths_def split: sum.splits)

lemma session_ops_uploads:
  "suploads (snd (PrepareDownloadSession s db)) = suploads db" "suploads (snd (ActivateDownloadSession i db)) = suploads db"
  "suploads (snd (UpdateDownloadProgress i n db)) = suploads db" "suploads (snd (HeartbeatDownloadSession i n now db)) = suploads db"
  "suploads (snd (CancelDownloadSession i db)) = suploads db"
  by (auto simp: PrepareDownloadSession_def ActivateDownloadSession_def UpdateDownloadProgress_def HeartbeatDownloadSession_def
      CancelDownloadSession_def Let_def split: option.splits)

lemma queue_uploads: "suploads (snd (queueDownloadSettlement clock i n now mode db)) = suploads db"
proof -
  obtain r db' where r: "queueDownloadSettlement clock i n now mode db = (r, db')" by fastforce
  then show ?thesis by (cases rule: settle_cases) (use r mark_settle_events in auto)
qed

lemma recover_uploads:
  "suploads (snd (RecoverDownloadSessions clock now n db)) = suploads db" "suploads (snd (RecoverStaleDownloadSessions clock now stale hard n db)) = suploads db"
  using recover_run [of "\<lambda>a b. suploads b = suploads a" clock now] queue_uploads by auto

lemma outbox_ops_uploads:
  "suploads (snd (ClaimOutbox tok now until m db)) = suploads db" "suploads (snd (RetryClaimedOutbox ev now nxt err db)) = suploads db"
  "suploads (snd (ResetOutboxClaims now db)) = suploads db" "suploads (snd (AckClaimedOutbox ev now db)) = suploads db"
  "suploads (snd (DeadLetterClaimedOutbox ev at st err db)) = suploads db" "suploads (snd (ReplayDeadLetters now m db)) = suploads db"
proof -
  show "suploads (snd (ClaimOutbox tok now until m db)) = suploads db" "suploads (snd (RetryClaimedOutbox ev now nxt err db)) = suploads db"
    "suploads (snd (ResetOutboxClaims now db)) = suploads db"
    by (auto simp: ClaimOutbox_def RetryClaimedOutbox_def ResetOutboxClaims_def release_claim_def Let_def)
  obtain r db' where r: "AckClaimedOutbox ev now db = (r, db')" by fastforce
  then show "suploads (snd (AckClaimedOutbox ev now db)) = suploads db" by (cases rule: ack_cases) (use r in simp_all)
  obtain r db' where r: "DeadLetterClaimedOutbox ev at st err db = (r, db')" by fastforce
  then show "suploads (snd (DeadLetterClaimedOutbox ev at st err db)) = suploads db" by (cases rule: dead_letter_cases) (use r in simp_all)
  have "suploads (fold (replay_one now) rs db) = suploads db" for rs by (induction rs arbitrary: db) simp_all
  then show "suploads (snd (ReplayDeadLetters now m db)) = suploads db" by (simp add: ReplayDeadLetters_def Let_def)
qed

lemmas other_uploads = session_ops_uploads queue_uploads recover_uploads outbox_ops_uploads

lemma delete_wf: "uploads_wf db \<Longrightarrow> uploads_wf (snd (storage_DeleteUpload i db))"
  using keyed_delete by (auto simp: storage_DeleteUpload_def uploads_wf_def) (simp add: sql_delete_def)

lemma exec_wf: "uploads_wf db \<Longrightarrow> uploads_wf (exec_op env op db)"
  by (cases op) (simp_all add: reserve_wf small_upload_ops_wf mark_pending_wf claim_pending_wf complete_wf delete_wf migrate_same
      uploads_wf_same [OF _ other_uploads(1)] uploads_wf_same [OF _ other_uploads(2)] uploads_wf_same [OF _ other_uploads(3)]
      uploads_wf_same [OF _ other_uploads(4)] uploads_wf_same [OF _ other_uploads(5)] uploads_wf_same [OF _ other_uploads(6)]
      uploads_wf_same [OF _ other_uploads(7)] uploads_wf_same [OF _ other_uploads(8)] uploads_wf_same [OF _ other_uploads(9)]
      uploads_wf_same [OF _ other_uploads(10)] uploads_wf_same [OF _ other_uploads(11)] uploads_wf_same [OF _ other_uploads(12)]
      uploads_wf_same [OF _ other_uploads(13)] uploads_wf_same [OF _ other_uploads(14)])

lemma reachable_wf: "reachable_store env s \<Longrightarrow> uploads_wf (fst s)"
proof -
  assume "reachable_store env s"
  then obtain ops where r: "store_run env (empty_store, {}) ops s" by (auto simp: reachable_store_def)
  have "store_run env s0 ops s \<Longrightarrow> uploads_wf (fst s0) \<Longrightarrow> uploads_wf (fst s)" for s0
    by (induction rule: store_run.induct) (auto simp: exec_wf elim!: store_step.cases)
  then show ?thesis using r by (simp add: uploads_wf_def empty_store_def keyed_def)
qed

text \<open>C26. The upload table is well-typed in every state the store can reach: identifiers are unique and
  valid; the status of a row fixes the file its path names (the partial file while uploading, the
  quarantined file until the verdict, the object when clean, nothing when blocked); only scans that
  run have a lease; rows past the upload are complete, and no offset exceeds its length.\<close>

theorem upload_rows_well_formed:
  assumes "reachable_store env (db, held)"
  shows "distinct (map su_id (suploads db)) \<and> (\<forall>u \<in> set (suploads db). row_wf u)"
  using reachable_wf [OF assms] by (simp add: uploads_wf_def keyed_def)

section \<open>Rows stay\<close>

lemma claim_scans_keep:
  "claim_scans now until cs got db = (r, db') \<Longrightarrow> u \<in> set (suploads db) \<Longrightarrow> \<not> scan_claimable now u \<Longrightarrow> u \<in> set (suploads db')"
  by (induction now until cs got db rule: claim_scans.induct) (auto simp: Let_def intro!: sql_update_keep)

lemma claim_pending_keep:
  assumes "u \<in> set (suploads db)" "\<not> scan_claimable now u"
  shows "u \<in> set (suploads (snd (ClaimPendingScans env ids now until n db)))"
proof -
  obtain r db' where r: "ClaimPendingScans env ids now until n db = (r, db')" by fastforce
  then show ?thesis by (cases rule: claim_pending_cases) (use assms r claim_scans_keep in auto)
qed

lemma reserve_keep: "u \<in> set (suploads db) \<Longrightarrow> u \<in> set (suploads (snd (ReserveUpload env req db)))"
proof -
  assume u: "u \<in> set (suploads db)"
  obtain r db' where r: "ReserveUpload env req db = (r, db')" by fastforce
  then show ?thesis by (cases rule: reserve_upload_cases) (use u r in auto)
qed

lemma mark_pending_keep:
  assumes "u \<in> set (suploads db)" "su_status u \<noteq> StorageUploading"
  shows "u \<in> set (suploads (snd (MarkPendingScan env i p db)))"
proof -
  obtain r db' where r: "MarkPendingScan env i p db = (r, db')" by fastforce
  then show ?thesis by (cases rule: mark_pending_cases) (use assms r in \<open>auto intro!: sql_update_keep\<close>)
qed

lemma complete_keep:
  assumes "u \<in> set (suploads db)" "\<not> leased i l now u"
  shows "u \<in> set (suploads (snd (CompleteScan env clock i l now st p sha detail ev db)))"
proof -
  obtain r db' where r: "CompleteScan env clock i l now st p sha detail ev db = (r, db')" by fastforce
  then show ?thesis by (cases rule: complete_rows) (use assms r in \<open>auto intro!: sql_update_keep\<close>)
qed

lemma lease_ops_keep:
  assumes "u \<in> set (suploads db)"
  shows "su_status u \<noteq> StorageUploading \<Longrightarrow> u \<in> set (suploads (snd (storage_UpdateUploadOffset i expected nxt db)))"
    "su_status u \<noteq> StorageScanning \<or> su_id u \<noteq> i \<or> su_lease_id u \<noteq> l \<Longrightarrow> u \<in> set (suploads (snd (ReleaseScanClaim i l db)))"
    "\<not> leased i l now u \<Longrightarrow> u \<in> set (suploads (snd (RenewScanLease i l now until db)))"
  using assms by (auto simp: storage_UpdateUploadOffset_def ReleaseScanClaim_def RenewScanLease_def Let_def intro!: sql_update_keep)

lemma delete_keep:
  assumes "u \<in> set (suploads db)" "su_id u \<noteq> i \<or> HasActiveDownloadSessions i db"
  shows "u \<in> set (suploads (snd (storage_DeleteUpload i db)))"
  using assms by (auto simp: storage_DeleteUpload_def sql_delete_def)

definition ends_lease :: "store_op \<Rightarrow> storage_upload \<Rightarrow> bool" where
  "ends_lease op u = (case op of
     DoReleaseScan i l \<Rightarrow> su_id u = i \<and> su_lease_id u = l
   | DoRenewScan i l now until \<Rightarrow> su_id u = i \<and> su_lease_id u = l
   | DoCompleteScan clock i l now st p sha detail ev \<Rightarrow> su_id u = i \<and> su_lease_id u = l
   | DoClaimScans ids now until n \<Rightarrow> su_lease_until u \<le> now
   | _ \<Rightarrow> False)"

lemma exec_keeps_row:
  assumes wf: "uploads_wf db" and u: "u \<in> set (suploads db)" "su_status u \<noteq> StorageUploading" "su_status u \<noteq> PendingScan"
    and lease: "su_status u = StorageScanning \<Longrightarrow> \<not> ends_lease op u"
    and del: "op = DoDeleteUpload (su_id u) \<Longrightarrow> HasActiveDownloadSessions (su_id u) db"
  shows "u \<in> set (suploads (exec_op env op db))"
proof (cases op)
  case (DoClaimScans ids now until n)
  then have "\<not> scan_claimable now u" using lease u(3) by (auto simp: ends_lease_def scan_claimable_def)
  then show ?thesis using DoClaimScans claim_pending_keep [OF u(1)] by simp
next
  case (DoReleaseScan i l)
  then show ?thesis using lease lease_ops_keep(2) [OF u(1), of i l] by (auto simp: ends_lease_def)
next
  case (DoRenewScan i l now until)
  then have "\<not> leased i l now u" using lease by (auto simp: ends_lease_def leased_def)
  then show ?thesis using DoRenewScan lease_ops_keep(3) [OF u(1)] by simp
next
  case (DoCompleteScan clock i l now st p sha detail ev)
  then have "\<not> leased i l now u" using lease by (auto simp: ends_lease_def leased_def)
  then show ?thesis using DoCompleteScan complete_keep [OF u(1)] by simp
next
  case (DoDeleteUpload i)
  then show ?thesis using del delete_keep [OF u(1), of i] by auto
qed (simp_all add: u reserve_keep mark_pending_keep lease_ops_keep(1) migrate_same [OF wf] other_uploads)

lemma has_active_iff: "HasActiveDownloadSessions i db \<longleftrightarrow> (\<exists>d \<in> set (downloads db). ds_upload_id d = i)"
proof -
  have "ds_status d = BeginPending \<or> ds_status d = Streaming \<or> ds_status d = SettlePending" for d :: download_session by (cases "ds_status d") simp_all
  then have "(\<lambda>d. ds_upload_id d = i \<and> (ds_status d = BeginPending \<or> ds_status d = Streaming \<or> ds_status d = SettlePending)) = (\<lambda>d :: download_session. ds_upload_id d = i)"
    by (intro ext) blast
  then have "HasActiveDownloadSessions i db \<longleftrightarrow> sql_count (\<lambda>d. ds_upload_id d = i) (downloads db) \<noteq> 0" by (simp add: HasActiveDownloadSessions_def)
  then show ?thesis by (simp add: sql_count_0_iff)
qed

text \<open>C27. A verdict is final and a served file stays. Once an upload is clean, blocked or quarantined by
  a scanner error, no operation changes its row; only its deletion removes it, and the store refuses
  the deletion while a download session of the upload is pending, streaming or unsettled.\<close>

theorem verdicts_are_final:
  assumes "reachable_store env (db, held)" "store_step env (db, held) op (db', held')"
    and "u \<in> set (suploads db)" "su_status u \<in> {Clean, StorageBlocked, ScannerError}"
  shows "u \<in> set (suploads db') \<or> op = DoDeleteUpload (su_id u) \<and> (\<forall>d \<in> set (downloads db). ds_upload_id d \<noteq> su_id u)"
proof -
  have db': "db' = exec_op env op db" using assms(2) by (auto elim: store_stepE)
  have "su_status u \<noteq> StorageUploading" "su_status u \<noteq> PendingScan" "su_status u \<noteq> StorageScanning" using assms(4) by auto
  then have "u \<in> set (suploads db')" if "op = DoDeleteUpload (su_id u) \<Longrightarrow> HasActiveDownloadSessions (su_id u) db"
    using exec_keeps_row [OF _ assms(3), of op env] that reachable_wf [OF assms(1)] db' by simp
  then show ?thesis unfolding has_active_iff by blast
qed

section \<open>Leases\<close>

lemma claim_scans_ids: "claim_scans now until cs got db = (r, db') \<Longrightarrow> su_id ` set r \<subseteq> su_id ` set got \<union> su_id ` fst ` set cs"
proof (induction now until cs got db rule: claim_scans.induct)
  case (2 now until candidate leaseID cs claimed db)
  then have "su_id ` set r \<subseteq> su_id ` set (claimed @ [candidate]) \<union> su_id ` fst ` set cs" by (auto simp: Let_def split: if_splits)
  then show ?case by auto
qed simp

lemma collect_ids: "collectUploads env us = Inr xs \<Longrightarrow> map su_id xs = map su_id us"
proof (induction us arbitrary: xs)
  case (Cons u us)
  then obtain x ys where "scanUpload env u = Inr x" "collectUploads env us = Inr ys" "xs = x # ys" by (auto split: sum.splits)
  moreover from this(1) have "su_id x = su_id u" by (auto simp: scanUpload_def split: sum.splits prod.splits)
  ultimately show ?case using Cons.IH by simp
qed simp

lemma claimed_ids:
  assumes "ClaimPendingScans env ids now until n db = (Inr claimed, db')" "x \<in> set claimed"
  shows "\<exists>u \<in> set (suploads db). su_id u = su_id x \<and> scan_claimable now u"
  using assms(1)
proof (cases rule: claim_pending_cases)
  case (2 cs claimed')
  have "su_id x \<in> su_id ` fst ` set (zip cs ids)" using claim_scans_ids [OF 2(2)] 2(3) assms(2) by auto
  then have "su_id x \<in> set (map su_id cs)" by (auto dest: set_zip_leftD)
  then have "su_id x \<in> set (map su_id (take (nat n) (by_expiry (filter (scan_claimable now) (suploads db)))))" using collect_ids [OF 2(1)] by simp
  then have "su_id x \<in> su_id ` set (by_expiry (filter (scan_claimable now) (suploads db)))" using set_take_subset by fastforce
  then show ?thesis by (auto simp: by_expiry_def)
qed simp

text \<open>C28. A running scan belongs to one worker. While the lease of a row has not run out, no operation
  changes the row except a release, renewal or completion that presents the row's own lease
  identifier, or the deletion of the upload; and a claim hands the upload to nobody else.\<close>

theorem scan_lease_exclusive:
  assumes "reachable_store env (db, held)" "store_step env (db, held) op (db', held')"
    and "u \<in> set (suploads db)" "su_status u = StorageScanning"
  shows "(u \<in> set (suploads db') \<or> ends_lease op u \<or> op = DoDeleteUpload (su_id u)) \<and>
    (\<forall>ids now until n claimed db''. now < su_lease_until u \<and> ClaimPendingScans env ids now until n db = (Inr claimed, db'') \<longrightarrow>
       su_id u \<notin> su_id ` set claimed)"
proof -
  have db': "db' = exec_op env op db" using assms(2) by (auto elim: store_stepE)
  have wf: "uploads_wf db" using reachable_wf [OF assms(1)] by simp
  have "u \<in> set (suploads db') \<or> ends_lease op u \<or> op = DoDeleteUpload (su_id u)"
    using exec_keeps_row [OF wf assms(3), of op env] assms(4) db' by auto
  moreover have "su_id u \<notin> su_id ` set claimed"
    if free: "now < su_lease_until u" and claim: "ClaimPendingScans env ids now until n db = (Inr claimed, db'')" for ids now until n claimed db''
  proof
    assume "su_id u \<in> su_id ` set claimed"
    then obtain v where v: "v \<in> set (suploads db)" "su_id v = su_id u" "scan_claimable now v" using claimed_ids [OF claim] by fastforce
    then have "v = u" using wf assms(3) by (auto simp: uploads_wf_def dest: keyed_unique)
    then show False using v(3) assms(4) free by (simp add: scan_claimable_def)
  qed
  ultimately show ?thesis by blast
qed

section \<open>An upload from its reservation to its verdict\<close>

definition demo_upload :: storage_upload where
  "demo_upload = \<lparr>su_id = ''abcdefgh'', su_token_hash = ''h'', su_original_name = ''a.txt'', su_content_type = ''text/plain'', su_length = 4,
     su_offset = 0, su_status = StorageUploading, su_path = ''tmp/abcdefgh.part'', su_sha256 = '''', su_scan_detail = '''', su_expires_at = 100,
     su_lease_until = 0, su_lease_id = ''''\<rparr>"

definition scan_ops :: "store_op list" where
  "scan_ops = [DoReserve demo_upload, DoOffset ''abcdefgh'' 0 4, DoMarkPendingScan ''abcdefgh'' ''/data/quarantine/abcdefgh.blob'',
     DoClaimScans [''L''] 10 20 1]"

definition complete_event :: outbox_event where
  "complete_event = demo_event\<lparr>ob_event_key := ''upload-complete:abcdefgh''\<rparr>"

definition verdict_op :: store_op where
  "verdict_op = DoCompleteScan 12 ''abcdefgh'' ''L'' 12 Clean ''/data/objects/abcdefgh.blob'' ''sha'' ''ok'' complete_event"

definition scan_row :: storage_upload where
  "scan_row = demo_upload\<lparr>su_offset := 4, su_status := StorageScanning, su_path := ''quarantine/abcdefgh.blob'', su_lease_until := 20, su_lease_id := ''L''\<rparr>"

definition scan_state :: "sdb \<times> outbox_event set" where
  "scan_state = (empty_store\<lparr>suploads := [scan_row]\<rparr>, {})"

definition clean_row :: storage_upload where
  "clean_row = demo_upload\<lparr>su_offset := 4, su_status := Clean, su_path := ''objects/abcdefgh.blob'', su_sha256 := ''sha'', su_scan_detail := ''ok''\<rparr>"

definition clean_state :: "sdb \<times> outbox_event set" where
  "clean_state = (fst scan_state\<lparr>suploads := [clean_row], outbox := [complete_event\<lparr>ob_claim_token := '''', ob_claim_until := 0\<rparr>], outbox_seq := 1\<rparr>, {})"

lemma scan_reachable: "reachable_store demo_env scan_state" "reachable_store demo_env clean_state"
proof -
  have "exec_run demo_env scan_ops (empty_store, {}) = Some scan_state" by code_simp
  then show r: "reachable_store demo_env scan_state" unfolding reachable_store_def using exec_run_sound by blast
  have "exec_run demo_env [verdict_op] scan_state = Some clean_state" by code_simp
  then show "reachable_store demo_env clean_state" using reachable_run [OF r] exec_run_sound by blast
qed

theorem upload_rows_well_formed_witness: "row_wf clean_row"
proof -
  have reach: "reachable_store demo_env (fst clean_state, snd clean_state)" using scan_reachable(2) by simp
  have "clean_row \<in> set (suploads (fst clean_state))" by code_simp
  then show ?thesis using upload_rows_well_formed [OF reach] by blast
qed

theorem verdicts_are_final_witness:
  "clean_row \<in> set (suploads (exec_op demo_env (DoClaimScans [''M''] 11 21 1) (fst clean_state)))"
proof -
  have reach: "reachable_store demo_env (fst clean_state, snd clean_state)" using scan_reachable(2) by simp
  have "clean_row \<in> set (suploads (fst clean_state))" "su_status clean_row \<in> {Clean, StorageBlocked, ScannerError}"
    "allowed (DoClaimScans [''M''] 11 21 1) (fst clean_state) (snd clean_state)" by code_simp+
  then show ?thesis using verdicts_are_final [OF reach step, of "DoClaimScans [''M''] 11 21 1" clean_row] by blast
qed

theorem scan_lease_exclusive_witness:
  "scan_row \<in> set (suploads (exec_op demo_env (DoReleaseScan ''abcdefgh'' ''M'') (fst scan_state))) \<and>
   fst (ClaimPendingScans demo_env [''M''] 11 21 1 (fst scan_state)) = Inr []"
proof -
  have reach: "reachable_store demo_env (fst scan_state, snd scan_state)" using scan_reachable(1) by simp
  have "scan_row \<in> set (suploads (fst scan_state))" "su_status scan_row = StorageScanning"
    "allowed (DoReleaseScan ''abcdefgh'' ''M'') (fst scan_state) (snd scan_state)" "\<not> ends_lease (DoReleaseScan ''abcdefgh'' ''M'') scan_row"
    "fst (ClaimPendingScans demo_env [''M''] 11 21 1 (fst scan_state)) = Inr []" by code_simp+
  then show ?thesis using scan_lease_exclusive [OF reach step, of "DoReleaseScan ''abcdefgh'' ''M''" scan_row] by blast
qed

end
