(* ===== verification/Scanner.thy ===== *)
theory Scanner
  imports Go_Library
begin

text \<open>
  The file scanner (scanner.go). A file is read in chunks of any size; the signature guard keeps the
  end of what it has read, so that a signature split between two chunks is found. The digest
  (\<open>sha256\<close>, on the bytes written to the hasher) and the Defender command are parameters; finding the
  command on disk and its probe file are left out.
\<close>

section \<open>Definitions\<close>

definition eicarSignature :: string where
  "eicarSignature = ''EICAR-STANDARD-ANTIVIRUS-TEST-FILE''"

record ScanResult =
  sr_clean :: bool
  sr_sha256 :: string
  sr_engine :: string
  sr_detail :: string

record scanner =
  sc_mode :: string
  sc_defenderPath :: string
  sc_defenderReady :: bool

definition NewScanner :: "string \<Rightarrow> string \<Rightarrow> scanner" where
  "NewScanner found mode =
     \<lparr>sc_mode = mode, sc_defenderPath = (if mode = ''signature'' then '''' else found), sc_defenderReady = False\<rparr>"

definition scanner_Name :: "scanner \<Rightarrow> string" where
  "scanner_Name sc =
     (if sc_mode sc = ''disabled'' then ''disabled''
      else if sc_defenderReady sc then ''Microsoft Defender + signature guard'' else ''built-in signature guard'')"

definition ProductionReady :: "scanner \<Rightarrow> bool" where
  "ProductionReady sc \<longleftrightarrow> sc_defenderReady sc \<and> sc_mode sc \<noteq> ''disabled''"

text \<open>\<open>probed\<close> is whether the probe file could be written and the command accepted it.\<close>

definition Probe :: "bool \<Rightarrow> scanner \<Rightarrow> unit result \<times> scanner" where
  "Probe probed sc =
     (if sc_mode sc = ''disabled'' \<or> sc_mode sc = ''signature'' then (Inr (), sc)
      else if sc_defenderPath sc = '''' \<or> \<not> probed then (Inl ErrOther, sc)
      else (Inr (), sc\<lparr>sc_defenderReady := True\<rparr>))"

text \<open>\<^verbatim>\<open>bytes.Contains\<close>.\<close>

fun Contains :: "string \<Rightarrow> string \<Rightarrow> bool" where
  "Contains [] p = (p = [])"
| "Contains (c # s) p = (take (length p) (c # s) = p \<or> Contains s p)"

record scan_state =
  ss_hashed :: string
  ss_carry :: string
  ss_malicious :: bool

definition scan_chunk :: "string \<Rightarrow> scan_state \<Rightarrow> scan_state" where
  "scan_chunk chunk st =
     (if chunk = '''' then st
      else let combined = ss_carry st @ chunk;
               keep = min (length eicarSignature - 1) (length combined)
           in \<lparr>ss_hashed = ss_hashed st @ chunk, ss_carry = drop (length combined - keep) combined,
               ss_malicious = (ss_malicious st \<or> Contains combined eicarSignature)\<rparr>)"

definition scan_start :: scan_state where
  "scan_start = \<lparr>ss_hashed = '''', ss_carry = '''', ss_malicious = False\<rparr>"

text \<open>What the reads of an open file deliver: chunks, and in the end the end of the file or an error.\<close>

datatype read_end = EndOfFile | ReadFailed

definition truncateText :: "string \<Rightarrow> nat \<Rightarrow> string" where
  "truncateText value n = (if length value \<le> n then value else take n value @ bytes_of [0xE2, 0x80, 0xA6])"

definition text_rejected :: string where
  "text_rejected = ''Microsoft Defender rejected or could not scan the file''"

text \<open>\<open>defender\<close> is the outcome of the command: its exit and its output.\<close>

definition scan_verdict :: "(bool \<times> string) \<Rightarrow> scanner \<Rightarrow> bool \<Rightarrow> ScanResult \<Rightarrow> error option \<times> ScanResult" where
  "scan_verdict defender sc malicious result =
     (if malicious then (None, result\<lparr>sr_detail := ''known antivirus test signature detected''\<rparr>)
      else if sc_mode sc = ''disabled''
      then (None, result\<lparr>sr_clean := True, sr_detail := ''scan disabled for local development''\<rparr>)
      else if \<not> ProductionReady sc
      then (if sc_mode sc = ''required'' then (Some ErrOther, result)
            else (None, result\<lparr>sr_clean := True, sr_detail := ''signature guard passed; full antivirus unavailable''\<rparr>))
      else if \<not> fst defender
      then (None, result\<lparr>sr_detail := text_rejected @
              (let trimmed = TrimSpace (snd defender)
               in if trimmed \<noteq> '''' then '': '' @ truncateText trimmed 240 else '''')\<rparr>)
      else (None, result\<lparr>sr_clean := True, sr_detail := ''Microsoft Defender scan passed''\<rparr>))"

definition empty_result :: ScanResult where
  "empty_result = \<lparr>sr_clean = False, sr_sha256 = '''', sr_engine = '''', sr_detail = ''''\<rparr>"

definition Scan ::
  "(string \<Rightarrow> string) \<Rightarrow> (bool \<times> string) \<Rightarrow> scanner \<Rightarrow> (string list \<times> read_end) option \<Rightarrow> error option \<times> ScanResult" where
  "Scan sha256 defender sc file =
     (case file of
        None \<Rightarrow> (Some ErrOther, empty_result)
      | Some (chunks, ReadFailed) \<Rightarrow> (Some ErrOther, empty_result)
      | Some (chunks, EndOfFile) \<Rightarrow>
        (let st = fold scan_chunk chunks scan_start
         in scan_verdict defender sc (ss_malicious st)
              (empty_result\<lparr>sr_sha256 := sha256 (ss_hashed st), sr_engine := scanner_Name sc\<rparr>)))"

section \<open>Searching in chunks\<close>

lemma Contains_iff: "Contains s p \<longleftrightarrow> (\<exists>u v. s = u @ p @ v)"
proof (induction s)
  case (Cons c s)
  have "take (length p) (c # s) = p \<longleftrightarrow> (\<exists>v. c # s = p @ v)"
    by (metis append_eq_conv_conj append_take_drop_id)
  moreover have "(\<exists>u v. c # s = u @ p @ v) \<longleftrightarrow> (\<exists>v. c # s = p @ v) \<or> (\<exists>u v. s = u @ p @ v)"
    by (metis append_Cons append_Nil list.exhaust list.inject)
  ultimately show ?case using Cons by simp
qed simp

lemma Contains_suffix: "Contains (drop n s) p \<Longrightarrow> Contains s p"
  unfolding Contains_iff by (metis append.assoc append_take_drop_id)

lemma Contains_append: "Contains s p \<Longrightarrow> Contains (s @ t) p"
  unfolding Contains_iff by (metis append.assoc)

text \<open>An occurrence that is not in the old part begins in its last bytes.\<close>

lemma Contains_carry:
  assumes p: "p \<noteq> []"
  shows "Contains (w @ c) p \<longleftrightarrow> Contains w p \<or> Contains (drop (length w - (length p - 1)) w @ c) p"
proof
  let ?n = "length w - (length p - 1)"
  assume "Contains (w @ c) p"
  then obtain u v where uv: "w @ c = u @ p @ v" by (auto simp: Contains_iff)
  show "Contains w p \<or> Contains (drop ?n w @ c) p"
  proof (cases "length u + length p \<le> length w")
    case True
    have "w = take (length w) (u @ p @ v)" unfolding uv [symmetric] by simp
    also have "\<dots> = u @ p @ take (length w - length u - length p) v" using True by simp
    finally show ?thesis by (auto simp: Contains_iff)
  next
    case False
    then have n: "?n \<le> length u" using p by (cases p) auto
    have "drop ?n w @ c = drop ?n (w @ c)" by simp
    also have "\<dots> = drop ?n u @ p @ v" unfolding uv using n by simp
    finally show ?thesis by (auto simp: Contains_iff)
  qed
next
  assume "Contains w p \<or> Contains (drop (length w - (length p - 1)) w @ c) p"
  then show "Contains (w @ c) p"
    using Contains_append Contains_suffix [of "length w - (length p - 1)" "w @ c" p] by auto
qed

definition scanned :: "string \<Rightarrow> scan_state \<Rightarrow> bool" where
  "scanned w st \<longleftrightarrow> ss_hashed st = w \<and> ss_carry st = drop (length w - (length eicarSignature - 1)) w \<and>
     ss_malicious st = Contains w eicarSignature"

lemma eicar_nonempty: "eicarSignature \<noteq> []"
  by (simp add: eicarSignature_def)

lemma scan_chunk_scanned:
  assumes "scanned w st" shows "scanned (w @ chunk) (scan_chunk chunk st)"
proof (cases "chunk = ''''")
  case False
  let ?k = "length eicarSignature - 1"
  let ?combined = "drop (length w - ?k) w @ chunk"
  have "drop (length ?combined - min ?k (length ?combined)) ?combined = drop (length (w @ chunk) - ?k) (w @ chunk)"
    by (cases "length w \<le> ?k") (auto simp: min_def add.commute)
  then show ?thesis using assms False Contains_carry [OF eicar_nonempty, of w chunk] by (simp add: scanned_def scan_chunk_def Let_def)
qed (use assms in \<open>simp add: scan_chunk_def\<close>)

lemma fold_scanned: "scanned w st \<Longrightarrow> scanned (w @ concat chunks) (fold scan_chunk chunks st)"
proof (induction chunks arbitrary: w st)
  case (Cons c cs)
  then show ?case using Cons.IH [OF scan_chunk_scanned [OF Cons.prems, of c]] by simp
qed simp

lemma start_scanned: "scanned '''' scan_start"
  by (simp add: scanned_def scan_start_def eicarSignature_def)

section \<open>A scan of the whole file\<close>

definition scan_whole :: "(string \<Rightarrow> string) \<Rightarrow> (bool \<times> string) \<Rightarrow> scanner \<Rightarrow> string \<Rightarrow> error option \<times> ScanResult" where
  "scan_whole sha256 defender sc contents = scan_verdict defender sc (\<exists>u v. contents = u @ eicarSignature @ v)
     \<lparr>sr_clean = False, sr_sha256 = sha256 contents, sr_engine = scanner_Name sc, sr_detail = ''''\<rparr>"

text \<open>C29. The chunks a file is read in do not matter: the scanner answers as if it had searched the
  signature in the whole contents at once and digested the whole contents, also when an occurrence is
  split over any number of reads.\<close>

theorem chunked_scan_is_whole_scan:
  "Scan sha256 defender sc (Some (chunks, EndOfFile)) = scan_whole sha256 defender sc (concat chunks)"
proof -
  have "scanned (concat chunks) (fold scan_chunk chunks scan_start)" using fold_scanned [OF start_scanned] by simp
  then show ?thesis by (simp add: Scan_def scan_whole_def scanned_def Contains_iff empty_result_def Let_def)
qed

end
