(* ===== verification/Storage_Delivery.thy ===== *)
theory Storage_Delivery
  imports Storage_Files Scanner Go_Encoding
begin

text \<open>
  The delivery of outbox events to the control plane (storage_node.go: retryOutbox). What the control
  plane answers to a request is a parameter of each round, as are the clock and the claim token.
\<close>

section \<open>Replies\<close>

text \<open>The reply to a signed request: a failure of the transport, or a status.\<close>

type_synonym reply = "string + int"

datatype send_result = Accepted | HTTPError int | TransportError string

definition sendControl :: "reply \<Rightarrow> send_result" where
  "sendControl reply = (case reply of Inl err \<Rightarrow> TransportError err
     | Inr status \<Rightarrow> if status < 200 \<or> status \<ge> 300 then HTTPError status else Accepted)"

definition storageOutboxBackoff :: "int \<Rightarrow> int" where
  "storageOutboxBackoff attempts = 2 ^ nat (min (max attempts 0) 8)"

definition storageOutboxErrorDetail :: "send_result \<Rightarrow> string" where
  "storageOutboxErrorDetail result = (case result of
     HTTPError status \<Rightarrow> ''control callback returned HTTP '' @ show_int status
   | TransportError err \<Rightarrow> truncateText err 512
   | Accepted \<Rightarrow> '''')"

definition result_status :: "send_result \<Rightarrow> int" where
  "result_status result = (case result of HTTPError status \<Rightarrow> status | _ \<Rightarrow> 0)"

definition event_prefix :: "string \<Rightarrow> string \<Rightarrow> bool" where
  "event_prefix prefx key \<longleftrightarrow> take (length prefx) key = prefx"

definition storageOutboxSemanticTerminal :: "outbox_event \<Rightarrow> int \<Rightarrow> bool" where
  "storageOutboxSemanticTerminal event status =
     (if status \<noteq> 410 then False
      else if event_prefix ''upload-complete:'' (ob_event_key event)
      then let i = drop (length ''upload-complete:'') (ob_event_key event)
           in i \<noteq> '''' \<and> ob_method event = ''POST'' \<and>
              ob_path event = ''/internal/v1/storage/uploads/'' @ PathEscape i @ ''/complete''
      else if event_prefix ''download-settle:'' (ob_event_key event)
      then let i = drop (length ''download-settle:'') (ob_event_key event)
           in i \<noteq> '''' \<and> ob_method event = ''POST'' \<and>
              ob_path event = ''/internal/v1/storage/downloads/'' @ PathEscape i @ ''/settle''
      else False)"

definition storageOutboxPermanentFailure :: "int \<Rightarrow> bool" where
  "storageOutboxPermanentFailure status =
     (if status < 400 \<or> status \<ge> 500 then False
      else \<not> (status = 408 \<or> status = 409 \<or> status = 425 \<or> status = 429))"

definition storageBeginDefinitelyRejected :: "send_result \<Rightarrow> bool" where
  "storageBeginDefinitelyRejected result = (case result of
     HTTPError status \<Rightarrow> status \<ge> 400 \<and> status < 500 \<and> status \<noteq> 408 \<and> status \<noteq> 429
   | _ \<Rightarrow> False)"

section \<open>A delivery run\<close>

datatype settled_as = Acknowledged | Buried | Rescheduled

definition settle_as :: "int \<Rightarrow> outbox_event \<Rightarrow> send_result \<Rightarrow> settled_as" where
  "settle_as maxAttempts event result =
     (if result = Accepted \<or> storageOutboxSemanticTerminal event (result_status result) then Acknowledged
      else if storageOutboxPermanentFailure (result_status result) \<or> ob_attempts event + 1 \<ge> maxAttempts then Buried
      else Rescheduled)"

record delivery_round =
  dr_token :: string
  dr_now :: unix_time
  dr_until :: unix_time
  dr_reply :: "outbox_event \<Rightarrow> reply"
  dr_after :: unix_time

definition settle_event_as :: "settled_as \<Rightarrow> outbox_event \<Rightarrow> send_result \<Rightarrow> unix_time \<Rightarrow> sdb \<Rightarrow> sdb" where
  "settle_event_as d event result now db = (case d of
     Acknowledged \<Rightarrow> snd (AckClaimedOutbox event now db)
   | Buried \<Rightarrow> snd (DeadLetterClaimedOutbox event now (result_status result) (storageOutboxErrorDetail result) db)
   | Rescheduled \<Rightarrow> snd (RetryClaimedOutbox event now (now + storageOutboxBackoff (ob_attempts event))
       (storageOutboxErrorDetail result) db))"

text \<open>One pass of the loop per round; the context ends the list of rounds early. The log names the events
  that were handled and how.\<close>

fun retry_rounds :: "int \<Rightarrow> delivery_round list \<Rightarrow> sdb \<Rightarrow> (outbox_event \<times> settled_as) list \<times> sdb" where
  "retry_rounds maxAttempts [] db = ([], db)"
| "retry_rounds maxAttempts (r # rs) db =
     (case ClaimOutbox (dr_token r) (dr_now r) (dr_until r) 1 db of
        (Inl e, db1) \<Rightarrow> ([], db1)
      | (Inr [], db1) \<Rightarrow> ([], db1)
      | (Inr (event # _), db1) \<Rightarrow>
        (let result = sendControl (dr_reply r event);
             d = settle_as maxAttempts event result;
             (log, db2) = retry_rounds maxAttempts rs (settle_event_as d event result (dr_after r) db1)
         in ((event, d) # log, db2)))"

definition retryOutbox :: "int \<Rightarrow> delivery_round list \<Rightarrow> sdb \<Rightarrow> (outbox_event \<times> settled_as) list \<times> sdb" where
  "retryOutbox maxAttempts rounds db = retry_rounds maxAttempts (take 32 rounds) db"

section \<open>Queues that lose nothing\<close>

text \<open>What a client of the queue may rely on: a claim hands out copies and changes nothing it can see; an
  acknowledgement takes out the content of the copy or nothing; burying moves it; rescheduling keeps it.\<close>

locale delivery_queue =
  fixes inv :: "'s \<Rightarrow> bool" and copy :: "'e \<Rightarrow> 's \<Rightarrow> bool" and posted :: "'s \<Rightarrow> 'k \<Rightarrow> 'c option" and dead :: "'s \<Rightarrow> 'k \<Rightarrow> 'c option"
    and key :: "'e \<Rightarrow> 'k" and body :: "'e \<Rightarrow> 'c"
    and claim :: "'t \<Rightarrow> 's \<Rightarrow> 'e list \<times> 's" and ack :: "'e \<Rightarrow> int \<Rightarrow> 's \<Rightarrow> 's"
    and bury :: "'e \<Rightarrow> 'i \<Rightarrow> 's \<Rightarrow> 's" and retry :: "'e \<Rightarrow> 'j \<Rightarrow> 's \<Rightarrow> 's"
  assumes claim_keeps: "inv s \<Longrightarrow> claim t s = (es, s') \<Longrightarrow> inv s' \<and> posted s' = posted s \<and> dead s' = dead s \<and> (\<forall>e \<in> set es. copy e s')"
    and ack_takes: "inv s \<Longrightarrow> copy e s \<Longrightarrow> inv (ack e n s) \<and> dead (ack e n s) = dead s \<and>
      (posted (ack e n s) = posted s \<or> posted s (key e) = Some (body e) \<and> posted (ack e n s) = (posted s)(key e := None))"
    and bury_moves: "inv s \<Longrightarrow> copy e s \<Longrightarrow> inv (bury e i s) \<and>
      (posted (bury e i s) = posted s \<and> dead (bury e i s) = dead s \<or>
       posted s (key e) = Some (body e) \<and> posted (bury e i s) = (posted s)(key e := None) \<and> dead (bury e i s) = (dead s)(key e \<mapsto> body e))"
    and retry_keeps: "inv s \<Longrightarrow> inv (retry e j s) \<and> posted (retry e j s) = posted s \<and> dead (retry e j s) = dead s"
begin

definition kept_from :: "'s \<Rightarrow> 's \<Rightarrow> ('k \<times> 'c) set \<Rightarrow> bool" where
  "kept_from s s' gone \<longleftrightarrow> (\<forall>k. posted s' k = posted s k \<and> dead s' k = dead s k \<or>
     (\<exists>c. posted s k = Some c \<and> posted s' k = None \<and> (dead s' k = Some c \<or> (k, c) \<in> gone \<and> dead s' k = dead s k)))"

lemma kept_same: "posted s' = posted s \<Longrightarrow> dead s' = dead s \<Longrightarrow> kept_from s s' gone"
  by (simp add: kept_from_def)

lemma kept_trans:
  assumes "kept_from a b g" "kept_from b c h" shows "kept_from a c (g \<union> h)"
  unfolding kept_from_def
proof
  fix k
  show "posted c k = posted a k \<and> dead c k = dead a k \<or>
     (\<exists>x. posted a k = Some x \<and> posted c k = None \<and> (dead c k = Some x \<or> (k, x) \<in> g \<union> h \<and> dead c k = dead a k))"
  proof (cases "posted b k = posted a k \<and> dead b k = dead a k")
    case True
    then show ?thesis using assms(2) [unfolded kept_from_def, rule_format, of k] by (elim disjE exE conjE) simp_all
  next
    case False
    then obtain x where x: "posted a k = Some x" "posted b k = None" "dead b k = Some x \<or> (k, x) \<in> g \<and> dead b k = dead a k"
      using assms(1) [unfolded kept_from_def, rule_format, of k] by blast
    then have "posted c k = None" "dead c k = dead b k" using assms(2) [unfolded kept_from_def, rule_format, of k] by auto
    then show ?thesis using x by auto
  qed
qed

lemma ack_kept: "inv s \<Longrightarrow> copy e s \<Longrightarrow> kept_from s (ack e n s) {(key e, body e)}"
  using ack_takes [of s e n] by (auto simp: kept_from_def)

lemma bury_kept: "inv s \<Longrightarrow> copy e s \<Longrightarrow> kept_from s (bury e i s) {}"
  using bury_moves [of s e i] by (auto simp: kept_from_def)

lemma retry_kept: "inv s \<Longrightarrow> kept_from s (retry e j s) {}"
  using retry_keeps [of s e j] by (simp add: kept_from_def)

text \<open>After a claim, whichever way the event is settled, only an acknowledgement removes content, and only
  the content that was handed out.\<close>

lemma claim_and_settle:
  assumes "inv s" "claim t s = (e # es, s')"
    and "s'' = ack e n s' \<and> gone = {(key e, body e)} \<or> s'' = bury e i s' \<and> gone = {} \<or> s'' = retry e j s' \<and> gone = {}"
  shows "inv s'' \<and> kept_from s s'' gone"
proof -
  have c: "inv s'" "copy e s'" "kept_from s s' {}" using claim_keeps [OF assms(1,2)] by (auto intro: kept_same)
  have "inv s'' \<and> kept_from s' s'' gone"
    using assms(3) ack_kept [OF c(1,2), of n] bury_kept [OF c(1,2), of i] retry_kept [OF c(1), of e j]
      ack_takes [OF c(1,2), of n] bury_moves [OF c(1,2), of i] retry_keeps [OF c(1), of e j] by auto
  then show ?thesis using kept_trans [OF c(3), of s'' gone] by simp
qed

end

section \<open>The outbox is such a queue\<close>

definition claim_one :: "string \<times> unix_time \<times> unix_time \<Rightarrow> sdb \<Rightarrow> outbox_event list \<times> sdb" where
  "claim_one t db = (case t of (token, now, until) \<Rightarrow>
     (case ClaimOutbox token now until 1 db of (Inl _, db') \<Rightarrow> ([], db') | (Inr es, db') \<Rightarrow> (es, db')))"

definition bury_event :: "outbox_event \<Rightarrow> unix_time \<times> int \<times> string \<Rightarrow> sdb \<Rightarrow> sdb" where
  "bury_event e i db = (case i of (at, st, err) \<Rightarrow> snd (DeadLetterClaimedOutbox e at st err db))"

definition reschedule_event :: "outbox_event \<Rightarrow> unix_time \<times> unix_time \<times> string \<Rightarrow> sdb \<Rightarrow> sdb" where
  "reschedule_event e j db = (case j of (now, nxt, err) \<Rightarrow> snd (RetryClaimedOutbox e now nxt err db))"

lemma claim_one_keeps:
  assumes "outbox_inv db" "claim_one t db = (es, db')"
  shows "outbox_inv db' \<and> mail db' = mail db \<and> buried db' = buried db \<and> (\<forall>e \<in> set es. event_copy e db')"
proof -
  obtain token now until where t: "t = (token, now, until)" by (cases t) auto
  have db': "db' = snd (ClaimOutbox token now until 1 db)" using assms(2) by (auto simp: claim_one_def t split: prod.splits sum.splits)
  have b: "bookkeeping db db'" unfolding db' by (rule claim_bookkeeping)
  have "e \<in> set (outbox db')" if "e \<in> set es" for e
    using that assms(2) by (auto simp: claim_one_def t ClaimOutbox_def Let_def by_due_def split: if_splits)
  then show ?thesis using bookkeeping_mail(1-3) [OF b] assms(1) fresh_copy by blast
qed

lemma ack_takes_copy:
  assumes "outbox_inv db" "event_copy e db"
  shows "let db' = snd (AckClaimedOutbox e n db) in outbox_inv db' \<and> buried db' = buried db \<and>
    (mail db' = mail db \<or> mail db (ob_event_key e) = Some (content e) \<and> mail db' = (mail db)(ob_event_key e := None))"
proof -
  have inv: "outbox_inv (snd (AckClaimedOutbox e n db))" using move_keeps [OF ack_move, of e "{e}"] assms(1) by (simp add: keeps_copies_def)
  obtain r db' where r: "AckClaimedOutbox e n db = (r, db')" by fastforce
  then show ?thesis
  proof (cases rule: ack_cases)
    case kept
    then show ?thesis using inv r bookkeeping_mail(1,2) by (simp add: Let_def)
  next
    case (taken e')
    show ?thesis using inv r takes_out_mail(1,2) [OF assms taken(1)] buried_cong [OF taken(4)] by (simp add: Let_def)
  qed
qed

lemma bury_moves_copy:
  assumes "outbox_inv db" "event_copy e db"
  shows "let db' = bury_event e i db in outbox_inv db' \<and> (mail db' = mail db \<and> buried db' = buried db \<or>
    mail db (ob_event_key e) = Some (content e) \<and> mail db' = (mail db)(ob_event_key e := None) \<and> buried db' = (buried db)(ob_event_key e \<mapsto> content e))"
proof -
  obtain at st err where i: "i = (at, st, err)" by (cases i) auto
  have inv: "outbox_inv (bury_event e i db)"
    using move_keeps [OF dead_letter_move, of e "{e}"] assms(1) by (simp add: keeps_copies_def i bury_event_def)
  obtain r db' where r: "DeadLetterClaimedOutbox e at st err db = (r, db')" by fastforce
  then show ?thesis
  proof (cases rule: dead_letter_cases)
    case kept
    then show ?thesis using inv r bookkeeping_mail(1,2) by (auto simp: i bury_event_def)
  next
    case (taken e')
    note t = takes_out_mail [OF assms taken(1)]
    have "buried db' = buried (put_dead_letter at st (take 512 err) e' db)" by (rule buried_cong) (simp add: taken(5))
    then show ?thesis using inv r t by (simp add: i bury_event_def buried_put Let_def)
  qed
qed

lemma reschedule_keeps: "outbox_inv db \<Longrightarrow> outbox_inv (reschedule_event e j db) \<and> mail (reschedule_event e j db) = mail db \<and> buried (reschedule_event e j db) = buried db"
  using bookkeeping_mail(1-3) [OF retry_bookkeeping] by (auto simp: reschedule_event_def split: prod.splits)

interpretation outbox: delivery_queue outbox_inv event_copy mail buried ob_event_key content claim_one
  "\<lambda>e n db. snd (AckClaimedOutbox e n db)" bury_event reschedule_event
  using claim_one_keeps ack_takes_copy bury_moves_copy reschedule_keeps by unfold_locales (auto simp: Let_def)

section \<open>A delivery run loses nothing\<close>

definition acknowledged :: "(outbox_event \<times> settled_as) list \<Rightarrow> (string \<times> string \<times> string \<times> string) set" where
  "acknowledged log = {(ob_event_key e, content e) | e. (e, Acknowledged) \<in> set log}"

lemma acknowledged_Cons:
  "acknowledged ((e, d) # log) = (if d = Acknowledged then {(ob_event_key e, content e)} else {}) \<union> acknowledged log"
  by (auto simp: acknowledged_def)

lemma settled_round:
  assumes "outbox_inv db" "claim_one (token, now, until) db = (e # es, db1)"
  shows "outbox_inv (settle_event_as d e result after db1) \<and>
    outbox.kept_from db (settle_event_as d e result after db1) (if d = Acknowledged then {(ob_event_key e, content e)} else {})"
  by (rule outbox.claim_and_settle [OF assms, where n = after and i = "(after, result_status result, storageOutboxErrorDetail result)"
        and j = "(after, after + storageOutboxBackoff (ob_attempts e), storageOutboxErrorDetail result)"])
    (cases d; simp add: settle_event_as_def bury_event_def reschedule_event_def)

lemma retry_rounds_kept:
  assumes "outbox_inv db" "retry_rounds maxAttempts rs db = (log, db')"
  shows "outbox_inv db' \<and> outbox.kept_from db db' (acknowledged log) \<and>
    (\<forall>(e, d) \<in> set log. \<exists>r \<in> set rs. d = settle_as maxAttempts e (sendControl (dr_reply r e)))"
  using assms
proof (induction rs arbitrary: db log)
  case Nil
  then show ?case by (auto intro: outbox.kept_same)
next
  case (Cons r rs)
  let ?t = "(dr_token r, dr_now r, dr_until r)"
  obtain q db1 where q: "ClaimOutbox (dr_token r) (dr_now r) (dr_until r) 1 db = (q, db1)" by fastforce
  show ?case
  proof (cases "fst (claim_one ?t db)")
    case Nil
    then have "log = []" "db' = db1" "claim_one ?t db = ([], db1)"
      using Cons.prems(2) q by (auto simp: claim_one_def split: sum.splits)
    then show ?thesis using claim_one_keeps [OF Cons.prems(1)] by (auto intro: outbox.kept_same)
  next
    case (Cons e es)
    define d where "d = settle_as maxAttempts e (sendControl (dr_reply r e))"
    define db2 where "db2 = settle_event_as d e (sendControl (dr_reply r e)) (dr_after r) db1"
    have c: "q = Inr (e # es)" "claim_one ?t db = (e # es, db1)" using Cons q by (auto simp: claim_one_def split: sum.splits)
    obtain log' where log: "retry_rounds maxAttempts rs db2 = (log', db')" "log = (e, d) # log'"
      using Cons.prems(2) q c(1) by (auto simp: Let_def d_def db2_def split: prod.splits)
    note k = settled_round [OF Cons.prems(1) c(2), of d "sendControl (dr_reply r e)" "dr_after r", folded db2_def]
    have ih: "outbox_inv db' \<and> outbox.kept_from db2 db' (acknowledged log') \<and>
      (\<forall>(e, d) \<in> set log'. \<exists>r \<in> set rs. d = settle_as maxAttempts e (sendControl (dr_reply r e)))"
      using Cons.IH [OF _ log(1)] k by blast
    have "outbox.kept_from db db' (acknowledged log)"
      unfolding log(2) acknowledged_Cons using outbox.kept_trans k ih by blast
    then show ?thesis using ih by (auto simp: log(2) d_def)
  qed
qed

text \<open>C33. A delivery run loses no event. In any state the store can reach, whatever the control plane
  answers and whenever the run is cut off, a content that was waiting in the outbox is still waiting
  afterwards, or is kept as a dead letter, or was acknowledged; and an event is acknowledged, buried or
  rescheduled only as the reply to that event demands.\<close>

theorem delivery_loses_nothing:
  assumes "reachable_store env (db, held)" "retryOutbox maxAttempts rounds db = (log, db')" "mail db k = Some c"
  shows "(mail db' k = Some c \<or> buried db' k = Some c \<or> (\<exists>e. (e, Acknowledged) \<in> set log \<and> ob_event_key e = k \<and> content e = c)) \<and>
    (\<forall>(e, d) \<in> set log. \<exists>r \<in> set rounds. d = settle_as maxAttempts e (sendControl (dr_reply r e)))"
proof -
  have "outbox_inv db" using reachable_ok [OF assms(1)] by (simp add: store_ok_def)
  then have k: "outbox.kept_from db db' (acknowledged log)"
    and r: "\<forall>(e, d) \<in> set log. \<exists>r \<in> set (take 32 rounds). d = settle_as maxAttempts e (sendControl (dr_reply r e))"
    using retry_rounds_kept assms(2) unfolding retryOutbox_def by blast+
  have "mail db' k = Some c \<or> buried db' k = Some c \<or> (k, c) \<in> acknowledged log"
    using assms(3) k unfolding outbox.kept_from_def by (metis option.inject)
  moreover have "\<forall>(e, d) \<in> set log. \<exists>r \<in> set rounds. d = settle_as maxAttempts e (sendControl (dr_reply r e))"
    using r set_take_subset [of 32 rounds] by (auto dest!: subsetD bspec)
  ultimately show ?thesis by (auto simp: acknowledged_def)
qed

definition demo_rounds :: "delivery_round list" where
  "demo_rounds = [\<lparr>dr_token = ''t2'', dr_now = 20, dr_until = 30, dr_reply = (\<lambda>e. Inr 503), dr_after = 21\<rparr>,
     \<lparr>dr_token = ''t3'', dr_now = 40, dr_until = 50, dr_reply = (\<lambda>e. Inr 404), dr_after = 41\<rparr>]"

theorem delivery_loses_nothing_witness:
  "map snd (fst (retryOutbox 10 demo_rounds (fst demo_state))) = [Rescheduled, Buried] \<and>
   (mail (snd (retryOutbox 10 demo_rounds (fst demo_state))) ''download-settle:r1'' = Some (content demo_event) \<or>
    buried (snd (retryOutbox 10 demo_rounds (fst demo_state))) ''download-settle:r1'' = Some (content demo_event))"
proof -
  let ?r = "retryOutbox 10 demo_rounds (fst demo_state)"
  have reach: "reachable_store demo_env (fst demo_state, snd demo_state)" using demo_reachable by simp
  have log: "map snd (fst ?r) = [Rescheduled, Buried]" by code_simp
  have m: "mail (fst demo_state) ''download-settle:r1'' = Some (content demo_event)" by code_simp
  have "(e, Acknowledged) \<notin> set (fst ?r)" for e
  proof
    assume "(e, Acknowledged) \<in> set (fst ?r)"
    then have "Acknowledged \<in> set (map snd (fst ?r))" by force
    then show False unfolding log by simp
  qed
  then show ?thesis using delivery_loses_nothing [OF reach surjective_pairing m, of 10 demo_rounds] log by blast
qed

end
