(* ===== verification/Go_JSON.thy ===== *)
theory Go_JSON
  imports Go_Encoding
begin

text \<open>
  What the handlers of a storage node use of Go's standard library beyond the encodings:
  \<^verbatim>\<open>json.Marshal\<close> of a string, \<^verbatim>\<open>strings.EqualFold\<close> with an ASCII text, \<^verbatim>\<open>strings.ReplaceAll\<close> of one
  byte, \<^verbatim>\<open>strings.TrimRight\<close> and \<^verbatim>\<open>filepath.Base\<close>.
\<close>

section \<open>Strings in JSON\<close>

definition byte_in :: "nat \<Rightarrow> nat \<Rightarrow> string \<Rightarrow> bool" where
  "byte_in lo hi s = (case s of [] \<Rightarrow> False | c # _ \<Rightarrow> lo \<le> of_char c \<and> of_char c \<le> hi)"

text \<open>The number of bytes of the well-formed UTF-8 rune a text starts with, 0 if it starts with none.\<close>

definition rune_length :: "string \<Rightarrow> nat" where
  "rune_length s =
     (let one = drop 1 s; two = drop 2 s; three = drop 3 s; cont = byte_in 0x80 0xBF
      in if byte_in 0 0x7F s then 1
         else if byte_in 0xC2 0xDF s \<and> cont one then 2
         else if (byte_in 0xE0 0xE0 s \<and> byte_in 0xA0 0xBF one \<or> byte_in 0xED 0xED s \<and> byte_in 0x80 0x9F one \<or>
                  (byte_in 0xE1 0xEC s \<or> byte_in 0xEE 0xEF s) \<and> cont one) \<and> cont two then 3
         else if (byte_in 0xF0 0xF0 s \<and> byte_in 0x90 0xBF one \<or> byte_in 0xF1 0xF3 s \<and> cont one \<or>
                  byte_in 0xF4 0xF4 s \<and> byte_in 0x80 0x8F one) \<and> cont two \<and> cont three then 4
         else 0)"

definition json_byte :: "char \<Rightarrow> string" where
  "json_byte c =
     (if c = CHR 0x22 \<or> c = CHR 0x5C then [CHR 0x5C, c]
      else if c = CHR 0x08 then [CHR 0x5C, CHR ''b'']
      else if c = CHR 0x0C then [CHR 0x5C, CHR ''f'']
      else if c = CHR 0x0A then [CHR 0x5C, CHR ''n'']
      else if c = CHR 0x0D then [CHR 0x5C, CHR ''r'']
      else if c = CHR 0x09 then [CHR 0x5C, CHR ''t'']
      else if (of_char c :: nat) < 0x20 \<or> c = CHR ''<'' \<or> c = CHR ''>'' \<or> c = CHR ''&''
      then CHR 0x5C # ''u00'' @ hex_encode [c] else [c])"

function json_text :: "string \<Rightarrow> string" where
  "json_text s =
     (if s = [] then []
      else case rune_length s of
             0 \<Rightarrow> CHR 0x5C # ''ufffd'' @ json_text (drop 1 s)
           | Suc 0 \<Rightarrow> json_byte (hd s) @ json_text (drop 1 s)
           | n \<Rightarrow> (if take n s = [CHR 0xE2, CHR 0x80, CHR 0xA8] then CHR 0x5C # ''u2028''
                   else if take n s = [CHR 0xE2, CHR 0x80, CHR 0xA9] then CHR 0x5C # ''u2029'' else take n s) @
                  json_text (drop n s))"
  by pat_completeness auto
termination by (relation "measure length") auto

declare json_text.simps [simp del]

definition json_string :: "string \<Rightarrow> string" where
  "json_string s = [CHR 0x22] @ json_text s @ [CHR 0x22]"

section \<open>Comparing and cutting text\<close>

text \<open>Simple case folding onto ASCII: the long s and the Kelvin sign fold to letters, other runes
  outside ASCII never do.\<close>

fun fold_ascii :: "string \<Rightarrow> string" where
  "fold_ascii (a # b # s) =
     (if a = CHR 0xC5 \<and> b = CHR 0xBF then CHR ''s'' # fold_ascii s
      else if a = CHR 0xE2 \<and> b = CHR 0x84 \<and> take 1 s = [CHR 0xAA] then CHR ''k'' # fold_ascii (drop 1 s)
      else lower_char a # fold_ascii (b # s))"
| "fold_ascii [a] = [lower_char a]"
| "fold_ascii [] = []"

definition EqualFold :: "string \<Rightarrow> string \<Rightarrow> bool" where
  "EqualFold s t \<longleftrightarrow> fold_ascii s = fold_ascii t"

definition TrimRight :: "string \<Rightarrow> string \<Rightarrow> string" where
  "TrimRight s cutset = rev (dropWhile (\<lambda>c. c \<in> set cutset) (rev s))"

text \<open>\<^verbatim>\<open>filepath.Base\<close>: the last element, without trailing slashes.\<close>

definition path_Base :: "string \<Rightarrow> string" where
  "path_Base p =
     (if p = '''' then ''.''
      else let q = TrimRight p ''/''
           in if q = '''' then ''/'' else last (split_at (CHR ''/'') q))"

end
