(* ===== verification/Storage_Node.thy ===== *)
theory Storage_Node
  imports Storage_Delivery Tickets Go_JSON "HOL-Library.Word"
begin

text \<open>
  The handlers and workers of a storage node that move the bytes of an upload (storage_node.go):
  reservation, chunks, quarantine, scan, promotion, deletion and download. The disk maps the path of
  a regular file to its contents. A system call may fail at any time: \<open>io\<close> says which ones do in a
  call of a handler, and how much of a failing write reaches the disk. The clock, the free space, the
  replies of the control plane and the locks and slots held by other requests are arguments.
\<close>

section \<open>The node and its disk\<close>

type_synonym disk = "string \<rightharpoonup> string"

datatype syscall = Open | Stat | FileTruncate | Seek | FileWrite | Sync | PathTruncate | Rename | Remove | Read

record io =
  io_fails :: "syscall \<Rightarrow> string \<Rightarrow> bool"
  io_written :: nat
  io_reads :: "nat list"

record storage_config =
  cfg_NodeID :: string
  cfg_SharedSecret :: string
  cfg_MaxUploadBytes :: int
  cfg_MaxChunkBytes :: int
  cfg_MinFreeBytes :: "64 word"
  cfg_PublicMode :: bool
  cfg_ScanMode :: string
  cfg_AllowedOrigins :: "string list"

record reserve_request =
  rr_ID :: string
  rr_UploadTokenHash :: string
  rr_OriginalName :: string
  rr_ContentType :: string
  rr_Length :: int
  rr_ExpiresAt :: int

text \<open>What does not change while a node runs. The JSON decoders are parameters.\<close>

record node_setup =
  st_env :: storage_env
  st_cfg :: storage_config
  st_crypto :: crypto
  st_scanner :: scanner
  st_decode_reserve :: "string \<Rightarrow> reserve_request option"
  st_decode_claims :: "string \<Rightarrow> StorageDownloadClaims option"

record node =
  nd_db :: sdb
  nd_disk :: disk
  nd_replay :: replay_guard

record answer =
  an_status :: int
  an_code :: string
  an_headers :: "(string \<times> string) list"

definition writeStorageError :: "int \<Rightarrow> string \<Rightarrow> (string \<times> string) list \<Rightarrow> answer" where
  "writeStorageError status code headers = \<lparr>an_status = status, an_code = code, an_headers = headers\<rparr>"

definition WriteHeader :: "int \<Rightarrow> (string \<times> string) list \<Rightarrow> answer" where
  "WriteHeader status headers = \<lparr>an_status = status, an_code = '''', an_headers = headers\<rparr>"

definition tokenHash :: "crypto \<Rightarrow> string \<Rightarrow> string" where
  "tokenHash cr token = base64_encode (cr_sha256 cr token)"

definition secureEqual :: "crypto \<Rightarrow> string \<Rightarrow> string \<Rightarrow> bool" where
  "secureEqual cr left right \<longleftrightarrow> cr_sha256 cr left = cr_sha256 cr right"

section \<open>Files of an upload\<close>

definition storagePath :: "storage_env \<Rightarrow> string \<Rightarrow> ident \<Rightarrow> string \<Rightarrow> string" where
  "storagePath env directory i extension =
     (case resolveUploadKey env i (storageUploadPathKey directory i extension) of Inl _ \<Rightarrow> '''' | Inr path \<Rightarrow> path)"

abbreviation tmp_path :: "storage_env \<Rightarrow> ident \<Rightarrow> string" where
  "tmp_path env i \<equiv> storagePath env ''tmp'' i ''.part''"

abbreviation quarantine_path :: "storage_env \<Rightarrow> ident \<Rightarrow> string" where
  "quarantine_path env i \<equiv> storagePath env ''quarantine'' i ''.blob''"

abbreviation object_path :: "storage_env \<Rightarrow> ident \<Rightarrow> string" where
  "object_path env i \<equiv> storagePath env ''objects'' i ''.blob''"

definition isGeneratedUploadPath :: "storage_env \<Rightarrow> ident \<Rightarrow> string \<Rightarrow> bool" where
  "isGeneratedUploadPath env i path =
     list_ex (\<lambda>expected. path_Clean path = path_Clean expected) [tmp_path env i, quarantine_path env i, object_path env i]"

text \<open>\<^verbatim>\<open>os.OpenFile\<close> with \<^verbatim>\<open>O_CREATE\<close>, and \<^verbatim>\<open>O_EXCL\<close> for a new reservation.\<close>

definition ensureUploadingFile :: "storage_env \<Rightarrow> io \<Rightarrow> storage_upload \<Rightarrow> bool \<Rightarrow> disk \<Rightarrow> unit result \<times> disk" where
  "ensureUploadingFile env io upload created disk =
     (if su_status upload \<noteq> StorageUploading then (Inr (), disk)
      else let expectedPath = tmp_path env (su_id upload)
           in if path_Clean (su_path upload) \<noteq> path_Clean expectedPath then (Inl ErrOther, disk)
              else if io_fails io Open expectedPath then (Inl ErrOther, disk)
              else case disk expectedPath of
                     Some contents \<Rightarrow>
                       (if created
                        then (if \<not> io_fails io Stat expectedPath \<and> contents = '''' then (Inr (), disk) else (Inl ErrOther, disk))
                        else if io_fails io Stat expectedPath \<or> int (length contents) \<noteq> su_offset upload then (Inl ErrOther, disk)
                        else (Inr (), disk))
                   | None \<Rightarrow>
                       (if io_fails io Stat expectedPath \<or> su_offset upload \<noteq> 0 then (Inl ErrOther, disk(expectedPath \<mapsto> ''''))
                        else (Inr (), disk(expectedPath \<mapsto> ''''))))"

definition writeUploadChunk :: "storage_env \<Rightarrow> io \<Rightarrow> storage_upload \<Rightarrow> string \<Rightarrow> disk \<Rightarrow> unit result \<times> disk" where
  "writeUploadChunk env io upload payload disk =
     (let path = su_path upload
      in if path_Clean path \<noteq> path_Clean (tmp_path env (su_id upload)) then (Inl ErrOther, disk)
         else if io_fails io Open path then (Inl ErrOther, disk)
         else case disk path of
                None \<Rightarrow> (Inl ErrOther, disk)
              | Some contents \<Rightarrow>
                (if io_fails io Stat path \<or> int (length contents) < su_offset upload then (Inl ErrOther, disk)
                 else if int (length contents) > su_offset upload \<and> io_fails io FileTruncate path then (Inl ErrOther, disk)
                 else let kept = take (nat (su_offset upload)) contents
                      in if io_fails io Seek path then (Inl ErrOther, disk(path \<mapsto> kept))
                         else if io_fails io FileWrite path then (Inl ErrOther, disk(path \<mapsto> kept @ take (io_written io) payload))
                         else if io_fails io Sync path then (Inl ErrOther, disk(path \<mapsto> kept @ payload))
                         else (Inr (), disk(path \<mapsto> kept @ payload))))"

text \<open>\<^verbatim>\<open>os.Truncate\<close> also extends a file, with zero bytes.\<close>

definition os_Truncate :: "io \<Rightarrow> string \<Rightarrow> int \<Rightarrow> disk \<Rightarrow> disk" where
  "os_Truncate io path newSize disk =
     (case disk path of
        None \<Rightarrow> disk
      | Some contents \<Rightarrow>
        (if io_fails io PathTruncate path then disk
         else disk(path \<mapsto> take (nat newSize) contents @ replicate (nat newSize - length contents) (CHR 0x00))))"

definition os_Rename :: "io \<Rightarrow> string \<Rightarrow> string \<Rightarrow> disk \<Rightarrow> unit result \<times> disk" where
  "os_Rename io old new disk =
     (case disk old of
        None \<Rightarrow> (Inl ErrOther, disk)
      | Some contents \<Rightarrow> if io_fails io Rename old then (Inl ErrOther, disk) else (Inr (), disk(old := None, new \<mapsto> contents)))"

text \<open>The file part of finalizeCompletedUpload, before the row is marked.\<close>

definition move_to_quarantine :: "storage_env \<Rightarrow> io \<Rightarrow> storage_upload \<Rightarrow> disk \<Rightarrow> unit result \<times> disk" where
  "move_to_quarantine env io upload disk =
     (let quarantinePath = quarantine_path env (su_id upload); tempPath = tmp_path env (su_id upload)
      in if io_fails io Stat quarantinePath then (Inl ErrOther, disk)
         else case disk quarantinePath of
                Some contents \<Rightarrow>
                  (if int (length contents) \<noteq> su_length upload then (Inl ErrOther, disk)
                   else if io_fails io Stat tempPath then (Inl ErrOther, disk)
                   else if disk tempPath \<noteq> None
                   then (if io_fails io Remove tempPath then (Inl ErrOther, disk) else (Inr (), disk(tempPath := None)))
                   else (Inr (), disk))
              | None \<Rightarrow> os_Rename io tempPath quarantinePath disk)"

definition finalizeCompletedUpload :: "storage_env \<Rightarrow> io \<Rightarrow> storage_upload \<Rightarrow> sdb \<times> disk \<Rightarrow> unit result \<times> sdb \<times> disk" where
  "finalizeCompletedUpload env io upload s =
     (case move_to_quarantine env io upload (snd s) of
        (Inl e, disk1) \<Rightarrow> (Inl e, fst s, disk1)
      | (Inr _, disk1) \<Rightarrow>
        (case MarkPendingScan env (su_id upload) (quarantine_path env (su_id upload)) (fst s) of
           (r, db1) \<Rightarrow> (r, db1, disk1)))"

definition resolveScanPath :: "storage_env \<Rightarrow> io \<Rightarrow> disk \<Rightarrow> storage_upload \<Rightarrow> string result" where
  "resolveScanPath env io disk upload =
     (case find (\<lambda>candidate. candidate \<noteq> '''' \<and> isGeneratedUploadPath env (su_id upload) candidate \<and>
          \<not> io_fails io Stat candidate \<and>
          (case disk candidate of None \<Rightarrow> False | Some contents \<Rightarrow> int (length contents) = su_length upload))
        [su_path upload, quarantine_path env (su_id upload), object_path env (su_id upload)] of
        None \<Rightarrow> Inl ErrOther | Some path \<Rightarrow> Inr path)"

fun remove_paths :: "io \<Rightarrow> string list \<Rightarrow> string list \<Rightarrow> disk \<Rightarrow> unit result \<times> disk" where
  "remove_paths io seen [] disk = (Inr (), disk)"
| "remove_paths io seen (path # paths) disk =
     (let path = path_Clean path
      in if path \<in> set seen then remove_paths io seen paths disk
         else if io_fails io Remove path then (Inl ErrOther, disk)
         else remove_paths io (path # seen) paths (disk(path := None)))"

definition removeUploadFiles :: "storage_env \<Rightarrow> io \<Rightarrow> storage_upload \<Rightarrow> disk \<Rightarrow> unit result \<times> disk" where
  "removeUploadFiles env io upload disk =
     (let paths = [tmp_path env (su_id upload), quarantine_path env (su_id upload), object_path env (su_id upload)]
      in if su_path upload \<noteq> ''''
         then (if \<not> isGeneratedUploadPath env (su_id upload) (su_path upload) then (Inl ErrOther, disk)
               else remove_paths io [] (paths @ [su_path upload]) disk)
         else remove_paths io [] paths disk)"

definition removeGeneratedPath :: "storage_env \<Rightarrow> io \<Rightarrow> string \<Rightarrow> disk \<Rightarrow> unit result \<times> disk" where
  "removeGeneratedPath env io path disk =
     (let absolute = path_Clean path
      in if escapes (path_Rel (env_root env) absolute) then (Inl ErrOther, disk)
         else if io_fails io Remove absolute then (Inl ErrOther, disk)
         else (Inr (), disk(absolute := None)))"

section \<open>Admission\<close>

definition storageReservationFits :: "64 word \<Rightarrow> 64 word \<Rightarrow> int \<Rightarrow> int \<Rightarrow> bool" where
  "storageReservationFits freeBytes minimumFree reservedBytes requestedBytes =
     (if reservedBytes < 0 \<or> requestedBytes \<le> 0 \<or> freeBytes \<le> minimumFree then False
      else let available = freeBytes - minimumFree
           in if word_of_int reservedBytes > available then False
              else word_of_int requestedBytes \<le> available - word_of_int reservedBytes)"

text \<open>The requests a source runs at the same time, and those of all sources (the channel of the node).\<close>

record transfer_slots =
  ts_limit :: int
  ts_active :: "string \<Rightarrow> int"
  ts_capacity :: nat
  ts_global :: nat

definition tryAcquire :: "string \<Rightarrow> transfer_slots \<Rightarrow> bool \<times> transfer_slots" where
  "tryAcquire source slots =
     (if ts_active slots source \<ge> ts_limit slots then (False, slots)
      else (True, slots\<lparr>ts_active := (ts_active slots)(source := ts_active slots source + 1)\<rparr>))"

definition source_release :: "string \<Rightarrow> transfer_slots \<Rightarrow> transfer_slots" where
  "source_release source slots =
     slots\<lparr>ts_active := (ts_active slots)(source := (if ts_active slots source \<le> 1 then 0 else ts_active slots source - 1))\<rparr>"

datatype slot_limit = SourceLimit | GlobalLimit

definition acquireTransferSlot :: "string \<Rightarrow> transfer_slots \<Rightarrow> (slot_limit + unit) \<times> transfer_slots" where
  "acquireTransferSlot source slots =
     (case tryAcquire source slots of
        (False, slots1) \<Rightarrow> (Inl SourceLimit, slots1)
      | (True, slots1) \<Rightarrow>
        (if ts_global slots1 < ts_capacity slots1 then (Inr (), slots1\<lparr>ts_global := ts_global slots1 + 1\<rparr>)
         else (Inl GlobalLimit, source_release source slots1)))"

definition releaseSlot :: "string \<Rightarrow> transfer_slots \<Rightarrow> transfer_slots" where
  "releaseSlot source slots = source_release source (slots\<lparr>ts_global := ts_global slots - 1\<rparr>)"

text \<open>One call of a handler: two readings of the clock, the state of the database connection, the free
  space at the health check and later, the locks and slots held by others, and the failing system calls.\<close>

record call =
  ca_now :: unix_time
  ca_later :: unix_time
  ca_ping :: bool
  ca_writable :: bool
  ca_health_free :: "64 word option"
  ca_free :: "64 word option"
  ca_busy :: bool
  ca_source :: string
  ca_slots :: transfer_slots
  ca_io :: io

record StorageHealth =
  h_Status :: string
  h_Ready :: bool
  h_NodeID :: string
  h_Scanner :: string
  h_ProductionScanner :: bool
  h_FreeBytes :: "64 word"
  h_OutboxPending :: int
  h_OutboxOldestDueAt :: unix_time
  h_OutboxOldestPendingAt :: unix_time
  h_OutboxLastError :: string
  h_Version :: string

definition storageOutboxMaxPendingAge :: int where "storageOutboxMaxPendingAge = 300"

definition markUnavailable :: "string \<Rightarrow> StorageHealth \<Rightarrow> StorageHealth" where
  "markUnavailable detail health =
     health\<lparr>h_Status := ''not_ready'', h_Ready := False,
            h_OutboxLastError := (if h_OutboxLastError health = '''' \<and> detail \<noteq> '''' then truncateText detail 512
                                  else h_OutboxLastError health)\<rparr>"

definition healthLive :: "node_setup \<Rightarrow> StorageHealth" where
  "healthLive st =
     \<lparr>h_Status = ''live'', h_Ready = True, h_NodeID = cfg_NodeID (st_cfg st), h_Scanner = scanner_Name (st_scanner st),
      h_ProductionScanner = ProductionReady (st_scanner st), h_FreeBytes = 0, h_OutboxPending = 0, h_OutboxOldestDueAt = 0,
      h_OutboxOldestPendingAt = 0, h_OutboxLastError = '''', h_Version = ''2026.09.01-storage.8''\<rparr>"

definition storageHealth :: "node_setup \<Rightarrow> call \<Rightarrow> sdb \<Rightarrow> StorageHealth" where
  "storageHealth st call db =
     (let health0 = (healthLive st)\<lparr>h_Status := ''ready''\<rparr>
      in if \<not> ca_ping call then markUnavailable ''storage database ping failed'' health0
         else if \<not> ca_writable call then markUnavailable ''storage database is not writable'' health0
         else let (pending, oldestDueAt) = OutboxHealth db;
                  (oldestPendingAt, lastOutboxError) = OutboxReadiness db;
                  health1 = health0\<lparr>h_OutboxPending := pending, h_OutboxOldestDueAt := oldestDueAt,
                     h_OutboxOldestPendingAt := oldestPendingAt, h_OutboxLastError := lastOutboxError\<rparr>;
                  blockingReplays = BlockingReplayCount db;
                  replays = show_int blockingReplays @ '' dead-letter replay event(s) await a successful control callback'';
                  health2 = (if blockingReplays > 0 then markUnavailable replays (health1\<lparr>h_OutboxLastError := replays\<rparr>) else health1);
                  (deadLetters, oldestFailedAt, deadLetterError) = DeadLetterHealth db;
                  detail = truncateText (''storage outbox has '' @ show_int deadLetters @ '' dead-letter event(s); oldest failed at '' @
                     show_int oldestFailedAt @ (if deadLetterError \<noteq> '''' then '': '' @ deadLetterError else '''')) 512;
                  health3 = (if deadLetters > 0 then markUnavailable detail (health2\<lparr>h_OutboxLastError := detail\<rparr>) else health2);
                  freeBytes = (case ca_health_free call of None \<Rightarrow> 0 | Some n \<Rightarrow> n);
                  health4 = health3\<lparr>h_FreeBytes := freeBytes\<rparr>
              in if ca_health_free call = None \<or> freeBytes \<le> cfg_MinFreeBytes (st_cfg st) \<or>
                    ((cfg_PublicMode (st_cfg st) \<or> cfg_ScanMode (st_cfg st) = ''required'') \<and> \<not> h_ProductionScanner health4) \<or>
                    (pending > 0 \<and> oldestPendingAt > 0 \<and> oldestPendingAt \<le> ca_now call - storageOutboxMaxPendingAge)
                 then markUnavailable (h_OutboxLastError health4) health4 else health4)"

definition requireStorageAcceptance :: "node_setup \<Rightarrow> call \<Rightarrow> sdb \<Rightarrow> answer option" where
  "requireStorageAcceptance st call db =
     (if h_Ready (storageHealth st call db) then None
      else Some (writeStorageError 503 ''storage_not_ready'' [(''Retry-After'', ''5'')]))"

section \<open>Requests of an uploader\<close>

record upload_request =
  ur_id :: string
  ur_origin :: string
  ur_preflight_method :: string
  ur_preflight_headers :: string
  ur_authorization :: string
  ur_content_type :: string
  ur_upload_offset :: string
  ur_content_length :: int

text \<open>What the body delivers: a text, a time-out, or another error.\<close>

datatype delivery = Delivered string | TimedOut | Broken

definition applyUploadCORS :: "node_setup \<Rightarrow> upload_request \<Rightarrow> bool \<Rightarrow> answer + (string \<times> string) list" where
  "applyUploadCORS st request preflight =
     (if ur_origin request = ''''
      then (if preflight then Inl (writeStorageError 400 ''origin_required'' []) else Inr [])
      else if ur_origin request \<notin> set (cfg_AllowedOrigins (st_cfg st))
      then Inl (writeStorageError 403 ''origin_not_allowed'' [(''Vary'', ''Origin'')])
      else let headers = [(''Vary'', ''Origin''), (''Access-Control-Allow-Origin'', ur_origin request),
                          (''Access-Control-Expose-Headers'', ''Upload-Offset, Upload-Length, Upload-Status'')];
               meth = map ascii_upper (TrimSpace (ur_preflight_method request));
               names = map (\<lambda>h. ToLower (TrimSpace h)) (split_at (CHR '','') (ur_preflight_headers request))
           in if \<not> preflight then Inr headers
              else if meth \<noteq> ''PATCH'' \<and> meth \<noteq> ''HEAD'' then Inl (writeStorageError 403 ''method_not_allowed'' headers)
              else if list_ex (\<lambda>h. h \<noteq> '''' \<and> h \<notin> set [''authorization'', ''content-type'', ''upload-offset'']) names
              then Inl (writeStorageError 403 ''header_not_allowed'' headers)
              else Inr (headers @ [(''Access-Control-Allow-Methods'', ''OPTIONS, HEAD, PATCH''),
                     (''Access-Control-Allow-Headers'', ''Authorization, Content-Type, Upload-Offset''),
                     (''Access-Control-Max-Age'', ''600'')]))"

definition externalStorageUploadStatus :: "storage_status \<Rightarrow> string" where
  "externalStorageUploadStatus status =
     (case status of PendingScan \<Rightarrow> ''scanning'' | StorageScanning \<Rightarrow> ''scanning'' | Clean \<Rightarrow> ''ready''
      | ScannerError \<Rightarrow> ''quarantined'' | StorageUploading \<Rightarrow> ''uploading'' | StorageBlocked \<Rightarrow> ''blocked'')"

definition setUploadHeaders :: "storage_upload \<Rightarrow> (string \<times> string) list" where
  "setUploadHeaders upload =
     [(''Upload-Offset'', show_int (su_offset upload)), (''Upload-Length'', show_int (su_length upload)),
      (''Upload-Status'', externalStorageUploadStatus (su_status upload))]"

definition authorizedStorageUpload :: "node_setup \<Rightarrow> call \<Rightarrow> upload_request \<Rightarrow> sdb \<Rightarrow> answer + storage_upload" where
  "authorizedStorageUpload st call request db =
     (if \<not> validStorageObjectID (ur_id request) then Inl (writeStorageError 404 ''upload_not_found'' [])
      else case storage_UploadByID (st_env st) (ur_id request) db of
             Inl _ \<Rightarrow> Inl (writeStorageError 404 ''upload_not_found'' [])
           | Inr upload \<Rightarrow>
             (let fields = Fields (ur_authorization request)
              in if length fields \<noteq> 2 \<or> \<not> EqualFold (fields ! 0) ''Bearer'' \<or>
                    \<not> secureEqual (st_crypto st) (tokenHash (st_crypto st) (fields ! 1)) (su_token_hash upload)
                 then Inl (writeStorageError 401 ''invalid_upload_token'' [])
                 else if su_expires_at upload \<le> ca_now call then Inl (writeStorageError 410 ''upload_expired'' [])
                 else Inr upload))"

definition optionsUpload :: "node_setup \<Rightarrow> upload_request \<Rightarrow> answer" where
  "optionsUpload st request = (case applyUploadCORS st request True of Inl a \<Rightarrow> a | Inr headers \<Rightarrow> WriteHeader 204 headers)"

definition headUpload :: "node_setup \<Rightarrow> call \<Rightarrow> upload_request \<Rightarrow> sdb \<Rightarrow> answer" where
  "headUpload st call request db =
     (case applyUploadCORS st request False of
        Inl a \<Rightarrow> a
      | Inr cors \<Rightarrow> (case authorizedStorageUpload st call request db of
                      Inl a \<Rightarrow> a\<lparr>an_headers := cors @ an_headers a\<rparr>
                    | Inr upload \<Rightarrow> WriteHeader 200 (cors @ setUploadHeaders upload)))"

definition readStorageUploadBody :: "delivery \<Rightarrow> int \<Rightarrow> int \<Rightarrow> delivery" where
  "readStorageUploadBody body contentLength maxBytes =
     (if contentLength > maxBytes then Broken
      else case body of
             Delivered b \<Rightarrow> (let read = take (nat (maxBytes + 1)) b in if int (length read) > maxBytes then Broken else Delivered read)
           | _ \<Rightarrow> body)"

text \<open>The part of patchUpload that runs under the lock of the upload, after the row was read again.\<close>

definition patch_stored ::
  "node_setup \<Rightarrow> call \<Rightarrow> (string \<times> string) list \<Rightarrow> storage_upload \<Rightarrow> string \<Rightarrow> node \<Rightarrow> answer \<times> node" where
  "patch_stored st call cors upload payload nd =
     (case writeUploadChunk (st_env st) (ca_io call) upload payload (nd_disk nd) of
        (Inl _, disk1) \<Rightarrow> (writeStorageError 500 ''storage_error'' (cors @ setUploadHeaders upload), nd\<lparr>nd_disk := disk1\<rparr>)
      | (Inr _, disk1) \<Rightarrow>
        (let offset = su_offset upload; nextOffset = offset + int (length payload)
         in case storage_UpdateUploadOffset (su_id upload) offset nextOffset (nd_db nd) of
              (Inl _, db1) \<Rightarrow>
                (writeStorageError 409 ''offset_changed''
                   (cors @ (case storage_UploadByID (st_env st) (su_id upload) db1 of Inl _ \<Rightarrow> setUploadHeaders upload
                            | Inr current \<Rightarrow> setUploadHeaders current)),
                 nd\<lparr>nd_db := db1, nd_disk := os_Truncate (ca_io call) (su_path upload) offset disk1\<rparr>)
            | (Inr _, db1) \<Rightarrow>
              (let upload1 = upload\<lparr>su_offset := nextOffset\<rparr>
               in if nextOffset = su_length upload
                  then (case finalizeCompletedUpload (st_env st) (ca_io call) upload1 (db1, disk1) of
                          (Inl _, db2, disk2) \<Rightarrow>
                            (writeStorageError 500 ''isolation_failed'' (cors @ setUploadHeaders upload), nd\<lparr>nd_db := db2, nd_disk := disk2\<rparr>)
                        | (Inr _, db2, disk2) \<Rightarrow>
                            (WriteHeader 204 (cors @ setUploadHeaders (upload1\<lparr>su_status := PendingScan\<rparr>)),
                             nd\<lparr>nd_db := db2, nd_disk := disk2\<rparr>))
                  else (WriteHeader 204 (cors @ setUploadHeaders upload1), nd\<lparr>nd_db := db1, nd_disk := disk1\<rparr>))))"

definition disk_fits :: "node_setup \<Rightarrow> call \<Rightarrow> int \<Rightarrow> bool" where
  "disk_fits st call n = (case ca_free call of None \<Rightarrow> False
     | Some freeBytes \<Rightarrow> \<not> (freeBytes \<le> cfg_MinFreeBytes (st_cfg st) \<or> word_of_int n > freeBytes - cfg_MinFreeBytes (st_cfg st)))"

definition patch_locked ::
  "node_setup \<Rightarrow> call \<Rightarrow> upload_request \<Rightarrow> delivery \<Rightarrow> (string \<times> string) list \<Rightarrow> int \<Rightarrow> node \<Rightarrow> answer \<times> node" where
  "patch_locked st call request body cors offset nd =
     (case storage_UploadByID (st_env st) (ur_id request) (nd_db nd) of
        Inl _ \<Rightarrow> (writeStorageError 404 ''upload_not_found'' cors, nd)
      | Inr upload \<Rightarrow>
        (let headers = cors @ setUploadHeaders upload
         in if su_status upload \<noteq> StorageUploading \<or> su_offset upload \<noteq> offset \<or> su_expires_at upload \<le> ca_later call
            then (writeStorageError 409 ''upload_changed'' headers, nd)
            else if \<not> disk_fits st call (ur_content_length request)
            then (writeStorageError 507 ''insufficient_storage'' headers, nd)
            else case readStorageUploadBody body (ur_content_length request) (ur_content_length request) of
                   TimedOut \<Rightarrow> (writeStorageError 408 ''upload_read_timeout'' headers, nd)
                 | Broken \<Rightarrow> (writeStorageError 400 ''invalid_chunk_length'' headers, nd)
                 | Delivered payload \<Rightarrow>
                   (if int (length payload) \<noteq> ur_content_length request
                    then (writeStorageError 400 ''invalid_chunk_length'' headers, nd)
                    else patch_stored st call cors upload payload nd)))"

definition patch_admitted ::
  "node_setup \<Rightarrow> call \<Rightarrow> upload_request \<Rightarrow> delivery \<Rightarrow> (string \<times> string) list \<Rightarrow> (string \<times> string) list \<Rightarrow> int \<Rightarrow> node \<Rightarrow> answer \<times> node" where
  "patch_admitted st call request body cors headers offset nd =
     (if ca_busy call then (writeStorageError 409 ''upload_busy'' headers, nd)
      else case requireStorageAcceptance st call (nd_db nd) of
             Some a \<Rightarrow> (a\<lparr>an_headers := headers @ an_headers a\<rparr>, nd)
           | None \<Rightarrow>
             (case fst (acquireTransferSlot (ca_source call) (ca_slots call)) of
                Inl SourceLimit \<Rightarrow> (writeStorageError 429 ''upload_source_concurrency'' (headers @ [(''Retry-After'', ''1'')]), nd)
              | Inl GlobalLimit \<Rightarrow> (writeStorageError 429 ''upload_concurrency'' (headers @ [(''Retry-After'', ''1'')]), nd)
              | Inr _ \<Rightarrow> patch_locked st call request body cors offset nd))"

definition patchUpload :: "node_setup \<Rightarrow> call \<Rightarrow> upload_request \<Rightarrow> delivery \<Rightarrow> node \<Rightarrow> answer \<times> node" where
  "patchUpload st call request body nd =
     (case applyUploadCORS st request False of
        Inl a \<Rightarrow> (a, nd)
      | Inr cors \<Rightarrow>
        (case authorizedStorageUpload st call request (nd_db nd) of
           Inl a \<Rightarrow> (a\<lparr>an_headers := cors @ an_headers a\<rparr>, nd)
         | Inr upload \<Rightarrow>
           (let headers = cors @ setUploadHeaders upload; length0 = ur_content_length request
            in if su_status upload \<noteq> StorageUploading then (writeStorageError 409 ''upload_not_writable'' headers, nd)
               else if \<not> EqualFold (TrimSpace (hd (split_at (CHR '';'') (ur_content_type request)))) ''application/offset+octet-stream''
               then (writeStorageError 415 ''invalid_content_type'' headers, nd)
               else case ParseInt (TrimSpace (ur_upload_offset request)) of
                      None \<Rightarrow> (writeStorageError 400 ''invalid_offset'' headers, nd)
                    | Some offset \<Rightarrow>
                      (if offset < 0 then (writeStorageError 400 ''invalid_offset'' headers, nd)
                       else if offset \<noteq> su_offset upload then (writeStorageError 409 ''offset_mismatch'' headers, nd)
                       else if length0 \<le> 0 then (writeStorageError 411 ''content_length_required'' headers, nd)
                       else if length0 > cfg_MaxChunkBytes (st_cfg st) \<or> offset > su_length upload - length0
                       then (writeStorageError 413 ''chunk_too_large'' headers, nd)
                       else patch_admitted st call request body cors headers offset nd))))"

section \<open>Requests of the control plane\<close>

text \<open>\<open>body\<close> is what could be read of the request, \<open>at\<close> the time in nanoseconds.\<close>

definition verifiedInternalBody ::
  "node_setup \<Rightarrow> request \<Rightarrow> string option \<Rightarrow> int \<Rightarrow> replay_guard \<Rightarrow> (answer + string) \<times> replay_guard" where
  "verifiedInternalBody st request body at replay =
     (case body of
        None \<Rightarrow> (Inl (writeStorageError 400 ''invalid_body'' []), replay)
      | Some b \<Rightarrow>
        (if length b > 1048576 then (Inl (writeStorageError 400 ''invalid_body'' []), replay)
         else case VerifyInternalRequest (st_crypto st) request b (cfg_SharedSecret (st_cfg st)) (cfg_NodeID (st_cfg st)) at replay of
                (Inl _, replay1) \<Rightarrow> (Inl (writeStorageError 401 ''internal_auth_failed'' []), replay1)
              | (Inr _, replay1) \<Rightarrow> (Inr b, replay1)))"

definition cleanFilename :: "string \<Rightarrow> string" where
  "cleanFilename value =
     (let v = TrimRight (cleanText (path_Base (map (\<lambda>c. if c = CHR 0x5C then CHR ''/'' else c) value)) 255) ''. ''
      in if v = ''.'' \<or> v = ''..'' then '''' else v)"

definition validateReserveRequest :: "node_setup \<Rightarrow> unix_time \<Rightarrow> reserve_request \<Rightarrow> bool" where
  "validateReserveRequest st now payload \<longleftrightarrow> validStorageObjectID (rr_ID payload) \<and>
     (case base64_decode (rr_UploadTokenHash payload) of None \<Rightarrow> False | Some hash \<Rightarrow> length hash = 32) \<and>
     rr_OriginalName payload \<noteq> '''' \<and> cleanFilename (rr_OriginalName payload) = rr_OriginalName payload \<and>
     rr_ContentType payload \<noteq> '''' \<and> length (rr_ContentType payload) \<le> 255 \<and>
     \<not> list_ex (\<lambda>c. c = CHR 0x0D \<or> c = CHR 0x0A \<or> c = CHR 0x00) (rr_ContentType payload) \<and>
     0 < rr_Length payload \<and> rr_Length payload \<le> cfg_MaxUploadBytes (st_cfg st) \<and> rr_ExpiresAt payload > now"

definition requested_upload :: "node_setup \<Rightarrow> reserve_request \<Rightarrow> storage_upload" where
  "requested_upload st payload =
     \<lparr>su_id = rr_ID payload, su_token_hash = rr_UploadTokenHash payload, su_original_name = rr_OriginalName payload,
      su_content_type = rr_ContentType payload, su_length = rr_Length payload, su_offset = 0, su_status = StorageUploading,
      su_path = tmp_path (st_env st) (rr_ID payload), su_sha256 = '''', su_scan_detail = '''', su_expires_at = rr_ExpiresAt payload,
      su_lease_until = 0, su_lease_id = ''''\<rparr>"

definition reserve_again :: "node_setup \<Rightarrow> call \<Rightarrow> storage_upload \<Rightarrow> storage_upload \<Rightarrow> node \<Rightarrow> answer \<times> node" where
  "reserve_again st call existing requested nd =
     (case ReserveUpload (st_env st) requested (nd_db nd) of
        (Inl _, db1) \<Rightarrow> (writeStorageError 409 ''reservation_conflict'' [], nd\<lparr>nd_db := db1\<rparr>)
      | (Inr (stored, _), db1) \<Rightarrow>
        (if su_expires_at existing \<le> ca_now call then (writeStorageError 410 ''reservation_expired'' [], nd\<lparr>nd_db := db1\<rparr>)
         else case ensureUploadingFile (st_env st) (ca_io call) stored False (nd_disk nd) of
                (Inl _, disk1) \<Rightarrow> (writeStorageError 500 ''storage_error'' [], nd\<lparr>nd_db := db1, nd_disk := disk1\<rparr>)
              | (Inr _, disk1) \<Rightarrow> (WriteHeader 200 (setUploadHeaders stored), nd\<lparr>nd_db := db1, nd_disk := disk1\<rparr>)))"

definition reserve_new :: "node_setup \<Rightarrow> call \<Rightarrow> storage_upload \<Rightarrow> node \<Rightarrow> answer \<times> node" where
  "reserve_new st call requested nd =
     (case ReserveUpload (st_env st) requested (nd_db nd) of
        (Inl e, db1) \<Rightarrow> (writeStorageError (if e = ErrConflict then 409 else 500) ''reservation_failed'' [], nd\<lparr>nd_db := db1\<rparr>)
      | (Inr (stored, created), db1) \<Rightarrow>
        (case ensureUploadingFile (st_env st) (ca_io call) stored created (nd_disk nd) of
           (Inl _, disk1) \<Rightarrow>
             (writeStorageError 500 ''storage_error'' [],
              nd\<lparr>nd_db := (if created then snd (storage_DeleteUpload (su_id stored) db1) else db1), nd_disk := disk1\<rparr>)
         | (Inr _, disk1) \<Rightarrow>
             (WriteHeader (if created then 201 else 200) (setUploadHeaders stored), nd\<lparr>nd_db := db1, nd_disk := disk1\<rparr>)))"

text \<open>The part of reserveUpload after the request was checked. The answer carries the values of the
  response body as headers.\<close>

definition reserve_checked :: "node_setup \<Rightarrow> call \<Rightarrow> reserve_request \<Rightarrow> node \<Rightarrow> answer \<times> node" where
  "reserve_checked st call payload nd =
     (case requireStorageAcceptance st call (nd_db nd) of
        Some a \<Rightarrow> (a, nd)
      | None \<Rightarrow>
        (let requested = requested_upload st payload
         in case storage_UploadByID (st_env st) (rr_ID payload) (nd_db nd) of
              Inr existing \<Rightarrow> reserve_again st call existing requested nd
            | Inl ErrNotFound \<Rightarrow>
              (case ca_free call of
                 None \<Rightarrow> (writeStorageError 507 ''insufficient_storage'' [], nd)
               | Some freeBytes \<Rightarrow>
                 (if \<not> storageReservationFits freeBytes (cfg_MinFreeBytes (st_cfg st))
                       (ReservedUploadBytes (ca_now call) (nd_db nd)) (rr_Length payload)
                  then (writeStorageError 507 ''insufficient_storage'' [], nd)
                  else reserve_new st call requested nd))
            | Inl _ \<Rightarrow> (writeStorageError 500 ''storage_error'' [], nd)))"

definition reserveUpload :: "node_setup \<Rightarrow> call \<Rightarrow> request \<Rightarrow> string option \<Rightarrow> int \<Rightarrow> node \<Rightarrow> answer \<times> node" where
  "reserveUpload st call request body at nd =
     (case verifiedInternalBody st request body at (nd_replay nd) of
        (Inl a, replay1) \<Rightarrow> (a, nd\<lparr>nd_replay := replay1\<rparr>)
      | (Inr b, replay1) \<Rightarrow>
        (case st_decode_reserve st b of
           None \<Rightarrow> (writeStorageError 400 ''invalid_request'' [], nd\<lparr>nd_replay := replay1\<rparr>)
         | Some payload \<Rightarrow>
           (if \<not> validateReserveRequest st (ca_now call) payload
            then (writeStorageError 400 ''invalid_request'' [], nd\<lparr>nd_replay := replay1\<rparr>)
            else reserve_checked st call payload (nd\<lparr>nd_replay := replay1\<rparr>))))"

definition remove_upload :: "node_setup \<Rightarrow> io \<Rightarrow> storage_upload \<Rightarrow> node \<Rightarrow> unit result \<times> node" where
  "remove_upload st io upload nd =
     (case removeUploadFiles (st_env st) io upload (nd_disk nd) of
        (Inl e, disk1) \<Rightarrow> (Inl e, nd\<lparr>nd_disk := disk1\<rparr>)
      | (Inr _, disk1) \<Rightarrow>
        (case storage_DeleteUpload (su_id upload) (nd_db nd) of
           (r, db1) \<Rightarrow> (r, nd\<lparr>nd_db := db1, nd_disk := disk1\<rparr>)))"

definition deleteUpload :: "node_setup \<Rightarrow> call \<Rightarrow> request \<Rightarrow> string option \<Rightarrow> int \<Rightarrow> ident \<Rightarrow> node \<Rightarrow> answer \<times> node" where
  "deleteUpload st call request body at i nd0 =
     (case verifiedInternalBody st request body at (nd_replay nd0) of
        (Inl a, replay1) \<Rightarrow> (a, nd0\<lparr>nd_replay := replay1\<rparr>)
      | (Inr _, replay1) \<Rightarrow>
        (let nd = nd0\<lparr>nd_replay := replay1\<rparr>
         in if \<not> validStorageObjectID i then (writeStorageError 400 ''invalid_upload_id'' [], nd)
            else case storage_UploadByID (st_env st) i (nd_db nd) of
                   Inl ErrNotFound \<Rightarrow> (WriteHeader 204 [], nd)
                 | Inl _ \<Rightarrow> (writeStorageError 500 ''storage_error'' [], nd)
                 | Inr upload \<Rightarrow>
                   (if HasActiveDownloadSessions i (nd_db nd) then (writeStorageError 409 ''download_in_progress'' [], nd)
                    else case remove_upload st (ca_io call) upload nd of
                           (Inl _, nd1) \<Rightarrow> (writeStorageError 500 ''storage_error'' [], nd1)
                         | (Inr _, nd1) \<Rightarrow> (WriteHeader 204 [], nd1))))"

section \<open>Workers\<close>

text \<open>Each pass works on the rows it read at its start.\<close>

fun finalize_all :: "node_setup \<Rightarrow> io \<Rightarrow> storage_upload list \<Rightarrow> node \<Rightarrow> node" where
  "finalize_all st io [] nd = nd"
| "finalize_all st io (u # us) nd =
     (case finalizeCompletedUpload (st_env st) io u (nd_db nd, nd_disk nd) of
        (_, db1, disk1) \<Rightarrow> finalize_all st io us (nd\<lparr>nd_db := db1, nd_disk := disk1\<rparr>))"

definition recoverCompletedUploads :: "node_setup \<Rightarrow> io \<Rightarrow> node \<Rightarrow> node" where
  "recoverCompletedUploads st io nd =
     (case RecoverableCompletedUploads (st_env st) 32 (nd_db nd) of Inl _ \<Rightarrow> nd | Inr us \<Rightarrow> finalize_all st io us nd)"

fun cleanup_all :: "node_setup \<Rightarrow> io \<Rightarrow> storage_upload list \<Rightarrow> node \<Rightarrow> node" where
  "cleanup_all st io [] nd = nd"
| "cleanup_all st io (u # us) nd =
     cleanup_all st io us (if HasActiveDownloadSessions (su_id u) (nd_db nd) then nd else snd (remove_upload st io u nd))"

definition cleanupExpiredUploads :: "node_setup \<Rightarrow> io \<Rightarrow> unix_time \<Rightarrow> node \<Rightarrow> node" where
  "cleanupExpiredUploads st io now nd =
     (case ExpiredUploads (st_env st) now 100 (nd_db nd) of Inl _ \<Rightarrow> nd | Inr us \<Rightarrow> cleanup_all st io us nd)"

definition recoverStaleDownloadSessions :: "node_setup \<Rightarrow> unix_time \<Rightarrow> int \<Rightarrow> int \<Rightarrow> int \<Rightarrow> delivery_round list \<Rightarrow> node \<Rightarrow> node" where
  "recoverStaleDownloadSessions st now staleAfter maxDuration maxAttempts rounds nd =
     (let stale = (if staleAfter \<le> 0 then 120 else staleAfter);
          hard = (if maxDuration \<le> 0 then downloadReservationMaxDuration - 60 else maxDuration)
      in case RecoverStaleDownloadSessions now now (now - stale) (now - hard) 100 (nd_db nd) of
           ((Some _, _), db1) \<Rightarrow> nd\<lparr>nd_db := db1\<rparr>
         | ((None, recovered), db1) \<Rightarrow>
           nd\<lparr>nd_db := (if recovered > 0 then snd (retryOutbox maxAttempts rounds db1) else db1)\<rparr>)"

text \<open>Recovery at the start of a node: rounds of a hundred sessions until one is not full. The list holds
  the clock of each round; \<open>None\<close> says that it was used up.\<close>

fun recover_rounds :: "unix_time list \<Rightarrow> sdb \<Rightarrow> unit result option \<times> sdb" where
  "recover_rounds [] db = (None, db)"
| "recover_rounds (now # clocks) db =
     (case RecoverDownloadSessions now now 100 db of
        ((Some e, _), db1) \<Rightarrow> (Some (Inl e), db1)
      | ((None, recovered), db1) \<Rightarrow> if recovered < 100 then (Some (Inr ()), db1) else recover_rounds clocks db1)"

text \<open>The part of RunStorageNode between opening the store and serving. A new process has seen no nonces.\<close>

definition start_node :: "unix_time \<Rightarrow> bool \<Rightarrow> unix_time list \<Rightarrow> node \<Rightarrow> unit result option \<times> node" where
  "start_node now replayDeadLetters clocks nd =
     (let db1 = snd (ResetOutboxClaims now (nd_db nd));
          db2 = (if replayDeadLetters then snd (ReplayDeadLetters now 0 db1) else db1)
      in case recover_rounds clocks db2 of (r, db3) \<Rightarrow> (r, nd\<lparr>nd_db := db3, nd_replay := Map.empty\<rparr>))"

section \<open>Scanning\<close>

definition storageScanLeaseDuration :: int where "storageScanLeaseDuration = 600"

text \<open>The renewals a scan makes while it runs, up to the first that fails, and the one at its end.\<close>

fun renew_ticks :: "ident \<Rightarrow> string \<Rightarrow> unix_time list \<Rightarrow> unit sop" where
  "renew_ticks i leaseID [] db = (Inr (), db)"
| "renew_ticks i leaseID (now # ticks) db =
     (case RenewScanLease i leaseID now (now + storageScanLeaseDuration) db of
        (Inl e, db1) \<Rightarrow> (Inl e, db1) | (Inr _, db1) \<Rightarrow> renew_ticks i leaseID ticks db1)"

definition stopLeaseRenewal :: "ident \<Rightarrow> string \<Rightarrow> bool \<Rightarrow> unix_time list \<Rightarrow> unix_time \<Rightarrow> unit sop" where
  "stopLeaseRenewal i leaseID cancelled ticks now db =
     (case renew_ticks i leaseID ticks db of
        (Inl e, db1) \<Rightarrow> (Inl e, db1)
      | (Inr _, db1) \<Rightarrow> if cancelled then (Inl ErrOther, db1)
                        else RenewScanLease i leaseID now (now + storageScanLeaseDuration) db1)"

definition scanCompletionEvent :: "string \<Rightarrow> ident \<Rightarrow> string \<Rightarrow> string \<Rightarrow> string \<Rightarrow> unix_time \<Rightarrow> outbox_event" where
  "scanCompletionEvent nodeID uploadID status sha detail now =
     \<lparr>ob_id = 0, ob_event_key = ''upload-complete:'' @ uploadID, ob_method = ''POST'',
      ob_path = ''/internal/v1/storage/uploads/'' @ PathEscape uploadID @ ''/complete'',
      ob_body = ''{\"nodeId\":'' @ json_string nodeID @ '',\"status\":'' @ json_string status @ '',\"sha256\":'' @ json_string sha @
        '',\"scanDetail\":'' @ json_string detail @ ''}'', ob_attempts = 0,
      ob_next_attempt_at = now, ob_created_at = 0, ob_last_error = '''', ob_version = 0, ob_claim_token = '''',
      ob_claim_until = 0, ob_replay_blocking = False\<rparr>"

text \<open>A scan: whether the node is being stopped before it or during it, the clock at the renewals, at their end and at the
  verdict, the outcome of the Defender command and the text of an error.\<close>

record scan_call =
  sn_stopped :: bool
  sn_cancelled :: bool
  sn_ticks :: "unix_time list"
  sn_end :: unix_time
  sn_now :: unix_time
  sn_defender :: "bool \<times> string"
  sn_error :: string
  sn_io :: io

fun read_chunks :: "nat list \<Rightarrow> string \<Rightarrow> string list" where
  "read_chunks [] contents = [contents]"
| "read_chunks (n # ns) contents = take n contents # read_chunks ns (drop n contents)"

definition open_file :: "io \<Rightarrow> disk \<Rightarrow> string \<Rightarrow> (string list \<times> read_end) option" where
  "open_file io disk path =
     (case disk path of
        None \<Rightarrow> None
      | Some contents \<Rightarrow>
        (if io_fails io Open path then None
         else Some (read_chunks (io_reads io) contents, if io_fails io Read path then ReadFailed else EndOfFile)))"

definition scan_file :: "node_setup \<Rightarrow> scan_call \<Rightarrow> disk \<Rightarrow> string \<Rightarrow> error option \<times> ScanResult" where
  "scan_file st sn disk path =
     Scan (\<lambda>contents. hex_encode (cr_sha256 (st_crypto st) contents)) (sn_defender sn) (st_scanner st) (open_file (sn_io sn) disk path)"

text \<open>\<open>complete_or_release\<close> is the way every verdict ends: CompleteScan, or the claim is given back.\<close>

definition complete_or_release ::
  "node_setup \<Rightarrow> scan_call \<Rightarrow> storage_upload \<Rightarrow> storage_status \<Rightarrow> string \<Rightarrow> string \<Rightarrow> string \<Rightarrow> string \<Rightarrow> sdb \<Rightarrow> bool \<times> sdb" where
  "complete_or_release st sn upload status external path sha detail db =
     (case CompleteScan (st_env st) (sn_now sn) (su_id upload) (su_lease_id upload) (sn_now sn) status path sha detail
         (scanCompletionEvent (cfg_NodeID (st_cfg st)) (su_id upload) external sha detail (sn_now sn)) db of
        (Inl _, db1) \<Rightarrow> (False, snd (ReleaseScanClaim (su_id upload) (su_lease_id upload) db1))
      | (Inr _, db1) \<Rightarrow> (True, db1))"

definition finishScannerError ::
  "node_setup \<Rightarrow> scan_call \<Rightarrow> storage_upload \<Rightarrow> string \<Rightarrow> string \<Rightarrow> string \<Rightarrow> node \<Rightarrow> node" where
  "finishScannerError st sn upload currentPath detail sha nd =
     (let quarantinePath = quarantine_path (st_env st) (su_id upload);
          moves = (currentPath \<noteq> '''' \<and> path_Clean currentPath \<noteq> path_Clean quarantinePath \<and>
            nd_disk nd currentPath \<noteq> None \<and> \<not> io_fails (sn_io sn) Stat currentPath);
          (path, disk1) = (if moves
            then (case os_Rename (sn_io sn) currentPath quarantinePath (nd_disk nd) of
                    (Inl _, d) \<Rightarrow> (currentPath, d) | (Inr _, d) \<Rightarrow> (quarantinePath, d))
            else (quarantinePath, nd_disk nd))
      in nd\<lparr>nd_db := snd (complete_or_release st sn upload ScannerError ''quarantined'' path sha detail (nd_db nd)),
            nd_disk := disk1\<rparr>)"

definition finish_clean :: "node_setup \<Rightarrow> scan_call \<Rightarrow> storage_upload \<Rightarrow> string \<Rightarrow> ScanResult \<Rightarrow> node \<Rightarrow> node" where
  "finish_clean st sn upload scanPath result nd =
     (let objectPath = object_path (st_env st) (su_id upload);
          (moved, disk1) = (if path_Clean scanPath \<noteq> path_Clean objectPath then os_Rename (sn_io sn) scanPath objectPath (nd_disk nd)
                            else (Inr (), nd_disk nd))
      in case moved of
           Inl _ \<Rightarrow> nd\<lparr>nd_db := snd (ReleaseScanClaim (su_id upload) (su_lease_id upload) (nd_db nd)), nd_disk := disk1\<rparr>
         | Inr _ \<Rightarrow> nd\<lparr>nd_db := snd (complete_or_release st sn upload Clean ''ready'' objectPath (sr_sha256 result) (sr_detail result)
                        (nd_db nd)), nd_disk := disk1\<rparr>)"

definition finish_blocked :: "node_setup \<Rightarrow> scan_call \<Rightarrow> storage_upload \<Rightarrow> string \<Rightarrow> ScanResult \<Rightarrow> node \<Rightarrow> node" where
  "finish_blocked st sn upload scanPath result nd =
     (case complete_or_release st sn upload StorageBlocked ''blocked'' '''' (sr_sha256 result) (sr_detail result) (nd_db nd) of
        (recorded, db1) \<Rightarrow>
          nd\<lparr>nd_db := db1,
             nd_disk := (if recorded then snd (removeGeneratedPath (st_env st) (sn_io sn) scanPath (nd_disk nd)) else nd_disk nd)\<rparr>)"

text \<open>Where the file is and what is in it does not depend on the renewals, which only write the lease.\<close>

definition scanOneUpload :: "node_setup \<Rightarrow> scan_call \<Rightarrow> storage_upload \<Rightarrow> node \<Rightarrow> node" where
  "scanOneUpload st sn upload nd =
     (case stopLeaseRenewal (su_id upload) (su_lease_id upload) (sn_cancelled sn) (sn_ticks sn) (sn_end sn) (nd_db nd) of
        (leaseErr, db1) \<Rightarrow>
        (let nd1 = nd\<lparr>nd_db := db1\<rparr>;
             released = nd\<lparr>nd_db := snd (ReleaseScanClaim (su_id upload) (su_lease_id upload) db1)\<rparr>
         in if sn_cancelled sn \<or> leaseErr \<noteq> Inr () then released
            else case resolveScanPath (st_env st) (sn_io sn) (nd_disk nd) upload of
                   Inl _ \<Rightarrow> finishScannerError st sn upload (su_path upload) ''quarantined file is unavailable'' '''' nd1
                 | Inr scanPath \<Rightarrow>
                   (case scan_file st sn (nd_disk nd) scanPath of
                      (scanErr, result) \<Rightarrow>
                      (if scanErr \<noteq> None \<or> Contains (sr_detail result) ''could not scan''
                       then finishScannerError st sn upload scanPath
                              (if scanErr \<noteq> None then truncateText (sn_error sn) 512 else sr_detail result) (sr_sha256 result) nd1
                       else if \<not> sr_clean result then finish_blocked st sn upload scanPath result nd1
                       else finish_clean st sn upload scanPath result nd1))))"

text \<open>Up to four uploads in a pass, each with its own claim; then the outbox is delivered.\<close>

fun scan_passes :: "node_setup \<Rightarrow> (string list \<times> unix_time \<times> scan_call) list \<Rightarrow> node \<Rightarrow> bool \<times> node" where
  "scan_passes st [] nd = (True, nd)"
| "scan_passes st ((leaseIDs, now, sn) # passes) nd =
     (case ClaimPendingScans (st_env st) leaseIDs now (now + storageScanLeaseDuration) 1 (nd_db nd) of
        (Inl _, db1) \<Rightarrow> (False, nd\<lparr>nd_db := db1\<rparr>)
      | (Inr [], db1) \<Rightarrow> (True, nd\<lparr>nd_db := db1\<rparr>)
      | (Inr (upload # _), db1) \<Rightarrow>
        (if sn_stopped sn then (False, nd\<lparr>nd_db := snd (ReleaseScanClaim (su_id upload) (su_lease_id upload) db1)\<rparr>)
         else scan_passes st passes (scanOneUpload st sn upload (nd\<lparr>nd_db := db1\<rparr>))))"

definition scanPendingUploads ::
  "node_setup \<Rightarrow> (string list \<times> unix_time \<times> scan_call) list \<Rightarrow> int \<Rightarrow> delivery_round list \<Rightarrow> node \<Rightarrow> node" where
  "scanPendingUploads st passes maxAttempts rounds nd =
     (case scan_passes st (take 4 passes) nd of
        (delivers, nd1) \<Rightarrow> if delivers then nd1\<lparr>nd_db := snd (retryOutbox maxAttempts rounds (nd_db nd1))\<rparr> else nd1)"

end
