(* ===== verification/Human_Verification.thy ===== *)
theory Human_Verification
  imports Settings_Store Tickets Storage_Node
begin

text \<open>
  The check that a person is behind a critical action (human_verification.go,
  human_verification_server.go). The two providers are web services, a parameter that maps a request to
  its reply, as are the JSON decoders of the replies; the random identifiers and the clock are arguments.
\<close>

section \<open>Requests to a provider\<close>

record HumanProof =
  hp_Token :: string
  hp_RandStr :: string
  hp_Challenge :: string

record HumanVerificationConfig =
  hv_Enabled :: bool
  hv_Provider :: string
  hv_SiteKey :: string
  hv_Secret :: string
  hv_AllowedHostnames :: "string list"
  hv_TencentCaptchaAppID :: int
  hv_TencentAppSecretKey :: string
  hv_TencentSecretID :: string
  hv_TencentSecretKey :: string
  hv_Actions :: "string \<rightharpoonup> bool"

datatype verification_error = HumanVerificationRequired | HumanVerificationFailed | HumanVerificationUnavailable

record web_request =
  wr_endpoint :: string
  wr_headers :: "(string \<times> string) list"
  wr_body :: string

text \<open>A reply with its status and body; the body is missing when reading it fails.\<close>

datatype web_reply = No_Reply | Reply int "string option"

record turnstile_result =
  tr_Success :: bool
  tr_Hostname :: string
  tr_Action :: string

record tencent_result =
  tn_CaptchaCode :: int
  tn_EvilLevel :: int
  tn_Error :: bool

record web =
  wb_send :: "web_request \<Rightarrow> web_reply"
  wb_turnstile :: "string \<Rightarrow> turnstile_result option"
  wb_tencent :: "string \<Rightarrow> tencent_result option"

definition humanVerificationResponseMax :: nat where "humanVerificationResponseMax = 2 ^ 20"

definition decodeHumanVerificationJSON :: "(string \<Rightarrow> 'a option) \<Rightarrow> string option \<Rightarrow> 'a option" where
  "decodeHumanVerificationJSON decode body =
     (case body of None \<Rightarrow> None
      | Some payload \<Rightarrow> if length payload = 0 \<or> length payload > humanVerificationResponseMax then None else decode payload)"

text \<open>\<^verbatim>\<open>url.Values.Encode\<close> of keys that need no escapes, in their order.\<close>

definition query_unescaped :: "char \<Rightarrow> bool" where
  "query_unescaped c \<longleftrightarrow> (CHR ''a'' \<le> c \<and> c \<le> CHR ''z'') \<or> (CHR ''A'' \<le> c \<and> c \<le> CHR ''Z'') \<or> (CHR ''0'' \<le> c \<and> c \<le> CHR ''9'') \<or>
     c \<in> set ''-_.~''"

definition QueryEscape :: "string \<Rightarrow> string" where
  "QueryEscape s = concat (map (\<lambda>c. if query_unescaped c then [c] else if c = CHR '' '' then ''+''
     else [CHR 0x25, ascii_upper (hex_digit (of_char c div 16)), ascii_upper (hex_digit (of_char c mod 16))]) s)"

definition form_encode :: "(string \<times> string) list \<Rightarrow> string" where
  "form_encode pairs = Join (map (\<lambda>(key, value). key @ ''='' @ QueryEscape value) pairs) ''&''"

definition byte_map :: "nat \<Rightarrow> (nat \<Rightarrow> nat) \<Rightarrow> string \<Rightarrow> string" where
  "byte_map i f s = s[i := char_of (f (of_char (s ! i)))]"

text \<open>\<open>random\<close> are the sixteen bytes read, or \<open>None\<close> when reading fails.\<close>

definition randomUUID :: "bytes option \<Rightarrow> string option" where
  "randomUUID random =
     (case random of None \<Rightarrow> None
      | Some bytes \<Rightarrow>
        (let value = byte_map 8 (\<lambda>b. b mod 64 + 128) (byte_map 6 (\<lambda>b. b mod 16 + 64) bytes);
             part = (\<lambda>i j. hex_encode (take (j - i) (drop i value)))
         in Some (Join [part 0 4, part 4 6, part 6 8, part 8 10, part 10 16] ''-'')))"

definition turnstile_request :: "string \<Rightarrow> string \<Rightarrow> string \<Rightarrow> string \<Rightarrow> web_request" where
  "turnstile_request secret token ip idempotencyKey =
     \<lparr>wr_endpoint = ''https://challenges.cloudflare.com/turnstile/v0/siteverify'',
      wr_headers = [(''Content-Type'', ''application/x-www-form-urlencoded'')],
      wr_body = form_encode [(''idempotency_key'', idempotencyKey), (''remoteip'', ip), (''response'', token), (''secret'', secret)]\<rparr>"

definition unsuccessful :: "int \<Rightarrow> bool" where
  "unsuccessful status \<longleftrightarrow> status < 200 \<or> status \<ge> 300"

definition turnstile_verify ::
  "web \<Rightarrow> string \<Rightarrow> string set \<Rightarrow> bytes option \<Rightarrow> string \<Rightarrow> HumanProof \<Rightarrow> string \<Rightarrow> verification_error + unit" where
  "turnstile_verify web secret allowedHostnames random action proof remoteIP =
     (let token = TrimSpace (hp_Token proof)
      in if token = '''' then Inl HumanVerificationRequired
         else if length token > 2048 then Inl HumanVerificationFailed
         else case normalizeHumanVerificationIP remoteIP of
           Inl _ \<Rightarrow> Inl HumanVerificationFailed
         | Inr ip \<Rightarrow>
           (case randomUUID random of
              None \<Rightarrow> Inl HumanVerificationUnavailable
            | Some idempotencyKey \<Rightarrow>
              (case wb_send web (turnstile_request secret token ip idempotencyKey) of
                 No_Reply \<Rightarrow> Inl HumanVerificationUnavailable
               | Reply status body \<Rightarrow>
                 (if unsuccessful status then Inl HumanVerificationUnavailable
                  else case decodeHumanVerificationJSON (wb_turnstile web) body of
                    None \<Rightarrow> Inl HumanVerificationUnavailable
                  | Some result \<Rightarrow>
                    (if \<not> tr_Success result \<or> tr_Action result \<noteq> action then Inl HumanVerificationFailed
                     else case normalizeHumanVerificationHostname (tr_Hostname result) of
                       Inl _ \<Rightarrow> Inl HumanVerificationFailed
                     | Inr hostname \<Rightarrow> if hostname \<notin> allowedHostnames then Inl HumanVerificationFailed else Inr ())))))"

text \<open>The signature of a request to Tencent Cloud, and the request.\<close>

definition tencentTC3Authorization :: "crypto \<Rightarrow> string \<Rightarrow> bytes \<Rightarrow> string \<Rightarrow> string \<Rightarrow> string \<Rightarrow> string \<Rightarrow> unix_time \<Rightarrow> string" where
  "tencentTC3Authorization cr secretID secretKey host escapedPath0 rawQuery payload timestamp =
     (let newline = [CHR 0x0A];
          escapedPath = (if escapedPath0 = '''' then ''/'' else escapedPath0);
          canonicalHeaders = ''content-type:application/json; charset=utf-8'' @ newline @ ''host:'' @ ToLower host @ newline;
          canonicalRequest = Join [''POST'', escapedPath, rawQuery, canonicalHeaders, ''content-type;host'',
            hex_encode (cr_sha256 cr payload)] newline;
          date = format_date (local_day 0 timestamp);
          credentialScope = date @ ''/captcha/tc3_request'';
          stringToSign = ''TC3-HMAC-SHA256'' @ newline @ show_int timestamp @ newline @ credentialScope @ newline @
            hex_encode (cr_sha256 cr canonicalRequest);
          secretDate = cr_hmac cr (''TC3'' @ secretKey) date;
          secretService = cr_hmac cr secretDate ''captcha'';
          secretSigning = cr_hmac cr secretService ''tc3_request''
      in ''TC3-HMAC-SHA256 Credential='' @ secretID @ ''/'' @ credentialScope @ '', SignedHeaders=content-type;host, Signature='' @
         hex_encode (cr_hmac cr secretSigning stringToSign))"

definition tencent_payload :: "string \<Rightarrow> string \<Rightarrow> string \<Rightarrow> int \<Rightarrow> string \<Rightarrow> string" where
  "tencent_payload ticket ip randStr captchaAppID appSecretKey =
     ''{\"CaptchaType\":9,\"Ticket\":'' @ json_string ticket @ '',\"UserIp\":'' @ json_string ip @ '',\"Randstr\":'' @ json_string randStr @
     '',\"CaptchaAppId\":'' @ show_int captchaAppID @ '',\"AppSecretKey\":'' @ json_string appSecretKey @ ''}''"

definition tencent_request :: "crypto \<Rightarrow> string \<Rightarrow> string \<Rightarrow> string \<Rightarrow> unix_time \<Rightarrow> web_request" where
  "tencent_request cr secretID secretKey payload timestamp =
     \<lparr>wr_endpoint = ''https://captcha.tencentcloudapi.com'',
      wr_headers = [(''Content-Type'', ''application/json; charset=utf-8''), (''X-TC-Action'', ''DescribeCaptchaResult''),
        (''X-TC-Version'', ''2019-07-22''), (''X-TC-Timestamp'', show_int timestamp),
        (''Authorization'', tencentTC3Authorization cr secretID secretKey ''captcha.tencentcloudapi.com'' '''' '''' payload timestamp)],
      wr_body = payload\<rparr>"

definition tencent_verify ::
  "crypto \<Rightarrow> web \<Rightarrow> int \<Rightarrow> string \<Rightarrow> string \<Rightarrow> string \<Rightarrow> unix_time \<Rightarrow> HumanProof \<Rightarrow> string \<Rightarrow> verification_error + unit" where
  "tencent_verify cr web captchaAppID appSecretKey secretID secretKey now proof remoteIP =
     (let ticket = TrimSpace (hp_Token proof); randStr = TrimSpace (hp_RandStr proof)
      in if ticket = '''' \<or> randStr = '''' then Inl HumanVerificationRequired
         else if has_prefix ticket ''trerror_'' \<or> length ticket > 4096 \<or> length randStr > 1024 then Inl HumanVerificationFailed
         else case normalizeHumanVerificationIP remoteIP of
           Inl _ \<Rightarrow> Inl HumanVerificationFailed
         | Inr ip \<Rightarrow>
           (case wb_send web (tencent_request cr secretID secretKey (tencent_payload ticket ip randStr captchaAppID appSecretKey) now) of
              No_Reply \<Rightarrow> Inl HumanVerificationUnavailable
            | Reply status body \<Rightarrow>
              (if unsuccessful status then Inl HumanVerificationUnavailable
               else case decodeHumanVerificationJSON (wb_tencent web) body of
                 None \<Rightarrow> Inl HumanVerificationUnavailable
               | Some result \<Rightarrow>
                 (if tn_Error result then Inl HumanVerificationUnavailable
                  else if tn_CaptchaCode result \<noteq> 1 \<or> tn_EvilLevel result = 100 then Inl HumanVerificationFailed
                  else Inr ()))))"

section \<open>The verifier\<close>

datatype humanVerificationProvider =
    Turnstile string "string set"
  | Tencent int string string string

record humanVerificationService =
  hs_enabled :: bool
  hs_actions :: "string \<rightharpoonup> bool"
  hs_provider :: "humanVerificationProvider option"

definition normalizeHumanVerificationProvider :: "string \<Rightarrow> string" where
  "normalizeHumanVerificationProvider value =
     (let p = ToLower (TrimSpace value)
      in if p \<in> {''cloudflare'', ''cloudflare-turnstile'', ''turnstile''} then ''turnstile''
         else if p \<in> {''tencent'', ''tencent-captcha'', ''tencentcloud''} then ''tencent'' else '''')"

definition hasEnabledHumanVerificationAction :: "(string \<rightharpoonup> bool) \<Rightarrow> bool" where
  "hasEnabledHumanVerificationAction actions \<longleftrightarrow> True \<in> ran actions"

text \<open>Stored settings only have the keys of \<open>captchaActions\<close>, so the question is decided over these.\<close>

lemma has_enabled_stored:
  "dom actions \<subseteq> set captchaActions \<Longrightarrow> hasEnabledHumanVerificationAction actions = list_ex (enabled_action actions) captchaActions"
  by (fastforce simp: hasEnabledHumanVerificationAction_def list_ex_iff enabled_action_def ran_def dom_def split: option.splits)

definition NewHumanVerifier :: "HumanVerificationConfig \<Rightarrow> verification_error + humanVerificationService" where
  "NewHumanVerifier cfg =
     (let service = \<lparr>hs_enabled = hv_Enabled cfg, hs_actions = hv_Actions cfg, hs_provider = None\<rparr>;
          provider = normalizeHumanVerificationProvider (hv_Provider cfg)
      in if \<not> hv_Enabled cfg \<or> \<not> hasEnabledHumanVerificationAction (hv_Actions cfg) then Inr service
         else if provider = ''turnstile'' then
           (if TrimSpace (hv_SiteKey cfg) = '''' \<or> TrimSpace (hv_Secret cfg) = '''' then Inl HumanVerificationUnavailable
            else case normalizeHumanVerificationHostnames (hv_AllowedHostnames cfg) of
              Inl _ \<Rightarrow> Inl HumanVerificationUnavailable
            | Inr hostnames \<Rightarrow> Inr (service\<lparr>hs_provider := Some (Turnstile (hv_Secret cfg) hostnames)\<rparr>))
         else if provider = ''tencent'' then
           (if hv_TencentCaptchaAppID cfg \<le> 0 \<or> TrimSpace (hv_TencentAppSecretKey cfg) = '''' \<or>
               TrimSpace (hv_TencentSecretID cfg) = '''' \<or> TrimSpace (hv_TencentSecretKey cfg) = '''' then Inl HumanVerificationUnavailable
            else Inr (service\<lparr>hs_provider := Some (Tencent (hv_TencentCaptchaAppID cfg) (hv_TencentAppSecretKey cfg)
              (hv_TencentSecretID cfg) (hv_TencentSecretKey cfg))\<rparr>))
         else Inl HumanVerificationUnavailable)"

definition provider_verify ::
  "crypto \<Rightarrow> web \<Rightarrow> humanVerificationProvider \<Rightarrow> bytes option \<Rightarrow> unix_time \<Rightarrow> string \<Rightarrow> HumanProof \<Rightarrow> string \<Rightarrow> verification_error + unit" where
  "provider_verify cr web provider random now action proof remoteIP =
     (case provider of
        Turnstile secret hostnames \<Rightarrow> turnstile_verify web secret hostnames random action proof remoteIP
      | Tencent appID appSecret secretID secretKey \<Rightarrow> tencent_verify cr web appID appSecret secretID secretKey now proof remoteIP)"

definition service_Verify ::
  "crypto \<Rightarrow> web \<Rightarrow> humanVerificationService \<Rightarrow> bytes option \<Rightarrow> unix_time \<Rightarrow> string \<Rightarrow> HumanProof \<Rightarrow> string \<Rightarrow> verification_error + unit" where
  "service_Verify cr web service random now action proof remoteIP =
     (if \<not> hs_enabled service \<or> \<not> enabled_action (hs_actions service) action then Inr ()
      else case hs_provider service of
        None \<Rightarrow> Inl HumanVerificationUnavailable
      | Some provider \<Rightarrow> provider_verify cr web provider random now action proof remoteIP)"

section \<open>The gate of the server\<close>

record human_server =
  hm_crypto :: crypto
  hm_web :: web
  hm_Secret :: bytes
  hm_RequireHumanVerification :: bool
  hm_settingsDegraded :: bool
  hm_settings :: ServiceSettings
  hm_secrets :: ServiceSecrets

definition privateRateKey :: "crypto \<Rightarrow> bytes \<Rightarrow> string \<Rightarrow> string" where
  "privateRateKey cr secret value = base64_encode (cr_hmac cr secret value)"

definition humanVerificationConfigFromSettings :: "ServiceSettings \<Rightarrow> ServiceSecrets \<Rightarrow> HumanVerificationConfig" where
  "humanVerificationConfigFromSettings settings secrets =
     (let c = ss_Captcha settings
      in \<lparr>hv_Enabled = cp_Enabled c, hv_Provider = cp_Provider c, hv_SiteKey = cp_SiteKey c, hv_Secret = sc_TurnstileSecret secrets,
         hv_AllowedHostnames = cp_AllowedHostnames c, hv_TencentCaptchaAppID = cp_TencentCaptchaAppID c,
         hv_TencentAppSecretKey = sc_TencentAppSecretKey secrets, hv_TencentSecretID = sc_TencentSecretID secrets,
         hv_TencentSecretKey = sc_TencentSecretKey secrets, hv_Actions = cp_Actions c\<rparr>)"

definition criticalHumanVerificationActions :: "string list" where
  "criticalHumanVerificationActions = [''login'', ''register'', ''password_reset'', ''guest_transfer'', ''redeem'']"

definition validateCriticalHumanVerification :: "ServiceSettings \<Rightarrow> ServiceSecrets \<Rightarrow> bool" where
  "validateCriticalHumanVerification settings secrets \<longleftrightarrow> cp_Enabled (ss_Captcha settings) \<and>
     list_all (enabled_action (cp_Actions (ss_Captcha settings))) criticalHumanVerificationActions \<and>
     (case NewHumanVerifier (humanVerificationConfigFromSettings settings secrets) of Inl _ \<Rightarrow> False | Inr _ \<Rightarrow> True)"

definition criticalHumanVerificationReady :: "human_server \<Rightarrow> bool" where
  "criticalHumanVerificationReady server = validateCriticalHumanVerification (hm_settings server) (hm_secrets server)"

text \<open>A duplicate identifier and a duplicate proof are both reported as a conflict. The receipt is kept for
  ten minutes.\<close>

definition RecordHumanVerificationReceipt :: "string \<Rightarrow> string \<Rightarrow> string \<Rightarrow> string \<Rightarrow> ident option \<Rightarrow> unix_time \<Rightarrow> unit policy_op" where
  "RecordHumanVerificationReceipt provider action proofHash ipHash receiptID now db =
     (case receiptID of
        None \<Rightarrow> (Inl ErrOther, db)
      | Some i \<Rightarrow>
        (if sql_exists (\<lambda>r. vr_id r = i \<or> vr_proof_hash r = proofHash) (pd_receipts db) then (Inl ErrConflict, db)
         else (Inr (), db\<lparr>pd_receipts := pd_receipts db @ [\<lparr>vr_id = i, vr_provider = provider, vr_action = action,
           vr_proof_hash = proofHash, vr_ip_hash = ipHash, vr_created_at = now, vr_expires_at = now + 600\<rparr>]\<rparr>)))"

definition CleanupHumanVerification :: "unix_time \<Rightarrow> policy_db \<Rightarrow> policy_db" where
  "CleanupHumanVerification now db = db\<lparr>pd_receipts := sql_delete (\<lambda>r. vr_expires_at r < now) (pd_receipts db)\<rparr>"

text \<open>What a request brings: the address of the client, the clock, and the random identifiers.\<close>

record human_call =
  hc_ip :: string
  hc_now :: unix_time
  hc_random :: "bytes option"
  hc_receipt :: "ident option"
  hc_event :: "ident option"

datatype gate = Admitted | Refused int string

definition challenge_matches :: "human_server \<Rightarrow> human_call \<Rightarrow> string \<Rightarrow> HumanProof \<Rightarrow> bool" where
  "challenge_matches server call action proof \<longleftrightarrow>
     (case verifyTicket (hm_crypto server) (hm_Secret server) (hp_Challenge proof) ''human-verification'' (hc_now call) of
        Inl _ \<Rightarrow> False
      | Inr subject \<Rightarrow> secureEqual (hm_crypto server) subject
          (action @ [CHR 0x00] @ privateRateKey (hm_crypto server) (hm_Secret server) (hc_ip call)))"

definition note_event :: "human_call \<Rightarrow> string \<Rightarrow> string \<Rightarrow> string \<Rightarrow> string \<Rightarrow> policy_db \<Rightarrow> policy_db" where
  "note_event call action decision rule ipHash db = snd (AddRiskEvent action decision rule '''' ipHash '''' (hc_event call) (hc_now call) db)"

definition proof_hash :: "human_server \<Rightarrow> HumanProof \<Rightarrow> string" where
  "proof_hash server proof = privateRateKey (hm_crypto server) (hm_Secret server)
     (cp_Provider (ss_Captcha (hm_settings server)) @ [CHR 0x00] @ hp_Token proof @ [CHR 0x00] @ hp_RandStr proof)"

definition verify_proof :: "human_server \<Rightarrow> human_call \<Rightarrow> string \<Rightarrow> HumanProof \<Rightarrow> verification_error + unit" where
  "verify_proof server call action proof =
     (case NewHumanVerifier (humanVerificationConfigFromSettings (hm_settings server) (hm_secrets server)) of
        Inl e \<Rightarrow> Inl e
      | Inr service \<Rightarrow> service_Verify (hm_crypto server) (hm_web server) service (hc_random call) (hc_now call) action proof (hc_ip call))"

definition requireHumanVerification :: "human_server \<Rightarrow> human_call \<Rightarrow> string \<Rightarrow> HumanProof \<Rightarrow> policy_db \<Rightarrow> gate \<times> policy_db" where
  "requireHumanVerification server call action proof db =
     (let settings = hm_settings server; captcha = ss_Captcha settings;
          ipHash = privateRateKey (hm_crypto server) (hm_Secret server) (hc_ip call)
      in if hm_settingsDegraded server then (Refused 503 ''security_settings_unavailable'', db)
         else if hm_RequireHumanVerification server \<and> \<not> validateCriticalHumanVerification settings (hm_secrets server)
         then (Refused 503 ''human_verification_unavailable'', db)
         else if \<not> cp_Enabled captcha \<or> \<not> enabled_action (cp_Actions captcha) action then (Admitted, db)
         else if cp_Provider captcha = ''tencent'' \<and> \<not> challenge_matches server call action proof
         then (Refused 403 ''human_verification_failed'', db)
         else case verify_proof server call action proof of
           Inl e \<Rightarrow>
             ((case e of
                 HumanVerificationRequired \<Rightarrow> Refused 400 ''human_verification_required''
               | HumanVerificationFailed \<Rightarrow> Refused 403 ''human_verification_failed''
               | HumanVerificationUnavailable \<Rightarrow> Refused 503 ''human_verification_unavailable''),
              note_event call action ''rejected'' ''captcha_failed'' ipHash db)
         | Inr _ \<Rightarrow>
           (case RecordHumanVerificationReceipt (cp_Provider captcha) action (proof_hash server proof) ipHash (hc_receipt call) (hc_now call) db of
              (Inl e, db') \<Rightarrow>
                (if e = ErrConflict
                 then (Refused 403 ''human_verification_replayed'', note_event call action ''rejected'' ''captcha_replayed'' ipHash db')
                 else (Refused 503 ''human_verification_unavailable'', note_event call action ''rejected'' ''captcha_receipt_failed'' ipHash db'))
            | (Inr _, db') \<Rightarrow> (Admitted, note_event call action ''accepted'' ''captcha_ok'' ipHash db')))"

text \<open>A challenge for Tencent, over the persistent limit of 60 an hour; the in-memory limiter in front of it
  (\<open>Rate_Limits\<close>) and the lookup of the query parameter are the caller's.\<close>

definition issueHumanVerificationChallenge ::
  "human_server \<Rightarrow> human_call \<Rightarrow> bool \<Rightarrow> string \<Rightarrow> string \<Rightarrow> cdb \<Rightarrow> (int + string) \<times> cdb" where
  "issueHumanVerificationChallenge server call limiterAllows query nonce db =
     (let captcha = ss_Captcha (hm_settings server); action = TrimSpace query;
          ipHash = privateRateKey (hm_crypto server) (hm_Secret server) (hc_ip call)
      in if \<not> cp_Enabled captcha \<or> cp_Provider captcha \<noteq> ''tencent'' \<or> \<not> enabled_action (cp_Actions captcha) action then (Inl 404, db)
         else if \<not> limiterAllows then (Inl 429, db)
         else case AllowPersistent (''captcha-challenge:'' @ ipHash) 60 3600 0 0 (hc_now call) db of
           (Inr True, db') \<Rightarrow> (Inr (signTicket (hm_crypto server) (hm_Secret server) ''human-verification''
             (action @ [CHR 0x00] @ ipHash) (hc_now call + 300) nonce), db')
         | (_, db') \<Rightarrow> (Inl 429, db'))"

end
