(* ===== verification/Human_Properties.thy ===== *)
theory Human_Properties
  imports Human_Verification
begin

text \<open>
  The gate in front of critical actions fails closed, and a proof opens it once.
\<close>

section \<open>What an admission means\<close>

text \<open>The provider confirmed the proof: it was asked about it and answered in the affirmative, for the action and
  one of the hosts in the case of Turnstile.\<close>

definition confirmed :: "crypto \<Rightarrow> web \<Rightarrow> humanVerificationProvider \<Rightarrow> string \<Rightarrow> HumanProof \<Rightarrow> bool" where
  "confirmed cr web provider action proof \<longleftrightarrow>
     (case provider of
        Turnstile secret hostnames \<Rightarrow>
          (\<exists>ip key status body r. wb_send web (turnstile_request secret (TrimSpace (hp_Token proof)) ip key) = Reply status (Some body) \<and>
             200 \<le> status \<and> status < 300 \<and> wb_turnstile web body = Some r \<and> tr_Success r \<and> tr_Action r = action \<and>
             (\<exists>host \<in> hostnames. normalizeHumanVerificationHostname (tr_Hostname r) = Inr host))
      | Tencent appID appSecret secretID secretKey \<Rightarrow>
          (\<exists>ip now status body r. wb_send web (tencent_request cr secretID secretKey
               (tencent_payload (TrimSpace (hp_Token proof)) ip (TrimSpace (hp_RandStr proof)) appID appSecret) now) = Reply status (Some body) \<and>
             200 \<le> status \<and> status < 300 \<and> wb_tencent web body = Some r \<and> \<not> tn_Error r \<and> tn_CaptchaCode r = 1 \<and> tn_EvilLevel r \<noteq> 100))"

lemma decoded_body: "decodeHumanVerificationJSON decode body = Some r \<Longrightarrow> \<exists>b. body = Some b \<and> decode b = Some r"
  by (auto simp: decodeHumanVerificationJSON_def split: option.splits if_splits)

lemma turnstile_confirmed:
  "turnstile_verify web secret hostnames random action proof remoteIP = Inr () \<Longrightarrow> confirmed cr web (Turnstile secret hostnames) action proof"
  by (auto simp: turnstile_verify_def Let_def confirmed_def unsuccessful_def not_less not_le dest!: decoded_body
      split: if_splits sum.splits option.splits web_reply.splits) blast

lemma tencent_confirmed:
  "tencent_verify cr web appID appSecret secretID secretKey now proof remoteIP = Inr () \<Longrightarrow>
     confirmed cr web (Tencent appID appSecret secretID secretKey) action proof"
  by (auto simp: tencent_verify_def Let_def confirmed_def unsuccessful_def not_less not_le dest!: decoded_body
      split: if_splits sum.splits option.splits web_reply.splits) blast

lemma provider_confirmed: "provider_verify cr web provider random now action proof remoteIP = Inr () \<Longrightarrow> confirmed cr web provider action proof"
  by (cases provider) (simp_all add: provider_verify_def turnstile_confirmed tencent_confirmed)

section \<open>Receipts\<close>

lemma note_event_receipts [simp]: "pd_receipts (note_event call action decision rule ip db) = pd_receipts db"
  by (simp add: note_event_def AddRiskEvent_def sql_insert_def split: option.split)

definition spent :: "string \<Rightarrow> unix_time \<Rightarrow> policy_db \<Rightarrow> bool" where
  "spent hash until db \<longleftrightarrow> (\<exists>r \<in> set (pd_receipts db). vr_proof_hash r = hash \<and> until \<le> vr_expires_at r)"

lemma receipt_recorded:
  assumes "RecordHumanVerificationReceipt provider action hash ip rid now db = (Inr (), db')"
  shows "hash \<notin> vr_proof_hash ` set (pd_receipts db) \<and> spent hash (now + 600) db'"
  using assms by (auto simp: RecordHumanVerificationReceipt_def spent_def sql_exists_def list_ex_iff split: option.splits if_splits)

lemma receipt_grows: "set (pd_receipts db) \<subseteq> set (pd_receipts (snd (RecordHumanVerificationReceipt provider action hash ip rid now db)))"
  by (auto simp: RecordHumanVerificationReceipt_def split: option.splits)

lemma gate_keeps_receipts: "set (pd_receipts db) \<subseteq> set (pd_receipts (snd (requireHumanVerification server call action proof db)))"
proof -
  let ?p = "cp_Provider (ss_Captcha (hm_settings server))"
  let ?ip = "privateRateKey (hm_crypto server) (hm_Secret server) (hc_ip call)"
  let ?rec = "RecordHumanVerificationReceipt ?p action (proof_hash server proof) ?ip (hc_receipt call) (hc_now call) db"
  have "pd_receipts (snd (requireHumanVerification server call action proof db)) \<in> {pd_receipts db, pd_receipts (snd ?rec)}"
    by (cases ?rec) (auto simp: requireHumanVerification_def Let_def split: sum.splits verification_error.splits)
  then show ?thesis using receipt_grows [of db ?p action "proof_hash server proof" ?ip "hc_receipt call" "hc_now call"] by auto
qed

lemma gate_admits:
  assumes "requireHumanVerification server call action proof db = (Admitted, db')"
    and on: "cp_Enabled (ss_Captcha (hm_settings server))" "enabled_action (cp_Actions (ss_Captcha (hm_settings server))) action"
  shows "verify_proof server call action proof = Inr ()" "proof_hash server proof \<notin> vr_proof_hash ` set (pd_receipts db)"
    "spent (proof_hash server proof) (hc_now call + 600) db'"
    "cp_Provider (ss_Captcha (hm_settings server)) = ''tencent'' \<longrightarrow> challenge_matches server call action proof"
proof -
  let ?p = "cp_Provider (ss_Captcha (hm_settings server))"
  let ?ip = "privateRateKey (hm_crypto server) (hm_Secret server) (hc_ip call)"
  let ?rec = "RecordHumanVerificationReceipt ?p action (proof_hash server proof) ?ip (hc_receipt call) (hc_now call) db"
  have v: "verify_proof server call action proof = Inr ()"
    using assms by (cases "verify_proof server call action proof") (auto simp: requireHumanVerification_def Let_def split: if_splits verification_error.splits)
  then show "verify_proof server call action proof = Inr ()" .
  show "?p = ''tencent'' \<longrightarrow> challenge_matches server call action proof"
    using assms by (auto simp: requireHumanVerification_def Let_def split: if_splits)
  obtain db1 where r: "?rec = (Inr (), db1)" "pd_receipts db' = pd_receipts db1"
    using assms v by (cases ?rec) (auto simp: requireHumanVerification_def Let_def split: if_splits sum.splits)
  show "proof_hash server proof \<notin> vr_proof_hash ` set (pd_receipts db)" "spent (proof_hash server proof) (hc_now call + 600) db'"
    using receipt_recorded [OF r(1)] r(2) by (simp_all add: spent_def)
qed

section \<open>The gate fails closed\<close>

text \<open>C39. The gate in front of critical actions fails closed. On a server that requires human verification, a
  login, registration, password reset, guest transfer or redemption is only admitted when its settings are
  intact and name a usable provider, the provider confirmed the proof for this action, for Tencent the
  challenge was issued for this action and client, and a receipt of the proof was recorded that did not exist
  before. Whatever is missing, switched off, unreachable or malformed leads to a refusal.\<close>

theorem critical_actions_verified:
  assumes "hm_RequireHumanVerification server" "action \<in> set criticalHumanVerificationActions"
    and "requireHumanVerification server call action proof db = (Admitted, db')"
  shows "\<not> hm_settingsDegraded server \<and>
    (\<exists>service provider. NewHumanVerifier (humanVerificationConfigFromSettings (hm_settings server) (hm_secrets server)) = Inr service \<and>
       hs_provider service = Some provider \<and> confirmed (hm_crypto server) (hm_web server) provider action proof) \<and>
    (cp_Provider (ss_Captcha (hm_settings server)) = ''tencent'' \<longrightarrow> challenge_matches server call action proof) \<and>
    proof_hash server proof \<notin> vr_proof_hash ` set (pd_receipts db) \<and> spent (proof_hash server proof) (hc_now call + 600) db'"
proof -
  let ?c = "ss_Captcha (hm_settings server)"
  let ?cfg = "humanVerificationConfigFromSettings (hm_settings server) (hm_secrets server)"
  have valid: "\<not> hm_settingsDegraded server" "validateCriticalHumanVerification (hm_settings server) (hm_secrets server)"
    using assms(1,3) by (auto simp: requireHumanVerification_def Let_def split: if_splits)
  then have on: "cp_Enabled ?c" "enabled_action (cp_Actions ?c) action"
    using assms(2) by (auto simp: validateCriticalHumanVerification_def list_all_iff)
  note admitted = gate_admits [OF assms(3) on]
  obtain service where s: "NewHumanVerifier ?cfg = Inr service"
    using valid(2) by (auto simp: validateCriticalHumanVerification_def split: sum.splits)
  have "hs_enabled service = cp_Enabled ?c" "hs_actions service = cp_Actions ?c"
    using s by (auto simp: NewHumanVerifier_def Let_def humanVerificationConfigFromSettings_def split: if_splits sum.splits)
  then obtain provider where "hs_provider service = Some provider"
    "provider_verify (hm_crypto server) (hm_web server) provider (hc_random call) (hc_now call) action proof (hc_ip call) = Inr ()"
    using admitted(1) on by (auto simp: verify_proof_def s service_Verify_def split: option.splits)
  then show ?thesis using valid(1) s admitted(2-4) provider_confirmed by blast
qed

section \<open>A proof opens the gate once\<close>

text \<open>What happens to the receipts while the clock has not passed \<open>until\<close>: other requests, the sweep, and
  operations on other tables.\<close>

inductive gate_step :: "unix_time \<Rightarrow> policy_db \<Rightarrow> policy_db \<Rightarrow> bool" for until where
  request: "gate_step until db (snd (requireHumanVerification server call action proof db))"
| sweep: "now \<le> until \<Longrightarrow> gate_step until db (CleanupHumanVerification now db)"
| other: "pd_receipts db' = pd_receipts db \<Longrightarrow> gate_step until db db'"

lemma gate_step_spent: "gate_step until db db' \<Longrightarrow> spent hash until db \<Longrightarrow> spent hash until db'"
proof (induction rule: gate_step.induct)
  case (request db server call action p)
  then show ?case using gate_keeps_receipts by (fastforce simp: spent_def)
next
  case (sweep now db)
  then show ?case by (force simp: spent_def CleanupHumanVerification_def sql_delete_def)
next
  case (other db' db)
  then show ?case by (simp add: spent_def)
qed

lemma gate_steps_spent: "(gate_step until)\<^sup>*\<^sup>* db db' \<Longrightarrow> spent hash until db \<Longrightarrow> spent hash until db'"
  by (induction rule: rtranclp_induct) (auto intro: gate_step_spent)

text \<open>An action is verified on a server when its settings switch the verification of it on, or when the server
  requires human verification and the action is critical.\<close>

definition verified_action :: "human_server \<Rightarrow> string \<Rightarrow> bool" where
  "verified_action server action \<longleftrightarrow>
     cp_Enabled (ss_Captcha (hm_settings server)) \<and> enabled_action (cp_Actions (ss_Captcha (hm_settings server))) action \<or>
     hm_RequireHumanVerification server \<and> action \<in> set criticalHumanVerificationActions"

lemma verified_action_on:
  assumes "verified_action server action" "requireHumanVerification server call action proof db = (Admitted, db')"
  shows "cp_Enabled (ss_Captcha (hm_settings server))" "enabled_action (cp_Actions (ss_Captcha (hm_settings server))) action"
proof -
  have "hm_RequireHumanVerification server \<Longrightarrow> validateCriticalHumanVerification (hm_settings server) (hm_secrets server)"
    using assms(2) by (auto simp: requireHumanVerification_def Let_def split: if_splits)
  then show "cp_Enabled (ss_Captcha (hm_settings server))" "enabled_action (cp_Actions (ss_Captcha (hm_settings server))) action"
    using assms(1) by (auto simp: verified_action_def validateCriticalHumanVerification_def list_all_iff)
qed

text \<open>C40. A proof opens the gate once. After a proof was admitted for a verified action, no request that
  presents the same token and random string to a server with the same secret and the same provider is
  admitted for a verified action, be it the same or another one, as long as the receipt is kept, ten minutes:
  whatever the client, the challenge, the other settings or the answers of the provider are then, and whatever
  other requests, sweeps and operations on other tables come in between. An action whose verification an
  administrator has switched off meanwhile needs no proof, and another provider makes out another receipt; the
  statement is about neither.\<close>

theorem proof_admitted_once:
  assumes "requireHumanVerification server call action proof db = (Admitted, db1)" "verified_action server action"
    and "(gate_step (hc_now call + 600))\<^sup>*\<^sup>* db1 db2"
    and "hm_crypto server2 = hm_crypto server" "hm_Secret server2 = hm_Secret server"
    and "cp_Provider (ss_Captcha (hm_settings server2)) = cp_Provider (ss_Captcha (hm_settings server))"
    and "hp_Token proof2 = hp_Token proof" "hp_RandStr proof2 = hp_RandStr proof"
    and "verified_action server2 action2"
  shows "fst (requireHumanVerification server2 call2 action2 proof2 db2) \<noteq> Admitted"
proof
  assume "fst (requireHumanVerification server2 call2 action2 proof2 db2) = Admitted"
  then obtain db3 where again: "requireHumanVerification server2 call2 action2 proof2 db2 = (Admitted, db3)"
    by (cases "requireHumanVerification server2 call2 action2 proof2 db2") simp
  have "proof_hash server2 proof2 = proof_hash server proof" using assms(4-8) by (simp add: proof_hash_def)
  then have "proof_hash server proof \<notin> vr_proof_hash ` set (pd_receipts db2)"
    using gate_admits(2) [OF again verified_action_on [OF assms(9) again]] by simp
  moreover have "spent (proof_hash server proof) (hc_now call + 600) db2"
    using gate_steps_spent [OF assms(3)] gate_admits(3) [OF assms(1) verified_action_on [OF assms(2,1)]] by blast
  ultimately show False unfolding spent_def by (metis image_eqI)
qed

section \<open>An admission\<close>

definition demo_web :: web where
  "demo_web = \<lparr>wb_send = (\<lambda>q. Reply 200 (Some ''yes'')), wb_turnstile = (\<lambda>b. Some \<lparr>tr_Success = True, tr_Hostname = ''Example.com'', tr_Action = ''login''\<rparr>),
     wb_tencent = (\<lambda>b. None)\<rparr>"

definition demo_gate :: human_server where
  "demo_gate = \<lparr>hm_crypto = demo_crypto, hm_web = demo_web, hm_Secret = demo_secret, hm_RequireHumanVerification = True,
     hm_settingsDegraded = False,
     hm_settings = zero_settings\<lparr>ss_Captcha := \<lparr>cp_Enabled = True, cp_Provider = ''turnstile'', cp_SiteKey = ''site'',
       cp_AllowedHostnames = [''example.com''], cp_TencentCaptchaAppID = 0,
       cp_Actions = (\<lambda>a. if a \<in> set captchaActions then Some True else None), cp_SecretConfigured = True,
       cp_TencentCredentialsConfigured = False\<rparr>\<rparr>,
     hm_secrets = no_secrets\<lparr>sc_TurnstileSecret := ''secret''\<rparr>\<rparr>"

definition demo_proof :: HumanProof where
  "demo_proof = \<lparr>hp_Token = ''token'', hp_RandStr = '''', hp_Challenge = ''''\<rparr>"

definition demo_human_call :: human_call where
  "demo_human_call = \<lparr>hc_ip = ''2001:db8::1'', hc_now = 1000, hc_random = Some (replicate 16 (CHR ''r'')), hc_receipt = Some ''receipt'', hc_event = Some ''event''\<rparr>"

lemma demo_gate_settings: "cp_Enabled (ss_Captcha (hm_settings demo_gate))" "enabled_action (cp_Actions (ss_Captcha (hm_settings demo_gate))) ''login''"
  by (simp_all add: demo_gate_def enabled_action_def captchaActions_def)

lemma demo_admitted: "\<exists>db. requireHumanVerification demo_gate demo_human_call ''login'' demo_proof empty_policy = (Admitted, db)"
proof -
  let ?cfg = "humanVerificationConfigFromSettings (hm_settings demo_gate) (hm_secrets demo_gate)"
  let ?c = "ss_Captcha (hm_settings demo_gate)"
  have c: "normalizeHumanVerificationProvider (hv_Provider ?cfg) = ''turnstile''" "TrimSpace (hv_SiteKey ?cfg) \<noteq> ''''" "TrimSpace (hv_Secret ?cfg) \<noteq> ''''"
    "normalizeHumanVerificationHostname ''example.com'' = Inr ''example.com''" "hv_AllowedHostnames ?cfg = [''example.com'']"
    "list_all (enabled_action (cp_Actions ?c)) criticalHumanVerificationActions" "hv_Enabled ?cfg" by code_simp+
  have "hasEnabledHumanVerificationAction (hv_Actions ?cfg)"
  proof -
    have "hv_Actions ?cfg ''login'' = Some True" by (simp add: humanVerificationConfigFromSettings_def demo_gate_def captchaActions_def)
    then show ?thesis by (auto simp: hasEnabledHumanVerificationAction_def ran_def)
  qed
  then obtain service where s: "NewHumanVerifier ?cfg = Inr service" "service = \<lparr>hs_enabled = True, hs_actions = hv_Actions ?cfg,
      hs_provider = Some (Turnstile (hv_Secret ?cfg) {''example.com''})\<rparr>"
    using c by (simp add: NewHumanVerifier_def normalizeHumanVerificationHostnames_def Let_def)
  have h: "normalizeHumanVerificationHostname ''Example.com'' = Inr ''example.com''" "TrimSpace ''token'' = ''token''"
    "normalizeHumanVerificationIP ''2001:db8::1'' = Inr ''2001:db8::1''" by code_simp+
  have "turnstile_verify demo_web secret {''example.com''} (hc_random demo_human_call) ''login'' demo_proof (hc_ip demo_human_call) = Inr ()" for secret
    by (simp add: turnstile_verify_def demo_proof_def demo_human_call_def h demo_web_def randomUUID_def unsuccessful_def
        decodeHumanVerificationJSON_def humanVerificationResponseMax_def Let_def)
  moreover have web: "hm_web demo_gate = demo_web" by (simp add: demo_gate_def)
  moreover have "hv_Actions ?cfg = cp_Actions ?c" by (simp add: humanVerificationConfigFromSettings_def Let_def)
  ultimately have "verify_proof demo_gate demo_human_call ''login'' demo_proof = Inr ()"
    using demo_gate_settings(2) by (simp add: verify_proof_def s service_Verify_def provider_verify_def web)
  moreover have "validateCriticalHumanVerification (hm_settings demo_gate) (hm_secrets demo_gate)"
    using c(6) demo_gate_settings(1) by (simp add: validateCriticalHumanVerification_def s)
  moreover have "\<not> hm_settingsDegraded demo_gate" "cp_Provider ?c = ''turnstile''" "hc_receipt demo_human_call = Some ''receipt''"
    by (simp_all add: demo_gate_def demo_human_call_def)
  ultimately show ?thesis using demo_gate_settings
    by (simp add: requireHumanVerification_def RecordHumanVerificationReceipt_def empty_policy_def sql_exists_def Let_def)
qed

theorem critical_actions_verified_witness:
  "\<exists>db. requireHumanVerification demo_gate demo_human_call ''login'' demo_proof empty_policy = (Admitted, db) \<and>
     spent (proof_hash demo_gate demo_proof) 1600 db"
proof -
  obtain db where db: "requireHumanVerification demo_gate demo_human_call ''login'' demo_proof empty_policy = (Admitted, db)" using demo_admitted by blast
  have r: "hm_RequireHumanVerification demo_gate" "''login'' \<in> set criticalHumanVerificationActions" "hc_now demo_human_call = 1000"
    by (simp_all add: demo_gate_def criticalHumanVerificationActions_def demo_human_call_def)
  show ?thesis using critical_actions_verified [OF r(1,2) db] db r(3) by auto
qed

theorem proof_admitted_once_witness:
  "\<exists>db. requireHumanVerification demo_gate demo_human_call ''login'' demo_proof empty_policy = (Admitted, db) \<and>
     fst (requireHumanVerification (demo_gate\<lparr>hm_settings := zero_settings\<lparr>ss_Captcha := (ss_Captcha (hm_settings demo_gate))\<lparr>cp_SiteKey := ''new''\<rparr>\<rparr>\<rparr>)
       (demo_human_call\<lparr>hc_now := 1600\<rparr>) ''redeem'' (demo_proof\<lparr>hp_Challenge := ''c''\<rparr>) (CleanupHumanVerification 1600 db)) \<noteq> Admitted"
proof -
  let ?server2 = "demo_gate\<lparr>hm_settings := zero_settings\<lparr>ss_Captcha := (ss_Captcha (hm_settings demo_gate))\<lparr>cp_SiteKey := ''new''\<rparr>\<rparr>\<rparr>"
  obtain db where db: "requireHumanVerification demo_gate demo_human_call ''login'' demo_proof empty_policy = (Admitted, db)" using demo_admitted by blast
  have "(1600 :: int) \<le> hc_now demo_human_call + 600" by (simp add: demo_human_call_def)
  then have s: "(gate_step (hc_now demo_human_call + 600))\<^sup>*\<^sup>* db (CleanupHumanVerification 1600 db)" by (blast intro: gate_step.sweep)
  have same: "hm_crypto ?server2 = hm_crypto demo_gate" "hm_Secret ?server2 = hm_Secret demo_gate"
    "cp_Provider (ss_Captcha (hm_settings ?server2)) = cp_Provider (ss_Captcha (hm_settings demo_gate))"
    "hp_Token (demo_proof\<lparr>hp_Challenge := ''c''\<rparr>) = hp_Token demo_proof" "hp_RandStr (demo_proof\<lparr>hp_Challenge := ''c''\<rparr>) = hp_RandStr demo_proof"
    by simp_all
  have v: "verified_action demo_gate ''login''" "verified_action ?server2 ''redeem''"
    using demo_gate_settings by (simp_all add: verified_action_def demo_gate_def criticalHumanVerificationActions_def)
  show ?thesis using proof_admitted_once [OF db v(1) s same v(2)] db by blast
qed

section \<open>A padded proof\<close>

text \<open>The provider is asked about the trimmed proof, the receipt is made out for the proof as it came: a blank
  before the token makes a different receipt of the same question to the provider.\<close>

lemma TrimSpace_blank: "TrimSpace (CHR '' '' # s) = TrimSpace s"
proof -
  have "leading go_spaces (CHR '' '' # s) = 1" by (simp add: leading_def go_spaces_def)
  then have "trim_leading go_spaces (CHR '' '' # s) = trim_leading go_spaces s" by (simp add: trim_leading.simps [of _ "CHR '' '' # s"])
  then show ?thesis by (simp add: TrimSpace_def)
qed

lemma padded_proof_verified:
  "provider_verify cr web provider random now action (p\<lparr>hp_Token := CHR '' '' # hp_Token p\<rparr>) ip =
     provider_verify cr web provider random now action p ip"
  by (cases provider) (simp_all add: provider_verify_def turnstile_verify_def tencent_verify_def TrimSpace_blank)

end
