(* ===== verification/Storage_Serving.thy ===== *)
theory Storage_Serving
  imports Storage_Node
begin

text \<open>
  Serving a file from a storage node (storage_node.go: download): the ticket, the range, the session that
  reports to the control plane, and the stream with its checkpoints and heartbeats.
\<close>

section \<open>Ranges\<close>

record storageRange =
  sr_Start :: int
  sr_Length :: int
  sr_Partial :: bool

definition parseStorageRange :: "string \<Rightarrow> int \<Rightarrow> storageRange option" where
  "parseStorageRange value n =
     (if value = '''' then Some \<lparr>sr_Start = 0, sr_Length = n, sr_Partial = False\<rparr>
      else if n \<le> 0 \<or> \<not> has_prefix value ''bytes='' \<or> CHR '','' \<in> set value then None
      else case split_at (CHR ''-'') (TrimSpace (drop (length ''bytes='') value)) of
             [p0, p1] \<Rightarrow>
               (if p0 = ''''
                then (case ParseInt p1 of
                        None \<Rightarrow> None
                      | Some sfx \<Rightarrow>
                        (if sfx \<le> 0 then None
                         else let k = min sfx n in Some \<lparr>sr_Start = n - k, sr_Length = k, sr_Partial = True\<rparr>))
                else case ParseInt p0 of
                       None \<Rightarrow> None
                     | Some start \<Rightarrow>
                       (if start < 0 \<or> start \<ge> n then None
                        else if p1 = '''' then Some \<lparr>sr_Start = start, sr_Length = n - start, sr_Partial = True\<rparr>
                        else case ParseInt p1 of
                               None \<Rightarrow> None
                             | Some stop \<Rightarrow>
                               (if stop < start then None
                                else Some \<lparr>sr_Start = start, sr_Length = min stop (n - 1) - start + 1, sr_Partial = True\<rparr>)))
           | _ \<Rightarrow> None)"

text \<open>One underscore for every rune that is no printable ASCII character, a quote or a backslash.\<close>

definition header_safe :: "char \<Rightarrow> bool" where
  "header_safe c \<longleftrightarrow> 32 \<le> (of_char c :: nat) \<and> (of_char c :: nat) \<le> 126 \<and> c \<noteq> CHR 0x22 \<and> c \<noteq> CHR 0x5C"

function ascii_fallback :: "string \<Rightarrow> string" where
  "ascii_fallback s =
     (if s = [] then []
      else (if rune_length s = 1 \<and> header_safe (hd s) then hd s else CHR ''_'') # ascii_fallback (drop (max 1 (rune_length s)) s))"
  by pat_completeness auto
termination by (relation "measure length") auto

declare ascii_fallback.simps [simp del]

definition contentDisposition :: "string \<Rightarrow> string" where
  "contentDisposition filename =
     (let fallback = ascii_fallback filename
      in ''attachment; filename=\"'' @ (if fallback = '''' then ''download'' else fallback) @
         ''\"; filename*=UTF-8'' @ [CHR 0x27, CHR 0x27] @ PathEscape filename)"

definition setStorageDownloadHeaders :: "storage_upload \<Rightarrow> storageRange \<Rightarrow> (string \<times> string) list" where
  "setStorageDownloadHeaders upload selected =
     [(''Accept-Ranges'', ''bytes''), (''Content-Type'', su_content_type upload),
      (''Content-Disposition'', contentDisposition (su_original_name upload)),
      (''Content-Length'', show_int (sr_Length selected))] @
     (if sr_Partial selected
      then [(''Content-Range'', ''bytes '' @ show_int (sr_Start selected) @ ''-'' @
        show_int (sr_Start selected + sr_Length selected - 1) @ ''/'' @ show_int (su_length upload))] else [])"

lemma fallback_safe: "list_all header_safe (ascii_fallback s)"
proof (induction s rule: ascii_fallback.induct)
  case (1 s)
  have "header_safe (CHR ''_'')" by (simp add: header_safe_def)
  then show ?case using 1 by (subst ascii_fallback.simps) simp
qed

lemma range_inside:
  assumes "parseStorageRange value n = Some r" "0 < n"
  shows "0 \<le> sr_Start r" "0 < sr_Length r" "sr_Start r + sr_Length r \<le> n"
  using assms by (auto simp: parseStorageRange_def Let_def split: if_splits option.splits list.splits)


section \<open>The session of a download\<close>

record download_request =
  dq_ticket :: string
  dq_head :: bool
  dq_range :: string

definition settle_path :: "string \<Rightarrow> string" where
  "settle_path reservationID = ''/internal/v1/storage/downloads/'' @ PathEscape reservationID @ ''/settle''"

text \<open>The part under the lock of the object. It ends with an answer, or with the bytes to stream, read
  from the file that was opened.\<close>

definition begin_session ::
  "call \<Rightarrow> reply \<Rightarrow> string \<Rightarrow> storage_upload \<Rightarrow> storageRange \<Rightarrow> sdb \<Rightarrow> answer option \<times> sdb" where
  "begin_session call reply reservationID upload selected db =
     (case PrepareDownloadSession
         \<lparr>ds_reservation_id = reservationID, ds_upload_id = su_id upload, ds_expected_bytes = su_length upload,
          ds_stream_bytes = sr_Length selected, ds_actual_bytes = 0, ds_status = BeginPending,
          ds_settle_path = settle_path reservationID, ds_started_at = ca_now call, ds_heartbeat_at = 0\<rparr> db of
        (Inl e, db1) \<Rightarrow>
          (Some (if e = ErrConflict then writeStorageError 403 ''download_already_started'' []
                 else writeStorageError 503 ''download_session_unavailable'' []), db1)
      | (Inr _, db1) \<Rightarrow>
        (let result = sendControl reply
         in if result \<noteq> Accepted
            then (Some (writeStorageError (if 400 \<le> result_status result \<and> result_status result < 500 then 403 else 503)
                    ''download_not_authorized'' []),
                  if storageBeginDefinitelyRejected result then snd (CancelDownloadSession reservationID db1)
                  else snd (FinishPendingDownloadSession (ca_later call) reservationID (ca_later call) db1))
            else case ActivateDownloadSession reservationID db1 of
                   (Inl _, db2) \<Rightarrow>
                     (Some (writeStorageError 503 ''download_session_unavailable'' []),
                      snd (FinishPendingDownloadSession (ca_later call) reservationID (ca_later call) db2))
                 | (Inr _, db2) \<Rightarrow> (None, db2)))"

datatype serving = Answered answer | Streams answer ident storageRange string

definition open_object :: "node_setup \<Rightarrow> call \<Rightarrow> StorageDownloadClaims \<Rightarrow> node \<Rightarrow> (storage_upload \<times> string) option" where
  "open_object st call claims nd =
     (case CleanUpload (st_env st) (cl_uploadID claims) (ca_now call) (nd_db nd) of
        Inl _ \<Rightarrow> None
      | Inr upload \<Rightarrow>
        (if path_Clean (su_path upload) \<noteq> path_Clean (object_path (st_env st) (su_id upload)) then None
         else case nd_disk nd (su_path upload) of
                None \<Rightarrow> None
              | Some contents \<Rightarrow>
                (if io_fails (ca_io call) Open (su_path upload) \<or> io_fails (ca_io call) Stat (su_path upload) \<or>
                    int (length contents) \<noteq> su_length upload then None else Some (upload, contents))))"

definition serve_object ::
  "call \<Rightarrow> reply \<Rightarrow> download_request \<Rightarrow> StorageDownloadClaims \<Rightarrow> storage_upload \<Rightarrow> string \<Rightarrow> node \<Rightarrow> serving \<times> node" where
  "serve_object call reply request claims upload contents nd =
     (case parseStorageRange (dq_range request) (su_length upload) of
        None \<Rightarrow> (Answered (writeStorageError 416 ''invalid_range'' [(''Content-Range'', ''bytes */'' @ show_int (su_length upload))]), nd)
      | Some selected \<Rightarrow>
        (let accepted = WriteHeader (if sr_Partial selected then 206 else 200) (setStorageDownloadHeaders upload selected)
         in if dq_head request then (Answered accepted, nd)
            else if io_fails (ca_io call) Seek (su_path upload) then (Answered (writeStorageError 500 ''storage_error'' []), nd)
            else case begin_session call reply (cl_reservationID claims) upload selected (nd_db nd) of
                   (Some a, db1) \<Rightarrow> (Answered a, nd\<lparr>nd_db := db1\<rparr>)
                 | (None, db1) \<Rightarrow>
                   (Streams accepted (cl_reservationID claims) selected
                      (take (nat (sr_Length selected)) (drop (nat (sr_Start selected)) contents)), nd\<lparr>nd_db := db1\<rparr>)))"

definition download :: "node_setup \<Rightarrow> call \<Rightarrow> reply \<Rightarrow> download_request \<Rightarrow> node \<Rightarrow> serving \<times> node" where
  "download st call reply request nd =
     (case VerifyStorageDownloadTicketAt (st_crypto st) (st_decode_claims st) (cfg_SharedSecret (st_cfg st)) (dq_ticket request) (ca_now call) of
        Inl _ \<Rightarrow> (Answered (writeStorageError 401 ''invalid_ticket'' []), nd)
      | Inr claims \<Rightarrow>
        (if cl_nodeID claims \<noteq> cfg_NodeID (st_cfg st) then (Answered (writeStorageError 401 ''invalid_ticket'' []), nd)
         else case requireStorageAcceptance st call (nd_db nd) of
                Some a \<Rightarrow> (Answered a, nd)
              | None \<Rightarrow>
                (case (if dq_head request then Inr () else fst (acquireTransferSlot (ca_source call) (ca_slots call))) of
                   Inl SourceLimit \<Rightarrow> (Answered (writeStorageError 429 ''download_source_concurrency'' [(''Retry-After'', ''1'')]), nd)
                 | Inl GlobalLimit \<Rightarrow> (Answered (writeStorageError 429 ''download_concurrency'' [(''Retry-After'', ''1'')]), nd)
                 | Inr _ \<Rightarrow>
                   (case open_object st call claims nd of
                      None \<Rightarrow> (Answered (writeStorageError 410 ''file_unavailable'' []), nd)
                    | Some (upload, contents) \<Rightarrow> serve_object call reply request claims upload contents nd))))"

section \<open>The stream\<close>

definition storageDownloadCheckpointBytes :: int where "storageDownloadCheckpointBytes = 2 ^ 20"

text \<open>What happens while a file is streamed: the client takes some bytes of a chunk, with or without an
  error of the connection; a heartbeat is due, with the reply of the control plane; the context ends.\<close>

datatype stream_event = Wrote int bool | Heartbeat unix_time reply | Ended

record stream =
  sm_actual :: int
  sm_persisted :: int
  sm_open :: bool
  sm_beating :: bool

definition checkpoint_Write :: "ident \<Rightarrow> int \<Rightarrow> bool \<Rightarrow> stream \<times> sdb \<Rightarrow> stream \<times> sdb" where
  "checkpoint_Write reservationID written broken s =
     (let actual = sm_actual (fst s) + written; sm = (fst s)\<lparr>sm_actual := actual, sm_open := \<not> broken\<rparr>
      in if written \<le> 0 then ((fst s)\<lparr>sm_open := False\<rparr>, snd s)
         else if actual - sm_persisted sm < storageDownloadCheckpointBytes then (sm, snd s)
         else case UpdateDownloadProgress reservationID actual (snd s) of
                (Inl _, db1) \<Rightarrow> (sm\<lparr>sm_open := False\<rparr>, db1)
              | (Inr _, db1) \<Rightarrow> (sm\<lparr>sm_persisted := actual\<rparr>, db1))"

definition run_heartbeat :: "ident \<Rightarrow> unix_time \<Rightarrow> reply \<Rightarrow> stream \<times> sdb \<Rightarrow> stream \<times> sdb" where
  "run_heartbeat reservationID now reply s =
     (case HeartbeatDownloadSession reservationID (sm_actual (fst s)) now (snd s) of
        (Inl _, db1) \<Rightarrow> ((fst s)\<lparr>sm_open := False, sm_beating := False\<rparr>, db1)
      | (Inr reliableBytes, db1) \<Rightarrow>
        (let status = result_status (sendControl reply)
         in if reliableBytes \<noteq> 0 \<and> 400 \<le> status \<and> status < 500
            then ((fst s)\<lparr>sm_open := False, sm_beating := False\<rparr>, db1) else (fst s, db1)))"

fun stream_steps :: "ident \<Rightarrow> int \<Rightarrow> stream_event list \<Rightarrow> stream \<times> sdb \<Rightarrow> stream \<times> sdb" where
  "stream_steps reservationID amount [] s = s"
| "stream_steps reservationID amount (ev # evs) s =
     (if \<not> sm_open (fst s) \<or> sm_actual (fst s) \<ge> amount then s
      else stream_steps reservationID amount evs
        (case ev of
           Wrote n broken \<Rightarrow> checkpoint_Write reservationID (min n (amount - sm_actual (fst s))) broken s
         | Heartbeat now reply \<Rightarrow> if sm_beating (fst s) then run_heartbeat reservationID now reply s else s
         | Ended \<Rightarrow> ((fst s)\<lparr>sm_open := False\<rparr>, snd s)))"

definition finish_stream :: "ident \<Rightarrow> int \<Rightarrow> unix_time \<Rightarrow> int \<Rightarrow> delivery_round list \<Rightarrow> sdb \<Rightarrow> sdb" where
  "finish_stream reservationID actualBytes now maxAttempts rounds db =
     (case FinishDownloadSession now reservationID actualBytes now db of
        (Inr _, db1) \<Rightarrow> snd (retryOutbox maxAttempts rounds db1)
      | (Inl _, db1) \<Rightarrow>
        (case ConservativelyFinishDownloadSession now reservationID now db1 of
           (Inr _, db2) \<Rightarrow> snd (retryOutbox maxAttempts rounds db2)
         | (Inl _, db2) \<Rightarrow> db2))"

definition stream_download ::
  "ident \<Rightarrow> storageRange \<Rightarrow> stream_event list \<Rightarrow> unix_time \<Rightarrow> int \<Rightarrow> delivery_round list \<Rightarrow> sdb \<Rightarrow> int \<times> sdb" where
  "stream_download reservationID selected evs now maxAttempts rounds db =
     (case stream_steps reservationID (sr_Length selected) evs
         (\<lparr>sm_actual = 0, sm_persisted = 0, sm_open = True, sm_beating = True\<rparr>, db) of
        (sm, db1) \<Rightarrow> (sm_actual sm, finish_stream reservationID (sm_actual sm) now maxAttempts rounds db1))"

end
