(* ===== verification/Storage_Content.thy ===== *)
theory Storage_Content
  imports Storage_Serving
begin

text \<open>
  The bytes a storage node serves are the bytes it was sent. The invariant \<open>content_inv\<close> ties the rows of
  the upload table to the files on the disk and to what the uploader was told is stored; it holds after
  every handler and worker, whichever system calls fail and wherever the process stops.
\<close>

section \<open>Paths of the three files\<close>

definition good_env :: "storage_env \<Rightarrow> bool" where
  "good_env env \<longleftrightarrow> clean_root (env_root env) \<and> (\<forall>key. env_safe env key)"

definition files :: "storage_env \<Rightarrow> disk \<Rightarrow> ident \<Rightarrow> string option \<times> string option \<times> string option" where
  "files env disk i = (disk (tmp_path env i), disk (quarantine_path env i), disk (object_path env i))"

lemma storagePath_key:
  assumes "good_env env" "validStorageObjectID i" "(d, i @ x) \<in> upload_keys i"
  shows "storagePath env d i x = env_root env @ ''/'' @ d @ ''/'' @ i @ x" "path_Clean (storagePath env d i x) = storagePath env d i x"
proof -
  have r: "clean_root (env_root env)" and s: "env_safe env (d @ ''/'' @ i @ x)" using assms(1) by (simp_all add: good_env_def)
  show p: "storagePath env d i x = env_root env @ ''/'' @ d @ ''/'' @ i @ x"
    using resolve_key [OF r assms(2,3)] s by (simp add: storagePath_def storageUploadPathKey_def)
  show "path_Clean (storagePath env d i x) = storagePath env d i x"
    unfolding p using path_below_root(1) [OF r] upload_key_plain(1,2) [OF assms(2,3)] by simp
qed

lemma storage_paths:
  assumes "good_env env" "validStorageObjectID i"
  shows "tmp_path env i = env_root env @ ''/tmp/'' @ i @ ''.part''" "quarantine_path env i = env_root env @ ''/quarantine/'' @ i @ ''.blob''"
    "object_path env i = env_root env @ ''/objects/'' @ i @ ''.blob''"
    "path_Clean (tmp_path env i) = tmp_path env i" "path_Clean (quarantine_path env i) = quarantine_path env i"
    "path_Clean (object_path env i) = object_path env i"
  using storagePath_key [OF assms, of "''tmp''" "''.part''"] storagePath_key [OF assms, of "''quarantine''" "''.blob''"]
    storagePath_key [OF assms, of "''objects''" "''.blob''"] by (simp_all add: upload_keys_def)

lemma paths_differ:
  assumes "good_env env" "validStorageObjectID i" "validStorageObjectID j"
  shows "tmp_path env i \<noteq> quarantine_path env j" "tmp_path env i \<noteq> object_path env j" "quarantine_path env i \<noteq> object_path env j"
    "quarantine_path env i \<noteq> tmp_path env j" "object_path env i \<noteq> tmp_path env j" "object_path env i \<noteq> quarantine_path env j"
    "tmp_path env i = tmp_path env j \<longleftrightarrow> i = j" "quarantine_path env i = quarantine_path env j \<longleftrightarrow> i = j"
    "object_path env i = object_path env j \<longleftrightarrow> i = j"
  using storage_paths(1-3) [OF assms(1,2)] storage_paths(1-3) [OF assms(1,3)] by auto

section \<open>Rows as the store hands them out\<close>

definition row_of :: "ident \<Rightarrow> sdb \<Rightarrow> storage_upload \<Rightarrow> bool" where
  "row_of i db u \<longleftrightarrow> u \<in> set (suploads db) \<and> su_id u = i"

definition ids :: "sdb \<Rightarrow> ident set" where
  "ids db = su_id ` set (suploads db)"

lemma scanUpload_path:
  assumes "good_env env" "row_wf u" "scanUpload env u = Inr v"
  shows "v = u\<lparr>su_path := su_path v\<rparr>"
    "su_status u = StorageUploading \<Longrightarrow> su_path v = tmp_path env (su_id u)"
    "su_status u = PendingScan \<or> su_status u = StorageScanning \<Longrightarrow> su_path v = quarantine_path env (su_id u)"
    "su_status u = Clean \<Longrightarrow> su_path v = object_path env (su_id u)"
proof -
  have i: "validStorageObjectID (su_id u)" using assms(2) by (simp add: row_wf_def)
  have r: "clean_root (env_root env)" "\<And>k. env_safe env k" using assms(1) by (simp_all add: good_env_def)
  note n = normalize_key [OF r(1) i _ r(2)]
  note p = storage_paths(1-3) [OF assms(1) i]
  obtain k where k: "normalizeUploadPath env (su_id u) (su_path u) = Inr (k, su_path v)" "v = u\<lparr>su_path := su_path v\<rparr>"
    using assms(3) by (auto simp: scanUpload_def split: sum.splits prod.splits)
  show "v = u\<lparr>su_path := su_path v\<rparr>" by (rule k(2))
  show "su_status u = StorageUploading \<Longrightarrow> su_path v = tmp_path env (su_id u)"
    using k(1) assms(2) n [of "''tmp''" "su_id u @ ''.part''"] by (auto simp: p row_wf_def row_path_ok_def storageUploadPathKey_def upload_keys_def)
  show "su_status u = PendingScan \<or> su_status u = StorageScanning \<Longrightarrow> su_path v = quarantine_path env (su_id u)"
    using k(1) assms(2) n [of "''quarantine''" "su_id u @ ''.blob''"]
    by (auto simp: p row_wf_def row_path_ok_def storageUploadPathKey_def upload_keys_def)
  show "su_status u = Clean \<Longrightarrow> su_path v = object_path env (su_id u)"
    using k(1) assms(2) n [of "''objects''" "su_id u @ ''.blob''"] by (auto simp: p row_wf_def row_path_ok_def storageUploadPathKey_def upload_keys_def)
qed

lemma UploadByID_row:
  assumes "storage_UploadByID env i db = Inr v" "uploads_wf db"
  obtains u where "row_of i db u" "row_wf u" "scanUpload env u = Inr v"
proof -
  obtain u where "sql_first (\<lambda>u. su_id u = i) (suploads db) = Some u" "scanUpload env u = Inr v"
    using assms(1) by (auto simp: storage_UploadByID_def split: option.splits)
  then show ?thesis using that assms(2) by (auto simp: row_of_def uploads_wf_def dest!: sql_firstD)
qed

lemma row_unique: "uploads_wf db \<Longrightarrow> row_of i db u \<Longrightarrow> row_of i db v \<Longrightarrow> u = v"
  by (auto simp: row_of_def uploads_wf_def dest: keyed_unique)

lemma row_valid: "uploads_wf db \<Longrightarrow> row_of i db u \<Longrightarrow> validStorageObjectID i \<and> row_wf u"
  by (auto simp: row_of_def uploads_wf_def row_wf_def)

lemma rows_iff: "i \<in> ids db \<longleftrightarrow> (\<exists>u. row_of i db u)"
  by (auto simp: ids_def row_of_def)

section \<open>What the files of an upload hold\<close>

type_synonym received = "ident \<Rightarrow> string"

definition row_content ::
  "crypto \<Rightarrow> storage_upload \<Rightarrow> string \<Rightarrow> string option \<times> string option \<times> string option \<Rightarrow> bool" where
  "row_content cr u r f \<longleftrightarrow> (case f of (t, q, ob) \<Rightarrow>
     int (length r) = su_offset u \<and>
     (\<forall>c. t = Some c \<and> length r \<le> length c \<longrightarrow> take (length r) c = r) \<and>
     (\<forall>c. q = Some c \<or> ob = Some c \<longrightarrow> su_offset u = su_length u \<and> (int (length c) = su_length u \<longrightarrow> c = r)) \<and>
     (su_status u = Clean \<longrightarrow> su_sha256 u = hex_encode (cr_sha256 cr r) \<and> \<not> Contains r eicarSignature))"

definition content_inv :: "node_setup \<Rightarrow> sdb \<Rightarrow> disk \<Rightarrow> received \<Rightarrow> bool" where
  "content_inv st db disk recv \<longleftrightarrow> uploads_wf db \<and>
     (\<forall>u \<in> set (suploads db). row_content (st_crypto st) u (recv (su_id u)) (files (st_env st) disk (su_id u))) \<and>
     (\<forall>i. i \<notin> ids db \<and> validStorageObjectID i \<longrightarrow>
        disk (quarantine_path (st_env st) i) = None \<and> disk (object_path (st_env st) i) = None)"

lemma row_content_offset: "row_content cr u r f \<Longrightarrow> su_offset u = int (length r)"
  by (auto simp: row_content_def split: prod.splits)

text \<open>Files of an upload may disappear, and move between quarantine and objects.\<close>

lemma row_content_stored:
  assumes "row_content cr u r (t, q, ob)" "\<And>c. q' = Some c \<or> ob' = Some c \<Longrightarrow> q = Some c \<or> ob = Some c"
    "t' = t \<or> t' = None"
  shows "row_content cr u r (t', q', ob')"
  using assms unfolding row_content_def by (simp, blast)

lemma row_content_tmp:
  assumes "row_content cr u r (t, q, ob)" "\<And>c. t' = Some c \<Longrightarrow> length r \<le> length c \<Longrightarrow> take (length r) c = r"
  shows "row_content cr u r (t', q, ob)"
  using assms unfolding row_content_def by simp

lemma row_content_finished:
  assumes "row_content cr u r (Some c, q, ob)" "su_offset u = su_length u"
  shows "row_content cr u r (None, Some c, ob)"
proof -
  have r: "int (length r) = su_length u" "\<And>c. ob = Some c \<Longrightarrow> int (length c) = su_length u \<Longrightarrow> c = r"
    "length r \<le> length c \<Longrightarrow> take (length r) c = r" using assms unfolding row_content_def by simp_all
  have "c = r" if "int (length c) = su_length u" using r that by simp
  then show ?thesis using assms r unfolding row_content_def by auto
qed

text \<open>A row may change its status, to clean only after a scan.\<close>

lemma row_content_status:
  assumes "row_content cr u r f" "su_offset v = su_offset u" "su_length v = su_length u"
    "su_status v = Clean \<Longrightarrow> su_sha256 v = hex_encode (cr_sha256 cr r) \<and> \<not> Contains r eicarSignature"
  shows "row_content cr v r f"
  using assms unfolding row_content_def by (auto split: prod.splits)

section \<open>Changes of the disk\<close>

definition shrinks :: "disk \<Rightarrow> disk \<Rightarrow> bool" where
  "shrinks disk disk' \<longleftrightarrow> (\<forall>p. disk' p = disk p \<or> disk' p = None)"

definition only :: "storage_env \<Rightarrow> ident \<Rightarrow> disk \<Rightarrow> disk \<Rightarrow> bool" where
  "only env i disk disk' \<longleftrightarrow> (\<forall>p. p \<notin> {tmp_path env i, quarantine_path env i, object_path env i} \<longrightarrow> disk' p = disk p)"

lemma inv_row: "content_inv st db disk recv \<Longrightarrow> row_of i db u \<Longrightarrow> row_content (st_crypto st) u (recv i) (files (st_env st) disk i)"
  by (auto simp: content_inv_def row_of_def)

lemma inv_wf: "content_inv st db disk recv \<Longrightarrow> uploads_wf db"
  by (simp add: content_inv_def)

lemma shrinks_refl [simp]: "shrinks disk disk" and shrinks_remove: "shrinks disk (disk(p := None))"
  by (simp_all add: shrinks_def)

lemma shrinks_trans: "shrinks a b \<Longrightarrow> shrinks b c \<Longrightarrow> shrinks a c"
  unfolding shrinks_def by metis

lemma inv_shrink:
  assumes inv: "content_inv st db disk recv" and s: "shrinks disk disk'"
  shows "content_inv st db disk' recv"
proof -
  have "row_content (st_crypto st) u r (files (st_env st) disk' i)" if "row_content (st_crypto st) u r (files (st_env st) disk i)" for u r i
  proof -
    have none: "disk' p = disk p \<or> disk' p = None" for p using s by (simp add: shrinks_def)
    then have some: "disk p = Some c" if "disk' p = Some c" for p c using that by (metis option.distinct(1))
    show ?thesis unfolding files_def
    proof (rule row_content_stored [OF that [unfolded files_def]])
      show "disk (quarantine_path (st_env st) i) = Some c \<or> disk (object_path (st_env st) i) = Some c"
        if "disk' (quarantine_path (st_env st) i) = Some c \<or> disk' (object_path (st_env st) i) = Some c" for c using that some by blast
    qed (rule none)
  qed
  moreover have "disk' p = None" if "disk p = None" for p using s that by (metis shrinks_def)
  ultimately show ?thesis using inv unfolding content_inv_def by simp
qed

lemma only_files:
  assumes "good_env env" "only env i disk disk'" "validStorageObjectID i" "validStorageObjectID j" "j \<noteq> i"
  shows "files env disk' j = files env disk j"
  using assms(2,5) paths_differ [OF assms(1,4,3)] unfolding only_def files_def by simp

lemma inv_only:
  assumes env: "good_env (st_env st)" and inv: "content_inv st db disk recv" and o: "only (st_env st) i disk disk'"
    and i: "validStorageObjectID i"
    and row: "\<And>u. row_of i db u \<Longrightarrow> row_content (st_crypto st) u (recv i) (files (st_env st) disk i) \<Longrightarrow>
      row_content (st_crypto st) u (recv i) (files (st_env st) disk' i)"
    and no: "i \<notin> ids db \<Longrightarrow> disk' (quarantine_path (st_env st) i) = None \<and> disk' (object_path (st_env st) i) = None"
  shows "content_inv st db disk' recv"
  unfolding content_inv_def
proof (intro conjI ballI allI impI)
  show "uploads_wf db" by (rule inv_wf [OF inv])
next
  fix u assume u: "u \<in> set (suploads db)"
  then have r: "row_of (su_id u) db u" by (simp add: row_of_def)
  note c = inv_row [OF inv r]
  show "row_content (st_crypto st) u (recv (su_id u)) (files (st_env st) disk' (su_id u))"
  proof (cases "su_id u = i")
    case True
    then show ?thesis using row [of u] r c by simp
  next
    case False
    then show ?thesis using c only_files [OF env o i] row_valid [OF inv_wf [OF inv] r] by simp
  qed
next
  fix j assume j: "j \<notin> ids db \<and> validStorageObjectID j"
  have "disk' (quarantine_path (st_env st) j) = None \<and> disk' (object_path (st_env st) j) = None"
  proof (cases "j = i")
    case True
    then show ?thesis using no j by simp
  next
    case False
    then show ?thesis using inv j only_files [OF env o i, of j] by (auto simp: content_inv_def files_def)
  qed
  then show "disk' (quarantine_path (st_env st) j) = None" "disk' (object_path (st_env st) j) = None" by simp_all
qed

text \<open>Writing to the temporary file.\<close>

lemma inv_tmp:
  assumes env: "good_env (st_env st)" and inv: "content_inv st db disk recv" and i: "validStorageObjectID i"
    and c: "\<And>u. row_of i db u \<Longrightarrow> length (recv i) \<le> length c \<Longrightarrow> take (length (recv i)) c = recv i"
  shows "content_inv st db (disk(tmp_path (st_env st) i \<mapsto> c)) recv"
proof (rule inv_only [OF env inv _ i])
  note d = paths_differ [OF env i i]
  let ?d = "disk(tmp_path (st_env st) i \<mapsto> c)"
  have f: "files (st_env st) ?d i = (Some c, snd (files (st_env st) disk i))" using d by (simp add: files_def)
  show "only (st_env st) i disk ?d" by (simp add: only_def)
  show "?d (quarantine_path (st_env st) i) = None \<and> ?d (object_path (st_env st) i) = None" if "i \<notin> ids db"
    using inv i that d by (simp add: content_inv_def)
  fix u assume u: "row_of i db u" and r: "row_content (st_crypto st) u (recv i) (files (st_env st) disk i)"
  show "row_content (st_crypto st) u (recv i) (files (st_env st) ?d i)"
    using r c [OF u] unfolding f by (auto simp: row_content_def files_def)
qed

lemma ensure_cases:
  assumes "ensureUploadingFile env io v created disk = (r, disk')"
  shows "disk' = disk \<or> disk (tmp_path env (su_id v)) = None \<and> disk' = disk(tmp_path env (su_id v) \<mapsto> '''')"
  using assms by (auto simp: ensureUploadingFile_def Let_def split: if_splits option.splits)

lemma ensure_inv:
  assumes "good_env (st_env st)" "content_inv st db disk recv" "validStorageObjectID (su_id v)"
  shows "content_inv st db (snd (ensureUploadingFile (st_env st) io v created disk)) recv"
proof -
  obtain r disk' where r: "ensureUploadingFile (st_env st) io v created disk = (r, disk')" by fastforce
  show ?thesis using ensure_cases [OF r] inv_tmp [OF assms, of "''''"] assms(2) r by auto
qed

section \<open>Changes of the table\<close>

lemma inv_same_rows: "content_inv st db disk recv \<Longrightarrow> suploads db' = suploads db \<Longrightarrow> content_inv st db' disk recv"
  using uploads_wf_same unfolding content_inv_def ids_def by metis

lemma inv_update_received:
  assumes inv: "content_inv st db disk recv" and db': "suploads db' = sql_update q f (suploads db)" and wf: "uploads_wf db'"
    and key: "\<And>u. su_id (f u) = su_id u"
    and row: "\<And>u. row_of (su_id u) db u \<Longrightarrow> q u \<Longrightarrow> row_content (st_crypto st) u (recv (su_id u)) (files (st_env st) disk (su_id u)) \<Longrightarrow>
      row_content (st_crypto st) (f u) (recv' (su_id u)) (files (st_env st) disk (su_id u))"
    and keep: "\<And>u. row_of (su_id u) db u \<Longrightarrow> \<not> q u \<Longrightarrow> recv' (su_id u) = recv (su_id u)"
  shows "content_inv st db' disk recv'"
  unfolding content_inv_def
proof (intro conjI ballI allI impI)
  show "uploads_wf db'" by (rule wf)
next
  fix v assume "v \<in> set (suploads db')"
  then show "row_content (st_crypto st) v (recv' (su_id v)) (files (st_env st) disk (su_id v))" unfolding db'
  proof (cases rule: sql_update_memE)
    case same
    then show ?thesis using inv keep [of v] by (simp add: content_inv_def row_of_def)
  next
    case (changed u)
    then show ?thesis using row [of u] inv key by (simp add: content_inv_def row_of_def)
  qed
next
  fix i assume i: "i \<notin> ids db' \<and> validStorageObjectID i"
  have "map su_id (suploads db') = map su_id (suploads db)" by (simp add: db' sql_update_def key)
  then have "ids db' = ids db" unfolding ids_def by (metis list.set_map)
  then show "disk (quarantine_path (st_env st) i) = None" "disk (object_path (st_env st) i) = None"
    using inv i by (simp_all add: content_inv_def)
qed

lemmas inv_update = inv_update_received [where recv' = recv and recv = recv for recv, OF _ _ _ _ _ refl]

lemma reserve_row:
  assumes "ReserveUpload env req db = (r, db')" "suploads db' \<noteq> suploads db"
  shows "\<exists>u. suploads db' = suploads db @ [u] \<and> su_id u = su_id req \<and> su_offset u = 0 \<and> su_status u = StorageUploading \<and>
    su_id req \<notin> ids db \<and> row_wf u"
proof -
  obtain w where w: "suploads db' = suploads db @ [w]" "row_wf w"
    using assms by (cases rule: reserve_upload_cases) auto
  obtain k a where n: "normalizeUploadPath env (su_id req) (su_path req) = Inr (k, a)"
    using assms by (auto simp: ReserveUpload_def split: sum.splits)
  have "\<not> sql_exists (\<lambda>u. su_id u = su_id req) (suploads db) \<and> suploads db' = suploads db @
      [req\<lparr>su_offset := 0, su_status := StorageUploading, su_path := k, su_sha256 := '''', su_scan_detail := '''', su_lease_until := 0, su_lease_id := ''''\<rparr>]"
    using assms n by (auto simp: ReserveUpload_def Let_def split: sum.splits if_splits)
  then show ?thesis using w by (auto simp: sql_exists_iff ids_def)
qed

lemma inv_reserve:
  assumes inv: "content_inv st db disk recv" and new: "su_id req \<notin> ids db \<Longrightarrow> recv (su_id req) = ''''"
  shows "content_inv st (snd (ReserveUpload env req db)) disk recv"
proof -
  obtain r db' where r: "ReserveUpload env req db = (r, db')" by fastforce
  show ?thesis
  proof (cases "suploads db' = suploads db")
    case True
    then show ?thesis using inv_same_rows [OF inv] r by simp
  next
    case False
    then obtain u where u: "suploads db' = suploads db @ [u]" "su_id u = su_id req" "su_offset u = 0" "su_status u = StorageUploading"
        "su_id req \<notin> ids db" "row_wf u"
      using reserve_row [OF r] by blast
    have "row_content (st_crypto st) u (recv (su_id u)) (files (st_env st) disk (su_id u))"
      using inv u new row_wf_def by (simp add: row_content_def files_def content_inv_def)
    moreover have "uploads_wf db'" using reserve_wf [OF inv_wf [OF inv]] r by (metis snd_conv)
    ultimately show ?thesis using inv u(1) r by (auto simp: content_inv_def ids_def)
  qed
qed

lemma inv_delete:
  assumes inv: "content_inv st db disk recv"
    and gone: "disk (quarantine_path (st_env st) i) = None" "disk (object_path (st_env st) i) = None"
  shows "content_inv st (snd (storage_DeleteUpload i db)) disk recv"
proof -
  let ?db = "snd (storage_DeleteUpload i db)"
  have rows: "set (suploads ?db) \<subseteq> set (suploads db)" "{u \<in> set (suploads db). su_id u \<noteq> i} \<subseteq> set (suploads ?db)"
    by (auto simp: storage_DeleteUpload_def sql_delete_def)
  have "j = i \<or> j \<notin> ids db" if "j \<notin> ids ?db" for j using that rows(2) by (auto simp: ids_def)
  then show ?thesis using inv gone rows(1) delete_wf [OF inv_wf [OF inv], of i] unfolding content_inv_def by blast
qed

section \<open>A chunk\<close>

lemma write_cases:
  assumes "writeUploadChunk env io v payload disk = (r, disk')"
  obtains (kept) "disk' = disk" "r \<noteq> Inr ()"
  | (written) c x where "disk (su_path v) = Some c" "su_offset v \<le> int (length c)"
      "disk' = disk(su_path v \<mapsto> take (nat (su_offset v)) c @ x)" "r = Inr () \<Longrightarrow> x = payload"
proof (cases "disk (su_path v)")
  case None
  then have "disk' = disk" "r \<noteq> Inr ()" using assms by (auto simp: writeUploadChunk_def Let_def split: if_splits)
  then show ?thesis by (rule kept)
next
  case (Some c)
  define x where "x = (if io_fails io Seek (su_path v) then [] else if io_fails io FileWrite (su_path v) then take (io_written io) payload else payload)"
  have "disk' = disk \<and> r \<noteq> Inr () \<or> su_offset v \<le> int (length c) \<and> disk' = disk(su_path v \<mapsto> take (nat (su_offset v)) c @ x) \<and> (r = Inr () \<longrightarrow> x = payload)"
    using assms Some unfolding writeUploadChunk_def Let_def x_def by (auto split: if_splits)
  then show ?thesis using kept written [OF Some, of x] by blast
qed

text \<open>A row of the store as a handler reads it.\<close>

definition reads_row :: "node_setup \<Rightarrow> sdb \<Rightarrow> storage_upload \<Rightarrow> storage_upload \<Rightarrow> bool" where
  "reads_row st db u v \<longleftrightarrow> row_of (su_id v) db u \<and> row_wf u \<and> v = u\<lparr>su_path := su_path v\<rparr> \<and>
     (su_status u = StorageUploading \<longrightarrow> su_path v = tmp_path (st_env st) (su_id v)) \<and>
     (su_status u = PendingScan \<or> su_status u = StorageScanning \<longrightarrow> su_path v = quarantine_path (st_env st) (su_id v)) \<and>
     (su_status u = Clean \<longrightarrow> su_path v = object_path (st_env st) (su_id v))"

lemma UploadByID_reads:
  assumes "good_env (st_env st)" "storage_UploadByID (st_env st) i db = Inr v" "uploads_wf db"
  obtains u where "reads_row st db u v" "su_id v = i"
proof -
  obtain u where u: "row_of i db u" "row_wf u" "scanUpload (st_env st) u = Inr v" using UploadByID_row [OF assms(2,3)] .
  note s = scanUpload_path [OF assms(1) u(2,3)]
  have "su_id v = su_id u" by (subst s(1)) simp
  then have "reads_row st db u v" using u s by (simp add: reads_row_def row_of_def)
  then show ?thesis using that u(1) \<open>su_id v = su_id u\<close> by (simp add: row_of_def)
qed

lemma reads_rowD:
  assumes "reads_row st db u v"
  shows "row_of (su_id v) db u" "su_id u = su_id v" "su_offset u = su_offset v" "su_length u = su_length v" "su_status u = su_status v"
    "validStorageObjectID (su_id v)" "su_lease_id u = su_lease_id v"
proof -
  have v: "v = u\<lparr>su_path := su_path v\<rparr>" and r: "row_of (su_id v) db u" and w: "row_wf u" using assms by (simp_all add: reads_row_def)
  show "row_of (su_id v) db u" by (rule r)
  show i: "su_id u = su_id v" using r by (simp add: row_of_def)
  show "su_offset u = su_offset v" "su_length u = su_length v" "su_status u = su_status v" "su_lease_id u = su_lease_id v" by (subst v, simp)+
  show "validStorageObjectID (su_id v)" using w i by (simp add: row_wf_def)
qed

lemma write_inv:
  assumes env: "good_env (st_env st)" and inv: "content_inv st db disk recv" and u: "reads_row st db u v" and up: "su_status v = StorageUploading"
    and w: "writeUploadChunk (st_env st) io v payload disk = (r, disk')"
  shows "content_inv st db disk' recv"
    and "r = Inr () \<Longrightarrow> disk' = disk(tmp_path (st_env st) (su_id v) \<mapsto> recv (su_id v) @ payload)"
proof -
  note d = reads_rowD [OF u]
  let ?i = "su_id v" and ?r = "recv (su_id v)"
  have p: "su_path v = tmp_path (st_env st) ?i" using u up d(5) by (simp add: reads_row_def)
  have c: "row_content (st_crypto st) u ?r (files (st_env st) disk ?i)" by (rule inv_row [OF inv d(1)])
  have off: "nat (su_offset v) = length ?r" using row_content_offset [OF c] d(3) by simp
  have start: "take (length ?r) b = ?r" if "disk (tmp_path (st_env st) ?i) = Some b" "su_offset v \<le> int (length b)" for b
    using c that off up d(5) by (auto simp: row_content_def files_def)
  show "content_inv st db disk' recv"
    using w
  proof (cases rule: write_cases)
    case (written b x)
    have "take (length ?r) (take (nat (su_offset v)) b @ x) = ?r" using start [of b] written(1,2) off by (simp add: p)
    then show ?thesis unfolding written(3) p by (intro inv_tmp [OF env inv d(6)]) simp
  qed (use inv in simp)
  show "disk' = disk(tmp_path (st_env st) ?i \<mapsto> ?r @ payload)" if "r = Inr ()"
    using w
  proof (cases rule: write_cases)
    case (written b x)
    then show ?thesis using start [of b] that off by (simp add: p)
  qed (use that in simp)
qed

section \<open>The end of an upload\<close>

lemma move_cases:
  assumes "move_to_quarantine env io v disk = (r, disk')"
  obtains (gone) "shrinks disk disk'"
  | (moved) c where "disk (tmp_path env (su_id v)) = Some c" "disk (quarantine_path env (su_id v)) = None"
      "disk' = disk(tmp_path env (su_id v) := None, quarantine_path env (su_id v) \<mapsto> c)"
proof (cases "disk (quarantine_path env (su_id v))")
  case None
  then have "disk' = disk \<or> (\<exists>c. disk (tmp_path env (su_id v)) = Some c \<and> disk' = disk(tmp_path env (su_id v) := None, quarantine_path env (su_id v) \<mapsto> c))"
    using assms by (auto simp: move_to_quarantine_def os_Rename_def Let_def split: if_splits option.splits)
  then show ?thesis using gone moved [OF _ None] by auto
next
  case (Some c)
  then have "disk' = disk \<or> disk' = disk(tmp_path env (su_id v) := None)"
    using assms by (auto simp: move_to_quarantine_def Let_def split: if_splits)
  then show ?thesis using gone shrinks_remove shrinks_refl by metis
qed

lemma move_inv:
  assumes env: "good_env (st_env st)" and inv: "content_inv st db disk recv" and u: "row_of (su_id v) db u" "su_offset u = su_length u"
  shows "content_inv st db (snd (move_to_quarantine (st_env st) io v disk)) recv"
proof -
  obtain r disk' where r: "move_to_quarantine (st_env st) io v disk = (r, disk')" by fastforce
  have i: "validStorageObjectID (su_id v)" using row_valid [OF inv_wf [OF inv] u(1)] by simp
  note d = paths_differ [OF env i i]
  from r have "content_inv st db disk' recv"
  proof (cases rule: move_cases)
    case gone
    then show ?thesis by (rule inv_shrink [OF inv])
  next
    case (moved c)
    show ?thesis
    proof (rule inv_only [OF env inv _ i])
      show "only (st_env st) (su_id v) disk disk'" by (simp add: moved(3) only_def)
      show "disk' (quarantine_path (st_env st) (su_id v)) = None \<and> disk' (object_path (st_env st) (su_id v)) = None" if "su_id v \<notin> ids db"
        using that u(1) rows_iff by blast
      fix w assume "row_of (su_id v) db w" and w: "row_content (st_crypto st) w (recv (su_id v)) (files (st_env st) disk (su_id v))"
      then have wu: "w = u" using row_unique [OF inv_wf [OF inv] _ u(1)] by blast
      show "row_content (st_crypto st) w (recv (su_id v)) (files (st_env st) disk' (su_id v))"
        using row_content_finished [of "st_crypto st" w "recv (su_id v)" c] w u(2) wu d unfolding files_def moved(3) by (simp add: moved(1))
    qed
  qed
  then show ?thesis using r by simp
qed

lemma mark_pending_inv:
  assumes inv: "content_inv st db disk recv" shows "content_inv st (snd (MarkPendingScan env i p db)) disk recv"
proof -
  obtain r db' where r: "MarkPendingScan env i p db = (r, db')" by fastforce
  have wf: "uploads_wf db'" using mark_pending_wf [OF inv_wf [OF inv], of env i p] r by simp
  from r have "content_inv st db' disk recv"
  proof (cases rule: mark_pending_cases)
    case 2
    show ?thesis by (rule inv_update [OF inv 2 wf]) (simp, erule row_content_status, simp_all)
  qed (use inv in simp)
  then show ?thesis using r by simp
qed

lemma finalize_inv:
  assumes env: "good_env (st_env st)" and inv: "content_inv st db disk recv" and u: "row_of (su_id v) db u" "su_offset u = su_length u"
    and f: "finalizeCompletedUpload (st_env st) io v (db, disk) = (r, db', disk')"
  shows "content_inv st db' disk' recv"
proof -
  note m = move_inv [OF env inv u, of io]
  show ?thesis using f m mark_pending_inv [OF m, of "st_env st" "su_id v" "quarantine_path (st_env st) (su_id v)"]
    by (auto simp: finalizeCompletedUpload_def split: prod.splits sum.splits)
qed

text \<open>Complete uploads stay complete.\<close>

lemma finalize_complete:
  assumes "finalizeCompletedUpload env io v (db, disk) = (r, db', disk')" "\<exists>u. row_of i db u \<and> su_offset u = su_length u"
  shows "\<exists>u. row_of i db' u \<and> su_offset u = su_length u"
proof -
  obtain q where "db' = db \<or> MarkPendingScan env (su_id v) (quarantine_path env (su_id v)) db = (q, db')"
    using assms(1) by (auto simp: finalizeCompletedUpload_def split: prod.splits sum.splits)
  then show ?thesis
  proof
    assume "MarkPendingScan env (su_id v) (quarantine_path env (su_id v)) db = (q, db')"
    then show ?thesis
    proof (cases rule: mark_pending_cases)
      case 2
      obtain u where u: "row_of i db u" "su_offset u = su_length u" using assms(2) by blast
      define q where "q = (\<lambda>u :: storage_upload. su_id u = su_id v \<and> su_offset u = su_length u \<and> su_status u = StorageUploading)"
      define f where "f = (\<lambda>u :: storage_upload. u\<lparr>su_status := PendingScan, su_path := storageUploadPathKey ''quarantine'' (su_id v) ''.blob'', su_lease_until := 0, su_lease_id := ''''\<rparr>)"
      have "(if q u then f u else u) \<in> set (suploads db')" unfolding 2 q_def [symmetric] f_def [symmetric] using u(1) by (intro sql_update_mem) (simp add: row_of_def)
      moreover have "su_id (f u) = su_id u \<and> su_offset (f u) = su_offset u \<and> su_length (f u) = su_length u" by (simp add: f_def)
      ultimately show ?thesis using u unfolding row_of_def by metis
    qed (use assms(2) in simp)
  qed (use assms(2) in simp)
qed

section \<open>A chunk reaches the table\<close>

lemma UpdateOffset_rows:
  assumes "storage_UpdateUploadOffset i expected nxt db = (r, db')"
  obtains e where "r = Inl e" "db' = db"
  | u where "r = Inr ()" "row_of i db u" "su_offset u = expected" "su_status u = StorageUploading" "nxt \<le> su_length u"
      "suploads db' = sql_update (\<lambda>u. su_id u = i \<and> su_offset u = expected \<and> su_status u = StorageUploading \<and> nxt \<le> su_length u)
         (\<lambda>u. u\<lparr>su_offset := nxt\<rparr>) (suploads db)"
proof (cases r)
  case (Inl e)
  then show ?thesis using assms that(1) [of e] by (auto simp: storage_UpdateUploadOffset_def Let_def split: if_splits)
next
  case (Inr x)
  let ?hit = "\<lambda>u. su_id u = i \<and> su_offset u = expected \<and> su_status u = StorageUploading \<and> nxt \<le> su_length u"
  have "sql_only ?hit (suploads db)" "suploads db' = sql_update ?hit (\<lambda>u. u\<lparr>su_offset := nxt\<rparr>) (suploads db)"
    using Inr assms by (auto simp: storage_UpdateUploadOffset_def Let_def split: if_splits)
  moreover from this(1) obtain u where "u \<in> set (suploads db)" "?hit u" using sql_count_0_iff [of ?hit "suploads db"] by (auto simp: sql_only_def)
  ultimately show ?thesis using that(2) [of u] Inr by (simp add: row_of_def)
qed

lemma stored_offset:
  assumes "uploads_wf db" "storage_UpdateUploadOffset i expected nxt db = (Inr r, db')" "row_of i db u"
  shows "row_of i db' (u\<lparr>su_offset := nxt\<rparr>)"
  using assms(2)
proof (cases rule: UpdateOffset_rows)
  case (2 w)
  have "w = u" using row_unique [OF assms(1) 2(2) assms(3)] .
  then show ?thesis using assms(3) 2 by (auto simp: row_of_def sql_update_def image_iff)
qed simp

lemma offset_inv:
  assumes env: "good_env (st_env st)" and inv: "content_inv st db (disk(tmp_path (st_env st) i \<mapsto> recv i @ payload)) recv"
    and up: "storage_UpdateUploadOffset i (int (length (recv i))) (int (length (recv i)) + int (length payload)) db = (Inr r, db')"
  shows "content_inv st db' (disk(tmp_path (st_env st) i \<mapsto> recv i @ payload)) (recv(i := recv i @ payload))"
  using up
proof (cases rule: UpdateOffset_rows)
  case (2 u)
  let ?disk = "disk(tmp_path (st_env st) i \<mapsto> recv i @ payload)"
  have wf: "uploads_wf db'" using small_upload_ops_wf(1) [OF inv_wf [OF inv]] up by (metis snd_conv)
  have i: "validStorageObjectID i" using row_valid [OF inv_wf [OF inv] 2(2)] by simp
  show ?thesis
  proof (rule inv_update_received [OF inv 2(6) wf])
    fix w assume w: "row_of (su_id w) db w" "su_id w = i \<and> su_offset w = int (length (recv i)) \<and> su_status w = StorageUploading \<and>
        int (length (recv i)) + int (length payload) \<le> su_length w"
      "row_content (st_crypto st) w (recv (su_id w)) (files (st_env st) ?disk (su_id w))"
    show "row_content (st_crypto st) (w\<lparr>su_offset := int (length (recv i)) + int (length payload)\<rparr>)
        ((recv(i := recv i @ payload)) (su_id w)) (files (st_env st) ?disk (su_id w))"
      using w(2,3) paths_differ(4,5) [OF env i i] by (auto simp: row_content_def files_def)
  next
    fix w assume w: "row_of (su_id w) db w" "\<not> (su_id w = i \<and> su_offset w = int (length (recv i)) \<and> su_status w = StorageUploading \<and>
        int (length (recv i)) + int (length payload) \<le> su_length w)"
    have "su_id w \<noteq> i" using row_unique [OF inv_wf [OF inv] _ 2(2), of w] w 2 by auto
    then show "(recv(i := recv i @ payload)) (su_id w) = recv (su_id w)" by simp
  qed simp
qed simp

definition saved :: "answer \<Rightarrow> bool" where
  "saved a \<longleftrightarrow> an_status a = 204 \<or> an_code a = ''isolation_failed''"

lemma truncate_inv:
  assumes env: "good_env (st_env st)" and inv: "content_inv st db (disk(tmp_path (st_env st) i \<mapsto> recv i @ payload)) recv" and i: "validStorageObjectID i"
  shows "content_inv st db (os_Truncate io (tmp_path (st_env st) i) (int (length (recv i))) (disk(tmp_path (st_env st) i \<mapsto> recv i @ payload))) recv"
proof -
  let ?d = "disk(tmp_path (st_env st) i \<mapsto> recv i @ payload)"
  have "content_inv st db (?d(tmp_path (st_env st) i \<mapsto> recv i)) recv" by (rule inv_tmp [OF env inv i]) simp
  then show ?thesis using inv by (simp add: os_Truncate_def)
qed

lemma patch_stored_inv:
  assumes env: "good_env (st_env st)" and inv: "content_inv st (nd_db nd) (nd_disk nd) recv"
    and u: "reads_row st (nd_db nd) u v" "su_status v = StorageUploading"
    and p: "patch_stored st call cors v payload nd = (a, nd')"
  shows "content_inv st (nd_db nd') (nd_disk nd') (if saved a then recv(su_id v := recv (su_id v) @ payload) else recv)"
proof -
  note d = reads_rowD [OF u(1)]
  let ?i = "su_id v"
  have path: "su_path v = tmp_path (st_env st) ?i" using u d(5) by (simp add: reads_row_def)
  have off: "su_offset v = int (length (recv ?i))" using row_content_offset [OF inv_row [OF inv d(1)]] d(3) by simp
  obtain r disk1 where w: "writeUploadChunk (st_env st) (ca_io call) v payload (nd_disk nd) = (r, disk1)" by fastforce
  note wr = write_inv [OF env inv u w]
  show ?thesis
  proof (cases r)
    case (Inl e)
    then have "a = writeStorageError 500 ''storage_error'' (cors @ setUploadHeaders v)" "nd' = nd\<lparr>nd_disk := disk1\<rparr>"
      using p w by (simp_all add: patch_stored_def)
    then show ?thesis using wr(1) by (simp add: saved_def writeStorageError_def)
  next
    case (Inr x)
    note disk1 = wr(2) [OF Inr [unfolded unit_eq [of x]]] and inv1 = wr(1) [unfolded wr(2) [OF Inr [unfolded unit_eq [of x]]]]
    obtain q db1 where q: "storage_UpdateUploadOffset ?i (su_offset v) (su_offset v + int (length payload)) (nd_db nd) = (q, db1)" by fastforce
    show ?thesis
    proof (cases q)
      case (Inl e)
      have "db1 = nd_db nd" using q Inl by (auto simp: storage_UpdateUploadOffset_def Let_def split: if_splits)
      then have "nd_db nd' = nd_db nd" "nd_disk nd' = os_Truncate (ca_io call) (su_path v) (su_offset v) disk1" "\<not> saved a"
        using p w Inl Inr q by (auto simp: patch_stored_def Let_def saved_def writeStorageError_def)
      then show ?thesis using truncate_inv [OF env inv1 d(6), of "ca_io call"] by (simp add: path off disk1)
    next
      case Inr': (Inr y)
      let ?v = "v\<lparr>su_offset := su_offset v + int (length payload)\<rparr>" and ?recv = "recv(?i := recv ?i @ payload)"
      have inv2: "content_inv st db1 disk1 ?recv" unfolding disk1 by (rule offset_inv [OF env inv1]) (use q Inr' in \<open>simp add: off\<close>)
      show ?thesis
      proof (cases "su_offset v + int (length payload) = su_length v")
        case False
        then have "nd' = nd\<lparr>nd_db := db1, nd_disk := disk1\<rparr>" "saved a" using p w Inr Inr' q by (auto simp: patch_stored_def Let_def saved_def WriteHeader_def)
        then show ?thesis using inv2 by simp
      next
        case True
        obtain f db2 disk2 where f: "finalizeCompletedUpload (st_env st) (ca_io call) ?v (db1, disk1) = (f, db2, disk2)" by (metis prod_cases3)
        have nd': "nd' = nd\<lparr>nd_db := db2, nd_disk := disk2\<rparr>" "saved a" using p w Inr Inr' q True f
          by (auto simp: patch_stored_def Let_def saved_def WriteHeader_def writeStorageError_def split: sum.splits)
        obtain u2 where "row_of ?i db1 u2" "su_offset u2 = su_length u2" using stored_offset [OF inv_wf [OF inv] q [unfolded Inr'] d(1)] True d(4) by auto
        then have "content_inv st db2 disk2 ?recv" using finalize_inv [OF env inv2 _ _ f] by simp
        then show ?thesis using nd' by simp
      qed
    qed
  qed
qed

definition delivered :: "delivery \<Rightarrow> string" where
  "delivered body = (case body of Delivered b \<Rightarrow> b | _ \<Rightarrow> '''')"

lemma read_body:
  "readStorageUploadBody body n n = Delivered payload \<Longrightarrow> int (length payload) = n \<Longrightarrow> payload = delivered body"
  by (auto simp: readStorageUploadBody_def Let_def delivered_def split: if_splits delivery.splits)

lemma patch_locked_cases:
  assumes "patch_locked st call request body cors offset nd = (a, nd')"
  obtains (refused) "nd' = nd" "\<not> saved a"
  | (stored) v where "storage_UploadByID (st_env st) (ur_id request) (nd_db nd) = Inr v" "su_status v = StorageUploading"
      "patch_stored st call cors v (delivered body) nd = (a, nd')"
proof (cases "storage_UploadByID (st_env st) (ur_id request) (nd_db nd)")
  case (Inl e)
  then have "nd' = nd" "\<not> saved a" using assms by (auto simp: patch_locked_def saved_def writeStorageError_def)
  then show ?thesis by (rule refused)
next
  case (Inr v)
  have "nd' = nd \<and> \<not> saved a \<or> su_status v = StorageUploading \<and> patch_stored st call cors v (delivered body) nd = (a, nd')"
  proof (cases "readStorageUploadBody body (ur_content_length request) (ur_content_length request)")
    case (Delivered payload)
    then show ?thesis using assms Inr read_body [OF Delivered]
      by (auto simp: patch_locked_def Let_def saved_def writeStorageError_def split: if_splits)
  qed (use assms Inr in \<open>auto simp: patch_locked_def Let_def saved_def writeStorageError_def split: if_splits\<close>)
  then show ?thesis using refused stored [OF Inr] by blast
qed

lemma patch_admitted_inv:
  assumes env: "good_env (st_env st)" and inv: "content_inv st (nd_db nd) (nd_disk nd) recv"
    and p: "patch_admitted st call request body cors headers offset nd = (a, nd')"
  shows "content_inv st (nd_db nd') (nd_disk nd') (if saved a then recv(ur_id request := recv (ur_id request) @ delivered body) else recv)"
proof (cases "nd' = nd \<and> \<not> saved a")
  case False
  have "patch_locked st call request body cors offset nd = (a, nd')"
    using p False by (auto simp: patch_admitted_def requireStorageAcceptance_def saved_def writeStorageError_def split: if_splits option.splits sum.splits slot_limit.splits)
  then show ?thesis
  proof (cases rule: patch_locked_cases)
    case refused
    then show ?thesis using False by simp
  next
    case (stored v)
    obtain u where u: "reads_row st (nd_db nd) u v" "su_id v = ur_id request" using UploadByID_reads [OF env stored(1) inv_wf [OF inv]] .
    show ?thesis using patch_stored_inv [OF env inv u(1) stored(2,3)] unfolding u(2) .
  qed
qed (use inv in simp)

lemma patch_front:
  assumes "patchUpload st call request body nd = (a, nd')"
  obtains (refused) "nd' = nd" "\<not> saved a" | (admitted) cors headers offset where "patch_admitted st call request body cors headers offset nd = (a, nd')"
proof (cases "\<exists>cors headers offset. patch_admitted st call request body cors headers offset nd = (a, nd')")
  case False
  have "nd' = nd \<and> \<not> saved a"
    using assms False unfolding patchUpload_def Let_def applyUploadCORS_def authorizedStorageUpload_def saved_def writeStorageError_def
    by (auto split: if_splits option.splits sum.splits)
  then show ?thesis using refused by blast
qed (use admitted in blast)

section \<open>Reservations\<close>

lemma ReserveUpload_stored_id:
  assumes "ReserveUpload env req db = (Inr (stored, created), db')"
  shows "su_id stored = su_id req"
proof -
  have "storage_UploadByID env (su_id req) db' = Inr stored"
    using assms by (auto simp: ReserveUpload_def Let_def split: sum.splits if_splits prod.splits)
  then obtain u where "su_id u = su_id req" "scanUpload env u = Inr stored"
    by (auto simp: storage_UploadByID_def split: option.splits dest!: sql_firstD)
  then show ?thesis by (auto simp: scanUpload_def split: sum.splits prod.splits)
qed

lemma reserve_again_inv:
  assumes env: "good_env (st_env st)" and inv: "content_inv st (nd_db nd) (nd_disk nd) recv" and i: "validStorageObjectID (su_id req)"
    and new: "su_id req \<notin> ids (nd_db nd) \<Longrightarrow> recv (su_id req) = ''''" and r: "reserve_again st call existing req nd = (a, nd')"
  shows "content_inv st (nd_db nd') (nd_disk nd') recv"
proof -
  obtain q db1 where q: "ReserveUpload (st_env st) req (nd_db nd) = (q, db1)" by fastforce
  have inv1: "content_inv st db1 (nd_disk nd) recv" using inv_reserve [OF inv new] q by (metis snd_conv)
  show ?thesis
  proof (cases q)
    case (Inl e)
    then show ?thesis using r q inv1 by (auto simp: reserve_again_def)
  next
    case (Inr sc)
    obtain stored created where s: "q = Inr (stored, created)" using Inr by (cases sc) auto
    have "content_inv st db1 (snd (ensureUploadingFile (st_env st) (ca_io call) stored False (nd_disk nd))) recv"
      by (rule ensure_inv [OF env inv1]) (use i ReserveUpload_stored_id [OF q [unfolded s]] in simp)
    then show ?thesis using r q s inv1 by (auto simp: reserve_again_def split: if_splits sum.splits prod.splits)
  qed
qed

lemma reserve_new_inv:
  assumes env: "good_env (st_env st)" and inv: "content_inv st (nd_db nd) (nd_disk nd) recv" and i: "validStorageObjectID (su_id req)"
    and new: "su_id req \<notin> ids (nd_db nd)" "recv (su_id req) = ''''" and r: "reserve_new st call req nd = (a, nd')"
  shows "content_inv st (nd_db nd') (nd_disk nd') recv"
proof -
  obtain q db1 where q: "ReserveUpload (st_env st) req (nd_db nd) = (q, db1)" by fastforce
  have inv1: "content_inv st db1 (nd_disk nd) recv" using inv_reserve [OF inv] new(2) q by (metis snd_conv)
  show ?thesis
  proof (cases q)
    case (Inl e)
    then show ?thesis using r q inv1 by (auto simp: reserve_new_def)
  next
    case (Inr sc)
    obtain stored created where s: "q = Inr (stored, created)" using Inr by (cases sc) auto
    have id: "su_id stored = su_id req" by (rule ReserveUpload_stored_id [OF q [unfolded s]])
    obtain e disk1 where e: "ensureUploadingFile (st_env st) (ca_io call) stored created (nd_disk nd) = (e, disk1)" by fastforce
    have inv2: "content_inv st db1 disk1 recv" using ensure_inv [OF env inv1, of stored "ca_io call" created] i id e by simp
    have "disk1 (quarantine_path (st_env st) (su_id req)) = None" "disk1 (object_path (st_env st) (su_id req)) = None"
      using ensure_cases [OF e] inv i new(1) paths_differ [OF env i i] id by (auto simp: content_inv_def)
    then have "content_inv st (snd (storage_DeleteUpload (su_id stored) db1)) disk1 recv" by (intro inv_delete [OF inv2]) (simp_all add: id)
    then show ?thesis using r q s e inv2 by (auto simp: reserve_new_def split: if_splits sum.splits prod.splits)
  qed
qed

lemma UploadByID_missing:
  assumes env: "good_env env" and wf: "uploads_wf db" and m: "storage_UploadByID env i db = Inl e"
  shows "i \<notin> ids db"
proof
  assume "i \<in> ids db"
  then obtain u where u: "sql_first (\<lambda>u. su_id u = i) (suploads db) = Some u" "row_wf u"
    using wf sql_first_None [of "\<lambda>u. su_id u = i" "suploads db"]
    by (cases "sql_first (\<lambda>u. su_id u = i) (suploads db)") (auto simp: ids_def uploads_wf_def dest!: sql_firstD)
  have "\<exists>ka. normalizeUploadPath env (su_id u) (su_path u) = Inr ka"
  proof (cases "su_path u = ''''")
    case False
    then obtain d f where "validStorageObjectID (su_id u)" "(d, f) \<in> upload_keys (su_id u)" "su_path u = d @ ''/'' @ f"
      using wf_path [OF u(2)] validate_Inr by blast
    then show ?thesis using normalize_key [of env "su_id u" d f] env by (auto simp: good_env_def)
  qed (simp add: normalizeUploadPath_def)
  then show False using m u(1) by (auto simp: storage_UploadByID_def scanUpload_def)
qed

lemma reserve_checked_inv:
  assumes env: "good_env (st_env st)" and inv: "content_inv st (nd_db nd) (nd_disk nd) recv" and i: "validStorageObjectID (rr_ID payload)"
    and new: "rr_ID payload \<notin> ids (nd_db nd) \<Longrightarrow> recv (rr_ID payload) = ''''" and r: "reserve_checked st call payload nd = (a, nd')"
  shows "content_inv st (nd_db nd') (nd_disk nd') recv"
proof (cases "nd' = nd")
  case False
  let ?req = "requested_upload st payload"
  have id: "su_id ?req = rr_ID payload" by (simp add: requested_upload_def)
  show ?thesis
  proof (cases "storage_UploadByID (st_env st) (rr_ID payload) (nd_db nd)")
    case (Inr existing)
    then have "reserve_again st call existing ?req nd = (a, nd')" using r False by (auto simp: reserve_checked_def Let_def split: option.splits)
    then show ?thesis using reserve_again_inv [OF env inv, of ?req] i new id by simp
  next
    case (Inl e)
    then have "reserve_new st call ?req nd = (a, nd')"
      using r False by (auto simp: reserve_checked_def Let_def split: option.splits error.splits if_splits)
    then show ?thesis using reserve_new_inv [OF env inv, of ?req] UploadByID_missing [OF env inv_wf [OF inv] Inl] i new id by simp
  qed
qed (use inv in simp)

section \<open>Removal\<close>

lemma remove_paths_shrink:
  "remove_paths io seen ps disk = (r, disk') \<Longrightarrow> shrinks disk disk' \<and>
     (r = Inr () \<longrightarrow> (\<forall>p \<in> set ps. path_Clean p \<in> set seen \<or> disk' (path_Clean p) = None))"
proof (induction ps arbitrary: seen disk)
  case (Cons p ps)
  show ?case
  proof (cases "path_Clean p \<in> set seen \<or> io_fails io Remove (path_Clean p)")
    case True
    then have "remove_paths io seen ps disk = (r, disk') \<and> path_Clean p \<in> set seen \<or> r \<noteq> Inr () \<and> disk' = disk"
      using Cons.prems by (auto simp: Let_def split: if_splits)
    then show ?thesis using Cons.IH [of seen disk] shrinks_refl by (metis set_ConsD)
  next
    case False
    then have step: "remove_paths io (path_Clean p # seen) ps (disk(path_Clean p := None)) = (r, disk')" using Cons.prems by (simp add: Let_def)
    have ih: "shrinks (disk(path_Clean p := None)) disk'"
      "r = Inr () \<longrightarrow> (\<forall>q \<in> set ps. path_Clean q \<in> set (path_Clean p # seen) \<or> disk' (path_Clean q) = None)"
      by (rule conjunct1 [OF Cons.IH [OF step]], rule conjunct2 [OF Cons.IH [OF step]])
    then have "disk' (path_Clean p) = None" unfolding shrinks_def by (metis fun_upd_same)
    then show ?thesis using ih shrinks_trans [OF shrinks_remove ih(1)] by auto
  qed
qed simp

lemma removeUploadFiles_shrink:
  assumes env: "good_env env" and i: "validStorageObjectID (su_id v)" and r: "removeUploadFiles env io v disk = (r, disk')"
  shows "shrinks disk disk'" "r = Inr () \<Longrightarrow> disk' (quarantine_path env (su_id v)) = None \<and> disk' (object_path env (su_id v)) = None"
proof -
  let ?ps = "[tmp_path env (su_id v), quarantine_path env (su_id v), object_path env (su_id v)]"
  have "disk' = disk \<and> r \<noteq> Inr () \<or> (\<exists>xs. remove_paths io [] (?ps @ xs) disk = (r, disk'))"
    using r unfolding removeUploadFiles_def Let_def by (auto split: if_splits)
  then show "shrinks disk disk'" "r = Inr () \<Longrightarrow> disk' (quarantine_path env (su_id v)) = None \<and> disk' (object_path env (su_id v)) = None"
    using remove_paths_shrink [of io "[]" _ disk r disk'] storage_paths(5,6) [OF env i] by fastforce+
qed

lemma remove_upload_inv:
  assumes env: "good_env (st_env st)" and inv: "content_inv st (nd_db nd) (nd_disk nd) recv" and i: "validStorageObjectID (su_id v)"
    and r: "remove_upload st io v nd = (r, nd')"
  shows "content_inv st (nd_db nd') (nd_disk nd') recv"
proof -
  obtain q disk1 where q: "removeUploadFiles (st_env st) io v (nd_disk nd) = (q, disk1)" by fastforce
  note s = removeUploadFiles_shrink [OF env i q]
  note inv1 = inv_shrink [OF inv s(1)]
  show ?thesis
  proof (cases q)
    case (Inl e)
    then show ?thesis using r q inv1 by (auto simp: remove_upload_def)
  next
    case (Inr x)
    then have "content_inv st (snd (storage_DeleteUpload (su_id v) (nd_db nd))) disk1 recv" using s(2) by (intro inv_delete [OF inv1]) simp_all
    then show ?thesis using r q Inr by (auto simp: remove_upload_def split: prod.splits)
  qed
qed

lemma cleanup_all_inv:
  "good_env (st_env st) \<Longrightarrow> content_inv st (nd_db nd) (nd_disk nd) recv \<Longrightarrow> (\<forall>v \<in> set vs. validStorageObjectID (su_id v)) \<Longrightarrow>
   content_inv st (nd_db (cleanup_all st io vs nd)) (nd_disk (cleanup_all st io vs nd)) recv"
proof (induction vs arbitrary: nd)
  case (Cons v vs)
  have "content_inv st (nd_db (snd (remove_upload st io v nd))) (nd_disk (snd (remove_upload st io v nd))) recv"
    using remove_upload_inv [OF Cons.prems(1,2), of v io] Cons.prems(3) by (metis list.set_intros(1) prod.collapse)
  then show ?case using Cons by simp
qed simp

lemma finalize_all_inv:
  "good_env (st_env st) \<Longrightarrow> content_inv st (nd_db nd) (nd_disk nd) recv \<Longrightarrow>
   (\<forall>v \<in> set vs. \<exists>u. row_of (su_id v) (nd_db nd) u \<and> su_offset u = su_length u) \<Longrightarrow>
   content_inv st (nd_db (finalize_all st io vs nd)) (nd_disk (finalize_all st io vs nd)) recv"
proof (induction vs arbitrary: nd)
  case (Cons v vs)
  obtain r db1 disk1 where f: "finalizeCompletedUpload (st_env st) io v (nd_db nd, nd_disk nd) = (r, db1, disk1)" by (metis prod_cases3)
  have inv1: "content_inv st db1 disk1 recv" using finalize_inv [OF Cons.prems(1,2) _ _ f] Cons.prems(3) by auto
  have "\<forall>w \<in> set vs. \<exists>u. row_of (su_id w) db1 u \<and> su_offset u = su_length u" using finalize_complete [OF f] Cons.prems(3) by simp
  then show ?case using Cons.IH [of "nd\<lparr>nd_db := db1, nd_disk := disk1\<rparr>"] Cons.prems(1) inv1 f by simp
qed simp

end
