(* ===== verification/Storage_Integrity.thy ===== *)
theory Storage_Integrity
  imports Storage_Content
begin

text \<open>
  Scans keep the invariant of \<open>Storage_Content\<close>, and the state machine of a storage node: its handlers and
  workers in any order, with failing system calls and interruptions. What a node streams is what the
  uploader sent.
\<close>

section \<open>Leases\<close>

lemma inv_claim_scans:
  "content_inv st db disk recv \<Longrightarrow> claim_scans now until cs got db = (r, db') \<Longrightarrow> content_inv st db' disk recv"
proof (induction now until cs got db rule: claim_scans.induct)
  case (2 now until candidate leaseID cs claimed db)
  let ?db = "db\<lparr>suploads := sql_update (\<lambda>u. su_id u = su_id candidate \<and> scan_claimable now u)
      (\<lambda>u. u\<lparr>su_status := StorageScanning, su_lease_until := until, su_lease_id := leaseID\<rparr>) (suploads db)\<rparr>"
  have wf: "uploads_wf ?db" by (rule uploads_wf_row [OF inv_wf [OF 2(2)]]) (auto simp: scan_claimable_def intro: row_wf_scanning)
  have "content_inv st ?db disk recv"
    by (rule inv_update [OF 2(2) _ wf, where q = "\<lambda>u. su_id u = su_id candidate \<and> scan_claimable now u"
          and f = "\<lambda>u. u\<lparr>su_status := StorageScanning, su_lease_until := until, su_lease_id := leaseID\<rparr>"])
      (simp, simp, erule row_content_status, simp_all)
  then show ?case using 2(1,3) by (simp add: Let_def)
qed simp

lemma inv_claim:
  assumes "content_inv st db disk recv" "ClaimPendingScans env leases now until n db = (r, db')"
  shows "content_inv st db' disk recv"
  using assms(2) by (cases rule: claim_pending_cases) (use assms(1) inv_claim_scans in auto)

lemma inv_release: "content_inv st db disk recv \<Longrightarrow> content_inv st (snd (ReleaseScanClaim i l db)) disk recv"
  by (rule inv_update [where q = "\<lambda>u. su_id u = i \<and> su_status u = StorageScanning \<and> su_lease_id u = l"
        and f = "\<lambda>u. u\<lparr>su_status := PendingScan, su_lease_until := 0, su_lease_id := ''''\<rparr>"])
    (assumption, simp add: ReleaseScanClaim_def, erule small_upload_ops_wf(2) [OF inv_wf], simp, erule row_content_status, simp_all)

lemma inv_renew: "content_inv st db disk recv \<Longrightarrow> content_inv st (snd (RenewScanLease i l now until db)) disk recv"
proof -
  assume inv: "content_inv st db disk recv"
  have "suploads (snd (RenewScanLease i l now until db)) = suploads db \<or>
      suploads (snd (RenewScanLease i l now until db)) = sql_update (leased i l now) (\<lambda>u. u\<lparr>su_lease_until := until\<rparr>) (suploads db)"
    by (simp add: RenewScanLease_def)
  then show ?thesis
  proof
    assume "suploads (snd (RenewScanLease i l now until db)) = sql_update (leased i l now) (\<lambda>u. u\<lparr>su_lease_until := until\<rparr>) (suploads db)"
    from inv_update [OF inv this small_upload_ops_wf(3) [OF inv_wf [OF inv]]] show ?thesis
      by (auto simp: row_content_def split: prod.splits)
  qed (rule inv_same_rows [OF inv])
qed

text \<open>What a scan may rely on: the row of the upload it claimed is still there, with the same length.\<close>

definition sizes :: "sdb \<Rightarrow> (ident \<times> int) list" where
  "sizes db = map (\<lambda>u. (su_id u, su_length u)) (suploads db)"

lemma sizes_update: "(\<And>u. su_id (f u) = su_id u \<and> su_length (f u) = su_length u) \<Longrightarrow> suploads db' = sql_update q f (suploads db) \<Longrightarrow> sizes db' = sizes db"
  by (simp add: sizes_def sql_update_def)

lemma sizes_lease:
  "sizes (snd (RenewScanLease i l now until db)) = sizes db" "sizes (snd (ReleaseScanClaim i l db)) = sizes db"
  by (simp_all add: RenewScanLease_def ReleaseScanClaim_def sizes_def sql_update_def)

lemma sizes_claim_scans: "claim_scans now until cs got db = (r, db') \<Longrightarrow> sizes db' = sizes db"
proof (induction now until cs got db rule: claim_scans.induct)
  case (2 now until candidate leaseID cs claimed db)
  then show ?case by (simp add: Let_def sizes_def sql_update_def)
qed simp

definition claimed_upload :: "node_setup \<Rightarrow> sdb \<Rightarrow> storage_upload \<Rightarrow> bool" where
  "claimed_upload st db v \<longleftrightarrow> (su_id v, su_length v) \<in> set (sizes db) \<and> su_path v = quarantine_path (st_env st) (su_id v)"

lemma claimed_row: "claimed_upload st db v \<Longrightarrow> \<exists>u. row_of (su_id v) db u \<and> su_length u = su_length v"
  by (auto simp: claimed_upload_def sizes_def row_of_def)

lemma claim_scans_members:
  "claim_scans now until cs got db = (r, db') \<Longrightarrow> v \<in> set r \<Longrightarrow>
   v \<in> set got \<or> (\<exists>c \<in> fst ` set cs. su_id v = su_id c \<and> su_length v = su_length c \<and> su_path v = su_path c)"
proof (induction now until cs got db rule: claim_scans.induct)
  case (2 now until candidate leaseID cs claimed db)
  let ?got = "if sql_only (\<lambda>u. su_id u = su_id candidate \<and> scan_claimable now u) (suploads db)
            then claimed @ [candidate\<lparr>su_status := StorageScanning, su_lease_until := until, su_lease_id := leaseID\<rparr>] else claimed"
  have "v \<in> set ?got \<or> (\<exists>c \<in> fst ` set cs. su_id v = su_id c \<and> su_length v = su_length c \<and> su_path v = su_path c)"
    using 2 by (simp add: Let_def)
  then show ?case by (auto split: if_splits)
qed simp

lemma collect_members: "collectUploads env us = Inr xs \<Longrightarrow> x \<in> set xs \<Longrightarrow> \<exists>u \<in> set us. scanUpload env u = Inr x"
proof (induction us arbitrary: xs)
  case (Cons u us)
  then obtain y ys where "scanUpload env u = Inr y" "collectUploads env us = Inr ys" "xs = y # ys" by (auto split: sum.splits)
  then show ?case using Cons by auto
qed simp

lemma claim_upload:
  assumes env: "good_env (st_env st)" and wf: "uploads_wf db"
    and c: "ClaimPendingScans (st_env st) leases now until n db = (Inr (v # vs), db')"
  shows "claimed_upload st db' v"
  using c
proof (cases rule: claim_pending_cases)
  case (2 cs claimed)
  have "v \<in> set claimed" using 2(3) by auto
  then obtain c where c: "c \<in> set cs" "su_id v = su_id c" "su_length v = su_length c" "su_path v = su_path c"
    using claim_scans_members [OF 2(2), of v] by (auto dest: set_zip_leftD)
  obtain u where u: "u \<in> set (suploads db)" "scan_claimable now u" "scanUpload (st_env st) u = Inr c"
  proof -
    obtain u where u: "u \<in> set (take (nat n) (by_expiry (filter (scan_claimable now) (suploads db))))" "scanUpload (st_env st) u = Inr c"
      using collect_members [OF 2(1) c(1)] by blast
    have "u \<in> set (filter (scan_claimable now) (suploads db))" using in_set_takeD [OF u(1)] by (simp add: by_expiry_def)
    then show ?thesis using that [of u] u(2) by simp
  qed
  have w: "row_wf u" using u(1) wf by (simp add: uploads_wf_def)
  note s = scanUpload_path [OF env w u(3)]
  have "su_path c = quarantine_path (st_env st) (su_id u)" using s(3) u(2) by (auto simp: scan_claimable_def)
  moreover have "su_id c = su_id u" "su_length c = su_length u" by (subst s(1), simp)+
  ultimately show ?thesis using c u(1) sizes_claim_scans [OF 2(2)] by (auto simp: claimed_upload_def sizes_def)
qed simp

section \<open>Verdicts\<close>

lemma inv_complete:
  assumes inv: "content_inv st db disk recv"
    and clean: "status = Clean \<Longrightarrow> sha = hex_encode (cr_sha256 (st_crypto st) (recv i)) \<and> \<not> Contains (recv i) eicarSignature"
  shows "content_inv st (snd (CompleteScan env clock i l now status p sha detail ev db)) disk recv"
proof -
  obtain r db' where r: "CompleteScan env clock i l now status p sha detail ev db = (r, db')" by fastforce
  have wf: "uploads_wf db'" using complete_wf [OF inv_wf [OF inv]] r by (metis snd_conv)
  from r have "content_inv st db' disk recv"
  proof (cases rule: complete_rows)
    case 1
    then show ?thesis by (rule inv_same_rows [OF inv])
  next
    case (2 k)
    show ?thesis
    proof (rule inv_update [OF inv 2(1) wf])
      fix u assume u: "leased i l now u" and c: "row_content (st_crypto st) u (recv (su_id u)) (files (st_env st) disk (su_id u))"
      have "su_id u = i" using u by (simp add: leased_def)
      then show "row_content (st_crypto st) (u\<lparr>su_status := status, su_path := k, su_sha256 := sha, su_scan_detail := detail,
          su_lease_until := 0, su_lease_id := ''''\<rparr>) (recv (su_id u)) (files (st_env st) disk (su_id u))"
        using clean by (intro row_content_status [OF c]) simp_all
    qed simp
  qed
  then show ?thesis using r by simp
qed

lemma inv_complete_or_release:
  assumes "content_inv st db disk recv"
    and "status = Clean \<Longrightarrow> sha = hex_encode (cr_sha256 (st_crypto st) (recv (su_id v))) \<and> \<not> Contains (recv (su_id v)) eicarSignature"
  shows "content_inv st (snd (complete_or_release st sn v status external path sha detail db)) disk recv"
proof -
  let ?ev = "scanCompletionEvent (cfg_NodeID (st_cfg st)) (su_id v) external sha detail (sn_now sn)"
  have c: "content_inv st (snd (CompleteScan (st_env st) (sn_now sn) (su_id v) (su_lease_id v) (sn_now sn) status path sha detail ?ev db)) disk recv"
    by (rule inv_complete [OF assms(1)]) (rule assms(2))
  then show ?thesis using inv_release [OF c] by (auto simp: complete_or_release_def split: prod.splits sum.splits)
qed

text \<open>A file moves between quarantine and objects.\<close>

lemma rename_inv:
  assumes env: "good_env (st_env st)" and inv: "content_inv st db disk recv" and u: "row_of i db u"
    and p: "old \<in> {quarantine_path (st_env st) i, object_path (st_env st) i}" "new \<in> {quarantine_path (st_env st) i, object_path (st_env st) i}"
  shows "content_inv st db (snd (os_Rename io old new disk)) recv"
proof (cases "disk old = None \<or> io_fails io Rename old")
  case True
  then show ?thesis using inv by (auto simp: os_Rename_def split: option.splits)
next
  case False
  then obtain c where c: "disk old = Some c" by auto
  let ?d = "disk(old := None, new \<mapsto> c)"
  have i: "validStorageObjectID i" using row_valid [OF inv_wf [OF inv] u] by simp
  note d = paths_differ [OF env i i]
  have "content_inv st db ?d recv"
  proof (rule inv_only [OF env inv _ i])
    show "only (st_env st) i disk ?d" using p by (auto simp: only_def)
    show "?d (quarantine_path (st_env st) i) = None \<and> ?d (object_path (st_env st) i) = None" if "i \<notin> ids db" using that u rows_iff by blast
    fix w assume w: "row_content (st_crypto st) w (recv i) (files (st_env st) disk i)"
    have t: "?d (tmp_path (st_env st) i) = disk (tmp_path (st_env st) i)" using p d by auto
    show "row_content (st_crypto st) w (recv i) (files (st_env st) ?d i)" unfolding files_def
    proof (rule row_content_stored [OF w [unfolded files_def]])
      fix x assume "?d (quarantine_path (st_env st) i) = Some x \<or> ?d (object_path (st_env st) i) = Some x"
      then show "disk (quarantine_path (st_env st) i) = Some x \<or> disk (object_path (st_env st) i) = Some x"
        using p c d(3) by (auto split: if_splits)
    qed (use t in simp)
  qed
  then show ?thesis using c False by (simp add: os_Rename_def)
qed

lemma resolve_cases:
  assumes "resolveScanPath env io disk v = Inr path" "su_path v = quarantine_path env (su_id v)"
  shows "path \<in> {quarantine_path env (su_id v), object_path env (su_id v)}" "\<exists>c. disk path = Some c \<and> int (length c) = su_length v"
proof -
  define P where "P = (\<lambda>candidate. candidate \<noteq> '''' \<and> isGeneratedUploadPath env (su_id v) candidate \<and> \<not> io_fails io Stat candidate \<and>
          (case disk candidate of None \<Rightarrow> False | Some contents \<Rightarrow> int (length contents) = su_length v))"
  define xs where "xs = [su_path v, quarantine_path env (su_id v), object_path env (su_id v)]"
  have "resolveScanPath env io disk v = (case find P xs of None \<Rightarrow> Inl ErrOther | Some path \<Rightarrow> Inr path)"
    by (simp only: resolveScanPath_def P_def xs_def)
  then have "find P xs = Some path" using assms(1) by (simp split: option.splits)
  then have "path \<in> set xs" "P path" by (auto simp: find_Some_iff)
  then show "path \<in> {quarantine_path env (su_id v), object_path env (su_id v)}" "\<exists>c. disk path = Some c \<and> int (length c) = su_length v"
    using assms(2) by (auto simp: xs_def P_def split: option.splits)
qed

lemma concat_read_chunks: "concat (read_chunks ns c) = c"
  by (induction ns c rule: read_chunks.induct) simp_all

lemma clean_scan:
  assumes "scan_file st sn disk path = (None, result)" "sr_clean result" "disk path = Some c"
  shows "sr_sha256 result = hex_encode (cr_sha256 (st_crypto st) c)" "\<not> Contains c eicarSignature"
proof -
  let ?st = "fold scan_chunk (read_chunks (io_reads (sn_io sn)) c) scan_start"
  have s: "scanned c ?st" using fold_scanned [OF start_scanned, of "read_chunks (io_reads (sn_io sn)) c"] by (simp add: concat_read_chunks)
  have v: "scan_verdict (sn_defender sn) (st_scanner st) (Contains c eicarSignature)
      (empty_result\<lparr>sr_sha256 := hex_encode (cr_sha256 (st_crypto st) c), sr_engine := scanner_Name (st_scanner st)\<rparr>) = (None, result)"
    using assms(1,3) s by (auto simp: scan_file_def open_file_def Scan_def scanned_def Let_def split: if_splits)
  show "sr_sha256 result = hex_encode (cr_sha256 (st_crypto st) c)" "\<not> Contains c eicarSignature"
    using v assms(2) by (auto simp: scan_verdict_def empty_result_def split: if_splits)
qed

section \<open>One scan\<close>

lemma renew_ticks_keep:
  "content_inv st db disk recv \<Longrightarrow> renew_ticks i l ticks db = (r, db') \<Longrightarrow> content_inv st db' disk recv \<and> sizes db' = sizes db"
proof (induction ticks arbitrary: db)
  case (Cons now ticks)
  obtain q db1 where q: "RenewScanLease i l now (now + storageScanLeaseDuration) db = (q, db1)" by fastforce
  have "content_inv st db1 disk recv" "sizes db1 = sizes db"
    using inv_renew [OF Cons.prems(1)] sizes_lease(1) q by (metis snd_conv)+
  then show ?case using Cons q by (auto split: sum.splits)
qed simp

lemma stop_renewal_keeps:
  assumes "content_inv st db disk recv" "stopLeaseRenewal i l cancelled ticks now db = (r, db')"
  shows "content_inv st db' disk recv \<and> sizes db' = sizes db"
proof -
  obtain q db1 where q: "renew_ticks i l ticks db = (q, db1)" by fastforce
  have k: "content_inv st db1 disk recv" "sizes db1 = sizes db" using renew_ticks_keep [OF assms(1) q] by simp_all
  obtain q2 db2 where q2: "RenewScanLease i l now (now + storageScanLeaseDuration) db1 = (q2, db2)" by fastforce
  have "content_inv st db2 disk recv" "sizes db2 = sizes db1" using inv_renew [OF k(1)] sizes_lease(1) q2 by (metis snd_conv)+
  then show ?thesis using assms(2) q q2 k by (auto simp: stopLeaseRenewal_def split: sum.splits if_splits)
qed

lemma scanner_error_inv:
  assumes env: "good_env (st_env st)" and inv: "content_inv st (nd_db nd) (nd_disk nd) recv" and u: "row_of (su_id v) (nd_db nd) u"
    and p: "path \<in> {quarantine_path (st_env st) (su_id v), object_path (st_env st) (su_id v)}"
  shows "content_inv st (nd_db (finishScannerError st sn v path detail sha nd)) (nd_disk (finishScannerError st sn v path detail sha nd)) recv"
proof -
  let ?q = "quarantine_path (st_env st) (su_id v)"
  have "content_inv st (nd_db nd) (snd (os_Rename (sn_io sn) path ?q (nd_disk nd))) recv" by (rule rename_inv [OF env inv u p]) simp
  moreover define d where "d = nd_disk (finishScannerError st sn v path detail sha nd)"
  ultimately have "content_inv st (nd_db nd) d recv"
    using inv by (auto simp: d_def finishScannerError_def Let_def split: prod.splits sum.splits if_splits)
  then have "content_inv st (snd (complete_or_release st sn v ScannerError ext pth sha detail (nd_db nd))) d recv" for ext pth
    by (rule inv_complete_or_release) simp
  then show ?thesis unfolding d_def [symmetric] by (simp add: finishScannerError_def Let_def split: prod.splits)
qed

lemma finish_clean_inv:
  assumes env: "good_env (st_env st)" and inv: "content_inv st (nd_db nd) (nd_disk nd) recv" and u: "row_of (su_id v) (nd_db nd) u"
    and p: "path \<in> {quarantine_path (st_env st) (su_id v), object_path (st_env st) (su_id v)}"
    and sha: "sr_sha256 result = hex_encode (cr_sha256 (st_crypto st) (recv (su_id v)))" "\<not> Contains (recv (su_id v)) eicarSignature"
  shows "content_inv st (nd_db (finish_clean st sn v path result nd)) (nd_disk (finish_clean st sn v path result nd)) recv"
proof -
  let ?o = "object_path (st_env st) (su_id v)"
  obtain m disk1 where m: "(if path_Clean path \<noteq> path_Clean ?o then os_Rename (sn_io sn) path ?o (nd_disk nd) else (Inr (), nd_disk nd)) = (m, disk1)" by fastforce
  have "content_inv st (nd_db nd) (snd (os_Rename (sn_io sn) path ?o (nd_disk nd))) recv" by (rule rename_inv [OF env inv u p]) simp
  then have d: "content_inv st (nd_db nd) disk1 recv" using inv m by (auto split: if_splits)
  have c: "content_inv st (snd (complete_or_release st sn v Clean ext pth (sr_sha256 result) detail (nd_db nd))) disk1 recv" for ext pth detail
    by (rule inv_complete_or_release [OF d]) (use sha in simp)
  show ?thesis using m c inv_release [OF d] by (auto simp: finish_clean_def Let_def split: sum.splits)
qed

lemma finish_blocked_inv:
  assumes inv: "content_inv st (nd_db nd) (nd_disk nd) recv"
  shows "content_inv st (nd_db (finish_blocked st sn v path result nd)) (nd_disk (finish_blocked st sn v path result nd)) recv"
proof -
  have "shrinks (nd_disk nd) (nd_disk (finish_blocked st sn v path result nd))"
    by (auto simp: finish_blocked_def removeGeneratedPath_def Let_def shrinks_remove split: prod.splits)
  from inv_shrink [OF inv this]
  have "content_inv st (snd (complete_or_release st sn v StorageBlocked ''blocked'' '''' (sr_sha256 result) (sr_detail result) (nd_db nd)))
      (nd_disk (finish_blocked st sn v path result nd)) recv" by (rule inv_complete_or_release) simp
  then show ?thesis by (auto simp: finish_blocked_def split: prod.splits)
qed

lemma scanOne_inv:
  assumes env: "good_env (st_env st)" and inv: "content_inv st (nd_db nd) (nd_disk nd) recv" and v: "claimed_upload st (nd_db nd) v"
  shows "content_inv st (nd_db (scanOneUpload st sn v nd)) (nd_disk (scanOneUpload st sn v nd)) recv"
proof -
  obtain leaseErr db1 where l: "stopLeaseRenewal (su_id v) (su_lease_id v) (sn_cancelled sn) (sn_ticks sn) (sn_end sn) (nd_db nd) = (leaseErr, db1)" by fastforce
  let ?nd = "nd\<lparr>nd_db := db1\<rparr>"
  have inv1: "content_inv st (nd_db ?nd) (nd_disk ?nd) recv" and s: "sizes db1 = sizes (nd_db nd)" using stop_renewal_keeps [OF inv l] by simp_all
  obtain u where u: "row_of (su_id v) (nd_db ?nd) u" "su_length u = su_length v" using claimed_row [of st db1 v] v s by (auto simp: claimed_upload_def)
  have path: "su_path v = quarantine_path (st_env st) (su_id v)" using v by (simp add: claimed_upload_def)
  show ?thesis
  proof (cases "sn_cancelled sn \<or> leaseErr \<noteq> Inr ()")
    case True
    then show ?thesis using l inv_release [OF inv1] by (simp add: scanOneUpload_def Let_def)
  next
    case run: False
    show ?thesis
    proof (cases "resolveScanPath (st_env st) (sn_io sn) (nd_disk nd) v")
      case (Inl e)
      then have "scanOneUpload st sn v nd = finishScannerError st sn v (su_path v) ''quarantined file is unavailable'' '''' ?nd"
        using run l by (simp add: scanOneUpload_def Let_def)
      then show ?thesis using scanner_error_inv [OF env inv1 u(1), of "su_path v"] path by simp
    next
      case (Inr p)
      note p = resolve_cases [OF Inr path]
      obtain err result where f: "scan_file st sn (nd_disk nd) p = (err, result)" by fastforce
      obtain c where c: "nd_disk nd p = Some c" "int (length c) = su_length v" using p(2) by blast
      have "c = recv (su_id v)" using inv_row [OF inv1 u(1)] c p(1) u(2) by (auto simp: row_content_def files_def)
      then have ok: "sr_sha256 result = hex_encode (cr_sha256 (st_crypto st) (recv (su_id v)))" "\<not> Contains (recv (su_id v)) eicarSignature"
        if "err = None" "sr_clean result" using clean_scan [of st sn "nd_disk nd" p result c] f c(1) that by simp_all
      let ?fail = "err \<noteq> None \<or> Contains (sr_detail result) ''could not scan''"
      have "scanOneUpload st sn v nd =
         (if ?fail then finishScannerError st sn v p (if err \<noteq> None then truncateText (sn_error sn) 512 else sr_detail result) (sr_sha256 result) ?nd
          else if \<not> sr_clean result then finish_blocked st sn v p result ?nd else finish_clean st sn v p result ?nd)"
        using run l Inr f by (simp add: scanOneUpload_def Let_def)
      then show ?thesis using scanner_error_inv [OF env inv1 u(1) p(1)] finish_blocked_inv [OF inv1] finish_clean_inv [OF env inv1 u(1) p(1) ok]
        by (auto split: if_splits)
    qed
  qed
qed

lemma scan_passes_inv:
  assumes "good_env (st_env st)"
  shows "content_inv st (nd_db nd) (nd_disk nd) recv \<Longrightarrow> scan_passes st passes nd = (r, nd') \<Longrightarrow> content_inv st (nd_db nd') (nd_disk nd') recv"
proof (induction passes arbitrary: nd)
  case (Cons pass passes)
  obtain leases now sn where pass: "pass = (leases, now, sn)" by (metis prod_cases3)
  obtain q db1 where q: "ClaimPendingScans (st_env st) leases now (now + storageScanLeaseDuration) 1 (nd_db nd) = (q, db1)" by fastforce
  have inv1: "content_inv st db1 (nd_disk nd) recv" by (rule inv_claim [OF Cons.prems(1) q])
  show ?case
  proof (cases "\<exists>v vs. q = Inr (v # vs) \<and> \<not> sn_stopped sn")
    case True
    then obtain v vs where v: "q = Inr (v # vs)" "\<not> sn_stopped sn" by blast
    let ?nd = "scanOneUpload st sn v (nd\<lparr>nd_db := db1\<rparr>)"
    have "claimed_upload st db1 v" by (rule claim_upload [OF assms inv_wf [OF Cons.prems(1)] q [unfolded v(1)]])
    then have "content_inv st (nd_db ?nd) (nd_disk ?nd) recv" using scanOne_inv [OF assms, of "nd\<lparr>nd_db := db1\<rparr>" recv v] inv1 by simp
    moreover have "scan_passes st passes ?nd = (r, nd')" using Cons.prems(2) q v by (simp add: pass)
    ultimately show ?thesis by (rule Cons.IH)
  next
    case False
    then show ?thesis using Cons.prems(2) q inv1 inv_release [OF inv1] by (auto simp: pass split: sum.splits list.splits if_splits)
  qed
qed simp

section \<open>The state machine of a node\<close>

text \<open>Everything the node does, and every point at which it may be interrupted: a chunk that was written
  but not recorded, a reservation without its file, a file that was moved or removed before the table
  says so. \<open>late_patch\<close> is a request whose first checks saw an earlier state, \<open>late_ensure\<close> a reservation
  that looks at the file after other requests were served.\<close>

inductive node_move :: "node_setup \<Rightarrow> node \<times> received \<Rightarrow> node \<times> received \<Rightarrow> bool" for st where
  patch: "patchUpload st call request body nd = (a, nd') \<Longrightarrow>
    node_move st (nd, recv) (nd', if saved a then recv(ur_id request := recv (ur_id request) @ delivered body) else recv)"
| late_patch: "patch_admitted st call request body cors headers offset nd = (a, nd') \<Longrightarrow>
    node_move st (nd, recv) (nd', if saved a then recv(ur_id request := recv (ur_id request) @ delivered body) else recv)"
| torn_chunk: "storage_UploadByID (st_env st) i (nd_db nd) = Inr v \<Longrightarrow> su_status v = StorageUploading \<Longrightarrow>
    node_move st (nd, recv) (nd\<lparr>nd_disk := snd (writeUploadChunk (st_env st) io v payload (nd_disk nd))\<rparr>, recv)"
| reserve: "reserveUpload st call request rbody at nd = (a, nd') \<Longrightarrow> node_move st (nd, recv) (nd', recv)"
| late_ensure: "validStorageObjectID (su_id v) \<Longrightarrow>
    node_move st (nd, recv) (nd\<lparr>nd_disk := snd (ensureUploadingFile (st_env st) io v created (nd_disk nd))\<rparr>, recv)"
| torn_reserve: "node_move st (nd, recv) (nd\<lparr>nd_db := snd (ReserveUpload (st_env st) (requested_upload st payload) (nd_db nd))\<rparr>, recv)"
| delete: "deleteUpload st call request rbody at i nd = (a, nd') \<Longrightarrow> node_move st (nd, recv) (nd', recv)"
| torn_delete: "validStorageObjectID (su_id v) \<Longrightarrow>
    node_move st (nd, recv) (nd\<lparr>nd_disk := snd (removeUploadFiles (st_env st) io v (nd_disk nd))\<rparr>, recv)"
| cleanup: "node_move st (nd, recv) (cleanupExpiredUploads st io now nd, recv)"
| recover: "node_move st (nd, recv) (recoverCompletedUploads st io nd, recv)"
| torn_move: "storage_UploadByID (st_env st) i (nd_db nd) = Inr v \<Longrightarrow> su_offset v = su_length v \<Longrightarrow>
    node_move st (nd, recv) (nd\<lparr>nd_disk := snd (move_to_quarantine (st_env st) io v (nd_disk nd))\<rparr>, recv)"
| scan: "node_move st (nd, recv) (scanPendingUploads st passes maxAttempts rounds nd, recv)"
| torn_scan: "storage_UploadByID (st_env st) i (nd_db nd) = Inr v \<Longrightarrow> su_status v = StorageScanning \<Longrightarrow>
    resolveScanPath (st_env st) io (nd_disk nd) v = Inr path \<Longrightarrow>
    target \<in> {quarantine_path (st_env st) (su_id v), object_path (st_env st) (su_id v)} \<Longrightarrow>
    node_move st (nd, recv) (nd\<lparr>nd_disk := snd (os_Rename io path target (nd_disk nd))\<rparr>, recv)"
| serve: "download st call reply drequest nd = (served, nd') \<Longrightarrow> node_move st (nd, recv) (nd', recv)"
| streaming: "node_move st (nd, recv) (nd\<lparr>nd_db := snd (stream_steps reservation amount evs (sm, nd_db nd))\<rparr>, recv)"
| streamed: "node_move st (nd, recv) (nd\<lparr>nd_db := finish_stream reservation bytes now maxAttempts rounds (nd_db nd)\<rparr>, recv)"
| stale: "node_move st (nd, recv) (recoverStaleDownloadSessions st now staleAfter maxDuration maxAttempts rounds nd, recv)"
| deliver: "node_move st (nd, recv) (nd\<lparr>nd_db := snd (retryOutbox maxAttempts rounds (nd_db nd))\<rparr>, recv)"
| restart: "node_move st (nd, recv) (snd (start_node now replays clocks nd), recv)"

definition forget :: "sdb \<Rightarrow> received \<Rightarrow> received" where
  "forget db recv = (\<lambda>i. if i \<in> ids db then recv i else '''')"

definition empty_node :: node where
  "empty_node = \<lparr>nd_db = empty_store, nd_disk = Map.empty, nd_replay = Map.empty\<rparr>"

inductive node_reachable :: "node_setup \<Rightarrow> node \<times> received \<Rightarrow> bool" for st where
  start: "node_reachable st (empty_node, \<lambda>i. '''')"
| move: "node_reachable st (nd, recv) \<Longrightarrow> node_move st (nd, recv) (nd', recv') \<Longrightarrow> node_reachable st (nd', forget (nd_db nd') recv')"

section \<open>Operations that do not touch uploads\<close>

lemma retry_uploads: "suploads (snd (retryOutbox m rounds db)) = suploads db"
proof -
  have "suploads (settle_event_as d e r t db) = suploads db" for d e r t db
    by (cases d) (simp_all add: settle_event_as_def outbox_ops_uploads)
  moreover have "retry_rounds m rs db = (log, db') \<Longrightarrow> suploads db' = suploads db" for rs log db db'
  proof (induction rs arbitrary: log db)
    case (Cons r rs)
    obtain q db1 where q: "ClaimOutbox (dr_token r) (dr_now r) (dr_until r) 1 db = (q, db1)" by fastforce
    have "suploads db1 = suploads db" using outbox_ops_uploads(1) [of "dr_token r" "dr_now r" "dr_until r" 1 db] q by simp
    then show ?case using Cons q calculation by (auto simp: Let_def split: sum.splits list.splits prod.splits)
  qed simp
  ultimately show ?thesis unfolding retryOutbox_def by (metis prod.collapse)
qed

lemma finish_uploads: "suploads (finish_stream i n now m rounds db) = suploads db"
  using queue_uploads [of now i n now SettleStreamingExact db]
    queue_uploads [of now i 0 now SettleStreamingCheckpoint "snd (queueDownloadSettlement now i n now SettleStreamingExact db)"]
  by (auto simp: finish_stream_def FinishDownloadSession_def ConservativelyFinishDownloadSession_def retry_uploads split: prod.splits sum.splits)

lemma stream_uploads: "suploads (snd (stream_steps i amount evs s)) = suploads (snd s)"
proof (induction evs arbitrary: s)
  case (Cons ev evs)
  have "suploads (snd (checkpoint_Write i n b s)) = suploads (snd s)" "suploads (snd (run_heartbeat i now reply s)) = suploads (snd s)" for n b now reply
    using session_ops_uploads(3) [of i _ "snd s"] session_ops_uploads(4) [of i _ now "snd s"]
    by (auto simp: checkpoint_Write_def run_heartbeat_def Let_def split: prod.splits sum.splits)
      (metis snd_conv)+
  then show ?case using Cons.IH by (cases ev) simp_all
qed simp

lemma begin_uploads: "suploads (snd (begin_session call reply i u selected db)) = suploads db"
proof -
  have "PrepareDownloadSession s db = (r, db') \<Longrightarrow> suploads db' = suploads db" "ActivateDownloadSession i db = (r', db') \<Longrightarrow> suploads db' = suploads db"
    for s r r' db db' using session_ops_uploads(1,2) by (metis snd_conv)+
  then show ?thesis using session_ops_uploads(5) queue_uploads
    by (auto simp: begin_session_def FinishPendingDownloadSession_def Let_def split: prod.splits sum.splits)
qed

lemma download_uploads:
  assumes "download st call reply request nd = (served, nd')"
  shows "suploads (nd_db nd') = suploads (nd_db nd)" "nd_disk nd' = nd_disk nd"
proof -
  have "suploads (nd_db nd') = suploads (nd_db nd) \<and> nd_disk nd' = nd_disk nd"
  proof (cases "nd' = nd")
    case False
    obtain claims u c where s: "serve_object call reply request claims u c nd = (served, nd')"
      using assms False by (auto simp: download_def split: sum.splits option.splits if_splits slot_limit.splits)
    obtain sel q db1 where "begin_session call reply (cl_reservationID claims) u sel (nd_db nd) = (q, db1)" "nd' = nd\<lparr>nd_db := db1\<rparr>"
      using s False by (auto simp: serve_object_def Let_def split: option.splits if_splits prod.splits)
    then show ?thesis using begin_uploads [of call reply "cl_reservationID claims" u sel "nd_db nd"] by simp
  qed simp
  then show "suploads (nd_db nd') = suploads (nd_db nd)" "nd_disk nd' = nd_disk nd" by simp_all
qed

lemma recover_rounds_uploads: "suploads (snd (recover_rounds clocks db)) = suploads db"
proof (induction clocks arbitrary: db)
  case (Cons now clocks)
  obtain q db1 where q: "RecoverDownloadSessions now now 100 db = (q, db1)" by fastforce
  have "suploads db1 = suploads db" using recover_uploads(1) [of now now 100 db] q by simp
  then show ?case using Cons.IH [of db1] q by (auto split: prod.splits option.splits)
qed simp

lemma node_start_uploads: "suploads (nd_db (snd (start_node now replays clocks nd))) = suploads (nd_db nd)" "nd_disk (snd (start_node now replays clocks nd)) = nd_disk nd"
proof -
  define db1 where "db1 = snd (ResetOutboxClaims now (nd_db nd))"
  define db2 where "db2 = (if replays then snd (ReplayDeadLetters now 0 db1) else db1)"
  have "suploads db2 = suploads (nd_db nd)" unfolding db2_def db1_def by (simp only: outbox_ops_uploads if_distrib [of suploads] if_cancel)
  moreover obtain r db3 where r: "recover_rounds clocks db2 = (r, db3)" by fastforce
  moreover have "start_node now replays clocks nd = (r, nd\<lparr>nd_db := db3, nd_replay := Map.empty\<rparr>)"
    unfolding start_node_def Let_def db1_def [symmetric] db2_def [symmetric] r by simp
  ultimately show "suploads (nd_db (snd (start_node now replays clocks nd))) = suploads (nd_db nd)" "nd_disk (snd (start_node now replays clocks nd)) = nd_disk nd"
    using recover_rounds_uploads [of clocks db2] by simp_all
qed

lemma stale_uploads:
  "suploads (nd_db (recoverStaleDownloadSessions st now s m k rounds nd)) = suploads (nd_db nd)" "nd_disk (recoverStaleDownloadSessions st now s m k rounds nd) = nd_disk nd"
proof -
  define a where "a = now - (if s \<le> 0 then 120 else s)"
  define b where "b = now - (if m \<le> 0 then downloadReservationMaxDuration - 60 else m)"
  obtain e n db1 where q: "RecoverStaleDownloadSessions now now a b 100 (nd_db nd) = ((e, n), db1)" by (metis prod.collapse)
  have rows: "suploads db1 = suploads (nd_db nd)" using recover_uploads(2) [of now now a b 100 "nd_db nd"] q by simp
  have "recoverStaleDownloadSessions st now s m k rounds nd =
      nd\<lparr>nd_db := (if e = None \<and> n > 0 then snd (retryOutbox k rounds db1) else db1)\<rparr>"
    unfolding recoverStaleDownloadSessions_def Let_def a_def [symmetric] b_def [symmetric] q by (cases e) simp_all
  then show "suploads (nd_db (recoverStaleDownloadSessions st now s m k rounds nd)) = suploads (nd_db nd)"
    "nd_disk (recoverStaleDownloadSessions st now s m k rounds nd) = nd_disk nd" using rows by (simp_all add: retry_uploads)
qed

section \<open>Every move keeps the contents\<close>

lemma inv_node: "content_inv st (nd_db nd) (nd_disk nd) recv \<Longrightarrow> suploads (nd_db nd') = suploads (nd_db nd) \<Longrightarrow> nd_disk nd' = nd_disk nd \<Longrightarrow>
  content_inv st (nd_db nd') (nd_disk nd') recv"
  using inv_same_rows by simp

lemma reserve_handler_inv:
  assumes env: "good_env (st_env st)" and inv: "content_inv st (nd_db nd) (nd_disk nd) recv" and reset: "\<And>i. i \<notin> ids (nd_db nd) \<Longrightarrow> recv i = ''''"
    and r: "reserveUpload st call request body at nd = (a, nd')"
  shows "content_inv st (nd_db nd') (nd_disk nd') recv"
proof -
  obtain v replay1 where v: "verifiedInternalBody st request body at (nd_replay nd) = (v, replay1)" by fastforce
  let ?nd = "nd\<lparr>nd_replay := replay1\<rparr>"
  have inv1: "content_inv st (nd_db ?nd) (nd_disk ?nd) recv" using inv by simp
  show ?thesis
  proof (cases "nd' = ?nd")
    case True
    then show ?thesis using inv1 by simp
  next
    case False
    then obtain payload where p: "validateReserveRequest st (ca_now call) payload" "reserve_checked st call payload ?nd = (a, nd')"
      using r v by (auto simp: reserveUpload_def split: sum.splits option.splits if_splits)
    show ?thesis by (rule reserve_checked_inv [OF env inv1 _ _ p(2)]) (use p(1) reset in \<open>auto simp: validateReserveRequest_def\<close>)
  qed
qed

lemma delete_inv:
  assumes env: "good_env (st_env st)" and inv: "content_inv st (nd_db nd) (nd_disk nd) recv"
    and r: "deleteUpload st call request body at i nd = (a, nd')"
  shows "content_inv st (nd_db nd') (nd_disk nd') recv"
proof -
  obtain v replay1 where v: "verifiedInternalBody st request body at (nd_replay nd) = (v, replay1)" by fastforce
  let ?nd = "nd\<lparr>nd_replay := replay1\<rparr>"
  have inv1: "content_inv st (nd_db ?nd) (nd_disk ?nd) recv" using inv by simp
  show ?thesis
  proof (cases "nd' = ?nd")
    case True
    then show ?thesis using inv1 by simp
  next
    case False
    then obtain w q where w: "storage_UploadByID (st_env st) i (nd_db nd) = Inr w" "remove_upload st (ca_io call) w ?nd = (q, nd')"
      using r v by (auto simp: deleteUpload_def Let_def split: sum.splits error.splits if_splits prod.splits)
    obtain u where "reads_row st (nd_db nd) u w" using UploadByID_reads [OF env w(1) inv_wf [OF inv]] .
    then show ?thesis using remove_upload_inv [OF env inv1 _ w(2)] reads_rowD(6) by blast
  qed
qed

lemma collected_valid: "uploads_wf db \<Longrightarrow> collectUploads env us = Inr xs \<Longrightarrow> set us \<subseteq> set (suploads db) \<Longrightarrow> v \<in> set xs \<Longrightarrow> validStorageObjectID (su_id v)"
proof -
  assume wf: "uploads_wf db" and c: "collectUploads env us = Inr xs" and us: "set us \<subseteq> set (suploads db)" and v: "v \<in> set xs"
  have "su_id v \<in> set (map su_id us)" using v by (simp add: collect_ids [OF c, symmetric])
  then show ?thesis using wf us by (auto simp: uploads_wf_def row_wf_def)
qed

lemma taken_rows: "set (take n (by_expiry (filter p us))) \<subseteq> {u \<in> set us. p u}"
  using set_take_subset [of n "by_expiry (filter p us)"] by (auto simp: by_expiry_def)

lemma cleanup_inv:
  assumes env: "good_env (st_env st)" and inv: "content_inv st (nd_db nd) (nd_disk nd) recv"
  shows "content_inv st (nd_db (cleanupExpiredUploads st io now nd)) (nd_disk (cleanupExpiredUploads st io now nd)) recv"
proof (cases "ExpiredUploads (st_env st) now 100 (nd_db nd)")
  case (Inr us)
  have "\<forall>v \<in> set us. validStorageObjectID (su_id v)"
    using collected_valid [OF inv_wf [OF inv] Inr [unfolded ExpiredUploads_def]] taken_rows by blast
  then show ?thesis using cleanup_all_inv [OF env inv] Inr by (simp add: cleanupExpiredUploads_def)
qed (use inv in \<open>simp add: cleanupExpiredUploads_def\<close>)

lemma recover_inv:
  assumes env: "good_env (st_env st)" and inv: "content_inv st (nd_db nd) (nd_disk nd) recv"
  shows "content_inv st (nd_db (recoverCompletedUploads st io nd)) (nd_disk (recoverCompletedUploads st io nd)) recv"
proof (cases "RecoverableCompletedUploads (st_env st) 32 (nd_db nd)")
  case (Inr us)
  let ?p = "\<lambda>u. su_status u = StorageUploading \<and> su_offset u = su_length u"
  have "\<exists>u. row_of (su_id v) (nd_db nd) u \<and> su_offset u = su_length u" if "v \<in> set us" for v
  proof -
    have "su_id v \<in> set (map su_id (take 32 (by_expiry (filter ?p (suploads (nd_db nd))))))"
      using that by (simp add: collect_ids [OF Inr [unfolded RecoverableCompletedUploads_def], symmetric])
    then obtain u where u: "u \<in> set (take 32 (by_expiry (filter ?p (suploads (nd_db nd)))))" "su_id u = su_id v" by auto
    have "u \<in> {u \<in> set (suploads (nd_db nd)). ?p u}" using taken_rows u(1) by blast
    then show ?thesis using u(2) by (auto simp: row_of_def)
  qed
  then show ?thesis using finalize_all_inv [OF env inv] Inr by (simp add: recoverCompletedUploads_def)
qed (use inv in \<open>simp add: recoverCompletedUploads_def\<close>)

lemma torn_inv:
  assumes env: "good_env (st_env st)" and inv: "content_inv st (nd_db nd) (nd_disk nd) recv" and v: "storage_UploadByID (st_env st) i (nd_db nd) = Inr v"
  shows "su_status v = StorageUploading \<Longrightarrow> content_inv st (nd_db nd) (snd (writeUploadChunk (st_env st) io v payload (nd_disk nd))) recv"
    "su_offset v = su_length v \<Longrightarrow> content_inv st (nd_db nd) (snd (move_to_quarantine (st_env st) io v (nd_disk nd))) recv"
    "su_status v = StorageScanning \<Longrightarrow> resolveScanPath (st_env st) io (nd_disk nd) v = Inr path \<Longrightarrow>
      new \<in> {quarantine_path (st_env st) (su_id v), object_path (st_env st) (su_id v)} \<Longrightarrow>
      content_inv st (nd_db nd) (snd (os_Rename io path new (nd_disk nd))) recv"
proof -
  obtain u where u: "reads_row st (nd_db nd) u v" "su_id v = i" using UploadByID_reads [OF env v inv_wf [OF inv]] .
  note d = reads_rowD [OF u(1)]
  show "content_inv st (nd_db nd) (snd (writeUploadChunk (st_env st) io v payload (nd_disk nd))) recv" if "su_status v = StorageUploading"
    using write_inv(1) [OF env inv u(1) that] by (metis prod.collapse)
  show "content_inv st (nd_db nd) (snd (move_to_quarantine (st_env st) io v (nd_disk nd))) recv" if "su_offset v = su_length v"
    using move_inv [OF env inv d(1)] d(3,4) that by simp
  show "content_inv st (nd_db nd) (snd (os_Rename io path new (nd_disk nd))) recv"
    if "su_status v = StorageScanning" "resolveScanPath (st_env st) io (nd_disk nd) v = Inr path"
      "new \<in> {quarantine_path (st_env st) (su_id v), object_path (st_env st) (su_id v)}"
    using rename_inv [OF env inv d(1) _ that(3)] resolve_cases(1) [OF that(2)] u(1) that(1) d(5) by (simp add: reads_row_def)
qed

lemma scan_inv:
  assumes "good_env (st_env st)" "content_inv st (nd_db nd) (nd_disk nd) recv"
  shows "content_inv st (nd_db (scanPendingUploads st passes m rounds nd)) (nd_disk (scanPendingUploads st passes m rounds nd)) recv"
proof -
  obtain r nd1 where p: "scan_passes st (take 4 passes) nd = (r, nd1)" by fastforce
  have "content_inv st (nd_db nd1) (nd_disk nd1) recv" by (rule scan_passes_inv [OF assms(1,2) p])
  then show ?thesis using p inv_same_rows [OF _ retry_uploads] by (simp add: scanPendingUploads_def)
qed

lemma move_content:
  assumes env: "good_env (st_env st)" and "node_move st s s'" and inv: "content_inv st (nd_db (fst s)) (nd_disk (fst s)) (snd s)"
    and reset: "\<And>i. i \<notin> ids (nd_db (fst s)) \<Longrightarrow> snd s i = ''''"
  shows "content_inv st (nd_db (fst s')) (nd_disk (fst s')) (snd s')"
  using assms(2,3,4)
proof (cases rule: node_move.cases)
  case (patch call request body nd a nd' recv)
  from patch(3) show ?thesis by (cases rule: patch_front) (use patch inv patch_admitted_inv [OF env] in auto)
next
  case (late_patch call request body cors headers offset nd a nd' recv)
  then show ?thesis using patch_admitted_inv [OF env _ late_patch(3), of recv] inv by simp
next
  case (torn_reserve nd recv payload)
  then show ?thesis using inv_reserve [of st "nd_db nd" "nd_disk nd" recv] inv reset by simp
next
  case (torn_delete v nd recv io)
  have "shrinks (nd_disk nd) (snd (removeUploadFiles (st_env st) io v (nd_disk nd)))"
    using removeUploadFiles_shrink(1) [OF env torn_delete(3)] by (metis prod.collapse)
  then show ?thesis using inv_shrink inv torn_delete by simp
next
  case (serve call reply drequest nd served nd' recv)
  then show ?thesis using inv_node download_uploads inv by fastforce
qed (use env inv reset in \<open>auto simp: torn_inv ensure_inv cleanup_inv recover_inv scan_inv inv_same_rows [OF _ stream_uploads]
      inv_same_rows [OF _ finish_uploads] inv_same_rows [OF _ retry_uploads] intro: patch_admitted_inv reserve_handler_inv delete_inv
      inv_node [OF _ stale_uploads] inv_node [OF _ node_start_uploads]\<close>)

lemma inv_forget: "content_inv st db disk recv \<Longrightarrow> content_inv st db disk (forget db recv)"
  by (auto simp: content_inv_def forget_def ids_def)

lemma reachable_content:
  assumes env: "good_env (st_env st)"
  shows "node_reachable st s \<Longrightarrow> content_inv st (nd_db (fst s)) (nd_disk (fst s)) (snd s) \<and> (\<forall>i. i \<notin> ids (nd_db (fst s)) \<longrightarrow> snd s i = '''')"
proof (induction rule: node_reachable.induct)
  case start
  then show ?case by (simp add: content_inv_def empty_node_def empty_store_def uploads_wf_def keyed_def)
next
  case (move nd recv nd' recv')
  then show ?case using inv_forget [OF move_content [OF env move(2), simplified]] by (simp add: forget_def)
qed

section \<open>What is served\<close>

lemma streamed_object:
  assumes "download st call reply request nd = (Streams a reservationID selected bytes, nd')"
  obtains claims v c where
    "VerifyStorageDownloadTicketAt (st_crypto st) (st_decode_claims st) (cfg_SharedSecret (st_cfg st)) (dq_ticket request) (ca_now call) = Inr claims"
    "open_object st call claims nd = Some (v, c)" "parseStorageRange (dq_range request) (su_length v) = Some selected"
    "bytes = take (nat (sr_Length selected)) (drop (nat (sr_Start selected)) c)"
proof -
  obtain claims v c where s: "VerifyStorageDownloadTicketAt (st_crypto st) (st_decode_claims st) (cfg_SharedSecret (st_cfg st)) (dq_ticket request) (ca_now call) = Inr claims"
    "open_object st call claims nd = Some (v, c)" "serve_object call reply request claims v c nd = (Streams a reservationID selected bytes, nd')"
    using assms by (auto simp: download_def split: sum.splits option.splits if_splits slot_limit.splits)
  then show ?thesis using that [OF s(1,2)] by (auto simp: serve_object_def Let_def split: option.splits if_splits prod.splits)
qed

lemma opened_object:
  assumes env: "good_env (st_env st)" and wf: "uploads_wf (nd_db nd)" and o: "open_object st call claims nd = Some (v, c)"
  obtains u where "row_of (cl_uploadID claims) (nd_db nd) u" "su_status u = Clean" "su_length v = su_length u" "su_id v = su_id u"
    "nd_disk nd (object_path (st_env st) (su_id u)) = Some c" "int (length c) = su_length u"
proof -
  have v: "CleanUpload (st_env st) (cl_uploadID claims) (ca_now call) (nd_db nd) = Inr v" "nd_disk nd (su_path v) = Some c" "int (length c) = su_length v"
    using o by (auto simp: open_object_def split: sum.splits if_splits option.splits)
  then obtain u where u: "u \<in> set (suploads (nd_db nd))" "su_id u = cl_uploadID claims" "su_status u = Clean" "scanUpload (st_env st) u = Inr v"
    by (auto simp: CleanUpload_def split: option.splits dest!: sql_firstD)
  have w: "row_wf u" using u(1) wf by (simp add: uploads_wf_def)
  note s = scanUpload_path [OF env w u(4)]
  have "su_length v = su_length u" "su_id v = su_id u" by (subst s(1), simp)+
  then show ?thesis using that [of u] u v s(4) by (simp add: row_of_def)
qed

lemma length_slice: "0 \<le> s \<Longrightarrow> 0 \<le> n \<Longrightarrow> s + n \<le> int (length c) \<Longrightarrow> int (length (take (nat n) (drop (nat s) c))) = n"
  by auto

text \<open>C34. What a node streams is what it was sent. In every state that the handlers and workers of a node
  reach, in any order, whichever system calls fail, however much of a failed write reached the disk and
  wherever the process was killed: when a download is streamed, its bytes are the selected range of
  exactly those bytes whose chunks the uploader was told are stored, in order and of the declared length;
  the digest that was reported for the file is the digest of those bytes, and they do not contain the
  signature the scanner looks for.\<close>

theorem served_bytes_are_uploaded_bytes:
  assumes "good_env (st_env st)" "node_reachable st (nd, recv)"
    and "download st call reply request nd = (Streams a reservationID selected bytes, nd')"
  shows "\<exists>claims u. VerifyStorageDownloadTicketAt (st_crypto st) (st_decode_claims st) (cfg_SharedSecret (st_cfg st)) (dq_ticket request) (ca_now call) = Inr claims \<and>
    u \<in> set (suploads (nd_db nd)) \<and> su_id u = cl_uploadID claims \<and> su_status u = Clean \<and>
    int (length (recv (su_id u))) = su_length u \<and>
    bytes = take (nat (sr_Length selected)) (drop (nat (sr_Start selected)) (recv (su_id u))) \<and> int (length bytes) = sr_Length selected \<and>
    su_sha256 u = hex_encode (cr_sha256 (st_crypto st) (recv (su_id u))) \<and> \<not> Contains (recv (su_id u)) eicarSignature"
proof -
  have inv: "content_inv st (nd_db nd) (nd_disk nd) recv" using reachable_content [OF assms(1,2)] by simp
  obtain claims v c where s: "VerifyStorageDownloadTicketAt (st_crypto st) (st_decode_claims st) (cfg_SharedSecret (st_cfg st)) (dq_ticket request) (ca_now call) = Inr claims"
    "open_object st call claims nd = Some (v, c)" "parseStorageRange (dq_range request) (su_length v) = Some selected"
    "bytes = take (nat (sr_Length selected)) (drop (nat (sr_Start selected)) c)" using streamed_object [OF assms(3)] .
  obtain u where u: "row_of (cl_uploadID claims) (nd_db nd) u" "su_status u = Clean" "su_length v = su_length u" "su_id v = su_id u"
    "nd_disk nd (object_path (st_env st) (su_id u)) = Some c" "int (length c) = su_length u" using opened_object [OF assms(1) inv_wf [OF inv] s(2)] .
  have r: "row_content (st_crypto st) u (recv (su_id u)) (files (st_env st) (nd_disk nd) (su_id u))" using inv_row [OF inv u(1)] u(1) by (simp add: row_of_def)
  then have c: "c = recv (su_id u)" and sha: "su_sha256 u = hex_encode (cr_sha256 (st_crypto st) c)" "\<not> Contains c eicarSignature"
    using u(2,5,6) by (auto simp: row_content_def files_def)
  have "int (length bytes) = sr_Length selected"
  proof (cases "su_length u = 0")
    case True
    then show ?thesis using s(3,4) u(3,6) by (auto simp: parseStorageRange_def split: if_splits)
  next
    case False
    then have "0 < su_length v" using u(3,6) by linarith
    then show ?thesis unfolding s(4) using range_inside [OF s(3)] u(3,6) by (intro length_slice) simp_all
  qed
  then show ?thesis using s u c sha by (auto simp: row_of_def)
qed

section \<open>A concrete node\<close>

definition demo_config :: storage_config where
  "demo_config = \<lparr>cfg_NodeID = ''node-1'', cfg_SharedSecret = demo_secret, cfg_MaxUploadBytes = 100, cfg_MaxChunkBytes = 10,
     cfg_MinFreeBytes = 100, cfg_PublicMode = False, cfg_ScanMode = ''auto'', cfg_AllowedOrigins = []\<rparr>"

definition demo_reserve :: reserve_request where
  "demo_reserve = \<lparr>rr_ID = ''upload-01'', rr_UploadTokenHash = tokenHash demo_crypto ''token'', rr_OriginalName = ''a.txt'',
     rr_ContentType = ''text/plain'', rr_Length = 4, rr_ExpiresAt = 1900\<rparr>"

definition demo_setup :: node_setup where
  "demo_setup = \<lparr>st_env = demo_env, st_cfg = demo_config, st_crypto = demo_crypto, st_scanner = NewScanner [] ''auto'',
     st_decode_reserve = (\<lambda>b. Some demo_reserve), st_decode_claims = demo_decode\<rparr>"

definition demo_io :: io where
  "demo_io = \<lparr>io_fails = (\<lambda>c p. False), io_written = 0, io_reads = [1]\<rparr>"

definition demo_call :: call where
  "demo_call = \<lparr>ca_now = 1000, ca_later = 1001, ca_ping = True, ca_writable = True, ca_health_free = Some 1000, ca_free = Some 1000,
     ca_busy = False, ca_source = ''1.2.3.4'', ca_slots = \<lparr>ts_limit = 2, ts_active = (\<lambda>s. 0), ts_capacity = 4, ts_global = 0\<rparr>, ca_io = demo_io\<rparr>"

definition demo_patch :: "string \<Rightarrow> upload_request" where
  "demo_patch offset = \<lparr>ur_id = ''upload-01'', ur_origin = [], ur_preflight_method = [], ur_preflight_headers = [],
     ur_authorization = ''Bearer token'', ur_content_type = ''application/offset+octet-stream'', ur_upload_offset = offset, ur_content_length = 2\<rparr>"

definition demo_scan :: scan_call where
  "demo_scan = \<lparr>sn_stopped = False, sn_cancelled = False, sn_ticks = [1030], sn_end = 1040, sn_now = 1041, sn_defender = (False, []), sn_error = [], sn_io = demo_io\<rparr>"

definition demo_download :: download_request where
  "demo_download = \<lparr>dq_ticket = (case SignStorageDownloadTicket demo_crypto demo_secret demo_claims of Inr t \<Rightarrow> t | Inl _ \<Rightarrow> []),
     dq_head = False, dq_range = ''bytes=1-2''\<rparr>"

text \<open>A reservation that is interrupted before its file exists, the retry that opens the file, two chunks
  and a scan.\<close>

definition demo_reserved :: node where
  "demo_reserved = empty_node\<lparr>nd_db := snd (ReserveUpload (st_env demo_setup) (requested_upload demo_setup demo_reserve) (nd_db empty_node))\<rparr>"

definition demo_opened :: node where
  "demo_opened = demo_reserved\<lparr>nd_disk := snd (ensureUploadingFile (st_env demo_setup) demo_io (requested_upload demo_setup demo_reserve) False (nd_disk demo_reserved))\<rparr>"

definition demo_node :: node where
  "demo_node = scanPendingUploads demo_setup [([''L''], 1000, demo_scan)] 3 []
     (snd (patchUpload demo_setup demo_call (demo_patch ''2'') (Delivered ''CD'')
       (snd (patchUpload demo_setup demo_call (demo_patch ''0'') (Delivered ''AB'') demo_opened))))"

lemma patch_reachable:
  "\<exists>recv. node_reachable st (nd, recv) \<Longrightarrow> \<exists>recv. node_reachable st (snd (patchUpload st call request body nd), recv)"
  using node_reachable.move [OF _ patch] by (metis prod.collapse)

lemma demo_reachable_node: "\<exists>recv. node_reachable demo_setup (demo_node, recv)"
proof -
  have v: "validStorageObjectID (su_id (requested_upload demo_setup demo_reserve))" by code_simp
  obtain recv1 where "node_reachable demo_setup (demo_reserved, recv1)"
    unfolding demo_reserved_def using node_reachable.move [OF node_reachable.start node_move.torn_reserve] by blast
  then have "\<exists>recv. node_reachable demo_setup (demo_opened, recv)"
    unfolding demo_opened_def using node_reachable.move [OF _ node_move.late_ensure [OF v]] by blast
  note patch_reachable [OF patch_reachable [OF this], of demo_call "demo_patch ''2''" "Delivered ''CD''" demo_call "demo_patch ''0''" "Delivered ''AB''"]
  then show ?thesis unfolding demo_node_def using node_reachable.move [OF _ node_move.scan] by blast
qed

lemma serve_any_ticket: "serve_object call reply (request\<lparr>dq_ticket := t\<rparr>) = serve_object call reply request"
  by (intro ext) (simp add: serve_object_def Let_def split: option.split)

lemma demo_claims_upload: "cl_uploadID demo_claims = ''upload-01''"
  by (simp add: demo_claims_def)

lemma demo_ticket:
  obtains ticket where "SignStorageDownloadTicket demo_crypto demo_secret demo_claims = Inr ticket" "dq_ticket demo_download = ticket"
    "VerifyStorageDownloadTicketAt demo_crypto demo_decode demo_secret ticket 1000 = Inr demo_claims"
proof -
  have v: "\<not> length demo_secret < 32" "validStorageDownloadClaims demo_claims" by code_simp+
  then obtain ticket where t: "SignStorageDownloadTicket demo_crypto demo_secret demo_claims = Inr ticket"
    by (auto simp: SignStorageDownloadTicket_def Let_def)
  have size: "\<And>k m. length (cr_hmac demo_crypto k m) = 32" by (simp add: demo_crypto_def)
  have e: "cl_expiresAt demo_claims \<le> max_int64" "\<not> cl_expiresAt demo_claims \<le> 1000" by code_simp+
  have "VerifyStorageDownloadTicketAt demo_crypto demo_decode demo_secret ticket 1000 = Inr demo_claims"
    using signed_ticket_verifies [OF size demo_decode_json t e(1)] e(2) by simp
  then show ?thesis using that t by (simp add: demo_download_def)
qed

text \<open>The download after its ticket was read.\<close>

lemma demo_object:
  "requireStorageAcceptance demo_setup demo_call (nd_db demo_node) = None \<and>
   (case open_object demo_setup demo_call demo_claims demo_node of None \<Rightarrow> False | Some (v, c) \<Rightarrow>
      (case fst (serve_object demo_call (Inr 200) \<lparr>dq_ticket = '''', dq_head = False, dq_range = ''bytes=1-2''\<rparr> demo_claims v c demo_node) of
         Answered a \<Rightarrow> False | Streams a i selected bytes \<Rightarrow> selected = \<lparr>sr_Start = 1, sr_Length = 2, sr_Partial = True\<rparr> \<and> bytes = ''BC''))"
  by code_simp

lemma demo_streams:
  "\<exists>a i nd'. download demo_setup demo_call (Inr 200) demo_download demo_node =
     (Streams a i \<lparr>sr_Start = 1, sr_Length = 2, sr_Partial = True\<rparr> ''BC'', nd')"
proof -
  obtain ticket where dt: "dq_ticket demo_download = ticket"
    and v: "VerifyStorageDownloadTicketAt demo_crypto demo_decode demo_secret ticket 1000 = Inr demo_claims" by (rule demo_ticket)
  have dd: "demo_download = \<lparr>dq_ticket = '''', dq_head = False, dq_range = ''bytes=1-2''\<rparr>\<lparr>dq_ticket := ticket\<rparr>"
    using dt by (auto simp: demo_download_def)
  have slots: "fst (acquireTransferSlot (ca_source demo_call) (ca_slots demo_call)) = Inr ()" by code_simp
  obtain ob c where ob: "open_object demo_setup demo_call demo_claims demo_node = Some (ob, c)"
    using demo_object by (auto split: option.splits)
  have cfgs: "st_crypto demo_setup = demo_crypto" "st_decode_claims demo_setup = demo_decode" "cfg_SharedSecret (st_cfg demo_setup) = demo_secret"
    "cl_nodeID demo_claims = cfg_NodeID (st_cfg demo_setup)" "ca_now demo_call = 1000"
    by (simp_all add: demo_setup_def demo_config_def demo_claims_def demo_call_def)
  have "download demo_setup demo_call (Inr 200) demo_download demo_node =
      serve_object demo_call (Inr 200) \<lparr>dq_ticket = '''', dq_head = False, dq_range = ''bytes=1-2''\<rparr> demo_claims ob c demo_node"
    unfolding download_def dd serve_any_ticket using v slots ob demo_object by (simp add: cfgs)
  then show ?thesis using demo_object ob
    by (cases "serve_object demo_call (Inr 200) \<lparr>dq_ticket = '''', dq_head = False, dq_range = ''bytes=1-2''\<rparr> demo_claims ob c demo_node")
      (auto split: serving.splits)
qed

theorem served_bytes_are_uploaded_bytes_witness:
  "\<exists>recv. node_reachable demo_setup (demo_node, recv) \<and> (\<exists>u \<in> set (suploads (nd_db demo_node)). su_status u = Clean \<and>
     su_id u = ''upload-01'' \<and> ''BC'' = take 2 (drop 1 (recv ''upload-01'')) \<and> int (length (recv ''upload-01'')) = su_length u)"
proof -
  obtain recv where r: "node_reachable demo_setup (demo_node, recv)" using demo_reachable_node by blast
  obtain a i nd' where d: "download demo_setup demo_call (Inr 200) demo_download demo_node =
     (Streams a i \<lparr>sr_Start = 1, sr_Length = 2, sr_Partial = True\<rparr> ''BC'', nd')" using demo_streams by blast
  have env: "good_env (st_env demo_setup)"
  proof -
    have "clean_root ''/data''" by code_simp
    then show ?thesis by (simp add: good_env_def demo_setup_def demo_env_def)
  qed
  have ids: "cl_uploadID c = ''upload-01''" if "VerifyStorageDownloadTicketAt demo_crypto demo_decode demo_secret (dq_ticket demo_download) 1000 = Inr c" for c
    using demo_ticket that by (metis Inr_inject demo_claims_upload)
  have cfgs: "st_crypto demo_setup = demo_crypto" "st_decode_claims demo_setup = demo_decode" "cfg_SharedSecret (st_cfg demo_setup) = demo_secret"
    "ca_now demo_call = 1000" by (simp_all add: demo_setup_def demo_config_def demo_call_def)
  obtain c u where "VerifyStorageDownloadTicketAt demo_crypto demo_decode demo_secret (dq_ticket demo_download) 1000 = Inr c"
    "u \<in> set (suploads (nd_db demo_node))" "su_id u = cl_uploadID c" "su_status u = Clean" "int (length (recv (su_id u))) = su_length u"
    "''BC'' = take 2 (drop 1 (recv (su_id u)))"
    using served_bytes_are_uploaded_bytes [OF env r d] by (auto simp: cfgs)
  then show ?thesis using r ids by (intro exI [of _ recv]) auto
qed

end
