(* ===== verification/Node_Posts.thy ===== *)
theory Node_Posts
  imports Storage_Integrity
begin

text \<open>
  What a storage node may ever send to the control plane: the contents of its outbox and dead letters
  are settlements of downloads and verdicts of scans, and it only reports a file as ready when its row
  says so with the same digest.
\<close>

section \<open>Contents of the outbox\<close>

definition posts :: "sdb \<Rightarrow> (string \<times> string \<times> string) set" where
  "posts db = content ` set (outbox db) \<union> dead_content ` set (dead_letters db)"

definition settlements :: "(string \<times> string \<times> string) set" where
  "settlements = {(''POST'', path, settle_body n) | path n. True}"

definition adds :: "(string \<times> string \<times> string) set \<Rightarrow> sdb \<Rightarrow> sdb \<Rightarrow> bool" where
  "adds new db db' \<longleftrightarrow> posts db' \<subseteq> posts db \<union> new"

abbreviation settles :: "sdb \<Rightarrow> sdb \<Rightarrow> bool" where
  "settles \<equiv> adds settlements"

lemma adds_refl [simp]: "adds new db db"
  by (simp add: adds_def)

lemma adds_trans: "adds new a b \<Longrightarrow> adds new b c \<Longrightarrow> adds new a c"
  by (auto simp: adds_def)

lemma adds_mono: "adds new a b \<Longrightarrow> new \<subseteq> new' \<Longrightarrow> adds new' a b"
  by (auto simp: adds_def)

lemma adds_events: "events db' = events db \<Longrightarrow> adds new db db'"
  by (simp add: adds_def posts_def events_def)

lemma posts_events: "events db' = events db \<Longrightarrow> posts db' = posts db"
  by (simp add: posts_def events_def)

lemma posts_delete:
  "outbox db' = sql_delete q (outbox db) \<Longrightarrow> dead_letters db' = sql_delete q' (dead_letters db) \<Longrightarrow> posts db' \<subseteq> posts db"
  by (auto simp: posts_def sql_delete_def)

lemma posts_update:
  assumes "outbox db' = sql_update q f (outbox db)" "dead_letters db' = dead_letters db" "\<And>e. content (f e) = content e"
  shows "posts db' \<subseteq> posts db"
  using assms by (auto simp: posts_def sql_update_def image_iff split: if_splits)

lemma adds_upsert: "adds {content ev} db (upsert_event ev db)"
  by (auto simp: adds_def posts_def upsert_event_def sql_update_def content_def image_iff)

section \<open>Operations of the store\<close>

lemma adds_complete:
  "adds {content ev} db (snd (CompleteScan env clock i l now st p sha detail ev db))"
proof -
  obtain r db' where r: "CompleteScan env clock i l now st p sha detail ev db = (r, db')" by fastforce
  then show ?thesis
  proof (cases rule: complete_cases)
    case (recorded us ev')
    have "posts db' = posts (upsert_event ev' db)" by (rule posts_events) (simp add: recorded(2) upsert_uploads)
    then show ?thesis using adds_upsert [of ev' db] r recorded(4) by (simp add: adds_def)
  qed (use r in simp)
qed

lemma settles_queue: "settles db (snd (queueDownloadSettlement clock i n now mode db))"
proof -
  obtain r db' where r: "queueDownloadSettlement clock i n now mode db = (r, db')" by fastforce
  then show ?thesis
  proof (cases rule: settle_cases)
    case (queued s reported db1 ev)
    have "events db1 = events db" using mark_settle_events [OF queued(5)] by simp
    then have "posts (upsert_event ev db1) \<subseteq> posts db \<union> {content ev}" using adds_upsert [of ev db1] posts_events [of db1 db] by (simp add: adds_def)
    then show ?thesis using r queued(6,8) by (auto simp: adds_def settlements_def)
  qed (use r in simp)
qed

lemma settles_recover:
  "settles db (snd (RecoverDownloadSessions clock now n db))" "settles db (snd (RecoverStaleDownloadSessions clock now stale hard n db))"
  using recover_run [of settles clock now, OF adds_refl _ settles_queue] adds_trans by blast+

lemma adds_bookkeeping: "bookkeeping db db' \<Longrightarrow> adds new db db'"
  by (erule bookkeepingE, unfold adds_def, drule posts_update, assumption) auto

lemma settles_delete: "settles db (snd (storage_DeleteUpload i db))"
  by (auto simp: storage_DeleteUpload_def adds_def posts_def sql_delete_def)

lemma put_dead_posts: "e \<in> set (outbox db) \<Longrightarrow> posts (put_dead_letter at st err e db) \<subseteq> posts db"
  by (auto simp: posts_def put_dead_letter_def dead_content_def content_def sql_update_def Let_def image_iff split: if_splits)

lemma settles_ack: "settles db (snd (AckClaimedOutbox ev now db))"
proof -
  obtain r db' where r: "AckClaimedOutbox ev now db = (r, db')" by fastforce
  then show ?thesis
  proof (cases rule: ack_cases)
    case (taken e)
    have "posts db' \<subseteq> posts db"
      by (rule posts_delete [where q' = "\<lambda>_. False"]) (use taken(1,4) in \<open>simp_all add: takes_out_def sql_delete_def\<close>)
    then show ?thesis using r by (auto simp: adds_def)
  qed (use r adds_bookkeeping in simp)
qed

lemma settles_bury: "settles db (snd (DeadLetterClaimedOutbox ev at st err db))"
proof -
  obtain r db' where r: "DeadLetterClaimedOutbox ev at st err db = (r, db')" by fastforce
  then show ?thesis
  proof (cases rule: dead_letter_cases)
    case (taken e)
    let ?db = "put_dead_letter at st (take 512 err) e db"
    have "posts db' \<subseteq> posts ?db"
      unfolding taken(5) by (rule posts_delete [where q = "claimed_as ev" and q' = "\<lambda>_. False"])
        (simp_all add: sql_delete_def put_dead_letter_def Let_def)
    moreover have "posts ?db \<subseteq> posts db" by (rule put_dead_posts) (use taken(1) in \<open>simp add: takes_out_def\<close>)
    ultimately show ?thesis using r by (auto simp: adds_def)
  qed (use r adds_bookkeeping in simp)
qed

lemma settles_claims:
  "settles db (snd (ClaimOutbox tok now until n db))" "settles db (snd (RetryClaimedOutbox ev now nxt err db))"
  "settles db (snd (ResetOutboxClaims now db))"
  by (rule adds_bookkeeping, rule claim_bookkeeping retry_bookkeeping reset_bookkeeping)+

lemma replay_posts: "posts (replay_one now r db) \<subseteq> posts db \<union> {dead_content r}"
  by (auto simp: posts_def replay_one_def dead_content_def content_def sql_update_def sql_delete_def Let_def image_iff split: if_splits)

lemma replay_all_posts: "posts (fold (replay_one now) rs db) \<subseteq> posts db \<union> dead_content ` set rs"
  using replay_posts by (induction rs arbitrary: db) fastforce+

lemma settles_replay: "settles db (snd (ReplayDeadLetters now n db))"
proof -
  define rs where "rs = take (nat (if n \<le> 0 then 1000 else n)) (sort_key dead_failed_at (sort_key dead_id (dead_letters db)))"
  have "set rs \<subseteq> set (dead_letters db)" unfolding rs_def using set_take_subset by fastforce
  then have "dead_content ` set rs \<subseteq> posts db" by (auto simp: posts_def)
  moreover have "snd (ReplayDeadLetters now n db) = fold (replay_one now) rs db" by (simp only: ReplayDeadLetters_def rs_def Let_def snd_conv)
  ultimately show ?thesis using replay_all_posts [of now rs db] unfolding adds_def by (metis Un_absorb2 le_supI1 subset_trans sup.order_iff)
qed

lemma settles_deliver: "settles db (snd (retryOutbox m rounds db))"
proof -
  have one: "settles db (settle_event_as d e r t db)" for d e r t db
    by (cases d) (simp_all add: settle_event_as_def settles_ack settles_bury settles_claims)
  have "retry_rounds m rs db = (log, db') \<Longrightarrow> settles db db'" for rs log db db'
  proof (induction rs arbitrary: log db db')
    case (Cons r rs)
    obtain q db1 where q: "ClaimOutbox (dr_token r) (dr_now r) (dr_until r) 1 db = (q, db1)" by fastforce
    have c: "settles db db1" using settles_claims(1) [of db "dr_token r" "dr_now r" "dr_until r" 1] q by simp
    show ?case
    proof (cases "\<exists>e es. q = Inr (e # es)")
      case True
      then obtain e es where e: "q = Inr (e # es)" by blast
      let ?d = "settle_as m e (sendControl (dr_reply r e))"
      let ?db = "settle_event_as ?d e (sendControl (dr_reply r e)) (dr_after r) db1"
      obtain log' db2 where l: "retry_rounds m rs ?db = (log', db2)" by fastforce
      have "settles ?db db2" by (rule Cons.IH [OF l])
      then have "settles db db2" by (rule adds_trans [OF adds_trans [OF c one]])
      then show ?thesis using Cons.prems q e l by (simp add: Let_def)
    next
      case False
      then show ?thesis using Cons.prems q c by (auto split: sum.splits list.splits)
    qed
  qed simp
  then show ?thesis unfolding retryOutbox_def by (metis prod.collapse)
qed

section \<open>Handlers that post no verdict\<close>

lemma quiet_results:
  "MarkPendingScan env i p db = (r, db') \<Longrightarrow> events db' = events db"
  "storage_UpdateUploadOffset i expected nxt db = (r, db') \<Longrightarrow> events db' = events db"
  "ReserveUpload env u db = (q, db') \<Longrightarrow> events db' = events db"
  "ClaimPendingScans env leases now until n db = (q', db') \<Longrightarrow> events db' = events db"
  "RenewScanLease i l now until db = (r, db') \<Longrightarrow> events db' = events db"
  by (metis upload_ops_events snd_conv)+

lemma finalize_events: "finalizeCompletedUpload env io u (db, disk) = (r, db', disk') \<Longrightarrow> events db' = events db"
  by (auto simp: finalizeCompletedUpload_def quiet_results(1) split: sum.splits prod.splits)

lemma patch_stored_events: "patch_stored st call cors u payload nd = (a, nd') \<Longrightarrow> events (nd_db nd') = events (nd_db nd)"
  unfolding patch_stored_def Let_def
  by (auto simp: quiet_results(2) dest!: finalize_events split: sum.splits prod.splits if_splits)

lemma patch_events: "patch_admitted st call request body cors headers offset nd = (a, nd') \<Longrightarrow> events (nd_db nd') = events (nd_db nd)"
  unfolding patch_admitted_def patch_locked_def Let_def
  by (auto dest: patch_stored_events split: sum.splits option.splits if_splits slot_limit.splits delivery.splits)

lemma reserve_settles: "reserveUpload st call request rbody at nd = (a, nd') \<Longrightarrow> settles (nd_db nd) (nd_db nd')"
proof -
  have d: "settles db (snd (storage_DeleteUpload i db'))" if "events db' = events db" for i db db'
    using settles_delete [of db' i] posts_events [OF that] by (simp add: adds_def)
  have r: "reserve_checked st call payload nd1 = (a, nd') \<Longrightarrow> settles (nd_db nd1) (nd_db nd')" for payload nd1
    unfolding reserve_checked_def reserve_again_def reserve_new_def Let_def
    by (auto intro: adds_events d dest!: quiet_results(3) split: option.splits sum.splits error.splits prod.splits if_splits)
  show "reserveUpload st call request rbody at nd = (a, nd') \<Longrightarrow> settles (nd_db nd) (nd_db nd')"
    unfolding reserveUpload_def by (auto dest!: r split: prod.splits sum.splits option.splits if_splits)
qed

lemma remove_settles: "remove_upload st io u nd = (r, nd') \<Longrightarrow> settles (nd_db nd) (nd_db nd')"
  using settles_delete [of "nd_db nd" "su_id u"] by (auto simp: remove_upload_def split: prod.splits sum.splits)

lemma delete_settles: "deleteUpload st call request rbody at i nd = (a, nd') \<Longrightarrow> settles (nd_db nd) (nd_db nd')"
  unfolding deleteUpload_def Let_def
  by (auto dest!: remove_settles split: prod.splits sum.splits error.splits if_splits)

lemma cleanup_settles: "settles (nd_db nd) (nd_db (cleanupExpiredUploads st io now nd))"
proof -
  have "settles (nd_db nd) (nd_db (cleanup_all st io us nd))" for us nd
  proof (induction us arbitrary: nd)
    case (Cons u us)
    have "settles (nd_db nd) (nd_db (snd (remove_upload st io u nd)))" by (rule remove_settles) (rule prod.collapse [symmetric])
    then show ?case using Cons.IH adds_trans by simp
  qed simp
  then show ?thesis by (simp add: cleanupExpiredUploads_def split: sum.splits)
qed

lemma recover_events: "events (nd_db (recoverCompletedUploads st io nd)) = events (nd_db nd)"
proof -
  have "events (nd_db (finalize_all st io us nd)) = events (nd_db nd)" for us nd
    by (induction us arbitrary: nd) (auto dest!: finalize_events split: prod.splits)
  then show ?thesis by (simp add: recoverCompletedUploads_def split: sum.splits)
qed

lemma settle_results:
  "PrepareDownloadSession s db = (r, db') \<Longrightarrow> events db' = events db" "ActivateDownloadSession i db = (r, db') \<Longrightarrow> events db' = events db"
  "UpdateDownloadProgress i n db = (r, db') \<Longrightarrow> events db' = events db" "HeartbeatDownloadSession i n now db = (r', db') \<Longrightarrow> events db' = events db"
  by (metis session_ops_events snd_conv)+

lemma settles_after: "events db' = events db \<Longrightarrow> settles db (snd (queueDownloadSettlement clock i n now mode db'))"
  using adds_trans [OF adds_events settles_queue] .

lemma begin_settles: "begin_session call reply i u selected db = (q, db') \<Longrightarrow> settles db db'"
  unfolding begin_session_def Let_def FinishPendingDownloadSession_def
  by (auto intro: settles_after adds_events dest!: settle_results(1,2) simp: session_ops_events(5) split: prod.splits sum.splits if_splits)

lemma download_settles: "download st call reply request nd = (served, nd') \<Longrightarrow> settles (nd_db nd) (nd_db nd')"
  unfolding download_def serve_object_def Let_def
  by (auto dest!: begin_settles split: prod.splits sum.splits option.splits if_splits slot_limit.splits)

lemma stream_events: "events (snd (stream_steps i amount evs s)) = events (snd s)"
proof (induction evs arbitrary: s)
  case (Cons ev evs)
  have "events (snd (checkpoint_Write i n b s)) = events (snd s)" "events (snd (run_heartbeat i now reply s)) = events (snd s)" for n b now reply
    by (auto simp: checkpoint_Write_def run_heartbeat_def Let_def dest: settle_results split: prod.splits sum.splits)
  then show ?case using Cons.IH by (cases ev) simp_all
qed simp

lemma stream_settles: "settles db (snd (stream_steps i amount evs (sm, db)))"
  using adds_events [OF stream_events [of i amount evs "(sm, db)"]] by simp

lemma finish_settles: "settles db (finish_stream i n now m rounds db)"
proof -
  obtain q db1 where q: "queueDownloadSettlement now i n now SettleStreamingExact db = (q, db1)" by fastforce
  obtain q' db2 where q': "queueDownloadSettlement now i 0 now SettleStreamingCheckpoint db1 = (q', db2)" by fastforce
  have "settles db db1" "settles db1 db2" using settles_queue q q' by (metis snd_conv)+
  then have "settles db db1" "settles db db2" using adds_trans by blast+
  then show ?thesis using adds_trans [OF _ settles_deliver] q q'
    by (auto simp: finish_stream_def FinishDownloadSession_def ConservativelyFinishDownloadSession_def split: sum.splits)
qed

lemma stale_settles: "settles (nd_db nd) (nd_db (recoverStaleDownloadSessions st now s m k rounds nd))"
proof -
  define a where "a = now - (if s \<le> 0 then 120 else s)"
  define b where "b = now - (if m \<le> 0 then downloadReservationMaxDuration - 60 else m)"
  obtain e n db1 where q: "RecoverStaleDownloadSessions now now a b 100 (nd_db nd) = ((e, n), db1)" by (metis prod.collapse)
  have one: "settles (nd_db nd) db1" using settles_recover(2) [of "nd_db nd" now now a b 100] q by simp
  have "recoverStaleDownloadSessions st now s m k rounds nd =
      nd\<lparr>nd_db := (if e = None \<and> n > 0 then snd (retryOutbox k rounds db1) else db1)\<rparr>"
    unfolding recoverStaleDownloadSessions_def Let_def a_def [symmetric] b_def [symmetric] q by (cases e) simp_all
  then show ?thesis using one adds_trans [OF one settles_deliver] by simp
qed

lemma start_settles: "settles (nd_db nd) (nd_db (snd (start_node now replays clocks nd)))"
proof -
  define db1 where "db1 = snd (ResetOutboxClaims now (nd_db nd))"
  define db2 where "db2 = (if replays then snd (ReplayDeadLetters now 0 db1) else db1)"
  have "settles (nd_db nd) db1" "settles db1 db2" unfolding db1_def db2_def by (simp_all add: settles_claims settles_replay)
  moreover have "settles db (snd (recover_rounds clocks db))" for db
  proof (induction clocks arbitrary: db)
    case (Cons now clocks)
    obtain q db1 where q: "RecoverDownloadSessions now now 100 db = (q, db1)" by fastforce
    have "settles db db1" using settles_recover(1) [of db now now 100] q by simp
    then show ?case using adds_trans [OF _ Cons.IH [of db1]] q by (auto split: prod.splits option.splits)
  qed simp
  ultimately have "settles (nd_db nd) (snd (recover_rounds clocks db2))" using adds_trans by blast
  moreover obtain r db3 where r: "recover_rounds clocks db2 = (r, db3)" by fastforce
  moreover have "start_node now replays clocks nd = (r, nd\<lparr>nd_db := db3, nd_replay := Map.empty\<rparr>)"
    unfolding start_node_def Let_def db1_def [symmetric] db2_def [symmetric] r by simp
  ultimately show ?thesis by simp
qed

section \<open>Scans\<close>

text \<open>The files a node keeps as clean, with their digests, and the verdicts it may post.\<close>

definition clean_pairs :: "sdb \<Rightarrow> (ident \<times> string) set" where
  "clean_pairs db = {(su_id u, su_sha256 u) | u. u \<in> set (suploads db) \<and> su_status u = Clean}"

definition verdicts :: "string \<Rightarrow> (ident \<times> string) set \<Rightarrow> (string \<times> string \<times> string) set" where
  "verdicts nodeID clean = {content (scanCompletionEvent nodeID i status sha detail now) | i status sha detail now.
     status \<in> {''ready'', ''blocked'', ''quarantined''} \<and> (status = ''ready'' \<longrightarrow> (i, sha) \<in> clean)}"

definition scans_to :: "string \<Rightarrow> sdb \<Rightarrow> sdb \<Rightarrow> bool" where
  "scans_to nodeID db db' \<longleftrightarrow> adds (settlements \<union> verdicts nodeID (clean_pairs db')) db db' \<and> clean_pairs db \<subseteq> clean_pairs db'"

lemma verdicts_mono: "clean \<subseteq> clean' \<Longrightarrow> verdicts nodeID clean \<subseteq> verdicts nodeID clean'"
  unfolding verdicts_def by blast

lemma scans_refl [simp]: "scans_to nodeID db db"
  by (simp add: scans_to_def)

lemma scans_trans: "scans_to nodeID a b \<Longrightarrow> scans_to nodeID b c \<Longrightarrow> scans_to nodeID a c"
proof -
  assume a: "scans_to nodeID a b" and b: "scans_to nodeID b c"
  then have "adds (settlements \<union> verdicts nodeID (clean_pairs c)) a b"
    using verdicts_mono [of "clean_pairs b" "clean_pairs c" nodeID] by (auto simp: scans_to_def elim: adds_mono)
  then show "scans_to nodeID a c" using a b adds_trans by (auto simp: scans_to_def)
qed

lemma clean_kept:
  assumes "suploads db' = sql_update q f (suploads db)" "\<And>u. q u \<Longrightarrow> su_status u \<noteq> Clean"
  shows "clean_pairs db \<subseteq> clean_pairs db'"
  using assms by (fastforce simp: clean_pairs_def sql_update_def)

lemma scans_quiet: "events db' = events db \<Longrightarrow> clean_pairs db \<subseteq> clean_pairs db' \<Longrightarrow> scans_to nodeID db db'"
  by (simp add: scans_to_def adds_events)

lemma scans_release: "scans_to nodeID db (snd (ReleaseScanClaim i l db))"
  by (rule scans_quiet [OF upload_ops_events(5)], rule clean_kept [where q = "\<lambda>u. su_id u = i \<and> su_status u = StorageScanning \<and> su_lease_id u = l"])
    (simp_all add: ReleaseScanClaim_def)

lemma scans_renew: "RenewScanLease i l now until db = (r, db') \<Longrightarrow> scans_to nodeID db db'"
  by (rule scans_quiet [OF quiet_results(5)], assumption, cases "db' = db", simp,
      rule clean_kept [where q = "leased i l now"]) (auto simp: RenewScanLease_def leased_def split: if_splits)

lemma claim_scans_clean: "claim_scans now until cs got db = (r, db') \<Longrightarrow> clean_pairs db \<subseteq> clean_pairs db'"
proof (induction now until cs got db rule: claim_scans.induct)
  case (2 now until candidate leaseID cs claimed db)
  let ?db = "db\<lparr>suploads := sql_update (\<lambda>u. su_id u = su_id candidate \<and> scan_claimable now u)
      (\<lambda>u. u\<lparr>su_status := StorageScanning, su_lease_until := until, su_lease_id := leaseID\<rparr>) (suploads db)\<rparr>"
  have "clean_pairs db \<subseteq> clean_pairs ?db"
    by (rule clean_kept [where q = "\<lambda>u. su_id u = su_id candidate \<and> scan_claimable now u"]) (auto simp: scan_claimable_def)
  then show ?case using 2(1,2) by (simp add: Let_def)
qed simp

lemma scans_claim: "ClaimPendingScans env leases now until n db = (r, db') \<Longrightarrow> scans_to nodeID db db'"
  by (rule scans_quiet [OF quiet_results(4)], assumption, erule claim_pending_cases) (use claim_scans_clean in auto)

lemma complete_clean:
  assumes "CompleteScan env clock i l now st p sha detail ev db = (Inr (), db')"
  shows "st = Clean \<longrightarrow> (i, sha) \<in> clean_pairs db'"
proof
  assume st: "st = Clean"
  obtain k a db1 where f: "finish_scan env i l now st k a sha detail db = Inr db1" "enqueueStorageOutboxTx clock ev db1 = Inr db'"
    using assms by (auto simp: CompleteScan_def split: if_splits sum.splits prod.splits)
  have same: "suploads db' = suploads db1" using f(2) by (rule enqueue_event) simp
  show "(i, sha) \<in> clean_pairs db'"
  proof (cases "sql_only (leased i l now) (suploads db)")
    case True
    then have "0 < sql_count (leased i l now) (suploads db)" by (simp add: sql_only_def)
    then obtain u where u: "u \<in> set (suploads db)" "leased i l now u" by (auto simp: sql_count_def filter_empty_conv)
    let ?u = "u\<lparr>su_status := st, su_path := k, su_sha256 := sha, su_scan_detail := detail, su_lease_until := 0, su_lease_id := ''''\<rparr>"
    have "?u \<in> set (suploads db')" using True f(1) u by (auto simp: same finish_scan_def sql_update_def image_iff intro!: bexI [of _ u])
    moreover have "su_id ?u = i" using u(2) by (simp add: leased_def)
    ultimately show ?thesis using st unfolding clean_pairs_def by (intro CollectI exI [of _ ?u]) simp
  next
    case False
    obtain v where v: "storage_UploadByID env i db = Inr v" "su_status v = st" "su_sha256 v = sha" "db1 = db"
      using f(1) False by (auto simp: finish_scan_def split: sum.splits if_splits)
    then obtain u where u: "u \<in> set (suploads db)" "su_id u = i" "scanUpload env u = Inr v"
      by (auto simp: storage_UploadByID_def split: option.splits dest!: sql_firstD)
    have "su_status u = su_status v" "su_sha256 u = su_sha256 v" using u(3) by (auto simp: scanUpload_def split: sum.splits prod.splits)
    then show ?thesis using u v st same by (auto simp: clean_pairs_def)
  qed
qed

lemma scans_complete:
  assumes "external \<in> {''ready'', ''blocked'', ''quarantined''}" "external = ''ready'' \<Longrightarrow> status = Clean"
  shows "scans_to (cfg_NodeID (st_cfg st)) db (snd (complete_or_release st sn v status external path sha detail db))"
proof -
  let ?ev = "scanCompletionEvent (cfg_NodeID (st_cfg st)) (su_id v) external sha detail (sn_now sn)"
  obtain r db' where r: "CompleteScan (st_env st) (sn_now sn) (su_id v) (su_lease_id v) (sn_now sn) status path sha detail ?ev db = (r, db')" by fastforce
  have clean: "clean_pairs db \<subseteq> clean_pairs db'" using r
  proof (cases rule: complete_rows)
    case (2 k)
    show ?thesis by (rule clean_kept [OF 2(1)]) (simp add: leased_def)
  qed (simp add: clean_pairs_def)
  have "scans_to (cfg_NodeID (st_cfg st)) db db'"
  proof (cases r)
    case (Inl e)
    then have "db' = db" using r by (auto simp: CompleteScan_def split: if_splits sum.splits prod.splits)
    then show ?thesis by simp
  next
    case (Inr u)
    have "content ?ev \<in> verdicts (cfg_NodeID (st_cfg st)) (clean_pairs db')"
      unfolding verdicts_def using assms complete_clean [of "st_env st"] r Inr by (intro CollectI exI conjI) (rule refl, auto)
    moreover have "adds {content ?ev} db db'" using adds_complete [of ?ev db "st_env st"] r by (metis snd_conv)
    ultimately show ?thesis using clean by (auto simp: scans_to_def elim: adds_mono)
  qed
  then show ?thesis using r scans_trans [OF _ scans_release] by (auto simp: complete_or_release_def split: sum.splits)
qed

lemma scans_stop:
  "stopLeaseRenewal i l cancelled ticks now db = (r, db') \<Longrightarrow> scans_to nodeID db db'"
proof -
  have ticks: "renew_ticks i l ticks db = (r, db') \<Longrightarrow> scans_to nodeID db db'" for ticks db r db'
    by (induction ticks arbitrary: db) (auto intro: scans_trans [OF scans_renew] scans_renew split: prod.splits sum.splits)
  assume "stopLeaseRenewal i l cancelled ticks now db = (r, db')"
  then show ?thesis
    by (auto simp: stopLeaseRenewal_def dest!: ticks scans_renew [where nodeID = nodeID] intro: scans_trans split: prod.splits sum.splits if_splits)
qed

lemma scans_one: "scans_to (cfg_NodeID (st_cfg st)) (nd_db nd) (nd_db (scanOneUpload st sn v nd))"
proof -
  obtain leaseErr db1 where l: "stopLeaseRenewal (su_id v) (su_lease_id v) (sn_cancelled sn) (sn_ticks sn) (sn_end sn) (nd_db nd) = (leaseErr, db1)" by fastforce
  have ends: "scans_to (cfg_NodeID (st_cfg st)) db1 (nd_db (finishScannerError st sn v path detail sha (nd\<lparr>nd_db := db1\<rparr>)))"
    "scans_to (cfg_NodeID (st_cfg st)) db1 (nd_db (finish_blocked st sn v path result (nd\<lparr>nd_db := db1\<rparr>)))"
    "scans_to (cfg_NodeID (st_cfg st)) db1 (nd_db (finish_clean st sn v path result (nd\<lparr>nd_db := db1\<rparr>)))" for path detail sha result
    using scans_complete [of "''blocked''" StorageBlocked st db1 sn v "''''" "sr_sha256 result" "sr_detail result"]
    by (auto simp: finishScannerError_def finish_blocked_def finish_clean_def Let_def scans_release
        intro!: scans_complete split: prod.splits sum.splits)
  have "scans_to (cfg_NodeID (st_cfg st)) db1 (nd_db (scanOneUpload st sn v nd))"
    unfolding scanOneUpload_def Let_def l by (simp add: ends scans_release split: sum.splits prod.splits)
  then show ?thesis by (rule scans_trans [OF scans_stop [OF l]])
qed

lemma scans_passes: "scan_passes st passes nd = (r, nd') \<Longrightarrow> scans_to (cfg_NodeID (st_cfg st)) (nd_db nd) (nd_db nd')"
proof (induction passes arbitrary: nd)
  case (Cons pass passes)
  obtain leases now sn where pass: "pass = (leases, now, sn)" by (metis prod_cases3)
  obtain q db1 where q: "ClaimPendingScans (st_env st) leases now (now + storageScanLeaseDuration) 1 (nd_db nd) = (q, db1)" by fastforce
  note c = scans_claim [OF q, of "cfg_NodeID (st_cfg st)"]
  show ?case
  proof (cases "\<exists>v vs. q = Inr (v # vs) \<and> \<not> sn_stopped sn")
    case True
    then obtain v vs where v: "q = Inr (v # vs)" "\<not> sn_stopped sn" by blast
    let ?nd = "scanOneUpload st sn v (nd\<lparr>nd_db := db1\<rparr>)"
    have "scan_passes st passes ?nd = (r, nd')" using Cons.prems q v by (simp add: pass)
    from Cons.IH [OF this] scans_one [of st "nd\<lparr>nd_db := db1\<rparr>" sn v] c show ?thesis by (auto intro: scans_trans)
  next
    case False
    then show ?thesis using Cons.prems q c scans_trans [OF c scans_release] by (auto simp: pass split: sum.splits list.splits if_splits)
  qed
qed simp

lemma scan_posts: "scans_to (cfg_NodeID (st_cfg st)) (nd_db nd) (nd_db (scanPendingUploads st passes m rounds nd))"
proof -
  obtain r nd1 where p: "scan_passes st (take 4 passes) nd = (r, nd1)" by fastforce
  have "scans_to nodeID db (snd (retryOutbox m rounds db))" for nodeID db
    using adds_mono [OF settles_deliver [of db m rounds]] retry_uploads [of m rounds db] by (simp add: scans_to_def clean_pairs_def)
  then show ?thesis using scans_trans [OF scans_passes [OF p]] scans_passes [OF p] p by (auto simp: scanPendingUploads_def)
qed

text \<open>Every move of a node.\<close>

lemma move_posts:
  assumes "node_move st (nd, recv) (nd', recv')"
  shows "settles (nd_db nd) (nd_db nd') \<or> scans_to (cfg_NodeID (st_cfg st)) (nd_db nd) (nd_db nd')"
  using assms
proof (cases rule: node_move.cases)
  case (patch call request body a)
  then show ?thesis by (auto elim!: patch_front intro: adds_events [OF patch_events])
next
  case (scan passes maxAttempts rounds)
  then show ?thesis using scan_posts by simp
qed (auto intro: reserve_settles delete_settles cleanup_settles download_settles finish_settles stale_settles settles_deliver start_settles
      adds_events upload_ops_events recover_events stream_settles patch_events)

theorem node_posts:
  assumes "node_move st (nd, recv) (nd', recv')"
  shows "posts (nd_db nd') \<subseteq> posts (nd_db nd) \<union> settlements \<union> verdicts (cfg_NodeID (st_cfg st)) (clean_pairs (nd_db nd'))"
  using move_posts [OF assms] by (auto simp: adds_def scans_to_def)

end
