(* ===== verification/Control_Endpoints.thy ===== *)
theory Control_Endpoints
  imports Storage_Node Transfers Downloads
begin

text \<open>
  The endpoints the control plane opens to its storage node (control_storage_server.go): the verdict on
  an upload, the begin and the settlement of a download, each a signed request with a JSON body. The
  JSON decoders are parameters; the routes are those of server.go.
\<close>

section \<open>Requests of a storage node\<close>

record complete_request =
  cq_NodeID :: string
  cq_Status :: string
  cq_SHA256 :: string
  cq_ScanDetail :: string

record begin_request =
  bq_NodeID :: string
  bq_UploadID :: string

record settle_request =
  sq_ActualBytes :: int

text \<open>What the server needs of its configuration, and the decoders.\<close>

record control_server =
  cs_crypto :: crypto
  cs_StorageNodeID :: string
  cs_StorageSharedSecret :: string
  cs_decode_complete :: "string \<Rightarrow> complete_request option"
  cs_decode_begin :: "string \<Rightarrow> begin_request option"
  cs_decode_settle :: "string \<Rightarrow> settle_request option"

definition controlStorageBodyLimit :: int where "controlStorageBodyLimit = 32 * 1024"

definition header_get :: "(string \<Rightarrow> string list) \<Rightarrow> string \<Rightarrow> string" where
  "header_get header name = (case header name of [] \<Rightarrow> '''' | v # _ \<Rightarrow> v)"

definition hex_character :: "char \<Rightarrow> bool" where
  "hex_character c \<longleftrightarrow> (CHR ''0'' \<le> c \<and> c \<le> CHR ''9'') \<or> (CHR ''a'' \<le> c \<and> c \<le> CHR ''f'') \<or> (CHR ''A'' \<le> c \<and> c \<le> CHR ''F'')"

definition validSHA256 :: "string \<Rightarrow> bool" where
  "validSHA256 value \<longleftrightarrow> length value = 64 \<and> list_all hex_character value"

text \<open>The body is what the limited reader delivers, \<open>None\<close> if reading fails. A refusal is its status.\<close>

definition decodeStorageInternalJSON ::
  "control_server \<Rightarrow> (string \<Rightarrow> 'a option) \<Rightarrow> request \<Rightarrow> string option \<Rightarrow> int \<Rightarrow> replay_guard \<Rightarrow> (int + 'a) \<times> replay_guard" where
  "decodeStorageInternalJSON cs decode request body now guard =
     (if header_get (rq_header request) ''Content-Type'' \<noteq> ''application/json'' then (Inl 415, guard)
      else case body of
        None \<Rightarrow> (Inl 400, guard)
      | Some b \<Rightarrow>
        (if b = '''' \<or> int (length b) > controlStorageBodyLimit then (Inl 400, guard)
         else case VerifyInternalRequest (cs_crypto cs) request b (cs_StorageSharedSecret cs) (cs_StorageNodeID cs) now guard of
           (Inl InternalReplay, guard') \<Rightarrow> (Inl 409, guard')
         | (Inl InternalAuth, guard') \<Rightarrow> (Inl 401, guard')
         | (Inr _, guard') \<Rightarrow> (case decode b of None \<Rightarrow> (Inl 400, guard') | Some payload \<Rightarrow> (Inr payload, guard'))))"

section \<open>The handlers\<close>

type_synonym endpoint_state = "cdb \<times> replay_guard"

definition terminal_status :: "string \<Rightarrow> upload_status option" where
  "terminal_status status =
     (if status = ''ready'' then Some Ready else if status = ''blocked'' then Some Blocked
      else if status = ''quarantined'' then Some Quarantined else None)"

definition complete_error_status :: "error \<Rightarrow> int" where
  "complete_error_status e = (if e = ErrNotFound then 404 else if e = ErrConflict then 409 else 500)"

definition completeStorageUpload ::
  "control_server \<Rightarrow> ident \<Rightarrow> request \<Rightarrow> string option \<Rightarrow> int \<Rightarrow> endpoint_state \<Rightarrow> int \<times> endpoint_state" where
  "completeStorageUpload cs i request body now s =
     (case s of (db, guard) \<Rightarrow>
        if \<not> validStorageObjectID i then (404, s)
        else case decodeStorageInternalJSON cs (cs_decode_complete cs) request body now guard of
          (Inl refusal, guard') \<Rightarrow> (refusal, db, guard')
        | (Inr payload, guard') \<Rightarrow>
          (if cq_NodeID payload \<noteq> cs_StorageNodeID cs then (400, db, guard')
           else case terminal_status (cq_Status payload) of
             None \<Rightarrow> (400, db, guard')
           | Some status \<Rightarrow>
             (let sha = ToLower (TrimSpace (cq_SHA256 payload))
              in if (status \<noteq> Quarantined \<or> sha \<noteq> '''') \<and> \<not> validSHA256 sha then (400, db, guard')
                 else case CompleteRemoteUpload i (cq_NodeID payload) status sha (cleanText (cq_ScanDetail payload) 512) (Unix now) db of
                   (Inl e, db') \<Rightarrow> (complete_error_status e, db', guard')
                 | (Inr _, db') \<Rightarrow> (204, db', guard'))))"

definition beginStorageDownload ::
  "control_server \<Rightarrow> ident \<Rightarrow> request \<Rightarrow> string option \<Rightarrow> int \<Rightarrow> endpoint_state \<Rightarrow> int \<times> endpoint_state" where
  "beginStorageDownload cs reservationID request body now s =
     (case s of (db, guard) \<Rightarrow>
        if \<not> validStorageObjectID reservationID then (404, s)
        else case decodeStorageInternalJSON cs (cs_decode_begin cs) request body now guard of
          (Inl refusal, guard') \<Rightarrow> (refusal, db, guard')
        | (Inr payload, guard') \<Rightarrow>
          (if bq_NodeID payload \<noteq> cs_StorageNodeID cs \<or> \<not> validStorageObjectID (bq_UploadID payload) then (400, db, guard')
           else case BeginDownloadReservationForUpload reservationID (bq_UploadID payload) (Unix now) db of
             (Inl e, db') \<Rightarrow> (if e = ErrQuotaExceeded \<or> e = ErrDownloadLimit then 410 else 409, db', guard')
           | (Inr _, db') \<Rightarrow> (204, db', guard')))"

definition settleStorageDownload ::
  "control_server \<Rightarrow> ident \<Rightarrow> request \<Rightarrow> string option \<Rightarrow> int \<Rightarrow> endpoint_state \<Rightarrow> int \<times> endpoint_state" where
  "settleStorageDownload cs reservationID request body now s =
     (case s of (db, guard) \<Rightarrow>
        if \<not> validStorageObjectID reservationID then (404, s)
        else case decodeStorageInternalJSON cs (cs_decode_settle cs) request body now guard of
          (Inl refusal, guard') \<Rightarrow> (refusal, db, guard')
        | (Inr payload, guard') \<Rightarrow>
          (if sq_ActualBytes payload < 0 then (400, db, guard')
           else case ReservationUsesRemoteNode reservationID (cs_StorageNodeID cs) db of
             Inl _ \<Rightarrow> (409, db, guard')
           | Inr belongs \<Rightarrow>
             (if \<not> belongs then (409, db, guard')
              else case SettleDownloadReservation reservationID (sq_ActualBytes payload) (Unix now) db of
                (Inl _, db') \<Rightarrow> (409, db', guard')
              | (Inr _, db') \<Rightarrow> (204, db', guard'))))"

text \<open>The routes. A node only sends identifiers with nothing to unescape, so a path whose identifier is
  written with escapes counts as unknown here.\<close>

definition handle_internal ::
  "control_server \<Rightarrow> request \<Rightarrow> string option \<Rightarrow> int \<Rightarrow> endpoint_state \<Rightarrow> int \<times> endpoint_state" where
  "handle_internal cs request body now s =
     (if rq_method request \<noteq> ''POST'' then (405, s)
      else case split_at (CHR ''/'') (rq_escapedPath request) of
        [a, b, c, d, kind, i, verb] \<Rightarrow>
          (if (a, b, c, d) \<noteq> ('''', ''internal'', ''v1'', ''storage'') then (404, s)
           else if (kind, verb) = (''uploads'', ''complete'') then completeStorageUpload cs i request body now s
           else if (kind, verb) = (''downloads'', ''begin'') then beginStorageDownload cs i request body now s
           else if (kind, verb) = (''downloads'', ''settle'') then settleStorageDownload cs i request body now s
           else (404, s))
      | _ \<Rightarrow> (404, s))"

section \<open>Sending an event\<close>

text \<open>sendSigned: the request a node makes of an event; \<open>Inl\<close> when it cannot be signed. \<open>wire\<close> says what
  the network does: the request may be lost, and so may the reply.\<close>

datatype wire = Delivers | Request_Lost string | Reply_Lost string

definition sendSigned ::
  "crypto \<Rightarrow> ident \<Rightarrow> string \<Rightarrow> string \<Rightarrow> string \<Rightarrow> string \<Rightarrow> int \<Rightarrow> string \<Rightarrow> protocol_error + request" where
  "sendSigned cr nodeID secret method path body at nonce =
     SignInternalRequestAt cr \<lparr>rq_method = method, rq_escapedPath = path, rq_rawQuery = '''',
         rq_header = (\<lambda>name. if body \<noteq> '''' \<and> name = ''Content-Type'' then [''application/json''] else [])\<rparr>
       nodeID secret body at nonce"

definition post_event ::
  "control_server \<Rightarrow> ident \<Rightarrow> string \<Rightarrow> outbox_event \<Rightarrow> int \<Rightarrow> string \<Rightarrow> wire \<Rightarrow> int \<Rightarrow> endpoint_state \<Rightarrow> reply \<times> endpoint_state" where
  "post_event cs nodeID secret event at nonce wire now s =
     (case sendSigned (cs_crypto cs) nodeID secret (ob_method event) (ob_path event) (ob_body event) at nonce of
        Inl _ \<Rightarrow> (Inl ''storage internal authentication failed'', s)
      | Inr request \<Rightarrow>
        (case wire of
           Request_Lost err \<Rightarrow> (Inl err, s)
         | Reply_Lost err \<Rightarrow> (Inl err, snd (handle_internal cs request (Some (ob_body event)) now s))
         | Delivers \<Rightarrow> (case handle_internal cs request (Some (ob_body event)) now s of (status, s') \<Rightarrow> (Inr status, s'))))"

end
