(* ===== verification/Verdict_Delivery.thy ===== *)
theory Verdict_Delivery
  imports Node_Posts Control_Endpoints Upload_Properties
begin

text \<open>
  Control plane and storage node together. The node moves as in \<open>Storage_Integrity\<close>; the control plane
  runs its own operations and answers requests (control_storage_server.go), which arrive late, repeated
  or never. A request about an upload that passes authentication was signed by the node for an event of
  its outbox. What the control plane offers for download as ready is then what the node stored, scanned
  and hashed.
\<close>

section \<open>Ready files of the control plane\<close>

definition ready_pairs :: "cdb \<Rightarrow> (ident \<times> string) set" where
  "ready_pairs db = {(u_id u, u_sha256 u) | u. u \<in> set (uploads db) \<and> IsNodeStorage u \<and> u_status u = Ready}"

lemma ready_same: "uploads db' = uploads db \<Longrightarrow> ready_pairs db' = ready_pairs db"
  by (simp add: ready_pairs_def)

text \<open>Updates that touch local files only, or keep status and digest, or end in another status.\<close>

lemma ready_update:
  assumes "uploads db' = sql_update q f (uploads db)"
    "\<And>u. q u \<Longrightarrow> \<not> IsNodeStorage (f u) \<or> u_status (f u) \<noteq> Ready \<or>
       u_id (f u) = u_id u \<and> u_sha256 (f u) = u_sha256 u \<and> u_status u = Ready \<and> IsNodeStorage u \<or> (u_id (f u), u_sha256 (f u)) \<in> new"
  shows "ready_pairs db' \<subseteq> ready_pairs db \<union> new"
proof
  fix x assume "x \<in> ready_pairs db'"
  then obtain v where v: "v \<in> set (sql_update q f (uploads db))" "IsNodeStorage v" "u_status v = Ready" "x = (u_id v, u_sha256 v)"
    unfolding ready_pairs_def assms(1) by blast
  from v(1) show "x \<in> ready_pairs db \<union> new"
  proof (cases rule: sql_update_memE)
    case (changed u)
    then show ?thesis using assms(2) [of u] v(2-4) unfolding ready_pairs_def by auto
  next
    case same
    then show ?thesis using v by (auto simp: ready_pairs_def)
  qed
qed

lemmas ready_local = ready_update [where new = "{}", simplified]

lemma release_storage_ready: "releaseUploadStorageTx i now db = Inr db' \<Longrightarrow> ready_pairs db' \<subseteq> ready_pairs db"
proof -
  assume "releaseUploadStorageTx i now db = Inr db'"
  then obtain db1 where ref: "uploads db1 = uploads db"
    and db': "db' = db1 \<or> db' = db1\<lparr>uploads := sql_update (\<lambda>u. u_id u = i) (\<lambda>u. u\<lparr>u_storage_released := True\<rparr>) (uploads db1)\<rparr>"
    by (auto simp: releaseUploadStorageTx_def split: option.splits sum.splits if_splits dest!: refund_frame)
  have "ready_pairs (db1\<lparr>uploads := sql_update (\<lambda>u. u_id u = i) (\<lambda>u. u\<lparr>u_storage_released := True\<rparr>) (uploads db1)\<rparr>) \<subseteq> ready_pairs db1"
    by (rule ready_local [where q = "\<lambda>u. u_id u = i" and f = "\<lambda>u. u\<lparr>u_storage_released := True\<rparr>"]) (auto simp: IsNodeStorage_def)
  then show "ready_pairs db' \<subseteq> ready_pairs db" using db' ready_same [OF ref] by auto
qed

section \<open>Operations of the control plane on its own\<close>

lemma mark_uploaded_ready: "ready_pairs (snd (MarkUploaded i path now db)) \<subseteq> ready_pairs db"
proof -
  let ?hit = "\<lambda>u. u_id u = i \<and> u_status u = Uploading \<and> u_offset u = u_length u \<and> u_storage_kind u = StorageKindLocal"
  let ?db = "db\<lparr>uploads := sql_update ?hit (\<lambda>u. u\<lparr>u_status := Uploaded, u_temp_path := path\<rparr>) (uploads db)\<rparr>"
  have "ready_pairs ?db \<subseteq> ready_pairs db" by (rule ready_local [where q = ?hit]) auto
  moreover have "ready_pairs db' = ready_pairs ?db" if "settleUploadTrafficTx i now ?db = Inr db'" for db'
    by (rule ready_same) (use settle_frame [OF that] in simp)
  ultimately show ?thesis by (cases "settleUploadTrafficTx i now ?db") (simp_all add: MarkUploaded_def Let_def)
qed

lemma claim_ready: "ready_pairs (snd (claim_uploads us db)) \<subseteq> ready_pairs db"
proof (induction us arbitrary: db)
  case (Cons u us)
  let ?hit = "\<lambda>x. u_id x = u_id u \<and> u_status x = Uploaded \<and> u_storage_kind x = StorageKindLocal"
  let ?db = "db\<lparr>uploads := sql_update ?hit (\<lambda>x. x\<lparr>u_status := Scanning\<rparr>) (uploads db)\<rparr>"
  have "ready_pairs ?db \<subseteq> ready_pairs db" by (rule ready_local [where q = ?hit]) auto
  then show ?case using Cons.IH [of ?db] by (cases "claim_uploads us ?db") (simp add: Let_def)
qed simp

lemma mark_local_ready:
  "ready_pairs (snd (MarkReady i path sha det now db)) \<subseteq> ready_pairs db" "ready_pairs (snd (MarkQuarantined i sha det now db)) \<subseteq> ready_pairs db"
  "ready_pairs (snd (UpdateUploadOffset i ex nx db)) \<subseteq> ready_pairs db"
proof -
  show "ready_pairs (snd (MarkReady i path sha det now db)) \<subseteq> ready_pairs db"
    by (rule ready_local [where q = "\<lambda>u. u_id u = i \<and> u_status u = Scanning \<and> u_storage_kind u = StorageKindLocal"])
      (simp add: MarkReady_def, auto simp: IsNodeStorage_def)
  show "ready_pairs (snd (MarkQuarantined i sha det now db)) \<subseteq> ready_pairs db"
    by (rule ready_local [where q = "\<lambda>u. u_id u = i \<and> u_storage_kind u = StorageKindLocal"])
      (simp add: MarkQuarantined_def, auto simp: IsNodeStorage_def)
  show "ready_pairs (snd (UpdateUploadOffset i ex nx db)) \<subseteq> ready_pairs db"
  proof (cases "snd (UpdateUploadOffset i ex nx db) = db")
    case False
    show ?thesis
      by (rule ready_local [where q = "\<lambda>u. u_id u = i \<and> u_offset u = ex \<and> u_status u = Uploading \<and> u_storage_kind u = StorageKindLocal"
            and f = "\<lambda>u. u\<lparr>u_offset := nx\<rparr>"]) (use False in \<open>auto simp: UpdateUploadOffset_def Let_def split: if_splits\<close>)
  qed simp
qed

lemma mark_blocked_ready: "ready_pairs (snd (MarkBlocked i sha det now db)) \<subseteq> ready_pairs db"
proof -
  let ?p = "\<lambda>u. u_id u = i \<and> u_storage_kind u = StorageKindLocal"
  let ?db = "db\<lparr>uploads := sql_update ?p
    (\<lambda>u. u\<lparr>u_status := Blocked, u_sha256 := sha, u_scan_detail := det, u_temp_path := '''', u_completed_at := now\<rparr>) (uploads db)\<rparr>"
  have "ready_pairs ?db \<subseteq> ready_pairs db" by (rule ready_local [where q = ?p]) auto
  then show ?thesis using release_storage_ready [of i now ?db] by (auto simp: MarkBlocked_def split: sum.splits)
qed

lemma delete_ready: "ready_pairs (snd (MarkDeleted u now db)) \<subseteq> ready_pairs db"
proof -
  let ?f = "\<lambda>x. x\<lparr>u_status := Deleted, u_temp_path := '''', u_object_path := ''''\<rparr>"
  have d: "ready_pairs (x\<lparr>uploads := sql_update (\<lambda>x. u_id x = u_id u) ?f (uploads x), transfers := t\<rparr>) \<subseteq> ready_pairs x"
    "ready_pairs (x\<lparr>uploads := sql_update (\<lambda>x. u_id x = u_id u) ?f (uploads x)\<rparr>) \<subseteq> ready_pairs x" for x t
    by (rule ready_local [where q = "\<lambda>x. u_id x = u_id u" and f = ?f], simp, simp)+
  show ?thesis
  proof (cases "releaseUploadStorageTx (u_id u) now db")
    case (Inl e)
    then show ?thesis using d by (simp add: MarkDeleted_def Let_def)
  next
    case (Inr db1)
    have "ready_pairs (snd (MarkDeleted u now db)) \<subseteq> ready_pairs db1" using d Inr by (simp add: MarkDeleted_def Let_def)
    then show ?thesis using release_storage_ready [OF Inr] by (rule subset_trans)
  qed
qed

lemma create_ready: "ready_pairs (snd (CreateUploadWithQuota u0 maxFiles maxBytes monthly guest now db)) \<subseteq> ready_pairs db"
proof (cases "snd (CreateUploadWithQuota u0 maxFiles maxBytes monthly guest now db) = db")
  case False
  then obtain u t db' where i: "insert_charged_upload t u maxFiles maxBytes monthly guest now db = Inr db'"
    and db': "snd (CreateUploadWithQuota u0 maxFiles maxBytes monthly guest now db) = db'"
    by (auto simp: CreateUploadWithQuota_def split: if_splits option.splits sum.splits)
  from i have "uploads db' = uploads db @ [fresh_upload u]"
  proof (cases rule: insert_charged_cases)
    case (1 x db2)
    then show ?thesis by (auto simp: user_charge_def count_upload_def reserve_frame(1) split: if_splits)
  qed
  then have "ready_pairs db' = ready_pairs db" by (auto simp: ready_pairs_def fresh_upload_def)
  then show ?thesis using db' by simp
qed simp

text \<open>What the control plane does to uploads without its storage node (the steps of \<open>upload_step\<close> but the
  report of a node), and any operation on other tables.\<close>

inductive control_move :: "cdb \<Rightarrow> cdb \<Rightarrow> bool" where
  create: "control_move db (snd (CreateUploadWithQuota u maxFiles maxBytes monthly guest now db))"
| receive: "control_move db (snd (UpdateUploadOffset i ex nx db))"
| finish: "control_move db (snd (MarkUploaded i path now db))"
| claim: "control_move db (snd (ClaimUploads n db))"
| ready: "control_move db (snd (MarkReady i path sha det now db))"
| block: "control_move db (snd (MarkBlocked i sha det now db))"
| quarantine: "control_move db (snd (MarkQuarantined i sha det now db))"
| release: "control_move db (snd (ReleaseUploadStorage i now db))"
| delete: "control_move db (snd (MarkDeleted u now db))"
| other: "uploads db' = uploads db \<Longrightarrow> control_move db db'"

lemma control_move_ready: "control_move db db' \<Longrightarrow> ready_pairs db' \<subseteq> ready_pairs db"
proof (induction rule: control_move.induct)
  case (release db i now)
  then show ?case using release_storage_ready [of i now db]
    by (cases "releaseUploadStorageTx i now db") (simp_all add: ReleaseUploadStorage_def)
next
  case (claim db n)
  then show ?case using claim_ready by (simp add: ClaimUploads_def)
next
  case (other db' db)
  then show ?case using ready_same by blast
qed (simp_all add: create_ready mark_uploaded_ready mark_local_ready mark_blocked_ready delete_ready)

section \<open>Answers to a storage node\<close>

lemma commit_terminal_ready: "commit_terminal i status now db = Inr db' \<Longrightarrow> ready_pairs db' \<subseteq> ready_pairs db"
proof -
  assume c: "commit_terminal i status now db = Inr db'"
  then obtain db1 where s: "settleUploadTrafficTx i now db = Inr db1"
    by (cases "settleUploadTrafficTx i now db") (simp_all add: commit_terminal_def)
  have "db' = db1 \<or> releaseUploadStorageTx i now db1 = Inr db'" using c by (auto simp: commit_terminal_def s split: if_splits sum.splits)
  moreover have "ready_pairs db1 = ready_pairs db" by (rule ready_same) (use settle_frame [OF s] in simp)
  ultimately show "ready_pairs db' \<subseteq> ready_pairs db" using release_storage_ready [of i now db1 db'] by auto
qed

lemma complete_placement_ready:
  assumes c: "complete_placement i nodeID i ver status sha det now db = Inr db'"
  shows "ready_pairs db' \<subseteq> ready_pairs db \<union> (if status = Ready then {(i, sha)} else {})"
proof -
  let ?at = "at_placement i nodeID i ver"
  let ?p = "\<lambda>x. ?at x \<and> u_status x = status \<and> u_sha256 x = sha"
  let ?q = "\<lambda>x. ?at x \<and> pending_upload x"
  let ?f = "\<lambda>x. x\<lparr>u_temp_path := '''', u_object_path := '''', u_storage_version := u_storage_version x + 1\<rparr>"
  let ?g = "\<lambda>x. x\<lparr>u_status := status, u_offset := u_length x, u_temp_path := '''', u_object_path := '''',
             u_sha256 := sha, u_scan_detail := det, u_completed_at := now, u_storage_version := u_storage_version x + 1\<rparr>"
  let ?new = "if status = Ready then {(i, sha)} else {}"
  let ?norm = "db\<lparr>uploads := sql_update ?p ?f (uploads db)\<rparr>" and ?final = "db\<lparr>uploads := sql_update ?q ?g (uploads db)\<rparr>"
  have norm: "ready_pairs ?norm \<subseteq> ready_pairs db \<union> ?new"
    by (rule ready_update [where q = ?p and f = ?f]) (auto simp: at_placement_def)
  have final: "ready_pairs ?final \<subseteq> ready_pairs db \<union> ?new"
    by (rule ready_update [where q = ?q and f = ?g]) (auto simp: at_placement_def)
  have "\<exists>db0 \<in> {db, ?norm, ?final}. commit_terminal i status now db0 = Inr db'"
    using c by (auto simp: complete_placement_def Let_def split: option.splits if_splits)
  then obtain db0 where "ready_pairs db0 \<subseteq> ready_pairs db \<union> ?new" "ready_pairs db' \<subseteq> ready_pairs db0"
    using norm final commit_terminal_ready by blast
  then show ?thesis by blast
qed

lemma complete_remote_ready:
  assumes "CompleteRemoteUpload i nodeID status sha det now db = (r, db')"
  shows "ready_pairs db' \<subseteq> ready_pairs db \<union> (if status = Ready then {(i, sha)} else {})"
proof (cases "db' = db")
  case False
  then have "complete_placement i nodeID i StoragePlacementVersionV1 status sha det now db = Inr db'"
    using assms by (auto simp: CompleteRemoteUpload_def CompleteRemoteUploadPlacement_def split: if_splits sum.splits)
  then show ?thesis by (rule complete_placement_ready)
qed auto

lemma release_legacy_uploads: "releaseLegacyDownloadTrafficForReservationTx rid now db = Inr db' \<Longrightarrow> uploads db' = uploads db"
  by (erule release_legacy_tables) simp

lemma activate_uploads: "activateRetrievalSessionTx sid now db = Inr db' \<Longrightarrow> uploads db' = uploads db"
  by (auto simp: activateRetrievalSessionTx_def Let_def split: option.splits if_splits)

lemma touch_uploads: "touchRetrievalSessionTx sid now db = Inr db' \<Longrightarrow> uploads db' = uploads db"
  by (auto simp: touchRetrievalSessionTx_def Let_def split: option.splits if_splits)

lemma close_uploads: "closeCompletedRetrievalSessionTx sid tid now db = Inr db' \<Longrightarrow> uploads db' = uploads db"
  by (auto simp: closeCompletedRetrievalSessionTx_def Let_def split: option.splits if_splits)

lemma begin_download_uploads: "beginDownloadReservation rid i now db = (r, db') \<Longrightarrow> uploads db' = uploads db"
proof -
  have s: "start_stream d now db1 = Inr x \<Longrightarrow> uploads (snd x) = uploads db1" for d db1 x
    by (auto simp: start_stream_def Let_def split: if_splits)
  have a: "uploads db1 = uploads db0 \<Longrightarrow> admit_stream db0 d now db1 = (r, db') \<Longrightarrow> uploads db' = uploads db0" for d db0 db1
    by (auto simp: admit_stream_def Let_def commit_def release_consuming_def count_download_def
        dest!: s activate_uploads split: option.splits sum.splits if_splits)
  show "beginDownloadReservation rid i now db = (r, db') \<Longrightarrow> uploads db' = uploads db"
    by (auto simp: beginDownloadReservation_def mark_consuming_def dest!: release_legacy_uploads elim!: a [rotated]
        split: option.splits sum.splits if_splits)
qed

lemma settle_download_uploads: "settleDownloadReservation rid n now force db = (r, db') \<Longrightarrow> uploads db' = uploads db"
proof -
  have f: "settle_final_bytes rid st sid tid n now db1 = Inr db2 \<Longrightarrow> uploads db2 = uploads db1" for st sid tid n db1 db2 rid
    by (auto simp: settle_final_bytes_def Let_def dest!: touch_uploads close_uploads split: sum.splits if_splits)
  have p: "record_progress rid sid n hard now db1 = Inr db2 \<Longrightarrow> uploads db2 = uploads db1" for sid n hard db1 db2 rid
    by (auto simp: record_progress_def dest!: touch_uploads split: sum.splits if_splits)
  have e: "ensure_runtime rid now db1 = (hard, db2) \<Longrightarrow> uploads db2 = uploads db1" for db1 db2 hard rid
    by (auto simp: ensure_runtime_def Let_def split: option.splits if_splits)
  have s: "settle_reported d n final now db1 = Inr db2 \<Longrightarrow> uploads db2 = uploads db1" for d n final db1 db2
    by (auto simp: settle_reported_def Let_def dest!: f p e split: if_splits prod.splits)
  show "settleDownloadReservation rid n now force db = (r, db') \<Longrightarrow> uploads db' = uploads db"
    by (auto simp: settleDownloadReservation_def dest!: s release_legacy_uploads split: option.splits sum.splits if_splits prod.splits)
qed

text \<open>A request changes the ready files only by a report that was signed and says so.\<close>

lemma decoded_authentic:
  assumes "decodeStorageInternalJSON cs decode rq body now guard = (Inr payload, guard')"
  obtains b who where "body = Some b" "authentic (cs_crypto cs) rq b (cs_StorageSharedSecret cs) (cs_StorageNodeID cs) now = Some who" "decode b = Some payload"
  using assms by (auto simp: decodeStorageInternalJSON_def VerifyInternalRequest_def
      split: if_splits option.splits sum.splits prod.splits protocol_error.splits bool.splits)

definition reports_ready :: "control_server \<Rightarrow> request \<Rightarrow> string option \<Rightarrow> int \<Rightarrow> ident \<Rightarrow> string \<Rightarrow> bool" where
  "reports_ready cs rq body now i sha \<longleftrightarrow> validStorageObjectID i \<and> (\<exists>b who p. body = Some b \<and>
     authentic (cs_crypto cs) rq b (cs_StorageSharedSecret cs) (cs_StorageNodeID cs) now = Some who \<and>
     cs_decode_complete cs b = Some p \<and> cq_Status p = ''ready'' \<and> sha = ToLower (TrimSpace (cq_SHA256 p)))"

lemma complete_handler_ready:
  assumes "completeStorageUpload cs i rq body now (db, guard) = (status, db', guard')"
  shows "ready_pairs db' \<subseteq> ready_pairs db \<union> {(i, sha) | sha. reports_ready cs rq body now i sha}"
proof (cases "ready_pairs db' \<subseteq> ready_pairs db")
  case False
  then have "db' \<noteq> db" by auto
  then obtain payload st det r guard1 where c: "validStorageObjectID i"
      "decodeStorageInternalJSON cs (cs_decode_complete cs) rq body now guard = (Inr payload, guard1)"
      "terminal_status (cq_Status payload) = Some st"
      "CompleteRemoteUpload i (cq_NodeID payload) st (ToLower (TrimSpace (cq_SHA256 payload))) det (Unix now) db = (r, db')"
    using assms by (auto simp: completeStorageUpload_def Let_def split: if_splits sum.splits prod.splits option.splits)
  note sub = complete_remote_ready [OF c(4)]
  then have st: "st = Ready" using False by (auto split: if_splits)
  then have "cq_Status payload = ''ready''" using c(3) by (auto simp: terminal_status_def split: if_splits)
  then have "reports_ready cs rq body now i (ToLower (TrimSpace (cq_SHA256 payload)))"
    using decoded_authentic [OF c(2)] c(1) unfolding reports_ready_def by metis
  then show ?thesis using sub st by auto
qed auto

lemma handler_ready:
  assumes "handle_internal cs rq body now (db, guard) = (status, db', guard')"
  shows "ready_pairs db' \<subseteq> ready_pairs db \<union> {(i, sha) | i sha. reports_ready cs rq body now i sha \<and> rq_method rq = ''POST'' \<and>
    split_at (CHR ''/'') (rq_escapedPath rq) = ['''', ''internal'', ''v1'', ''storage'', ''uploads'', i, ''complete'']}"
proof -
  have b: "beginStorageDownload cs i rq body now (db, guard) = (status, db', guard') \<Longrightarrow> ready_pairs db' = ready_pairs db" for i
    by (auto simp: beginStorageDownload_def BeginDownloadReservationForUpload_def intro!: ready_same
        dest!: begin_download_uploads split: if_splits sum.splits prod.splits)
  have s: "settleStorageDownload cs i rq body now (db, guard) = (status, db', guard') \<Longrightarrow> ready_pairs db' = ready_pairs db" for i
    by (auto simp: settleStorageDownload_def SettleDownloadReservation_def intro!: ready_same
        dest!: settle_download_uploads split: if_splits sum.splits prod.splits)
  show ?thesis
  proof (cases "ready_pairs db' = ready_pairs db")
    case False
    then obtain i where "rq_method rq = ''POST''" "completeStorageUpload cs i rq body now (db, guard) = (status, db', guard')"
      "split_at (CHR ''/'') (rq_escapedPath rq) = ['''', ''internal'', ''v1'', ''storage'', ''uploads'', i, ''complete'']"
      using assms b s by (auto simp: handle_internal_def split: if_splits list.splits)
    then show ?thesis using complete_handler_ready by blast
  qed auto
qed

section \<open>Verdicts on the wire\<close>

definition complete_path :: "ident \<Rightarrow> string" where
  "complete_path i = ''/internal/v1/storage/uploads/'' @ i @ ''/complete''"

lemma complete_path_inj [simp]: "complete_path i = complete_path j \<longleftrightarrow> i = j"
  by (simp add: complete_path_def)

lemma split_complete_path:
  assumes "split_at (CHR ''/'') p = ['''', ''internal'', ''v1'', ''storage'', ''uploads'', i, ''complete'']"
  shows "p = complete_path i"
  using Join_split [of "CHR ''/''" p] unfolding assms by (simp add: complete_path_def)

lemma PathEscape_valid: "list_all id_character (PathEscape s) \<Longrightarrow> PathEscape s = s"
proof (induction s)
  case (Cons c s)
  then have "path_unescaped c" by (auto simp: PathEscape_def id_character_def less_eq_char_def split: if_splits)
  then show ?case using Cons by (simp add: PathEscape_def)
qed (simp add: PathEscape_def)

lemma hex_digit_characters:
  assumes "n < 16" shows "hex_character (hex_digit n)" "lower_char (hex_digit n) = hex_digit n" "printable (hex_digit n)"
    "hex_digit n \<noteq> CHR 0xC4" "hex_digit n \<noteq> CHR 0xE2"
proof -
  have "n \<in> set (upt 0 16)" using assms by simp
  moreover have "list_all (\<lambda>n. hex_character (hex_digit n) \<and> lower_char (hex_digit n) = hex_digit n \<and> printable (hex_digit n) \<and>
      hex_digit n \<noteq> CHR 0xC4 \<and> hex_digit n \<noteq> CHR 0xE2) (upt 0 16)" by code_simp
  ultimately show "hex_character (hex_digit n)" "lower_char (hex_digit n) = hex_digit n" "printable (hex_digit n)"
    "hex_digit n \<noteq> CHR 0xC4" "hex_digit n \<noteq> CHR 0xE2" unfolding list_all_iff by blast+
qed

lemma hex_encode_digits: "c \<in> set (hex_encode s) \<Longrightarrow> \<exists>n < 16. c = hex_digit n"
proof -
  have "of_char c div 16 < (16 :: nat)" for c :: char using nat_of_char_less_256 [of c] by (simp add: div_less_iff_less_mult)
  then show "c \<in> set (hex_encode s) \<Longrightarrow> \<exists>n < 16. c = hex_digit n" by (auto simp: hex_encode_def) (metis mod_less_divisor zero_less_numeral)
qed

lemma lower_digits: "(\<And>c. c \<in> set s \<Longrightarrow> \<exists>n < 16. c = hex_digit n) \<Longrightarrow> ToLower s = s"
proof (induction s rule: ToLower.induct)
  case (1 a b s)
  have "a \<noteq> CHR 0xC4" "a \<noteq> CHR 0xE2" "lower_char a = a" using 1(4) [of a] hex_digit_characters by auto
  then show ?case using 1 by simp
next
  case (2 a)
  then show ?case using hex_digit_characters(2) by auto
qed simp

lemma hex_encode_wire: "list_all hex_character (hex_encode s)" "ToLower (TrimSpace (hex_encode s)) = hex_encode s"
proof -
  show "list_all hex_character (hex_encode s)" using hex_encode_digits hex_digit_characters(1) by (auto simp: list_all_iff)
  have "TrimSpace (hex_encode s) = hex_encode s"
  proof (cases "hex_encode s = []")
    case False
    have p: "printable c" if "c \<in> set (hex_encode s)" for c using hex_encode_digits [OF that] hex_digit_characters(3) by auto
    show ?thesis using False by (intro TrimSpace_id p) simp_all
  next
    case True
    have "TrimSpace '''' = ''''" by code_simp
    then show ?thesis by (simp only: True)
  qed
  then show "ToLower (TrimSpace (hex_encode s)) = hex_encode s" using lower_digits hex_encode_digits by simp
qed

text \<open>What is asked of the JSON decoder: the status of a verdict, and a digest in hexadecimal, are read as they
  were written, and the body of a settlement, which has an unknown field, is refused.\<close>

definition reads_verdicts :: "(string \<Rightarrow> complete_request option) \<Rightarrow> bool" where
  "reads_verdicts decode \<longleftrightarrow>
     (\<forall>nodeID i status sha detail now p. validStorageNodeID nodeID \<and> status \<in> {''ready'', ''blocked'', ''quarantined''} \<and>
        decode (ob_body (scanCompletionEvent nodeID i status sha detail now)) = Some p \<longrightarrow>
        cq_Status p = status \<and> (list_all hex_character sha \<longrightarrow> cq_SHA256 p = sha)) \<and>
     (\<forall>n. decode (settle_body n) = None)"

section \<open>The system\<close>

text \<open>\<open>sy_sent\<close> collects what the node ever queued, \<open>sy_verified\<close> every upload it ever kept as clean with the
  bytes it had received for it.\<close>

record system =
  sy_node :: node
  sy_recv :: received
  sy_control :: cdb
  sy_guard :: replay_guard
  sy_sent :: "(string \<times> string \<times> string) set"
  sy_verified :: "(ident \<times> string) set"

definition kept_clean :: "node \<Rightarrow> received \<Rightarrow> (ident \<times> string) set" where
  "kept_clean nd recv = {(su_id u, recv (su_id u)) | u. u \<in> set (suploads (nd_db nd)) \<and> su_status u = Clean}"

definition unforged :: "control_server \<Rightarrow> (string \<times> string \<times> string) set \<Rightarrow> request \<Rightarrow> string option \<Rightarrow> int \<Rightarrow> bool" where
  "unforged cs sent rq body now \<longleftrightarrow> (\<forall>i b who. rq_method rq = ''POST'' \<and> rq_escapedPath rq = complete_path i \<and> body = Some b \<and>
     authentic (cs_crypto cs) rq b (cs_StorageSharedSecret cs) (cs_StorageNodeID cs) now = Some who \<longrightarrow>
     (''POST'', complete_path i, b) \<in> sent)"

inductive system_step :: "node_setup \<Rightarrow> control_server \<Rightarrow> system \<Rightarrow> system \<Rightarrow> bool" for st cs where
  node: "node_move st (sy_node s, sy_recv s) (nd, recv) \<Longrightarrow>
    system_step st cs s (s\<lparr>sy_node := nd, sy_recv := forget (nd_db nd) recv, sy_sent := sy_sent s \<union> posts (nd_db nd),
      sy_verified := sy_verified s \<union> kept_clean nd (forget (nd_db nd) recv)\<rparr>)"
| control: "control_move (sy_control s) db \<Longrightarrow> system_step st cs s (s\<lparr>sy_control := db\<rparr>)"
| request: "unforged cs (sy_sent s) rq body now \<Longrightarrow>
    handle_internal cs rq body now (sy_control s, sy_guard s) = (status, db, guard) \<Longrightarrow>
    system_step st cs s (s\<lparr>sy_control := db, sy_guard := guard\<rparr>)"

definition start_system :: "cdb \<Rightarrow> system" where
  "start_system db = \<lparr>sy_node = empty_node, sy_recv = (\<lambda>i. ''''), sy_control = db, sy_guard = Map.empty, sy_sent = {}, sy_verified = {}\<rparr>"

inductive system_reachable :: "node_setup \<Rightarrow> control_server \<Rightarrow> system \<Rightarrow> bool" for st cs where
  start: "ready_pairs db = {} \<Longrightarrow> system_reachable st cs (start_system db)"
| step: "system_reachable st cs s \<Longrightarrow> system_step st cs s s' \<Longrightarrow> system_reachable st cs s'"

definition digests :: "node_setup \<Rightarrow> (ident \<times> string) set \<Rightarrow> (ident \<times> string) set" where
  "digests st held = {(i, hex_encode (cr_sha256 (st_crypto st) contents)) | i contents. (i, contents) \<in> held}"

definition system_inv :: "node_setup \<Rightarrow> system \<Rightarrow> bool" where
  "system_inv st s \<longleftrightarrow> node_reachable st (sy_node s, sy_recv s) \<and> posts (nd_db (sy_node s)) \<subseteq> sy_sent s \<and>
     sy_sent s \<subseteq> settlements \<union> verdicts (cfg_NodeID (st_cfg st)) (digests st (sy_verified s)) \<and>
     (\<forall>(i, contents) \<in> sy_verified s. \<not> Contains contents eicarSignature) \<and>
     ready_pairs (sy_control s) \<subseteq> digests st (sy_verified s)"

lemma digests_mono: "held \<subseteq> held' \<Longrightarrow> digests st held \<subseteq> digests st held'"
  unfolding digests_def by blast

text \<open>A clean row carries the digest of the bytes that were received, in every reachable state of a node.\<close>

lemma clean_pairs_kept:
  assumes "good_env (st_env st)" "node_reachable st (nd, recv)"
  shows "clean_pairs (nd_db nd) \<subseteq> digests st (kept_clean nd recv)" "(i, contents) \<in> kept_clean nd recv \<Longrightarrow> \<not> Contains contents eicarSignature"
proof -
  have inv: "content_inv st (nd_db nd) (nd_disk nd) recv" using reachable_content [OF assms] by simp
  have row: "su_sha256 u = hex_encode (cr_sha256 (st_crypto st) (recv (su_id u))) \<and> \<not> Contains (recv (su_id u)) eicarSignature"
    if "u \<in> set (suploads (nd_db nd))" "su_status u = Clean" for u
    using inv_row [OF inv, of "su_id u" u] that by (auto simp: row_of_def row_content_def split: prod.splits)
  show "clean_pairs (nd_db nd) \<subseteq> digests st (kept_clean nd recv)"
    unfolding clean_pairs_def digests_def kept_clean_def using row by blast
  show "\<not> Contains contents eicarSignature" if "(i, contents) \<in> kept_clean nd recv" using that row by (auto simp: kept_clean_def)
qed

lemma sent_verdict:
  assumes law: "reads_verdicts decode" and sent: "(''POST'', complete_path i, b) \<in> settlements \<union> verdicts nodeID clean"
    and hex: "\<And>j sha. (j, sha) \<in> clean \<Longrightarrow> \<exists>s. sha = hex_encode s"
    and i: "validStorageObjectID i" "validStorageNodeID nodeID" and p: "decode b = Some p" "cq_Status p = ''ready''"
  shows "(i, ToLower (TrimSpace (cq_SHA256 p))) \<in> clean"
proof -
  have "b \<noteq> settle_body n" for n using law p(1) by (auto simp: reads_verdicts_def)
  then have "(''POST'', complete_path i, b) \<notin> settlements" by (simp add: settlements_def)
  then have "(''POST'', complete_path i, b) \<in> verdicts nodeID clean" using sent by blast
  then obtain j status sha detail now where v: "(''POST'', complete_path i, b) = content (scanCompletionEvent nodeID j status sha detail now)"
    "status \<in> {''ready'', ''blocked'', ''quarantined''}" "status = ''ready'' \<longrightarrow> (j, sha) \<in> clean"
    unfolding verdicts_def by blast
  have b: "b = ob_body (scanCompletionEvent nodeID j status sha detail now)" and "complete_path i = complete_path (PathEscape j)"
    using v(1) by (simp_all add: content_def scanCompletionEvent_def complete_path_def)
  then have "PathEscape j = i" by simp
  then have j: "j = i" using i(1) PathEscape_valid [of j] by (simp add: validStorageObjectID_def)
  have dec: "cq_Status p = status" "list_all hex_character sha \<longrightarrow> cq_SHA256 p = sha"
    using law v(2) p(1) i(2) unfolding reads_verdicts_def b by blast+
  then have c: "(i, sha) \<in> clean" using v(3) p(2) j by simp
  then obtain s where "sha = hex_encode s" using hex by blast
  then show ?thesis using c dec(2) hex_encode_wire by simp
qed

lemma system_step_inv:
  assumes env: "good_env (st_env st)" and law: "reads_verdicts (cs_decode_complete cs)" and ident: "validStorageNodeID (cfg_NodeID (st_cfg st))"
    and step: "system_step st cs s s'" and inv: "system_inv st s"
  shows "system_inv st s'"
  using step
proof (cases rule: system_step.cases)
  case (node nd recv)
  let ?recv = "forget (nd_db nd) recv"
  let ?V = "sy_verified s \<union> kept_clean nd ?recv"
  have r: "node_reachable st (nd, ?recv)" using inv node(2) by (auto simp: system_inv_def intro: node_reachable.move)
  note kept = clean_pairs_kept [OF env r]
  have sub: "digests st (sy_verified s) \<subseteq> digests st ?V" "clean_pairs (nd_db nd) \<subseteq> digests st ?V"
    using kept(1) digests_mono [of _ ?V st] by blast+
  have "posts (nd_db nd) \<subseteq> posts (nd_db (sy_node s)) \<union> settlements \<union> verdicts (cfg_NodeID (st_cfg st)) (clean_pairs (nd_db nd))"
    by (rule node_posts [OF node(2)])
  then have "posts (nd_db nd) \<subseteq> settlements \<union> verdicts (cfg_NodeID (st_cfg st)) (digests st ?V)"
    using inv sub verdicts_mono unfolding system_inv_def by blast
  moreover have "sy_sent s \<subseteq> settlements \<union> verdicts (cfg_NodeID (st_cfg st)) (digests st ?V)"
    using inv verdicts_mono [OF sub(1)] unfolding system_inv_def by blast
  ultimately show ?thesis using inv r kept(2) sub(1) unfolding node(1) system_inv_def by auto
next
  case (control db)
  have "ready_pairs db \<subseteq> ready_pairs (sy_control s)" by (rule control_move_ready [OF control(2)])
  then show ?thesis using inv unfolding control(1) system_inv_def by (simp, blast)
next
  case (request rq body now status db guard)
  have "(i, sha) \<in> digests st (sy_verified s)" if "reports_ready cs rq body now i sha" "rq_method rq = ''POST''"
    "split_at (CHR ''/'') (rq_escapedPath rq) = ['''', ''internal'', ''v1'', ''storage'', ''uploads'', i, ''complete'']" for i sha
  proof -
    note report = that(1)
    obtain b p who where r: "validStorageObjectID i" "body = Some b" "cs_decode_complete cs b = Some p" "cq_Status p = ''ready''"
      "authentic (cs_crypto cs) rq b (cs_StorageSharedSecret cs) (cs_StorageNodeID cs) now = Some who" "sha = ToLower (TrimSpace (cq_SHA256 p))"
      using report unfolding reports_ready_def by blast
    have "(''POST'', complete_path i, b) \<in> sy_sent s" using request(2) that(2) split_complete_path [OF that(3)] r(2,5) unfolding unforged_def by blast
    then have "(''POST'', complete_path i, b) \<in> settlements \<union> verdicts (cfg_NodeID (st_cfg st)) (digests st (sy_verified s))"
      using inv by (auto simp: system_inv_def)
    then show ?thesis unfolding r(6) by (rule sent_verdict [OF law _ _ r(1) ident r(3,4)]) (auto simp: digests_def)
  qed
  then have "ready_pairs db \<subseteq> digests st (sy_verified s)" using handler_ready [OF request(3)] inv unfolding system_inv_def by blast
  then show ?thesis using inv unfolding request(1) by (simp add: system_inv_def)
qed

lemma system_reachable_inv:
  assumes "good_env (st_env st)" "reads_verdicts (cs_decode_complete cs)" "validStorageNodeID (cfg_NodeID (st_cfg st))"
  shows "system_reachable st cs s \<Longrightarrow> system_inv st s"
proof (induction rule: system_reachable.induct)
  case (start db)
  then show ?case using node_reachable.start [of st] by (simp add: system_inv_def start_system_def posts_def empty_node_def empty_store_def)
next
  case (step s s')
  then show ?case using system_step_inv assms by blast
qed

end
