(* ===== verification/System_Integrity.thy ===== *)
theory System_Integrity
  imports Verdict_Delivery
begin

text \<open>
  The property of the whole system, and a run of it: a node stores, scans and reports an upload, its signed
  request reaches the control plane, and the file becomes ready there. The decoder of the example reads
  the fields of a verdict in the order the node writes them.
\<close>

section \<open>A decoder for verdicts\<close>

definition after :: "string \<Rightarrow> string \<Rightarrow> string option" where
  "after expected s = (if take (length expected) s = expected then Some (drop (length expected) s) else None)"

text \<open>The bytes of a JSON string without escapes, up to its closing quote.\<close>

definition unquoted :: "string \<Rightarrow> string \<times> string" where
  "unquoted s = (takeWhile (\<lambda>c. c \<noteq> CHR 0x22) s, dropWhile (\<lambda>c. c \<noteq> CHR 0x22) s)"

definition demo_complete :: "string \<Rightarrow> complete_request option" where
  "demo_complete b =
     (case after ''{\"nodeId\":\"'' b of None \<Rightarrow> None | Some s1 \<Rightarrow>
      (case unquoted s1 of (node, r1) \<Rightarrow> (case after ''\",\"status\":\"'' r1 of None \<Rightarrow> None | Some s2 \<Rightarrow>
       (case unquoted s2 of (status, r2) \<Rightarrow> (case after ''\",\"sha256\":\"'' r2 of None \<Rightarrow> None | Some s3 \<Rightarrow>
        (case unquoted s3 of (sha, r3) \<Rightarrow>
           Some \<lparr>cq_NodeID = node, cq_Status = status, cq_SHA256 = sha, cq_ScanDetail = r3\<rparr>))))))"

definition plain_character :: "char \<Rightarrow> bool" where
  "plain_character c \<longleftrightarrow> id_character c \<or> c = CHR ''.''"

lemma plain_byte: "plain_character c \<Longrightarrow> json_byte c = [c] \<and> byte_in 0 0x7F (c # s) \<and> c \<noteq> CHR 0x22"
proof -
  assume c: "plain_character c"
  have n: "45 \<le> (of_char c :: nat)" "(of_char c :: nat) \<le> 122"
    using c by (auto simp: plain_character_def id_character_def less_eq_char_def)
  have d: "c \<noteq> CHR 0x5C" using c by (auto simp: plain_character_def id_character_def less_eq_char_def)
  have e: "c \<noteq> CHR ''<''" "c \<noteq> CHR ''>''" using c by (auto simp: plain_character_def id_character_def less_eq_char_def)
  have "c \<noteq> x" if "of_char x < (45 :: nat)" for x using n(1) that by auto
  then have "c \<noteq> CHR 0x22" "c \<noteq> CHR 0x08" "c \<noteq> CHR 0x0C" "c \<noteq> CHR 0x0A" "c \<noteq> CHR 0x0D" "c \<noteq> CHR 0x09" "c \<noteq> CHR ''&''" by simp_all
  then show ?thesis using n d e by (simp add: json_byte_def byte_in_def)
qed

lemma json_text_plain: "list_all plain_character s \<Longrightarrow> json_text s = s"
proof (induction s)
  case (Cons c s)
  have p: "json_byte c = [c]" "byte_in 0 0x7F (c # s)" using plain_byte [of c s] Cons.prems by simp_all
  then have "rune_length (c # s) = Suc 0" by (simp add: rune_length_def Let_def)
  then show ?case using Cons p(1) by (subst json_text.simps) simp
qed (subst json_text.simps, simp)

lemma unquoted_plain: "list_all plain_character s \<Longrightarrow> unquoted (s @ CHR 0x22 # r) = (s, CHR 0x22 # r)"
  using plain_byte by (induction s) (auto simp: unquoted_def)

lemma after_append: "after p (p @ s) = Some s"
  by (simp add: after_def)

lemma hex_plain: "hex_character c \<Longrightarrow> plain_character c"
  by (auto simp: hex_character_def plain_character_def id_character_def less_eq_char_def)

lemma demo_complete_reads: "reads_verdicts demo_complete"
  unfolding reads_verdicts_def
proof (intro conjI allI impI; (elim conjE)?)
  fix nodeID i status sha detail now p
  assume node: "validStorageNodeID nodeID" and status: "status \<in> {''ready'', ''blocked'', ''quarantined''}"
    and d: "demo_complete (ob_body (scanCompletionEvent nodeID i status sha detail now)) = Some p"
  define rest where "rest = json_text sha @ CHR 0x22 # '',\"scanDetail\":'' @ json_string detail @ ''}''"
  have n: "list_all plain_character nodeID" using node by (simp add: validStorageNodeID_def plain_character_def [abs_def])
  have s: "list_all plain_character status" using status by (elim insertE emptyE; hypsubst; code_simp)
  have "ob_body (scanCompletionEvent nodeID i status sha detail now) =
      ''{\"nodeId\":\"'' @ nodeID @ CHR 0x22 # '',\"status\":\"'' @ status @ CHR 0x22 # '',\"sha256\":\"'' @ rest"
    by (simp add: scanCompletionEvent_def json_string_def rest_def json_text_plain [OF n] json_text_plain [OF s])
  then have p: "p = \<lparr>cq_NodeID = nodeID, cq_Status = status, cq_SHA256 = fst (unquoted rest), cq_ScanDetail = snd (unquoted rest)\<rparr>"
    using d after_append [of "''{\"nodeId\":\"''"] after_append [of "''\",\"status\":\"''"] after_append [of "''\",\"sha256\":\"''"]
    by (simp add: demo_complete_def unquoted_plain [OF n] unquoted_plain [OF s] split: prod.splits)
  show "cq_Status p = status" using p by simp
  show "cq_SHA256 p = sha" if "list_all hex_character sha"
  proof -
    have "list_all plain_character sha" using that hex_plain by (auto simp: list_all_iff)
    then show ?thesis using p by (simp add: rest_def json_text_plain unquoted_plain)
  qed
next
  show "demo_complete (settle_body n) = None" for n by (simp add: demo_complete_def settle_body_def after_def)
qed

section \<open>The property\<close>

text \<open>C35. What the control plane offers is what the node verified. In every state that control plane and node
  reach together, whatever fails, is lost, repeated or delivered late, and whatever else either of them
  does: if an upload placed on the node is ready, the node kept that upload as clean, the digest on record
  is the digest of exactly the bytes the uploader was told are stored, and these do not contain the
  signature the scanner looks for.\<close>

theorem ready_uploads_were_verified:
  assumes "good_env (st_env st)" "validStorageNodeID (cfg_NodeID (st_cfg st))" "reads_verdicts (cs_decode_complete cs)"
    and "system_reachable st cs s" "u \<in> set (uploads (sy_control s))" "IsNodeStorage u" "u_status u = Ready"
  shows "\<exists>contents. (u_id u, contents) \<in> sy_verified s \<and> u_sha256 u = hex_encode (cr_sha256 (st_crypto st) contents) \<and>
    \<not> Contains contents eicarSignature"
proof -
  have inv: "system_inv st s" using system_reachable_inv [OF assms(1,3,2)] assms(4) .
  moreover have "(u_id u, u_sha256 u) \<in> ready_pairs (sy_control s)" using assms(5-7) by (auto simp: ready_pairs_def)
  ultimately show ?thesis unfolding system_inv_def digests_def by blast
qed

section \<open>A run of the system\<close>

definition demo_control :: cdb where
  "demo_control = owner_demo\<lparr>uploads := [node_upload\<lparr>u_id := ''upload-01'', u_storage_node_id := ''node-1'', u_storage_key := ''upload-01''\<rparr>]\<rparr>"

definition demo_server :: control_server where
  "demo_server = \<lparr>cs_crypto = demo_crypto, cs_StorageNodeID = ''node-1'', cs_StorageSharedSecret = demo_secret,
     cs_decode_complete = demo_complete, cs_decode_begin = (\<lambda>b. None), cs_decode_settle = (\<lambda>b. None)\<rparr>"

text \<open>A node runs as part of the system, with any control plane beside it.\<close>

lemma node_in_system:
  "node_reachable st s \<Longrightarrow> ready_pairs db = {} \<Longrightarrow> \<exists>sent verified. system_reachable st cs
     \<lparr>sy_node = fst s, sy_recv = snd s, sy_control = db, sy_guard = Map.empty, sy_sent = sent, sy_verified = verified\<rparr>"
proof (induction rule: node_reachable.induct)
  case start
  then show ?case using system_reachable.start [of db st cs] by (auto simp: start_system_def)
next
  case (move nd recv nd' recv')
  then obtain sent verified where "system_reachable st cs
      \<lparr>sy_node = nd, sy_recv = recv, sy_control = db, sy_guard = Map.empty, sy_sent = sent, sy_verified = verified\<rparr>" (is "system_reachable st cs ?s") by auto
  from system_reachable.step [OF this system_step.node [of st ?s nd' recv']] move(2) show ?case by auto
qed

lemma demo_posted:
  "case outbox (nd_db demo_node) of [] \<Rightarrow> False
   | e # es \<Rightarrow> content e = (''POST'', ''/internal/v1/storage/uploads/upload-01/complete'', ob_body e) \<and>
       (case demo_complete (ob_body e) of None \<Rightarrow> False
        | Some p \<Rightarrow> cq_NodeID p = ''node-1'' \<and> cq_Status p = ''ready'' \<and>
            cq_SHA256 p = hex_encode (cr_sha256 demo_crypto ''ABCD'')) \<and> 0 < length (ob_body e)
         \<and> length (ob_body e) \<le> 32768"
  by code_simp


lemma demo_ready:
  "case CompleteRemoteUpload ''upload-01'' ''node-1'' Ready (hex_encode (cr_sha256 demo_crypto ''ABCD'')) det 1030 demo_control of
     (r, db) \<Rightarrow> r = Inr () \<and> map u_id (uploads db) = [''upload-01''] \<and> list_all IsNodeStorage (uploads db) \<and>
       map u_status (uploads db) = [Ready] \<and> map u_sha256 (uploads db) = [hex_encode (cr_sha256 demo_crypto ''ABCD'')]"
  by code_simp

lemma demo_sent:
  obtains rq where "sendSigned demo_crypto ''node-1'' demo_secret ''POST'' ''/internal/v1/storage/uploads/upload-01/complete'' b (1000 * second) ''nonce-123'' = Inr rq"
    "rq_method rq = ''POST''" "rq_escapedPath rq = ''/internal/v1/storage/uploads/upload-01/complete''"
    "b \<noteq> '''' \<Longrightarrow> header_get (rq_header rq) ''Content-Type'' = ''application/json''"
    "authentic demo_crypto rq b demo_secret ''node-1'' (1030 * second) = Some (''node-1'', ''nonce-123'', 1000 * second)"
proof -
  have size: "\<And>k m. length (cr_hmac demo_crypto k m) = 32" by (simp add: demo_crypto_def)
  have dom: "\<not> length demo_secret < 32" "validStorageNodeID ''node-1''" "validInternalNonce ''nonce-123''"
    "storageInternalRequestDomain ''/internal/v1/storage/uploads/upload-01/complete'' = Some (''quicktransfer-control'', ''storage-to-control'')" by code_simp+
  then obtain rq where rq: "sendSigned demo_crypto ''node-1'' demo_secret ''POST'' ''/internal/v1/storage/uploads/upload-01/complete'' b (1000 * second) ''nonce-123'' = Inr rq"
    by (auto simp: sendSigned_def SignInternalRequestAt_def Let_def)
  have t: "- (2 ^ 63) \<le> Unix (1000 * second)" "Unix (1000 * second) \<le> max_int64"
    "1030 * second - storageInternalMaxSkew \<le> Unix (1000 * second) * second" "Unix (1000 * second) * second \<le> 1030 * second + storageInternalMaxSkew"
    "Unix (1000 * second) * second = 1000 * second" by code_simp+
  have "authentic demo_crypto rq b demo_secret ''node-1'' (1030 * second) = Some (''node-1'', ''nonce-123'', 1000 * second)"
    using signed_authentic [OF size rq [unfolded sendSigned_def] t(1-4)] t(5) by simp
  then show ?thesis using that rq dom by (auto simp: sendSigned_def SignInternalRequestAt_def Let_def header_get_def header_names)
qed


lemma demo_answered:
  assumes "authentic demo_crypto rq b demo_secret ''node-1'' (1030 * second) = Some (''node-1'', ''nonce-123'', 1000 * second)"
    "rq_method rq = ''POST''" "rq_escapedPath rq = ''/internal/v1/storage/uploads/upload-01/complete''"
    "header_get (rq_header rq) ''Content-Type'' = ''application/json''" "0 < length b" "length b \<le> 32768"
    "demo_complete b = Some p" "cq_NodeID p = ''node-1''" "cq_Status p = ''ready''" "cq_SHA256 p = hex_encode (cr_sha256 demo_crypto ''ABCD'')"
  obtains status db guard u where "handle_internal demo_server rq (Some b) (1030 * second) (demo_control, Map.empty) = (status, db, guard)"
    "u \<in> set (uploads db)" "u_id u = ''upload-01''" "IsNodeStorage u" "u_status u = Ready"
proof -
  let ?sha = "hex_encode (cr_sha256 demo_crypto ''ABCD'')"
  obtain guard where "guard_accept ''node-1'' ''nonce-123'' (1000 * second) (1030 * second) Map.empty = (True, guard)"
    by (simp add: guard_accept_def prune_seen_def Let_def)
  then have v: "VerifyInternalRequest demo_crypto rq b demo_secret ''node-1'' (1030 * second) Map.empty = (Inr (), guard)"
    using assms(1) by (simp add: VerifyInternalRequest_def)
  have srv: "cs_crypto demo_server = demo_crypto" "cs_StorageSharedSecret demo_server = demo_secret" "cs_StorageNodeID demo_server = ''node-1''"
    "cs_decode_complete demo_server = demo_complete" by (simp_all add: demo_server_def)
  have d: "decodeStorageInternalJSON demo_server demo_complete rq (Some b) (1030 * second) Map.empty = (Inr p, guard)"
    using assms(4-7) v by (simp add: decodeStorageInternalJSON_def srv controlStorageBodyLimit_def)
  have c: "validStorageObjectID ''upload-01''" "validSHA256 ?sha" "Unix (1030 * second) = 1030" "terminal_status ''ready'' = Some Ready" by code_simp+
  obtain db where db: "CompleteRemoteUpload ''upload-01'' ''node-1'' Ready ?sha (cleanText (cq_ScanDetail p) 512) 1030 demo_control = (Inr (), db)"
    "map u_id (uploads db) = [''upload-01'']" "list_all IsNodeStorage (uploads db)" "map u_status (uploads db) = [Ready]"
    using demo_ready [of "cleanText (cq_ScanDetail p) 512"] by (auto split: prod.splits)
  have "completeStorageUpload demo_server ''upload-01'' rq (Some b) (1030 * second) (demo_control, Map.empty) = (204, db, guard)"
    using c d db(1) assms(8-10) by (simp add: completeStorageUpload_def srv hex_encode_wire Let_def)
  moreover have "split_at (CHR ''/'') ''/internal/v1/storage/uploads/upload-01/complete'' =
      ['''', ''internal'', ''v1'', ''storage'', ''uploads'', ''upload-01'', ''complete'']" by code_simp
  ultimately have "handle_internal demo_server rq (Some b) (1030 * second) (demo_control, Map.empty) = (204, db, guard)"
    using assms(2,3) by (simp add: handle_internal_def)
  moreover obtain u where "uploads db = [u]" using db(2) by auto
  ultimately show ?thesis using that db(2-4) by auto
qed

theorem ready_uploads_were_verified_witness:
  "\<exists>s u contents. system_reachable demo_setup demo_server s \<and> u \<in> set (uploads (sy_control s)) \<and> u_id u = ''upload-01'' \<and>
     u_status u = Ready \<and> (''upload-01'', contents) \<in> sy_verified s \<and>
     u_sha256 u = hex_encode (cr_sha256 demo_crypto contents) \<and> \<not> Contains contents eicarSignature"
proof -
  have env: "good_env (st_env demo_setup)"
  proof -
    have "clean_root ''/data''" by code_simp
    then show ?thesis by (simp add: good_env_def demo_setup_def demo_env_def)
  qed
  have node: "validStorageNodeID (cfg_NodeID (st_cfg demo_setup))" by code_simp
  have srv: "cs_crypto demo_server = demo_crypto" "cs_StorageSharedSecret demo_server = demo_secret" "cs_StorageNodeID demo_server = ''node-1''"
    "cs_decode_complete demo_server = demo_complete" "st_crypto demo_setup = demo_crypto" by (simp_all add: demo_server_def demo_setup_def)
  have law: "reads_verdicts (cs_decode_complete demo_server)" using demo_complete_reads by (simp add: srv)
  obtain recv where r: "node_reachable demo_setup (demo_node, recv)" using demo_reachable_node by blast
  have "list_all (\<lambda>u. u_status u \<noteq> Ready) (uploads demo_control)" by code_simp
  then have none: "ready_pairs demo_control = {}" by (auto simp: ready_pairs_def list_all_iff)
  obtain sent verified where s0: "system_reachable demo_setup demo_server
      \<lparr>sy_node = demo_node, sy_recv = recv, sy_control = demo_control, sy_guard = Map.empty, sy_sent = sent, sy_verified = verified\<rparr>"
    (is "system_reachable _ _ ?s0") using node_in_system [OF r none, of demo_server] by auto
  have posts: "posts (nd_db demo_node) \<subseteq> sent" using system_reachable_inv [OF env law node s0] by (simp add: system_inv_def)
  obtain e es p where e: "outbox (nd_db demo_node) = e # es"
      "content e = (''POST'', ''/internal/v1/storage/uploads/upload-01/complete'', ob_body e)" "demo_complete (ob_body e) = Some p"
      "cq_NodeID p = ''node-1''" "cq_Status p = ''ready''" "cq_SHA256 p = hex_encode (cr_sha256 demo_crypto ''ABCD'')"
      "0 < length (ob_body e)" "length (ob_body e) \<le> 32768"
    using demo_posted by (auto split: list.splits option.splits)
  have path: "complete_path ''upload-01'' = ''/internal/v1/storage/uploads/upload-01/complete''" by code_simp
  have sent: "(''POST'', complete_path ''upload-01'', ob_body e) \<in> sent" using posts e(1,2) by (auto simp: posts_def path)
  obtain rq where rq: "rq_method rq = ''POST''" "rq_escapedPath rq = ''/internal/v1/storage/uploads/upload-01/complete''"
    "header_get (rq_header rq) ''Content-Type'' = ''application/json''"
    "authentic demo_crypto rq (ob_body e) demo_secret ''node-1'' (1030 * second) = Some (''node-1'', ''nonce-123'', 1000 * second)"
    using demo_sent [of "ob_body e"] e(7) by (metis length_0_conv less_numeral_extra(3))
  from demo_answered [OF rq(4,1,2,3) e(7,8) e(3-6)] obtain status db guard u where
    h: "handle_internal demo_server rq (Some (ob_body e)) (1030 * second) (demo_control, Map.empty) = (status, db, guard)"
    and u: "u \<in> set (uploads db)" "u_id u = ''upload-01''" "IsNodeStorage u" "u_status u = Ready" by blast
  have "unforged demo_server (sy_sent ?s0) rq (Some (ob_body e)) (1030 * second)"
    unfolding unforged_def rq(2) path [symmetric] using sent by simp
  from system_reachable.step [OF s0 system_step.request [OF this]] h
  have s: "system_reachable demo_setup demo_server (?s0\<lparr>sy_control := db, sy_guard := guard\<rparr>)" by simp
  let ?s = "?s0\<lparr>sy_control := db, sy_guard := guard\<rparr>"
  have u': "u \<in> set (uploads (sy_control ?s))" using u(1) by simp
  from ready_uploads_were_verified [OF env node law s u' u(3,4)] obtain contents where
    "(u_id u, contents) \<in> sy_verified ?s \<and> u_sha256 u = hex_encode (cr_sha256 demo_crypto contents) \<and> \<not> Contains contents eicarSignature"
    unfolding srv by blast
  then show ?thesis using s u' u(2,4) by (intro exI [of _ ?s] exI [of _ u] exI [of _ contents]) simp
qed

end
