(* ===== verification/Storage_Migration.thy ===== *)
theory Storage_Migration
  imports Control_Endpoints Storage_Content
begin

text \<open>
  The offline migration of an installation without nodes (storage_migration.go): every ready file of the
  control plane is audited, linked or copied into the objects of a storage node, recorded there as clean and
  then placed on the node in the control database. A file has an identity, which hard links share. The
  arguments say which calls fail, by the place in the code (\<open>site\<close>) and the path, and give the name and the
  identity of a temporary file; \<^verbatim>\<open>quick_check\<close>, the inspection of directories and databases and the check
  for symbolic links are parameters.
\<close>

section \<open>Files and calls\<close>

text \<open>What \<^verbatim>\<open>Lstat\<close> finds: a regular file with identity and content, or something else, with the identity
  \<^verbatim>\<open>Stat\<close> finds behind it.\<close>

datatype file_entry = Regular nat string | Irregular "nat option"

type_synonym file_table = "string \<rightharpoonup> file_entry"

datatype site =
    Source_Check | Target_Check | Same_Check | Exists_Check | Link_Call | Linked_Check | Second_Exists | Second_Check
  | Temp_Create | Temp_Copy | Temp_Sync | Temp_Check | Third_Exists | Third_Check | Publish | Fourth_Check | Published_Check
  | Independent_Check | Remove_Target | Remove_Temp

record migration_io =
  mi_fails :: "site \<Rightarrow> string \<Rightarrow> bool"
  mi_temp :: "ident \<Rightarrow> string \<times> nat"

record StorageMigrationReport =
  rp_Candidate :: int
  rp_Imported :: int
  rp_Reused :: int
  rp_Bytes :: int
  rp_Skipped :: int
  rp_Quarantined :: int
  rp_Blocked :: int
  rp_Deleted :: int
  rp_ControlQuickCheck :: bool
  rp_StorageQuickCheck :: bool

definition empty_report :: StorageMigrationReport where
  "empty_report = \<lparr>rp_Candidate = 0, rp_Imported = 0, rp_Reused = 0, rp_Bytes = 0, rp_Skipped = 0, rp_Quarantined = 0,
     rp_Blocked = 0, rp_Deleted = 0, rp_ControlQuickCheck = False, rp_StorageQuickCheck = False\<rparr>"

record migration_config =
  mc_crypto :: crypto
  mc_env :: storage_env
  mc_sourceRoot :: string
  mc_nodeID :: string
  mc_apply :: bool
  mc_copyOnly :: bool
  mc_plain_source :: "string \<Rightarrow> bool"

record storageMigrationUpload =
  mu_row :: upload
  mu_expiresAt :: unix_time

record storageMigrationCandidate =
  ca_upload :: storageMigrationUpload
  ca_sourcePath :: string
  ca_targetPath :: string
  ca_nodeID :: string
  ca_alreadyPlaced :: bool
  ca_targetReusable :: bool
  ca_expected :: storage_upload

record migration_state =
  ms_control :: cdb
  ms_storage :: sdb
  ms_files :: file_table

section \<open>Options\<close>

record StorageMigrationOptions =
  op_ControlDataDir :: string
  op_SourceObjectsDir :: string
  op_StorageDataDir :: string
  op_NodeID :: string
  op_Apply :: bool
  op_CopyOnly :: bool

text \<open>\<open>absolute\<close> is \<^verbatim>\<open>filepath.Abs\<close>, \<open>directory\<close> and \<open>database\<close> are the two inspections.\<close>

definition validateStorageMigrationOptions ::
  "crypto \<Rightarrow> (string \<Rightarrow> string) \<Rightarrow> (string \<Rightarrow> bool) \<Rightarrow> (string \<Rightarrow> bool) \<Rightarrow> (string \<Rightarrow> bool) \<Rightarrow> (string \<Rightarrow> bool) \<Rightarrow>
     StorageMigrationOptions \<Rightarrow> migration_config result" where
  "validateStorageMigrationOptions cr absolute directory database safe plainSource options =
     (let control = TrimSpace (op_ControlDataDir options); source = TrimSpace (op_SourceObjectsDir options);
          storage = TrimSpace (op_StorageDataDir options); node = TrimSpace (op_NodeID options);
          controlRoot = absolute (path_Clean control); storageRoot = absolute (path_Clean storage);
          sourceRoot = absolute (path_Clean source)
      in if control = '''' \<or> source = '''' \<or> storage = '''' \<or> node = '''' \<or> \<not> validStorageNodeID node then Inl ErrOther
         else if \<not> directory sourceRoot \<or> \<not> directory (path_Join storageRoot ''objects'') then Inl ErrOther
         else if \<not> database (path_Join controlRoot ''db/quicktransfer.db'') \<or> \<not> database (path_Join storageRoot ''db/storage-node.db'')
         then Inl ErrOther
         else Inr \<lparr>mc_crypto = cr, mc_env = \<lparr>env_root = storageRoot, env_safe = safe\<rparr>, mc_sourceRoot = sourceRoot, mc_nodeID = node,
           mc_apply = op_Apply options, mc_copyOnly = op_CopyOnly options, mc_plain_source = plainSource\<rparr>)"

section \<open>Checks of files\<close>

definition verifyStorageMigrationObject :: "crypto \<Rightarrow> bool \<Rightarrow> string \<Rightarrow> int \<Rightarrow> string \<Rightarrow> file_table \<Rightarrow> bool" where
  "verifyStorageMigrationObject cr failing path expectedSize expectedSHA256 fs \<longleftrightarrow> \<not> failing \<and>
     (case fs path of
        Some (Regular i contents) \<Rightarrow> int (length contents) = expectedSize \<and> EqualFold (hex_encode (cr_sha256 cr contents)) expectedSHA256
      | _ \<Rightarrow> False)"

definition storageMigrationObjectExists :: "bool \<Rightarrow> string \<Rightarrow> file_table \<Rightarrow> bool result" where
  "storageMigrationObjectExists failing path fs =
     (if failing then Inl ErrOther
      else case fs path of None \<Rightarrow> Inr False | Some (Regular i contents) \<Rightarrow> Inr True | Some (Irregular i) \<Rightarrow> Inl ErrOther)"

definition os_Stat :: "file_table \<Rightarrow> string \<Rightarrow> nat option" where
  "os_Stat fs path = (case fs path of None \<Rightarrow> None | Some (Regular i contents) \<Rightarrow> Some i | Some (Irregular i) \<Rightarrow> i)"

definition sameStorageMigrationFile :: "bool \<Rightarrow> string \<Rightarrow> string \<Rightarrow> file_table \<Rightarrow> bool result" where
  "sameStorageMigrationFile failing sourcePath targetPath fs =
     (if path_Clean sourcePath = path_Clean targetPath then Inr True
      else if failing then Inl ErrOther
      else case os_Stat fs sourcePath of
        None \<Rightarrow> Inl ErrOther
      | Some i \<Rightarrow> (case os_Stat fs targetPath of None \<Rightarrow> Inr False | Some j \<Rightarrow> Inr (i = j)))"

definition requireIndependentStorageMigrationFiles :: "bool \<Rightarrow> string \<Rightarrow> string \<Rightarrow> file_table \<Rightarrow> bool" where
  "requireIndependentStorageMigrationFiles failing sourcePath targetPath fs \<longleftrightarrow> sameStorageMigrationFile failing sourcePath targetPath fs = Inr False"

definition storageMigrationHasParentTraversal :: "string \<Rightarrow> bool" where
  "storageMigrationHasParentTraversal path = list_ex (\<lambda>p. p = ''..'') (fields_at (\<lambda>c. c = CHR ''/'' \<or> c = CHR 0x5C) path)"

definition leaves :: "string \<Rightarrow> bool" where
  "leaves relative \<longleftrightarrow> relative = ''..'' \<or> take 3 relative = ''../''"

definition storageMigrationPathWithin :: "string \<Rightarrow> string \<Rightarrow> bool" where
  "storageMigrationPathWithin root candidate \<longleftrightarrow> \<not> leaves (path_Rel root candidate)"

definition path_IsLocal :: "string \<Rightarrow> bool" where
  "path_IsLocal p \<longleftrightarrow> p \<noteq> '''' \<and> \<not> path_IsAbs p \<and> \<not> leaves (path_Clean p)"

definition inspectStorageMigrationSourcePath :: "migration_config \<Rightarrow> ident \<Rightarrow> string \<Rightarrow> file_table \<Rightarrow> string result" where
  "inspectStorageMigrationSourcePath cfg i storedPath fs =
     (let root = mc_sourceRoot cfg; cleaned = path_Clean storedPath
      in if storedPath = '''' \<or> storageMigrationHasParentTraversal storedPath \<or> path_Base cleaned \<noteq> i @ ''.blob'' then Inl ErrOther
         else if path_IsAbs cleaned \<and> \<not> storageMigrationPathWithin root cleaned then Inl ErrOther
         else if \<not> path_IsAbs cleaned \<and> \<not> path_IsLocal cleaned then Inl ErrOther
         else let absolute = (if path_IsAbs cleaned then cleaned else path_Join root (i @ ''.blob''))
              in if \<not> storageMigrationPathWithin root absolute \<or> \<not> mc_plain_source cfg absolute then Inl ErrOther
                 else case fs absolute of Some (Regular k contents) \<Rightarrow> Inr absolute | _ \<Rightarrow> Inl ErrOther)"

definition validStorageMigrationSHA256 :: "string \<Rightarrow> bool" where
  "validStorageMigrationSHA256 value \<longleftrightarrow> length value = 64 \<and> list_all hex_character value"

section \<open>The audit\<close>

definition count_status :: "upload_status \<Rightarrow> cdb \<Rightarrow> int" where
  "count_status status db = int (sql_count (\<lambda>u. u_status u = status) (uploads db))"

definition auditStorageMigrationStatuses :: "cdb \<Rightarrow> StorageMigrationReport \<times> bool" where
  "auditStorageMigrationStatuses db =
     (let q = count_status Quarantined db; b = count_status Blocked db; d = count_status Deleted db
      in (empty_report\<lparr>rp_Quarantined := q, rp_Blocked := b, rp_Deleted := d, rp_Skipped := q + b + d\<rparr>,
          \<not> count_status Uploading db + count_status Uploaded db + count_status Scanning db > 0))"

definition scanStorageMigrationUpload :: "cdb \<Rightarrow> upload \<Rightarrow> storageMigrationUpload result" where
  "scanStorageMigrationUpload db u =
     (case sql_first (\<lambda>t. t_id t = u_transfer_id u) (transfers db) of
        None \<Rightarrow> Inl ErrOther | Some t \<Rightarrow> Inr \<lparr>mu_row = u, mu_expiresAt = t_expires_at t\<rparr>)"

definition loadStorageMigrationRecord :: "storage_env \<Rightarrow> ident \<Rightarrow> sdb \<Rightarrow> storage_upload option result" where
  "loadStorageMigrationRecord env i db =
     (case sql_first (\<lambda>u. su_id u = i) (suploads db) of
        None \<Rightarrow> Inr None
      | Some u \<Rightarrow> (case scanUpload env u of Inl e \<Rightarrow> Inl e | Inr v \<Rightarrow> Inr (Some v)))"

text \<open>The names of the columns in which two records differ.\<close>

definition storageMigrationRecordMismatch :: "storage_upload \<Rightarrow> storage_upload \<Rightarrow> string list" where
  "storageMigrationRecordMismatch expected actual =
     map fst (filter snd
       [(''id'', su_id actual \<noteq> su_id expected), (''token_hash'', su_token_hash actual \<noteq> su_token_hash expected),
        (''original_name'', su_original_name actual \<noteq> su_original_name expected), (''content_type'', su_content_type actual \<noteq> su_content_type expected),
        (''length'', su_length actual \<noteq> su_length expected), (''offset'', su_offset actual \<noteq> su_offset expected),
        (''status'', su_status actual \<noteq> su_status expected), (''path'', su_path actual \<noteq> su_path expected),
        (''sha256'', su_sha256 actual \<noteq> su_sha256 expected), (''scan_detail'', su_scan_detail actual \<noteq> su_scan_detail expected),
        (''expires_at'', su_expires_at actual \<noteq> su_expires_at expected), (''scan_lease_until'', su_lease_until actual \<noteq> su_lease_until expected),
        (''scan_lease_id'', su_lease_id actual \<noteq> su_lease_id expected)])"

definition expected_record :: "migration_config \<Rightarrow> storageMigrationUpload \<Rightarrow> storage_upload" where
  "expected_record cfg m =
     (let u = mu_row m
      in \<lparr>su_id = u_id u, su_token_hash = u_upload_hash u, su_original_name = u_original_name u, su_content_type = u_content_type u,
         su_length = u_length u, su_offset = u_length u, su_status = Clean,
         su_path = path_Join (path_Join (env_root (mc_env cfg)) ''objects'') (u_id u @ ''.blob''), su_sha256 = u_sha256 u,
         su_scan_detail = u_scan_detail u, su_expires_at = mu_expiresAt m, su_lease_until = 0, su_lease_id = ''''\<rparr>)"

definition record_agrees :: "migration_config \<Rightarrow> storageMigrationUpload \<Rightarrow> bool \<Rightarrow> sdb \<Rightarrow> bool" where
  "record_agrees cfg m required db =
     (case loadStorageMigrationRecord (mc_env cfg) (u_id (mu_row m)) db of
        Inl e \<Rightarrow> False
      | Inr None \<Rightarrow> \<not> required
      | Inr (Some stored) \<Rightarrow> storageMigrationRecordMismatch (expected_record cfg m) stored = [])"

definition node_placed :: "string \<Rightarrow> upload \<Rightarrow> bool" where
  "node_placed nodeID u \<longleftrightarrow> \<not> (u_storage_node_id u \<noteq> nodeID \<or> u_storage_key u \<noteq> u_id u \<or>
     u_storage_version u \<noteq> StoragePlacementVersionV1 \<or> u_temp_path u \<noteq> '''' \<or> u_object_path u \<noteq> '''')"

definition auditStorageMigrationCandidate ::
  "migration_config \<Rightarrow> migration_io \<Rightarrow> migration_state \<Rightarrow> storageMigrationUpload \<Rightarrow> storageMigrationCandidate result" where
  "auditStorageMigrationCandidate cfg io s m =
     (let u = mu_row m; fs = ms_files s; verify = (\<lambda>st path. verifyStorageMigrationObject (mc_crypto cfg) (mi_fails io st path) path (u_length u) (u_sha256 u) fs);
          target = su_path (expected_record cfg m);
          candidate = \<lparr>ca_upload = m, ca_sourcePath = '''', ca_targetPath = target, ca_nodeID = mc_nodeID cfg, ca_alreadyPlaced = False,
            ca_targetReusable = False, ca_expected = expected_record cfg m\<rparr>
      in if \<not> validStorageObjectID (u_id u) \<or> u_offset u \<noteq> u_length u \<or> \<not> validStorageMigrationSHA256 (u_sha256 u) then Inl ErrOther
         else if u_storage_kind u = StorageKindNode then
           (if \<not> node_placed (mc_nodeID cfg) u \<or> \<not> verify Target_Check target \<or> \<not> record_agrees cfg m True (ms_storage s) then Inl ErrOther
            else Inr (candidate\<lparr>ca_alreadyPlaced := True, ca_targetReusable := True\<rparr>))
         else if u_storage_kind u \<noteq> StorageKindLocal \<or> u_storage_node_id u \<noteq> '''' \<or> u_storage_key u \<noteq> '''' \<or>
                 u_storage_version u \<noteq> StoragePlacementVersionV1 then Inl ErrOther
         else case inspectStorageMigrationSourcePath cfg (u_id u) (u_object_path u) fs of
           Inl e \<Rightarrow> Inl e
         | Inr sourcePath \<Rightarrow>
           (if \<not> verify Source_Check sourcePath then Inl ErrOther
            else case storageMigrationObjectExists (mi_fails io Exists_Check target) target fs of
              Inl e \<Rightarrow> Inl e
            | Inr exists \<Rightarrow>
              (if exists \<and> (\<not> verify Target_Check target \<or>
                    (mc_copyOnly cfg \<and> \<not> requireIndependentStorageMigrationFiles (mi_fails io Independent_Check target) sourcePath target fs))
               then Inl ErrOther
               else if \<not> record_agrees cfg m False (ms_storage s) then Inl ErrOther
               else Inr (candidate\<lparr>ca_sourcePath := sourcePath, ca_targetReusable := exists\<rparr>))))"

text \<open>The rows in order; an error does not stop the audit, but no candidate comes out of it.\<close>

fun audit_rows ::
  "migration_config \<Rightarrow> migration_io \<Rightarrow> migration_state \<Rightarrow> upload list \<Rightarrow> StorageMigrationReport \<Rightarrow> storageMigrationCandidate list \<Rightarrow> bool \<Rightarrow>
     StorageMigrationReport \<times> storageMigrationCandidate list result" where
  "audit_rows cfg io s [] rep candidates failed = (rep, if failed then Inl ErrOther else Inr candidates)"
| "audit_rows cfg io s (u # us) rep candidates failed =
     (case scanStorageMigrationUpload (ms_control s) u of
        Inl e \<Rightarrow> audit_rows cfg io s us rep candidates True
      | Inr m \<Rightarrow>
        (let counted = rep\<lparr>rp_Candidate := rp_Candidate rep + 1\<rparr>;
             fits = u_length u > 0 \<and> rp_Bytes rep \<le> max_int64 - u_length u;
             summed = (if fits then counted\<lparr>rp_Bytes := rp_Bytes counted + u_length u\<rparr> else counted)
         in if \<not> fits \<and> u_length u \<noteq> 0 then audit_rows cfg io s us summed candidates True
            else case auditStorageMigrationCandidate cfg io s m of
              Inl e \<Rightarrow> audit_rows cfg io s us summed candidates True
            | Inr c \<Rightarrow> audit_rows cfg io s us summed (candidates @ [c]) failed))"

definition auditStorageMigration ::
  "migration_config \<Rightarrow> migration_io \<Rightarrow> migration_state \<Rightarrow> StorageMigrationReport \<times> storageMigrationCandidate list result" where
  "auditStorageMigration cfg io s =
     (case auditStorageMigrationStatuses (ms_control s) of
        (rep, finished) \<Rightarrow>
          if \<not> finished then (rep, Inl ErrOther)
          else audit_rows cfg io s (sort_key (\<lambda>u. (u_created_at u, u_id u)) (filter (\<lambda>u. u_status u = Ready) (uploads (ms_control s)))) rep [] False)"

section \<open>The object\<close>

text \<open>The existing target is used when it is the file; \<open>None\<close> when there is none.\<close>

definition reuse_target ::
  "migration_config \<Rightarrow> migration_io \<Rightarrow> storageMigrationCandidate \<Rightarrow> site \<Rightarrow> site \<Rightarrow> file_table \<Rightarrow> bool option result" where
  "reuse_target cfg io c existsSite checkSite fs =
     (let u = mu_row (ca_upload c); target = ca_targetPath c
      in case storageMigrationObjectExists (mi_fails io existsSite target) target fs of
           Inl e \<Rightarrow> Inl e
         | Inr exists \<Rightarrow>
           (if \<not> exists then Inr None
            else if \<not> verifyStorageMigrationObject (mc_crypto cfg) (mi_fails io checkSite target) target (u_length u) (u_sha256 u) fs then Inl ErrOther
            else if mc_copyOnly cfg \<and> \<not> requireIndependentStorageMigrationFiles (mi_fails io Independent_Check target) (ca_sourcePath c) target fs
            then Inl ErrOther
            else Inr (Some True)))"

definition drop_file :: "bool \<Rightarrow> string \<Rightarrow> file_table \<Rightarrow> file_table" where
  "drop_file failing path fs = (if failing then fs else fs(path := None))"

text \<open>copyStorageMigrationObject: the temporary file is removed unless it was published. A rename that fails
  looks once more whether the target has appeared.\<close>

definition publish_copy ::
  "migration_config \<Rightarrow> migration_io \<Rightarrow> storageMigrationCandidate \<Rightarrow> string \<Rightarrow> file_table \<Rightarrow> bool result \<times> file_table" where
  "publish_copy cfg io c temp fs =
     (let u = mu_row (ca_upload c); target = ca_targetPath c; cleaned = drop_file (mi_fails io Remove_Temp temp) temp fs;
          verify = (\<lambda>st path fs. verifyStorageMigrationObject (mc_crypto cfg) (mi_fails io st path) path (u_length u) (u_sha256 u) fs)
      in if \<not> verify Temp_Check temp fs then (Inl ErrOther, cleaned)
         else case reuse_target cfg io c Third_Exists Third_Check fs of
           Inl e \<Rightarrow> (Inl e, cleaned)
         | Inr (Some reused) \<Rightarrow> (Inr reused, cleaned)
         | Inr None \<Rightarrow>
           (if mi_fails io Publish target
            then (case reuse_target cfg io c Fourth_Check Fourth_Check fs of
                    Inr (Some reused) \<Rightarrow> (Inr reused, cleaned)
                  | _ \<Rightarrow> (Inl ErrOther, cleaned))
            else let published = (fs(target := fs temp))(temp := None)
                 in if \<not> verify Published_Check target published then (Inl ErrOther, published)
                    else if \<not> requireIndependentStorageMigrationFiles (mi_fails io Independent_Check target) (ca_sourcePath c) target published
                    then (Inl ErrOther, drop_file (mi_fails io Remove_Target target) target published)
                    else (Inr False, published)))"

definition copyStorageMigrationObject ::
  "migration_config \<Rightarrow> migration_io \<Rightarrow> storageMigrationCandidate \<Rightarrow> file_table \<Rightarrow> bool result \<times> file_table" where
  "copyStorageMigrationObject cfg io c fs =
     (let u = mu_row (ca_upload c); source = ca_sourcePath c
      in case mi_temp io (u_id u) of
           (temp, fresh) \<Rightarrow>
             (case fs source of
                Some (Regular i contents) \<Rightarrow>
                  (if fs temp \<noteq> None \<or> temp = ca_targetPath c \<or> mi_fails io Temp_Create temp then (Inl ErrOther, fs)
                   else let written = fs(temp \<mapsto> Regular fresh contents); cleaned = drop_file (mi_fails io Remove_Temp temp) temp written
                        in if mi_fails io Temp_Copy temp \<or> int (length contents) \<noteq> u_length u \<or>
                              \<not> EqualFold (hex_encode (cr_sha256 (mc_crypto cfg) contents)) (u_sha256 u) \<or> mi_fails io Temp_Sync temp
                           then (Inl ErrOther, cleaned)
                           else publish_copy cfg io c temp written)
              | _ \<Rightarrow> (Inl ErrOther, fs)))"

definition ensureStorageMigrationObject ::
  "migration_config \<Rightarrow> migration_io \<Rightarrow> storageMigrationCandidate \<Rightarrow> file_table \<Rightarrow> bool result \<times> file_table" where
  "ensureStorageMigrationObject cfg io c fs =
     (let u = mu_row (ca_upload c); source = ca_sourcePath c; target = ca_targetPath c;
          verify = (\<lambda>st path fs. verifyStorageMigrationObject (mc_crypto cfg) (mi_fails io st path) path (u_length u) (u_sha256 u) fs)
      in if \<not> verify Source_Check source fs then (Inl ErrOther, fs)
         else case sameStorageMigrationFile (mi_fails io Same_Check target) source target fs of
           Inl e \<Rightarrow> (Inl e, fs)
         | Inr True \<Rightarrow> (if mc_copyOnly cfg then Inl ErrOther else Inr True, fs)
         | Inr False \<Rightarrow>
           (case reuse_target cfg io c Exists_Check Target_Check fs of
              Inl e \<Rightarrow> (Inl e, fs)
            | Inr (Some reused) \<Rightarrow> (Inr reused, fs)
            | Inr None \<Rightarrow>
              (if \<not> mc_copyOnly cfg \<and> \<not> mi_fails io Link_Call target
               then let linked = fs(target := fs source)
                    in if verify Linked_Check target linked then (Inr False, linked)
                       else (Inl ErrOther, drop_file (mi_fails io Remove_Target target) target linked)
               else case reuse_target cfg io c Second_Exists Second_Check fs of
                 Inl e \<Rightarrow> (Inl e, fs)
               | Inr (Some reused) \<Rightarrow> (Inr reused, fs)
               | Inr None \<Rightarrow> copyStorageMigrationObject cfg io c fs)))"

section \<open>Record and placement\<close>

definition ensureStorageMigrationRecord :: "storage_env \<Rightarrow> storage_upload \<Rightarrow> bool sop" where
  "ensureStorageMigrationRecord env expected db =
     (case normalizeUploadPath env (su_id expected) (su_path expected) of
        Inl e \<Rightarrow> (Inl e, db)
      | Inr (persistentPath, absolutePath) \<Rightarrow>
        (if persistentPath \<noteq> storageUploadPathKey ''objects'' (su_id expected) ''.blob'' then (Inl ErrOther, db)
         else let known = sql_exists (\<lambda>u. su_id u = su_id expected) (suploads db);
                  db1 = (if known then db else db\<lparr>suploads := suploads db @ [expected\<lparr>su_path := persistentPath, su_lease_until := 0, su_lease_id := ''''\<rparr>]\<rparr>)
              in case storage_UploadByID env (su_id expected) db1 of
                   Inl e \<Rightarrow> (Inl e, db)
                 | Inr stored \<Rightarrow>
                   (if storageMigrationRecordMismatch (expected\<lparr>su_path := absolutePath\<rparr>) stored \<noteq> [] then (Inl ErrOther, db)
                    else (Inr (\<not> known), db1))))"

definition sameStorageMigrationMetadata :: "storageMigrationUpload \<Rightarrow> storageMigrationUpload \<Rightarrow> bool" where
  "sameStorageMigrationMetadata left right \<longleftrightarrow>
     (let l = mu_row left; r = mu_row right
      in u_id l = u_id r \<and> u_transfer_id l = u_transfer_id r \<and> u_upload_hash l = u_upload_hash r \<and> u_original_name l = u_original_name r \<and>
         u_content_type l = u_content_type r \<and> u_length l = u_length r \<and> u_offset l = u_offset r \<and> u_sha256 l = u_sha256 r \<and>
         u_scan_detail l = u_scan_detail r \<and> mu_expiresAt left = mu_expiresAt right)"

definition place_on_node :: "string \<Rightarrow> upload \<Rightarrow> upload" where
  "place_on_node nodeID u = u\<lparr>u_temp_path := '''', u_object_path := '''', u_storage_kind := StorageKindNode, u_storage_node_id := nodeID,
     u_storage_key := u_id u, u_storage_version := StoragePlacementVersionV1\<rparr>"

text \<open>The WHERE of the UPDATE repeats what was read.\<close>

definition unchanged_row :: "upload \<Rightarrow> upload \<Rightarrow> bool" where
  "unchanged_row u x \<longleftrightarrow>
     u_id x = u_id u \<and> u_status x = Ready \<and> u_transfer_id x = u_transfer_id u \<and> u_upload_hash x = u_upload_hash u \<and>
     u_original_name x = u_original_name u \<and> u_content_type x = u_content_type u \<and> u_length x = u_length u \<and>
     u_offset x = u_offset u \<and> u_temp_path x = u_temp_path u \<and> u_object_path x = u_object_path u \<and> u_sha256 x = u_sha256 u \<and>
     u_scan_detail x = u_scan_detail u \<and> u_storage_kind x = StorageKindLocal \<and> u_storage_node_id x = '''' \<and>
     u_storage_key x = '''' \<and> u_storage_version x = StoragePlacementVersionV1"

definition switchStorageMigrationControl :: "storageMigrationCandidate \<Rightarrow> bool operation" where
  "switchStorageMigrationControl c db =
     (let want = mu_row (ca_upload c)
      in case sql_first (\<lambda>u. u_id u = u_id want) (uploads db) of
           None \<Rightarrow> (Inl ErrNotFound, db)
         | Some u \<Rightarrow>
           (case scanStorageMigrationUpload db u of
              Inl e \<Rightarrow> (Inl e, db)
            | Inr m \<Rightarrow>
              (if u_status u \<noteq> Ready \<or> \<not> sameStorageMigrationMetadata m (ca_upload c) then (Inl ErrConflict, db)
               else if u_storage_kind u = StorageKindNode
               then (if node_placed (ca_nodeID c) u then Inr False else Inl ErrConflict, db)
               else if u_storage_kind u \<noteq> StorageKindLocal \<or> u_storage_node_id u \<noteq> '''' \<or> u_storage_key u \<noteq> '''' \<or>
                       u_storage_version u \<noteq> StoragePlacementVersionV1 \<or> u_temp_path u \<noteq> u_temp_path want \<or> u_object_path u \<noteq> u_object_path want
               then (Inl ErrConflict, db)
               else if sql_count (unchanged_row u) (uploads db) \<noteq> 1 then (Inl ErrConflict, db)
               else (Inr True, db\<lparr>uploads := sql_update (unchanged_row u) (place_on_node (ca_nodeID c)) (uploads db)\<rparr>))))"

section \<open>The run\<close>

fun migrate_each ::
  "migration_config \<Rightarrow> migration_io \<Rightarrow> storageMigrationCandidate list \<Rightarrow> StorageMigrationReport \<Rightarrow> migration_state \<Rightarrow>
     StorageMigrationReport \<times> bool \<times> migration_state" where
  "migrate_each cfg io [] rep s = (rep, True, s)"
| "migrate_each cfg io (c # cs) rep s =
     (if ca_alreadyPlaced c then migrate_each cfg io cs (rep\<lparr>rp_Reused := rp_Reused rep + 1\<rparr>) s
      else case ensureStorageMigrationObject cfg io c (ms_files s) of
        (Inl e, fs) \<Rightarrow> (rep, False, s\<lparr>ms_files := fs\<rparr>)
      | (Inr reused, fs) \<Rightarrow>
        (let s1 = s\<lparr>ms_files := fs\<rparr>; rep1 = (if reused then rep\<lparr>rp_Reused := rp_Reused rep + 1\<rparr> else rep)
         in case ensureStorageMigrationRecord (mc_env cfg) (ca_expected c) (ms_storage s1) of
              (Inl e, st) \<Rightarrow> (rep1, False, s1\<lparr>ms_storage := st\<rparr>)
            | (Inr created, st) \<Rightarrow>
              (let s2 = s1\<lparr>ms_storage := st\<rparr>
               in case switchStorageMigrationControl c (ms_control s2) of
                    (Inl e, db) \<Rightarrow> (rep1, False, s2\<lparr>ms_control := db\<rparr>)
                  | (Inr changed, db) \<Rightarrow>
                    migrate_each cfg io cs (if changed then rep1\<lparr>rp_Imported := rp_Imported rep1 + 1\<rparr> else rep1) (s2\<lparr>ms_control := db\<rparr>))))"

definition finishStorageMigration :: "bool \<Rightarrow> bool \<Rightarrow> StorageMigrationReport \<Rightarrow> bool \<Rightarrow> StorageMigrationReport \<times> bool" where
  "finishStorageMigration controlOk storageOk rep ok =
     (rep\<lparr>rp_ControlQuickCheck := controlOk, rp_StorageQuickCheck := storageOk\<rparr>, ok \<and> controlOk \<and> storageOk)"

text \<open>The read-only audit, the second audit on writable connections and the run proper have their own
  failing calls; \<open>quick\<close> are the results of the two quick checks.\<close>

definition RunStorageMigration ::
  "migration_config \<Rightarrow> migration_io \<Rightarrow> migration_io \<Rightarrow> migration_io \<Rightarrow> bool \<times> bool \<Rightarrow> migration_state \<Rightarrow>
     (StorageMigrationReport \<times> bool) \<times> migration_state" where
  "RunStorageMigration cfg io1 io2 io3 quick s =
     (case auditStorageMigration cfg io1 s of
        (rep, audit) \<Rightarrow>
          (case audit of
             Inl e \<Rightarrow> (finishStorageMigration (fst quick) (snd quick) rep False, s)
           | Inr candidates \<Rightarrow>
             (if \<not> mc_apply cfg
              then (finishStorageMigration (fst quick) (snd quick)
                      (rep\<lparr>rp_Reused := rp_Reused rep + int (length (filter ca_targetReusable candidates))\<rparr>) True, s)
              else case auditStorageMigration cfg io2 s of
                (rep2, Inl e) \<Rightarrow> (finishStorageMigration (fst quick) (snd quick) rep2 False, s)
              | (rep2, Inr candidates2) \<Rightarrow>
                (case migrateStorageUploadPaths (mc_env cfg) (ms_storage s) of
                   (Inl e, st) \<Rightarrow> (finishStorageMigration (fst quick) (snd quick) rep2 False, s\<lparr>ms_storage := st\<rparr>)
                 | (Inr _, st) \<Rightarrow>
                   (case migrate_each cfg io3 candidates2 rep2 (s\<lparr>ms_storage := st\<rparr>) of
                      (rep3, ok, s') \<Rightarrow> (finishStorageMigration (fst quick) (snd quick) rep3 ok, s'))))))"

end
