(* ===== verification/Migration_Properties.thy ===== *)
theory Migration_Properties
  imports Storage_Migration Storage_Properties Upload_Properties
begin

text \<open>
  What a migration run may change: it adds files but touches none that exists, places a row on the node only
  after the node has the file and a matching record of it, and reports success only when that holds of every
  ready upload.
\<close>

section \<open>Paths\<close>

lemma clean_absolute:
  assumes "path_IsAbs p"
  shows "path_IsAbs (path_Clean p)" and "path_Clean (path_Clean p) = path_Clean p"
proof -
  define es where "es = clean_elements True [] (split_at (CHR ''/'') p)"
  have p: "path_Clean p = ''/'' @ Join es ''/''" using assms by (auto simp: path_Clean_def Let_def es_def path_IsAbs_def)
  then show a: "path_IsAbs (path_Clean p)" by (simp add: path_IsAbs_def)
  have es: "list_all plain es" unfolding es_def using clean_elements_rooted [of "[]"] split_at_no_sep by auto
  have "clean_elements True [] (split_at (CHR ''/'') (''/'' @ Join es ''/'')) = es"
  proof (cases "es = []")
    case False
    then have "split_at (CHR ''/'') (Join es ''/'') = es" using es by (intro split_Join) (auto simp: list_all_iff plain_def)
    then show ?thesis using clean_elements_plain [OF es, of True "[]"] by simp
  qed simp
  then show "path_Clean (path_Clean p) = path_Clean p" using a unfolding p by (simp add: path_Clean_def Let_def)
qed

definition node_object_path :: "storage_env \<Rightarrow> ident \<Rightarrow> string" where
  "node_object_path env i = path_Join (path_Join (env_root env) ''objects'') (i @ ''.blob'')"

lemma path_child:
  assumes "clean_root r" "plain d"
  shows "path_Clean (r @ ''/'' @ d) = r @ ''/'' @ d"
proof -
  obtain es where es: "es \<noteq> []" "list_all plain es" "r = ''/'' @ Join es ''/''"
    "clean_elements True [] (split_at (CHR ''/'') r) = es"
    using clean_root_elements [OF assms(1)] .
  have "split_at (CHR ''/'') (r @ ''/'' @ d) = split_at (CHR ''/'') r @ [d]"
    using split_at_append [of "CHR ''/''" r d] assms(2) by (simp add: plain_def split_at_none)
  then have "clean_elements True [] (split_at (CHR ''/'') (r @ ''/'' @ d)) = es @ [d]"
    using es(4) clean_elements_append [of True "[]" "split_at (CHR ''/'') r" "[d]"] clean_elements_plain [of "[d]" True "rev es"] assms(2) by simp
  moreover have "path_IsAbs (r @ ''/'' @ d)" by (simp add: es(3) path_IsAbs_def)
  ultimately show ?thesis using es(1) by (simp add: path_Clean_def Join_append es(3))
qed

lemma node_object_path_eq:
  assumes "clean_root (env_root env)" "validStorageObjectID i"
  shows "node_object_path env i = env_root env @ ''/'' @ ''objects'' @ ''/'' @ i @ ''.blob''"
    and "path_Clean (node_object_path env i) = node_object_path env i"
proof -
  note k = upload_key_plain [OF assms(2), of "''objects''" "i @ ''.blob''"]
  have k: "plain ''objects''" "plain (i @ ''.blob'')" using k(1,2) by (simp_all add: upload_keys_def)
  show e: "node_object_path env i = env_root env @ ''/'' @ ''objects'' @ ''/'' @ i @ ''.blob''"
    using path_child [OF assms(1) k(1)] path_below_root(1) [OF assms(1) k] by (simp add: node_object_path_def path_Join_def)
  show "path_Clean (node_object_path env i) = node_object_path env i" unfolding e using path_below_root(1) [OF assms(1) k] by simp
qed

section \<open>Files\<close>

definition holds_object :: "migration_config \<Rightarrow> string \<Rightarrow> upload \<Rightarrow> file_table \<Rightarrow> bool" where
  "holds_object cfg path u fs = verifyStorageMigrationObject (mc_crypto cfg) False path (u_length u) (u_sha256 u) fs"

lemma verify_holds:
  "verifyStorageMigrationObject (mc_crypto cfg) b path (u_length u) (u_sha256 u) fs \<Longrightarrow> holds_object cfg path u fs"
  by (simp add: verifyStorageMigrationObject_def holds_object_def)

lemma holds_exists: "holds_object cfg path u fs \<Longrightarrow> fs path \<noteq> None"
  by (auto simp: verifyStorageMigrationObject_def holds_object_def split: option.splits)

lemma holds_cong: "holds_object cfg path u fs \<Longrightarrow> fs' path = fs path \<Longrightarrow> holds_object cfg path u fs'"
  by (simp add: verifyStorageMigrationObject_def holds_object_def)

definition adds_only :: "string set \<Rightarrow> file_table \<Rightarrow> file_table \<Rightarrow> bool" where
  "adds_only P fs fs' \<longleftrightarrow> (\<forall>p. fs' p = fs p \<or> fs p = None \<and> p \<in> P)"

lemma adds_only_refl [simp]: "adds_only P fs fs"
  by (simp add: adds_only_def)

lemma adds_keeps: "adds_only P fs fs' \<Longrightarrow> fs p \<noteq> None \<Longrightarrow> fs' p = fs p"
  by (auto simp: adds_only_def)

lemma reuse_Some: "reuse_target cfg io c a b fs = Inr (Some r) \<Longrightarrow> holds_object cfg (ca_targetPath c) (mu_row (ca_upload c)) fs"
  by (auto simp: reuse_target_def Let_def intro: verify_holds split: sum.splits if_splits)

lemma reuse_None: "reuse_target cfg io c a b fs = Inr None \<Longrightarrow> fs (ca_targetPath c) = None"
  by (auto simp: reuse_target_def storageMigrationObjectExists_def Let_def split: sum.splits if_splits option.splits file_entry.splits)

lemma drop_adds: "fs path = None \<Longrightarrow> path \<in> P \<Longrightarrow> adds_only P fs fs1 \<Longrightarrow> adds_only P fs (drop_file b path fs1)"
  by (auto simp: drop_file_def adds_only_def)

lemma drop_other: "p \<noteq> path \<Longrightarrow> drop_file b path fs p = fs p"
  by (simp add: drop_file_def)

lemma publish_step:
  assumes run: "publish_copy cfg io c temp fs1 = (r, fs')" and fs1: "fs1 = fs(temp \<mapsto> f)" and new: "fs temp = None" "temp \<noteq> ca_targetPath c"
  shows "adds_only {ca_targetPath c, temp} fs fs'"
    and "r = Inr b \<Longrightarrow> holds_object cfg (ca_targetPath c) (mu_row (ca_upload c)) fs'"
proof -
  let ?t = "ca_targetPath c" and ?u = "mu_row (ca_upload c)" and ?P = "{ca_targetPath c, temp}"
  define cleaned where "cleaned = drop_file (mi_fails io Remove_Temp temp) temp fs1"
  have a1: "adds_only ?P fs fs1" using new by (auto simp: adds_only_def fs1)
  have ac: "adds_only ?P fs cleaned" unfolding cleaned_def using drop_adds [OF new(1) _ a1] by simp
  have hc: "holds_object cfg ?t ?u fs1 \<Longrightarrow> holds_object cfg ?t ?u cleaned"
    using holds_cong drop_other new(2) unfolding cleaned_def by metis
  define published where "published = (fs1(?t := fs1 temp))(temp := None)"
  have ap: "fs1 ?t = None \<Longrightarrow> adds_only ?P fs published"
    using new by (auto simp: published_def adds_only_def fs1)
  have ad: "fs1 ?t = None \<Longrightarrow> adds_only ?P fs (drop_file b' ?t published)" for b'
    using drop_adds [OF _ _ ap] new(2) by (simp add: fs1)
  note defs = run [unfolded publish_copy_def Let_def, folded cleaned_def, folded published_def]
  have "adds_only ?P fs fs' \<and> (r = Inr b \<longrightarrow> holds_object cfg ?t ?u fs')"
  proof (cases "reuse_target cfg io c Third_Exists Third_Check fs1")
    case (Inl e)
    then show ?thesis using defs ac by (auto split: if_splits)
  next
    case (Inr o1)
    show ?thesis
    proof (cases o1)
      case None
      note free = reuse_None [OF Inr [unfolded None]]
      show ?thesis
        using defs Inr None ac hc ap [OF free] ad [OF free] reuse_Some [of cfg io c Fourth_Check Fourth_Check fs1]
        by (auto intro: verify_holds split: if_splits sum.splits option.splits)
    next
      case (Some r1)
      then show ?thesis using defs Inr ac hc reuse_Some [of cfg io c Third_Exists Third_Check fs1] by (auto split: if_splits)
    qed
  qed
  then show "adds_only ?P fs fs'" "r = Inr b \<Longrightarrow> holds_object cfg ?t ?u fs'" by auto
qed


lemma copy_step:
  assumes run: "copyStorageMigrationObject cfg io c fs = (r, fs')"
  shows "adds_only {ca_targetPath c, fst (mi_temp io (u_id (mu_row (ca_upload c))))} fs fs'"
    and "r = Inr b \<Longrightarrow> holds_object cfg (ca_targetPath c) (mu_row (ca_upload c)) fs'"
proof -
  let ?t = "ca_targetPath c" and ?u = "mu_row (ca_upload c)"
  obtain temp fresh where temp: "mi_temp io (u_id ?u) = (temp, fresh)" by (cases "mi_temp io (u_id ?u)") auto
  note defs = run [unfolded copyStorageMigrationObject_def Let_def temp prod.case]
  have "adds_only {?t, temp} fs fs' \<and> (r = Inr b \<longrightarrow> holds_object cfg ?t ?u fs')"
  proof (cases "\<exists>i contents. fs (ca_sourcePath c) = Some (Regular i contents) \<and> fs temp = None \<and> temp \<noteq> ?t")
    case True
    then obtain i contents where s: "fs (ca_sourcePath c) = Some (Regular i contents)" and new: "fs temp = None" "temp \<noteq> ?t" by blast
    define written where "written = fs(temp \<mapsto> Regular fresh contents)"
    have a: "adds_only {?t, temp} fs (drop_file b' temp written)" for b'
      using new by (auto simp: written_def drop_file_def adds_only_def)
    note defs' = defs [unfolded s option.case file_entry.case, folded written_def]
    show ?thesis
    proof (cases "publish_copy cfg io c temp written = (r, fs')")
      case True
      then show ?thesis using publish_step [OF True written_def new] by blast
    next
      case False
      then show ?thesis using defs' a by (auto split: if_splits)
    qed
  next
    case False
    then show ?thesis using defs by (auto split: option.splits file_entry.splits if_splits)
  qed
  then show "adds_only {?t, fst (mi_temp io (u_id ?u))} fs fs'" "r = Inr b \<Longrightarrow> holds_object cfg ?t ?u fs'" by (auto simp: temp)
qed

text \<open>The candidate as the audit left it.\<close>

definition target_usable :: "migration_config \<Rightarrow> storageMigrationCandidate \<Rightarrow> file_table \<Rightarrow> bool" where
  "target_usable cfg c fs \<longleftrightarrow> path_Clean (ca_sourcePath c) = ca_sourcePath c \<and> path_Clean (ca_targetPath c) = ca_targetPath c \<and>
     (fs (ca_targetPath c) = None \<or> holds_object cfg (ca_targetPath c) (mu_row (ca_upload c)) fs)"

lemma ensure_object_step:
  assumes run: "ensureStorageMigrationObject cfg io c fs = (r, fs')" and usable: "target_usable cfg c fs"
  shows "adds_only {ca_targetPath c, fst (mi_temp io (u_id (mu_row (ca_upload c))))} fs fs'"
    and "r = Inr b \<Longrightarrow> holds_object cfg (ca_targetPath c) (mu_row (ca_upload c)) fs'"
proof -
  let ?t = "ca_targetPath c" and ?u = "mu_row (ca_upload c)" and ?s = "ca_sourcePath c"
  let ?P = "{?t, fst (mi_temp io (u_id ?u))}"
  let ?same = "sameStorageMigrationFile (mi_fails io Same_Check ?t) ?s ?t fs"
  have shared: "holds_object cfg ?t ?u fs" if "holds_object cfg ?s ?u fs" "?same = Inr True"
  proof (cases "?s = ?t")
    case False
    then have "os_Stat fs ?t \<noteq> None"
      using that(2) usable by (auto simp: sameStorageMigrationFile_def target_usable_def split: if_splits option.splits)
    then have "fs ?t \<noteq> None" by (auto simp: os_Stat_def split: option.splits)
    then show ?thesis using usable by (auto simp: target_usable_def)
  qed (use that in simp)
  define linked where "linked = fs(?t := fs ?s)"
  have al: "adds_only ?P fs linked" "adds_only ?P fs (drop_file b' ?t linked)" if "fs ?t = None" for b'
    using that by (auto simp: linked_def drop_file_def adds_only_def)
  note defs = run [unfolded ensureStorageMigrationObject_def Let_def, folded linked_def]
  have "adds_only ?P fs fs' \<and> (r = Inr b \<longrightarrow> holds_object cfg ?t ?u fs')"
  proof (cases "copyStorageMigrationObject cfg io c fs = (r, fs')")
    case True
    then show ?thesis using copy_step [OF True] by blast
  next
    case False
    note reuse = reuse_Some [of cfg io c Exists_Check Target_Check fs] reuse_Some [of cfg io c Second_Exists Second_Check fs]
    show ?thesis
    proof (cases "reuse_target cfg io c Exists_Check Target_Check fs = Inr None")
      case free: True
      show ?thesis
        using defs False shared al [OF reuse_None [OF free]] reuse free
        by (auto intro: verify_holds split: if_splits sum.splits option.splits bool.splits)
    next
      case taken: False
      then show ?thesis
        using defs False shared reuse by (auto intro: verify_holds split: if_splits sum.splits option.splits bool.splits)
    qed
  qed
  then show "adds_only ?P fs fs'" "r = Inr b \<Longrightarrow> holds_object cfg ?t ?u fs'" by auto
qed


section \<open>The audit\<close>

definition audited :: "migration_config \<Rightarrow> migration_state \<Rightarrow> storageMigrationCandidate \<Rightarrow> bool" where
  "audited cfg s c \<longleftrightarrow>
     (let m = ca_upload c; u = mu_row m
      in scanStorageMigrationUpload (ms_control s) u = Inr m \<and> validStorageObjectID (u_id u) \<and>
         ca_targetPath c = node_object_path (mc_env cfg) (u_id u) \<and> ca_nodeID c = mc_nodeID cfg \<and> ca_expected c = expected_record cfg m \<and>
         (if ca_alreadyPlaced c
          then u_storage_kind u = StorageKindNode \<and> node_placed (mc_nodeID cfg) u \<and>
            holds_object cfg (ca_targetPath c) u (ms_files s) \<and> record_agrees cfg m True (ms_storage s)
          else u_storage_kind u = StorageKindLocal \<and> path_Clean (ca_sourcePath c) = ca_sourcePath c \<and>
            (ms_files s (ca_targetPath c) = None \<or> holds_object cfg (ca_targetPath c) u (ms_files s))))"

lemma source_path_clean:
  assumes "path_IsAbs (mc_sourceRoot cfg)" "inspectStorageMigrationSourcePath cfg i stored fs = Inr p"
  shows "path_Clean p = p"
proof -
  have "path_IsAbs (mc_sourceRoot cfg @ ''/'' @ i @ ''.blob'')" using assms(1) by (auto simp: path_IsAbs_def split: list.splits)
  moreover have "path_IsAbs (path_Clean stored) \<Longrightarrow> path_IsAbs stored"
  proof (rule ccontr)
    assume c: "path_IsAbs (path_Clean stored)" and n: "\<not> path_IsAbs stored"
    define es where "es = clean_elements False [] (split_at (CHR ''/'') stored)"
    have "p \<in> set (clean_elements False kept ps) \<Longrightarrow> p \<in> set kept \<or> p \<in> set ps \<and> p \<noteq> ''''" for p kept ps
      by (induction False kept ps rule: clean_elements.induct) (auto split: if_splits list.splits)
    then have e: "p \<in> set es \<Longrightarrow> CHR ''/'' \<notin> set p \<and> p \<noteq> ''''" for p unfolding es_def using split_at_no_sep by fastforce
    have "\<not> path_IsAbs (Join es ''/'')"
    proof (cases es)
      case (Cons p ps)
      then obtain x xs where "p = x # xs" "x \<noteq> CHR ''/''" using e [of p] by (cases p) auto
      then show ?thesis by (cases ps) (simp_all add: path_IsAbs_def Join_Cons Cons)
    qed (simp add: path_IsAbs_def)
    then show False using c n by (auto simp: path_Clean_def Let_def es_def path_IsAbs_def split: if_splits)
  qed
  ultimately show ?thesis
    using assms(2) clean_absolute by (auto simp: inspectStorageMigrationSourcePath_def Let_def path_Join_def split: if_splits option.splits file_entry.splits)
qed

lemma candidate_audited:
  assumes root: "path_IsAbs (mc_sourceRoot cfg)" and scan: "scanStorageMigrationUpload (ms_control s) (mu_row m) = Inr m"
    and run: "auditStorageMigrationCandidate cfg io s m = Inr c"
  shows "audited cfg s c" and "ca_upload c = m"
proof -
  let ?u = "mu_row m"
  have target: "su_path (expected_record cfg m) = node_object_path (mc_env cfg) (u_id ?u)" by (simp add: expected_record_def Let_def node_object_path_def)
  have v: "validStorageObjectID (u_id ?u)" using run by (auto simp: auditStorageMigrationCandidate_def Let_def split: if_splits)
  note defs = run [unfolded auditStorageMigrationCandidate_def Let_def target]
  have "audited cfg s c \<and> ca_upload c = m"
  proof (cases "u_storage_kind ?u = StorageKindNode")
    case True
    then show ?thesis using defs v scan by (auto simp: audited_def Let_def intro: verify_holds split: if_splits)
  next
    case False
    then obtain p where p: "inspectStorageMigrationSourcePath cfg (u_id ?u) (u_object_path ?u) (ms_files s) = Inr p"
      using defs by (auto split: if_splits sum.splits)
    note clean = source_path_clean [OF root p]
    have "storageMigrationObjectExists b path fs = Inr False \<Longrightarrow> fs path = None" for b path fs
      by (auto simp: storageMigrationObjectExists_def split: if_splits option.splits file_entry.splits)
    then show ?thesis using defs v scan False p clean by (auto simp: audited_def Let_def intro: verify_holds split: if_splits sum.splits)
  qed
  then show "audited cfg s c" "ca_upload c = m" by auto
qed

lemma audit_rows_step:
  assumes "path_IsAbs (mc_sourceRoot cfg)" "audit_rows cfg io s us rp acc failed = (rp', Inr cs)"
  shows "\<not> failed \<and> (\<exists>cs'. cs = acc @ cs' \<and> map (\<lambda>c. mu_row (ca_upload c)) cs' = us \<and> (\<forall>c \<in> set cs'. audited cfg s c))"
  using assms(2)
proof (induction us arbitrary: rp acc failed)
  case (Cons u us)
  obtain m where m: "scanStorageMigrationUpload (ms_control s) u = Inr m"
  proof (cases "scanStorageMigrationUpload (ms_control s) u")
    case (Inl e)
    then have "audit_rows cfg io s us rp acc True = (rp', Inr cs)" using Cons.prems by simp
    from Cons.IH [OF this] show ?thesis by simp
  qed
  then have row: "mu_row m = u" by (auto simp: scanStorageMigrationUpload_def split: option.splits)
  show ?case
  proof (cases "auditStorageMigrationCandidate cfg io s m")
    case (Inl e)
    then show ?thesis using Cons.prems Cons.IH m by (auto simp: Let_def split: if_splits; fastforce)
  next
    case (Inr c)
    note a = candidate_audited [OF assms(1) _ Inr, unfolded row, OF m]
    obtain rp1 where "audit_rows cfg io s us rp1 (acc @ [c]) failed = (rp', Inr cs)"
      using Cons.prems m Inr Cons.IH by (auto simp: Let_def split: if_splits; fastforce)
    from Cons.IH [OF this] show ?thesis using a row by auto
  qed
qed (auto split: if_splits)


section \<open>The records of the node\<close>

abbreviation known_record :: "migration_config \<Rightarrow> ident \<Rightarrow> sdb \<Rightarrow> storage_upload \<Rightarrow> bool" where
  "known_record cfg i db v \<equiv> loadStorageMigrationRecord (mc_env cfg) i db = Inr (Some v)"

definition records_kept :: "migration_config \<Rightarrow> sdb \<Rightarrow> sdb \<Rightarrow> bool" where
  "records_kept cfg db db' \<longleftrightarrow> (\<forall>i v. known_record cfg i db v \<longrightarrow> known_record cfg i db' v)"

lemma records_kept_refl [simp]: "records_kept cfg db db"
  and records_kept_trans: "records_kept cfg db db1 \<Longrightarrow> records_kept cfg db1 db2 \<Longrightarrow> records_kept cfg db db2"
  by (auto simp: records_kept_def)

lemma agrees_known:
  "record_agrees cfg m True db \<longleftrightarrow> (\<exists>v. known_record cfg (u_id (mu_row m)) db v \<and> storageMigrationRecordMismatch (expected_record cfg m) v = [])"
  by (auto simp: record_agrees_def split: sum.splits option.splits)

lemma agrees_kept: "record_agrees cfg m True db \<Longrightarrow> records_kept cfg db db' \<Longrightarrow> record_agrees cfg m True db'"
  by (auto simp: agrees_known records_kept_def)

lemma first_row_append: "sql_first p (xs @ ys) = (case sql_first p xs of None \<Rightarrow> sql_first p ys | Some x \<Rightarrow> Some x)"
  by (induction xs) auto

lemma known_first:
  "known_record cfg i db v \<longleftrightarrow> (\<exists>u. sql_first (\<lambda>u. su_id u = i) (suploads db) = Some u \<and> scanUpload (mc_env cfg) u = Inr v)"
  by (auto simp: loadStorageMigrationRecord_def split: option.splits sum.splits)

lemma records_kept_append: "suploads db' = suploads db @ xs \<Longrightarrow> records_kept cfg db db'"
  by (auto simp: records_kept_def known_first first_row_append)

lemma normalize_twice:
  assumes "clean_root (env_root env)" "normalizeUploadPath env i p = Inr (k, a)"
  shows "normalizeUploadPath env i k = Inr (k, a)"
proof (cases "k = ''''")
  case True
  then have "a = ''''" using normalize_Inr [OF assms] by auto
  then show ?thesis using True by (simp add: normalizeUploadPath_def)
next
  case False
  then obtain d f where "validStorageObjectID i" "(d, f) \<in> upload_keys i" "k = d @ ''/'' @ f" "env_safe env k"
    "a = env_root env @ ''/'' @ k"
    using normalize_Inr [OF assms] by auto
  then show ?thesis using normalize_key [OF assms(1), of i d f] by simp
qed

lemma migrate_paths_first:
  assumes root: "clean_root (env_root env)"
  shows "migrate_paths env us = Inr us' \<Longrightarrow> sql_first (\<lambda>u. su_id u = i) us = Some u \<Longrightarrow> scanUpload env u = Inr v \<Longrightarrow>
    \<exists>u'. sql_first (\<lambda>u. su_id u = i) us' = Some u' \<and> scanUpload env u' = Inr v"
proof (induction us arbitrary: us')
  case (Cons w us)
  obtain k a xs where k: "normalizeUploadPath env (su_id w) (su_path w) = Inr (k, a)" "migrate_paths env us = Inr xs"
    "us' = w\<lparr>su_path := k\<rparr> # xs"
    using Cons.prems(1) by (auto split: sum.splits prod.splits)
  show ?case
  proof (cases "su_id w = i")
    case True
    then show ?thesis using Cons.prems(2,3) k normalize_twice [OF root k(1)] by (auto simp: scanUpload_def)
  qed (use Cons k in auto)
qed simp

lemma migrate_paths_kept:
  assumes "clean_root (env_root (mc_env cfg))" "migrateStorageUploadPaths (mc_env cfg) db = (r, db')"
  shows "records_kept cfg db db'"
  using assms(2) migrate_paths_first [OF assms(1)]
  by (fastforce simp: migrateStorageUploadPaths_def records_kept_def known_first split: sum.splits)

lemma ensure_record_step:
  assumes root: "clean_root (env_root (mc_env cfg))" and v: "validStorageObjectID (u_id (mu_row m))"
    and run: "ensureStorageMigrationRecord (mc_env cfg) (expected_record cfg m) db = (r, db')"
  shows "records_kept cfg db db'" and "r = Inr b \<Longrightarrow> record_agrees cfg m True db'"
proof -
  let ?i = "u_id (mu_row m)" and ?e = "expected_record cfg m"
  have e: "su_id ?e = ?i" "su_path ?e = node_object_path (mc_env cfg) ?i"
    by (simp_all add: expected_record_def Let_def node_object_path_def)
  show "records_kept cfg db db'"
    using run records_kept_append [of _ db]
    by (auto simp: ensureStorageMigrationRecord_def Let_def split: sum.splits if_splits)
  assume r: "r = Inr b"
  obtain k a where n: "normalizeUploadPath (mc_env cfg) ?i (su_path ?e) = Inr (k, a)" "k = storageUploadPathKey ''objects'' ?i ''.blob''"
    using run r by (auto simp: ensureStorageMigrationRecord_def e(1) split: sum.splits if_splits)
  have "k \<noteq> ''''" using n(2) by (simp add: storageUploadPathKey_def)
  then have "a = env_root (mc_env cfg) @ ''/'' @ k" using normalize_Inr [OF root n(1)] by auto
  then have "a = su_path ?e" using n(2) node_object_path_eq [OF root v] by (simp add: storageUploadPathKey_def e(2))
  then have "?e\<lparr>su_path := a\<rparr> = ?e" by simp
  then have "\<exists>w. storage_UploadByID (mc_env cfg) ?i db' = Inr w \<and> storageMigrationRecordMismatch ?e w = []"
    using run r n by (auto simp: ensureStorageMigrationRecord_def Let_def e(1) split: sum.splits if_splits)
  then show "record_agrees cfg m True db'"
    unfolding agrees_known known_first by (auto simp: storage_UploadByID_def split: option.splits)
qed

section \<open>Placement\<close>

definition served :: "migration_config \<Rightarrow> migration_state \<Rightarrow> upload \<Rightarrow> bool" where
  "served cfg s u \<longleftrightarrow> u_storage_kind u = StorageKindNode \<and> node_placed (mc_nodeID cfg) u \<and>
     holds_object cfg (node_object_path (mc_env cfg) (u_id u)) u (ms_files s) \<and>
     (\<exists>m. scanStorageMigrationUpload (ms_control s) u = Inr m \<and> record_agrees cfg m True (ms_storage s))"

definition later :: "migration_config \<Rightarrow> migration_state \<Rightarrow> migration_state \<Rightarrow> bool" where
  "later cfg s s' \<longleftrightarrow> transfers (ms_control s') = transfers (ms_control s) \<and>
     (\<forall>p. ms_files s p \<noteq> None \<longrightarrow> ms_files s' p = ms_files s p) \<and> records_kept cfg (ms_storage s) (ms_storage s')"

lemma later_refl [simp]: "later cfg s s"
  by (simp add: later_def)

lemma later_trans: "later cfg s s1 \<Longrightarrow> later cfg s1 s2 \<Longrightarrow> later cfg s s2"
  by (auto simp: later_def intro: records_kept_trans)

lemma scan_transfers: "transfers db' = transfers db \<Longrightarrow> scanStorageMigrationUpload db' u = scanStorageMigrationUpload db u"
  by (simp add: scanStorageMigrationUpload_def)

lemma served_later:
  assumes "served cfg s u" "later cfg s s'"
  shows "served cfg s' u"
proof -
  let ?p = "node_object_path (mc_env cfg) (u_id u)"
  obtain m where sv: "u_storage_kind u = StorageKindNode" "node_placed (mc_nodeID cfg) u"
    "scanStorageMigrationUpload (ms_control s) u = Inr m" "record_agrees cfg m True (ms_storage s)"
    using assms(1) unfolding served_def by blast
  have h: "holds_object cfg ?p u (ms_files s)" using assms(1) by (simp add: served_def)
  then have "ms_files s' ?p = ms_files s ?p" using holds_exists assms(2) by (auto simp: later_def)
  then have "holds_object cfg ?p u (ms_files s')" using holds_cong [OF h] by simp
  moreover have "scanStorageMigrationUpload (ms_control s') u = scanStorageMigrationUpload (ms_control s) u"
    using assms(2) by (intro scan_transfers) (simp add: later_def)
  moreover have "record_agrees cfg m True (ms_storage s')"
    using agrees_kept [OF sv(4)] assms(2) unfolding later_def by blast
  ultimately show ?thesis using sv unfolding served_def by (intro conjI exI [of _ m]) simp_all
qed


definition row_step :: "migration_config \<Rightarrow> migration_state \<Rightarrow> upload \<Rightarrow> upload \<Rightarrow> bool" where
  "row_step cfg s' u u' \<longleftrightarrow> u' = u \<or>
     u_status u = Ready \<and> u_storage_kind u = StorageKindLocal \<and> u' = place_on_node (mc_nodeID cfg) u \<and> served cfg s' u'"



lemma place_fields [simp]:
  "u_id (place_on_node n u) = u_id u" "u_status (place_on_node n u) = u_status u" "u_length (place_on_node n u) = u_length u"
  "u_sha256 (place_on_node n u) = u_sha256 u" "u_storage_kind (place_on_node n u) = StorageKindNode"
  "u_transfer_id (place_on_node n u) = u_transfer_id u" "node_placed n (place_on_node n u)"
  by (simp_all add: place_on_node_def node_placed_def)

lemma row_step_same: "row_step cfg s' u u' \<Longrightarrow> u_id u' = u_id u \<and> u_status u' = u_status u"
  by (auto simp: row_step_def)

lemma row_step_served: "row_step cfg s2 u u' \<Longrightarrow> served cfg s1 u \<Longrightarrow> u' = u"
  by (auto simp: row_step_def served_def)

lemma row_step_trans:
  assumes "row_step cfg s1 u u'" "row_step cfg s2 u' u''" "later cfg s1 s2"
  shows "row_step cfg s2 u u''"
proof (cases "u' = u")
  case False
  then have p: "u_status u = Ready" "u_storage_kind u = StorageKindLocal" "u' = place_on_node (mc_nodeID cfg) u" "served cfg s1 u'"
    using assms(1) unfolding row_step_def by blast+
  then have "u'' = u'" using row_step_served [OF assms(2)] by blast
  then show ?thesis using p served_later [OF p(4) assms(3)] unfolding row_step_def by blast
qed (use assms(2) in simp)

lemma rows_trans:
  assumes "list_all2 (row_step cfg s1) us us'" "list_all2 (row_step cfg s2) us' us''" "later cfg s1 s2"
  shows "list_all2 (row_step cfg s2) us us''"
proof -
  have "row_step cfg s1 a b \<Longrightarrow> row_step cfg s2 b c \<Longrightarrow> row_step cfg s2 a c" for a b c
    using row_step_trans assms(3) by blast
  from list_all2_trans [OF this assms(1,2)] show ?thesis .
qed

lemma rows_refl [simp]: "list_all2 (row_step cfg s) us us"
  by (simp add: list_all2_refl row_step_def)

lemma rows_keyed: "list_all2 (row_step cfg s) us us' \<Longrightarrow> keyed u_id us \<Longrightarrow> keyed u_id us'"
proof -
  assume r: "list_all2 (row_step cfg s) us us'" and k: "keyed u_id us"
  from r have "map u_id us' = map u_id us" by (induction rule: list_all2_induct) (auto dest: row_step_same)
  then show ?thesis using k by (simp add: keyed_def)
qed

lemma rows_image: "list_all2 R us us' \<Longrightarrow> u \<in> set us \<Longrightarrow> \<exists>u' \<in> set us'. R u u'"
  by (induction rule: list_all2_induct) auto

lemma rows_preimage: "list_all2 R us us' \<Longrightarrow> u' \<in> set us' \<Longrightarrow> \<exists>u \<in> set us. R u u'"
  by (induction rule: list_all2_induct) auto

lemma same_metadata_expected:
  assumes "sameStorageMigrationMetadata l r"
  shows "expected_record cfg l = expected_record cfg r" "u_id (mu_row l) = u_id (mu_row r)"
    "u_length (mu_row l) = u_length (mu_row r)" "u_sha256 (mu_row l) = u_sha256 (mu_row r)"
  using assms by (auto simp: sameStorageMigrationMetadata_def expected_record_def Let_def)

lemma switch_step:
  assumes keyed: "keyed u_id (uploads db)" and run: "switchStorageMigrationControl c db = (Inr b, db')"
  obtains u m where "u \<in> set (uploads db)" "scanStorageMigrationUpload db u = Inr m" "mu_row m = u"
    "sameStorageMigrationMetadata m (ca_upload c)" "u_status u = Ready"
    "db' = db \<and> u_storage_kind u = StorageKindNode \<and> node_placed (ca_nodeID c) u \<or>
     u_storage_kind u = StorageKindLocal \<and> db' = db\<lparr>uploads := map (\<lambda>x. if x = u then place_on_node (ca_nodeID c) u else x) (uploads db)\<rparr>"
proof -
  obtain u where u: "sql_first (\<lambda>u. u_id u = u_id (mu_row (ca_upload c))) (uploads db) = Some u"
    using run by (auto simp: switchStorageMigrationControl_def Let_def split: option.splits)
  obtain m where m: "scanStorageMigrationUpload db u = Inr m"
    using run u by (auto simp: switchStorageMigrationControl_def Let_def split: sum.splits)
  have row: "mu_row m = u" using m by (auto simp: scanStorageMigrationUpload_def split: option.splits)
  note defs = run [unfolded switchStorageMigrationControl_def Let_def u option.case m sum.case]
  have mem: "u \<in> set (uploads db)" using sql_firstD [OF u] by simp
  have ok: "sameStorageMigrationMetadata m (ca_upload c)" "u_status u = Ready" using defs by (auto split: if_splits)
  have only: "x = u" if "x \<in> set (uploads db)" "unchanged_row u x" for x
    using keyed_unique [OF keyed that(1) mem] that(2) by (simp add: unchanged_row_def)
  have "db' = db \<and> u_storage_kind u = StorageKindNode \<and> node_placed (ca_nodeID c) u \<or>
     u_storage_kind u = StorageKindLocal \<and> db' = db\<lparr>uploads := map (\<lambda>x. if x = u then place_on_node (ca_nodeID c) u else x) (uploads db)\<rparr>"
  proof (cases "u_storage_kind u = StorageKindNode")
    case False
    then have l: "u_storage_kind u = StorageKindLocal" "u_storage_node_id u = ''''" "u_storage_key u = ''''"
      "u_storage_version u = StoragePlacementVersionV1"
      and d: "db' = db\<lparr>uploads := sql_update (unchanged_row u) (place_on_node (ca_nodeID c)) (uploads db)\<rparr>"
      using defs by (auto split: if_splits)
    have "unchanged_row u u" using l ok(2) by (simp add: unchanged_row_def)
    then have "sql_update (unchanged_row u) (place_on_node (ca_nodeID c)) (uploads db) =
      map (\<lambda>x. if x = u then place_on_node (ca_nodeID c) u else x) (uploads db)"
      using only by (auto simp: sql_update_def)
    then show ?thesis using l(1) d by simp
  qed (use defs in \<open>auto split: if_splits\<close>)
  from that [OF mem m row ok this] show thesis .
qed


section \<open>The run\<close>

definition prepared :: "migration_config \<Rightarrow> migration_state \<Rightarrow> storageMigrationCandidate \<Rightarrow> bool" where
  "prepared cfg s c \<longleftrightarrow> validStorageObjectID (u_id (mu_row (ca_upload c))) \<and>
     ca_targetPath c = node_object_path (mc_env cfg) (u_id (mu_row (ca_upload c))) \<and> ca_nodeID c = mc_nodeID cfg \<and>
     ca_expected c = expected_record cfg (ca_upload c) \<and> (\<not> ca_alreadyPlaced c \<longrightarrow> target_usable cfg c (ms_files s))"

text \<open>\<^verbatim>\<open>CreateTemp\<close> picks names of the pattern \<^verbatim>\<open>.<id>.migration-*\<close>, never that of an object.\<close>

definition temp_names_apart :: "storage_env \<Rightarrow> migration_io \<Rightarrow> bool" where
  "temp_names_apart env io \<longleftrightarrow> (\<forall>i j. validStorageObjectID j \<longrightarrow> fst (mi_temp io i) \<noteq> node_object_path env j)"

lemma migrate_one:
  assumes root: "clean_root (env_root (mc_env cfg))" and prep: "prepared cfg s c" "\<not> ca_alreadyPlaced c"
    and keyed: "keyed u_id (uploads (ms_control s))"
    and obj: "ensureStorageMigrationObject cfg io c (ms_files s) = (Inr reused, fs)"
    and rec: "ensureStorageMigrationRecord (mc_env cfg) (ca_expected c) (ms_storage s) = (Inr created, st)"
    and switch: "switchStorageMigrationControl c (ms_control s) = (Inr changed, db)"
    and s': "s' = \<lparr>ms_control = db, ms_storage = st, ms_files = fs\<rparr>"
  shows "later cfg s s'" and "list_all2 (row_step cfg s') (uploads (ms_control s)) (uploads (ms_control s'))"
    and "\<exists>u \<in> set (uploads (ms_control s')). u_id u = u_id (mu_row (ca_upload c)) \<and> served cfg s' u"
proof -
  note p = prep(1) [unfolded prepared_def]
  have usable: "target_usable cfg c (ms_files s)" using p prep(2) by blast
  obtain u m where u: "u \<in> set (uploads (ms_control s))" "scanStorageMigrationUpload (ms_control s) u = Inr m" "mu_row m = u"
    and same: "sameStorageMigrationMetadata m (ca_upload c)" and ready: "u_status u = Ready"
    and db: "db = ms_control s \<and> u_storage_kind u = StorageKindNode \<and> node_placed (ca_nodeID c) u \<or>
     u_storage_kind u = StorageKindLocal \<and>
     db = ms_control s\<lparr>uploads := map (\<lambda>x. if x = u then place_on_node (ca_nodeID c) u else x) (uploads (ms_control s))\<rparr>"
    using switch_step [OF keyed switch] .
  have adds: "adds_only {ca_targetPath c, fst (mi_temp io (u_id (mu_row (ca_upload c))))} (ms_files s) fs"
    using ensure_object_step(1) [OF obj usable] .
  have e: "ca_expected c = expected_record cfg (ca_upload c)" "validStorageObjectID (u_id (mu_row (ca_upload c)))" using p by blast+
  note rs = ensure_record_step [OF root e(2) rec [unfolded e(1)]]
  have tr: "transfers db = transfers (ms_control s)" using db by auto
  show l: "later cfg s s'" unfolding later_def s' using adds_keeps [OF adds] rs(1) tr by simp
  define w where "w = (if u_storage_kind u = StorageKindNode then u else place_on_node (mc_nodeID cfg) u)"
  have w: "u_id w = u_id u" "u_length w = u_length u" "u_sha256 w = u_sha256 u" "u_storage_kind w = StorageKindNode"
    "node_placed (mc_nodeID cfg) w" "u_transfer_id w = u_transfer_id u"
    using db p by (auto simp: w_def)
  note meta = same_metadata_expected [OF same, unfolded u(3)]
  have "holds_object cfg (ca_targetPath c) (mu_row (ca_upload c)) fs" using ensure_object_step(2) [OF obj usable] by blast
  then have hold: "holds_object cfg (node_object_path (mc_env cfg) (u_id w)) w fs" using p meta w by (simp add: holds_object_def)
  have scan: "scanStorageMigrationUpload db w = Inr (m\<lparr>mu_row := w\<rparr>)"
    using u(2) w(6) tr by (auto simp: scanStorageMigrationUpload_def split: option.splits)
  have "expected_record cfg (m\<lparr>mu_row := w\<rparr>) = expected_record cfg m"
    using u(3) by (simp add: expected_record_def Let_def w_def place_on_node_def)
  then have "record_agrees cfg (m\<lparr>mu_row := w\<rparr>) True st"
    using rs(2) [OF refl] meta w(1) u(3) by (simp add: agrees_known)
  then have sv: "served cfg s' w" unfolding served_def s' using w hold scan by auto
  have up: "uploads db = map (\<lambda>x. if x = u then w else x) (uploads (ms_control s))"
    using db p by (auto simp: w_def map_idI)
  have "u' \<in> set us \<Longrightarrow> row_step cfg s' u' (if u' = u then w else u')" for u' us
    using db p ready sv by (auto simp: row_step_def w_def)
  then show "list_all2 (row_step cfg s') (uploads (ms_control s)) (uploads (ms_control s'))"
    unfolding s' by (simp add: up list_all2_map2 list_all2_same)
  show "\<exists>u \<in> set (uploads (ms_control s')). u_id u = u_id (mu_row (ca_upload c)) \<and> served cfg s' u"
    using u(1) sv w(1) meta(2) by (intro bexI [of _ w]) (auto simp: s' up)
qed


lemma prepared_other:
  assumes root: "clean_root (env_root (mc_env cfg))" and prep: "prepared cfg s c" and v: "validStorageObjectID i"
    and other: "u_id (mu_row (ca_upload c)) \<noteq> i" and apart: "temp_names_apart (mc_env cfg) io"
    and adds: "adds_only {node_object_path (mc_env cfg) i, fst (mi_temp io i)} (ms_files s) (ms_files s')"
  shows "prepared cfg s' c"
proof -
  let ?j = "u_id (mu_row (ca_upload c))"
  have vj: "validStorageObjectID ?j" and t: "ca_targetPath c = node_object_path (mc_env cfg) ?j" using prep unfolding prepared_def by blast+
  have "node_object_path (mc_env cfg) ?j \<noteq> node_object_path (mc_env cfg) i"
    using node_object_path_eq(1) [OF root vj] node_object_path_eq(1) [OF root v] other by simp
  then have "ms_files s' (ca_targetPath c) = ms_files s (ca_targetPath c)"
    using adds apart t vj unfolding adds_only_def temp_names_apart_def by (metis insertE singletonD)
  then show ?thesis using prep holds_cong unfolding prepared_def target_usable_def by metis
qed

lemma migrate_each_step:
  assumes root: "clean_root (env_root (mc_env cfg))" and apart: "temp_names_apart (mc_env cfg) io"
  shows "migrate_each cfg io cs rp s = (rp', ok, s') \<Longrightarrow> \<forall>c \<in> set cs. prepared cfg s c \<Longrightarrow>
    distinct (map (\<lambda>c. u_id (mu_row (ca_upload c))) cs) \<Longrightarrow> keyed u_id (uploads (ms_control s)) \<Longrightarrow>
    later cfg s s' \<and> list_all2 (row_step cfg s') (uploads (ms_control s)) (uploads (ms_control s')) \<and>
    (ok \<longrightarrow> (\<forall>c \<in> set cs. \<not> ca_alreadyPlaced c \<longrightarrow>
       (\<exists>u \<in> set (uploads (ms_control s')). u_id u = u_id (mu_row (ca_upload c)) \<and> served cfg s' u)))"
proof (induction cs arbitrary: rp s)
  case (Cons c cs)
  let ?i = "u_id (mu_row (ca_upload c))"
  have prep: "prepared cfg s c" using Cons.prems(2) by simp
  have v: "validStorageObjectID ?i" and t: "ca_targetPath c = node_object_path (mc_env cfg) ?i" using prep unfolding prepared_def by blast+
  have rest: "\<forall>d \<in> set cs. prepared cfg s d \<and> u_id (mu_row (ca_upload d)) \<noteq> ?i" "distinct (map (\<lambda>c. u_id (mu_row (ca_upload c))) cs)"
    using Cons.prems(2,3) by (auto simp: image_iff)
  show ?case
  proof (cases "ca_alreadyPlaced c")
    case True
    then show ?thesis using Cons.IH [of _ s] Cons.prems rest by auto
  next
    case fresh: False
    then have usable: "target_usable cfg c (ms_files s)" using prep by (simp add: prepared_def)
    obtain r fs where obj: "ensureStorageMigrationObject cfg io c (ms_files s) = (r, fs)" by (cases "ensureStorageMigrationObject cfg io c (ms_files s)") auto
    note adds = ensure_object_step(1) [OF obj usable]
    have keep: "later cfg s (s\<lparr>ms_files := fs\<rparr>)" using adds_keeps [OF adds] by (simp add: later_def)
    obtain r2 st where rec: "ensureStorageMigrationRecord (mc_env cfg) (ca_expected c) (ms_storage s) = (r2, st)"
      by (cases "ensureStorageMigrationRecord (mc_env cfg) (ca_expected c) (ms_storage s)") auto
    have e: "ca_expected c = expected_record cfg (ca_upload c)" using prep by (simp add: prepared_def)
    have keep2: "later cfg s (s\<lparr>ms_files := fs, ms_storage := st\<rparr>)"
      using keep ensure_record_step(1) [OF root v rec [unfolded e]] by (simp add: later_def)
    obtain r3 db where switch: "switchStorageMigrationControl c (ms_control s) = (r3, db)"
      by (cases "switchStorageMigrationControl c (ms_control s)") auto
    have stuck: "r3 = Inl x \<Longrightarrow> db = ms_control s" for x
      using switch by (auto simp: switchStorageMigrationControl_def Let_def split: option.splits sum.splits if_splits)
    show ?thesis
    proof (cases "\<exists>a b d. r = Inr a \<and> r2 = Inr b \<and> r3 = Inr d")
      case True
      then obtain a b d where rs: "r = Inr a" "r2 = Inr b" "r3 = Inr d" by blast
      define s1 where "s1 = \<lparr>ms_control = db, ms_storage = st, ms_files = fs\<rparr>"
      have s1: "s\<lparr>ms_files := fs, ms_storage := st, ms_control := db\<rparr> = s1" by (simp add: s1_def)
      note one = migrate_one [OF root prep fresh Cons.prems(4) obj [unfolded rs] rec [unfolded rs] switch [unfolded rs] s1_def]
      obtain rp1 where run: "migrate_each cfg io cs rp1 s1 = (rp', ok, s')"
        using Cons.prems(1) fresh obj rec switch rs s1 by (auto simp: Let_def)
      have "\<forall>d \<in> set cs. prepared cfg s1 d"
        using prepared_other [OF root _ v _ apart] adds rest(1) unfolding t by (auto simp: s1_def)
      note ih = Cons.IH [OF run this rest(2) rows_keyed [OF one(2) Cons.prems(4)]]
      then have l: "later cfg s1 s'" and all2: "list_all2 (row_step cfg s') (uploads (ms_control s1)) (uploads (ms_control s'))" by blast+
      obtain u where u: "u \<in> set (uploads (ms_control s1))" "u_id u = ?i" "served cfg s1 u" using one(3) by blast
      obtain u' where "u' \<in> set (uploads (ms_control s'))" "row_step cfg s' u u'" using rows_image [OF all2 u(1)] by blast
      then have "u \<in> set (uploads (ms_control s'))" using row_step_served u(3) by blast
      then have c: "\<exists>u \<in> set (uploads (ms_control s')). u_id u = ?i \<and> served cfg s' u" using u(2) served_later [OF u(3) l] by blast
      show ?thesis using later_trans [OF one(1) l] rows_trans [OF one(2) all2 l] c ih by auto
    next
      case False
      then have "\<not> ok \<and> (s' = s\<lparr>ms_files := fs\<rparr> \<or> s' = s\<lparr>ms_files := fs, ms_storage := st\<rparr>)"
        using Cons.prems(1) fresh obj rec switch stuck by (cases r; cases r2; cases r3) (auto simp: Let_def)
      then show ?thesis using keep keep2 by auto
    qed
  qed
qed simp


lemma audit_result:
  assumes "path_IsAbs (mc_sourceRoot cfg)" "auditStorageMigration cfg io s = (rp, Inr cs)" "keyed u_id (uploads (ms_control s))"
  shows "\<forall>c \<in> set cs. audited cfg s c" and "distinct (map (\<lambda>c. u_id (mu_row (ca_upload c))) cs)"
    and "u \<in> set (uploads (ms_control s)) \<Longrightarrow> u_status u = Ready \<Longrightarrow> \<exists>c \<in> set cs. mu_row (ca_upload c) = u"
proof -
  let ?ready = "filter (\<lambda>u. u_status u = Ready) (uploads (ms_control s))"
  let ?rows = "sort_key (\<lambda>u. (u_created_at u, u_id u)) ?ready"
  obtain rp0 where "audit_rows cfg io s ?rows rp0 [] False = (rp, Inr cs)"
    using assms(2) by (auto simp: auditStorageMigration_def split: prod.splits if_splits)
  from audit_rows_step [OF assms(1) this]
  show "\<forall>c \<in> set cs. audited cfg s c" and "distinct (map (\<lambda>c. u_id (mu_row (ca_upload c))) cs)"
    and "u \<in> set (uploads (ms_control s)) \<Longrightarrow> u_status u = Ready \<Longrightarrow> \<exists>c \<in> set cs. mu_row (ca_upload c) = u"
  proof -
    assume a: "\<not> False \<and> (\<exists>cs'. cs = [] @ cs' \<and> map (\<lambda>c. mu_row (ca_upload c)) cs' = ?rows \<and> (\<forall>c \<in> set cs'. audited cfg s c))"
    then have rows: "map (\<lambda>c. mu_row (ca_upload c)) cs = ?rows" by auto
    from a show "\<forall>c \<in> set cs. audited cfg s c" by auto
    have "keyed u_id ?ready" using assms(3) by (simp add: keyed_def distinct_map_filter)
    then have inj: "inj_on u_id (set ?rows)" and d: "distinct ?rows" by (simp_all add: keyed_def distinct_map)
    have "distinct (map u_id ?rows)" using d inj by (simp add: distinct_map)
    then have "distinct (map u_id (map (\<lambda>c. mu_row (ca_upload c)) cs))" by (simp only: rows)
    then show "distinct (map (\<lambda>c. u_id (mu_row (ca_upload c))) cs)" by (simp add: comp_def)
    assume "u \<in> set (uploads (ms_control s))" "u_status u = Ready"
    then have "u \<in> set (map (\<lambda>c. mu_row (ca_upload c)) cs)" unfolding rows by simp
    then show "\<exists>c \<in> set cs. mu_row (ca_upload c) = u" by auto
  qed
qed

lemma audited_prepared:
  assumes "clean_root (env_root (mc_env cfg))" "audited cfg s c" "ms_files s1 = ms_files s"
  shows "prepared cfg s1 c"
  using assms node_object_path_eq(2) [OF assms(1)] by (auto simp: audited_def prepared_def target_usable_def Let_def)

lemma audited_served:
  assumes "audited cfg s c" "ca_alreadyPlaced c"
  shows "served cfg s (mu_row (ca_upload c))"
  using assms unfolding audited_def served_def Let_def by auto

section \<open>Property\<close>

text \<open>C36. The offline migration loses no file. It leaves every file that existed as it was, whatever call
  fails; a row of the control plane stays as it was or was a ready local one that is now placed on the node,
  and then the node holds a regular file with the digest of the row and a matching clean record; what the node
  knew before it still knows. When an applied run succeeds, every ready upload is served by the node; without
  apply nothing changes.\<close>

theorem migration_serves_every_file:
  assumes root: "clean_root (env_root (mc_env cfg))" and src: "path_IsAbs (mc_sourceRoot cfg)"
    and apart: "temp_names_apart (mc_env cfg) io3" and keyed: "keyed u_id (uploads (ms_control s))"
    and run: "RunStorageMigration cfg io1 io2 io3 quick s = ((rp, ok), s')"
  shows "(\<forall>p. ms_files s p \<noteq> None \<longrightarrow> ms_files s' p = ms_files s p) \<and>
    (\<forall>i v. known_record cfg i (ms_storage s) v \<longrightarrow> known_record cfg i (ms_storage s') v) \<and>
    list_all2 (\<lambda>u u'. u' = u \<or> u_status u = Ready \<and> u_storage_kind u = StorageKindLocal \<and>
      u' = place_on_node (mc_nodeID cfg) u \<and> served cfg s' u') (uploads (ms_control s)) (uploads (ms_control s')) \<and>
    (ok \<and> mc_apply cfg \<longrightarrow> (\<forall>u \<in> set (uploads (ms_control s')). u_status u = Ready \<longrightarrow> served cfg s' u)) \<and>
    (\<not> mc_apply cfg \<longrightarrow> s' = s)"
proof -
  have steps: "(\<lambda>u u'. u' = u \<or> u_status u = Ready \<and> u_storage_kind u = StorageKindLocal \<and>
      u' = place_on_node (mc_nodeID cfg) u \<and> served cfg s' u') = row_step cfg s'"
    by (intro ext) (simp add: row_step_def)
  obtain st r where paths: "migrateStorageUploadPaths (mc_env cfg) (ms_storage s) = (r, st)"
    by (cases "migrateStorageUploadPaths (mc_env cfg) (ms_storage s)") auto
  define s1 where "s1 = s\<lparr>ms_storage := st\<rparr>"
  have l1: "later cfg s s1" using migrate_paths_kept [OF root paths] by (simp add: later_def s1_def)
  consider "s' = s" "\<not> (ok \<and> mc_apply cfg)" | "s' = s1" "\<not> ok" "mc_apply cfg"
    | rp2 rp2' cs ok' where "mc_apply cfg" "auditStorageMigration cfg io2 s = (rp2, Inr cs)"
      "migrate_each cfg io3 cs rp2 s1 = (rp2', ok', s')" "ok \<longrightarrow> ok'"
    using run paths unfolding RunStorageMigration_def s1_def
    by (auto simp: finishStorageMigration_def split: prod.splits sum.splits if_splits)
  then show ?thesis
  proof cases
    case 1
    then show ?thesis unfolding steps by auto
  next
    case 2
    then show ?thesis unfolding steps using l1 by (simp add: later_def records_kept_def s1_def)
  next
    case 3
    note audit = audit_result [OF src 3(2) keyed]
    have "\<forall>c \<in> set cs. prepared cfg s1 c" using audit(1) by (intro ballI audited_prepared [OF root, of s]) (auto simp: s1_def)
    moreover have "keyed u_id (uploads (ms_control s1))" using keyed by (simp add: s1_def)
    ultimately have done1: "later cfg s1 s'" "list_all2 (row_step cfg s') (uploads (ms_control s)) (uploads (ms_control s'))"
      and placed: "ok' \<Longrightarrow> c \<in> set cs \<Longrightarrow> \<not> ca_alreadyPlaced c \<Longrightarrow>
        \<exists>u \<in> set (uploads (ms_control s')). u_id u = u_id (mu_row (ca_upload c)) \<and> served cfg s' u" for c
      using migrate_each_step [OF root apart 3(3) _ audit(2)] by (auto simp: s1_def)
    have l: "later cfg s s'" using later_trans [OF l1 done1(1)] .
    have all: "served cfg s' u'" if u': "ok" "u' \<in> set (uploads (ms_control s'))" "u_status u' = Ready" for u'
    proof -
      obtain u where u: "u \<in> set (uploads (ms_control s))" "row_step cfg s' u u'"
        using rows_preimage [OF done1(2) u'(2)] by blast
      obtain c where c: "c \<in> set cs" "mu_row (ca_upload c) = u"
        using audit(3) [OF u(1)] row_step_same [OF u(2)] u'(3) by auto
      show ?thesis
      proof (cases "ca_alreadyPlaced c")
        case True
        then have "served cfg s u" using audited_served audit(1) c by blast
        then show ?thesis using row_step_served [OF u(2)] served_later l by blast
      next
        case False
        then obtain w where w: "w \<in> set (uploads (ms_control s'))" "u_id w = u_id u'" "served cfg s' w"
          using placed [OF _ c(1)] 3(4) u'(1) row_step_same [OF u(2)] c(2) by auto
        then show ?thesis using keyed_unique [OF rows_keyed [OF done1(2) keyed] w(1) u'(2)] by simp
      qed
    qed
    show ?thesis unfolding steps using l done1(2) all 3(1) by (auto simp: later_def records_kept_def)
  qed
qed


definition demo_migration :: migration_config where
  "demo_migration = \<lparr>mc_crypto = demo_crypto, mc_env = demo_env, mc_sourceRoot = ''/old/objects'', mc_nodeID = ''node-1'', mc_apply = True,
     mc_copyOnly = True, mc_plain_source = (\<lambda>p. True)\<rparr>"

definition calm :: migration_io where
  "calm = \<lparr>mi_fails = (\<lambda>st p. False), mi_temp = (\<lambda>i. (''/data/objects/.migration-1'', 8))\<rparr>"

definition demo_installation :: migration_state where
  "demo_installation =
     \<lparr>ms_control = owner_demo\<lparr>uploads := [node_upload\<lparr>u_id := ''upload-01'', u_status := Ready, u_length := 4, u_offset := 4,
        u_object_path := ''objects/upload-01.blob'', u_sha256 := hex_encode (cr_sha256 demo_crypto ''ABCD''), u_storage_kind := StorageKindLocal,
        u_storage_node_id := '''', u_storage_key := ''''\<rparr>]\<rparr>,
      ms_storage = empty_store, ms_files = [''/old/objects/upload-01.blob'' \<mapsto> Regular 7 ''ABCD'']\<rparr>"

lemma demo_apart: "temp_names_apart (mc_env demo_migration) calm"
proof -
  have "''/data/objects/.migration-1'' \<noteq> node_object_path demo_env j" if "validStorageObjectID j" for j
  proof
    assume o: "''/data/objects/.migration-1'' = node_object_path demo_env j"
    have "clean_root (env_root demo_env)" by code_simp
    then have "List.last (node_object_path demo_env j) = CHR ''b''" using node_object_path_eq(1) that by simp
    then show False unfolding o [symmetric] by simp
  qed
  then show ?thesis unfolding temp_names_apart_def calm_def demo_migration_def by simp
qed

lemma demo_migrated:
  "case RunStorageMigration demo_migration calm calm calm (True, True) demo_installation of ((rp, ok), s') \<Rightarrow>
     ok \<and> rp_Imported rp = 1 \<and> map u_status (uploads (ms_control s')) = [Ready]"
  by code_simp

theorem migration_serves_every_file_witness:
  "case RunStorageMigration demo_migration calm calm calm (True, True) demo_installation of ((rp, ok), s') \<Rightarrow>
     ok \<and> rp_Imported rp = 1 \<and> ms_files s' ''/old/objects/upload-01.blob'' = Some (Regular 7 ''ABCD'') \<and>
     map (\<lambda>u. (u_status u, served demo_migration s' u)) (uploads (ms_control s')) = [(Ready, True)]"
proof -
  obtain rp ok s' where run: "RunStorageMigration demo_migration calm calm calm (True, True) demo_installation = ((rp, ok), s')"
    by (metis surj_pair)
  have r: "ok" "rp_Imported rp = 1" "map u_status (uploads (ms_control s')) = [Ready]" using demo_migrated run by simp_all
  then obtain u where u: "uploads (ms_control s') = [u]" "u_status u = Ready" by (cases "uploads (ms_control s')") auto
  have pre: "clean_root (env_root (mc_env demo_migration))" "path_IsAbs (mc_sourceRoot demo_migration)"
    "keyed u_id (uploads (ms_control demo_installation))" "mc_apply demo_migration"
    "ms_files demo_installation ''/old/objects/upload-01.blob'' = Some (Regular 7 ''ABCD'')"
    by code_simp+
  from migration_serves_every_file [OF pre(1,2) demo_apart pre(3) run] show ?thesis
    using r(1,2) u pre(4,5) by (simp add: run)
qed

end
