(* ===== verification/Spec2Isabelle.thy ===== *)
theory Spec2Isabelle
  imports Traffic_Properties Download_Properties Rate_Limits Upload_Properties
    Commerce_Properties Redemption_Properties Identity_Properties Settings_Properties Human_Properties System_Integrity
    Migration_Properties
begin

text \<open>
  QuickTransfer: a verification library of its control plane and its storage nodes.

  \<^bold>\<open>The program.\<close> QuickTransfer is a file transfer service. The \<^emph>\<open>control plane\<close> (src/internal/app,
  store.go and the *_store.go files) keeps users, transfers, uploads, retrieval sessions, orders and
  redemption codes in one SQLite database. A \<^emph>\<open>storage node\<close> (storage_node.go, storage_store.go,
  storage_paths.go) holds the bytes of uploads that were placed on it, scans them (scanner.go), serves
  them and reports to the control plane through an outbox. The two talk in signed requests and hand out
  signed tickets (storage_protocol.go, security.go). Background loops (worker.go) scan, expire and
  clean up.

  \<^bold>\<open>How the code is modelled.\<close> A table is the list of its rows (\<open>QT_Prelude\<close>), a row is a record
  with the columns the modelled statements read, and a database is a record of tables: \<open>cdb\<close> of
  \<open>Control_Schema\<close> for the control plane, \<open>sdb\<close> of \<open>Storage_Store\<close> for a node. An operation of a store
  is a function from a database to a result, an error or a value, and the database after it. A
  transaction is one step, since SQLite serialises writers; every error return carries the database
  the code leaves behind, which is the one before the transaction when it rolls back and the changed
  one where the code commits and then refuses (wrong verification codes, for one). Go's integers are
  \<open>int\<close> where the code keeps them far from their bounds and are cut to 64 bits (\<open>i64\<close> of the prelude, or
  \<open>64 word\<close>) where a sum, a shift or a parsed number can leave them. Times are Unix seconds, as the
  columns are; nanoseconds where the code compares \<^verbatim>\<open>time.Time\<close> values. Text is a list of bytes, and a
  Chinese literal of the source is its UTF-8. The clock, random identifiers, random bytes and claim
  tokens are arguments. Cryptography (HMAC, SHA-256, Argon2id, AES-GCM), web services and JSON decoders are
  parameters; the laws used of them are named hypotheses of the properties that
  need them, each with a witness.

  \<^bold>\<open>The theories of the control plane.\<close>

    \<^item> \<open>QT_Prelude\<close>, \<open>Control_Schema\<close>, \<open>Go_Library\<close>: errors, 64-bit arithmetic, the fragment of SQL, the
      tables with accessors and preservation lemmas, and the functions of Go's library that stores use.
    \<^item> \<open>Upload_Traffic\<close>, \<open>Traffic_Settle\<close>, \<open>Traffic_Properties\<close> (commerce_store.go): the ledger of
      upload traffic: reserve, settle, refund. \<open>debit_all\<close> is the reference the debit loop is compared
      with; the locale \<open>upload_ledger\<close> states what later components rely on. C1 to C4.
    \<^item> \<open>Retrieval\<close>, \<open>Downloads\<close>, \<open>Slots\<close>, \<open>Download_Properties\<close> (retrieval_store.go,
      commerce_store.go): sessions that claim a download slot of a transfer, the reservations inside
      them, and the state machine \<open>download_step\<close> of all of them. C5 to C7.
    \<^item> \<open>Rate_Limits\<close> (commerce_store.go, security.go, email_store.go): persistent buckets and the
      in-memory limiter, both instances of the locale \<open>window_limiter\<close>, and mail limits. C8.
    \<^item> \<open>Transfers\<close>, \<open>Upload_Lifecycle\<close>, \<open>Upload_Properties\<close> (store.go, remote_store.go, worker.go):
      creation under quota, scanning, deletion, maintenance; the state machine \<open>upload_step\<close>. C9 to C12.
    \<^item> \<open>Membership\<close>, \<open>Redemption\<close>, \<open>Orders\<close>, \<open>Welfare\<close>, \<open>Identity\<close> (redemption_store.go,
      commerce_store.go, admin_store.go, welfare_store.go, vip_daily_login_store.go, identity_store.go,
      password_change.go): what changes an account. \<open>Commerce_Ledger\<close>, \<open>Traffic_Moves\<close>,
      \<open>Commerce_Steps\<close> show that every operation keeps the points ledger, the origin of benefits and the
      traffic ledger; \<open>Commerce_Properties\<close>, \<open>Redemption_Properties\<close>, \<open>Identity_Properties\<close> conclude for
      every interleaving; the bound on guessed codes counts over runs of all account operations
      (\<open>identity_op\<close>), codes sent again included. C13 to C22.

    \<^item> \<open>Settings\<close>, \<open>Settings_Normal\<close>, \<open>Secret_Envelope\<close>, \<open>Settings_Store\<close>, \<open>Settings_Properties\<close> (settings.go,
      setting_secret_other.go, redemption_code_protection.go, settings_store.go): the settings an administrator
      edits, the rules of a stored version and what they do when applied again, the protection of secrets, and the tables of settings, revisions,
      legal documents and risk events, a record \<open>policy_db\<close> of their own; its archive of documents is the
      table \<open>legal_documents\<close> that the consents of \<open>Identity\<close> refer to by version and digest. C37 and C38.
    \<^item> \<open>Human_Verification\<close>, \<open>Human_Properties\<close> (human_verification.go, human_verification_server.go): the
      two providers and the gate in front of critical actions. C39 and C40.

  \<^bold>\<open>The theories of a storage node.\<close>

    \<^item> \<open>Storage_Paths\<close>: identifiers, generated keys and the paths a stored row resolves to. C23.
    \<^item> \<open>Storage_Store\<close>: the node's database. \<open>Storage_Outbox\<close> abstracts the outbox to a mailbox with one
      content per event key; \<open>Storage_Steps\<close> collects every operation as the labelled relation \<open>store_step\<close>.
      \<open>Storage_Mailbox\<close> specifies for each operation the exact moves of the mailbox it makes
      (\<open>mail_moves\<close>, run by \<open>run_moves\<close>). \<open>Storage_Properties\<close>, \<open>Storage_Settlement\<close> and \<open>Storage_Files\<close> prove
      the refinement and the invariants of sessions and files. C24 to C28.
    \<^item> \<open>Scanner\<close>: the streaming signature scan equals the scan of the whole content. C29.
    \<^item> \<open>Go_Encoding\<close>, \<open>Go_JSON\<close>, \<open>Storage_Protocol\<close>, \<open>Tickets\<close>: base64, hexadecimal and JSON text, the signed
      requests with the replay guard, and signed tickets. C30 to C32.
    \<^item> \<open>Storage_Delivery\<close>: the delivery loop of the outbox, over the locale \<open>delivery_queue\<close>, which the outbox
      of \<open>Storage_Outbox\<close> interprets. C33.
    \<^item> \<open>Storage_Node\<close>, \<open>Storage_Serving\<close>: the HTTP handlers and workers of a node with its disk.
      \<open>Storage_Content\<close> ties the rows to the bytes on disk, and \<open>Storage_Integrity\<close> is the state machine
      \<open>node_move\<close> of a whole node: handlers and workers whose system calls may fail, processes that are
      killed between two of them, and restarts. C34.

  \<^bold>\<open>The system.\<close>

    \<^item> \<open>Control_Endpoints\<close> (control_storage_server.go, routes of server.go): the signed requests the control
      plane answers to its node.
    \<^item> \<open>Node_Posts\<close>: everything a node ever queues is the report of a download or a verdict, and a verdict is
      \<open>ready\<close> only for a row the node keeps as clean. \<open>Verdict_Delivery\<close>: control plane and node as one state
      machine, \<open>system_step\<close>, with a network that loses, delays and repeats requests but forges none;
      \<open>System_Integrity\<close> concludes that what is offered is what was uploaded, scanned and hashed. C35.
    \<^item> \<open>Storage_Migration\<close>, \<open>Migration_Properties\<close> (storage_migration.go): the offline move of the files of an
      installation without nodes into a node, with both databases and the file system as one state. C36.

  \<^bold>\<open>Modelling decisions to know.\<close>

    \<^item> Errors of the database driver are not modelled: a statement does what it says. Constraint
      violations are (\<open>ErrConstraint\<close>), as are foreign keys, where a modelled statement can violate one.
    \<^item> The handlers of a node that touch one upload run under its lock, so each is one step; what a killed
      process leaves behind are the \<open>torn_\<close> and \<open>late_\<close> rules of \<open>node_move\<close>, and a failing system call
      is a handler run whose \<open>io\<close> argument says which calls fail.
    \<^item> Paths are those of the POSIX build. The check of symbolic links asks the file system, which is the
      parameter \<open>env_safe\<close>.
    \<^item> Lifetimes given as \<^verbatim>\<open>time.Duration\<close> are whole seconds where the code converts them to seconds.
    \<^item> Loops over rows, chunks and allocations are structural recursion. Where a loop is driven from
      outside, its rounds are a list: the random draws of a batch (C17 shows that enough different
      draws suffice), the answers of the control plane to a delivery run (at most 32 rounds, the bound of
      the code), the ticks of a renewal or heartbeat, the attempts of a recovery.

  \<^bold>\<open>Not modelled.\<close> The HTTP front end and its pages (server.go and those *_server.go files that no theory
  above names: routing, cookies, JSON in and out), process and service start (src/cmd), loading of
  configuration, SMTP, the Windows service, DPAPI and disk calls, and opening and migrating
  databases: they call operating system, network and library code and hold no state of the
  service. Administration listings only read. Of a node, the token buckets of its rate limiter (floating
  point), the source address and body deadlines are parameters or left out. The manifest lists every part
  with its reason.
\<close>

end
